(* ===== verification/Py_Prelude.thy ===== *)
theory Py_Prelude
  imports Complex_Main "HOL-Library.AList" "HOL-Library.Product_Lexorder" "HOL-Library.Char_ord"
    "HOL-Library.List_Lexorder"
begin

text \<open>
  The part of Python the components use, and the lemmas they share.

  \<^item> Text is a list of ASCII characters; \<open>strip\<close>, \<open>upper\<close>, \<open>lower\<close>, \<open>isdigit\<close> follow
    CPython on ASCII.
  \<^item> A finite float is the rational number it denotes: arithmetic on it is exact, so the
    rounding of IEEE operations is not modelled; infinities and NaN are values of their own.
  \<^item> A dynamically typed value (\<open>Any\<close>) is a \<open>pyval\<close>; a \<open>dict\<close> with text keys is an
    association list in insertion order.
  \<^item> \<open>int(x)\<close> and \<open>float(x)\<close> return the conversion error they would raise, by its kind,
    because the callers catch some kinds and let others through.
\<close>

named_theorems py_simps \<open>unfolding rules of the Python helpers\<close>

section \<open>Errors as values\<close>

fun ebind :: "'e + 'a \<Rightarrow> ('a \<Rightarrow> 'e + 'b) \<Rightarrow> 'e + 'b" where
  "ebind (Inl e) f = Inl e"
| "ebind (Inr x) f = f x"

lemma ebind_Inr_iff [simp]: "ebind m f = Inr y \<longleftrightarrow> (\<exists>x. m = Inr x \<and> f x = Inr y)"
  by (cases m) auto

lemma ebind_Inl_iff: "ebind m f = Inl e \<longleftrightarrow> m = Inl e \<or> (\<exists>x. m = Inr x \<and> f x = Inl e)"
  by (cases m) auto

lemma ebind_cong_Inr: "m = Inr x \<Longrightarrow> ebind m f = f x"
  by simp

fun emap :: "('a \<Rightarrow> 'e + 'b) \<Rightarrow> 'a list \<Rightarrow> 'e + 'b list" where
  "emap f [] = Inr []"
| "emap f (x # xs) = ebind (f x) (\<lambda>y. ebind (emap f xs) (\<lambda>ys. Inr (y # ys)))"

lemma emap_Inr_length: "emap f xs = Inr ys \<Longrightarrow> length ys = length xs"
  by (induction xs arbitrary: ys) auto

lemma emap_Inr_iff: "emap f xs = Inr ys \<longleftrightarrow> list_all2 (\<lambda>x y. f x = Inr y) xs ys"
  by (induction xs arbitrary: ys) (auto simp: list_all2_Cons1)

lemma emap_id: "(\<And>x. x \<in> set xs \<Longrightarrow> f x = Inr x) \<Longrightarrow> emap f xs = Inr xs"
  by (induction xs) auto

section \<open>Text\<close>

definition py_spaces :: "char list" where
  "py_spaces = [CHR 0x09, CHR 0x0A, CHR 0x0B, CHR 0x0C, CHR 0x0D, CHR 0x1C, CHR 0x1D, CHR 0x1E,
     CHR 0x1F, CHR 0x20]"

definition is_space :: "char \<Rightarrow> bool" where
  "is_space c \<longleftrightarrow> c \<in> set py_spaces"

definition digit_chars :: "char list" where
  "digit_chars = ''0123456789''"

definition is_digit :: "char \<Rightarrow> bool" where
  "is_digit c \<longleftrightarrow> c \<in> set digit_chars"

definition lower_letters :: string where
  "lower_letters = ''abcdefghijklmnopqrstuvwxyz''"

definition upper_letters :: string where
  "upper_letters = ''ABCDEFGHIJKLMNOPQRSTUVWXYZ''"

definition upper_char :: "char \<Rightarrow> char" where
  "upper_char c = (case map_of (zip lower_letters upper_letters) c of None \<Rightarrow> c | Some d \<Rightarrow> d)"

definition lower_char :: "char \<Rightarrow> char" where
  "lower_char c = (case map_of (zip upper_letters lower_letters) c of None \<Rightarrow> c | Some d \<Rightarrow> d)"

definition upper :: "string \<Rightarrow> string" where
  "upper s = map upper_char s"

definition lower :: "string \<Rightarrow> string" where
  "lower s = map lower_char s"

text \<open>\<open>s.strip(chars)\<close>, with the characters given by a predicate.\<close>

definition strip_by :: "(char \<Rightarrow> bool) \<Rightarrow> string \<Rightarrow> string" where
  "strip_by p s = rev (dropWhile p (rev (dropWhile p s)))"

definition strip :: "string \<Rightarrow> string" where
  "strip s = strip_by is_space s"

definition isdigit :: "string \<Rightarrow> bool" where
  "isdigit s \<longleftrightarrow> s \<noteq> [] \<and> list_all is_digit s"

definition startswith :: "string \<Rightarrow> string \<Rightarrow> bool" where
  "startswith s p \<longleftrightarrow> take (length p) s = p"

text \<open>\<open>s.split(sep)\<close> for a one-character separator.\<close>

fun split_on :: "char \<Rightarrow> string \<Rightarrow> string list" where
  "split_on c [] = [[]]"
| "split_on c (x # xs) =
     (if x = c then [] # split_on c xs
      else (case split_on c xs of [] \<Rightarrow> [[x]] | w # ws \<Rightarrow> (x # w) # ws))"

text \<open>\<open>sep.join(parts)\<close>.\<close>

fun join :: "string \<Rightarrow> string list \<Rightarrow> string" where
  "join sep [] = []"
| "join sep [x] = x"
| "join sep (x # xs) = x @ sep @ join sep xs"

subsection \<open>Facts about text\<close>

lemma strip_by_idem [simp]: "strip_by p (strip_by p s) = strip_by p s"
proof -
  define t where "t = dropWhile p s"
  have t: "dropWhile p t = t" by (simp add: t_def dropWhile_idem)
  have "dropWhile p (rev (dropWhile p (rev t))) = rev (dropWhile p (rev t))"
  proof (cases "rev (dropWhile p (rev t))")
    case Nil
    then show ?thesis by (metis dropWhile.simps(1))
  next
    case (Cons x xs)
    have "\<exists>ys. t = rev (dropWhile p (rev t)) @ ys"
      by (metis rev_append rev_rev_ident takeWhile_dropWhile_id)
    with Cons obtain ys where "t = x # xs @ ys" by auto
    with t have "\<not> p x" by (metis dropWhile_eq_self_iff list.distinct(1) list.sel(1))
    with Cons show ?thesis by simp
  qed
  then show ?thesis
    by (simp add: strip_by_def t_def[symmetric] dropWhile_idem)
qed

lemma strip_idem [simp]: "strip (strip s) = strip s"
  by (simp add: strip_def)

lemma strip_Nil [simp]: "strip [] = []"
  by (simp add: strip_def strip_by_def)

lemma dropWhile_eq_append: "\<exists>ys. s = ys @ dropWhile p s"
  by (metis takeWhile_dropWhile_id)

lemma strip_by_subset: "set (strip_by p s) \<subseteq> set s"
  unfolding strip_by_def by (auto dest!: set_dropWhileD)

lemma strip_by_id: "s = [] \<or> (\<not> p (hd s) \<and> \<not> p (last s)) \<Longrightarrow> strip_by p s = s"
proof (cases s rule: rev_cases)
  case Nil
  then show ?thesis by (simp add: strip_by_def)
next
  case (snoc ys y)
  assume a: "s = [] \<or> (\<not> p (hd s) \<and> \<not> p (last s))"
  with snoc have h: "\<not> p (hd s)" "\<not> p y" by auto
  have "dropWhile p s = s"
    using h(1) by (cases s) simp_all
  with h(2) snoc show ?thesis by (simp add: strip_by_def)
qed

lemma strip_by_ends:
  assumes "strip_by p s \<noteq> []"
  shows "\<not> p (hd (strip_by p s)) \<and> \<not> p (last (strip_by p s))"
proof -
  let ?t = "strip_by p s"
  have "dropWhile p (rev ?t) = rev ?t"
    by (simp add: strip_by_def dropWhile_idem)
  then have l: "\<not> p (last ?t)"
    using assms by (metis dropWhile_eq_self_iff hd_rev rev_is_Nil_conv)
  have "dropWhile p ?t = ?t"
  proof -
    have "strip_by p ?t = ?t" by simp
    then have "length (rev (dropWhile p (rev (dropWhile p ?t)))) = length ?t"
      by (simp add: strip_by_def)
    moreover have "length (dropWhile p (rev (dropWhile p ?t))) \<le> length (dropWhile p ?t)"
      using length_dropWhile_le [of p "rev (dropWhile p ?t)"] by simp
    ultimately have "length (dropWhile p ?t) = length ?t"
      using length_dropWhile_le [of p ?t] by simp
    then show ?thesis
      by (metis append_eq_append_conv append_self_conv2 takeWhile_dropWhile_id)
  qed
  then have "\<not> p (hd ?t)"
    using assms by (metis dropWhile_eq_self_iff)
  with l show ?thesis by simp
qed

lemma set_upper_lower_distinct: "set lower_letters \<inter> set upper_letters = {}"
  by (simp add: lower_letters_def upper_letters_def)

lemma upper_char_idem [simp]: "upper_char (upper_char c) = upper_char c"
  by (simp add: upper_char_def lower_letters_def upper_letters_def)

lemma lower_char_idem [simp]: "lower_char (lower_char c) = lower_char c"
  by (simp add: lower_char_def lower_letters_def upper_letters_def)

lemma upper_idem [simp]: "upper (upper s) = upper s"
  by (simp add: upper_def)

lemma lower_idem [simp]: "lower (lower s) = lower s"
  by (simp add: lower_def)

lemma upper_Nil [simp]: "upper [] = []" and lower_Nil [simp]: "lower [] = []"
  by (simp_all add: upper_def lower_def)

lemma upper_eq_Nil [simp]: "upper s = [] \<longleftrightarrow> s = []" and lower_eq_Nil [simp]: "lower s = [] \<longleftrightarrow> s = []"
  by (simp_all add: upper_def lower_def)

lemma is_space_upper_char [simp]: "is_space (upper_char c) = is_space c"
  by (simp add: is_space_def py_spaces_def upper_char_def lower_letters_def upper_letters_def)

lemma is_space_lower_char [simp]: "is_space (lower_char c) = is_space c"
  by (simp add: is_space_def py_spaces_def lower_char_def lower_letters_def upper_letters_def)

lemma strip_map_by: "(\<And>c. p (f c) = p c) \<Longrightarrow> strip_by p (map f s) = map f (strip_by p s)"
  by (simp add: strip_by_def dropWhile_map rev_map comp_def)

lemma strip_upper [simp]: "strip (upper s) = upper (strip s)"
  by (simp add: strip_def upper_def strip_map_by)

lemma strip_lower [simp]: "strip (lower s) = lower (strip s)"
  by (simp add: strip_def lower_def strip_map_by)

lemma split_on_not_Nil [simp]: "split_on c s \<noteq> []"
  by (induction s) (auto split: list.splits)

lemma split_on_no_sep: "w \<in> set (split_on c s) \<Longrightarrow> c \<notin> set w"
proof (induction s arbitrary: w)
  case (Cons x xs)
  then show ?case by (cases "split_on c xs") (auto split: if_splits)
qed simp

lemma split_on_subset: "w \<in> set (split_on c s) \<Longrightarrow> set w \<subseteq> set s"
proof (induction s arbitrary: w)
  case (Cons x xs)
  then show ?case by (cases "split_on c xs") (fastforce split: if_splits)+
qed simp

lemma split_on_single: "c \<notin> set s \<Longrightarrow> split_on c s = [s]"
  by (induction s) auto

lemma split_on_append: "c \<notin> set s \<Longrightarrow> split_on c (s @ c # t) = s # split_on c t"
  by (induction s) auto

lemma join_split: "ws \<noteq> [] \<Longrightarrow> (\<And>w. w \<in> set ws \<Longrightarrow> c \<notin> set w) \<Longrightarrow> split_on c (join [c] ws) = ws"
proof (induction "[c]" ws rule: join.induct)
  case (3 x y zs)
  then show ?case by (simp add: split_on_append)
qed (simp_all add: split_on_single)

section \<open>Numbers as text\<close>

text \<open>Digits are computed on \<open>int\<close>, whose numerals the simplifier evaluates in binary.\<close>

definition digit_char :: "int \<Rightarrow> char" where
  "digit_char n = digit_chars ! nat (n mod 10)"

definition digit_val :: "char \<Rightarrow> int" where
  "digit_val c = (case map_of (zip digit_chars [0..9]) c of None \<Rightarrow> 0 | Some n \<Rightarrow> n)"

text \<open>The decimal digits of a number that is not negative.\<close>

function pos_str :: "int \<Rightarrow> string" where
  "pos_str n = (if n < 10 then [digit_char n] else pos_str (n div 10) @ [digit_char (n mod 10)])"
  by pat_completeness auto
termination
  by (relation "measure nat") auto

declare pos_str.simps [simp del]

definition int_str :: "int \<Rightarrow> string" where
  "int_str i = (if i < 0 then CHR ''-'' # pos_str (- i) else pos_str i)"

definition nat_str :: "nat \<Rightarrow> string" where
  "nat_str n = pos_str (int n)"

text \<open>The value of a string of digits, most significant first.\<close>

definition digits_val :: "string \<Rightarrow> int" where
  "digits_val s = foldl (\<lambda>a c. 10 * a + digit_val c) 0 s"

lemma int_less_10_cases: "0 \<le> n \<Longrightarrow> n < (10::int) \<Longrightarrow>
    n = 0 \<or> n = 1 \<or> n = 2 \<or> n = 3 \<or> n = 4 \<or> n = 5 \<or> n = 6 \<or> n = 7 \<or> n = 8 \<or> n = 9"
  by arith

lemma digit_val_char: "0 \<le> n \<Longrightarrow> n < 10 \<Longrightarrow> digit_val (digit_char n) = n"
  by (drule (1) int_less_10_cases)
    (auto simp: digit_val_def digit_char_def digit_chars_def upto.simps nth_Cons numeral_eq_Suc)

lemma is_digit_digit_char [simp]: "is_digit (digit_char n)"
proof -
  have "nat (n mod 10) < length digit_chars"
    using pos_mod_bound [of 10 n] by (simp add: digit_chars_def nat_less_iff)
  then show ?thesis
    unfolding is_digit_def digit_char_def by (rule nth_mem)
qed

lemma digit_val_nonneg: "0 \<le> digit_val c"
  by (auto simp: digit_val_def digit_chars_def upto.simps split: option.splits if_splits)

lemma pos_str_digits: "list_all is_digit (pos_str n)"
proof (induction n rule: pos_str.induct)
  case (1 n)
  then show ?case by (subst pos_str.simps) auto
qed

lemma pos_str_not_Nil [simp]: "pos_str n \<noteq> []"
  by (subst pos_str.simps) auto

lemma isdigit_pos_str [simp]: "isdigit (pos_str n)"
  by (simp add: isdigit_def pos_str_digits)

lemma digits_val_snoc: "digits_val (s @ [c]) = 10 * digits_val s + digit_val c"
  by (simp add: digits_val_def)

lemma digits_val_pos_str [simp]: "0 \<le> n \<Longrightarrow> digits_val (pos_str n) = n"
proof (induction n rule: pos_str.induct)
  case (1 n)
  show ?case
  proof (cases "n < 10")
    case True
    with "1.prems" show ?thesis
      by (subst pos_str.simps) (simp add: digits_val_def digit_val_char)
  next
    case False
    with 1 show ?thesis
      by (subst pos_str.simps) (simp add: digits_val_snoc digit_val_char)
  qed
qed

lemma length_pos_str_bound: "n < 10 ^ k \<Longrightarrow> 0 < k \<Longrightarrow> length (pos_str n) \<le> k"
proof (induction n arbitrary: k rule: pos_str.induct)
  case (1 n)
  show ?case
  proof (cases "n < 10")
    case True
    with 1 show ?thesis by (subst pos_str.simps) simp
  next
    case False
    with "1.prems" have "k \<noteq> 1" by (metis power_one_right)
    with "1.prems" have "0 < k - 1" by simp
    moreover have "n div 10 < 10 ^ (k - 1)"
      using "1.prems" by (simp add: div_less_iff_less_mult power_eq_if mult.commute split: if_splits)
    ultimately have "length (pos_str (n div 10)) \<le> k - 1" using False by (intro "1.IH")
    with False \<open>0 < k - 1\<close> show ?thesis by (subst pos_str.simps) simp
  qed
qed

lemma digits_val_zeros: "digits_val (replicate k CHR ''0'' @ s) = digits_val s"
  by (induction k) (simp_all add: digits_val_def digit_val_def digit_chars_def upto.simps)

lemma digits_val_nonneg: "0 \<le> digits_val s"
  by (induction s rule: rev_induct) (simp_all add: digits_val_def digit_val_nonneg)

lemma pos_str_inj: "0 \<le> m \<Longrightarrow> 0 \<le> n \<Longrightarrow> pos_str m = pos_str n \<Longrightarrow> m = n"
  by (metis digits_val_pos_str)

lemma digit_not_space: "is_digit c \<Longrightarrow> \<not> is_space c"
  by (auto simp: is_digit_def digit_chars_def is_space_def py_spaces_def)

lemma isdigit_ends: "isdigit s \<Longrightarrow> \<not> is_space (hd s) \<and> \<not> is_space (last s)"
  unfolding isdigit_def list_all_iff
  using digit_not_space by auto

lemma isdigit_strip: "isdigit s \<Longrightarrow> strip s = s"
  unfolding strip_def by (rule strip_by_id) (simp add: isdigit_ends)

text \<open>The digits of \<open>int(text)\<close> may be grouped by single underscores.\<close>

fun no_double_us :: "string \<Rightarrow> bool" where
  "no_double_us (a # b # s) \<longleftrightarrow> \<not> (a = CHR ''_'' \<and> b = CHR ''_'') \<and> no_double_us (b # s)"
| "no_double_us _ \<longleftrightarrow> True"

definition digits_us :: "string \<Rightarrow> int option" where
  "digits_us s =
     (if s \<noteq> [] \<and> is_digit (hd s) \<and> is_digit (last s) \<and> no_double_us s
         \<and> list_all (\<lambda>c. is_digit c \<or> c = CHR ''_'') s
      then Some (digits_val (filter is_digit s)) else None)"

definition split_sign :: "string \<Rightarrow> int \<times> string" where
  "split_sign s = (case s of [] \<Rightarrow> (1, [])
     | c # cs \<Rightarrow> if c = CHR ''-'' then (- 1, cs) else if c = CHR ''+'' then (1, cs) else (1, s))"

definition parse_int :: "string \<Rightarrow> int option" where
  "parse_int s = (case split_sign (strip s) of
     (sg, ds) \<Rightarrow> map_option (\<lambda>n. sg * n) (digits_us ds))"

lemma no_double_us_digits: "list_all is_digit s \<Longrightarrow> no_double_us s"
  by (induction s rule: no_double_us.induct) (auto simp: is_digit_def digit_chars_def)

lemma digits_us_isdigit: "isdigit s \<Longrightarrow> digits_us s = Some (digits_val s)"
  by (cases s rule: rev_cases)
    (auto simp: digits_us_def isdigit_def no_double_us_digits list_all_iff filter_id_conv hd_append
      split: list.splits intro!: hd_in_set)

lemma split_sign_digits: "isdigit s \<Longrightarrow> split_sign s = (1, s)"
  by (cases s) (auto simp: split_sign_def isdigit_def is_digit_def digit_chars_def)

lemma parse_int_isdigit: "isdigit s \<Longrightarrow> parse_int s = Some (digits_val s)"
  by (simp add: parse_int_def isdigit_strip split_sign_digits digits_us_isdigit)

lemma strip_minus_digits: "isdigit s \<Longrightarrow> strip (CHR ''-'' # s) = CHR ''-'' # s"
  unfolding strip_def
  by (rule strip_by_id) (use isdigit_ends [of s] in \<open>auto simp: isdigit_def is_space_def py_spaces_def\<close>)

lemma parse_int_int_str [simp]: "parse_int (int_str i) = Some i"
proof (cases "i < 0")
  case True
  then show ?thesis
    by (simp add: int_str_def parse_int_def strip_minus_digits split_sign_def digits_us_isdigit)
next
  case False
  then show ?thesis by (simp add: int_str_def parse_int_isdigit)
qed

lemma int_str_inj [simp]: "int_str i = int_str j \<longleftrightarrow> i = j"
  by (metis option.inject parse_int_int_str)

lemma sorted_le_last: "sorted xs \<Longrightarrow> x \<in> set xs \<Longrightarrow> x \<le> last xs"
  by (induction xs) auto

lemma of_char_256: "(of_char c :: nat) < 256"
  using of_char_mod_256 [of c] by (metis mod_less_divisor zero_less_numeral)

lemma int_str_not_blank: "strip (int_str n) \<noteq> []"
proof
  assume "strip (int_str n) = []"
  then have "parse_int (int_str n) = None" by (simp add: parse_int_def split_sign_def digits_us_def)
  then show False by simp
qed

end
