(* ===== verification/Py_Value.thy ===== *)
theory Py_Value
  imports Py_Prelude
begin

text \<open>
  Dynamically typed Python values, the conversions \<open>int\<close>, \<open>float\<close>, \<open>str\<close>, truth testing,
  dictionaries with text keys, calendar dates and moments.
\<close>

section \<open>Floats\<close>

datatype pyfloat = Fin rat | PosInf | NegInf | NaN

text \<open>Rounding to an integer, ties to even, as \<open>round(x)\<close> and \<open>round(x, 2)\<close> do.\<close>

definition round_half_even :: "rat \<Rightarrow> int" where
  "round_half_even q =
     (let f = \<lfloor>q\<rfloor>; d = q - of_int f
      in if d < 1/2 then f else if d > 1/2 then f + 1 else if even f then f else f + 1)"

definition round2 :: "rat \<Rightarrow> rat" where
  "round2 q = of_int (round_half_even (q * 100)) / 100"

definition trunc_rat :: "rat \<Rightarrow> int" where
  "trunc_rat q = (if q < 0 then - \<lfloor>- q\<rfloor> else \<lfloor>q\<rfloor>)"

lemma round_half_even_of_int [simp]: "round_half_even (of_int i) = i"
  by (simp add: round_half_even_def)

lemma round_half_even_mono: "p \<le> q \<Longrightarrow> round_half_even p \<le> round_half_even q"
proof -
  assume le: "p \<le> q"
  then have fl: "\<lfloor>p\<rfloor> \<le> \<lfloor>q\<rfloor>" by (rule floor_mono)
  show ?thesis
  proof (cases "\<lfloor>p\<rfloor> = \<lfloor>q\<rfloor>")
    case True
    with le show ?thesis by (auto simp: round_half_even_def Let_def)
  next
    case False
    with fl have "\<lfloor>p\<rfloor> + 1 \<le> \<lfloor>q\<rfloor>" by simp
    then show ?thesis by (auto simp: round_half_even_def Let_def)
  qed
qed

lemma round2_mono: "p \<le> q \<Longrightarrow> round2 p \<le> round2 q"
  by (simp add: round2_def divide_right_mono round_half_even_mono)

lemma round_half_even_close: "\<bar>of_int (round_half_even q) - q\<bar> \<le> 1/2"
proof -
  have f: "of_int \<lfloor>q\<rfloor> \<le> q" "q < of_int \<lfloor>q\<rfloor> + 1" by linarith+
  show ?thesis
    unfolding round_half_even_def Let_def using f by (auto simp: abs_le_iff)
qed

lemma round2_close: "\<bar>round2 q - q\<bar> \<le> 1/200"
  using round_half_even_close [of "q * 100"] by (simp add: round2_def abs_if field_simps split: if_splits)

lemma round2_idem [simp]: "round2 (round2 q) = round2 q"
  by (simp add: round2_def)

section \<open>Dates and moments\<close>

text \<open>A date is year, month, day; the library's lexicographic order on tuples is the calendar's.\<close>

type_synonym date = "int \<times> int \<times> int"

definition leap_year :: "int \<Rightarrow> bool" where
  "leap_year y \<longleftrightarrow> y mod 4 = 0 \<and> (y mod 100 \<noteq> 0 \<or> y mod 400 = 0)"

definition days_in_month :: "int \<Rightarrow> int \<Rightarrow> int" where
  "days_in_month y m =
     (if m = 2 then (if leap_year y then 29 else 28)
      else if m \<in> {4, 6, 9, 11} then 30 else 31)"

text \<open>\<open>date(y, m, d)\<close>, which raises ValueError out of range.\<close>

definition mk_date :: "int \<Rightarrow> int \<Rightarrow> int \<Rightarrow> date option" where
  "mk_date y m d =
     (if 1 \<le> y \<and> y \<le> 9999 \<and> 1 \<le> m \<and> m \<le> 12 \<and> 1 \<le> d \<and> d \<le> days_in_month y m
      then Some (y, m, d) else None)"

definition days_before_year :: "int \<Rightarrow> int" where
  "days_before_year y = (y - 1) * 365 + (y - 1) div 4 - (y - 1) div 100 + (y - 1) div 400"

definition days_before_month :: "int \<Rightarrow> int \<Rightarrow> int" where
  "days_before_month y m = sum_list (map (days_in_month y) [1..m - 1])"

definition to_ordinal :: "date \<Rightarrow> int" where
  "to_ordinal dt = (case dt of (y, m, d) \<Rightarrow> days_before_year y + days_before_month y m + d)"

text \<open>
  A moment: microseconds since the Unix epoch; a naive \<open>datetime\<close> has no offset and its
  number is what its clock reads.
\<close>

datatype datetime = Naive int | Aware int

text \<open>\<open>dt.replace(tzinfo=utc)\<close> for a naive one.\<close>

fun as_utc :: "datetime \<Rightarrow> datetime" where
  "as_utc (Naive t) = Aware t"
| "as_utc (Aware t) = Aware t"

fun instant :: "datetime \<Rightarrow> int" where
  "instant (Naive t) = t"
| "instant (Aware t) = t"

definition us_per_day :: int where
  "us_per_day = 86400000000"

text \<open>The calendar date of a day number since year 1 (inverse of \<open>to_ordinal\<close>), by search over the year.\<close>

fun month_of :: "int \<Rightarrow> int list \<Rightarrow> int \<Rightarrow> int \<times> int" where
  "month_of y [] r = (12, r + 1)"
| "month_of y (m # ms) r = (if r < days_in_month y m then (m, r + 1) else month_of y ms (r - days_in_month y m))"

definition from_ordinal :: "int \<Rightarrow> date" where
  "from_ordinal n =
     (let y0 = (n - 1) div 366 + 1;
          y = last (y0 # filter (\<lambda>y. days_before_year y < n) [y0..y0 + 21]);
          md = month_of y [1..12] (n - days_before_year y - 1)
      in (y, fst md, snd md))"

definition epoch_ordinal :: int where
  "epoch_ordinal = 719163"

definition date_of_instant :: "int \<Rightarrow> date" where
  "date_of_instant t = from_ordinal (epoch_ordinal + t div us_per_day)"

section \<open>Values\<close>

datatype pyval =
    PNone
  | PBool bool
  | PInt int
  | PFloat pyfloat
  | PStr string
  | PList "pyval list"
  | PDict "(string \<times> pyval) list"
  | PDate date
  | PDatetime datetime

type_synonym pydict = "(string \<times> pyval) list"

text \<open>Truth testing: \<open>bool(v)\<close>.\<close>

fun truthy :: "pyval \<Rightarrow> bool" where
  "truthy PNone = False"
| "truthy (PBool b) = b"
| "truthy (PInt i) = (i \<noteq> 0)"
| "truthy (PFloat (Fin q)) = (q \<noteq> 0)"
| "truthy (PFloat _) = True"
| "truthy (PStr s) = (s \<noteq> [])"
| "truthy (PList xs) = (xs \<noteq> [])"
| "truthy (PDict d) = (d \<noteq> [])"
| "truthy (PDate _) = True"
| "truthy (PDatetime _) = True"

text \<open>\<open>a or b\<close>.\<close>

definition py_or :: "pyval \<Rightarrow> pyval \<Rightarrow> pyval" where
  "py_or a b = (if truthy a then a else b)"

text \<open>\<open>d.get(k)\<close>, \<open>k in d\<close>, \<open>d[k] = v\<close>.\<close>

definition dget :: "pydict \<Rightarrow> string \<Rightarrow> pyval" where
  "dget d k = (case map_of d k of None \<Rightarrow> PNone | Some v \<Rightarrow> v)"

definition dhas :: "pydict \<Rightarrow> string \<Rightarrow> bool" where
  "dhas d k \<longleftrightarrow> map_of d k \<noteq> None"

definition dset :: "string \<Rightarrow> pyval \<Rightarrow> pydict \<Rightarrow> pydict" where
  "dset k v d = AList.update k v d"

lemma dget_dset [simp]: "dget (dset k v d) j = (if j = k then v else dget d j)"
  by (simp add: dget_def dset_def update_conv')

lemma dhas_dset [simp]: "dhas (dset k v d) j \<longleftrightarrow> j = k \<or> dhas d j"
  by (simp add: dhas_def dset_def update_conv')

lemma dget_not_dhas: "\<not> dhas d k \<Longrightarrow> dget d k = PNone"
  by (simp add: dget_def dhas_def)

lemma dget_Nil [simp]: "dget [] k = PNone" and dhas_Nil [simp]: "\<not> dhas [] k"
  by (simp_all add: dget_def dhas_def)

lemma dget_Cons [simp]: "dget ((j, v) # d) k = (if j = k then v else dget d k)"
  by (simp add: dget_def)

lemma dhas_Cons [simp]: "dhas ((j, v) # d) k \<longleftrightarrow> j = k \<or> dhas d k"
  by (simp add: dhas_def)

section \<open>Text of a value\<close>

text \<open>
  \<open>repr\<close> of a finite float, in positional notation with at least one decimal; exact for a
  number with at most 17 decimals. (CPython switches to an exponent outside
  \<open>1e-4 .. 1e16\<close>; prices, strikes and epoch seconds are inside.)
\<close>

fun frac_digits :: "nat \<Rightarrow> rat \<Rightarrow> string" where
  "frac_digits 0 r = []"
| "frac_digits (Suc n) r =
     (if r = 0 then []
      else let d = \<lfloor>r * 10\<rfloor> in digit_char d # frac_digits n (r * 10 - of_int d))"

definition rat_repr :: "rat \<Rightarrow> string" where
  "rat_repr q =
     (let a = \<bar>q\<bar>; i = \<lfloor>a\<rfloor>; f = frac_digits 17 (a - of_int i)
      in (if q < 0 then ''-'' else []) @ pos_str i @ ''.'' @ (if f = [] then ''0'' else f))"

fun float_repr :: "pyfloat \<Rightarrow> string" where
  "float_repr (Fin q) = rat_repr q"
| "float_repr PosInf = ''inf''"
| "float_repr NegInf = ''-inf''"
| "float_repr NaN = ''nan''"

definition pad2 :: "int \<Rightarrow> string" where
  "pad2 n = (if n < 10 then ''0'' else []) @ pos_str n"

definition pad4 :: "int \<Rightarrow> string" where
  "pad4 n = (let s = pos_str n in replicate (4 - length s) CHR ''0'' @ s)"

fun iso_date :: "date \<Rightarrow> string" where
  "iso_date (y, m, d) = pad4 y @ ''-'' @ pad2 m @ ''-'' @ pad2 d"

text \<open>
  \<open>str(v)\<close>. The text inside a list or a dict is quoted without escapes; the components only
  compare such text with fixed words, none of which starts with a bracket.
\<close>

fun py_str :: "pyval \<Rightarrow> string" and py_repr :: "pyval \<Rightarrow> string" where
  "py_str (PStr s) = s"
| "py_str v = py_repr v"
| "py_repr PNone = ''None''"
| "py_repr (PBool b) = (if b then ''True'' else ''False'')"
| "py_repr (PInt i) = int_str i"
| "py_repr (PFloat f) = float_repr f"
| "py_repr (PStr s) = CHR 0x27 # s @ [CHR 0x27]"
| "py_repr (PList xs) = ''['' @ join '', '' (map py_repr xs) @ '']''"
| "py_repr (PDict d) =
     CHR 0x7B # join '', '' (map (\<lambda>kv. CHR 0x27 # fst kv @ [CHR 0x27] @ '': '' @ py_repr (snd kv)) d) @ [CHR 0x7D]"
| "py_repr (PDate d) = iso_date d"
| "py_repr (PDatetime t) = iso_date (date_of_instant (instant t)) @ '' '' @ int_str (instant t mod us_per_day)"

section \<open>Conversions\<close>

datatype conv_err = TypeErr | ValueErr | OverflowErr

fun py_int :: "pyval \<Rightarrow> conv_err + int" where
  "py_int (PBool b) = Inr (if b then 1 else 0)"
| "py_int (PInt i) = Inr i"
| "py_int (PFloat (Fin q)) = Inr (trunc_rat q)"
| "py_int (PFloat NaN) = Inl ValueErr"
| "py_int (PFloat _) = Inl OverflowErr"
| "py_int (PStr s) = (case parse_int s of None \<Rightarrow> Inl ValueErr | Some i \<Rightarrow> Inr i)"
| "py_int _ = Inl TypeErr"

text \<open>\<open>float(text)\<close>: an optional sign, then digits with an optional point and exponent, or a name.\<close>

definition split_at :: "(char \<Rightarrow> bool) \<Rightarrow> string \<Rightarrow> string \<times> string option" where
  "split_at p s = (case dropWhile (Not \<circ> p) s of [] \<Rightarrow> (s, None) | _ # r \<Rightarrow> (takeWhile (Not \<circ> p) s, Some r))"

lemma split_at_none: "(\<forall>c\<in>set s. \<not> p c) \<Longrightarrow> split_at p s = (s, None)"
proof -
  assume a: "\<forall>c\<in>set s. \<not> p c"
  then have d: "dropWhile (Not \<circ> p) s = []" by (simp add: dropWhile_eq_Nil_conv)
  show ?thesis unfolding split_at_def d by simp
qed

definition parse_mantissa :: "string \<Rightarrow> rat option" where
  "parse_mantissa s = (case split_at (\<lambda>c. c = CHR ''.'') s of
      (i, None) \<Rightarrow> map_option of_int (digits_us i)
    | (i, Some f) \<Rightarrow>
        (if i = [] \<and> f = [] then None
         else case ((if i = [] then Some 0 else digits_us i), (if f = [] then Some 0 else digits_us f)) of
                (Some a, Some b) \<Rightarrow> Some (of_int a + of_int b / 10 ^ length (filter is_digit f))
              | _ \<Rightarrow> None))"

definition pow10 :: "int \<Rightarrow> rat" where
  "pow10 e = (if e < 0 then 1 / 10 ^ nat (- e) else 10 ^ nat e)"

definition parse_unsigned :: "string \<Rightarrow> pyfloat option" where
  "parse_unsigned s =
     (if s = ''inf'' \<or> s = ''infinity'' then Some PosInf
      else if s = ''nan'' then Some NaN
      else case split_at (\<lambda>c. c = CHR ''e'') s of
             (m, None) \<Rightarrow> map_option Fin (parse_mantissa m)
           | (m, Some e) \<Rightarrow>
               (case (parse_mantissa m, split_sign e) of
                  (Some q, (sg, ds)) \<Rightarrow> map_option (\<lambda>n. Fin (q * pow10 (sg * n))) (digits_us ds)
                | _ \<Rightarrow> None))"

fun fneg :: "pyfloat \<Rightarrow> pyfloat" where
  "fneg (Fin q) = Fin (- q)"
| "fneg PosInf = NegInf"
| "fneg NegInf = PosInf"
| "fneg NaN = NaN"

definition parse_float :: "string \<Rightarrow> pyfloat option" where
  "parse_float s = (case split_sign (lower (strip s)) of
     (sg, u) \<Rightarrow> map_option (if sg < 0 then fneg else id) (parse_unsigned u))"

fun py_float :: "pyval \<Rightarrow> conv_err + pyfloat" where
  "py_float (PBool b) = Inr (Fin (if b then 1 else 0))"
| "py_float (PInt i) = Inr (Fin (of_int i))"
| "py_float (PFloat f) = Inr f"
| "py_float (PStr s) = (case parse_float s of None \<Rightarrow> Inl ValueErr | Some f \<Rightarrow> Inr f)"
| "py_float _ = Inl TypeErr"

fun isfinite :: "pyfloat \<Rightarrow> bool" where
  "isfinite (Fin _) = True"
| "isfinite _ = False"

text \<open>\<open>(v or "").strip()\<close> of a text value.\<close>

definition stripped :: "pyval \<Rightarrow> string" where
  "stripped v = (case v of PStr s \<Rightarrow> strip s | _ \<Rightarrow> [])"

text \<open>A number that \<open>float\<close> accepts and that is finite.\<close>

definition finite_float :: "pyval \<Rightarrow> rat option" where
  "finite_float v = (case py_float v of Inr (Fin q) \<Rightarrow> Some q | _ \<Rightarrow> None)"

section \<open>strptime\<close>

definition digit_in :: "string \<Rightarrow> char \<Rightarrow> bool" where
  "digit_in ds c \<longleftrightarrow> c \<in> set ds"

text \<open>The alternatives of the \<open>%m\<close> and \<open>%d\<close> directives, in the order the regular expression tries them.\<close>

definition month_alts :: "string \<Rightarrow> (int \<times> string) list" where
  "month_alts s = (case s of [] \<Rightarrow> []
     | a # r \<Rightarrow>
        (case r of b # r' \<Rightarrow>
            (if a = CHR ''1'' \<and> digit_in ''012'' b \<or> a = CHR ''0'' \<and> digit_in ''123456789'' b
             then [(10 * digit_val a + digit_val b, r')] else [])
          | [] \<Rightarrow> []) @
        (if digit_in ''123456789'' a then [(digit_val a, r)] else []))"

definition day_alts :: "string \<Rightarrow> (int \<times> string) list" where
  "day_alts s = (case s of [] \<Rightarrow> []
     | a # r \<Rightarrow>
        (case r of b # r' \<Rightarrow>
            (if a = CHR ''3'' \<and> digit_in ''01'' b \<or> digit_in ''12'' a \<and> is_digit b
                \<or> a = CHR ''0'' \<and> digit_in ''123456789'' b
             then [(10 * digit_val a + digit_val b, r')] else [])
          | [] \<Rightarrow> []) @
        (if digit_in ''123456789'' a then [(digit_val a, r)] else []) @
        (case r of b # r' \<Rightarrow>
            (if a = CHR '' '' \<and> digit_in ''123456789'' b then [(digit_val b, r')] else [])
          | [] \<Rightarrow> []))"

definition year_alts :: "string \<Rightarrow> (int \<times> string) list" where
  "year_alts s =
     (if 4 \<le> length s \<and> list_all is_digit (take 4 s) then [(digits_val (take 4 s), drop 4 s)] else [])"

text \<open>A literal separator of the format.\<close>

definition lit :: "string \<Rightarrow> string \<Rightarrow> string list" where
  "lit sep s = (if startswith s sep then [drop (length sep) s] else [])"

definition strptime_ymd :: "string \<Rightarrow> string \<Rightarrow> date option" where
  "strptime_ymd sep s =
     (case [ (y, m, d, r4). (y, r) \<leftarrow> year_alts s, r1 \<leftarrow> lit sep r, (m, r2) \<leftarrow> month_alts r1,
                            r3 \<leftarrow> lit sep r2, (d, r4) \<leftarrow> day_alts r3 ] of
        [] \<Rightarrow> None
      | (y, m, d, r4) # _ \<Rightarrow> if r4 = [] then mk_date y m d else None)"

section \<open>ISO 8601\<close>

text \<open>
  \<open>datetime.fromisoformat\<close> on the extended format that \<open>isoformat()\<close> writes:
  \<open>YYYY-MM-DD\<close>, optionally a separator character and \<open>HH[:MM[:SS[.ffffff]]]\<close>, optionally an
  offset \<open>+HH:MM[:SS]\<close> or \<open>Z\<close>. Fractions beyond six digits are cut off.
\<close>

definition two_digits :: "string \<Rightarrow> int option" where
  "two_digits s = (if length s = 2 \<and> list_all is_digit s then Some (digits_val s) else None)"

definition iso_date_part :: "string \<Rightarrow> date option" where
  "iso_date_part s =
     (if length s = 10 \<and> list_all is_digit (take 4 s) \<and> s ! 4 = CHR ''-'' \<and> s ! 7 = CHR ''-''
      then (case (two_digits (take 2 (drop 5 s)), two_digits (drop 8 s)) of
              (Some m, Some d) \<Rightarrow> mk_date (digits_val (take 4 s)) m d
            | _ \<Rightarrow> None)
      else None)"

definition micros :: "string \<Rightarrow> int option" where
  "micros f =
     (if isdigit f then Some (digits_val (take 6 (f @ ''000000''))) else None)"

definition iso_seconds :: "string \<Rightarrow> int option" where
  "iso_seconds s = (case split_at (\<lambda>c. c = CHR ''.'') s of
      (w, None) \<Rightarrow> map_option (\<lambda>n. n * 1000000) (two_digits w)
    | (w, Some f) \<Rightarrow> (case (two_digits w, micros f) of
          (Some n, Some u) \<Rightarrow> Some (n * 1000000 + u) | _ \<Rightarrow> None))"

text \<open>\<open>HH[:MM[:SS[.f]]]\<close> in microseconds, with the bounds of a clock reading.\<close>

definition iso_time_part :: "string \<Rightarrow> int option" where
  "iso_time_part s =
     (let hms = (case split_on (CHR '':'') s of
          [h] \<Rightarrow> (two_digits h, Some 0, Some 0)
        | [h, m] \<Rightarrow> (two_digits h, two_digits m, Some 0)
        | [h, m, x] \<Rightarrow> (two_digits h, two_digits m, iso_seconds x)
        | _ \<Rightarrow> (None, None, None))
      in case hms of
           (Some h, Some m, Some x) \<Rightarrow>
             if h < 24 \<and> m < 60 \<and> x < 60000000 then Some ((h * 60 + m) * 60000000 + x) else None
         | _ \<Rightarrow> None)"

definition tz_char :: "char \<Rightarrow> bool" where
  "tz_char c \<longleftrightarrow> c = CHR ''+'' \<or> c = CHR ''-'' \<or> c = CHR ''Z''"

definition fromisoformat :: "string \<Rightarrow> datetime option" where
  "fromisoformat s = (case iso_date_part (take 10 s) of None \<Rightarrow> None | Some dt \<Rightarrow>
     let day = (to_ordinal dt - epoch_ordinal) * us_per_day; rest = drop 11 s;
         tz = dropWhile (Not \<circ> tz_char) rest; tm = takeWhile (Not \<circ> tz_char) rest
     in if length s = 10 then Some (Naive day)
        else case iso_time_part tm of None \<Rightarrow> None | Some u \<Rightarrow>
          (case tz of [] \<Rightarrow> Some (Naive (day + u))
           | z # off \<Rightarrow>
              if z = CHR ''Z'' then (if off = [] then Some (Aware (day + u)) else None)
              else (case iso_time_part off of None \<Rightarrow> None
                    | Some w \<Rightarrow> Some (Aware (if z = CHR ''+'' then day + u - w else day + u + w)))))"

lemma fromisoformat_examples:
  "fromisoformat ''1970-01-02'' = Some (Naive us_per_day)"
  "fromisoformat ''1970-01-01T01:00:00.5+01:00'' = Some (Aware 500000)"
  "fromisoformat ''1970-01-01 00:00:01'' = Some (Naive 1000000)"
  "fromisoformat ''1970-13-01'' = None"
  by code_simp+

lemma strptime_examples:
  "strptime_ymd ''-'' ''2026-10-16'' = Some (2026, 10, 16)"
  "strptime_ymd ''-'' ''2026-1-5'' = Some (2026, 1, 5)"
  "strptime_ymd ''-'' ''2026-02-30'' = None"
  "strptime_ymd [] ''20261016'' = Some (2026, 10, 16)"
  "strptime_ymd ''-'' ''2026-10-16x'' = None"
  by code_simp+

lemma to_ordinal_examples:
  "to_ordinal (1970, 1, 1) = epoch_ordinal" "from_ordinal 719163 = (1970, 1, 1)"
  "from_ordinal (to_ordinal (2024, 2, 29)) = (2024, 2, 29)" "from_ordinal (to_ordinal (2026, 12, 31)) = (2026, 12, 31)"
  by code_simp+

lemma float_text_examples:
  "rat_repr 80 = ''80.0''" "rat_repr (165/2) = ''82.5''" "rat_repr (-1/8) = ''-0.125''"
  "parse_float '' 82.50 '' = Some (Fin (165/2))" "parse_float ''1e3'' = Some (Fin 1000)"
  "parse_float ''abc'' = None" "parse_float ''-inf'' = Some NegInf"
  by code_simp+

end
