(* ===== verification/Write_Support.thy ===== *)
theory Write_Support
  imports Py_Value
begin

text \<open>
  The plumbing every writer shares (\<open>monitor/reader/errors.py\<close>,
  \<open>monitor/reader/write_support.py\<close>): the outcomes a write can have, the translation of a
  database exception into one of them, the connection and transaction wrappers, and the
  validation of a PATCH body.

  A transaction body is a function of the environment and of the database it works on, with
  the number of the next statement. The environment says whether the connect succeeds and,
  per statement number, whether that statement raises: a property proved for every
  environment holds whichever statement the database refuses.
\<close>

section \<open>Outcomes\<close>

text \<open>
  \<open>PlanRule\<close> and \<open>RuleInUse\<close> are the two subclasses of \<open>WriteConflict\<close>; \<open>Failed\<close> carries
  \<open>unavailable\<close>.
\<close>

datatype write_error =
    NotFound string
  | Conflict string
  | RuleInUse string
  | PlanRule string
  | Invalid string
  | Failed string bool

fun reason :: "write_error \<Rightarrow> string" where
  "reason (NotFound r) = r"
| "reason (Conflict r) = r"
| "reason (RuleInUse r) = r"
| "reason (PlanRule r) = r"
| "reason (Invalid r) = r"
| "reason (Failed r _) = r"

fun is_conflict :: "write_error \<Rightarrow> bool" where
  "is_conflict (Conflict _) = True"
| "is_conflict (RuleInUse _) = True"
| "is_conflict (PlanRule _) = True"
| "is_conflict _ = False"

text \<open>The diagnostics psycopg2 attaches: column name and constraint name.\<close>

type_synonym pg_diag = "string option \<times> string option"

datatype exc =
    Write write_error
  | UniqueViolation pg_diag
  | ForeignKeyViolation pg_diag
  | NotNullViolation pg_diag
  | CheckViolation pg_diag
  | DataError pg_diag
  | PyErr conv_err
  | OtherExc string

datatype on_fk = FkInvalid | FkConflict | FkNotFound

definition nonempty :: "string option \<Rightarrow> bool" where
  "nonempty v \<longleftrightarrow> v \<noteq> None \<and> v \<noteq> Some []"

definition pg_detail :: "pg_diag \<Rightarrow> string" where
  "pg_detail d =
     (if nonempty (fst d) then '' ('' @ the (fst d) @ '')''
      else if nonempty (snd d) then '' ('' @ the (snd d) @ '')'' else [])"

fun as_write_error :: "exc \<Rightarrow> string \<Rightarrow> on_fk \<Rightarrow> write_error" where
  "as_write_error (Write e) what fk = e"
| "as_write_error (UniqueViolation d) what fk =
     Conflict (''Cannot write '' @ what @ '': that value is already used'' @ pg_detail d @ ''.'')"
| "as_write_error (ForeignKeyViolation d) what fk = (case fk of
     FkConflict \<Rightarrow> Conflict (''Cannot delete '' @ what @ '': other rows still reference it'' @ pg_detail d @ ''.'')
   | FkNotFound \<Rightarrow> NotFound (''Cannot write '' @ what @ '': it does not exist.'')
   | FkInvalid \<Rightarrow> Invalid (''Cannot write '' @ what @ '': a referenced row does not exist'' @ pg_detail d @ ''.''))"
| "as_write_error (NotNullViolation d) what fk =
     Invalid (''Cannot write '' @ what @ '': a required field is missing'' @ pg_detail d @ ''.'')"
| "as_write_error (CheckViolation d) what fk =
     Invalid (''Cannot write '' @ what @ '': a value is out of range'' @ pg_detail d @ ''.'')"
| "as_write_error (DataError d) what fk =
     Invalid (''Cannot write '' @ what @ '': a value has the wrong form'' @ pg_detail d @ ''.'')"
| "as_write_error _ what fk = Failed (''Cannot write '' @ what @ '': the database write failed.'') False"

section \<open>Transactions\<close>

text \<open>
  \<open>coerce\<close> is what the database makes of a value sent for a column of its type (the stored value,
  or the exception), \<open>json_loads\<close> is the parser of the \<open>json\<close> module (None: it raises), \<open>now\<close> the
  clock in microseconds.
\<close>

record env =
  connect_ok :: bool
  fault :: "nat \<Rightarrow> exc option"
  coerce :: "string \<Rightarrow> pyval \<Rightarrow> exc + pyval"
  json_loads :: "string \<Rightarrow> pyval option"
  now :: int

text \<open>An environment in which nothing fails and values are stored as sent.\<close>

definition calm_env :: "int \<Rightarrow> env" where
  "calm_env t = \<lparr>connect_ok = True, fault = (\<lambda>_. None), coerce = (\<lambda>_ v. Inr v),
     json_loads = (\<lambda>_. None), now = t\<rparr>"

lemma calm_env_simps [simp]:
  "connect_ok (calm_env t) = True" "fault (calm_env t) n = None" "coerce (calm_env t) c v = Inr v"
  "json_loads (calm_env t) x = None" "now (calm_env t) = t"
  by (simp_all add: calm_env_def)

type_synonym ('s, 'a) tx = "env \<Rightarrow> 's \<times> nat \<Rightarrow> (exc + 'a) \<times> ('s \<times> nat)"

definition tx_return :: "'a \<Rightarrow> ('s, 'a) tx" where
  "tx_return a = (\<lambda>env s. (Inr a, s))"

definition tx_raise :: "exc \<Rightarrow> ('s, 'a) tx" where
  "tx_raise e = (\<lambda>env s. (Inl e, s))"

definition tx_bind :: "('s, 'a) tx \<Rightarrow> ('a \<Rightarrow> ('s, 'b) tx) \<Rightarrow> ('s, 'b) tx" where
  "tx_bind m f = (\<lambda>env s. case m env s of (Inl e, s') \<Rightarrow> (Inl e, s') | (Inr a, s') \<Rightarrow> f a env s')"

text \<open>One \<open>cur.execute\<close>: the environment may refuse it; otherwise its effect, or a violated constraint.\<close>

definition stmt :: "('s \<Rightarrow> exc + ('a \<times> 's)) \<Rightarrow> ('s, 'a) tx" where
  "stmt f = (\<lambda>env (s, n). case fault env n of
       Some e \<Rightarrow> (Inl e, (s, Suc n))
     | None \<Rightarrow> (case f s of Inl e \<Rightarrow> (Inl e, (s, Suc n)) | Inr (a, s') \<Rightarrow> (Inr a, (s', Suc n))))"

text \<open>A SELECT (with or without FOR UPDATE): no effect on the data.\<close>

definition query :: "('s \<Rightarrow> 'a) \<Rightarrow> ('s, 'a) tx" where
  "query f = stmt (\<lambda>s. Inr (f s, s))"

text \<open>An UPDATE, INSERT or DELETE that no constraint refuses.\<close>

definition update :: "('s \<Rightarrow> 's) \<Rightarrow> ('s, unit) tx" where
  "update f = stmt (\<lambda>s. Inr ((), f s))"

text \<open>A reader that answers None when its SELECT raises.\<close>

definition try_query :: "('s \<Rightarrow> 'a option) \<Rightarrow> ('s, 'a option) tx" where
  "try_query f = (\<lambda>env (s, n). case fault env n of
       Some e \<Rightarrow> (Inr None, (s, Suc n))
     | None \<Rightarrow> (Inr (f s), (s, Suc n)))"

text \<open>Write a row when no constraint is violated; replace the row of a key.\<close>

definition checked :: "exc option \<Rightarrow> 'a \<Rightarrow> exc + 'a" where
  "checked v a = (case v of Some e \<Rightarrow> Inl e | None \<Rightarrow> Inr a)"

definition put_assoc :: "'k \<Rightarrow> 'r \<Rightarrow> ('k \<times> 'r) list \<Rightarrow> ('k \<times> 'r) list" where
  "put_assoc k r xs = map (\<lambda>(i, q). if i = k then (i, r) else (i, q)) xs"

lemma checked_Inr [simp]: "checked v a = Inr b \<longleftrightarrow> v = None \<and> a = b"
  by (auto simp: checked_def split: option.splits)

lemma put_assoc_keys [simp]: "map fst (put_assoc k r xs) = map fst xs"
  by (auto simp: put_assoc_def)

lemma map_of_put_assoc: "map_of (put_assoc k r xs) i = (if i = k \<and> map_of xs k \<noteq> None then Some r else map_of xs i)"
  by (induction xs) (auto simp: put_assoc_def)

lemma map_of_snoc: "map_of (xs @ [(k, v)]) i = (case map_of xs i of Some w \<Rightarrow> Some w | None \<Rightarrow> if i = k then Some v else None)"
  by (induction xs) auto

lemma map_of_without: "map_of (filter (\<lambda>r. fst r \<noteq> k) xs) i = (if i = k then None else map_of xs i)"
  by (induction xs) auto

lemma in_put_assoc: "x \<in> set (put_assoc k r xs) \<Longrightarrow> x = (k, r) \<or> x \<in> set xs"
  by (auto simp: put_assoc_def split: if_splits)

text \<open>A loop of statements.\<close>

fun tx_each :: "('a \<Rightarrow> ('s, unit) tx) \<Rightarrow> 'a list \<Rightarrow> ('s, unit) tx" where
  "tx_each f [] = tx_return ()"
| "tx_each f (x # xs) = tx_bind (f x) (\<lambda>_. tx_each f xs)"

text \<open>
  \<open>write_transaction\<close>: commit at the end (the commit itself may raise), roll back and
  translate the exception otherwise.
\<close>

definition write_transaction :: "string \<Rightarrow> on_fk \<Rightarrow> ('s, 'a) tx \<Rightarrow> env \<Rightarrow> 's \<Rightarrow> (write_error + 'a) \<times> 's" where
  "write_transaction what fk body env s = (case body env (s, 0) of
       (Inl e, _) \<Rightarrow> (Inl (as_write_error e what fk), s)
     | (Inr a, (s', n)) \<Rightarrow> (case fault env n of
           Some e \<Rightarrow> (Inl (as_write_error e what fk), s)
         | None \<Rightarrow> (Inr a, s')))"

text \<open>
  The older writers' \<open>try: \<dots> conn.commit() \<dots> except: rollback; raise\<close>. The body says whether it
  reached the commit: the early returns leave without one.
\<close>

definition legacy_transaction :: "('s, bool \<times> 'a) tx \<Rightarrow> env \<Rightarrow> 's \<Rightarrow> (exc + 'a) \<times> 's" where
  "legacy_transaction body env s = (case body env (s, 0) of
       (Inl e, _) \<Rightarrow> (Inl e, s)
     | (Inr (commit, a), (s', n)) \<Rightarrow>
         if \<not> commit then (Inr a, s)
         else (case fault env n of Some e \<Rightarrow> (Inl e, s) | None \<Rightarrow> (Inr a, s')))"

text \<open>
  The older writers' \<open>except (ValueError, TypeError): raise; except Exception: rollback; return\<close>
  a fixed result. The write errors that are also a \<open>ValueError\<close> pass.
\<close>

fun is_value_error :: "exc \<Rightarrow> bool" where
  "is_value_error (Write (Invalid _)) = True"
| "is_value_error (Write (RuleInUse _)) = True"
| "is_value_error (Write (PlanRule _)) = True"
| "is_value_error (PyErr e) = (e \<noteq> OverflowErr)"
| "is_value_error _ = False"

definition swallowing :: "(exc \<Rightarrow> bool) \<Rightarrow> 'a \<Rightarrow> (exc + 'a) \<times> 's \<Rightarrow> (exc + 'a) \<times> 's" where
  "swallowing keep dflt r = (case r of
       (Inl e, s) \<Rightarrow> if keep e then (Inl e, s) else (Inr dflt, s)
     | (Inr a, s) \<Rightarrow> (Inr a, s))"

text \<open>The validators and the transaction of a writer raise into the same caller.\<close>

definition raising :: "(write_error + 'a) \<times> 's \<Rightarrow> (exc + 'a) \<times> 's" where
  "raising r = (case r of (Inl e, s) \<Rightarrow> (Inl (Write e), s) | (Inr a, s) \<Rightarrow> (Inr a, s))"

datatype conn_arg = ConnNone | ConnConfig pydict | ConnLive

definition is_postgres_config :: "pydict \<Rightarrow> bool" where
  "is_postgres_config cfg \<longleftrightarrow> dget cfg ''sink'' = PStr ''postgres'' \<or> truthy (dget cfg ''postgres'')"

text \<open>\<open>conn_from_config\<close>: is there a connection to work on?\<close>

definition conn_from_config :: "env \<Rightarrow> pydict option \<Rightarrow> bool" where
  "conn_from_config env cfg = (case cfg of
       None \<Rightarrow> False
     | Some c \<Rightarrow>
         if c = [] \<or> (dget c ''sink'' \<noteq> PStr ''postgres'' \<and> \<not> truthy (dget c ''postgres'')) then False
         else connect_ok env)"

definition write_connection ::
  "env \<Rightarrow> conn_arg \<Rightarrow> bool \<Rightarrow> string \<Rightarrow> ('s \<Rightarrow> (write_error + 'a) \<times> 's) \<Rightarrow> 's \<Rightarrow> (write_error + 'a) \<times> 's" where
  "write_connection env arg golden what body s = (case arg of
       ConnNone \<Rightarrow> (Inl (Failed (''Cannot write '' @ what @ '': Postgres is not configured.'') True), s)
     | ConnLive \<Rightarrow> body s
     | ConnConfig cfg \<Rightarrow>
         if \<not> is_postgres_config cfg
         then (Inl (Failed (''Cannot write '' @ what @ '': Postgres is not configured.'') True), s)
         else if \<not> connect_ok env
         then (Inl (Failed (''Cannot write '' @ what @ '': ''
                 @ (if golden then ''the Golden Source'' else ''the database'') @ '' is unreachable.'') True), s)
         else body s)"

text \<open>The two context managers as every strict writer nests them.\<close>

definition strict_write ::
  "string \<Rightarrow> on_fk \<Rightarrow> ('s, 'a) tx \<Rightarrow> env \<Rightarrow> conn_arg \<Rightarrow> 's \<Rightarrow> (write_error + 'a) \<times> 's" where
  "strict_write what fk body env arg = write_connection env arg False what (write_transaction what fk body env)"

subsection \<open>Reasoning about transactions\<close>

named_theorems tx_simps \<open>symbolic execution of transaction bodies\<close>

lemma tx_return_run [tx_simps]: "tx_return a env s = (Inr a, s)"
  by (simp add: tx_return_def)

lemma tx_raise_run [tx_simps]: "tx_raise e env s = (Inl e, s)"
  by (simp add: tx_raise_def)

lemma tx_bind_run [tx_simps]:
  "tx_bind m f env s = (case m env s of (Inl e, s') \<Rightarrow> (Inl e, s') | (Inr a, s') \<Rightarrow> f a env s')"
  by (simp add: tx_bind_def)

lemma stmt_run [tx_simps]:
  "stmt f env (s, n) = (case fault env n of
       Some e \<Rightarrow> (Inl e, (s, Suc n))
     | None \<Rightarrow> (case f s of Inl e \<Rightarrow> (Inl e, (s, Suc n)) | Inr (a, s') \<Rightarrow> (Inr a, (s', Suc n))))"
  by (simp add: stmt_def)

lemma query_run [tx_simps]:
  "query f env (s, n) = (case fault env n of Some e \<Rightarrow> (Inl e, (s, Suc n)) | None \<Rightarrow> (Inr (f s), (s, Suc n)))"
  by (simp add: query_def stmt_run split: option.splits)

lemma update_run [tx_simps]:
  "update f env (s, n) = (case fault env n of Some e \<Rightarrow> (Inl e, (s, Suc n)) | None \<Rightarrow> (Inr (), (f s, Suc n)))"
  by (simp add: update_def stmt_run split: option.splits)

text \<open>
  What a body does when it succeeds: \<open>tx_ok m s a s'\<close> says it can return \<open>a\<close> and leave \<open>s'\<close>
  in some environment. Successful runs of a compound body decompose without the fault oracle.
\<close>

definition tx_ok :: "env \<Rightarrow> ('s, 'a) tx \<Rightarrow> 's \<Rightarrow> 'a \<Rightarrow> 's \<Rightarrow> bool" where
  "tx_ok env m s a s' \<longleftrightarrow> (\<exists>n n'. m env (s, n) = (Inr a, (s', n')))"

lemma tx_ok_return [simp]: "tx_ok env (tx_return b) s a s' \<longleftrightarrow> a = b \<and> s' = s"
  by (auto simp: tx_ok_def tx_return_run)

lemma tx_ok_raise [simp]: "\<not> tx_ok env (tx_raise e) s a s'"
  by (auto simp: tx_ok_def tx_raise_run)

lemma tx_ok_bindD:
  assumes "tx_ok env (tx_bind m f) s b s''"
  shows "\<exists>a s'. tx_ok env m s a s' \<and> tx_ok env (f a) s' b s''"
proof -
  from assms obtain n n' where run: "tx_bind m f env (s, n) = (Inr b, (s'', n'))"
    by (auto simp: tx_ok_def)
  obtain r s' k where m: "m env (s, n) = (r, (s', k))" by (metis prod.exhaust)
  with run obtain a where "r = Inr a" by (cases r) (auto simp: tx_bind_run)
  with m run have "m env (s, n) = (Inr a, (s', k))" "f a env (s', k) = (Inr b, (s'', n'))"
    by (simp_all add: tx_bind_run)
  then show ?thesis unfolding tx_ok_def by blast
qed

lemma tx_ok_bindE:
  assumes "tx_ok env (tx_bind m f) s b s''"
  obtains a s' where "tx_ok env m s a s'" "tx_ok env (f a) s' b s''"
  using tx_ok_bindD [OF assms] by blast

lemma tx_ok_stmtD: "tx_ok env (stmt f) s a s' \<Longrightarrow> f s = Inr (a, s')"
  by (auto simp: tx_ok_def stmt_run split: option.splits sum.splits prod.splits)

lemma tx_ok_queryD: "tx_ok env (query f) s a s' \<Longrightarrow> a = f s \<and> s' = s"
  by (auto simp: query_def dest!: tx_ok_stmtD)

lemma tx_ok_updateD: "tx_ok env (update f) s a s' \<Longrightarrow> s' = f s"
  by (auto simp: update_def dest!: tx_ok_stmtD)

lemma try_query_run [tx_simps]:
  "try_query f env (s, n) = (case fault env n of Some e \<Rightarrow> (Inr None, (s, Suc n)) | None \<Rightarrow> (Inr (f s), (s, Suc n)))"
  by (simp add: try_query_def)

lemma tx_ok_try_queryD: "tx_ok env (try_query f) s a s' \<Longrightarrow> (a = None \<or> a = f s) \<and> s' = s"
  by (auto simp: tx_ok_def try_query_run split: option.splits)

lemma tx_ok_eachI:
  assumes "tx_ok env (tx_each f xs) s u s'" and "P s"
    and "\<And>x t t'. x \<in> set xs \<Longrightarrow> tx_ok env (f x) t () t' \<Longrightarrow> P t \<Longrightarrow> P t'"
  shows "P s'"
  using assms
proof (induction xs arbitrary: s)
  case (Cons x xs)
  from Cons.prems(1) obtain t where t: "tx_ok env (f x) s () t" "tx_ok env (tx_each f xs) t u s'"
    by (auto dest!: tx_ok_bindD)
  have "P t" by (rule Cons.prems(3) [OF _ t(1) Cons.prems(2)]) simp
  then show ?case by (rule Cons.IH [OF t(2)]) (use Cons.prems(3) in auto)
qed simp

lemma swallowing_simps [simp]:
  "swallowing k d r = (Inl e, s) \<longleftrightarrow> k e \<and> r = (Inl e, s)"
  "swallowing k d r = (Inr a, s) \<longleftrightarrow> r = (Inr a, s) \<or> (\<exists>e. r = (Inl e, s) \<and> \<not> k e \<and> a = d)"
  by (auto simp: swallowing_def split: prod.splits sum.splits if_splits)

lemmas tx_okD = tx_ok_bindD tx_ok_stmtD tx_ok_queryD tx_ok_updateD tx_ok_try_queryD

text \<open>
  A body keeps a property of the data when every successful run does: proved statement by
  statement, with the rules of the collection \<open>tx_keeps\<close>.
\<close>

named_theorems tx_keeps \<open>what a transaction body keeps\<close>

definition tx_inv :: "('s \<Rightarrow> bool) \<Rightarrow> ('s, 'a) tx \<Rightarrow> bool" where
  "tx_inv P m \<longleftrightarrow> (\<forall>env s a s'. tx_ok env m s a s' \<longrightarrow> P s \<longrightarrow> P s')"

lemma tx_invI: "(\<And>env s a s'. tx_ok env m s a s' \<Longrightarrow> P s \<Longrightarrow> P s') \<Longrightarrow> tx_inv P m"
  unfolding tx_inv_def by blast

lemma tx_invD: "tx_inv P m \<Longrightarrow> tx_ok env m s a s' \<Longrightarrow> P s \<Longrightarrow> P s'"
  unfolding tx_inv_def by blast

lemma tx_inv_return [tx_keeps]: "tx_inv P (tx_return a)"
  by (simp add: tx_inv_def)

lemma tx_inv_raise [tx_keeps]: "tx_inv P (tx_raise e)"
  by (simp add: tx_inv_def)

lemma tx_inv_query [tx_keeps]: "tx_inv P (query f)"
  by (rule tx_invI) (drule tx_ok_queryD, simp)

lemma tx_inv_try_query [tx_keeps]: "tx_inv P (try_query f)"
  by (rule tx_invI) (drule tx_ok_try_queryD, simp)

lemma tx_inv_bind [tx_keeps]: "tx_inv P m \<Longrightarrow> (\<And>a. tx_inv P (f a)) \<Longrightarrow> tx_inv P (tx_bind m f)"
  by (rule tx_invI) (blast dest: tx_ok_bindD tx_invD)

lemma tx_inv_each [tx_keeps]: "(\<And>x. tx_inv P (f x)) \<Longrightarrow> tx_inv P (tx_each f xs)"
  by (rule tx_invI) (blast intro: tx_ok_eachI tx_invD)

lemma tx_inv_stmt: "(\<And>s a s'. f s = Inr (a, s') \<Longrightarrow> P s \<Longrightarrow> P s') \<Longrightarrow> tx_inv P (stmt f)"
  by (rule tx_invI) (blast dest: tx_ok_stmtD)

lemma tx_inv_update: "(\<And>s. P s \<Longrightarrow> P (f s)) \<Longrightarrow> tx_inv P (update f)"
  by (rule tx_invI) (auto dest: tx_ok_updateD)

lemma tx_inv_if [tx_keeps]: "(b \<Longrightarrow> tx_inv P m) \<Longrightarrow> (\<not> b \<Longrightarrow> tx_inv P n) \<Longrightarrow> tx_inv P (if b then m else n)"
  by simp

lemma tx_inv_option [tx_keeps]:
  "(v = None \<Longrightarrow> tx_inv P m) \<Longrightarrow> (\<And>x. v = Some x \<Longrightarrow> tx_inv P (f x)) \<Longrightarrow>
   tx_inv P (case v of None \<Rightarrow> m | Some x \<Rightarrow> f x)"
  by (cases v) simp_all

lemma tx_inv_sum [tx_keeps]:
  "(\<And>x. tx_inv P (f x)) \<Longrightarrow> (\<And>x. tx_inv P (g x)) \<Longrightarrow> tx_inv P (case v of Inl x \<Rightarrow> f x | Inr x \<Rightarrow> g x)"
  by (cases v) simp_all

lemma tx_inv_prod [tx_keeps]: "(\<And>x y. tx_inv P (f x y)) \<Longrightarrow> tx_inv P (case v of (x, y) \<Rightarrow> f x y)"
  by (cases v) simp

lemma tx_inv_Let [tx_keeps]: "(\<And>x. tx_inv P (f x)) \<Longrightarrow> tx_inv P (Let v f)"
  by simp

lemma write_transaction_error: "write_transaction what fk m env s = (Inl e, s') \<Longrightarrow> s' = s"
  by (auto simp: write_transaction_def split: prod.splits sum.splits option.splits)

lemma write_transaction_ok: "write_transaction what fk m env s = (Inr a, s') \<Longrightarrow> tx_ok env m s a s'"
  by (auto simp: write_transaction_def tx_ok_def split: prod.splits sum.splits option.splits)

lemma legacy_transaction_error: "legacy_transaction m env s = (Inl e, s') \<Longrightarrow> s' = s"
  by (auto simp: legacy_transaction_def split: prod.splits sum.splits option.splits if_splits)

lemma legacy_transaction_ok:
  "legacy_transaction m env s = (Inr a, s') \<Longrightarrow> s' = s \<or> tx_ok env m s (True, a) s'"
  by (auto simp: legacy_transaction_def tx_ok_def split: prod.splits sum.splits option.splits if_splits)

lemma raising_simps [simp]:
  "raising r = (Inl x, s) \<longleftrightarrow> (\<exists>e. x = Write e \<and> r = (Inl e, s))"
  "raising r = (Inr a, s) \<longleftrightarrow> r = (Inr a, s)"
  by (auto simp: raising_def split: prod.splits sum.splits)

lemma strict_write_error: "strict_write what fk m env arg s = (Inl e, s') \<Longrightarrow> s' = s"
  by (auto simp: strict_write_def write_connection_def dest: write_transaction_error
      split: conn_arg.splits if_splits)

lemma strict_write_ok: "strict_write what fk m env arg s = (Inr a, s') \<Longrightarrow> tx_ok env m s a s'"
  by (auto simp: strict_write_def write_connection_def dest: write_transaction_ok
      split: conn_arg.splits if_splits)

lemma legacy_transaction_keeps:
  "legacy_transaction m env s = (Inr a, s') \<Longrightarrow> P s \<Longrightarrow> tx_inv P m \<Longrightarrow> P s'"
  by (auto dest: legacy_transaction_ok tx_invD)

lemma legacy_transaction_inv:
  "legacy_transaction m env s = (r, s') \<Longrightarrow> tx_inv P m \<Longrightarrow> P s \<Longrightarrow> P s'"
  by (cases r) (auto dest: legacy_transaction_error legacy_transaction_ok tx_invD)

lemma strict_write_inv: "strict_write what fk m env arg s = (r, s') \<Longrightarrow> tx_inv P m \<Longrightarrow> P s \<Longrightarrow> P s'"
  by (cases r) (auto dest: strict_write_error strict_write_ok tx_invD)

lemma raising_inv: "raising r = (x, s') \<Longrightarrow> snd r = s'"
  by (auto simp: raising_def split: prod.splits sum.splits)

lemma apfst_eq: "apfst f p = (x, s') \<longleftrightarrow> f (fst p) = x \<and> snd p = s'"
  by (cases p) auto

lemma strict_write_snd: "tx_inv P m \<Longrightarrow> P s \<Longrightarrow> P (snd (strict_write what fk m env arg s))"
  by (metis prod.collapse strict_write_inv)

lemma raising_snd: "snd (raising r) = snd r"
  by (auto simp: raising_def split: prod.splits sum.splits)

lemma legacy_transaction_snd: "tx_inv P m \<Longrightarrow> P s \<Longrightarrow> P (snd (legacy_transaction m env s))"
  by (metis prod.collapse legacy_transaction_inv)

lemma swallowing_snd: "snd (swallowing k d r) = snd r"
  by (auto simp: swallowing_def split: prod.splits sum.splits)

lemma swallowing_inv: "swallowing k d r = (x, s') \<Longrightarrow> snd r = s'"
  by (auto simp: swallowing_def split: prod.splits sum.splits if_splits)

section \<open>Validation of a PATCH body\<close>

abbreviation invalid :: "string \<Rightarrow> exc + 'a" where
  "invalid msg \<equiv> Inl (Write (Invalid msg))"

definition check_fields :: "pyval \<Rightarrow> string list \<Rightarrow> string \<Rightarrow> exc + pydict" where
  "check_fields body allowed what = (case body of
       PDict d \<Rightarrow>
         (let unknown = sort (filter (\<lambda>k. k \<notin> set allowed) (map fst d))
          in if d = [] then invalid (''Nothing to change: send at least one '' @ what @ '' field.'')
             else if unknown \<noteq> []
             then invalid (''Unknown '' @ what @ '' field'' @ (if length unknown > 1 then ''s'' else [])
                    @ '': '' @ join '', '' unknown @ ''. Patchable: '' @ join '', '' allowed @ ''.'')
             else Inr d)
     | _ \<Rightarrow> invalid (''The '' @ what @ '' fields must be an object.''))"

definition text_value :: "pyval \<Rightarrow> string \<Rightarrow> bool \<Rightarrow> nat option \<Rightarrow> exc + string option" where
  "text_value v name nullable max_len = (case v of
       PNone \<Rightarrow> if nullable then Inr None else invalid (name @ '' is required.'')
     | PStr s \<Rightarrow>
         (let out = strip s
          in if out = []
             then (if nullable then invalid (name @ '' is blank; send null to clear it.'')
                   else invalid (name @ '' is required.''))
             else (case max_len of
                     Some n \<Rightarrow> if length out > n
                               then invalid (name @ '' is longer than '' @ nat_str n @ '' characters.'')
                               else Inr (Some out)
                   | None \<Rightarrow> Inr (Some out)))
     | _ \<Rightarrow> invalid (name @ '' must be text.''))"

text \<open>
  \<open>integer\<close>: after the digits test Python still calls \<open>int()\<close>, which raises ValueError of its
  own for a text such as \<open>--5\<close>: \<open>lstrip\<close> removes both signs, \<open>int\<close> accepts one.
\<close>

definition integer :: "pyval \<Rightarrow> string \<Rightarrow> bool \<Rightarrow> int option \<Rightarrow> exc + int option" where
  "integer v name nullable minimum =
     (let check = (\<lambda>out. case minimum of
            Some m \<Rightarrow> if out < m then invalid (name @ '' must be '' @ int_str m @ '' or more.'') else Inr (Some out)
          | None \<Rightarrow> Inr (Some out));
          bad = invalid (name @ '' must be a whole number.'')
      in case v of
           PNone \<Rightarrow> if nullable then Inr None else invalid (name @ '' is required.'')
         | PBool _ \<Rightarrow> bad
         | PInt i \<Rightarrow> check i
         | PFloat (Fin q) \<Rightarrow> if q = of_int \<lfloor>q\<rfloor> then check \<lfloor>q\<rfloor> else bad
         | PStr s \<Rightarrow>
             if isdigit (dropWhile (\<lambda>c. c = CHR ''-'') (strip s))
             then (case parse_int (strip s) of None \<Rightarrow> Inl (PyErr ValueErr) | Some i \<Rightarrow> check i)
             else bad
         | _ \<Rightarrow> bad)"

definition row_id :: "pyval \<Rightarrow> string \<Rightarrow> bool \<Rightarrow> exc + int option" where
  "row_id v name nullable = integer v name nullable (Some 1)"

text \<open>\<open>{minimum:g}\<close> of a bound: no decimals for a whole number.\<close>

definition fmt_g :: "rat \<Rightarrow> string" where
  "fmt_g q = (if q = of_int \<lfloor>q\<rfloor> then int_str \<lfloor>q\<rfloor> else rat_repr q)"

definition number :: "pyval \<Rightarrow> string \<Rightarrow> bool \<Rightarrow> rat option \<Rightarrow> exc + rat option" where
  "number v name nullable minimum =
     (let check = (\<lambda>out. case minimum of
            Some m \<Rightarrow> if out < m then invalid (name @ '' must be '' @ fmt_g m @ '' or more.'') else Inr (Some out)
          | None \<Rightarrow> Inr (Some out))
      in case v of
           PNone \<Rightarrow> if nullable then Inr None else invalid (name @ '' is required.'')
         | PInt i \<Rightarrow> check (of_int i)
         | PFloat (Fin q) \<Rightarrow> check q
         | PFloat _ \<Rightarrow> invalid (name @ '' must be a finite number.'')
         | _ \<Rightarrow> invalid (name @ '' must be a number.''))"

definition boolean :: "pyval \<Rightarrow> string \<Rightarrow> exc + bool" where
  "boolean v name = (case v of PBool b \<Rightarrow> Inr b | _ \<Rightarrow> invalid (name @ '' must be true or false.''))"

definition choice :: "pyval \<Rightarrow> string \<Rightarrow> string list \<Rightarrow> bool \<Rightarrow> exc + string option" where
  "choice v name options nullable = ebind (text_value v name nullable None) (\<lambda>out. case out of
       None \<Rightarrow> Inr None
     | Some t \<Rightarrow> if t \<notin> set options then invalid (name @ '' must be one of '' @ join '', '' options @ ''.'')
                 else Inr (Some t))"

text \<open>\<open>datetime.fromtimestamp(x, utc)\<close>: microseconds, ties to even; years 1 to 9999 only.\<close>

definition fromtimestamp :: "pyfloat \<Rightarrow> datetime option" where
  "fromtimestamp f = (case f of
       Fin q \<Rightarrow> (let t = round_half_even (q * 1000000)
                 in if - 62135596800000000 \<le> t \<and> t < 253402300800000000 then Some (Aware t) else None)
     | _ \<Rightarrow> None)"

definition timestamp :: "pyval \<Rightarrow> string \<Rightarrow> bool \<Rightarrow> exc + datetime option" where
  "timestamp v name nullable =
     (let unix = (\<lambda>f. case fromtimestamp f of
            None \<Rightarrow> invalid (name @ '' is not a valid Unix time.'') | Some t \<Rightarrow> Inr (Some t))
      in case v of
           PNone \<Rightarrow> if nullable then Inr None else invalid (name @ '' is required.'')
         | PDatetime t \<Rightarrow> Inr (Some (as_utc t))
         | PInt i \<Rightarrow> unix (Fin (of_int i))
         | PFloat f \<Rightarrow> unix f
         | PStr s \<Rightarrow>
             if strip s = [] then invalid (name @ '' must be a timestamp.'')
             else (let raw = strip s;
                       raw' = (if last raw = CHR ''Z'' then butlast raw @ ''+00:00'' else raw)
                   in case fromisoformat raw' of
                        None \<Rightarrow> invalid (name @ '' must be an ISO 8601 timestamp or Unix seconds.'')
                      | Some t \<Rightarrow> Inr (Some (as_utc t)))
         | _ \<Rightarrow> invalid (name @ '' must be a timestamp.''))"

definition calendar_date :: "pyval \<Rightarrow> string \<Rightarrow> bool \<Rightarrow> exc + date option" where
  "calendar_date v name nullable =
     (let bad = invalid (name @ '' must be a date (YYYY-MM-DD).'')
      in case v of
           PNone \<Rightarrow> if nullable then Inr None else invalid (name @ '' is required.'')
         | PDatetime t \<Rightarrow> Inr (Some (date_of_instant (instant t)))
         | PDate d \<Rightarrow> Inr (Some d)
         | PStr s \<Rightarrow> (case strptime_ymd ''-'' (strip s) of None \<Rightarrow> bad | Some d \<Rightarrow> Inr (Some d))
         | _ \<Rightarrow> bad)"

definition list_value :: "pyval \<Rightarrow> string \<Rightarrow> exc + pyval list" where
  "list_value v name = (case v of
       PNone \<Rightarrow> invalid (name @ '' cannot be null; send [] to empty it.'')
     | PList xs \<Rightarrow> Inr xs
     | _ \<Rightarrow> invalid (name @ '' must be a list.''))"

definition set_clause :: "(string \<times> 'v) list \<Rightarrow> string list \<Rightarrow> bool \<Rightarrow> string \<times> 'v list" where
  "set_clause columns jsonb touch =
     (let parts = map (\<lambda>(col, _). if col \<in> set jsonb then col @ '' = %s::jsonb'' else col @ '' = %s'') columns
      in (join '', '' (parts @ (if touch then [''updated_at = now()''] else [])), map snd columns))"

definition name_list :: "string list \<Rightarrow> nat \<Rightarrow> string" where
  "name_list names limit =
     (let shown = take limit names; rest = int (length names) - int (length shown)
      in if rest > 0 then join '', '' shown @ '' and '' @ int_str rest @ '' more''
         else if length shown \<le> 1 then concat shown
         else join '', '' (butlast shown) @ '' and '' @ last shown)"

definition plural :: "int \<Rightarrow> string \<Rightarrow> string \<Rightarrow> string" where
  "plural n one many = int_str n @ '' '' @ (if n = 1 then one else many)"

text \<open>\<open>float(v) if v is not None else None\<close>: the conversion error is the caller's, unchanged.\<close>

definition opt_float :: "pyval \<Rightarrow> exc + pyval" where
  "opt_float v = (if v = PNone then Inr PNone
     else case py_float v of Inl e \<Rightarrow> Inl (PyErr e) | Inr f \<Rightarrow> Inr (PFloat f))"

text \<open>A nullable text as a value.\<close>

fun of_opt :: "string option \<Rightarrow> pyval" where
  "of_opt None = PNone"
| "of_opt (Some s) = PStr s"

text \<open>A field of a PATCH body, validated when the client sent it.\<close>

definition sent_field :: "pydict \<Rightarrow> string \<Rightarrow> (pyval \<Rightarrow> exc + 'a) \<Rightarrow> exc + 'a option" where
  "sent_field fs k f = (if dhas fs k then ebind (f (dget fs k)) (\<lambda>x. Inr (Some x)) else Inr None)"

lemma sent_field_Some: "sent_field fs k f = Inr (Some x) \<Longrightarrow> f (dget fs k) = Inr x"
  by (auto simp: sent_field_def split: if_splits)

subsection \<open>What the validators promise\<close>

lemma check_fields_ok:
  "check_fields v allowed what = Inr d \<longleftrightarrow> v = PDict d \<and> d \<noteq> [] \<and> fst ` set d \<subseteq> set allowed"
proof -
  have "sort (filter (\<lambda>k. k \<notin> set allowed) (map fst e)) = [] \<longleftrightarrow> fst ` set e \<subseteq> set allowed" for e :: pydict
    by (metis (no_types, lifting) filter_empty_conv image_set list.set_map set_empty set_sort subset_iff)
  then show ?thesis
    by (cases v) (auto simp: check_fields_def Let_def)
qed

lemma text_value_ok:
  "text_value v name nullable ml = Inr (Some t) \<Longrightarrow> (\<exists>s. v = PStr s \<and> t = strip s) \<and> t \<noteq> [] \<and> strip t = t"
  by (auto simp: text_value_def Let_def split: pyval.splits if_splits option.splits)

lemma text_value_None: "text_value v name nullable ml = Inr None \<longleftrightarrow> v = PNone \<and> nullable"
  by (auto simp: text_value_def Let_def split: pyval.splits if_splits option.splits)

lemma text_value_required: "text_value v name False ml = Inr r \<Longrightarrow> r \<noteq> None"
  using text_value_None [of v name False ml] by auto

lemma integer_min: "integer v name nullable (Some m) = Inr (Some i) \<Longrightarrow> m \<le> i"
  by (auto simp: integer_def Let_def split: pyval.splits if_splits option.splits pyfloat.splits)

lemma integer_None: "integer v name nullable mn = Inr None \<longleftrightarrow> v = PNone \<and> nullable"
  by (auto simp: integer_def Let_def split: pyval.splits if_splits option.splits pyfloat.splits)

lemma number_min: "number v name nullable (Some m) = Inr (Some q) \<Longrightarrow> m \<le> q"
  by (auto simp: number_def Let_def split: pyval.splits if_splits option.splits pyfloat.splits)

lemma number_None: "number v name nullable mn = Inr None \<longleftrightarrow> v = PNone \<and> nullable"
  by (auto simp: number_def Let_def split: pyval.splits if_splits option.splits pyfloat.splits)

lemma choice_ok: "choice v name opts nullable = Inr (Some t) \<Longrightarrow> t \<in> set opts \<and> strip t = t \<and> t \<noteq> []"
  by (auto simp: choice_def split: option.splits if_splits dest!: text_value_ok)

lemma choice_None: "choice v name opts nullable = Inr None \<longleftrightarrow> v = PNone \<and> nullable"
  by (auto simp: choice_def text_value_None split: option.splits if_splits)

lemma integer_double_sign: "integer (PStr ''--5'') ''qty'' False (Some 1) = Inl (PyErr ValueErr)"
  by code_simp

section \<open>The contract of a writer\<close>

text \<open>
  A writer runs on the environment and the stored state, and returns an error or a result. It is
  all-or-nothing when an error leaves the state as it was; a family of writers that also keep an
  invariant of the state keeps it over any sequence of calls, whatever fails on the way. The writers of
  two databases are not all-or-nothing: they only promise the last part (\<open>kept_invariant\<close>).
\<close>

locale kept_invariant =
  fixes step :: "'o \<Rightarrow> 's \<Rightarrow> 's" and inv :: "'s \<Rightarrow> bool"
  assumes step_keeps: "inv s \<Longrightarrow> inv (step op s)"
begin

lemma fold_keeps: "inv s \<Longrightarrow> inv (fold step ops s)"
  by (induction ops arbitrary: s) (auto intro: step_keeps)

end

locale atomic_writer =
  fixes run :: "'o \<Rightarrow> 's \<Rightarrow> ('e + 'a) \<times> 's"
  assumes error_keeps_state: "run op s = (Inl e, s') \<Longrightarrow> s' = s"
begin

primrec run_all :: "'o list \<Rightarrow> 's \<Rightarrow> 's" where
  "run_all [] s = s"
| "run_all (op # ops) s = run_all ops (snd (run op s))"

lemma all_fail: "(\<And>op s. op \<in> set ops \<Longrightarrow> isl (fst (run op s))) \<Longrightarrow> run_all ops s = s"
proof (induction ops arbitrary: s)
  case (Cons op ops)
  have "isl (fst (run op s))" using Cons.prems by simp
  then obtain e where "fst (run op s) = Inl e" by (auto simp: isl_def)
  then have "snd (run op s) = s"
    using error_keeps_state [of op s e "snd (run op s)"] by (simp add: prod_eq_iff)
  with Cons show ?case by simp
qed simp

lemma run_all_append: "run_all (xs @ ys) s = run_all ys (run_all xs s)"
  by (induction xs arbitrary: s) auto

end

locale invariant_writer = atomic_writer run
  for run :: "'o \<Rightarrow> 's \<Rightarrow> ('e + 'a) \<times> 's" +
  fixes inv :: "'s \<Rightarrow> bool"
  assumes success_keeps_inv: "inv s \<Longrightarrow> run op s = (Inr a, s') \<Longrightarrow> inv s'"
begin

lemma step_keeps_inv: "inv s \<Longrightarrow> inv (snd (run op s))"
  by (cases "run op s"; cases "fst (run op s)") (auto dest: error_keeps_state success_keeps_inv)

lemma run_all_fold: "run_all ops s = fold (\<lambda>op s. snd (run op s)) ops s"
  by (induction ops arbitrary: s) auto

end

sublocale invariant_writer \<subseteq> writer_steps: kept_invariant "\<lambda>op s. snd (run op s)" inv
  by unfold_locales (rule step_keeps_inv)

context invariant_writer begin

lemma run_all_keeps_inv: "inv s \<Longrightarrow> inv (run_all ops s)"
  unfolding run_all_fold by (rule writer_steps.fold_keeps)

end

end
