(* ===== verification/Trade_Plan.thy ===== *)
theory Trade_Plan
  imports Write_Support
begin

text \<open>
  Structured trade plans (\<open>monitor/reader/strategy_plan.py\<close>; the tables and their constraints
  from \<open>persistence/postgres/trade_ddl.py\<close>): the plan's rules, the readers, and every writer of
  the \<open>strategy_plan\<close> table.

  A row is a function from column names to values (\<open>PNone\<close> is NULL), a table an association list
  from ids to rows in insertion order. Statements check the constraints of the table and raise
  the violation; foreign keys and type errors are among the exceptions the environment may raise.
  Each writer locks the row it reads (\<open>FOR UPDATE\<close>), so a writer is one step of the database.
\<close>

section \<open>Tables\<close>

type_synonym row = "string \<Rightarrow> pyval"

record trade_row =
  tr_account :: string
  tr_opened_at :: datetime

record plan_db =
  plans :: "(int \<times> row) list"
  next_plan :: int
  trades :: "(int \<times> trade_row) list"

definition one_of :: "string list \<Rightarrow> pyval \<Rightarrow> bool" where
  "one_of opts v = (case v of PNone \<Rightarrow> True | PStr s \<Rightarrow> s \<in> set opts | _ \<Rightarrow> False)"

fun num_of :: "pyval \<Rightarrow> rat option" where
  "num_of (PInt i) = Some (of_int i)"
| "num_of (PFloat (Fin q)) = Some q"
| "num_of _ = None"

text \<open>A numeric CHECK: NULL passes, and NaN is the largest value to PostgreSQL.\<close>

definition num_check :: "(rat \<Rightarrow> bool) \<Rightarrow> pyval \<Rightarrow> bool" where
  "num_check p v = (case v of PNone \<Rightarrow> True | PFloat NaN \<Rightarrow> True | PFloat PosInf \<Rightarrow> True
     | _ \<Rightarrow> (case num_of v of Some q \<Rightarrow> p q | None \<Rightarrow> False))"

definition plan_not_null :: "string list" where
  "plan_not_null = [''account_id'', ''symbol'', ''structure_label'', ''legs_json'', ''qty'', ''source_kind'',
     ''source_json'', ''status'', ''created_at'', ''updated_at'']"

definition PLAN_STATUSES :: "string list" where
  "PLAN_STATUSES = [''draft'', ''intended'', ''filled'', ''cancelled'']"

definition plan_checks :: "(string \<times> (row \<Rightarrow> bool)) list" where
  "plan_checks = [
     (''strategy_plan_qty_check'', \<lambda>r. num_check (\<lambda>q. q > 0) (r ''qty'')),
     (''strategy_plan_price_effect_check'', \<lambda>r. one_of [''credit'', ''debit''] (r ''price_effect'')),
     (''strategy_plan_limit_price_check'', \<lambda>r. num_check (\<lambda>q. q \<ge> 0) (r ''limit_price'')),
     (''strategy_plan_target_kind_check'',
        \<lambda>r. one_of [''credit_pct'', ''option_price'', ''underlying_price''] (r ''target_kind'')),
     (''strategy_plan_stop_kind_check'',
        \<lambda>r. one_of [''credit_multiple'', ''option_price'', ''underlying_price''] (r ''stop_kind'')),
     (''strategy_plan_source_kind_check'',
        \<lambda>r. one_of [''manual'', ''symbol'', ''hypothesis'', ''inbox_draft'', ''roll'', ''lens'', ''backtest_run'']
              (r ''source_kind'')),
     (''strategy_plan_status_check'', \<lambda>r. one_of PLAN_STATUSES (r ''status'')),
     (''strategy_plan_check'', \<lambda>r. (r ''target_kind'' = PNone) = (r ''target_value'' = PNone)),
     (''strategy_plan_check1'', \<lambda>r. (r ''stop_kind'' = PNone) = (r ''stop_value'' = PNone)),
     (''strategy_plan_filled_instance_ck'', \<lambda>r. (r ''status'' = PStr ''filled'') = (r ''trade_id'' \<noteq> PNone))]"

definition plan_violation :: "row \<Rightarrow> exc option" where
  "plan_violation r =
     (case filter (\<lambda>c. r c = PNone) plan_not_null of
        c # _ \<Rightarrow> Some (NotNullViolation (Some c, None))
      | [] \<Rightarrow> (case filter (\<lambda>nc. \<not> snd nc r) plan_checks of
                 nc # _ \<Rightarrow> Some (CheckViolation (None, Some (fst nc)))
               | [] \<Rightarrow> None))"

section \<open>The plan's rules\<close>

abbreviation plan_rule :: "string \<Rightarrow> exc + 'a" where
  "plan_rule msg \<equiv> Inl (Write (PlanRule msg))"

definition EDITABLE_COLUMNS :: "string list" where
  "EDITABLE_COLUMNS = [''account_id'', ''symbol'', ''structure_label'', ''strategy_structure_id'',
     ''strategy_opportunity_id'', ''qty'', ''price_effect'', ''limit_price'', ''target_kind'', ''target_value'',
     ''stop_kind'', ''stop_value'', ''exit_by'', ''rationale'', ''source_kind'', ''source_ref'', ''expires_at'']"

definition strip_or_empty :: "pyval \<Rightarrow> string" where
  "strip_or_empty v = strip (py_str (py_or v (PStr [])))"

definition plan_effective_status :: "pyval \<Rightarrow> pyval \<Rightarrow> datetime \<Rightarrow> string" where
  "plan_effective_status status expires_at moment =
     (let current = strip_or_empty status
      in if current \<noteq> ''intended'' then current
         else (case expires_at of
                 PDatetime deadline \<Rightarrow>
                   if instant (as_utc deadline) < instant (as_utc moment) then ''expired'' else current
               | _ \<Rightarrow> current))"

definition plan_exit_is_written :: "pyval \<Rightarrow> pyval \<Rightarrow> pyval \<Rightarrow> bool" where
  "plan_exit_is_written target_kind stop_kind exit_by \<longleftrightarrow> truthy target_kind \<or> truthy stop_kind \<or> exit_by \<noteq> PNone"

subsection \<open>Legs\<close>

text \<open>\<open>str(v).strip() if v not in (None, '') else None\<close>.\<close>

definition opt_text :: "pyval \<Rightarrow> string option" where
  "opt_text v = (if v = PNone \<or> v = PStr [] then None else Some (strip (py_str v)))"

definition leg_ratio :: "pyval \<Rightarrow> string \<Rightarrow> exc + int" where
  "leg_ratio v pre = (case py_int (if v = PNone then PInt 1 else v) of
       Inl OverflowErr \<Rightarrow> Inl (PyErr OverflowErr)
     | Inl _ \<Rightarrow> plan_rule (pre @ ''ratio must be a whole number'')
     | Inr r \<Rightarrow> if r < 1 then plan_rule (pre @ ''ratio must be 1 or more'') else Inr r)"

definition normalize_leg :: "nat \<Rightarrow> pyval \<Rightarrow> exc + pydict" where
  "normalize_leg i raw = (case raw of
     PDict d \<Rightarrow>
       (let pre = ''leg '' @ nat_str (i + 1) @ '': '';
            side = lower (strip_or_empty (dget d ''side''));
            sec_type = upper (strip_or_empty (dget d ''sec_type''));
            right = map_option upper (opt_text (dget d ''right''));
            strike = dget d ''strike'';
            expiry = opt_text (dget d ''expiry'')
        in if side \<notin> {''buy'', ''sell''} then plan_rule (pre @ ''side must be buy or sell'')
           else if sec_type \<notin> {''OPT'', ''STK''} then plan_rule (pre @ ''sec_type must be OPT or STK'')
           else if right \<notin> {None, Some ''C'', Some ''P''} then plan_rule (pre @ ''right must be C or P'')
           else if sec_type = ''OPT'' \<and> (right = None \<or> strike = PNone \<or> expiry = None)
           then plan_rule (pre @ ''an option leg needs right, strike and expiry'')
           else if expiry \<noteq> None \<and> strptime_ymd ''-'' (the expiry) = None
           then plan_rule (pre @ ''expiry must be YYYY-MM-DD'')
           else ebind (leg_ratio (dget d ''ratio'') pre) (\<lambda>ratio.
                ebind (opt_float strike) (\<lambda>strike_f.
                ebind (opt_float (dget d ''mid_at_plan'')) (\<lambda>mid.
                Inr [(''side'', PStr side), (''sec_type'', PStr sec_type), (''right'', of_opt right),
                     (''strike'', strike_f), (''expiry'', of_opt expiry), (''ratio'', PInt ratio),
                     (''contract_key'',
                        (let ck = dget d ''contract_key''
                         in if truthy ck \<and> strip (py_str ck) \<noteq> [] then PStr (strip (py_str ck)) else PNone)),
                     (''mid_at_plan'', mid),
                     (''quote_asof'',
                        (let q = dget d ''quote_asof'' in if truthy q then PStr (py_str q) else PNone))]))))
   | _ \<Rightarrow> plan_rule (''leg '' @ nat_str (i + 1) @ '' is not an object''))"

fun normalize_legs_from :: "nat \<Rightarrow> pyval list \<Rightarrow> exc + pyval list" where
  "normalize_legs_from i [] = Inr []"
| "normalize_legs_from i (raw # rest) =
     ebind (normalize_leg i raw) (\<lambda>leg. ebind (normalize_legs_from (i + 1) rest) (\<lambda>legs. Inr (PDict leg # legs)))"

definition normalize_plan_legs :: "pyval \<Rightarrow> exc + pyval list" where
  "normalize_plan_legs v = (case v of
       PNone \<Rightarrow> Inr []
     | PList xs \<Rightarrow> normalize_legs_from 0 xs
     | _ \<Rightarrow> plan_rule ''legs must be a list'')"

fun is_dict :: "pyval \<Rightarrow> bool" where
  "is_dict (PDict _) = True"
| "is_dict _ = False"

definition normalize_source :: "pyval \<Rightarrow> pyval list" where
  "normalize_source v = (case v of PList xs \<Rightarrow> filter is_dict xs | _ \<Rightarrow> [])"

subsection \<open>Fields of a payload\<close>

text \<open>\<open>(fields.get(kind) is None) != (fields.get(value) is None)\<close> for a pair the payload touches.\<close>

definition check_pair :: "pydict \<Rightarrow> string \<Rightarrow> string \<Rightarrow> string \<Rightarrow> exc + unit" where
  "check_pair fs kind val label =
     (if (dhas fs kind \<or> dhas fs val) \<and> (dget fs kind = PNone) \<noteq> (dget fs val = PNone)
      then plan_rule (''A '' @ label @ '' needs both a kind and a value'') else Inr ())"

definition check_pairs :: "pydict \<Rightarrow> exc + unit" where
  "check_pairs fs = ebind (check_pair fs ''target_kind'' ''target_value'' ''target'')
     (\<lambda>_. check_pair fs ''stop_kind'' ''stop_value'' ''stop'')"

definition REQUIRED_ON_CREATE :: "string list" where
  "REQUIRED_ON_CREATE = [''account_id'', ''symbol'', ''structure_label'', ''qty'']"

definition plan_field :: "string \<Rightarrow> pyval \<Rightarrow> exc + pyval" where
  "plan_field name v =
     (if name \<in> {''account_id'', ''symbol'', ''structure_label''}
      then (let t = strip_or_empty v
            in if t = [] then plan_rule (map (\<lambda>c. if c = CHR ''_'' then CHR '' '' else c) name @ '' is required'')
               else Inr (PStr (if name = ''symbol'' then upper t else t)))
      else if name = ''qty''
      then (if v = PNone then plan_rule ''qty is required''
            else case py_int v of
                   Inl OverflowErr \<Rightarrow> Inl (PyErr OverflowErr)
                 | Inl _ \<Rightarrow> plan_rule ''qty must be a whole number''
                 | Inr q \<Rightarrow> if q \<le> 0 then plan_rule ''qty must be 1 or more'' else Inr (PInt q))
      else Inr v)"

fun plan_fields_loop :: "pydict \<Rightarrow> bool \<Rightarrow> string list \<Rightarrow> exc + pydict" where
  "plan_fields_loop payload require [] = Inr []"
| "plan_fields_loop payload require (name # names) =
     (if \<not> dhas payload name \<and> \<not> (require \<and> name \<in> set REQUIRED_ON_CREATE)
      then plan_fields_loop payload require names
      else ebind (plan_field name (dget payload name)) (\<lambda>v.
           ebind (plan_fields_loop payload require names) (\<lambda>fs. Inr ((name, v) # fs))))"

definition plan_fields :: "pydict \<Rightarrow> bool \<Rightarrow> exc + pydict" where
  "plan_fields payload require =
     ebind (plan_fields_loop payload require EDITABLE_COLUMNS) (\<lambda>fs.
       (let fs' = (if require \<and> \<not> dhas fs ''source_kind''
                   then fs @ [(''source_kind'', py_or (dget payload ''source_kind'') (PStr ''manual''))] else fs)
        in ebind (check_pairs fs') (\<lambda>_. Inr fs')))"

section \<open>Statements\<close>

text \<open>Store the coerced values of the named columns.\<close>

fun set_cols :: "env \<Rightarrow> pydict \<Rightarrow> row \<Rightarrow> exc + row" where
  "set_cols env [] r = Inr r"
| "set_cols env ((c, v) # cols) r =
     ebind (coerce env c v) (\<lambda>w. set_cols env cols (r(c := w)))"

text \<open>A jsonb column keeps the list it is sent.\<close>

definition set_json :: "string \<Rightarrow> pyval list option \<Rightarrow> row \<Rightarrow> row" where
  "set_json c xs r = (case xs of None \<Rightarrow> r | Some l \<Rightarrow> r(c := PList l))"

definition put_row :: "int \<Rightarrow> row \<Rightarrow> plan_db \<Rightarrow> plan_db" where
  "put_row pid r db = db\<lparr>plans := map (\<lambda>(i, q). if i = pid then (i, r) else (i, q)) (plans db)\<rparr>"

text \<open>\<open>UPDATE strategy_plan SET \<dots> WHERE strategy_plan_id = pid\<close>; the result is the row count.\<close>

definition update_row :: "int \<Rightarrow> (env \<Rightarrow> row \<Rightarrow> exc + row) \<Rightarrow> (plan_db, int) tx" where
  "update_row pid f = (\<lambda>env. stmt (\<lambda>db. case map_of (plans db) pid of
       None \<Rightarrow> Inr (0, db)
     | Some r \<Rightarrow> ebind (f env r) (\<lambda>r'. case plan_violation r' of
           Some e \<Rightarrow> Inl e
         | None \<Rightarrow> Inr (1, put_row pid r' db))) env)"

definition touch :: "env \<Rightarrow> row \<Rightarrow> row" where
  "touch env r = r(''updated_at'' := PDatetime (Aware (now env)))"

definition default_row :: "env \<Rightarrow> row" where
  "default_row env = (\<lambda>_. PNone)(''legs_json'' := PList [], ''source_json'' := PList [],
     ''source_kind'' := PStr ''manual'', ''status'' := PStr ''draft'',
     ''created_at'' := PDatetime (Aware (now env)), ''updated_at'' := PDatetime (Aware (now env)))"

definition insert_row :: "(env \<Rightarrow> exc + row) \<Rightarrow> (plan_db, int) tx" where
  "insert_row f = (\<lambda>env. stmt (\<lambda>db. ebind (f env) (\<lambda>r. case plan_violation r of
       Some e \<Rightarrow> Inl e
     | None \<Rightarrow> Inr (next_plan db,
           db\<lparr>plans := plans db @ [(next_plan db, r)], next_plan := next_plan db + 1\<rparr>))) env)"

text \<open>\<open>ON DELETE SET NULL\<close> of \<open>parent_strategy_plan_id\<close> goes with the DELETE.\<close>

definition orphan :: "int \<Rightarrow> row \<Rightarrow> row" where
  "orphan pid r = (if r ''parent_strategy_plan_id'' = PInt pid then r(''parent_strategy_plan_id'' := PNone) else r)"

definition delete_row :: "int \<Rightarrow> (plan_db, int) tx" where
  "delete_row pid = stmt (\<lambda>db. Inr (if map_of (plans db) pid = None then 0 else 1,
     db\<lparr>plans := map (\<lambda>(i, r). (i, orphan pid r)) (filter (\<lambda>(i, r). i \<noteq> pid) (plans db))\<rparr>))"

definition select_row :: "int \<Rightarrow> (plan_db, row option) tx" where
  "select_row pid = query (\<lambda>db. map_of (plans db) pid)"

definition locked_status :: "int \<Rightarrow> (plan_db, string option) tx" where
  "locked_status pid = query (\<lambda>db. map_option (\<lambda>r. py_str (r ''status'')) (map_of (plans db) pid))"

section \<open>Readers\<close>

definition json_out :: "env \<Rightarrow> pyval \<Rightarrow> pyval" where
  "json_out env v = (case v of
       PStr s \<Rightarrow> (case json_loads env s of Some w \<Rightarrow> w | None \<Rightarrow> PList [])
     | PNone \<Rightarrow> PList []
     | _ \<Rightarrow> v)"

definition row_out :: "env \<Rightarrow> row \<Rightarrow> row" where
  "row_out env r = r(''legs_json'' := json_out env (r ''legs_json''), ''source_json'' := json_out env (r ''source_json''),
     ''effective_status'' :=
       PStr (plan_effective_status (r ''status'') (r ''expires_at'') (Aware (now env))))"

text \<open>\<open>filled_at\<close> is the linked trade's \<open>opened_at\<close> (LEFT JOIN).\<close>

definition joined :: "plan_db \<Rightarrow> row \<Rightarrow> row" where
  "joined db r = r(''filled_at'' := (case r ''trade_id'' of
       PInt t \<Rightarrow> (case map_of (trades db) t of Some tr \<Rightarrow> PDatetime (tr_opened_at tr) | None \<Rightarrow> PNone)
     | _ \<Rightarrow> PNone))"

definition get_plan_on :: "int \<Rightarrow> (plan_db, row option) tx" where
  "get_plan_on pid = (\<lambda>env. query (\<lambda>db. map_option (\<lambda>r. row_out env (joined db r)) (map_of (plans db) pid)) env)"

definition get_plan :: "env \<Rightarrow> pydict option \<Rightarrow> int \<Rightarrow> plan_db \<Rightarrow> exc + row option" where
  "get_plan env cfg pid db =
     (if \<not> conn_from_config env cfg then Inr None else fst (get_plan_on pid env (db, 0)))"

definition SOURCE_KINDS :: "string list" where
  "SOURCE_KINDS = [''manual'', ''symbol'', ''hypothesis'', ''inbox_draft'', ''roll'']"

text \<open>A filter argument that is missing or blank adds no condition.\<close>

definition filter_arg :: "string option \<Rightarrow> string option" where
  "filter_arg a = (case a of None \<Rightarrow> None | Some s \<Rightarrow> if strip s = [] then None else Some (strip s))"

definition col_eq :: "string option \<Rightarrow> pyval \<Rightarrow> bool" where
  "col_eq a v = (case a of None \<Rightarrow> True | Some s \<Rightarrow> v = PStr s)"

definition symbol_eq :: "string option \<Rightarrow> pyval \<Rightarrow> bool" where
  "symbol_eq a v = (case a of None \<Rightarrow> True | Some s \<Rightarrow> (case v of PStr t \<Rightarrow> upper t = upper s | _ \<Rightarrow> False))"

text \<open>\<open>ORDER BY created_at DESC, strategy_plan_id DESC\<close>.\<close>

fun created_us :: "pyval \<Rightarrow> int" where
  "created_us (PDatetime t) = instant t"
| "created_us _ = 0"

definition plan_sort_key :: "int \<times> row \<Rightarrow> int \<times> int" where
  "plan_sort_key ir = (- created_us (snd ir ''created_at''), - fst ir)"

definition list_plans ::
  "env \<Rightarrow> pydict option \<Rightarrow> string option \<Rightarrow> string option \<Rightarrow> string option \<Rightarrow> int \<Rightarrow> string option \<Rightarrow>
   string option \<Rightarrow> plan_db \<Rightarrow> exc + (int \<times> row) list" where
  "list_plans env cfg status symbol account limit source_kind source_ref db =
     (let kind = filter_arg source_kind
      in if kind \<noteq> None \<and> the kind \<notin> set SOURCE_KINDS then Inl (PyErr ValueErr)
         else if \<not> conn_from_config env cfg then Inr []
         else let keep = (\<lambda>r. col_eq (filter_arg status) (r ''status'') \<and> symbol_eq (filter_arg symbol) (r ''symbol'')
                    \<and> col_eq (filter_arg account) (r ''account_id'') \<and> col_eq kind (r ''source_kind'')
                    \<and> col_eq (filter_arg source_ref) (r ''source_ref''))
              in fst (query (\<lambda>db. map (\<lambda>(i, r). (i, row_out env (joined db r)))
                      (take (nat (max 1 limit)) (sort_key plan_sort_key (filter (\<lambda>(i, r). keep r) (plans db))))) env (db, 0)))"

section \<open>Writers of the first generation\<close>

text \<open>
  Not configured, or unreachable: nothing happens. \<open>Inr None\<close> / \<open>Inr False\<close> are the Python results;
  an exception is raised after the rollback.
\<close>

definition create_body :: "pydict \<Rightarrow> pyval list \<Rightarrow> pyval list \<Rightarrow> (plan_db, bool \<times> int option) tx" where
  "create_body cols legs source =
     tx_bind (insert_row (\<lambda>env. set_cols env cols
        (set_json ''legs_json'' (Some legs) (set_json ''source_json'' (Some source) (default_row env)))))
      (\<lambda>pid. tx_return (True, Some pid))"

text \<open>\<open>int(parent) if parent is not None else None\<close>.\<close>

definition parent_column :: "pyval \<Rightarrow> exc + pydict" where
  "parent_column parent = (if parent = PNone then Inr []
     else case py_int parent of Inl e \<Rightarrow> Inl (PyErr e) | Inr p \<Rightarrow> Inr [(''parent_strategy_plan_id'', PInt p)])"

definition create_plan :: "env \<Rightarrow> pydict option \<Rightarrow> pydict \<Rightarrow> plan_db \<Rightarrow> (exc + int option) \<times> plan_db" where
  "create_plan env cfg payload db =
     (case ebind (plan_fields payload True) (\<lambda>fs. ebind (normalize_plan_legs (dget payload ''legs''))
             (\<lambda>legs. Inr (fs, legs))) of
        Inl e \<Rightarrow> (Inl e, db)
      | Inr (fs, legs) \<Rightarrow>
          if \<not> conn_from_config env cfg then (Inr None, db)
          else (case parent_column (dget payload ''parent_strategy_plan_id'') of
                  Inl e \<Rightarrow> (Inl e, db)
                | Inr extra \<Rightarrow>
                    legacy_transaction (create_body (fs @ extra) legs (normalize_source (dget payload ''source''))) env db))"

text \<open>\<open>normalize_\<dots>(payload[key]) if key in payload else None\<close>.\<close>

definition optional_legs :: "pydict \<Rightarrow> exc + pyval list option" where
  "optional_legs payload = (if dhas payload ''legs''
     then ebind (normalize_plan_legs (dget payload ''legs'')) (\<lambda>l. Inr (Some l)) else Inr None)"

definition optional_source :: "pydict \<Rightarrow> pyval list option" where
  "optional_source payload =
     (if dhas payload ''source'' then Some (normalize_source (dget payload ''source'')) else None)"

definition update_body :: "int \<Rightarrow> pydict \<Rightarrow> pyval list option \<Rightarrow> pyval list option \<Rightarrow> (plan_db, bool \<times> bool) tx" where
  "update_body pid fs legs source =
     tx_bind (locked_status pid) (\<lambda>st. case st of
                     None \<Rightarrow> tx_return (False, False)
                   | Some current \<Rightarrow>
                       if current \<noteq> ''draft''
                       then tx_raise (Write (PlanRule (''This plan is '' @ current @ '', and only a draft can be edited. ''
                              @ ''Cancel it and write a new one, or roll it.'')))
                       else if fs = [] \<and> legs = None \<and> source = None then tx_return (False, True)
                       else tx_bind (update_row pid (\<lambda>env r. ebind (set_cols env fs r) (\<lambda>r'.
                                Inr (touch env (set_json ''source_json'' source (set_json ''legs_json'' legs r'))))))
                              (\<lambda>n. tx_return (True, n > 0)))"

definition update_plan :: "env \<Rightarrow> pydict option \<Rightarrow> int \<Rightarrow> pydict \<Rightarrow> plan_db \<Rightarrow> (exc + bool) \<times> plan_db" where
  "update_plan env cfg pid payload db =
     (case ebind (plan_fields payload False) (\<lambda>fs. ebind (optional_legs payload) (\<lambda>legs. Inr (fs, legs))) of
        Inl e \<Rightarrow> (Inl e, db)
      | Inr (fs, legs) \<Rightarrow>
          (let source = optional_source payload
           in if \<not> conn_from_config env cfg then (Inr False, db)
              else legacy_transaction (update_body pid fs legs source) env db))"

definition intend_body :: "int \<Rightarrow> (plan_db, bool \<times> bool) tx" where
  "intend_body pid = (\<lambda>env.
     tx_bind (select_row pid) (\<lambda>found. case found of
             None \<Rightarrow> tx_return (False, False)
           | Some r \<Rightarrow>
               (let plan = row_out env r
                in if plan ''status'' \<noteq> PStr ''draft''
                   then tx_raise (Write (PlanRule (''This plan is '' @ py_str (plan ''status'')
                          @ '', and only a draft can be marked intended.'')))
                   else if \<not> truthy (plan ''legs_json'')
                   then tx_raise (Write (PlanRule ''Write at least one leg before marking this intended.''))
                   else if \<not> plan_exit_is_written (plan ''target_kind'') (plan ''stop_kind'') (plan ''exit_by'')
                   then tx_raise (Write (PlanRule (''Write a target, a stop or an exit-by date. Without one there is ''
                          @ ''nothing to compare the outcome against.'')))
                   else tx_bind (update_row pid (\<lambda>env r. Inr (touch env
                            (r(''status'' := PStr ''intended'', ''intended_at'' := PDatetime (Aware (now env)))))))
                          (\<lambda>_. tx_return (True, True)))) env)"

definition intend_plan :: "env \<Rightarrow> pydict option \<Rightarrow> int \<Rightarrow> plan_db \<Rightarrow> (exc + bool) \<times> plan_db" where
  "intend_plan env cfg pid db =
     (if \<not> conn_from_config env cfg then (Inr False, db)
      else legacy_transaction (intend_body pid) env db)"

definition link_body :: "int \<Rightarrow> int \<Rightarrow> (plan_db, bool \<times> bool) tx" where
  "link_body pid trade_id =
     tx_bind (select_row pid) (\<lambda>found. case found of
             None \<Rightarrow> tx_return (False, False)
           | Some r \<Rightarrow>
               if r ''status'' \<noteq> PStr ''intended''
               then tx_raise (Write (PlanRule (''This plan is '' @ py_str (r ''status'')
                      @ ''. Only an intended plan can be linked to a fill.'')))
               else tx_bind (query (\<lambda>db. map_of (trades db) trade_id)) (\<lambda>instance. case instance of
                      None \<Rightarrow> tx_raise (Write (PlanRule (''No trade '' @ int_str trade_id @ ''.'')))
                    | Some t \<Rightarrow>
                        if tr_account t \<noteq> py_str (r ''account_id'')
                        then tx_raise (Write (PlanRule (''That instance belongs to account '' @ tr_account t
                               @ '', and the plan to '' @ py_str (r ''account_id'') @ ''.'')))
                        else tx_bind (update_row pid (\<lambda>env r. Inr (touch env
                                 (r(''status'' := PStr ''filled'', ''trade_id'' := PInt trade_id)))))
                               (\<lambda>_. tx_return (True, True))))"

definition link_fill :: "env \<Rightarrow> pydict option \<Rightarrow> int \<Rightarrow> int \<Rightarrow> plan_db \<Rightarrow> (exc + bool) \<times> plan_db" where
  "link_fill env cfg pid trade_id db =
     (if \<not> conn_from_config env cfg then (Inr False, db)
      else legacy_transaction (link_body pid trade_id) env db)"

definition cancel_body :: "int \<Rightarrow> (plan_db, bool \<times> bool) tx" where
  "cancel_body pid =
     tx_bind (locked_status pid) (\<lambda>st. case st of
             None \<Rightarrow> tx_return (False, False)
           | Some current \<Rightarrow>
               if current \<notin> {''draft'', ''intended''}
               then tx_raise (Write (PlanRule (''This plan is '' @ current @ '', and cannot be cancelled.'')))
               else tx_bind (update_row pid (\<lambda>env r. Inr (touch env
                        (r(''status'' := PStr ''cancelled'', ''cancelled_at'' := PDatetime (Aware (now env)))))))
                      (\<lambda>_. tx_return (True, True)))"

definition cancel_plan :: "env \<Rightarrow> pydict option \<Rightarrow> int \<Rightarrow> plan_db \<Rightarrow> (exc + bool) \<times> plan_db" where
  "cancel_plan env cfg pid db =
     (if \<not> conn_from_config env cfg then (Inr False, db)
      else legacy_transaction (cancel_body pid) env db)"

definition delete_body :: "int \<Rightarrow> (plan_db, bool \<times> bool) tx" where
  "delete_body pid =
     tx_bind (locked_status pid) (\<lambda>st. case st of
             None \<Rightarrow> tx_return (False, False)
           | Some current \<Rightarrow>
               if current \<noteq> ''draft''
               then tx_raise (Write (PlanRule (''This plan is '' @ current @ ''; only a draft can be deleted.'')))
               else tx_bind (delete_row pid) (\<lambda>_. tx_return (True, True)))"

definition delete_plan :: "env \<Rightarrow> pydict option \<Rightarrow> int \<Rightarrow> plan_db \<Rightarrow> (exc + bool) \<times> plan_db" where
  "delete_plan env cfg pid db =
     (if \<not> conn_from_config env cfg then (Inr False, db)
      else legacy_transaction (delete_body pid) env db)"

section \<open>Writers that return the row or raise\<close>

definition PLAN_PATCHABLE :: "string list" where
  "PLAN_PATCHABLE = EDITABLE_COLUMNS @ [''legs'', ''source'']"

definition PLAN_PATCHABLE_WHEN_INTENDED :: "string list" where
  "PLAN_PATCHABLE_WHEN_INTENDED = [''expires_at'']"

definition PRICE_EFFECTS :: "string list" where
  "PRICE_EFFECTS = [''credit'', ''debit'']"

definition TARGET_KINDS :: "string list" where
  "TARGET_KINDS = [''credit_pct'', ''option_price'', ''underlying_price'']"

definition STOP_KINDS :: "string list" where
  "STOP_KINDS = [''credit_multiple'', ''option_price'', ''underlying_price'']"

fun opt_num :: "rat option \<Rightarrow> pyval" where
  "opt_num None = PNone"
| "opt_num (Some q) = PFloat (Fin q)"

fun opt_int :: "int option \<Rightarrow> pyval" where
  "opt_int None = PNone"
| "opt_int (Some i) = PInt i"

text \<open>One sent field as its column value.\<close>

definition patch_field :: "string \<Rightarrow> pyval \<Rightarrow> exc + pyval" where
  "patch_field name v =
     (if name \<in> {''account_id'', ''structure_label''} then ebind (text_value v name False None) (\<lambda>t. Inr (of_opt t))
      else if name = ''symbol'' then ebind (text_value v name False None) (\<lambda>t. Inr (of_opt (map_option upper t)))
      else if name \<in> {''strategy_structure_id'', ''strategy_opportunity_id''}
        then ebind (row_id v name True) (\<lambda>i. Inr (opt_int i))
      else if name = ''qty'' then ebind (integer v name False (Some 1)) (\<lambda>i. Inr (opt_int i))
      else if name = ''price_effect'' then ebind (choice v name PRICE_EFFECTS True) (\<lambda>t. Inr (of_opt t))
      else if name = ''limit_price'' then ebind (number v name True (Some 0)) (\<lambda>q. Inr (opt_num q))
      else if name = ''target_kind'' then ebind (choice v name TARGET_KINDS True) (\<lambda>t. Inr (of_opt t))
      else if name \<in> {''target_value'', ''stop_value''} then ebind (number v name True None) (\<lambda>q. Inr (opt_num q))
      else if name = ''stop_kind'' then ebind (choice v name STOP_KINDS True) (\<lambda>t. Inr (of_opt t))
      else if name = ''exit_by'' then ebind (calendar_date v name True)
             (\<lambda>d. Inr (case d of None \<Rightarrow> PNone | Some x \<Rightarrow> PDate x))
      else if name \<in> {''rationale'', ''source_ref''} then ebind (text_value v name True None) (\<lambda>t. Inr (of_opt t))
      else if name = ''source_kind'' then ebind (choice v name SOURCE_KINDS False) (\<lambda>t. Inr (of_opt t))
      else ebind (timestamp v name True) (\<lambda>t. Inr (case t of None \<Rightarrow> PNone | Some x \<Rightarrow> PDatetime x)))"

definition PATCH_ORDER :: "string list" where
  "PATCH_ORDER = [''account_id'', ''structure_label'', ''symbol'', ''strategy_structure_id'', ''strategy_opportunity_id'',
     ''qty'', ''price_effect'', ''limit_price'', ''target_kind'', ''target_value'', ''stop_kind'', ''stop_value'',
     ''exit_by'', ''rationale'', ''source_ref'', ''source_kind'', ''expires_at'']"

fun patch_fields_loop :: "pydict \<Rightarrow> string list \<Rightarrow> exc + pydict" where
  "patch_fields_loop fs [] = Inr []"
| "patch_fields_loop fs (name # names) =
     (if \<not> dhas fs name then patch_fields_loop fs names
      else ebind (patch_field name (dget fs name)) (\<lambda>v.
           ebind (patch_fields_loop fs names) (\<lambda>cols. Inr ((name, v) # cols))))"

text \<open>A leg rule becomes WriteInvalid; any other exception of the leg normaliser passes through.\<close>

definition rule_as_invalid :: "exc + 'a \<Rightarrow> exc + 'a" where
  "rule_as_invalid r = (case r of Inl (Write (PlanRule m)) \<Rightarrow> Inl (Write (Invalid m)) | _ \<Rightarrow> r)"

definition patch_legs :: "pydict \<Rightarrow> exc + pyval list option" where
  "patch_legs fs = (if dhas fs ''legs''
     then ebind (list_value (dget fs ''legs'') ''legs'') (\<lambda>xs.
          ebind (rule_as_invalid (normalize_plan_legs (PList xs))) (\<lambda>l. Inr (Some l)))
     else Inr None)"

definition patch_source :: "pydict \<Rightarrow> exc + pyval list option" where
  "patch_source fs = (if dhas fs ''source''
     then ebind (list_value (dget fs ''source'') ''source'') (\<lambda>xs.
          if list_ex (\<lambda>x. \<not> is_dict x) xs then invalid ''source must be a list of objects.'' else Inr (Some xs))
     else Inr None)"

definition patch_plan_columns :: "pydict \<Rightarrow> exc + (pydict \<times> pyval list option \<times> pyval list option)" where
  "patch_plan_columns fs =
     ebind (patch_fields_loop fs PATCH_ORDER) (\<lambda>cols.
     ebind (patch_legs fs) (\<lambda>legs.
     ebind (patch_source fs) (\<lambda>source. Inr (cols, legs, source))))"

text \<open>\<open>merged = {**current, **cols}\<close>.\<close>

definition merged :: "pydict \<Rightarrow> row \<Rightarrow> string \<Rightarrow> pyval" where
  "merged cols r c = (if dhas cols c then dget cols c else r c)"

definition merged_pair_bad :: "pydict \<Rightarrow> row \<Rightarrow> string \<Rightarrow> string \<Rightarrow> bool" where
  "merged_pair_bad cols r kind val \<longleftrightarrow> (merged cols r kind = PNone) \<noteq> (merged cols r val = PNone)"

definition patch_plan_body ::
  "int \<Rightarrow> pydict \<Rightarrow> pydict \<times> pyval list option \<times> pyval list option \<Rightarrow> (plan_db, row) tx" where
  "patch_plan_body pid fs c = (case c of (cols, legs, source) \<Rightarrow>
     tx_bind (select_row pid) (\<lambda>found. case found of
       None \<Rightarrow> tx_raise (Write (NotFound (''No plan '' @ int_str pid @ ''.'')))
     | Some r \<Rightarrow>
         (let status = py_str (r ''status'');
              frozen = sort (filter (\<lambda>k. k \<notin> set PLAN_PATCHABLE_WHEN_INTENDED) (map fst fs))
          in if status = ''intended'' \<and> frozen \<noteq> []
             then tx_raise (Write (Conflict (''This plan is intended, so only its expiry (expires_at) can change, not ''
                    @ join '', '' frozen @ ''. Cancel it and write a new one, or roll it.'')))
             else if status \<noteq> ''intended'' \<and> status \<noteq> ''draft''
             then tx_raise (Write (Conflict (''This plan is '' @ status @ '', and cannot be edited.'')))
             else if merged_pair_bad cols r ''target_kind'' ''target_value''
             then tx_raise (Write (Invalid ''A target needs both a kind and a value (or neither).''))
             else if merged_pair_bad cols r ''stop_kind'' ''stop_value''
             then tx_raise (Write (Invalid ''A stop needs both a kind and a value (or neither).''))
             else tx_bind (update_row pid (\<lambda>env r. ebind (set_cols env cols r) (\<lambda>r'.
                      Inr (touch env (set_json ''source_json'' source (set_json ''legs_json'' legs r'))))))
                  (\<lambda>n. if n = 0 then tx_raise (Write (NotFound (''No plan '' @ int_str pid @ ''.'')))
                       else tx_bind (get_plan_on pid) (\<lambda>out. case out of
                              None \<Rightarrow> tx_raise (Write (Failed (''plan '' @ int_str pid
                                 @ '' was changed but could not be read back; nothing was saved.'') False))
                            | Some o' \<Rightarrow> tx_return o')))))"

definition patch_plan :: "env \<Rightarrow> conn_arg \<Rightarrow> int \<Rightarrow> pyval \<Rightarrow> plan_db \<Rightarrow> (exc + row) \<times> plan_db" where
  "patch_plan env arg pid body db =
     (case ebind (check_fields body PLAN_PATCHABLE ''plan'') (\<lambda>fs. ebind (patch_plan_columns fs) (\<lambda>c. Inr (fs, c))) of
        Inl e \<Rightarrow> (Inl e, db)
      | Inr (fs, c) \<Rightarrow>
          raising (strict_write (''plan '' @ int_str pid) FkInvalid (patch_plan_body pid fs c) env arg db))"

definition delete_strict_body :: "int \<Rightarrow> (plan_db, unit) tx" where
  "delete_strict_body pid =
     tx_bind (locked_status pid) (\<lambda>st. case st of
          None \<Rightarrow> tx_raise (Write (NotFound (''No plan '' @ int_str pid @ ''.'')))
        | Some current \<Rightarrow>
            if current \<noteq> ''draft''
            then tx_raise (Write (Conflict (''This plan is '' @ current @ ''; only a draft can be deleted.'')))
            else tx_bind (delete_row pid) (\<lambda>n.
                   if n = 0 then tx_raise (Write (NotFound (''No plan '' @ int_str pid @ ''.'')))
                   else tx_return ()))"

definition delete_plan_strict :: "env \<Rightarrow> conn_arg \<Rightarrow> int \<Rightarrow> plan_db \<Rightarrow> (exc + unit) \<times> plan_db" where
  "delete_plan_strict env arg pid db =
     raising (strict_write (''plan '' @ int_str pid) FkConflict
       (delete_strict_body pid) env arg db)"

end
