(* ===== verification/Plan_Machine.thy ===== *)
theory Plan_Machine
  imports Trade_Plan
begin

text \<open>
  The plan's life as an abstract machine, and the proof that every writer of \<open>Trade_Plan\<close>
  refines it: whatever the payload and whichever statement the database refuses, a call is one
  abstract step or none. The invariant, the frozen content and the final states are then facts
  of the machine.
\<close>

section \<open>The writers as one operation\<close>

datatype plan_op =
    Create "pydict option" pydict
  | Update "pydict option" int pydict
  | Intend "pydict option" int
  | LinkFill "pydict option" int int
  | Cancel "pydict option" int
  | Delete "pydict option" int
  | Patch conn_arg int pyval
  | DeleteStrict conn_arg int

definition forget :: "(exc + 'a) \<times> 's \<Rightarrow> (exc + unit) \<times> 's" where
  "forget r = (case r of (Inl e, s) \<Rightarrow> (Inl e, s) | (Inr _, s) \<Rightarrow> (Inr (), s))"

fun run_plan :: "env \<times> plan_op \<Rightarrow> plan_db \<Rightarrow> (exc + unit) \<times> plan_db" where
  "run_plan (env, Create cfg payload) db = forget (create_plan env cfg payload db)"
| "run_plan (env, Update cfg pid payload) db = forget (update_plan env cfg pid payload db)"
| "run_plan (env, Intend cfg pid) db = forget (intend_plan env cfg pid db)"
| "run_plan (env, LinkFill cfg pid t) db = forget (link_fill env cfg pid t db)"
| "run_plan (env, Cancel cfg pid) db = forget (cancel_plan env cfg pid db)"
| "run_plan (env, Delete cfg pid) db = forget (delete_plan env cfg pid db)"
| "run_plan (env, Patch arg pid body) db = forget (patch_plan env arg pid body db)"
| "run_plan (env, DeleteStrict arg pid) db = forget (delete_plan_strict env arg pid db)"

lemma forget_simps [simp]:
  "forget r = (Inl e, s) \<longleftrightarrow> r = (Inl e, s)"
  "forget r = (Inr u, s) \<longleftrightarrow> (\<exists>a. r = (Inr a, s))"
  by (auto simp: forget_def split: prod.splits sum.splits)

section \<open>Rows\<close>

definition same_except :: "string set \<Rightarrow> row \<Rightarrow> row \<Rightarrow> bool" where
  "same_except S r r' \<longleftrightarrow> (\<forall>c. c \<notin> S \<longrightarrow> r' c = r c)"

lemma same_exceptD: "same_except S r r' \<Longrightarrow> c \<notin> S \<Longrightarrow> r' c = r c"
  by (simp add: same_except_def)

definition has_exit :: "row \<Rightarrow> bool" where
  "has_exit r \<longleftrightarrow> plan_exit_is_written (r ''target_kind'') (r ''stop_kind'') (r ''exit_by'')"

definition plan_row_ok :: "row \<Rightarrow> bool" where
  "plan_row_ok r \<longleftrightarrow> plan_violation r = None \<and>
     (\<exists>ls. r ''legs_json'' = PList ls \<and>
        (r ''status'' \<in> {PStr ''intended'', PStr ''filled''} \<longrightarrow> ls \<noteq> [] \<and> has_exit r))"

definition plan_inv :: "plan_db \<Rightarrow> bool" where
  "plan_inv db \<longleftrightarrow> distinct (map fst (plans db)) \<and>
     (\<forall>i r. map_of (plans db) i = Some r \<longrightarrow> i < next_plan db \<and> plan_row_ok r)"

lemma plan_inv_row: "plan_inv db \<Longrightarrow> map_of (plans db) i = Some r \<Longrightarrow> plan_row_ok r"
  by (simp add: plan_inv_def)

lemma plan_inv_fresh: "plan_inv db \<Longrightarrow> map_of (plans db) (next_plan db) = None"
  by (metis less_irrefl not_Some_eq plan_inv_def)

lemma violation_not_null: "plan_violation r = None \<Longrightarrow> c \<in> set plan_not_null \<Longrightarrow> r c \<noteq> PNone"
  by (auto simp: plan_violation_def filter_empty_conv split: list.splits)

lemma violation_check: "plan_violation r = None \<Longrightarrow> (n, p) \<in> set plan_checks \<Longrightarrow> p r"
  by (fastforce simp: plan_violation_def filter_empty_conv split: list.splits)

lemma violation_status:
  assumes "plan_violation r = None"
  shows "\<exists>s. r ''status'' = PStr s \<and> s \<in> set PLAN_STATUSES"
proof -
  have "r ''status'' \<noteq> PNone" using violation_not_null [OF assms] by (simp add: plan_not_null_def)
  moreover have "one_of PLAN_STATUSES (r ''status'')"
    by (rule violation_check [OF assms, where n = "''strategy_plan_status_check''"]) (simp add: plan_checks_def)
  ultimately show ?thesis by (auto simp: one_of_def split: pyval.splits)
qed

lemma violation_pairs:
  assumes "plan_violation r = None"
  shows "(r ''target_kind'' = PNone) = (r ''target_value'' = PNone)"
    and "(r ''stop_kind'' = PNone) = (r ''stop_value'' = PNone)"
    and "(r ''status'' = PStr ''filled'') = (r ''trade_id'' \<noteq> PNone)"
  by (rule violation_check [OF assms, where n = "''strategy_plan_check''"], simp add: plan_checks_def)
    (rule violation_check [OF assms, where n = "''strategy_plan_check1''"], simp add: plan_checks_def,
     rule violation_check [OF assms, where n = "''strategy_plan_filled_instance_ck''"], simp add: plan_checks_def)

lemma violation_orphan [simp]: "plan_violation (r(''parent_strategy_plan_id'' := v)) = plan_violation r"
  by (simp add: plan_violation_def plan_not_null_def plan_checks_def)

lemma orphan_other [simp]: "c \<noteq> ''parent_strategy_plan_id'' \<Longrightarrow> orphan pid r c = r c"
  by (simp add: orphan_def)

lemma violation_orphan' [simp]: "plan_violation (orphan pid r) = plan_violation r"
  by (simp add: orphan_def)

lemma row_ok_orphan: "plan_row_ok r \<Longrightarrow> plan_row_ok (orphan pid r)"
  by (simp add: plan_row_ok_def has_exit_def)

lemma row_ok_status: "plan_row_ok r \<Longrightarrow> py_str (r ''status'') = s \<longleftrightarrow> r ''status'' = PStr s"
  by (auto simp: plan_row_ok_def dest: violation_status)

section \<open>Table lookups after a statement\<close>

lemma map_of_put: "map_of (map (\<lambda>(i, q). if i = pid then (i, r) else (i, q)) xs) j =
    (if j = pid \<and> map_of xs pid \<noteq> None then Some r else map_of xs j)"
  by (induction xs) auto

lemma lookup_put_row: "map_of (plans (put_row pid r db)) j =
    (if j = pid \<and> map_of (plans db) pid \<noteq> None then Some r else map_of (plans db) j)"
  by (simp add: put_row_def map_of_put)

lemma put_row_fields [simp]:
  "next_plan (put_row pid r db) = next_plan db" "trades (put_row pid r db) = trades db"
  by (simp_all add: put_row_def)

lemma keys_put_row [simp]: "map fst (plans (put_row pid r db)) = map fst (plans db)"
  by (auto simp: put_row_def)

lemma map_of_removed: "map_of (map (\<lambda>(i, r). (i, orphan pid r)) (filter (\<lambda>(i, r). i \<noteq> pid) xs)) j =
    (if j = pid then None else map_option (orphan pid) (map_of xs j))"
  by (induction xs) auto

definition removed :: "int \<Rightarrow> plan_db \<Rightarrow> plan_db" where
  "removed pid db =
     db\<lparr>plans := map (\<lambda>(i, r). (i, orphan pid r)) (filter (\<lambda>(i, r). i \<noteq> pid) (plans db))\<rparr>"

lemma lookup_removed: "map_of (plans (removed pid db)) j =
    (if j = pid then None else map_option (orphan pid) (map_of (plans db) j))"
  by (simp add: removed_def map_of_removed)

lemma distinct_removed: "distinct (map fst (plans db)) \<Longrightarrow> distinct (map fst (plans (removed pid db)))"
  by (simp add: removed_def comp_def case_prod_beta distinct_map filter_map inj_on_def)

definition inserted :: "row \<Rightarrow> plan_db \<Rightarrow> plan_db" where
  "inserted r db = db\<lparr>plans := plans db @ [(next_plan db, r)], next_plan := next_plan db + 1\<rparr>"

lemma lookup_inserted: "map_of (plans db) (next_plan db) = None \<Longrightarrow>
    map_of (plans (inserted r db)) j = (if j = next_plan db then Some r else map_of (plans db) j)"
  by (auto simp: inserted_def map_add_def split: option.splits)

lemma inserted_fields [simp]:
  "next_plan (inserted r db) = next_plan db + 1" "trades (inserted r db) = trades db"
  "map fst (plans (inserted r db)) = map fst (plans db) @ [next_plan db]"
  by (simp_all add: inserted_def)

lemma plan_inv_inserted:
  assumes "plan_inv db" and "plan_row_ok r"
  shows "plan_inv (inserted r db)"
proof -
  have fresh: "map_of (plans db) (next_plan db) = None" using assms(1) by (rule plan_inv_fresh)
  have "distinct (map fst (plans (inserted r db)))"
    using assms(1) fresh by (simp add: plan_inv_def map_of_eq_None_iff)
  moreover have "i < next_plan (inserted r db) \<and> plan_row_ok q"
    if "map_of (plans (inserted r db)) i = Some q" for i q
  proof (cases "i = next_plan db")
    case True
    with that assms(2) fresh show ?thesis by (simp add: lookup_inserted)
  next
    case False
    with that fresh have "map_of (plans db) i = Some q" by (simp add: lookup_inserted)
    with assms(1) have "i < next_plan db" "plan_row_ok q" unfolding plan_inv_def by blast+
    then show ?thesis by simp
  qed
  ultimately show ?thesis unfolding plan_inv_def by blast
qed

section \<open>The abstract machine\<close>

inductive plan_change :: "plan_db \<Rightarrow> plan_db \<Rightarrow> bool" where
  unchanged: "plan_change db db"
| created: "plan_violation r = None \<Longrightarrow> r ''status'' = PStr ''draft'' \<Longrightarrow> r ''legs_json'' = PList ls \<Longrightarrow>
     plan_change db (inserted r db)"
| edited: "map_of (plans db) pid = Some r \<Longrightarrow> r ''status'' = PStr ''draft'' \<Longrightarrow>
     same_except (set EDITABLE_COLUMNS \<union> {''legs_json'', ''source_json'', ''updated_at''}) r r' \<Longrightarrow>
     r' ''legs_json'' = PList ls \<Longrightarrow> plan_violation r' = None \<Longrightarrow> plan_change db (put_row pid r' db)"
| extended: "map_of (plans db) pid = Some r \<Longrightarrow> r ''status'' = PStr ''intended'' \<Longrightarrow>
     same_except {''expires_at'', ''updated_at''} r r' \<Longrightarrow> plan_violation r' = None \<Longrightarrow>
     plan_change db (put_row pid r' db)"
| intended: "map_of (plans db) pid = Some r \<Longrightarrow> r ''status'' = PStr ''draft'' \<Longrightarrow>
     r ''legs_json'' = PList ls \<Longrightarrow> ls \<noteq> [] \<Longrightarrow> has_exit r \<Longrightarrow>
     same_except {''status'', ''intended_at'', ''updated_at''} r r' \<Longrightarrow> r' ''status'' = PStr ''intended'' \<Longrightarrow>
     plan_violation r' = None \<Longrightarrow> plan_change db (put_row pid r' db)"
| filled: "map_of (plans db) pid = Some r \<Longrightarrow> r ''status'' = PStr ''intended'' \<Longrightarrow>
     map_of (trades db) t = Some tr \<Longrightarrow> tr_account tr = py_str (r ''account_id'') \<Longrightarrow>
     same_except {''status'', ''trade_id'', ''updated_at''} r r' \<Longrightarrow> r' ''status'' = PStr ''filled'' \<Longrightarrow>
     r' ''trade_id'' = PInt t \<Longrightarrow> plan_violation r' = None \<Longrightarrow> plan_change db (put_row pid r' db)"
| cancelled: "map_of (plans db) pid = Some r \<Longrightarrow> r ''status'' \<in> {PStr ''draft'', PStr ''intended''} \<Longrightarrow>
     same_except {''status'', ''cancelled_at'', ''updated_at''} r r' \<Longrightarrow> r' ''status'' = PStr ''cancelled'' \<Longrightarrow>
     plan_violation r' = None \<Longrightarrow> plan_change db (put_row pid r' db)"
| deleted: "map_of (plans db) pid = Some r \<Longrightarrow> r ''status'' = PStr ''draft'' \<Longrightarrow> plan_change db (removed pid db)"

inductive plan_move :: "pyval option \<Rightarrow> pyval option \<Rightarrow> bool" where
  stay: "plan_move s s"
| create: "plan_move None (Some (PStr ''draft''))"
| intend: "plan_move (Some (PStr ''draft'')) (Some (PStr ''intended''))"
| fill: "plan_move (Some (PStr ''intended'')) (Some (PStr ''filled''))"
| cancel_draft: "plan_move (Some (PStr ''draft'')) (Some (PStr ''cancelled''))"
| cancel_intended: "plan_move (Some (PStr ''intended'')) (Some (PStr ''cancelled''))"
| discard: "plan_move (Some (PStr ''draft'')) None"

inductive_simps from_filled: "plan_move (Some (PStr ''filled'')) s"
inductive_simps from_cancelled: "plan_move (Some (PStr ''cancelled'')) s"
inductive_simps from_intended: "plan_move (Some (PStr ''intended'')) s"

definition status_of :: "plan_db \<Rightarrow> int \<Rightarrow> pyval option" where
  "status_of db i = map_option (\<lambda>r. r ''status'') (map_of (plans db) i)"

lemmas lookups = lookup_put_row lookup_removed lookup_inserted

lemma EDITABLE_no_status [simp]:
  "''status'' \<notin> set EDITABLE_COLUMNS" "''trade_id'' \<notin> set EDITABLE_COLUMNS"
  "''legs_json'' \<notin> set EDITABLE_COLUMNS" "''parent_strategy_plan_id'' \<notin> set EDITABLE_COLUMNS"
  by (simp_all add: EDITABLE_COLUMNS_def)

lemma plan_change_move:
  assumes "plan_change db db'" and "plan_inv db"
  shows "plan_move (status_of db i) (status_of db' i)"
  using assms(1)
proof cases
  case unchanged
  then show ?thesis by (simp add: plan_move.stay)
next
  case (created r ls)
  then show ?thesis
    using plan_inv_fresh [OF assms(2)] by (auto simp: status_of_def lookups intro: plan_move.intros)
next
  case (edited pid r r' ls)
  then show ?thesis by (auto simp: status_of_def lookups same_except_def intro: plan_move.intros)
next
  case (extended pid r r')
  then show ?thesis by (auto simp: status_of_def lookups same_except_def intro: plan_move.intros)
next
  case (deleted pid r)
  then show ?thesis
    by (auto simp: status_of_def lookups option.map_comp comp_def intro: plan_move.intros)
qed (auto simp: status_of_def lookups intro: plan_move.intros)

lemma row_ok_sameI:
  "plan_row_ok r \<Longrightarrow> same_except S r r' \<Longrightarrow> plan_violation r' = None \<Longrightarrow>
   S \<inter> {''legs_json'', ''target_kind'', ''stop_kind'', ''exit_by''} = {} \<Longrightarrow>
   (r' ''status'' \<in> {PStr ''intended'', PStr ''filled''} \<Longrightarrow> r ''status'' \<in> {PStr ''intended'', PStr ''filled''}) \<Longrightarrow>
   plan_row_ok r'"
  by (auto simp: plan_row_ok_def has_exit_def same_except_def)

lemma plan_inv_put:
  "plan_inv db \<Longrightarrow> map_of (plans db) pid = Some r \<Longrightarrow> plan_row_ok r' \<Longrightarrow> plan_inv (put_row pid r' db)"
  by (auto simp: plan_inv_def lookups)

lemma plan_change_inv:
  assumes "plan_change db db'" and "plan_inv db"
  shows "plan_inv db'"
  using assms(1)
proof cases
  case unchanged
  with assms(2) show ?thesis by simp
next
  case (created r ls)
  then have "plan_row_ok r" by (simp add: plan_row_ok_def)
  with created assms(2) show ?thesis by (simp add: plan_inv_inserted)
next
  case (edited pid r r' ls)
  then have "r' ''status'' = PStr ''draft''" by (simp add: same_except_def)
  with edited have "plan_row_ok r'" by (simp add: plan_row_ok_def)
  with edited(2) assms(2) show ?thesis unfolding edited(1) by (blast intro: plan_inv_put)
next
  case (extended pid r r')
  have "plan_row_ok r" using assms(2) extended(2) by (rule plan_inv_row)
  then have "plan_row_ok r'" by (rule row_ok_sameI [OF _ extended(4,5)]) (simp_all add: extended(3))
  with extended(2) assms(2) show ?thesis unfolding extended(1) by (blast intro: plan_inv_put)
next
  case (intended pid r ls r')
  then have "r' ''legs_json'' = PList ls" "has_exit r'"
    by (simp_all add: same_except_def has_exit_def)
  with intended have "plan_row_ok r'" by (simp add: plan_row_ok_def)
  with intended(2) assms(2) show ?thesis unfolding intended(1) by (blast intro: plan_inv_put)
next
  case (filled pid r t tr r')
  have "plan_row_ok r" using assms(2) filled(2) by (rule plan_inv_row)
  then have "plan_row_ok r'" by (rule row_ok_sameI [OF _ filled(6,9)]) (simp_all add: filled(3))
  with filled(2) assms(2) show ?thesis unfolding filled(1) by (blast intro: plan_inv_put)
next
  case (cancelled pid r r')
  have "plan_row_ok r" using assms(2) cancelled(2) by (rule plan_inv_row)
  then have "plan_row_ok r'" by (rule row_ok_sameI [OF _ cancelled(4,6)]) (simp_all add: cancelled(5))
  with cancelled(2) assms(2) show ?thesis unfolding cancelled(1) by (blast intro: plan_inv_put)
next
  case (deleted pid r)
  with assms(2) show ?thesis
    by (auto simp: plan_inv_def lookup_removed distinct_removed intro: row_ok_orphan)
      (simp add: removed_def)
qed

section \<open>Columns a payload can reach\<close>

lemma plan_fields_loop_keys: "plan_fields_loop p req names = Inr fs \<Longrightarrow> fst ` set fs \<subseteq> set names"
  by (induction names arbitrary: fs) (fastforce split: if_splits)+

lemma plan_fields_keys:
  assumes "plan_fields p req = Inr fs"
  shows "fst ` set fs \<subseteq> set EDITABLE_COLUMNS"
proof -
  have "''source_kind'' \<in> set EDITABLE_COLUMNS" by (simp add: EDITABLE_COLUMNS_def)
  moreover from assms obtain x where "plan_fields_loop p req EDITABLE_COLUMNS = Inr x"
    "fs = x \<or> fs = x @ [(''source_kind'', py_or (dget p ''source_kind'') (PStr ''manual''))]"
    by (auto simp: plan_fields_def Let_def split: if_splits)
  moreover have "fst ` set x \<subseteq> set EDITABLE_COLUMNS" using calculation(2) by (rule plan_fields_loop_keys)
  ultimately show ?thesis by (elim disjE) simp_all
qed

lemma patch_fields_loop_keys:
  "patch_fields_loop fs names = Inr cols \<Longrightarrow> fst ` set cols \<subseteq> set names \<inter> fst ` set fs"
proof (induction names arbitrary: cols)
  case (Cons name names)
  have key: "dhas fs name \<Longrightarrow> name \<in> fst ` set fs"
    by (auto simp: dhas_def map_of_eq_None_iff)
  show ?case
  proof (cases "dhas fs name")
    case False
    with Cons show ?thesis by auto
  next
    case True
    with Cons.prems obtain v cs where "cols = (name, v) # cs" "patch_fields_loop fs names = Inr cs" by auto
    with Cons.IH [of cs] key True show ?thesis by auto
  qed
qed simp

lemma patch_plan_columns_keys:
  assumes "patch_plan_columns fs = Inr (cols, legs, source)"
  shows "fst ` set cols \<subseteq> set EDITABLE_COLUMNS \<inter> fst ` set fs"
    and "legs \<noteq> None \<Longrightarrow> ''legs'' \<in> fst ` set fs" and "source \<noteq> None \<Longrightarrow> ''source'' \<in> fst ` set fs"
proof -
  have "set PATCH_ORDER \<subseteq> set EDITABLE_COLUMNS" by (simp add: PATCH_ORDER_def EDITABLE_COLUMNS_def)
  with assms show "fst ` set cols \<subseteq> set EDITABLE_COLUMNS \<inter> fst ` set fs"
    by (auto simp: patch_plan_columns_def dest!: patch_fields_loop_keys)
  from assms show "legs \<noteq> None \<Longrightarrow> ''legs'' \<in> fst ` set fs" "source \<noteq> None \<Longrightarrow> ''source'' \<in> fst ` set fs"
    by (auto simp: patch_plan_columns_def patch_legs_def patch_source_def dhas_def map_of_eq_None_iff
        split: if_splits)
qed

lemma set_cols_same: "set_cols env cols r = Inr r' \<Longrightarrow> same_except (fst ` set cols) r r'"
proof (induction cols arbitrary: r)
  case (Cons cv cols)
  obtain c v where cv: "cv = (c, v)" by force
  with Cons.prems obtain w where w: "coerce env c v = Inr w" "set_cols env cols (r(c := w)) = Inr r'" by auto
  from Cons.IH [OF w(2)] cv show ?case by (auto simp: same_except_def)
qed (simp add: same_except_def)

lemma edit_same:
  assumes "set_cols env cols r = Inr r'" and "fst ` set cols \<subseteq> A"
  shows "same_except (A \<union> (if l = None then {} else {''legs_json''}) \<union> (if x = None then {} else {''source_json''})
           \<union> {''updated_at''}) r (touch env (set_json ''source_json'' x (set_json ''legs_json'' l r')))"
  using set_cols_same [OF assms(1)] assms(2)
  by (auto simp: same_except_def touch_def set_json_def split: option.splits)

lemma edit_legs:
  assumes "set_cols env cols r = Inr r'" and "fst ` set cols \<subseteq> set EDITABLE_COLUMNS" and "r ''legs_json'' = PList ls"
  shows "\<exists>ls'. touch env (set_json ''source_json'' x (set_json ''legs_json'' l r')) ''legs_json'' = PList ls'"
proof -
  have "r' ''legs_json'' = r ''legs_json''"
    using set_cols_same [OF assms(1)] assms(2) EDITABLE_no_status(3) unfolding same_except_def by blast
  with assms(3) show ?thesis by (cases l; cases x) (auto simp: touch_def set_json_def)
qed

section \<open>Each writer is a step of the machine\<close>

lemma update_rowD:
  assumes "tx_ok env (update_row pid f) db n db'"
  shows "db' = db \<or> (\<exists>r r'. map_of (plans db) pid = Some r \<and> f env r = Inr r' \<and> plan_violation r' = None
           \<and> db' = put_row pid r' db)"
  using assms unfolding update_row_def tx_ok_def
  by (auto simp: stmt_run split: option.splits sum.splits)

lemma select_rowD: "tx_ok env (select_row pid) db a db' \<Longrightarrow> a = map_of (plans db) pid \<and> db' = db"
  unfolding select_row_def by (rule tx_ok_queryD)

lemma locked_statusD:
  "tx_ok env (locked_status pid) db a db' \<Longrightarrow>
     a = map_option (\<lambda>r. py_str (r ''status'')) (map_of (plans db) pid) \<and> db' = db"
  unfolding locked_status_def by (drule tx_ok_queryD) simp

lemma delete_rowD: "tx_ok env (delete_row pid) db n db' \<Longrightarrow> db' = removed pid db"
  unfolding delete_row_def removed_def by (drule tx_ok_stmtD) auto

lemma get_plan_onD: "tx_ok env (get_plan_on pid) db a db' \<Longrightarrow> db' = db"
  unfolding get_plan_on_def tx_ok_def by (auto simp: query_run split: option.splits)

lemma insert_rowD:
  "tx_ok env (insert_row f) db pid db' \<Longrightarrow> \<exists>r. f env = Inr r \<and> plan_violation r = None \<and> db' = inserted r db"
  unfolding insert_row_def tx_ok_def inserted_def by (auto simp: stmt_run split: option.splits sum.splits)

lemmas rowD = update_rowD select_rowD locked_statusD delete_rowD get_plan_onD insert_rowD

lemma legacy_stepD:
  assumes "legacy_transaction m env db = (Inr a, db')"
    and "\<And>b. tx_ok env m db b db' \<Longrightarrow> plan_change db db'"
  shows "plan_change db db'"
  using legacy_transaction_ok [OF assms(1)] assms(2) plan_change.unchanged by blast

lemma default_row_simps [simp]:
  "default_row env ''status'' = PStr ''draft''" "default_row env ''legs_json'' = PList []"
  by (simp_all add: default_row_def)

lemma new_row_step:
  assumes "set_cols env cols (set_json ''legs_json'' (Some legs) (set_json ''source_json'' (Some source) (default_row env))) = Inr r"
    and "fst ` set cols \<subseteq> set EDITABLE_COLUMNS \<union> {''parent_strategy_plan_id''}" and "plan_violation r = None"
  shows "plan_change db (inserted r db)"
proof (rule plan_change.created [OF assms(3)])
  have same: "c \<notin> fst ` set cols \<Longrightarrow>
      r c = set_json ''legs_json'' (Some legs) (set_json ''source_json'' (Some source) (default_row env)) c" for c
    using set_cols_same [OF assms(1)] unfolding same_except_def by blast
  have "''status'' \<notin> set EDITABLE_COLUMNS \<union> {''parent_strategy_plan_id''}"
    "''legs_json'' \<notin> set EDITABLE_COLUMNS \<union> {''parent_strategy_plan_id''}" by simp_all
  with assms(2) have "''status'' \<notin> fst ` set cols" "''legs_json'' \<notin> fst ` set cols" by blast+
  then show "r ''status'' = PStr ''draft''" "r ''legs_json'' = PList legs"
    using same [of "''status''"] same [of "''legs_json''"] by (simp_all add: set_json_def)
qed

lemma create_body_step:
  assumes "tx_ok env (create_body cols legs source) db b db'"
    and "fst ` set cols \<subseteq> set EDITABLE_COLUMNS \<union> {''parent_strategy_plan_id''}"
  shows "plan_change db db'"
proof -
  from assms(1) obtain r where
    "set_cols env cols (set_json ''legs_json'' (Some legs) (set_json ''source_json'' (Some source) (default_row env))) = Inr r"
    "plan_violation r = None" "db' = inserted r db"
    unfolding create_body_def by (auto dest!: tx_ok_bindD insert_rowD)
  with assms(2) show ?thesis using new_row_step by blast
qed

lemma parent_column_keys: "parent_column v = Inr x \<Longrightarrow> fst ` set x \<subseteq> {''parent_strategy_plan_id''}"
  by (auto simp: parent_column_def split: if_splits sum.splits)

lemma create_plan_step:
  assumes "create_plan env cfg payload db = (Inr a, db')"
  shows "plan_change db db'"
proof -
  consider "db' = db" | fs legs extra where "plan_fields payload True = Inr fs"
      "parent_column (dget payload ''parent_strategy_plan_id'') = Inr extra"
      "legacy_transaction (create_body (fs @ extra) legs (normalize_source (dget payload ''source''))) env db = (Inr a, db')"
    using assms unfolding create_plan_def
    by (cases "plan_fields payload True"; cases "normalize_plan_legs (dget payload ''legs'')";
        cases "parent_column (dget payload ''parent_strategy_plan_id'')") (auto split: if_splits)
  then show ?thesis
  proof cases
    case (2 fs legs extra)
    have "fst ` set (fs @ extra) \<subseteq> set EDITABLE_COLUMNS \<union> {''parent_strategy_plan_id''}"
      using plan_fields_keys [OF 2(1)] parent_column_keys [OF 2(2)] by (simp add: image_Un) blast
    with 2(3) show ?thesis by (blast intro: legacy_stepD create_body_step)
  qed (simp add: plan_change.unchanged)
qed

lemma edit_step:
  assumes "map_of (plans db) pid = Some r" and "plan_row_ok r" and "r ''status'' = PStr ''draft''"
    and "set_cols env cols r = Inr q" and "fst ` set cols \<subseteq> set EDITABLE_COLUMNS"
    and "plan_violation (touch env (set_json ''source_json'' x (set_json ''legs_json'' l q))) = None"
  shows "plan_change db (put_row pid (touch env (set_json ''source_json'' x (set_json ''legs_json'' l q))) db)"
proof -
  from assms(2) obtain ls where "r ''legs_json'' = PList ls" by (auto simp: plan_row_ok_def)
  from edit_legs [OF assms(4,5) this] obtain ls' where
    "touch env (set_json ''source_json'' x (set_json ''legs_json'' l q)) ''legs_json'' = PList ls'" ..
  moreover have "same_except (set EDITABLE_COLUMNS \<union> {''legs_json'', ''source_json'', ''updated_at''}) r
      (touch env (set_json ''source_json'' x (set_json ''legs_json'' l q)))"
    using edit_same [OF assms(4,5), of l x] by (simp add: same_except_def split: if_splits)
  ultimately show ?thesis using assms(1,3,6) by (blast intro: plan_change.edited)
qed

lemma update_body_step:
  assumes "tx_ok env (update_body pid fs legs source) db b db'" and "plan_inv db"
    and "fst ` set fs \<subseteq> set EDITABLE_COLUMNS"
  shows "plan_change db db'"
proof (cases "db' = db")
  case False
  with assms(1) obtain r q where
    r: "map_of (plans db) pid = Some r" "py_str (r ''status'') = ''draft''" and
    q: "set_cols env fs r = Inr q"
       "plan_violation (touch env (set_json ''source_json'' source (set_json ''legs_json'' legs q))) = None"
       "db' = put_row pid (touch env (set_json ''source_json'' source (set_json ''legs_json'' legs q))) db"
    unfolding update_body_def by (auto split: option.splits if_splits dest!: tx_ok_bindD rowD)
  from assms(2) r(1) have ok: "plan_row_ok r" by (rule plan_inv_row)
  with r(2) have "r ''status'' = PStr ''draft''" by (simp add: row_ok_status)
  from edit_step [OF r(1) ok this q(1) assms(3) q(2)] q(3) show ?thesis by simp
qed (simp add: plan_change.unchanged)

lemma update_plan_step:
  assumes "update_plan env cfg pid payload db = (Inr a, db')" and "plan_inv db"
  shows "plan_change db db'"
proof -
  consider "db' = db" | fs legs where "plan_fields payload False = Inr fs"
      "legacy_transaction (update_body pid fs legs (optional_source payload)) env db = (Inr a, db')"
    using assms(1) unfolding update_plan_def Let_def
    by (cases "plan_fields payload False"; cases "optional_legs payload") (auto split: if_splits)
  then show ?thesis
  proof cases
    case (2 fs legs)
    with assms(2) plan_fields_keys [OF 2(1)] show ?thesis by (blast intro: legacy_stepD update_body_step)
  qed (simp add: plan_change.unchanged)
qed

lemma row_out_simps [simp]:
  "c \<notin> {''legs_json'', ''source_json'', ''effective_status''} \<Longrightarrow> row_out env r c = r c"
  "row_out env r ''legs_json'' = json_out env (r ''legs_json'')"
  by (auto simp: row_out_def)

lemma intend_body_step:
  assumes "tx_ok env (intend_body pid) db b db'" and "plan_inv db"
  shows "plan_change db db'"
proof (cases "db' = db")
  case False
  define mark where "mark r = touch env (r(''status'' := PStr ''intended'', ''intended_at'' := PDatetime (Aware (now env))))"
    for r
  from assms(1) False obtain r where
    r: "map_of (plans db) pid = Some r" "r ''status'' = PStr ''draft''" "truthy (json_out env (r ''legs_json''))"
      "has_exit r" "plan_violation (mark r) = None" "db' = put_row pid (mark r) db"
    unfolding intend_body_def tx_ok_def [of _ "\<lambda>env. _ env"]
    by (auto split: option.splits if_splits simp: Let_def has_exit_def mark_def tx_ok_def [symmetric]
        dest!: tx_ok_bindD rowD)
  from assms(2) r(1) have "plan_row_ok r" by (rule plan_inv_row)
  with r(3) obtain ls where ls: "r ''legs_json'' = PList ls" "ls \<noteq> []"
    by (auto simp: plan_row_ok_def json_out_def)
  have "same_except {''status'', ''intended_at'', ''updated_at''} r (mark r)" "mark r ''status'' = PStr ''intended''"
    by (simp_all add: same_except_def mark_def touch_def)
  with r ls show ?thesis by (blast intro: plan_change.intended)
qed (simp add: plan_change.unchanged)

lemma link_body_step:
  assumes "tx_ok env (link_body pid t) db b db'" and "plan_inv db"
  shows "plan_change db db'"
proof (cases "db' = db")
  case False
  define mark where "mark r = touch env (r(''status'' := PStr ''filled'', ''trade_id'' := PInt t))" for r
  from assms(1) False obtain r tr where
    r: "map_of (plans db) pid = Some r" "r ''status'' = PStr ''intended''" "map_of (trades db) t = Some tr"
      "tr_account tr = py_str (r ''account_id'')" "plan_violation (mark r) = None" "db' = put_row pid (mark r) db"
    unfolding link_body_def
    by (auto split: option.splits if_splits simp: mark_def dest!: tx_ok_bindD rowD tx_ok_queryD)
  have "same_except {''status'', ''trade_id'', ''updated_at''} r (mark r)" "mark r ''status'' = PStr ''filled''"
      "mark r ''trade_id'' = PInt t"
    by (simp_all add: same_except_def mark_def touch_def)
  with r show ?thesis by (blast intro: plan_change.filled)
qed (simp add: plan_change.unchanged)

lemma cancel_body_step:
  assumes "tx_ok env (cancel_body pid) db b db'" and "plan_inv db"
  shows "plan_change db db'"
proof (cases "db' = db")
  case False
  define mark where "mark r = touch env (r(''status'' := PStr ''cancelled'', ''cancelled_at'' := PDatetime (Aware (now env))))"
    for r
  from assms(1) False obtain r where
    r: "map_of (plans db) pid = Some r" "py_str (r ''status'') \<in> {''draft'', ''intended''}"
      "plan_violation (mark r) = None" "db' = put_row pid (mark r) db"
    unfolding cancel_body_def
    by (auto split: option.splits if_splits simp: mark_def dest!: tx_ok_bindD rowD)
  from assms(2) r(1) have "plan_row_ok r" by (rule plan_inv_row)
  with r(2) have st: "r ''status'' \<in> {PStr ''draft'', PStr ''intended''}" by (simp add: row_ok_status)
  have "same_except {''status'', ''cancelled_at'', ''updated_at''} r (mark r)" "mark r ''status'' = PStr ''cancelled''"
    by (simp_all add: same_except_def mark_def touch_def)
  with r st show ?thesis by (blast intro: plan_change.cancelled)
qed (simp add: plan_change.unchanged)

lemma discard_step:
  assumes "map_of (plans db) pid = Some r" and "py_str (r ''status'') = ''draft''" and "plan_inv db"
  shows "plan_change db (removed pid db)"
  using assms plan_inv_row [OF assms(3,1)] by (auto simp: row_ok_status intro: plan_change.deleted)

lemma delete_body_step:
  assumes "tx_ok env (delete_body pid) db b db'" and "plan_inv db"
  shows "plan_change db db'"
proof -
  from assms(1) have "db' = db \<or>
      (\<exists>r. map_of (plans db) pid = Some r \<and> py_str (r ''status'') = ''draft'' \<and> db' = removed pid db)"
    unfolding delete_body_def by (auto split: option.splits if_splits dest!: tx_ok_bindD rowD)
  with assms(2) show ?thesis using discard_step plan_change.unchanged by metis
qed

lemma delete_strict_body_step:
  assumes "tx_ok env (delete_strict_body pid) db b db'" and "plan_inv db"
  shows "plan_change db db'"
proof -
  from assms(1) have "db' = db \<or>
      (\<exists>r. map_of (plans db) pid = Some r \<and> py_str (r ''status'') = ''draft'' \<and> db' = removed pid db)"
    unfolding delete_strict_body_def by (auto split: option.splits if_splits dest!: tx_ok_bindD rowD)
  with assms(2) show ?thesis using discard_step plan_change.unchanged by metis
qed

lemma patch_edit_step:
  assumes "map_of (plans db) pid = Some r" and "plan_inv db"
    and cols: "patch_plan_columns fs = Inr (cols, legs, source)"
    and st: "r ''status'' = PStr ''draft'' \<or>
       r ''status'' = PStr ''intended'' \<and> fst ` set fs \<subseteq> {''expires_at''}"
    and q: "set_cols env cols r = Inr q"
    and r': "r' = touch env (set_json ''source_json'' source (set_json ''legs_json'' legs q))"
      "plan_violation r' = None"
  shows "plan_change db (put_row pid r' db)"
proof -
  have ok: "plan_row_ok r" using assms(2,1) by (rule plan_inv_row)
  have keys: "fst ` set cols \<subseteq> set EDITABLE_COLUMNS" "fst ` set cols \<subseteq> fst ` set fs"
    using patch_plan_columns_keys(1) [OF cols] by simp_all
  show ?thesis
  proof (cases "r ''status'' = PStr ''draft''")
    case True
    from edit_step [OF assms(1) ok True q keys(1)] r' show ?thesis by simp
  next
    case False
    with st have i: "r ''status'' = PStr ''intended''" and fs: "fst ` set fs \<subseteq> {''expires_at''}" by simp_all
    have "''legs'' \<notin> fst ` set fs" "''source'' \<notin> fst ` set fs" using fs by blast+
    with patch_plan_columns_keys(2,3) [OF cols] have "legs = None" "source = None" by blast+
    moreover have "fst ` set cols \<subseteq> {''expires_at''}" using keys(2) fs by simp
    ultimately have "same_except {''expires_at'', ''updated_at''} r r'"
      using edit_same [OF q, of "{''expires_at''}" None None] r'(1) by (simp add: same_except_def)
    with assms(1) i r'(2) show ?thesis by (blast intro: plan_change.extended)
  qed
qed

lemma frozen_fields:
  "sort (filter (\<lambda>k. k \<notin> set PLAN_PATCHABLE_WHEN_INTENDED) (map fst fs)) = [] \<longleftrightarrow> fst ` set fs \<subseteq> {''expires_at''}"
proof -
  have "sort xs = [] \<longleftrightarrow> xs = []" for xs :: "string list" by (metis set_empty set_sort)
  then show ?thesis by (simp add: filter_empty_conv PLAN_PATCHABLE_WHEN_INTENDED_def image_subset_iff)
qed

lemma patch_body_step:
  assumes "tx_ok env (patch_plan_body pid fs c) db b db'" and "plan_inv db" and "patch_plan_columns fs = Inr c"
  shows "plan_change db db'"
proof (cases "db' = db")
  case False
  obtain cols legs source where c: "c = (cols, legs, source)" by (cases c)
  from assms(1) False obtain r q where
    r: "map_of (plans db) pid = Some r" "py_str (r ''status'') = ''draft'' \<or>
       py_str (r ''status'') = ''intended'' \<and> fst ` set fs \<subseteq> {''expires_at''}" and
    q: "set_cols env cols r = Inr q"
       "plan_violation (touch env (set_json ''source_json'' source (set_json ''legs_json'' legs q))) = None"
       "db' = put_row pid (touch env (set_json ''source_json'' source (set_json ''legs_json'' legs q))) db"
    unfolding patch_plan_body_def c
    by (auto split: option.splits if_splits simp: Let_def frozen_fields dest!: tx_ok_bindD rowD)
  have "plan_row_ok r" using assms(2) r(1) by (rule plan_inv_row)
  with r(2) have "r ''status'' = PStr ''draft'' \<or> r ''status'' = PStr ''intended'' \<and> fst ` set fs \<subseteq> {''expires_at''}"
    by (simp add: row_ok_status)
  from patch_edit_step [OF r(1) assms(2) assms(3) [unfolded c] this q(1) refl q(2)] q(3) show ?thesis by simp
qed (simp add: plan_change.unchanged)

text \<open>Whatever the call, the environment and the payload: one abstract step.\<close>

lemma run_plan_step:
  assumes "run_plan op db = (Inr a, db')" and "plan_inv db"
  shows "plan_change db db'"
proof -
  obtain env call where op: "op = (env, call)" by force
  show ?thesis
  proof (cases call)
    case (Create cfg payload)
    with assms op show ?thesis by (auto dest: create_plan_step)
  next
    case (Update cfg pid payload)
    with assms op show ?thesis by (auto dest: update_plan_step)
  next
    case (Intend cfg pid)
    with assms op show ?thesis
      by (auto simp: intend_plan_def plan_change.unchanged split: if_splits intro: legacy_stepD intend_body_step)
  next
    case (LinkFill cfg pid t)
    with assms op show ?thesis
      by (auto simp: link_fill_def plan_change.unchanged split: if_splits intro: legacy_stepD link_body_step)
  next
    case (Cancel cfg pid)
    with assms op show ?thesis
      by (auto simp: cancel_plan_def plan_change.unchanged split: if_splits intro: legacy_stepD cancel_body_step)
  next
    case (Delete cfg pid)
    with assms op show ?thesis
      by (auto simp: delete_plan_def plan_change.unchanged split: if_splits intro: legacy_stepD delete_body_step)
  next
    case (Patch arg pid body)
    with assms op obtain fs c r where "patch_plan_columns fs = Inr c"
      "strict_write (''plan '' @ int_str pid) FkInvalid (patch_plan_body pid fs c) env arg db = (Inr r, db')"
      by (auto simp: patch_plan_def split: sum.splits)
    with assms(2) show ?thesis by (blast dest: strict_write_ok intro: patch_body_step)
  next
    case (DeleteStrict arg pid)
    with assms op show ?thesis
      by (auto simp: delete_plan_strict_def dest!: strict_write_ok intro: delete_strict_body_step)
  qed
qed

lemma run_plan_error:
  assumes "run_plan op db = (Inl e, db')"
  shows "db' = db"
proof -
  obtain env call where op: "op = (env, call)" by force
  show ?thesis
    using assms op
    by (cases call)
      (auto simp: create_plan_def update_plan_def intend_plan_def link_fill_def cancel_plan_def delete_plan_def
        patch_plan_def delete_plan_strict_def Let_def split: sum.splits if_splits prod.splits
        dest: legacy_transaction_error strict_write_error)
qed

interpretation plan_writers: invariant_writer run_plan plan_inv
  by unfold_locales (auto dest: run_plan_error run_plan_step plan_change_inv)

end
