(* ===== verification/Plan_Properties.thy ===== *)
theory Plan_Properties
  imports Plan_Machine
begin

text \<open>
  What the trade-plan writers promise, for every payload, every environment and every sequence of
  calls. A call is an operation with its environment (\<open>env\<close>: which connect and which statement
  fails, what the database coerces values to, the clock); the statements quantify over both.
\<close>

section \<open>Sample data for the witnesses\<close>

definition no_plans :: "(int \<times> trade_row) list \<Rightarrow> plan_db" where
  "no_plans ts = \<lparr>plans = [], next_plan = 1, trades = ts\<rparr>"

definition pg_cfg :: "pydict option" where
  "pg_cfg = Some [(''sink'', PStr ''postgres'')]"

definition sample_leg :: pydict where
  "sample_leg = [(''side'', PStr '' Sell''), (''sec_type'', PStr ''opt''), (''right'', PStr ''p''),
     (''strike'', PInt 95), (''expiry'', PStr ''2026-03-20''), (''ratio'', PStr ''2'')]"

definition sample_payload :: pydict where
  "sample_payload = [(''account_id'', PStr ''U1''), (''symbol'', PStr ''spy''), (''structure_label'', PStr ''csp''),
     (''qty'', PInt 1), (''exit_by'', PDate (2026, 3, 20)), (''legs'', PList [PDict sample_leg])]"

definition sample_trades :: "(int \<times> trade_row) list" where
  "sample_trades = [(7, \<lparr>tr_account = ''U1'', tr_opened_at = Aware 0\<rparr>)]"

definition draft_db :: plan_db where
  "draft_db = snd (run_plan (calm_env 0, Create pg_cfg sample_payload) (no_plans sample_trades))"

definition intended_db :: plan_db where
  "intended_db = snd (run_plan (calm_env 1, Intend pg_cfg 1) draft_db)"

definition filled_db :: plan_db where
  "filled_db = snd (run_plan (calm_env 2, LinkFill pg_cfg 1 7) intended_db)"

lemma plan_inv_no_plans: "plan_inv (no_plans ts)"
  by (simp add: plan_inv_def no_plans_def)

lemma sample_inv: "plan_inv draft_db" "plan_inv intended_db" "plan_inv filled_db"
  by (simp_all only: draft_db_def intended_db_def filled_db_def plan_writers.step_keeps_inv plan_inv_no_plans)

lemma sample_status:
  "status_of draft_db 1 = Some (PStr ''draft'')" "status_of intended_db 1 = Some (PStr ''intended'')"
  "status_of filled_db 1 = Some (PStr ''filled'')"
  by code_simp+

section \<open>Life of a plan\<close>

lemma any_step: "plan_inv db \<Longrightarrow> plan_change db (snd (run_plan op db))"
  by (cases "run_plan op db"; cases "fst (run_plan op db)")
    (auto dest: run_plan_error run_plan_step intro: plan_change.unchanged)

text \<open>
  C1. The stored status of every plan moves only along the lifecycle: created as a draft; a draft
  becomes intended, cancelled or is deleted; an intended plan becomes filled or cancelled; nothing
  leaves filled or cancelled. Every writer, every payload, every failure.
\<close>

theorem plan_lifecycle:
  assumes "plan_inv db"
  shows "plan_move (status_of db i) (status_of (snd (run_plan op db)) i)"
  using any_step [OF assms] assms by (rule plan_change_move)

theorem plan_lifecycle_witness:
  "plan_move (Some (PStr ''draft'')) (Some (PStr ''intended'')) \<and>
   status_of (snd (run_plan (calm_env 1, Intend pg_cfg 1) draft_db)) 1 = Some (PStr ''intended'')"
  using plan_lifecycle [OF sample_inv(1), of 1 "(calm_env 1, Intend pg_cfg 1)"] sample_status(1,2)
  by (simp add: intended_db_def)

text \<open>
  From an empty table, no sequence of writer calls, whatever fails on the way, leaves a table
  in which an id repeats, a row breaks a constraint of the table, or a plan is intended or filled
  without a leg and without a written exit.
\<close>

theorem plan_table_invariant:
  "plan_inv (plan_writers.run_all ops (no_plans ts))"
  by (rule plan_writers.run_all_keeps_inv [OF plan_inv_no_plans])

section \<open>What an intended plan may still change\<close>

definition written_down :: "pyval set" where
  "written_down = {PStr ''intended'', PStr ''filled'', PStr ''cancelled''}"

definition bookkeeping :: "string set" where
  "bookkeeping = {''status'', ''expires_at'', ''updated_at'', ''trade_id'', ''cancelled_at'', ''parent_strategy_plan_id''}"

definition keeps :: "pyval set \<Rightarrow> string set \<Rightarrow> int \<Rightarrow> row \<Rightarrow> plan_db \<Rightarrow> bool" where
  "keeps sts S i r db \<longleftrightarrow> (\<exists>r'. map_of (plans db) i = Some r' \<and> r' ''status'' \<in> sts \<and> same_except S r r')"

lemma same_except_trans: "same_except S q r \<Longrightarrow> same_except T r s \<Longrightarrow> T \<subseteq> S \<Longrightarrow> same_except S q s"
  by (auto simp: same_except_def subset_iff)

lemma same_except_refl [simp]: "same_except S r r"
  by (simp add: same_except_def)

lemma same_except_orphan: "''parent_strategy_plan_id'' \<in> S \<Longrightarrow> same_except S r (orphan pid r)"
  by (auto simp: same_except_def orphan_def)

lemma keepsI: "map_of (plans db) i = Some r' \<Longrightarrow> r' ''status'' \<in> sts \<Longrightarrow> same_except S r r' \<Longrightarrow> keeps sts S i r db"
  unfolding keeps_def by blast

lemma keeps_trans: "keeps sts S i r' db \<Longrightarrow> same_except S r r' \<Longrightarrow> keeps sts S i r db"
  unfolding keeps_def by (blast intro: same_except_trans)

text \<open>A step that rewrites one row keeps another, and keeps that one when the step says so.\<close>

lemma keeps_put:
  assumes "map_of (plans db) i = Some r" and "r ''status'' \<in> sts" and "map_of (plans db) pid = Some q"
    and "i = pid \<Longrightarrow> q = r \<Longrightarrow> q' ''status'' \<in> sts \<and> same_except S r q'"
  shows "keeps sts S i r (put_row pid q' db)"
  using assms by (cases "i = pid") (auto intro!: keepsI simp: lookup_put_row)

lemma change_written_down:
  assumes "plan_change db db'" and "plan_inv db" and "map_of (plans db) i = Some r" and "r ''status'' \<in> written_down"
  shows "keeps written_down bookkeeping i r db'"
  using assms(1)
proof cases
  case unchanged
  with assms show ?thesis by (auto intro: keepsI)
next
  case (created q ls)
  with assms(3,4) plan_inv_fresh [OF assms(2)] show ?thesis
    by (auto intro!: keepsI [of _ i r] simp: lookup_inserted)
next
  case (edited pid q q' ls)
  show ?thesis unfolding edited(1)
    by (rule keeps_put [OF assms(3,4) edited(2)]) (use assms(4) edited(3) in \<open>simp add: written_down_def\<close>)
next
  case (extended pid q q')
  show ?thesis unfolding extended(1)
    by (rule keeps_put [OF assms(3,4) extended(2)])
      (use extended(3,4) in \<open>auto simp: written_down_def bookkeeping_def same_except_def\<close>)
next
  case (intended pid q ls q')
  show ?thesis unfolding intended(1)
    by (rule keeps_put [OF assms(3,4) intended(2)]) (use assms(4) intended(3) in \<open>simp add: written_down_def\<close>)
next
  case (filled pid q t tr q')
  show ?thesis unfolding filled(1)
    by (rule keeps_put [OF assms(3,4) filled(2)])
      (use filled(6,7) in \<open>auto simp: written_down_def bookkeeping_def same_except_def\<close>)
next
  case (cancelled pid q q')
  show ?thesis unfolding cancelled(1)
    by (rule keeps_put [OF assms(3,4) cancelled(2)])
      (use cancelled(4,5) in \<open>auto simp: written_down_def bookkeeping_def same_except_def\<close>)
next
  case (deleted pid q)
  then have "i \<noteq> pid" using assms(3,4) by (auto simp: written_down_def)
  then show ?thesis unfolding deleted(1) using assms(3,4)
    by (auto intro!: keepsI [of _ i "orphan pid r"] same_except_orphan simp: lookup_removed bookkeeping_def)
qed

lemma change_final:
  assumes "plan_change db db'" and "plan_inv db" and "map_of (plans db) i = Some r"
    and "r ''status'' \<in> {PStr ''filled'', PStr ''cancelled''}"
  shows "keeps {PStr ''filled'', PStr ''cancelled''} {''parent_strategy_plan_id''} i r db'"
  using assms(1)
proof cases
  case unchanged
  with assms show ?thesis by (auto intro: keepsI)
next
  case (created q ls)
  with assms(3,4) plan_inv_fresh [OF assms(2)] show ?thesis
    by (auto intro!: keepsI [of _ i r] simp: lookup_inserted)
next
  case (deleted pid q)
  then have "i \<noteq> pid" using assms(3,4) by auto
  then show ?thesis unfolding deleted(1) using assms(3,4)
    by (auto intro!: keepsI [of _ i "orphan pid r"] same_except_orphan simp: lookup_removed)
next
  case (edited pid q q' ls)
  show ?thesis unfolding edited(1)
    by (rule keeps_put [OF assms(3,4) edited(2)]) (use assms(4) edited(3) in force)
next
  case (extended pid q q')
  show ?thesis unfolding extended(1)
    by (rule keeps_put [OF assms(3,4) extended(2)]) (use assms(4) extended(3) in force)
next
  case (intended pid q ls q')
  show ?thesis unfolding intended(1)
    by (rule keeps_put [OF assms(3,4) intended(2)]) (use assms(4) intended(3) in force)
next
  case (filled pid q t tr q')
  show ?thesis unfolding filled(1)
    by (rule keeps_put [OF assms(3,4) filled(2)]) (use assms(4) filled(3) in force)
next
  case (cancelled pid q q')
  show ?thesis unfolding cancelled(1)
    by (rule keeps_put [OF assms(3,4) cancelled(2)]) (use assms(4) cancelled(3) in force)
qed

interpretation written: invariant_writer run_plan "\<lambda>db. plan_inv db \<and> keeps written_down bookkeeping i r db" for i r
proof
  fix op db db' and a :: unit
  assume inv: "plan_inv db \<and> keeps written_down bookkeeping i r db" and run: "run_plan op db = (Inr a, db')"
  then obtain q where q: "map_of (plans db) i = Some q" "q ''status'' \<in> written_down" "same_except bookkeeping r q"
    unfolding keeps_def by blast
  have step: "plan_change db db'" using run inv by (blast dest: run_plan_step)
  with inv q have "keeps written_down bookkeeping i q db'" by (blast intro: change_written_down)
  with step inv q(3) show "plan_inv db' \<and> keeps written_down bookkeeping i r db'"
    by (blast intro: keeps_trans plan_change_inv)
qed

interpretation final: invariant_writer run_plan
  "\<lambda>db. plan_inv db \<and> keeps {PStr ''filled'', PStr ''cancelled''} {''parent_strategy_plan_id''} i r db" for i r
proof
  fix op db db' and a :: unit
  let ?k = "keeps {PStr ''filled'', PStr ''cancelled''} {''parent_strategy_plan_id''} i"
  assume inv: "plan_inv db \<and> ?k r db" and run: "run_plan op db = (Inr a, db')"
  then obtain q where q: "map_of (plans db) i = Some q" "q ''status'' \<in> {PStr ''filled'', PStr ''cancelled''}"
    "same_except {''parent_strategy_plan_id''} r q"
    unfolding keeps_def by blast
  have step: "plan_change db db'" using run inv by (blast dest: run_plan_step)
  with inv q have "?k q db'" by (blast intro: change_final)
  with step inv q(3) show "plan_inv db' \<and> ?k r db'"
    by (blast intro: keeps_trans plan_change_inv)
qed

text \<open>
  C10. Once a plan is intended, no later sequence of calls deletes it or alters what was written
  down: every column but its status, deadline, timestamps, fill link and parent link keeps the
  value it had.
\<close>

theorem intended_plan_is_frozen:
  assumes "plan_inv db" and "map_of (plans db) i = Some r" and "r ''status'' = PStr ''intended''"
  shows "\<exists>r'. map_of (plans (plan_writers.run_all ops db)) i = Some r' \<and>
           (\<forall>c. c \<in> bookkeeping \<or> r' c = r c)"
proof -
  have "plan_inv db \<and> keeps written_down bookkeeping i r db"
    using assms by (auto intro: keepsI simp: written_down_def)
  then have "keeps written_down bookkeeping i r (plan_writers.run_all ops db)"
    by (rule written.run_all_keeps_inv [THEN conjunct2])
  then show ?thesis unfolding keeps_def same_except_def by blast
qed

lemma sample_row: "status_of db i = Some s \<Longrightarrow> \<exists>r. map_of (plans db) i = Some r \<and> r ''status'' = s"
  by (auto simp: status_of_def)

theorem intended_plan_is_frozen_witness:
  "\<exists>r r'. map_of (plans intended_db) 1 = Some r \<and>
     map_of (plans (plan_writers.run_all [(calm_env 2, LinkFill pg_cfg 1 7), (calm_env 3, Delete pg_cfg 1)] intended_db)) 1
       = Some r' \<and> r' ''legs_json'' = r ''legs_json''"
proof -
  obtain r where r: "map_of (plans intended_db) 1 = Some r" "r ''status'' = PStr ''intended''"
    using sample_row [OF sample_status(2)] by blast
  from intended_plan_is_frozen [OF sample_inv(2) r] obtain r' where
    "map_of (plans (plan_writers.run_all [(calm_env 2, LinkFill pg_cfg 1 7), (calm_env 3, Delete pg_cfg 1)] intended_db)) 1
       = Some r'" "\<forall>c. c \<in> bookkeeping \<or> r' c = r c" by blast
  moreover have "''legs_json'' \<notin> bookkeeping" by (simp add: bookkeeping_def)
  ultimately show ?thesis using r(1) by blast
qed

text \<open>
  A filled or cancelled plan is final: no later sequence of calls changes any column of it,
  except that deleting the draft it was rolled from clears its parent link.
\<close>

theorem closed_plan_is_final:
  assumes "plan_inv db" and "map_of (plans db) i = Some r"
    and "r ''status'' \<in> {PStr ''filled'', PStr ''cancelled''}"
  shows "\<exists>r'. map_of (plans (plan_writers.run_all ops db)) i = Some r' \<and>
           (\<forall>c. c = ''parent_strategy_plan_id'' \<or> r' c = r c)"
proof -
  let ?k = "keeps {PStr ''filled'', PStr ''cancelled''} {''parent_strategy_plan_id''} i r"
  have "plan_inv db \<and> ?k db" using assms by (auto intro: keepsI)
  then have "?k (plan_writers.run_all ops db)" by (rule final.run_all_keeps_inv [THEN conjunct2])
  then show ?thesis unfolding keeps_def same_except_def by blast
qed

theorem closed_plan_is_final_witness:
  "\<exists>r'. map_of (plans (plan_writers.run_all [(calm_env 3, Cancel pg_cfg 1)] filled_db)) 1 = Some r' \<and>
     r' ''status'' = PStr ''filled''"
proof -
  obtain r where r: "map_of (plans filled_db) 1 = Some r" "r ''status'' = PStr ''filled''"
    using sample_row [OF sample_status(3)] by blast
  then have "r ''status'' \<in> {PStr ''filled'', PStr ''cancelled''}" by simp
  from closed_plan_is_final [OF sample_inv(3) r(1) this] obtain r' where
    "map_of (plans (plan_writers.run_all [(calm_env 3, Cancel pg_cfg 1)] filled_db)) 1 = Some r'"
    "\<forall>c. c = ''parent_strategy_plan_id'' \<or> r' c = r c" by blast
  moreover have "''status'' \<noteq> ''parent_strategy_plan_id''" by simp
  ultimately show ?thesis using r(2) by metis
qed

section \<open>Failures\<close>

text \<open>
  A writer that raises, for whatever reason (a refused connection or statement, a violated
  constraint, a rule, a malformed payload, a failed commit), leaves the tables as they were.
\<close>

theorem failed_write_changes_nothing:
  assumes "run_plan op db = (Inl e, db')"
  shows "db' = db"
  using assms by (rule run_plan_error)

theorem failed_write_changes_nothing_witness:
  "run_plan (calm_env 5, Cancel pg_cfg 1) filled_db
     = (Inl (Write (PlanRule ''This plan is filled, and cannot be cancelled.'')), filled_db)"
proof -
  have "fst (run_plan (calm_env 5, Cancel pg_cfg 1) filled_db)
      = Inl (Write (PlanRule ''This plan is filled, and cannot be cancelled.''))" by code_simp
  then show ?thesis using failed_write_changes_nothing by (metis prod.collapse)
qed

section \<open>Intending a plan\<close>

lemma violation_iff:
  "plan_violation r = None \<longleftrightarrow> (\<forall>c \<in> set plan_not_null. r c \<noteq> PNone) \<and> (\<forall>nc \<in> set plan_checks. snd nc r)"
proof
  assume "plan_violation r = None"
  then show "(\<forall>c \<in> set plan_not_null. r c \<noteq> PNone) \<and> (\<forall>nc \<in> set plan_checks. snd nc r)"
    using violation_not_null violation_check by (metis prod.collapse)
next
  assume "(\<forall>c \<in> set plan_not_null. r c \<noteq> PNone) \<and> (\<forall>nc \<in> set plan_checks. snd nc r)"
  then have "filter (\<lambda>c. r c = PNone) plan_not_null = []" "filter (\<lambda>nc. \<not> snd nc r) plan_checks = []"
    by (simp_all add: filter_empty_conv)
  then show "plan_violation r = None" by (simp add: plan_violation_def)
qed

lemma violation_intended:
  assumes "plan_violation r = None" and "r ''status'' = PStr ''draft''"
  shows "plan_violation (r(''status'' := PStr ''intended'', ''intended_at'' := u, ''updated_at'' := PDatetime w)) = None"
proof -
  have t: "r ''trade_id'' = PNone" using violation_pairs(3) [OF assms(1)] assms(2) by simp
  have "\<forall>c \<in> set plan_not_null. r c \<noteq> PNone" "\<forall>nc \<in> set plan_checks. snd nc r"
    using assms(1) by (simp_all add: violation_iff)
  then show ?thesis unfolding violation_iff
    by (simp add: plan_not_null_def plan_checks_def PLAN_STATUSES_def one_of_def t)
qed

text \<open>
  When the database answers, \<open>intend_plan\<close> on a stored plan succeeds exactly if the plan is a
  draft with at least one leg and a written exit, and then the row reads intended, stamped with
  the time of the call, and nothing else but \<open>updated_at\<close> has moved. Otherwise it raises a
  \<open>PlanRuleError\<close> and changes nothing.
\<close>

theorem intend_plan_succeeds:
  assumes "plan_inv db" and "map_of (plans db) i = Some r" and "conn_from_config (calm_env t) cfg"
  shows "if r ''status'' = PStr ''draft'' \<and> r ''legs_json'' \<noteq> PList [] \<and> has_exit r
    then intend_plan (calm_env t) cfg i db = (Inr True, put_row i (r(''status'' := PStr ''intended'',
           ''intended_at'' := PDatetime (Aware t), ''updated_at'' := PDatetime (Aware t))) db)
    else \<exists>msg. intend_plan (calm_env t) cfg i db = (Inl (Write (PlanRule msg)), db)"
proof -
  have ok: "plan_row_ok r" using assms(1,2) by (rule plan_inv_row)
  then obtain ls where ls: "r ''legs_json'' = PList ls" by (auto simp: plan_row_ok_def)
  have v: "r ''status'' = PStr ''draft'' \<Longrightarrow> plan_violation (r(''status'' := PStr ''intended'',
      ''intended_at'' := PDatetime (Aware t), ''updated_at'' := PDatetime (Aware t))) = None"
    using ok by (simp add: plan_row_ok_def violation_intended)
  show ?thesis
    using assms(2,3) ls v
    by (cases "r ''status'' = PStr ''draft''")
      (simp_all add: intend_plan_def intend_body_def legacy_transaction_def select_row_def update_row_def tx_simps Let_def
        json_out_def touch_def has_exit_def)
qed

theorem intend_plan_succeeds_witness:
  "fst (intend_plan (calm_env 1) pg_cfg 1 draft_db) = Inr True \<and>
   (\<exists>r. map_of (plans draft_db) 1 = Some r \<and> has_exit r)"
proof -
  obtain r where r: "map_of (plans draft_db) 1 = Some r" using sample_row [OF sample_status(1)] by blast
  have c: "conn_from_config (calm_env 1) pg_cfg" by code_simp
  have "fst (intend_plan (calm_env 1) pg_cfg 1 draft_db) = Inr True" by code_simp
  with intend_plan_succeeds [OF sample_inv(1) r c] r show ?thesis by (auto split: if_splits)
qed

section \<open>Fills\<close>

definition fill_ok :: "(int \<times> trade_row) list \<Rightarrow> row \<Rightarrow> bool" where
  "fill_ok ts r \<longleftrightarrow> (r ''status'' = PStr ''filled'' \<longrightarrow>
     (\<exists>t tr. r ''trade_id'' = PInt t \<and> map_of ts t = Some tr \<and> tr_account tr = py_str (r ''account_id'')))"

definition fills_ok :: "plan_db \<Rightarrow> bool" where
  "fills_ok db \<longleftrightarrow> (\<forall>i r. map_of (plans db) i = Some r \<longrightarrow> fill_ok (trades db) r)"

lemma fills_ok_put: "fills_ok db \<Longrightarrow> fill_ok (trades db) q \<Longrightarrow> fills_ok (put_row pid q db)"
  by (simp add: fills_ok_def lookup_put_row)

lemma fill_ok_unfilled: "r ''status'' \<noteq> PStr ''filled'' \<Longrightarrow> fill_ok ts r"
  by (simp add: fill_ok_def)

lemma change_fills:
  assumes "plan_change db db'" and "plan_inv db" and "fills_ok db"
  shows "fills_ok db'"
  using assms(1)
proof cases
  case unchanged
  with assms show ?thesis by simp
next
  case (created q ls)
  with assms(3) plan_inv_fresh [OF assms(2)] show ?thesis
    by (simp add: fills_ok_def lookup_inserted fill_ok_unfilled)
next
  case (edited pid q q' ls)
  then have "q' ''status'' = q ''status''" by (simp add: same_except_def)
  with edited assms(3) show ?thesis by (simp add: fills_ok_put fill_ok_unfilled)
next
  case (extended pid q q')
  then have "q' ''status'' = q ''status''" by (simp add: same_except_def)
  with extended assms(3) show ?thesis by (simp add: fills_ok_put fill_ok_unfilled)
next
  case (filled pid q t tr q')
  then have "q' ''account_id'' = q ''account_id''" by (simp add: same_except_def)
  with filled have "fill_ok (trades db) q'" by (simp add: fill_ok_def)
  with filled(1) assms(3) show ?thesis by (simp add: fills_ok_put)
next
  case (deleted pid q)
  have "fill_ok (trades db) (orphan pid r) = fill_ok (trades db) r" for r by (simp add: fill_ok_def)
  with deleted(1) assms(3) show ?thesis
    by (auto simp: fills_ok_def lookup_removed) (simp add: removed_def)
qed (use assms(3) in \<open>simp_all add: fills_ok_put fill_ok_unfilled\<close>)

interpretation fills: invariant_writer run_plan "\<lambda>db. plan_inv db \<and> fills_ok db"
  by unfold_locales (blast dest: run_plan_step intro: change_fills plan_change_inv)

text \<open>
  In any table the writers can build, a filled plan names a trade that exists, and the trade
  belongs to the plan's own account.
\<close>

theorem filled_plan_names_its_account:
  assumes "map_of (plans (plan_writers.run_all ops (no_plans ts))) i = Some r" and "r ''status'' = PStr ''filled''"
  shows "\<exists>t tr. r ''trade_id'' = PInt t \<and>
           map_of (trades (plan_writers.run_all ops (no_plans ts))) t = Some tr \<and> tr_account tr = py_str (r ''account_id'')"
proof -
  have "plan_inv (no_plans ts) \<and> fills_ok (no_plans ts)"
    by (simp add: plan_inv_no_plans) (simp add: fills_ok_def no_plans_def)
  then have "fills_ok (plan_writers.run_all ops (no_plans ts))" by (rule fills.run_all_keeps_inv [THEN conjunct2])
  with assms show ?thesis unfolding fills_ok_def fill_ok_def by blast
qed

lemma filled_db_run: "filled_db = plan_writers.run_all [(calm_env 0, Create pg_cfg sample_payload),
    (calm_env 1, Intend pg_cfg 1), (calm_env 2, LinkFill pg_cfg 1 7)] (no_plans sample_trades)"
  by (simp only: filled_db_def intended_db_def draft_db_def plan_writers.run_all.simps)

theorem filled_plan_names_its_account_witness:
  "\<exists>r t tr. map_of (plans filled_db) 1 = Some r \<and> r ''trade_id'' = PInt t \<and>
     map_of (trades filled_db) t = Some tr \<and> tr_account tr = py_str (r ''account_id'')"
proof -
  obtain r where r: "map_of (plans filled_db) 1 = Some r" "r ''status'' = PStr ''filled''"
    using sample_row [OF sample_status(3)] by blast
  from filled_plan_names_its_account [OF r(1) [unfolded filled_db_run] r(2)] r(1) show ?thesis
    unfolding filled_db_run [symmetric] by blast
qed

section \<open>What the readers report\<close>

text \<open>
  \<open>get_plan\<close> reports \<open>expired\<close> exactly for an intended plan whose deadline has passed;
  every other plan is reported under its stored status, and no writer ever stores \<open>expired\<close>.
\<close>

theorem expired_is_read_never_stored:
  assumes "map_of (plans (plan_writers.run_all ops (no_plans ts))) i = Some r" and "conn_from_config (calm_env t) cfg"
  shows "r ''status'' \<noteq> PStr ''expired'' \<and>
    (\<exists>out. get_plan (calm_env t) cfg i (plan_writers.run_all ops (no_plans ts)) = Inr (Some out) \<and>
       out ''effective_status'' =
         (if r ''status'' = PStr ''intended'' \<and> (\<exists>d. r ''expires_at'' = PDatetime d \<and> instant (as_utc d) < t)
          then PStr ''expired'' else r ''status''))"
proof -
  let ?db = "plan_writers.run_all ops (no_plans ts)"
  have "plan_inv ?db" by (rule plan_writers.run_all_keeps_inv [OF plan_inv_no_plans])
  then have "plan_row_ok r" using assms(1) by (rule plan_inv_row)
  then obtain s where s: "r ''status'' = PStr s" "s \<in> set PLAN_STATUSES"
    using violation_status by (auto simp: plan_row_ok_def)
  then have strip: "strip s = s" "s \<noteq> []" "s \<noteq> ''expired''"
    by (auto simp: PLAN_STATUSES_def strip_def strip_by_def is_space_def py_spaces_def)
  have eff: "plan_effective_status (PStr s) v (Aware t) =
      (if s = ''intended'' \<and> (\<exists>d. v = PDatetime d \<and> instant (as_utc d) < t) then ''expired'' else s)" for v
    by (cases v) (simp_all add: plan_effective_status_def strip_or_empty_def py_or_def strip Let_def)
  have "get_plan (calm_env t) cfg i ?db = Inr (Some (row_out (calm_env t) (joined ?db r)))"
    using assms by (simp add: get_plan_def get_plan_on_def tx_simps)
  with s(1) strip(3) show ?thesis by (simp add: row_out_def joined_def eff)
qed

theorem expired_is_read_never_stored_witness:
  "\<exists>r. map_of (plans intended_db) 1 = Some r \<and> r ''status'' \<noteq> PStr ''expired''"
proof -
  obtain r where r: "map_of (plans intended_db) 1 = Some r" using sample_row [OF sample_status(2)] by blast
  have run: "intended_db = plan_writers.run_all [(calm_env 0, Create pg_cfg sample_payload), (calm_env 1, Intend pg_cfg 1)]
      (no_plans sample_trades)"
    by (simp only: intended_db_def draft_db_def plan_writers.run_all.simps)
  have c: "conn_from_config (calm_env 9) pg_cfg" by code_simp
  from expired_is_read_never_stored [OF r [unfolded run] c] r show ?thesis by blast
qed

section \<open>Legs\<close>

definition leg_of :: "string \<Rightarrow> string \<Rightarrow> string option \<Rightarrow> pyval \<Rightarrow> string option \<Rightarrow> int \<Rightarrow> pyval \<Rightarrow> pyval \<Rightarrow> pyval \<Rightarrow> pydict" where
  "leg_of side sec right strike expiry ratio ck mid asof =
     [(''side'', PStr side), (''sec_type'', PStr sec), (''right'', of_opt right), (''strike'', strike),
      (''expiry'', of_opt expiry), (''ratio'', PInt ratio), (''contract_key'', ck), (''mid_at_plan'', mid), (''quote_asof'', asof)]"

definition float_or_none :: "pyval \<Rightarrow> bool" where
  "float_or_none v \<longleftrightarrow> v = PNone \<or> (\<exists>f. v = PFloat f)"

definition leg_normal :: "string \<Rightarrow> string \<Rightarrow> string option \<Rightarrow> pyval \<Rightarrow> string option \<Rightarrow> int \<Rightarrow> pyval \<Rightarrow> pyval \<Rightarrow> pyval \<Rightarrow> bool" where
  "leg_normal side sec right strike expiry ratio ck mid asof \<longleftrightarrow>
     side \<in> {''buy'', ''sell''} \<and> sec \<in> {''OPT'', ''STK''} \<and> right \<in> {None, Some ''C'', Some ''P''} \<and>
     (sec = ''OPT'' \<longrightarrow> right \<noteq> None \<and> strike \<noteq> PNone \<and> expiry \<noteq> None) \<and>
     (\<forall>e. expiry = Some e \<longrightarrow> strip e = e \<and> e \<noteq> [] \<and> strptime_ymd ''-'' e \<noteq> None) \<and>
     1 \<le> ratio \<and> float_or_none strike \<and> float_or_none mid \<and>
     (ck = PNone \<or> (\<exists>t. ck = PStr t \<and> t \<noteq> [] \<and> strip t = t)) \<and> (asof = PNone \<or> (\<exists>t. asof = PStr t \<and> t \<noteq> []))"

lemma int_str_not_Nil [simp]: "int_str i \<noteq> []"
  by (simp add: int_str_def)

lemma iso_date_not_Nil [simp]: "iso_date d \<noteq> []"
  by (cases d) simp

lemma rat_repr_not_Nil [simp]: "rat_repr q \<noteq> []"
  by (simp add: rat_repr_def Let_def)

lemma float_repr_not_Nil [simp]: "float_repr f \<noteq> []"
  by (cases f) simp_all

lemma py_str_truthy: "truthy v \<Longrightarrow> py_str v \<noteq> []"
  by (cases v rule: truthy.cases) simp_all

lemma opt_float_ok: "opt_float v = Inr w \<Longrightarrow> float_or_none w \<and> (w = PNone \<longleftrightarrow> v = PNone)"
  by (auto simp: opt_float_def float_or_none_def split: if_splits sum.splits)

lemma opt_float_normal: "float_or_none v \<Longrightarrow> opt_float v = Inr v"
  by (auto simp: float_or_none_def opt_float_def)

lemma strptime_Nil: "strptime_ymd ''-'' [] = None"
  by code_simp

lemma short_words [simp]:
  "opt_text (PStr ''C'') = Some ''C''" "opt_text (PStr ''P'') = Some ''P''" "opt_text PNone = None"
  "upper ''C'' = ''C''" "upper ''P'' = ''P''"
  "lower (strip_or_empty (PStr ''buy'')) = ''buy''" "lower (strip_or_empty (PStr ''sell'')) = ''sell''"
  "upper (strip_or_empty (PStr ''OPT'')) = ''OPT''" "upper (strip_or_empty (PStr ''STK'')) = ''STK''"
  by code_simp+

lemma leg_normal_right:
  "right \<in> {None, Some ''C'', Some ''P''} \<Longrightarrow> map_option upper (opt_text (of_opt right)) = right"
  by auto

lemma guard_Inr: "(if P then Inl e else x) = Inr y \<longleftrightarrow> \<not> P \<and> x = Inr y"
  by simp

lemma normalize_leg_normal:
  assumes "normalize_leg i raw = Inr leg"
  shows "\<exists>side sec right strike expiry ratio ck mid asof. leg = leg_of side sec right strike expiry ratio ck mid asof \<and>
           leg_normal side sec right strike expiry ratio ck mid asof"
proof -
  from assms obtain d where raw: "raw = PDict d" by (cases raw) (auto simp: normalize_leg_def)
  let ?side = "lower (strip_or_empty (dget d ''side''))" and ?sec = "upper (strip_or_empty (dget d ''sec_type''))"
  let ?right = "map_option upper (opt_text (dget d ''right''))" and ?expiry = "opt_text (dget d ''expiry'')"
  let ?ck = "let ck = dget d ''contract_key'' in if truthy ck \<and> strip (py_str ck) \<noteq> [] then PStr (strip (py_str ck)) else PNone"
  let ?asof = "let q = dget d ''quote_asof'' in if truthy q then PStr (py_str q) else PNone"
  from assms obtain ratio strike mid where
    g: "\<not> ?side \<notin> {''buy'', ''sell''}" "\<not> ?sec \<notin> {''OPT'', ''STK''}" "\<not> ?right \<notin> {None, Some ''C'', Some ''P''}" and
    c: "\<not> (?sec = ''OPT'' \<and> (?right = None \<or> dget d ''strike'' = PNone \<or> ?expiry = None))"
      "\<not> (?expiry \<noteq> None \<and> strptime_ymd ''-'' (the ?expiry) = None)"
      "leg_ratio (dget d ''ratio'') (''leg '' @ nat_str (i + 1) @ '': '') = Inr ratio"
      "opt_float (dget d ''strike'') = Inr strike" "opt_float (dget d ''mid_at_plan'') = Inr mid"
    and leg: "leg = leg_of ?side ?sec ?right strike ?expiry ratio ?ck mid ?asof"
    unfolding raw normalize_leg_def Let_def leg_of_def pyval.case guard_Inr ebind_Inr_iff sum.inject
    by (elim conjE exE) (rule that [unfolded Let_def leg_of_def], assumption+, erule sym)
  have "1 \<le> ratio" using c(3) by (auto simp: leg_ratio_def split: sum.splits conv_err.splits if_splits)
  moreover have "\<forall>e. ?expiry = Some e \<longrightarrow> strip e = e \<and> e \<noteq> [] \<and> strptime_ymd ''-'' e \<noteq> None"
    using c(2) strptime_Nil by (auto simp: opt_text_def split: if_splits)
  moreover have "?ck = PNone \<or> (\<exists>t. ?ck = PStr t \<and> t \<noteq> [] \<and> strip t = t)" by (simp add: Let_def)
  moreover have "?asof = PNone \<or> (\<exists>t. ?asof = PStr t \<and> t \<noteq> [])" by (simp add: Let_def py_str_truthy)
  moreover have "?sec = ''OPT'' \<longrightarrow> ?right \<noteq> None \<and> strike \<noteq> PNone \<and> ?expiry \<noteq> None"
    using c(1) opt_float_ok [OF c(4)] by simp
  ultimately have "leg_normal ?side ?sec ?right strike ?expiry ratio ?ck mid ?asof"
    unfolding leg_normal_def using g opt_float_ok [OF c(4)] opt_float_ok [OF c(5)] by blast
  with leg show ?thesis by blast
qed

lemma word_normal:
  "s \<in> {''buy'', ''sell''} \<Longrightarrow> lower (strip_or_empty (PStr s)) = s"
  "s \<in> {''OPT'', ''STK''} \<Longrightarrow> upper (strip_or_empty (PStr s)) = s"
  by auto

lemma leg_of_get:
  "dget (leg_of side sec right strike expiry ratio ck mid asof) ''side'' = PStr side"
  "dget (leg_of side sec right strike expiry ratio ck mid asof) ''sec_type'' = PStr sec"
  "dget (leg_of side sec right strike expiry ratio ck mid asof) ''right'' = of_opt right"
  "dget (leg_of side sec right strike expiry ratio ck mid asof) ''strike'' = strike"
  "dget (leg_of side sec right strike expiry ratio ck mid asof) ''expiry'' = of_opt expiry"
  "dget (leg_of side sec right strike expiry ratio ck mid asof) ''ratio'' = PInt ratio"
  "dget (leg_of side sec right strike expiry ratio ck mid asof) ''contract_key'' = ck"
  "dget (leg_of side sec right strike expiry ratio ck mid asof) ''mid_at_plan'' = mid"
  "dget (leg_of side sec right strike expiry ratio ck mid asof) ''quote_asof'' = asof"
  by (simp_all add: leg_of_def dget_def)

lemma normalize_leg_fixpoint:
  assumes "leg_normal side sec right strike expiry ratio ck mid asof"
  shows "normalize_leg j (PDict (leg_of side sec right strike expiry ratio ck mid asof))
           = Inr (leg_of side sec right strike expiry ratio ck mid asof)"
proof -
  from assms [unfolded leg_normal_def] have
    g: "side \<in> {''buy'', ''sell''}" "sec \<in> {''OPT'', ''STK''}" "right \<in> {None, Some ''C'', Some ''P''}" and
    opt: "sec = ''OPT'' \<longrightarrow> right \<noteq> None \<and> strike \<noteq> PNone \<and> expiry \<noteq> None" and
    ex: "\<forall>e. expiry = Some e \<longrightarrow> strip e = e \<and> e \<noteq> [] \<and> strptime_ymd ''-'' e \<noteq> None" and
    nums: "1 \<le> ratio" "float_or_none strike" "float_or_none mid" and
    texts: "ck = PNone \<or> (\<exists>t. ck = PStr t \<and> t \<noteq> [] \<and> strip t = t)" "asof = PNone \<or> (\<exists>t. asof = PStr t \<and> t \<noteq> [])"
    by - (elim conjE, assumption)+
  have no: "(sec = ''OPT'' \<and> (right = None \<or> strike = PNone \<or> expiry = None)) = False"
    "(expiry \<noteq> None \<and> strptime_ymd ''-'' (the expiry) = None) = False"
    using opt ex by (meson, cases expiry) simp_all
  have "opt_text (of_opt expiry) = expiry" using ex by (cases expiry) (simp_all add: opt_text_def)
  moreover have "leg_ratio (PInt ratio) pre = Inr ratio" for pre using nums(1) by (simp add: leg_ratio_def)
  ultimately have e: "lower (strip_or_empty (PStr side)) = side" "upper (strip_or_empty (PStr sec)) = sec"
    "map_option upper (opt_text (of_opt right)) = right" "opt_text (of_opt expiry) = expiry"
    "opt_float strike = Inr strike" "opt_float mid = Inr mid" "\<And>pre. leg_ratio (PInt ratio) pre = Inr ratio"
    using word_normal(1) [OF g(1)] word_normal(2) [OF g(2)] leg_normal_right [OF g(3)] nums(2,3)
    by (simp_all only: opt_float_normal)
  have ck: "(if truthy ck \<and> strip (py_str ck) \<noteq> [] then PStr (strip (py_str ck)) else PNone) = ck"
    and asof: "(if truthy asof then PStr (py_str asof) else PNone) = asof"
    using texts by auto
  show ?thesis
    unfolding normalize_leg_def Let_def pyval.case leg_of_get e ck asof
    by (simp only: g no not_True_eq_False if_False ebind_Inr_iff guard_Inr leg_of_def) simp
qed

text \<open>
  A leg the normaliser has accepted is in normal form: sent back, at any position, it is
  accepted again and unchanged.
\<close>

theorem normalize_leg_idempotent:
  assumes "normalize_leg i raw = Inr leg"
  shows "normalize_leg j (PDict leg) = Inr leg"
  using normalize_leg_normal [OF assms] normalize_leg_fixpoint by blast

theorem normalize_leg_idempotent_witness:
  "\<exists>leg. normalize_leg 0 (PDict sample_leg) = Inr leg \<and> dget leg ''side'' = PStr ''sell'' \<and>
     normalize_leg 4 (PDict leg) = Inr leg"
proof -
  let ?leg = "leg_of ''sell'' ''OPT'' (Some ''P'') (PFloat (Fin 95)) (Some ''2026-03-20'') 2 PNone PNone PNone"
  have "normalize_leg 0 (PDict sample_leg) = Inr ?leg" by code_simp
  with normalize_leg_idempotent [OF this] show ?thesis by (blast intro: leg_of_get)
qed

end
