(* ===== verification/Desk_Rules.thy ===== *)
theory Desk_Rules
  imports Write_Support
begin

text \<open>
  The Desk's rule objects: opportunities, allocations with their memberships, gate sets, and the
  settings row that names the ones the daemon loads (\<open>monitor/reader/strategy_opportunity_write.py\<close>,
  \<open>strategy_allocation_write.py\<close>, \<open>strategy_rules_delete.py\<close>, \<open>settings.py\<close>; foreign keys
  from \<open>persistence/postgres/ddl.py\<close> and \<open>trade_ddl.py\<close>).

  Of a gate set and a structure only the id matters here. Timestamps are not kept. A statement
  checks the foreign keys and CHECKs of the rows it writes; type errors of a column are among the
  exceptions the environment may raise.
\<close>

section \<open>Tables\<close>

record opp_row =
  op_name :: string
  op_structure :: int
  op_gate :: "int option"
  op_scope :: "string option"
  op_active :: bool
  op_symbols :: "string list"
  op_conditions :: "pydict list"

record alloc_row =
  al_name :: string
  al_gate :: "int option"
  al_max_positions :: "int option"
  al_max_bp :: "rat option"
  al_active :: bool

record setting_row =
  st_ib_host :: "string option"
  st_stream_host :: "string option"
  st_stream_secondary :: "string option"
  st_structure :: "int option"
  st_gate :: "int option"
  st_alloc :: "int option"

text \<open>\<open>members\<close> is the junction (allocation, opportunity, sort order); \<open>rule_trades\<close> and
  \<open>plan_rules\<close> are the columns of \<open>trade\<close> and \<open>strategy_plan\<close> that point at an opportunity.\<close>

record desk_db =
  opps :: "(int \<times> opp_row) list"
  next_opp :: int
  allocs :: "(int \<times> alloc_row) list"
  next_alloc :: int
  members :: "(int \<times> int \<times> int) list"
  gates :: "int list"
  structures :: "int list"
  rule_trades :: "(int \<times> int) list"
  plan_rules :: "(int \<times> int option) list"
  settings :: "setting_row option"

definition refers :: "int option \<Rightarrow> int list \<Rightarrow> bool" where
  "refers ref ids \<longleftrightarrow> (case ref of None \<Rightarrow> True | Some i \<Rightarrow> i \<in> set ids)"

definition SCOPE_TYPES :: "string list" where
  "SCOPE_TYPES = [''watchlist_stk'', ''explicit_symbols'']"

definition opp_violation :: "desk_db \<Rightarrow> opp_row \<Rightarrow> exc option" where
  "opp_violation db r =
     (if \<not> (case op_scope r of None \<Rightarrow> True | Some s \<Rightarrow> s \<in> set SCOPE_TYPES)
      then Some (CheckViolation (None, Some ''strategy_opportunity_scope_type_ck''))
      else if op_structure r \<notin> set (structures db)
      then Some (ForeignKeyViolation (None, Some ''strategy_opportunity_strategy_structure_id_fkey''))
      else if \<not> refers (op_gate r) (gates db)
      then Some (ForeignKeyViolation (None, Some ''strategy_opportunity_default_gate_safety_strategy_id_fkey''))
      else None)"

definition alloc_violation :: "desk_db \<Rightarrow> alloc_row \<Rightarrow> exc option" where
  "alloc_violation db r =
     (if \<not> refers (al_gate r) (gates db)
      then Some (ForeignKeyViolation (None, Some ''strategy_allocation_gate_safety_strategy_id_fkey'')) else None)"

definition settings_violation :: "desk_db \<Rightarrow> setting_row \<Rightarrow> exc option" where
  "settings_violation db r =
     (if \<not> refers (st_structure r) (structures db)
      then Some (ForeignKeyViolation (None, Some ''settings_active_strategy_structure_fk''))
      else if \<not> refers (st_gate r) (gates db)
      then Some (ForeignKeyViolation (None, Some ''settings_active_gate_safety_strategy_fk''))
      else if \<not> refers (st_alloc r) (map fst (allocs db))
      then Some (ForeignKeyViolation (None, Some ''settings_active_strategy_allocation_fk''))
      else None)"

section \<open>Statements\<close>

definition insert_opp :: "opp_row \<Rightarrow> (desk_db, int) tx" where
  "insert_opp r = stmt (\<lambda>db. checked (opp_violation db r)
     (next_opp db, db\<lparr>opps := opps db @ [(next_opp db, r)], next_opp := next_opp db + 1\<rparr>))"

definition update_opp :: "int \<Rightarrow> (opp_row \<Rightarrow> opp_row) \<Rightarrow> (desk_db, int) tx" where
  "update_opp oid f = stmt (\<lambda>db. case map_of (opps db) oid of
       None \<Rightarrow> Inr (0, db)
     | Some r \<Rightarrow> checked (opp_violation db (f r)) (1, db\<lparr>opps := put_assoc oid (f r) (opps db)\<rparr>))"

definition insert_alloc :: "alloc_row \<Rightarrow> (desk_db, int) tx" where
  "insert_alloc r = stmt (\<lambda>db. checked (alloc_violation db r)
     (next_alloc db, db\<lparr>allocs := allocs db @ [(next_alloc db, r)], next_alloc := next_alloc db + 1\<rparr>))"

definition update_alloc :: "int \<Rightarrow> (alloc_row \<Rightarrow> alloc_row) \<Rightarrow> (desk_db, int) tx" where
  "update_alloc aid f = stmt (\<lambda>db. case map_of (allocs db) aid of
       None \<Rightarrow> Inr (0, db)
     | Some r \<Rightarrow> checked (alloc_violation db (f r)) (1, db\<lparr>allocs := put_assoc aid (f r) (allocs db)\<rparr>))"

definition clear_members :: "int \<Rightarrow> (desk_db, unit) tx" where
  "clear_members aid = update (\<lambda>db. db\<lparr>members := filter (\<lambda>m. fst m \<noteq> aid) (members db)\<rparr>)"

definition member_fk :: "desk_db \<Rightarrow> int \<Rightarrow> int \<Rightarrow> exc option" where
  "member_fk db aid oid =
     (if map_of (allocs db) aid = None
      then Some (ForeignKeyViolation (None, Some ''strategy_allocation_opportunity_strategy_allocation_id_fkey''))
      else if map_of (opps db) oid = None
      then Some (ForeignKeyViolation (None, Some ''strategy_allocation_opportunity_strategy_opportunity_id_fkey''))
      else None)"

definition is_member :: "desk_db \<Rightarrow> int \<Rightarrow> int \<Rightarrow> bool" where
  "is_member db aid oid \<longleftrightarrow> list_ex (\<lambda>(a, b, i). a = aid \<and> b = oid) (members db)"

text \<open>\<open>INSERT \<dots> ON CONFLICT DO UPDATE SET sort_order\<close> and the plain \<open>INSERT\<close>.\<close>

definition put_member :: "int \<Rightarrow> nat \<times> int \<Rightarrow> (desk_db, unit) tx" where
  "put_member aid io = stmt (\<lambda>db. case io of (i, oid) \<Rightarrow> checked (member_fk db aid oid)
     ((), if is_member db aid oid
          then db\<lparr>members := map (\<lambda>(a, b, j). if a = aid \<and> b = oid then (a, b, int i) else (a, b, j)) (members db)\<rparr>
          else db\<lparr>members := members db @ [(aid, oid, int i)]\<rparr>))"

definition add_member :: "int \<Rightarrow> nat \<times> int \<Rightarrow> (desk_db, unit) tx" where
  "add_member aid io = stmt (\<lambda>db. case io of (i, oid) \<Rightarrow>
     if is_member db aid oid then Inl (UniqueViolation (None, Some ''strategy_allocation_opportunity_pkey''))
     else checked (member_fk db aid oid) ((), db\<lparr>members := members db @ [(aid, oid, int i)]\<rparr>))"

text \<open>
  The three DELETEs. An opportunity: RESTRICT from \<open>trade\<close>, CASCADE to the junction, SET NULL in
  \<open>strategy_plan\<close>. An allocation: CASCADE to the junction, SET NULL in \<open>settings\<close>. A gate set:
  no action from opportunities and allocations, SET NULL in \<open>settings\<close>.
\<close>

definition delete_opp_row :: "int \<Rightarrow> (desk_db, int) tx" where
  "delete_opp_row oid = stmt (\<lambda>db.
     if oid \<in> snd ` set (rule_trades db) then Inl (ForeignKeyViolation (None, Some ''trade_strategy_opportunity_id_fkey''))
     else Inr (if map_of (opps db) oid = None then 0 else 1,
       db\<lparr>opps := filter (\<lambda>(i, r). i \<noteq> oid) (opps db), members := filter (\<lambda>(a, b, i). b \<noteq> oid) (members db),
          plan_rules := map (\<lambda>(p, l). (p, if l = Some oid then None else l)) (plan_rules db)\<rparr>))"

definition delete_alloc_row :: "int \<Rightarrow> (desk_db, int) tx" where
  "delete_alloc_row aid = stmt (\<lambda>db.
     Inr (if map_of (allocs db) aid = None then 0 else 1,
       db\<lparr>allocs := filter (\<lambda>(i, r). i \<noteq> aid) (allocs db), members := filter (\<lambda>(a, b, i). a \<noteq> aid) (members db),
          settings := map_option (\<lambda>s. if st_alloc s = Some aid then s\<lparr>st_alloc := None\<rparr> else s) (settings db)\<rparr>))"

definition opps_with_gate :: "int \<Rightarrow> desk_db \<Rightarrow> nat" where
  "opps_with_gate g db = length (filter (\<lambda>(i, r). op_gate r = Some g) (opps db))"

definition allocs_with_gate :: "int \<Rightarrow> desk_db \<Rightarrow> nat" where
  "allocs_with_gate g db = length (filter (\<lambda>(i, r). al_gate r = Some g) (allocs db))"

definition delete_gate_row :: "int \<Rightarrow> (desk_db, int) tx" where
  "delete_gate_row g = stmt (\<lambda>db.
     if opps_with_gate g db > 0
     then Inl (ForeignKeyViolation (None, Some ''strategy_opportunity_default_gate_safety_strategy_id_fkey''))
     else if allocs_with_gate g db > 0
     then Inl (ForeignKeyViolation (None, Some ''strategy_allocation_gate_safety_strategy_id_fkey''))
     else Inr (if g \<in> set (gates db) then 1 else 0,
       db\<lparr>gates := filter (\<lambda>i. i \<noteq> g) (gates db),
          settings := map_option (\<lambda>s. if st_gate s = Some g then s\<lparr>st_gate := None\<rparr> else s) (settings db)\<rparr>))"

section \<open>Opportunities\<close>

text \<open>\<open>(payload.get("name") or "").strip()\<close>.\<close>

definition name_arg :: "pyval \<Rightarrow> exc + string" where
  "name_arg v = (case py_or v (PStr []) of PStr s \<Rightarrow> Inr (strip s) | _ \<Rightarrow> Inl (OtherExc ''AttributeError''))"

definition active_arg :: "pyval \<Rightarrow> bool" where
  "active_arg v = (v = PNone \<or> truthy v)"

definition structure_arg :: "pyval \<Rightarrow> exc + int" where
  "structure_arg v = (if v = PNone then Inl (PyErr ValueErr)
     else case py_int v of Inl OverflowErr \<Rightarrow> Inl (PyErr OverflowErr) | Inl _ \<Rightarrow> Inl (PyErr ValueErr) | Inr i \<Rightarrow> Inr i)"

definition normalize_symbols :: "pyval \<Rightarrow> string list" where
  "normalize_symbols v = (case v of
       PList xs \<Rightarrow> filter (\<lambda>s. s \<noteq> []) (map (\<lambda>x. strip (py_str x)) (filter (\<lambda>x. x \<noteq> PNone) xs))
     | _ \<Rightarrow> [])"

fun normalize_conditions_from :: "nat \<Rightarrow> pyval list \<Rightarrow> exc + pydict list" where
  "normalize_conditions_from i [] = Inr []"
| "normalize_conditions_from i (x # xs) =
     (case x of
        PDict d \<Rightarrow>
          (let ct = strip (py_str (py_or (dget d ''condition_type'') (PStr [])))
           in if \<not> truthy (dget d ''condition_type'') \<or> ct = [] then normalize_conditions_from (i + 1) xs
              else ebind (opt_float (dget d ''value_numeric'')) (\<lambda>n.
                   ebind (normalize_conditions_from (i + 1) xs) (\<lambda>rest.
                   Inr ([(''condition_type'', PStr ct), (''value_text'', dget d ''value_text''), (''value_numeric'', n),
                         (''sort_order'', PInt (int i))] # rest))))
      | _ \<Rightarrow> normalize_conditions_from (i + 1) xs)"

definition normalize_entry_conditions :: "pyval \<Rightarrow> exc + pydict list" where
  "normalize_entry_conditions v = (case v of PList xs \<Rightarrow> normalize_conditions_from 0 xs | _ \<Rightarrow> Inr [])"

definition normalize_scope_type :: "pyval \<Rightarrow> exc + string option" where
  "normalize_scope_type v = (case v of
       PNone \<Rightarrow> Inr None
     | PStr s \<Rightarrow>
         (let t = strip s
          in if t = [] then Inr None
             else if t \<notin> set SCOPE_TYPES
             then invalid (''scope_type must be one of '' @ join '', '' SCOPE_TYPES @ '' (or null), not '' @ [CHR 0x27] @ t @ [CHR 0x27] @ ''.'')
             else Inr (Some t))
     | _ \<Rightarrow> invalid ''scope_type must be text or null.'')"

definition check_scope_symbols :: "string option \<Rightarrow> string list \<Rightarrow> exc + unit" where
  "check_scope_symbols scope syms =
     (if scope = Some ''watchlist_stk'' \<and> syms = [] then invalid ''scope_type watchlist_stk needs at least one symbol.''
      else Inr ())"

text \<open>The arguments create and update validate alike, in their order.\<close>

definition opp_args :: "pydict \<Rightarrow> exc + (string \<times> int \<times> int option \<times> string option)" where
  "opp_args p = ebind (name_arg (dget p ''name'')) (\<lambda>name.
     if name = [] then Inl (PyErr ValueErr)
     else ebind (structure_arg (dget p ''strategy_structure_id'')) (\<lambda>sid.
          ebind (row_id (dget p ''default_gate_safety_strategy_id'') ''default_gate_safety_strategy_id'' True) (\<lambda>gate.
          ebind (normalize_scope_type (dget p ''scope_type'')) (\<lambda>scope. Inr (name, sid, gate, scope)))))"

definition create_opp_row :: "pydict \<Rightarrow> exc + opp_row" where
  "create_opp_row p = ebind (opp_args p) (\<lambda>(name, sid, gate, scope).
     (let syms = normalize_symbols (dget p ''symbols'')
      in ebind (check_scope_symbols scope syms) (\<lambda>_.
         ebind (normalize_entry_conditions (dget p ''entry_conditions'')) (\<lambda>conds.
         Inr \<lparr>op_name = name, op_structure = sid, op_gate = gate, op_scope = scope,
              op_active = active_arg (dget p ''is_active''), op_symbols = syms, op_conditions = conds\<rparr>))))"

definition create_opportunity :: "env \<Rightarrow> pydict option \<Rightarrow> pydict \<Rightarrow> desk_db \<Rightarrow> (exc + int option) \<times> desk_db" where
  "create_opportunity env cfg p db = (case create_opp_row p of
       Inl e \<Rightarrow> (Inl e, db)
     | Inr r \<Rightarrow>
         if \<not> conn_from_config env cfg then (Inr None, db)
         else swallowing is_value_error None
                (legacy_transaction (tx_bind (insert_opp r) (\<lambda>oid. tx_return (True, Some oid))) env db))"

definition update_opp_args :: "pydict \<Rightarrow>
    exc + ((string \<times> int \<times> int option \<times> string option) \<times> string list option \<times> pydict list option)" where
  "update_opp_args p = ebind (opp_args p) (\<lambda>args.
     ebind (sent_field p ''entry_conditions'' normalize_entry_conditions) (\<lambda>conds.
     Inr (args, (if dhas p ''symbols'' then Some (normalize_symbols (dget p ''symbols'')) else None), conds)))"

definition update_opp_body :: "int \<Rightarrow> (string \<times> int \<times> int option \<times> string option) \<Rightarrow> bool \<Rightarrow> string list option \<Rightarrow>
    pydict list option \<Rightarrow> (desk_db, bool \<times> bool) tx" where
  "update_opp_body oid args active syms conds = (case args of (name, sid, gate, scope) \<Rightarrow>
     tx_bind (update_opp oid (\<lambda>r. r\<lparr>op_name := name, op_structure := sid, op_gate := gate, op_scope := scope,
        op_active := active\<rparr>)) (\<lambda>n.
     if n = 0 then tx_return (False, False)
     else tx_bind (if syms = None \<or> conds = None then query (\<lambda>db. map_of (opps db) oid) else tx_return None) (\<lambda>existing.
       (let syms' = (case syms of Some s \<Rightarrow> s | None \<Rightarrow> (case existing of Some r \<Rightarrow> op_symbols r | None \<Rightarrow> []));
            conds' = (case conds of Some c \<Rightarrow> c | None \<Rightarrow> (case existing of Some r \<Rightarrow> op_conditions r | None \<Rightarrow> []))
        in case check_scope_symbols scope syms' of
             Inl e \<Rightarrow> tx_raise e
           | Inr _ \<Rightarrow> tx_bind (update_opp oid (\<lambda>r. r\<lparr>op_symbols := syms', op_conditions := conds'\<rparr>))
                        (\<lambda>_. tx_return (True, True))))))"

definition update_opportunity :: "env \<Rightarrow> pydict option \<Rightarrow> int \<Rightarrow> pydict \<Rightarrow> desk_db \<Rightarrow> (exc + bool) \<times> desk_db" where
  "update_opportunity env cfg oid p db = (case update_opp_args p of
       Inl e \<Rightarrow> (Inl e, db)
     | Inr (args, syms, conds) \<Rightarrow>
         if \<not> conn_from_config env cfg then (Inr False, db)
         else swallowing is_value_error False
                (legacy_transaction (update_opp_body oid args (active_arg (dget p ''is_active'')) syms conds) env db))"

definition OPPORTUNITY_PATCHABLE :: "string list" where
  "OPPORTUNITY_PATCHABLE = [''name'', ''strategy_structure_id'', ''default_gate_safety_strategy_id'', ''scope_type'',
     ''is_active'', ''symbols'', ''entry_conditions'']"

fun patch_symbols_from :: "nat \<Rightarrow> pyval list \<Rightarrow> exc + string list" where
  "patch_symbols_from i [] = Inr []"
| "patch_symbols_from i (x # xs) =
     ebind (text_value x (''symbols['' @ nat_str i @ '']'') False None) (\<lambda>t.
     ebind (patch_symbols_from (i + 1) xs) (\<lambda>ts. Inr (the t # ts)))"

definition patch_symbols :: "pyval \<Rightarrow> exc + string list" where
  "patch_symbols v = ebind (list_value v ''symbols'') (patch_symbols_from 0)"

definition CONDITION_KEYS :: "string list" where
  "CONDITION_KEYS = [''condition_type'', ''value_text'', ''value_numeric'', ''sort_order'']"

definition patch_condition :: "nat \<Rightarrow> pyval \<Rightarrow> exc + pydict" where
  "patch_condition i x =
     (let label = ''entry_conditions['' @ nat_str i @ '']''
      in case x of
           PDict d \<Rightarrow>
             (let unknown = sort (filter (\<lambda>k. k \<notin> set CONDITION_KEYS) (map fst d)); vt = dget d ''value_text''
              in if unknown \<noteq> [] then invalid (label @ '': unknown field '' @ join '', '' unknown @ ''.'')
                 else if \<not> (vt = PNone \<or> (case vt of PStr _ \<Rightarrow> True | _ \<Rightarrow> False))
                 then invalid (label @ ''.value_text must be text or null.'')
                 else ebind (text_value (dget d ''condition_type'') (label @ ''.condition_type'') False None) (\<lambda>ct.
                      ebind (number (dget d ''value_numeric'') (label @ ''.value_numeric'') True None) (\<lambda>n.
                      Inr [(''condition_type'', PStr (the ct)), (''value_text'', vt),
                           (''value_numeric'', (case n of None \<Rightarrow> PNone | Some q \<Rightarrow> PFloat (Fin q))),
                           (''sort_order'', PInt (int i))])))
         | _ \<Rightarrow> invalid (label @ '' must be an object.''))"

fun patch_conditions_from :: "nat \<Rightarrow> pyval list \<Rightarrow> exc + pydict list" where
  "patch_conditions_from i [] = Inr []"
| "patch_conditions_from i (x # xs) =
     ebind (patch_condition i x) (\<lambda>c. ebind (patch_conditions_from (i + 1) xs) (\<lambda>cs. Inr (c # cs)))"

definition patch_entry_conditions :: "pyval \<Rightarrow> exc + pydict list" where
  "patch_entry_conditions v = ebind (list_value v ''entry_conditions'') (patch_conditions_from 0)"

text \<open>\<open>SET\<close> of the columns the client sent, each validated in the order of the code.\<close>

definition sent :: "'a option \<Rightarrow> 'a \<Rightarrow> 'a" where
  "sent v dflt = (case v of Some x \<Rightarrow> x | None \<Rightarrow> dflt)"

definition required :: "exc + 'a option \<Rightarrow> exc + 'a" where
  "required v = ebind v (\<lambda>x. Inr (the x))"

definition patch_opp_columns :: "pydict \<Rightarrow> exc + (opp_row \<Rightarrow> opp_row)" where
  "patch_opp_columns fs =
     ebind (sent_field fs ''name'' (\<lambda>v. required (text_value v ''name'' False None))) (\<lambda>name.
     ebind (sent_field fs ''strategy_structure_id'' (\<lambda>v. required (row_id v ''strategy_structure_id'' False))) (\<lambda>sid.
     ebind (sent_field fs ''default_gate_safety_strategy_id''
        (\<lambda>v. row_id v ''default_gate_safety_strategy_id'' True)) (\<lambda>gate.
     ebind (sent_field fs ''scope_type'' normalize_scope_type) (\<lambda>scope.
     ebind (sent_field fs ''is_active'' (\<lambda>v. boolean v ''is_active'')) (\<lambda>active.
     ebind (sent_field fs ''symbols'' patch_symbols) (\<lambda>syms.
     ebind (sent_field fs ''entry_conditions'' patch_entry_conditions) (\<lambda>conds.
     Inr (\<lambda>r. r\<lparr>op_name := sent name (op_name r), op_structure := sent sid (op_structure r),
               op_gate := sent gate (op_gate r), op_scope := sent scope (op_scope r),
               op_active := sent active (op_active r), op_symbols := sent syms (op_symbols r),
               op_conditions := sent conds (op_conditions r)\<rparr>))))))))"

definition patch_opp_body :: "int \<Rightarrow> bool \<Rightarrow> (opp_row \<Rightarrow> opp_row) \<Rightarrow> (desk_db, opp_row) tx" where
  "patch_opp_body oid scoped f =
     tx_bind (update_opp oid f) (\<lambda>n.
     if n = 0 then tx_raise (Write (NotFound (''No opportunity '' @ int_str oid @ ''.'')))
     else tx_bind (if scoped then query (\<lambda>db. map_of (opps db) oid) else tx_return None) (\<lambda>merged.
       case (case merged of None \<Rightarrow> Inr () | Some r \<Rightarrow> check_scope_symbols (op_scope r) (op_symbols r)) of
         Inl e \<Rightarrow> tx_raise e
       | Inr _ \<Rightarrow> tx_bind (try_query (\<lambda>db. map_of (opps db) oid)) (\<lambda>row. case row of
             None \<Rightarrow> tx_raise (Write (Failed (''opportunity '' @ int_str oid
                        @ '' was changed but could not be read back; nothing was saved.'') False))
           | Some r \<Rightarrow> tx_return r)))"

definition patch_opportunity :: "env \<Rightarrow> conn_arg \<Rightarrow> int \<Rightarrow> pyval \<Rightarrow> desk_db \<Rightarrow> (exc + opp_row) \<times> desk_db" where
  "patch_opportunity env arg oid body db =
     (case ebind (check_fields body OPPORTUNITY_PATCHABLE ''opportunity'') (\<lambda>fs.
           ebind (patch_opp_columns fs) (\<lambda>f. Inr (fs, f))) of
        Inl e \<Rightarrow> (Inl e, db)
      | Inr (fs, f) \<Rightarrow> raising (strict_write (''opportunity '' @ int_str oid) FkInvalid
            (patch_opp_body oid (dhas fs ''scope_type'' \<or> dhas fs ''symbols'') f) env arg db))"

section \<open>Allocations\<close>

text \<open>\<open>int(s)\<close> of each item; an item that is not a number is left out.\<close>

fun opportunity_ids_of :: "pyval list \<Rightarrow> exc + int list" where
  "opportunity_ids_of [] = Inr []"
| "opportunity_ids_of (x # xs) = (case py_int x of
       Inl OverflowErr \<Rightarrow> Inl (PyErr OverflowErr)
     | Inl _ \<Rightarrow> opportunity_ids_of xs
     | Inr i \<Rightarrow> ebind (opportunity_ids_of xs) (\<lambda>is. Inr (i # is)))"

definition normalize_opportunity_ids :: "pyval \<Rightarrow> exc + int list" where
  "normalize_opportunity_ids v = (case v of PList xs \<Rightarrow> opportunity_ids_of xs | _ \<Rightarrow> Inr [])"

definition LIMIT_KEYS :: "string list" where
  "LIMIT_KEYS = [''max_positions'', ''max_bp_pct'']"

definition limits_object :: "pyval \<Rightarrow> exc + pydict" where
  "limits_object v = (case v of
       PDict d \<Rightarrow>
         (let unknown = sort (filter (\<lambda>k. k \<notin> set LIMIT_KEYS) (map fst d))
          in if unknown \<noteq> []
             then invalid (''Unknown allocation_limits field: '' @ join '', '' unknown @ ''. Allowed: max_positions, max_bp_pct.'')
             else Inr d)
     | _ \<Rightarrow> invalid ''allocation_limits must be an object with max_positions and/or max_bp_pct.'')"

definition max_positions_arg :: "pyval \<Rightarrow> exc + int option" where
  "max_positions_arg v = integer v ''max_positions'' True (Some 0)"

definition max_bp_arg :: "pyval \<Rightarrow> exc + rat option" where
  "max_bp_arg v = number v ''max_bp_pct'' True (Some 0)"

definition limits_to_scalars :: "pyval \<Rightarrow> exc + (int option \<times> rat option)" where
  "limits_to_scalars v =
     (if v = PNone then Inr (None, None)
      else ebind (limits_object v) (\<lambda>d.
           ebind (max_positions_arg (dget d ''max_positions'')) (\<lambda>mp.
           ebind (max_bp_arg (dget d ''max_bp_pct'')) (\<lambda>bp. Inr (mp, bp)))))"

definition gate_id :: "pydict \<Rightarrow> exc + int option" where
  "gate_id p = row_id (dget p ''gate_safety_strategy_id'') ''gate_safety_strategy_id'' True"

definition create_alloc_args :: "pydict \<Rightarrow> exc + (alloc_row \<times> int list)" where
  "create_alloc_args p = ebind (name_arg (dget p ''name'')) (\<lambda>name.
     if name = [] \<or> \<not> (case dget p ''strategy_opportunity_ids'' of PList _ \<Rightarrow> True | _ \<Rightarrow> False) then Inl (PyErr ValueErr)
     else ebind (normalize_opportunity_ids (dget p ''strategy_opportunity_ids'')) (\<lambda>ids.
          ebind (gate_id p) (\<lambda>gate.
          ebind (limits_to_scalars (dget p ''allocation_limits'')) (\<lambda>(mp, bp).
          Inr (\<lparr>al_name = name, al_gate = gate, al_max_positions = mp, al_max_bp = bp,
                al_active = active_arg (dget p ''is_active'')\<rparr>, ids)))))"

definition create_alloc_body :: "alloc_row \<Rightarrow> int list \<Rightarrow> (desk_db, bool \<times> int option) tx" where
  "create_alloc_body r ids = tx_bind (insert_alloc r) (\<lambda>aid.
     tx_bind (tx_each (put_member aid) (enumerate 0 ids)) (\<lambda>_. tx_return (True, Some aid)))"

definition create_allocation :: "env \<Rightarrow> pydict option \<Rightarrow> pydict \<Rightarrow> desk_db \<Rightarrow> (exc + int option) \<times> desk_db" where
  "create_allocation env cfg p db = (case create_alloc_args p of
       Inl e \<Rightarrow> (Inl e, db)
     | Inr (r, ids) \<Rightarrow>
         if \<not> conn_from_config env cfg then (Inr None, db)
         else swallowing is_value_error None (legacy_transaction (create_alloc_body r ids) env db))"

text \<open>
  The memberships, when sent, and the columns of the UPDATE: the name and the active flag when not
  null, the gate and the limits when sent. None: no column, no UPDATE.
\<close>

definition update_alloc_args :: "pydict \<Rightarrow> exc + (int list option \<times> (alloc_row \<Rightarrow> alloc_row) option)" where
  "update_alloc_args p =
     ebind (if dget p ''name'' = PNone then Inr None
            else ebind (name_arg (dget p ''name'')) (\<lambda>n. if n = [] then Inl (PyErr ValueErr) else Inr (Some n))) (\<lambda>name.
     ebind (sent_field p ''strategy_opportunity_ids'' normalize_opportunity_ids) (\<lambda>ids.
     ebind (gate_id p) (\<lambda>gate.
     ebind (sent_field p ''allocation_limits'' limits_to_scalars) (\<lambda>limits.
     let active = (if dget p ''is_active'' = PNone then None else Some (truthy (dget p ''is_active'')))
     in Inr (ids,
          if name = None \<and> \<not> dhas p ''gate_safety_strategy_id'' \<and> limits = None \<and> active = None then None
          else Some (\<lambda>r. r\<lparr>al_name := sent name (al_name r),
                     al_gate := (if dhas p ''gate_safety_strategy_id'' then gate else al_gate r),
                     al_max_positions := sent (map_option fst limits) (al_max_positions r),
                     al_max_bp := sent (map_option snd limits) (al_max_bp r),
                     al_active := sent active (al_active r)\<rparr>))))))"

definition replace_members :: "(int \<Rightarrow> nat \<times> int \<Rightarrow> (desk_db, unit) tx) \<Rightarrow> int \<Rightarrow> int list option \<Rightarrow> (desk_db, unit) tx" where
  "replace_members put aid ids = (case ids of
       None \<Rightarrow> tx_return ()
     | Some is \<Rightarrow> tx_bind (clear_members aid) (\<lambda>_. tx_each (put aid) (enumerate 0 is)))"

definition update_alloc_body ::
  "int \<Rightarrow> (alloc_row \<Rightarrow> alloc_row) option \<Rightarrow> int list option \<Rightarrow> (desk_db, bool \<times> bool) tx" where
  "update_alloc_body aid f ids =
     tx_bind (case f of None \<Rightarrow> tx_return 1 | Some g \<Rightarrow> update_alloc aid g) (\<lambda>n.
     if n = 0 then tx_return (False, False)
     else tx_bind (replace_members put_member aid ids) (\<lambda>_. tx_return (True, True)))"

definition update_allocation :: "env \<Rightarrow> pydict option \<Rightarrow> int \<Rightarrow> pydict \<Rightarrow> desk_db \<Rightarrow> (exc + bool) \<times> desk_db" where
  "update_allocation env cfg aid p db =
     (if p = [] then (Inr False, db)
      else case update_alloc_args p of
             Inl e \<Rightarrow> (Inl e, db)
           | Inr (ids, f) \<Rightarrow>
               if \<not> conn_from_config env cfg then (Inr False, db)
               else swallowing is_value_error False (legacy_transaction (update_alloc_body aid f ids) env db))"

definition ALLOCATION_PATCHABLE :: "string list" where
  "ALLOCATION_PATCHABLE = [''name'', ''gate_safety_strategy_id'', ''max_positions'', ''max_bp_pct'', ''allocation_limits'',
     ''is_active'', ''strategy_opportunity_ids'']"

fun spread_limits :: "pydict \<Rightarrow> pydict \<Rightarrow> exc + pydict" where
  "spread_limits out [] = Inr out"
| "spread_limits out ((k, v) # limits) =
     (if dhas out k then invalid (k @ '' was sent both on its own and inside allocation_limits; send it once.'')
      else spread_limits (out @ [(k, v)]) limits)"

definition expand_allocation_limits :: "pydict \<Rightarrow> exc + pydict" where
  "expand_allocation_limits fs =
     (if \<not> dhas fs ''allocation_limits'' then Inr fs
      else (let out = filter (\<lambda>(k, v). k \<noteq> ''allocation_limits'') fs; v = dget fs ''allocation_limits''
            in ebind (limits_object (if v = PNone then PDict (map (\<lambda>k. (k, PNone)) LIMIT_KEYS) else v))
                 (spread_limits out)))"

fun patch_ids :: "pyval list \<Rightarrow> exc + int list" where
  "patch_ids [] = Inr []"
| "patch_ids (x # xs) = ebind (required (row_id x ''strategy_opportunity_ids item'' False)) (\<lambda>i.
     ebind (patch_ids xs) (\<lambda>is. Inr (i # is)))"

definition patch_opportunity_ids :: "pyval \<Rightarrow> exc + int list" where
  "patch_opportunity_ids v = ebind (list_value v ''strategy_opportunity_ids'') (\<lambda>xs.
     ebind (patch_ids xs) (\<lambda>ids.
     if length (remdups ids) \<noteq> length ids then invalid ''strategy_opportunity_ids lists an opportunity twice.''
     else Inr ids))"

definition patch_alloc_columns :: "pydict \<Rightarrow> exc + ((alloc_row \<Rightarrow> alloc_row) \<times> int list option)" where
  "patch_alloc_columns fs =
     ebind (sent_field fs ''name'' (\<lambda>v. required (text_value v ''name'' False None))) (\<lambda>name.
     ebind (sent_field fs ''gate_safety_strategy_id'' (\<lambda>v. row_id v ''gate_safety_strategy_id'' True)) (\<lambda>gate.
     ebind (sent_field fs ''max_positions'' max_positions_arg) (\<lambda>mp.
     ebind (sent_field fs ''max_bp_pct'' max_bp_arg) (\<lambda>bp.
     ebind (sent_field fs ''is_active'' (\<lambda>v. boolean v ''is_active'')) (\<lambda>active.
     ebind (sent_field fs ''strategy_opportunity_ids'' patch_opportunity_ids) (\<lambda>ids.
     Inr (\<lambda>r. r\<lparr>al_name := sent name (al_name r), al_gate := sent gate (al_gate r),
               al_max_positions := sent mp (al_max_positions r), al_max_bp := sent bp (al_max_bp r),
               al_active := sent active (al_active r)\<rparr>, ids)))))))"

text \<open>What \<open>get_allocation_by_id\<close> reads: the row and its opportunities \<open>ORDER BY sort_order\<close>.\<close>

definition member_ids :: "desk_db \<Rightarrow> int \<Rightarrow> int list" where
  "member_ids db aid = map (\<lambda>(a, b, i). b) (sort_key (\<lambda>(a, b, i). i) (filter (\<lambda>(a, b, i). a = aid) (members db)))"

definition get_allocation :: "int \<Rightarrow> desk_db \<Rightarrow> (alloc_row \<times> int list) option" where
  "get_allocation aid db = map_option (\<lambda>r. (r, member_ids db aid)) (map_of (allocs db) aid)"

definition patch_alloc_body ::
  "int \<Rightarrow> (alloc_row \<Rightarrow> alloc_row) \<Rightarrow> int list option \<Rightarrow> (desk_db, alloc_row \<times> int list) tx" where
  "patch_alloc_body aid f ids =
     tx_bind (update_alloc aid f) (\<lambda>n.
     if n = 0 then tx_raise (Write (NotFound (''No allocation '' @ int_str aid @ ''.'')))
     else tx_bind (replace_members add_member aid ids) (\<lambda>_.
          tx_bind (try_query (get_allocation aid)) (\<lambda>row. case row of
            None \<Rightarrow> tx_raise (Write (Failed (''allocation '' @ int_str aid
                       @ '' was changed but could not be read back; nothing was saved.'') False))
          | Some r \<Rightarrow> tx_return r)))"

definition patch_allocation :: "env \<Rightarrow> conn_arg \<Rightarrow> int \<Rightarrow> pyval \<Rightarrow> desk_db \<Rightarrow> (exc + (alloc_row \<times> int list)) \<times> desk_db" where
  "patch_allocation env arg aid body db =
     (case ebind (check_fields body ALLOCATION_PATCHABLE ''allocation'') (\<lambda>fs.
           ebind (expand_allocation_limits fs) (\<lambda>fs'.
           if fs' = [] then invalid ''Nothing to change: allocation_limits was empty.'' else patch_alloc_columns fs')) of
        Inl e \<Rightarrow> (Inl e, db)
      | Inr (f, ids) \<Rightarrow> raising (strict_write (''allocation '' @ int_str aid) FkInvalid (patch_alloc_body aid f ids) env arg db))"

section \<open>Deletes\<close>

abbreviation in_use :: "string \<Rightarrow> exc" where
  "in_use msg \<equiv> Write (RuleInUse msg)"

definition check_opportunity :: "int \<Rightarrow> (desk_db, unit) tx" where
  "check_opportunity oid = tx_bind (query (\<lambda>db. int (length (filter (\<lambda>(t, i). i = oid) (rule_trades db))))) (\<lambda>n.
     if n \<noteq> 0 then tx_raise (in_use (''It has '' @ plural n ''trade'' ''trades'' @ ''; a rule with trades stays.''))
     else tx_return ())"

text \<open>The settings row's pointer, None without a row.\<close>

definition daemon_setting :: "(setting_row \<Rightarrow> int option) \<Rightarrow> (desk_db, int option) tx" where
  "daemon_setting col = query (\<lambda>db. case settings db of None \<Rightarrow> None | Some s \<Rightarrow> col s)"

definition check_allocation :: "int \<Rightarrow> (desk_db, unit) tx" where
  "check_allocation aid = tx_bind (daemon_setting st_alloc) (\<lambda>a.
     if a = Some aid then tx_raise (in_use ''The daemon runs this allocation; set another one active first.'')
     else tx_return ())"

definition gate_users :: "int \<Rightarrow> int \<Rightarrow> string list" where
  "gate_users n m = (if n \<noteq> 0 then [plural n ''opportunity'' ''opportunities''] else [])
     @ (if m \<noteq> 0 then [plural m ''allocation'' ''allocations''] else [])"

definition check_gate_safety :: "int \<Rightarrow> (desk_db, unit) tx" where
  "check_gate_safety g =
     tx_bind (query (\<lambda>db. int (opps_with_gate g db))) (\<lambda>n.
     tx_bind (query (\<lambda>db. int (allocs_with_gate g db))) (\<lambda>m.
     tx_bind (if n = 0 \<and> m = 0 then daemon_setting st_gate else tx_return None) (\<lambda>a.
     if a = Some g
     then tx_raise (in_use (''The daemon'' @ [CHR 0x27] @ ''s settings use this gate set; point them at another one first.''))
     else if n \<noteq> 0 \<or> m \<noteq> 0
     then tx_raise (in_use (join '' and '' (gate_users n m) @ '' '' @ (if n + m = 1 then ''uses'' else ''use'')
            @ '' it; point them at another gate set first.''))
     else tx_return ())))"

text \<open>\<open>_delete\<close> and \<open>_delete_strict\<close>, over the three tables: does the row exist, the check, the DELETE.\<close>

definition rule_delete_body :: "(desk_db \<Rightarrow> bool) \<Rightarrow> (desk_db, unit) tx \<Rightarrow> (desk_db, int) tx \<Rightarrow> (desk_db, bool \<times> bool) tx" where
  "rule_delete_body exists check del = tx_bind (query exists) (\<lambda>found.
     if \<not> found then tx_return (False, False)
     else tx_bind check (\<lambda>_. tx_bind del (\<lambda>_. tx_return (True, True))))"

definition rule_delete_strict_body ::
  "string \<Rightarrow> (desk_db \<Rightarrow> bool) \<Rightarrow> (desk_db, unit) tx \<Rightarrow> (desk_db, int) tx \<Rightarrow> (desk_db, unit) tx" where
  "rule_delete_strict_body what exists check del = tx_bind (query exists) (\<lambda>found.
     if \<not> found then tx_raise (Write (NotFound (''No '' @ what @ ''.'')))
     else tx_bind check (\<lambda>_. tx_bind del (\<lambda>n.
          if n = 0 then tx_raise (Write (NotFound (''No '' @ what @ ''.''))) else tx_return ())))"

datatype rule_kind = Opportunity | Allocation | GateSet

fun rule_exists :: "rule_kind \<Rightarrow> int \<Rightarrow> desk_db \<Rightarrow> bool" where
  "rule_exists Opportunity i db = (map_of (opps db) i \<noteq> None)"
| "rule_exists Allocation i db = (map_of (allocs db) i \<noteq> None)"
| "rule_exists GateSet i db = (i \<in> set (gates db))"

fun rule_check :: "rule_kind \<Rightarrow> int \<Rightarrow> (desk_db, unit) tx" where
  "rule_check Opportunity i = check_opportunity i"
| "rule_check Allocation i = check_allocation i"
| "rule_check GateSet i = check_gate_safety i"

fun rule_delete :: "rule_kind \<Rightarrow> int \<Rightarrow> (desk_db, int) tx" where
  "rule_delete Opportunity i = delete_opp_row i"
| "rule_delete Allocation i = delete_alloc_row i"
| "rule_delete GateSet i = delete_gate_row i"

fun rule_noun :: "rule_kind \<Rightarrow> string" where
  "rule_noun Opportunity = ''opportunity''"
| "rule_noun Allocation = ''allocation''"
| "rule_noun GateSet = ''gate set''"

text \<open>\<open>delete_opportunity\<close>, \<open>delete_allocation\<close>, \<open>delete_gate_safety\<close> and their strict forms.\<close>

definition delete_rule :: "env \<Rightarrow> pydict option \<Rightarrow> rule_kind \<Rightarrow> int \<Rightarrow> desk_db \<Rightarrow> (exc + bool) \<times> desk_db" where
  "delete_rule env cfg k i db =
     (if \<not> conn_from_config env cfg then (Inr False, db)
      else legacy_transaction (rule_delete_body (rule_exists k i) (rule_check k i) (rule_delete k i)) env db)"

definition delete_rule_strict :: "env \<Rightarrow> conn_arg \<Rightarrow> rule_kind \<Rightarrow> int \<Rightarrow> desk_db \<Rightarrow> (exc + unit) \<times> desk_db" where
  "delete_rule_strict env arg k i db =
     (let what = rule_noun k @ '' '' @ int_str i
      in raising (strict_write what FkConflict
           (rule_delete_strict_body what (rule_exists k i) (rule_check k i) (rule_delete k i)) env arg db))"

section \<open>The settings row\<close>

definition exists_ref :: "int option \<Rightarrow> (desk_db \<Rightarrow> int list) \<Rightarrow> (desk_db, unit) tx" where
  "exists_ref ref ids = (case ref of
       None \<Rightarrow> tx_return ()
     | Some i \<Rightarrow> tx_bind (query (\<lambda>db. i \<in> set (ids db))) (\<lambda>ok.
         if ok then tx_return () else tx_raise (PyErr ValueErr)))"

definition validate_settings_active_refs :: "int option \<Rightarrow> int option \<Rightarrow> int option \<Rightarrow> (desk_db, unit) tx" where
  "validate_settings_active_refs gate struct alloc =
     tx_bind (exists_ref gate gates) (\<lambda>_. tx_bind (exists_ref struct structures) (\<lambda>_.
     exists_ref alloc (\<lambda>db. map fst (allocs db))))"

definition update_settings :: "(setting_row \<Rightarrow> setting_row) \<Rightarrow> (desk_db, int) tx" where
  "update_settings f = stmt (\<lambda>db. case settings db of
       None \<Rightarrow> Inr (0, db)
     | Some s \<Rightarrow> checked (settings_violation db (f s)) (1, db\<lparr>settings := Some (f s)\<rparr>))"

definition only_when :: "bool \<Rightarrow> 'a option \<Rightarrow> 'a option" where
  "only_when b v = (if b then v else None)"

definition write_active_strategy_and_gates ::
  "env \<Rightarrow> pydict option \<Rightarrow> int option \<Rightarrow> int option \<Rightarrow> int option \<Rightarrow> string list option \<Rightarrow> desk_db \<Rightarrow>
   (exc + bool) \<times> desk_db" where
  "write_active_strategy_and_gates env cfg struct gate alloc chosen db =
     (let has = (\<lambda>c. case chosen of None \<Rightarrow> True | Some cs \<Rightarrow> c \<in> set cs);
          s = has ''active_strategy_structure_id''; g = has ''active_gate_safety_strategy_id'';
          a = has ''active_strategy_allocation_id''
      in if \<not> s \<and> \<not> g \<and> \<not> a then (Inr True, db)
         else if \<not> conn_from_config env cfg then (Inr False, db)
         else swallowing is_value_error False (legacy_transaction
                (tx_bind (validate_settings_active_refs (only_when g gate) (only_when s struct) (only_when a alloc)) (\<lambda>_.
                 tx_bind (update_settings (\<lambda>r. r\<lparr>st_structure := (if s then struct else st_structure r),
                            st_gate := (if g then gate else st_gate r), st_alloc := (if a then alloc else st_alloc r)\<rparr>))
                   (\<lambda>_. tx_return (True, True)))) env db))"

text \<open>\<open>(v or "").strip() or None\<close>.\<close>

definition blank_none :: "string option \<Rightarrow> string option" where
  "blank_none v = (case v of None \<Rightarrow> None | Some s \<Rightarrow> if strip s = [] then None else Some (strip s))"

definition insert_settings :: "setting_row \<Rightarrow> (desk_db, unit) tx" where
  "insert_settings r = stmt (\<lambda>db. case settings db of
       None \<Rightarrow> Inr ((), db\<lparr>settings := Some r\<rparr>)
     | Some _ \<Rightarrow> Inl (UniqueViolation (None, Some ''settings_pkey'')))"

definition write_ib_config ::
  "env \<Rightarrow> pydict option \<Rightarrow> string option \<Rightarrow> string option \<Rightarrow> string option \<Rightarrow> desk_db \<Rightarrow> (exc + bool) \<times> desk_db" where
  "write_ib_config env cfg host stream second db =
     (if \<not> conn_from_config env cfg then (Inr False, db)
      else swallowing (\<lambda>_. False) False (legacy_transaction
             (tx_bind (update_settings (\<lambda>r. r\<lparr>st_ib_host := blank_none host, st_stream_host := blank_none stream,
                st_stream_secondary := blank_none second\<rparr>)) (\<lambda>n.
              tx_bind (if n = 0 then insert_settings \<lparr>st_ib_host = blank_none host, st_stream_host = blank_none stream,
                  st_stream_secondary = blank_none second, st_structure = None, st_gate = None, st_alloc = None\<rparr>
                else tx_return ()) (\<lambda>_. tx_return (True, True)))) env db))"

end
