(* ===== verification/Desk_Properties.thy ===== *)
theory Desk_Properties
  imports Desk_Rules
begin

text \<open>
  What the rule writers promise over any sequence of calls: referential integrity, the rules a
  stored opportunity or allocation obeys, and that a delete never takes away what is in use.
\<close>

section \<open>The writers as one operation\<close>

datatype desk_op =
    CreateOpp "pydict option" pydict
  | UpdateOpp "pydict option" int pydict
  | PatchOpp conn_arg int pyval
  | CreateAlloc "pydict option" pydict
  | UpdateAlloc "pydict option" int pydict
  | PatchAlloc conn_arg int pyval
  | DeleteRule "pydict option" rule_kind int
  | DeleteRuleStrict conn_arg rule_kind int
  | SetActive "pydict option" "int option" "int option" "int option" "string list option"
  | WriteIb "pydict option" "string option" "string option" "string option"

definition done_with :: "(exc + 'a) \<times> 's \<Rightarrow> (exc + unit) \<times> 's" where
  "done_with r = (case r of (Inl e, s) \<Rightarrow> (Inl e, s) | (Inr _, s) \<Rightarrow> (Inr (), s))"

fun run_desk :: "env \<times> desk_op \<Rightarrow> desk_db \<Rightarrow> (exc + unit) \<times> desk_db" where
  "run_desk (env, CreateOpp cfg p) db = done_with (create_opportunity env cfg p db)"
| "run_desk (env, UpdateOpp cfg i p) db = done_with (update_opportunity env cfg i p db)"
| "run_desk (env, PatchOpp arg i b) db = done_with (patch_opportunity env arg i b db)"
| "run_desk (env, CreateAlloc cfg p) db = done_with (create_allocation env cfg p db)"
| "run_desk (env, UpdateAlloc cfg i p) db = done_with (update_allocation env cfg i p db)"
| "run_desk (env, PatchAlloc arg i b) db = done_with (patch_allocation env arg i b db)"
| "run_desk (env, DeleteRule cfg k i) db = done_with (delete_rule env cfg k i db)"
| "run_desk (env, DeleteRuleStrict arg k i) db = done_with (delete_rule_strict env arg k i db)"
| "run_desk (env, SetActive cfg s g a cs) db = done_with (write_active_strategy_and_gates env cfg s g a cs db)"
| "run_desk (env, WriteIb cfg h s t) db = done_with (write_ib_config env cfg h s t db)"

lemma done_with_simps [simp]:
  "done_with r = (Inl e, s) \<longleftrightarrow> r = (Inl e, s)"
  "done_with r = (Inr u, s) \<longleftrightarrow> (\<exists>a. r = (Inr a, s))"
  by (auto simp: done_with_def split: prod.splits sum.splits)

lemma run_desk_error:
  assumes "run_desk op db = (Inl e, db')"
  shows "db' = db"
proof -
  obtain env call where op: "op = (env, call)" by force
  show ?thesis
    using assms op
    by (cases call)
      (auto simp: create_opportunity_def update_opportunity_def patch_opportunity_def create_allocation_def
        update_allocation_def patch_allocation_def delete_rule_def delete_rule_strict_def
        write_active_strategy_and_gates_def write_ib_config_def Let_def split: sum.splits if_splits prod.splits
        dest: legacy_transaction_error strict_write_error)
qed

section \<open>Referential integrity\<close>

text \<open>One predicate per reference, over the columns it reads.\<close>

definition keys_ok :: "int \<Rightarrow> int list \<Rightarrow> bool" where
  "keys_ok n ks \<longleftrightarrow> distinct ks \<and> (\<forall>k \<in> set ks. k < n)"

definition opp_ok :: "int list \<Rightarrow> int list \<Rightarrow> opp_row \<Rightarrow> bool" where
  "opp_ok ss gs r \<longleftrightarrow> (case op_scope r of None \<Rightarrow> True | Some s \<Rightarrow> s \<in> set SCOPE_TYPES) \<and>
     op_structure r \<in> set ss \<and> refers (op_gate r) gs"

definition rows_all :: "('r \<Rightarrow> bool) \<Rightarrow> (int \<times> 'r) list \<Rightarrow> bool" where
  "rows_all p xs \<longleftrightarrow> (\<forall>(i, r) \<in> set xs. p r)"

definition members_ok :: "int list \<Rightarrow> int list \<Rightarrow> (int \<times> int \<times> int) list \<Rightarrow> bool" where
  "members_ok as os ms \<longleftrightarrow> (\<forall>(a, b, j) \<in> set ms. a \<in> set as \<and> b \<in> set os) \<and> distinct (map (\<lambda>(a, b, j). (a, b)) ms)"

definition trades_ok :: "int list \<Rightarrow> (int \<times> int) list \<Rightarrow> bool" where
  "trades_ok os ts \<longleftrightarrow> snd ` set ts \<subseteq> set os"

definition plan_links_ok :: "int list \<Rightarrow> (int \<times> int option) list \<Rightarrow> bool" where
  "plan_links_ok os ps \<longleftrightarrow> (\<forall>(p, l) \<in> set ps. refers l os)"

definition settings_ok :: "int list \<Rightarrow> int list \<Rightarrow> int list \<Rightarrow> setting_row option \<Rightarrow> bool" where
  "settings_ok ss gs as s \<longleftrightarrow> (case s of None \<Rightarrow> True
     | Some r \<Rightarrow> refers (st_structure r) ss \<and> refers (st_gate r) gs \<and> refers (st_alloc r) as)"

definition desk_fk :: "desk_db \<Rightarrow> bool" where
  "desk_fk db \<longleftrightarrow> keys_ok (next_opp db) (map fst (opps db)) \<and> keys_ok (next_alloc db) (map fst (allocs db)) \<and>
     rows_all (opp_ok (structures db) (gates db)) (opps db) \<and> rows_all (\<lambda>r. refers (al_gate r) (gates db)) (allocs db) \<and>
     members_ok (map fst (allocs db)) (map fst (opps db)) (members db) \<and>
     trades_ok (map fst (opps db)) (rule_trades db) \<and> plan_links_ok (map fst (opps db)) (plan_rules db) \<and>
     settings_ok (structures db) (gates db) (map fst (allocs db)) (settings db)"

named_theorems fk \<open>how the references survive one statement\<close>

lemma opp_violation_None [simp]: "opp_violation db r = None \<longleftrightarrow> opp_ok (structures db) (gates db) r"
  by (auto simp: opp_violation_def opp_ok_def split: option.splits)

lemma alloc_violation_None [simp]: "alloc_violation db r = None \<longleftrightarrow> refers (al_gate r) (gates db)"
  by (simp add: alloc_violation_def)

lemma settings_violation_None [simp]:
  "settings_violation db s = None \<longleftrightarrow> settings_ok (structures db) (gates db) (map fst (allocs db)) (Some s)"
  by (auto simp: settings_violation_def settings_ok_def)

lemma rows_all_put [fk]: "rows_all p xs \<Longrightarrow> p r \<Longrightarrow> rows_all p (put_assoc k r xs)"
  by (auto simp: rows_all_def put_assoc_def split: if_splits)

lemma rows_all_append [simp]: "rows_all p (xs @ [(k, r)]) \<longleftrightarrow> rows_all p xs \<and> p r"
  by (auto simp: rows_all_def)

lemma rows_all_filter [fk]: "rows_all p xs \<Longrightarrow> rows_all p (filter q xs)"
  by (auto simp: rows_all_def)

lemma rows_all_lookup: "rows_all p xs \<Longrightarrow> map_of xs k = Some r \<Longrightarrow> p r"
  by (auto simp: rows_all_def dest: map_of_SomeD)

lemma keys_ok_append [fk]: "keys_ok n ks \<Longrightarrow> keys_ok (n + 1) (ks @ [n])"
  by (auto simp: keys_ok_def)

lemma keys_ok_filter [fk]: "keys_ok n (map fst xs) \<Longrightarrow> keys_ok n (map fst (filter q xs))"
  by (auto simp: keys_ok_def distinct_map_filter)

lemma refers_append [fk]: "refers l os \<Longrightarrow> refers l (os @ [k])"
  by (auto simp: refers_def split: option.splits)

lemma members_ok_grow [fk]:
  "members_ok as os ms \<Longrightarrow> members_ok (as @ [a]) os ms" "members_ok as os ms \<Longrightarrow> members_ok as (os @ [b]) ms"
  by (auto simp: members_ok_def)

lemma members_ok_filter [fk]: "members_ok as os ms \<Longrightarrow> members_ok as os (filter q ms)"
  by (auto simp: members_ok_def distinct_map_filter)

lemma members_ok_drop [fk]:
  "members_ok (map fst as) (map fst os) ms \<Longrightarrow>
     members_ok (map fst (filter (\<lambda>(i, r). i \<noteq> a) as)) (map fst os) (filter (\<lambda>(c, d, j). c \<noteq> a) ms)"
  "members_ok (map fst as) (map fst os) ms \<Longrightarrow>
     members_ok (map fst as) (map fst (filter (\<lambda>(i, r). i \<noteq> b) os)) (filter (\<lambda>(c, d, j). d \<noteq> b) ms)"
  by (auto simp: members_ok_def distinct_map_filter image_iff; force)+

lemma members_ok_snoc [fk]:
  "members_ok as os ms \<Longrightarrow> a \<in> set as \<Longrightarrow> b \<in> set os \<Longrightarrow> \<not> list_ex (\<lambda>(c, d, i). c = a \<and> d = b) ms \<Longrightarrow>
   members_ok as os (ms @ [(a, b, j)])"
  by (auto simp: members_ok_def list_ex_iff)

lemma members_ok_reorder [fk]:
  assumes "members_ok as os ms"
  shows "members_ok as os (map (\<lambda>(c, d, i). if c = a \<and> d = b then (c, d, j) else (c, d, i)) ms)"
proof -
  have "map (\<lambda>(c, d, i). (c, d)) (map (\<lambda>(c, d, i). if c = a \<and> d = b then (c, d, j) else (c, d, i)) ms)
      = map (\<lambda>(c, d, i). (c, d)) ms" by auto
  then have "distinct (map (\<lambda>(c, d, i). (c, d)) (map (\<lambda>(c, d, i). if c = a \<and> d = b then (c, d, j) else (c, d, i)) ms))"
    using assms by (simp only: members_ok_def)
  moreover have "\<forall>(c, d, i) \<in> set (map (\<lambda>(c, d, i). if c = a \<and> d = b then (c, d, j) else (c, d, i)) ms).
      c \<in> set as \<and> d \<in> set os"
    using assms by (auto simp: members_ok_def split: if_splits)
  ultimately show ?thesis by (simp add: members_ok_def)
qed

lemma trades_ok_grow [fk]: "trades_ok os ts \<Longrightarrow> trades_ok (os @ [b]) ts"
  by (auto simp: trades_ok_def)

lemma trades_ok_drop [fk]:
  "trades_ok (map fst os) ts \<Longrightarrow> b \<notin> snd ` set ts \<Longrightarrow> trades_ok (map fst (filter (\<lambda>(i, r). i \<noteq> b) os)) ts"
  by (force simp: trades_ok_def)

lemma plan_links_grow [fk]: "plan_links_ok os ps \<Longrightarrow> plan_links_ok (os @ [b]) ps"
  by (auto simp: plan_links_ok_def fk)

lemma plan_links_drop [fk]:
  "plan_links_ok (map fst os) ps \<Longrightarrow>
   plan_links_ok (map fst (filter (\<lambda>(i, r). i \<noteq> b) os)) (map (\<lambda>(p, l). (p, if l = Some b then None else l)) ps)"
  by (auto simp: plan_links_ok_def refers_def split: option.splits; force)

lemma settings_ok_grow [fk]: "settings_ok ss gs as s \<Longrightarrow> settings_ok ss gs (as @ [a]) s"
  by (auto simp: settings_ok_def fk split: option.splits)

lemma settings_ok_drop_alloc [fk]:
  "settings_ok ss gs (map fst as) s \<Longrightarrow> settings_ok ss gs (map fst (filter (\<lambda>(i, r). i \<noteq> a) as))
     (map_option (\<lambda>s. if st_alloc s = Some a then s\<lparr>st_alloc := None\<rparr> else s) s)"
  by (auto simp: settings_ok_def refers_def split: option.splits; force)

lemma settings_ok_drop_gate [fk]:
  "settings_ok ss gs as s \<Longrightarrow> settings_ok ss (filter (\<lambda>i. i \<noteq> g) gs) as
     (map_option (\<lambda>s. if st_gate s = Some g then s\<lparr>st_gate := None\<rparr> else s) s)"
  by (auto simp: settings_ok_def refers_def split: option.splits)

lemma rows_drop_gate [fk]:
  "rows_all (opp_ok ss gs) xs \<Longrightarrow> length (filter (\<lambda>(i, r). op_gate r = Some g) xs) = 0 \<Longrightarrow>
     rows_all (opp_ok ss (filter (\<lambda>i. i \<noteq> g) gs)) xs"
  "rows_all (\<lambda>r. refers (al_gate r) gs) ys \<Longrightarrow> length (filter (\<lambda>(i, r). al_gate r = Some g) ys) = 0 \<Longrightarrow>
     rows_all (\<lambda>r. refers (al_gate r) (filter (\<lambda>i. i \<noteq> g) gs)) ys"
  by (auto simp: rows_all_def opp_ok_def refers_def filter_empty_conv split: option.splits)

section \<open>Every statement keeps the references\<close>

lemma insert_opp_fk [tx_keeps]: "tx_inv desk_fk (insert_opp r)"
  unfolding insert_opp_def by (rule tx_inv_stmt) (auto simp: desk_fk_def intro: fk)

lemma update_opp_fk [tx_keeps]: "tx_inv desk_fk (update_opp i f)"
  unfolding update_opp_def by (rule tx_inv_stmt) (auto simp: desk_fk_def intro: fk split: option.splits)

lemma insert_alloc_fk [tx_keeps]: "tx_inv desk_fk (insert_alloc r)"
  unfolding insert_alloc_def by (rule tx_inv_stmt) (auto simp: desk_fk_def intro: fk)

lemma update_alloc_fk [tx_keeps]: "tx_inv desk_fk (update_alloc i f)"
  unfolding update_alloc_def by (rule tx_inv_stmt) (auto simp: desk_fk_def intro: fk split: option.splits)

lemma clear_members_fk [tx_keeps]: "tx_inv desk_fk (clear_members a)"
  unfolding clear_members_def by (rule tx_inv_update) (auto simp: desk_fk_def intro: fk)

lemma member_fk_None: "member_fk db a b = None \<longleftrightarrow> a \<in> set (map fst (allocs db)) \<and> b \<in> set (map fst (opps db))"
  by (auto simp: member_fk_def map_of_eq_None_iff)

lemma put_member_fk [tx_keeps]: "tx_inv desk_fk (put_member a x)"
  unfolding put_member_def
  by (cases x, rule tx_inv_stmt)
    (auto simp: desk_fk_def member_fk_None is_member_def simp del: set_map intro: fk split: if_splits)

lemma add_member_fk [tx_keeps]: "tx_inv desk_fk (add_member a x)"
  unfolding add_member_def
  by (cases x, rule tx_inv_stmt)
    (auto simp: desk_fk_def member_fk_None is_member_def simp del: set_map intro: fk split: if_splits)

lemma delete_opp_row_fk [tx_keeps]: "tx_inv desk_fk (delete_opp_row i)"
  unfolding delete_opp_row_def by (rule tx_inv_stmt) (auto simp: desk_fk_def intro: fk split: if_splits)

lemma delete_alloc_row_fk [tx_keeps]: "tx_inv desk_fk (delete_alloc_row i)"
  unfolding delete_alloc_row_def by (rule tx_inv_stmt) (auto simp: desk_fk_def intro: fk)

lemma delete_gate_row_fk [tx_keeps]: "tx_inv desk_fk (delete_gate_row g)"
  unfolding delete_gate_row_def
  by (rule tx_inv_stmt)
    (auto simp: desk_fk_def opps_with_gate_def allocs_with_gate_def intro: fk split: if_splits)

lemma update_settings_fk [tx_keeps]: "tx_inv desk_fk (update_settings f)"
  unfolding update_settings_def by (rule tx_inv_stmt) (auto simp: desk_fk_def split: option.splits)

lemma insert_settings_fk [tx_keeps]:
  "st_structure r = None \<Longrightarrow> st_gate r = None \<Longrightarrow> st_alloc r = None \<Longrightarrow> tx_inv desk_fk (insert_settings r)"
  unfolding insert_settings_def
  by (rule tx_inv_stmt) (auto simp: desk_fk_def settings_ok_def refers_def split: option.splits)

section \<open>Every body keeps what its statements keep\<close>

lemma replace_members_keeps [tx_keeps]:
  "tx_inv P (clear_members a) \<Longrightarrow> (\<And>x. tx_inv P (put a x)) \<Longrightarrow> tx_inv P (replace_members put a ids)"
  unfolding replace_members_def by (intro tx_keeps)

lemma daemon_setting_keeps [tx_keeps]: "tx_inv P (daemon_setting c)"
  unfolding daemon_setting_def by (rule tx_inv_query)

lemma rule_check_keeps [tx_keeps]: "tx_inv P (rule_check k i)"
  by (cases k) (simp_all only: rule_check.simps check_opportunity_def check_allocation_def check_gate_safety_def,
      (intro tx_keeps)+)

lemma exists_ref_keeps [tx_keeps]: "tx_inv P (exists_ref r ids)"
  unfolding exists_ref_def by (intro tx_keeps)

lemma validate_refs_keeps [tx_keeps]: "tx_inv P (validate_settings_active_refs g s a)"
  unfolding validate_settings_active_refs_def by (intro tx_keeps)

lemmas bodies = update_opp_body_def patch_opp_body_def create_alloc_body_def update_alloc_body_def patch_alloc_body_def
  rule_delete_body_def rule_delete_strict_body_def

lemmas writers = create_opportunity_def update_opportunity_def patch_opportunity_def create_allocation_def
  update_allocation_def patch_allocation_def delete_rule_def delete_rule_strict_def
  write_active_strategy_and_gates_def write_ib_config_def

lemma rule_delete_fk [tx_keeps]: "tx_inv desk_fk (rule_delete k i)"
  by (cases k) (simp_all add: tx_keeps)

lemma strict_fk: "strict_write w fk m env arg db = (Inr a, db') \<Longrightarrow> desk_fk db \<Longrightarrow> tx_inv desk_fk m \<Longrightarrow> desk_fk db'"
  by (rule strict_write_inv)

lemma run_desk_fk:
  assumes "run_desk op db = (Inr u, db')" and "desk_fk db"
  shows "desk_fk db'"
proof -
  obtain env call where op: "op = (env, call)" by force
  show ?thesis
  proof (cases call)
    case (CreateOpp cfg p)
    with assms op show ?thesis
      by (auto simp: create_opportunity_def split: sum.splits if_splits elim!: legacy_transaction_keeps dest: legacy_transaction_error
          intro!: tx_keeps)
  next
    case (UpdateOpp cfg i p)
    with assms op show ?thesis
      by (auto simp: update_opportunity_def split: sum.splits if_splits prod.splits elim!: legacy_transaction_keeps
          dest: legacy_transaction_error) (unfold update_opp_body_def, intro tx_keeps)
  next
    case (PatchOpp arg i b)
    with assms op show ?thesis
      by (auto simp: patch_opportunity_def split: sum.splits if_splits prod.splits elim!: strict_fk)
        (unfold patch_opp_body_def, intro tx_keeps)
  next
    case (CreateAlloc cfg p)
    with assms op show ?thesis
      by (auto simp: create_allocation_def split: sum.splits if_splits prod.splits elim!: legacy_transaction_keeps
          dest: legacy_transaction_error) (unfold create_alloc_body_def, intro tx_keeps)
  next
    case (UpdateAlloc cfg i p)
    with assms op show ?thesis
      by (auto simp: update_allocation_def split: sum.splits if_splits prod.splits elim!: legacy_transaction_keeps
          dest: legacy_transaction_error) (unfold update_alloc_body_def, intro tx_keeps)
  next
    case (PatchAlloc arg i b)
    with assms op show ?thesis
      by (auto simp: patch_allocation_def split: sum.splits if_splits prod.splits elim!: strict_fk)
        (unfold patch_alloc_body_def, intro tx_keeps)
  next
    case (DeleteRule cfg k i)
    with assms op show ?thesis
      by (auto simp: delete_rule_def split: if_splits elim!: legacy_transaction_keeps) (unfold rule_delete_body_def, intro tx_keeps)
  next
    case (DeleteRuleStrict arg k i)
    with assms op show ?thesis
      by (auto simp: delete_rule_strict_def Let_def elim!: strict_fk) (unfold rule_delete_strict_body_def, intro tx_keeps)
  next
    case (SetActive cfg s g a cs)
    with assms op show ?thesis
      by (auto simp: write_active_strategy_and_gates_def Let_def split: if_splits elim!: legacy_transaction_keeps
          dest: legacy_transaction_error intro!: tx_keeps)
  next
    case (WriteIb cfg h s t)
    with assms op show ?thesis
      by (auto simp: write_ib_config_def split: if_splits elim!: legacy_transaction_keeps dest: legacy_transaction_error
          intro!: tx_keeps)
  qed
qed

interpretation desk_writers: invariant_writer run_desk desk_fk
  by unfold_locales (auto dest: run_desk_error run_desk_fk)

section \<open>Rules of a stored row\<close>

definition opp_rule :: "opp_row \<Rightarrow> bool" where
  "opp_rule r \<longleftrightarrow> op_name r \<noteq> [] \<and> \<not> (op_scope r = Some ''watchlist_stk'' \<and> op_symbols r = [])"

definition alloc_rule :: "alloc_row \<Rightarrow> bool" where
  "alloc_rule r \<longleftrightarrow> al_name r \<noteq> [] \<and> (\<forall>n. al_max_positions r = Some n \<longrightarrow> 0 \<le> n) \<and>
     (\<forall>q. al_max_bp r = Some q \<longrightarrow> 0 \<le> q)"

definition rows_ok :: "desk_db \<Rightarrow> bool" where
  "rows_ok db \<longleftrightarrow> rows_all opp_rule (opps db) \<and> rows_all alloc_rule (allocs db)"

lemma insert_opp_rows [tx_keeps]: "opp_rule r \<Longrightarrow> tx_inv rows_ok (insert_opp r)"
  unfolding insert_opp_def by (rule tx_inv_stmt) (auto simp: rows_ok_def)

lemma insert_alloc_rows [tx_keeps]: "alloc_rule r \<Longrightarrow> tx_inv rows_ok (insert_alloc r)"
  unfolding insert_alloc_def by (rule tx_inv_stmt) (auto simp: rows_ok_def)

lemma update_alloc_rows [tx_keeps]: "(\<And>r. alloc_rule r \<Longrightarrow> alloc_rule (f r)) \<Longrightarrow> tx_inv rows_ok (update_alloc i f)"
  unfolding update_alloc_def
  by (rule tx_inv_stmt) (auto simp: rows_ok_def intro!: rows_all_put dest: rows_all_lookup split: option.splits)

lemma member_rows [tx_keeps]:
  "tx_inv rows_ok (clear_members a)" "tx_inv rows_ok (put_member a x)" "tx_inv rows_ok (add_member a x)"
  unfolding clear_members_def put_member_def add_member_def
  by (rule tx_inv_update, simp add: rows_ok_def)
    (rule tx_inv_stmt, cases x, auto simp: rows_ok_def split: if_splits)+

lemma rule_delete_rows [tx_keeps]: "tx_inv rows_ok (rule_delete k i)"
  by (cases k)
    (auto simp: delete_opp_row_def delete_alloc_row_def delete_gate_row_def rows_ok_def
      intro!: tx_inv_stmt rows_all_filter split: if_splits)

lemma settings_rows [tx_keeps]: "tx_inv rows_ok (update_settings f)" "tx_inv rows_ok (insert_settings r)"
  unfolding update_settings_def insert_settings_def
  by (rule tx_inv_stmt, auto simp: rows_ok_def split: option.splits)+

subsection \<open>What the validated arguments promise\<close>

lemma check_scope_ok [simp]: "check_scope_symbols sc ss = Inr u \<longleftrightarrow> \<not> (sc = Some ''watchlist_stk'' \<and> ss = [])"
  by (simp add: check_scope_symbols_def)

lemma opp_args_name: "opp_args p = Inr (name, sid, gate, scope) \<Longrightarrow> name \<noteq> []"
  by (auto simp: opp_args_def split: if_splits)

lemma update_opp_args_name: "update_opp_args p = Inr ((name, sid, gate, scope), syms, conds) \<Longrightarrow> name \<noteq> []"
  by (auto simp: update_opp_args_def dest: opp_args_name)

lemma create_opp_row_rule: "create_opp_row p = Inr r \<Longrightarrow> opp_rule r"
  by (auto simp: create_opp_row_def opp_rule_def Let_def dest: opp_args_name)

lemma required_text: "required (text_value v n False ml) = Inr t \<Longrightarrow> t \<noteq> []"
  using text_value_required by (fastforce simp: required_def dest: text_value_ok)

lemma sent_field_absent: "sent_field fs k f = Inr x \<Longrightarrow> \<not> dhas fs k \<Longrightarrow> x = None"
  by (simp add: sent_field_def)

lemma patch_opp_columns_ok:
  assumes "patch_opp_columns fs = Inr f"
  shows "op_name r \<noteq> [] \<Longrightarrow> op_name (f r) \<noteq> []"
    and "\<not> dhas fs ''scope_type'' \<Longrightarrow> op_scope (f r) = op_scope r"
    and "\<not> dhas fs ''symbols'' \<Longrightarrow> op_symbols (f r) = op_symbols r"
proof -
  from assms obtain name sid gate scope active syms conds where
    s: "sent_field fs ''name'' (\<lambda>v. required (text_value v ''name'' False None)) = Inr name"
      "sent_field fs ''scope_type'' normalize_scope_type = Inr scope" "sent_field fs ''symbols'' patch_symbols = Inr syms"
    and f: "f = (\<lambda>r. r\<lparr>op_name := sent name (op_name r), op_structure := sent sid (op_structure r),
               op_gate := sent gate (op_gate r), op_scope := sent scope (op_scope r),
               op_active := sent active (op_active r), op_symbols := sent syms (op_symbols r),
               op_conditions := sent conds (op_conditions r)\<rparr>)"
    unfolding patch_opp_columns_def ebind_Inr_iff sum.inject by blast
  show "op_name r \<noteq> [] \<Longrightarrow> op_name (f r) \<noteq> []"
    using s(1) by (cases name) (auto simp: f sent_def dest!: sent_field_Some dest: required_text)
  show "\<not> dhas fs ''scope_type'' \<Longrightarrow> op_scope (f r) = op_scope r"
    using sent_field_absent [OF s(2)] by (simp add: f sent_def)
  show "\<not> dhas fs ''symbols'' \<Longrightarrow> op_symbols (f r) = op_symbols r"
    using sent_field_absent [OF s(3)] by (simp add: f sent_def)
qed

lemma limits_ok: "limits_to_scalars v = Inr x \<Longrightarrow> (\<forall>n. fst x = Some n \<longrightarrow> 0 \<le> n) \<and> (\<forall>q. snd x = Some q \<longrightarrow> 0 \<le> q)"
  by (auto simp: limits_to_scalars_def max_positions_arg_def max_bp_arg_def split: if_splits
      dest: integer_min number_min)

lemma create_alloc_args_rule: "create_alloc_args p = Inr (r, ids) \<Longrightarrow> alloc_rule r"
  by (auto simp: create_alloc_args_def alloc_rule_def split: if_splits dest!: limits_ok)

lemma update_alloc_args_rule:
  assumes "update_alloc_args p = Inr (ids, Some f)" and "alloc_rule r"
  shows "alloc_rule (f r)"
  using assms
  by (auto simp: update_alloc_args_def Let_def alloc_rule_def sent_def split: option.splits if_splits
      dest!: sent_field_Some limits_ok)

lemma patch_alloc_columns_rule:
  assumes "patch_alloc_columns fs = Inr (f, ids)" and "alloc_rule r"
  shows "alloc_rule (f r)"
  using assms
  by (auto simp: patch_alloc_columns_def alloc_rule_def sent_def max_positions_arg_def max_bp_arg_def
      split: option.splits dest!: sent_field_Some integer_min number_min dest: required_text)

subsection \<open>The two opportunity writers that check the merged row\<close>

lemma put_assoc_twice [simp]: "put_assoc k r (put_assoc k q xs) = put_assoc k r xs"
  by (auto simp: put_assoc_def)

lemma update_oppD:
  "tx_ok env (update_opp i f) db n db' \<Longrightarrow>
     n = 0 \<and> map_of (opps db) i = None \<and> db' = db \<or>
     (\<exists>r. n = 1 \<and> map_of (opps db) i = Some r \<and> db' = db\<lparr>opps := put_assoc i (f r) (opps db)\<rparr>)"
  unfolding update_opp_def by (drule tx_ok_stmtD) (auto split: option.splits)

lemma rows_ok_put: "rows_ok db \<Longrightarrow> opp_rule r \<Longrightarrow> rows_ok (db\<lparr>opps := put_assoc i r (opps db)\<rparr>)"
  by (simp add: rows_ok_def rows_all_put)

lemma update_opp_body_rows:
  assumes "tx_ok env (update_opp_body i (name, sid, gate, scope) active syms conds) db (True, v) db'"
    and "name \<noteq> []" and "rows_ok db"
  shows "rows_ok db'"
  using assms unfolding update_opp_body_def Let_def
  by (auto split: if_splits sum.splits dest!: tx_ok_bindD update_oppD tx_ok_queryD
      simp: map_of_put_assoc opp_rule_def intro!: rows_ok_put)

lemma patch_opp_body_rows:
  assumes "tx_ok env (patch_opp_body i (dhas fs ''scope_type'' \<or> dhas fs ''symbols'') f) db v db'"
    and f: "patch_opp_columns fs = Inr f" and "rows_ok db"
  shows "rows_ok db'"
proof -
  from assms(1) obtain r where r: "map_of (opps db) i = Some r" "db' = db\<lparr>opps := put_assoc i (f r) (opps db)\<rparr>"
    "dhas fs ''scope_type'' \<or> dhas fs ''symbols'' \<Longrightarrow> \<not> (op_scope (f r) = Some ''watchlist_stk'' \<and> op_symbols (f r) = [])"
    unfolding patch_opp_body_def
    by (auto split: if_splits sum.splits option.splits dest!: tx_ok_bindD update_oppD tx_ok_queryD tx_ok_try_queryD
        simp: map_of_put_assoc)
  have "opp_rule r" using assms(3) r(1) by (auto simp: rows_ok_def dest: rows_all_lookup)
  moreover have "\<not> (op_scope (f r) = Some ''watchlist_stk'' \<and> op_symbols (f r) = [])"
    using patch_opp_columns_ok(2,3) [OF f, of r] r(3) \<open>opp_rule r\<close> unfolding opp_rule_def by metis
  ultimately have "opp_rule (f r)" using patch_opp_columns_ok(1) [OF f, of r] by (simp add: opp_rule_def)
  with r(2) assms(3) show ?thesis by (simp add: rows_ok_put)
qed

lemma run_desk_rows:
  assumes "run_desk op db = (Inr u, db')" and "rows_ok db"
  shows "rows_ok db'"
proof -
  obtain env call where op: "op = (env, call)" by force
  show ?thesis
  proof (cases call)
    case (CreateOpp cfg p)
    with assms op show ?thesis
      by (auto simp: create_opportunity_def split: sum.splits if_splits elim!: legacy_transaction_keeps
          dest: legacy_transaction_error create_opp_row_rule intro!: tx_keeps)
  next
    case (UpdateOpp cfg i p)
    with assms op show ?thesis
      by (auto simp: update_opportunity_def split: sum.splits if_splits simp del: split_paired_Ex split_paired_All
          dest!: legacy_transaction_error legacy_transaction_ok)
        (erule update_opp_body_rows, erule update_opp_args_name, assumption)
  next
    case (PatchOpp arg i b)
    with assms op show ?thesis
      by (auto simp: patch_opportunity_def split: sum.splits dest!: strict_write_ok dest: patch_opp_body_rows)
  next
    case (CreateAlloc cfg p)
    with assms op show ?thesis
      by (auto simp: create_allocation_def create_alloc_body_def split: sum.splits if_splits
          elim!: legacy_transaction_keeps dest: legacy_transaction_error create_alloc_args_rule intro!: tx_keeps)
  next
    case (UpdateAlloc cfg i p)
    with assms op show ?thesis
      by (auto simp: update_allocation_def update_alloc_body_def split: sum.splits if_splits
          elim!: legacy_transaction_keeps dest: legacy_transaction_error update_alloc_args_rule intro!: tx_keeps)
  next
    case (PatchAlloc arg i b)
    with assms op show ?thesis
      by (auto simp: patch_allocation_def patch_alloc_body_def split: sum.splits if_splits elim!: strict_write_inv
          dest: patch_alloc_columns_rule intro!: tx_keeps)
  next
    case (DeleteRule cfg k i)
    with assms op show ?thesis
      by (auto simp: delete_rule_def split: if_splits elim!: legacy_transaction_keeps)
        (unfold rule_delete_body_def, intro tx_keeps)
  next
    case (DeleteRuleStrict arg k i)
    with assms op show ?thesis
      by (auto simp: delete_rule_strict_def Let_def elim!: strict_write_inv)
        (unfold rule_delete_strict_body_def, intro tx_keeps)
  next
    case (SetActive cfg s g a cs)
    with assms op show ?thesis
      by (auto simp: write_active_strategy_and_gates_def Let_def split: if_splits elim!: legacy_transaction_keeps
          dest: legacy_transaction_error intro!: tx_keeps)
  next
    case (WriteIb cfg h s t)
    with assms op show ?thesis
      by (auto simp: write_ib_config_def split: if_splits elim!: legacy_transaction_keeps
          dest: legacy_transaction_error intro!: tx_keeps)
  qed
qed

interpretation desk_rows: invariant_writer run_desk "\<lambda>db. desk_fk db \<and> rows_ok db"
  by unfold_locales (auto dest: run_desk_error run_desk_fk run_desk_rows)

section \<open>What is in use stays\<close>

definition daemon_points :: "(setting_row \<Rightarrow> int option) \<Rightarrow> desk_db \<Rightarrow> int option" where
  "daemon_points col db = (case settings db of None \<Rightarrow> None | Some s \<Rightarrow> col s)"

fun used :: "rule_kind \<Rightarrow> int \<Rightarrow> desk_db \<Rightarrow> bool" where
  "used Opportunity i db = (i \<in> snd ` set (rule_trades db))"
| "used Allocation i db = (daemon_points st_alloc db = Some i)"
| "used GateSet i db =
     (opps_with_gate i db \<noteq> 0 \<or> allocs_with_gate i db \<noteq> 0 \<or> daemon_points st_gate db = Some i)"

lemma count_trades: "length (filter (\<lambda>(t, i). i = k) ts) = 0 \<longleftrightarrow> k \<notin> snd ` set ts"
  by (auto simp: filter_empty_conv image_iff)

lemma rule_checkD: "tx_ok env (rule_check k i) db u db' \<Longrightarrow> db' = db \<and> \<not> used k i db"
  by (cases k)
    (auto simp: check_opportunity_def check_allocation_def check_gate_safety_def daemon_setting_def daemon_points_def
      filter_empty_conv split: if_splits option.splits dest!: tx_ok_bindD tx_ok_queryD)

lemma put_assoc_mem: "map_of (put_assoc k r xs) i = None \<longleftrightarrow> map_of xs i = None"
  by (simp add: map_of_eq_None_iff image_iff put_assoc_def) (auto split: if_splits)

definition keys_of :: "desk_db \<Rightarrow> int set \<times> int set \<times> int set" where
  "keys_of db = (fst ` set (opps db), fst ` set (allocs db), set (gates db))"

lemma rule_exists_keys: "rule_exists k i db \<longleftrightarrow>
    (case keys_of db of (os, as, gs) \<Rightarrow> (case k of Opportunity \<Rightarrow> i \<in> os | Allocation \<Rightarrow> i \<in> as | GateSet \<Rightarrow> i \<in> gs))"
  by (cases k) (simp_all add: keys_of_def map_of_eq_None_iff)

lemma put_assoc_fst [simp]: "fst ` set (put_assoc k r xs) = fst ` set xs"
  by (metis list.set_map put_assoc_keys)

lemma keys_update [simp]:
  "keys_of (db\<lparr>opps := put_assoc i r (opps db)\<rparr>) = keys_of db" "keys_of (db\<lparr>allocs := put_assoc i q (allocs db)\<rparr>) = keys_of db"
  "keys_of (db\<lparr>members := ms\<rparr>) = keys_of db" "keys_of (db\<lparr>settings := st\<rparr>) = keys_of db"
  by (simp_all add: keys_of_def)

lemma stmt_exists [tx_keeps]:
  "tx_inv (rule_exists k i) (update_opp j f)" "tx_inv (rule_exists k i) (update_alloc j g)"
  "tx_inv (rule_exists k i) (clear_members a)" "tx_inv (rule_exists k i) (put_member a x)"
  "tx_inv (rule_exists k i) (add_member a x)" "tx_inv (rule_exists k i) (update_settings h)"
  "tx_inv (rule_exists k i) (insert_settings s)"
  unfolding update_opp_def update_alloc_def clear_members_def put_member_def add_member_def update_settings_def
    insert_settings_def
  by (rule tx_inv_stmt tx_inv_update; auto simp: rule_exists_keys split: option.splits prod.splits if_splits)+

lemma insert_exists [tx_keeps]:
  "tx_inv (rule_exists k i) (insert_opp r)" "tx_inv (rule_exists k i) (insert_alloc q)"
  unfolding insert_opp_def insert_alloc_def
  by (rule tx_inv_stmt, cases k, auto simp: rule_exists_keys keys_of_def)+

lemma fst_filter_other [simp]: "fst ` {x \<in> set xs. case x of (i, r) \<Rightarrow> i \<noteq> l} = fst ` set xs - {l}"
  by force

lemma rule_delete_exists:
  assumes "(j, l) \<noteq> (k, i)"
  shows "tx_inv (rule_exists k i) (rule_delete j l)"
  using assms
  by (cases j; cases k)
    (auto simp: delete_opp_row_def delete_alloc_row_def delete_gate_row_def rule_exists_keys keys_of_def
      intro!: tx_inv_stmt split: if_splits)

lemma delete_bodies_spare:
  assumes "rule_exists k i db" and "used k i db"
  shows "tx_ok env (rule_delete_body (rule_exists j l) (rule_check j l) (rule_delete j l)) db b db' \<Longrightarrow> rule_exists k i db'"
    and "tx_ok env (rule_delete_strict_body w (rule_exists j l) (rule_check j l) (rule_delete j l)) db u db' \<Longrightarrow> rule_exists k i db'"
  unfolding rule_delete_body_def rule_delete_strict_body_def
  using assms tx_invD [OF rule_delete_exists [of j l k i]]
  by (auto split: if_splits dest!: tx_ok_bindD tx_ok_queryD rule_checkD; metis prod.inject)+

lemma run_desk_spares:
  assumes "run_desk op db = (Inr u, db')" and "rule_exists k i db" and "used k i db"
  shows "rule_exists k i db'"
proof -
  obtain env call where op: "op = (env, call)" by force
  note legacy = legacy_transaction_keeps [where P = "rule_exists k i"]
  show ?thesis
  proof (cases call)
    case (CreateOpp cfg p)
    with assms op show ?thesis
      by (auto simp: create_opportunity_def split: sum.splits if_splits elim!: legacy
          dest: legacy_transaction_error intro!: tx_keeps)
  next
    case (UpdateOpp cfg j p)
    with assms op show ?thesis
      by (auto simp: update_opportunity_def split: sum.splits if_splits prod.splits elim!: legacy
          dest: legacy_transaction_error) (unfold update_opp_body_def, intro tx_keeps)
  next
    case (PatchOpp arg j b)
    with assms op show ?thesis
      by (auto simp: patch_opportunity_def split: sum.splits if_splits prod.splits
          elim!: strict_write_inv [where P = "rule_exists k i"]) (unfold patch_opp_body_def, intro tx_keeps)
  next
    case (CreateAlloc cfg p)
    with assms op show ?thesis
      by (auto simp: create_allocation_def split: sum.splits if_splits prod.splits elim!: legacy
          dest: legacy_transaction_error) (unfold create_alloc_body_def, intro tx_keeps)
  next
    case (UpdateAlloc cfg j p)
    with assms op show ?thesis
      by (auto simp: update_allocation_def split: sum.splits if_splits prod.splits elim!: legacy
          dest: legacy_transaction_error) (unfold update_alloc_body_def, intro tx_keeps)
  next
    case (PatchAlloc arg j b)
    with assms op show ?thesis
      by (auto simp: patch_allocation_def split: sum.splits if_splits prod.splits
          elim!: strict_write_inv [where P = "rule_exists k i"]) (unfold patch_alloc_body_def, intro tx_keeps)
  next
    case (DeleteRule cfg j l)
    with assms op show ?thesis
      by (auto simp: delete_rule_def split: if_splits dest!: legacy_transaction_ok delete_bodies_spare(1) [OF assms(2,3)])
  next
    case (DeleteRuleStrict arg j l)
    with assms op show ?thesis
      by (auto simp: delete_rule_strict_def Let_def dest!: strict_write_ok delete_bodies_spare(2) [OF assms(2,3)])
  next
    case (SetActive cfg s g a cs)
    with assms op show ?thesis
      by (auto simp: write_active_strategy_and_gates_def Let_def split: if_splits elim!: legacy
          dest: legacy_transaction_error intro!: tx_keeps)
  next
    case (WriteIb cfg h s t)
    with assms op show ?thesis
      by (auto simp: write_ib_config_def split: if_splits elim!: legacy dest: legacy_transaction_error intro!: tx_keeps)
  qed
qed

end
