(* ===== verification/Desk_Claims.thy ===== *)
theory Desk_Claims
  imports Desk_Properties "HOL-Library.Multiset"
begin

text \<open>The rule writers: the order of an allocation's opportunities, and the properties.\<close>

section \<open>The order of an allocation's opportunities\<close>

definition own :: "int \<Rightarrow> (int \<times> int \<times> int) list \<Rightarrow> (int \<times> int) list" where
  "own a ms = map snd (filter (\<lambda>m. fst m = a) ms)"

lemma member_ids_own: "member_ids db a = map fst (sort_key snd (own a (members db)))"
proof -
  have "map snd (sort_key (\<lambda>(a, b, i). i) ms) = sort_key snd (map snd ms)" for ms :: "(int \<times> int \<times> int) list"
  proof -
    have "map snd (insort_key (\<lambda>(a, b, i). i) m xs) = insort_key snd (snd m) (map snd xs)"
      for m and xs :: "(int \<times> int \<times> int) list"
      by (induction xs) (auto simp: case_prod_beta)
    then show ?thesis by (induction ms) (simp_all add: sort_key_simps)
  qed
  moreover have "filter (\<lambda>(c, b, i). c = a) (members db) = filter (\<lambda>m. fst m = a) (members db)"
    by (rule filter_cong) auto
  ultimately have "map snd (sort_key (\<lambda>(a, b, i). i) (filter (\<lambda>(c, b, i). c = a) (members db)))
      = sort_key snd (own a (members db))"
    by (simp add: own_def)
  moreover have "map (\<lambda>(a, b, i). b) ms = map fst (map snd ms)" for ms :: "(int \<times> int \<times> int) list"
    by (induction ms) auto
  ultimately show ?thesis unfolding member_ids_def by (simp only:)
qed

definition put_own :: "int \<Rightarrow> int \<Rightarrow> (int \<times> int) list \<Rightarrow> (int \<times> int) list" where
  "put_own b i xs = (if b \<in> fst ` set xs then map (\<lambda>(c, j). if c = b then (c, i) else (c, j)) xs else xs @ [(b, i)])"

lemma own_put_member:
  assumes "tx_ok env (put_member a (n, b)) db u db'"
  shows "own a (members db') = put_own b (int n) (own a (members db))"
proof -
  have "is_member db a b \<longleftrightarrow> b \<in> fst ` set (own a (members db))"
    by (force simp: is_member_def own_def list_ex_iff)
  moreover have "own a (map (\<lambda>(c, d, j). if c = a \<and> d = b then (c, d, i) else (c, d, j)) ms)
      = map (\<lambda>(c, j). if c = b then (c, i) else (c, j)) (own a ms)" for ms i
    by (induction ms) (auto simp: own_def split: if_splits)
  ultimately show ?thesis using assms
    by (auto simp: put_member_def put_own_def own_def dest!: tx_ok_stmtD split: if_splits)
qed

lemma own_add_member:
  "tx_ok env (add_member a (n, b)) db u db' \<Longrightarrow> own a (members db') = own a (members db) @ [(b, int n)]"
  by (auto simp: add_member_def own_def dest!: tx_ok_stmtD split: if_splits)

lemma remdups_snoc: "remdups (xs @ [y]) = filter (\<lambda>x. x \<noteq> y) (remdups xs) @ [y]"
  by (induction xs) auto

text \<open>After the prefix \<open>xs\<close>: the last occurrences of its ids, in order, with indices below its length.\<close>

definition ordered :: "int list \<Rightarrow> (int \<times> int) list \<Rightarrow> bool" where
  "ordered xs os \<longleftrightarrow> distinct (map fst os) \<and> distinct (map snd os) \<and> (\<forall>(b, j) \<in> set os. j < int (length xs)) \<and>
     map fst (sort_key snd os) = remdups xs"

lemma ordered_Nil: "ordered [] []"
  by (simp add: ordered_def)

lemma sort_by_snd_eqI:
  "mset ys = mset xs \<Longrightarrow> distinct (map snd xs) \<Longrightarrow> sorted (map snd ys) \<Longrightarrow> sort_key snd xs = ys"
  by (metis distinct_map set_mset_mset sort_key_inj_key_eq)

lemma mset_put_own:
  "distinct (map fst os) \<Longrightarrow> b \<in> fst ` set os \<Longrightarrow>
   mset (map (\<lambda>(c, j). if c = b then (c, i) else (c, j)) os) = add_mset (b, i) (mset (filter (\<lambda>cj. fst cj \<noteq> b) os))"
proof (induction os)
  case (Cons x os)
  obtain c j where x: "x = (c, j)" by (cases x)
  show ?case
  proof (cases "c = b")
    case True
    then have "\<forall>y \<in> set os. fst y \<noteq> b" using Cons.prems(1) x by (force simp: image_iff)
    then have "map (\<lambda>(c, j). if c = b then (c, i) else (c, j)) os = os" "filter (\<lambda>cj. fst cj \<noteq> b) os = os"
      by (auto intro!: map_idI filter_True)
    then show ?thesis by (simp add: x True)
  next
    case False
    with Cons x show ?thesis by auto
  qed
qed simp

lemma sorted_snoc_bound: "sorted ks \<Longrightarrow> (\<And>k. k \<in> set ks \<Longrightarrow> k < n) \<Longrightarrow> sorted (ks @ [n :: int])"
  by (auto simp: sorted_append less_imp_le)

lemma filter_map_fst: "map fst (filter (\<lambda>cj. fst cj \<noteq> b) ys) = filter (\<lambda>c. c \<noteq> b) (map fst ys)"
  by (induction ys) auto

lemma ordered_put:
  assumes "ordered xs os"
  shows "ordered (xs @ [b]) (put_own b (int (length xs)) os)"
proof -
  let ?n = "int (length xs)" and ?rest = "filter (\<lambda>cj. fst cj \<noteq> b) os"
  let ?ys = "filter (\<lambda>cj. fst cj \<noteq> b) (sort_key snd os) @ [(b, ?n)]"
  have d: "distinct (map fst os)" "distinct (map snd os)" and lt: "\<And>c j. (c, j) \<in> set os \<Longrightarrow> j < ?n"
    and r: "map fst (sort_key snd os) = remdups xs" using assms by (auto simp: ordered_def)
  have m: "mset (put_own b ?n os) = add_mset (b, ?n) (mset ?rest)"
  proof (cases "b \<in> fst ` set os")
    case True
    then show ?thesis using mset_put_own [OF d(1)] by (simp add: put_own_def)
  next
    case False
    then have "?rest = os" by (auto intro!: filter_True)
    with False show ?thesis by (simp add: put_own_def)
  qed
  have keys: "mset (map f (put_own b ?n os)) = add_mset (f (b, ?n)) (mset (map f ?rest))" for f :: "int \<times> int \<Rightarrow> int"
    using m by simp
  have "distinct (map fst ((b, ?n) # ?rest))" "distinct (map snd ((b, ?n) # ?rest))"
    using d by (auto simp: distinct_map_filter dest: lt)
  then have dd: "distinct (map fst (put_own b ?n os))" "distinct (map snd (put_own b ?n os))"
    using keys mset_eq_imp_distinct_iff by (metis list.simps(9) mset.simps(2))+
  have set: "set (put_own b ?n os) = insert (b, ?n) (set ?rest)"
    using m by (metis set_mset_add_mset_insert set_mset_mset)
  have "sorted (map snd (filter (\<lambda>cj. fst cj \<noteq> b) (sort_key snd os)))"
    by (simp add: sorted_filter)
  then have "sorted (map snd ?ys)" using lt by (auto intro!: sorted_snoc_bound)
  moreover have "mset ?ys = mset (put_own b ?n os)" using m by (simp add: mset_filter)
  ultimately have "sort_key snd (put_own b ?n os) = ?ys" using dd(2) by (intro sort_by_snd_eqI)
  then have "map fst (sort_key snd (put_own b ?n os)) = remdups (xs @ [b])"
    by (simp add: remdups_snoc filter_map_fst r)
  moreover have "\<forall>(c, j) \<in> set (put_own b ?n os). j < int (length (xs @ [b]))"
    using lt by (force simp: set)
  ultimately show ?thesis using dd by (simp add: ordered_def)
qed

lemma put_members_order:
  "tx_ok env (tx_each (put_member a) (enumerate (length xs) ys)) db u db' \<Longrightarrow> ordered xs (own a (members db)) \<Longrightarrow>
   ordered (xs @ ys) (own a (members db'))"
proof (induction ys arbitrary: xs db)
  case (Cons y ys)
  from Cons.prems(1) obtain db1 where 1: "tx_ok env (put_member a (length xs, y)) db () db1"
    and 2: "tx_ok env (tx_each (put_member a) (enumerate (length (xs @ [y])) ys)) db1 u db'"
    by (auto dest!: tx_ok_bindD)
  have "ordered (xs @ [y]) (own a (members db1))"
    unfolding own_put_member [OF 1] using Cons.prems(2) by (rule ordered_put)
  from Cons.IH [OF 2 this] show ?case by simp
qed simp

lemma ordered_ids: "ordered xs (own a (members db)) \<Longrightarrow> member_ids db a = remdups xs"
  by (simp add: ordered_def member_ids_own)

lemma clear_members_own: "tx_ok env (clear_members a) db u db' \<Longrightarrow> own a (members db') = []"
  by (auto simp: clear_members_def own_def dest!: tx_ok_updateD)

lemma add_members_own:
  "tx_ok env (tx_each (add_member a) (enumerate n ys)) db u db' \<Longrightarrow>
   own a (members db') = own a (members db) @ map (\<lambda>(i, b). (b, int i)) (enumerate n ys)"
proof (induction ys arbitrary: n db)
  case (Cons y ys)
  from Cons.prems obtain db1 where "tx_ok env (add_member a (n, y)) db () db1"
    "tx_ok env (tx_each (add_member a) (enumerate (Suc n) ys)) db1 u db'"
    by (auto dest!: tx_ok_bindD)
  from Cons.IH [OF this(2)] own_add_member [OF this(1)] show ?case by simp
qed simp

lemma added_ids:
  assumes "own a (members db) = map (\<lambda>(i, b). (b, int i)) (enumerate n ys)"
  shows "member_ids db a = ys"
proof -
  let ?xs = "map (\<lambda>(i, b). (b, int i)) (enumerate n ys)"
  have s: "map snd ?xs = map int [n..<n + length ys]" "map fst ?xs = ys"
    by (induction ys arbitrary: n) (simp_all add: upt_rec)
  have "sorted (map snd ?xs)" by (simp only: s) (simp add: sorted_map sorted_wrt_upt strict_sorted_imp_sorted)
  then have "sort_key snd ?xs = ?xs" by (rule sort_key_id_if_sorted)
  then show ?thesis by (simp only: member_ids_own assms s(2))
qed

section \<open>Sample data for the witnesses\<close>

definition sample_opp :: opp_row where
  "sample_opp = \<lparr>op_name = ''wheel'', op_structure = 1, op_gate = Some 5, op_scope = Some ''watchlist_stk'',
     op_active = True, op_symbols = [''SPY''], op_conditions = []\<rparr>"

definition sample_desk :: desk_db where
  "sample_desk = \<lparr>opps = [(1, sample_opp), (2, sample_opp\<lparr>op_gate := None\<rparr>)], next_opp = 3,
     allocs = [(1, \<lparr>al_name = ''main'', al_gate = Some 5, al_max_positions = Some 3, al_max_bp = None, al_active = True\<rparr>)],
     next_alloc = 2, members = [(1, 1, 0), (1, 2, 1)], gates = [5, 6], structures = [1], rule_trades = [(7, 1)],
     plan_rules = [(9, Some 2)],
     settings = Some \<lparr>st_ib_host = None, st_stream_host = None, st_stream_secondary = None, st_structure = Some 1,
       st_gate = Some 5, st_alloc = Some 1\<rparr>\<rparr>"

definition desk_cfg :: "pydict option" where
  "desk_cfg = Some [(''sink'', PStr ''postgres'')]"

lemma sample_desk_ok: "desk_fk sample_desk" "rows_ok sample_desk"
  by (simp_all add: desk_fk_def rows_ok_def sample_desk_def sample_opp_def keys_ok_def rows_all_def opp_ok_def members_ok_def
      trades_ok_def plan_links_ok_def settings_ok_def refers_def SCOPE_TYPES_def opp_rule_def alloc_rule_def)

section \<open>Properties\<close>

text \<open>
  C21. Over any sequence of calls to the rule writers, whatever fails on the way, no reference
  dangles (opportunity to structure and gate set, allocation to gate set, membership to both
  sides, trade and plan to opportunity, the daemon's settings to all three), every stored
  opportunity and allocation has a name, a \<open>watchlist_stk\<close> opportunity has a symbol, and limits
  are not negative.
\<close>

theorem desk_integrity:
  assumes "desk_fk db" and "rows_ok db"
  shows "desk_fk (desk_writers.run_all ops db) \<and> rows_ok (desk_writers.run_all ops db)"
  using desk_rows.run_all_keeps_inv assms by blast

theorem desk_integrity_witness:
  "desk_fk (desk_writers.run_all [(calm_env 0, DeleteRule desk_cfg Opportunity 2), (calm_env 0, DeleteRule desk_cfg GateSet 6)]
     sample_desk)"
  using desk_integrity [OF sample_desk_ok] by blast

text \<open>
  C11. What is in use stays: an opportunity with trades, the allocation the daemon runs, a gate
  set that an opportunity, an allocation or the daemon uses still exists after any call.
\<close>

theorem rule_in_use_survives:
  assumes "rule_exists k i db" and "used k i db"
  shows "rule_exists k i (snd (run_desk op db))"
proof (cases "fst (run_desk op db)")
  case (Inl e)
  then show ?thesis using run_desk_error [of op db e "snd (run_desk op db)"] assms by (simp add: prod_eq_iff)
next
  case (Inr u)
  then have "run_desk op db = (Inr u, snd (run_desk op db))" by (simp add: prod_eq_iff)
  from run_desk_spares [OF this assms] show ?thesis .
qed

theorem rule_in_use_survives_witness:
  "rule_exists Opportunity 1 (snd (run_desk (calm_env 0, DeleteRuleStrict ConnLive Opportunity 1) sample_desk))"
proof (rule rule_in_use_survives)
  show "rule_exists Opportunity 1 sample_desk" "used Opportunity 1 sample_desk" by code_simp+
qed

text \<open>
  When the database answers, a strict delete refuses a missing object as not found and one in
  use as in use, changing nothing; otherwise the object is gone and every other one is still there.
\<close>

theorem delete_rule_strict_outcome:
  "case delete_rule_strict (calm_env t) ConnLive k i db of (r, db') \<Rightarrow>
     if \<not> rule_exists k i db then db' = db \<and> (\<exists>m. r = Inl (Write (NotFound m)))
     else if used k i db then db' = db \<and> (\<exists>m. r = Inl (Write (RuleInUse m)))
     else r = Inr () \<and> \<not> rule_exists k i db' \<and> (\<forall>j l. (j, l) \<noteq> (k, i) \<longrightarrow> rule_exists j l db' = rule_exists j l db)"
proof (cases k)
  case Opportunity
  have "(length (filter (\<lambda>(t, j). j = i) (rule_trades db)) = 0) = (i \<notin> snd ` set (rule_trades db))"
    by (rule count_trades)
  with Opportunity show ?thesis
    by (auto simp: delete_rule_strict_def strict_write_def write_connection_def write_transaction_def rule_delete_strict_body_def
        check_opportunity_def delete_opp_row_def tx_simps raising_def Let_def rule_exists_keys keys_of_def map_of_eq_None_iff
        split: rule_kind.splits)
next
  case Allocation
  then show ?thesis
    by (auto simp: delete_rule_strict_def strict_write_def write_connection_def write_transaction_def rule_delete_strict_body_def
        check_allocation_def daemon_setting_def daemon_points_def delete_alloc_row_def map_of_eq_None_iff tx_simps raising_def Let_def rule_exists_keys keys_of_def
        split: rule_kind.splits option.splits)
next
  case GateSet
  then show ?thesis
    by (auto simp: delete_rule_strict_def strict_write_def write_connection_def write_transaction_def rule_delete_strict_body_def
        check_gate_safety_def daemon_setting_def daemon_points_def delete_gate_row_def tx_simps raising_def Let_def rule_exists_keys keys_of_def
        split: rule_kind.splits option.splits)
qed

theorem delete_rule_strict_outcome_witness:
  "fst (delete_rule_strict (calm_env 0) ConnLive Opportunity 2 sample_desk) = Inr () \<and>
   \<not> rule_exists Opportunity 2 (snd (delete_rule_strict (calm_env 0) ConnLive Opportunity 2 sample_desk))"
proof -
  have here: "rule_exists Opportunity 2 sample_desk" "\<not> used Opportunity 2 sample_desk" by code_simp+
  obtain r db' where run: "delete_rule_strict (calm_env 0) ConnLive Opportunity 2 sample_desk = (r, db')" by (rule prod.exhaust)
  from delete_rule_strict_outcome [where t = 0 and k = Opportunity and i = 2 and db = sample_desk, unfolded run prod.case] here
  show ?thesis unfolding run fst_conv snd_conv by argo
qed

lemma replaced_members:
  "tx_ok env (replace_members add_member a (Some ids)) db u db' \<Longrightarrow> member_ids db' a = ids"
  "tx_ok env (replace_members put_member a (Some ids)) db u db' \<Longrightarrow> member_ids db' a = remdups ids"
proof -
  show "tx_ok env (replace_members add_member a (Some ids)) db u db' \<Longrightarrow> member_ids db' a = ids"
    by (auto simp: replace_members_def dest!: tx_ok_bindD clear_members_own add_members_own intro!: added_ids)
  assume "tx_ok env (replace_members put_member a (Some ids)) db u db'"
  then obtain db1 where "own a (members db1) = []" and
    run: "tx_ok env (tx_each (put_member a) (enumerate (length ([] :: int list)) ids)) db1 u db'"
    by (auto simp: replace_members_def dest!: tx_ok_bindD clear_members_own)
  then have "ordered [] (own a (members db1))" by (simp add: ordered_Nil)
  from put_members_order [OF run this] show "member_ids db' a = remdups ids" by (simp add: ordered_ids)
qed

lemma patch_ids_distinct: "patch_opportunity_ids v = Inr ids \<Longrightarrow> distinct ids"
  by (auto simp: patch_opportunity_ids_def split: if_splits)

lemma spread_limits_other:
  "spread_limits out ls = Inr fs \<Longrightarrow> dhas out k \<Longrightarrow> dhas fs k \<and> dget fs k = dget out k"
proof (induction ls arbitrary: out)
  case (Cons l ls)
  obtain a b where l: "l = (a, b)" by force
  with Cons.prems have "\<not> dhas out a" "spread_limits (out @ [(a, b)]) ls = Inr fs" by (auto split: if_splits)
  moreover have "dhas (out @ [(a, b)]) k \<and> dget (out @ [(a, b)]) k = dget out k"
    using Cons.prems(2) by (auto simp: dhas_def dget_def map_add_Some_iff split: option.splits)
  ultimately show ?case using Cons.IH by metis
qed simp

lemma expand_keeps_ids:
  assumes "expand_allocation_limits fs = Inr fs'" and "dhas fs ''strategy_opportunity_ids''"
  shows "dhas fs' ''strategy_opportunity_ids'' \<and> dget fs' ''strategy_opportunity_ids'' = dget fs ''strategy_opportunity_ids''"
proof -
  let ?out = "filter (\<lambda>(k, v). k \<noteq> ''allocation_limits'') fs"
  have "map_of ?out k = (if k = ''allocation_limits'' then None else map_of fs k)" for k
    by (induction fs) auto
  then have "dhas ?out ''strategy_opportunity_ids'' = dhas fs ''strategy_opportunity_ids''"
    "dget ?out ''strategy_opportunity_ids'' = dget fs ''strategy_opportunity_ids''"
    by (simp_all add: dhas_def dget_def)
  with assms show ?thesis
    by (auto simp: expand_allocation_limits_def Let_def split: if_splits dest: spread_limits_other)
qed

text \<open>
  A PATCH that sends the opportunities of an allocation stores exactly those, each once, in the
  order sent, and that order is what it returns.
\<close>

theorem patched_membership_is_stored_in_order:
  assumes "patch_allocation env arg aid (PDict fs) db = (Inr (r, read), db')"
    and "dhas fs ''strategy_opportunity_ids''"
  shows "patch_opportunity_ids (dget fs ''strategy_opportunity_ids'') = Inr read \<and>
         member_ids db' aid = read \<and> distinct read"
proof -
  from assms(1) obtain fs' f ids where
    fs': "expand_allocation_limits fs = Inr fs'" and cols: "patch_alloc_columns fs' = Inr (f, ids)" and
    run: "strict_write (''allocation '' @ int_str aid) FkInvalid (patch_alloc_body aid f ids) env arg db = (Inr (r, read), db')"
    by (auto simp: patch_allocation_def check_fields_ok split: sum.splits if_splits)
  have same: "dhas fs' ''strategy_opportunity_ids'' \<and> dget fs' ''strategy_opportunity_ids'' = dget fs ''strategy_opportunity_ids''"
    using fs' assms(2) by (rule expand_keeps_ids)
  with cols obtain sent_ids where ids: "ids = Some sent_ids"
    "patch_opportunity_ids (dget fs ''strategy_opportunity_ids'') = Inr sent_ids"
    by (auto simp: patch_alloc_columns_def sent_field_def split: if_splits)
  from strict_write_ok [OF run] have "member_ids db' aid = sent_ids \<and> read = member_ids db' aid"
    unfolding patch_alloc_body_def ids(1)
    by (auto split: if_splits option.splits simp: get_allocation_def
        dest!: tx_ok_bindD tx_ok_try_queryD) (drule replaced_members(1), assumption)
  with ids(2) show ?thesis using patch_ids_distinct by blast
qed

theorem patched_membership_is_stored_in_order_witness:
  "\<exists>r db'. patch_allocation (calm_env 0) ConnLive 1
      (PDict [(''strategy_opportunity_ids'', PList [PInt 2, PInt 1])]) sample_desk = (Inr (r, [2, 1]), db') \<and>
    member_ids db' 1 = [2, 1]"
proof -
  let ?fs = "[(''strategy_opportunity_ids'', PList [PInt 2, PInt 1])]"
  let ?run = "patch_allocation (calm_env 0) ConnLive 1 (PDict ?fs) sample_desk"
  have "map_sum id snd (fst ?run) = Inr [2, 1]" by code_simp
  then obtain r where "?run = (Inr (r, [2, 1]), snd ?run)" by (cases "fst ?run") (auto simp: prod_eq_iff)
  moreover have "dhas ?fs ''strategy_opportunity_ids''" by code_simp
  ultimately show ?thesis using patched_membership_is_stored_in_order by blast
qed

lemma legacy_transaction_true:
  assumes "legacy_transaction m env s = (Inr True, s')"
    and "\<And>c v t. tx_ok env m s (c, v) t \<Longrightarrow> v \<Longrightarrow> c"
  shows "tx_ok env m s (True, True) s'"
proof -
  obtain c v t n where m: "m env (s, 0) = (Inr (c, v), (t, n))" and "v"
    using assms(1) by (auto simp: legacy_transaction_def split: prod.splits sum.splits if_splits option.splits)
  then have "c" using assms(2) [of c v t] unfolding tx_ok_def by blast
  with m assms(1) \<open>v\<close> have "t = s'" by (auto simp: legacy_transaction_def split: option.splits)
  with m \<open>c\<close> \<open>v\<close> show ?thesis unfolding tx_ok_def by auto
qed

text \<open>
  A PUT that sends the opportunities of an allocation, and is answered true, stores each of
  them once, at its last place in the list sent.
\<close>

theorem put_membership_keeps_last_places:
  assumes "update_allocation env cfg aid p db = (Inr True, db')" and "dhas p ''strategy_opportunity_ids''"
    and "normalize_opportunity_ids (dget p ''strategy_opportunity_ids'') = Inr ids"
  shows "member_ids db' aid = remdups ids"
proof -
  from assms(1) obtain f ms where args: "update_alloc_args p = Inr (ms, f)" and
    run: "legacy_transaction (update_alloc_body aid f ms) env db = (Inr True, db')"
    by (auto simp: update_allocation_def split: if_splits sum.splits)
  from args assms(2,3) have ms: "ms = Some ids"
    by (auto simp: update_alloc_args_def sent_field_def Let_def split: if_splits)
  from run have "tx_ok env (update_alloc_body aid f ms) db (True, True) db'"
    by (rule legacy_transaction_true) (auto simp: update_alloc_body_def split: if_splits dest!: tx_ok_bindD)
  then show ?thesis unfolding update_alloc_body_def ms
    by (auto split: if_splits option.splits dest!: tx_ok_bindD) (erule replaced_members(2))+
qed

theorem put_membership_keeps_last_places_witness:
  "member_ids (snd (update_allocation (calm_env 0) desk_cfg 1
     [(''strategy_opportunity_ids'', PList [PInt 1, PStr ''2'', PStr ''x'', PInt 1])] sample_desk)) 1 = [2, 1]"
proof -
  let ?p = "[(''strategy_opportunity_ids'', PList [PInt 1, PStr ''2'', PStr ''x'', PInt 1])]"
  let ?run = "update_allocation (calm_env 0) desk_cfg 1 ?p sample_desk"
  have "fst ?run = Inr True" by code_simp
  then have "?run = (Inr True, snd ?run)" by (simp add: prod_eq_iff)
  moreover have "dhas ?p ''strategy_opportunity_ids''" "normalize_opportunity_ids (dget ?p ''strategy_opportunity_ids'') = Inr [1, 2, 1]"
    by code_simp+
  ultimately have "member_ids (snd ?run) 1 = remdups [1, 2, 1]" by (rule put_membership_keeps_last_places)
  then show ?thesis by simp
qed

text \<open>
  \<open>update_allocation\<close> answers true, and changes nothing, for an allocation that does not exist
  when the body only empties its opportunities: no statement of that path looks for the row.
\<close>

theorem update_allocation_true_for_missing_row:
  assumes "desk_fk db" and "map_of (allocs db) aid = None" and "conn_from_config (calm_env t) cfg"
  shows "update_allocation (calm_env t) cfg aid [(''strategy_opportunity_ids'', PList [])] db = (Inr True, db)"
proof -
  let ?p = "[(''strategy_opportunity_ids'', PList [])]"
  have "aid \<notin> fst ` set (allocs db)" using assms(2) by (simp add: map_of_eq_None_iff)
  then have "\<forall>m \<in> set (members db). fst m \<noteq> aid"
    using assms(1) by (auto simp: desk_fk_def members_ok_def)
  then have "filter (\<lambda>m. fst m \<noteq> aid) (members db) = members db" by (simp add: filter_True)
  moreover have "update_alloc_args ?p = Inr (Some [], None)"
    by (simp add: update_alloc_args_def sent_field_def gate_id_def dget_def dhas_def row_id_def integer_def
        normalize_opportunity_ids_def Let_def)
  ultimately show ?thesis
    using assms(3)
    by (simp add: update_allocation_def update_alloc_body_def replace_members_def clear_members_def legacy_transaction_def
        swallowing_def tx_simps)
qed

theorem update_allocation_true_for_missing_row_witness:
  "update_allocation (calm_env 0) desk_cfg 9 [(''strategy_opportunity_ids'', PList [])] sample_desk = (Inr True, sample_desk)"
proof (rule update_allocation_true_for_missing_row [OF sample_desk_ok(1)])
  show "map_of (allocs sample_desk) 9 = None" by (simp add: sample_desk_def)
  show "conn_from_config (calm_env 0) desk_cfg" by code_simp
qed

end
