(* ===== verification/Payoff.thy ===== *)
theory Payoff
  imports Py_Value
begin

text \<open>
  The intrinsic payoff engine (\<open>portfolio/model/payoff.py\<close>): the payoff of an option structure
  over covered shares at one underlying price, the price grid, the envelope read off the grid
  and the hedged variant without the naked short calls. Prices and costs are finite floats.
\<close>

section \<open>Positions\<close>

record risk_position =
  rp_strike :: rat
  rp_right :: string
  rp_qty :: int
  rp_avg_cost :: rat
  rp_expiry :: "date option"

record scenario =
  sc_price :: rat
  sc_options :: rat
  sc_stock :: rat

record grid_row =
  gr_price :: rat
  gr_options :: rat
  gr_stock :: rat
  gr_total :: rat

definition is_call :: "risk_position \<Rightarrow> bool" where
  "is_call p \<longleftrightarrow> rp_right p = ''C''"

definition intrinsic :: "risk_position \<Rightarrow> rat \<Rightarrow> rat" where
  "intrinsic p price = (if is_call p then max (price - rp_strike p) 0 else max (rp_strike p - price) 0)"

definition leg_payoff :: "rat \<Rightarrow> risk_position \<Rightarrow> rat" where
  "leg_payoff price p =
     (if rp_qty p > 0 then (intrinsic p price - rp_avg_cost p) * of_int \<bar>rp_qty p\<bar> * 100
      else (rp_avg_cost p - intrinsic p price) * of_int \<bar>rp_qty p\<bar> * 100)"

definition payoff_options_at_price :: "risk_position list \<Rightarrow> rat \<Rightarrow> rat" where
  "payoff_options_at_price ps price = sum_list (map (leg_payoff price) ps)"

definition payoff_stock_at_price :: "int \<Rightarrow> rat option \<Rightarrow> rat \<Rightarrow> rat" where
  "payoff_stock_at_price covered avg price = (case avg of
       None \<Rightarrow> 0
     | Some c \<Rightarrow> if covered \<le> 0 then 0 else (price - c) * of_int covered)"

text \<open>The whole structure at one price.\<close>

definition payoff :: "risk_position list \<Rightarrow> int \<Rightarrow> rat option \<Rightarrow> rat \<Rightarrow> rat" where
  "payoff ps covered avg price = payoff_options_at_price ps price + payoff_stock_at_price covered avg price"

section \<open>The grid\<close>

definition strikes_of :: "risk_position list \<Rightarrow> rat list" where
  "strikes_of ps = sort (remdups (map rp_strike ps))"

definition price_points :: "risk_position list \<Rightarrow> rat list" where
  "price_points ps = (let strikes = strikes_of ps in
     [0] @ strikes @ (if strikes = [] then [] else [last strikes * 2]))"

definition grid_row_at :: "risk_position list \<Rightarrow> int \<Rightarrow> rat option \<Rightarrow> rat \<Rightarrow> grid_row" where
  "grid_row_at ps covered avg price =
     (let opt = payoff_options_at_price ps price; stk = payoff_stock_at_price covered avg price
      in \<lparr>gr_price = price, gr_options = opt, gr_stock = stk, gr_total = opt + stk\<rparr>)"

definition get_risk_grid_rows :: "risk_position list \<Rightarrow> int \<Rightarrow> rat option \<Rightarrow> grid_row list" where
  "get_risk_grid_rows ps covered avg =
     (if ps = [] \<and> covered \<le> 0 then [] else map (grid_row_at ps covered avg) (price_points ps))"

section \<open>The envelope\<close>

record envelope =
  ev_max_gain :: "rat option"
  ev_max_loss :: "rat option"
  ev_unlimited :: bool
  ev_breakevens :: "rat list"
  ev_gain_scenario :: "scenario option"
  ev_gain_sample :: "scenario option"
  ev_loss_scenario :: "scenario option"

definition round_scenario :: "grid_row \<Rightarrow> scenario" where
  "round_scenario r = \<lparr>sc_price = round2 (gr_price r), sc_options = round2 (gr_options r), sc_stock = round2 (gr_stock r)\<rparr>"

definition net_short_call :: "risk_position list \<Rightarrow> int" where
  "net_short_call ps = sum_list (map (\<lambda>p. \<bar>rp_qty p\<bar> * 100) (filter (\<lambda>p. is_call p \<and> rp_qty p < 0) ps))"

definition net_long_call :: "risk_position list \<Rightarrow> int" where
  "net_long_call ps = sum_list (map (\<lambda>p. rp_qty p * 100) (filter (\<lambda>p. is_call p \<and> rp_qty p > 0) ps))"

definition unlimited_downside :: "risk_position list \<Rightarrow> int \<Rightarrow> bool" where
  "unlimited_downside ps covered \<longleftrightarrow> net_short_call ps - net_long_call ps - covered > 0"

definition unlimited_upside :: "risk_position list \<Rightarrow> int \<Rightarrow> bool" where
  "unlimited_upside ps covered \<longleftrightarrow>
     net_long_call ps > net_short_call ps + covered \<or> (covered > 0 \<and> net_short_call ps = 0)"

text \<open>Where the line between two adjacent grid points crosses zero.\<close>

definition zero_between :: "grid_row \<Rightarrow> grid_row \<Rightarrow> rat" where
  "zero_between a b = gr_price a + gr_total a / (gr_total a - gr_total b) * (gr_price b - gr_price a)"

fun crossings :: "grid_row list \<Rightarrow> rat list" where
  "crossings (a # b # rest) =
     (if gr_total a \<ge> 0 \<and> gr_total b < 0 \<or> gr_total a < 0 \<and> gr_total b \<ge> 0
      then (if gr_price b \<noteq> gr_price a then [round2 (zero_between a b)] else [])
      else if gr_total a = 0 \<and> gr_price a > 0 then [gr_price a] else []) @ crossings (b # rest)"
| "crossings _ = []"

definition breakevens_of :: "grid_row list \<Rightarrow> rat list" where
  "breakevens_of rows =
     (let bs = crossings rows
      in if rows \<noteq> [] \<and> gr_total (last rows) = 0 \<and> gr_price (last rows) > 0 \<and> gr_price (last rows) \<notin> set bs
         then bs @ [gr_price (last rows)] else bs)"

definition first_min :: "grid_row list \<Rightarrow> grid_row" where
  "first_min rows = foldl (\<lambda>m r. if gr_total r < gr_total m then r else m) (hd rows) (tl rows)"

definition first_max :: "grid_row list \<Rightarrow> grid_row" where
  "first_max rows = foldl (\<lambda>m r. if gr_total r > gr_total m then r else m) (hd rows) (tl rows)"

definition compute_envelope :: "risk_position list \<Rightarrow> int \<Rightarrow> rat option \<Rightarrow> envelope" where
  "compute_envelope ps covered avg =
     (if ps = [] \<and> covered \<le> 0
      then \<lparr>ev_max_gain = Some 0, ev_max_loss = Some 0, ev_unlimited = False, ev_breakevens = [],
            ev_gain_scenario = None, ev_gain_sample = None, ev_loss_scenario = None\<rparr>
      else (let rows = get_risk_grid_rows ps covered avg; totals = map gr_total rows;
                down = unlimited_downside ps covered; up = unlimited_upside ps covered
            in \<lparr>ev_max_gain = (if up then None else Some (Max (set totals))),
                ev_max_loss = (if down then None else Some (Min (set totals))),
                ev_unlimited = down,
                ev_breakevens = breakevens_of rows,
                ev_gain_scenario = (if up then None else Some (round_scenario (first_max rows))),
                ev_gain_sample = Some (round_scenario (first_max rows)),
                ev_loss_scenario = (if down then None else Some (round_scenario (first_min rows)))\<rparr>))"

section \<open>Without the naked short calls\<close>

fun strip_plan :: "int \<Rightarrow> (nat \<times> risk_position) list \<Rightarrow> (nat \<times> int) list" where
  "strip_plan rem [] = []"
| "strip_plan rem ((i, p) # rest) =
     (if rem \<le> 0 then []
      else (let dec = min rem \<bar>rp_qty p\<bar> in (i, rp_qty p + dec) # strip_plan (rem - dec) rest))"

definition strip_naked_short_calls :: "risk_position list \<Rightarrow> int \<Rightarrow> risk_position list" where
  "strip_naked_short_calls ps contracts =
     (if contracts \<le> 0 then ps
      else (let shorts = sort_key (\<lambda>(i, p). - rp_strike p) (filter (\<lambda>(i, p). is_call p \<and> rp_qty p < 0) (enumerate 0 ps));
                plan = strip_plan contracts shorts
            in concat (map (\<lambda>(i, p). case map_of plan i of
                 None \<Rightarrow> [p]
               | Some nq \<Rightarrow> if nq \<noteq> 0 then [p\<lparr>rp_qty := nq\<rparr>] else []) (enumerate 0 ps))))"

section \<open>The profile\<close>

record risk_profile =
  pr_max_gain :: "rat option"
  pr_max_loss :: "rat option"
  pr_unlimited :: bool
  pr_breakevens :: "rat list"
  pr_gain_scenario :: "scenario option"
  pr_gain_sample :: "scenario option"
  pr_loss_scenario :: "scenario option"
  pr_net_premium :: rat
  pr_naked_contracts :: int
  pr_hedged_max_loss :: "rat option"
  pr_hedged_scenario :: "scenario option"
  pr_shares_modeled :: int
  pr_avg_cost_known :: bool

definition leg_premium :: "risk_position \<Rightarrow> rat" where
  "leg_premium p = (if rp_qty p < 0 then rp_avg_cost p * of_int \<bar>rp_qty p\<bar> * 100
     else - (rp_avg_cost p * of_int \<bar>rp_qty p\<bar> * 100))"

definition naked_contracts :: "risk_position list \<Rightarrow> int \<Rightarrow> int" where
  "naked_contracts ps covered =
     (let residual = max 0 (net_short_call ps - net_long_call ps - covered)
      in if residual > 0 then \<lceil>(of_int residual / 100 :: rat)\<rceil> else 0)"

definition compute_risk_profile :: "risk_position list \<Rightarrow> int \<Rightarrow> rat option \<Rightarrow> risk_profile" where
  "compute_risk_profile ps covered avg =
     (let known = (covered \<le> 0 \<or> avg \<noteq> None)
      in if ps = []
         then \<lparr>pr_max_gain = Some 0, pr_max_loss = Some 0, pr_unlimited = False, pr_breakevens = [],
               pr_gain_scenario = None, pr_gain_sample = None, pr_loss_scenario = None, pr_net_premium = 0,
               pr_naked_contracts = 0, pr_hedged_max_loss = None, pr_hedged_scenario = None,
               pr_shares_modeled = covered, pr_avg_cost_known = known\<rparr>
         else (let naked = naked_contracts ps covered; e = compute_envelope ps covered avg;
                   h = compute_envelope (strip_naked_short_calls ps naked) covered avg
               in \<lparr>pr_max_gain = map_option round2 (ev_max_gain e), pr_max_loss = map_option round2 (ev_max_loss e),
                   pr_unlimited = ev_unlimited e, pr_breakevens = ev_breakevens e,
                   pr_gain_scenario = ev_gain_scenario e, pr_gain_sample = ev_gain_sample e,
                   pr_loss_scenario = ev_loss_scenario e, pr_net_premium = round2 (sum_list (map leg_premium ps)),
                   pr_naked_contracts = naked,
                   pr_hedged_max_loss = (if naked > 0 then map_option round2 (ev_max_loss h) else None),
                   pr_hedged_scenario = (if naked > 0 then ev_loss_scenario h else None),
                   pr_shares_modeled = covered, pr_avg_cost_known = known\<rparr>))"

text \<open>\<open>shares_backing_short_calls\<close> of \<open>portfolio/model/core.py\<close>: the cover the envelope is given.\<close>

definition shares_backing_short_calls :: "risk_position list \<Rightarrow> int \<Rightarrow> int" where
  "shares_backing_short_calls ps stock = min (max stock 0) (max 0 (net_short_call ps - net_long_call ps))"

end
