(* ===== verification/Payoff_Envelope.thy ===== *)
theory Payoff_Envelope
  imports Payoff
begin

text \<open>
  The envelope is exact: the payoff is a straight line between neighbouring grid points and beyond
  the last strike, so its extremes over all prices are on the grid, unless the last line falls
  (or rises) without end.
\<close>

section \<open>Straight lines\<close>

definition straight :: "rat set \<Rightarrow> (rat \<Rightarrow> rat) \<Rightarrow> bool" where
  "straight X f \<longleftrightarrow> (\<exists>m c. \<forall>x \<in> X. f x = m * x + c)"

lemma straightI: "(\<And>x. x \<in> X \<Longrightarrow> f x = m * x + c) \<Longrightarrow> straight X f"
  unfolding straight_def by blast

lemma straight_const [simp]: "straight X (\<lambda>x. c)"
  by (rule straightI [of X _ 0 c]) simp

lemma straight_add:
  assumes "straight X f" and "straight X g"
  shows "straight X (\<lambda>x. f x + g x)"
proof -
  from assms obtain m c n d where "\<forall>x \<in> X. f x = m * x + c" "\<forall>x \<in> X. g x = n * x + d"
    unfolding straight_def by blast
  then have "\<forall>x \<in> X. f x + g x = (m + n) * x + (c + d)" by (simp add: algebra_simps)
  then show ?thesis unfolding straight_def by blast
qed

lemma straight_scale:
  assumes "straight X f"
  shows "straight X (\<lambda>x. f x * k)"
proof -
  from assms obtain m c where "\<forall>x \<in> X. f x = m * x + c" unfolding straight_def by blast
  then have "\<forall>x \<in> X. f x * k = (m * k) * x + c * k" by (simp add: algebra_simps)
  then show ?thesis unfolding straight_def by blast
qed

lemma straight_cong: "straight X f \<Longrightarrow> (\<And>x. x \<in> X \<Longrightarrow> g x = f x) \<Longrightarrow> straight X g"
  by (simp add: straight_def)

lemma straight_sum: "(\<And>p. p \<in> set ps \<Longrightarrow> straight X (f p)) \<Longrightarrow> straight X (\<lambda>x. sum_list (map (\<lambda>p. f p x) ps))"
  by (induction ps) (simp_all add: straight_add)

lemma straight_bounds:
  assumes "straight {a..b} f" and "a \<le> x" and "x \<le> b"
  shows "min (f a) (f b) \<le> f x" and "f x \<le> max (f a) (f b)"
proof -
  from assms obtain m c where f: "f x = m * x + c" "f a = m * a + c" "f b = m * b + c"
    unfolding straight_def by auto
  have "m * a \<le> m * x \<and> m * x \<le> m * b \<or> m * b \<le> m * x \<and> m * x \<le> m * a"
    using assms(2,3) by (cases "0 \<le> m") (auto intro: mult_left_mono mult_left_mono_neg)
  then show "min (f a) (f b) \<le> f x" and "f x \<le> max (f a) (f b)" by (auto simp: f)
qed

section \<open>The payoff between two grid points\<close>

lemma intrinsic_straight:
  assumes "rp_strike p \<le> a \<or> b \<le> rp_strike p"
  shows "straight {a..b} (intrinsic p)"
proof (cases "is_call p")
  case True
  show ?thesis
  proof (cases "rp_strike p \<le> a")
    case le: True
    show ?thesis by (rule straightI [of _ _ 1 "- rp_strike p"]) (use True le in \<open>auto simp: intrinsic_def max_def\<close>)
  next
    case False
    with assms have "b \<le> rp_strike p" by simp
    then show ?thesis by (intro straightI [of _ _ 0 0]) (use True in \<open>auto simp: intrinsic_def max_def\<close>)
  qed
next
  case put: False
  show ?thesis
  proof (cases "rp_strike p \<le> a")
    case le: True
    show ?thesis by (rule straightI [of _ _ 0 0]) (use put le in \<open>auto simp: intrinsic_def max_def\<close>)
  next
    case False
    with assms have "b \<le> rp_strike p" by simp
    then show ?thesis by (intro straightI [of _ _ "- 1" "rp_strike p"]) (use put in \<open>auto simp: intrinsic_def max_def\<close>)
  qed
qed

text \<open>One formula for both signs of the quantity.\<close>

lemma leg_payoff_eq: "leg_payoff x p = (intrinsic p x - rp_avg_cost p) * of_int (rp_qty p) * 100"
  by (auto simp: leg_payoff_def algebra_simps abs_if)

lemma leg_straight:
  assumes "straight X (intrinsic p)"
  shows "straight X (\<lambda>x. leg_payoff x p)"
proof -
  have "straight X (\<lambda>x. (intrinsic p x + - rp_avg_cost p) * (of_int (rp_qty p) * 100))"
    by (intro straight_scale straight_add assms straight_const)
  then show ?thesis by (rule straight_cong) (simp add: leg_payoff_eq mult.assoc)
qed

lemma stock_straight: "straight X (payoff_stock_at_price covered avg)"
proof (cases "avg = None \<or> covered \<le> 0")
  case True
  then show ?thesis by (intro straightI [of _ _ 0 0]) (auto simp: payoff_stock_at_price_def split: option.splits)
next
  case False
  then obtain c where "avg = Some c" "\<not> covered \<le> 0" by auto
  then show ?thesis
    by (intro straightI [of _ _ "of_int covered" "- c * of_int covered"])
      (simp add: payoff_stock_at_price_def algebra_simps)
qed

lemma payoff_straight:
  assumes "\<And>p. p \<in> set ps \<Longrightarrow> rp_strike p \<le> a \<or> b \<le> rp_strike p"
  shows "straight {a..b} (payoff ps covered avg)"
  unfolding payoff_def payoff_options_at_price_def
  by (intro straight_add straight_sum leg_straight intrinsic_straight assms stock_straight)

section \<open>The payoff beyond the last strike\<close>

definition slope :: "risk_position list \<Rightarrow> int \<Rightarrow> int" where
  "slope ps covered = net_long_call ps - net_short_call ps + covered"

lemma net_calls: "net_long_call ps - net_short_call ps = sum_list (map (\<lambda>p. if is_call p then rp_qty p * 100 else 0) ps)"
  by (induction ps) (auto simp: net_long_call_def net_short_call_def)

lemma leg_beyond:
  assumes "rp_strike p \<le> a" and "a \<le> x"
  shows "leg_payoff x p = leg_payoff a p + of_int (if is_call p then rp_qty p * 100 else 0) * (x - a)"
  using assms by (simp add: leg_payoff_eq intrinsic_def algebra_simps max_def)

lemma options_beyond:
  assumes "\<And>p. p \<in> set ps \<Longrightarrow> rp_strike p \<le> a" and "a \<le> x"
  shows "payoff_options_at_price ps x = payoff_options_at_price ps a + of_int (net_long_call ps - net_short_call ps) * (x - a)"
proof -
  have "sum_list (map (leg_payoff x) ps) = sum_list (map (\<lambda>p. leg_payoff a p +
      of_int (if is_call p then rp_qty p * 100 else 0) * (x - a)) ps)"
    by (rule arg_cong [of _ _ sum_list], rule map_cong) (use assms leg_beyond in auto)
  also have "\<dots> = sum_list (map (leg_payoff a) ps) + sum_list (map (\<lambda>p. of_int (if is_call p then rp_qty p * 100 else 0)) ps) * (x - a)"
    by (induction ps) (simp_all add: algebra_simps)
  also have "sum_list (map (\<lambda>p. of_int (if is_call p then rp_qty p * 100 else 0)) ps)
      = (of_int (sum_list (map (\<lambda>p. if is_call p then rp_qty p * 100 else 0) ps)) :: rat)"
    by (induction ps) simp_all
  finally show ?thesis by (simp only: payoff_options_at_price_def net_calls)
qed

lemma payoff_beyond:
  assumes "\<And>p. p \<in> set ps \<Longrightarrow> rp_strike p \<le> a" and "a \<le> x" and "0 \<le> covered" and "covered = 0 \<or> avg \<noteq> None"
  shows "payoff ps covered avg x = payoff ps covered avg a + of_int (slope ps covered) * (x - a)"
proof -
  have "payoff_stock_at_price covered avg x = payoff_stock_at_price covered avg a + of_int covered * (x - a)"
    using assms(3,4) by (auto simp: payoff_stock_at_price_def algebra_simps split: option.splits)
  with options_beyond [of ps a x, OF assms(1,2)] show ?thesis
    by (simp add: payoff_def slope_def algebra_simps)
qed

section \<open>Every price lies between two grid points or beyond the last strike\<close>

lemma bracket:
  assumes "sorted (a # ks)" and "a \<le> x" and "x \<le> last (a # ks)"
  shows "\<exists>u v. u \<in> set (a # ks) \<and> v \<in> set (a # ks) \<and> u \<le> x \<and> x \<le> v \<and> (\<forall>k \<in> set (a # ks). k \<le> u \<or> v \<le> k)"
  using assms
proof (induction ks arbitrary: a)
  case (Cons k ks)
  show ?case
  proof (cases "x \<le> k")
    case True
    with Cons.prems show ?thesis by (intro exI [of _ a] exI [of _ k]) auto
  next
    case False
    then have "k \<le> x" by simp
    moreover have "sorted (k # ks)" "x \<le> last (k # ks)" using Cons.prems by simp_all
    ultimately obtain u v where
      uv: "u \<in> set (k # ks)" "v \<in> set (k # ks)" "u \<le> x" "x \<le> v" "\<forall>j \<in> set (k # ks). j \<le> u \<or> v \<le> j"
      using Cons.IH [of k] by blast
    moreover have "a \<le> u" using Cons.prems(1) uv(1) by auto
    ultimately show ?thesis by (intro exI [of _ u] exI [of _ v]) auto
  qed
qed auto

lemma strikes_of_props [simp]: "set (strikes_of ps) = rp_strike ` set ps" "sorted (strikes_of ps)"
  by (simp_all add: strikes_of_def)

lemma strikes_of_Nil [simp]: "strikes_of ps = [] \<longleftrightarrow> ps = []"
  by (metis image_is_empty set_empty strikes_of_props(1))

lemma last_strike:
  assumes "ps \<noteq> []"
  shows "last (strikes_of ps) \<in> rp_strike ` set ps" and "p \<in> set ps \<Longrightarrow> rp_strike p \<le> last (strikes_of ps)"
proof -
  have ne: "strikes_of ps \<noteq> []" using assms by simp
  show "last (strikes_of ps) \<in> rp_strike ` set ps" using last_in_set [OF ne] by simp
  show "p \<in> set ps \<Longrightarrow> rp_strike p \<le> last (strikes_of ps)"
    using sorted_le_last [OF strikes_of_props(2), of "rp_strike p" ps] by simp
qed

definition grid :: "risk_position list \<Rightarrow> rat set" where
  "grid ps = set (price_points ps)"

lemma grid_eq: "ps \<noteq> [] \<Longrightarrow> grid ps = insert 0 (insert (last (strikes_of ps) * 2) (rp_strike ` set ps))"
  by (auto simp: grid_def price_points_def Let_def)

lemma payoff_between:
  assumes "\<And>p. p \<in> set ps \<Longrightarrow> 0 \<le> rp_strike p" and "ps \<noteq> []" and "0 \<le> x" and "x \<le> last (strikes_of ps)"
  shows "\<exists>g \<in> grid ps. payoff ps covered avg g \<le> payoff ps covered avg x"
    and "\<exists>g \<in> grid ps. payoff ps covered avg x \<le> payoff ps covered avg g"
proof -
  let ?f = "payoff ps covered avg"
  have "sorted (0 # strikes_of ps)" using assms(1) by auto
  moreover have "last (0 # strikes_of ps) = last (strikes_of ps)" using assms(2) by simp
  ultimately obtain u v where uv: "u \<in> grid ps" "v \<in> grid ps" "u \<le> x" "x \<le> v"
    and gap: "\<forall>k \<in> rp_strike ` set ps. k \<le> u \<or> v \<le> k"
    using bracket [of 0 "strikes_of ps" x] assms(2,3,4) by (auto simp: grid_eq)
  have "straight {u..v} ?f" using gap by (intro payoff_straight) auto
  from straight_bounds [OF this uv(3,4)] uv(1,2)
  show "\<exists>g \<in> grid ps. ?f g \<le> ?f x" and "\<exists>g \<in> grid ps. ?f x \<le> ?f g"
    by (auto simp: min_le_iff_disj le_max_iff_disj)
qed

lemma net_long_call_nonneg [simp]: "0 \<le> net_long_call ps"
  unfolding net_long_call_def by (rule sum_list_nonneg) auto

lemma net_short_call_nonneg [simp]: "0 \<le> net_short_call ps"
  unfolding net_short_call_def by (rule sum_list_nonneg) auto

section \<open>The extremes over all prices\<close>

definition floor_of :: "(rat \<Rightarrow> rat) \<Rightarrow> rat \<Rightarrow> bool" where
  "floor_of f m \<longleftrightarrow> (\<exists>x \<ge> 0. f x = m) \<and> (\<forall>x \<ge> 0. m \<le> f x)"

definition ceiling_of :: "(rat \<Rightarrow> rat) \<Rightarrow> rat \<Rightarrow> bool" where
  "ceiling_of f m \<longleftrightarrow> (\<exists>x \<ge> 0. f x = m) \<and> (\<forall>x \<ge> 0. f x \<le> m)"

definition falls_without_end :: "(rat \<Rightarrow> rat) \<Rightarrow> bool" where
  "falls_without_end f \<longleftrightarrow> (\<forall>m. \<exists>x \<ge> 0. f x < m)"

definition rises_without_end :: "(rat \<Rightarrow> rat) \<Rightarrow> bool" where
  "rises_without_end f \<longleftrightarrow> (\<forall>m. \<exists>x \<ge> 0. m < f x)"

lemma line_below:
  assumes "(s :: rat) < 0"
  shows "\<exists>x \<ge> a. c + s * (x - a) < m"
proof -
  define d where "d = (\<bar>m - c\<bar> + 1) / - s"
  have "0 \<le> d" using assms unfolding d_def by (intro divide_nonneg_nonneg) auto
  moreover have "s * d = - (\<bar>m - c\<bar> + 1)" using assms by (simp add: d_def)
  ultimately show ?thesis by (intro exI [of _ "a + d"]) auto
qed

text \<open>What the envelope is computed for: some legs, strikes not negative, and a cost for the cover.\<close>

definition modelled :: "risk_position list \<Rightarrow> int \<Rightarrow> rat option \<Rightarrow> bool" where
  "modelled ps covered avg \<longleftrightarrow>
     ps \<noteq> [] \<and> (\<forall>p \<in> set ps. 0 \<le> rp_strike p) \<and> 0 \<le> covered \<and> (covered = 0 \<or> avg \<noteq> None)"

abbreviation top :: "risk_position list \<Rightarrow> rat" where
  "top ps \<equiv> last (strikes_of ps)"

lemma modelledD:
  assumes "modelled ps covered avg"
  shows "ps \<noteq> []" "p \<in> set ps \<Longrightarrow> 0 \<le> rp_strike p" "0 \<le> covered" "covered = 0 \<or> avg \<noteq> None"
  using assms by (simp_all add: modelled_def)

text \<open>A curve bounded by finitely many points up to \<open>t\<close> and a straight line beyond.\<close>

lemma curve_floor:
  fixes f :: "rat \<Rightarrow> rat"
  assumes "finite G" and "t \<in> G" and nonneg: "\<And>g. g \<in> G \<Longrightarrow> 0 \<le> g"
    and low: "\<And>x. 0 \<le> x \<Longrightarrow> x \<le> t \<Longrightarrow> \<exists>g \<in> G. f g \<le> f x"
    and tail: "\<And>x. t \<le> x \<Longrightarrow> f x = f t + s * (x - t)"
  shows "if s < 0 then falls_without_end f else floor_of f (Min (f ` G))"
proof (cases "s < 0")
  case True
  have "\<exists>x \<ge> 0. f x < m" for m
  proof -
    obtain x where "t \<le> x" "f t + s * (x - t) < m" using line_below [OF True, of t "f t" m] by blast
    with tail [of x] nonneg [OF assms(2)] show ?thesis by (intro exI [of _ x]) simp
  qed
  with True show ?thesis by (simp add: falls_without_end_def)
next
  case False
  have below: "\<exists>g \<in> G. f g \<le> f x" if "0 \<le> x" for x
  proof (cases "x \<le> t")
    case True
    with that low show ?thesis by blast
  next
    case beyond: False
    have "0 \<le> s * (x - t)" using False beyond by simp
    with tail [of x] beyond assms(2) show ?thesis by (intro bexI [of _ t]) simp_all
  qed
  have "Min (f ` G) \<in> f ` G" using assms(1,2) by (intro Min_in) auto
  then have "\<exists>x \<ge> 0. f x = Min (f ` G)" using nonneg by force
  moreover have "Min (f ` G) \<le> f x" if "0 \<le> x" for x
    using below [OF that] assms(1) by (metis Min_le finite_imageI image_eqI order_trans)
  ultimately show ?thesis using False by (simp add: floor_of_def)
qed

lemma curve_ceiling:
  fixes f :: "rat \<Rightarrow> rat"
  assumes "finite G" and "t \<in> G" and nonneg: "\<And>g. g \<in> G \<Longrightarrow> 0 \<le> g"
    and low: "\<And>x. 0 \<le> x \<Longrightarrow> x \<le> t \<Longrightarrow> \<exists>g \<in> G. f x \<le> f g"
    and tail: "\<And>x. t \<le> x \<Longrightarrow> f x = f t + s * (x - t)"
  shows "if 0 < s then rises_without_end f else ceiling_of f (Max (f ` G))"
proof (cases "0 < s")
  case True
  have "\<exists>x \<ge> 0. m < f x" for m
  proof -
    from True have "- s < 0" by simp
    then obtain x where "t \<le> x" "- f t + - s * (x - t) < - m" using line_below [of "- s" t "- f t" "- m"] by blast
    with tail [of x] nonneg [OF assms(2)] show ?thesis by (intro exI [of _ x]) simp
  qed
  with True show ?thesis by (simp add: rises_without_end_def)
next
  case False
  have above: "\<exists>g \<in> G. f x \<le> f g" if "0 \<le> x" for x
  proof (cases "x \<le> t")
    case True
    with that low show ?thesis by blast
  next
    case beyond: False
    have "s * (x - t) \<le> 0" using False beyond by (simp add: mult_nonpos_nonneg)
    with tail [of x] beyond assms(2) show ?thesis by (intro bexI [of _ t]) simp_all
  qed
  have "Max (f ` G) \<in> f ` G" using assms(1,2) by (intro Max_in) auto
  then have "\<exists>x \<ge> 0. f x = Max (f ` G)" using nonneg by force
  moreover have "f x \<le> Max (f ` G)" if "0 \<le> x" for x
    using above [OF that] assms(1) by (metis Max_ge finite_imageI image_eqI order_trans)
  ultimately show ?thesis using False by (simp add: ceiling_of_def)
qed

section \<open>The envelope of a modelled structure\<close>

lemma grid_points:
  assumes "modelled ps covered avg"
  shows "finite (grid ps)" "top ps \<in> grid ps" "g \<in> grid ps \<Longrightarrow> 0 \<le> g"
proof -
  note m = modelledD [OF assms]
  have "0 \<le> top ps" using last_strike(1) [OF m(1)] m(2) by auto
  then show "g \<in> grid ps \<Longrightarrow> 0 \<le> g" using m(2) by (auto simp: grid_eq [OF m(1)])
  show "finite (grid ps)" by (simp add: grid_def)
  show "top ps \<in> grid ps" using last_strike(1) [OF m(1)] by (simp add: grid_eq [OF m(1)])
qed

lemma payoff_tail:
  assumes "modelled ps covered avg" and "top ps \<le> x"
  shows "payoff ps covered avg x = payoff ps covered avg (top ps) + of_int (slope ps covered) * (x - top ps)"
  using modelledD [OF assms(1)] last_strike(2) assms(2) by (intro payoff_beyond) auto

lemma grid_totals: "ps \<noteq> [] \<Longrightarrow> set (map gr_total (get_risk_grid_rows ps covered avg)) = payoff ps covered avg ` grid ps"
  by (simp add: get_risk_grid_rows_def grid_row_at_def payoff_def grid_def Let_def image_image)

lemma envelope_loss:
  assumes "modelled ps covered avg"
  shows "case ev_max_loss (compute_envelope ps covered avg) of
     None \<Rightarrow> falls_without_end (payoff ps covered avg) | Some m \<Rightarrow> floor_of (payoff ps covered avg) m"
proof -
  note m = modelledD [OF assms]
  have "if of_int (slope ps covered) < (0 :: rat) then falls_without_end (payoff ps covered avg)
      else floor_of (payoff ps covered avg) (Min (payoff ps covered avg ` grid ps))"
    by (rule curve_floor [OF grid_points [OF assms] payoff_between(1) payoff_tail [OF assms]]) (use m in auto)
  then show ?thesis
    using grid_totals [OF m(1), of covered avg] m(1)
    by (auto simp: compute_envelope_def Let_def unlimited_downside_def slope_def split: if_splits)
qed

lemma upside_slope:
  assumes "modelled ps covered avg" and "covered \<le> max 0 (net_short_call ps - net_long_call ps)"
  shows "unlimited_upside ps covered \<longleftrightarrow> 0 < slope ps covered"
  using assms(2) modelledD(3) [OF assms(1)] net_long_call_nonneg [of ps] net_short_call_nonneg [of ps]
  by (auto simp del: net_long_call_nonneg net_short_call_nonneg simp: unlimited_upside_def slope_def max_def split: if_splits)

lemma envelope_gain:
  assumes "modelled ps covered avg" and "covered \<le> max 0 (net_short_call ps - net_long_call ps)"
  shows "case ev_max_gain (compute_envelope ps covered avg) of
     None \<Rightarrow> rises_without_end (payoff ps covered avg) | Some m \<Rightarrow> ceiling_of (payoff ps covered avg) m"
proof -
  note m = modelledD [OF assms(1)]
  have "if (0 :: rat) < of_int (slope ps covered) then rises_without_end (payoff ps covered avg)
      else ceiling_of (payoff ps covered avg) (Max (payoff ps covered avg ` grid ps))"
    by (rule curve_ceiling [OF grid_points [OF assms(1)] payoff_between(2) payoff_tail [OF assms(1)]]) (use m in auto)
  then show ?thesis
    using grid_totals [OF m(1), of covered avg] m(1) upside_slope [OF assms]
    by (auto simp: compute_envelope_def Let_def split: if_splits)
qed

section \<open>Without the naked calls nothing is unbounded\<close>

definition short_call :: "risk_position \<Rightarrow> bool" where
  "short_call p \<longleftrightarrow> is_call p \<and> rp_qty p < 0"

definition taken :: "(nat \<times> int) list \<Rightarrow> nat \<times> risk_position \<Rightarrow> int" where
  "taken plan ip = (case map_of plan (fst ip) of None \<Rightarrow> 0 | Some nq \<Rightarrow> nq - rp_qty (snd ip))"

definition contracts_in :: "(nat \<times> risk_position) list \<Rightarrow> int" where
  "contracts_in xs = sum_list (map (\<lambda>ip. \<bar>rp_qty (snd ip)\<bar>) xs)"

lemma contracts_in_nonneg [simp]: "0 \<le> contracts_in xs"
  unfolding contracts_in_def by (rule sum_list_nonneg) auto

lemma strip_plan_keys: "fst ` set (strip_plan c xs) \<subseteq> fst ` set xs"
  by (induction c xs rule: strip_plan.induct) (auto simp: Let_def)

lemma taken_skip: "fst ip \<noteq> i \<Longrightarrow> taken ((i, q) # plan) ip = taken plan ip"
  by (simp add: taken_def)

lemma min_steps: "0 \<le> R \<Longrightarrow> 0 \<le> q \<Longrightarrow> min c q + min (c - min c q) R = min c (q + R)" for c q R :: int
  by (simp add: min_def)

lemma strip_plan_takes:
  assumes "distinct (map fst xs)" and "0 \<le> c"
  shows "sum_list (map (taken (strip_plan c xs)) xs) = min c (contracts_in xs) \<and>
    (\<forall>ip \<in> set xs. 0 \<le> taken (strip_plan c xs) ip \<and> taken (strip_plan c xs) ip \<le> \<bar>rp_qty (snd ip)\<bar>)"
  using assms
proof (induction xs arbitrary: c)
  case Nil
  then show ?case by (simp add: contracts_in_def)
next
  case (Cons x xs)
  obtain i p where x: "x = (i, p)" by force
  show ?case
  proof (cases "c = 0")
    case True
    have "taken [] ip = 0" for ip by (simp add: taken_def)
    then have "sum_list (map (taken []) ys) = 0" for ys by (induction ys) simp_all
    with True x show ?thesis using contracts_in_nonneg [of "(i, p) # xs"] by (simp add: taken_def min_def)
  next
    case False
    define dec where "dec = min c \<bar>rp_qty p\<bar>"
    let ?plan = "strip_plan (c - dec) xs" and ?full = "(i, rp_qty p + dec) # strip_plan (c - dec) xs"
    have full: "strip_plan c (x # xs) = ?full" using False Cons.prems(2) by (simp add: x dec_def Let_def)
    have dec: "0 \<le> dec" "dec \<le> \<bar>rp_qty p\<bar>" "dec \<le> c" using Cons.prems(2) by (simp_all add: dec_def)
    have "distinct (map fst xs)" "0 \<le> c - dec" using Cons.prems(1) dec by (simp_all add: x)
    note IH = Cons.IH [OF this]
    have skip: "taken ?full ip = taken ?plan ip" if "ip \<in> set xs" for ip
      using that Cons.prems(1) by (intro taken_skip) (auto simp: x image_iff)
    then have same: "map (taken ?full) xs = map (taken ?plan) xs" by (rule map_cong [OF refl])
    have "sum_list (map (taken ?full) xs) = min (c - dec) (contracts_in xs)" unfolding same using IH by (rule conjunct1)
    moreover have head: "taken ?full x = dec" by (simp add: taken_def x)
    moreover have "contracts_in (x # xs) = \<bar>rp_qty p\<bar> + contracts_in xs" by (simp add: contracts_in_def x)
    ultimately have "sum_list (map (taken ?full) (x # xs)) = min c (contracts_in (x # xs))"
      using min_steps [of "contracts_in xs" "\<bar>rp_qty p\<bar>" c] by (simp add: dec_def)
    moreover have "\<forall>ip \<in> set (x # xs). 0 \<le> taken ?full ip \<and> taken ?full ip \<le> \<bar>rp_qty (snd ip)\<bar>"
      using IH skip head dec by (simp add: x)
    ultimately show ?thesis unfolding full by blast
  qed
qed

section \<open>The hedged structure\<close>

definition indexed :: "risk_position list \<Rightarrow> (nat \<times> risk_position) list" where
  "indexed ps = enumerate 0 ps"

definition shorts_of :: "risk_position list \<Rightarrow> (nat \<times> risk_position) list" where
  "shorts_of ps = filter (\<lambda>ip. short_call (snd ip)) (indexed ps)"

lemma map_snd_indexed [simp]: "map snd (indexed ps) = ps"
  by (simp add: indexed_def)

lemma distinct_fst_indexed [simp]: "distinct (map fst (indexed ps))"
  by (simp add: indexed_def)

lemma net_short_shorts: "net_short_call ps = 100 * contracts_in (shorts_of ps)"
proof -
  have "sum_list (map (\<lambda>p. \<bar>rp_qty p\<bar> * 100) (filter short_call (map snd xs))) =
      100 * contracts_in (filter (\<lambda>ip. short_call (snd ip)) xs)" for xs :: "(nat \<times> risk_position) list"
    by (induction xs) (simp_all add: contracts_in_def)
  from this [of "indexed ps"] show ?thesis
    by (simp add: net_short_call_def shorts_of_def short_call_def [abs_def])
qed

definition kept :: "(nat \<times> int) list \<Rightarrow> nat \<times> risk_position \<Rightarrow> risk_position list" where
  "kept plan ip = (case map_of plan (fst ip) of
       None \<Rightarrow> [snd ip] | Some nq \<Rightarrow> if nq \<noteq> 0 then [(snd ip)\<lparr>rp_qty := nq\<rparr>] else [])"

lemma net_of_kept:
  assumes "map_of plan (fst ip) \<noteq> None \<Longrightarrow> short_call (snd ip)"
    and "0 \<le> taken plan ip" and "taken plan ip \<le> \<bar>rp_qty (snd ip)\<bar>"
  shows "net_short_call (kept plan ip) = (if short_call (snd ip) then (\<bar>rp_qty (snd ip)\<bar> - taken plan ip) * 100 else 0)"
    and "net_long_call (kept plan ip) = net_long_call [snd ip]"
  using assms
  by (auto simp: kept_def taken_def net_short_call_def net_long_call_def short_call_def is_call_def split: option.splits)

lemma net_concat:
  "net_short_call (concat xss) = sum_list (map net_short_call xss)"
  "net_long_call (concat xss) = sum_list (map net_long_call xss)"
  by (induction xss) (simp_all add: net_short_call_def net_long_call_def)

lemma strip_eq:
  assumes "0 < c"
  shows "strip_naked_short_calls ps c =
    concat (map (kept (strip_plan c (sort_key (\<lambda>ip. - rp_strike (snd ip)) (shorts_of ps)))) (indexed ps))"
  using assms
  by (simp add: strip_naked_short_calls_def Let_def kept_def [abs_def] indexed_def shorts_of_def short_call_def case_prod_unfold)

lemma sum_if_filter:
  "sum_list (map (\<lambda>x. if P x then (g x - f x) * 100 else 0) xs)
     = 100 * sum_list (map g (filter P xs)) - 100 * sum_list (map f (filter P xs))" for f g :: "'a \<Rightarrow> int"
  by (induction xs) (simp_all add: algebra_simps)

lemma strip_nets:
  assumes "0 < c"
  shows "net_short_call (strip_naked_short_calls ps c) = net_short_call ps - 100 * min c (contracts_in (shorts_of ps))"
    and "net_long_call (strip_naked_short_calls ps c) = net_long_call ps"
proof -
  let ?xs = "sort_key (\<lambda>ip. - rp_strike (snd ip)) (shorts_of ps)"
  let ?plan = "strip_plan c ?xs"
  have d: "distinct (map fst (shorts_of ps))" by (simp add: shorts_of_def distinct_map_filter)
  have dx: "distinct (map fst ?xs)" using d by (simp add: distinct_map)
  have dist: "distinct ?xs" "distinct (shorts_of ps)" using dx d by (simp_all add: distinct_map)
  note takes = strip_plan_takes [OF dx less_imp_le [OF assms]]
  have sums: "sum_list (map f ?xs) = sum_list (map f (shorts_of ps))" for f :: "nat \<times> risk_position \<Rightarrow> int"
    using dist by (simp add: sum_list_distinct_conv_sum_set)
  have in_short: "short_call (snd ip)" if "ip \<in> set (indexed ps)" "map_of ?plan (fst ip) \<noteq> None" for ip
  proof -
    have "fst ip \<in> fst ` set ?plan" using that(2) by (simp add: map_of_eq_None_iff)
    then obtain jp where "jp \<in> set (shorts_of ps)" "fst jp = fst ip" using strip_plan_keys [of c ?xs] by force
    then have "jp \<in> set (indexed ps)" "short_call (snd jp)" by (auto simp: shorts_of_def)
    moreover have "jp = ip"
      using \<open>jp \<in> set (indexed ps)\<close> \<open>fst jp = fst ip\<close> that(1) distinct_fst_indexed [of ps]
      by (metis distinct_map inj_onD)
    ultimately show ?thesis by simp
  qed
  have bounds: "0 \<le> taken ?plan ip \<and> taken ?plan ip \<le> \<bar>rp_qty (snd ip)\<bar>" if "ip \<in> set (indexed ps)" for ip
  proof (cases "map_of ?plan (fst ip)")
    case None
    then show ?thesis by (simp add: taken_def)
  next
    case (Some nq)
    with in_short [OF that] that have "ip \<in> set ?xs" by (simp add: shorts_of_def)
    with takes show ?thesis by blast
  qed
  note net = net_of_kept [OF in_short]
  have "net_short_call (strip_naked_short_calls ps c) = sum_list (map (\<lambda>ip. net_short_call (kept ?plan ip)) (indexed ps))"
    by (simp add: strip_eq [OF assms] net_concat comp_def)
  also have "\<dots> = sum_list (map (\<lambda>ip. if short_call (snd ip) then (\<bar>rp_qty (snd ip)\<bar> - taken ?plan ip) * 100 else 0) (indexed ps))"
    by (rule arg_cong [of _ _ sum_list], rule map_cong [OF refl]) (use net(1) bounds in blast)
  also have "\<dots> = 100 * contracts_in (shorts_of ps) - 100 * sum_list (map (taken ?plan) (shorts_of ps))"
    unfolding shorts_of_def contracts_in_def by (rule sum_if_filter)
  also have "\<dots> = net_short_call ps - 100 * min c (contracts_in (shorts_of ps))"
    using takes by (simp add: net_short_shorts sums contracts_in_def)
  finally show "net_short_call (strip_naked_short_calls ps c) = net_short_call ps - 100 * min c (contracts_in (shorts_of ps))" .
  have "net_long_call (strip_naked_short_calls ps c) = sum_list (map (\<lambda>ip. net_long_call (kept ?plan ip)) (indexed ps))"
    by (simp add: strip_eq [OF assms] net_concat comp_def)
  also have "\<dots> = sum_list (map (\<lambda>ip. net_long_call [snd ip]) (indexed ps))"
    by (rule arg_cong [of _ _ sum_list], rule map_cong [OF refl]) (use net(2) bounds in blast)
  also have "\<dots> = net_long_call (concat (map (\<lambda>ip. [snd ip]) (indexed ps)))"
    by (simp only: net_concat map_map comp_def)
  also have "concat (map (\<lambda>ip. [snd ip]) (indexed ps)) = map snd (indexed ps)" by (induction "indexed ps") simp_all
  finally show "net_long_call (strip_naked_short_calls ps c) = net_long_call ps" by simp
qed

lemma hedged_not_unlimited:
  assumes "0 \<le> covered" and "0 < naked_contracts ps covered"
  shows "\<not> unlimited_downside (strip_naked_short_calls ps (naked_contracts ps covered)) covered"
proof -
  let ?r = "net_short_call ps - net_long_call ps - covered" and ?n = "naked_contracts ps covered"
  have r: "0 < ?r" and n: "?n = \<lceil>(of_int ?r / 100 :: rat)\<rceil>"
    using assms(2) by (auto simp: naked_contracts_def Let_def max_def split: if_splits)
  have up: "?r \<le> 100 * ?n"
  proof -
    have "(of_int ?r / 100 :: rat) \<le> of_int ?n" unfolding n by (rule le_of_int_ceiling)
    then have "(of_int ?r :: rat) \<le> of_int (100 * ?n)" by (simp add: field_simps)
    then show ?thesis by (simp only: of_int_le_iff)
  qed
  have "?n \<le> contracts_in (shorts_of ps)"
  proof -
    have "?r \<le> 100 * contracts_in (shorts_of ps)"
      using net_short_shorts [of ps] net_long_call_nonneg [of ps] assms(1) by linarith
    then have "(of_int ?r :: rat) \<le> of_int (100 * contracts_in (shorts_of ps))" by (simp only: of_int_le_iff)
    then have "(of_int ?r / 100 :: rat) \<le> of_int (contracts_in (shorts_of ps))" by (simp add: field_simps)
    then show ?thesis unfolding n by (rule ceiling_le)
  qed
  with strip_nets [OF assms(2)] up show ?thesis
    by (simp add: unlimited_downside_def)
qed

end
