(* ===== verification/Payoff_Claims.thy ===== *)
theory Payoff_Claims
  imports Payoff_Envelope
begin

text \<open>The payoff engine: break-evens, and the properties of the envelope and the hedged variant.\<close>

section \<open>Break-evens\<close>

text \<open>The rows are samples of \<open>f\<close> at increasing prices, and \<open>f\<close> is a straight line between neighbours.\<close>

fun sampled :: "(rat \<Rightarrow> rat) \<Rightarrow> grid_row list \<Rightarrow> bool" where
  "sampled f (a # b # rest) \<longleftrightarrow> gr_total a = f (gr_price a) \<and> gr_price a \<le> gr_price b \<and> 0 \<le> gr_price a \<and>
     (gr_price a = gr_price b \<longrightarrow> gr_price b = 0) \<and> straight {gr_price a..gr_price b} f \<and> sampled f (b # rest)"
| "sampled f [a] \<longleftrightarrow> gr_total a = f (gr_price a) \<and> 0 \<le> gr_price a"
| "sampled f [] \<longleftrightarrow> True"

definition isolated_zero :: "(rat \<Rightarrow> rat) \<Rightarrow> rat \<Rightarrow> bool" where
  "isolated_zero f x \<longleftrightarrow> f x = 0 \<and> (\<exists>e > 0. \<forall>y \<ge> 0. y \<noteq> x \<and> \<bar>y - x\<bar> < e \<longrightarrow> f y \<noteq> 0)"

text \<open>A zero, up to the rounding to cents, that stands alone or is one of the prices \<open>P\<close>.\<close>

definition reported_zero :: "(rat \<Rightarrow> rat) \<Rightarrow> rat set \<Rightarrow> rat \<Rightarrow> bool" where
  "reported_zero f P b \<longleftrightarrow> (\<exists>z \<ge> 0. f z = 0 \<and> (b = z \<or> b = round2 z) \<and> (isolated_zero f z \<or> z \<in> P))"

lemma line_zero:
  assumes "straight {a..b} f" and "a < b" and "f a \<noteq> f b"
  shows "a \<le> x \<Longrightarrow> x \<le> b \<Longrightarrow> f x = 0 \<longleftrightarrow> x = a + f a / (f a - f b) * (b - a)"
proof -
  assume x: "a \<le> x" "x \<le> b"
  from assms(1) obtain m c where f: "\<forall>y \<in> {a..b}. f y = m * y + c" unfolding straight_def by blast
  then have eq: "f x = m * x + c" "f a = m * a + c" "f b = m * b + c" using x assms(2) by auto
  then have m: "m \<noteq> 0" and d: "f a - f b = m * (a - b)" using assms(3) by (auto simp: algebra_simps)
  have ab: "a - b \<noteq> 0" using assms(2) by simp
  have "k / (m * (a - b)) * (b - a) = - (k / m)" for k using m ab by (simp add: field_simps)
  then have q: "f a / (f a - f b) * (b - a) = - (f a / m)" unfolding d by blast
  have "x = a + - (k / m) \<longleftrightarrow> m * (x - a) + k = 0" for k using m by (auto simp: field_simps)
  then have "x = a + - (f a / m) \<longleftrightarrow> m * (x - a) + f a = 0" by blast
  moreover have "f x = m * (x - a) + f a" by (simp add: eq algebra_simps)
  ultimately show "f x = 0 \<longleftrightarrow> x = a + f a / (f a - f b) * (b - a)" unfolding q by simp
qed

lemma zero_inside:
  fixes fa fb a b :: rat
  assumes "a < b" and "fa \<ge> 0 \<and> fb < 0 \<or> fa < 0 \<and> fb \<ge> 0"
  shows "a \<le> a + fa / (fa - fb) * (b - a)" and "a + fa / (fa - fb) * (b - a) \<le> b"
proof -
  define q where "q = fa / (fa - fb)"
  have "0 \<le> q" "q \<le> 1" using assms(2) by (auto simp: q_def field_simps)
  then have "0 \<le> q * (b - a)" "q * (b - a) \<le> b - a"
    using assms(1) mult_right_mono [of q 1 "b - a"] by auto
  then show "a \<le> a + fa / (fa - fb) * (b - a)" and "a + fa / (fa - fb) * (b - a) \<le> b"
    unfolding q_def [symmetric] by simp_all
qed

text \<open>A zero strictly between two points of a line that is not flat stands alone.\<close>

lemma inner_zero_isolated:
  assumes "straight {a..b} f" and "f a \<noteq> f b" and "a < z" and "z < b" and "f z = 0"
  shows "isolated_zero f z"
proof -
  have only: "f y = 0 \<longleftrightarrow> y = z" if "a \<le> y" "y \<le> b" for y
    using line_zero [OF assms(1) _ assms(2), of y] line_zero [OF assms(1) _ assms(2), of z] assms(3-5) that by auto
  have "f y \<noteq> 0" if "y \<noteq> z" "\<bar>y - z\<bar> < min (z - a) (b - z)" for y
  proof -
    have "a \<le> y" "y \<le> b" using that(2) by linarith+
    with only that(1) show ?thesis by blast
  qed
  moreover have "0 < min (z - a) (b - z)" using assms(3,4) by simp
  ultimately show ?thesis unfolding isolated_zero_def using assms(5) by blast
qed

lemma crossings_sound: "sampled f rows \<Longrightarrow> b \<in> set (crossings rows) \<Longrightarrow> reported_zero f (gr_price ` set rows) b"
proof (induction rows rule: crossings.induct)
  case (1 r s rest)
  let ?cross = "gr_total r \<ge> 0 \<and> gr_total s < 0 \<or> gr_total r < 0 \<and> gr_total s \<ge> 0"
  from 1(2) have at: "gr_total r = f (gr_price r)" "gr_total s = f (gr_price s)" "0 \<le> gr_price r"
      "gr_price r \<le> gr_price s" "straight {gr_price r..gr_price s} f" "sampled f (s # rest)"
    by (cases rest; simp)+
  show ?case
  proof (cases "b \<in> set (crossings (s # rest))")
    case True
    with 1(1) at(6) show ?thesis by (auto simp: reported_zero_def)
  next
    case False
    with 1(3) consider (cross) "?cross" "gr_price s \<noteq> gr_price r" "b = round2 (zero_between r s)"
      | (touch) "gr_total r = 0" "b = gr_price r"
      by (auto split: if_splits)
    then show ?thesis
    proof cases
      case cross
      let ?z = "zero_between r s"
      from cross(2) at(4) have lt: "gr_price r < gr_price s" by simp
      have ne: "f (gr_price r) \<noteq> f (gr_price s)" using cross(1) at(1,2) by auto
      have within: "gr_price r \<le> ?z" "?z \<le> gr_price s" using zero_inside [OF lt cross(1)] by (simp_all add: zero_between_def)
      then have zero: "f ?z = 0" "0 \<le> ?z"
        using line_zero [OF at(5) lt ne, of ?z] at(1-3) by (auto simp: zero_between_def)
      have "isolated_zero f ?z \<or> ?z = gr_price r \<or> ?z = gr_price s"
        using inner_zero_isolated [OF at(5) ne _ _ zero(1)] within by fastforce
      with cross(3) zero show ?thesis unfolding reported_zero_def by auto
    next
      case touch
      with at show ?thesis unfolding reported_zero_def by auto
    qed
  qed
qed simp_all

lemma isolated_not_flat:
  assumes "isolated_zero f x" and "straight {a..b} f" and "0 \<le> a" and "a < b" and "a \<le> x" and "x \<le> b"
  shows "f a \<noteq> f b"
proof
  assume eq: "f a = f b"
  from assms(1) obtain e where e: "f x = 0" "e > 0" "\<And>y. y \<ge> 0 \<Longrightarrow> y \<noteq> x \<Longrightarrow> \<bar>y - x\<bar> < e \<Longrightarrow> f y \<noteq> 0"
    unfolding isolated_zero_def by blast
  from assms(2) obtain m c where f: "\<forall>y \<in> {a..b}. f y = m * y + c" unfolding straight_def by blast
  then have "m * a + c = m * b + c" using eq assms(4) by simp
  then have "m = 0" using assms(4) by simp
  with f e(1) assms(5,6) have zero: "\<forall>y \<in> {a..b}. f y = 0" by auto
  define y where "y = (if x < b then min b (x + e / 2) else max a (x - e / 2))"
  have "y \<noteq> x \<and> \<bar>y - x\<bar> < e \<and> a \<le> y \<and> y \<le> b"
  proof (cases "x < b")
    case True
    then have "x < y" "y \<le> x + e / 2" "y \<le> b" using e(2) by (simp_all add: y_def)
    then show ?thesis using e(2) assms(5) by simp
  next
    case False
    then have "y < x" "x - e / 2 \<le> y" "a \<le> y" using e(2) assms(4,6) by (simp_all add: y_def)
    then show ?thesis using e(2) assms(6) by simp
  qed
  moreover from this have "f y = 0" "0 \<le> y" using zero assms(3) by simp_all
  ultimately show False using e(3) by blast
qed

lemma crossings_complete:
  assumes "sampled f rows" and "rows \<noteq> []" and "isolated_zero f x" and "0 < x"
    and "gr_price (hd rows) \<le> x" and "x \<le> gr_price (last rows)"
  shows "(\<exists>b \<in> set (crossings rows). b = x \<or> b = round2 x) \<or> gr_total (last rows) = 0 \<and> x = gr_price (last rows)"
  using assms
proof (induction rows rule: crossings.induct)
  case (1 r s rest)
  from 1(2) have at: "gr_total r = f (gr_price r)" "gr_total s = f (gr_price s)" "0 \<le> gr_price r"
      "gr_price r \<le> gr_price s" "straight {gr_price r..gr_price s} f" "sampled f (s # rest)"
      "gr_price r = gr_price s \<Longrightarrow> gr_price s = 0"
    by (cases rest; simp)+
  have fx: "f x = 0" using 1(4) by (simp add: isolated_zero_def)
  note below = 1(6) [simplified]
  note later = 1(1) [OF at(6) _ 1(4,5)]
  show ?case
  proof (cases "gr_price s < x \<or> gr_price s = x \<and> 0 < gr_total r")
    case True
    then have "gr_price (hd (s # rest)) \<le> x" by auto
    moreover have l: "last (r # s # rest) = last (s # rest)" by simp
    moreover have "x \<le> gr_price (last (s # rest))" using 1(7) unfolding l .
    ultimately have "(\<exists>b \<in> set (crossings (s # rest)). b = x \<or> b = round2 x) \<or>
        gr_total (last (s # rest)) = 0 \<and> x = gr_price (last (s # rest))"
      by (intro later) simp_all
    moreover have "set (crossings (s # rest)) \<subseteq> set (crossings (r # s # rest))" by (simp add: subset_eq)
    ultimately show ?thesis unfolding l by blast
  next
    case False
    then have xs: "x \<le> gr_price s" by auto
    have lt: "gr_price r < gr_price s" using at(4,7) xs 1(5) by (cases "gr_price r = gr_price s") auto
    have ne: "f (gr_price r) \<noteq> f (gr_price s)"
      by (rule isolated_not_flat [OF 1(4) at(5,3) lt below xs])
    have z: "x = zero_between r s"
      using line_zero [OF at(5) lt ne below xs] fx by (simp add: zero_between_def at(1,2))
    show ?thesis
    proof (cases "gr_total r \<ge> 0 \<and> gr_total s < 0 \<or> gr_total r < 0 \<and> gr_total s \<ge> 0")
      case True
      with lt z show ?thesis by simp
    next
      case same: False
      have "min (gr_total r) (gr_total s) \<le> 0 \<and> 0 \<le> max (gr_total r) (gr_total s)"
        using straight_bounds [OF at(5) below xs] fx by (simp add: at(1,2))
      with same ne have r: "gr_total r = 0 \<and> 0 < gr_total s \<or> gr_total s = 0 \<and> 0 < gr_total r"
        by (auto simp: at(1,2) min_def max_def split: if_splits)
      then show ?thesis
      proof
        assume zr: "gr_total r = 0 \<and> 0 < gr_total s"
        then have "x = gr_price r" using z by (simp add: zero_between_def)
        with zr 1(5) show ?thesis by auto
      next
        assume zs: "gr_total s = 0 \<and> 0 < gr_total r"
        then have "x = gr_price s" using z by (simp add: zero_between_def)
        with zs False show ?thesis by auto
      qed
    qed
  qed
qed (auto simp: isolated_zero_def)

text \<open>The grid samples the payoff.\<close>

lemma grid_row_at_sel [simp]:
  "gr_price (grid_row_at ps covered avg x) = x" "gr_total (grid_row_at ps covered avg x) = payoff ps covered avg x"
  by (simp_all add: grid_row_at_def payoff_def Let_def)

lemma sampled_map:
  assumes "sorted xs" and "\<forall>x \<in> set xs. 0 \<le> x" and "distinct (filter (\<lambda>x. 0 < x) xs)"
    and "\<forall>p \<in> set ps. rp_strike p \<le> hd xs \<or> rp_strike p \<in> set xs"
  shows "sampled (payoff ps covered avg) (map (grid_row_at ps covered avg) xs)"
  using assms
proof (induction xs rule: induct_list012)
  case (2 u)
  then show ?case by simp
next
  case (3 u v rest)
  have "sampled (payoff ps covered avg) (map (grid_row_at ps covered avg) (v # rest))"
  proof (rule 3(2))
    show "\<forall>p \<in> set ps. rp_strike p \<le> hd (v # rest) \<or> rp_strike p \<in> set (v # rest)"
      using 3(3,6) by auto
  qed (use 3(3-5) in \<open>auto split: if_splits\<close>)
  moreover have "straight {u..v} (payoff ps covered avg)"
    by (rule payoff_straight) (use 3(3,6) in auto)
  moreover have "u = v \<Longrightarrow> v = 0" using 3(4,5) by (auto split: if_splits)
  ultimately show ?case using 3(3,4) by simp
qed simp

lemma grid_row_prices:
  assumes "ps \<noteq> []"
  shows "gr_price ` set (get_risk_grid_rows ps c avg) = {0, 2 * top ps} \<union> rp_strike ` set ps"
proof -
  have "strikes_of ps \<noteq> []" using assms strikes_of_def by (metis list.set_map remdups_eq_nil_iff map_is_Nil_conv set_empty set_sort)
  then have "price_points ps = 0 # strikes_of ps @ [top ps * 2]" by (simp add: price_points_def Let_def)
  then have "gr_price ` set (get_risk_grid_rows ps c avg) = {0, top ps * 2} \<union> set (strikes_of ps)"
    using assms by (auto simp: get_risk_grid_rows_def image_image)
  then show ?thesis by (simp add: strikes_of_def mult.commute)
qed

lemma rows_sampled:
  assumes "modelled ps covered avg"
  shows "sampled (payoff ps covered avg) (get_risk_grid_rows ps covered avg)"
proof -
  note m = modelledD [OF assms]
  have ge: "k \<le> top ps" "0 \<le> k" if "k \<in> set (strikes_of ps)" for k
    using that m(2) sorted_le_last [OF strikes_of_props(2) that] by auto
  have t: "0 \<le> top ps" using m(1) by (intro ge(2)) (simp del: strikes_of_props)
  have points: "price_points ps = 0 # strikes_of ps @ [top ps * 2]"
    using m(1) by (simp add: price_points_def Let_def)
  have "sampled (payoff ps covered avg) (map (grid_row_at ps covered avg) (0 # strikes_of ps @ [top ps * 2]))"
  proof (rule sampled_map)
    show "sorted (0 # strikes_of ps @ [top ps * 2])"
      using ge t by (fastforce simp: sorted_append simp del: strikes_of_props(1))
    show "\<forall>x \<in> set (0 # strikes_of ps @ [top ps * 2]). 0 \<le> x" using ge t by auto
    have "distinct (strikes_of ps)" by (simp add: strikes_of_def)
    moreover have "top ps * 2 \<notin> set (strikes_of ps)" if "0 < top ps * 2" using ge(1) [of "top ps * 2"] that by auto
    ultimately show "distinct (filter (\<lambda>x. 0 < x) (0 # strikes_of ps @ [top ps * 2]))" by auto
    show "\<forall>p \<in> set ps. rp_strike p \<le> hd (0 # strikes_of ps @ [top ps * 2]) \<or>
        rp_strike p \<in> set (0 # strikes_of ps @ [top ps * 2])" by simp
  qed
  then show ?thesis using m(1) by (simp add: get_risk_grid_rows_def points)
qed

lemma grid_rows_ends:
  assumes "ps \<noteq> []"
  shows "get_risk_grid_rows ps covered avg \<noteq> []"
    and "gr_price (hd (get_risk_grid_rows ps covered avg)) = 0"
    and "gr_price (last (get_risk_grid_rows ps covered avg)) = top ps * 2"
  using assms by (simp_all add: get_risk_grid_rows_def price_points_def grid_row_at_def Let_def)

lemma sampled_last: "sampled f rows \<Longrightarrow> rows \<noteq> [] \<Longrightarrow> gr_total (last rows) = f (gr_price (last rows)) \<and> 0 \<le> gr_price (last rows)"
  by (induction f rows rule: sampled.induct) simp_all

lemma profile_fields:
  assumes "ps \<noteq> []"
  shows "pr_max_loss (compute_risk_profile ps c avg) = map_option round2 (ev_max_loss (compute_envelope ps c avg))"
    and "pr_max_gain (compute_risk_profile ps c avg) = map_option round2 (ev_max_gain (compute_envelope ps c avg))"
    and "pr_breakevens (compute_risk_profile ps c avg) = breakevens_of (get_risk_grid_rows ps c avg)"
    and "pr_naked_contracts (compute_risk_profile ps c avg) = naked_contracts ps c"
    and "0 < naked_contracts ps c \<Longrightarrow> pr_hedged_max_loss (compute_risk_profile ps c avg) =
           map_option round2 (ev_max_loss (compute_envelope (strip_naked_short_calls ps (naked_contracts ps c)) c avg))"
  using assms by (simp_all add: compute_risk_profile_def compute_envelope_def Let_def)

section \<open>Properties of the profile\<close>

text \<open>A covered call with a free leg, the position the examples use: 100 shares at 40, a call sold at 50 for 2.\<close>

definition sold_call :: risk_position where
  "sold_call = \<lparr>rp_strike = 50, rp_right = ''C'', rp_qty = -1, rp_avg_cost = 2, rp_expiry = None\<rparr>"

text \<open>
  C6. With the cover \<open>shares_backing_short_calls\<close> gives, the reported maximal loss and gain are the least
  and greatest payoff over every price from 0 up, rounded to cents, and are absent exactly when the
  payoff falls (rises) without end: the grid of strikes misses nothing between or beyond its points.
\<close>

theorem profile_extremes_are_exact:
  assumes "ps \<noteq> []" and "\<forall>p \<in> set ps. 0 \<le> rp_strike p" and "c = shares_backing_short_calls ps stock"
    and "0 < c \<longrightarrow> avg \<noteq> None"
  shows "(case pr_max_loss (compute_risk_profile ps c avg) of
       None \<Rightarrow> falls_without_end (payoff ps c avg)
     | Some m \<Rightarrow> \<exists>l. m = round2 l \<and> floor_of (payoff ps c avg) l) \<and>
    (case pr_max_gain (compute_risk_profile ps c avg) of
       None \<Rightarrow> rises_without_end (payoff ps c avg)
     | Some m \<Rightarrow> \<exists>g. m = round2 g \<and> ceiling_of (payoff ps c avg) g)"
proof -
  have "c \<le> max 0 (net_short_call ps - net_long_call ps)" and "0 \<le> c"
    using assms(3) by (simp_all add: shares_backing_short_calls_def)
  moreover from this assms have m: "modelled ps c avg" by (auto simp: modelled_def)
  ultimately show ?thesis
    using envelope_loss [OF m] envelope_gain [OF m]
    by (auto simp: profile_fields [OF assms(1)] split: option.splits)
qed

theorem profile_extremes_are_exact_witness:
  "pr_max_loss (compute_risk_profile [sold_call] 100 (Some 40)) = Some (-3800) \<and>
   (\<exists>l. -3800 = round2 l \<and> floor_of (payoff [sold_call] 100 (Some 40)) l)"
proof -
  have l: "pr_max_loss (compute_risk_profile [sold_call] 100 (Some 40)) = Some (-3800)" by code_simp
  have "100 = shares_backing_short_calls [sold_call] 300" by code_simp
  from profile_extremes_are_exact [OF _ _ this, of "Some 40"] l show ?thesis by (simp add: sold_call_def)
qed

lemma naked_contracts_least:
  assumes "0 < naked_contracts ps c"
  shows "0 < net_short_call ps - net_long_call ps - c"
    and "100 * (naked_contracts ps c - 1) < net_short_call ps - net_long_call ps - c"
proof -
  let ?n = "naked_contracts ps c" and ?r = "net_short_call ps - net_long_call ps - c"
  have r: "0 < ?r" and n: "?n = \<lceil>(of_int ?r / 100 :: rat)\<rceil>"
    using assms by (auto simp: naked_contracts_def Let_def max_def split: if_splits)
  show "0 < ?r" by (rule r)
  have "\<not> ?r \<le> 100 * (?n - 1)"
  proof
    assume "?r \<le> 100 * (?n - 1)"
    then have "(of_int ?r :: rat) \<le> of_int (100 * (?n - 1))" by (simp only: of_int_le_iff)
    then have "(of_int ?r / 100 :: rat) \<le> of_int (?n - 1)" by (simp add: field_simps)
    then have "\<lceil>(of_int ?r / 100 :: rat)\<rceil> \<le> ?n - 1" by (rule ceiling_le)
    with n show False by simp
  qed
  then show "100 * (?n - 1) < ?r" by simp
qed

lemma strip_strikes:
  assumes "p \<in> set (strip_naked_short_calls ps n)"
  shows "\<exists>q \<in> set ps. rp_strike p = rp_strike q"
proof (cases "0 < n")
  case True
  with assms obtain ip where "ip \<in> set (indexed ps)" "rp_strike p = rp_strike (snd ip)"
    unfolding strip_eq [OF True] by (auto simp: kept_def split: option.splits if_splits)
  then show ?thesis using map_snd_indexed [of ps] by (metis image_eqI set_map)
next
  case False
  with assms show ?thesis by (auto simp: strip_naked_short_calls_def)
qed

text \<open>A structure that is not unlimited has an exact least payoff, shares alone included.\<close>

lemma bounded_loss:
  assumes "\<forall>p \<in> set ps. 0 \<le> rp_strike p" and "0 \<le> c" and "0 < c \<longrightarrow> avg \<noteq> None" and "\<not> unlimited_downside ps c"
  shows "\<exists>l. ev_max_loss (compute_envelope ps c avg) = Some l \<and> floor_of (payoff ps c avg) l"
proof (cases "ps = []")
  case True
  have zero: "floor_of (payoff [] c avg) (payoff [] c avg 0)"
  proof -
    have "payoff [] c avg 0 \<le> payoff [] c avg x" if "0 \<le> x" for x
      using that assms(2) by (auto simp: payoff_def payoff_options_at_price_def payoff_stock_at_price_def
          algebra_simps split: option.splits)
    then show ?thesis unfolding floor_of_def by blast
  qed
  have "ev_max_loss (compute_envelope [] c avg) = Some (payoff [] c avg 0)"
    using assms(2,4) True
    by (auto simp: compute_envelope_def get_risk_grid_rows_def price_points_def strikes_of_def Let_def
        payoff_def payoff_options_at_price_def payoff_stock_at_price_def split: option.splits)
  with zero True show ?thesis by blast
next
  case False
  then have m: "modelled ps c avg" using assms(1-3) by (auto simp: modelled_def)
  from assms(4) False have "ev_max_loss (compute_envelope ps c avg) \<noteq> None" by (simp add: compute_envelope_def Let_def)
  with envelope_loss [OF m] show ?thesis by auto
qed

text \<open>
  C23. When short calls are naked, the hedged variant always has a maximal loss, the exact one of the
  structure with those contracts bought back, and no smaller number of contracts would do: without one
  of them the loss is still unlimited.
\<close>

theorem hedged_loss_is_finite_and_least:
  assumes "\<forall>p \<in> set ps. 0 \<le> rp_strike p" and "0 \<le> c" and "0 < c \<longrightarrow> avg \<noteq> None"
    and "0 < naked_contracts ps c"
  shows "(\<exists>l. pr_hedged_max_loss (compute_risk_profile ps c avg) = Some (round2 l) \<and>
       floor_of (payoff (strip_naked_short_calls ps (naked_contracts ps c)) c avg) l) \<and>
    unlimited_downside (strip_naked_short_calls ps (naked_contracts ps c - 1)) c"
proof -
  let ?n = "naked_contracts ps c"
  let ?hs = "strip_naked_short_calls ps ?n"
  have ne: "ps \<noteq> []" using assms(2,4) by (auto simp: naked_contracts_def net_short_call_def net_long_call_def)
  have "\<forall>p \<in> set ?hs. 0 \<le> rp_strike p" using strip_strikes [of _ ps ?n] assms(1) by fastforce
  from bounded_loss [OF this assms(2,3) hedged_not_unlimited [OF assms(2,4)]] obtain l
    where l: "ev_max_loss (compute_envelope ?hs c avg) = Some l" "floor_of (payoff ?hs c avg) l" by blast
  have "unlimited_downside (strip_naked_short_calls ps (?n - 1)) c"
  proof (cases "?n = 1")
    case True
    then show ?thesis using naked_contracts_least(1) [OF assms(4)]
      by (simp add: unlimited_downside_def strip_naked_short_calls_def)
  next
    case False
    with assms(4) have "0 < ?n - 1" by simp
    note nets = strip_nets [OF this, of ps]
    define t where "t = min (?n - 1) (contracts_in (shorts_of ps))"
    have "t \<le> ?n - 1" by (simp add: t_def)
    with naked_contracts_least(2) [OF assms(4)] have "0 < net_short_call ps - 100 * t - net_long_call ps - c"
      by simp
    then show ?thesis unfolding unlimited_downside_def nets t_def .
  qed
  with l profile_fields(5) [OF ne assms(4), of avg] show ?thesis by auto
qed

theorem hedged_loss_is_finite_and_least_witness:
  "naked_contracts [sold_call] 0 = 1 \<and> (\<exists>l. pr_hedged_max_loss (compute_risk_profile [sold_call] 0 None) = Some (round2 l)) \<and>
   unlimited_downside (strip_naked_short_calls [sold_call] (naked_contracts [sold_call] 0 - 1)) 0"
proof -
  have n: "naked_contracts [sold_call] 0 = 1" by code_simp
  have "\<forall>p \<in> set [sold_call]. 0 \<le> rp_strike p" by (simp add: sold_call_def)
  from hedged_loss_is_finite_and_least [OF this, of 0 None] n show ?thesis by auto
qed

text \<open>
  C38. Every reported break-even is, up to the rounding to cents, a price at which the payoff is zero, and either
  stands alone there or is a point of the price grid: zero, a strike or twice the highest strike (a payoff that is
  zero along a stretch is reported at such points only). Every positive price up to twice the highest strike at
  which the payoff is zero and stands alone is reported.
\<close>

theorem breakevens_sound_and_complete:
  assumes "ps \<noteq> []" and "\<forall>p \<in> set ps. 0 \<le> rp_strike p" and "0 \<le> c" and "0 < c \<longrightarrow> avg \<noteq> None"
  shows "(\<forall>b \<in> set (pr_breakevens (compute_risk_profile ps c avg)).
      reported_zero (payoff ps c avg) ({0, 2 * Max (rp_strike ` set ps)} \<union> rp_strike ` set ps) b) \<and>
    (\<forall>x. 0 < x \<and> x \<le> 2 * Max (rp_strike ` set ps) \<and> isolated_zero (payoff ps c avg) x \<longrightarrow>
      (\<exists>b \<in> set (pr_breakevens (compute_risk_profile ps c avg)). b = x \<or> b = round2 x))"
proof -
  let ?rows = "get_risk_grid_rows ps c avg" and ?f = "payoff ps c avg"
  from assms have "modelled ps c avg" by (auto simp: modelled_def)
  note s = rows_sampled [OF this]
  note ends = grid_rows_ends [OF assms(1), of c avg]
  have top: "Max (rp_strike ` set ps) = top ps"
    using last_strike [OF assms(1)] by (intro Max_eqI) auto
  have prices: "gr_price ` set ?rows = {0, 2 * top ps} \<union> rp_strike ` set ps" by (rule grid_row_prices [OF assms(1)])
  have all: "set (breakevens_of ?rows) = set (crossings ?rows) \<union>
      (if gr_total (last ?rows) = 0 \<and> 0 < gr_price (last ?rows) then {gr_price (last ?rows)} else {})"
    using ends(1) by (auto simp: breakevens_of_def Let_def)
  have "reported_zero ?f (gr_price ` set ?rows) b" if "b \<in> set (breakevens_of ?rows)" for b
  proof -
    from that all consider "b \<in> set (crossings ?rows)" | "gr_total (last ?rows) = 0" "b = gr_price (last ?rows)"
      by (auto split: if_splits)
    then show ?thesis
    proof cases
      case 1
      then show ?thesis by (rule crossings_sound [OF s])
    next
      case 2
      moreover have "last ?rows \<in> set ?rows" using ends(1) by simp
      ultimately show ?thesis using sampled_last [OF s ends(1)] unfolding reported_zero_def by (metis imageI)
    qed
  qed
  moreover have "\<exists>b \<in> set (breakevens_of ?rows). b = x \<or> b = round2 x"
    if "0 < x" "x \<le> 2 * top ps" "isolated_zero ?f x" for x
  proof -
    have "gr_price (hd ?rows) \<le> x" "x \<le> gr_price (last ?rows)" using that ends by simp_all
    from crossings_complete [OF s ends(1) that(3,1) this] show ?thesis
      unfolding all using that(1) by auto
  qed
  ultimately show ?thesis unfolding profile_fields(3) [OF assms(1)] top prices by blast
qed

text \<open>A bought call that cost nothing is zero up to its strike: the strike is reported, and is not isolated.\<close>

lemma end_of_a_flat_stretch:
  "pr_breakevens (compute_risk_profile [\<lparr>rp_strike = 50, rp_right = ''C'', rp_qty = 1, rp_avg_cost = 0, rp_expiry = None\<rparr>] 0 None) = [50]"
  by code_simp

theorem breakevens_sound_and_complete_witness:
  "pr_breakevens (compute_risk_profile [sold_call] 100 (Some 40)) = [38] \<and> reported_zero (payoff [sold_call] 100 (Some 40)) {0, 100, 50} 38"
proof -
  have b: "pr_breakevens (compute_risk_profile [sold_call] 100 (Some 40)) = [38]" by code_simp
  have "\<forall>p \<in> set [sold_call]. 0 \<le> rp_strike p" by (simp add: sold_call_def)
  from breakevens_sound_and_complete [OF _ this, of 100 "Some 40"] b show ?thesis by (simp add: sold_call_def insert_commute)
qed

text \<open>
  The grid ends at twice the highest strike, and a break-even beyond it is not reported: a long call
  that cost more per share than its strike breaks even at strike plus cost, and the list is empty.
\<close>

theorem breakeven_beyond_the_grid_is_missed:
  assumes "rp_right p = ''C''" and "0 < rp_qty p" and "0 < rp_strike p" and "rp_strike p < rp_avg_cost p"
  shows "isolated_zero (payoff [p] 0 None) (rp_strike p + rp_avg_cost p) \<and> pr_breakevens (compute_risk_profile [p] 0 None) = []"
proof -
  let ?k = "rp_strike p" and ?c = "rp_avg_cost p" and ?q = "of_int (rp_qty p) * 100 :: rat"
  have q: "0 < ?q" using assms(2) by simp
  have f: "payoff [p] 0 None x = (max (x - ?k) 0 - ?c) * ?q" for x
    using assms(1) by (simp add: payoff_def payoff_options_at_price_def payoff_stock_at_price_def leg_payoff_eq
        intrinsic_def is_call_def mult.assoc)
  have "payoff [p] 0 None y \<noteq> 0" if "y \<noteq> ?k + ?c" for y
    using that assms(3,4) q unfolding f by (auto simp: max_def)
  moreover have "payoff [p] 0 None (?k + ?c) = 0" using assms(3,4) unfolding f by simp
  ultimately have zero: "isolated_zero (payoff [p] 0 None) (?k + ?c)"
    unfolding isolated_zero_def using zero_less_one by blast
  have neg: "payoff [p] 0 None x < 0" if "x \<le> ?k * 2" for x
    unfolding f using that assms(3,4) q by (intro mult_neg_pos) (auto simp: max_def)
  have "get_risk_grid_rows [p] 0 None = map (grid_row_at [p] 0 None) [0, ?k, ?k * 2]"
    by (simp add: get_risk_grid_rows_def price_points_def strikes_of_def)
  moreover have "payoff [p] 0 None 0 < 0" "payoff [p] 0 None ?k < 0" "payoff [p] 0 None (?k * 2) < 0"
    using assms(3) by (intro neg, simp)+
  ultimately have "pr_breakevens (compute_risk_profile [p] 0 None) = []"
    by (subst profile_fields(3)) (simp_all add: breakevens_of_def Let_def not_le)
  with zero show ?thesis ..
qed

theorem breakeven_beyond_the_grid_is_missed_witness:
  "isolated_zero (payoff [\<lparr>rp_strike = 10, rp_right = ''C'', rp_qty = 1, rp_avg_cost = 15, rp_expiry = None\<rparr>] 0 None) 25"
  using breakeven_beyond_the_grid_is_missed
    [of "\<lparr>rp_strike = 10, rp_right = ''C'', rp_qty = 1, rp_avg_cost = 15, rp_expiry = None\<rparr>"] by simp

end
