(* ===== verification/Car.thy ===== *)
theory Car
  imports Payoff "HOL-Library.Product_Lexorder" "HOL-Library.List_Lexorder" "HOL-Library.Char_ord"
begin

text \<open>
  The portfolio model's analysis (\<open>portfolio/model/core.py\<close>, \<open>portfolio/units.py\<close>,
  \<open>portfolio/quote_freshness.py\<close>): account rows grouped by underlying, capital at risk per leg and per
  group, forward returns, the roll-up over the account and the stress table. Numbers read from the
  database are finite. The Black-Scholes functions (\<open>iv\<close>, \<open>bs\<close>) and the market-data plugin's daily
  close are arguments.
\<close>

section \<open>Units\<close>

definition text_of :: "pyval \<Rightarrow> string" where
  "text_of v = upper (stripped v)"

definition is_option :: "pyval \<Rightarrow> bool" where
  "is_option sec = (text_of sec = ''OPT'')"

definition OPTION_MULTIPLIER :: rat where
  "OPTION_MULTIPLIER = 100"

definition option_cost_per_share :: "pyval \<Rightarrow> pyval \<Rightarrow> rat option" where
  "option_cost_per_share avg sec =
     map_option (\<lambda>c. if is_option sec then c / OPTION_MULTIPLIER else c) (finite_float avg)"

definition position_value :: "pyval \<Rightarrow> pyval \<Rightarrow> pyval \<Rightarrow> rat option" where
  "position_value per_share qty sec = (case (finite_float per_share, finite_float qty) of
       (Some v, Some q) \<Rightarrow> Some (v * q * (if is_option sec then OPTION_MULTIPLIER else 1))
     | _ \<Rightarrow> None)"

section \<open>Grouping\<close>

record group =
  g_stock :: int
  g_avg :: "rat option"
  g_opts :: "risk_position list"
  g_spot :: "rat option"
  g_farthest :: "date option"

definition empty_group :: group where
  "empty_group = \<lparr>g_stock = 0, g_avg = None, g_opts = [], g_spot = None, g_farthest = None\<rparr>"

fun best_price_of :: "pydict \<Rightarrow> string list \<Rightarrow> rat option" where
  "best_price_of row [] = None"
| "best_price_of row (k # ks) = (case finite_float (dget row k) of
       Some f \<Rightarrow> if f > 0 then Some f else best_price_of row ks
     | None \<Rightarrow> best_price_of row ks)"

definition best_price :: "pydict \<Rightarrow> rat option" where
  "best_price row = best_price_of row [''price_mid'', ''price_last'']"

definition parse_expiry :: "pyval \<Rightarrow> date option" where
  "parse_expiry raw = (if raw = PNone then None
     else (let s = strip (py_str raw); t = (if CHR ''-'' \<in> set s then take 10 s else take 8 s)
           in case strptime_ymd [] t of Some d \<Rightarrow> Some d | None \<Rightarrow> strptime_ymd ''-'' t))"

definition dte :: "date \<Rightarrow> date option \<Rightarrow> int option" where
  "dte today expiry = map_option (\<lambda>d. max (to_ordinal d - to_ordinal today) 0) expiry"

definition later_expiry :: "date option \<Rightarrow> date option \<Rightarrow> date option" where
  "later_expiry old new = (case (old, new) of
       (_, None) \<Rightarrow> old
     | (None, Some d) \<Rightarrow> Some d
     | (Some o', Some d) \<Rightarrow> if d > o' then Some d else Some o')"

definition add_stock_row :: "pydict \<Rightarrow> rat \<Rightarrow> group \<Rightarrow> group" where
  "add_stock_row row qty g = g\<lparr>g_stock := trunc_rat qty,
     g_avg := (case finite_float (dget row ''avg_cost'') of Some a \<Rightarrow> Some a | None \<Rightarrow> g_avg g),
     g_spot := (case best_price row of Some p \<Rightarrow> Some p | None \<Rightarrow> g_spot g)\<rparr>"

definition add_option_row :: "pydict \<Rightarrow> rat \<Rightarrow> group \<Rightarrow> group" where
  "add_option_row row qty g =
     (let right = text_of (dget row ''option_right'')
      in if right \<noteq> ''C'' \<and> right \<noteq> ''P'' then g
         else case (finite_float (dget row ''strike''), option_cost_per_share (dget row ''avg_cost'') (PStr ''OPT'')) of
           (Some k, Some c) \<Rightarrow>
             (let exp = parse_expiry (dget row ''expiry'')
              in g\<lparr>g_opts := g_opts g @ [\<lparr>rp_strike = k, rp_right = right, rp_qty = trunc_rat qty,
                                           rp_avg_cost = c, rp_expiry = exp\<rparr>],
                   g_farthest := later_expiry (g_farthest g) exp\<rparr>)
         | _ \<Rightarrow> g)"

definition group_row :: "(string \<times> group) list \<Rightarrow> pydict \<Rightarrow> (string \<times> group) list" where
  "group_row groups row =
     (let sec = text_of (dget row ''sec_type''); sym = text_of (dget row ''symbol'')
      in if sym = [] then groups
         else case finite_float (dget row ''position'') of
           None \<Rightarrow> groups
         | Some qty \<Rightarrow>
             if qty = 0 then groups
             else (let g = (case map_of groups sym of None \<Rightarrow> empty_group | Some g \<Rightarrow> g)
                   in AList.update sym
                        (if sec = ''STK'' then add_stock_row row qty g
                         else if sec = ''OPT'' then add_option_row row qty g else g) groups))"

definition group_positions :: "pydict list \<Rightarrow> (string \<times> group) list" where
  "group_positions rows = foldl group_row [] rows"

section \<open>Capital at risk\<close>

record car_leg =
  cl_strike :: rat
  cl_right :: string
  cl_qty :: int
  cl_car :: "rat option"
  cl_type :: string

record car =
  car_effective :: "rat option"
  car_explain :: string
  car_unbounded :: bool
  car_legs :: "car_leg list"
  car_committed :: "rat option"

definition is_short_call :: "risk_position \<Rightarrow> bool" where
  "is_short_call p \<longleftrightarrow> rp_right p = ''C'' \<and> rp_qty p < 0"

definition leg_shares :: "risk_position \<Rightarrow> int" where
  "leg_shares p = \<bar>rp_qty p\<bar> * 100"

definition compute_car_per_leg :: "risk_position \<Rightarrow> int \<Rightarrow> rat option \<Rightarrow> pyfloat \<times> string" where
  "compute_car_per_leg p avail spot =
     (if rp_qty p > 0 then (Fin (\<bar>rp_avg_cost p\<bar> * of_int \<bar>rp_qty p\<bar> * 100), ''premium_paid'')
      else if rp_right p = ''P'' \<and> rp_qty p < 0 then (Fin (rp_strike p * of_int \<bar>rp_qty p\<bar> * 100), ''cash_secured'')
      else if is_short_call p
      then (let covered = min (leg_shares p) (max avail 0)
            in if covered \<le> 0 then (PosInf, ''naked_unbounded'')
               else case spot of
                 None \<Rightarrow> (NaN, ''covered_no_mark'')
               | Some s \<Rightarrow> if s \<le> 0 then (NaN, ''covered_no_mark'') else (Fin (s * of_int covered), ''covered_stock_value''))
      else (Fin 0, ''unknown''))"

definition leg_order :: "risk_position \<Rightarrow> nat \<times> rat" where
  "leg_order p = (if is_short_call p then 0 else 1, rp_strike p)"

text \<open>The walk: shares left, sum so far, whether a leg was unbounded, details.\<close>

fun car_walk :: "rat option \<Rightarrow> int \<Rightarrow> risk_position list \<Rightarrow> rat \<times> bool \<times> car_leg list" where
  "car_walk spot avail [] = (0, False, [])"
| "car_walk spot avail (p # ps) =
     (let (val, label) = compute_car_per_leg p avail spot;
          avail' = (if is_short_call p \<and> avail > 0 then max 0 (avail - leg_shares p) else avail);
          (total, unbounded, legs) = car_walk spot avail' ps;
          leg = (\<lambda>c. \<lparr>cl_strike = rp_strike p, cl_right = rp_right p, cl_qty = rp_qty p, cl_car = c, cl_type = label\<rparr>)
      in case val of
           Fin v \<Rightarrow> (v + total, unbounded, leg (Some (round2 v)) # legs)
         | NaN \<Rightarrow> (total, unbounded, leg None # legs)
         | _ \<Rightarrow> (total, True, leg None # legs))"

definition compute_car :: "risk_position list \<Rightarrow> int \<Rightarrow> rat option \<Rightarrow> rat option \<Rightarrow> car" where
  "compute_car ps stock spot envelope_max_loss =
     (let (total, unbounded, legs) = car_walk spot (max stock 0) (sort_key leg_order ps);
          capped = (case envelope_max_loss of None \<Rightarrow> None | Some m \<Rightarrow> if \<not> unbounded \<and> \<bar>m\<bar> < total then Some \<bar>m\<bar> else None)
      in \<lparr>car_effective = (case capped of Some m \<Rightarrow> Some (round2 m)
                           | None \<Rightarrow> if unbounded then None else Some (round2 total)),
          car_explain = (case capped of Some m \<Rightarrow> ''net_portfolio_max_loss''
                         | None \<Rightarrow> if unbounded then ''unbounded'' else ''sum_of_legs''),
          car_unbounded = unbounded, car_legs = legs,
          car_committed = (if unbounded then None else Some (round2 total))\<rparr>)"

section \<open>Forward returns\<close>

definition round6 :: "rat \<Rightarrow> rat" where
  "round6 q = of_int (round_half_even (q * 1000000)) / 1000000"

fun called_upside :: "rat \<Rightarrow> int \<Rightarrow> risk_position list \<Rightarrow> rat" where
  "called_upside spot left [] = 0"
| "called_upside spot left (p # ps) =
     (if left \<le> 0 then 0
      else (let shares = min (leg_shares p) left
            in (rp_strike p - spot) * of_int shares + called_upside spot (left - shares) ps))"

definition forward_returns ::
  "risk_position list \<Rightarrow> int \<Rightarrow> rat option \<Rightarrow> rat option \<Rightarrow> int option \<Rightarrow> rat option \<times> rat option" where
  "forward_returns ps covered spot committed days = (case (committed, days) of
       (Some c, Some d) \<Rightarrow>
         if c \<le> 0 \<or> d \<le> 0 then (None, None)
         else (let premium = sum_list (map (\<lambda>p. rp_avg_cost p * of_int \<bar>rp_qty p\<bar> * 100 * (if rp_qty p < 0 then 1 else -1)) ps);
                   scale = 365 / of_int d; static = round6 (premium / c * scale)
               in case spot of
                    Some s \<Rightarrow>
                      if s \<le> 0 \<or> covered \<le> 0 then (Some static, Some static)
                      else (Some static, Some (round6 ((premium + called_upside s covered
                              (sort_key rp_strike (filter is_short_call ps))) / c * scale)))
                  | None \<Rightarrow> (Some static, Some static))
     | _ \<Rightarrow> (None, None))"

definition annualized_return :: "rat option \<Rightarrow> rat option \<Rightarrow> int option \<Rightarrow> rat option" where
  "annualized_return profit c days = (case (profit, c, days) of
       (Some p, Some k, Some d) \<Rightarrow> if k \<le> 0 \<or> d \<le> 0 then None else Some (round6 (p / k * (365 / of_int d)))
     | _ \<Rightarrow> None)"

section \<open>One underlying and the account\<close>

text \<open>\<open>underlying_spot\<close> as the analysis calls it, without a quote: the last daily close.\<close>

definition underlying_spot :: "(string \<Rightarrow> (rat \<times> rat) option) \<Rightarrow> string \<Rightarrow> rat option \<times> string option" where
  "underlying_spot day_close symbol =
     (let sym = upper (strip symbol)
      in if sym = [] then (None, None)
         else case day_close sym of None \<Rightarrow> (None, None) | Some (p, t) \<Rightarrow> (Some p, Some ''close''))"

record entry =
  en_symbol :: string
  en_spot :: "rat option"
  en_spot_source :: "string option"
  en_dte :: "int option"
  en_stock :: int
  en_covered :: int
  en_profile :: risk_profile
  en_car :: car
  en_static :: "rat option"
  en_annual :: "rat option"
  en_annual_loss :: "rat option"

definition analyse_group :: "(string \<Rightarrow> (rat \<times> rat) option) \<Rightarrow> date \<Rightarrow> string \<times> group \<Rightarrow> entry" where
  "analyse_group day_close today sg =
     (let (sym, g) = sg;
          (spot, source) = (case g_spot g of Some p \<Rightarrow> (Some p, Some ''live'') | None \<Rightarrow> underlying_spot day_close sym);
          days = dte today (g_farthest g);
          covered = shares_backing_short_calls (g_opts g) (g_stock g);
          profile = compute_risk_profile (g_opts g) covered (g_avg g);
          c = compute_car (g_opts g) (g_stock g) spot (pr_max_loss profile);
          fwd = forward_returns (g_opts g) covered spot (car_committed c) days
      in \<lparr>en_symbol = sym, en_spot = spot, en_spot_source = source, en_dte = days, en_stock = g_stock g,
          en_covered = covered, en_profile = profile, en_car = c, en_static = fst fwd, en_annual = snd fwd,
          en_annual_loss = annualized_return (map_option abs (pr_max_loss profile)) (car_effective c) days\<rparr>)"

datatype analysis_error = ZeroDivision

record rollup =
  ro_total :: rat
  ro_valid :: bool
  ro_num :: rat
  ro_den :: rat

definition roll_entry :: "rollup \<Rightarrow> entry \<Rightarrow> analysis_error + rollup" where
  "roll_entry r e = (case car_effective (en_car e) of
       None \<Rightarrow> Inr (r\<lparr>ro_valid := False\<rparr>)
     | Some v \<Rightarrow>
         (let r' = r\<lparr>ro_total := ro_total r + v\<rparr>
          in case (en_dte e, pr_max_gain (en_profile e)) of
               (Some d, Some gain) \<Rightarrow>
                 if d > 0
                 then (if v = 0 then Inl ZeroDivision
                       else Inr (r'\<lparr>ro_num := ro_num r + gain / v * (365 / of_int d) * v, ro_den := ro_den r + v\<rparr>))
                 else Inr r'
             | _ \<Rightarrow> Inr r'))"

fun roll_entries :: "rollup \<Rightarrow> entry list \<Rightarrow> analysis_error + rollup" where
  "roll_entries r [] = Inr r"
| "roll_entries r (e # es) = ebind (roll_entry r e) (\<lambda>r'. roll_entries r' es)"

record account =
  ac_entries :: "entry list"
  ac_total_car :: "rat option"
  ac_unbounded :: bool
  ac_weighted :: "rat option"

definition compute_model_analysis ::
  "(string \<Rightarrow> (rat \<times> rat) option) \<Rightarrow> date \<Rightarrow> pydict list \<Rightarrow> analysis_error + account" where
  "compute_model_analysis day_close today rows =
     (let entries = map (analyse_group day_close today) (sort_key fst (group_positions rows))
      in ebind (roll_entries \<lparr>ro_total = 0, ro_valid = True, ro_num = 0, ro_den = 0\<rparr> entries) (\<lambda>r.
           Inr \<lparr>ac_entries = entries, ac_total_car = (if ro_valid r then Some (round2 (ro_total r)) else None),
                ac_unbounded = (\<not> ro_valid r),
                ac_weighted = (if ro_den r > 0 then Some (round6 (ro_num r / ro_den r)) else None)\<rparr>))"

section \<open>The stress table\<close>

record stress_row =
  sr_spot_shock :: rat
  sr_iv_shock :: rat
  sr_new_spot :: rat
  sr_options :: rat
  sr_stock :: rat
  sr_total :: rat
  sr_method :: string
  sr_change :: "rat option"

definition SPOT_SHOCKS :: "rat list" where
  "SPOT_SHOCKS = [-15/100, -10/100, -5/100, 0, 5/100, 10/100, 15/100]"

definition IV_SHOCKS :: "rat list" where
  "IV_SHOCKS = [-5/100, 5/100]"

definition years_to :: "date \<Rightarrow> date option \<Rightarrow> rat" where
  "years_to today expiry = (case expiry of None \<Rightarrow> 0 | Some d \<Rightarrow> of_int (max (to_ordinal d - to_ordinal today) 0) / 365)"

text \<open>A leg with its time to expiry and its implied volatility.\<close>

type_synonym priced_leg = "risk_position \<times> rat \<times> rat option"

definition priced_legs ::
  "(rat \<Rightarrow> rat \<Rightarrow> rat \<Rightarrow> rat \<Rightarrow> string \<Rightarrow> rat option) \<Rightarrow> date \<Rightarrow> date option \<Rightarrow>
   (rat \<times> string \<times> date option \<Rightarrow> rat option) \<Rightarrow> rat \<Rightarrow> risk_position list \<Rightarrow> priced_leg list" where
  "priced_legs iv today farthest mids spot ps = map (\<lambda>p.
     let t = years_to today (case rp_expiry p of None \<Rightarrow> farthest | e \<Rightarrow> e)
     in (p, t, case mids (rp_strike p, rp_right p, rp_expiry p) of
                 Some mid \<Rightarrow> if mid > 0 \<and> t > 0 then iv mid spot (rp_strike p) t (rp_right p) else None
               | None \<Rightarrow> None)) ps"

definition can_reprice :: "priced_leg \<Rightarrow> bool" where
  "can_reprice leg = (case leg of (p, t, base) \<Rightarrow> (case base of None \<Rightarrow> False | Some v \<Rightarrow> v > 0 \<and> t > 0))"

definition reprice_leg ::
  "(rat \<Rightarrow> rat \<Rightarrow> rat \<Rightarrow> rat \<Rightarrow> string \<Rightarrow> rat) \<Rightarrow> rat \<Rightarrow> rat \<Rightarrow> priced_leg \<Rightarrow> rat" where
  "reprice_leg bs new_spot shock leg = (case leg of (p, t, base) \<Rightarrow>
     if can_reprice leg
     then (let new = bs new_spot (rp_strike p) t (max (the base + shock) (1/100)) (rp_right p)
           in if rp_qty p > 0 then (new - rp_avg_cost p) * of_int \<bar>rp_qty p\<bar> * 100
              else (rp_avg_cost p - new) * of_int \<bar>rp_qty p\<bar> * 100)
     else leg_payoff new_spot p)"

definition stress_stock :: "int \<Rightarrow> rat option \<Rightarrow> rat \<Rightarrow> rat" where
  "stress_stock stock avg new_spot = (case avg of Some a \<Rightarrow> if stock \<noteq> 0 then (new_spot - a) * of_int stock else 0 | None \<Rightarrow> 0)"

definition mk_row :: "rat \<Rightarrow> rat \<Rightarrow> rat \<Rightarrow> rat \<Rightarrow> rat \<Rightarrow> string \<Rightarrow> stress_row" where
  "mk_row shock iv_shock new_spot opt stk meth =
     \<lparr>sr_spot_shock = shock, sr_iv_shock = iv_shock, sr_new_spot = round2 new_spot, sr_options = round2 opt,
      sr_stock = round2 stk, sr_total = round2 (opt + stk), sr_method = meth, sr_change = None\<rparr>"

definition stress_rows_at ::
  "(rat \<Rightarrow> rat \<Rightarrow> rat \<Rightarrow> rat \<Rightarrow> string \<Rightarrow> rat) \<Rightarrow> priced_leg list \<Rightarrow> int \<Rightarrow> rat option \<Rightarrow> rat \<Rightarrow> rat \<Rightarrow> stress_row list" where
  "stress_rows_at bs legs stock avg spot shock =
     (let new_spot = spot * (1 + shock); stk = stress_stock stock avg new_spot
      in if list_ex (\<lambda>(p, t, base). base \<noteq> None) legs \<and> list_ex (\<lambda>(p, t, base). t > 0) legs
         then map (\<lambda>iv_shock. mk_row shock iv_shock new_spot (sum_list (map (reprice_leg bs new_spot iv_shock) legs)) stk
                     (if list_all can_reprice legs then ''bs_reprice'' else ''mixed_intrinsic'')) (0 # IV_SHOCKS)
         else [mk_row shock 0 new_spot (sum_list (map (\<lambda>(p, t, base). leg_payoff new_spot p) legs)) stk ''intrinsic''])"

definition stamp_pnl_change :: "stress_row list \<Rightarrow> stress_row list" where
  "stamp_pnl_change rows = (case find (\<lambda>s. sr_spot_shock s = 0 \<and> sr_iv_shock s = 0) rows of
       None \<Rightarrow> rows
     | Some b \<Rightarrow> map (\<lambda>s. s\<lparr>sr_change := Some (round2 (sr_total s - sr_total b))\<rparr>) rows)"

record stress =
  st_iv_available :: bool
  st_rows :: "stress_row list"

text \<open>\<open>None\<close> is the answer "not available".\<close>

definition stress_matrix ::
  "(rat \<Rightarrow> rat \<Rightarrow> rat \<Rightarrow> rat \<Rightarrow> string \<Rightarrow> rat option) \<Rightarrow> (rat \<Rightarrow> rat \<Rightarrow> rat \<Rightarrow> rat \<Rightarrow> string \<Rightarrow> rat) \<Rightarrow> date \<Rightarrow>
   risk_position list \<Rightarrow> int \<Rightarrow> rat option \<Rightarrow> rat option \<Rightarrow> date option \<Rightarrow>
   (rat \<times> string \<times> date option \<Rightarrow> rat option) \<Rightarrow> stress option" where
  "stress_matrix iv bs today ps stock avg spot farthest mids = (case spot of None \<Rightarrow> None | Some s \<Rightarrow>
     if s \<le> 0 then None
     else (let legs = priced_legs iv today farthest mids s ps
           in Some \<lparr>st_iv_available = list_ex (\<lambda>(p, t, base). base \<noteq> None) legs,
                    st_rows = stamp_pnl_change (concat (map (stress_rows_at bs legs stock avg s) SPOT_SHOCKS))\<rparr>))"

section \<open>The stress table of the account\<close>

record stress_total =
  tt_total :: rat
  tt_change :: rat
  tt_contributors :: nat

definition add_scenario :: "((rat \<times> rat) \<times> stress_total) list \<Rightarrow> stress_row \<Rightarrow> ((rat \<times> rat) \<times> stress_total) list" where
  "add_scenario combined s =
     (let key = (sr_spot_shock s, sr_iv_shock s);
          old = (case map_of combined key of None \<Rightarrow> \<lparr>tt_total = 0, tt_change = 0, tt_contributors = 0\<rparr> | Some t \<Rightarrow> t)
      in AList.update key \<lparr>tt_total = tt_total old + sr_total s,
            tt_change = tt_change old + (case sr_change s of None \<Rightarrow> 0 | Some c \<Rightarrow> c),
            tt_contributors = tt_contributors old + 1\<rparr> combined)"

record account_row =
  ar_spot_shock :: rat
  ar_iv_shock :: rat
  ar_total :: rat
  ar_change :: rat
  ar_contributors :: nat
  ar_partial :: bool

record account_stress =
  as_iv_available :: bool
  as_underlyings :: nat
  as_rows :: "account_row list"

definition aggregate_stress :: "stress option list \<Rightarrow> account_stress option" where
  "aggregate_stress entries =
     (let available = List.map_filter id entries;
          combined = foldl add_scenario [] (concat (map st_rows available));
          contributing = length available
      in if available = [] then None
         else Some \<lparr>as_iv_available = list_ex st_iv_available available, as_underlyings = contributing,
                as_rows = map (\<lambda>(k, t). \<lparr>ar_spot_shock = fst k, ar_iv_shock = snd k, ar_total = round2 (tt_total t),
                      ar_change = round2 (tt_change t), ar_contributors = tt_contributors t,
                      ar_partial = (tt_contributors t < contributing)\<rparr>) (sort_key fst combined)\<rparr>)"

end
