(* ===== verification/Car_Claims.thy ===== *)
theory Car_Claims
  imports Car Payoff_Envelope "HOL-Library.Multiset"
begin

text \<open>Capital at risk, the account analysis and the stress table: lemmas and properties.\<close>

section \<open>The walk over the legs\<close>

text \<open>What a leg that is no short call commits.\<close>

definition own_capital :: "risk_position \<Rightarrow> rat" where
  "own_capital p =
     (if rp_qty p > 0 then \<bar>rp_avg_cost p\<bar> * of_int (leg_shares p)
      else if rp_right p = ''P'' \<and> rp_qty p < 0 then rp_strike p * of_int (leg_shares p) else 0)"

definition short_call_shares :: "risk_position list \<Rightarrow> int" where
  "short_call_shares ps = sum_list (map leg_shares (filter is_short_call ps))"

lemma leg_shares_pos: "is_short_call p \<Longrightarrow> 0 < leg_shares p"
  by (simp add: is_short_call_def leg_shares_def)

lemma own_capital_short: "is_short_call p \<Longrightarrow> own_capital p = 0"
  by (simp add: is_short_call_def own_capital_def)

lemma short_call_shares_nonneg [simp]: "0 \<le> short_call_shares ps"
  unfolding short_call_shares_def by (rule sum_list_nonneg) (auto simp: leg_shares_def)

lemma car_leg_other:
  assumes "\<not> is_short_call p"
  shows "fst (compute_car_per_leg p avail spot) = Fin (own_capital p)"
  using assms by (auto simp: compute_car_per_leg_def own_capital_def leg_shares_def mult.assoc)

lemma car_leg_short:
  assumes "is_short_call p" and "0 \<le> avail" and "0 < s"
  shows "fst (compute_car_per_leg p avail (Some s)) =
    (if avail = 0 then PosInf else Fin (s * of_int (min (leg_shares p) avail)))"
proof -
  have "\<not> rp_qty p > 0" "\<not> (rp_right p = ''P'' \<and> rp_qty p < 0)" using assms(1) by (auto simp: is_short_call_def)
  then show ?thesis using assms leg_shares_pos [OF assms(1)] by (auto simp: compute_car_per_leg_def Let_def)
qed

lemma car_walk_Cons:
  "fst (car_walk spot avail (p # ps)) =
     (case fst (compute_car_per_leg p avail spot) of Fin v \<Rightarrow> v | _ \<Rightarrow> 0) +
     fst (car_walk spot (if is_short_call p \<and> avail > 0 then max 0 (avail - leg_shares p) else avail) ps)"
  "fst (snd (car_walk spot avail (p # ps))) \<longleftrightarrow> fst (compute_car_per_leg p avail spot) \<in> {PosInf, NegInf} \<or>
     fst (snd (car_walk spot (if is_short_call p \<and> avail > 0 then max 0 (avail - leg_shares p) else avail) ps))"
  by (simp_all add: Let_def split: prod.splits pyfloat.splits)

declare car_walk.simps(2) [simp del]

lemma car_walk_total:
  assumes "0 \<le> avail" and "0 < s" and "\<not> fst (snd (car_walk (Some s) avail ps))"
  shows "fst (car_walk (Some s) avail ps) = sum_list (map own_capital ps) + s * of_int (min avail (short_call_shares ps))"
  using assms
proof (induction ps arbitrary: avail)
  case Nil
  then show ?case by (simp add: short_call_shares_def)
next
  case (Cons p ps)
  show ?case
  proof (cases "is_short_call p")
    case True
    have pos: "avail \<noteq> 0" using Cons.prems True by (auto simp: car_walk_Cons(2) car_leg_short)
    define rest where "rest = max 0 (avail - leg_shares p)"
    have "\<not> fst (snd (car_walk (Some s) rest ps))"
      using Cons.prems True pos by (simp add: car_walk_Cons(2) rest_def)
    with Cons.IH [of rest] Cons.prems(2)
    have "fst (car_walk (Some s) rest ps) = sum_list (map own_capital ps) + s * of_int (min rest (short_call_shares ps))"
      by (simp add: rest_def)
    moreover have "min (leg_shares p) avail + min rest (short_call_shares ps) = min avail (short_call_shares (p # ps))"
    proof -
      have "short_call_shares (p # ps) = leg_shares p + short_call_shares ps" by (simp add: short_call_shares_def True)
      moreover have "min l a + min (max 0 (a - l)) r = min a (l + r)" if "0 \<le> a" "0 < l" "0 \<le> r" for l a r :: int
        using that by (simp add: min_def max_def)
      ultimately show ?thesis
        using Cons.prems(1) leg_shares_pos [OF True] short_call_shares_nonneg [of ps] unfolding rest_def by presburger
    qed
    ultimately show ?thesis
      using Cons.prems(1,2) pos True
      by (simp add: car_walk_Cons(1) car_leg_short own_capital_short flip: rest_def) (metis distrib_left of_int_add)
  next
    case False
    then have "short_call_shares (p # ps) = short_call_shares ps" by (simp add: short_call_shares_def)
    with False Cons show ?thesis by (simp add: car_walk_Cons car_leg_other)
  qed
qed

lemma car_walk_unbounded:
  assumes "0 \<le> avail" and "0 < s"
  shows "fst (snd (car_walk (Some s) avail ps)) \<longleftrightarrow>
    filter is_short_call ps \<noteq> [] \<and> avail \<le> sum_list (map leg_shares (butlast (filter is_short_call ps)))"
  using assms
proof (induction ps arbitrary: avail)
  case (Cons p ps)
  have nonneg: "0 \<le> sum_list (map leg_shares xs)" for xs
    by (rule sum_list_nonneg) (auto simp: leg_shares_def)
  show ?case
  proof (cases "is_short_call p")
    case True
    show ?thesis
    proof (cases "avail = 0")
      case zero: True
      with True Cons.prems nonneg show ?thesis by (simp add: car_walk_Cons(2) car_leg_short)
    next
      case False
      with Cons.prems True have "fst (snd (car_walk (Some s) avail (p # ps)))
          \<longleftrightarrow> fst (snd (car_walk (Some s) (max 0 (avail - leg_shares p)) ps))"
        by (simp add: car_walk_Cons(2) car_leg_short)
      also have "\<dots> \<longleftrightarrow> filter is_short_call ps \<noteq> [] \<and>
          max 0 (avail - leg_shares p) \<le> sum_list (map leg_shares (butlast (filter is_short_call ps)))"
        by (rule Cons.IH) (use Cons.prems in simp_all)
      also have "\<dots> \<longleftrightarrow> filter is_short_call (p # ps) \<noteq> [] \<and>
          avail \<le> sum_list (map leg_shares (butlast (filter is_short_call (p # ps))))"
        using True False Cons.prems(1) nonneg [of "butlast (filter is_short_call ps)"] by auto
      finally show ?thesis .
    qed
  next
    case False
    with Cons show ?thesis by (simp add: car_walk_Cons(2) car_leg_other)
  qed
qed simp

section \<open>The order of the walk\<close>

lemma sort_key_same_order:
  assumes "\<And>x y. x \<in> set xs \<Longrightarrow> y \<in> set xs \<Longrightarrow> f x \<le> f y \<longleftrightarrow> g x \<le> g y"
  shows "sort_key f xs = sort_key g xs"
  using assms
proof (induction xs)
  case (Cons x xs)
  have ins: "insort_key f x ys = insort_key g x ys" if "set ys \<subseteq> set xs" for ys
    using that Cons.prems by (induction ys) auto
  have "sort_key f xs = sort_key g xs" using Cons by simp
  then show ?case using ins [of "sort_key g xs"] by simp
qed simp

lemma short_calls_in_order: "filter is_short_call (sort_key leg_order ps) = sort_key rp_strike (filter is_short_call ps)"
  unfolding filter_sort by (rule sort_key_same_order) (auto simp: leg_order_def)

lemma sum_sorted: "sum_list (map f (sort_key k xs)) = sum_list (map f xs)" for f :: "'a \<Rightarrow> 'b::comm_monoid_add"
  by (metis mset_map mset_sort sum_mset_sum_list)

lemma short_call_shares_sorted [simp]: "short_call_shares (sort_key leg_order ps) = short_call_shares ps"
  unfolding short_call_shares_def short_calls_in_order by (rule sum_sorted)

lemma compute_car_fields:
  fixes ps stock spot m
  defines "w \<equiv> car_walk spot (max stock 0) (sort_key leg_order ps)"
  shows "car_unbounded (compute_car ps stock spot m) = fst (snd w)"
    and "car_committed (compute_car ps stock spot m) = (if fst (snd w) then None else Some (round2 (fst w)))"
    and "car_effective (compute_car ps stock spot m) = (if fst (snd w) then None
       else Some (round2 (case m of None \<Rightarrow> fst w | Some l \<Rightarrow> min (fst w) \<bar>l\<bar>)))"
  unfolding w_def by (auto simp: compute_car_def Let_def min_def split: prod.splits option.splits)

text \<open>The short calls the walk meets before the last one.\<close>

definition earlier_shares :: "risk_position list \<Rightarrow> int" where
  "earlier_shares ps = sum_list (map leg_shares (butlast (sort_key rp_strike (filter is_short_call ps))))"

definition has_short_call :: "risk_position list \<Rightarrow> bool" where
  "has_short_call ps = list_ex is_short_call ps"

lemma car_unbounded_iff:
  assumes "0 < s"
  shows "car_unbounded (compute_car ps stock (Some s) m) \<longleftrightarrow> has_short_call ps \<and> max stock 0 \<le> earlier_shares ps"
proof -
  have "sort_key rp_strike (filter is_short_call ps) \<noteq> [] \<longleftrightarrow> has_short_call ps"
    by (auto simp: has_short_call_def list_ex_iff filter_empty_conv) (metis filter_empty_conv length_0_conv length_sort)+
  then show ?thesis
    unfolding compute_car_fields(1) by (simp add: car_walk_unbounded assms short_calls_in_order earlier_shares_def)
qed

lemma has_short_call_shares: "has_short_call ps \<longleftrightarrow> 0 < short_call_shares ps"
proof (induction ps)
  case (Cons p ps)
  show ?case
  proof (cases "is_short_call p")
    case True
    then have "short_call_shares (p # ps) = leg_shares p + short_call_shares ps" by (simp add: short_call_shares_def)
    with leg_shares_pos [OF True] short_call_shares_nonneg [of ps] have "0 < short_call_shares (p # ps)" by linarith
    with True show ?thesis by (simp add: has_short_call_def)
  next
    case False
    with Cons show ?thesis by (simp add: has_short_call_def short_call_shares_def)
  qed
qed (simp add: has_short_call_def short_call_shares_def)

lemma net_short_call_shares: "net_short_call ps = short_call_shares ps"
  by (simp add: net_short_call_def short_call_shares_def is_short_call_def [abs_def] is_call_def leg_shares_def [abs_def])

lemma earlier_shares_less:
  assumes "has_short_call ps"
  shows "earlier_shares ps < short_call_shares ps"
proof -
  define cs where "cs = sort_key rp_strike (filter is_short_call ps)"
  have m: "mset cs = mset (filter is_short_call ps)" by (simp add: cs_def)
  then have sets: "set cs = set (filter is_short_call ps)" by (rule mset_eq_setD)
  from assms obtain p where "p \<in> set ps" "is_short_call p" by (auto simp: has_short_call_def list_ex_iff)
  then have "p \<in> set cs" unfolding sets by simp
  then have "cs \<noteq> []" by (cases cs) simp_all
  then have "last cs \<in> set cs" by (rule last_in_set)
  then have "is_short_call (last cs)" unfolding sets by simp
  moreover have "short_call_shares ps = sum_list (map leg_shares cs)"
    unfolding short_call_shares_def cs_def by (rule sum_sorted [symmetric])
  moreover have "sum_list (map leg_shares cs) = sum_list (map leg_shares (butlast cs)) + leg_shares (last cs)"
  proof -
    have "cs = butlast cs @ [last cs]" using \<open>cs \<noteq> []\<close> by simp
    then have "map leg_shares cs = map leg_shares (butlast cs) @ [leg_shares (last cs)]" by (metis list.map map_append)
    then show ?thesis by simp
  qed
  ultimately show ?thesis using leg_shares_pos [OF \<open>is_short_call (last cs)\<close>] unfolding earlier_shares_def cs_def by linarith
qed

section \<open>Capital at risk\<close>

definition covered_example :: "risk_position list" where
  "covered_example = [\<lparr>rp_strike = 60, rp_right = ''C'', rp_qty = -2, rp_avg_cost = 1, rp_expiry = Some (2026, 1, 16)\<rparr>,
     \<lparr>rp_strike = 50, rp_right = ''C'', rp_qty = -1, rp_avg_cost = 2, rp_expiry = None\<rparr>,
     \<lparr>rp_strike = 40, rp_right = ''P'', rp_qty = -1, rp_avg_cost = 1, rp_expiry = None\<rparr>]"

text \<open>
  C22. With a positive spot the capital of a group is unbounded exactly when the shares held are used up
  before its last short call (lowest strike first); otherwise the committed capital is what the other
  legs commit plus the market value of the shares backing the short calls, every share counted once.
\<close>

theorem capital_counts_each_share_once:
  assumes "0 < s"
  shows "(car_unbounded (compute_car ps stock (Some s) m) \<longleftrightarrow> has_short_call ps \<and> max stock 0 \<le> earlier_shares ps) \<and>
    (\<not> car_unbounded (compute_car ps stock (Some s) m) \<longrightarrow>
      car_committed (compute_car ps stock (Some s) m) =
        Some (round2 (sum_list (map own_capital ps) + s * of_int (min (max stock 0) (net_short_call ps)))))"
proof -
  have "\<not> fst (snd (car_walk (Some s) (max stock 0) (sort_key leg_order ps))) \<Longrightarrow>
      fst (car_walk (Some s) (max stock 0) (sort_key leg_order ps)) =
      sum_list (map own_capital ps) + s * of_int (min (max stock 0) (net_short_call ps))"
    using car_walk_total [of "max stock 0" s "sort_key leg_order ps"] assms
    by (simp add: sum_sorted net_short_call_shares)
  then have "\<not> car_unbounded (compute_car ps stock (Some s) m) \<longrightarrow> car_committed (compute_car ps stock (Some s) m) =
      Some (round2 (sum_list (map own_capital ps) + s * of_int (min (max stock 0) (net_short_call ps))))"
    unfolding compute_car_fields(1,2) by simp
  with car_unbounded_iff [OF assms] show ?thesis by blast
qed

theorem capital_counts_each_share_once_witness:
  "earlier_shares covered_example = 100 \<and>
   car_committed (compute_car covered_example 250 (Some 55) None) = Some 17750"
proof -
  have e: "earlier_shares covered_example = 100" by code_simp
  have u: "\<not> car_unbounded (compute_car covered_example 250 (Some 55) None)" by code_simp
  have "round2 (sum_list (map own_capital covered_example) + 55 * of_int (min (max 250 0) (net_short_call covered_example))) = 17750"
    by code_simp
  with e u capital_counts_each_share_once [of 55 covered_example 250 None] show ?thesis by simp
qed

text \<open>
  Without long calls, a group whose loss is unlimited is nevertheless given a finite capital at risk
  exactly when the shares reach into the last short call without covering it: the walk calls a leg
  unbounded only when no share at all is left for it.
\<close>

theorem partly_naked_call_has_finite_capital:
  assumes "0 < s" and "ps \<noteq> []" and "net_long_call ps = 0"
  shows "pr_max_loss (compute_risk_profile ps (shares_backing_short_calls ps stock) avg) = None \<and>
      car_effective (compute_car ps stock (Some s) None) \<noteq> None \<longleftrightarrow>
    earlier_shares ps < max stock 0 \<and> max stock 0 < net_short_call ps"
proof -
  let ?c = "shares_backing_short_calls ps stock"
  have c: "?c = min (max stock 0) (net_short_call ps)"
    using assms(3) net_short_call_nonneg [of ps] by (simp add: shares_backing_short_calls_def)
  have "pr_max_loss (compute_risk_profile ps ?c avg) = None \<longleftrightarrow> unlimited_downside ps ?c"
  proof -
    have "0 \<le> ?c" using net_short_call_nonneg [of ps] unfolding c by simp
    then show ?thesis using assms(2) by (simp add: compute_risk_profile_def compute_envelope_def Let_def)
  qed
  also have "\<dots> \<longleftrightarrow> max stock 0 < net_short_call ps" unfolding unlimited_downside_def c using assms(3) by auto
  finally have loss: "pr_max_loss (compute_risk_profile ps ?c avg) = None \<longleftrightarrow> max stock 0 < net_short_call ps" .
  have "car_effective (compute_car ps stock (Some s) None) \<noteq> None \<longleftrightarrow> \<not> car_unbounded (compute_car ps stock (Some s) None)"
    by (simp add: compute_car_fields)
  then have "car_effective (compute_car ps stock (Some s) None) \<noteq> None \<longleftrightarrow> has_short_call ps \<longrightarrow> earlier_shares ps < max stock 0"
    unfolding car_unbounded_iff [OF assms(1)] by auto
  moreover have "max stock 0 < net_short_call ps \<Longrightarrow> has_short_call ps"
    unfolding has_short_call_shares net_short_call_shares by linarith
  ultimately show ?thesis unfolding loss by blast
qed

theorem partly_naked_call_has_finite_capital_witness:
  "pr_max_loss (compute_risk_profile covered_example (shares_backing_short_calls covered_example 250) (Some 30)) = None \<and>
   car_effective (compute_car covered_example 250 (Some 55) None) \<noteq> None"
proof -
  have "covered_example \<noteq> []" "net_long_call covered_example = 0" by code_simp+
  moreover have "earlier_shares covered_example < max 250 0 \<and> max 250 0 < net_short_call covered_example" by code_simp
  ultimately show ?thesis
    using partly_naked_call_has_finite_capital [of 55 covered_example 250 "Some 30"] by simp
qed

section \<open>The account analysis\<close>

lemma roll_entries_fail:
  assumes "e \<in> set es" and "\<And>r. roll_entry r e = Inl ZeroDivision"
  shows "roll_entries r es = Inl ZeroDivision"
  using assms(1)
proof (induction es arbitrary: r)
  case (Cons f es)
  show ?case
  proof (cases "roll_entry r f")
    case (Inl x)
    then show ?thesis by (cases x) simp
  next
    case (Inr r')
    with Cons assms(2) [of r] show ?thesis by auto
  qed
qed simp

lemma unmarked_walk:
  assumes "is_short_call p" and "leg_shares p \<le> stock"
  shows "car_effective (compute_car [p] stock None m) = Some 0"
proof -
  have "\<not> rp_qty p > 0" "\<not> (rp_right p = ''P'' \<and> rp_qty p < 0)" using assms(1) by (auto simp: is_short_call_def)
  then have "compute_car_per_leg p (max stock 0) None = (NaN, ''covered_no_mark'')"
    using assms leg_shares_pos [OF assms(1)] by (simp add: compute_car_per_leg_def Let_def)
  then have "fst (car_walk None (max stock 0) [p]) = 0 \<and> \<not> fst (snd (car_walk None (max stock 0) [p]))"
    by (simp add: car_walk_Cons)
  then show ?thesis by (simp add: compute_car_fields round2_def round_half_even_def split: option.split)
qed

lemma covered_call_gain:
  assumes "is_short_call p" and "leg_shares p \<le> stock"
  shows "\<exists>g. pr_max_gain (compute_risk_profile [p] (shares_backing_short_calls [p] stock) avg) = Some g"
proof -
  have call: "is_call p" "\<not> 0 < rp_qty p" "rp_qty p < 0" using assms(1) by (auto simp: is_short_call_def is_call_def)
  then have nets: "net_short_call [p] = leg_shares p" "net_long_call [p] = 0"
    by (simp_all add: net_short_call_def net_long_call_def leg_shares_def)
  then have "shares_backing_short_calls [p] stock = leg_shares p"
    using assms leg_shares_pos [OF assms(1)] by (simp add: shares_backing_short_calls_def)
  then have "\<not> unlimited_upside [p] (shares_backing_short_calls [p] stock)"
    using nets leg_shares_pos [OF assms(1)] by (simp add: unlimited_upside_def)
  then show ?thesis by (simp add: compute_risk_profile_def compute_envelope_def Let_def)
qed

text \<open>
  A covered call on a name with no price at all (no fresh quote, no daily close) makes the analysis
  of the whole account fail with a division by zero: its committed capital is reported as 0, and the
  roll-up divides the maximal gain by it.
\<close>

theorem unmarked_covered_call_breaks_the_analysis:
  assumes "(symb, g) \<in> set (group_positions rows)" and "g_opts g = [p]" and "is_short_call p"
    and "leg_shares p \<le> g_stock g" and "g_spot g = None" and "day_close (upper (strip symb)) = None"
    and "g_farthest g = Some d" and "to_ordinal today < to_ordinal d"
  shows "compute_model_analysis day_close today rows = Inl ZeroDivision"
proof -
  define e where "e = analyse_group day_close today (symb, g)"
  have spot: "underlying_spot day_close symb = (None, None)"
    by (simp add: underlying_spot_def Let_def assms(6))
  have "car_effective (en_car e) = Some 0"
    unfolding e_def analyse_group_def
    using unmarked_walk [OF assms(3,4)] spot by (simp add: Let_def assms(2,5) split: prod.splits)
  moreover obtain gain where "pr_max_gain (en_profile e) = Some gain"
    using covered_call_gain [OF assms(3,4), of "g_avg g"]
    unfolding e_def analyse_group_def by (auto simp: Let_def assms(2) split: prod.splits)
  moreover have "en_dte e = Some (max (to_ordinal d - to_ordinal today) 0)"
    unfolding e_def analyse_group_def by (simp add: Let_def dte_def assms(7) split: prod.splits)
  ultimately have "roll_entry r e = Inl ZeroDivision" for r
    using assms(8) by (simp add: roll_entry_def Let_def)
  moreover have "e \<in> set (map (analyse_group day_close today) (sort_key fst (group_positions rows)))"
    using assms(1) by (force simp: e_def)
  ultimately show ?thesis
    unfolding compute_model_analysis_def Let_def by (simp only: roll_entries_fail ebind.simps)
qed

definition unmarked_rows :: "pydict list" where
  "unmarked_rows =
     [[(''symbol'', PStr ''RKLB''), (''sec_type'', PStr ''STK''), (''position'', PInt 100), (''avg_cost'', PInt 20)],
      [(''symbol'', PStr ''RKLB''), (''sec_type'', PStr ''OPT''), (''position'', PInt (-1)), (''avg_cost'', PInt 150),
       (''strike'', PInt 30), (''option_right'', PStr ''C''), (''expiry'', PStr ''20270115'')]]"

theorem unmarked_covered_call_breaks_the_analysis_witness:
  "compute_model_analysis (\<lambda>_. None) (2026, 11, 2) unmarked_rows = Inl ZeroDivision"
proof -
  let ?p = "\<lparr>rp_strike = 30, rp_right = ''C'', rp_qty = -1, rp_avg_cost = 3/2, rp_expiry = Some (2027, 1, 15)\<rparr>"
  let ?g = "\<lparr>g_stock = 100, g_avg = Some 20, g_opts = [?p], g_spot = None, g_farthest = Some (2027, 1, 15)\<rparr>"
  have "group_positions unmarked_rows = [(''RKLB'', ?g)]" by code_simp
  then have "(''RKLB'', ?g) \<in> set (group_positions unmarked_rows)" by simp
  then show ?thesis
  proof (rule unmarked_covered_call_breaks_the_analysis)
    show "is_short_call ?p" by (simp add: is_short_call_def)
    show "leg_shares ?p \<le> g_stock ?g" by (simp add: leg_shares_def)
    show "to_ordinal (2026, 11, 2) < to_ordinal (2027, 1, 15)" by code_simp
  qed simp_all
qed

end
