(* ===== verification/Account_Claims.thy ===== *)
theory Account_Claims
  imports Car "HOL-Library.Multiset"
begin

text \<open>The grouping of account rows and the stress tables: lemmas and properties.\<close>

section \<open>Groups\<close>

definition expiries :: "group \<Rightarrow> date set" where
  "expiries g = {d. Some d \<in> rp_expiry ` set (g_opts g)}"

definition group_ok :: "group \<Rightarrow> bool" where
  "group_ok g \<longleftrightarrow> (\<forall>p \<in> set (g_opts g). rp_right p = ''C'' \<or> rp_right p = ''P'') \<and>
     (case g_farthest g of None \<Rightarrow> expiries g = {} | Some d \<Rightarrow> d \<in> expiries g \<and> (\<forall>e \<in> expiries g. e \<le> d)) \<and>
     (\<forall>s. g_spot g = Some s \<longrightarrow> 0 < s)"

definition group_of_sym :: "(string \<times> group) list \<Rightarrow> string \<Rightarrow> group" where
  "group_of_sym gs s = (case map_of gs s of None \<Rightarrow> empty_group | Some g \<Rightarrow> g)"

lemma empty_group_ok: "group_ok empty_group"
  by (simp add: group_ok_def empty_group_def expiries_def)

lemma best_price_pos: "best_price_of row ks = Some p \<Longrightarrow> 0 < p"
  by (induction ks) (auto split: option.splits if_splits)

lemma add_stock_row_ok:
  assumes "group_ok g"
  shows "group_ok (add_stock_row row q g)"
proof -
  have eqs: "g_opts (add_stock_row row q g) = g_opts g" "g_farthest (add_stock_row row q g) = g_farthest g"
    by (simp_all add: add_stock_row_def)
  have ex: "expiries (add_stock_row row q g) = expiries g" by (simp add: expiries_def eqs)
  have "g_spot (add_stock_row row q g) = Some s \<Longrightarrow> 0 < s" for s
    using assms by (auto simp: add_stock_row_def best_price_def group_ok_def split: option.splits dest: best_price_pos
        simp del: best_price_of.simps)
  with assms show ?thesis unfolding group_ok_def eqs ex by blast
qed

lemma add_option_row_ok:
  assumes "group_ok g"
  shows "group_ok (add_option_row row q g)"
proof (cases "add_option_row row q g = g")
  case False
  define right where "right = text_of (dget row ''option_right'')"
  define exp where "exp = parse_expiry (dget row ''expiry'')"
  from False obtain k c where right: "right = ''C'' \<or> right = ''P''" and
    eq: "add_option_row row q g = g\<lparr>g_opts := g_opts g @ [\<lparr>rp_strike = k, rp_right = right, rp_qty = trunc_rat q,
           rp_avg_cost = c, rp_expiry = exp\<rparr>], g_farthest := later_expiry (g_farthest g) exp\<rparr>"
    unfolding right_def exp_def add_option_row_def Let_def by (auto split: if_splits option.splits)
  have ex: "expiries (add_option_row row q g) = expiries g \<union> (case exp of None \<Rightarrow> {} | Some d \<Rightarrow> {d})"
    unfolding eq by (auto simp: expiries_def image_iff split: option.splits)
  have far: "g_farthest (add_option_row row q g) = later_expiry (g_farthest g) exp" unfolding eq by simp
  have "case later_expiry (g_farthest g) exp of None \<Rightarrow> expiries (add_option_row row q g) = {}
      | Some d \<Rightarrow> d \<in> expiries (add_option_row row q g) \<and> (\<forall>e \<in> expiries (add_option_row row q g). e \<le> d)"
    using assms unfolding ex group_ok_def
    by (cases "g_farthest g"; cases exp) (fastforce simp: later_expiry_def)+
  moreover have "\<forall>p \<in> set (g_opts (add_option_row row q g)). rp_right p = ''C'' \<or> rp_right p = ''P''"
    using assms right unfolding eq by (simp add: group_ok_def)
  moreover have "g_spot (add_option_row row q g) = g_spot g" unfolding eq by simp
  ultimately show ?thesis using assms unfolding group_ok_def far by auto
qed (use assms in simp)

definition groups_ok :: "(string \<times> group) list \<Rightarrow> bool" where
  "groups_ok gs \<longleftrightarrow> distinct (map fst gs) \<and> (\<forall>s g. map_of gs s = Some g \<longrightarrow> s \<noteq> [] \<and> group_ok g)"

lemma groups_ok_update: "groups_ok gs \<Longrightarrow> group_ok g \<Longrightarrow> s \<noteq> [] \<Longrightarrow> groups_ok (AList.update s g gs)"
  by (simp add: groups_ok_def distinct_update update_conv')

lemma group_row_ok:
  assumes "groups_ok gs"
  shows "groups_ok (group_row gs row)"
proof -
  let ?s = "text_of (dget row ''symbol'')"
  have "group_ok (case map_of gs ?s of None \<Rightarrow> empty_group | Some g \<Rightarrow> g)"
    using assms empty_group_ok by (simp add: groups_ok_def split: option.split)
  then show ?thesis
    using assms unfolding group_row_def Let_def
    by (simp add: groups_ok_update add_stock_row_ok add_option_row_ok split: option.split)
qed

lemma group_positions_ok: "groups_ok (group_positions rows)"
proof -
  have "groups_ok gs \<Longrightarrow> groups_ok (foldl group_row gs rows)" for gs
    by (induction rows arbitrary: gs) (simp_all add: group_row_ok)
  moreover have "groups_ok []" by (simp add: groups_ok_def)
  ultimately show ?thesis unfolding group_positions_def by blast
qed

text \<open>
  The rows of an account are grouped by symbol, each symbol once; the legs of a group are calls and
  puts, a spot taken from a quote is positive, and the farthest expiry is the latest expiry of its legs
  (absent when no leg has one).
\<close>

theorem groups_are_well_formed:
  shows "distinct (map fst (group_positions rows)) \<and>
    (\<forall>(s, g) \<in> set (group_positions rows). s \<noteq> [] \<and> group_ok g)"
proof (intro conjI ballI)
  note ok = group_positions_ok [of rows, unfolded groups_ok_def]
  then show distinct: "distinct (map fst (group_positions rows))" by blast
  fix x
  assume "x \<in> set (group_positions rows)"
  moreover obtain s g where x: "x = (s, g)" by force
  ultimately have "map_of (group_positions rows) s = Some g" using map_of_is_SomeI [OF distinct] by simp
  with ok show "case x of (s, g) \<Rightarrow> s \<noteq> [] \<and> group_ok g" by (simp add: x)
qed

theorem groups_are_well_formed_witness:
  "map fst (group_positions [[(''symbol'', PStr '' spy ''), (''sec_type'', PStr ''OPT''), (''position'', PInt 2),
     (''avg_cost'', PInt 150), (''strike'', PInt 30), (''option_right'', PStr ''p''), (''expiry'', PStr ''2027-01-15'')]]) = [''SPY''] \<and>
   group_ok (snd (hd (group_positions [[(''symbol'', PStr '' spy ''), (''sec_type'', PStr ''OPT''), (''position'', PInt 2),
     (''avg_cost'', PInt 150), (''strike'', PInt 30), (''option_right'', PStr ''p''), (''expiry'', PStr ''2027-01-15'')]])))"
  (is "map fst ?gs = _ \<and> _")
proof -
  have one: "map fst ?gs = [''SPY'']" by code_simp
  then have "hd ?gs \<in> set ?gs" by (cases ?gs) simp_all
  then have "group_ok (snd (hd ?gs))" using groups_are_well_formed [THEN conjunct2, THEN bspec] by (simp only: split_beta)
  with one show ?thesis by blast
qed

section \<open>The stress table of an underlying\<close>

lemma stress_rows_unshocked:
  "\<exists>r \<in> set (stress_rows_at bs legs stock avg spot 0). sr_spot_shock r = 0 \<and> sr_iv_shock r = 0"
  by (auto simp: stress_rows_at_def Let_def mk_row_def)

lemma stamped:
  assumes "\<exists>r \<in> set rows. sr_spot_shock r = 0 \<and> sr_iv_shock r = 0"
  shows "\<exists>b \<in> set (stamp_pnl_change rows). sr_spot_shock b = 0 \<and> sr_iv_shock b = 0 \<and> sr_change b = Some 0 \<and>
    (\<forall>r \<in> set (stamp_pnl_change rows). sr_change r = Some (round2 (sr_total r - sr_total b)))"
proof -
  from assms obtain b where b: "find (\<lambda>s. sr_spot_shock s = 0 \<and> sr_iv_shock s = 0) rows = Some b"
    by (cases "find (\<lambda>s. sr_spot_shock s = 0 \<and> sr_iv_shock s = 0) rows") (auto simp: find_None_iff)
  then have "b \<in> set rows" "sr_spot_shock b = 0" "sr_iv_shock b = 0" by (auto simp: find_Some_iff)
  moreover have "round2 0 = 0" by (simp add: round2_def round_half_even_def)
  ultimately show ?thesis
    unfolding stamp_pnl_change_def b option.case set_map
    by (intro bexI [OF _ imageI [of b]]) auto
qed

text \<open>
  Whatever the Black-Scholes functions answer, the stress table of an underlying with a positive spot
  exists, has an unshocked row whose change is 0, and every row's change is its total less that row's,
  rounded to cents; with no implied volatility the total at each shock is the intrinsic payoff.
\<close>

theorem stress_changes_are_relative_to_unshocked:
  assumes "0 < s"
  shows "\<exists>st. stress_matrix iv bs today ps stock avg (Some s) farthest mids = Some st \<and>
    (\<exists>b \<in> set (st_rows st). sr_spot_shock b = 0 \<and> sr_iv_shock b = 0 \<and> sr_change b = Some 0 \<and>
      (\<forall>r \<in> set (st_rows st). sr_change r = Some (round2 (sr_total r - sr_total b)))) \<and>
    (\<not> st_iv_available st \<longrightarrow> map (\<lambda>r. (sr_spot_shock r, sr_total r)) (st_rows st) =
       map (\<lambda>x. (x, round2 (payoff_options_at_price ps (s * (1 + x)) + stress_stock stock avg (s * (1 + x))))) SPOT_SHOCKS)"
proof -
  let ?legs = "priced_legs iv today farthest mids s ps"
  let ?rows = "concat (map (stress_rows_at bs ?legs stock avg s) SPOT_SHOCKS)"
  have "\<exists>r \<in> set ?rows. sr_spot_shock r = 0 \<and> sr_iv_shock r = 0"
    using stress_rows_unshocked [of bs ?legs stock avg s] by (auto simp: SPOT_SHOCKS_def)
  note st = stamped [OF this]
  have legs: "map (\<lambda>(p, t, base). leg_payoff x p) ?legs = map (leg_payoff x) ps" for x
    by (simp add: priced_legs_def Let_def comp_def)
  have keep: "map (\<lambda>r. (sr_spot_shock r, sr_total r)) (stamp_pnl_change rows) = map (\<lambda>r. (sr_spot_shock r, sr_total r)) rows" for rows
    by (simp add: stamp_pnl_change_def split: option.split)
  have "map (\<lambda>r. (sr_spot_shock r, sr_total r)) ?rows =
      map (\<lambda>x. (x, round2 (payoff_options_at_price ps (s * (1 + x)) + stress_stock stock avg (s * (1 + x))))) SPOT_SHOCKS"
    if "\<not> list_ex (\<lambda>(p, t, base). base \<noteq> None) ?legs"
  proof -
    have "stress_rows_at bs ?legs stock avg s x = [mk_row x 0 (s * (1 + x)) (payoff_options_at_price ps (s * (1 + x)))
        (stress_stock stock avg (s * (1 + x))) ''intrinsic'']" for x
      using that by (simp add: stress_rows_at_def Let_def legs payoff_options_at_price_def)
    then show ?thesis by (simp add: mk_row_def SPOT_SHOCKS_def)
  qed
  with st keep show ?thesis using assms by (simp add: stress_matrix_def Let_def)
qed

theorem stress_changes_are_relative_to_unshocked_witness:
  "\<exists>st. stress_matrix (\<lambda>_ _ _ _ _. None) (\<lambda>_ _ _ _ _. 0) (2026, 11, 2) [] 100 (Some 20) (Some 50) None (\<lambda>_. None) = Some st \<and>
     \<not> st_iv_available st"
proof -
  let ?m = "stress_matrix (\<lambda>_ _ _ _ _. None) (\<lambda>_ _ _ _ _. 0) (2026, 11, 2) [] 100 (Some 20) (Some 50) None (\<lambda>_. None)"
  from stress_changes_are_relative_to_unshocked
    [of 50 "\<lambda>_ _ _ _ _. None" "\<lambda>_ _ _ _ _. 0" "(2026, 11, 2)" "[]" 100 "Some 20" None "\<lambda>_. None"]
  obtain st where "?m = Some st" by auto
  moreover from this have "\<not> st_iv_available st" by (auto simp: stress_matrix_def priced_legs_def Let_def)
  ultimately show ?thesis by blast
qed

section \<open>The stress table of the account\<close>

definition key_of :: "stress_row \<Rightarrow> rat \<times> rat" where
  "key_of s = (sr_spot_shock s, sr_iv_shock s)"

definition totals_for :: "rat \<times> rat \<Rightarrow> stress_row list \<Rightarrow> stress_total" where
  "totals_for k rows = (let rs = filter (\<lambda>r. key_of r = k) rows
     in \<lparr>tt_total = sum_list (map sr_total rs),
         tt_change = sum_list (map (\<lambda>r. case sr_change r of None \<Rightarrow> 0 | Some c \<Rightarrow> c) rs), tt_contributors = length rs\<rparr>)"

lemma combined_lookup:
  "map_of (foldl add_scenario [] rows) k = (if k \<in> key_of ` set rows then Some (totals_for k rows) else None)"
proof (induction rows rule: rev_induct)
  case (snoc r rows)
  show ?case
  proof (cases "key_of r = k")
    case True
    have "totals_for k rows = \<lparr>tt_total = 0, tt_change = 0, tt_contributors = 0\<rparr>" if "k \<notin> key_of ` set rows"
    proof -
      have "filter (\<lambda>r. key_of r = k) rows = []" using that by (auto simp: filter_empty_conv)
      then show ?thesis by (simp add: totals_for_def)
    qed
    with True snoc show ?thesis
      by (auto simp: add_scenario_def Let_def update_conv' key_of_def totals_for_def)
  next
    case False
    with snoc show ?thesis by (auto simp: add_scenario_def Let_def update_conv' key_of_def totals_for_def)
  qed
qed simp

lemma combined_distinct: "distinct (map fst (foldl add_scenario [] rows))"
proof -
  have "distinct (map fst c) \<Longrightarrow> distinct (map fst (foldl add_scenario c rows))" for c
    by (induction rows arbitrary: c) (simp_all add: add_scenario_def Let_def distinct_update)
  then show ?thesis by simp
qed

text \<open>An association list with distinct keys is determined, once sorted by key, by its lookup.\<close>

lemma sorted_alist_eq:
  assumes "distinct (map fst xs)" and "distinct (map fst ys)" and "map_of xs = map_of ys"
  shows "sort_key fst xs = sort_key fst (ys :: ('k::linorder \<times> 'v) list)"
proof (rule map_sorted_distinct_set_unique)
  show "inj_on fst (set (sort_key fst xs) \<union> set (sort_key fst ys))"
    using assms map_of_inject_set [of xs ys] by (auto simp: distinct_map)
  show "set (sort_key fst xs) = set (sort_key fst ys)"
    using assms map_of_inject_set [of xs ys] by simp
qed (use assms in \<open>simp_all add: distinct_map inj_on_def\<close>)

lemma totals_for_mset:
  assumes "mset rows = mset rows'"
  shows "totals_for k rows = totals_for k rows'"
proof -
  let ?f = "filter (\<lambda>r. key_of r = k)"
  have m: "mset (?f rows) = mset (?f rows')" using assms by (simp add: mset_filter)
  have "sum_list (map g xs) = sum_list (map g ys)" if "mset xs = mset ys" for g :: "stress_row \<Rightarrow> rat" and xs ys
  proof -
    have "mset (map g xs) = mset (map g ys)" using that by simp
    then show ?thesis unfolding sum_mset_sum_list [symmetric] by (rule arg_cong)
  qed
  from this [OF m] have "sum_list (map g (?f rows)) = sum_list (map g (?f rows'))" for g :: "stress_row \<Rightarrow> rat" .
  moreover have "length (?f rows) = length (?f rows')" by (rule mset_eq_length [OF m])
  ultimately show ?thesis unfolding totals_for_def Let_def by simp
qed

lemma concat_mset: "mset xss = mset yss \<Longrightarrow> mset (concat xss) = mset (concat yss)"
  by (metis mset_concat mset_map sum_mset_sum_list)

text \<open>
  The stress table of the account does not depend on the order of the underlyings, and each of its
  rows carries the rounded sum of the underlyings' totals at that shock and how many contributed.
\<close>

theorem account_stress_is_the_sum:
  assumes "aggregate_stress entries = Some a"
  shows "(\<forall>entries'. mset entries' = mset entries \<longrightarrow> aggregate_stress entries' = Some a) \<and>
    (\<forall>r \<in> set (as_rows a).
       let rs = filter (\<lambda>x. key_of x = (ar_spot_shock r, ar_iv_shock r)) (concat (map st_rows (List.map_filter id entries)))
       in ar_total r = round2 (sum_list (map sr_total rs)) \<and> ar_contributors r = length rs \<and>
          (ar_partial r \<longleftrightarrow> length rs < as_underlyings a))"
proof -
  have inv: "aggregate_stress es = aggregate_stress es'" if m: "mset es = mset es'" for es es'
  proof -
    let ?av = "List.map_filter id es" and ?av' = "List.map_filter id es'"
    have av: "mset ?av = mset ?av'" using m by (simp add: List.map_filter_def mset_filter)
    let ?r = "concat (map st_rows ?av)" and ?r' = "concat (map st_rows ?av')"
    have rows: "mset ?r = mset ?r'" by (rule concat_mset) (simp add: av)
    then have "set ?r = set ?r'" by (rule mset_eq_setD)
    then have "map_of (foldl add_scenario [] ?r) = map_of (foldl add_scenario [] ?r')"
      unfolding fun_eq_iff combined_lookup totals_for_mset [OF rows] by simp
    then have e1: "sort_key fst (foldl add_scenario [] ?r) = sort_key fst (foldl add_scenario [] ?r')"
      by (rule sorted_alist_eq [OF combined_distinct combined_distinct])
    have e2: "length ?av = length ?av'" by (rule mset_eq_length [OF av])
    have e3: "?av = [] \<longleftrightarrow> ?av' = []" using mset_eq_length [OF av] by (metis length_0_conv)
    have e4: "list_ex st_iv_available ?av = list_ex st_iv_available ?av'"
      unfolding list_ex_iff mset_eq_setD [OF av] ..
    show ?thesis unfolding aggregate_stress_def Let_def e1 e2 e3 e4 ..
  qed
  let ?rows = "concat (map st_rows (List.map_filter id entries))"
  have "let rs = filter (\<lambda>x. key_of x = (ar_spot_shock r, ar_iv_shock r)) ?rows
       in ar_total r = round2 (sum_list (map sr_total rs)) \<and> ar_contributors r = length rs \<and>
          (ar_partial r \<longleftrightarrow> length rs < as_underlyings a)" if "r \<in> set (as_rows a)" for r
  proof -
    from that assms obtain k t where kt: "(k, t) \<in> set (foldl add_scenario [] ?rows)" and
      r: "r = \<lparr>ar_spot_shock = fst k, ar_iv_shock = snd k, ar_total = round2 (tt_total t), ar_change = round2 (tt_change t),
            ar_contributors = tt_contributors t, ar_partial = (tt_contributors t < as_underlyings a)\<rparr>"
      unfolding aggregate_stress_def Let_def by (auto split: if_splits)
    have "map_of (foldl add_scenario [] ?rows) k = Some t" by (rule map_of_is_SomeI [OF combined_distinct kt])
    then have "t = totals_for k ?rows" unfolding combined_lookup by (simp split: if_splits)
    then show ?thesis unfolding r by (simp add: totals_for_def Let_def)
  qed
  with inv assms show ?thesis by metis
qed

definition sample_stress :: "stress option list" where
  "sample_stress =
     [stress_matrix (\<lambda>_ _ _ _ _. None) (\<lambda>_ _ _ _ _. 0) (2026, 11, 2) [] 100 (Some 20) (Some 50) None (\<lambda>_. None), None,
      stress_matrix (\<lambda>_ _ _ _ _. None) (\<lambda>_ _ _ _ _. 0) (2026, 11, 2) [] 30 (Some 10) (Some 12) None (\<lambda>_. None)]"

theorem account_stress_is_the_sum_witness:
  "\<exists>a. aggregate_stress sample_stress = Some a \<and> aggregate_stress (rev sample_stress) = Some a"
proof -
  have "\<not> Option.is_none (aggregate_stress sample_stress)" unfolding sample_stress_def by code_simp
  then obtain a where a: "aggregate_stress sample_stress = Some a" by (auto simp: Option.is_none_def)
  with account_stress_is_the_sum [OF a] show ?thesis by simp
qed

end
