(* ===== verification/Fifo.thy ===== *)
theory Fifo
  imports Py_Value "HOL-Library.AList" "HOL-Library.Product_Lexorder" "HOL-Library.List_Lexorder" "HOL-Library.Char_ord"
begin

text \<open>
  First-in-first-out pairing of option executions (\<open>portfolio/reader/accounts_helpers.py\<close>): the legs
  of one contract and account are sorted, then in every round the earliest open leg is matched with
  the first later leg of the other side, until a round matches nothing.
\<close>

section \<open>The legs\<close>

record work =
  wk_eid :: int
  wk_buy :: bool
  wk_price :: rat
  wk_qty :: rat
  wk_comm :: rat

definition QTY_EPS :: rat where
  "QTY_EPS = 1 / 1000000000"

definition live :: "work \<Rightarrow> bool" where
  "live w \<longleftrightarrow> QTY_EPS < wk_qty w"

definition norm_strike :: "pyval \<Rightarrow> string" where
  "norm_strike s = (if s = PNone then [] else case py_float s of
       Inr (Fin f) \<Rightarrow> if f = of_int \<lfloor>f\<rfloor> then int_str \<lfloor>f\<rfloor> else float_repr (Fin f)
     | Inr f \<Rightarrow> float_repr f
     | Inl _ \<Rightarrow> strip (py_str s))"

definition norm_side :: "pyval \<Rightarrow> string" where
  "norm_side s = (if s = PNone then ''BUY''
     else (let raw = upper (strip (py_str s))
           in if raw \<in> {''BOT'', ''BUY'', ''B''} then ''BUY''
              else if raw \<in> {''SLD'', ''SELL'', ''S''} then ''SELL''
              else if raw = [] then ''BUY'' else raw))"

definition norm_expiry :: "pyval \<Rightarrow> string" where
  "norm_expiry s = (if s = PNone then [] else filter is_digit (strip (py_str s)))"

definition exec_id :: "pydict \<Rightarrow> pyval" where
  "exec_id e = (if dget e ''account_executions_id'' \<noteq> PNone then dget e ''account_executions_id'' else dget e ''id'')"

fun pyfloat_abs :: "pyfloat \<Rightarrow> pyfloat" where
  "pyfloat_abs (Fin q) = Fin \<bar>q\<bar>"
| "pyfloat_abs NegInf = PosInf"
| "pyfloat_abs f = f"

definition float_or_zero :: "pyval \<Rightarrow> conv_err + pyfloat" where
  "float_or_zero v = py_float (py_or v (PInt 0))"

text \<open>One entry of \<open>work\<close>; \<open>None\<close> is \<open>continue\<close>.\<close>

definition work_of :: "pydict \<Rightarrow> conv_err + work option" where
  "work_of x =
     (let side = norm_side (dget x ''side'')
      in if side \<noteq> ''BUY'' \<and> side \<noteq> ''SELL'' then Inr None
         else ebind (float_or_zero (dget x ''quantity'')) (\<lambda>q. ebind (float_or_zero (dget x ''price'')) (\<lambda>p.
              ebind (if dget x ''commission'' = PNone then Inr (Fin 0) else float_or_zero (dget x ''commission'')) (\<lambda>c.
              case (pyfloat_abs q, p) of
                (Fin q', Fin p') \<Rightarrow>
                  if q' \<le> 0 \<or> exec_id x = PNone then Inr None
                  else ebind (py_int (exec_id x)) (\<lambda>i.
                    Inr (Some \<lparr>wk_eid = i, wk_buy = (side = ''BUY''), wk_price = p', wk_qty = q',
                               wk_comm = (case c of Fin c' \<Rightarrow> c' | _ \<Rightarrow> 0)\<rparr>))
              | _ \<Rightarrow> Inr None))))"

section \<open>One round\<close>

text \<open>
  The scan of a round over the positions \<open>is\<close> of the list, with the queues of open buys and sells:
  the positions of the queue's head and of the leg that closes it.
\<close>

fun scan :: "work list \<Rightarrow> nat list \<Rightarrow> nat list \<Rightarrow> nat list \<Rightarrow> (nat \<times> nat) option" where
  "scan ws [] bq sq = None"
| "scan ws (i # is) bq sq =
     (if wk_qty (ws ! i) \<le> QTY_EPS then scan ws is bq sq
      else if wk_buy (ws ! i)
      then (case sq of
              [] \<Rightarrow> scan ws is (bq @ [i]) sq
            | s # _ \<Rightarrow> if min (wk_qty (ws ! i)) (wk_qty (ws ! s)) \<le> QTY_EPS then scan ws is (bq @ [i]) sq else Some (s, i))
      else (case bq of
              [] \<Rightarrow> scan ws is bq (sq @ [i])
            | b # _ \<Rightarrow> if min (wk_qty (ws ! i)) (wk_qty (ws ! b)) \<le> QTY_EPS then scan ws is bq (sq @ [i]) else Some (b, i)))"

record leg_pair =
  pa_first :: int
  pa_second :: int
  pa_qty :: rat
  pa_first_buy :: bool
  pa_first_price :: rat
  pa_second_buy :: bool
  pa_second_price :: rat
  pa_commission :: rat
  pa_net :: rat

definition matched_qty :: "work \<Rightarrow> work \<Rightarrow> rat" where
  "matched_qty opn cls = min (wk_qty cls) (wk_qty opn)"

definition fee_share :: "rat \<Rightarrow> work \<Rightarrow> rat" where
  "fee_share q w = q / wk_qty w * wk_comm w"

definition leg_cash :: "rat \<Rightarrow> work \<Rightarrow> rat" where
  "leg_cash q w = (if wk_buy w then -1 else 1) * q * wk_price w * 100 - fee_share q w"

definition deduct :: "rat \<Rightarrow> work \<Rightarrow> work" where
  "deduct q w = w\<lparr>wk_comm := wk_comm w - fee_share q w, wk_qty := wk_qty w - q\<rparr>"

definition mk_pair :: "work \<Rightarrow> work \<Rightarrow> leg_pair" where
  "mk_pair opn cls = (let q = matched_qty opn cls in
     \<lparr>pa_first = wk_eid opn, pa_second = wk_eid cls, pa_qty = q,
      pa_first_buy = wk_buy opn, pa_first_price = wk_price opn, pa_second_buy = wk_buy cls, pa_second_price = wk_price cls,
      pa_commission = fee_share q cls + fee_share q opn, pa_net = leg_cash q cls + leg_cash q opn\<rparr>)"

definition match_at :: "work list \<Rightarrow> nat \<Rightarrow> nat \<Rightarrow> work list" where
  "match_at ws i j = (let q = matched_qty (ws ! i) (ws ! j)
     in (ws[i := deduct q (ws ! i)])[j := deduct q (ws ! j)])"

section \<open>The scan finds the first open leg and the first later leg of the other side\<close>

definition closer :: "work list \<Rightarrow> bool \<Rightarrow> nat list \<Rightarrow> nat option" where
  "closer ws side is = List.find (\<lambda>k. live (ws ! k) \<and> wk_buy (ws ! k) \<noteq> side) is"

lemma scan_open:
  assumes "q \<noteq> []" and "\<forall>b \<in> set q. wk_buy (ws ! b) = side \<and> live (ws ! b)"
  shows "scan ws is (if side then q else []) (if side then [] else q) = map_option (Pair (hd q)) (closer ws side is)"
  using assms
proof (induction "is" arbitrary: q)
  case (Cons k ks)
  obtain b bs where q: "q = b # bs" using Cons.prems(1) by (cases q) auto
  have b: "QTY_EPS < wk_qty (ws ! b)" using Cons.prems(2) q by (simp add: live_def)
  show ?case
  proof (cases "live (ws ! k) \<and> wk_buy (ws ! k) = side")
    case True
    have "scan ws ks (if side then q @ [k] else []) (if side then [] else q @ [k])
        = map_option (Pair (hd (q @ [k]))) (closer ws side ks)"
      by (rule Cons.IH) (use Cons.prems True in auto)
    with True q show ?thesis by (cases side) (auto simp: closer_def live_def)
  next
    case False
    have "scan ws ks (if side then q else []) (if side then [] else q) = map_option (Pair (hd q)) (closer ws side ks)"
      by (rule Cons.IH [OF Cons.prems])
    with False q b show ?thesis by (cases side) (auto simp: closer_def live_def min_def)
  qed
qed (simp add: closer_def)

text \<open>The first live position and what closes it.\<close>

fun next_match :: "work list \<Rightarrow> nat list \<Rightarrow> (nat \<times> nat) option" where
  "next_match ws [] = None"
| "next_match ws (k # ks) =
     (if live (ws ! k) then map_option (Pair k) (closer ws (wk_buy (ws ! k)) ks) else next_match ws ks)"

lemma scan_next: "scan ws is [] [] = next_match ws is"
proof (induction "is")
  case (Cons k ks)
  then show ?case
    using scan_open [of "[k]" ws "wk_buy (ws ! k)" ks] by (cases "wk_buy (ws ! k)") (auto simp: live_def not_less)
qed simp

lemma next_match_props:
  "next_match ws is = Some (i, j) \<Longrightarrow> i \<in> set is \<and> j \<in> set is \<and> live (ws ! i) \<and> live (ws ! j) \<and>
     wk_buy (ws ! i) \<noteq> wk_buy (ws ! j)"
  by (induction "is") (auto simp: closer_def find_Some_iff split: if_splits)

section \<open>The loop\<close>

lemma deduct_live: "live (deduct q w) \<Longrightarrow> 0 \<le> q \<Longrightarrow> live w"
  by (simp add: live_def deduct_def)

lemma matched_dead: "\<not> live (deduct (matched_qty a b) a) \<or> \<not> live (deduct (matched_qty a b) b)"
  by (simp add: live_def deduct_def matched_qty_def QTY_EPS_def min_def)

lemma matched_pos: "live a \<Longrightarrow> live b \<Longrightarrow> 0 < matched_qty a b"
  by (simp add: live_def matched_qty_def QTY_EPS_def)

lemma count_live_update:
  assumes "i < length ws" and "live (ws ! i)"
  shows "length (filter live (ws[i := w])) = length (filter live ws) - (if live w then 0 else 1)"
proof -
  have "filter live (ws[i := w]) = filter live (take i ws) @ filter live [w] @ filter live (drop (Suc i) ws)"
    using assms(1) by (simp add: upd_conv_take_nth_drop)
  moreover have "filter live ws = filter live (take i ws) @ filter live [ws ! i] @ filter live (drop (Suc i) ws)"
    using assms(1) by (metis filter_append id_take_nth_drop append_Cons append_Nil)
  ultimately show ?thesis using assms(2) by simp
qed

lemma match_at_live_less:
  assumes "next_match ws [0..<length ws] = Some (i, j)"
  shows "length (filter live (match_at ws i j)) < length (filter live ws)"
proof -
  from next_match_props [OF assms] have ij: "i < length ws" "j < length ws" "live (ws ! i)" "live (ws ! j)" "i \<noteq> j" by auto
  define q where "q = matched_qty (ws ! i) (ws ! j)"
  define ws1 where "ws1 = ws[i := deduct q (ws ! i)]"
  have ws1: "ws1 ! j = ws ! j" "j < length ws1" using ij by (simp_all add: ws1_def)
  have "match_at ws i j = ws1[j := deduct q (ws1 ! j)]" unfolding match_at_def Let_def ws1 by (simp add: ws1_def q_def)
  then have "length (filter live (match_at ws i j)) = length (filter live ws1) - (if live (deduct q (ws ! j)) then 0 else 1)"
    using count_live_update [of j ws1] ws1 ij by simp
  moreover have "length (filter live ws1) = length (filter live ws) - (if live (deduct q (ws ! i)) then 0 else 1)"
    unfolding ws1_def by (rule count_live_update) (use ij in auto)
  moreover have "0 < length (filter live ws)" using ij by (auto simp: filter_empty_conv)
  ultimately show ?thesis using matched_dead [of "ws ! i" "ws ! j"] by (auto simp: q_def split: if_splits)
qed

text \<open>\<open>while True\<close>: rounds until one finds no pair.\<close>

function fifo_loop :: "work list \<Rightarrow> leg_pair list \<times> work list" where
  "fifo_loop ws = (case scan ws [0..<length ws] [] [] of
       None \<Rightarrow> ([], ws)
     | Some (i, j) \<Rightarrow> (let (ps, ws') = fifo_loop (match_at ws i j) in (mk_pair (ws ! i) (ws ! j) # ps, ws')))"
  by pat_completeness auto

termination by (relation "measure (\<lambda>ws. length (filter live ws))") (auto simp: scan_next match_at_live_less)

declare fifo_loop.simps [simp del]

section \<open>The whole report\<close>

definition round4 :: "rat \<Rightarrow> rat" where
  "round4 q = of_int (round_half_even (q * 10000)) / 10000"

type_synonym contract = "string \<times> string \<times> string \<times> string"

record reported_pair =
  rep_contract :: contract
  rep_pair :: leg_pair
  rep_qty :: rat
  rep_fee :: rat
  rep_pnl :: rat

definition report :: "contract \<Rightarrow> leg_pair \<Rightarrow> reported_pair" where
  "report k p = \<lparr>rep_contract = k, rep_pair = p, rep_qty = round4 (pa_qty p), rep_fee = round2 (pa_commission p),
     rep_pnl = round2 (pa_net p)\<rparr>"

definition contract_of :: "pydict \<Rightarrow> contract" where
  "contract_of e = (stripped (dget e ''symbol''), norm_expiry (dget e ''expiry''), norm_strike (dget e ''strike''),
     stripped (dget e ''account_id''))"

definition wanted :: "pydict \<Rightarrow> bool" where
  "wanted e \<longleftrightarrow> upper (stripped (dget e ''sec_type'')) = ''OPT'' \<and> exec_id e \<noteq> PNone"

definition two_sided :: "pydict \<Rightarrow> bool" where
  "two_sided e \<longleftrightarrow> norm_side (dget e ''side'') = ''BUY'' \<or> norm_side (dget e ''side'') = ''SELL''"

definition add_to_group :: "(contract \<times> pydict list) list \<Rightarrow> pydict \<Rightarrow> (contract \<times> pydict list) list" where
  "add_to_group gs e = (let k = contract_of e
     in AList.update k ((case map_of gs k of None \<Rightarrow> [] | Some es \<Rightarrow> es) @ [e]) gs)"

definition groups_of :: "pydict list \<Rightarrow> (contract \<times> pydict list) list" where
  "groups_of es = foldl add_to_group [] (filter two_sided (filter wanted es))"

text \<open>
  The sort key: calendar date, time, id. \<open>chicago\<close> is the Chicago date of a Unix time as text;
  times are finite numbers or NULL, as the query returns them.
\<close>

definition date_text :: "(rat \<Rightarrow> string) \<Rightarrow> pydict \<Rightarrow> string" where
  "date_text chicago e =
     (let from_time = (case finite_float (dget e ''time'') of None \<Rightarrow> [] | Some t \<Rightarrow> chicago t)
      in case dget e ''trade_date'' of
           PNone \<Rightarrow> from_time
         | PDatetime t \<Rightarrow> iso_date (date_of_instant (instant t))
         | PDate d \<Rightarrow> iso_date d
         | v \<Rightarrow> (let s = strip (py_str v)
                 in if length s \<ge> 10 \<and> s ! 4 = CHR ''-'' \<and> s ! 7 = CHR ''-'' then take 10 s else from_time))"

definition fifo_sort_key :: "(rat \<Rightarrow> string) \<Rightarrow> pydict \<Rightarrow> string \<times> rat \<times> int" where
  "fifo_sort_key chicago e =
     (date_text chicago e, (case finite_float (dget e ''time'') of None \<Rightarrow> 0 | Some t \<Rightarrow> t),
      (if exec_id e = PNone then 0 else case py_int (exec_id e) of Inr i \<Rightarrow> i | Inl _ \<Rightarrow> 0))"

definition group_pairs :: "(rat \<Rightarrow> string) \<Rightarrow> contract \<times> pydict list \<Rightarrow> conv_err + reported_pair list" where
  "group_pairs chicago g = ebind (emap work_of (sort_key (fifo_sort_key chicago) (snd g)))
     (\<lambda>ws. Inr (map (report (fst g)) (fst (fifo_loop (List.map_filter id ws)))))"

text \<open>The map from an execution to the ones it was paired with.\<close>

definition link :: "int \<Rightarrow> int \<Rightarrow> (int \<times> int list) list \<Rightarrow> (int \<times> int list) list" where
  "link a b m = (let xs = (case map_of m a of None \<Rightarrow> [] | Some xs \<Rightarrow> xs)
     in AList.update a (if b \<in> set xs then xs else xs @ [b]) m)"

definition add_pair :: "(int \<times> int list) list \<Rightarrow> leg_pair \<Rightarrow> (int \<times> int list) list" where
  "add_pair m p = link (pa_second p) (pa_first p) (link (pa_first p) (pa_second p) m)"

definition compute_opt_pairs ::
  "(rat \<Rightarrow> string) \<Rightarrow> pydict list \<Rightarrow> conv_err + ((int \<times> int list) list \<times> reported_pair list)" where
  "compute_opt_pairs chicago es = ebind (emap (group_pairs chicago) (groups_of es)) (\<lambda>pss.
     let ps = concat pss in Inr (foldl add_pair [] (map rep_pair ps), ps))"

section \<open>Realized results by period\<close>

datatype granularity = Month | Week | Day

text \<open>\<open>start.strftime\<close> and the period's first day; \<open>weekday\<close> counts from Monday.\<close>

definition weekday :: "date \<Rightarrow> int" where
  "weekday d = (to_ordinal d + 6) mod 7"

definition period_start :: "granularity \<Rightarrow> date \<Rightarrow> date" where
  "period_start gran d = (case gran of
       Month \<Rightarrow> (fst d, fst (snd d), 1)
     | Week \<Rightarrow> from_ordinal (to_ordinal d - weekday d)
     | Day \<Rightarrow> d)"

definition period_label :: "granularity \<Rightarrow> date \<Rightarrow> string" where
  "period_label gran d = (let s = iso_date (period_start gran d) in if gran = Month then take 7 s else s)"

text \<open>\<open>midnight\<close> is the Unix time at which a Chicago day starts, \<open>chicago_day\<close> the Chicago day of a Unix time.\<close>

definition period_key :: "(date \<Rightarrow> rat) \<Rightarrow> granularity \<Rightarrow> date \<Rightarrow> rat \<times> string" where
  "period_key midnight gran d = (midnight (period_start gran d), period_label gran d)"

definition leg_day :: "(rat \<Rightarrow> date option) \<Rightarrow> (int \<times> pydict) list \<Rightarrow> int \<Rightarrow> date option" where
  "leg_day chicago_day execs eid = (case map_of execs eid of None \<Rightarrow> None | Some e \<Rightarrow>
     (let from_time = (case finite_float (dget e ''time'') of None \<Rightarrow> None | Some t \<Rightarrow> chicago_day t)
      in case dget e ''trade_date'' of
           PDate d \<Rightarrow> Some d
         | PStr s \<Rightarrow> (if length s \<ge> 10
                      then (case strptime_ymd ''-'' (take 10 s) of Some d \<Rightarrow> Some d | None \<Rightarrow> from_time) else from_time)
         | _ \<Rightarrow> from_time))"

text \<open>The executions by id; a later one of the same id replaces an earlier one.\<close>

definition exec_by_id :: "pydict list \<Rightarrow> conv_err + (int \<times> pydict) list" where
  "exec_by_id es = ebind (emap (\<lambda>e. ebind (py_int (dget e ''account_executions_id'')) (\<lambda>i. Inr (i, e)))
       (filter (\<lambda>e. dget e ''account_executions_id'' \<noteq> PNone) es)) (\<lambda>xs. Inr (rev xs))"

definition closing_day :: "(int \<Rightarrow> date option) \<Rightarrow> reported_pair \<Rightarrow> date option" where
  "closing_day day p = (case (day (pa_first (rep_pair p)), day (pa_second (rep_pair p))) of
       (Some c, Some d) \<Rightarrow> Some (max c d)
     | (Some c, None) \<Rightarrow> Some c
     | (None, d) \<Rightarrow> d)"

definition in_range :: "date option \<Rightarrow> date option \<Rightarrow> date \<Rightarrow> bool" where
  "in_range since until d \<longleftrightarrow> (case since of None \<Rightarrow> True | Some s \<Rightarrow> s \<le> d) \<and> (case until of None \<Rightarrow> True | Some u \<Rightarrow> d \<le> u)"

record period =
  pd_pnl :: rat
  pd_commission :: rat
  pd_net :: rat
  pd_wins :: nat
  pd_losses :: nat
  pd_pairs :: "reported_pair list"

definition empty_period :: period where
  "empty_period = \<lparr>pd_pnl = 0, pd_commission = 0, pd_net = 0, pd_wins = 0, pd_losses = 0, pd_pairs = []\<rparr>"

definition book_pair :: "reported_pair \<Rightarrow> period \<Rightarrow> period" where
  "book_pair p v = v\<lparr>pd_net := pd_net v + rep_pnl p, pd_commission := pd_commission v + rep_fee p,
     pd_pnl := pd_pnl v + rep_pnl p + rep_fee p, pd_pairs := pd_pairs v @ [p],
     pd_wins := pd_wins v + (if rep_pnl p > 0 then 1 else 0), pd_losses := pd_losses v + (if rep_pnl p < 0 then 1 else 0)\<rparr>"

definition add_to_period ::
  "(reported_pair \<Rightarrow> (rat \<times> string) option) \<Rightarrow> ((rat \<times> string) \<times> period) list \<Rightarrow> reported_pair \<Rightarrow> ((rat \<times> string) \<times> period) list" where
  "add_to_period key periods p = (case key p of
       None \<Rightarrow> periods
     | Some k \<Rightarrow> AList.update k (book_pair p (case map_of periods k of None \<Rightarrow> empty_period | Some v \<Rightarrow> v)) periods)"

definition win_rate :: "period \<Rightarrow> rat option" where
  "win_rate v = (if pd_wins v + pd_losses v > 0 then Some (of_nat (pd_wins v) / of_nat (pd_wins v + pd_losses v)) else None)"

definition pair_key ::
  "(rat \<Rightarrow> date option) \<Rightarrow> (date \<Rightarrow> rat) \<Rightarrow> granularity \<Rightarrow> date option \<Rightarrow> date option \<Rightarrow> (int \<times> pydict) list \<Rightarrow>
   reported_pair \<Rightarrow> (rat \<times> string) option" where
  "pair_key chicago_day midnight gran since until execs p = (case closing_day (leg_day chicago_day execs) p of
       None \<Rightarrow> None
     | Some d \<Rightarrow> if in_range since until d then Some (period_key midnight gran d) else None)"

definition round_period :: "(rat \<times> string) \<times> period \<Rightarrow> (rat \<times> string) \<times> period" where
  "round_period kv = (fst kv, (snd kv)\<lparr>pd_pnl := round2 (pd_pnl (snd kv)),
     pd_commission := round2 (pd_commission (snd kv)), pd_net := round2 (pd_net (snd kv))\<rparr>)"

definition compute_opt_realized_calendar ::
  "(rat \<Rightarrow> string) \<Rightarrow> (rat \<Rightarrow> date option) \<Rightarrow> (date \<Rightarrow> rat) \<Rightarrow> pydict list \<Rightarrow> granularity \<Rightarrow> date option \<Rightarrow> date option \<Rightarrow>
   conv_err + ((rat \<times> string) \<times> period) list" where
  "compute_opt_realized_calendar chicago chicago_day midnight es gran since until =
     ebind (compute_opt_pairs chicago es) (\<lambda>(m, ps).
       if ps = [] then Inr []
       else ebind (exec_by_id es) (\<lambda>execs.
         Inr (map round_period (sort_key (\<lambda>kv. fst (fst kv))
           (foldl (add_to_period (pair_key chicago_day midnight gran since until execs)) [] ps)))))"

section \<open>Yesterday's close\<close>

definition positive_float :: "pyval \<Rightarrow> rat option" where
  "positive_float v = (case finite_float v of Some f \<Rightarrow> if f > 0 then Some f else None | None \<Rightarrow> None)"

definition resolve_daily_prev_close_from_fallback :: "pyval \<Rightarrow> pyval \<Rightarrow> pyval \<Rightarrow> date \<Rightarrow> rat option" where
  "resolve_daily_prev_close_from_fallback close bar_time prev today =
     (let bar_date = (case finite_float bar_time of
            None \<Rightarrow> None
          | Some t \<Rightarrow> (let us = round_half_even (t * 1000000)
                       in if - 62135596800000000 \<le> us \<and> us < 253402300800000000 then Some (date_of_instant us) else None))
      in case bar_date of
           Some d \<Rightarrow> if d \<ge> today then positive_float prev else positive_float close
         | None \<Rightarrow> positive_float close)"

end
