(* ===== verification/Fifo_Claims.thy ===== *)
theory Fifo_Claims
  imports Fifo "HOL-Library.Multiset"
begin

text \<open>
  The pairing loop is the textbook first-in-first-out matching, it loses no quantity, and the links
  between paired executions are symmetric.
\<close>

section \<open>What one round does to the list\<close>

lemma closer_split:
  "closer ws side is = Some j \<Longrightarrow> \<exists>us vs. is = us @ j # vs \<and> live (ws ! j) \<and> wk_buy (ws ! j) \<noteq> side \<and>
     (\<forall>u \<in> set us. live (ws ! u) \<longrightarrow> wk_buy (ws ! u) = side)"
proof (induction "is")
  case (Cons k ks)
  show ?case
  proof (cases "live (ws ! k) \<and> wk_buy (ws ! k) \<noteq> side")
    case True
    with Cons.prems have "j = k" by (simp add: closer_def)
    with True show ?thesis by (intro exI [of _ "[]"] exI [of _ ks]) simp
  next
    case False
    with Cons.prems have "closer ws side ks = Some j" by (auto simp: closer_def)
    then obtain us vs where "ks = us @ j # vs" "live (ws ! j)" "wk_buy (ws ! j) \<noteq> side"
        "\<forall>u \<in> set us. live (ws ! u) \<longrightarrow> wk_buy (ws ! u) = side"
      using Cons.IH by blast
    with False show ?thesis by (intro exI [of _ "k # us"] exI [of _ vs]) auto
  qed
qed (simp add: closer_def)

lemma next_match_split:
  "next_match ws is = Some (i, j) \<Longrightarrow> \<exists>us ms vs. is = us @ i # ms @ j # vs \<and> live (ws ! i) \<and> live (ws ! j) \<and>
     wk_buy (ws ! j) \<noteq> wk_buy (ws ! i) \<and> (\<forall>u \<in> set us. \<not> live (ws ! u)) \<and>
     (\<forall>m \<in> set ms. live (ws ! m) \<longrightarrow> wk_buy (ws ! m) = wk_buy (ws ! i))"
proof (induction "is")
  case (Cons k ks)
  show ?case
  proof (cases "live (ws ! k)")
    case True
    with Cons.prems have "i = k" "closer ws (wk_buy (ws ! k)) ks = Some j" by auto
    from closer_split [OF this(2)] obtain ms vs where "ks = ms @ j # vs" "live (ws ! j)" "wk_buy (ws ! j) \<noteq> wk_buy (ws ! k)"
        "\<forall>u \<in> set ms. live (ws ! u) \<longrightarrow> wk_buy (ws ! u) = wk_buy (ws ! k)" by blast
    with \<open>i = k\<close> True show ?thesis by (intro exI [of _ "[]"] exI [of _ ms] exI [of _ vs]) simp
  next
    case False
    with Cons obtain us ms vs where "ks = us @ i # ms @ j # vs" "live (ws ! i)" "live (ws ! j)"
      "wk_buy (ws ! j) \<noteq> wk_buy (ws ! i)" "\<forall>u \<in> set us. \<not> live (ws ! u)"
      "\<forall>m \<in> set ms. live (ws ! m) \<longrightarrow> wk_buy (ws ! m) = wk_buy (ws ! i)" by auto
    with False show ?thesis by (intro exI [of _ "k # us"] exI [of _ ms] exI [of _ vs]) auto
  qed
qed simp

lemma upt_split:
  assumes "[0..<n] = us @ i # ms @ j # vs"
  shows "us = [0..<i] \<and> ms = [Suc i..<j] \<and> i < j \<and> j < n"
proof -
  have "length us < n" using arg_cong [OF assms, of length] by simp
  then have i: "i = length us" using arg_cong [OF assms, of "\<lambda>xs. xs ! length us"] by simp
  have "us = take (length us) [0..<n]" unfolding assms by simp
  then have us: "us = [0..<i]" using \<open>length us < n\<close> i by simp
  have "drop (Suc i) [0..<n] = ms @ j # vs" unfolding assms i by simp
  then have rest: "[Suc i..<n] = ms @ j # vs" by simp
  have lm: "length ms < n - Suc i" using arg_cong [OF rest, of length] by simp
  then have j: "j = Suc i + length ms" using arg_cong [OF rest, of "\<lambda>xs. xs ! length ms"] by simp
  have "ms = take (length ms) [Suc i..<n]" unfolding rest by simp
  then have "ms = [Suc i..<j]" using lm j by simp
  with us j lm show ?thesis by auto
qed

lemma nth_split:
  assumes "i < j" and "j < length xs"
  shows "xs = take i xs @ xs ! i # drop (Suc i) (take j xs) @ xs ! j # drop (Suc j) xs"
proof -
  have "xs = take j xs @ xs ! j # drop (Suc j) xs" using assms(2) by (rule id_take_nth_drop)
  moreover have "take j xs = take i (take j xs) @ take j xs ! i # drop (Suc i) (take j xs)"
    using assms by (intro id_take_nth_drop) simp
  ultimately show ?thesis using assms by (metis append.assoc append_Cons min.absorb1 nth_take take_take less_imp_le)
qed

text \<open>A round that matches, as a fact about the list.\<close>

lemma round_splits:
  assumes "scan ws [0..<length ws] [] [] = Some (i, j)"
  obtains us vs rest where "ws = us @ ws ! i # vs @ ws ! j # rest"
    and "filter live us = []" and "live (ws ! i)" and "live (ws ! j)" and "wk_buy (ws ! j) \<noteq> wk_buy (ws ! i)"
    and "\<forall>v \<in> set (filter live vs). wk_buy v = wk_buy (ws ! i)"
    and "match_at ws i j = us @ deduct (matched_qty (ws ! i) (ws ! j)) (ws ! i) # vs @
           deduct (matched_qty (ws ! i) (ws ! j)) (ws ! j) # rest"
proof -
  from next_match_split [OF assms [unfolded scan_next]] obtain us ms vs where
    split: "[0..<length ws] = us @ i # ms @ j # vs" and
    facts: "live (ws ! i)" "live (ws ! j)" "wk_buy (ws ! j) \<noteq> wk_buy (ws ! i)" and
    dead: "\<forall>u \<in> set us. \<not> live (ws ! u)" and same: "\<forall>m \<in> set ms. live (ws ! m) \<longrightarrow> wk_buy (ws ! m) = wk_buy (ws ! i)"
    by blast
  from upt_split [OF split] have idx: "us = [0..<i]" "ms = [Suc i..<j]" "i < j" "j < length ws" by auto
  let ?U = "take i ws" and ?V = "drop (Suc i) (take j ws)" and ?R = "drop (Suc j) ws"
  have ws: "ws = ?U @ ws ! i # ?V @ ws ! j # ?R" by (rule nth_split) (use idx in auto)
  have "\<exists>u \<in> set us. x = ws ! u" if "x \<in> set ?U" for x
    using that idx by (auto simp: in_set_conv_nth)
  with dead have 1: "filter live ?U = []" by (fastforce simp: filter_empty_conv)
  have "\<exists>m \<in> set ms. x = ws ! m" if x: "x \<in> set ?V" for x
  proof -
    from x obtain k where k: "k < length ?V" "x = ?V ! k" by (auto simp: in_set_conv_nth)
    then have "x = ws ! (Suc i + k)" "Suc i + k < j" using idx by auto
    then show ?thesis using idx(2) by (intro bexI [of _ "Suc i + k"]) auto
  qed
  with same have 2: "\<forall>v \<in> set (filter live ?V). wk_buy v = wk_buy (ws ! i)" by fastforce
  have len: "length ?U = i" "length (?U @ ws ! i # ?V) = j" using idx by auto
  define q where "q = matched_qty (ws ! i) (ws ! j)"
  have "match_at ws i j = (ws[i := deduct q (ws ! i)])[j := deduct q (ws ! j)]"
    by (simp add: match_at_def q_def Let_def)
  also have "ws[i := deduct q (ws ! i)] = ?U @ deduct q (ws ! i) # ?V @ ws ! j # ?R"
    by (subst ws, subst list_update_append) (use idx in simp)
  also have "(?U @ deduct q (ws ! i) # ?V @ ws ! j # ?R)[j := deduct q (ws ! j)] =
      ((?U @ deduct q (ws ! i) # ?V) @ ws ! j # ?R)[j := deduct q (ws ! j)]" by simp
  also have "\<dots> = (?U @ deduct q (ws ! i) # ?V) @ deduct q (ws ! j) # ?R"
    by (subst list_update_append) (use len(2) in simp)
  finally have 3: "match_at ws i j = ?U @ deduct q (ws ! i) # ?V @ deduct q (ws ! j) # ?R" by simp
  show thesis by (rule that [OF ws 1 facts 2 3 [unfolded q_def]])
qed

lemma no_round_same_side:
  assumes "scan ws is [] [] = None" and "a \<in> set is" and "b \<in> set is" and "live (ws ! a)" and "live (ws ! b)"
  shows "wk_buy (ws ! a) = wk_buy (ws ! b)"
  using assms unfolding scan_next
proof (induction "is")
  case (Cons k ks)
  show ?case
  proof (cases "live (ws ! k)")
    case True
    with Cons.prems(1) have "closer ws (wk_buy (ws ! k)) ks = None" by simp
    then have "live (ws ! x) \<Longrightarrow> x \<in> set ks \<Longrightarrow> wk_buy (ws ! x) = wk_buy (ws ! k)" for x
      by (auto simp: closer_def find_None_iff)
    with Cons.prems show ?thesis by auto
  next
    case False
    with Cons show ?thesis by auto
  qed
qed simp

section \<open>The textbook algorithm\<close>

text \<open>
  One pass with a queue of open legs of one side: a leg of that side joins the queue, a leg of the
  other side consumes the queue's head, and the one of the two with quantity left stays.
\<close>

function fifo_ref :: "work list \<Rightarrow> work list \<Rightarrow> leg_pair list" where
  "fifo_ref opens [] = []"
| "fifo_ref opens (w # ws) =
     (if \<not> live w then fifo_ref opens ws
      else case opens of
        [] \<Rightarrow> fifo_ref [w] ws
      | a # rest \<Rightarrow>
          if wk_buy w = wk_buy a then fifo_ref (opens @ [w]) ws
          else (let q = matched_qty a w in mk_pair a w #
                 (if live (deduct q a) then fifo_ref (deduct q a # rest) ws
                  else fifo_ref rest (deduct q w # ws))))"
  by pat_completeness auto

termination by (relation "measure (\<lambda>(opens, ws). length opens + 2 * length ws)") auto

lemma fifo_ref_steps:
  "\<not> live w \<Longrightarrow> fifo_ref opens (w # ws) = fifo_ref opens ws"
  "live w \<Longrightarrow> fifo_ref [] (w # ws) = fifo_ref [w] ws"
  "live w \<Longrightarrow> wk_buy w = wk_buy a \<Longrightarrow> fifo_ref (a # rest) (w # ws) = fifo_ref (a # rest @ [w]) ws"
  "live w \<Longrightarrow> wk_buy w \<noteq> wk_buy a \<Longrightarrow> live (deduct (matched_qty a w) a) \<Longrightarrow>
     fifo_ref (a # rest) (w # ws) = mk_pair a w # fifo_ref (deduct (matched_qty a w) a # rest) ws"
  "live w \<Longrightarrow> wk_buy w \<noteq> wk_buy a \<Longrightarrow> \<not> live (deduct (matched_qty a w) a) \<Longrightarrow>
     fifo_ref (a # rest) (w # ws) = mk_pair a w # fifo_ref rest (deduct (matched_qty a w) w # ws)"
  by (simp_all add: Let_def)

declare fifo_ref.simps(2) [simp del]

definition one_sided :: "work list \<Rightarrow> bool" where
  "one_sided ws \<longleftrightarrow> (\<forall>a \<in> set ws. \<forall>b \<in> set ws. wk_buy a = wk_buy b)"

lemma one_sidedI: "\<forall>x \<in> set ws. wk_buy x = side \<Longrightarrow> one_sided ws"
  by (simp add: one_sided_def)

lemma one_sidedD: "one_sided ws \<Longrightarrow> a \<in> set ws \<Longrightarrow> \<forall>x \<in> set ws. wk_buy x = wk_buy a"
  unfolding one_sided_def by blast

lemma no_round_one_sided: "scan ws [0..<length ws] [] [] = None \<Longrightarrow> one_sided (filter live ws)"
  unfolding one_sided_def using no_round_same_side [of ws "[0..<length ws]"]
  by (auto simp: in_set_conv_nth filter_set)

lemma round_exists:
  assumes "\<not> one_sided (filter live ws)"
  obtains i j where "scan ws [0..<length ws] [] [] = Some (i, j)"
  using assms no_round_one_sided by (cases "scan ws [0..<length ws] [] []") auto

text \<open>The first leg of the other side splits a list in one way.\<close>

lemma split_unique:
  assumes "a # xs @ w # ys = a' # xs' @ w' # ys'" and "wk_buy w \<noteq> wk_buy a" and "wk_buy w' \<noteq> wk_buy a'"
    and "\<forall>x \<in> set xs. wk_buy x = wk_buy a" and "\<forall>x \<in> set xs'. wk_buy x = wk_buy a'"
  shows "a = a' \<and> xs = xs' \<and> w = w' \<and> ys = ys'"
proof -
  have a: "a = a'" and eq: "xs @ w # ys = xs' @ w' # ys'" using assms(1) by simp_all
  have "takeWhile (\<lambda>x. wk_buy x = wk_buy a) (xs @ w # ys) = xs" using assms(2,4) by (simp add: takeWhile_append2)
  moreover have "takeWhile (\<lambda>x. wk_buy x = wk_buy a) (xs' @ w' # ys') = xs'"
    using assms(3,5) a by (simp add: takeWhile_append2)
  ultimately have "xs = xs'" using eq by simp
  with a eq show ?thesis by simp
qed

lemma round_meets_ref:
  assumes "filter live ws = a # rest @ w # filter live xs" and "wk_buy w \<noteq> wk_buy a"
    and "\<forall>x \<in> set rest. wk_buy x = wk_buy a"
  shows "\<exists>ws'. fst (fifo_loop ws) = mk_pair a w # fst (fifo_loop ws') \<and>
    filter live ws' = filter live [deduct (matched_qty a w) a] @ rest @ filter live [deduct (matched_qty a w) w] @ filter live xs"
proof -
  have "\<not> one_sided (filter live ws)" unfolding assms(1) one_sided_def using assms(2) by auto
  then obtain i j where scan: "scan ws [0..<length ws] [] [] = Some (i, j)" by (rule round_exists)
  obtain us vs tail where
    ws: "ws = us @ ws ! i # vs @ ws ! j # tail" and us: "filter live us = []" and
    facts: "live (ws ! i)" "live (ws ! j)" "wk_buy (ws ! j) \<noteq> wk_buy (ws ! i)" and
    vs: "\<forall>v \<in> set (filter live vs). wk_buy v = wk_buy (ws ! i)" and
    match: "match_at ws i j = us @ deduct (matched_qty (ws ! i) (ws ! j)) (ws ! i) # vs @
           deduct (matched_qty (ws ! i) (ws ! j)) (ws ! j) # tail" by (rule round_splits [OF scan])
  have "filter live ws = ws ! i # filter live vs @ ws ! j # filter live tail"
    by (subst ws) (simp add: us facts)
  with assms(1) have eq: "a # rest @ w # filter live xs = ws ! i # filter live vs @ ws ! j # filter live tail" by simp
  have "a = ws ! i \<and> rest = filter live vs \<and> w = ws ! j \<and> filter live xs = filter live tail"
    by (rule split_unique [OF eq assms(2) facts(3) assms(3) vs])
  moreover have "fst (fifo_loop ws) = mk_pair (ws ! i) (ws ! j) # fst (fifo_loop (match_at ws i j))"
    by (subst fifo_loop.simps) (simp add: scan split_beta Let_def)
  ultimately show ?thesis by (intro exI [of _ "match_at ws i j"]) (simp add: match us)
qed

lemma loop_one_sided: "one_sided (filter live ws) \<Longrightarrow> fifo_loop ws = ([], ws)"
proof (cases "scan ws [0..<length ws] [] []")
  case (Some ij)
  assume one: "one_sided (filter live ws)"
  obtain i j where "ij = (i, j)" by force
  with Some have "next_match ws [0..<length ws] = Some (i, j)" by (simp add: scan_next)
  note m = next_match_props [OF this]
  then have "ws ! i \<in> set (filter live ws)" "ws ! j \<in> set (filter live ws)" by simp_all
  then have "wk_buy (ws ! i) = wk_buy (ws ! j)" using one unfolding one_sided_def by blast
  with m show ?thesis by blast
qed (simp add: fifo_loop.simps)

lemma loop_ref:
  assumes "filter live ws = opens @ filter live xs" and "one_sided opens" and "\<forall>a \<in> set opens. live a"
  shows "fst (fifo_loop ws) = fifo_ref opens xs"
  using assms
proof (induction opens xs arbitrary: ws rule: fifo_ref.induct)
  case (1 opens)
  then show ?case by (simp add: loop_one_sided)
next
  case (2 opens w xs)
  show ?case
  proof (cases "live w")
    case False
    with 2 show ?thesis by (simp add: fifo_ref_steps(1))
  next
    case live: True
    show ?thesis
    proof (cases opens)
      case Nil
      have "fst (fifo_loop ws) = fifo_ref [w] xs"
        by (rule 2(2)) (use live Nil 2(6) in \<open>simp_all add: one_sided_def\<close>)
      then show ?thesis unfolding Nil fifo_ref_steps(2) [OF live] .
    next
      case (Cons a rest)
      have same: "\<forall>x \<in> set opens. wk_buy x = wk_buy a" by (rule one_sidedD [OF 2(7)]) (simp add: Cons)
      have nn: "\<not> \<not> live w" using live by simp
      show ?thesis
      proof (cases "wk_buy w = wk_buy a")
        case True
        have "fst (fifo_loop ws) = fifo_ref (opens @ [w]) xs"
        proof (rule 2(3) [OF nn Cons True])
          show "filter live ws = (opens @ [w]) @ filter live xs" using live 2(6) by simp
          show "one_sided (opens @ [w])" by (rule one_sidedI [of _ "wk_buy a"]) (use same True in simp)
          show "\<forall>x \<in> set (opens @ [w]). live x" using live 2(8) by simp
        qed
        moreover have "fifo_ref opens (w # xs) = fifo_ref (opens @ [w]) xs"
          unfolding Cons fifo_ref_steps(3) [OF live True] by simp
        ultimately show ?thesis by simp
      next
        case False
        let ?q = "matched_qty a w"
        have "filter live ws = a # rest @ w # filter live xs" using 2(6) live Cons by simp
        moreover have side: "\<forall>x \<in> set rest. wk_buy x = wk_buy a" using same Cons by simp
        ultimately obtain ws' where step: "fst (fifo_loop ws) = mk_pair a w # fst (fifo_loop ws')" and
          l: "filter live ws' = filter live [deduct ?q a] @ rest @ filter live [deduct ?q w] @ filter live xs"
          using round_meets_ref [OF _ False] by blast
        have buy: "wk_buy (deduct ?q a) = wk_buy a" by (simp add: deduct_def)
        show ?thesis
        proof (cases "live (deduct ?q a)")
          case True
          with matched_dead [of a w] have "\<not> live (deduct ?q w)" by blast
          then have l': "filter live ws' = (deduct ?q a # rest) @ filter live xs" using l True by simp
          have "fst (fifo_loop ws') = fifo_ref (deduct ?q a # rest) xs"
          proof (rule 2(4) [OF nn Cons False refl True l'])
            show "one_sided (deduct ?q a # rest)" by (rule one_sidedI [of _ "wk_buy a"]) (use side buy in simp)
            show "\<forall>x \<in> set (deduct ?q a # rest). live x" using True 2(8) Cons by simp
          qed
          with step show ?thesis unfolding Cons fifo_ref_steps(4) [OF live False True] by simp
        next
          case dead: False
          have "fst (fifo_loop ws') = fifo_ref rest (deduct ?q w # xs)"
          proof (rule 2(5) [OF nn Cons False refl dead])
            show "filter live ws' = rest @ filter live (deduct ?q w # xs)" using l dead by simp
            show "one_sided rest" by (rule one_sidedI [OF side])
            show "\<forall>x \<in> set rest. live x" using 2(8) Cons by simp
          qed
          with step show ?thesis unfolding Cons fifo_ref_steps(5) [OF live False dead] by simp
        qed
      qed
    qed
  qed
qed

section \<open>Nothing is lost\<close>

definition paired_qty :: "int \<Rightarrow> leg_pair list \<Rightarrow> rat" where
  "paired_qty e ps = sum_list (map (\<lambda>p. (if pa_first p = e then pa_qty p else 0) + (if pa_second p = e then pa_qty p else 0)) ps)"

definition open_qty :: "int \<Rightarrow> work list \<Rightarrow> rat" where
  "open_qty e ws = sum_list (map (\<lambda>w. if wk_eid w = e then wk_qty w else 0) ws)"

definition open_fees :: "work list \<Rightarrow> rat" where
  "open_fees ws = sum_list (map wk_comm ws)"

lemma open_append [simp]:
  "open_qty e (xs @ ys) = open_qty e xs + open_qty e ys" "open_fees (xs @ ys) = open_fees xs + open_fees ys"
  "open_qty e (w # xs) = (if wk_eid w = e then wk_qty w else 0) + open_qty e xs" "open_fees (w # xs) = wk_comm w + open_fees xs"
  by (simp_all add: open_qty_def open_fees_def)

lemma deduct_sel [simp]:
  "wk_eid (deduct q w) = wk_eid w" "wk_qty (deduct q w) = wk_qty w - q" "wk_comm (deduct q w) = wk_comm w - fee_share q w"
  by (simp_all add: deduct_def)

lemma pair_sel:
  "pa_first (mk_pair a b) = wk_eid a" "pa_second (mk_pair a b) = wk_eid b" "pa_qty (mk_pair a b) = matched_qty a b"
  "pa_commission (mk_pair a b) = fee_share (matched_qty a b) b + fee_share (matched_qty a b) a"
  by (simp_all add: mk_pair_def Let_def)

lemma round_conserves:
  assumes "scan ws [0..<length ws] [] [] = Some (i, j)"
  shows "open_qty e (match_at ws i j) + paired_qty e [mk_pair (ws ! i) (ws ! j)] = open_qty e ws"
    and "open_fees (match_at ws i j) + pa_commission (mk_pair (ws ! i) (ws ! j)) = open_fees ws"
proof -
  obtain us vs rest where
    ws: "ws = us @ ws ! i # vs @ ws ! j # rest" and
    match: "match_at ws i j = us @ deduct (matched_qty (ws ! i) (ws ! j)) (ws ! i) # vs @
           deduct (matched_qty (ws ! i) (ws ! j)) (ws ! j) # rest" by (rule round_splits [OF assms])
  have q: "open_qty e (us @ deduct q a # vs @ deduct q b # rest) + paired_qty e [mk_pair a b] = open_qty e (us @ a # vs @ b # rest)"
    and f: "open_fees (us @ deduct q a # vs @ deduct q b # rest) + pa_commission (mk_pair a b) = open_fees (us @ a # vs @ b # rest)"
    if "q = matched_qty a b" for a b q
    unfolding that by (simp_all add: paired_qty_def pair_sel)
  show "open_qty e (match_at ws i j) + paired_qty e [mk_pair (ws ! i) (ws ! j)] = open_qty e ws"
    unfolding match q [OF refl] by (rule arg_cong [OF ws [symmetric]])
  show "open_fees (match_at ws i j) + pa_commission (mk_pair (ws ! i) (ws ! j)) = open_fees ws"
    unfolding match f [OF refl] by (rule arg_cong [OF ws [symmetric]])
qed

lemma paired_qty_Cons: "paired_qty e (p # ps) = paired_qty e [p] + paired_qty e ps"
  by (simp add: paired_qty_def)

text \<open>One round and the rest of the loop, as a rule for induction.\<close>

lemma loop_cases:
  assumes "\<And>ws. one_sided (filter live ws) \<Longrightarrow> P ws ([], ws)"
    and "\<And>ws i j r. scan ws [0..<length ws] [] [] = Some (i, j) \<Longrightarrow> P (match_at ws i j) r \<Longrightarrow>
      P ws (mk_pair (ws ! i) (ws ! j) # fst r, snd r)"
  shows "P ws (fifo_loop ws)"
proof (induction ws rule: fifo_loop.induct)
  case (1 ws)
  show ?case
  proof (cases "scan ws [0..<length ws] [] []")
    case None
    then have "fifo_loop ws = ([], ws)" by (simp add: fifo_loop.simps)
    with assms(1) [OF no_round_one_sided [OF None]] show ?thesis by simp
  next
    case (Some ij)
    obtain i j where ij: "ij = (i, j)" by force
    note scan = Some [unfolded ij]
    have "fifo_loop ws = (mk_pair (ws ! i) (ws ! j) # fst (fifo_loop (match_at ws i j)), snd (fifo_loop (match_at ws i j)))"
      by (subst fifo_loop.simps) (simp add: scan split_beta Let_def)
    with assms(2) [OF scan 1 [OF scan refl]] show ?thesis by simp
  qed
qed

lemma loop_conserves_qty: "open_qty e (snd (fifo_loop ws)) + paired_qty e (fst (fifo_loop ws)) = open_qty e ws"
proof (rule loop_cases [where P = "\<lambda>ws r. open_qty e (snd r) + paired_qty e (fst r) = open_qty e ws"])
  fix ws i j and r :: "leg_pair list \<times> work list"
  assume scan: "scan ws [0..<length ws] [] [] = Some (i, j)"
    and IH: "open_qty e (snd r) + paired_qty e (fst r) = open_qty e (match_at ws i j)"
  show "open_qty e (snd (mk_pair (ws ! i) (ws ! j) # fst r, snd r)) +
      paired_qty e (fst (mk_pair (ws ! i) (ws ! j) # fst r, snd r)) = open_qty e ws"
    using IH round_conserves(1) [OF scan, of e] paired_qty_Cons [of e "mk_pair (ws ! i) (ws ! j)" "fst r"] by simp
qed (simp add: paired_qty_def)

lemma loop_conserves_fees: "open_fees (snd (fifo_loop ws)) + sum_list (map pa_commission (fst (fifo_loop ws))) = open_fees ws"
proof (rule loop_cases [where P = "\<lambda>ws r. open_fees (snd r) + sum_list (map pa_commission (fst r)) = open_fees ws"])
  fix ws i j and r :: "leg_pair list \<times> work list"
  assume scan: "scan ws [0..<length ws] [] [] = Some (i, j)"
    and IH: "open_fees (snd r) + sum_list (map pa_commission (fst r)) = open_fees (match_at ws i j)"
  show "open_fees (snd (mk_pair (ws ! i) (ws ! j) # fst r, snd r)) +
      sum_list (map pa_commission (fst (mk_pair (ws ! i) (ws ! j) # fst r, snd r))) = open_fees ws"
    using IH round_conserves(2) [OF scan] by simp
qed simp

lemma loop_exhausts: "one_sided (filter live (snd (fifo_loop ws)))"
  by (rule loop_cases [where P = "\<lambda>ws r. one_sided (filter live (snd r))"]) simp_all

lemma loop_rounds: "length (fst (fifo_loop ws)) \<le> length (filter live ws)"
proof (rule loop_cases [where P = "\<lambda>ws r. length (fst r) \<le> length (filter live ws)"])
  fix ws i j and r :: "leg_pair list \<times> work list"
  assume "scan ws [0..<length ws] [] [] = Some (i, j)" and "length (fst r) \<le> length (filter live (match_at ws i j))"
  then show "length (fst (mk_pair (ws ! i) (ws ! j) # fst r, snd r)) \<le> length (filter live ws)"
    using match_at_live_less [of ws i j] by (simp add: scan_next)
qed simp

lemma loop_pairs: "\<forall>p \<in> set (fst (fifo_loop ws)). 0 < pa_qty p \<and> pa_first_buy p \<noteq> pa_second_buy p"
proof (rule loop_cases [where P = "\<lambda>ws r. \<forall>p \<in> set (fst r). 0 < pa_qty p \<and> pa_first_buy p \<noteq> pa_second_buy p"])
  fix ws i j and r :: "leg_pair list \<times> work list"
  assume scan: "scan ws [0..<length ws] [] [] = Some (i, j)"
    and IH: "\<forall>p \<in> set (fst r). 0 < pa_qty p \<and> pa_first_buy p \<noteq> pa_second_buy p"
  note m = next_match_props [OF scan [unfolded scan_next]]
  then have "0 < pa_qty (mk_pair (ws ! i) (ws ! j))" "pa_first_buy (mk_pair (ws ! i) (ws ! j)) \<noteq> pa_second_buy (mk_pair (ws ! i) (ws ! j))"
    using matched_pos [of "ws ! i" "ws ! j"] by (simp_all add: mk_pair_def Let_def)
  with IH show "\<forall>p \<in> set (fst (mk_pair (ws ! i) (ws ! j) # fst r, snd r)). 0 < pa_qty p \<and> pa_first_buy p \<noteq> pa_second_buy p"
    by simp
qed simp

section \<open>The links\<close>

definition partners :: "(int \<times> int list) list \<Rightarrow> int \<Rightarrow> int set" where
  "partners m a = (case map_of m a of None \<Rightarrow> {} | Some xs \<Rightarrow> set xs)"

lemma partners_link: "partners (link a b m) c = partners m c \<union> (if c = a then {b} else {})"
  by (auto simp: partners_def link_def Let_def update_conv' split: option.splits)

lemma partners_add_pair:
  "b \<in> partners (add_pair m p) a \<longleftrightarrow> b \<in> partners m a \<or> (pa_first p = a \<and> pa_second p = b) \<or> (pa_first p = b \<and> pa_second p = a)"
  by (auto simp: add_pair_def partners_link)

lemma partners_fold:
  "b \<in> partners (foldl add_pair m ps) a \<longleftrightarrow>
     b \<in> partners m a \<or> (\<exists>p \<in> set ps. (pa_first p = a \<and> pa_second p = b) \<or> (pa_first p = b \<and> pa_second p = a))"
  by (induction ps arbitrary: m) (auto simp: partners_add_pair)

section \<open>The right of the option\<close>

definition same_for_pairing :: "pydict \<Rightarrow> pydict \<Rightarrow> bool" where
  "same_for_pairing e f \<longleftrightarrow> (\<forall>k. k \<noteq> ''option_right'' \<longrightarrow> dget f k = dget e k)"

lemma same_fields:
  assumes "same_for_pairing e f"
  shows "work_of f = work_of e" "contract_of f = contract_of e" "wanted f = wanted e" "two_sided f = two_sided e"
    "fifo_sort_key chicago f = fifo_sort_key chicago e"
proof -
  note same = assms [unfolded same_for_pairing_def, rule_format]
  have eqs: "dget f ''quantity'' = dget e ''quantity''" "dget f ''price'' = dget e ''price''"
    "dget f ''commission'' = dget e ''commission''" "dget f ''side'' = dget e ''side''"
    "dget f ''symbol'' = dget e ''symbol''" "dget f ''expiry'' = dget e ''expiry''" "dget f ''strike'' = dget e ''strike''"
    "dget f ''account_id'' = dget e ''account_id''" "dget f ''sec_type'' = dget e ''sec_type''" "dget f ''time'' = dget e ''time''"
    "dget f ''trade_date'' = dget e ''trade_date''" "dget f ''account_executions_id'' = dget e ''account_executions_id''"
    "dget f ''id'' = dget e ''id''"
    by (rule same, simp)+
  show "work_of f = work_of e" "contract_of f = contract_of e" "wanted f = wanted e" "two_sided f = two_sided e"
    "fifo_sort_key chicago f = fifo_sort_key chicago e"
    unfolding work_of_def contract_of_def wanted_def two_sided_def fifo_sort_key_def date_text_def exec_id_def eqs by (rule refl)+
qed

lemma map_of_groups: "map_of (map (\<lambda>(k, es). (k, map h es)) gs) k = map_option (map h) (map_of gs k)"
  by (induction gs) auto

lemma update_groups:
  "AList.update k (map h es) (map (\<lambda>(k, es). (k, map h es)) gs) = map (\<lambda>(k, es). (k, map h es)) (AList.update k es gs)"
  by (induction gs) auto

lemma emap_map: "emap g (map f xs) = emap (g \<circ> f) xs"
  by (induction xs) simp_all

lemma sort_map:
  assumes "\<And>e. k (h e) = k e"
  shows "sort_key k (map h es) = map h (sort_key k es)"
proof (induction es)
  case (Cons e es)
  have "insort_key k (h e) (map h xs) = map h (insort_key k e xs)" for xs
    by (induction xs) (simp_all add: assms)
  with Cons show ?case by simp
qed simp

lemma groups_of_map:
  assumes same: "\<And>e. same_for_pairing e (h e)"
  shows "groups_of (map h es) = map (\<lambda>(k, es). (k, map h es)) (groups_of es)"
proof -
  have one: "add_to_group (map (\<lambda>(k, es). (k, map h es)) gs) (h e) = map (\<lambda>(k, es). (k, map h es)) (add_to_group gs e)" for gs e
    unfolding add_to_group_def Let_def map_of_groups same_fields(2) [OF same]
    by (simp add: update_groups [symmetric] split: option.split)
  have "foldl add_to_group (map (\<lambda>(k, es). (k, map h es)) gs) (map h es) =
      map (\<lambda>(k, es). (k, map h es)) (foldl add_to_group gs es)" for gs es
    by (induction es arbitrary: gs) (simp_all add: one)
  from this [of "[]"] show ?thesis
    by (simp add: groups_of_def filter_map comp_def same_fields [OF same])
qed

lemma compute_opt_pairs_map:
  assumes same: "\<And>e. same_for_pairing e (h e)"
  shows "compute_opt_pairs chicago (map h es) = compute_opt_pairs chicago es"
proof -
  have "work_of \<circ> h = work_of" by (simp add: fun_eq_iff same_fields(1) [OF same])
  moreover have "sort_key (fifo_sort_key chicago) (map h xs) = map h (sort_key (fifo_sort_key chicago) xs)" for xs
    by (rule sort_map) (rule same_fields(5) [OF same])
  ultimately have "group_pairs chicago (k, map h xs) = group_pairs chicago (k, xs)" for k xs
    by (simp add: group_pairs_def emap_map)
  then have "group_pairs chicago \<circ> (\<lambda>(k, es). (k, map h es)) = group_pairs chicago"
    by (simp add: fun_eq_iff split: prod.splits)
  then show ?thesis by (simp add: compute_opt_pairs_def groups_of_map [OF same] emap_map)
qed

section \<open>Periods\<close>

definition period_at :: "((rat \<times> string) \<times> period) list \<Rightarrow> rat \<times> string \<Rightarrow> period" where
  "period_at periods k = (case map_of periods k of None \<Rightarrow> empty_period | Some v \<Rightarrow> v)"

definition period_sum :: "reported_pair list \<Rightarrow> period" where
  "period_sum ps = \<lparr>pd_pnl = sum_list (map (\<lambda>p. rep_pnl p + rep_fee p) ps), pd_commission = sum_list (map rep_fee ps),
     pd_net = sum_list (map rep_pnl ps), pd_wins = length (filter (\<lambda>p. rep_pnl p > 0) ps),
     pd_losses = length (filter (\<lambda>p. rep_pnl p < 0) ps), pd_pairs = ps\<rparr>"

lemma book_sum: "book_pair p (period_sum ps) = period_sum (ps @ [p])"
  by (simp add: book_pair_def period_sum_def)

lemma periods_fold:
  "map_of (foldl (add_to_period key) [] ps) k =
     (if \<exists>p \<in> set ps. key p = Some k then Some (period_sum (filter (\<lambda>p. key p = Some k) ps)) else None)"
proof (induction ps rule: rev_induct)
  case (snoc p ps)
  have empty: "empty_period = period_sum (filter (\<lambda>p. key p = Some k) ps)" if "\<not> (\<exists>p \<in> set ps. key p = Some k)" for k
  proof -
    have "filter (\<lambda>p. key p = Some k) ps = []" using that by (auto simp: filter_empty_conv)
    then show ?thesis by (simp add: period_sum_def empty_period_def)
  qed
  show ?case
  proof (cases "key p = Some k")
    case True
    have "period_at (foldl (add_to_period key) [] ps) k = period_sum (filter (\<lambda>p. key p = Some k) ps)"
      using empty [of k] by (auto simp: period_at_def snoc)
    moreover have "add_to_period key M p = AList.update k (book_pair p (period_at M k)) M" for M
      by (simp add: add_to_period_def period_at_def True)
    ultimately show ?thesis using True by (simp add: update_conv' book_sum)
  next
    case False
    then show ?thesis using snoc by (auto simp: add_to_period_def update_conv' split: option.split)
  qed
qed simp

lemma periods_distinct: "distinct (map fst (foldl (add_to_period key) [] ps))"
proof -
  have "distinct (map fst c) \<Longrightarrow> distinct (map fst (foldl (add_to_period key) c ps))" for c
    by (induction ps arbitrary: c) (auto simp: add_to_period_def distinct_update split: option.split)
  then show ?thesis by simp
qed

section \<open>Properties of the pairing\<close>

text \<open>
  C4. The loop of rounds, which restarts its scan after every match, returns the pairs of the textbook
  one-pass first-in-first-out matching, in the same order, with the same quantities and fees.
\<close>

theorem pairing_is_fifo: "fst (fifo_loop ws) = fifo_ref [] ws"
  by (rule loop_ref) (simp_all add: one_sided_def)

text \<open>
  C35. The loop ends after at most one round per open leg; what is paired and what stays open of every
  execution add up to its quantity, the same for the fees; every pair has a positive quantity and two
  sides; and at the end all open legs are of one side.
\<close>

theorem pairing_conserves_quantity_and_fees:
  "\<exists>ps rest. fifo_loop ws = (ps, rest) \<and> length ps \<le> length (filter live ws) \<and>
     (\<forall>e. open_qty e rest + paired_qty e ps = open_qty e ws) \<and>
     open_fees rest + sum_list (map pa_commission ps) = open_fees ws \<and>
     list_all (\<lambda>p. 0 < pa_qty p \<and> pa_first_buy p \<noteq> pa_second_buy p) ps \<and> one_sided (filter live rest)"
  using loop_conserves_qty [of _ ws] loop_conserves_fees [of ws] loop_exhausts [of ws] loop_rounds [of ws] loop_pairs [of ws]
  by (intro exI [of _ "fst (fifo_loop ws)"] exI [of _ "snd (fifo_loop ws)"]) (simp add: list_all_iff)

text \<open>
  The map from executions to their partners is symmetric, and links exactly the two executions of
  each reported pair.
\<close>

theorem pairing_links_are_symmetric:
  assumes "compute_opt_pairs chicago es = Inr (m, ps)"
  shows "(b \<in> partners m a \<longleftrightarrow> a \<in> partners m b) \<and>
    (b \<in> partners m a \<longleftrightarrow> list_ex (\<lambda>p. pa_first (rep_pair p) = a \<and> pa_second (rep_pair p) = b \<or>
       pa_first (rep_pair p) = b \<and> pa_second (rep_pair p) = a) ps)"
proof -
  have m: "m = foldl add_pair [] (map rep_pair ps)" using assms by (auto simp: compute_opt_pairs_def Let_def)
  have "partners [] c = {}" for c by (simp add: partners_def)
  then show ?thesis unfolding m partners_fold by (auto simp: list_ex_iff)
qed

definition option_exec :: "int \<Rightarrow> string \<Rightarrow> string \<Rightarrow> int \<Rightarrow> pydict" where
  "option_exec i right side t =
     [(''account_executions_id'', PInt i), (''account_id'', PStr ''U1''), (''symbol'', PStr ''SPY''), (''sec_type'', PStr ''OPT''),
      (''expiry'', PStr ''20270115''), (''strike'', PInt 600), (''option_right'', PStr right), (''side'', PStr side),
      (''quantity'', PInt 1), (''price'', PInt 5), (''time'', PInt t)]"

theorem pairing_links_are_symmetric_witness:
  "\<exists>m ps. compute_opt_pairs (\<lambda>_. []) [option_exec 7 ''C'' ''BUY'' 1, option_exec 8 ''C'' ''SELL'' 2] = Inr (m, ps) \<and>
     8 \<in> partners m 7 \<and> 7 \<in> partners m 8"
proof -
  let ?r = "compute_opt_pairs (\<lambda>_. []) [option_exec 7 ''C'' ''BUY'' 1, option_exec 8 ''C'' ''SELL'' 2]"
  have "isl ?r = False \<and> 8 \<in> partners (fst (projr ?r)) 7" by code_simp
  then obtain m ps where r: "?r = Inr (m, ps)" and "8 \<in> partners m 7" by (cases ?r) auto
  with pairing_links_are_symmetric [OF r, of 8 7] show ?thesis by blast
qed

text \<open>
  The right of an option plays no part: setting any rights on the executions changes neither the
  pairs nor the links. A call and a put of one strike, expiry and underlying symbol are matched.
\<close>

theorem pairing_ignores_the_right:
  "compute_opt_pairs chicago (map (\<lambda>e. dset ''option_right'' (r e) e) es) = compute_opt_pairs chicago es \<and>
   map (\<lambda>p. (pa_first (rep_pair p), pa_second (rep_pair p)))
     (snd (projr (compute_opt_pairs (\<lambda>_. []) [option_exec 7 ''C'' ''BUY'' 1, option_exec 8 ''P'' ''SELL'' 2]))) = [(7, 8)]"
proof
  show "compute_opt_pairs chicago (map (\<lambda>e. dset ''option_right'' (r e) e) es) = compute_opt_pairs chicago es"
    by (rule compute_opt_pairs_map) (simp add: same_for_pairing_def)
qed code_simp

text \<open>
  The realized calendar puts every pair that closes inside the range into exactly one period, under
  the key of the day it closes; a period's totals are the rounded sums of its pairs and its wins and
  losses count the pairs with a positive and a negative result. The periods are in order of their start.
\<close>

theorem calendar_partitions_the_pairs:
  assumes "compute_opt_pairs chicago es = Inr (m, ps)" and "ps \<noteq> []" and "exec_by_id es = Inr execs"
  shows "\<exists>out. compute_opt_realized_calendar chicago chicago_day midnight es gran since until = Inr out \<and>
    distinct (map fst out) \<and> sorted (map (fst \<circ> fst) out) \<and>
    (\<forall>k v. map_of out k = Some v \<longleftrightarrow>
      (let mine = filter (\<lambda>p. pair_key chicago_day midnight gran since until execs p = Some k) ps
       in mine \<noteq> [] \<and> v = snd (round_period (k, period_sum mine))))"
proof -
  let ?key = "pair_key chicago_day midnight gran since until execs"
  let ?raw = "foldl (add_to_period ?key) [] ps"
  let ?sorted = "sort_key (\<lambda>kv. fst (fst kv)) ?raw"
  let ?out = "map round_period ?sorted"
  have keys: "map fst ?out = map fst ?sorted" by (simp add: round_period_def)
  have distinct: "distinct (map fst ?sorted)" using periods_distinct [of ?key ps] by (simp add: distinct_map)
  have "map (fst \<circ> fst) ?out = map (\<lambda>kv. fst (fst kv)) ?sorted" by (simp add: round_period_def comp_def)
  then have sorted: "sorted (map (fst \<circ> fst) ?out)" by (simp only: sorted_sort_key)
  have look: "map_of (map round_period xs) k = map_option (\<lambda>v. snd (round_period (k, v))) (map_of xs k)" for xs k
    by (induction xs) (auto simp: round_period_def)
  have "map_of ?sorted = map_of ?raw"
    by (intro map_of_inject_set [THEN iffD2] distinct periods_distinct) simp
  then have "map_of ?out k = map_option (\<lambda>v. snd (round_period (k, v))) (map_of ?raw k)" for k by (simp only: look)
  moreover have "(\<exists>p \<in> set ps. ?key p = Some k) \<longleftrightarrow> filter (\<lambda>p. ?key p = Some k) ps \<noteq> []" for k
    by (auto simp: filter_empty_conv)
  ultimately have "map_of ?out k = Some v \<longleftrightarrow> (let mine = filter (\<lambda>p. ?key p = Some k) ps
      in mine \<noteq> [] \<and> v = snd (round_period (k, period_sum mine)))" for k v
    by (auto simp: periods_fold Let_def)
  moreover have "compute_opt_realized_calendar chicago chicago_day midnight es gran since until = Inr ?out"
    by (simp add: compute_opt_realized_calendar_def assms)
  moreover have "distinct (map fst ?out)" unfolding keys by (rule distinct)
  ultimately show ?thesis using sorted by blast
qed

theorem calendar_partitions_the_pairs_witness:
  "\<exists>out. compute_opt_realized_calendar (\<lambda>_. []) (\<lambda>_. Some (2026, 11, 2)) (\<lambda>_. 0)
       [option_exec 7 ''C'' ''BUY'' 1, option_exec 8 ''C'' ''SELL'' 2] Month None None = Inr out \<and>
     map_of out (0, ''2026-11'') \<noteq> None"
proof -
  let ?es = "[option_exec 7 ''C'' ''BUY'' 1, option_exec 8 ''C'' ''SELL'' 2]"
  let ?r = "compute_opt_pairs (\<lambda>_. []) ?es"
  have "isl ?r = False \<and> length (snd (projr ?r)) = 1" by code_simp
  then obtain m ps where r: "?r = Inr (m, ps)" and len: "length ps = 1" by (cases ?r) auto
  have x: "exec_by_id ?es = Inr [(8, option_exec 8 ''C'' ''SELL'' 2), (7, option_exec 7 ''C'' ''BUY'' 1)]" by code_simp
  let ?execs = "[(8, option_exec 8 ''C'' ''SELL'' 2), (7, option_exec 7 ''C'' ''BUY'' 1)]"
  let ?key = "pair_key (\<lambda>_. Some (2026, 11, 2)) (\<lambda>_. 0) Month None None ?execs"
  have "list_ex (\<lambda>p. ?key p = Some (0, ''2026-11'')) (snd (projr ?r))" by code_simp
  then have "filter (\<lambda>p. ?key p = Some (0, ''2026-11'')) ps \<noteq> []" unfolding r by (auto simp: list_ex_iff filter_empty_conv)
  moreover have "ps \<noteq> []" using len by auto
  note calendar_partitions_the_pairs [OF r this x, of "\<lambda>_. Some (2026, 11, 2)" "\<lambda>_. 0" Month None None]
  ultimately show ?thesis by (auto simp: Let_def)
qed

end
