(* ===== verification/Contract_Key.thy ===== *)
theory Contract_Key
  imports Write_Support
begin

text \<open>
  Contract keys (\<open>portfolio/contract_key.py\<close>) and the signed quantity of an execution
  (\<open>portfolio/signed_qty.py\<close>): the texts under which positions and executions are stored and
  joined, and the one rule for the sign of a fill.
\<close>

text \<open>\<open>AttributeError\<close>: \<open>.strip()\<close> on a value that is not text.\<close>

definition attribute_error :: exc where
  "attribute_error = OtherExc ''AttributeError''"

text \<open>\<open>(v or dflt).strip()\<close>\<close>

definition strip_or :: "string \<Rightarrow> pyval \<Rightarrow> exc + string" where
  "strip_or dflt v =
     (if \<not> truthy v then Inr (strip dflt)
      else (case v of PStr s \<Rightarrow> Inr (strip s) | _ \<Rightarrow> Inl attribute_error))"

lemma strip_or_PStr [simp]: "s \<noteq> [] \<Longrightarrow> strip_or d (PStr s) = Inr (strip s)"
  and strip_or_none [simp]: "strip_or d PNone = Inr (strip d)"
  and strip_or_empty [simp]: "strip_or d (PStr []) = Inr (strip d)"
  by (simp_all add: strip_or_def)

section \<open>Keys\<close>

definition stk_key :: "pyval \<Rightarrow> pyval \<Rightarrow> string" where
  "stk_key symbol sec_type = py_str symbol @ ''|'' @ py_str sec_type @ ''|||''"

definition opt_key :: "pyval \<Rightarrow> pyval \<Rightarrow> pyval \<Rightarrow> pyval \<Rightarrow> string \<Rightarrow> string" where
  "opt_key symbol expiry strike right none_text =
     py_str symbol @ ''|OPT|'' @ py_str expiry @ ''|'' @
     (if strike = PNone then none_text else py_str strike) @ ''|'' @ py_str right"

text \<open>An expiry: a finite number is printed as an integer, a text loses its dashes.\<close>

definition expiry_digits :: "pyval \<Rightarrow> exc + string" where
  "expiry_digits v = (case v of
       PBool b \<Rightarrow> Inr (int_str (if b then 1 else 0))
     | PInt i \<Rightarrow> Inr (int_str i)
     | PFloat (Fin q) \<Rightarrow> Inr (int_str (trunc_rat q))
     | _ \<Rightarrow> ebind (strip_or [] v) (\<lambda>s. Inr (filter (\<lambda>c. c \<noteq> CHR ''-'') s)))"

definition right_letter :: "string \<Rightarrow> string" where
  "right_letter r =
     (if length r > 1
      then (if startswith r ''C'' then ''C'' else if startswith r ''P'' then ''P'' else take 1 r) else r)"

text \<open>\<open>float(strike)\<close> or None when it is not sent or not a number.\<close>

definition strike_float :: "pyval \<Rightarrow> pyfloat option" where
  "strike_float v = (if v = PStr [] \<or> v = PNone then None
     else (case py_float v of Inl _ \<Rightarrow> None | Inr f \<Rightarrow> Some f))"

definition execution_opt_fields ::
  "pyval \<Rightarrow> pyval \<Rightarrow> pyval \<Rightarrow> pyval \<Rightarrow> exc + (string \<times> string \<times> pyfloat option \<times> string)" where
  "execution_opt_fields symbol expiry strike option_right =
     ebind (strip_or [] symbol) (\<lambda>sym_key.
     ebind (expiry_digits expiry) (\<lambda>exp_key.
     ebind (strip_or [] option_right) (\<lambda>r.
       Inr (sym_key, exp_key, strike_float strike, right_letter (upper r)))))"

text \<open>\<open>f"{n:08d}"\<close>: the sign counts.\<close>

definition pad8 :: "int \<Rightarrow> string" where
  "pad8 n = (if n < 0 then CHR ''-'' # replicate (7 - length (pos_str (- n))) CHR ''0'' @ pos_str (- n)
             else replicate (8 - length (pos_str n)) CHR ''0'' @ pos_str n)"

text \<open>\<open>s[2:8]\<close> of eight digits or more, \<open>s[-6:]\<close> of fewer.\<close>

definition local_yymmdd :: "string \<Rightarrow> string" where
  "local_yymmdd s = (if length s \<ge> 8 then take 6 (drop 2 s) else drop (length s - 6) s)"

definition legacy_tws_local_symbol :: "string \<Rightarrow> string \<Rightarrow> pyfloat \<Rightarrow> string \<Rightarrow> string option" where
  "legacy_tws_local_symbol sym_key exp_key strike_key right_key =
     (let yymmdd = local_yymmdd (filter is_digit exp_key)
      in case strike_key of
           Fin q \<Rightarrow> if yymmdd = [] then None
                    else Some (sym_key @ ''  '' @ yymmdd @ right_key @ pad8 (round_half_even (q * 1000)))
         | _ \<Rightarrow> None)"

definition tws_execution_opt_key :: "pyval \<Rightarrow> pyval \<Rightarrow> pyval \<Rightarrow> pyval \<Rightarrow> exc + string option" where
  "tws_execution_opt_key symbol expiry strike option_right =
     ebind (execution_opt_fields symbol expiry strike option_right) (\<lambda>(s, e, k, r). Inr (case k of
         None \<Rightarrow> None
       | Some f \<Rightarrow> if s = [] \<or> e = [] \<or> r = [] then None
                   else map_option (\<lambda>local. opt_key (PStr local) (PStr e) (PFloat f) (PStr r) [])
                          (legacy_tws_local_symbol s e f r)))"

definition osi_yymmdd :: "string \<Rightarrow> string" where
  "osi_yymmdd expiry =
     (let e = filter is_digit expiry
      in if length e \<ge> 8 then take 6 (drop 2 e) else if length e = 6 then e else take 6 (e @ ''010101''))"

definition osi_right :: "string \<Rightarrow> string" where
  "osi_right right =
     (let r = take 1 (upper (strip (if right = [] then ''C'' else right))) in if r = ''C'' \<or> r = ''P'' then r else ''C'')"

definition osi_root :: "string \<Rightarrow> string" where
  "osi_root symbol = (let r = take 6 (upper (strip symbol)) in r @ replicate (6 - length r) CHR '' '')"

definition strike_milli :: "rat \<Rightarrow> int" where
  "strike_milli strike = max 0 (min (round_half_even (strike * 1000)) 99999999)"

definition osi_local_symbol :: "string \<Rightarrow> string \<Rightarrow> rat \<Rightarrow> string \<Rightarrow> string" where
  "osi_local_symbol symbol expiry strike right =
     osi_root symbol @ osi_yymmdd expiry @ osi_right right @ pad8 (strike_milli strike)"

text \<open>An integral strike prints without decimals; an infinite one as the empty text.\<close>

fun fallback_strike_text :: "pyval \<Rightarrow> exc + string" where
  "fallback_strike_text (PBool b) = Inr (int_str (if b then 1 else 0))"
| "fallback_strike_text (PInt i) = Inr (int_str i)"
| "fallback_strike_text (PFloat (Fin q)) = Inr (if q = of_int \<lfloor>q\<rfloor> then int_str \<lfloor>q\<rfloor> else rat_repr q)"
| "fallback_strike_text (PFloat _) = Inr []"
| "fallback_strike_text _ = Inl (PyErr TypeErr)"

definition fallback_strike :: "pyval \<Rightarrow> exc + string" where
  "fallback_strike v = (case v of PNone \<Rightarrow> Inr [] | PStr s \<Rightarrow> Inr (strip s) | _ \<Rightarrow> fallback_strike_text v)"

definition read_fallback_opt_key :: "pydict \<Rightarrow> exc + string option" where
  "read_fallback_opt_key row =
     ebind (strip_or [] (dget row ''sec_type'')) (\<lambda>sec.
     if upper sec \<noteq> ''OPT'' then Inr None
     else ebind (strip_or [] (dget row ''contract_key'')) (\<lambda>key.
     if key \<noteq> [] then Inr None
     else ebind (strip_or [] (dget row ''symbol'')) (\<lambda>s.
     ebind (expiry_digits (py_or (dget row ''expiry'') (PStr []))) (\<lambda>e.
     ebind (fallback_strike (dget row ''strike'')) (\<lambda>k.
     ebind (strip_or [] (dget row ''option_right'')) (\<lambda>r0.
     ebind (if right_letter (upper r0) = [] \<and> dhas row ''right''
            then ebind (strip_or [] (dget row ''right'')) (\<lambda>r1. Inr (take 1 (upper r1)))
            else Inr (right_letter (upper r0))) (\<lambda>r.
       Inr (Some (opt_key (PStr s) (PStr e) (PStr k) (PStr r) [])))))))))"

section \<open>Signed quantity\<close>

definition SELL_SIDES :: "string list" where
  "SELL_SIDES = [''SELL'', ''SLD'', ''S'']"

definition is_sell_side :: "pyval \<Rightarrow> bool" where
  "is_sell_side side \<longleftrightarrow>
     upper (strip_by (\<lambda>c. c = CHR '' '') (py_str (py_or side (PStr [])))) \<in> set SELL_SIDES"

fun fabs :: "pyfloat \<Rightarrow> pyfloat" where
  "fabs (Fin q) = Fin \<bar>q\<bar>"
| "fabs NegInf = PosInf"
| "fabs f = f"

text \<open>The source is an argument the rule ignores.\<close>

definition signed_qty :: "pyval \<Rightarrow> pyval \<Rightarrow> pyval \<Rightarrow> pyfloat option" where
  "signed_qty source side quantity =
     (if quantity = PNone then None
      else (case quantity of
          PBool _ \<Rightarrow> None
        | _ \<Rightarrow> (case py_float quantity of
              Inl _ \<Rightarrow> None
            | Inr f \<Rightarrow> if fabs f = NaN then Some NaN
                       else Some (if is_sell_side side then fneg (fabs f) else fabs f))))"

text \<open>
  The same rule as the SQL expression \<open>signed_qty_sql\<close> evaluates it on stored columns: a text or
  NULL side, a number or NULL quantity. (\<open>CASE WHEN upper(trim(COALESCE(side, ''))) IN \<dots>\<close>)
\<close>

definition signed_qty_sql :: "string option \<Rightarrow> pyfloat option \<Rightarrow> pyfloat option" where
  "signed_qty_sql side quantity =
     (if upper (strip_by (\<lambda>c. c = CHR '' '') (case side of None \<Rightarrow> [] | Some s \<Rightarrow> s)) \<in> set SELL_SIDES
      then map_option (\<lambda>f. fneg (fabs f)) quantity else map_option fabs quantity)"

section \<open>Facts\<close>

lemma length_pad8: "0 \<le> n \<Longrightarrow> n \<le> 99999999 \<Longrightarrow> length (pad8 n) = 8"
  using length_pos_str_bound [of n 8] by (simp add: pad8_def)

lemma digits_val_pad8 [simp]: "0 \<le> n \<Longrightarrow> digits_val (pad8 n) = n"
  by (simp add: pad8_def digits_val_zeros)

lemma strike_milli_range: "0 \<le> strike_milli q" "strike_milli q \<le> 99999999"
  by (simp_all add: strike_milli_def)

lemma length_osi_parts:
  "length (osi_root s) = 6" "length (osi_yymmdd e) = 6" "length (osi_right r) = 1"
proof -
  have "length t = 1" if "t = ''C'' \<or> t = ''P''" for t :: string using that by auto
  moreover have "osi_right r = ''C'' \<or> osi_right r = ''P''" by (simp add: osi_right_def Let_def)
  ultimately show "length (osi_right r) = 1" by blast
  show "length (osi_root s) = 6" by (simp add: osi_root_def Let_def)
  show "length (osi_yymmdd e) = 6" by (simp add: osi_yymmdd_def Let_def) linarith
qed

lemma signed_qty_sql_agrees:
  "signed_qty_sql side quantity =
   signed_qty source (case side of None \<Rightarrow> PNone | Some s \<Rightarrow> PStr s) (case quantity of None \<Rightarrow> PNone | Some f \<Rightarrow> PFloat f)"
proof (cases quantity)
  case (Some f)
  then show ?thesis
    by (cases f; cases side) (auto simp: signed_qty_sql_def signed_qty_def is_sell_side_def py_or_def)
qed (simp add: signed_qty_sql_def signed_qty_def)

end
