(* ===== verification/Fills.thy ===== *)
theory Fills
  imports Contract_Key
begin

text \<open>
  Executions and their attribution to trades (\<open>portfolio/reader/accounts.py\<close>,
  \<open>persistence/postgres/commissions.py\<close>).

  An execution spans two databases. The Golden Source holds its raw row, in one of three tables,
  and its commission; the environment's own database holds \<open>trade_execution\<close>, which attributes a
  fill (account, exec id) to a trade as a whole or splits its quantity over several. A writer works
  in one transaction on each and commits them one after the other, so the second commit can fail
  after the first has taken effect.
\<close>

section \<open>The two databases\<close>

datatype raw_table = RawFlex | RawTws | RawJournal

text \<open>A row of \<open>trade_execution\<close>; no split quantity: the whole fill.\<close>

record attribution =
  te_account :: string
  te_exec :: string
  te_trade :: int
  te_split :: "rat option"

record fill_trade =
  ft_account :: string
  ft_opp :: int
  ft_label :: pyval

record commission_row =
  cm_commission :: pyval
  cm_currency :: pyval
  cm_pnl :: pyval
  cm_yield :: pyval
  cm_redemption :: pyval

text \<open>\<open>raw\<close>, \<open>next_raw\<close> and \<open>commissions\<close> are on the Golden Source, the rest in the environment.\<close>

record fill_db =
  raw :: "raw_table \<Rightarrow> (int \<times> pydict) list"
  next_raw :: "raw_table \<Rightarrow> int"
  commissions :: "(string \<times> commission_row) list"
  attribs :: "attribution list"
  fill_trades :: "(int \<times> fill_trade) list"
  stock_links :: "(int \<times> int) list"

definition golden_committed :: "fill_db \<Rightarrow> fill_db \<Rightarrow> fill_db" where
  "golden_committed new old = old\<lparr>raw := raw new, next_raw := next_raw new, commissions := commissions new\<rparr>"

definition env_committed :: "fill_db \<Rightarrow> fill_db \<Rightarrow> fill_db" where
  "env_committed new old = old\<lparr>attribs := attribs new, fill_trades := fill_trades new, stock_links := stock_links new\<rparr>"

text \<open>
  The two commits, in the order the writer makes them: an exception in the first leaves both
  databases as they were, one in the second leaves what the first committed.
\<close>

definition two_phase :: "(fill_db \<Rightarrow> fill_db \<Rightarrow> fill_db) \<Rightarrow> (fill_db, bool \<times> 'a) tx \<Rightarrow> env \<Rightarrow> fill_db \<Rightarrow> (exc + 'a) \<times> fill_db" where
  "two_phase first body env s = (case body env (s, 0) of
       (Inl e, _) \<Rightarrow> (Inl e, s)
     | (Inr (commit, a), (s', n)) \<Rightarrow>
         if \<not> commit then (Inr a, s)
         else (case fault env n of
                 Some e \<Rightarrow> (Inl e, s)
               | None \<Rightarrow> (case fault env (Suc n) of
                     Some e \<Rightarrow> (Inl e, first s' s)
                   | None \<Rightarrow> (Inr a, s'))))"

section \<open>The overlay id\<close>

definition journal_id_offset :: int where
  "journal_id_offset = 1000000000"

text \<open>\<open>_raw_table_pk_for_account_executions_id\<close>\<close>

definition raw_table_pk :: "int \<Rightarrow> raw_table \<times> int" where
  "raw_table_pk aid =
     (if aid > 0 then (RawFlex, aid)
      else if aid \<le> - journal_id_offset then (RawJournal, - aid - journal_id_offset)
      else (RawTws, - aid))"

text \<open>The id the execution views compute for a raw row.\<close>

fun view_id :: "raw_table \<Rightarrow> int \<Rightarrow> int" where
  "view_id RawFlex pk = pk"
| "view_id RawTws pk = - pk"
| "view_id RawJournal pk = - (journal_id_offset + pk)"

section \<open>The fill behind an id\<close>

definition normalized_signed_qty :: "pyval \<Rightarrow> pyval \<Rightarrow> pyval \<Rightarrow> pyfloat" where
  "normalized_signed_qty source side quantity = (case signed_qty source side quantity of None \<Rightarrow> Fin 0 | Some q \<Rightarrow> q)"

definition key_of_row :: "pydict \<Rightarrow> string \<times> string \<times> pyfloat" where
  "key_of_row r = (stripped (dget r ''account_id''), stripped (dget r ''exec_id''),
     normalized_signed_qty (dget r ''source'') (dget r ''side'') (dget r ''quantity''))"

definition fill_key :: "raw_table \<Rightarrow> int \<Rightarrow> (fill_db, (string \<times> string \<times> pyfloat) option) tx" where
  "fill_key tbl pk = query (\<lambda>db. map_option key_of_row (map_of (raw db tbl) pk))"

definition instance_problem_of :: "fill_db \<Rightarrow> int \<Rightarrow> string \<Rightarrow> int option \<Rightarrow> string option" where
  "instance_problem_of db trade acc opp = (case map_of (fill_trades db) trade of
       None \<Rightarrow> Some (''No trade '' @ int_str trade @ ''.'')
     | Some t \<Rightarrow>
         if strip (ft_account t) \<noteq> acc
         then Some (''Trade '' @ int_str trade @ '' belongs to account '' @ ft_account t @ '', and the fill to '' @ acc @ ''.'')
         else (case opp of
             None \<Rightarrow> None
           | Some o1 \<Rightarrow> if ft_opp t = o1 then None
               else Some (''Trade '' @ int_str trade @ '' is under opportunity '' @ int_str (ft_opp t)
                      @ '', not '' @ int_str o1 @ ''.'')))"

definition instance_problem :: "int \<Rightarrow> string \<Rightarrow> int option \<Rightarrow> (fill_db, string option) tx" where
  "instance_problem trade acc opp = query (\<lambda>db. instance_problem_of db trade acc opp)"

definition of_fill :: "string \<Rightarrow> string \<Rightarrow> attribution \<Rightarrow> bool" where
  "of_fill acc ex a \<longleftrightarrow> te_account a = acc \<and> te_exec a = ex"

definition split_count :: "string \<Rightarrow> string \<Rightarrow> (fill_db, int) tx" where
  "split_count acc ex = query (\<lambda>db. int (length (filter (\<lambda>a. of_fill acc ex a \<and> te_split a \<noteq> None) (attribs db))))"

text \<open>Does a row of this table carry the fill (or, without the account, the exec id)?\<close>

definition carries :: "string \<Rightarrow> string \<Rightarrow> pydict \<Rightarrow> bool" where
  "carries acc ex r \<longleftrightarrow> dget r ''account_id'' = PStr acc \<and> dget r ''exec_id'' = PStr ex"

definition has_row :: "(pydict \<Rightarrow> bool) \<Rightarrow> raw_table \<Rightarrow> fill_db \<Rightarrow> bool" where
  "has_row p tbl db \<longleftrightarrow> list_ex (\<lambda>r. p (snd r)) (raw db tbl)"

definition GOLDEN_RAW_TABLES :: "raw_table list" where
  "GOLDEN_RAW_TABLES = [RawTws, RawFlex, RawJournal]"

fun any_table :: "(pydict \<Rightarrow> bool) \<Rightarrow> raw_table list \<Rightarrow> (fill_db, bool) tx" where
  "any_table p [] = tx_return False"
| "any_table p (t # ts) = tx_bind (query (has_row p t)) (\<lambda>b. if b then tx_return True else any_table p ts)"

section \<open>Writing attributions\<close>

text \<open>What a row of \<open>trade_execution\<close> must satisfy beside the other rows.\<close>

definition attrib_violation :: "fill_db \<Rightarrow> attribution list \<Rightarrow> attribution \<Rightarrow> exc option" where
  "attrib_violation db others a =
     (if te_split a = Some 0 then Some (CheckViolation (None, Some ''trade_execution_qty_ck''))
      else if list_ex (\<lambda>b. of_fill (te_account a) (te_exec a) b \<and> te_trade b = te_trade a) others
      then Some (UniqueViolation (None, Some ''trade_execution_uq''))
      else if te_split a = None \<and> list_ex (\<lambda>b. of_fill (te_account a) (te_exec a) b \<and> te_split b = None) others
      then Some (UniqueViolation (None, Some ''trade_execution_whole_uq''))
      else (case map_of (fill_trades db) (te_trade a) of
          Some t \<Rightarrow> if ft_account t = te_account a then None
                    else Some (ForeignKeyViolation (None, Some ''trade_execution_trade_fk''))
        | None \<Rightarrow> Some (ForeignKeyViolation (None, Some ''trade_execution_trade_fk''))))"

definition insert_attrib :: "attribution \<Rightarrow> (fill_db, unit) tx" where
  "insert_attrib a = stmt (\<lambda>db. checked (attrib_violation db (attribs db) a) ((), db\<lparr>attribs := attribs db @ [a]\<rparr>))"

definition whole_row :: "string \<Rightarrow> string \<Rightarrow> attribution \<Rightarrow> bool" where
  "whole_row acc ex a \<longleftrightarrow> of_fill acc ex a \<and> te_split a = None"

definition delete_attribs :: "(attribution \<Rightarrow> bool) \<Rightarrow> (fill_db, unit) tx" where
  "delete_attribs p = update (\<lambda>db. db\<lparr>attribs := filter (\<lambda>a. \<not> p a) (attribs db)\<rparr>)"

text \<open>The upsert on the partial unique index of whole-fill rows.\<close>

definition upsert_whole :: "string \<Rightarrow> string \<Rightarrow> int \<Rightarrow> (fill_db, unit) tx" where
  "upsert_whole acc ex trade = stmt (\<lambda>db.
     let a = \<lparr>te_account = acc, te_exec = ex, te_trade = trade, te_split = None\<rparr>;
         others = filter (\<lambda>b. \<not> whole_row acc ex b) (attribs db)
     in checked (attrib_violation db others a)
          ((), db\<lparr>attribs := (if list_ex (whole_row acc ex) (attribs db)
                              then map (\<lambda>b. if whole_row acc ex b then a else b) (attribs db)
                              else attribs db @ [a])\<rparr>))"

definition set_whole_attribution :: "string \<Rightarrow> string \<Rightarrow> int option \<Rightarrow> (fill_db, unit) tx" where
  "set_whole_attribution acc ex trade = (case trade of
       None \<Rightarrow> delete_attribs (whole_row acc ex)
     | Some t \<Rightarrow> upsert_whole acc ex t)"

text \<open>\<open>_drop_attribution_if_last\<close>: the number of split rows removed.\<close>

definition drop_attribution_if_last :: "string \<Rightarrow> string \<Rightarrow> (fill_db, int) tx" where
  "drop_attribution_if_last acc ex =
     (if ex = [] then tx_return 0
      else tx_bind (any_table (carries acc ex) GOLDEN_RAW_TABLES) (\<lambda>b.
        if b then tx_return 0
        else stmt (\<lambda>db. Inr (int (length (filter (\<lambda>a. of_fill acc ex a \<and> te_split a \<noteq> None) (attribs db))),
               db\<lparr>attribs := filter (\<lambda>a. \<not> of_fill acc ex a) (attribs db)\<rparr>))))"

definition opt_py_int :: "pyval \<Rightarrow> conv_err + int option" where
  "opt_py_int v = (if v = PNone then Inr None else ebind (py_int v) (\<lambda>i. Inr (Some i)))"

definition direct_instance :: "pydict \<Rightarrow> conv_err + (bool \<times> int option \<times> int option)" where
  "direct_instance body =
     ebind (opt_py_int (dget body ''trade_id'')) (\<lambda>inst.
     ebind (opt_py_int (dget body ''strategy_opportunity_id'')) (\<lambda>opp.
       Inr (dhas body ''trade_id'', inst, opp)))"

text \<open>One item of the split list: its trade and quantity, or None when the writer answers False.\<close>

definition split_request :: "pyval \<Rightarrow> conv_err + (int \<times> rat) option" where
  "split_request item = (case item of
       PDict d \<Rightarrow>
         (let si = dget d ''trade_id''; aq = dget d ''quantity''
          in if si = PNone \<or> aq = PNone then Inr None
             else case py_int si of
                 Inl e \<Rightarrow> if e = OverflowErr then Inl e else Inr None
               | Inr i \<Rightarrow> (case py_float aq of
                     Inl e \<Rightarrow> if e = OverflowErr then Inl e else Inr None
                   | Inr (Fin q) \<Rightarrow> if q = 0 then Inr None else Inr (Some (i, q))
                   | Inr _ \<Rightarrow> Inr None))
     | _ \<Rightarrow> Inr None)"

fun split_items :: "string \<Rightarrow> pyval list \<Rightarrow> (int \<times> rat) list \<Rightarrow> (fill_db, (int \<times> rat) list option) tx" where
  "split_items acc [] taken = tx_return (Some taken)"
| "split_items acc (x # xs) taken = (case split_request x of
       Inl e \<Rightarrow> tx_raise (PyErr e)
     | Inr None \<Rightarrow> tx_return None
     | Inr (Some (i, q)) \<Rightarrow> tx_bind (instance_problem i acc None) (\<lambda>p.
         if p \<noteq> None then tx_return None else split_items acc xs (taken @ [(i, q)])))"

text \<open>The tolerance test. Against a quantity that is not finite the comparison is False.\<close>

definition adds_up :: "rat \<Rightarrow> pyfloat \<Rightarrow> bool" where
  "adds_up tot expected = (case expected of
       Fin e \<Rightarrow> \<not> \<bar>tot - e\<bar> > 1/100000 * max 1 \<bar>e\<bar>
     | _ \<Rightarrow> True)"

definition split_attrib :: "string \<Rightarrow> string \<Rightarrow> int \<times> rat \<Rightarrow> attribution" where
  "split_attrib acc ex iq = \<lparr>te_account = acc, te_exec = ex, te_trade = fst iq, te_split = Some (snd iq)\<rparr>"

definition store_splits :: "string \<Rightarrow> string \<Rightarrow> (int \<times> rat) list \<Rightarrow> (fill_db, unit) tx" where
  "store_splits acc ex ins =
     tx_bind (delete_attribs (\<lambda>a. of_fill acc ex a \<and> te_split a \<noteq> None)) (\<lambda>_.
     if ins = [] then tx_return ()
     else tx_bind (set_whole_attribution acc ex None) (\<lambda>_.
            tx_each (\<lambda>iq. insert_attrib (split_attrib acc ex iq)) ins))"

definition apply_fill_splits :: "raw_table \<Rightarrow> int \<Rightarrow> pyval list \<Rightarrow> (fill_db, bool) tx" where
  "apply_fill_splits tbl pk body =
     tx_bind (fill_key tbl pk) (\<lambda>k. case k of
         None \<Rightarrow> tx_return False
       | Some (acc, ex, expected) \<Rightarrow>
           if ex = [] then tx_return False
           else tx_bind (split_items acc body []) (\<lambda>r. case r of
               None \<Rightarrow> tx_return False
             | Some ins \<Rightarrow>
                 if \<not> distinct (map fst ins) then tx_return False
                 else if ins \<noteq> [] \<and> \<not> adds_up (sum_list (map snd ins)) expected then tx_return False
                 else tx_bind (store_splits acc ex ins) (\<lambda>_. tx_return True)))"

end
