(* ===== verification/Json_Text.thy ===== *)
theory Json_Text
  imports Py_Value
begin

text \<open>
  \<open>json.dumps\<close> and \<open>json.loads\<close> of the standard library, on ASCII text: escapes, numbers, the two
  separators. A date or a datetime makes \<open>dumps\<close> raise TypeError. The parser has as much fuel as the
  text has characters, and every nested value takes one.
\<close>

definition hex_digit :: "nat \<Rightarrow> char" where
  "hex_digit n = ''0123456789abcdef'' ! n"

definition json_char :: "char \<Rightarrow> string" where
  "json_char c =
     (if c = CHR 0x22 then [CHR 0x5C, CHR 0x22]
      else if c = CHR 0x5C then [CHR 0x5C, CHR 0x5C]
      else if 32 \<le> (of_char c :: nat) \<and> (of_char c :: nat) < 127 then [c]
      else if c = CHR 0x0A then [CHR 0x5C, CHR ''n'']
      else if c = CHR 0x0D then [CHR 0x5C, CHR ''r'']
      else if c = CHR 0x09 then [CHR 0x5C, CHR ''t'']
      else if c = CHR 0x0C then [CHR 0x5C, CHR ''f'']
      else if c = CHR 0x08 then [CHR 0x5C, CHR ''b'']
      else CHR 0x5C # ''u00'' @ [hex_digit (of_char c div 16), hex_digit (of_char c mod 16)])"

definition json_text :: "string \<Rightarrow> string" where
  "json_text s = CHR 0x22 # concat (map json_char s) @ [CHR 0x22]"

fun json_float :: "pyfloat \<Rightarrow> string" where
  "json_float (Fin q) = rat_repr q"
| "json_float PosInf = ''Infinity''"
| "json_float NegInf = ''-Infinity''"
| "json_float NaN = ''NaN''"

text \<open>
  \<open>json_value item_sep key_sep v\<close>; the keys of an object in the order given. Values that JSON has
  no text for make the whole conversion raise, which \<open>json_dumps\<close> checks first.
\<close>

fun json_value :: "string \<Rightarrow> string \<Rightarrow> pyval \<Rightarrow> string" where
  "json_value i k PNone = ''null''"
| "json_value i k (PBool b) = (if b then ''true'' else ''false'')"
| "json_value i k (PInt n) = int_str n"
| "json_value i k (PFloat f) = json_float f"
| "json_value i k (PStr s) = json_text s"
| "json_value i k (PList xs) = ''['' @ join i (map (json_value i k) xs) @ '']''"
| "json_value i k (PDict d) =
     CHR 0x7B # join i (map (\<lambda>e. json_text (fst e) @ k @ json_value i k (snd e)) d) @ [CHR 0x7D]"
| "json_value i k (PDate _) = []"
| "json_value i k (PDatetime _) = []"

fun json_serializable :: "pyval \<Rightarrow> bool" where
  "json_serializable (PDate _) = False"
| "json_serializable (PDatetime _) = False"
| "json_serializable (PList xs) = list_all json_serializable xs"
| "json_serializable (PDict d) = list_all (\<lambda>e. json_serializable (snd e)) d"
| "json_serializable _ = True"

definition json_dumps :: "pyval \<Rightarrow> conv_err + string" where
  "json_dumps v = (if json_serializable v then Inr (json_value '', '' '': '' v) else Inl TypeErr)"

section \<open>Parsing\<close>

definition json_ws :: "string \<Rightarrow> string" where
  "json_ws s = dropWhile (\<lambda>c. c = CHR '' '' \<or> c = CHR 0x09 \<or> c = CHR 0x0A \<or> c = CHR 0x0D) s"

definition hex_val :: "char \<Rightarrow> nat option" where
  "hex_val c = (case map_of (zip ''0123456789abcdefABCDEF'' ([0..<16] @ [10..<16])) c of None \<Rightarrow> None | Some n \<Rightarrow> Some n)"

definition simple_escapes :: "(char \<times> char) list" where
  "simple_escapes = [(CHR 0x22, CHR 0x22), (CHR 0x5C, CHR 0x5C), (CHR ''/'', CHR ''/''), (CHR ''b'', CHR 0x08),
     (CHR ''f'', CHR 0x0C), (CHR ''n'', CHR 0x0A), (CHR ''r'', CHR 0x0D), (CHR ''t'', CHR 0x09)]"

text \<open>The rest of a text after its opening quote. An escape \<open>\u\<close> is read when it is below 256.\<close>

fun json_str :: "string \<Rightarrow> (string \<times> string) option" where
  "json_str [] = None"
| "json_str (c # r) =
     (if c = CHR 0x22 then Some ([], r)
      else if c = CHR 0x5C then
        (case r of
           [] \<Rightarrow> None
         | e # r1 \<Rightarrow>
             if e = CHR ''u'' then
               (case r1 of
                  h1 # h2 # h3 # h4 # r2 \<Rightarrow>
                    (case (hex_val h3, hex_val h4) of
                       (Some a, Some b) \<Rightarrow> if h1 = CHR ''0'' \<and> h2 = CHR ''0''
                          then map_option (\<lambda>(t, q). (char_of (16 * a + b) # t, q)) (json_str r2) else None
                     | _ \<Rightarrow> None)
                | _ \<Rightarrow> None)
             else (case map_of simple_escapes e of None \<Rightarrow> None
                   | Some x \<Rightarrow> map_option (\<lambda>(t, q). (x # t, q)) (json_str r1)))
      else if (of_char c :: nat) < 32 then None
      else map_option (\<lambda>(t, q). (c # t, q)) (json_str r))"

text \<open>A number: the longest prefix of the number grammar; without fraction and exponent an \<open>int\<close>.\<close>

definition json_int_part :: "string \<Rightarrow> string \<times> string" where
  "json_int_part s = (case s of
       [] \<Rightarrow> ([], [])
     | c # r \<Rightarrow> if c = CHR ''0'' then ([c], r) else (takeWhile is_digit s, dropWhile is_digit s))"

definition json_frac_part :: "string \<Rightarrow> string \<times> string" where
  "json_frac_part s = (case s of
       c # r \<Rightarrow> if c = CHR ''.'' \<and> takeWhile is_digit r \<noteq> [] then (c # takeWhile is_digit r, dropWhile is_digit r) else ([], s)
     | [] \<Rightarrow> ([], []))"

definition json_exp_part :: "string \<Rightarrow> string \<times> string" where
  "json_exp_part s = (case s of
       c # r \<Rightarrow>
         (let sg = (case r of x # _ \<Rightarrow> if x = CHR ''-'' \<or> x = CHR ''+'' then [x] else [] | [] \<Rightarrow> []);
              ds = takeWhile is_digit (drop (length sg) r)
          in if (c = CHR ''e'' \<or> c = CHR ''E'') \<and> ds \<noteq> [] then (c # sg @ ds, drop (length sg + length ds) r) else ([], s))
     | [] \<Rightarrow> ([], []))"

definition json_number :: "string \<Rightarrow> (pyval \<times> string) option" where
  "json_number s =
     (let neg = (s \<noteq> [] \<and> hd s = CHR ''-''); (i, r1) = json_int_part (if neg then tl s else s);
          (f, r2) = json_frac_part r1; (e, r3) = json_exp_part r2
      in if i = [] then None
         else if f = [] \<and> e = [] then Some (PInt (if neg then - digits_val i else digits_val i), r1)
         else map_option (\<lambda>x. (PFloat (if neg then fneg x else x), r3)) (parse_unsigned (lower (i @ f @ e))))"

definition json_words :: "(string \<times> pyval) list" where
  "json_words = [(''null'', PNone), (''true'', PBool True), (''false'', PBool False), (''NaN'', PFloat NaN),
     (''Infinity'', PFloat PosInf), (''-Infinity'', PFloat NegInf)]"

definition json_word :: "string \<Rightarrow> (pyval \<times> string) option" where
  "json_word s = (case find (\<lambda>w. startswith s (fst w)) json_words of
       None \<Rightarrow> json_number s | Some (w, v) \<Rightarrow> Some (v, drop (length w) s))"

fun json_parse :: "nat \<Rightarrow> string \<Rightarrow> (pyval \<times> string) option"
  and json_items :: "nat \<Rightarrow> string \<Rightarrow> pyval list \<Rightarrow> (pyval \<times> string) option"
  and json_members :: "nat \<Rightarrow> string \<Rightarrow> pydict \<Rightarrow> (pyval \<times> string) option" where
  "json_parse 0 s = None"
| "json_parse (Suc n) s =
     (case s of
        [] \<Rightarrow> None
      | c # r \<Rightarrow>
          if c = CHR 0x22 then map_option (\<lambda>(t, q). (PStr t, q)) (json_str r)
          else if c = CHR 0x7B then
            (case json_ws r of
               [] \<Rightarrow> None
             | d # r1 \<Rightarrow> if d = CHR 0x7D then Some (PDict [], r1) else json_members n (d # r1) [])
          else if c = CHR ''['' then
            (case json_ws r of
               [] \<Rightarrow> None
             | d # r1 \<Rightarrow> if d = CHR '']'' then Some (PList [], r1) else json_items n (d # r1) [])
          else json_word s)"
| "json_items 0 s xs = None"
| "json_items (Suc n) s xs =
     (case json_parse n s of
        None \<Rightarrow> None
      | Some (v, r) \<Rightarrow>
          (case json_ws r of
             [] \<Rightarrow> None
           | d # r1 \<Rightarrow> if d = CHR '']'' then Some (PList (xs @ [v]), r1)
               else if d = CHR '','' then json_items n (json_ws r1) (xs @ [v]) else None))"
| "json_members 0 s ms = None"
| "json_members (Suc n) s ms =
     (case s of
        [] \<Rightarrow> None
      | c # r \<Rightarrow>
          if c \<noteq> CHR 0x22 then None
          else (case json_str r of
              None \<Rightarrow> None
            | Some (k, r1) \<Rightarrow>
                (case json_ws r1 of
                   [] \<Rightarrow> None
                 | d # r2 \<Rightarrow>
                     if d \<noteq> CHR '':'' then None
                     else (case json_parse n (json_ws r2) of
                         None \<Rightarrow> None
                       | Some (v, r3) \<Rightarrow>
                           (case json_ws r3 of
                              [] \<Rightarrow> None
                            | e # r4 \<Rightarrow> if e = CHR 0x7D then Some (PDict (dset k v ms), r4)
                                else if e = CHR '','' then json_members n (json_ws r4) (dset k v ms) else None)))))"

definition json_loads_text :: "string \<Rightarrow> pyval option" where
  "json_loads_text s = (case json_parse (Suc (length s)) (json_ws s) of
       Some (v, r) \<Rightarrow> if json_ws r = [] then Some v else None
     | None \<Rightarrow> None)"

lemma json_examples:
  "json_loads_text ''[1, -2.5, true, null]'' = Some (PList [PInt 1, PFloat (Fin (-5/2)), PBool True, PNone])"
  "json_loads_text ''01'' = None" "json_loads_text ''[1,]'' = None"
  by code_simp+

section \<open>Reading back what was written\<close>

definition plain_text :: "string \<Rightarrow> bool" where
  "plain_text s \<longleftrightarrow> list_all (\<lambda>c. 32 \<le> (of_char c :: nat) \<and> (of_char c :: nat) < 127 \<and> c \<noteq> CHR 0x22 \<and> c \<noteq> CHR 0x5C) s"

lemma json_text_plain: "plain_text s \<Longrightarrow> json_text s = CHR 0x22 # s @ [CHR 0x22]"
proof -
  assume a: "plain_text s"
  have "json_char c = [c]" if "c \<in> set s" for c
  proof -
    from a that have "c \<noteq> CHR 0x22" "c \<noteq> CHR 0x5C" "32 \<le> (of_char c :: nat) \<and> (of_char c :: nat) < 127"
      unfolding plain_text_def list_all_iff by blast+
    then show ?thesis unfolding json_char_def by (simp only: if_True if_False simp_thms)
  qed
  then have "concat (map json_char s) = s" by (induction s) auto
  then show ?thesis by (simp add: json_text_def)
qed

lemma json_str_plain: "plain_text s \<Longrightarrow> json_str (s @ CHR 0x22 # r) = Some (s, r)"
proof (induction s)
  case (Cons c s)
  then have c: "c \<noteq> CHR 0x22" "c \<noteq> CHR 0x5C" "\<not> (of_char c :: nat) < 32" and s: "plain_text s" by (auto simp: plain_text_def)
  show ?case unfolding append_Cons json_str.simps(2) [of c] using c Cons.IH [OF s] by simp
qed simp

lemma hd_pos_str: "0 < n \<Longrightarrow> hd (pos_str n) \<noteq> CHR ''0''"
proof (induction n rule: pos_str.induct)
  case (1 n)
  show ?case
  proof (cases "n < 10")
    case True
    with "1.prems" int_less_10_cases [of n] show ?thesis
      by (subst pos_str.simps) (auto simp: digit_char_def digit_chars_def)
  next
    case False
    with 1 show ?thesis by (subst pos_str.simps) (simp add: hd_append)
  qed
qed

lemma takeWhile_digits: "list_all is_digit s \<Longrightarrow> \<not> is_digit c \<Longrightarrow> takeWhile is_digit (s @ c # r) = s \<and> dropWhile is_digit (s @ c # r) = c # r"
  by (induction s) auto

lemma json_int_part_pos: "0 \<le> n \<Longrightarrow> \<not> is_digit c \<Longrightarrow> json_int_part (pos_str n @ c # r) = (pos_str n, c # r)"
proof (cases "n = 0")
  case True
  have "pos_str 0 = ''0''" by code_simp
  with True show "\<not> is_digit c \<Longrightarrow> ?thesis" by (simp add: json_int_part_def)
next
  case False
  assume a: "0 \<le> n" "\<not> is_digit c"
  obtain x xs where x: "pos_str n = x # xs" by (cases "pos_str n") auto
  with hd_pos_str [of n] a False have "x \<noteq> CHR ''0''" by simp
  with takeWhile_digits [of "pos_str n" c r] a x show ?thesis
    using isdigit_pos_str [of n] by (simp add: json_int_part_def isdigit_def)
qed

text \<open>An integer before a comma or a closing brace is read back.\<close>

lemma json_word_int:
  assumes "c = CHR '','' \<or> c = CHR 0x7D"
  shows "json_word (int_str i @ c # r) = Some (PInt i, c # r)"
proof -
  have nd: "\<not> is_digit c" using assms by (auto simp: is_digit_def digit_chars_def)
  let ?n = "if i < 0 then - i else i"
  obtain x xs where x: "pos_str ?n = x # xs" "is_digit x"
    using isdigit_pos_str [of ?n] by (cases "pos_str ?n") (auto simp: isdigit_def)
  from x(2) have letters: "x \<noteq> CHR ''n''" "x \<noteq> CHR ''t''" "x \<noteq> CHR ''f''" "x \<noteq> CHR ''N''" "x \<noteq> CHR ''I''" "x \<noteq> CHR ''-''"
    by (auto simp: is_digit_def digit_chars_def)
  have str: "int_str i = (if i < 0 then CHR ''-'' # x # xs else x # xs)" using x(1) by (simp add: int_str_def split: if_splits)
  have none: "find (\<lambda>w. startswith (int_str i @ c # r) (fst w)) json_words = None"
    using letters by (simp add: str json_words_def startswith_def take_Cons')
  have part: "json_int_part (pos_str ?n @ c # r) = (pos_str ?n, c # r)" by (rule json_int_part_pos [OF _ nd]) simp
  have rest: "json_frac_part (c # r) = ([], c # r)" "json_exp_part (c # r) = ([], c # r)"
    using assms by (auto simp: json_frac_part_def json_exp_part_def Let_def)
  show ?thesis
  proof (cases "i < 0")
    case True
    then have "int_str i @ c # r = CHR ''-'' # (pos_str ?n @ c # r)" by (simp add: int_str_def)
    with True none part rest show ?thesis by (simp add: json_word_def json_number_def)
  next
    case False
    then have eq: "int_str i @ c # r = pos_str ?n @ c # r" by (simp add: int_str_def)
    have "hd (pos_str ?n @ c # r) \<noteq> CHR ''-''" using x letters by (simp add: hd_append)
    with False none part rest show ?thesis unfolding json_word_def eq [symmetric] none
      by (simp add: eq json_number_def)
  qed
qed

end
