(* ===== verification/Fill_Writers.thy ===== *)
theory Fill_Writers
  imports Fills Json_Text
begin

text \<open>
  The writers of executions, attributions and commissions (\<open>portfolio/reader/accounts.py\<close>,
  \<open>persistence/postgres/commissions.py\<close>). The second argument of a writer says whether the Golden
  Source answers; the environment's own database is \<open>connect_ok\<close>.
\<close>

section \<open>Commissions\<close>

definition FLEX_SOURCE :: string where
  "FLEX_SOURCE = ''flex_trades''"

text \<open>Not sent: None or blank text. Anything else must convert.\<close>

definition comm_number :: "pyval \<Rightarrow> exc + pyfloat option" where
  "comm_number v = (if v = PNone \<or> (case v of PStr s \<Rightarrow> strip s = [] | _ \<Rightarrow> False) then Inr None
     else case py_float v of Inl e \<Rightarrow> Inl (PyErr e) | Inr f \<Rightarrow> Inr (Some f))"

definition stored_commission :: "pyval \<Rightarrow> pyval \<Rightarrow> exc + pyfloat option" where
  "stored_commission v source = ebind (comm_number v) (\<lambda>n. case n of
       None \<Rightarrow> Inr None
     | Some f \<Rightarrow> ebind (strip_or [] source) (\<lambda>s. Inr (Some (if s = FLEX_SOURCE then f else fneg f))))"

text \<open>\<open>commission_read_sql\<close>: what every reader returns for the stored value.\<close>

definition commission_read :: "pyfloat \<Rightarrow> pyfloat" where
  "commission_read f = fneg f"

definition zero_to_none :: "pyval \<Rightarrow> pyval" where
  "zero_to_none v = (if v = PNone \<or> (case v of PStr s \<Rightarrow> strip s = [] | _ \<Rightarrow> False) then PNone
     else case py_float v of Inr (Fin q) \<Rightarrow> if q = 0 then PNone else v | _ \<Rightarrow> v)"

definition float_val :: "pyfloat option \<Rightarrow> pyval" where
  "float_val f = (case f of None \<Rightarrow> PNone | Some x \<Rightarrow> PFloat x)"

definition coalesce :: "pyval \<Rightarrow> pyval \<Rightarrow> pyval" where
  "coalesce a b = (if a = PNone then b else a)"

definition merge_commission :: "commission_row \<Rightarrow> commission_row \<Rightarrow> commission_row" where
  "merge_commission new old =
     \<lparr>cm_commission = coalesce (cm_commission new) (cm_commission old), cm_currency = coalesce (cm_currency new) (cm_currency old),
      cm_pnl = coalesce (cm_pnl new) (cm_pnl old), cm_yield = coalesce (cm_yield new) (cm_yield old),
      cm_redemption = coalesce (cm_redemption new) (cm_redemption old)\<rparr>"

definition put_commission :: "string \<Rightarrow> commission_row \<Rightarrow> (string \<times> commission_row) list \<Rightarrow> (string \<times> commission_row) list" where
  "put_commission ex r cs = (case map_of cs ex of
       None \<Rightarrow> cs @ [(ex, r)] | Some old \<Rightarrow> AList.update ex (merge_commission r old) cs)"

text \<open>The values of a row as their columns store them.\<close>

fun coerce_cols :: "env \<Rightarrow> (string \<times> pyval) list \<Rightarrow> exc + pydict" where
  "coerce_cols env [] = Inr []"
| "coerce_cols env ((c, v) # cs) =
     ebind (if v = PNone then Inr PNone else coerce env c v) (\<lambda>w. ebind (coerce_cols env cs) (\<lambda>r. Inr ((c, w) # r)))"

definition commission_of :: "pydict \<Rightarrow> commission_row" where
  "commission_of d = \<lparr>cm_commission = dget d ''commission'', cm_currency = dget d ''currency'', cm_pnl = dget d ''realized_pnl'',
     cm_yield = dget d ''yield_'', cm_redemption = dget d ''yield_redemption_date''\<rparr>"

definition upsert_commission ::
  "string \<Rightarrow> pyfloat option \<Rightarrow> pyval \<Rightarrow> pyval \<Rightarrow> pyval \<Rightarrow> pyval \<Rightarrow> bool \<Rightarrow> (fill_db, unit) tx" where
  "upsert_commission ex comm currency pnl yld redemption zero_keeps =
     (let z = (if zero_keeps then zero_to_none else id);
          cur = (if currency \<noteq> PNone \<and> strip (py_str currency) \<noteq> [] then currency else PNone)
      in (\<lambda>env. stmt (\<lambda>db. ebind (coerce_cols env [(''commission'', z (float_val comm)), (''currency'', cur),
                 (''realized_pnl'', z pnl), (''yield_'', z yld), (''yield_redemption_date'', z redemption)])
           (\<lambda>r. Inr ((), db\<lparr>commissions := put_commission ex (commission_of r) (commissions db)\<rparr>))) env))"

section \<open>Raw rows\<close>

definition text_key :: "pyval \<Rightarrow> bool" where
  "text_key v \<longleftrightarrow> v \<noteq> PNone \<and> v \<noteq> PStr []"

text \<open>The unique indexes: a non-empty exec id per table, and on the Flex table account and trade id.\<close>

definition raw_violation :: "raw_table \<Rightarrow> (int \<times> pydict) list \<Rightarrow> pydict \<Rightarrow> exc option" where
  "raw_violation tbl others r =
     (if text_key (dget r ''exec_id'') \<and> list_ex (\<lambda>q. dget (snd q) ''exec_id'' = dget r ''exec_id'') others
      then Some (UniqueViolation (None, Some ''exec_id_key''))
      else if tbl = RawFlex \<and> text_key (dget r ''trade_id'') \<and> dget r ''account_id'' \<noteq> PNone \<and>
              list_ex (\<lambda>q. dget (snd q) ''account_id'' = dget r ''account_id'' \<and> dget (snd q) ''trade_id'' = dget r ''trade_id'') others
      then Some (UniqueViolation (None, Some ''account_trade_id_key''))
      else None)"

definition put_raw :: "raw_table \<Rightarrow> (int \<times> pydict) list \<Rightarrow> fill_db \<Rightarrow> fill_db" where
  "put_raw tbl rows db = db\<lparr>raw := (raw db)(tbl := rows)\<rparr>"

definition insert_raw :: "raw_table \<Rightarrow> pydict \<Rightarrow> (fill_db, int) tx" where
  "insert_raw tbl cols = (\<lambda>env. stmt (\<lambda>db. ebind (coerce_cols env cols) (\<lambda>r.
       checked (raw_violation tbl (raw db tbl) r)
         (next_raw db tbl, (put_raw tbl (raw db tbl @ [(next_raw db tbl, r)]) db)
            \<lparr>next_raw := (next_raw db)(tbl := next_raw db tbl + 1)\<rparr>))) env)"

definition store_cols :: "pydict \<Rightarrow> pydict \<Rightarrow> pydict" where
  "store_cols new r = foldl (\<lambda>d cv. dset (fst cv) (snd cv) d) r new"

text \<open>\<open>UPDATE \<dots> WHERE pk = \<dots>\<close>: the number of rows changed.\<close>

definition update_raw :: "raw_table \<Rightarrow> int \<Rightarrow> pydict \<Rightarrow> (fill_db, int) tx" where
  "update_raw tbl pk cols = (\<lambda>env. stmt (\<lambda>db. case map_of (raw db tbl) pk of
       None \<Rightarrow> Inr (0, db)
     | Some old \<Rightarrow> ebind (coerce_cols env cols) (\<lambda>new.
         checked (raw_violation tbl (filter (\<lambda>q. fst q \<noteq> pk) (raw db tbl)) (store_cols new old))
           (1, put_raw tbl (put_assoc pk (store_cols new old) (raw db tbl)) db))) env)"

definition delete_raw :: "raw_table \<Rightarrow> int \<Rightarrow> (fill_db, int) tx" where
  "delete_raw tbl pk = stmt (\<lambda>db. Inr (if map_of (raw db tbl) pk = None then 0 else 1,
     put_raw tbl (filter (\<lambda>q. fst q \<noteq> pk) (raw db tbl)) db))"

section \<open>Shared wrappers\<close>

definition not_postgres :: "pydict option \<Rightarrow> bool" where
  "not_postgres cfg = (case cfg of None \<Rightarrow> True
     | Some c \<Rightarrow> c = [] \<or> (dget c ''sink'' \<noteq> PStr ''postgres'' \<and> \<not> truthy (dget c ''postgres'')))"

text \<open>
  The older writers of two databases: open both, run, commit; whatever raises is caught and
  answered with a fixed result.
\<close>

definition caught :: "'a \<Rightarrow> (exc + 'a) \<times> fill_db \<Rightarrow> 'a \<times> fill_db" where
  "caught dflt r = (case r of (Inl _, s) \<Rightarrow> (dflt, s) | (Inr a, s) \<Rightarrow> (a, s))"

definition both_open :: "env \<Rightarrow> bool \<Rightarrow> 'a \<Rightarrow> (fill_db \<Rightarrow> (exc + 'a) \<times> fill_db) \<Rightarrow> fill_db \<Rightarrow> 'a \<times> fill_db" where
  "both_open env golden dflt run db = (if \<not> connect_ok env \<or> \<not> golden then (dflt, db) else caught dflt (run db))"

text \<open>The strict writers: a WriteFailed when either database is not there, then one transaction on each.\<close>

definition strict_both ::
  "string \<Rightarrow> on_fk \<Rightarrow> (fill_db, 'a) tx \<Rightarrow> env \<Rightarrow> bool \<Rightarrow> conn_arg \<Rightarrow> fill_db \<Rightarrow> (write_error + 'a) \<times> fill_db" where
  "strict_both what fk body env golden arg =
     write_connection env arg False what (write_connection (env\<lparr>connect_ok := golden\<rparr>) arg True what (\<lambda>db.
       case two_phase golden_committed (tx_bind body (\<lambda>a. tx_return (True, a))) env db of
         (Inl e, s) \<Rightarrow> (Inl (as_write_error e what fk), s)
       | (Inr a, s) \<Rightarrow> (Inr a, s)))"

definition execution_noun :: "int \<Rightarrow> string" where
  "execution_noun aid = ''execution '' @ int_str aid"

section \<open>Replacing the splits\<close>

definition replace_execution_fill_splits :: "env \<Rightarrow> bool \<Rightarrow> pydict option \<Rightarrow> int \<Rightarrow> pyval \<Rightarrow> fill_db \<Rightarrow> bool \<times> fill_db" where
  "replace_execution_fill_splits env golden cfg aid body db = (case body of
       PNone \<Rightarrow> (True, db)
     | PList items \<Rightarrow>
         if not_postgres cfg then (False, db)
         else (case raw_table_pk aid of (tbl, pk) \<Rightarrow>
           both_open env golden False (two_phase env_committed
             (tx_bind (apply_fill_splits tbl pk items) (\<lambda>ok. tx_return (ok, ok))) env) db)
     | _ \<Rightarrow> (False, db))"

section \<open>Patching the attribution\<close>

definition EXECUTION_PATCHABLE :: "string list" where
  "EXECUTION_PATCHABLE = [''strategy_opportunity_id'', ''trade_id'', ''fill_splits'']"

definition OPPORTUNITY_ONLY :: string where
  "OPPORTUNITY_ONLY = ''A fill is attributed to a trade (trade_id); its opportunity is the trade's. Send trade_id.''"

text \<open>The validated patch: touches the whole-fill row, trade, opportunity, splits (None: not sent).\<close>

type_synonym fill_patch = "bool \<times> int option \<times> int option \<times> pyval list option"

definition patch_fill_args :: "pyval \<Rightarrow> exc + fill_patch" where
  "patch_fill_args body =
     ebind (check_fields body EXECUTION_PATCHABLE ''execution'') (\<lambda>d.
     ebind (sent_field d ''strategy_opportunity_id'' (\<lambda>v. row_id v ''strategy_opportunity_id'' True)) (\<lambda>opp.
     ebind (sent_field d ''trade_id'' (\<lambda>v. row_id v ''trade_id'' True)) (\<lambda>trade.
     ebind (sent_field d ''fill_splits'' (\<lambda>v. ebind (list_value v ''fill_splits'') (\<lambda>xs.
         if list_ex (\<lambda>x. case x of PDict _ \<Rightarrow> False | _ \<Rightarrow> True) xs
         then invalid ''fill_splits must be a list of {trade_id, quantity}.'' else Inr xs))) (\<lambda>splits.
       let inst = (case trade of Some t \<Rightarrow> t | None \<Rightarrow> None); o1 = (case opp of Some x \<Rightarrow> x | None \<Rightarrow> None)
       in if inst = None \<and> o1 \<noteq> None then invalid OPPORTUNITY_ONLY
          else if splits \<noteq> None \<and> splits \<noteq> Some [] \<and> inst \<noteq> None
          then invalid ''A fill is attributed one way or the other: send fill_splits, or trade_id, not both.''
          else Inr (trade \<noteq> None, inst, o1, splits)))))"

text \<open>\<open>_execution_attribution\<close>: the attribution fields of one execution.\<close>

definition split_label :: "fill_db \<Rightarrow> attribution \<Rightarrow> pydict" where
  "split_label db a = (case map_of (fill_trades db) (te_trade a) of
       None \<Rightarrow> []
     | Some t \<Rightarrow> (case ft_label t of
           PStr s \<Rightarrow> if strip s \<noteq> [] then [(''trade_label'', PStr (strip s))] else []
         | _ \<Rightarrow> []))"

definition opp_of_trade :: "fill_db \<Rightarrow> int \<Rightarrow> pyval" where
  "opp_of_trade db t = (case map_of (fill_trades db) t of None \<Rightarrow> PNone | Some r \<Rightarrow> PInt (ft_opp r))"

definition split_item :: "fill_db \<Rightarrow> attribution \<Rightarrow> rat \<Rightarrow> pyval" where
  "split_item db a q = PDict ([(''trade_id'', PInt (te_trade a)), (''quantity'', PFloat (Fin q)),
     (''strategy_opportunity_id'', opp_of_trade db (te_trade a))] @ split_label db a)"

definition attribution_of :: "fill_db \<Rightarrow> int \<Rightarrow> string \<Rightarrow> string \<Rightarrow> pydict" where
  "attribution_of db aid acc ex =
     (let rows = sort_key te_trade (filter (of_fill acc ex) (attribs db));
          whole = filter (\<lambda>a. te_split a = None) rows
      in [(''account_executions_id'', PInt aid), (''account_id'', PStr acc),
          (''strategy_opportunity_id'', if whole = [] then PNone else opp_of_trade db (te_trade (last whole))),
          (''trade_id'', if whole = [] then PNone else PInt (te_trade (last whole))),
          (''fill_splits'', PList [split_item db a q. a \<leftarrow> rows, q \<leftarrow> (case te_split a of None \<Rightarrow> [] | Some q \<Rightarrow> [q])])])"

definition split_refusal :: "string \<Rightarrow> string" where
  "split_refusal acc = ''fill_splits must name distinct trades of account '' @ acc
     @ '', each with a non-zero quantity, adding up to the fill's quantity.''"

definition patch_checks :: "fill_patch \<Rightarrow> string \<Rightarrow> string \<Rightarrow> (fill_db, unit) tx" where
  "patch_checks p acc ex = (case p of (_, inst, opp, splits) \<Rightarrow> (case inst of
       None \<Rightarrow> tx_return ()
     | Some t \<Rightarrow> tx_bind (instance_problem t acc opp) (\<lambda>problem. case problem of
           Some m \<Rightarrow> tx_raise (Write (Invalid m))
         | None \<Rightarrow>
             if splits \<noteq> None then tx_return ()
             else tx_bind (split_count acc ex) (\<lambda>n.
               if n \<noteq> 0
               then tx_raise (Write (Conflict (''This fill is split across '' @ plural n ''trade'' ''trades''
                      @ ''; send fill_splits: [] with the trade to replace the split.'')))
               else tx_return ()))))"

text \<open>The patch on the fill with this account and exec id.\<close>

definition patch_fill_on :: "int \<Rightarrow> raw_table \<Rightarrow> int \<Rightarrow> fill_patch \<Rightarrow> string \<Rightarrow> string \<Rightarrow> (fill_db, pydict) tx" where
  "patch_fill_on aid tbl pk p acc ex = (case p of (touches, inst, opp, splits) \<Rightarrow>
     if ex = [] \<and> (touches \<or> splits \<noteq> None)
     then tx_raise (Write (Invalid (''Execution '' @ int_str aid @ '' has no exec_id; it cannot be attributed.'')))
     else tx_bind (patch_checks p acc ex) (\<lambda>_.
       tx_bind (case splits of
           None \<Rightarrow> tx_return ()
         | Some xs \<Rightarrow> tx_bind (apply_fill_splits tbl pk xs) (\<lambda>ok.
             if ok then tx_return () else tx_raise (Write (Invalid (split_refusal acc))))) (\<lambda>_.
       tx_bind (if touches then set_whole_attribution acc ex inst else tx_return ()) (\<lambda>_.
       query (\<lambda>db. attribution_of db aid acc ex)))))"

definition no_execution :: "int \<Rightarrow> (fill_db, 'a) tx" where
  "no_execution aid = tx_raise (Write (NotFound (''No execution '' @ int_str aid @ ''.'')))"

definition patch_fill_body :: "int \<Rightarrow> fill_patch \<Rightarrow> (fill_db, pydict) tx" where
  "patch_fill_body aid p = (case raw_table_pk aid of (tbl, pk) \<Rightarrow>
     tx_bind (fill_key tbl pk) (\<lambda>k. case k of
         None \<Rightarrow> no_execution aid
       | Some (acc, ex, _) \<Rightarrow> patch_fill_on aid tbl pk p acc ex))"

definition patch_execution :: "env \<Rightarrow> bool \<Rightarrow> conn_arg \<Rightarrow> int \<Rightarrow> pyval \<Rightarrow> fill_db \<Rightarrow> (exc + pydict) \<times> fill_db" where
  "patch_execution env golden arg aid body db = (case patch_fill_args body of
       Inl e \<Rightarrow> (Inl e, db)
     | Inr p \<Rightarrow> (case arg of
           ConnConfig _ \<Rightarrow> raising (strict_both (execution_noun aid) FkInvalid (patch_fill_body aid p) env golden arg db)
         | _ \<Rightarrow> (Inl (Write (Failed (''Cannot write '' @ execution_noun aid
                    @ '': the status config is needed (it spans two databases).'') False)), db)))"

section \<open>Deleting an execution\<close>

definition delete_execution_body :: "int \<Rightarrow> (fill_db, bool \<times> bool) tx" where
  "delete_execution_body aid = (case raw_table_pk aid of (tbl, pk) \<Rightarrow>
     tx_bind (fill_key tbl pk) (\<lambda>k.
     tx_bind (case k of
         Some (_, ex, _) \<Rightarrow> if ex = [] then tx_return ()
             else update (\<lambda>db. db\<lparr>commissions := AList.delete ex (commissions db)\<rparr>)
       | None \<Rightarrow> tx_return ()) (\<lambda>_.
     tx_bind (delete_raw tbl pk) (\<lambda>n.
     if n = 0 then tx_return (False, False)
     else (case k of
         None \<Rightarrow> tx_return (True, True)
       | Some (acc, ex, _) \<Rightarrow> tx_bind (drop_attribution_if_last acc ex) (\<lambda>_. tx_return (True, True)))))))"

definition delete_one_execution :: "env \<Rightarrow> bool \<Rightarrow> pydict option \<Rightarrow> int \<Rightarrow> fill_db \<Rightarrow> bool \<times> fill_db" where
  "delete_one_execution env golden cfg aid db =
     (if not_postgres cfg then (False, db)
      else both_open env golden False (two_phase golden_committed (delete_execution_body aid) env) db)"

definition link_count :: "int \<Rightarrow> (fill_db, int) tx" where
  "link_count aid = query (\<lambda>db. int (length (filter (\<lambda>l. fst l = aid \<or> snd l = aid) (stock_links db))))"

definition delete_unused_commission :: "string \<Rightarrow> (fill_db, unit) tx" where
  "delete_unused_commission ex = update (\<lambda>db.
     if list_ex (\<lambda>t. has_row (\<lambda>r. dget r ''exec_id'' = PStr ex) t db) GOLDEN_RAW_TABLES then db
     else db\<lparr>commissions := AList.delete ex (commissions db)\<rparr>)"

definition deleted_fill :: "int \<Rightarrow> int \<Rightarrow> pydict" where
  "deleted_fill aid n = [(''deleted'', PStr ''hard''), (''account_executions_id'', PInt aid), (''allocations_removed'', PInt n)]"

definition delete_execution_strict_body :: "int \<Rightarrow> (fill_db, pydict) tx" where
  "delete_execution_strict_body aid = (case raw_table_pk aid of (tbl, pk) \<Rightarrow>
     tx_bind (fill_key tbl pk) (\<lambda>k. case k of
         None \<Rightarrow> no_execution aid
       | Some (acc, ex, _) \<Rightarrow>
           tx_bind (link_count aid) (\<lambda>links.
           if links \<noteq> 0
           then tx_raise (Write (Conflict (''This execution is in ''
                  @ plural links ''option/stock link'' ''option/stock links'' @ ''; unlink it first.'')))
           else tx_bind (delete_raw tbl pk) (\<lambda>n.
           if n = 0 then no_execution aid
           else tx_bind (drop_attribution_if_last acc ex) (\<lambda>removed.
             tx_bind (if ex = [] then tx_return () else delete_unused_commission ex) (\<lambda>_.
             tx_return (deleted_fill aid removed)))))))"

definition delete_execution_strict :: "env \<Rightarrow> bool \<Rightarrow> conn_arg \<Rightarrow> int \<Rightarrow> fill_db \<Rightarrow> (exc + pydict) \<times> fill_db" where
  "delete_execution_strict env golden arg aid db = (case arg of
       ConnConfig _ \<Rightarrow>
         raising (strict_both (execution_noun aid) FkConflict (delete_execution_strict_body aid) env golden arg db)
     | _ \<Rightarrow> (Inl (Write (Failed (''Cannot delete '' @ execution_noun aid
                @ '': the status config is needed (it spans two databases).'') False)), db))"

end
