(* ===== verification/Fill_Imports.thy ===== *)
theory Fill_Imports
  imports Fill_Writers
begin

text \<open>
  Executions entering and changing: the manual insert and edit, the import of a list of rows from
  TWS, Flex and the journal, and the commission report (\<open>portfolio/reader/accounts.py\<close>).
  \<open>uuid4().hex\<close> is an argument.
\<close>

section \<open>The moment of an execution\<close>

text \<open>
  \<open>_exec_time_to_dt\<close>: a number of seconds, or a text of one, becomes a datetime, None when Python
  answers ValueError; beyond the range of the platform's clock it raises something the callers do
  not catch there.
\<close>

definition clock_range :: "rat \<Rightarrow> bool" where
  "clock_range q \<longleftrightarrow> - 67768040609740800 \<le> q \<and> q < 67768036191676800"

definition unix_dt :: "pyfloat \<Rightarrow> exc + pyval" where
  "unix_dt f = (case fromtimestamp f of
       Some t \<Rightarrow> Inr (PDatetime t)
     | None \<Rightarrow> (case f of
           Fin q \<Rightarrow> if clock_range q then Inr PNone else Inl (PyErr OverflowErr)
         | NaN \<Rightarrow> Inr PNone
         | _ \<Rightarrow> Inl (PyErr OverflowErr)))"

definition exec_time_to_dt :: "pyval \<Rightarrow> exc + pyval" where
  "exec_time_to_dt v = (case v of
       PBool b \<Rightarrow> unix_dt (Fin (if b then 1 else 0))
     | PInt i \<Rightarrow> unix_dt (Fin (of_int i))
     | PFloat f \<Rightarrow> unix_dt f
     | PStr s \<Rightarrow> if strip s = [] then Inr v
                 else (case parse_float (strip s) of None \<Rightarrow> Inr PNone | Some f \<Rightarrow> unix_dt f)
     | _ \<Rightarrow> Inr v)"

text \<open>A raw extra that is not text is stored as JSON; an empty one as NULL.\<close>

definition raw_extra_text :: "pyval \<Rightarrow> exc + pyval" where
  "raw_extra_text v = (case v of
       PNone \<Rightarrow> Inr PNone
     | PStr s \<Rightarrow> Inr v
     | _ \<Rightarrow> if truthy v
            then (case json_dumps v of Inl e \<Rightarrow> Inl (PyErr e) | Inr s \<Rightarrow> Inr (PStr s))
            else Inr PNone)"

section \<open>Adding one execution\<close>

definition MANUAL_COLS :: "string list" where
  "MANUAL_COLS = [''account_id'', ''exec_id'', ''exec_time'', ''symbol'', ''sec_type'', ''side'', ''quantity'', ''price'',
     ''source'', ''expiry'', ''strike'', ''option_right'', ''exchange'', ''order_id'', ''cum_qty'', ''contract_key'', ''raw_extra'']"

text \<open>The columns sent, read from the body unless given.\<close>

definition cols_from :: "string list \<Rightarrow> pydict \<Rightarrow> pydict \<Rightarrow> pydict" where
  "cols_from cols given body = map (\<lambda>c. (c, if dhas given c then dget given c else dget body c)) cols"

definition or_default :: "string \<Rightarrow> string \<Rightarrow> string" where
  "or_default dflt s = (if s = [] then dflt else s)"

text \<open>The raw row and the attribution asked for; None: the writer refuses the body and returns None.\<close>

definition insert_fill_args :: "string \<Rightarrow> pydict \<Rightarrow> exc + (pydict \<times> int option \<times> int option) option" where
  "insert_fill_args uid body =
     ebind (strip_or [] (dget body ''symbol'')) (\<lambda>sy.
     ebind (strip_or ''STK'' (dget body ''sec_type'')) (\<lambda>sec.
     ebind (strip_or [] (dget body ''side'')) (\<lambda>side.
     if dget body ''quantity'' = PNone \<or> dget body ''price'' = PNone then Inr None
     else ebind (strip_or [] (dget body ''exec_id'')) (\<lambda>ex.
     ebind (strip_or ''manual'' (dget body ''source'')) (\<lambda>src.
     ebind (raw_extra_text (dget body ''raw_extra'')) (\<lambda>extra.
     case direct_instance body of
       Inl e \<Rightarrow> if e = OverflowErr then Inl (PyErr e) else Inr None
     | Inr (_, trade, opp) \<Rightarrow>
         if trade = None \<and> opp \<noteq> None then Inr None
         else ebind (exec_time_to_dt (dget body ''time'')) (\<lambda>dt.
           Inr (Some (cols_from MANUAL_COLS
             [(''account_id'', py_or (dget body ''account_id'') (PStr [])),
              (''exec_id'', PStr (or_default (''manual_'' @ uid) ex)), (''exec_time'', dt), (''symbol'', PStr sy),
              (''sec_type'', PStr (or_default ''STK'' (upper sec))), (''side'', PStr (upper side)),
              (''source'', PStr (or_default ''manual'' src)), (''raw_extra'', extra)] body, trade, opp)))))))))"

definition journal_source :: "pyval \<Rightarrow> bool" where
  "journal_source v \<longleftrightarrow> v = PStr ''journal_closed''"

definition lift_exc :: "exc + 'a \<Rightarrow> (fill_db, 'a) tx" where
  "lift_exc r = (case r of Inl e \<Rightarrow> tx_raise e | Inr a \<Rightarrow> tx_return a)"

definition insert_fill_body :: "pydict \<Rightarrow> pydict \<Rightarrow> int option \<Rightarrow> int option \<Rightarrow> (fill_db, bool \<times> int option) tx" where
  "insert_fill_body body row trade opp =
     (let tbl = (if journal_source (dget row ''source'') then RawJournal else RawTws);
          ex = (case dget row ''exec_id'' of PStr s \<Rightarrow> s | _ \<Rightarrow> []);
          acc = strip (py_str (dget row ''account_id''));
          refused = tx_return (False, None)
      in tx_bind (insert_raw tbl row) (\<lambda>pk.
         let aid = view_id tbl pk; currency = dget body ''currency''
         in tx_bind (if dget body ''commission'' \<noteq> PNone \<or> dget body ''realized_pnl'' \<noteq> PNone
                        \<or> truthy currency \<and> strip (py_str currency) \<noteq> []
                     then tx_bind (lift_exc (stored_commission (dget body ''commission'') PNone)) (\<lambda>c.
                            upsert_commission ex c currency (dget body ''realized_pnl'') PNone PNone False)
                     else tx_return ()) (\<lambda>_.
         tx_bind (case trade of
               None \<Rightarrow> tx_return True
             | Some t \<Rightarrow> tx_bind (instance_problem t acc opp) (\<lambda>p.
                 if p \<noteq> None then tx_return False
                 else tx_bind (set_whole_attribution acc ex (Some t)) (\<lambda>_. tx_return True))) (\<lambda>ok.
         if \<not> ok then refused
         else (case dget body ''fill_splits'' of
             PNone \<Rightarrow> tx_return (True, Some aid)
           | PList xs \<Rightarrow> (case raw_table_pk aid of (t2, pk2) \<Rightarrow>
               tx_bind (apply_fill_splits t2 pk2 xs) (\<lambda>done. if done then tx_return (True, Some aid) else refused))
           | _ \<Rightarrow> refused)))))"

definition insert_one_execution :: "env \<Rightarrow> bool \<Rightarrow> string \<Rightarrow> pydict option \<Rightarrow> pydict \<Rightarrow> fill_db \<Rightarrow> (exc + int option) \<times> fill_db" where
  "insert_one_execution env golden uid cfg body db =
     (if not_postgres cfg then (Inr None, db)
      else (case insert_fill_args uid body of
          Inl e \<Rightarrow> (Inl e, db)
        | Inr None \<Rightarrow> (Inr None, db)
        | Inr (Some (row, trade, opp)) \<Rightarrow> map_prod Inr id
            (both_open env golden None (two_phase golden_committed (insert_fill_body body row trade opp) env) db)))"

section \<open>Editing one execution\<close>

definition EXEC_COLS :: "string list" where
  "EXEC_COLS = [''exec_time'', ''symbol'', ''sec_type'', ''side'', ''quantity'', ''price'', ''account_id'', ''source'',
     ''expiry'', ''strike'', ''option_right'', ''exchange'', ''order_id'', ''cum_qty'', ''contract_key'']"

definition COMMISSION_KEYS :: "string list" where
  "COMMISSION_KEYS = [''commission'', ''realized_pnl'', ''currency'']"

fun changed_cols :: "pydict \<Rightarrow> string list \<Rightarrow> exc + pydict" where
  "changed_cols body [] = Inr []"
| "changed_cols body (k # ks) =
     (if k = ''exec_time''
      then (let v = (if dget body ''exec_time'' \<noteq> PNone then dget body ''exec_time'' else dget body ''time'')
            in if v = PNone then changed_cols body ks
               else ebind (exec_time_to_dt v) (\<lambda>dt. ebind (changed_cols body ks) (\<lambda>r. Inr ((k, dt) # r))))
      else if \<not> dhas body k then changed_cols body ks
      else ebind (changed_cols body ks) (\<lambda>r. Inr ((k, dget body k) # r)))"

text \<open>An id that does not convert reads as a request to clear the attribution.\<close>

definition edit_instance :: "pydict \<Rightarrow> exc + (bool \<times> int option \<times> int option)" where
  "edit_instance body = (case direct_instance body of
       Inr d \<Rightarrow> Inr d
     | Inl e \<Rightarrow> if e = OverflowErr then Inl (PyErr e) else Inr (True, None, None))"

definition new_account_of :: "pydict \<Rightarrow> string \<Rightarrow> string" where
  "new_account_of body old = (if dget body ''account_id'' \<noteq> PNone then strip (py_str (dget body ''account_id'')) else old)"

definition is_attributed :: "string \<Rightarrow> string \<Rightarrow> (fill_db, bool) tx" where
  "is_attributed acc ex = query (\<lambda>db. list_ex (of_fill acc ex) (attribs db))"

text \<open>Why the trade cannot take the fill, as the edit asks.\<close>

definition edit_problem :: "pydict \<Rightarrow> int \<Rightarrow> int option \<Rightarrow> string \<Rightarrow> string \<Rightarrow> (fill_db, bool) tx" where
  "edit_problem body t opp acc ex =
     tx_bind (instance_problem t acc opp) (\<lambda>p.
     if p \<noteq> None \<or> truthy (dget body ''fill_splits'') then tx_return True
     else if dhas body ''fill_splits'' then tx_return False
     else tx_bind (split_count acc ex) (\<lambda>n. tx_return (n \<noteq> 0)))"

definition edit_attribution :: "pydict \<Rightarrow> bool \<times> int option \<times> int option \<Rightarrow> string \<Rightarrow> string \<Rightarrow> (fill_db, bool) tx" where
  "edit_attribution body d acc ex = (case d of (touches, inst, opp) \<Rightarrow>
     if \<not> touches then tx_return True
     else if ex = [] then tx_return False
     else tx_bind (case inst of None \<Rightarrow> tx_return False | Some t \<Rightarrow> edit_problem body t opp acc ex) (\<lambda>bad.
       if bad then tx_return False
       else tx_bind (set_whole_attribution acc ex inst) (\<lambda>_. tx_return True)))"

definition edit_commission :: "int \<Rightarrow> raw_table \<Rightarrow> int \<Rightarrow> pydict \<Rightarrow> (fill_db, unit) tx" where
  "edit_commission aid tbl pk body =
     (if \<not> list_ex (dhas body) COMMISSION_KEYS then tx_return ()
      else tx_bind (query (\<lambda>db. case map_of (raw db tbl) pk of None \<Rightarrow> PNone | Some r \<Rightarrow> dget r ''exec_id'')) (\<lambda>v.
        let stored = (case v of PStr s \<Rightarrow> if strip s \<noteq> [] then s else [] | _ \<Rightarrow> []);
            ex = (if stored = [] then ''manual_'' @ int_str aid else stored)
        in tx_bind (if stored = [] then update_raw tbl pk [(''exec_id'', PStr ex)] else tx_return 0) (\<lambda>_.
           tx_bind (lift_exc (stored_commission (dget body ''commission'') PNone)) (\<lambda>c.
           upsert_commission ex c (dget body ''currency'') (dget body ''realized_pnl'') PNone PNone False))))"

definition edit_fill_body ::
  "int \<Rightarrow> pydict \<Rightarrow> pydict \<Rightarrow> bool \<times> int option \<times> int option \<Rightarrow> (fill_db, bool \<times> bool) tx" where
  "edit_fill_body aid body cols d = (case raw_table_pk aid of (tbl, pk) \<Rightarrow>
     let no = tx_return (False, False)
     in tx_bind (fill_key tbl pk) (\<lambda>k. case k of
         None \<Rightarrow> no
       | Some (old, ex, _) \<Rightarrow> let acc = new_account_of body old in
           tx_bind (if acc \<noteq> old \<and> ex \<noteq> [] then is_attributed old ex else tx_return False) (\<lambda>moved.
           if moved then no
           else tx_bind (if cols \<noteq> [] then update_raw tbl pk cols else tx_return 1) (\<lambda>n.
           if n = 0 then no
           else if cols = [] \<and> \<not> list_ex (dhas body) COMMISSION_KEYS \<and> \<not> dhas body ''fill_splits'' \<and> \<not> fst d then no
           else tx_bind (case dget body ''fill_splits'' of
                 PNone \<Rightarrow> tx_return True
               | PList xs \<Rightarrow> apply_fill_splits tbl pk xs
               | _ \<Rightarrow> tx_return False) (\<lambda>ok.
           if \<not> ok then no
           else tx_bind (edit_attribution body d acc ex) (\<lambda>ok2.
           if \<not> ok2 then no
           else tx_bind (edit_commission aid tbl pk body) (\<lambda>_. tx_return (True, True))))))))"

definition update_one_execution :: "env \<Rightarrow> bool \<Rightarrow> pydict option \<Rightarrow> int \<Rightarrow> pydict \<Rightarrow> fill_db \<Rightarrow> (exc + bool) \<times> fill_db" where
  "update_one_execution env golden cfg aid body db =
     (if not_postgres cfg then (Inr False, db)
      else (case ebind (changed_cols body EXEC_COLS) (\<lambda>cols. ebind (edit_instance body) (\<lambda>d. Inr (cols, d))) of
          Inl e \<Rightarrow> (Inl e, db)
        | Inr (cols, d) \<Rightarrow>
            if fst (snd d) = None \<and> snd (snd d) \<noteq> None then (Inr False, db)
            else map_prod Inr id (both_open env golden False
              (two_phase golden_committed (edit_fill_body aid body cols d) env) db)))"

section \<open>The import of rows\<close>

definition IMPORT_COLS :: "string list" where
  "IMPORT_COLS = [''account_id'', ''exec_id'', ''exec_time'', ''symbol'', ''sec_type'', ''side'', ''quantity'', ''price'',
     ''source'', ''expiry'', ''strike'', ''option_right'', ''exchange'', ''order_id'', ''cum_qty'', ''contract_key'',
     ''asset_category'', ''sub_category'', ''description'', ''conid'', ''security_id'', ''security_id_type'', ''cusip'',
     ''isin'', ''figi'', ''listing_exchange'', ''underlying_conid'', ''underlying_symbol'', ''underlying_security_id'',
     ''underlying_listing_exchange'', ''issuer'', ''issuer_country_code'', ''trade_id'', ''related_trade_id'',
     ''report_date'', ''trade_date'', ''settle_date_target'', ''transaction_type'', ''multiplier'',
     ''principal_adjust_factor'', ''proceeds'', ''taxes'', ''net_cash'', ''close_price'', ''open_close_indicator'',
     ''notes'', ''cost'', ''fifo_pnl_realized'', ''mtm_pnl'', ''trade_money'', ''fx_rate_to_base'', ''acct_alias'',
     ''model'', ''raw_extra'']"

definition TWS_SOURCES :: "string list" where
  "TWS_SOURCES = [''tws_event'', ''tws_client'']"

definition blank :: "pyval \<Rightarrow> bool" where
  "blank v \<longleftrightarrow> \<not> truthy v \<or> strip (py_str v) = []"

definition import_exec_id :: "pydict \<Rightarrow> pyval" where
  "import_exec_id r =
     (if dget r ''source'' = PStr FLEX_SOURCE \<and> blank (dget r ''exec_id'') \<and> truthy (dget r ''account_id'') \<and> truthy (dget r ''trade_id'')
      then PStr (''flex_'' @ py_str (dget r ''account_id'') @ ''_'' @ py_str (dget r ''trade_id''))
      else if blank (dget r ''exec_id'') then PNone else dget r ''exec_id'')"

definition import_time :: "pyval \<Rightarrow> pyval" where
  "import_time v =
     (let num = (\<lambda>f. case fromtimestamp f of None \<Rightarrow> PNone | Some t \<Rightarrow> PDatetime t)
      in case v of PBool b \<Rightarrow> num (Fin (if b then 1 else 0)) | PInt i \<Rightarrow> num (Fin (of_int i)) | PFloat f \<Rightarrow> num f | _ \<Rightarrow> v)"

definition import_trade_date :: "string \<Rightarrow> pyval \<Rightarrow> pyval \<Rightarrow> pyval" where
  "import_trade_date src given dt =
     (if src \<noteq> FLEX_SOURCE \<and> given = PNone
      then (case dt of PDatetime t \<Rightarrow> PDate (date_of_instant (instant t)) | _ \<Rightarrow> PNone)
      else given)"

text \<open>The row as it is sent to the database.\<close>

definition import_row :: "pydict \<Rightarrow> exc + pydict" where
  "import_row r =
     ebind (raw_extra_text (dget r ''raw_extra'')) (\<lambda>extra.
     ebind (strip_or [] (dget r ''sec_type'')) (\<lambda>sec.
     ebind (if upper sec = ''OPT'' then strip_or [] (dget r ''source'') else Inr []) (\<lambda>src1.
     ebind (if upper sec = ''OPT'' \<and> src1 \<in> set TWS_SOURCES
            then ebind (tws_execution_opt_key (dget r ''symbol'') (dget r ''expiry'') (dget r ''strike'') (dget r ''option_right''))
                   (\<lambda>k. Inr (case k of None \<Rightarrow> dget r ''contract_key'' | Some s \<Rightarrow> PStr s))
            else Inr (dget r ''contract_key'')) (\<lambda>key.
     ebind (strip_or [] (dget r ''source'')) (\<lambda>src.
       let dt = import_time (dget r ''time'')
       in Inr (cols_from IMPORT_COLS
            [(''exec_id'', import_exec_id r), (''exec_time'', dt), (''contract_key'', key), (''raw_extra'', extra),
             (''trade_date'', import_trade_date src (dget r ''trade_date'') dt)] r))))))"

definition import_table :: "pyval \<Rightarrow> raw_table" where
  "import_table source = (if source = PStr FLEX_SOURCE then RawFlex else if journal_source source then RawJournal else RawTws)"

record import_stats =
  is_inserted :: int
  is_skipped :: int
  is_missing_table :: bool
  is_inserted_ids :: "int list"
  is_skipped_ids :: "int list"

definition no_stats :: import_stats where
  "no_stats = \<lparr>is_inserted = 0, is_skipped = 0, is_missing_table = False, is_inserted_ids = [], is_skipped_ids = []\<rparr>"

definition count_inserted :: "int \<Rightarrow> import_stats \<Rightarrow> import_stats" where
  "count_inserted pk st = st\<lparr>is_inserted := is_inserted st + 1, is_inserted_ids := is_inserted_ids st @ [pk]\<rparr>"

text \<open>The row of a table that has this exec id.\<close>

definition twin_pk :: "raw_table \<Rightarrow> pyval \<Rightarrow> fill_db \<Rightarrow> int option" where
  "twin_pk tbl ex db = map_option fst (find (\<lambda>q. dget (snd q) ''exec_id'' = ex) (raw db tbl))"

text \<open>
  \<open>ON CONFLICT (exec_id) DO UPDATE SET\<close> every column, or \<open>DO NOTHING\<close> (then no id is returned): one
  statement, whose effect depends on what the table holds.
\<close>

definition by_state :: "('s \<Rightarrow> 'c) \<Rightarrow> ('c \<Rightarrow> ('s, 'a) tx) \<Rightarrow> ('s, 'a) tx" where
  "by_state g f = (\<lambda>env s. f (g (fst s)) env s)"

definition skip_row :: "pydict \<Rightarrow> (fill_db, 'a option) tx" where
  "skip_row cols = (\<lambda>env. stmt (\<lambda>db. ebind (coerce_cols env cols) (\<lambda>_. Inr (None, db))) env)"

definition upsert_raw :: "raw_table \<Rightarrow> pydict \<Rightarrow> (fill_db, unit) tx" where
  "upsert_raw tbl cols = by_state (twin_pk tbl (dget cols ''exec_id'')) (\<lambda>twin. case twin of
       None \<Rightarrow> tx_bind (insert_raw tbl cols) (\<lambda>_. tx_return ())
     | Some pk \<Rightarrow> tx_bind (update_raw tbl pk cols) (\<lambda>_. tx_return ()))"

definition insert_or_skip :: "raw_table \<Rightarrow> pydict \<Rightarrow> (fill_db, int option) tx" where
  "insert_or_skip tbl cols = by_state (twin_pk tbl (dget cols ''exec_id'')) (\<lambda>twin. case twin of
       None \<Rightarrow> tx_bind (insert_raw tbl cols) (\<lambda>pk. tx_return (Some pk))
     | Some _ \<Rightarrow> skip_row cols)"

text \<open>The statistics are kept for the TWS table, when the caller asked for them.\<close>

definition store_import :: "bool \<Rightarrow> pydict \<Rightarrow> import_stats \<Rightarrow> (fill_db, import_stats) tx" where
  "store_import want row st =
     (let tbl = import_table (dget row ''source''); counted = want \<and> tbl = RawTws; ex = dget row ''exec_id''
      in if truthy ex
         then (if tbl = RawFlex then tx_bind (upsert_raw tbl row) (\<lambda>_. tx_return st)
               else tx_bind (insert_or_skip tbl row) (\<lambda>pk.
                 if \<not> counted then tx_return st
                 else (case pk of
                     Some p \<Rightarrow> tx_return (count_inserted p st)
                   | None \<Rightarrow> tx_bind (query (twin_pk tbl ex)) (\<lambda>old. tx_return
                       (st\<lparr>is_skipped := is_skipped st + 1,
                           is_skipped_ids := is_skipped_ids st @ (case old of None \<Rightarrow> [] | Some p \<Rightarrow> [p])\<rparr>)))))
         else tx_bind (insert_raw tbl row) (\<lambda>p. tx_return (if counted then count_inserted p st else st)))"

text \<open>
  A missing table (SQLSTATE 42P01) rolls the transaction back to its start and the import goes on
  with the next row; any other exception ends it.
\<close>

definition missing_table :: exc where
  "missing_table = OtherExc ''42P01''"

definition on_missing_table :: "fill_db \<Rightarrow> 'a \<Rightarrow> (fill_db, 'a) tx \<Rightarrow> (fill_db, 'a) tx" where
  "on_missing_table start dflt m = (\<lambda>env s. case m env s of
       (Inl e, s') \<Rightarrow> if e = missing_table then (Inr dflt, (start, snd s')) else (Inl e, s')
     | (Inr a, s') \<Rightarrow> (Inr a, s'))"

definition is_zero :: "pyval \<Rightarrow> bool" where
  "is_zero v \<longleftrightarrow> v = PBool False \<or> v = PInt 0 \<or> v = PFloat (Fin 0)"

definition has_meaningful_commission :: "pyval \<Rightarrow> bool \<Rightarrow> bool" where
  "has_meaningful_commission v is_numeric \<longleftrightarrow>
     \<not> (v = PNone \<or> is_numeric \<and> is_zero v \<or> \<not> is_numeric \<and> (\<not> truthy v \<or> strip (py_str v) = []))"

definition import_commission :: "pydict \<Rightarrow> pyval \<Rightarrow> (fill_db, unit) tx" where
  "import_commission r ex =
     (if truthy ex \<and> (list_ex (\<lambda>c. has_meaningful_commission (dget r c) True)
                         [''commission'', ''realized_pnl'', ''yield_'', ''yield_redemption_date'']
                      \<or> has_meaningful_commission (dget r ''currency'') False)
      then tx_bind (lift_exc (stored_commission (dget r ''commission'') (dget r ''source''))) (\<lambda>c.
             upsert_commission (py_str ex) c (dget r ''currency'') (dget r ''realized_pnl'') (dget r ''yield_'')
               (dget r ''yield_redemption_date'') True)
      else tx_return ())"

fun import_rows :: "fill_db \<Rightarrow> bool \<Rightarrow> pydict list \<Rightarrow> import_stats \<Rightarrow> (fill_db, import_stats) tx" where
  "import_rows start want [] st = tx_return st"
| "import_rows start want (r # rs) st = tx_bind (lift_exc (import_row r)) (\<lambda>row.
     tx_bind (on_missing_table start (st\<lparr>is_missing_table := want \<or> is_missing_table st\<rparr>) (store_import want row st)) (\<lambda>st'.
     tx_bind (import_commission r (dget row ''exec_id'')) (\<lambda>_. import_rows start want rs st')))"

definition write_account_executions_to_db ::
  "env \<Rightarrow> bool \<Rightarrow> pydict option \<Rightarrow> bool \<Rightarrow> pydict list \<Rightarrow> fill_db \<Rightarrow> (bool \<times> import_stats) \<times> fill_db" where
  "write_account_executions_to_db env golden cfg want rows db =
     (if not_postgres cfg \<or> \<not> golden then ((False, no_stats), db)
      else (case legacy_transaction (tx_bind (import_rows db want rows no_stats) (\<lambda>st. tx_return (True, st))) env db of
          (Inl _, s) \<Rightarrow> ((False, no_stats), s)
        | (Inr st, s) \<Rightarrow> ((True, st), s)))"

definition update_execution_commission ::
  "env \<Rightarrow> bool \<Rightarrow> pydict option \<Rightarrow> string \<Rightarrow> pyval \<Rightarrow> pyval \<Rightarrow> pyval \<Rightarrow> pyval \<Rightarrow> pyval \<Rightarrow> fill_db \<Rightarrow> bool \<times> fill_db" where
  "update_execution_commission env golden cfg ex commission pnl currency yld redemption db =
     (if ex = [] \<or> not_postgres cfg \<or> \<not> golden then (False, db)
      else caught False (legacy_transaction
        (tx_bind (lift_exc (stored_commission commission PNone)) (\<lambda>c.
         tx_bind (upsert_commission ex c currency pnl yld redemption True) (\<lambda>_. tx_return (True, True)))) env db))"

end
