(* ===== verification/Fill_Properties.thy ===== *)
theory Fill_Properties
  imports Fill_Imports
begin

text \<open>
  What every writer of executions keeps of the attributions, and what the successful run of each
  attribution statement leaves.
\<close>

section \<open>The attributions of a fill\<close>

definition fill_of :: "attribution \<Rightarrow> string \<times> string" where
  "fill_of a = (te_account a, te_exec a)"

definition wholes :: "attribution list \<Rightarrow> (string \<times> string) list" where
  "wholes as = map fill_of (filter (\<lambda>a. te_split a = None) as)"

text \<open>A fill is attributed one way: by at most one whole row, or by splits.\<close>

definition exclusive :: "attribution list \<Rightarrow> bool" where
  "exclusive as \<longleftrightarrow> distinct (wholes as) \<and> (\<forall>a\<in>set as. te_split a \<noteq> None \<longrightarrow> fill_of a \<notin> set (wholes as))"

definition distinct_trades :: "attribution list \<Rightarrow> bool" where
  "distinct_trades as \<longleftrightarrow> distinct (map (\<lambda>a. (fill_of a, te_trade a)) as)"

text \<open>Each row names a trade of the fill's account and, when it is a split, a quantity that is not zero.\<close>

definition sound_row :: "(int \<times> fill_trade) list \<Rightarrow> attribution \<Rightarrow> bool" where
  "sound_row ts a \<longleftrightarrow> te_split a \<noteq> Some 0 \<and>
     (case map_of ts (te_trade a) of None \<Rightarrow> False | Some t \<Rightarrow> ft_account t = te_account a)"

definition attribs_ok :: "fill_db \<Rightarrow> bool" where
  "attribs_ok db \<longleftrightarrow> exclusive (attribs db) \<and> distinct_trades (attribs db) \<and> list_all (sound_row (fill_trades db)) (attribs db)"

text \<open>The splits of a fill as the database lists them, and its whole-fill trade.\<close>

definition splits_of :: "fill_db \<Rightarrow> string \<Rightarrow> string \<Rightarrow> (int \<times> rat) list" where
  "splits_of db acc ex = [(te_trade a, q). a \<leftarrow> filter (of_fill acc ex) (attribs db), q \<leftarrow> (case te_split a of None \<Rightarrow> [] | Some q \<Rightarrow> [q])]"

definition whole_of :: "fill_db \<Rightarrow> string \<Rightarrow> string \<Rightarrow> int option" where
  "whole_of db acc ex = map_option te_trade (find (whole_row acc ex) (attribs db))"

lemma of_fill_iff: "of_fill acc ex a \<longleftrightarrow> fill_of a = (acc, ex)"
  by (auto simp: of_fill_def fill_of_def)

lemma fill_of_split [simp]: "fill_of (split_attrib acc ex iq) = (acc, ex)"
  and split_attrib_simps [simp]: "te_split (split_attrib acc ex iq) = Some (snd iq)" "te_trade (split_attrib acc ex iq) = fst iq"
    "te_account (split_attrib acc ex iq) = acc"
  by (simp_all add: fill_of_def split_attrib_def)

section \<open>Filtering keeps the rules\<close>

lemma wholes_filter: "wholes (filter p as) = map fill_of (filter (\<lambda>a. te_split a = None \<and> p a) as)"
  by (simp add: wholes_def conj_commute)

lemma wholes_append [simp]: "wholes (as @ bs) = wholes as @ wholes bs"
  by (simp add: wholes_def)

lemma set_wholes_filter: "set (wholes (filter p as)) \<subseteq> set (wholes as)"
  by (auto simp: wholes_def)

lemma exclusive_filter: "exclusive as \<Longrightarrow> exclusive (filter p as)"
proof -
  assume a: "exclusive as"
  have "wholes (filter p as) = map fill_of (filter p (filter (\<lambda>a. te_split a = None) as))"
    unfolding wholes_def filter_filter by (simp add: conj_commute)
  with a have "distinct (wholes (filter p as))"
    unfolding exclusive_def wholes_def by (metis distinct_map_filter)
  with a show ?thesis unfolding exclusive_def using set_wholes_filter [of p as] by fastforce
qed

lemma distinct_trades_filter: "distinct_trades as \<Longrightarrow> distinct_trades (filter p as)"
  by (simp add: distinct_trades_def distinct_map_filter)

lemma attribs_ok_filter: "attribs_ok db \<Longrightarrow> attribs_ok (db\<lparr>attribs := filter p (attribs db)\<rparr>)"
  by (auto simp: attribs_ok_def list_all_iff intro: exclusive_filter distinct_trades_filter)

lemma attribs_ok_same:
  "attribs db' = attribs db \<Longrightarrow> fill_trades db' = fill_trades db \<Longrightarrow> attribs_ok db' = attribs_ok db"
  by (simp add: attribs_ok_def)

section \<open>Statements on attributions\<close>

lemma attrib_violation_None:
  "attrib_violation db others a = None \<longleftrightarrow>
     sound_row (fill_trades db) a \<and>
     (\<forall>b\<in>set others. fill_of b = fill_of a \<longrightarrow> te_trade b \<noteq> te_trade a \<and> (te_split a = None \<longrightarrow> te_split b \<noteq> None))"
  by (auto simp: attrib_violation_def sound_row_def list_ex_iff of_fill_def fill_of_def split: option.splits if_splits)

lemma insert_attrib_ok:
  "tx_ok env (insert_attrib a) db u db' \<Longrightarrow>
     attrib_violation db (attribs db) a = None \<and> db' = db\<lparr>attribs := attribs db @ [a]\<rparr>"
  by (auto simp: insert_attrib_def dest!: tx_ok_stmtD)

lemma insert_attribs_ok:
  assumes "tx_ok env (tx_each (\<lambda>iq. insert_attrib (split_attrib acc ex iq)) ins) db u db'"
  shows "db' = db\<lparr>attribs := attribs db @ map (split_attrib acc ex) ins\<rparr> \<and>
     (distinct_trades (attribs db) \<longrightarrow> distinct_trades (attribs db')) \<and>
     list_all (\<lambda>iq. sound_row (fill_trades db) (split_attrib acc ex iq)) ins"
  using assms
proof (induction ins arbitrary: db)
  case (Cons iq ins)
  then obtain db1 where 1: "tx_ok env (insert_attrib (split_attrib acc ex iq)) db () db1"
    and 2: "tx_ok env (tx_each (\<lambda>iq. insert_attrib (split_attrib acc ex iq)) ins) db1 u db'"
    by (auto dest!: tx_ok_bindD)
  from insert_attrib_ok [OF 1] have db1: "db1 = db\<lparr>attribs := attribs db @ [split_attrib acc ex iq]\<rparr>"
    and v: "attrib_violation db (attribs db) (split_attrib acc ex iq) = None" by auto
  have "distinct_trades (attribs db) \<Longrightarrow> distinct_trades (attribs db1)"
    using v by (force simp: db1 distinct_trades_def attrib_violation_None)
  moreover have "sound_row (fill_trades db) (split_attrib acc ex iq)" using v by (simp add: attrib_violation_None)
  ultimately show ?case using Cons.IH [OF 2] by (auto simp: db1)
qed (simp add: distinct_trades_def)

lemma delete_attribs_ok:
  "tx_ok env (delete_attribs p) db u db' \<Longrightarrow> db' = db\<lparr>attribs := filter (\<lambda>a. \<not> p a) (attribs db)\<rparr>"
  by (auto simp: delete_attribs_def dest!: tx_ok_updateD)

text \<open>What replacing the splits leaves, when every statement succeeds.\<close>

lemma store_splits_ok:
  assumes "tx_ok env (store_splits acc ex ins) db u db'"
  shows "if ins = [] then db' = db\<lparr>attribs := filter (\<lambda>a. \<not> (of_fill acc ex a \<and> te_split a \<noteq> None)) (attribs db)\<rparr>
         else db' = db\<lparr>attribs := filter (\<lambda>a. \<not> of_fill acc ex a) (attribs db) @ map (split_attrib acc ex) ins\<rparr> \<and>
           (distinct_trades (attribs db) \<longrightarrow> distinct_trades (attribs db')) \<and>
           list_all (\<lambda>iq. sound_row (fill_trades db) (split_attrib acc ex iq)) ins"
proof (cases "ins = []")
  case True
  with assms show ?thesis by (auto simp: store_splits_def dest!: tx_ok_bindD delete_attribs_ok)
next
  case False
  let ?split = "\<lambda>a. of_fill acc ex a \<and> te_split a \<noteq> None"
  from assms False obtain db1 db2 where 1: "tx_ok env (delete_attribs ?split) db () db1"
    and 2: "tx_ok env (delete_attribs (whole_row acc ex)) db1 () db2"
    and 3: "tx_ok env (tx_each (\<lambda>iq. insert_attrib (split_attrib acc ex iq)) ins) db2 u db'"
    by (auto simp: store_splits_def set_whole_attribution_def dest!: tx_ok_bindD)
  have eq: "filter (\<lambda>x. (of_fill acc ex x \<longrightarrow> te_split x = None) \<and> \<not> whole_row acc ex x) as = filter (\<lambda>a. \<not> of_fill acc ex a) as" for as
    by (rule filter_cong) (auto simp: whole_row_def)
  from delete_attribs_ok [OF 1] delete_attribs_ok [OF 2]
  have db2: "db2 = db\<lparr>attribs := filter (\<lambda>a. \<not> of_fill acc ex a) (attribs db)\<rparr>" by (simp add: eq)
  from insert_attribs_ok [OF 3] False show ?thesis
    by (auto simp: db2 intro: distinct_trades_filter)
qed

lemma wholes_splits [simp]: "wholes (map (split_attrib acc ex) ins) = []"
  by (auto simp: wholes_def filter_empty_conv)

lemma store_splits_keeps:
  assumes "tx_ok env (store_splits acc ex ins) db u db'" and "attribs_ok db"
  shows "attribs_ok db'"
proof (cases "ins = []")
  case True
  with store_splits_ok [OF assms(1)] assms(2) show ?thesis by (simp add: attribs_ok_filter)
next
  case False
  let ?old = "filter (\<lambda>a. \<not> of_fill acc ex a) (attribs db)"
  from store_splits_ok [OF assms(1)] False have db': "db' = db\<lparr>attribs := ?old @ map (split_attrib acc ex) ins\<rparr>"
    and d: "distinct_trades (attribs db) \<Longrightarrow> distinct_trades (attribs db')"
    and s: "list_all (\<lambda>iq. sound_row (fill_trades db) (split_attrib acc ex iq)) ins" by auto
  have "exclusive ?old" using assms(2) by (simp add: attribs_ok_def exclusive_filter)
  moreover have "(acc, ex) \<notin> set (wholes ?old)" by (auto simp: wholes_def of_fill_iff)
  ultimately have "exclusive (attribs db')" by (auto simp: exclusive_def db')
  with assms(2) d s show ?thesis by (auto simp: attribs_ok_def db' list_all_iff)
qed

lemma upsert_whole_ok:
  assumes "tx_ok env (upsert_whole acc ex t) db u db'"
  shows "\<exists>as. db' = db\<lparr>attribs := as\<rparr> \<and>
     attrib_violation db (filter (\<lambda>b. \<not> whole_row acc ex b) (attribs db)) \<lparr>te_account = acc, te_exec = ex, te_trade = t, te_split = None\<rparr> = None \<and>
     as = (let a = \<lparr>te_account = acc, te_exec = ex, te_trade = t, te_split = None\<rparr>
           in if list_ex (whole_row acc ex) (attribs db) then map (\<lambda>b. if whole_row acc ex b then a else b) (attribs db)
              else attribs db @ [a])"
  using assms by (auto simp: upsert_whole_def Let_def dest!: tx_ok_stmtD)

text \<open>The one whole row of a fill, and the list without it.\<close>

lemma whole_split:
  assumes "exclusive as" and "list_ex (whole_row acc ex) as"
  shows "\<exists>us b vs. as = us @ b # vs \<and> whole_row acc ex b \<and> (\<forall>x\<in>set us \<union> set vs. \<not> whole_row acc ex x)"
proof -
  from assms(2) obtain us b vs where as: "as = us @ b # vs" "whole_row acc ex b" "\<forall>x\<in>set us. \<not> whole_row acc ex x"
    using split_list_first_prop [of as "whole_row acc ex"] by (auto simp: list_ex_iff)
  have "\<not> whole_row acc ex x" if "x \<in> set vs" for x
  proof
    assume x: "whole_row acc ex x"
    have "(acc, ex) \<in> set (wholes vs)" using that x by (force simp: wholes_def whole_row_def of_fill_iff)
    moreover have "wholes (us @ b # vs) = wholes us @ (acc, ex) # wholes vs"
      using as(2) by (simp add: wholes_def whole_row_def of_fill_iff)
    ultimately show False using assms(1) as(1) by (simp add: exclusive_def)
  qed
  with as show ?thesis by blast
qed

lemma whole_row_new [simp]: "whole_row acc ex \<lparr>te_account = acc, te_exec = ex, te_trade = t, te_split = None\<rparr>"
  by (simp add: whole_row_def of_fill_def)

lemma fill_of_new [simp]: "fill_of \<lparr>te_account = acc, te_exec = ex, te_trade = t, te_split = q\<rparr> = (acc, ex)"
  by (simp add: fill_of_def)

text \<open>After the upsert the fill's whole row is the one written; other rows stay where they were.\<close>

lemma upsert_whole_cases:
  assumes "tx_ok env (upsert_whole acc ex t) db u db'" and "exclusive (attribs db)"
  defines "a \<equiv> \<lparr>te_account = acc, te_exec = ex, te_trade = t, te_split = None\<rparr>"
  shows "\<exists>us vs. db' = db\<lparr>attribs := us @ a # vs\<rparr> \<and> (\<forall>x\<in>set us \<union> set vs. \<not> whole_row acc ex x) \<and>
     (\<forall>b\<in>set us \<union> set vs. fill_of b = (acc, ex) \<longrightarrow> te_trade b \<noteq> t) \<and> sound_row (fill_trades db) a \<and>
     (attribs db = us @ vs \<or> (\<exists>b. whole_row acc ex b \<and> attribs db = us @ b # vs))"
proof -
  from upsert_whole_ok [OF assms(1)]
  have v: "attrib_violation db (filter (\<lambda>b. \<not> whole_row acc ex b) (attribs db)) a = None"
    and db': "db' = db\<lparr>attribs := (if list_ex (whole_row acc ex) (attribs db)
        then map (\<lambda>b. if whole_row acc ex b then a else b) (attribs db) else attribs db @ [a])\<rparr>"
    by (auto simp: a_def Let_def)
  from v have clash: "\<forall>b\<in>set (attribs db). \<not> whole_row acc ex b \<longrightarrow> fill_of b = (acc, ex) \<longrightarrow> te_trade b \<noteq> t"
    and s: "sound_row (fill_trades db) a" by (auto simp: attrib_violation_None a_def)
  show ?thesis
  proof (cases "list_ex (whole_row acc ex) (attribs db)")
    case False
    then have none: "\<forall>x\<in>set (attribs db). \<not> whole_row acc ex x" by (auto simp: list_ex_iff)
    show ?thesis by (rule exI [of _ "attribs db"], rule exI [of _ "[]"]) (use False none clash s db' in auto)
  next
    case True
    from whole_split [OF assms(2) True] obtain us b vs where
      as: "attribs db = us @ b # vs" "whole_row acc ex b" "\<forall>x\<in>set us \<union> set vs. \<not> whole_row acc ex x" by blast
    then have "map (\<lambda>b. if whole_row acc ex b then a else b) (attribs db) = us @ a # vs"
      by (auto intro: map_idI)
    with True as clash s db' show ?thesis by (intro exI [of _ us] exI [of _ vs]) auto
  qed
qed

lemma upsert_whole_keeps:
  assumes run: "tx_ok env (upsert_whole acc ex t) db u db'" and ok: "attribs_ok db"
    and no_split: "\<forall>b\<in>set (attribs db). fill_of b = (acc, ex) \<longrightarrow> te_split b = None"
  shows "attribs_ok db'"
proof -
  let ?a = "\<lparr>te_account = acc, te_exec = ex, te_trade = t, te_split = None\<rparr>"
  from upsert_whole_cases [OF run] ok obtain us vs where
    db': "db' = db\<lparr>attribs := us @ ?a # vs\<rparr>"
    and none: "\<forall>x\<in>set us \<union> set vs. \<not> whole_row acc ex x"
    and clash: "\<forall>b\<in>set us \<union> set vs. fill_of b = (acc, ex) \<longrightarrow> te_trade b \<noteq> t"
    and s: "sound_row (fill_trades db) ?a"
    and old: "attribs db = us @ vs \<or> (\<exists>b. whole_row acc ex b \<and> attribs db = us @ b # vs)"
    by (auto simp: attribs_ok_def)
  have "us @ vs = filter (\<lambda>x. \<not> whole_row acc ex x) (attribs db)"
    using none old by (auto simp: filter_id_conv [THEN iffD2])
  then have rest: "exclusive (us @ vs)" "distinct_trades (us @ vs)" "list_all (sound_row (fill_trades db)) (us @ vs)"
    using ok by (simp_all add: attribs_ok_def exclusive_filter distinct_trades_filter list_all_iff)
  have here: "\<forall>b\<in>set us \<union> set vs. fill_of b \<noteq> (acc, ex)"
    using none no_split old by (auto simp: whole_row_def of_fill_iff)
  have "exclusive (us @ ?a # vs)"
    using rest(1) here by (auto simp: exclusive_def wholes_def)
  moreover have "distinct_trades (us @ ?a # vs)"
    using rest(2) here by (auto simp: distinct_trades_def)
  ultimately show ?thesis using rest(3) s by (simp add: attribs_ok_def db')
qed

section \<open>Successful runs\<close>

text \<open>The trade and quantity of each item of a split list.\<close>

definition asked_splits :: "pyval list \<Rightarrow> (int \<times> rat) list" where
  "asked_splits xs = [iq. x \<leftarrow> xs, iq \<leftarrow> (case split_request x of Inr (Some iq) \<Rightarrow> [iq] | _ \<Rightarrow> [])]"

lemma split_request_nonzero: "split_request x = Inr (Some (i, q)) \<Longrightarrow> q \<noteq> 0"
  by (auto simp: split_request_def Let_def split: pyval.splits sum.splits pyfloat.splits if_splits)

lemma split_items_ok:
  assumes "tx_ok env (split_items acc xs taken) db r db'"
  shows "db' = db \<and> (\<forall>ins. r = Some ins \<longrightarrow> ins = taken @ asked_splits xs \<and> length (asked_splits xs) = length xs \<and>
     list_all (\<lambda>iq. instance_problem_of db (fst iq) acc None = None) (asked_splits xs))"
  using assms
proof (induction xs arbitrary: taken db)
  case (Cons x xs)
  show ?case
  proof (cases "split_request x")
    case (Inr v)
    show ?thesis
    proof (cases v)
      case (Some iq)
      obtain i q where iq: "iq = (i, q)" by (cases iq)
      from Cons.prems Inr Some iq obtain p db1 where 1: "tx_ok env (instance_problem i acc None) db p db1"
        and 2: "tx_ok env (if p \<noteq> None then tx_return None else split_items acc xs (taken @ [(i, q)])) db1 r db'"
        by (auto dest!: tx_ok_bindD)
      from 1 have p: "p = instance_problem_of db i acc None" "db1 = db"
        by (auto simp: instance_problem_def dest!: tx_ok_queryD)
      have asked: "asked_splits (x # xs) = iq # asked_splits xs" using Inr Some by (simp add: asked_splits_def)
      show ?thesis
      proof (cases "p = None")
        case True
        with 2 p have "tx_ok env (split_items acc xs (taken @ [(i, q)])) db r db'" by simp
        from Cons.IH [OF this] p True asked iq show ?thesis by auto
      qed (use 2 p in auto)
    qed (use Cons.prems Inr in auto)
  qed (use Cons.prems in auto)
qed (simp add: asked_splits_def)

lemma fill_key_ok: "tx_ok env (fill_key tbl pk) db k db' \<Longrightarrow> db' = db \<and> k = map_option key_of_row (map_of (raw db tbl) pk)"
  by (auto simp: fill_key_def dest!: tx_ok_queryD)

definition valid_splits :: "string \<Rightarrow> pyfloat \<Rightarrow> pyval list \<Rightarrow> fill_db \<Rightarrow> bool" where
  "valid_splits acc expected xs db \<longleftrightarrow> distinct (map fst (asked_splits xs)) \<and>
     (xs = [] \<or> adds_up (sum_list (map snd (asked_splits xs))) expected) \<and> length (asked_splits xs) = length xs \<and>
     list_all (\<lambda>iq. instance_problem_of db (fst iq) acc None = None) (asked_splits xs)"

lemma apply_fill_splits_ok:
  assumes "tx_ok env (apply_fill_splits tbl pk xs) db ok db'"
  shows "if ok then \<exists>acc ex e. map_option key_of_row (map_of (raw db tbl) pk) = Some (acc, ex, e) \<and> ex \<noteq> [] \<and>
           valid_splits acc e xs db \<and> tx_ok env (store_splits acc ex (asked_splits xs)) db () db'
         else db' = db"
proof -
  from assms obtain k where k: "k = map_option key_of_row (map_of (raw db tbl) pk)"
    and run: "tx_ok env (case k of None \<Rightarrow> tx_return False | Some (acc, ex, expected) \<Rightarrow>
           if ex = [] then tx_return False
           else tx_bind (split_items acc xs []) (\<lambda>r. case r of
               None \<Rightarrow> tx_return False
             | Some ins \<Rightarrow>
                 if \<not> distinct (map fst ins) then tx_return False
                 else if ins \<noteq> [] \<and> \<not> adds_up (sum_list (map snd ins)) expected then tx_return False
                 else tx_bind (store_splits acc ex ins) (\<lambda>_. tx_return True))) db ok db'"
    by (auto simp: apply_fill_splits_def dest!: tx_ok_bindD fill_key_ok)
  show ?thesis
  proof (cases k)
    case (Some t)
    obtain acc ex e where t: "t = (acc, ex, e)" by (cases t)
    show ?thesis
    proof (cases "ex = []")
      case False
      with run Some t obtain r where items: "tx_ok env (split_items acc xs []) db r db"
        and rest: "tx_ok env (case r of None \<Rightarrow> tx_return False | Some ins \<Rightarrow>
                 if \<not> distinct (map fst ins) then tx_return False
                 else if ins \<noteq> [] \<and> \<not> adds_up (sum_list (map snd ins)) e then tx_return False
                 else tx_bind (store_splits acc ex ins) (\<lambda>_. tx_return True)) db ok db'"
        by (auto dest!: tx_ok_bindD dest: split_items_ok)
      from split_items_ok [OF items] rest False Some t k show ?thesis
        by (auto simp: valid_splits_def split: option.splits if_splits dest!: tx_ok_bindD)
    qed (use run Some t in auto)
  qed (use run in auto)
qed

lemma apply_fill_splits_keeps:
  "tx_ok env (apply_fill_splits tbl pk xs) db ok db' \<Longrightarrow> attribs_ok db \<Longrightarrow> attribs_ok db'"
  by (drule apply_fill_splits_ok) (auto split: if_splits dest: store_splits_keeps)

section \<open>Statements that leave the attributions alone\<close>

lemma put_raw_simps [simp]:
  "attribs (put_raw tbl rows db) = attribs db" "fill_trades (put_raw tbl rows db) = fill_trades db"
  "stock_links (put_raw tbl rows db) = stock_links db" "commissions (put_raw tbl rows db) = commissions db"
  "raw (put_raw tbl rows db) = (raw db)(tbl := rows)"
  by (simp_all add: put_raw_def)

text \<open>A body that changes only what is on the Golden Source.\<close>

definition golden_only :: "(fill_db, 'a) tx \<Rightarrow> bool" where
  "golden_only m \<longleftrightarrow> (\<forall>env db a db'. tx_ok env m db a db' \<longrightarrow> attribs db' = attribs db \<and> fill_trades db' = fill_trades db)"

named_theorems golden \<open>bodies that change only the Golden Source\<close>

lemma golden_onlyD: "golden_only m \<Longrightarrow> tx_ok env m db a db' \<Longrightarrow> attribs db' = attribs db \<and> fill_trades db' = fill_trades db"
  unfolding golden_only_def by blast

lemma golden_keeps: "golden_only m \<Longrightarrow> tx_inv attribs_ok m"
  by (rule tx_invI) (metis attribs_ok_same golden_onlyD)

lemma golden_return [golden]: "golden_only (tx_return a)" and golden_raise [golden]: "golden_only (tx_raise e)"
  by (simp_all add: golden_only_def)

lemma golden_query [golden]: "golden_only (query f)"
  by (auto simp: golden_only_def dest!: tx_ok_queryD)

lemma golden_bind [golden]: "golden_only m \<Longrightarrow> (\<And>a. golden_only (f a)) \<Longrightarrow> golden_only (tx_bind m f)"
  unfolding golden_only_def by (metis tx_ok_bindD)

lemma golden_if [golden]: "(b \<Longrightarrow> golden_only m) \<Longrightarrow> (\<not> b \<Longrightarrow> golden_only n) \<Longrightarrow> golden_only (if b then m else n)"
  by simp

lemma golden_option [golden]:
  "golden_only m \<Longrightarrow> (\<And>x. golden_only (f x)) \<Longrightarrow> golden_only (case v of None \<Rightarrow> m | Some x \<Rightarrow> f x)"
  by (cases v) simp_all

lemma golden_lift [golden]: "golden_only (lift_exc r)"
  by (cases r) (simp_all add: lift_exc_def golden)

lemma golden_stmt:
  "(\<And>env db a db'. f env db = Inr (a, db') \<Longrightarrow> attribs db' = attribs db \<and> fill_trades db' = fill_trades db) \<Longrightarrow>
   golden_only (\<lambda>env. stmt (f env) env)"
proof -
  assume f: "\<And>env db a db'. f env db = Inr (a, db') \<Longrightarrow> attribs db' = attribs db \<and> fill_trades db' = fill_trades db"
  have "tx_ok env (\<lambda>e. stmt (f e) e) db a db' \<longleftrightarrow> tx_ok env (stmt (f env)) db a db'" for env db a db'
    by (simp add: tx_ok_def)
  with f show ?thesis unfolding golden_only_def by (metis tx_ok_stmtD)
qed

lemma golden_upsert_commission [golden]: "golden_only (upsert_commission ex c cur pnl y r z)"
  unfolding upsert_commission_def Let_def by (rule golden_stmt) auto

lemma golden_insert_raw [golden]: "golden_only (insert_raw tbl cols)"
  unfolding insert_raw_def by (rule golden_stmt) auto

lemma golden_update_raw [golden]: "golden_only (update_raw tbl pk cols)"
  unfolding update_raw_def by (rule golden_stmt) (auto split: option.splits)

lemma golden_delete_raw [golden]: "golden_only (delete_raw tbl pk)"
  unfolding delete_raw_def golden_only_def by (auto dest!: tx_ok_stmtD split: if_splits)

lemma golden_commission_update [golden]: "golden_only (update (\<lambda>db. db\<lparr>commissions := f db\<rparr>))"
  by (auto simp: golden_only_def dest!: tx_ok_updateD)

lemma golden_unused_commission [golden]: "golden_only (delete_unused_commission ex)"
  by (auto simp: golden_only_def delete_unused_commission_def dest!: tx_ok_updateD)

lemma golden_any_table [golden]: "golden_only (any_table p ts)"
  by (induction ts) (simp_all add: golden)

lemma golden_fill_key [golden]: "golden_only (fill_key tbl pk)"
  by (simp add: fill_key_def golden)

lemma tx_ok_by_state: "tx_ok env (by_state g f) db a db' \<longleftrightarrow> tx_ok env (f (g db)) db a db'"
  by (simp add: tx_ok_def by_state_def)

lemma golden_by_state [golden]: "(\<And>x. golden_only (f x)) \<Longrightarrow> golden_only (by_state g f)"
  unfolding golden_only_def tx_ok_by_state by blast

lemma golden_skip_row [golden]: "golden_only (skip_row cols)"
  unfolding skip_row_def by (rule golden_stmt) auto

lemma golden_upsert_raw [golden]: "golden_only (upsert_raw tbl cols)"
  unfolding upsert_raw_def by (intro golden)

lemma golden_insert_or_skip [golden]: "golden_only (insert_or_skip tbl cols)"
  unfolding insert_or_skip_def by (intro golden)

lemma golden_store_import [golden]: "golden_only (store_import want row st)"
  unfolding store_import_def Let_def by (intro golden)

lemma golden_import_commission [golden]: "golden_only (import_commission r ex)"
  unfolding import_commission_def by (intro golden)

text \<open>The rollback of a missing table goes back to the start of the import, whose attributions are the same.\<close>

lemma import_rows_attribs:
  "tx_ok env (import_rows start want rs st) db st' db' \<Longrightarrow> attribs db = attribs start \<and> fill_trades db = fill_trades start \<Longrightarrow>
   attribs db' = attribs start \<and> fill_trades db' = fill_trades start"
proof (induction rs arbitrary: db st)
  case (Cons r rs)
  from Cons.prems(1) obtain row db1 st1 db2 db3 where
    1: "tx_ok env (lift_exc (import_row r)) db row db1"
    and 2: "tx_ok env (on_missing_table start (st\<lparr>is_missing_table := want \<or> is_missing_table st\<rparr>) (store_import want row st)) db1 st1 db2"
    and 3: "tx_ok env (import_commission r (dget row ''exec_id'')) db2 () db3"
    and 4: "tx_ok env (import_rows start want rs st1) db3 st' db'"
    by (auto dest!: tx_ok_bindD)
  have "attribs db2 = attribs start \<and> fill_trades db2 = fill_trades start"
  proof -
    from 1 Cons.prems(2) have db1: "attribs db1 = attribs start \<and> fill_trades db1 = fill_trades start"
      using golden_onlyD [OF golden_lift] by metis
    from 2 obtain n n' where run: "on_missing_table start (st\<lparr>is_missing_table := want \<or> is_missing_table st\<rparr>)
        (store_import want row st) env (db1, n) = (Inr st1, (db2, n'))" by (auto simp: tx_ok_def)
    obtain r2 db4 k where m: "store_import want row st env (db1, n) = (r2, (db4, k))" by (metis prod.exhaust)
    with run have "db2 = start \<or> tx_ok env (store_import want row st) db1 st1 db2"
      by (cases r2) (auto simp: on_missing_table_def tx_ok_def split: if_splits)
    then show ?thesis using db1 golden_onlyD [OF golden_store_import] by metis
  qed
  with 3 golden_onlyD [OF golden_import_commission] have "attribs db3 = attribs start \<and> fill_trades db3 = fill_trades start" by metis
  with Cons.IH [OF 4] show ?case by simp
qed simp

section \<open>The abstract attribution of a fill\<close>

text \<open>What a reader may conclude about a fill: nothing, one trade, or shares of several.\<close>

datatype fill_use = Unattributed | WholeOf int | SplitOver "(int \<times> rat) list"

definition use_rows :: "attribution list \<Rightarrow> fill_use" where
  "use_rows rows = (case find (\<lambda>a. te_split a = None) rows of
       Some a \<Rightarrow> WholeOf (te_trade a)
     | None \<Rightarrow> if rows = [] then Unattributed
               else SplitOver (map (\<lambda>a. (te_trade a, case te_split a of None \<Rightarrow> 0 | Some q \<Rightarrow> q)) rows))"

definition rows_of :: "fill_db \<Rightarrow> string \<Rightarrow> string \<Rightarrow> attribution list" where
  "rows_of db acc ex = filter (of_fill acc ex) (attribs db)"

definition use_of :: "fill_db \<Rightarrow> string \<Rightarrow> string \<Rightarrow> fill_use" where
  "use_of db acc ex = use_rows (rows_of db acc ex)"

text \<open>The two halves of a patch on it: the splits, then the whole-fill trade.\<close>

definition spec_splits :: "pyval list option \<Rightarrow> fill_use \<Rightarrow> fill_use" where
  "spec_splits splits u = (case splits of
       None \<Rightarrow> u
     | Some xs \<Rightarrow> if xs \<noteq> [] then SplitOver (asked_splits xs)
         else (case u of SplitOver _ \<Rightarrow> Unattributed | _ \<Rightarrow> u))"

definition spec_whole :: "bool \<Rightarrow> int option \<Rightarrow> fill_use \<Rightarrow> fill_use" where
  "spec_whole touches inst u =
     (if \<not> touches then u
      else (case inst of Some t \<Rightarrow> WholeOf t | None \<Rightarrow> (case u of WholeOf _ \<Rightarrow> Unattributed | _ \<Rightarrow> u)))"

lemma exclusive_rows:
  assumes "exclusive (attribs db)"
  shows "(\<exists>a. rows_of db acc ex = [a] \<and> te_split a = None) \<or> (\<forall>a\<in>set (rows_of db acc ex). te_split a \<noteq> None)"
proof (cases "list_ex (whole_row acc ex) (attribs db)")
  case True
  from whole_split [OF assms True] obtain us b vs where
    as: "attribs db = us @ b # vs" "whole_row acc ex b" and none: "\<forall>x\<in>set us \<union> set vs. \<not> whole_row acc ex x" by blast
  have w: "(acc, ex) \<in> set (wholes (attribs db))" using as by (auto simp: wholes_def whole_row_def of_fill_iff)
  have "\<not> of_fill acc ex x" if "x \<in> set us \<union> set vs" for x
  proof
    assume f: "of_fill acc ex x"
    with none that have "te_split x \<noteq> None" by (auto simp: whole_row_def)
    moreover have "x \<in> set (attribs db)" using that as by auto
    ultimately show False using assms w f by (auto simp: exclusive_def of_fill_iff)
  qed
  then have "filter (of_fill acc ex) us = []" "filter (of_fill acc ex) vs = []" by (auto simp: filter_empty_conv)
  then have "rows_of db acc ex = [b]" using as by (simp add: rows_of_def whole_row_def)
  with as show ?thesis by (simp add: whole_row_def)
qed (auto simp: list_ex_iff whole_row_def rows_of_def)

lemma use_rows_splits [simp]:
  "ins \<noteq> [] \<Longrightarrow> use_rows (map (split_attrib acc ex) ins) = SplitOver ins"
proof -
  assume "ins \<noteq> []"
  moreover have "find (\<lambda>a. te_split a = None) (map (split_attrib acc ex) ins) = None" by (auto simp: find_None_iff)
  ultimately show ?thesis by (simp add: use_rows_def comp_def)
qed

lemma use_rows_simps [simp]:
  "use_rows [] = Unattributed" "te_split a = None \<Longrightarrow> use_rows [a] = WholeOf (te_trade a)"
  by (simp_all add: use_rows_def)

lemma use_rows_all_split: "\<forall>a\<in>set rows. te_split a \<noteq> None \<Longrightarrow> rows \<noteq> [] \<Longrightarrow> \<exists>s. use_rows rows = SplitOver s"
proof -
  assume a: "\<forall>a\<in>set rows. te_split a \<noteq> None" "rows \<noteq> []"
  then have "find (\<lambda>a. te_split a = None) rows = None" by (auto simp: find_None_iff)
  with a show ?thesis by (simp add: use_rows_def)
qed

text \<open>Under the rules each stored share is not zero and its trade is on the fill's account.\<close>

lemma split_share_sound:
  assumes "attribs_ok db" and "use_of db acc ex = SplitOver s" and "(t, share) \<in> set s"
  shows "share \<noteq> 0 \<and> (\<exists>tr. map_of (fill_trades db) t = Some tr \<and> ft_account tr = acc)"
proof -
  have none: "find (\<lambda>a. te_split a = None) (rows_of db acc ex) = None"
    using assms(2) by (auto simp: use_of_def use_rows_def split: option.splits)
  with assms(2,3) obtain a where a: "a \<in> set (rows_of db acc ex)" "te_trade a = t"
    "(case te_split a of None \<Rightarrow> 0 | Some q \<Rightarrow> q) = share"
    by (auto simp: use_of_def use_rows_def split: if_splits)
  from none a(1) have "te_split a \<noteq> None" by (auto simp: find_None_iff)
  moreover from a(1) assms(1) have "sound_row (fill_trades db) a" "te_account a = acc"
    by (auto simp: attribs_ok_def list_all_iff rows_of_def of_fill_def)
  ultimately show ?thesis using a(2,3) by (auto simp: sound_row_def split: option.splits)
qed

lemma store_splits_rows:
  assumes "tx_ok env (store_splits acc ex ins) db u db'"
  shows "rows_of db' a2 e2 =
    (if (a2, e2) \<noteq> (acc, ex) then rows_of db a2 e2
     else if ins = [] then filter (\<lambda>a. te_split a = None) (rows_of db acc ex) else map (split_attrib acc ex) ins)"
  using store_splits_ok [OF assms]
  by (auto simp: rows_of_def of_fill_iff filter_empty_conv conj_commute split: if_splits intro!: filter_cong)

lemma store_splits_use:
  assumes "tx_ok env (store_splits acc ex (asked_splits xs)) db u db'" and "exclusive (attribs db)"
    and "length (asked_splits xs) = length xs"
  shows "use_of db' acc ex = spec_splits (Some xs) (use_of db acc ex)"
proof (cases "xs = []")
  case True
  then have a: "asked_splits xs = []" by (simp add: asked_splits_def)
  from exclusive_rows [OF assms(2), of acc ex] consider
    (w) a where "rows_of db acc ex = [a]" "te_split a = None" |
    (s) "\<forall>a\<in>set (rows_of db acc ex). te_split a \<noteq> None" by blast
  then show ?thesis
  proof cases
    case w
    then show ?thesis using store_splits_rows [OF assms(1), of acc ex] True a by (simp add: use_of_def spec_splits_def)
  next
    case s
    then have e: "filter (\<lambda>a. te_split a = None) (rows_of db acc ex) = []" by (auto simp: filter_empty_conv)
    show ?thesis
    proof (cases "rows_of db acc ex = []")
      case False
      with use_rows_all_split [OF s] e True a store_splits_rows [OF assms(1), of acc ex]
      show ?thesis by (auto simp: use_of_def spec_splits_def)
    qed (use e True a store_splits_rows [OF assms(1), of acc ex] in \<open>simp add: use_of_def spec_splits_def\<close>)
  qed
next
  case False
  with assms(3) have "asked_splits xs \<noteq> []" by auto
  with False store_splits_rows [OF assms(1), of acc ex] show ?thesis by (simp add: use_of_def spec_splits_def)
qed

lemma set_whole_use:
  assumes "tx_ok env (set_whole_attribution acc ex inst) db u db'" and ok: "attribs_ok db"
    and no_split: "inst \<noteq> None \<Longrightarrow> \<forall>a\<in>set (rows_of db acc ex). te_split a = None"
  shows "attribs_ok db'" "use_of db' acc ex = spec_whole True inst (use_of db acc ex)"
    "(a2, e2) \<noteq> (acc, ex) \<Longrightarrow> rows_of db' a2 e2 = rows_of db a2 e2"
    "db' = db\<lparr>attribs := attribs db'\<rparr>"
proof -
  have excl: "exclusive (attribs db)" using ok by (simp add: attribs_ok_def)
  have "attribs_ok db' \<and> use_of db' acc ex = spec_whole True inst (use_of db acc ex) \<and>
      ((a2, e2) \<noteq> (acc, ex) \<longrightarrow> rows_of db' a2 e2 = rows_of db a2 e2) \<and> db' = db\<lparr>attribs := attribs db'\<rparr>"
  proof (cases inst)
    case None
    with assms(1) have db': "db' = db\<lparr>attribs := filter (\<lambda>a. \<not> whole_row acc ex a) (attribs db)\<rparr>"
      by (auto simp: set_whole_attribution_def dest: delete_attribs_ok)
    have rows: "rows_of db' acc ex = filter (\<lambda>a. te_split a \<noteq> None) (rows_of db acc ex)"
      by (auto simp: db' rows_of_def whole_row_def conj_commute intro!: filter_cong)
    have other: "(a2, e2) \<noteq> (acc, ex) \<longrightarrow> rows_of db' a2 e2 = rows_of db a2 e2"
      by (auto simp: db' rows_of_def whole_row_def of_fill_iff intro!: filter_cong)
    from exclusive_rows [OF excl, of acc ex] consider
      (w) a where "rows_of db acc ex = [a]" "te_split a = None" |
      (s) "\<forall>a\<in>set (rows_of db acc ex). te_split a \<noteq> None" by blast
    then have "use_of db' acc ex = spec_whole True None (use_of db acc ex)"
    proof cases
      case s
      then have "rows_of db' acc ex = rows_of db acc ex" by (simp add: rows)
      with use_rows_all_split [OF s] show ?thesis
        by (cases "rows_of db acc ex = []") (auto simp: use_of_def spec_whole_def)
    qed (simp add: rows use_of_def spec_whole_def)
    with None db' other ok show ?thesis by (simp add: attribs_ok_filter)
  next
    case (Some t)
    let ?a = "\<lparr>te_account = acc, te_exec = ex, te_trade = t, te_split = None\<rparr>"
    from assms(1) Some have up: "tx_ok env (upsert_whole acc ex t) db u db'" by (simp add: set_whole_attribution_def)
    from upsert_whole_cases [OF up excl] obtain us vs where db': "db' = db\<lparr>attribs := us @ ?a # vs\<rparr>"
      and none: "\<forall>x\<in>set us \<union> set vs. \<not> whole_row acc ex x"
      and old: "attribs db = us @ vs \<or> (\<exists>b. whole_row acc ex b \<and> attribs db = us @ b # vs)" by blast
    have ns: "\<forall>b\<in>set (attribs db). fill_of b = (acc, ex) \<longrightarrow> te_split b = None"
      using no_split Some by (auto simp: rows_of_def of_fill_iff)
    with none old have "filter (of_fill acc ex) us = []" "filter (of_fill acc ex) vs = []"
      by (auto simp: filter_empty_conv whole_row_def of_fill_iff)
    then have "rows_of db' acc ex = [?a]" by (simp add: db' rows_of_def of_fill_def)
    then have "use_of db' acc ex = WholeOf t" by (simp add: use_of_def)
    moreover have "(a2, e2) \<noteq> (acc, ex) \<longrightarrow> rows_of db' a2 e2 = rows_of db a2 e2"
      using old by (auto simp: db' rows_of_def whole_row_def of_fill_def)
    ultimately show ?thesis using upsert_whole_keeps [OF up ok ns] Some db' by (simp add: spec_whole_def)
  qed
  then show "attribs_ok db'" "use_of db' acc ex = spec_whole True inst (use_of db acc ex)"
    "(a2, e2) \<noteq> (acc, ex) \<Longrightarrow> rows_of db' a2 e2 = rows_of db a2 e2"
    "db' = db\<lparr>attribs := attribs db'\<rparr>" by blast+
qed

section \<open>A patch\<close>

lemma patch_fill_args_ok:
  "patch_fill_args body = Inr (touches, inst, opp, splits) \<Longrightarrow> inst \<noteq> None \<Longrightarrow> touches \<and> (splits = None \<or> splits = Some [])"
  by (auto simp: patch_fill_args_def Let_def split: if_splits option.splits)

lemma patch_checks_ok:
  assumes "tx_ok env (patch_checks (touches, inst, opp, splits) acc ex) db u db'"
  shows "db' = db \<and> (\<forall>t. inst = Some t \<longrightarrow> instance_problem_of db t acc opp = None \<and>
     (splits = None \<longrightarrow> (\<forall>a\<in>set (rows_of db acc ex). te_split a = None)))"
  using assms
  by (auto simp: patch_checks_def instance_problem_def split_count_def rows_of_def filter_empty_conv
      split: option.splits if_splits dest!: tx_ok_bindD tx_ok_queryD)

lemma patch_fill_body_ok:
  assumes "tx_ok env (patch_fill_body aid (touches, inst, opp, splits)) db out db'"
  shows "\<exists>acc ex e db1. map_option key_of_row (map_of (raw db (fst (raw_table_pk aid))) (snd (raw_table_pk aid))) = Some (acc, ex, e) \<and>
     (\<forall>t. inst = Some t \<longrightarrow> instance_problem_of db t acc opp = None \<and>
        (splits = None \<longrightarrow> (\<forall>a\<in>set (rows_of db acc ex). te_split a = None))) \<and>
     (case splits of None \<Rightarrow> db1 = db
      | Some xs \<Rightarrow> valid_splits acc e xs db \<and> tx_ok env (store_splits acc ex (asked_splits xs)) db () db1) \<and>
     (if touches then tx_ok env (set_whole_attribution acc ex inst) db1 () db' else db' = db1) \<and>
     out = attribution_of db' aid acc ex"
proof -
  obtain tbl pk where tp: "raw_table_pk aid = (tbl, pk)" by (cases "raw_table_pk aid")
  from tx_ok_bindD [OF assms [unfolded patch_fill_body_def tp prod.case]] obtain k db0
    where key: "tx_ok env (fill_key tbl pk) db k db0"
    and run0: "tx_ok env (case k of None \<Rightarrow> no_execution aid
       | Some (acc, ex, _) \<Rightarrow> patch_fill_on aid tbl pk (touches, inst, opp, splits) acc ex) db0 out db'" by blast
  from fill_key_ok [OF key] have k: "k = map_option key_of_row (map_of (raw db tbl) pk)" and db0: "db0 = db" by simp_all
  note run = run0 [unfolded db0]
  then obtain acc ex e where kk: "k = Some (acc, ex, e)" by (cases k) (auto simp: no_execution_def)
  let ?split = "case splits of None \<Rightarrow> tx_return () | Some xs \<Rightarrow> tx_bind (apply_fill_splits tbl pk xs) (\<lambda>ok.
       if ok then tx_return () else tx_raise (Write (Invalid (split_refusal acc))))"
  let ?whole = "tx_bind (if touches then set_whole_attribution acc ex inst else tx_return ()) (\<lambda>_.
       query (\<lambda>db. attribution_of db aid acc ex))"
  from run kk have "tx_ok env (tx_bind (patch_checks (touches, inst, opp, splits) acc ex) (\<lambda>_. tx_bind ?split (\<lambda>_. ?whole))) db out db'"
    by (simp add: patch_fill_on_def split: if_splits)
  then obtain u1 s1 u2 db1 where chk0: "tx_ok env (patch_checks (touches, inst, opp, splits) acc ex) db u1 s1"
    and sp0: "tx_ok env ?split s1 u2 db1" and wh: "tx_ok env ?whole db1 out db'"
    by (blast dest: tx_ok_bindD)
  from patch_checks_ok [OF chk0] have s1: "s1 = db" by simp
  have chk: "tx_ok env (patch_checks (touches, inst, opp, splits) acc ex) db () db" using chk0 by (simp add: s1)
  have sp: "tx_ok env ?split db () db1" using sp0 by (simp add: s1)
  have "case splits of None \<Rightarrow> db1 = db
      | Some xs \<Rightarrow> valid_splits acc e xs db \<and> tx_ok env (store_splits acc ex (asked_splits xs)) db () db1"
    using sp k kk by (auto split: option.splits if_splits dest!: tx_ok_bindD apply_fill_splits_ok)
  moreover have "(if touches then tx_ok env (set_whole_attribution acc ex inst) db1 () db' else db' = db1) \<and>
      out = attribution_of db' aid acc ex"
    using wh by (auto split: if_splits dest!: tx_ok_bindD tx_ok_queryD)
  moreover have "map_option key_of_row (map_of (raw db tbl) pk) = Some (acc, ex, e)" using k kk by simp
  ultimately show ?thesis using conjunct2 [OF patch_checks_ok [OF chk]] unfolding tp fst_conv snd_conv by blast
qed

text \<open>After the splits of a patch that names a trade, the fill has none.\<close>

lemma patch_no_split:
  assumes "case splits of None \<Rightarrow> db1 = db
      | Some xs \<Rightarrow> valid_splits acc e xs db \<and> tx_ok env (store_splits acc ex (asked_splits xs)) db () db1"
    and "splits = None \<longrightarrow> (\<forall>a\<in>set (rows_of db acc ex). te_split a = None)" and "splits = None \<or> splits = Some []"
  shows "\<forall>a\<in>set (rows_of db1 acc ex). te_split a = None"
proof (cases splits)
  case (Some xs)
  with assms have "tx_ok env (store_splits acc ex []) db () db1" by (simp add: asked_splits_def)
  from store_splits_rows [OF this, of acc ex] show ?thesis by simp
qed (use assms in simp)

text \<open>A patch leaves the other fills and the Golden Source alone, and does to its fill what the two halves say.\<close>

lemma patch_fill_body_use:
  assumes run: "tx_ok env (patch_fill_body aid (touches, inst, opp, splits)) db out db'"
    and args: "patch_fill_args body = Inr (touches, inst, opp, splits)" and ok: "attribs_ok db"
  shows "\<exists>acc ex e. map_option key_of_row (map_of (raw db (fst (raw_table_pk aid))) (snd (raw_table_pk aid))) = Some (acc, ex, e) \<and>
     attribs_ok db' \<and> db' = db\<lparr>attribs := attribs db'\<rparr> \<and> out = attribution_of db' aid acc ex \<and>
     use_of db' acc ex = spec_whole touches inst (spec_splits splits (use_of db acc ex)) \<and>
     (\<forall>a2 e2. (a2, e2) \<noteq> (acc, ex) \<longrightarrow> rows_of db' a2 e2 = rows_of db a2 e2) \<and>
     (\<forall>xs. splits = Some xs \<longrightarrow> valid_splits acc e xs db)"
proof -
  from patch_fill_body_ok [OF run] obtain acc ex e db1
    where key: "map_option key_of_row (map_of (raw db (fst (raw_table_pk aid))) (snd (raw_table_pk aid))) = Some (acc, ex, e)"
      and chk: "\<forall>t. inst = Some t \<longrightarrow> instance_problem_of db t acc opp = None \<and>
        (splits = None \<longrightarrow> (\<forall>a\<in>set (rows_of db acc ex). te_split a = None))"
      and sp: "case splits of None \<Rightarrow> db1 = db
        | Some xs \<Rightarrow> valid_splits acc e xs db \<and> tx_ok env (store_splits acc ex (asked_splits xs)) db () db1"
      and wh: "if touches then tx_ok env (set_whole_attribution acc ex inst) db1 () db' else db' = db1"
      and out: "out = attribution_of db' aid acc ex" by blast
  have excl: "exclusive (attribs db)" using ok by (simp add: attribs_ok_def)
  have half: "attribs_ok db1 \<and> use_of db1 acc ex = spec_splits splits (use_of db acc ex) \<and> db1 = db\<lparr>attribs := attribs db1\<rparr> \<and>
      (\<forall>a2 e2. (a2, e2) \<noteq> (acc, ex) \<longrightarrow> rows_of db1 a2 e2 = rows_of db a2 e2)"
  proof (cases splits)
    case None
    with sp ok show ?thesis by (simp add: spec_splits_def)
  next
    case (Some xs)
    with sp have v: "valid_splits acc e xs db" and st: "tx_ok env (store_splits acc ex (asked_splits xs)) db () db1" by auto
    from store_splits_ok [OF st] have "db1 = db\<lparr>attribs := attribs db1\<rparr>" by (auto split: if_splits)
    moreover have "use_of db1 acc ex = spec_splits (Some xs) (use_of db acc ex)"
      by (rule store_splits_use [OF st excl]) (use v in \<open>simp add: valid_splits_def\<close>)
    ultimately show ?thesis using Some store_splits_keeps [OF st ok] store_splits_rows [OF st] by auto
  qed
  show ?thesis
  proof (cases touches)
    case False
    with wh half key out sp show ?thesis by (auto simp: spec_whole_def)
  next
    case True
    with wh have w: "tx_ok env (set_whole_attribution acc ex inst) db1 () db'" by simp
    have ns: "inst \<noteq> None \<Longrightarrow> \<forall>a\<in>set (rows_of db1 acc ex). te_split a = None"
      using patch_no_split [OF sp] chk patch_fill_args_ok [OF args] by blast
    note after = set_whole_use [OF w conjunct1 [OF half] ns]
    from half have db1: "db1 = db\<lparr>attribs := attribs db1\<rparr>" by blast
    have "db1\<lparr>attribs := x\<rparr> = db\<lparr>attribs := x\<rparr>" for x by (subst db1) simp
    with after(4) have "db' = db\<lparr>attribs := attribs db'\<rparr>" by simp
    moreover have "use_of db' acc ex = spec_whole touches inst (spec_splits splits (use_of db acc ex))"
      using after(2) half True by simp
    moreover have "\<forall>a2 e2. (a2, e2) \<noteq> (acc, ex) \<longrightarrow> rows_of db' a2 e2 = rows_of db a2 e2"
      using after(3) half by simp
    moreover have "\<forall>xs. splits = Some xs \<longrightarrow> valid_splits acc e xs db" using sp by auto
    ultimately show ?thesis using after(1) key out by blast
  qed
qed

section \<open>Two commits\<close>

lemma two_phase_cases:
  assumes "two_phase first body env s = (r, s')"
  shows "s' = s \<or> (\<exists>a s1. tx_ok env body s (True, a) s1 \<and> (r = Inr a \<and> s' = s1 \<or> isl r \<and> s' = first s1 s))"
proof -
  obtain q s1 n where b: "body env (s, 0) = (q, (s1, n))" by (metis prod.exhaust)
  show ?thesis
  proof (cases q)
    case (Inr ca)
    then have "tx_ok env body s ca s1" using b unfolding tx_ok_def by blast
    with Inr b assms show ?thesis
      by (cases ca; cases "fst ca") (auto simp: two_phase_def split: option.splits, blast)
  qed (use b assms in \<open>simp add: two_phase_def\<close>)
qed

lemma strict_both_cases:
  assumes "strict_both what fk body env golden arg db = (r, db')"
  shows "(\<exists>e. r = Inl e \<and> (db' = db \<or> (\<exists>a s1. tx_ok env body db a s1 \<and> db' = golden_committed s1 db))) \<or>
     (\<exists>a. r = Inr a \<and> tx_ok env body db a db')"
proof -
  obtain q s where tp: "two_phase golden_committed (tx_bind body (\<lambda>a. tx_return (True, a))) env db = (q, s)" by (metis prod.exhaust)
  have ok: "\<exists>s1. tx_ok env body db a s1 \<and> s1 = s2" if "tx_ok env (tx_bind body (\<lambda>a. tx_return (True, a))) db (True, a) s2" for a s2
    using that by (auto dest!: tx_ok_bindD)
  have succ: "tx_ok env (tx_bind body (\<lambda>a. tx_return (True, a))) db (True, a) s" if q: "q = Inr a" for a
  proof -
    obtain q1 s1 n where b: "body env (db, 0) = (q1, (s1, n))" by (metis prod.exhaust)
    with tp q have "q1 = Inr a" "s1 = s"
      by (auto simp: two_phase_def tx_bind_run tx_return_run split: sum.splits option.splits)
    with b show ?thesis unfolding tx_ok_def
      by (intro exI [of _ "0::nat"] exI [of _ n]) (simp add: tx_bind_run tx_return_run)
  qed
  show ?thesis
  proof (cases q)
    case (Inl e)
    from two_phase_cases [OF tp] Inl ok have "s = db \<or> (\<exists>a s1. tx_ok env body db a s1 \<and> s = golden_committed s1 db)" by auto
    with Inl tp assms show ?thesis
      by (auto simp: strict_both_def write_connection_def split: conn_arg.splits if_splits)
  next
    case (Inr a)
    with ok [OF succ] tp assms show ?thesis
      by (auto simp: strict_both_def write_connection_def split: conn_arg.splits if_splits)
  qed
qed

lemma both_open_cases:
  assumes "both_open env golden dflt (two_phase first body env) db = (r, db')"
  shows "db' = db \<or> (\<exists>a s1. tx_ok env body db (True, a) s1 \<and> (db' = s1 \<or> db' = first s1 db))"
proof -
  obtain q s where tp: "two_phase first body env db = (q, s)" by (metis prod.exhaust)
  with assms have "db' = s \<or> db' = db" by (auto simp: both_open_def caught_def split: sum.splits if_splits)
  with two_phase_cases [OF tp] show ?thesis by blast
qed

lemma golden_committed_ok [simp]: "attribs_ok (golden_committed s1 db) = attribs_ok db"
  and env_committed_ok [simp]: "attribs_ok (env_committed s1 db) = attribs_ok s1"
  by (simp_all add: attribs_ok_def golden_committed_def env_committed_def)

section \<open>A strict delete\<close>

lemma any_table_ok: "tx_ok env (any_table p ts) db b db' \<Longrightarrow> db' = db \<and> b = list_ex (\<lambda>t. has_row p t db) ts"
  by (induction ts) (auto dest!: tx_ok_bindD tx_ok_queryD split: if_splits)

text \<open>Is the fill, or the exec id, still on some raw row?\<close>

definition recorded :: "(pydict \<Rightarrow> bool) \<Rightarrow> fill_db \<Rightarrow> bool" where
  "recorded p db \<longleftrightarrow> list_ex (\<lambda>t. has_row p t db) GOLDEN_RAW_TABLES"

lemma recorded_raw [simp]:
  "recorded p (db\<lparr>attribs := as\<rparr>) = recorded p db" "recorded p (db\<lparr>commissions := cs\<rparr>) = recorded p db"
  by (simp_all add: recorded_def has_row_def)

lemma drop_attribution_ok:
  assumes "tx_ok env (drop_attribution_if_last acc ex) db n db'"
  shows "db' = (if ex = [] \<or> recorded (carries acc ex) db then db else db\<lparr>attribs := filter (\<lambda>a. \<not> of_fill acc ex a) (attribs db)\<rparr>)"
  using assms
  by (auto simp: drop_attribution_if_last_def recorded_def dest!: tx_ok_bindD any_table_ok tx_ok_stmtD split: if_splits)

lemma delete_raw_ok:
  "tx_ok env (delete_raw tbl pk) db n db' \<Longrightarrow> n = (if map_of (raw db tbl) pk = None then 0 else 1) \<and>
     db' = put_raw tbl (filter (\<lambda>q. fst q \<noteq> pk) (raw db tbl)) db"
  by (auto simp: delete_raw_def dest!: tx_ok_stmtD split: if_splits)

lemma unused_commission_ok:
  "tx_ok env (delete_unused_commission ex) db u db' \<Longrightarrow>
   db' = (if recorded (\<lambda>r. dget r ''exec_id'' = PStr ex) db then db else db\<lparr>commissions := AList.delete ex (commissions db)\<rparr>)"
  by (auto simp: delete_unused_commission_def recorded_def dest!: tx_ok_updateD split: if_splits)

lemma strict_delete_ok:
  assumes "tx_ok env (delete_execution_strict_body aid) db out db'" and tp: "raw_table_pk aid = (tbl, pk)"
  shows "\<exists>row acc ex e. map_of (raw db tbl) pk = Some row \<and> key_of_row row = (acc, ex, e) \<and>
     raw db' = (raw db)(tbl := filter (\<lambda>q. fst q \<noteq> pk) (raw db tbl)) \<and>
     list_all (\<lambda>l. fst l \<noteq> aid \<and> snd l \<noteq> aid) (stock_links db) \<and>
     attribs db' = (if ex = [] \<or> recorded (carries acc ex) db' then attribs db else filter (\<lambda>a. \<not> of_fill acc ex a) (attribs db)) \<and>
     commissions db' = (if ex = [] \<or> recorded (\<lambda>r. dget r ''exec_id'' = PStr ex) db'
                        then commissions db else AList.delete ex (commissions db))"
proof -
  from assms(1) obtain k db0 where "tx_ok env (fill_key tbl pk) db k db0"
    and run0: "tx_ok env (case k of None \<Rightarrow> no_execution aid
       | Some (acc, ex, _) \<Rightarrow> tx_bind (link_count aid) (\<lambda>links. if links \<noteq> 0
           then tx_raise (Write (Conflict (''This execution is in ''
                  @ plural links ''option/stock link'' ''option/stock links'' @ ''; unlink it first.'')))
           else tx_bind (delete_raw tbl pk) (\<lambda>n. if n = 0 then no_execution aid
           else tx_bind (drop_attribution_if_last acc ex) (\<lambda>removed.
             tx_bind (if ex = [] then tx_return () else delete_unused_commission ex) (\<lambda>_.
             tx_return (deleted_fill aid removed)))))) db0 out db'"
    unfolding delete_execution_strict_body_def tp prod.case by (rule tx_ok_bindE)
  from fill_key_ok [OF this(1)] have k: "k = map_option key_of_row (map_of (raw db tbl) pk)" and db0: "db0 = db" by simp_all
  from run0 obtain acc ex e where kk: "k = Some (acc, ex, e)" by (cases k) (auto simp: no_execution_def)
  with k obtain row where row: "map_of (raw db tbl) pk = Some row" "key_of_row row = (acc, ex, e)"
    by (cases "map_of (raw db tbl) pk") auto
  from run0 kk db0 obtain links db1 n db2 m db3 where 1: "tx_ok env (link_count aid) db links db1" "links = 0"
    and 2: "tx_ok env (delete_raw tbl pk) db1 n db2" and 3: "tx_ok env (drop_attribution_if_last acc ex) db2 m db3"
    and 4: "tx_ok env (if ex = [] then tx_return () else delete_unused_commission ex) db3 () db'"
    by (auto simp: no_execution_def split: if_splits dest!: tx_ok_bindD)
  from 1(1) have l: "links = int (length (filter (\<lambda>l. fst l = aid \<or> snd l = aid) (stock_links db)))" and db1: "db1 = db"
    unfolding link_count_def by (auto dest!: tx_ok_queryD)
  from l 1(2) have "filter (\<lambda>l. fst l = aid \<or> snd l = aid) (stock_links db) = []" by simp
  then have links: "list_all (\<lambda>l. fst l \<noteq> aid \<and> snd l \<noteq> aid) (stock_links db)"
    unfolding list_all_iff filter_empty_conv by simp
  from delete_raw_ok [OF 2] have db2: "db2 = put_raw tbl (filter (\<lambda>q. fst q \<noteq> pk) (raw db tbl)) db" by (simp add: db1)
  note db3 = drop_attribution_ok [OF 3]
  have db': "db' = (if ex = [] \<or> recorded (\<lambda>r. dget r ''exec_id'' = PStr ex) db3 then db3
                    else db3\<lparr>commissions := AList.delete ex (commissions db3)\<rparr>)"
    using 4 unused_commission_ok [of env ex db3 "()" db'] by (auto split: if_splits)
  have same: "recorded p db' = recorded p db2" for p by (simp add: db' db3)
  have "raw db' = raw db2" "commissions db3 = commissions db" "attribs db' = attribs db3" by (simp_all add: db' db3 db2)
  moreover have "recorded p db3 = recorded p db2" for p by (simp add: db3)
  ultimately show ?thesis using row links unfolding same by (auto simp: db' db3 db2)
qed

end
