(* ===== verification/Fill_Claims.thy ===== *)
theory Fill_Claims
  imports Fill_Properties
begin

text \<open>
  Properties of executions and their attribution: what a patch does to a fill, that a fill is
  attributed one way, what a failure in either database leaves, the deletes of fills recorded
  twice, and the overlay ids.
\<close>

section \<open>Sequences of calls\<close>

datatype fill_call =
    PatchFill conn_arg int pyval
  | ReplaceSplits "pydict option" int pyval
  | DeleteFill "pydict option" int
  | DeleteFillStrict conn_arg int
  | ImportFills "pydict option" bool "pydict list"
  | ReportCommission "pydict option" string pyval pyval pyval pyval pyval

text \<open>Every writer of a fill but the manual insert and edit, each in its own environment.\<close>

fun run_fill :: "env \<times> bool \<times> fill_call \<Rightarrow> fill_db \<Rightarrow> fill_db" where
  "run_fill (env, g, PatchFill arg aid body) db = snd (patch_execution env g arg aid body db)"
| "run_fill (env, g, ReplaceSplits cfg aid body) db = snd (replace_execution_fill_splits env g cfg aid body db)"
| "run_fill (env, g, DeleteFill cfg aid) db = snd (delete_one_execution env g cfg aid db)"
| "run_fill (env, g, DeleteFillStrict arg aid) db = snd (delete_execution_strict env g arg aid db)"
| "run_fill (env, g, ImportFills cfg want rows) db = snd (write_account_executions_to_db env g cfg want rows db)"
| "run_fill (env, g, ReportCommission cfg ex c p cur y r) db = snd (update_execution_commission env g cfg ex c p cur y r db)"

lemma drop_attribution_keeps: "tx_inv attribs_ok (drop_attribution_if_last acc ex)"
  unfolding drop_attribution_if_last_def
  by (intro tx_keeps golden_keeps golden tx_inv_stmt) (auto simp: attribs_ok_filter)

lemma delete_bodies_keep: "tx_inv attribs_ok (delete_execution_body aid)" "tx_inv attribs_ok (delete_execution_strict_body aid)"
  unfolding delete_execution_body_def delete_execution_strict_body_def no_execution_def link_count_def
  by (intro tx_keeps golden_keeps [OF golden_fill_key] golden_keeps [OF golden_delete_raw]
      golden_keeps [OF golden_unused_commission] golden_keeps [OF golden_commission_update] drop_attribution_keeps)+

lemma patch_body_keeps:
  "patch_fill_args body = Inr p \<Longrightarrow> tx_ok env (patch_fill_body aid p) db out db' \<Longrightarrow> attribs_ok db \<Longrightarrow> attribs_ok db'"
  by (cases p) (auto dest!: patch_fill_body_use)

lemma strict_both_keeps:
  assumes "strict_both what fk body env golden arg db = (r, db')" and "attribs_ok db"
    and "\<And>a s. tx_ok env body db a s \<Longrightarrow> attribs_ok s"
  shows "attribs_ok db'"
  using strict_both_cases [OF assms(1)] assms(2,3) by auto

lemma both_open_keeps:
  assumes "attribs_ok db" and "first = golden_committed \<or> first = env_committed"
    and "\<And>a s. tx_ok env body db (True, a) s \<Longrightarrow> attribs_ok s"
  shows "attribs_ok (snd (both_open env golden dflt (two_phase first body env) db))"
proof -
  obtain r db' where run: "both_open env golden dflt (two_phase first body env) db = (r, db')" by (metis prod.exhaust)
  from both_open_cases [OF run] show ?thesis
    unfolding run snd_conv using assms by (elim disjE exE conjE) auto
qed

lemma patch_execution_cases:
  assumes "patch_execution env golden arg aid body db = (r, db')"
  shows "db' = db \<and> isl r \<or> (\<exists>p q. patch_fill_args body = Inr p \<and>
     strict_both (execution_noun aid) FkInvalid (patch_fill_body aid p) env golden arg db = (q, db') \<and> r = fst (raising (q, db')))"
proof (cases "patch_fill_args body")
  case (Inr p)
  obtain q s where q: "strict_both (execution_noun aid) FkInvalid (patch_fill_body aid p) env golden arg db = (q, s)"
    by (metis prod.exhaust)
  show ?thesis
  proof (cases arg)
    case (ConnConfig cfg)
    with assms Inr q have "raising (q, s) = (r, db')" by (simp add: patch_execution_def)
    then have "s = db'" "r = fst (raising (q, db'))" by (auto simp: raising_def split: sum.splits)
    with Inr q show ?thesis by blast
  qed (use assms Inr in \<open>auto simp: patch_execution_def\<close>)
qed (use assms in \<open>auto simp: patch_execution_def\<close>)

lemma import_keeps: "attribs_ok db \<Longrightarrow> attribs_ok (snd (write_account_executions_to_db env g cfg want rows db))"
proof -
  assume ok: "attribs_ok db"
  obtain r s where run: "legacy_transaction (tx_bind (import_rows db want rows no_stats) (\<lambda>st. tx_return (True, st))) env db = (r, s)"
    by (metis prod.exhaust)
  have "attribs_ok s"
  proof (cases r)
    case (Inr st)
    from legacy_transaction_ok [OF run [unfolded Inr]] show ?thesis
    proof
      assume "tx_ok env (tx_bind (import_rows db want rows no_stats) (\<lambda>st. tx_return (True, st))) db (True, st) s"
      then have "tx_ok env (import_rows db want rows no_stats) db st s" by (auto dest!: tx_ok_bindD)
      with import_rows_attribs ok show ?thesis by (metis attribs_ok_same)
    qed (use ok in simp)
  next
    case (Inl e)
    from legacy_transaction_error [OF run [unfolded Inl]] ok show ?thesis by simp
  qed
  then show ?thesis by (simp add: write_account_executions_to_db_def ok run split: sum.splits)
qed

lemma report_keeps: "attribs_ok db \<Longrightarrow> attribs_ok (snd (update_execution_commission env g cfg ex c p cur y r db))"
proof -
  assume ok: "attribs_ok db"
  let ?body = "tx_bind (lift_exc (stored_commission c PNone)) (\<lambda>c. tx_bind (upsert_commission ex c cur p y r True) (\<lambda>_. tx_return (True, True)))"
  obtain q s where run: "legacy_transaction ?body env db = (q, s)" by (metis prod.exhaust)
  have "tx_inv attribs_ok ?body" by (intro golden_keeps golden)
  from legacy_transaction_inv [OF run this ok] show ?thesis
    by (simp add: update_execution_commission_def caught_def ok run split: sum.splits)
qed

lemma run_fill_keeps: "attribs_ok db \<Longrightarrow> attribs_ok (run_fill c db)"
proof -
  assume ok: "attribs_ok db"
  obtain env g f where c: "c = (env, g, f)" by (cases c)
  show ?thesis
  proof (cases f)
    case (PatchFill arg aid body)
    obtain r db' where run: "patch_execution env g arg aid body db = (r, db')" by (metis prod.exhaust)
    from patch_execution_cases [OF run] have "attribs_ok db'"
    proof (elim disjE exE conjE)
      fix p q
      assume args: "patch_fill_args body = Inr p"
        and q: "strict_both (execution_noun aid) FkInvalid (patch_fill_body aid p) env g arg db = (q, db')"
      show ?thesis by (rule strict_both_keeps [OF q ok]) (rule patch_body_keeps [OF args _ ok])
    qed (use ok in simp)
    with c PatchFill run show ?thesis by simp
  next
    case (ReplaceSplits cfg aid body)
    have "attribs_ok (snd (both_open env g False (two_phase env_committed
        (tx_bind (apply_fill_splits tbl pk xs) (\<lambda>ok. tx_return (ok, ok))) env) db))" for tbl pk xs
    proof (rule both_open_keeps [OF ok])
      fix a s
      assume "tx_ok env (tx_bind (apply_fill_splits tbl pk xs) (\<lambda>ok. tx_return (ok, ok))) db (True, a) s"
      then show "attribs_ok s" using ok by (auto dest!: tx_ok_bindD dest: apply_fill_splits_keeps)
    qed simp
    with c ReplaceSplits ok show ?thesis
      by (auto simp: replace_execution_fill_splits_def split: pyval.splits prod.splits)
  next
    case (DeleteFill cfg aid)
    have "attribs_ok (snd (both_open env g False (two_phase golden_committed (delete_execution_body aid) env) db))"
      by (rule both_open_keeps [OF ok]) (use tx_invD [OF delete_bodies_keep(1) _ ok] in auto)
    with c DeleteFill ok show ?thesis by (auto simp: delete_one_execution_def)
  next
    case (DeleteFillStrict arg aid)
    obtain r db' where run: "strict_both (execution_noun aid) FkConflict (delete_execution_strict_body aid) env g arg db = (r, db')"
      by (metis prod.exhaust)
    have "attribs_ok db'" by (rule strict_both_keeps [OF run ok]) (rule tx_invD [OF delete_bodies_keep(2) _ ok])
    with c DeleteFillStrict ok run show ?thesis
      by (auto simp: delete_execution_strict_def raising_def split: conn_arg.splits sum.splits)
  qed (use c ok import_keeps report_keeps in simp_all)
qed

interpretation fill_writers: kept_invariant run_fill attribs_ok
  by unfold_locales (rule run_fill_keeps)

section \<open>A sample of the two databases\<close>

definition sample_fill :: "string \<Rightarrow> string \<Rightarrow> rat \<Rightarrow> pydict" where
  "sample_fill ex side q = [(''account_id'', PStr ''U1''), (''exec_id'', PStr ex), (''side'', PStr side),
     (''quantity'', PFloat (Fin q)), (''source'', PStr ''tws_event'')]"

text \<open>
  The fill E1 is recorded by TWS and by Flex and split over the trades 1 and 2; E2, a sale, is
  attributed to trade 1 as a whole; trade 3 is on another account.
\<close>

definition sample_fills :: fill_db where
  "sample_fills = \<lparr>raw = (\<lambda>t. case t of
        RawTws \<Rightarrow> [(11, sample_fill ''E1'' ''BOT'' 10), (12, sample_fill ''E2'' ''SLD'' 4)]
      | RawFlex \<Rightarrow> [(7, sample_fill ''E1'' ''BUY'' 10)] | RawJournal \<Rightarrow> []),
     next_raw = (\<lambda>t. 20),
     commissions = [(''E1'', \<lparr>cm_commission = PFloat (Fin (-1)), cm_currency = PNone, cm_pnl = PNone, cm_yield = PNone, cm_redemption = PNone\<rparr>)],
     attribs = [\<lparr>te_account = ''U1'', te_exec = ''E1'', te_trade = 1, te_split = Some 6\<rparr>,
        \<lparr>te_account = ''U1'', te_exec = ''E1'', te_trade = 2, te_split = Some 4\<rparr>,
        \<lparr>te_account = ''U1'', te_exec = ''E2'', te_trade = 1, te_split = None\<rparr>],
     fill_trades = [(1, \<lparr>ft_account = ''U1'', ft_opp = 5, ft_label = PNone\<rparr>), (2, \<lparr>ft_account = ''U1'', ft_opp = 5, ft_label = PNone\<rparr>),
        (3, \<lparr>ft_account = ''U2'', ft_opp = 5, ft_label = PNone\<rparr>), (4, \<lparr>ft_account = ''U1'', ft_opp = 6, ft_label = PStr ''spread''\<rparr>)],
     stock_links = [(7, -12)]\<rparr>"

definition pg_cfg :: pydict where
  "pg_cfg = [(''sink'', PStr ''postgres'')]"

definition to_trade_1 :: pyval where
  "to_trade_1 = PDict [(''trade_id'', PInt 1), (''fill_splits'', PList [])]"

lemma sample_fills_ok: "attribs_ok sample_fills"
  by (simp add: attribs_ok_def exclusive_def wholes_def distinct_trades_def sound_row_def fill_of_def sample_fills_def)

section \<open>Properties\<close>

text \<open>
  C2. \<open>patch_execution\<close> implements the abstract attribution of a fill (nothing, one trade, or
  shares of several): when it answers, the fill behind the id stands as its splits, then its
  trade, were sent; every other fill, the raw rows and the commissions are as before; and the
  answer is read back from what was stored.
\<close>

theorem patch_refines_attribution:
  assumes "attribs_ok db" and "patch_execution env golden arg aid body db = (Inr out, db')"
  shows "\<exists>acc ex e touches inst opp splits. patch_fill_args body = Inr (touches, inst, opp, splits) \<and>
     map_option key_of_row (map_of (raw db (fst (raw_table_pk aid))) (snd (raw_table_pk aid))) = Some (acc, ex, e) \<and>
     use_of db' acc ex = spec_whole touches inst (spec_splits splits (use_of db acc ex)) \<and>
     (\<forall>a2 e2. (a2, e2) \<noteq> (acc, ex) \<longrightarrow> use_of db' a2 e2 = use_of db a2 e2) \<and>
     db' = db\<lparr>attribs := attribs db'\<rparr> \<and> out = attribution_of db' aid acc ex"
proof -
  from patch_execution_cases [OF assms(2)] obtain p q where args: "patch_fill_args body = Inr p"
    and run: "strict_both (execution_noun aid) FkInvalid (patch_fill_body aid p) env golden arg db = (q, db')"
    and q: "Inr out = fst (raising (q, db'))" by auto
  from q have "q = Inr out" by (auto simp: raising_def split: sum.splits)
  with strict_both_cases [OF run] have ok: "tx_ok env (patch_fill_body aid p) db out db'" by auto
  obtain touches inst opp splits where p: "p = (touches, inst, opp, splits)" by (metis prod.exhaust)
  from patch_fill_body_use [OF ok [unfolded p] args [unfolded p] assms(1)] args p
  show ?thesis unfolding use_of_def by (elim exE conjE) (intro exI conjI; assumption | auto)
qed

theorem patch_refines_attribution_witness:
  "use_of (snd (patch_execution (calm_env 0) True (ConnConfig pg_cfg) 7 to_trade_1 sample_fills)) ''U1'' ''E1'' = WholeOf 1"
proof -
  let ?r = "patch_execution (calm_env 0) True (ConnConfig pg_cfg) 7 to_trade_1 sample_fills"
  have "\<not> isl (fst ?r)" by code_simp
  then obtain out where "?r = (Inr out, snd ?r)" by (cases "fst ?r") (auto simp: prod_eq_iff)
  from patch_refines_attribution [OF sample_fills_ok this]
  obtain acc ex e touches inst opp splits where args: "patch_fill_args to_trade_1 = Inr (touches, inst, opp, splits)"
    and key: "map_option key_of_row (map_of (raw sample_fills (fst (raw_table_pk 7))) (snd (raw_table_pk 7))) = Some (acc, ex, e)"
    and use: "use_of (snd ?r) acc ex = spec_whole touches inst (spec_splits splits (use_of sample_fills acc ex))" by blast
  have "patch_fill_args to_trade_1 = Inr (True, Some 1, None, Some [])"
    "map_option key_of_row (map_of (raw sample_fills (fst (raw_table_pk 7))) (snd (raw_table_pk 7))) = Some (''U1'', ''E1'', Fin 10)"
    by code_simp+
  with args key use show ?thesis by (auto simp: spec_whole_def)
qed

text \<open>
  C7. A fill is attributed one way: over any sequence of patches, split replacements, imports,
  commission reports and deletes, whichever statement or commit of either database fails, no fill
  has two whole-fill trades, nor a whole-fill trade beside splits, no trade twice, no split of
  zero and no trade of another account.
\<close>

theorem fills_are_attributed_one_way:
  assumes "attribs_ok db"
  shows "attribs_ok (fold run_fill calls db)"
  using assms by (rule fill_writers.fold_keeps)

theorem fills_are_attributed_one_way_witness:
  "attribs_ok (fold run_fill [(calm_env 0, True, PatchFill (ConnConfig pg_cfg) 7 to_trade_1),
     (calm_env 0, True, DeleteFill (Some pg_cfg) (-11))] sample_fills)"
  by (rule fills_are_attributed_one_way [OF sample_fills_ok])

text \<open>
  C39. \<open>patch_execution\<close> changes nothing when it raises, although it holds a transaction on each of
  two databases and commits them one after the other: it writes only in the second.
\<close>

theorem failed_patch_changes_nothing:
  assumes "attribs_ok db" and "patch_execution env golden arg aid body db = (Inl e, db')"
  shows "db' = db"
proof (rule disjE [OF patch_execution_cases [OF assms(2)]], elim conjE, assumption)
  assume "\<exists>p q. patch_fill_args body = Inr p \<and>
     strict_both (execution_noun aid) FkInvalid (patch_fill_body aid p) env golden arg db = (q, db') \<and> Inl e = fst (raising (q, db'))"
  then obtain p q where args: "patch_fill_args body = Inr p"
    and run: "strict_both (execution_noun aid) FkInvalid (patch_fill_body aid p) env golden arg db = (q, db')"
    and q: "Inl e = fst (raising (q, db'))" by blast
  from q have "isl q" by (auto simp: raising_def split: sum.splits)
  with strict_both_cases [OF run] consider "db' = db" |
    (golden) a s where "tx_ok env (patch_fill_body aid p) db a s" "db' = golden_committed s db" by auto
  then show "db' = db"
  proof cases
    case golden
    obtain touches inst opp splits where p: "p = (touches, inst, opp, splits)" by (metis prod.exhaust)
    from patch_fill_body_use [OF golden(1) [unfolded p] args [unfolded p] assms(1)]
    have "s = db\<lparr>attribs := attribs s\<rparr>" by blast
    then have "raw s = raw db" "next_raw s = next_raw db" "commissions s = commissions db"
      by (metis fill_db.select_convs fill_db.surjective fill_db.update_convs(4))+
    with golden(2) show ?thesis by (simp add: golden_committed_def)
  qed
qed

text \<open>An environment in which the commit of the second database fails (request 7 of the patch below).\<close>

definition late_fault :: env where
  "late_fault = (calm_env 0)\<lparr>fault := (\<lambda>n. if n = 7 then Some (OtherExc ''commit'') else None)\<rparr>"

theorem failed_patch_changes_nothing_witness:
  "isl (fst (patch_execution late_fault True (ConnConfig pg_cfg) 7 to_trade_1 sample_fills)) \<and>
   snd (patch_execution late_fault True (ConnConfig pg_cfg) 7 to_trade_1 sample_fills) = sample_fills"
proof -
  let ?r = "patch_execution late_fault True (ConnConfig pg_cfg) 7 to_trade_1 sample_fills"
  have l: "isl (fst ?r)" by code_simp
  then obtain e where "?r = (Inl e, snd ?r)" by (cases "fst ?r") (auto simp: prod_eq_iff)
  from failed_patch_changes_nothing [OF sample_fills_ok this] l show ?thesis by simp
qed

text \<open>
  C24. The splits a patch stores add up: when \<open>patch_execution\<close> answers to a list of splits that is
  not empty, the fill is split over distinct trades of its own account, none with quantity zero,
  and the sum is the signed quantity of its raw row (negative for a sale) up to the tolerance
  \<open>1e-5 * max(1, |quantity|)\<close>.
\<close>

theorem patched_splits_add_up:
  assumes "attribs_ok db" and "patch_execution env golden arg aid body db = (Inr out, db')"
    and "patch_fill_args body = Inr (touches, inst, opp, Some (x # xs))"
    and "map_option key_of_row (map_of (raw db (fst (raw_table_pk aid))) (snd (raw_table_pk aid))) = Some (acc, ex, Fin q)"
  shows "\<exists>s. use_of db' acc ex = SplitOver s \<and> distinct (map fst s) \<and>
     \<bar>sum_list (map snd s) - q\<bar> \<le> 1/100000 * max 1 \<bar>q\<bar> \<and>
     (\<forall>(t, share)\<in>set s. share \<noteq> 0 \<and> (\<exists>tr. map_of (fill_trades db') t = Some tr \<and> ft_account tr = acc))"
proof -
  from patch_execution_cases [OF assms(2)] obtain p r where args: "patch_fill_args body = Inr p"
    and run: "strict_both (execution_noun aid) FkInvalid (patch_fill_body aid p) env golden arg db = (r, db')"
    and r: "Inr out = fst (raising (r, db'))" by auto
  from r have "r = Inr out" by (auto simp: raising_def split: sum.splits)
  with strict_both_cases [OF run] args assms(3)
  have ok: "tx_ok env (patch_fill_body aid (touches, inst, opp, Some (x # xs))) db out db'" by auto
  from patch_fill_body_use [OF ok assms(3) assms(1)] assms(4)
  have db': "attribs_ok db'" and v: "valid_splits acc (Fin q) (x # xs) db"
    and use: "use_of db' acc ex = spec_whole touches inst (SplitOver (asked_splits (x # xs)))"
    by (auto simp: spec_splits_def)
  from patch_fill_args_ok [OF assms(3)] have "inst = None" by (cases inst) auto
  with use have split: "use_of db' acc ex = SplitOver (asked_splits (x # xs))" by (simp add: spec_whole_def)
  have "share \<noteq> 0 \<and> (\<exists>tr. map_of (fill_trades db') t = Some tr \<and> ft_account tr = acc)"
    if "(t, share) \<in> set (asked_splits (x # xs))" for t share
    by (rule split_share_sound [OF db' split that])
  with split v show ?thesis by (auto simp: valid_splits_def adds_up_def)
qed

definition over_1_and_4 :: pyval where
  "over_1_and_4 = PDict [(''fill_splits'', PList [PDict [(''trade_id'', PInt 1), (''quantity'', PInt 3)],
     PDict [(''trade_id'', PInt 4), (''quantity'', PFloat (Fin 7))]])]"

theorem patched_splits_add_up_witness:
  "\<exists>s. use_of (snd (patch_execution (calm_env 0) True (ConnConfig pg_cfg) (-11) over_1_and_4 sample_fills)) ''U1'' ''E1''
     = SplitOver s \<and> \<bar>sum_list (map snd s) - 10\<bar> \<le> 1/10000"
proof -
  let ?r = "patch_execution (calm_env 0) True (ConnConfig pg_cfg) (-11) over_1_and_4 sample_fills"
  have "\<not> isl (fst ?r)" by code_simp
  then obtain out where run: "?r = (Inr out, snd ?r)" by (cases "fst ?r") (auto simp: prod_eq_iff)
  have args: "patch_fill_args over_1_and_4 = Inr (False, None, None, Some (PDict [(''trade_id'', PInt 1), (''quantity'', PInt 3)] #
      [PDict [(''trade_id'', PInt 4), (''quantity'', PFloat (Fin 7))]]))" by code_simp
  have key: "map_option key_of_row (map_of (raw sample_fills (fst (raw_table_pk (-11)))) (snd (raw_table_pk (-11))))
      = Some (''U1'', ''E1'', Fin 10)" by code_simp
  from patched_splits_add_up [OF sample_fills_ok run args key] show ?thesis by auto
qed

text \<open>
  \<open>update_one_execution\<close> can attribute a fill twice: with a trade and \<open>fill_splits: null\<close> it
  looks neither at the splits sent (there are none) nor at those stored (the key was sent), so a
  fill that is split gets a whole-fill trade beside its splits, and the call answers True.
\<close>

theorem null_splits_attribute_twice:
  assumes "raw_table_pk aid = (tbl, pk)" and "map_of (raw db tbl) pk = Some row" and "key_of_row row = (acc, ex, e)" and "ex \<noteq> []"
    and "map_of (fill_trades db) t = Some tr" and "ft_account tr = acc" and "strip acc = acc"
    and "\<forall>a\<in>set (attribs db). of_fill acc ex a \<longrightarrow> te_trade a \<noteq> t \<and> te_split a \<noteq> None"
    and "b \<in> set (attribs db)" and "of_fill acc ex b" and "\<not> not_postgres cfg"
  shows "fst (update_one_execution (calm_env n) True cfg aid [(''trade_id'', PInt t), (''fill_splits'', PNone)] db) = Inr True \<and>
     \<not> attribs_ok (snd (update_one_execution (calm_env n) True cfg aid [(''trade_id'', PInt t), (''fill_splits'', PNone)] db))"
proof -
  let ?body = "[(''trade_id'', PInt t), (''fill_splits'', PNone)]"
  let ?a = "\<lparr>te_account = acc, te_exec = ex, te_trade = t, te_split = None\<rparr>"
  have cols: "changed_cols ?body EXEC_COLS = Inr []" by (simp add: EXEC_COLS_def)
  have inst: "edit_instance ?body = Inr (True, Some t, None)"
    by (simp add: edit_instance_def direct_instance_def opt_py_int_def)
  have free: "attrib_violation db (filter (\<lambda>c. \<not> whole_row acc ex c) (attribs db)) ?a = None"
    using assms(5,6,8) by (auto simp: attrib_violation_None sound_row_def of_fill_iff)
  have nw: "\<not> list_ex (whole_row acc ex) (attribs db)" using assms(8) by (auto simp: list_ex_iff whole_row_def)
  have run: "update_one_execution (calm_env n) True cfg aid ?body db = (Inr True, db\<lparr>attribs := attribs db @ [?a]\<rparr>)"
    using assms(1-7,11) free nw
    by (simp add: update_one_execution_def cols inst both_open_def two_phase_def edit_fill_body_def fill_key_def tx_simps
        new_account_of_def edit_attribution_def edit_problem_def instance_problem_def instance_problem_of_def
        set_whole_attribution_def upsert_whole_def checked_def edit_commission_def COMMISSION_KEYS_def Let_def caught_def)
  have "\<not> exclusive (attribs db @ [?a])"
    using assms(8-10) by (auto simp: exclusive_def wholes_def of_fill_iff)
  then show ?thesis by (simp add: run attribs_ok_def)
qed

theorem null_splits_attribute_twice_witness:
  "fst (update_one_execution (calm_env 0) True (Some pg_cfg) (-11) [(''trade_id'', PInt 4), (''fill_splits'', PNone)] sample_fills) = Inr True"
  by (rule conjunct1 [OF null_splits_attribute_twice [where tbl = RawTws and pk = 11 and row = "sample_fill ''E1'' ''BOT'' 10"
        and acc = "''U1''" and ex = "''E1''" and e = "Fin 10" and tr = "\<lparr>ft_account = ''U1'', ft_opp = 6, ft_label = PStr ''spread''\<rparr>"
        and b = "\<lparr>te_account = ''U1'', te_exec = ''E1'', te_trade = 1, te_split = Some 6\<rparr>"]]) code_simp+

text \<open>
  A strict delete removes one recording of a fill and nothing another recording needs: the
  row is gone and no other, no option/stock link named it, the attribution goes only when no raw
  row carries the fill any more, and the commission only when no raw row carries the exec id.
\<close>

theorem strict_delete_spares_the_twin:
  assumes "delete_execution_strict env golden arg aid db = (Inr out, db')" and "raw_table_pk aid = (tbl, pk)"
  shows "\<exists>row acc ex e. map_of (raw db tbl) pk = Some row \<and> key_of_row row = (acc, ex, e) \<and>
     raw db' = (raw db)(tbl := filter (\<lambda>q. fst q \<noteq> pk) (raw db tbl)) \<and>
     list_all (\<lambda>l. fst l \<noteq> aid \<and> snd l \<noteq> aid) (stock_links db) \<and>
     attribs db' = (if ex = [] \<or> recorded (carries acc ex) db' then attribs db else filter (\<lambda>a. \<not> of_fill acc ex a) (attribs db)) \<and>
     commissions db' = (if ex = [] \<or> recorded (\<lambda>r. dget r ''exec_id'' = PStr ex) db'
                        then commissions db else AList.delete ex (commissions db))"
proof -
  from assms(1) have "strict_both (execution_noun aid) FkConflict (delete_execution_strict_body aid) env golden arg db = (Inr out, db')"
    by (auto simp: delete_execution_strict_def split: conn_arg.splits)
  from strict_both_cases [OF this] have "tx_ok env (delete_execution_strict_body aid) db out db'" by auto
  from strict_delete_ok [OF this assms(2)] show ?thesis .
qed

theorem strict_delete_spares_the_twin_witness:
  "attribs (snd (delete_execution_strict (calm_env 0) True (ConnConfig pg_cfg) (-11) sample_fills)) = attribs sample_fills"
proof -
  let ?r = "delete_execution_strict (calm_env 0) True (ConnConfig pg_cfg) (-11) sample_fills"
  have "\<not> isl (fst ?r)" by code_simp
  then obtain out where run: "?r = (Inr out, snd ?r)" by (cases "fst ?r") (auto simp: prod_eq_iff)
  have tp: "raw_table_pk (-11) = (RawTws, 11)" by code_simp
  from strict_delete_spares_the_twin [OF run tp] obtain row acc ex e where
    row: "map_of (raw sample_fills RawTws) 11 = Some row" "key_of_row row = (acc, ex, e)"
    and at: "attribs (snd ?r) = (if ex = [] \<or> recorded (carries acc ex) (snd ?r) then attribs sample_fills
        else filter (\<lambda>a. \<not> of_fill acc ex a) (attribs sample_fills))" by blast
  have "map_of (raw sample_fills RawTws) 11 = Some (sample_fill ''E1'' ''BOT'' 10)"
    "key_of_row (sample_fill ''E1'' ''BOT'' 10) = (''U1'', ''E1'', Fin 10)"
    "recorded (carries ''U1'' ''E1'') (snd ?r)" by code_simp+
  with row at show ?thesis by auto
qed

text \<open>
  The overlay id names one raw row: it leads back to the table and key the execution views
  computed it from (TWS keys below a billion), and every id that is not zero is the id of what it
  leads to.
\<close>

theorem overlay_id_round_trip:
  "(0 < pk \<and> (tbl = RawTws \<longrightarrow> pk < journal_id_offset) \<longrightarrow> raw_table_pk (view_id tbl pk) = (tbl, pk)) \<and>
   (case raw_table_pk aid of (t, k) \<Rightarrow> view_id t k = aid)"
  by (cases tbl) (auto simp: raw_table_pk_def journal_id_offset_def)

theorem overlay_id_round_trip_witness: "raw_table_pk (view_id RawJournal 42) = (RawJournal, 42)"
  using overlay_id_round_trip [of 42 RawJournal 1] by simp

end
