(* ===== verification/Calendar.thy ===== *)
theory Calendar
  imports Py_Value
begin

text \<open>
  The calendar arithmetic of \<open>Py_Value\<close> is the Gregorian calendar's: a day number is taken apart into
  the year, month and day it was put together from, and the ISO texts of dates and moments are
  read back.
\<close>

section \<open>Years\<close>

lemma div_step: "0 < k \<Longrightarrow> y div k = (y - 1) div k + (if y mod k = 0 then 1 else 0)" for k y :: int
proof (cases "y mod k = 0")
  case True
  assume k: "0 < k"
  have "(y - 1) div k = y div k - 1"
    by (rule int_div_pos_eq [where r = "k - 1"]) (use k True mult_div_mod_eq [of k y] in \<open>auto simp: algebra_simps\<close>)
  with True show ?thesis by simp
next
  case False
  assume k: "0 < k"
  have "y mod k \<noteq> 0" "0 \<le> y mod k" "y mod k < k" using False pos_mod_sign [OF k] pos_mod_bound [OF k] by auto
  then have "0 \<le> y mod k - 1" "y mod k - 1 < k" by linarith+
  moreover have "y - 1 = k * (y div k) + (y mod k - 1)" using mult_div_mod_eq [of k y] by linarith
  ultimately have "(y - 1) div k = y div k" by (intro int_div_pos_eq)
  with False show ?thesis by simp
qed

lemma year_sum:
  fixes y p q r i j k :: int
  assumes "p1 = p + i" "q1 = q + j" "r1 = r + k"
  shows "y * 365 + p1 - q1 + r1 = (y - 1) * 365 + p - q + r + 365 + i - j + k"
  using assms by simp

lemma days_before_year_step: "days_before_year (y + 1) = days_before_year y + (if leap_year y then 366 else 365)"
proof -
  have "y mod 100 = (y mod 400) mod 100" "y mod 4 = (y mod 100) mod 4" by (simp_all add: mod_mod_cancel)
  then have leap: "y mod 400 = 0 \<Longrightarrow> y mod 100 = 0" "y mod 100 = 0 \<Longrightarrow> y mod 4 = 0" by simp_all
  have e: "y + 1 - 1 = y" by simp
  have "days_before_year (y + 1) = days_before_year y + 365 + (if y mod 4 = 0 then 1 else 0)
      - (if y mod 100 = 0 then 1 else 0) + (if y mod 400 = 0 then 1 else 0)"
    unfolding days_before_year_def e by (rule year_sum) (rule div_step, simp)+
  with leap show ?thesis
    by (cases "y mod 400 = 0"; cases "y mod 100 = 0"; cases "y mod 4 = 0") (simp_all add: leap_year_def)
qed

lemma quarter_bounds:
  fixes a p q r :: int
  assumes "4 * p \<le> a" "a < 4 * p + 4" "100 * q \<le> a" "a < 100 * q + 100" "400 * r \<le> a" "a < 400 * r + 400"
  shows "2 \<le> a \<Longrightarrow> p - q + r \<le> a" "1460970 * a - 6990 \<le> 4000 * (a * 365 + p - q + r)"
proof -
  have "a + 1 \<le> 4 * p + 4" "a + 1 \<le> 400 * r + 400" using assms(2,6) by simp_all
  with assms(3) show "1460970 * a - 6990 \<le> 4000 * (a * 365 + p - q + r)" by simp
qed (use assms in linarith)

lemma div_bounds: "4 * (a div 4) \<le> a" "a < 4 * (a div 4) + 4" "100 * (a div 100) \<le> a" "a < 100 * (a div 100) + 100"
  "400 * (a div 400) \<le> a" "a < 400 * (a div 400) + 400" for a :: int
  by simp_all

lemma days_before_year_low: "1460970 * y - 1467960 \<le> 4000 * days_before_year y"
  using quarter_bounds(2) [OF div_bounds [of "y - 1"]] by (simp add: days_before_year_def)

lemma days_before_year_high: "1 \<le> y \<Longrightarrow> days_before_year y \<le> (y - 1) * 366"
proof (cases "y \<le> 2")
  case True
  assume "1 \<le> y"
  with True have "y = 1 \<or> y = 2" by linarith
  then show ?thesis by (auto simp: days_before_year_def)
next
  case False
  then show ?thesis using quarter_bounds(1) [OF div_bounds [of "y - 1"]] by (simp add: days_before_year_def)
qed

definition max_ordinal :: int where
  "max_ordinal = 3652059"

text \<open>The search over years finds the year of the day.\<close>

lemma year_search:
  assumes "1 \<le> n" and "n \<le> max_ordinal"
  defines "y0 \<equiv> (n - 1) div 366 + 1"
  defines "y \<equiv> last (y0 # filter (\<lambda>y. days_before_year y < n) [y0..y0 + 21])"
  shows "1 \<le> y \<and> y \<le> 9999 \<and> days_before_year y < n \<and> n \<le> days_before_year (y + 1)"
proof -
  have y0: "1 \<le> y0" using assms(1) by (simp add: y0_def pos_imp_zdiv_nonneg_iff)
  have r: "366 * (y0 - 1) \<le> n - 1" "n - 1 < 366 * y0" by (simp_all add: y0_def)
  have low: "days_before_year y0 < n" using days_before_year_high [OF y0] r by linarith
  have high: "n \<le> days_before_year (y0 + 22)"
    using days_before_year_low [of "y0 + 22"] r assms(2) by (simp add: max_ordinal_def)
  let ?f = "filter (\<lambda>y. days_before_year y < n) [y0..y0 + 21]"
  have ne: "?f \<noteq> []" using low by (auto simp: filter_empty_conv)
  then have y: "y = last ?f" by (simp add: y_def)
  have mem: "y \<in> set ?f" using ne unfolding y by (rule last_in_set)
  have sorted: "sorted ?f" by (rule sorted_wrt_filter) simp
  have max: "z \<le> y" if "z \<in> set ?f" for z
    unfolding y by (rule sorted_le_last [OF sorted that])
  have up: "n \<le> days_before_year (y + 1)"
  proof (rule ccontr)
    assume "\<not> n \<le> days_before_year (y + 1)"
    moreover have "y < y0 + 21 \<or> y = y0 + 21" using mem by auto
    ultimately have "y < y0 + 21" using high by (auto simp: add.assoc)
    with \<open>\<not> n \<le> days_before_year (y + 1)\<close> mem have "y + 1 \<in> set ?f" by auto
    from max [OF this] show False by simp
  qed
  have "y \<le> 9999"
  proof (rule ccontr)
    assume "\<not> y \<le> 9999"
    then have "1460970 * 10000 - 1467960 \<le> 4000 * days_before_year y" using days_before_year_low [of y] by simp
    with mem assms(2) show False by (simp add: max_ordinal_def)
  qed
  with up mem y0 show ?thesis by auto
qed

section \<open>Months\<close>

lemma days_in_month_pos: "1 \<le> days_in_month y m"
  by (simp add: days_in_month_def)

lemma month_search:
  assumes "1 \<le> m" and "m \<le> 12" and "0 \<le> r" and "r < sum_list (map (days_in_month y) [m..12])"
  shows "\<exists>m' d. month_of y [m..12] r = (m', d) \<and> m \<le> m' \<and> m' \<le> 12 \<and> 1 \<le> d \<and> d \<le> days_in_month y m' \<and>
     sum_list (map (days_in_month y) [m..m' - 1]) + d = r + 1"
  using assms
proof (induction "nat (12 - m)" arbitrary: m r)
  case 0
  then have "m = 12" by simp
  with 0 show ?case by (auto simp: upto.simps)
next
  case (Suc k)
  then have m: "m < 12" by simp
  then have up: "[m..12] = m # [m + 1..12]" by (simp add: upto_rec1)
  show ?case
  proof (cases "r < days_in_month y m")
    case True
    with Suc.prems m up show ?thesis by auto
  next
    case False
    with Suc up m have "\<exists>m' d. month_of y [m + 1..12] (r - days_in_month y m) = (m', d) \<and> m + 1 \<le> m' \<and> m' \<le> 12 \<and> 1 \<le> d \<and>
        d \<le> days_in_month y m' \<and> sum_list (map (days_in_month y) [m + 1..m' - 1]) + d = r - days_in_month y m + 1"
      by (intro Suc.hyps(1)) auto
    then obtain m' d where i: "month_of y [m + 1..12] (r - days_in_month y m) = (m', d)" "m + 1 \<le> m'" "m' \<le> 12" "1 \<le> d"
        "d \<le> days_in_month y m'" "sum_list (map (days_in_month y) [m + 1..m' - 1]) + d = r - days_in_month y m + 1" by blast
    from i(2) have "[m..m' - 1] = m # [m + 1..m' - 1]" by (simp add: upto_rec1)
    with i up False show ?thesis by auto
  qed
qed

lemma year_length: "sum_list (map (days_in_month y) [1..12]) = (if leap_year y then 366 else 365)"
  by (simp add: upto.simps days_in_month_def)

lemma from_ordinal_ok:
  assumes "1 \<le> n" and "n \<le> max_ordinal"
  shows "\<exists>y m d. from_ordinal n = (y, m, d) \<and> mk_date y m d = Some (y, m, d) \<and> to_ordinal (y, m, d) = n"
proof -
  let ?y0 = "(n - 1) div 366 + 1"
  define y where "y = last (?y0 # filter (\<lambda>y. days_before_year y < n) [?y0..?y0 + 21])"
  from year_search [OF assms] have y: "1 \<le> y" "y \<le> 9999" "days_before_year y < n" "n \<le> days_before_year (y + 1)"
    unfolding y_def by blast+
  let ?r = "n - days_before_year y - 1"
  have "?r < sum_list (map (days_in_month y) [1..12])" using y(4) days_before_year_step [of y] by (simp add: year_length)
  then obtain m d where m: "month_of y [1..12] ?r = (m, d)" "1 \<le> m" "m \<le> 12" "1 \<le> d" "d \<le> days_in_month y m"
      "sum_list (map (days_in_month y) [1..m - 1]) + d = ?r + 1"
    using month_search [of 1 ?r y] y(3) by auto
  have "from_ordinal n = (y, m, d)" unfolding from_ordinal_def Let_def y_def [symmetric] m(1) by simp
  moreover have "to_ordinal (y, m, d) = n" using m(6) by (simp add: to_ordinal_def days_before_month_def)
  ultimately show ?thesis using y m by (auto simp: mk_date_def)
qed

section \<open>Texts\<close>

lemma digit_char_is_digit [simp]: "is_digit (digit_char n)"
proof -
  have "nat (n mod 10) < 10" by simp
  then have "digit_chars ! nat (n mod 10) \<in> set digit_chars" by (intro nth_mem) (simp add: digit_chars_def)
  then show ?thesis by (simp add: digit_char_def is_digit_def)
qed

lemma pos_str_1: "n < 10 \<Longrightarrow> pos_str n = [digit_char n]"
  by (subst pos_str.simps) simp

lemma pos_str_2: "10 \<le> n \<Longrightarrow> n < 100 \<Longrightarrow> pos_str n = [digit_char (n div 10), digit_char (n mod 10)]"
  by (subst pos_str.simps) (simp add: pos_str_1)

lemma zero_digit: "is_digit CHR ''0''"
  by (simp add: is_digit_def digit_chars_def)

lemma pad2_ok: "0 \<le> n \<Longrightarrow> n < 100 \<Longrightarrow> length (pad2 n) = 2 \<and> list_all is_digit (pad2 n) \<and> digits_val (pad2 n) = n"
proof (cases "n < 10")
  case True
  assume n: "0 \<le> n" "n < 100"
  with True have "digits_val (''0'' @ pos_str n) = n"
    by (simp add: pos_str_1 digits_val_def digit_val_char) (simp add: digit_val_def digit_chars_def upto.simps)
  with True show ?thesis by (simp add: pad2_def pos_str_1 zero_digit)
next
  case False
  assume n: "0 \<le> n" "n < 100"
  with False have "pad2 n = pos_str n" "pos_str n = [digit_char (n div 10), digit_char (n mod 10)]"
    by (simp_all add: pad2_def pos_str_2)
  moreover have "digits_val (pos_str n) = n" using n by simp
  ultimately show ?thesis by simp
qed

lemma two_digits_pad2 [simp]: "0 \<le> n \<Longrightarrow> n < 100 \<Longrightarrow> two_digits (pad2 n) = Some n"
  using pad2_ok [of n] by (simp add: two_digits_def)

lemma pos_str_all_digits: "list_all is_digit (pos_str n)"
  by (rule conjunct2 [OF isdigit_pos_str [unfolded isdigit_def]])

text \<open>A number in exactly \<open>k\<close> digits.\<close>

definition padded :: "nat \<Rightarrow> int \<Rightarrow> string" where
  "padded k n = replicate (k - length (pos_str n)) CHR ''0'' @ pos_str n"

lemma padded_ok:
  assumes "0 \<le> n" and "n < 10 ^ k" and "0 < k"
  shows "length (padded k n) = k \<and> list_all is_digit (padded k n) \<and> digits_val (padded k n) = n"
  using length_pos_str_bound [OF assms(2,3)] assms(1)
  by (auto simp: padded_def digits_val_zeros pos_str_all_digits list_all_iff zero_digit
      dest: pos_str_all_digits [unfolded list_all_iff, rule_format])

lemma pad4_padded: "pad4 n = padded 4 n"
  by (simp add: pad4_def padded_def Let_def)

lemma iso_date_parts:
  assumes "mk_date y m d = Some (y, m, d)"
  shows "length (pad4 y) = 4" "length (pad2 m) = 2" "length (pad2 d) = 2" "list_all is_digit (pad4 y)" "digits_val (pad4 y) = y"
    "two_digits (pad2 m) = Some m" "two_digits (pad2 d) = Some d"
proof -
  from assms have b: "1 \<le> y" "y \<le> 9999" "1 \<le> m" "m \<le> 12" "1 \<le> d" "d \<le> days_in_month y m"
    by (auto simp: mk_date_def split: if_splits)
  have "days_in_month y m \<le> 31" by (simp add: days_in_month_def)
  with b have "d < 100" by simp
  with b show "length (pad2 m) = 2" "length (pad2 d) = 2" "two_digits (pad2 m) = Some m" "two_digits (pad2 d) = Some d"
    using pad2_ok [of m] pad2_ok [of d] by simp_all
  from b show "length (pad4 y) = 4" "list_all is_digit (pad4 y)" "digits_val (pad4 y) = y"
    using padded_ok [of y 4] by (simp_all add: pad4_padded)
qed

lemma iso_date_length: "mk_date y m d = Some (y, m, d) \<Longrightarrow> length (iso_date (y, m, d)) = 10"
  using iso_date_parts [of y m d] by simp

text \<open>\<open>date.fromisoformat(d.isoformat()) = d\<close>\<close>

lemma iso_date_read:
  assumes "mk_date y m d = Some (y, m, d)"
  shows "iso_date_part (iso_date (y, m, d)) = Some (y, m, d)"
proof -
  note p = iso_date_parts [OF assms]
  have "take 4 (iso_date (y, m, d)) = pad4 y" "iso_date (y, m, d) ! 4 = CHR ''-''" "iso_date (y, m, d) ! 7 = CHR ''-''"
    "take 2 (drop 5 (iso_date (y, m, d))) = pad2 m" "drop 8 (iso_date (y, m, d)) = pad2 d"
    using p(1-3) by (simp_all add: nth_append)
  with p iso_date_length [OF assms] assms show ?thesis by (simp add: iso_date_part_def del: iso_date.simps)
qed

text \<open>\<open>datetime.isoformat()\<close> of a moment in UTC: the fraction is left out when it is zero.\<close>

definition iso_time :: "int \<Rightarrow> string" where
  "iso_time u =
     (let s = u div 1000000; f = u mod 1000000
      in pad2 (s div 3600) @ '':'' @ pad2 (s div 60 mod 60) @ '':'' @ pad2 (s mod 60) @ (if f = 0 then [] else CHR ''.'' # padded 6 f))"

definition iso_datetime :: "int \<Rightarrow> string" where
  "iso_datetime t = iso_date (date_of_instant t) @ ''T'' @ iso_time (t mod us_per_day) @ ''+00:00''"

text \<open>The moments of the years 1 to 9999.\<close>

definition representable :: "int \<Rightarrow> bool" where
  "representable t \<longleftrightarrow> 1 \<le> epoch_ordinal + t div us_per_day \<and> epoch_ordinal + t div us_per_day \<le> max_ordinal"

definition plain_char :: "char \<Rightarrow> bool" where
  "plain_char c \<longleftrightarrow> is_digit c \<or> c = CHR '':'' \<or> c = CHR ''.''"

lemma plain_not_tz: "plain_char c \<Longrightarrow> \<not> tz_char c"
  by (auto simp: plain_char_def tz_char_def is_digit_def digit_chars_def)

lemma digit_plain: "is_digit c \<Longrightarrow> plain_char c" and digit_not_colon: "is_digit c \<Longrightarrow> c \<noteq> CHR '':'' \<and> c \<noteq> CHR ''.''"
  by (auto simp: plain_char_def is_digit_def digit_chars_def)

lemma pad2_plain: "0 \<le> n \<Longrightarrow> n < 100 \<Longrightarrow> list_all is_digit (pad2 n)"
  using pad2_ok by blast

lemma padded_digits: "0 \<le> f \<Longrightarrow> f < 1000000 \<Longrightarrow> isdigit (padded 6 f) \<and> length (padded 6 f) = 6 \<and> digits_val (padded 6 f) = f"
  using padded_ok [of f 6] by (auto simp: isdigit_def padded_def)

lemma split_at_first: "(\<forall>c\<in>set s. \<not> p c) \<Longrightarrow> p x \<Longrightarrow> split_at p (s @ x # r) = (s, Some r)"
  by (simp add: split_at_def dropWhile_append2 takeWhile_append2)

text \<open>The seconds with their fraction.\<close>

lemma iso_seconds_read:
  assumes "0 \<le> x" "x < 60" "0 \<le> f" "f < 1000000"
  shows "iso_seconds (pad2 x @ (if f = 0 then [] else CHR ''.'' # padded 6 f)) = Some (x * 1000000 + f)"
proof -
  have d: "\<forall>c\<in>set (pad2 x). c \<noteq> CHR ''.''" using pad2_plain [of x] assms digit_not_colon by (auto simp: list_all_iff)
  show ?thesis
  proof (cases "f = 0")
    case True
    with split_at_none [of "pad2 x" "\<lambda>c. c = CHR ''.''"] d assms show ?thesis by (simp add: iso_seconds_def)
  next
    case False
    have "micros (padded 6 f) = Some f" using padded_digits [of f] assms by (simp add: micros_def)
    with False split_at_first [of "pad2 x" "\<lambda>c. c = CHR ''.''" "CHR ''.''" "padded 6 f"] d assms
    show ?thesis by (simp add: iso_seconds_def)
  qed
qed

lemma clock_sum: "h * 60 + m = q \<Longrightarrow> q * 60 + x = s \<Longrightarrow> s * 1000000 + f = u \<Longrightarrow>
    (h * 60 + m) * 60000000 + (x * 1000000 + f) = u" for h m q x s f u :: int
  by (simp add: algebra_simps)

lemma clock_parts:
  assumes "0 \<le> u" "u < us_per_day"
  defines "s \<equiv> u div 1000000"
  shows "0 \<le> s div 3600" "s div 3600 < 24" "0 \<le> s div 60 mod 60" "s div 60 mod 60 < 60" "0 \<le> s mod 60" "s mod 60 < 60"
    "(s div 3600 * 60 + s div 60 mod 60) * 60000000 + (s mod 60 * 1000000 + u mod 1000000) = u"
proof -
  have s: "0 \<le> s" "s < 86400" using assms by (simp_all add: s_def us_per_day_def pos_imp_zdiv_nonneg_iff div_less_iff_less_mult)
  then show "0 \<le> s div 3600" "s div 3600 < 24" "0 \<le> s div 60 mod 60" "s div 60 mod 60 < 60" "0 \<le> s mod 60" "s mod 60 < 60"
    by (simp_all add: pos_imp_zdiv_nonneg_iff div_less_iff_less_mult)
  have "s div 3600 = s div 60 div 60" by (simp add: zdiv_zmult2_eq [symmetric])
  then have "s div 3600 * 60 + s div 60 mod 60 = s div 60" by simp
  moreover have "s div 60 * 60 + s mod 60 = s" by simp
  moreover have "s * 1000000 + u mod 1000000 = u" by (simp add: s_def)
  ultimately show "(s div 3600 * 60 + s div 60 mod 60) * 60000000 + (s mod 60 * 1000000 + u mod 1000000) = u"
    by (rule clock_sum)
qed

lemma pad2_no_colon: "0 \<le> n \<Longrightarrow> n < 100 \<Longrightarrow> CHR '':'' \<notin> set (pad2 n)"
  using pad2_plain [of n] digit_not_colon by (auto simp: list_all_iff)

lemma fraction_no_colon: "0 \<le> f \<Longrightarrow> f < 1000000 \<Longrightarrow> CHR '':'' \<notin> set (if f = 0 then [] else CHR ''.'' # padded 6 f)"
  using padded_ok [of f 6] digit_not_colon by (auto simp: list_all_iff)

lemma split_three: "c \<notin> set a \<Longrightarrow> c \<notin> set b \<Longrightarrow> c \<notin> set d \<Longrightarrow> split_on c (a @ c # (b @ c # d)) = [a, b, d]"
  by (simp add: split_on_append split_on_single)

lemma iso_time_read:
  assumes "0 \<le> u" "u < us_per_day"
  shows "iso_time_part (iso_time u) = Some u"
proof -
  define s where "s = u div 1000000"
  define f where "f = u mod 1000000"
  let ?sec = "pad2 (s mod 60) @ (if f = 0 then [] else CHR ''.'' # padded 6 f)"
  note c = clock_parts [OF assms, folded s_def]
  have f: "0 \<le> f" "f < 1000000" by (simp_all add: f_def)
  have eq: "iso_time u = pad2 (s div 3600) @ CHR '':'' # (pad2 (s div 60 mod 60) @ CHR '':'' # ?sec)"
    unfolding iso_time_def Let_def s_def [symmetric] f_def [symmetric] by simp
  have sec: "CHR '':'' \<notin> set ?sec" using pad2_no_colon [of "s mod 60"] fraction_no_colon [OF f] c(5,6) by simp
  have hm: "CHR '':'' \<notin> set (pad2 (s div 3600))" "CHR '':'' \<notin> set (pad2 (s div 60 mod 60))"
    using pad2_no_colon c(1-4) by simp_all
  have parts: "split_on (CHR '':'') (iso_time u) = [pad2 (s div 3600), pad2 (s div 60 mod 60), ?sec]"
    unfolding eq by (rule split_three [OF hm sec])
  have read: "two_digits (pad2 (s div 3600)) = Some (s div 3600)" "two_digits (pad2 (s div 60 mod 60)) = Some (s div 60 mod 60)"
    "iso_seconds ?sec = Some (s mod 60 * 1000000 + f)"
    using iso_seconds_read c(1-6) f by simp_all
  have "s mod 60 * 1000000 + f < 60000000" using c(5,6) f by linarith
  then show ?thesis
    unfolding iso_time_part_def Let_def parts list.case read prod.case option.case
    using c(2,4) c(7) [folded f_def] by (simp only: simp_thms if_True)
qed

lemma iso_time_plain: "0 \<le> u \<Longrightarrow> u < us_per_day \<Longrightarrow> list_all plain_char (iso_time u)"
proof -
  assume u: "0 \<le> u" "u < us_per_day"
  note c = clock_parts [OF u]
  have "list_all plain_char (pad2 n)" if "0 \<le> n" "n < 60" for n
    using pad2_plain [of n] that digit_plain by (auto simp: list_all_iff)
  moreover have "list_all plain_char (padded 6 (u mod 1000000))"
    using padded_ok [of "u mod 1000000" 6] digit_plain by (auto simp: list_all_iff)
  ultimately show ?thesis using c(1-6) by (simp add: iso_time_def Let_def plain_char_def)
qed

text \<open>\<open>datetime.fromisoformat(t.isoformat()) = t\<close>\<close>

theorem iso_datetime_read:
  assumes "representable t"
  shows "fromisoformat (iso_datetime t) = Some (Aware t)"
proof -
  let ?u = "t mod us_per_day"
  have u: "0 \<le> ?u" "?u < us_per_day" by (simp_all add: us_per_day_def)
  from from_ordinal_ok [of "epoch_ordinal + t div us_per_day"] assms obtain y m d where
    ymd: "date_of_instant t = (y, m, d)" "mk_date y m d = Some (y, m, d)" "to_ordinal (y, m, d) = epoch_ordinal + t div us_per_day"
    by (auto simp: representable_def date_of_instant_def)
  let ?date = "iso_date (y, m, d)"
  have len: "length ?date = 10" by (rule iso_date_length [OF ymd(2)])
  have eq: "iso_datetime t = ?date @ CHR ''T'' # (iso_time ?u @ ''+00:00'')" by (simp add: iso_datetime_def ymd(1) del: iso_date.simps)
  have t10: "take 10 (iso_datetime t) = ?date" and d11: "drop 11 (iso_datetime t) = iso_time ?u @ ''+00:00''"
    using len by (simp_all add: eq del: iso_date.simps)
  have np: "\<forall>c\<in>set (iso_time ?u). \<not> tz_char c" using iso_time_plain [OF u] plain_not_tz by (auto simp: list_all_iff)
  have tz: "dropWhile (Not \<circ> tz_char) (iso_time ?u @ ''+00:00'') = ''+00:00''"
    "takeWhile (Not \<circ> tz_char) (iso_time ?u @ ''+00:00'') = iso_time ?u"
    using np by (simp_all add: dropWhile_append2 takeWhile_append2 tz_char_def)
  have off: "iso_time_part ''00:00'' = Some 0" by code_simp
  have long: "length (iso_datetime t) \<noteq> 10" using len by (simp add: eq del: iso_date.simps)
  have "(to_ordinal (y, m, d) - epoch_ordinal) * us_per_day + ?u = t" by (simp add: ymd(3) us_per_day_def)
  then show ?thesis
    unfolding fromisoformat_def Let_def t10 d11 tz iso_date_read [OF ymd(2)] iso_time_read [OF u]
    by (simp add: long off)
qed

end
