(* ===== verification/Keyset.thy ===== *)
theory Keyset
  imports Json_Text Calendar
begin

text \<open>
  Opaque cursors (\<open>portfolio/reader/keyset.py\<close>): the token of a row's sort key, the conditions
  that continue after it, and the two paged readers of \<open>portfolio/reader/executions.py\<close> that use
  them. Text is ASCII, times are UTC.
\<close>

section \<open>Base64\<close>

definition b64_alphabet :: string where
  "b64_alphabet = ''ABCDEFGHIJKLMNOPQRSTUVWXYZabcdefghijklmnopqrstuvwxyz0123456789-_''"

definition b64_char :: "nat \<Rightarrow> char" where
  "b64_char n = b64_alphabet ! n"

text \<open>\<open>urlsafe_b64encode\<close> without the padding.\<close>

fun b64_groups :: "nat list \<Rightarrow> nat list" where
  "b64_groups (a # b # c # r) =
     (a div 4) # (a mod 4 * 16 + b div 16) # (b mod 16 * 4 + c div 64) # (c mod 64) # b64_groups r"
| "b64_groups [a, b] = [a div 4, a mod 4 * 16 + b div 16, b mod 16 * 4]"
| "b64_groups [a] = [a div 4, a mod 4 * 16]"
| "b64_groups [] = []"

definition b64_encode :: "string \<Rightarrow> string" where
  "b64_encode s = map b64_char (b64_groups (map of_char s))"

text \<open>The decoder's table accepts both alphabets; other characters are skipped.\<close>

definition b64_value :: "char \<Rightarrow> nat option" where
  "b64_value c = map_of (zip (b64_alphabet @ ''+/'') ([0..<64] @ [62, 63])) c"

text \<open>
  \<open>binascii.a2b_base64\<close>, which ignores foreign characters: position in the group of four, bits left
  over, padding seen, bytes so far in reverse. A group left open is an error.
\<close>

fun a2b :: "string \<Rightarrow> nat \<Rightarrow> nat \<Rightarrow> nat \<Rightarrow> nat list \<Rightarrow> nat list option" where
  "a2b [] pos left pads out = (if pos = 0 then Some (rev out) else None)"
| "a2b (c # cs) pos left pads out =
     (if c = CHR ''=''
      then (if pos \<ge> 2 \<and> pos + (pads + 1) \<ge> 4 then Some (rev out)
            else a2b cs pos left (if pos \<ge> 2 then pads + 1 else pads) out)
      else (case b64_value c of
          None \<Rightarrow> a2b cs pos left pads out
        | Some v \<Rightarrow>
            if pos = 0 then a2b cs 1 v 0 out
            else if pos = 1 then a2b cs 2 (v mod 16) 0 ((left * 4 + v div 16) # out)
            else if pos = 2 then a2b cs 3 (v mod 4) 0 ((left * 16 + v div 4) # out)
            else a2b cs 0 0 0 ((left * 64 + v) # out)))"

definition b64_decode :: "string \<Rightarrow> nat list option" where
  "b64_decode token = a2b (token @ replicate ((4 - length token mod 4) mod 4) (CHR ''='')) 0 0 0 []"

section \<open>Tokens\<close>

definition VERSION :: int where
  "VERSION = 1"

definition EXECUTIONS :: string where
  "EXECUTIONS = ''executions''"

definition TRANSACTIONS :: string where
  "TRANSACTIONS = ''transactions''"

definition MAX_TOKEN_LEN :: nat where
  "MAX_TOKEN_LEN = 512"

text \<open>The JSON object with sorted keys and no spaces; the payload's keys are given in sorted order.\<close>

definition encode :: "string \<Rightarrow> pydict \<Rightarrow> string" where
  "encode kind payload =
     (let body = sort_key fst (payload @ [(''k'', PStr kind), (''v'', PInt VERSION)])
      in b64_encode (json_value '','' '':'' (PDict body)))"

text \<open>The bytes as text, when they are ASCII.\<close>

definition ascii_text :: "nat list \<Rightarrow> string option" where
  "ascii_text bs = (if list_all (\<lambda>b. b < 128) bs then Some (map char_of bs) else None)"

definition not_issued :: "string + 'a" where
  "not_issued = Inl ''cursor is not one this API issued''"

text \<open>\<open>v == 1\<close> and \<open>v == kind\<close> on a JSON value.\<close>

definition equals_one :: "pyval \<Rightarrow> bool" where
  "equals_one v \<longleftrightarrow> v = PInt VERSION \<or> v = PBool True \<or> v = PFloat (Fin 1)"

definition decode_body :: "pyval \<Rightarrow> string \<Rightarrow> string + pydict" where
  "decode_body token kind = (case token of
       PStr raw \<Rightarrow>
         (let t = strip raw
          in if t = [] then Inl ''cursor is empty''
             else if length t > MAX_TOKEN_LEN then Inl ''cursor is too long''
             else case b64_decode t of
                 None \<Rightarrow> not_issued
               | Some bs \<Rightarrow> (case ascii_text bs of
                     None \<Rightarrow> not_issued
                   | Some s \<Rightarrow> (case json_loads_text s of
                         Some (PDict body) \<Rightarrow>
                           if \<not> equals_one (dget body ''v'') then not_issued
                           else if dget body ''k'' \<noteq> PStr kind
                           then Inl (''cursor belongs to another list ('' @ py_repr (dget body ''k'') @ ''), not '' @ kind)
                           else Inr body
                       | _ \<Rightarrow> not_issued)))
     | _ \<Rightarrow> Inl ''cursor is empty'')"

definition cursor_id :: "pydict \<Rightarrow> string + int" where
  "cursor_id body = (case dget body ''i'' of PInt i \<Rightarrow> Inr i | _ \<Rightarrow> Inl ''cursor id is not an integer'')"

definition opt_date :: "pydict \<Rightarrow> string \<Rightarrow> string + date option" where
  "opt_date body key = (case dget body key of
       PNone \<Rightarrow> Inr None
     | PStr s \<Rightarrow> (case iso_date_part s of None \<Rightarrow> Inl ''cursor date is not YYYY-MM-DD'' | Some d \<Rightarrow> Inr (Some d))
     | _ \<Rightarrow> Inl ''cursor date is not a string'')"

definition opt_ts :: "pydict \<Rightarrow> string \<Rightarrow> string + int option" where
  "opt_ts body key = (case dget body key of
       PNone \<Rightarrow> Inr None
     | PStr s \<Rightarrow> (case fromisoformat s of
           None \<Rightarrow> Inl ''cursor timestamp is not ISO 8601''
         | Some (Naive _) \<Rightarrow> Inl ''cursor timestamp has no offset''
         | Some (Aware t) \<Rightarrow> Inr (Some t))
     | _ \<Rightarrow> Inl ''cursor timestamp is not a string'')"

definition has_keys :: "pydict \<Rightarrow> string list \<Rightarrow> bool" where
  "has_keys body ks \<longleftrightarrow> set (map fst body) = set ks"

type_synonym exec_key = "date option \<times> int option \<times> int"

definition iso_opt_date :: "date option \<Rightarrow> pyval" where
  "iso_opt_date d = (case d of None \<Rightarrow> PNone | Some x \<Rightarrow> PStr (iso_date x))"

definition iso_opt_time :: "int option \<Rightarrow> pyval" where
  "iso_opt_time t = (case t of None \<Rightarrow> PNone | Some x \<Rightarrow> PStr (iso_datetime x))"

definition encode_executions :: "exec_key \<Rightarrow> string" where
  "encode_executions k = (case k of (d, t, i) \<Rightarrow>
     encode EXECUTIONS [(''d'', iso_opt_date d), (''t'', iso_opt_time t), (''i'', PInt i)])"

definition decode_executions :: "pyval \<Rightarrow> string + exec_key" where
  "decode_executions token =
     ebind (decode_body token EXECUTIONS) (\<lambda>body.
     if \<not> has_keys body [''v'', ''k'', ''d'', ''t'', ''i''] then Inl ''cursor fields do not match the executions list''
     else ebind (opt_date body ''d'') (\<lambda>d. ebind (opt_ts body ''t'') (\<lambda>t. ebind (cursor_id body) (\<lambda>i. Inr (d, t, i)))))"

definition encode_transactions :: "int \<times> int \<Rightarrow> string" where
  "encode_transactions k = encode TRANSACTIONS [(''t'', PStr (iso_datetime (fst k))), (''i'', PInt (snd k))]"

definition decode_transactions :: "pyval \<Rightarrow> string + int \<times> int" where
  "decode_transactions token =
     ebind (decode_body token TRANSACTIONS) (\<lambda>body.
     if \<not> has_keys body [''v'', ''k'', ''t'', ''i''] then Inl ''cursor fields do not match the transactions list''
     else ebind (opt_ts body ''t'') (\<lambda>t. case t of
         None \<Rightarrow> Inl ''cursor timestamp is missing''
       | Some x \<Rightarrow> ebind (cursor_id body) (\<lambda>i. Inr (x, i))))"

section \<open>The conditions after a key\<close>

text \<open>SQL's three truth values: a comparison with NULL is unknown, and a WHERE keeps what is true.\<close>

type_synonym truth = "bool option"

definition sql_or :: "truth \<Rightarrow> truth \<Rightarrow> truth" where
  "sql_or a b = (if a = Some True \<or> b = Some True then Some True else if a = None \<or> b = None then None else Some False)"

definition sql_and :: "truth \<Rightarrow> truth \<Rightarrow> truth" where
  "sql_and a b = (if a = Some False \<or> b = Some False then Some False else if a = None \<or> b = None then None else Some True)"

definition sql_cmp :: "('a \<Rightarrow> 'a \<Rightarrow> bool) \<Rightarrow> 'a option \<Rightarrow> 'a \<Rightarrow> truth" where
  "sql_cmp p col v = map_option (\<lambda>c. p c v) col"

definition is_null :: "'a option \<Rightarrow> truth" where
  "is_null col = Some (col = None)"

definition executions_after :: "exec_key \<Rightarrow> exec_key \<Rightarrow> truth" where
  "executions_after key row = (case key of (d, t, i) \<Rightarrow> (case row of (rd, rt, ri) \<Rightarrow>
     let id_part = Some (ri < i);
         time_part = (case t of
             None \<Rightarrow> sql_and (is_null rt) id_part
           | Some x \<Rightarrow> sql_or (sql_or (sql_cmp (<) rt x) (is_null rt)) (sql_and (sql_cmp (=) rt x) id_part))
     in (case d of
           None \<Rightarrow> sql_and (is_null rd) time_part
         | Some y \<Rightarrow> sql_or (sql_or (sql_cmp (<) rd y) (is_null rd)) (sql_and (sql_cmp (=) rd y) time_part))))"

definition transactions_after :: "int \<times> int \<Rightarrow> int \<times> int \<Rightarrow> bool" where
  "transactions_after key row \<longleftrightarrow>
     fst row \<le> fst key \<and> (fst row < fst key \<or> fst row = fst key \<and> snd row < snd key)"

text \<open>
  The orders of the two lists, as a rank that the rows are sorted by: descending with NULLs last,
  and descending.
\<close>

definition nulls_last :: "('a \<Rightarrow> int \<times> int \<times> int) \<Rightarrow> 'a option \<Rightarrow> int \<times> int \<times> int \<times> int" where
  "nulls_last f v = (case v of None \<Rightarrow> (1, 0, 0, 0) | Some x \<Rightarrow> (0, f x))"

definition date_rank :: "date \<Rightarrow> int \<times> int \<times> int" where
  "date_rank d = (case d of (y, m, n) \<Rightarrow> (- y, - m, - n))"

definition exec_rank :: "exec_key \<Rightarrow> (int \<times> int \<times> int \<times> int) \<times> (int \<times> int \<times> int \<times> int) \<times> int" where
  "exec_rank k = (case k of (d, t, i) \<Rightarrow> (nulls_last date_rank d, nulls_last (\<lambda>x. (- x, 0, 0)) t, - i))"

definition txn_rank :: "int \<times> int \<Rightarrow> int \<times> int" where
  "txn_rank k = (- fst k, - snd k)"

section \<open>The paged readers\<close>

text \<open>
  A row of an execution view, with the columns the query filters and sorts by; \<open>xr_splits\<close> are the
  trades of its splits, \<open>xr_cols\<close> what the query returns of it.
\<close>

record exec_row =
  xr_key :: exec_key
  xr_account :: "string option"
  xr_opp :: "int option"
  xr_trade :: "int option"
  xr_splits :: "int list"
  xr_cols :: pydict

text \<open>The bounds are the Chicago dates of \<open>since_ts\<close> and \<open>until_ts\<close>.\<close>

record exec_query =
  xq_since :: "date option"
  xq_until :: "date option"
  xq_account :: "string option"
  xq_opp :: "int option"
  xq_trade :: "int option"
  xq_scope :: "string option"

definition scope_name :: "string option \<Rightarrow> string" where
  "scope_name scope = lower (strip (case scope of None \<Rightarrow> [] | Some s \<Rightarrow> s))"

definition exec_table_for_scope :: "string option \<Rightarrow> string" where
  "exec_table_for_scope scope =
     (if scope_name scope = ''performance_book'' then ''executions_final''
      else if scope_name scope = ''on_the_fly'' then ''executions_fly'' else ''executions'')"

definition exec_from_for_scope :: "string option \<Rightarrow> string" where
  "exec_from_for_scope scope = (if scope_name scope = ''tws_raw'' then ''executions_tws'' else exec_table_for_scope scope)"

text \<open>A condition on an argument that was given; the account's is left out when it is blank.\<close>

definition when_given :: "'a option \<Rightarrow> ('a \<Rightarrow> truth) \<Rightarrow> truth" where
  "when_given v f = (case v of None \<Rightarrow> Some True | Some x \<Rightarrow> f x)"

definition given_account :: "string option \<Rightarrow> string option" where
  "given_account v = (case v of None \<Rightarrow> None | Some s \<Rightarrow> if strip s = [] then None else Some (strip s))"

definition exec_conditions :: "exec_query \<Rightarrow> exec_row \<Rightarrow> truth list" where
  "exec_conditions q r =
     [when_given (xq_since q) (sql_cmp (\<ge>) (fst (xr_key r))), when_given (xq_until q) (sql_cmp (\<le>) (fst (xr_key r))),
      when_given (given_account (xq_account q)) (sql_cmp (=) (xr_account r)),
      when_given (xq_opp q) (sql_cmp (=) (xr_opp r)),
      when_given (xq_trade q) (\<lambda>t. sql_or (sql_cmp (=) (xr_trade r) t) (Some (t \<in> set (xr_splits r))))]"

definition exec_wanted :: "exec_query \<Rightarrow> exec_row \<Rightarrow> bool" where
  "exec_wanted q r \<longleftrightarrow> list_all (\<lambda>c. c = Some True) (exec_conditions q r)"

text \<open>The views by name; no connection, or a query that raises, reads as no rows.\<close>

record exec_store =
  xs_up :: bool
  xs_view :: "string \<Rightarrow> exec_row list"

definition limited :: "int option \<Rightarrow> 'a list \<Rightarrow> 'a list" where
  "limited limit rows = (case limit of Some n \<Rightarrow> if n > 0 then take (nat n) rows else rows | None \<Rightarrow> rows)"

definition read_executions :: "exec_store \<Rightarrow> exec_query \<Rightarrow> int option \<Rightarrow> exec_key option \<Rightarrow> exec_row list" where
  "read_executions db q limit after =
     (if \<not> xs_up db then []
      else limited limit (sort_key (exec_rank \<circ> xr_key)
             (filter (\<lambda>r. exec_wanted q r \<and> (case after of None \<Rightarrow> True | Some k \<Rightarrow> executions_after k (xr_key r) = Some True))
               (xs_view db (exec_from_for_scope (xq_scope q))))))"

definition get_executions :: "exec_store \<Rightarrow> exec_query \<Rightarrow> int option \<Rightarrow> exec_row list" where
  "get_executions db q limit = read_executions db q limit None"

definition decode_opt :: "(pyval \<Rightarrow> string + 'k) \<Rightarrow> string option \<Rightarrow> string + 'k option" where
  "decode_opt decode cursor = (case cursor of None \<Rightarrow> Inr None | Some t \<Rightarrow> ebind (decode (PStr t)) (\<lambda>k. Inr (Some k)))"

definition get_executions_page ::
  "exec_store \<Rightarrow> exec_query \<Rightarrow> int option \<Rightarrow> string option \<Rightarrow> string + exec_row list \<times> string option" where
  "get_executions_page db q limit cursor =
     ebind (decode_opt decode_executions cursor) (\<lambda>after.
       let page_limit = (case limit of Some n \<Rightarrow> if n > 0 then Some n else None | None \<Rightarrow> None)
       in (case page_limit of
             None \<Rightarrow> Inr (read_executions db q None after, None)
           | Some n \<Rightarrow>
               (let rows = read_executions db q (Some (n + 1)) after
                in if int (length rows) > n
                   then Inr (take (nat n) rows, Some (encode_executions (xr_key (last (take (nat n) rows)))))
                   else Inr (rows, None))))"

record txn_row =
  xt_key :: "int \<times> int"
  xt_account :: string
  xt_cols :: pydict

record txn_query =
  tq_since :: "int option"
  tq_until :: "int option"
  tq_account :: "string option"

definition txn_wanted :: "txn_query \<Rightarrow> txn_row \<Rightarrow> bool" where
  "txn_wanted q r \<longleftrightarrow>
     (case tq_since q of None \<Rightarrow> True | Some s \<Rightarrow> fst (xt_key r) \<ge> s) \<and>
     (case tq_until q of None \<Rightarrow> True | Some u \<Rightarrow> fst (xt_key r) \<le> u) \<and>
     (case given_account (tq_account q) of None \<Rightarrow> True | Some a \<Rightarrow> xt_account r = a)"

text \<open>\<open>LIMIT\<close> as sent: NULL reads everything, a negative number makes the query raise.\<close>

definition sql_limit :: "int option \<Rightarrow> 'a list \<Rightarrow> 'a list" where
  "sql_limit limit rows = (case limit of None \<Rightarrow> rows | Some n \<Rightarrow> if n < 0 then [] else take (nat n) rows)"

definition read_transactions :: "bool \<Rightarrow> txn_row list \<Rightarrow> txn_query \<Rightarrow> int option \<Rightarrow> (int \<times> int) option \<Rightarrow> txn_row list" where
  "read_transactions up rows q limit after =
     (if \<not> up then []
      else sql_limit limit (sort_key (txn_rank \<circ> xt_key)
             (filter (\<lambda>r. txn_wanted q r \<and> (case after of None \<Rightarrow> True | Some k \<Rightarrow> transactions_after k (xt_key r))) rows)))"

definition get_transactions_page ::
  "bool \<Rightarrow> txn_row list \<Rightarrow> txn_query \<Rightarrow> int option \<Rightarrow> string option \<Rightarrow> string + txn_row list \<times> string option" where
  "get_transactions_page up table q limit cursor =
     ebind (decode_opt decode_transactions cursor) (\<lambda>after.
       case limit of
         None \<Rightarrow> Inr (read_transactions up table q limit after, None)
       | Some n \<Rightarrow>
           if n \<le> 0 then Inr (read_transactions up table q limit after, None)
           else (let rows = read_transactions up table q (Some (n + 1)) after
                 in if int (length rows) > n
                    then Inr (take (nat n) rows, Some (encode_transactions (xt_key (last (take (nat n) rows)))))
                    else Inr (rows, None)))"

section \<open>Reading a list to its end\<close>

text \<open>
  A client that asks for page after page, each request answered from the rows there are at that
  time, until a page has no next cursor. The flag says whether it got there.
\<close>

fun follow :: "('t \<Rightarrow> string option \<Rightarrow> string + 'r list \<times> string option) \<Rightarrow> 't list \<Rightarrow> string option \<Rightarrow> 'r list \<times> bool" where
  "follow page [] cursor = ([], False)"
| "follow page (t # ts) cursor = (case page t cursor of
       Inl _ \<Rightarrow> ([], False)
     | Inr (items, None) \<Rightarrow> (items, True)
     | Inr (items, Some c) \<Rightarrow> (case follow page ts (Some c) of (later, ended) \<Rightarrow> (items @ later, ended)))"

end
