(* ===== verification/Keyset_Codec.thy ===== *)
theory Keyset_Codec
  imports Keyset
begin

text \<open>
  A cursor is read back: base64, JSON and the ISO texts are inverted one after the other.
\<close>

section \<open>Base64\<close>

lemma b64_char_value:
  assumes "n < 64"
  shows "b64_value (b64_char n) = Some n \<and> b64_char n \<noteq> CHR ''='' \<and> \<not> is_space (b64_char n)"
proof -
  have "\<forall>n\<in>set [0..<64]. b64_value (b64_char n) = Some n \<and> b64_char n \<noteq> CHR ''='' \<and> \<not> is_space (b64_char n)" by code_simp
  with assms show ?thesis by auto
qed

lemma a2b_char: "v < 64 \<Longrightarrow> a2b (b64_char v # cs) pos left pads out =
   (if pos = 0 then a2b cs 1 v 0 out
    else if pos = 1 then a2b cs 2 (v mod 16) 0 ((left * 4 + v div 16) # out)
    else if pos = 2 then a2b cs 3 (v mod 4) 0 ((left * 16 + v div 4) # out)
    else a2b cs 0 0 0 ((left * 64 + v) # out))"
  using b64_char_value [of v] by simp

text \<open>The bits of a group of three bytes come back.\<close>

lemma three_bytes:
  fixes a b c :: nat
  assumes "a < 256" "b < 256" "c < 256"
  shows "a div 4 < 64" "a mod 4 * 16 + b div 16 < 64" "b mod 16 * 4 + c div 64 < 64" "c mod 64 < 64"
    "a div 4 * 4 + (a mod 4 * 16 + b div 16) div 16 = a" "(a mod 4 * 16 + b div 16) mod 16 * 16 + (b mod 16 * 4 + c div 64) div 4 = b"
    "(b mod 16 * 4 + c div 64) mod 4 * 64 + c mod 64 = c"
proof -
  have d: "b div 16 < 16" "c div 64 < 4" using assms by auto
  then show "a div 4 < 64" "a mod 4 * 16 + b div 16 < 64" "b mod 16 * 4 + c div 64 < 64" "c mod 64 < 64"
    "a div 4 * 4 + (a mod 4 * 16 + b div 16) div 16 = a" "(a mod 4 * 16 + b div 16) mod 16 * 16 + (b mod 16 * 4 + c div 64) div 4 = b"
    "(b mod 16 * 4 + c div 64) mod 4 * 64 + c mod 64 = c"
    using assms by auto
qed

definition b64_padding :: "nat \<Rightarrow> string" where
  "b64_padding n = replicate ((4 - n mod 4) mod 4) (CHR ''='')"

lemma padding_cases: "b64_padding (Suc (Suc (Suc 0))) = ''=''" "b64_padding (Suc (Suc 0)) = ''==''"
  by (simp_all add: b64_padding_def numeral_2_eq_2)

lemma a2b_padding: "a2b ''=='' 2 left 0 out = Some (rev out)" "a2b ''='' 3 left 0 out = Some (rev out)"
  by simp_all

lemma a2b_groups:
  "\<forall>x\<in>set bs. x < 256 \<Longrightarrow>
   a2b (map b64_char (b64_groups bs) @ b64_padding (length (b64_groups bs))) 0 0 0 out = Some (rev out @ bs)"
proof (induction bs arbitrary: out rule: b64_groups.induct)
  case (1 a b c r)
  then have l: "a < 256" "b < 256" "c < 256" by auto
  note t = three_bytes [OF l]
  have p: "b64_padding (length (b64_groups (a # b # c # r))) = b64_padding (length (b64_groups r))"
    by (simp add: b64_padding_def)
  have "b div 16 div 16 = 0" "b div 16 mod 16 = b div 16" "c div 64 div 4 = 0" "c div 64 mod 4 = c div 64" using l by auto
  with t(5-7) have "a2b (map b64_char (b64_groups (a # b # c # r)) @ q) 0 0 0 out = a2b (map b64_char (b64_groups r) @ q) 0 0 0 (c # b # a # out)" for q
    by (simp add: a2b_char [OF t(1)] a2b_char [OF t(2)] a2b_char [OF t(3)] a2b_char [OF t(4)] del: a2b.simps(2))
  with 1 show ?case unfolding p by simp
next
  case (2 a b)
  then have l: "a < 256" "b < 256" by auto
  note t = three_bytes [OF l, of 0]
  have v: "b mod 16 * 4 < 64" by simp
  from v t(5,6) show ?case
    by (simp add: a2b_char [OF t(1)] a2b_char [OF t(2)] a2b_char [OF v] padding_cases a2b_padding del: a2b.simps(2))
next
  case (3 a)
  then have l: "a < 256" by auto
  note t = three_bytes [OF l, of 0 0]
  have v: "a mod 4 * 16 < 64" by simp
  from v t(5) show ?case
    by (simp add: a2b_char [OF t(1)] a2b_char [OF v] padding_cases a2b_padding del: a2b.simps(2))
qed (simp add: b64_padding_def)

lemma b64_round_trip: "b64_decode (b64_encode s) = Some (map of_char s)"
  using a2b_groups [of "map of_char s" "[]"] by (simp add: b64_decode_def b64_encode_def b64_padding_def of_char_256)

lemma b64_groups_range: "\<forall>x\<in>set bs. x < 256 \<Longrightarrow> v \<in> set (b64_groups bs) \<Longrightarrow> v < 64"
  by (induction bs rule: b64_groups.induct) auto

lemma b64_no_space: "c \<in> set (b64_encode s) \<Longrightarrow> \<not> is_space c"
  using b64_groups_range [of "map of_char s"] b64_char_value by (auto simp: b64_encode_def of_char_256)

lemma strip_b64 [simp]: "strip (b64_encode s) = b64_encode s"
  unfolding strip_def by (rule strip_by_id) (metis b64_no_space hd_in_set last_in_set)

lemma b64_groups_length: "length (b64_groups bs) = (4 * length bs + 2) div 3"
  by (induction bs rule: b64_groups.induct) auto

lemma b64_length: "length (b64_encode s) = (4 * length s + 2) div 3"
  by (simp add: b64_encode_def b64_groups_length)

definition ascii :: "string \<Rightarrow> bool" where
  "ascii s \<longleftrightarrow> list_all (\<lambda>c. (of_char c :: nat) < 128) s"

lemma ascii_simps [simp]: "ascii [] = True" "ascii (s @ t) \<longleftrightarrow> ascii s \<and> ascii t" "ascii (c # s) \<longleftrightarrow> (of_char c :: nat) < 128 \<and> ascii s"
  by (simp_all add: ascii_def)

lemma ascii_text_of: "ascii s \<Longrightarrow> ascii_text (map of_char s) = Some s"
proof -
  assume "ascii s"
  then have "list_all (\<lambda>b. b < 128) (map of_char s :: nat list)" unfolding ascii_def list_all_iff by simp
  moreover have "map char_of (map of_char s :: nat list) = s" by (induction s) simp_all
  ultimately show ?thesis by (simp add: ascii_text_def)
qed

lemma ascii_plain: "plain_text s \<Longrightarrow> ascii s"
  unfolding plain_text_def ascii_def list_all_iff by fastforce

section \<open>JSON\<close>

text \<open>The values a cursor holds: null, a plain text, an integer.\<close>

fun cursor_value :: "pyval \<Rightarrow> bool" where
  "cursor_value PNone = True"
| "cursor_value (PStr s) = plain_text s"
| "cursor_value (PInt _) = True"
| "cursor_value _ = False"

abbreviation compact :: "pyval \<Rightarrow> string" where
  "compact \<equiv> json_value '','' '':''"

lemma json_ws_quote [simp]: "json_ws (CHR 0x22 # s) = CHR 0x22 # s" and json_ws_comma [simp]: "json_ws (CHR '','' # s) = CHR '','' # s"
  and json_ws_brace [simp]: "json_ws (CHR 0x7D # s) = CHR 0x7D # s" and json_ws_open [simp]: "json_ws (CHR 0x7B # s) = CHR 0x7B # s"
  and json_ws_null [simp]: "json_ws (''null'' @ s) = ''null'' @ s" and json_ws_Nil [simp]: "json_ws [] = []"
  by (simp_all add: json_ws_def)

lemma json_ws_int: "json_ws (int_str i @ s) = int_str i @ s"
proof -
  have "\<exists>c cs. int_str i = c # cs \<and> (c = CHR ''-'' \<or> is_digit c)"
    using isdigit_pos_str [of i] by (cases "pos_str i") (auto simp: int_str_def isdigit_def)
  then obtain c cs where c: "int_str i = c # cs" "c = CHR ''-'' \<or> is_digit c" by blast
  then have "c \<noteq> CHR '' '' \<and> c \<noteq> CHR 0x09 \<and> c \<noteq> CHR 0x0A \<and> c \<noteq> CHR 0x0D" by (auto simp: is_digit_def digit_chars_def)
  with c show ?thesis by (simp add: json_ws_def)
qed

lemma int_str_head: "\<exists>c cs. int_str i = c # cs \<and> c \<noteq> CHR 0x22 \<and> c \<noteq> CHR 0x7B \<and> c \<noteq> CHR ''[''"
proof -
  have "\<exists>c cs. int_str i = c # cs \<and> (c = CHR ''-'' \<or> is_digit c)"
    using isdigit_pos_str [of i] by (cases "pos_str i") (auto simp: int_str_def isdigit_def)
  then show ?thesis by (auto simp: is_digit_def digit_chars_def)
qed

lemma json_parse_value:
  assumes "cursor_value v" and "c = CHR '','' \<or> c = CHR 0x7D"
  shows "json_parse (Suc n) (json_ws (compact v @ c # r)) = Some (v, c # r)"
proof (cases v)
  case PNone
  then show ?thesis by (simp add: json_ws_def json_word_def json_words_def startswith_def)
next
  case (PStr s)
  with assms have "compact v @ c # r = CHR 0x22 # (s @ CHR 0x22 # c # r)" by (simp add: json_text_plain)
  with PStr assms show ?thesis by (simp only: json_ws_quote) (simp add: json_str_plain del: json_str.simps)
next
  case (PInt i)
  from int_str_head obtain d ds where d: "int_str i = d # ds" "d \<noteq> CHR 0x22" "d \<noteq> CHR 0x7B" "d \<noteq> CHR ''[''" by blast
  have "json_parse (Suc n) (int_str i @ c # r) = json_word (int_str i @ c # r)" using d by simp
  with PInt json_word_int [OF assms(2)] show ?thesis by (simp add: json_ws_int)
qed (use assms in auto)

text \<open>One member of an object.\<close>

definition member_text :: "string \<times> pyval \<Rightarrow> string" where
  "member_text kv = json_text (fst kv) @ '':'' @ compact (snd kv)"

lemma json_member:
  assumes "plain_text k" and "cursor_value v" and "c = CHR '','' \<or> c = CHR 0x7D"
  shows "json_members (Suc (Suc n)) (member_text (k, v) @ c # r) ms =
    (if c = CHR 0x7D then Some (PDict (dset k v ms), r) else json_members (Suc n) (json_ws r) (dset k v ms))"
proof -
  have "member_text (k, v) @ c # r = CHR 0x22 # (k @ CHR 0x22 # (CHR '':'' # (compact v @ c # r)))"
    using assms(1) by (simp add: member_text_def json_text_plain)
  moreover have "json_str (k @ CHR 0x22 # (CHR '':'' # (compact v @ c # r))) = Some (k, CHR '':'' # (compact v @ c # r))"
    by (rule json_str_plain [OF assms(1)])
  moreover have "json_ws (CHR '':'' # q) = CHR '':'' # q" for q by (simp add: json_ws_def)
  ultimately show ?thesis
    using json_parse_value [OF assms(2,3), of n r] assms(3) by (auto simp del: json_parse.simps json_str.simps)
qed

lemma json_members_read:
  assumes "list_all (\<lambda>kv. plain_text (fst kv) \<and> cursor_value (snd kv)) (kv # kvs)"
  shows "json_members (Suc (Suc (length kvs)) + m) (join '','' (map member_text (kv # kvs)) @ [CHR 0x7D]) ms =
    Some (PDict (foldl (\<lambda>d (k, v). dset k v d) ms (kv # kvs)), [])"
  using assms
proof (induction kvs arbitrary: kv ms)
  case Nil
  then show ?case using json_member [of "fst kv" "snd kv" "CHR 0x7D" m "[]" ms] by (cases kv) simp
next
  case (Cons kv2 kvs)
  obtain k v where kv: "kv = (k, v)" by (cases kv)
  have q: "\<exists>q. join '','' (map member_text (kv2 # kvs)) @ [CHR 0x7D] = CHR 0x22 # q"
    by (cases kvs) (auto simp: member_text_def json_text_def)
  define rest where "rest = join '','' (map member_text (kv2 # kvs)) @ [CHR 0x7D]"
  from q have ws: "json_ws rest = rest" by (auto simp: rest_def)
  have eq: "join '','' (map member_text (kv # kv2 # kvs)) @ [CHR 0x7D] = member_text (k, v) @ CHR '','' # rest"
    by (simp add: kv rest_def)
  have "json_members (Suc (Suc (Suc (length kvs) + m))) (member_text (k, v) @ CHR '','' # rest) ms =
      json_members (Suc (Suc (length kvs) + m)) rest (dset k v ms)"
    using json_member [of k v "CHR '',''" "Suc (length kvs) + m" rest ms] Cons.prems by (simp add: kv ws)
  moreover have "json_members (Suc (Suc (length kvs)) + m) rest (dset k v ms) =
      Some (PDict (foldl (\<lambda>d (k, v). dset k v d) (dset k v ms) (kv2 # kvs)), [])"
    unfolding rest_def by (rule Cons.IH) (use Cons.prems in simp)
  ultimately show ?case unfolding eq by (simp add: kv)
qed

lemma json_object_read:
  assumes "list_all (\<lambda>kv. plain_text (fst kv) \<and> cursor_value (snd kv)) body" and "body \<noteq> []" and "distinct (map fst body)"
  shows "json_loads_text (compact (PDict body)) = Some (PDict (foldl (\<lambda>d (k, v). dset k v d) [] body))"
proof -
  obtain kv kvs where body: "body = kv # kvs" using assms(2) by (cases body) auto
  let ?t = "join '','' (map member_text body) @ [CHR 0x7D]"
  have t: "compact (PDict body) = CHR 0x7B # ?t" by (simp add: member_text_def [abs_def])
  have len: "Suc (length kvs) \<le> length ?t"
  proof -
    have "length xs \<le> length (join '','' (map member_text xs))" for xs
      by (induction xs rule: induct_list012) (auto simp: member_text_def json_text_def)
    then have "length body \<le> length (join '','' (map member_text body))" .
    then show ?thesis by (simp add: body)
  qed
  then obtain m where m: "length ?t = Suc (length kvs) + m" by (metis le_Suc_ex)
  have q: "\<exists>q. ?t = CHR 0x22 # q" by (cases kvs) (auto simp: body member_text_def json_text_def)
  then obtain q where q: "?t = CHR 0x22 # q" by blast
  have "json_members (Suc (Suc (length kvs)) + m) ?t [] = Some (PDict (foldl (\<lambda>d (k, v). dset k v d) [] body), [])"
    unfolding body by (rule json_members_read) (use assms(1) body in simp)
  moreover have "Suc (Suc (length kvs)) + m = Suc (length ?t)" using m by linarith
  ultimately have run: "json_members (Suc (length ?t)) ?t [] = Some (PDict (foldl (\<lambda>d (k, v). dset k v d) [] body), [])" by metis
  have "json_parse (Suc (length (CHR 0x7B # ?t))) (CHR 0x7B # ?t) = json_members (length (CHR 0x7B # ?t)) ?t []"
    using q by (simp del: join.simps)
  with run show ?thesis unfolding json_loads_text_def t by (simp del: json_parse.simps join.simps)
qed

section \<open>Tokens\<close>

lemma plain_append [simp]: "plain_text (s @ t) \<longleftrightarrow> plain_text s \<and> plain_text t"
  and plain_Nil [simp]: "plain_text []"
  by (simp_all add: plain_text_def)

lemma plain_digits: "list_all is_digit s \<Longrightarrow> plain_text s"
proof -
  have "32 \<le> (of_char c :: nat) \<and> (of_char c :: nat) < 127 \<and> c \<noteq> CHR 0x22 \<and> c \<noteq> CHR 0x5C" if "is_digit c" for c
    using that by (auto simp: is_digit_def digit_chars_def)
  then show "list_all is_digit s \<Longrightarrow> plain_text s" by (simp add: plain_text_def list_all_iff)
qed

lemma plain_marks [simp]: "plain_text (CHR ''-'' # s) = plain_text s" "plain_text (CHR '':'' # s) = plain_text s"
  "plain_text (CHR ''T'' # s) = plain_text s" "plain_text (CHR ''.'' # s) = plain_text s" "plain_text (CHR ''+'' # s) = plain_text s"
  "plain_text (CHR ''0'' # s) = plain_text s"
  by (simp_all add: plain_text_def)

definition valid_date :: "date \<Rightarrow> bool" where
  "valid_date d \<longleftrightarrow> (case d of (y, m, n) \<Rightarrow> mk_date y m n = Some d)"

lemma iso_date_plain: "valid_date d \<Longrightarrow> plain_text (iso_date d) \<and> length (iso_date d) = 10 \<and> iso_date_part (iso_date d) = Some d"
proof -
  obtain y m n where d: "d = (y, m, n)" by (cases d)
  assume "valid_date d"
  then have v: "mk_date y m n = Some (y, m, n)" by (simp add: d valid_date_def)
  have b: "0 \<le> m" "m < 100" "0 \<le> n" "n < 100"
    using v by (auto simp: mk_date_def days_in_month_def split: if_splits)
  have "plain_text (pad2 m)" "plain_text (pad2 n)" "plain_text (pad4 y)"
    using pad2_plain b iso_date_parts(4) [OF v] by (auto intro: plain_digits)
  with iso_date_length [OF v] iso_date_read [OF v] show ?thesis by (simp add: d)
qed

lemma iso_time_text:
  assumes "0 \<le> u" "u < us_per_day"
  shows "plain_text (iso_time u) \<and> length (iso_time u) \<le> 15"
proof -
  note c = clock_parts [OF assms]
  have p: "plain_text (pad2 n) \<and> length (pad2 n) = 2" if "0 \<le> n" "n < 60" for n
    using pad2_ok [of n] that by (auto intro: plain_digits)
  have "plain_text (padded 6 (u mod 1000000)) \<and> length (padded 6 (u mod 1000000)) = 6"
    using padded_ok [of "u mod 1000000" 6] by (auto intro: plain_digits)
  with p c(1-6) show ?thesis by (simp add: iso_time_def Let_def)
qed

lemma iso_datetime_text:
  assumes "representable t"
  shows "plain_text (iso_datetime t) \<and> length (iso_datetime t) \<le> 32"
proof -
  from from_ordinal_ok [of "epoch_ordinal + t div us_per_day"] assms
  have "valid_date (date_of_instant t)" by (auto simp: representable_def date_of_instant_def valid_date_def)
  from iso_date_plain [OF this] iso_time_text [of "t mod us_per_day"] show ?thesis
    by (simp add: iso_datetime_def us_per_day_def)
qed

text \<open>The keys the database can hold: dates and moments of the years 1 to 9999, 64-bit ids.\<close>

definition valid_id :: "int \<Rightarrow> bool" where
  "valid_id i \<longleftrightarrow> \<bar>i\<bar> < 10 ^ 19"

definition valid_exec_key :: "exec_key \<Rightarrow> bool" where
  "valid_exec_key k \<longleftrightarrow> (case k of (d, t, i) \<Rightarrow>
     (case d of None \<Rightarrow> True | Some x \<Rightarrow> valid_date x) \<and> (case t of None \<Rightarrow> True | Some x \<Rightarrow> representable x) \<and> valid_id i)"

definition valid_txn_key :: "int \<times> int \<Rightarrow> bool" where
  "valid_txn_key k \<longleftrightarrow> representable (fst k) \<and> valid_id (snd k)"

lemma int_str_length: "valid_id i \<Longrightarrow> length (int_str i) \<le> 20"
  using length_pos_str_bound [of i 19] length_pos_str_bound [of "- i" 19] by (auto simp: valid_id_def int_str_def)

text \<open>What \<open>decode_body\<close> makes of a token whose payload JSON can hold.\<close>

lemma decode_body_encode:
  assumes body: "body = sort_key fst (payload @ [(''k'', PStr kind), (''v'', PInt VERSION)])"
    and ok: "list_all (\<lambda>kv. plain_text (fst kv) \<and> cursor_value (snd kv)) body" "distinct (map fst body)" "body \<noteq> []"
    and short: "length (compact (PDict body)) \<le> 380" and plain: "ascii (compact (PDict body))"
    and dict: "foldl (\<lambda>d (k, v). dset k v d) [] body = out"
    and fields: "dget out ''v'' = PInt VERSION" "dget out ''k'' = PStr kind"
  shows "decode_body (PStr (encode kind payload)) list = (if kind = list then Inr out
      else Inl (''cursor belongs to another list ('' @ py_repr (PStr kind) @ ''), not '' @ list))"
proof -
  let ?t = "encode kind payload"
  have t: "?t = b64_encode (compact (PDict body))" by (simp add: encode_def body Let_def)
  have len: "length ?t \<le> MAX_TOKEN_LEN" using short unfolding t b64_length MAX_TOKEN_LEN_def by simp
  have "compact (PDict body) \<noteq> []" by simp
  then have ne: "?t \<noteq> []" unfolding t using b64_length [of "compact (PDict body)"] by (cases "compact (PDict body)") auto
  have "strip ?t = ?t" by (simp add: t)
  moreover have "b64_decode ?t = Some (map of_char (compact (PDict body)))" unfolding t by (rule b64_round_trip)
  moreover have "json_loads_text (compact (PDict body)) = Some (PDict out)" using json_object_read [OF ok(1,3,2)] dict by simp
  ultimately show ?thesis
    using len ne fields ascii_text_of [OF plain] by (simp add: decode_body_def Let_def equals_one_def del: json_value.simps)
qed

lemma ascii_int: "ascii (int_str i)"
proof -
  have "ascii (pos_str n)" for n using plain_digits [OF pos_str_all_digits] by (rule ascii_plain)
  then show ?thesis by (simp add: int_str_def)
qed

lemma iso_opt_date_ok:
  assumes "case d of None \<Rightarrow> True | Some x \<Rightarrow> valid_date x"
  shows "cursor_value (iso_opt_date d)" "ascii (compact (iso_opt_date d))" "length (compact (iso_opt_date d)) \<le> 12"
    "dget body ''d'' = iso_opt_date d \<Longrightarrow> opt_date body ''d'' = Inr d"
  using assms
  by (auto simp: iso_opt_date_def opt_date_def json_text_plain ascii_plain iso_date_plain split: option.splits simp del: iso_date.simps)

lemma iso_opt_time_ok:
  assumes "case t of None \<Rightarrow> True | Some x \<Rightarrow> representable x"
  shows "cursor_value (iso_opt_time t)" "ascii (compact (iso_opt_time t))" "length (compact (iso_opt_time t)) \<le> 34"
    "dget body ''t'' = iso_opt_time t \<Longrightarrow> opt_ts body ''t'' = Inr t"
  using assms iso_datetime_text
  by (auto simp: iso_opt_time_def opt_ts_def json_text_plain ascii_plain iso_datetime_read split: option.splits)

lemma key_texts: "plain_text ''d''" "plain_text ''i''" "plain_text ''k''" "plain_text ''t''" "plain_text ''v''"
  "plain_text EXECUTIONS" "plain_text TRANSACTIONS"
  by (simp_all add: plain_text_def EXECUTIONS_def TRANSACTIONS_def)

lemma executions_body:
  "sort_key fst ([(''d'', d), (''t'', t), (''i'', i)] @ [(''k'', k), (''v'', v)]) = [(''d'', d), (''i'', i), (''k'', k), (''t'', t), (''v'', v)]"
  and transactions_body:
  "sort_key fst ([(''t'', t), (''i'', i)] @ [(''k'', k), (''v'', v)]) = [(''i'', i), (''k'', k), (''t'', t), (''v'', v)]" for d t i k v :: pyval
  by simp_all

text \<open>What either list makes of either token.\<close>

lemma executions_token:
  assumes "valid_exec_key (d, t, i)"
  shows "decode_body (PStr (encode_executions (d, t, i))) list = (if EXECUTIONS = list
     then Inr [(''d'', iso_opt_date d), (''i'', PInt i), (''k'', PStr EXECUTIONS), (''t'', iso_opt_time t), (''v'', PInt VERSION)]
     else Inl (''cursor belongs to another list ('' @ py_repr (PStr EXECUTIONS) @ ''), not '' @ list))"
proof -
  from assms have d: "case d of None \<Rightarrow> True | Some x \<Rightarrow> valid_date x" and t: "case t of None \<Rightarrow> True | Some x \<Rightarrow> representable x"
    and i: "valid_id i" by (simp_all add: valid_exec_key_def)
  let ?body = "[(''d'', iso_opt_date d), (''i'', PInt i), (''k'', PStr EXECUTIONS), (''t'', iso_opt_time t), (''v'', PInt VERSION)]"
  have one: "int_str VERSION = ''1''" by code_simp
  have len: "length (int_str i) \<le> 20" by (rule int_str_length [OF i])
  show ?thesis
    unfolding encode_executions_def prod.case
  proof (rule decode_body_encode [where body = ?body])
    show "list_all (\<lambda>kv. plain_text (fst kv) \<and> cursor_value (snd kv)) ?body"
      using iso_opt_date_ok(1) [OF d] iso_opt_time_ok(1) [OF t] by (simp add: key_texts)
    show "length (compact (PDict ?body)) \<le> 380" "ascii (compact (PDict ?body))"
      using iso_opt_date_ok(2,3) [OF d] iso_opt_time_ok(2,3) [OF t] len
      by (simp_all add: json_text_plain key_texts one ascii_int) (simp_all add: EXECUTIONS_def)
  qed (simp_all only: executions_body, simp_all add: dset_def)
qed

lemma transactions_token:
  assumes "valid_txn_key (t, i)"
  shows "decode_body (PStr (encode_transactions (t, i))) list = (if TRANSACTIONS = list
     then Inr [(''i'', PInt i), (''k'', PStr TRANSACTIONS), (''t'', iso_opt_time (Some t)), (''v'', PInt VERSION)]
     else Inl (''cursor belongs to another list ('' @ py_repr (PStr TRANSACTIONS) @ ''), not '' @ list))"
proof -
  from assms have t: "representable t" and i: "valid_id i" by (simp_all add: valid_txn_key_def)
  have t2: "PStr (iso_datetime t) = iso_opt_time (Some t)" by (simp add: iso_opt_time_def)
  let ?body = "[(''i'', PInt i), (''k'', PStr TRANSACTIONS), (''t'', iso_opt_time (Some t)), (''v'', PInt VERSION)]"
  have one: "int_str VERSION = ''1''" by code_simp
  have len: "length (int_str i) \<le> 20" by (rule int_str_length [OF i])
  show ?thesis
    unfolding encode_transactions_def fst_conv snd_conv t2
  proof (rule decode_body_encode [where body = ?body])
    show "list_all (\<lambda>kv. plain_text (fst kv) \<and> cursor_value (snd kv)) ?body"
      using iso_opt_time_ok(1) [of "Some t"] t by (simp add: key_texts)
    show "length (compact (PDict ?body)) \<le> 380" "ascii (compact (PDict ?body))"
      using iso_opt_time_ok(2,3) [of "Some t"] t len
      by (simp_all add: json_text_plain key_texts one ascii_int) (simp_all add: TRANSACTIONS_def)
  qed (simp_all only: transactions_body, simp_all add: dset_def)
qed

lemma executions_round_trip:
  assumes "valid_exec_key k"
  shows "decode_executions (PStr (encode_executions k)) = Inr k"
proof -
  obtain d t i where k: "k = (d, t, i)" by (metis prod.exhaust)
  let ?body = "[(''d'', iso_opt_date d), (''i'', PInt i), (''k'', PStr EXECUTIONS), (''t'', iso_opt_time t), (''v'', PInt VERSION)]"
  from assms have d: "case d of None \<Rightarrow> True | Some x \<Rightarrow> valid_date x" and t: "case t of None \<Rightarrow> True | Some x \<Rightarrow> representable x"
    by (simp_all add: k valid_exec_key_def)
  show ?thesis
    using iso_opt_date_ok(4) [OF d, of ?body] iso_opt_time_ok(4) [OF t, of ?body]
    by (simp add: decode_executions_def k executions_token [OF assms [unfolded k]] has_keys_def cursor_id_def insert_commute)
qed

lemma transactions_round_trip:
  assumes "valid_txn_key k"
  shows "decode_transactions (PStr (encode_transactions k)) = Inr k"
proof -
  obtain t i where k: "k = (t, i)" by (metis prod.exhaust)
  from assms have t: "case Some t of None \<Rightarrow> True | Some x \<Rightarrow> representable x" by (simp add: k valid_txn_key_def)
  let ?body = "[(''i'', PInt i), (''k'', PStr TRANSACTIONS), (''t'', iso_opt_time (Some t)), (''v'', PInt VERSION)]"
  show ?thesis
    using iso_opt_time_ok(4) [OF t, of ?body]
    by (simp add: decode_transactions_def k transactions_token [OF assms [unfolded k]] has_keys_def cursor_id_def insert_commute)
qed

end
