(* ===== verification/Paging.thy ===== *)
theory Paging
  imports Keyset_Codec
begin

text \<open>
  Reading a list page by page. The locale states what a paged reader promises: each page is a cut
  of the sorted rows after the cursor's. Both readers of \<open>portfolio/reader/executions.py\<close>
  keep it, so a client that follows the cursors sees every row once, whatever changes meanwhile.
\<close>

section \<open>Strictly sorted lists\<close>

lemma strictly_sorted_sort_key:
  assumes "distinct (map f xs)"
  shows "sorted_wrt (\<lambda>a b. f a < f b) (sort_key f xs)"
proof -
  have "distinct (map f (sort_key f xs))"
    using assms by (simp add: distinct_map)
  then have "sorted_wrt (<) (map f (sort_key f xs))" by (simp add: strict_sorted_iff)
  then show ?thesis by (simp add: sorted_wrt_map)
qed

lemma strict_append_cut:
  assumes "sorted_wrt (\<lambda>a b. f a < (f b :: 'o::linorder)) (xs @ y # ys)"
  shows "filter (\<lambda>x. f y < f x) (xs @ y # ys) = ys"
proof -
  have "\<not> f y < f x" if "x \<in> set xs" for x using that assms by (auto simp: sorted_wrt_append)
  moreover have "\<forall>x\<in>set ys. f y < f x" using assms by (auto simp: sorted_wrt_append)
  ultimately show ?thesis by (auto simp: filter_empty_conv filter_id_conv)
qed

section \<open>The contract of a paged reader\<close>

definition cut :: "('r \<Rightarrow> string) \<Rightarrow> nat \<Rightarrow> 'r list \<Rightarrow> 'r list \<times> string option" where
  "cut token n rows = (if length rows > n then (take n rows, Some (token (last (take n rows)))) else (rows, None))"

locale paged_list =
  fixes page :: "'t \<Rightarrow> string option \<Rightarrow> string + 'r list \<times> string option"
    and rows :: "'t \<Rightarrow> 'r list" and rank :: "'r \<Rightarrow> 'o::linorder" and token :: "'r \<Rightarrow> string"
    and valid :: "'r \<Rightarrow> bool" and n :: nat
  assumes some: "0 < n"
    and first_page: "page t None = Inr (cut token n (sort_key rank (rows t)))"
    and next_page: "valid r \<Longrightarrow>
      page t (Some (token r)) = Inr (cut token n (sort_key rank (filter (\<lambda>x. rank r < rank x) (rows t))))"
begin

definition after :: "'r option \<Rightarrow> 't \<Rightarrow> 'r list" where
  "after r t = (case r of None \<Rightarrow> sort_key rank (rows t)
     | Some r \<Rightarrow> filter (\<lambda>x. rank r < rank x) (sort_key rank (rows t)))"

definition good :: "'t \<Rightarrow> bool" where
  "good t \<longleftrightarrow> list_all valid (rows t) \<and> distinct (map rank (rows t))"

definition known :: "'r option \<Rightarrow> bool" where
  "known r \<longleftrightarrow> (case r of None \<Rightarrow> True | Some r \<Rightarrow> valid r)"

lemma page_after: "known r \<Longrightarrow> page t (map_option token r) = Inr (cut token n (after r t))"
  by (cases r) (simp_all add: known_def after_def first_page next_page filter_sort)

lemma set_after: "set (after r t) = {x \<in> set (rows t). case r of None \<Rightarrow> True | Some r \<Rightarrow> rank r < rank x}"
  by (auto simp: after_def split: option.splits)

lemma after_strict: "good t \<Longrightarrow> sorted_wrt (\<lambda>a b. rank a < rank b) (after r t)"
  using strictly_sorted_sort_key [of rank "rows t"]
  by (auto simp: after_def good_def sorted_wrt_filter split: option.splits)

lemma after_last:
  assumes "good t" and "n < length (after r t)"
  obtains l where "last (take n (after r t)) = l" "l \<in> set (take n (after r t))" "valid l"
    "after (Some l) t = drop n (after r t)"
    "\<forall>x\<in>set (take n (after r t)). rank x \<le> rank l"
    "\<forall>x\<in>set (drop n (after r t)). rank l < rank x"
    "case r of None \<Rightarrow> True | Some r \<Rightarrow> rank r < rank l"
proof -
  let ?zs = "after r t"
  obtain front l where fl: "take n ?zs = front @ [l]"
    using assms some by (metis append_butlast_last_id length_0_conv length_take less_imp_le_nat min.absorb2 not_less0 take_eq_Nil)
  then have split: "?zs = front @ l # drop n ?zs"
    by (metis append.assoc append_Cons append_Nil append_take_drop_id)
  have strict: "sorted_wrt (\<lambda>a b. rank a < rank b) (front @ l # drop n ?zs)"
    using after_strict [OF assms(1), of r] split by simp
  have mem: "l \<in> set ?zs" by (subst split) simp
  then have in_rows: "l \<in> set (rows t)" and beyond: "case r of None \<Rightarrow> True | Some r \<Rightarrow> rank r < rank l"
    by (auto simp: set_after)
  have "after (Some l) t = filter (\<lambda>x. rank l < rank x) ?zs"
    using beyond by (auto simp: after_def intro!: filter_cong split: option.splits)
  also have "\<dots> = drop n ?zs" by (subst split, rule strict_append_cut [OF strict])
  finally show thesis
    using that [of l] in_rows beyond assms(1) strict fl
    by (auto simp: good_def list_all_iff sorted_wrt_append intro: less_imp_le)
qed

lemma follow_unchanged:
  assumes "good t"
  shows "known r \<Longrightarrow> length (after r t) \<le> m * n \<Longrightarrow> follow page (replicate (Suc m) t) (map_option token r) = (after r t, True)"
proof (induction m arbitrary: r)
  case 0
  then show ?case by (simp add: page_after cut_def)
next
  case (Suc m)
  show ?case
  proof (cases "n < length (after r t)")
    case False
    with Suc.prems show ?thesis by (simp add: page_after cut_def)
  next
    case True
    obtain l where l: "last (take n (after r t)) = l" "valid l" "after (Some l) t = drop n (after r t)"
      by (rule after_last [OF assms True])
    have "follow page (replicate (Suc m) t) (Some (token l)) = (drop n (after r t), True)"
      using Suc.IH [of "Some l"] l(2,3) Suc.prems(2) by (simp add: known_def)
    with True Suc.prems l(1) show ?thesis
      by (simp add: page_after cut_def)
  qed
qed

text \<open>An unchanged table is read to its end, in order, in one request more than whole pages.\<close>

theorem reads_everything:
  "good t \<Longrightarrow> length (rows t) \<le> m * n \<Longrightarrow> follow page (replicate (Suc m) t) None = (sort_key rank (rows t), True)"
  using follow_unchanged [of t None m] by (simp add: known_def after_def)

lemma follow_changing:
  "list_all good ts \<Longrightarrow> known r \<Longrightarrow> follow page ts (map_option token r) = (items, ended) \<Longrightarrow>
     sorted_wrt (\<lambda>a b. rank a < rank b) items \<and>
     (\<forall>x\<in>set items. (\<exists>t\<in>set ts. x \<in> set (rows t)) \<and> (case r of None \<Rightarrow> True | Some r \<Rightarrow> rank r < rank x)) \<and>
     (ended \<longrightarrow> (\<forall>x. (\<forall>t\<in>set ts. x \<in> set (rows t)) \<and> (case r of None \<Rightarrow> True | Some r \<Rightarrow> rank r < rank x) \<longrightarrow> x \<in> set items))"
proof (induction ts arbitrary: r items ended)
  case Nil
  then show ?case by simp
next
  case (Cons t ts)
  have good: "good t" using Cons.prems(1) by simp
  show ?case
  proof (cases "n < length (after r t)")
    case False
    then have "items = after r t" using Cons.prems(2,3) by (simp add: page_after cut_def)
    then show ?thesis using after_strict [OF good, of r] by (auto simp: set_after)
  next
    case True
    obtain l where l: "last (take n (after r t)) = l" "l \<in> set (take n (after r t))" "valid l"
      "\<forall>x\<in>set (take n (after r t)). rank x \<le> rank l" "\<forall>x\<in>set (drop n (after r t)). rank l < rank x"
      "case r of None \<Rightarrow> True | Some r \<Rightarrow> rank r < rank l"
      by (rule after_last [OF good True])
    obtain later e where rest: "follow page ts (Some (token l)) = (later, e)" by (metis prod.exhaust)
    then have items: "items = take n (after r t) @ later" and e: "ended = e"
      using Cons.prems(2,3) True l(1) by (simp_all add: page_after cut_def)
    have IH: "sorted_wrt (\<lambda>a b. rank a < rank b) later"
      "\<forall>x\<in>set later. (\<exists>t\<in>set ts. x \<in> set (rows t)) \<and> rank l < rank x"
      "ended \<longrightarrow> (\<forall>x. (\<forall>t\<in>set ts. x \<in> set (rows t)) \<and> rank l < rank x \<longrightarrow> x \<in> set later)"
      using Cons.IH [of "Some l" later e] Cons.prems(1) rest l(3) e by (simp_all add: known_def)
    have page: "sorted_wrt (\<lambda>a b. rank a < rank b) (take n (after r t))"
      using after_strict [OF good] by (rule sorted_wrt_take)
    have split: "set (after r t) = set (take n (after r t)) \<union> set (drop n (after r t))"
      by (metis append_take_drop_id set_append)
    have "sorted_wrt (\<lambda>a b. rank a < rank b) items"
      using page IH(1,2) l(4) by (auto simp: items sorted_wrt_append intro: le_less_trans)
    moreover have "(\<exists>t\<in>set (t # ts). x \<in> set (rows t)) \<and> (case r of None \<Rightarrow> True | Some r \<Rightarrow> rank r < rank x)"
      if "x \<in> set items" for x
    proof (cases "x \<in> set (take n (after r t))")
      case True
      then have "x \<in> set (after r t)" by (rule in_set_takeD)
      then show ?thesis by (auto simp: set_after)
    next
      case False
      then have "x \<in> set later" using that by (simp add: items)
      then show ?thesis using IH(2) l(6) by (auto split: option.splits intro: less_trans)
    qed
    moreover have "x \<in> set items"
      if "ended" "\<forall>t\<in>set (t # ts). x \<in> set (rows t)" "case r of None \<Rightarrow> True | Some r \<Rightarrow> rank r < rank x" for x
    proof -
      have "x \<in> set (after r t)" using that by (simp add: set_after)
      then consider "x \<in> set (take n (after r t))" | "x \<in> set (drop n (after r t))" using split by blast
      then show ?thesis using IH(3) that l(5) by cases (auto simp: items)
    qed
    ultimately show ?thesis by blast
  qed
qed

text \<open>A table that changes between the requests: nothing twice, nothing that stays is missed.\<close>

theorem never_twice:
  "list_all good ts \<Longrightarrow> follow page ts None = (items, ended) \<Longrightarrow> sorted_wrt (\<lambda>a b. rank a < rank b) items"
  using follow_changing [of ts None items ended] by (simp add: known_def)

theorem never_skipped:
  "list_all good ts \<Longrightarrow> follow page ts None = (items, True) \<Longrightarrow> \<forall>t\<in>set ts. x \<in> set (rows t) \<Longrightarrow> x \<in> set items"
  using follow_changing [of ts None items True] by (simp add: known_def)

end

section \<open>The conditions are the orders\<close>

text \<open>What a WHERE keeps.\<close>

lemma sql_true [simp]:
  "sql_or a b = Some True \<longleftrightarrow> a = Some True \<or> b = Some True"
  "sql_and a b = Some True \<longleftrightarrow> a = Some True \<and> b = Some True"
  "sql_cmp p col v = Some True \<longleftrightarrow> (\<exists>c. col = Some c \<and> p c v)"
  "is_null col = Some True \<longleftrightarrow> col = None"
  by (auto simp: sql_or_def sql_and_def sql_cmp_def is_null_def)

lemma nulls_last_pair_less:
  assumes "inj f"
  shows "(nulls_last f a, p) < (nulls_last f b, q) \<longleftrightarrow> (case a of
      None \<Rightarrow> b = None \<and> p < q
    | Some x \<Rightarrow> (case b of None \<Rightarrow> True | Some y \<Rightarrow> f x < f y \<or> x = y \<and> p < q))"
  using injD [OF assms] by (cases a; cases b) (auto simp: nulls_last_def less_prod_def')

lemma date_rank_less: "date_rank a < date_rank b \<longleftrightarrow> b < a"
  and date_rank_inj: "inj date_rank"
  and time_rank_inj: "inj (\<lambda>x::int. (- x, 0::int, 0::int))"
  by (auto simp: date_rank_def inj_def split: prod.splits)

lemma executions_after_rank: "executions_after k r = Some True \<longleftrightarrow> exec_rank k < exec_rank r"
proof -
  obtain d t i where k: "k = (d, t, i)" by (metis prod.exhaust)
  obtain rd rt ri where r: "r = (rd, rt, ri)" by (metis prod.exhaust)
  show ?thesis
    unfolding k r executions_after_def exec_rank_def Let_def prod.case
      nulls_last_pair_less [OF date_rank_inj] nulls_last_pair_less [OF time_rank_inj]
    by (cases d; cases rd; cases t; cases rt) (auto simp: date_rank_less)
qed

lemma transactions_after_rank: "transactions_after k r \<longleftrightarrow> txn_rank k < txn_rank r"
  by (auto simp: transactions_after_def txn_rank_def)

section \<open>The two readers\<close>

definition wanted_executions :: "exec_query \<Rightarrow> exec_store \<Rightarrow> exec_row list" where
  "wanted_executions q db = (if xs_up db then filter (exec_wanted q) (xs_view db (exec_from_for_scope (xq_scope q))) else [])"

lemma page_cut:
  assumes "xs = take (nat (int (Suc m) + 1)) zs"
  shows "(if int (length xs) > int (Suc m) then Inr (take (nat (int (Suc m))) xs, Some (token (key (last (take (nat (int (Suc m))) xs)))))
      else Inr (xs, None)) = (Inr (cut (token \<circ> key) (Suc m) zs) :: string + _)"
proof -
  have n: "nat (int (Suc m) + 1) = Suc (Suc m)" by simp
  show ?thesis unfolding assms n nat_int by (simp add: cut_def min_def)
qed

lemma positive: "0 < int (Suc m) \<longleftrightarrow> True" "int (Suc m) \<le> 0 \<longleftrightarrow> False"
  by simp_all

lemma read_executions_sorted:
  "read_executions db q (Some (int (Suc m) + 1)) after = take (nat (int (Suc m) + 1)) (sort_key (exec_rank \<circ> xr_key)
     (filter (\<lambda>r. case after of None \<Rightarrow> True | Some k \<Rightarrow> exec_rank k < exec_rank (xr_key r)) (wanted_executions q db)))"
  by (auto simp: read_executions_def wanted_executions_def limited_def executions_after_rank conj_commute
      intro!: arg_cong [where f = "take _"] arg_cong [where f = "sort_key _"] filter_cong split: option.splits)

interpretation exec_pages: paged_list "\<lambda>db. get_executions_page db q (Some (int (Suc m)))" "wanted_executions q"
    "exec_rank \<circ> xr_key" "encode_executions \<circ> xr_key" "valid_exec_key \<circ> xr_key" "Suc m" for q m
proof
  show "0 < Suc m" by simp
  have page: "get_executions_page db q (Some (int (Suc m))) cursor = Inr (cut (encode_executions \<circ> xr_key) (Suc m) (sort_key (exec_rank \<circ> xr_key)
     (filter (\<lambda>r. case after of None \<Rightarrow> True | Some k \<Rightarrow> exec_rank k < exec_rank (xr_key r)) (wanted_executions q db))))"
    if "decode_opt decode_executions cursor = Inr after" for db cursor after
    unfolding get_executions_page_def that ebind.simps Let_def option.case positive if_True if_False
    by (rule page_cut [OF read_executions_sorted])
  fix db r
  show "get_executions_page db q (Some (int (Suc m))) None =
      Inr (cut (encode_executions \<circ> xr_key) (Suc m) (sort_key (exec_rank \<circ> xr_key) (wanted_executions q db)))"
    using page [of None None db] by (simp add: decode_opt_def)
  assume "(valid_exec_key \<circ> xr_key) r"
  then have "decode_opt decode_executions (Some ((encode_executions \<circ> xr_key) r)) = Inr (Some (xr_key r))"
    by (simp add: decode_opt_def executions_round_trip)
  from page [OF this, of db]
  show "get_executions_page db q (Some (int (Suc m))) (Some ((encode_executions \<circ> xr_key) r)) =
      Inr (cut (encode_executions \<circ> xr_key) (Suc m) (sort_key (exec_rank \<circ> xr_key)
        (filter (\<lambda>x. (exec_rank \<circ> xr_key) r < (exec_rank \<circ> xr_key) x) (wanted_executions q db))))"
    by simp
qed

definition wanted_transactions :: "txn_query \<Rightarrow> bool \<times> txn_row list \<Rightarrow> txn_row list" where
  "wanted_transactions q db = (if fst db then filter (txn_wanted q) (snd db) else [])"

lemma read_transactions_sorted:
  "read_transactions (fst db) (snd db) q (Some (int (Suc m) + 1)) after = take (nat (int (Suc m) + 1)) (sort_key (txn_rank \<circ> xt_key)
     (filter (\<lambda>r. case after of None \<Rightarrow> True | Some k \<Rightarrow> txn_rank k < txn_rank (xt_key r)) (wanted_transactions q db)))"
  by (auto simp: read_transactions_def wanted_transactions_def sql_limit_def transactions_after_rank conj_commute
      intro!: arg_cong [where f = "take _"] arg_cong [where f = "sort_key _"] filter_cong split: option.splits)

interpretation txn_pages: paged_list "\<lambda>db. get_transactions_page (fst db) (snd db) q (Some (int (Suc m)))" "wanted_transactions q"
    "txn_rank \<circ> xt_key" "encode_transactions \<circ> xt_key" "valid_txn_key \<circ> xt_key" "Suc m" for q m
proof
  show "0 < Suc m" by simp
  have page: "get_transactions_page (fst db) (snd db) q (Some (int (Suc m))) cursor = Inr (cut (encode_transactions \<circ> xt_key) (Suc m) (sort_key (txn_rank \<circ> xt_key)
     (filter (\<lambda>r. case after of None \<Rightarrow> True | Some k \<Rightarrow> txn_rank k < txn_rank (xt_key r)) (wanted_transactions q db))))"
    if "decode_opt decode_transactions cursor = Inr after" for db cursor after
    unfolding get_transactions_page_def that ebind.simps Let_def option.case positive if_True if_False
    by (rule page_cut [OF read_transactions_sorted])
  fix db r
  show "get_transactions_page (fst db) (snd db) q (Some (int (Suc m))) None =
      Inr (cut (encode_transactions \<circ> xt_key) (Suc m) (sort_key (txn_rank \<circ> xt_key) (wanted_transactions q db)))"
    using page [of None None db] by (simp add: decode_opt_def)
  assume "(valid_txn_key \<circ> xt_key) r"
  then have "decode_opt decode_transactions (Some ((encode_transactions \<circ> xt_key) r)) = Inr (Some (xt_key r))"
    by (simp add: decode_opt_def transactions_round_trip)
  from page [OF this, of db]
  show "get_transactions_page (fst db) (snd db) q (Some (int (Suc m))) (Some ((encode_transactions \<circ> xt_key) r)) =
      Inr (cut (encode_transactions \<circ> xt_key) (Suc m) (sort_key (txn_rank \<circ> xt_key)
        (filter (\<lambda>x. (txn_rank \<circ> xt_key) r < (txn_rank \<circ> xt_key) x) (wanted_transactions q db))))"
    by simp
qed

end
