(* ===== verification/Paging_Claims.thy ===== *)
theory Paging_Claims
  imports Paging
begin

text \<open>
  Properties of the paged lists: an unchanged list is read to its end, a changing one without
  repeats or gaps, and a cursor is the key it was made from.
\<close>

definition exec_id :: "exec_row \<Rightarrow> int" where
  "exec_id r = snd (snd (xr_key r))"

definition view_rows :: "exec_query \<Rightarrow> exec_store \<Rightarrow> exec_row list" where
  "view_rows q db = xs_view db (exec_from_for_scope (xq_scope q))"

text \<open>The rows of a view have ids of their own, and keys the database can hold.\<close>

definition view_ok :: "exec_query \<Rightarrow> exec_store \<Rightarrow> bool" where
  "view_ok q db \<longleftrightarrow> list_all (\<lambda>r. valid_exec_key (xr_key r)) (view_rows q db) \<and> distinct (map exec_id (view_rows q db))"

lemma exec_rank_id: "exec_rank (xr_key a) = exec_rank (xr_key b) \<Longrightarrow> exec_id a = exec_id b"
  by (cases "xr_key a" rule: prod_cases3; cases "xr_key b" rule: prod_cases3) (simp add: exec_rank_def exec_id_def)

lemma distinct_finer:
  assumes "distinct (map g xs)" and finer: "\<And>a b. f a = f b \<Longrightarrow> g a = g b"
  shows "distinct (map f xs)"
  using assms(1) unfolding distinct_map
  by (blast intro: inj_onI dest: inj_onD finer)

lemma view_ok_good:
  assumes "view_ok q db"
  shows "exec_pages.good q db"
proof -
  have "list_all (valid_exec_key \<circ> xr_key) (wanted_executions q db)"
    using assms by (simp add: view_ok_def view_rows_def wanted_executions_def list_all_iff)
  moreover have "distinct (map exec_id (wanted_executions q db))"
    using assms by (simp add: view_ok_def view_rows_def wanted_executions_def distinct_map_filter)
  then have "distinct (map (exec_rank \<circ> xr_key) (wanted_executions q db))"
    unfolding o_def by (rule distinct_finer) (rule exec_rank_id)
  ultimately show ?thesis unfolding exec_pages.good_def ..
qed

lemma wanted_length: "length (wanted_executions q db) \<le> length (view_rows q db)"
  by (simp add: wanted_executions_def view_rows_def)

lemma get_executions_all: "get_executions db q None = sort_key (exec_rank \<circ> xr_key) (wanted_executions q db)"
  by (auto simp: get_executions_def read_executions_def wanted_executions_def limited_def)

text \<open>A view with four rows, one of them without a time, and a newer one.\<close>

definition sample_exec :: "date option \<Rightarrow> int option \<Rightarrow> int \<Rightarrow> exec_row" where
  "sample_exec d t i = \<lparr>xr_key = (d, t, i), xr_account = Some ''U1'', xr_opp = None, xr_trade = None, xr_splits = [], xr_cols = []\<rparr>"

definition sample_view :: "exec_row list \<Rightarrow> exec_store" where
  "sample_view rows = \<lparr>xs_up = True, xs_view = (\<lambda>_. rows)\<rparr>"

definition sample_rows :: "exec_row list" where
  "sample_rows = [sample_exec (Some (2024, 1, 5)) (Some 1000) 1, sample_exec None None 2,
     sample_exec (Some (2024, 1, 6)) None 3, sample_exec (Some (2024, 1, 6)) (Some 7) (-4)]"

definition any_exec :: exec_query where
  "any_exec = \<lparr>xq_since = None, xq_until = None, xq_account = None, xq_opp = None, xq_trade = None, xq_scope = None\<rparr>"

lemma sample_view_ok: "view_ok any_exec (sample_view sample_rows)"
  "view_ok any_exec (sample_view (sample_exec (Some (2024, 2, 1)) (Some 9) 5 # sample_rows))"
  by code_simp+

section \<open>Properties\<close>

text \<open>
  C9. Following the cursors from the first page ends, after one request more than the rows fill
  pages, and the pages together are exactly what the reader without a limit returns, in its order.
\<close>

theorem executions_are_read_to_the_end:
  assumes "view_ok q db" and "length (view_rows q db) \<le> m * Suc n"
  shows "follow (\<lambda>db. get_executions_page db q (Some (int (Suc n)))) (replicate (Suc m) db) None = (get_executions db q None, True)"
  using exec_pages.reads_everything [OF view_ok_good [OF assms(1)], of m n] assms(2) wanted_length [of q db]
  by (simp add: get_executions_all)

theorem executions_are_read_to_the_end_witness:
  "follow (\<lambda>db. get_executions_page db any_exec (Some (int (Suc 1)))) (replicate (Suc 2) (sample_view sample_rows)) None
     = (get_executions (sample_view sample_rows) any_exec None, True) \<and>
   map exec_id (get_executions (sample_view sample_rows) any_exec None) = [-4, 3, 1, 2]"
proof
  have "length (view_rows any_exec (sample_view sample_rows)) \<le> 2 * Suc 1"
    by (simp add: view_rows_def sample_view_def sample_rows_def)
  from executions_are_read_to_the_end [OF sample_view_ok(1) this]
  show "follow (\<lambda>db. get_executions_page db any_exec (Some (int (Suc 1)))) (replicate (Suc 2) (sample_view sample_rows)) None
     = (get_executions (sample_view sample_rows) any_exec None, True)" .
  show "map exec_id (get_executions (sample_view sample_rows) any_exec None) = [-4, 3, 1, 2]" by code_simp
qed

text \<open>
  C34. When the rows change from one request to the next, the pages never return a row twice (the
  keys strictly follow the order), every row returned was there at some request, and a walk that
  reached the end has every row that was there at all of them.
\<close>

theorem changing_executions_are_read_once:
  assumes "\<forall>db\<in>set dbs. view_ok q db"
    and "follow (\<lambda>db. get_executions_page db q (Some (int (Suc n)))) dbs None = (items, ended)"
  shows "sorted_wrt (\<lambda>a b. exec_rank (xr_key a) < exec_rank (xr_key b)) items \<and>
    (\<forall>r\<in>set items. \<exists>db\<in>set dbs. r \<in> set (get_executions db q None)) \<and>
    (ended \<longrightarrow> (\<forall>r. (\<forall>db\<in>set dbs. r \<in> set (get_executions db q None)) \<longrightarrow> r \<in> set items))"
proof -
  have "list_all (exec_pages.good q) dbs" using assms(1) by (auto simp: list_all_iff view_ok_good)
  from exec_pages.follow_changing [OF this, of None n items ended] assms(2)
  show ?thesis by (simp add: exec_pages.known_def get_executions_all)
qed

theorem changing_executions_are_read_once_witness:
  "\<exists>items. follow (\<lambda>db. get_executions_page db any_exec (Some (int (Suc 1))))
       [sample_view sample_rows, sample_view (sample_exec (Some (2024, 2, 1)) (Some 9) 5 # sample_rows)] None = (items, True) \<and>
     (\<forall>r\<in>set sample_rows. r \<in> set items)"
proof -
  let ?dbs = "[sample_view sample_rows, sample_view (sample_exec (Some (2024, 2, 1)) (Some 9) 5 # sample_rows)]"
  let ?run = "follow (\<lambda>db. get_executions_page db any_exec (Some (int (Suc 1)))) ?dbs None"
  let ?page = "\<lambda>db. get_executions_page db any_exec (Some (int (Suc 1)))"
  have key: "(valid_exec_key \<circ> xr_key) (sample_exec (Some (2024, 1, 6)) None 3)" by code_simp
  have "?page (?dbs ! 0) None = Inr (take 2 (sort_key (exec_rank \<circ> xr_key) sample_rows),
      Some ((encode_executions \<circ> xr_key) (sample_exec (Some (2024, 1, 6)) None 3)))"
    unfolding exec_pages.first_page by code_simp
  moreover have "\<exists>rest. ?page (?dbs ! 1) (Some ((encode_executions \<circ> xr_key) (sample_exec (Some (2024, 1, 6)) None 3))) = Inr (rest, None)"
    unfolding exec_pages.next_page [OF key] by (rule exI [of _ "drop 2 (sort_key (exec_rank \<circ> xr_key) sample_rows)"]) code_simp
  ultimately have ended: "snd ?run" by auto
  then have run: "?run = (fst ?run, True)" by (simp add: prod_eq_iff)
  have ok: "\<forall>db\<in>set ?dbs. view_ok any_exec db" using sample_view_ok by simp
  have "\<forall>r\<in>set sample_rows. \<forall>db\<in>set ?dbs. r \<in> set (get_executions db any_exec None)"
    by (simp add: get_executions_all wanted_executions_def sample_view_def exec_wanted_def exec_conditions_def
        any_exec_def when_given_def given_account_def)
  with changing_executions_are_read_once [OF ok run] have "\<forall>r\<in>set sample_rows. r \<in> set (fst ?run)" by blast
  with run show ?thesis by blast
qed

text \<open>
  A cursor says exactly the key it was made from, dates and times with their microseconds and
  the NULLs included, and the other list refuses it.
\<close>

theorem cursors_carry_their_keys:
  assumes "valid_exec_key k" and "valid_txn_key j"
  shows "decode_executions (PStr (encode_executions k)) = Inr k \<and> decode_transactions (PStr (encode_transactions j)) = Inr j \<and>
    decode_transactions (PStr (encode_executions k)) = Inl ''cursor belongs to another list ('executions'), not transactions'' \<and>
    decode_executions (PStr (encode_transactions j)) = Inl ''cursor belongs to another list ('transactions'), not executions''"
proof -
  have names: "TRANSACTIONS \<noteq> EXECUTIONS" "EXECUTIONS \<noteq> TRANSACTIONS" by code_simp+
  have texts: "''cursor belongs to another list ('' @ py_repr (PStr EXECUTIONS) @ ''), not '' @ TRANSACTIONS = ''cursor belongs to another list ('executions'), not transactions''"
    "''cursor belongs to another list ('' @ py_repr (PStr TRANSACTIONS) @ ''), not '' @ EXECUTIONS = ''cursor belongs to another list ('transactions'), not executions''"
    by code_simp+
  obtain d t i where k: "k = (d, t, i)" by (metis prod.exhaust)
  obtain t' i' where j: "j = (t', i')" by (metis prod.exhaust)
  show ?thesis
    using executions_round_trip [OF assms(1)] transactions_round_trip [OF assms(2)]
      executions_token [OF assms(1) [unfolded k], of TRANSACTIONS] transactions_token [OF assms(2) [unfolded j], of EXECUTIONS]
    unfolding texts if_not_P [OF names(1)] if_not_P [OF names(2)]
    by (simp add: k j decode_executions_def decode_transactions_def)
qed

theorem cursors_carry_their_keys_witness:
  "decode_executions (PStr (encode_executions (Some (2024, 2, 29), None, -4))) = Inr (Some (2024, 2, 29), None, -4) \<and>
   decode_transactions (PStr (encode_transactions (1709210096123456, 7))) = Inr (1709210096123456, 7)"
proof -
  have "valid_exec_key (Some (2024, 2, 29), None, -4)" "valid_txn_key (1709210096123456, 7)" by code_simp+
  from cursors_carry_their_keys [OF this] show ?thesis by simp
qed

end
