(* ===== verification/Tally.thy ===== *)
theory Tally
  imports Main "HOL-Library.AList"
begin

text \<open>
  Totals by key: a loop that adds every item to the entry of its key. Whatever is counted, the entries
  together hold what the items hold, and each entry what the items of its key do.
\<close>

definition add_to :: "'v \<Rightarrow> ('a \<Rightarrow> 'v \<Rightarrow> 'v) \<Rightarrow> 'k \<Rightarrow> 'a \<Rightarrow> ('k \<times> 'v) list \<Rightarrow> ('k \<times> 'v) list" where
  "add_to blank book k a kvs = AList.update k (book a (case map_of kvs k of None \<Rightarrow> blank | Some v \<Rightarrow> v)) kvs"

definition tally_by :: "'v \<Rightarrow> ('a \<Rightarrow> 'v \<Rightarrow> 'v) \<Rightarrow> ('a \<Rightarrow> 'k) \<Rightarrow> 'a list \<Rightarrow> ('k \<times> 'v) list" where
  "tally_by blank book key as = foldl (\<lambda>kvs a. add_to blank book (key a) a kvs) [] as"

lemma add_to_keys: "fst ` set (add_to blank book k a kvs) = insert k (fst ` set kvs)"
  and add_to_distinct: "distinct (map fst kvs) \<Longrightarrow> distinct (map fst (add_to blank book k a kvs))"
  by (simp_all add: add_to_def dom_update distinct_update)

lemma add_to_map:
  "map_of (add_to blank book k a kvs) = (map_of kvs)(k \<mapsto> book a (case map_of kvs k of None \<Rightarrow> blank | Some v \<Rightarrow> v))"
  by (simp add: add_to_def update_conv')

lemma tally_snoc: "tally_by blank book key (as @ [a]) = add_to blank book (key a) a (tally_by blank book key as)"
  by (simp add: tally_by_def)

lemma tally_nil [simp]: "tally_by blank book key [] = []"
  by (simp add: tally_by_def)

lemma tally_distinct: "distinct (map fst (tally_by blank book key as))"
  by (induction as rule: rev_induct) (simp_all add: tally_snoc add_to_distinct)

lemma tally_keys: "fst ` set (tally_by blank book key as) = key ` set as"
  by (induction as rule: rev_induct) (simp_all add: tally_snoc add_to_keys)

lemma tally_lists: "map_of (tally_by [] (\<lambda>r rs. rs @ [g r]) key as) k =
    (let xs = map g (filter (\<lambda>a. key a = k) as) in if xs = [] then None else Some xs)"
proof (induction as rule: rev_induct)
  case (snoc a as)
  then show ?case by (auto simp: tally_snoc add_to_map Let_def)
qed simp

lemma sum_update:
  fixes f :: "'v \<Rightarrow> 'n::ab_group_add"
  assumes "distinct (map fst kvs)"
  shows "sum_list (map (f \<circ> snd) (AList.update k v kvs)) =
    sum_list (map (f \<circ> snd) kvs) + f v - (case map_of kvs k of None \<Rightarrow> 0 | Some u \<Rightarrow> f u)"
  using assms by (induction kvs) (auto simp: algebra_simps dest: weak_map_of_SomeI split: option.splits)

text \<open>A quantity that every item adds to.\<close>

locale counted =
  fixes blank :: 'v and book :: "'a \<Rightarrow> 'v \<Rightarrow> 'v" and quantity :: "'v \<Rightarrow> 'n::ab_group_add" and amount :: "'a \<Rightarrow> 'n"
  assumes blank: "quantity blank = 0" and more: "quantity (book a v) = quantity v + amount a"
begin

lemma add_to_sum:
  assumes "distinct (map fst kvs)"
  shows "sum_list (map (quantity \<circ> snd) (add_to blank book k a kvs)) = sum_list (map (quantity \<circ> snd) kvs) + amount a"
  unfolding add_to_def sum_update [OF assms] by (simp add: more blank split: option.splits)

lemma all_entries: "sum_list (map (quantity \<circ> snd) (tally_by blank book key as)) = sum_list (map amount as)"
  by (induction as rule: rev_induct) (simp_all add: tally_snoc add_to_sum tally_distinct del: o_apply)

lemma entry:
  "(case map_of (tally_by blank book key as) k of None \<Rightarrow> 0 | Some v \<Rightarrow> quantity v)
     = sum_list (map amount (filter (\<lambda>a. key a = k) as))"
proof (induction as rule: rev_induct)
  case (snoc a as)
  then show ?case by (cases "key a = k") (auto simp: tally_snoc add_to_map more blank split: option.splits)
qed simp

end

end
