(* ===== verification/Performance.thy ===== *)
theory Performance
  imports Fifo Fill_Imports Tally
begin

text \<open>
  Realized performance (\<open>portfolio/reader/executions.py\<close>): how a fill counts for a trade, the
  summary of one trade and the statistics of a range with their breakdowns. The executions read,
  the equity, the cash flow and the account rows are arguments. Columns are dictionaries; a split's
  quantity and the times are finite numbers, texts are text or NULL.
\<close>

section \<open>Fills with their splits\<close>

record fill_split =
  sp_trade :: int
  sp_qty :: rat
  sp_opp :: "int option"
  sp_label :: "string option"

record exec_fill =
  ef_cols :: pydict
  ef_splits :: "fill_split list"

definition split_label :: "fill_split \<Rightarrow> fill_split" where
  "split_label a = a\<lparr>sp_label := (case sp_label a of None \<Rightarrow> None | Some s \<Rightarrow> if strip s = [] then None else Some (strip s))\<rparr>"

text \<open>The rows of the splits view are given with the id of their execution.\<close>

definition splits_for :: "(int \<times> fill_split) list \<Rightarrow> pydict \<Rightarrow> fill_split list" where
  "splits_for table e = (if dget e ''account_executions_id'' = PNone then []
     else case py_int (dget e ''account_executions_id'') of
         Inl _ \<Rightarrow> []
       | Inr i \<Rightarrow> map (split_label \<circ> snd) (filter (\<lambda>r. fst r = i) (sort_key (sp_trade \<circ> snd) table)))"

definition attach_fill_splits :: "(int \<times> fill_split) list \<Rightarrow> pydict list \<Rightarrow> exec_fill list" where
  "attach_fill_splits table es = map (\<lambda>e. \<lparr>ef_cols = e, ef_splits = splits_for table e\<rparr>) es"

definition split_total :: "exec_fill \<Rightarrow> rat" where
  "split_total e = sum_list (map (\<lambda>a. \<bar>sp_qty a\<bar>) (ef_splits e))"

definition weight_realized_for_trade :: "exec_fill \<Rightarrow> int \<Rightarrow> conv_err + rat" where
  "weight_realized_for_trade e sid =
     (if ef_splits e \<noteq> [] then
        (if split_total e \<le> 0 then Inr 0
         else case List.find (\<lambda>a. sp_trade a = sid) (ef_splits e) of
             None \<Rightarrow> Inr 0
           | Some a \<Rightarrow> Inr (\<bar>sp_qty a\<bar> / split_total e))
      else if dget (ef_cols e) ''trade_id'' = PNone then Inr 0
      else ebind (py_int (dget (ef_cols e) ''trade_id'')) (\<lambda>i. Inr (if i = sid then 1 else 0)))"

section \<open>What a fill adds\<close>

text \<open>A number column; NULL, infinities and NaN count zero. The first loop only takes numbers.\<close>

definition money :: "pyval \<Rightarrow> conv_err + rat" where
  "money v = (if v = PNone then Inr 0
     else ebind (py_float v) (\<lambda>f. Inr (case f of Fin q \<Rightarrow> q | _ \<Rightarrow> 0)))"

fun is_number :: "pyval \<Rightarrow> bool" where
  "is_number (PInt _) = True"
| "is_number (PBool _) = True"
| "is_number (PFloat _) = True"
| "is_number _ = False"

definition number_money :: "pyval \<Rightarrow> conv_err + rat" where
  "number_money v = (if is_number v then money v else Inr 0)"

definition perf_inst_weight :: "int option \<Rightarrow> exec_fill \<Rightarrow> conv_err + rat" where
  "perf_inst_weight trade e = (case trade of None \<Rightarrow> Inr 1 | Some t \<Rightarrow> weight_realized_for_trade e t)"

text \<open>A fill with its weighted realized result and commission.\<close>

type_synonym booked = "exec_fill \<times> rat \<times> rat"

definition booked_with :: "(pyval \<Rightarrow> conv_err + rat) \<Rightarrow> int option \<Rightarrow> exec_fill \<Rightarrow> conv_err + booked" where
  "booked_with amount trade e = ebind (perf_inst_weight trade e) (\<lambda>w.
     ebind (amount (dget (ef_cols e) ''realized_pnl'')) (\<lambda>r.
     ebind (amount (dget (ef_cols e) ''commission'')) (\<lambda>c. Inr (e, r * w, c * w))))"

record tally =
  ta_pnl :: rat
  ta_commission :: rat
  ta_net :: rat
  ta_fills :: int
  ta_wins :: int
  ta_losses :: int

definition no_tally :: tally where
  "no_tally = \<lparr>ta_pnl = 0, ta_commission = 0, ta_net = 0, ta_fills = 0, ta_wins = 0, ta_losses = 0\<rparr>"

definition book_amounts :: "rat \<Rightarrow> rat \<Rightarrow> int \<Rightarrow> tally \<Rightarrow> tally" where
  "book_amounts r c n t = t\<lparr>ta_pnl := ta_pnl t + r, ta_commission := ta_commission t + c,
     ta_net := ta_net t + (r - c), ta_fills := ta_fills t + n\<rparr>"

definition book_fill :: "booked \<Rightarrow> tally \<Rightarrow> tally" where
  "book_fill b t = (case b of (e, r, c) \<Rightarrow> (book_amounts r c 1 t)\<lparr>
     ta_wins := ta_wins t + (if r > 0 then 1 else 0), ta_losses := ta_losses t + (if r < 0 then 1 else 0)\<rparr>)"

section \<open>Keys of the breakdowns\<close>

definition account_key :: "booked \<Rightarrow> string" where
  "account_key b = (case dget (ef_cols (fst b)) ''account_id'' of PStr s \<Rightarrow> s | _ \<Rightarrow> [])"

definition sec_type_name :: "pyval \<Rightarrow> string" where
  "sec_type_name v = (let s = upper (strip (case v of PStr s \<Rightarrow> if s = [] then ''UNKNOWN'' else s | _ \<Rightarrow> ''UNKNOWN''))
     in if s = [] then ''UNKNOWN'' else s)"

definition sec_key :: "booked \<Rightarrow> string" where
  "sec_key b = sec_type_name (dget (ef_cols (fst b)) ''sec_type'')"

definition granularity_of :: "string \<Rightarrow> granularity" where
  "granularity_of s = (if s = ''month'' then Month else if s = ''week'' then Week else Day)"

text \<open>\<open>datetime(y, m, d, tzinfo=utc).timestamp()\<close>\<close>

definition utc_midnight :: "date \<Rightarrow> rat" where
  "utc_midnight d = of_int ((to_ordinal d - epoch_ordinal) * 86400)"

definition exec_time :: "exec_fill \<Rightarrow> conv_err + rat" where
  "exec_time e = ebind (py_float (dget (ef_cols e) ''time'')) (\<lambda>f. case f of Fin t \<Rightarrow> Inr t | _ \<Rightarrow> Inl ValueErr)"

definition utc_day :: "rat \<Rightarrow> conv_err + date" where
  "utc_day t = (case fromtimestamp (Fin t) of
       Some m \<Rightarrow> Inr (date_of_instant (instant m))
     | None \<Rightarrow> Inl (if clock_range t then ValueErr else OverflowErr))"

definition utc_period :: "string \<Rightarrow> exec_fill \<Rightarrow> conv_err + rat \<times> string" where
  "utc_period gran e = ebind (exec_time e) (\<lambda>t. ebind (utc_day t) (\<lambda>d. Inr (period_key utc_midnight (granularity_of gran) d)))"

section \<open>By trade and by opportunity\<close>

text \<open>
  The entries of the opportunities and of the trades; an opportunity counts a split fill once. A
  trade id of 0 in a split reads as -1 for the filter, as \<open>int(\<dots> or -1)\<close> does.
\<close>

type_synonym by_ids = "(int \<times> tally) list \<times> (int \<times> tally) list"

definition add_amounts :: "int \<Rightarrow> rat \<Rightarrow> rat \<Rightarrow> int \<Rightarrow> (int \<times> tally) list \<Rightarrow> (int \<times> tally) list" where
  "add_amounts k r c n = add_to no_tally (\<lambda>(r, c, n). book_amounts r c n) k (r, c, n)"

definition add_split :: "rat \<Rightarrow> rat \<Rightarrow> rat \<Rightarrow> by_ids \<times> int set \<Rightarrow> fill_split \<Rightarrow> by_ids \<times> int set" where
  "add_split r c denom s a = (case s of ((opps, insts), bumped) \<Rightarrow>
     let w = \<bar>sp_qty a\<bar> / denom;
         insts' = add_amounts (sp_trade a) (r * w) (c * w) 1 insts
     in case sp_opp a of
          None \<Rightarrow> ((opps, insts'), bumped)
        | Some k \<Rightarrow> ((add_amounts k (r * w) (c * w) (if k \<in> bumped then 0 else 1) opps, insts'), insert k bumped))"

definition only_splits :: "int option \<Rightarrow> fill_split list \<Rightarrow> fill_split list" where
  "only_splits only as = (case only of None \<Rightarrow> as | Some t \<Rightarrow> filter (\<lambda>a. (if sp_trade a = 0 then -1 else sp_trade a) = t) as)"

definition opt_id :: "pyval \<Rightarrow> conv_err + int option" where
  "opt_id v = (if v = PNone then Inr None else ebind (py_int v) (\<lambda>i. Inr (Some i)))"

definition add_whole :: "int option \<Rightarrow> int option \<Rightarrow> rat \<Rightarrow> rat \<Rightarrow> by_ids \<Rightarrow> by_ids" where
  "add_whole opp inst r c ids =
     ((case opp of None \<Rightarrow> fst ids | Some k \<Rightarrow> add_amounts k r c 1 (fst ids)),
      (case inst of None \<Rightarrow> snd ids | Some k \<Rightarrow> add_amounts k r c 1 (snd ids)))"

definition add_realized_splits :: "int option \<Rightarrow> exec_fill \<Rightarrow> by_ids \<Rightarrow> conv_err + by_ids" where
  "add_realized_splits only e ids =
     ebind (money (dget (ef_cols e) ''realized_pnl'')) (\<lambda>r. ebind (money (dget (ef_cols e) ''commission'')) (\<lambda>c.
     if ef_splits e \<noteq> [] then
       (let work = only_splits only (ef_splits e)
        in if work = [] \<or> split_total e \<le> 0 then Inr ids
           else Inr (fst (foldl (add_split r c (split_total e)) (ids, {}) work)))
     else ebind (case only of None \<Rightarrow> Inr True
            | Some t \<Rightarrow> ebind (opt_id (dget (ef_cols e) ''trade_id'')) (\<lambda>i. Inr (i = Some t))) (\<lambda>mine.
          if \<not> mine then Inr ids
          else ebind (opt_id (dget (ef_cols e) ''strategy_opportunity_id'')) (\<lambda>opp.
               ebind (opt_id (dget (ef_cols e) ''trade_id'')) (\<lambda>inst. Inr (add_whole opp inst r c ids))))))"

fun by_ids_of :: "int option \<Rightarrow> exec_fill list \<Rightarrow> by_ids \<Rightarrow> conv_err + by_ids" where
  "by_ids_of only [] ids = Inr ids"
| "by_ids_of only (e # es) ids = ebind (add_realized_splits only e ids) (by_ids_of only es)"

section \<open>The summary\<close>

record perf_summary =
  ps_total_pnl :: rat
  ps_realized :: rat
  ps_commission :: rat
  ps_net :: rat
  ps_fills :: int
  ps_wins :: nat
  ps_losses :: nat
  ps_win_rate :: "rat option"
  ps_profit_factor :: "pyfloat option"
  ps_avg_win :: "rat option"
  ps_avg_loss :: "rat option"
  ps_max_win :: "rat option"
  ps_max_loss :: "rat option"
  ps_max_drawdown :: "rat option"
  ps_return_pct :: "rat option"
  ps_unrealized :: rat

definition profit_factor :: "rat list \<Rightarrow> rat list \<Rightarrow> pyfloat option" where
  "profit_factor wins losses =
     (if \<bar>sum_list losses\<bar> > 0 then Some (Fin (sum_list wins / \<bar>sum_list losses\<bar>))
      else if sum_list wins = 0 then None else Some PosInf)"

definition round_factor :: "pyfloat option \<Rightarrow> pyfloat option" where
  "round_factor f = (case f of Some (Fin q) \<Rightarrow> Some (Fin (round4 q)) | _ \<Rightarrow> f)"

definition average :: "rat list \<Rightarrow> rat option" where
  "average xs = (if xs = [] then None else Some (sum_list xs / of_nat (length xs)))"

definition ratio_of_wins :: "nat \<Rightarrow> nat \<Rightarrow> rat option" where
  "ratio_of_wins w l = (if w + l = 0 then None else Some (of_nat w / of_nat (w + l)))"

definition greatest :: "rat list \<Rightarrow> rat option" where
  "greatest xs = (if xs = [] then None else Some (foldl max (hd xs) (tl xs)))"

definition least :: "rat list \<Rightarrow> rat option" where
  "least xs = (if xs = [] then None else Some (foldl min (hd xs) (tl xs)))"

text \<open>The figures both responses share, from the realized results, commissions and their count.\<close>

definition summary_of :: "rat list \<Rightarrow> rat list \<Rightarrow> int \<Rightarrow> rat \<Rightarrow> rat option \<Rightarrow> rat option \<Rightarrow> perf_summary" where
  "summary_of rs cs n unrealized drawdown return_pct =
     (let wins = filter (\<lambda>r. r > 0) rs; losses = filter (\<lambda>r. r < 0) rs; net = sum_list rs - sum_list cs
      in \<lparr>ps_total_pnl = round2 (net + unrealized), ps_realized = round2 (sum_list rs), ps_commission = round2 (sum_list cs),
          ps_net = round2 net, ps_fills = n, ps_wins = length wins, ps_losses = length losses,
          ps_win_rate = map_option round4 (ratio_of_wins (length wins) (length losses)),
          ps_profit_factor = round_factor (profit_factor wins losses),
          ps_avg_win = map_option round2 (average wins), ps_avg_loss = map_option round2 (average losses),
          ps_max_win = map_option round2 (greatest wins), ps_max_loss = map_option round2 (least losses),
          ps_max_drawdown = drawdown, ps_return_pct = return_pct, ps_unrealized = round2 unrealized\<rparr>)"

text \<open>
  \<open>get_performance_instance_summary_only\<close> on the executions read; a value that does not convert
  makes it answer with zeros.
\<close>

fun instance_amounts :: "int \<Rightarrow> exec_fill list \<Rightarrow> conv_err + (rat \<times> rat) list" where
  "instance_amounts sid [] = Inr []"
| "instance_amounts sid (e # es) = ebind (weight_realized_for_trade e sid) (\<lambda>w.
     if w \<le> 0 then instance_amounts sid es
     else ebind (money (py_or (dget (ef_cols e) ''realized_pnl'') (PInt 0))) (\<lambda>r.
          ebind (money (py_or (dget (ef_cols e) ''commission'') (PInt 0))) (\<lambda>c.
          ebind (instance_amounts sid es) (\<lambda>rest. Inr ((r * w, c * w) # rest)))))"

definition get_performance_instance_summary_only :: "bool \<Rightarrow> exec_fill list \<Rightarrow> pyval \<Rightarrow> perf_summary" where
  "get_performance_instance_summary_only conn executions trade_id =
     (case (if conn then ebind (py_int trade_id) (\<lambda>sid. instance_amounts sid executions) else Inr []) of
        Inl _ \<Rightarrow> summary_of [] [] 0 0 None None
      | Inr xs \<Rightarrow> summary_of (map fst xs) (map snd xs) (int (length xs)) 0 None None)"

section \<open>The cumulative curve\<close>

fun curve :: "rat \<Rightarrow> (rat \<times> rat) list \<Rightarrow> (rat \<times> rat) list" where
  "curve running [] = []"
| "curve running ((t, net) # xs) = (t, round2 (running + net)) # curve (running + net) xs"

fun drawdown_loop :: "rat \<Rightarrow> rat \<Rightarrow> rat list \<Rightarrow> rat" where
  "drawdown_loop peak dd [] = dd"
| "drawdown_loop peak dd (v # vs) = (let p = max peak v in drawdown_loop p (max dd (p - v)) vs)"

definition max_drawdown :: "rat list \<Rightarrow> rat option" where
  "max_drawdown vs = (let dd = drawdown_loop 0 0 vs in if dd > 0 then Some dd else None)"

section \<open>Unrealized results\<close>

record account_obj =
  ao_id :: string
  ao_positions :: "pydict list"

definition unrealized_of :: "pydict \<Rightarrow> rat option" where
  "unrealized_of pos = (let v = dget pos ''unrealized_pnl'' in if is_number v then finite_float v else None)"

definition position_sec_type :: "pydict \<Rightarrow> string" where
  "position_sec_type pos = sec_type_name (py_or (dget pos ''secType'') (dget pos ''sec_type''))"

definition open_results :: "account_obj list \<Rightarrow> (string \<times> string \<times> rat) list" where
  "open_results accounts = concat (map (\<lambda>a. List.map_filter (\<lambda>pos. map_option (\<lambda>u. (ao_id a, position_sec_type pos, u)) (unrealized_of pos))
     (ao_positions a)) accounts)"

definition sum_by :: "('a \<Rightarrow> 'k::linorder) \<Rightarrow> ('a \<Rightarrow> rat) \<Rightarrow> 'a list \<Rightarrow> ('k \<times> rat) list" where
  "sum_by key amount xs = map (\<lambda>(k, v). (k, round2 v)) (sort_key fst (tally_by 0 (\<lambda>a v. v + amount a) key xs))"

section \<open>The statistics of a range\<close>

record 'k perf_row =
  pr_key :: 'k
  pr_pnl :: rat
  pr_commission :: rat
  pr_net :: rat
  pr_fills :: int
  pr_wins :: int
  pr_losses :: int
  pr_win_rate :: "rat option"
  pr_return_pct :: "rat option"

definition return_on :: "rat option \<Rightarrow> rat \<Rightarrow> rat option" where
  "return_on base net = (case base of None \<Rightarrow> None | Some b \<Rightarrow> if b > 0 then Some (round4 (100 * net / b)) else None)"

text \<open>A row of a breakdown is rounded, a row of the calendar is not.\<close>

definition breakdown_row :: "rat option \<Rightarrow> 'k \<times> tally \<Rightarrow> 'k perf_row" where
  "breakdown_row base kt = (case kt of (k, t) \<Rightarrow>
     \<lparr>pr_key = k, pr_pnl = round2 (ta_pnl t), pr_commission = round2 (ta_commission t), pr_net = round2 (ta_net t),
      pr_fills = ta_fills t, pr_wins = 0, pr_losses = 0, pr_win_rate = None, pr_return_pct = return_on base (round2 (ta_net t))\<rparr>)"

definition calendar_row :: "rat option \<Rightarrow> 'k \<times> tally \<Rightarrow> 'k perf_row" where
  "calendar_row base kt = (case kt of (k, t) \<Rightarrow>
     \<lparr>pr_key = k, pr_pnl = ta_pnl t, pr_commission = ta_commission t, pr_net = ta_net t,
      pr_fills = ta_fills t, pr_wins = ta_wins t, pr_losses = ta_losses t,
      pr_win_rate = ratio_of_wins (nat (ta_wins t)) (nat (ta_losses t)), pr_return_pct = return_on base (ta_net t)\<rparr>)"

definition breakdown :: "rat option \<Rightarrow> (booked \<Rightarrow> 'k::linorder) \<Rightarrow> booked list \<Rightarrow> 'k perf_row list" where
  "breakdown base key bs = map (breakdown_row base) (sort_key fst (tally_by no_tally book_fill key bs))"

definition id_rows :: "rat option \<Rightarrow> (int \<times> tally) list \<Rightarrow> int perf_row list" where
  "id_rows base kvs = map (breakdown_row base) (sort_key fst kvs)"

text \<open>The fills with the key of their period.\<close>

definition with_period :: "string \<Rightarrow> booked list \<Rightarrow> conv_err + ((rat \<times> string) \<times> booked) list" where
  "with_period gran bs = emap (\<lambda>b. ebind (utc_period gran (fst b)) (\<lambda>k. Inr (k, b))) bs"

definition calendar_rows :: "rat option \<Rightarrow> ((rat \<times> string) \<times> booked) list \<Rightarrow> (rat \<times> string) perf_row list" where
  "calendar_rows base kbs = map (calendar_row base) (sort_key (fst \<circ> fst) (tally_by no_tally (book_fill \<circ> snd) fst kbs))"

text \<open>A period of paired options as a row of the calendar by security type: it counts pairs, not fills.\<close>

definition opt_row :: "rat option \<Rightarrow> (rat \<times> string) \<times> period \<Rightarrow> (rat \<times> string \<times> string) perf_row" where
  "opt_row base kp = (case kp of ((start, label), p) \<Rightarrow>
     \<lparr>pr_key = (start, label, ''OPT''), pr_pnl = pd_pnl p, pr_commission = pd_commission p, pr_net = pd_net p,
      pr_fills = int (length (pd_pairs p)), pr_wins = int (pd_wins p), pr_losses = int (pd_losses p),
      pr_win_rate = win_rate p, pr_return_pct = return_on base (pd_net p)\<rparr>)"

definition calendar_by_sec_type ::
  "rat option \<Rightarrow> ((rat \<times> string) \<times> period) list \<Rightarrow> ((rat \<times> string) \<times> booked) list \<Rightarrow> (rat \<times> string \<times> string) perf_row list" where
  "calendar_by_sec_type base opt kbs =
     sort_key (\<lambda>r. (fst (pr_key r), snd (snd (pr_key r))))
       (map (opt_row base) opt @
        map (calendar_row base) (sort_key (\<lambda>kt. (fst (fst kt), snd (snd (fst kt))))
          (tally_by no_tally (book_fill \<circ> snd) (\<lambda>(k, b). (fst k, snd k, sec_key b)) (filter (\<lambda>(k, b). sec_key b \<noteq> ''OPT'') kbs))))"

record perf_query =
  pq_equity :: "rat option"
  pq_cash_flow :: rat
  pq_execs :: "exec_fill list"
  pq_lookback :: "exec_fill list"
  pq_accounts :: "account_obj list"
  pq_granularity :: string
  pq_since :: "rat option"
  pq_until :: "rat option"
  pq_trade :: "int option"
  pq_scope :: string

record perf_stats =
  st_capital_base :: "rat option"
  st_summary :: perf_summary
  st_by_account :: "string perf_row list"
  st_by_sec_type :: "string perf_row list"
  st_by_account_and_sec_type :: "(string \<times> string) perf_row list"
  st_by_opportunity :: "int perf_row list"
  st_by_trade :: "int perf_row list"
  st_calendar :: "(rat \<times> string) perf_row list"
  st_calendar_by_sec_type :: "(rat \<times> string \<times> string) perf_row list"
  st_curve :: "(rat \<times> rat) list"
  st_unrealized :: rat
  st_unrealized_pct :: "rat option"
  st_unrealized_by_account :: "(string \<times> rat) list"
  st_unrealized_by_sec_type :: "(string \<times> rat) list"
  st_unrealized_by_account_and_sec_type :: "((string \<times> string) \<times> rat) list"

definition capital_base :: "rat option \<Rightarrow> rat \<Rightarrow> rat option" where
  "capital_base equity cash = (case equity of None \<Rightarrow> None
     | Some e \<Rightarrow> (let b = e + cash / 2 in if b \<le> 0 then None else Some b))"

definition scope_norm :: "string \<Rightarrow> string" where
  "scope_norm s = (let t = lower (strip (if s = [] then ''performance_book'' else s))
     in if t = ''performance_book'' \<or> t = ''on_the_fly'' then t else ''performance_book'')"

text \<open>The fills with a time, in its order.\<close>

definition timed :: "exec_fill \<Rightarrow> bool" where
  "timed e \<longleftrightarrow> dget (ef_cols e) ''time'' \<noteq> PNone"

definition by_time :: "exec_fill list \<Rightarrow> conv_err + (rat \<times> exec_fill) list" where
  "by_time es = ebind (emap (\<lambda>e. ebind (exec_time e) (\<lambda>t. Inr (t, e))) es) (\<lambda>tes. Inr (sort_key fst tes))"

text \<open>The legs of the option calendar, and its range of dates.\<close>

definition is_opt_row :: "exec_fill \<Rightarrow> bool" where
  "is_opt_row e \<longleftrightarrow> upper (stripped (dget (ef_cols e) ''sec_type'')) = ''OPT''"

definition opt_legs :: "perf_query \<Rightarrow> (rat \<times> exec_fill) list \<Rightarrow> conv_err + pydict list" where
  "opt_legs q sorted_execs = (case pq_since q of
       None \<Rightarrow> Inr (map (ef_cols \<circ> snd) sorted_execs)
     | Some _ \<Rightarrow> ebind (by_time (filter (\<lambda>e. timed e \<and> is_opt_row e) (pq_lookback q))) (\<lambda>tes. Inr (map (ef_cols \<circ> snd) tes)))"

definition chicago_date :: "(rat \<Rightarrow> date option) \<Rightarrow> rat option \<Rightarrow> conv_err + date option" where
  "chicago_date chicago_day t = (case t of None \<Rightarrow> Inr None
     | Some x \<Rightarrow> (case chicago_day x of None \<Rightarrow> Inl (if clock_range x then ValueErr else OverflowErr) | Some d \<Rightarrow> Inr (Some d)))"

definition opt_calendar ::
  "(rat \<Rightarrow> string) \<Rightarrow> (rat \<Rightarrow> date option) \<Rightarrow> (date \<Rightarrow> rat) \<Rightarrow> perf_query \<Rightarrow> (rat \<times> exec_fill) list \<Rightarrow> conv_err + ((rat \<times> string) \<times> period) list" where
  "opt_calendar chicago chicago_day midnight q sorted_execs =
     ebind (opt_legs q sorted_execs) (\<lambda>legs.
     ebind (chicago_date chicago_day (pq_since q)) (\<lambda>since.
     ebind (if pq_since q = None then Inr None else chicago_date chicago_day (pq_until q)) (\<lambda>until.
     compute_opt_realized_calendar chicago chicago_day midnight legs (granularity_of (pq_granularity q)) since until)))"

definition get_performance_stats ::
  "(rat \<Rightarrow> string) \<Rightarrow> (rat \<Rightarrow> date option) \<Rightarrow> (date \<Rightarrow> rat) \<Rightarrow> perf_query \<Rightarrow> conv_err + perf_stats" where
  "get_performance_stats chicago chicago_day midnight q =
     ebind (by_time (filter timed (pq_execs q))) (\<lambda>tes.
     let es = map snd tes; base = capital_base (pq_equity q) (pq_cash_flow q) in
     ebind (emap (booked_with number_money (pq_trade q)) es) (\<lambda>ns.
     ebind (emap (booked_with money (pq_trade q)) es) (\<lambda>bs.
     ebind (by_ids_of (pq_trade q) es ([], [])) (\<lambda>ids.
     ebind (with_period (pq_granularity q) bs) (\<lambda>kbs.
     ebind (opt_calendar chicago chicago_day midnight q tes) (\<lambda>opt.
     let opens = (if scope_norm (pq_scope q) = ''on_the_fly'' then [] else open_results (pq_accounts q));
         rs = map (\<lambda>(e, r, c). r) ns; cs = map (\<lambda>(e, r, c). c) ns;
         unrealized = sum_list (map (\<lambda>(a, s, u). u) opens);
         points = curve 0 (zip (map fst tes) (map (\<lambda>(e, r, c). r - c) ns));
         pnl = sum_list rs - sum_list cs + unrealized
     in Inr \<lparr>st_capital_base = map_option round2 base,
          st_summary = summary_of rs cs (int (length ns)) unrealized (map_option round2 (max_drawdown (map snd points))) (return_on base pnl),
          st_by_account = breakdown base account_key bs,
          st_by_sec_type = breakdown base sec_key bs,
          st_by_account_and_sec_type = breakdown base (\<lambda>b. (account_key b, sec_key b)) bs,
          st_by_opportunity = id_rows base (fst ids),
          st_by_trade = id_rows base (snd ids),
          st_calendar = calendar_rows base kbs,
          st_calendar_by_sec_type = calendar_by_sec_type base opt kbs,
          st_curve = points,
          st_unrealized = round2 unrealized,
          st_unrealized_pct = (if scope_norm (pq_scope q) = ''on_the_fly'' then None
            else case pq_equity q of None \<Rightarrow> None | Some e \<Rightarrow> if e > 0 then Some (round4 (100 * unrealized / e)) else None),
          st_unrealized_by_account = sum_by fst (\<lambda>(a, s, u). u) opens,
          st_unrealized_by_sec_type = sum_by (fst \<circ> snd) (\<lambda>(a, s, u). u) opens,
          st_unrealized_by_account_and_sec_type = sum_by (\<lambda>(a, s, u). (a, s)) (\<lambda>(a, s, u). u) opens\<rparr>))))))"

end
