(* ===== verification/Performance_Claims.thy ===== *)
theory Performance_Claims
  imports Performance "HOL-Library.Multiset"
begin

text \<open>
  Realized performance: every breakdown adds up to the summary, the row of a trade is the summary of
  that trade, and the drawdown is the deepest fall of the curve.
\<close>

section \<open>Sums over a breakdown\<close>

lemma book_fill_amounts:
  "ta_pnl (book_fill (e, r, c) t) = ta_pnl t + r" "ta_commission (book_fill (e, r, c) t) = ta_commission t + c"
  "ta_net (book_fill (e, r, c) t) = ta_net t + (r - c)" "ta_fills (book_fill (e, r, c) t) = ta_fills t + 1"
  "ta_wins (book_fill (e, r, c) t) = ta_wins t + (if r > 0 then 1 else 0)"
  "ta_losses (book_fill (e, r, c) t) = ta_losses t + (if r < 0 then 1 else 0)"
  by (simp_all add: book_fill_def book_amounts_def)

definition bk_pnl :: "booked \<Rightarrow> rat" where "bk_pnl b = fst (snd b)"
definition bk_comm :: "booked \<Rightarrow> rat" where "bk_comm b = snd (snd b)"
definition bk_net :: "booked \<Rightarrow> rat" where "bk_net b = bk_pnl b - bk_comm b"

lemma no_tally_zero [simp]: "ta_pnl no_tally = 0" "ta_commission no_tally = 0" "ta_net no_tally = 0"
  "ta_fills no_tally = 0" "ta_wins no_tally = 0" "ta_losses no_tally = 0"
  by (simp_all add: no_tally_def)

interpretation t_pnl: counted no_tally book_fill ta_pnl bk_pnl
  by unfold_locales (auto simp: book_fill_amounts bk_pnl_def)

interpretation t_comm: counted no_tally book_fill ta_commission bk_comm
  by unfold_locales (auto simp: book_fill_amounts bk_comm_def)

interpretation t_net: counted no_tally book_fill ta_net bk_net
  by unfold_locales (auto simp: book_fill_amounts bk_net_def bk_pnl_def bk_comm_def)

interpretation t_fills: counted no_tally book_fill ta_fills "\<lambda>b. 1"
  by unfold_locales (auto simp: book_fill_amounts)

interpretation t_wins: counted no_tally book_fill ta_wins "\<lambda>b. if bk_pnl b > 0 then 1 else 0"
  by unfold_locales (auto simp: book_fill_amounts bk_pnl_def)

interpretation t_losses: counted no_tally book_fill ta_losses "\<lambda>b. if bk_pnl b < 0 then 1 else 0"
  by unfold_locales (auto simp: book_fill_amounts bk_pnl_def)

text \<open>Rounding every row moves a sum by half a cent per row at most.\<close>

lemma rounded_sum: "\<bar>sum_list (map (\<lambda>x. round2 (f x)) xs) - sum_list (map f xs)\<bar> \<le> of_nat (length xs) / 200"
proof (induction xs)
  case (Cons x xs)
  then show ?case using round2_close [of "f x"] by (simp add: abs_if field_simps split: if_splits)
qed simp

lemma sum_list_perm: "mset xs = mset ys \<Longrightarrow> sum_list (map f xs) = sum_list (map f ys)" for f :: "'a \<Rightarrow> 'b::comm_monoid_add"
  by (metis mset_map sum_mset_sum_list)

lemma sorted_rows_sum: "sum_list (map f (sort_key g xs)) = sum_list (map f xs)" for f :: "'a \<Rightarrow> 'b::comm_monoid_add"
  by (rule sum_list_perm) simp

text \<open>Rows that hold together what the fills hold, the money to half a cent per row.\<close>

definition add_up :: "booked list \<Rightarrow> 'k perf_row list \<Rightarrow> bool" where
  "add_up bs rows \<longleftrightarrow>
     \<bar>sum_list (map pr_pnl rows) - sum_list (map bk_pnl bs)\<bar> \<le> of_nat (length rows) / 200 \<and>
     \<bar>sum_list (map pr_commission rows) - sum_list (map bk_comm bs)\<bar> \<le> of_nat (length rows) / 200 \<and>
     \<bar>sum_list (map pr_net rows) - sum_list (map bk_net bs)\<bar> \<le> of_nat (length rows) / 200 \<and>
     sum_list (map pr_fills rows) = int (length bs) \<and> distinct (map pr_key rows)"

lemma breakdown_row_fields:
  "pr_pnl (breakdown_row base kt) = round2 (ta_pnl (snd kt))" "pr_commission (breakdown_row base kt) = round2 (ta_commission (snd kt))"
  "pr_net (breakdown_row base kt) = round2 (ta_net (snd kt))" "pr_fills (breakdown_row base kt) = ta_fills (snd kt)"
  "pr_key (breakdown_row base kt) = fst kt"
  by (cases kt; simp add: breakdown_row_def)+

lemma breakdown_adds_up: "add_up bs (breakdown base key bs)"
proof -
  let ?t = "tally_by no_tally book_fill key bs"
  have len: "length (breakdown base key bs) = length ?t" by (simp add: breakdown_def)
  have dist: "distinct (map pr_key (breakdown base key bs))"
    using tally_distinct [of no_tally book_fill key bs] by (simp add: breakdown_def o_def breakdown_row_fields distinct_map)
  show ?thesis
    unfolding add_up_def len
    using t_pnl.all_entries [of key bs] t_comm.all_entries [of key bs] t_net.all_entries [of key bs] t_fills.all_entries [of key bs]
      rounded_sum [of "ta_pnl \<circ> snd" ?t] rounded_sum [of "ta_commission \<circ> snd" ?t] rounded_sum [of "ta_net \<circ> snd" ?t] dist
    by (simp add: breakdown_def o_def breakdown_row_fields sorted_rows_sum sum_list_triv)
qed

text \<open>The calendar is not rounded: it adds up exactly, and counts the winners and losers.\<close>

definition add_up_exactly :: "booked list \<Rightarrow> 'k perf_row list \<Rightarrow> bool" where
  "add_up_exactly bs rows \<longleftrightarrow>
     sum_list (map pr_pnl rows) = sum_list (map bk_pnl bs) \<and> sum_list (map pr_commission rows) = sum_list (map bk_comm bs) \<and>
     sum_list (map pr_net rows) = sum_list (map bk_net bs) \<and> sum_list (map pr_fills rows) = int (length bs) \<and>
     sum_list (map pr_wins rows) = int (length (filter (\<lambda>b. bk_pnl b > 0) bs)) \<and>
     sum_list (map pr_losses rows) = int (length (filter (\<lambda>b. bk_pnl b < 0) bs)) \<and> distinct (map pr_key rows)"

lemma calendar_row_fields:
  "pr_pnl (calendar_row base kt) = ta_pnl (snd kt)" "pr_commission (calendar_row base kt) = ta_commission (snd kt)"
  "pr_net (calendar_row base kt) = ta_net (snd kt)" "pr_fills (calendar_row base kt) = ta_fills (snd kt)"
  "pr_wins (calendar_row base kt) = ta_wins (snd kt)" "pr_losses (calendar_row base kt) = ta_losses (snd kt)"
  "pr_key (calendar_row base kt) = fst kt"
  by (cases kt; simp add: calendar_row_def)+

lemma count_filter: "sum_list (map (\<lambda>b. if P b then 1 else 0) bs) = int (length (filter P bs))"
  by (induction bs) auto

interpretation c_pnl: counted no_tally "book_fill \<circ> snd" ta_pnl "bk_pnl \<circ> snd"
  by unfold_locales (simp_all add: t_pnl.more)
interpretation c_comm: counted no_tally "book_fill \<circ> snd" ta_commission "bk_comm \<circ> snd"
  by unfold_locales (simp_all add: t_comm.more)
interpretation c_net: counted no_tally "book_fill \<circ> snd" ta_net "bk_net \<circ> snd"
  by unfold_locales (simp_all add: t_net.more)
interpretation c_fills: counted no_tally "book_fill \<circ> snd" ta_fills "\<lambda>kb. 1"
  by unfold_locales (simp_all add: t_fills.more)
interpretation c_wins: counted no_tally "book_fill \<circ> snd" ta_wins "\<lambda>kb. if bk_pnl (snd kb) > 0 then 1 else 0"
  by unfold_locales (simp_all add: t_wins.more)
interpretation c_losses: counted no_tally "book_fill \<circ> snd" ta_losses "\<lambda>kb. if bk_pnl (snd kb) < 0 then 1 else 0"
  by unfold_locales (simp_all add: t_losses.more)

lemma calendar_adds_up:
  assumes "map snd kbs = bs"
  shows "add_up_exactly bs (calendar_rows base kbs)"
proof -
  have dist: "distinct (map pr_key (calendar_rows base kbs))"
    using tally_distinct [of no_tally "book_fill \<circ> snd" fst kbs] by (simp add: calendar_rows_def o_def calendar_row_fields distinct_map)
  note entries = c_pnl.all_entries [of fst kbs] c_comm.all_entries [of fst kbs] c_net.all_entries [of fst kbs]
    c_fills.all_entries [of fst kbs] c_wins.all_entries [of fst kbs] c_losses.all_entries [of fst kbs]
  show ?thesis
    unfolding add_up_exactly_def assms [symmetric]
    using entries dist
    by (simp add: calendar_rows_def o_def calendar_row_fields sorted_rows_sum count_filter [symmetric] sum_list_triv)
qed

section \<open>The statistics taken apart\<close>

definition number_columns :: "exec_fill \<Rightarrow> bool" where
  "number_columns e \<longleftrightarrow> (\<forall>c\<in>{''realized_pnl'', ''commission''}. dget (ef_cols e) c = PNone \<or> is_number (dget (ef_cols e) c))"

lemma number_money_eq: "v = PNone \<or> is_number v \<Longrightarrow> number_money v = money v"
  by (auto simp: number_money_def money_def)

lemma booked_number: "number_columns e \<Longrightarrow> booked_with number_money trade e = booked_with money trade e"
  by (simp add: booked_with_def number_columns_def number_money_eq)

lemma by_time_perm: "by_time es = Inr tes \<Longrightarrow> mset (map snd tes) = mset es"
proof -
  assume "by_time es = Inr tes"
  then obtain ys where ys: "emap (\<lambda>e. ebind (exec_time e) (\<lambda>t. Inr (t, e))) es = Inr ys" and tes: "tes = sort_key fst ys"
    by (auto simp: by_time_def)
  from ys have "list_all2 (\<lambda>e te. snd te = e) es ys"
    unfolding emap_Inr_iff by (rule list_all2_mono) auto
  then have "map snd ys = es" by (induction rule: list_all2_induct) auto
  then show ?thesis unfolding tes by (metis mset_map mset_sort)
qed

lemma emap_cong: "(\<And>x. x \<in> set xs \<Longrightarrow> f x = g x) \<Longrightarrow> emap f xs = emap g xs"
  by (induction xs) auto

lemma booked_fst: "emap (booked_with amount trade) es = Inr bs \<Longrightarrow> map fst bs = es"
proof -
  assume "emap (booked_with amount trade) es = Inr bs"
  then have "list_all2 (\<lambda>e b. fst b = e) es bs"
    unfolding emap_Inr_iff by (rule list_all2_mono) (auto simp: booked_with_def)
  then show ?thesis by (induction rule: list_all2_induct) auto
qed

lemma booked_each: "emap (booked_with amount trade) es = Inr bs \<Longrightarrow> b \<in> set bs \<Longrightarrow> booked_with amount trade (fst b) = Inr b"
  unfolding emap_Inr_iff by (induction rule: list_all2_induct) (auto simp: booked_with_def)

lemma with_period_snd: "with_period gran bs = Inr kbs \<Longrightarrow> map snd kbs = bs"
proof -
  assume "with_period gran bs = Inr kbs"
  then have "list_all2 (\<lambda>b kb. snd kb = b) bs kbs"
    unfolding with_period_def emap_Inr_iff by (rule list_all2_mono) auto
  then show ?thesis by (induction rule: list_all2_induct) auto
qed

lemma stats_parts:
  assumes "get_performance_stats chicago chicago_day midnight q = Inr st"
  obtains tes ns bs ids kbs unrealized pct where
    "by_time (filter timed (pq_execs q)) = Inr tes"
    "emap (booked_with number_money (pq_trade q)) (map snd tes) = Inr ns"
    "emap (booked_with money (pq_trade q)) (map snd tes) = Inr bs"
    "by_ids_of (pq_trade q) (map snd tes) ([], []) = Inr ids"
    "with_period (pq_granularity q) bs = Inr kbs"
    "st_summary st = summary_of (map bk_pnl ns) (map bk_comm ns) (int (length ns)) unrealized
       (map_option round2 (max_drawdown (map snd (st_curve st)))) pct"
    "st_by_account st = breakdown (capital_base (pq_equity q) (pq_cash_flow q)) account_key bs"
    "st_by_sec_type st = breakdown (capital_base (pq_equity q) (pq_cash_flow q)) sec_key bs"
    "st_by_account_and_sec_type st = breakdown (capital_base (pq_equity q) (pq_cash_flow q)) (\<lambda>b. (account_key b, sec_key b)) bs"
    "st_calendar st = calendar_rows (capital_base (pq_equity q) (pq_cash_flow q)) kbs"
    "st_by_opportunity st = id_rows (capital_base (pq_equity q) (pq_cash_flow q)) (fst ids)"
    "st_by_trade st = id_rows (capital_base (pq_equity q) (pq_cash_flow q)) (snd ids)"
    "st_curve st = curve 0 (zip (map fst tes) (map bk_net ns))"
  using assms unfolding get_performance_stats_def Let_def ebind_Inr_iff
  by (elim exE conjE) (rule that, assumption+, (auto simp: bk_pnl_def [abs_def] bk_comm_def [abs_def] bk_net_def [abs_def] case_prod_unfold)+)

text \<open>The fills of a range, each with its weighted amounts.\<close>

definition fills_booked :: "perf_query \<Rightarrow> booked list \<Rightarrow> bool" where
  "fills_booked q bs \<longleftrightarrow> mset (map fst bs) = mset (filter timed (pq_execs q)) \<and>
     (\<forall>b\<in>set bs. booked_with money (pq_trade q) (fst b) = Inr b)"

text \<open>
  C14. The breakdowns of the performance page add up. The fills with a time, each with the part of its result
  and commission that belongs to the trade asked for, are what every breakdown counts: by account, by
  security type and by both, the rows have the number of fills and, up to half a cent a row, their amounts; the periods
  of the calendar have them exactly, winners and losers too; the summary has the rounded totals.
\<close>

theorem breakdowns_add_up:
  assumes "get_performance_stats chicago chicago_day midnight q = Inr st" and "\<forall>e\<in>set (pq_execs q). number_columns e"
  shows "\<exists>bs. fills_booked q bs \<and>
    add_up bs (st_by_account st) \<and> add_up bs (st_by_sec_type st) \<and> add_up bs (st_by_account_and_sec_type st) \<and>
    add_up_exactly bs (st_calendar st) \<and>
    ps_realized (st_summary st) = round2 (sum_list (map bk_pnl bs)) \<and>
    ps_commission (st_summary st) = round2 (sum_list (map bk_comm bs)) \<and>
    ps_net (st_summary st) = round2 (sum_list (map bk_net bs)) \<and> ps_fills (st_summary st) = int (length bs) \<and>
    ps_wins (st_summary st) = length (filter (\<lambda>b. bk_pnl b > 0) bs) \<and>
    ps_losses (st_summary st) = length (filter (\<lambda>b. bk_pnl b < 0) bs)"
proof -
  obtain tes ns bs ids kbs unrealized pct where
    parts: "by_time (filter timed (pq_execs q)) = Inr tes"
    "emap (booked_with number_money (pq_trade q)) (map snd tes) = Inr ns"
    "emap (booked_with money (pq_trade q)) (map snd tes) = Inr bs"
    "with_period (pq_granularity q) bs = Inr kbs"
    "st_summary st = summary_of (map bk_pnl ns) (map bk_comm ns) (int (length ns)) unrealized
       (map_option round2 (max_drawdown (map snd (st_curve st)))) pct"
    and rows: "st_by_account st = breakdown (capital_base (pq_equity q) (pq_cash_flow q)) account_key bs"
    "st_by_sec_type st = breakdown (capital_base (pq_equity q) (pq_cash_flow q)) sec_key bs"
    "st_by_account_and_sec_type st = breakdown (capital_base (pq_equity q) (pq_cash_flow q)) (\<lambda>b. (account_key b, sec_key b)) bs"
    "st_calendar st = calendar_rows (capital_base (pq_equity q) (pq_cash_flow q)) kbs"
    by (rule stats_parts [OF assms(1)])
  note perm = by_time_perm [OF parts(1)]
  then have "set (map snd tes) \<subseteq> set (pq_execs q)" by (metis filter_is_subset set_mset_mset)
  then have "emap (booked_with number_money (pq_trade q)) (map snd tes) = emap (booked_with money (pq_trade q)) (map snd tes)"
    using assms(2) by (intro emap_cong booked_number) auto
  then have ns: "ns = bs" using parts(2,3) by simp
  have booked: "fills_booked q bs"
    using booked_fst [OF parts(3)] booked_each [OF parts(3)] perm by (simp add: fills_booked_def)
  have net: "sum_list (map bk_pnl bs) - sum_list (map bk_comm bs) = sum_list (map bk_net bs)"
    by (simp add: bk_net_def [abs_def] sum_list_subtractf)
  show ?thesis
    using booked calendar_adds_up [OF with_period_snd [OF parts(4)]] net
    unfolding rows parts(5) ns
    by (intro exI [of _ bs]) (simp add: breakdown_adds_up summary_of_def Let_def filter_map o_def)
qed

section \<open>The row of a trade\<close>

definition splits_ok :: "exec_fill \<Rightarrow> bool" where
  "splits_ok e \<longleftrightarrow> distinct (map sp_trade (ef_splits e)) \<and> (\<forall>a\<in>set (ef_splits e). sp_qty a \<noteq> 0)"

definition entry_of :: "(int \<times> tally) list \<Rightarrow> int \<Rightarrow> tally" where
  "entry_of kvs k = (case map_of kvs k of None \<Rightarrow> no_tally | Some t \<Rightarrow> t)"

lemma entry_add_amounts:
  "entry_of (add_amounts k' r c n kvs) k = (if k = k' then book_amounts r c n (entry_of kvs k) else entry_of kvs k)"
  by (simp add: entry_of_def add_amounts_def add_to_map)

lemma add_amounts_keys: "fst ` set (add_amounts k r c n kvs) = insert k (fst ` set kvs)"
  and add_amounts_distinct: "distinct (map fst kvs) \<Longrightarrow> distinct (map fst (add_amounts k r c n kvs))"
  by (simp_all add: add_amounts_def add_to_keys add_to_distinct)

lemma book_amounts_twice: "book_amounts r c n (book_amounts r' c' n' t) = book_amounts (r' + r) (c' + c) (n' + n) t"
  and book_nothing: "book_amounts 0 0 0 t = t"
  by (simp_all add: book_amounts_def)

lemma add_split_insts:
  "snd (fst (add_split r c denom s a)) = add_amounts (sp_trade a) (r * (\<bar>sp_qty a\<bar> / denom)) (c * (\<bar>sp_qty a\<bar> / denom)) 1 (snd (fst s))"
  by (auto simp: add_split_def Let_def split: prod.splits option.splits)

lemma add_splits_insts:
  assumes "distinct (map sp_trade as)"
  shows "entry_of (snd (fst (foldl (add_split r c denom) s as))) k = (case List.find (\<lambda>a. sp_trade a = k) as of
      None \<Rightarrow> entry_of (snd (fst s)) k
    | Some a \<Rightarrow> book_amounts (r * (\<bar>sp_qty a\<bar> / denom)) (c * (\<bar>sp_qty a\<bar> / denom)) 1 (entry_of (snd (fst s)) k))"
    (is ?entry)
  and "fst ` set (snd (fst (foldl (add_split r c denom) s as))) = fst ` set (snd (fst s)) \<union> sp_trade ` set as" (is ?keys)
proof -
  show ?entry
    using assms
  proof (induction as arbitrary: s)
    case (Cons a as)
    from Cons.prems have "sp_trade a \<notin> sp_trade ` set as" by simp
    then have "\<forall>b\<in>set as. sp_trade b \<noteq> sp_trade a" by (metis imageI)
    then have "List.find (\<lambda>b. sp_trade b = k) as = None" if "k = sp_trade a"
      using that by (auto simp: find_None_iff)
    with Cons show ?case by (auto simp: entry_add_amounts add_split_insts split: option.splits)
  qed simp
  show ?keys
    by (induction as arbitrary: s) (auto simp: add_split_insts add_amounts_keys)
qed

lemma add_splits_distinct:
  "distinct (map fst (snd (fst s))) \<Longrightarrow> distinct (map fst (snd (fst (foldl (add_split r c denom) s as))))"
  by (induction as arbitrary: s) (simp_all add: add_split_insts add_amounts_distinct)

text \<open>What one fill adds to a trade: nothing, or its weighted amounts once.\<close>

definition trade_amounts :: "int \<Rightarrow> exec_fill \<Rightarrow> conv_err + (rat \<times> rat) list" where
  "trade_amounts k e = ebind (weight_realized_for_trade e k) (\<lambda>w. if w \<le> 0 then Inr [] else
     ebind (money (py_or (dget (ef_cols e) ''realized_pnl'') (PInt 0))) (\<lambda>r.
     ebind (money (py_or (dget (ef_cols e) ''commission'') (PInt 0))) (\<lambda>c. Inr [(r * w, c * w)])))"

lemma instance_amounts_concat:
  "(\<And>e. e \<in> set es \<Longrightarrow> trade_amounts k e = Inr (g e)) \<Longrightarrow> instance_amounts k es = Inr (concat (map g es))"
proof (induction es)
  case (Cons e es)
  have "trade_amounts k e = Inr (g e)" by (rule Cons.prems) simp
  moreover have "instance_amounts k es = Inr (concat (map g es))" by (rule Cons.IH) (simp add: Cons.prems)
  ultimately show ?case by (auto simp: trade_amounts_def split: if_splits)
qed simp

lemma parse_float_empty: "parse_float [] = None"
  by code_simp

lemma money_or_zero: "money v = Inr r \<Longrightarrow> money (py_or v (PInt 0)) = Inr r"
  by (cases v rule: truthy.cases) (auto simp: money_def py_or_def parse_float_empty split: if_splits)

text \<open>Adding the amounts of a list to an entry.\<close>

definition booked_into :: "(rat \<times> rat) list \<Rightarrow> tally \<Rightarrow> tally" where
  "booked_into xs t = book_amounts (sum_list (map fst xs)) (sum_list (map snd xs)) (int (length xs)) t"

lemma booked_into_append: "booked_into ys (booked_into xs t) = booked_into (xs @ ys) t"
  and booked_into_nil [simp]: "booked_into [] t = t"
  and booked_into_one: "booked_into [(r, c)] t = book_amounts r c 1 t"
  by (simp_all add: booked_into_def book_amounts_twice book_nothing)

lemma split_total_pos: "a \<in> set (ef_splits e) \<Longrightarrow> sp_qty a \<noteq> 0 \<Longrightarrow> 0 < split_total e"
proof -
  assume a: "a \<in> set (ef_splits e)" "sp_qty a \<noteq> 0"
  then have "\<bar>sp_qty a\<bar> \<le> split_total e"
    unfolding split_total_def by (intro member_le_sum_list) auto
  then show ?thesis using a(2) by linarith
qed

lemma realized_splits_of_trade:
  assumes add: "add_realized_splits None e ids = Inr ids'" and ok: "splits_ok e"
  shows "\<exists>xs. trade_amounts k e = Inr xs \<and> entry_of (snd ids') k = booked_into xs (entry_of (snd ids) k) \<and>
    (k \<in> fst ` set (snd ids') \<longleftrightarrow> k \<in> fst ` set (snd ids) \<or> xs \<noteq> [])"
proof -
  from add obtain r c where r: "money (dget (ef_cols e) ''realized_pnl'') = Inr r" and c: "money (dget (ef_cols e) ''commission'') = Inr c"
    by (auto simp: add_realized_splits_def)
  note rc = money_or_zero [OF r] money_or_zero [OF c]
  show ?thesis
  proof (cases "ef_splits e = []")
    case True
    then obtain opp inst where inst: "opt_id (dget (ef_cols e) ''trade_id'') = Inr inst" and ids': "ids' = add_whole opp inst r c ids"
      using add r c by (auto simp: add_realized_splits_def)
    have weight: "weight_realized_for_trade e k = Inr (if inst = Some k then 1 else 0)"
      using inst True by (auto simp: weight_realized_for_trade_def opt_id_def split: if_splits)
    have "trade_amounts k e = Inr (if inst = Some k then [(r, c)] else [])"
      by (simp add: trade_amounts_def weight rc)
    moreover have "entry_of (snd ids') k = booked_into (if inst = Some k then [(r, c)] else []) (entry_of (snd ids) k)"
      by (auto simp: ids' add_whole_def entry_add_amounts booked_into_one split: option.splits)
    ultimately show ?thesis
      by (auto simp: ids' add_whole_def add_amounts_keys split: option.splits)
  next
    case False
    then obtain b where "b \<in> set (ef_splits e)" by (cases "ef_splits e") auto
    then have pos: "0 < split_total e" using ok split_total_pos by (auto simp: splits_ok_def)
    then have ids': "ids' = fst (foldl (add_split r c (split_total e)) (ids, {}) (ef_splits e))"
      using add False by (simp add: add_realized_splits_def r c only_splits_def)
    note entry = add_splits_insts [of "ef_splits e" r c "split_total e" "(ids, {})"]
    show ?thesis
    proof (cases "List.find (\<lambda>a. sp_trade a = k) (ef_splits e)")
      case None
      then have "trade_amounts k e = Inr []" using False pos by (simp add: trade_amounts_def weight_realized_for_trade_def)
      moreover have "k \<notin> sp_trade ` set (ef_splits e)" using None by (auto simp: find_None_iff)
      ultimately show ?thesis using entry ok by (simp add: ids' splits_ok_def None)
    next
      case (Some a)
      then have a: "a \<in> set (ef_splits e)" "sp_trade a = k" by (auto simp: find_Some_iff)
      then have "0 < \<bar>sp_qty a\<bar> / split_total e" using ok pos by (simp add: splits_ok_def)
      then have "trade_amounts k e = Inr [(r * (\<bar>sp_qty a\<bar> / split_total e), c * (\<bar>sp_qty a\<bar> / split_total e))]"
        using False pos Some by (simp add: trade_amounts_def weight_realized_for_trade_def rc)
      then show ?thesis using Some entry ok a by (auto simp: ids' splits_ok_def booked_into_one)
    qed
  qed
qed

lemma booked_into_fields: "ta_pnl (booked_into xs no_tally) = sum_list (map fst xs)" "ta_commission (booked_into xs no_tally) = sum_list (map snd xs)"
  "ta_net (booked_into xs no_tally) = sum_list (map fst xs) - sum_list (map snd xs)" "ta_fills (booked_into xs no_tally) = int (length xs)"
  by (simp_all add: booked_into_def book_amounts_def)

lemma summary_fields: "ps_realized (summary_of rs cs n u d p) = round2 (sum_list rs)" "ps_commission (summary_of rs cs n u d p) = round2 (sum_list cs)"
  "ps_net (summary_of rs cs n u d p) = round2 (sum_list rs - sum_list cs)" "ps_fills (summary_of rs cs n u d p) = n"
  by (simp_all add: summary_of_def Let_def)

definition trade_part :: "int \<Rightarrow> exec_fill \<Rightarrow> (rat \<times> rat) list" where
  "trade_part k e = projr (trade_amounts k e)"

lemma by_ids_trade:
  "by_ids_of None es ids = Inr ids' \<Longrightarrow> \<forall>e\<in>set es. splits_ok e \<Longrightarrow>
     (\<forall>e\<in>set es. trade_amounts k e = Inr (trade_part k e)) \<and>
     entry_of (snd ids') k = booked_into (concat (map (trade_part k) es)) (entry_of (snd ids) k) \<and>
     (k \<in> fst ` set (snd ids') \<longleftrightarrow> k \<in> fst ` set (snd ids) \<or> concat (map (trade_part k) es) \<noteq> [])"
proof (induction es arbitrary: ids)
  case (Cons e es)
  then obtain mid where mid: "add_realized_splits None e ids = Inr mid" "by_ids_of None es mid = Inr ids'" by auto
  obtain xs where xs: "trade_amounts k e = Inr xs" "entry_of (snd mid) k = booked_into xs (entry_of (snd ids) k)"
    "k \<in> fst ` set (snd mid) \<longleftrightarrow> k \<in> fst ` set (snd ids) \<or> xs \<noteq> []"
    using realized_splits_of_trade [OF mid(1), of k] Cons.prems(2) by auto
  have part: "trade_part k e = xs" by (simp add: trade_part_def xs(1))
  show ?case
    using Cons.IH [OF mid(2)] Cons.prems(2) xs part by (auto simp: booked_into_append)
qed simp

lemma realized_splits_distinct:
  assumes "add_realized_splits only e ids = Inr ids'" and "distinct (map fst (snd ids))"
  shows "distinct (map fst (snd ids'))"
proof -
  have "ids' = ids \<or> (\<exists>opp inst r c. ids' = add_whole opp inst r c ids) \<or>
      (\<exists>r c d as. ids' = fst (foldl (add_split r c d) (ids, {}) as))"
    using assms(1) unfolding add_realized_splits_def Let_def ebind_Inr_iff
    by (elim exE conjE) (simp split: if_splits, blast+)
  then show ?thesis
    using assms(2) add_splits_distinct [of "(ids, {})"]
    by (auto simp: add_whole_def add_amounts_distinct split: option.splits)
qed

lemma by_ids_distinct:
  "by_ids_of only es ids = Inr ids' \<Longrightarrow> distinct (map fst (snd ids)) \<Longrightarrow> distinct (map fst (snd ids'))"
proof (induction es arbitrary: ids)
  case (Cons e es)
  then obtain mid where mid: "add_realized_splits only e ids = Inr mid" "by_ids_of only es mid = Inr ids'" by auto
  have "distinct (map fst (snd mid))" by (rule realized_splits_distinct [OF mid(1) Cons.prems(2)])
  then show ?case by (rule Cons.IH [OF mid(2)])
qed simp

lemma id_rows_entry:
  assumes "distinct (map fst kvs)" and "row \<in> set (id_rows base kvs)"
  shows "row = breakdown_row base (pr_key row, entry_of kvs (pr_key row)) \<and> pr_key row \<in> fst ` set kvs"
  using assms by (auto simp: id_rows_def breakdown_row_fields entry_of_def map_of_eq_Some_iff intro!: image_eqI)

lemma id_rows_keys: "pr_key ` set (id_rows base kvs) = fst ` set kvs"
  by (simp add: id_rows_def image_image breakdown_row_fields)

lemma sums_perm:
  fixes f :: "'a \<Rightarrow> rat"
  assumes "mset es = mset es'"
  shows "sum_list (map f (concat (map g es))) = sum_list (map f (concat (map g es')))"
    and "length (concat (map g es)) = length (concat (map g es'))"
proof -
  have "mset (concat (map g es)) = mset (concat (map g es'))"
    unfolding mset_concat using assms by (metis (no_types) comp_def list.map_comp mset_map sum_mset_sum_list)
  then show "sum_list (map f (concat (map g es))) = sum_list (map f (concat (map g es')))"
    "length (concat (map g es)) = length (concat (map g es'))"
    by (rule sum_list_perm, metis size_mset)
qed

text \<open>
  On the same fills, the row of a trade in the list of trades shows what the summary of that trade alone shows:
  result, commission, net and number of fills, with split fills at the trade's weight in both; a trade without a
  row has no fills in its summary. Every fill has a time, and splits are not all of quantity zero.
\<close>

lemma row_is_summary_of_same_fills:
  assumes "get_performance_stats chicago chicago_day midnight q = Inr st" and "pq_trade q = None"
    and "\<forall>e\<in>set (pq_execs q). timed e \<and> splits_ok e"
  shows "(\<forall>row\<in>set (st_by_trade st). let s = get_performance_instance_summary_only True (pq_execs q) (PInt (pr_key row))
       in pr_pnl row = ps_realized s \<and> pr_commission row = ps_commission s \<and> pr_net row = ps_net s \<and> pr_fills row = ps_fills s) \<and>
    (\<forall>k. k \<notin> pr_key ` set (st_by_trade st) \<longrightarrow> ps_fills (get_performance_instance_summary_only True (pq_execs q) (PInt k)) = 0)"
proof -
  obtain tes ids where parts: "by_time (filter timed (pq_execs q)) = Inr tes"
    "by_ids_of (pq_trade q) (map snd tes) ([], []) = Inr ids"
    "st_by_trade st = id_rows (capital_base (pq_equity q) (pq_cash_flow q)) (snd ids)"
    by (rule stats_parts [OF assms(1)])
  let ?es = "map snd tes"
  have "filter timed (pq_execs q) = pq_execs q" using assms(3) by simp
  then have perm: "mset ?es = mset (pq_execs q)" using by_time_perm [OF parts(1)] by simp
  then have sets: "set ?es = set (pq_execs q)" by (metis set_mset_mset)
  have ok: "\<forall>e\<in>set ?es. splits_ok e" using assms(3) sets by simp
  have ids: "by_ids_of None ?es ([], []) = Inr ids" using parts(2) assms(2) by simp
  have dist: "distinct (map fst (snd ids))" by (rule by_ids_distinct [OF parts(2)]) simp
  have summary: "get_performance_instance_summary_only True (pq_execs q) (PInt k) =
      summary_of (map fst xs) (map snd xs) (int (length xs)) 0 None None" if "xs = concat (map (trade_part k) (pq_execs q))" for k xs
  proof -
    have "\<forall>e\<in>set (pq_execs q). trade_amounts k e = Inr (trade_part k e)"
      unfolding sets [symmetric] using by_ids_trade [OF ids ok, of k] by (rule conjunct1)
    then have "instance_amounts k (pq_execs q) = Inr xs"
      unfolding that by (intro instance_amounts_concat) blast
    then show ?thesis by (simp add: get_performance_instance_summary_only_def)
  qed
  have entry: "entry_of (snd ids) k = booked_into (concat (map (trade_part k) ?es)) no_tally"
    and keys: "k \<in> fst ` set (snd ids) \<longleftrightarrow> concat (map (trade_part k) ?es) \<noteq> []" for k
    using by_ids_trade [OF ids ok, of k] by (auto simp: entry_of_def)
  note perms = sums_perm(1) [OF perm, where f = fst] sums_perm(1) [OF perm, where f = snd] sums_perm(2) [OF perm]
  have "let s = get_performance_instance_summary_only True (pq_execs q) (PInt (pr_key row))
       in pr_pnl row = ps_realized s \<and> pr_commission row = ps_commission s \<and> pr_net row = ps_net s \<and> pr_fills row = ps_fills s"
    if "row \<in> set (st_by_trade st)" for row
    using id_rows_entry [OF dist that [unfolded parts(3)]]
    unfolding summary [OF refl] entry Let_def
    by (metis (no_types, lifting) breakdown_row_fields(1-4) perms snd_conv booked_into_fields summary_fields)
  moreover have "ps_fills (get_performance_instance_summary_only True (pq_execs q) (PInt k)) = 0"
    if "k \<notin> pr_key ` set (st_by_trade st)" for k
  proof -
    have "length (concat (map (trade_part k) ?es)) = 0" using that keys [of k] by (simp add: parts(3) id_rows_keys)
    then show ?thesis unfolding summary [OF refl] sums_perm(2) [OF perm] by (simp add: summary_of_def Let_def)
  qed
  ultimately show ?thesis by blast
qed

section \<open>The drawdown\<close>

text \<open>What a fall to a point of the curve is measured from: zero, or a point up to it.\<close>

definition peaks :: "rat \<Rightarrow> rat list \<Rightarrow> nat \<Rightarrow> rat set" where
  "peaks start vs j = insert start (set (take (Suc j) vs))"

lemma peaks_Cons: "peaks start (v # vs) (Suc j) = insert start (insert v (set (take (Suc j) vs)))"
  by (simp add: peaks_def)

lemma drawdown_bound:
  "dd \<le> drawdown_loop peak dd vs \<and> (\<forall>j<length vs. \<forall>p\<in>peaks peak vs j. p - vs ! j \<le> drawdown_loop peak dd vs)"
proof (induction vs arbitrary: peak dd)
  case (Cons v vs)
  let ?p = "max peak v"
  let ?loop = "drawdown_loop ?p (max dd (?p - v)) vs"
  have IH: "max dd (?p - v) \<le> ?loop" "\<forall>j<length vs. \<forall>p\<in>peaks ?p vs j. p - vs ! j \<le> ?loop"
    using Cons.IH [of "max dd (?p - v)" ?p] by auto
  have "p - (v # vs) ! j \<le> ?loop" if "j < length (v # vs)" "p \<in> peaks peak (v # vs) j" for j p
  proof (cases j)
    case 0
    then have "p \<le> ?p" using that(2) by (auto simp: peaks_def)
    then show ?thesis using IH(1) 0 by simp
  next
    case (Suc i)
    then have i: "i < length vs" using that(1) by simp
    from that(2) consider "p = peak \<or> p = v" | "p \<in> set (take (Suc i) vs)" by (auto simp: Suc peaks_Cons)
    then show ?thesis
    proof cases
      case 1
      then have "p \<le> ?p" by auto
      moreover have "?p - vs ! i \<le> ?loop" using IH(2) i by (simp add: peaks_def)
      ultimately show ?thesis by (simp add: Suc)
    next
      case 2
      then show ?thesis using IH(2) i by (simp add: Suc peaks_def)
    qed
  qed
  then show ?case using IH(1) by (simp add: Let_def)
qed simp

lemma drawdown_reached:
  "drawdown_loop peak dd vs = dd \<or> (\<exists>j<length vs. \<exists>p\<in>peaks peak vs j. drawdown_loop peak dd vs = p - vs ! j)"
proof (induction vs arbitrary: peak dd)
  case (Cons v vs)
  let ?p = "max peak v"
  have first: "?p \<in> peaks peak (v # vs) 0" by (auto simp: peaks_def max_def)
  from Cons.IH [of ?p "max dd (?p - v)"] show ?case
  proof
    assume "drawdown_loop ?p (max dd (?p - v)) vs = max dd (?p - v)"
    then show ?thesis using first by (force simp: Let_def max_def)
  next
    assume "\<exists>j<length vs. \<exists>p\<in>peaks ?p vs j. drawdown_loop ?p (max dd (?p - v)) vs = p - vs ! j"
    then obtain j p where jp: "j < length vs" "p \<in> peaks ?p vs j" "drawdown_loop ?p (max dd (?p - v)) vs = p - vs ! j" by blast
    then have "p \<in> peaks peak (v # vs) (Suc j)" by (auto simp: peaks_def max_def split: if_splits)
    with jp show ?thesis by (intro disjI2 exI [of _ "Suc j"]) (auto simp: Let_def)
  qed
qed simp

text \<open>
  C12. The maximal drawdown is the deepest fall of the cumulative curve from an earlier peak, the start at zero
  included: there is a point and an earlier peak that far above it and no point is further below a peak
  before it; it is absent exactly when the curve never falls below a peak.
\<close>

theorem drawdown_is_the_deepest_fall:
  assumes "get_performance_stats chicago chicago_day midnight q = Inr st"
  shows "let c = map snd (st_curve st) in case ps_max_drawdown (st_summary st) of
      None \<Rightarrow> \<forall>j<length c. \<forall>p\<in>peaks 0 c j. p \<le> c ! j
    | Some d \<Rightarrow> \<exists>j<length c. \<exists>p\<in>peaks 0 c j. c ! j < p \<and> d = round2 (p - c ! j) \<and>
        (\<forall>i<length c. \<forall>p'\<in>peaks 0 c i. p' - c ! i \<le> p - c ! j)"
proof -
  define c where "c = map snd (st_curve st)"
  have "ps_max_drawdown (st_summary st) = map_option round2 (max_drawdown c)"
    by (rule stats_parts [OF assms]) (simp add: summary_of_def Let_def c_def)
  moreover note drawdown_bound [of 0 0 c] drawdown_reached [of 0 0 c]
  ultimately show ?thesis
    unfolding c_def [symmetric] Let_def max_drawdown_def
    by (cases "drawdown_loop 0 0 c > 0") (auto simp: not_less, blast)
qed

section \<open>A sample\<close>

definition sample_fill :: "int \<Rightarrow> pyval \<Rightarrow> rat \<Rightarrow> rat \<Rightarrow> fill_split list \<Rightarrow> exec_fill" where
  "sample_fill time trade r c splits = \<lparr>ef_cols = [(''account_executions_id'', PInt (time div 100000)), (''time'', PInt time), (''account_id'', PStr ''U1''), (''sec_type'', PStr ''STK''),
     (''realized_pnl'', PFloat (Fin r)), (''commission'', PFloat (Fin c)), (''trade_id'', trade)], ef_splits = splits\<rparr>"

definition sample_split :: "int \<Rightarrow> rat \<Rightarrow> fill_split" where
  "sample_split t n = \<lparr>sp_trade = t, sp_qty = n, sp_opp = Some 7, sp_label = None\<rparr>"

definition sample_query :: perf_query where
  "sample_query = \<lparr>pq_equity = Some 1000, pq_cash_flow = 0,
     pq_execs = [sample_fill 200000 (PInt 1) (-70) 1 [], sample_fill 100000 PNone 100 5 [sample_split 1 6, sample_split 2 4]],
     pq_lookback = [], pq_accounts = [], pq_granularity = ''day'', pq_since = None, pq_until = None, pq_trade = None,
     pq_scope = ''performance_book''\<rparr>"

definition sample_order :: "(rat \<times> exec_fill) list" where
  "sample_order = map (\<lambda>e. (projr (exec_time e), e)) (rev (pq_execs sample_query))"

lemma sample_parts:
  "by_time (filter timed (pq_execs sample_query)) = Inr sample_order"
  "\<not> isl (emap (booked_with number_money None) (map snd sample_order))"
  "\<not> isl (emap (booked_with money None) (map snd sample_order))"
  "\<not> isl (by_ids_of None (map snd sample_order) ([], []))"
  "\<not> isl (with_period ''day'' (projr (emap (booked_with money None) (map snd sample_order))))"
  "\<not> isl (opt_calendar (\<lambda>_. []) (\<lambda>_. None) (\<lambda>_. 0) sample_query sample_order)"
  by code_simp+

lemma isl_ebind: "isl (ebind m f) \<longleftrightarrow> isl m \<or> isl (f (projr m))"
  by (cases m) simp_all

lemma sample_stats_run:
  obtains st where "get_performance_stats (\<lambda>_. []) (\<lambda>_. None) (\<lambda>_. 0) sample_query = Inr st"
proof -
  have trade: "pq_trade sample_query = None" "pq_granularity sample_query = ''day''" by (simp_all add: sample_query_def)
  have "\<not> isl (get_performance_stats (\<lambda>_. []) (\<lambda>_. None) (\<lambda>_. 0) sample_query)"
    using sample_parts(2-6) unfolding get_performance_stats_def trade sample_parts(1) by (simp add: isl_ebind Let_def)
  then show thesis using that by (cases "get_performance_stats (\<lambda>_. []) (\<lambda>_. None) (\<lambda>_. 0) sample_query") auto
qed

theorem breakdowns_add_up_witness:
  "\<exists>st bs. get_performance_stats (\<lambda>_. []) (\<lambda>_. None) (\<lambda>_. 0) sample_query = Inr st \<and> fills_booked sample_query bs \<and>
     add_up bs (st_by_account st) \<and> ps_realized (st_summary st) = round2 (sum_list (map bk_pnl bs))"
proof -
  obtain st where run: "get_performance_stats (\<lambda>_. []) (\<lambda>_. None) (\<lambda>_. 0) sample_query = Inr st" by (rule sample_stats_run)
  have "\<forall>e\<in>set (pq_execs sample_query). number_columns e" by code_simp
  from breakdowns_add_up [OF run this] run show ?thesis by blast
qed

theorem drawdown_is_the_deepest_fall_witness:
  "\<exists>st. get_performance_stats (\<lambda>_. []) (\<lambda>_. None) (\<lambda>_. 0) sample_query = Inr st \<and>
     (case ps_max_drawdown (st_summary st) of None \<Rightarrow> True
      | Some d \<Rightarrow> \<exists>j. \<exists>p\<in>peaks 0 (map snd (st_curve st)) j. d = round2 (p - map snd (st_curve st) ! j))"
proof -
  obtain st where run: "get_performance_stats (\<lambda>_. []) (\<lambda>_. None) (\<lambda>_. 0) sample_query = Inr st" by (rule sample_stats_run)
  from drawdown_is_the_deepest_fall [OF run] run show ?thesis
    by (intro exI [of _ st]) (auto simp: Let_def split: option.splits)
qed

end
