(* ===== verification/Performance_Reads.thy ===== *)
theory Performance_Reads
  imports Performance_Claims Keyset
begin

text \<open>
  The reads behind the performance page and the summary of one trade (\<open>portfolio/reader/executions.py\<close>). The
  page takes the newest 5000 fills that its filters admit; the summary of a trade takes up to 50000 fills of that
  trade, of any account, always of the performance book. Where both reads are complete and the page has no
  filter but its dates, a trade's row is its summary.
\<close>

section \<open>Fills as read\<close>

text \<open>\<open>get_executions\<close>: a bound that has no Chicago date raises inside the reader, which answers no rows.\<close>

definition chicago_bound :: "(rat \<Rightarrow> date option) \<Rightarrow> rat option \<Rightarrow> date option option" where
  "chicago_bound chicago_day t = (case t of None \<Rightarrow> Some None | Some x \<Rightarrow> map_option Some (chicago_day x))"

definition read_fills ::
  "(rat \<Rightarrow> date option) \<Rightarrow> exec_store \<Rightarrow> (int \<times> fill_split) list \<Rightarrow> rat option \<Rightarrow> rat option \<Rightarrow> string option \<Rightarrow> int option \<Rightarrow>
   int option \<Rightarrow> string \<Rightarrow> int \<Rightarrow> exec_fill list" where
  "read_fills chicago_day db splits since until account opp trade scope limit =
     (case (chicago_bound chicago_day since, chicago_bound chicago_day until) of
        (Some s, Some u) \<Rightarrow> attach_fill_splits splits (map xr_cols (get_executions db
            \<lparr>xq_since = s, xq_until = u, xq_account = account, xq_opp = opp, xq_trade = trade, xq_scope = Some scope\<rparr> (Some limit)))
      | _ \<Rightarrow> [])"

definition trade_summary ::
  "(rat \<Rightarrow> date option) \<Rightarrow> exec_store \<Rightarrow> (int \<times> fill_split) list \<Rightarrow> rat option \<Rightarrow> rat option \<Rightarrow> pyval \<Rightarrow> perf_summary" where
  "trade_summary chicago_day db splits since until trade_id =
     get_performance_instance_summary_only True
       (case py_int trade_id of
          Inl _ \<Rightarrow> []
        | Inr sid \<Rightarrow> read_fills chicago_day db splits since until None None (Some sid) ''performance_book'' 50000) trade_id"

text \<open>The arguments of the page; equity, cash flow, look-back and accounts are read besides the fills.\<close>

record page_args =
  pa_since :: "rat option"
  pa_until :: "rat option"
  pa_account :: "string option"
  pa_granularity :: string
  pa_opp :: "int option"
  pa_trade :: "int option"
  pa_scope :: string

record page_reads =
  pd_equity :: "rat option"
  pd_cash_flow :: rat
  pd_lookback :: "exec_fill list"
  pd_accounts :: "account_obj list"

definition page_query :: "(rat \<Rightarrow> date option) \<Rightarrow> exec_store \<Rightarrow> (int \<times> fill_split) list \<Rightarrow> page_reads \<Rightarrow> page_args \<Rightarrow> perf_query" where
  "page_query chicago_day db splits d a =
     \<lparr>pq_equity = pd_equity d, pq_cash_flow = pd_cash_flow d,
      pq_execs = read_fills chicago_day db splits (pa_since a) (pa_until a) (pa_account a) (pa_opp a) (pa_trade a) (scope_norm (pa_scope a)) 5000,
      pq_lookback = pd_lookback d, pq_accounts = pd_accounts d, pq_granularity = pa_granularity a,
      pq_since = pa_since a, pq_until = pa_until a, pq_trade = pa_trade a, pq_scope = pa_scope a\<rparr>"

definition performance_page ::
  "(rat \<Rightarrow> string) \<Rightarrow> (rat \<Rightarrow> date option) \<Rightarrow> (date \<Rightarrow> rat) \<Rightarrow> exec_store \<Rightarrow> (int \<times> fill_split) list \<Rightarrow> page_reads \<Rightarrow> page_args \<Rightarrow>
   conv_err + perf_stats" where
  "performance_page chicago chicago_day midnight db splits d a =
     get_performance_stats chicago chicago_day midnight (page_query chicago_day db splits d a)"

section \<open>One trade's fills among those of a range\<close>

text \<open>The columns a row returns are those it is filtered by, and the table of splits has the trades of its splits.\<close>

definition row_reads :: "(int \<times> fill_split) list \<Rightarrow> exec_row \<Rightarrow> bool" where
  "row_reads splits r \<longleftrightarrow>
     dget (xr_cols r) ''account_executions_id'' = PInt (snd (snd (xr_key r))) \<and>
     dget (xr_cols r) ''trade_id'' = (case xr_trade r of None \<Rightarrow> PNone | Some t \<Rightarrow> PInt t) \<and>
     set (xr_splits r) = set (map (sp_trade \<circ> snd) (filter (\<lambda>p. fst p = snd (snd (xr_key r))) splits))"

definition filled_row :: "(int \<times> fill_split) list \<Rightarrow> exec_row \<Rightarrow> exec_fill" where
  "filled_row splits r = \<lparr>ef_cols = xr_cols r, ef_splits = splits_for splits (xr_cols r)\<rparr>"

lemma attach_rows: "attach_fill_splits splits (map xr_cols rs) = map (filled_row splits) rs"
  by (simp add: attach_fill_splits_def filled_row_def)

definition of_trade :: "int \<Rightarrow> exec_row \<Rightarrow> bool" where
  "of_trade t r \<longleftrightarrow> xr_trade r = Some t \<or> t \<in> set (xr_splits r)"

lemma trade_condition: "sql_or (sql_cmp (=) (xr_trade r) t) (Some (t \<in> set (xr_splits r))) = Some True \<longleftrightarrow> of_trade t r"
  by (cases "xr_trade r") (auto simp: sql_or_def sql_cmp_def of_trade_def)

lemma wanted_of_trade: "exec_wanted (q\<lparr>xq_trade := Some t\<rparr>) r \<longleftrightarrow> exec_wanted (q\<lparr>xq_trade := None\<rparr>) r \<and> of_trade t r"
  by (auto simp: exec_wanted_def exec_conditions_def when_given_def trade_condition)

lemma split_label_trade [simp]: "sp_trade (split_label a) = sp_trade a"
  by (simp add: split_label_def)

lemma other_trades_weigh_nothing:
  assumes "row_reads splits r" and "\<not> of_trade t r"
  shows "weight_realized_for_trade (filled_row splits r) t = Inr 0"
proof -
  let ?id = "snd (snd (xr_key r))"
  from assms(1) have id: "dget (xr_cols r) ''account_executions_id'' = PInt ?id"
    and tr: "dget (xr_cols r) ''trade_id'' = (case xr_trade r of None \<Rightarrow> PNone | Some t \<Rightarrow> PInt t)"
    and sp: "set (xr_splits r) = (sp_trade \<circ> snd) ` {p \<in> set splits. fst p = ?id}" by (simp_all add: row_reads_def)
  have "ef_splits (filled_row splits r) = map (split_label \<circ> snd) (filter (\<lambda>p. fst p = ?id) (sort_key (sp_trade \<circ> snd) splits))"
    by (simp add: filled_row_def splits_for_def id)
  then have "sp_trade ` set (ef_splits (filled_row splits r)) = set (xr_splits r)"
    by (force simp: sp image_comp)
  then have none: "List.find (\<lambda>a. sp_trade a = t) (ef_splits (filled_row splits r)) = None"
    using assms(2) by (auto simp: find_None_iff of_trade_def)
  have "xr_trade r \<noteq> Some t" using assms(2) by (simp add: of_trade_def)
  then show ?thesis using tr unfolding weight_realized_for_trade_def none
    by (auto simp: filled_row_def split: option.splits)
qed

lemma instance_amounts_of_trade:
  "list_all (row_reads splits) rs \<Longrightarrow>
     instance_amounts t (map (filled_row splits) (filter (of_trade t) rs)) = instance_amounts t (map (filled_row splits) rs)"
proof (induction rs)
  case (Cons r rs)
  then have IH: "instance_amounts t (map (filled_row splits) (filter (of_trade t) rs)) = instance_amounts t (map (filled_row splits) rs)"
    and row: "row_reads splits r" by simp_all
  show ?case
  proof (cases "of_trade t r")
    case True
    then show ?thesis by (simp only: filter.simps if_True list.map instance_amounts.simps IH)
  next
    case False
    then show ?thesis by (simp add: IH other_trades_weigh_nothing [OF row])
  qed
qed simp

text \<open>A read that its limit does not cut.\<close>

definition uncut :: "exec_store \<Rightarrow> exec_query \<Rightarrow> nat \<Rightarrow> bool" where
  "uncut db q n \<longleftrightarrow> length (filter (exec_wanted q) (xs_view db (exec_from_for_scope (xq_scope q)))) \<le> n"

lemma whole_read:
  assumes "xs_up db" and "uncut db q n" and "0 < n"
  shows "get_executions db q (Some (int n)) = sort_key (exec_rank \<circ> xr_key) (filter (exec_wanted q) (xs_view db (exec_from_for_scope (xq_scope q))))"
  using assms by (simp add: get_executions_def read_executions_def limited_def uncut_def)

lemma summary_reads_its_fills:
  assumes up: "xs_up db" and small: "uncut db (q\<lparr>xq_trade := None\<rparr>) 5000"
    and rows: "\<forall>r\<in>set (xs_view db (exec_from_for_scope (xq_scope q))). row_reads splits r"
  shows "instance_amounts t (attach_fill_splits splits (map xr_cols (get_executions db (q\<lparr>xq_trade := Some t\<rparr>) (Some 50000)))) =
    instance_amounts t (attach_fill_splits splits (map xr_cols (get_executions db (q\<lparr>xq_trade := None\<rparr>) (Some 5000))))"
proof -
  let ?view = "xs_view db (exec_from_for_scope (xq_scope q))" and ?rank = "exec_rank \<circ> xr_key"
  let ?all = "sort_key ?rank (filter (exec_wanted (q\<lparr>xq_trade := None\<rparr>)) ?view)"
  have few: "filter (exec_wanted (q\<lparr>xq_trade := Some t\<rparr>)) ?view = filter (of_trade t) (filter (exec_wanted (q\<lparr>xq_trade := None\<rparr>)) ?view)"
    unfolding filter_filter by (rule filter_cong [OF refl]) (auto simp: wanted_of_trade)
  have "length (filter (exec_wanted (q\<lparr>xq_trade := Some t\<rparr>)) ?view) \<le> 5000"
    unfolding few by (rule order_trans [OF length_filter_le]) (use small in \<open>simp add: uncut_def\<close>)
  then have "uncut db (q\<lparr>xq_trade := Some t\<rparr>) 50000" by (simp add: uncut_def)
  from whole_read [OF up this]
  have "get_executions db (q\<lparr>xq_trade := Some t\<rparr>) (Some 50000) = sort_key ?rank (filter (exec_wanted (q\<lparr>xq_trade := Some t\<rparr>)) ?view)" by simp
  then have one: "get_executions db (q\<lparr>xq_trade := Some t\<rparr>) (Some 50000) = filter (of_trade t) ?all"
    unfolding few filter_sort .
  from whole_read [OF up small] have all: "get_executions db (q\<lparr>xq_trade := None\<rparr>) (Some 5000) = ?all" by simp
  have "list_all (row_reads splits) ?all" using rows by (auto simp: list_all_iff)
  from instance_amounts_of_trade [OF this, of t] show ?thesis unfolding one all attach_rows .
qed

section \<open>The row and the summary\<close>

text \<open>
  C36. On a performance page with no filter but its dates, and whose range has at most 5000 fills (all the page reads),
  the row of a trade shows what the summary of that trade over the same dates shows, which reads that trade's fills
  by itself: result, commission, net and number of fills, with split fills at the trade's weight in both; a trade
  without a row has no fills in its summary. Every fill has a time, and no split has quantity zero. Beyond 5000 fills,
  or with a filter on the account, the opportunity or the book, the two read different fills.
\<close>

theorem trade_row_is_its_summary:
  assumes page: "performance_page chicago chicago_day midnight db splits d a = Inr st"
    and free: "pa_account a = None" "pa_opp a = None" "pa_trade a = None" "scope_norm (pa_scope a) = ''performance_book''"
    and up: "xs_up db" and dates: "chicago_bound chicago_day (pa_since a) = Some s" "chicago_bound chicago_day (pa_until a) = Some u"
    and small: "uncut db \<lparr>xq_since = s, xq_until = u, xq_account = None, xq_opp = None, xq_trade = None, xq_scope = Some ''performance_book''\<rparr> 5000"
    and rows: "\<forall>r\<in>set (xs_view db ''executions_final''). row_reads splits r \<and> timed (filled_row splits r) \<and> splits_ok (filled_row splits r)"
  shows "(\<forall>row\<in>set (st_by_trade st). let sm = trade_summary chicago_day db splits (pa_since a) (pa_until a) (PInt (pr_key row))
       in pr_pnl row = ps_realized sm \<and> pr_commission row = ps_commission sm \<and> pr_net row = ps_net sm \<and> pr_fills row = ps_fills sm) \<and>
    (\<forall>k. k \<notin> pr_key ` set (st_by_trade st) \<longrightarrow> ps_fills (trade_summary chicago_day db splits (pa_since a) (pa_until a) (PInt k)) = 0)"
proof -
  let ?q = "\<lparr>xq_since = s, xq_until = u, xq_account = None, xq_opp = None, xq_trade = None, xq_scope = Some ''performance_book''\<rparr> :: exec_query"
  let ?fills = "attach_fill_splits splits (map xr_cols (get_executions db ?q (Some 5000)))"
  have book: "exec_from_for_scope (Some ''performance_book'') = ''executions_final''" by code_simp
  then have table: "exec_from_for_scope (xq_scope ?q) = ''executions_final''" by simp
  have fills: "pq_execs (page_query chicago_day db splits d a) = ?fills"
    by (simp add: page_query_def read_fills_def dates free)
  have trade: "pq_trade (page_query chicago_day db splits d a) = None" by (simp add: page_query_def free)
  have "set (get_executions db ?q (Some 5000)) \<subseteq> set (xs_view db ''executions_final'')"
    using whole_read [OF up small] table by auto
  then have ok: "\<forall>e\<in>set ?fills. timed e \<and> splits_ok e" using rows by (auto simp: attach_rows)
  have summary: "trade_summary chicago_day db splits (pa_since a) (pa_until a) (PInt k) = get_performance_instance_summary_only True ?fills (PInt k)" for k
    using summary_reads_its_fills [of db ?q splits k] up small rows
    by (simp add: trade_summary_def read_fills_def dates book get_performance_instance_summary_only_def)
  from row_is_summary_of_same_fills [OF page [unfolded performance_page_def] trade] ok
  show ?thesis unfolding fills summary by blast
qed

text \<open>A whole fill and a split one, in the view of the performance book.\<close>

definition sample_view_row :: "exec_fill \<Rightarrow> int \<Rightarrow> int option \<Rightarrow> int list \<Rightarrow> exec_row" where
  "sample_view_row e i trade splits = \<lparr>xr_key = (Some (2024, 1, 5), Some i, i), xr_account = Some ''U1'', xr_opp = None, xr_trade = trade,
     xr_splits = splits, xr_cols = ef_cols e\<rparr>"

definition sample_store :: exec_store where
  "sample_store = \<lparr>xs_up = True, xs_view = (\<lambda>_. [sample_view_row (hd (tl (pq_execs sample_query))) 1 None [1, 2],
     sample_view_row (hd (pq_execs sample_query)) 2 (Some 1) []])\<rparr>"

definition sample_splits :: "(int \<times> fill_split) list" where
  "sample_splits = [(1, sample_split 1 6), (1, sample_split 2 4)]"

definition sample_reads :: page_reads where
  "sample_reads = \<lparr>pd_equity = Some 1000, pd_cash_flow = 0, pd_lookback = [], pd_accounts = []\<rparr>"

definition sample_args :: page_args where
  "sample_args = \<lparr>pa_since = None, pa_until = None, pa_account = None, pa_granularity = ''day'', pa_opp = None, pa_trade = None,
     pa_scope = ''performance_book''\<rparr>"

lemma sample_page_query: "page_query (\<lambda>_. None) sample_store sample_splits sample_reads sample_args = sample_query"
  by code_simp

lemma sample_store_rows:
  "\<forall>r\<in>set (xs_view sample_store ''executions_final''). row_reads sample_splits r \<and> timed (filled_row sample_splits r) \<and> splits_ok (filled_row sample_splits r)"
  by code_simp

theorem trade_row_is_its_summary_witness:
  "\<exists>st. performance_page (\<lambda>_. []) (\<lambda>_. None) (\<lambda>_. 0) sample_store sample_splits sample_reads sample_args = Inr st \<and>
     (2 \<in> pr_key ` set (st_by_trade st) \<or> ps_fills (trade_summary (\<lambda>_. None) sample_store sample_splits None None (PInt 2)) = 0)"
proof -
  obtain st where run: "get_performance_stats (\<lambda>_. []) (\<lambda>_. None) (\<lambda>_. 0) sample_query = Inr st" by (rule sample_stats_run)
  then have page: "performance_page (\<lambda>_. []) (\<lambda>_. None) (\<lambda>_. 0) sample_store sample_splits sample_reads sample_args = Inr st"
    by (simp add: performance_page_def sample_page_query)
  have args: "pa_account sample_args = None" "pa_opp sample_args = None" "pa_trade sample_args = None" "pa_since sample_args = None" "pa_until sample_args = None"
    "scope_norm (pa_scope sample_args) = ''performance_book''" "xs_up sample_store"
    by (simp_all add: sample_args_def sample_store_def) (code_simp)
  have dates: "chicago_bound (\<lambda>_. None) (pa_since sample_args) = Some None" "chicago_bound (\<lambda>_. None) (pa_until sample_args) = Some None"
    by (simp_all add: chicago_bound_def args)
  have "uncut sample_store q 5000" for q by (simp add: uncut_def sample_store_def)
  from trade_row_is_its_summary [OF page args(1-3,6,7) dates this sample_store_rows] page show ?thesis
    unfolding args(4,5) by blast
qed

end
