(* ===== verification/Trade_Result.thy ===== *)
theory Trade_Result
  imports Performance Payoff
begin

text \<open>
  The result of a trade from its executions (\<open>portfolio/reader/instance_exec_net_pnl.py\<close>): the
  trade's share of every fill, option legs by contract, other fills by their realized result, and
  its share of the slippage of linked stock fills (\<open>portfolio/reader/option_stock_link.py\<close>). The
  executions read and the rows of the link query are arguments; the numbers of link rows are finite.
\<close>

section \<open>A trade's share of a fill\<close>

definition NET_QTY_EPS :: rat where
  "NET_QTY_EPS = 1 / 1000000000"

text \<open>\<open>_f\<close>: a finite number, else the default.\<close>

definition f_or :: "rat \<Rightarrow> pyval \<Rightarrow> rat" where
  "f_or dflt v = (case finite_float v of None \<Rightarrow> dflt | Some q \<Rightarrow> q)"

definition prorate :: "rat \<Rightarrow> pydict \<Rightarrow> string \<Rightarrow> pydict \<Rightarrow> pydict" where
  "prorate w ex col out = (if dget ex col = PNone then out else dset col (PFloat (Fin (f_or 0 (dget ex col) * w))) out)"

definition int_or_none :: "pyval \<Rightarrow> int option" where
  "int_or_none v = (case py_int v of Inr i \<Rightarrow> Some i | Inl _ \<Rightarrow> None)"

definition nonblank :: "pyval \<Rightarrow> string option" where
  "nonblank v = (if v = PNone \<or> strip (py_str v) = [] then None else Some (strip (py_str v)))"

definition resolved_opp :: "fill_split \<Rightarrow> pydict \<Rightarrow> int option" where
  "resolved_opp mine ex = (case sp_opp mine of Some k \<Rightarrow> Some k
     | None \<Rightarrow> int_or_none (dget ex ''strategy_opportunity_id''))"

text \<open>The name stays the fill's own also where the split's opportunity is another.\<close>

definition slice_opp_name :: "fill_split \<Rightarrow> pydict \<Rightarrow> pydict \<Rightarrow> pydict" where
  "slice_opp_name mine ex out =
     (case resolved_opp mine ex of
        None \<Rightarrow> dset ''strategy_opportunity_name'' PNone out
      | Some k \<Rightarrow> if dget ex ''strategy_opportunity_id'' = PNone then dset ''strategy_opportunity_name'' PNone out
          else if int_or_none (dget ex ''strategy_opportunity_id'') = Some k
          then (case nonblank (dget ex ''strategy_opportunity_name'') of None \<Rightarrow> out
                | Some s \<Rightarrow> dset ''strategy_opportunity_name'' (PStr s) out)
          else out)"

definition sliced_cols :: "fill_split \<Rightarrow> rat \<Rightarrow> int \<Rightarrow> pydict \<Rightarrow> pydict" where
  "sliced_cols mine w sid ex =
     (let out = dset ''quantity'' (PFloat (Fin (sp_qty mine))) ex;
          out = foldl (\<lambda>o' col. prorate w ex col o') out [''realized_pnl'', ''commission'', ''taxes'', ''net_cash''];
          out = dset ''strategy_opportunity_id'' (case resolved_opp mine ex of None \<Rightarrow> PNone | Some k \<Rightarrow> PInt k) out;
          out = slice_opp_name mine ex out;
          out = dset ''trade_id'' (PInt sid) out
      in case sp_label mine of None \<Rightarrow> out | Some l \<Rightarrow> if strip l = [] then out else dset ''trade_label'' (PStr (strip l)) out)"

definition slice_execution_for_instance_opt_view :: "exec_fill \<Rightarrow> int \<Rightarrow> exec_fill option" where
  "slice_execution_for_instance_opt_view e sid =
     (if ef_splits e \<noteq> [] then
        (if split_total e \<le> NET_QTY_EPS then None
         else case List.find (\<lambda>a. sp_trade a = sid) (ef_splits e) of
             None \<Rightarrow> None
           | Some mine \<Rightarrow> Some \<lparr>ef_cols = sliced_cols mine (\<bar>sp_qty mine\<bar> / split_total e) sid (ef_cols e), ef_splits = []\<rparr>)
      else if dget (ef_cols e) ''trade_id'' \<noteq> PNone \<and> int_or_none (dget (ef_cols e) ''trade_id'') = Some sid
      then Some e else None)"

section \<open>Realized results\<close>

definition col :: "exec_fill \<Rightarrow> string \<Rightarrow> pyval" where
  "col e c = dget (ef_cols e) c"

definition upper_text :: "pyval \<Rightarrow> string" where
  "upper_text v = (case v of PStr s \<Rightarrow> upper s | _ \<Rightarrow> [])"

definition is_opt :: "exec_fill \<Rightarrow> bool" where
  "is_opt e \<longleftrightarrow> upper_text (col e ''sec_type'') = ''OPT''"

definition opt_group_key :: "exec_fill \<Rightarrow> string" where
  "opt_group_key e = stripped (col e ''contract_key'') @ ''|'' @ float_repr (Fin (f_or 0 (col e ''strike'')))"

definition leg_cash_buy :: "exec_fill \<Rightarrow> rat" where
  "leg_cash_buy t = (let q = \<bar>f_or 0 (col t ''quantity'')\<bar> in
     if q < NET_QTY_EPS \<or> upper_text (col t ''side'') \<notin> {''BUY'', ''BOT'', ''B''} then 0
     else f_or 0 (col t ''price'') * q * 100 + f_or 0 (col t ''commission''))"

definition leg_cash_sell :: "exec_fill \<Rightarrow> rat" where
  "leg_cash_sell t = (let q = \<bar>f_or 0 (col t ''quantity'')\<bar> in
     if q < NET_QTY_EPS \<or> upper_text (col t ''side'') \<notin> {''SELL'', ''SLD'', ''S''} then 0
     else f_or 0 (col t ''price'') * q * 100 - f_or 0 (col t ''commission''))"

definition group_result :: "exec_fill list \<Rightarrow> rat" where
  "group_result trades = sum_list (map leg_cash_sell trades) - sum_list (map leg_cash_buy trades)"

definition sum_opt_groups_realized_pnl :: "exec_fill list \<Rightarrow> rat" where
  "sum_opt_groups_realized_pnl sliced =
     sum_list (map (group_result \<circ> snd) (tally_by [] (\<lambda>e g. g @ [e]) opt_group_key (filter is_opt sliced)))"

definition sum_non_opt_realized_pnl :: "exec_fill list \<Rightarrow> rat" where
  "sum_non_opt_realized_pnl sliced = sum_list (map (\<lambda>e. f_or 0 (col e ''realized_pnl'')) (filter (\<lambda>e. \<not> is_opt e) sliced))"

section \<open>Links to stock fills\<close>

record link_row =
  lk_account :: string
  lk_option :: int
  lk_qty :: "rat option"
  lk_price :: "rat option"
  lk_close :: "rat option"

definition slippage_qty :: "rat option \<Rightarrow> rat" where
  "slippage_qty q = (case q of None \<Rightarrow> 0 | Some x \<Rightarrow> \<bar>x\<bar>)"

definition slippage_amount_vs_close :: "rat \<Rightarrow> rat option \<Rightarrow> rat option \<Rightarrow> rat option" where
  "slippage_amount_vs_close q price close = (case (price, close) of (Some p, Some c) \<Rightarrow> Some (q * (p - c)) | _ \<Rightarrow> None)"

definition link_slippage :: "link_row \<Rightarrow> rat option" where
  "link_slippage r = slippage_amount_vs_close (slippage_qty (lk_qty r)) (lk_price r) (lk_close r)"

definition slippage_total :: "link_row list \<Rightarrow> rat option" where
  "slippage_total rows = (let ss = List.map_filter link_slippage rows in if ss = [] then None else Some (sum_list ss))"

text \<open>
  \<open>get_option_stock_links_bulk\<close>: the ids of each account without repeats, at most 4000; the query of
  an account that fails is skipped. \<open>answers\<close> says which do not.
\<close>

definition bulk_ids :: "(string \<times> int list) list \<Rightarrow> (string \<times> int list) list" where
  "bulk_ids batches = tally_by [] (\<lambda>b ids. ids @ snd b) (strip \<circ> fst)
     (filter (\<lambda>b. strip (fst b) \<noteq> [] \<and> snd b \<noteq> []) batches)"

definition first_uniques :: "nat \<Rightarrow> int list \<Rightarrow> int list" where
  "first_uniques n ids = take n (rev (remdups (rev ids)))"

definition link_entries :: "(string \<Rightarrow> bool) \<Rightarrow> link_row list \<Rightarrow> string \<times> int list \<Rightarrow> (int \<times> link_row list) list" where
  "link_entries answers links b =
     (if answers (fst b)
      then tally_by [] (\<lambda>r rs. rs @ [r]) lk_option
             (filter (\<lambda>r. lk_account r = fst b \<and> lk_option r \<in> set (first_uniques 4000 (snd b))) links)
      else [])"

definition get_option_stock_links_bulk :: "(string \<Rightarrow> bool) \<Rightarrow> link_row list \<Rightarrow> (string \<times> int list) list \<Rightarrow> (int \<times> link_row list) list" where
  "get_option_stock_links_bulk answers links batches =
     foldl (\<lambda>out b. foldl (\<lambda>o' kv. AList.update (fst kv) (snd kv) o') out (link_entries answers links b)) [] (bulk_ids batches)"

definition slippage_usd_from_link_entry :: "link_row list \<Rightarrow> rat" where
  "slippage_usd_from_link_entry rows = (case slippage_total rows of Some s \<Rightarrow> s
     | None \<Rightarrow> sum_list (List.map_filter link_slippage rows))"

text \<open>The option fills of the trade, by account, each id once.\<close>

definition slip_id :: "int \<Rightarrow> exec_fill \<Rightarrow> (string \<times> int) option" where
  "slip_id sid e = (if \<not> is_opt e \<or> slice_execution_for_instance_opt_view e sid = None \<or> col e ''account_executions_id'' = PNone then None
     else case int_or_none (col e ''account_executions_id'') of None \<Rightarrow> None
       | Some i \<Rightarrow> if stripped (col e ''account_id'') = [] then None else Some (stripped (col e ''account_id''), i))"

definition slip_batches :: "int \<Rightarrow> exec_fill list \<Rightarrow> (string \<times> int list) list" where
  "slip_batches sid execs = tally_by [] (\<lambda>p ids. if snd p \<in> set ids then ids else ids @ [snd p]) fst (List.map_filter (slip_id sid) execs)"

definition slip_share :: "(int \<times> link_row list) list \<Rightarrow> int \<Rightarrow> exec_fill \<Rightarrow> rat" where
  "slip_share by_oid sid e =
     (if \<not> is_opt e then 0
      else case slice_execution_for_instance_opt_view e sid of
          None \<Rightarrow> 0
        | Some sl \<Rightarrow>
            (if col e ''account_executions_id'' = PNone then 0
             else case int_or_none (col e ''account_executions_id'') of
                 None \<Rightarrow> 0
               | Some oi \<Rightarrow>
                   (let parent = \<bar>f_or 0 (col e ''quantity'')\<bar>; share = \<bar>f_or 0 (col sl ''quantity'')\<bar>
                    in if parent < NET_QTY_EPS then 0
                       else case map_of by_oid oi of
                           None \<Rightarrow> 0
                         | Some rows \<Rightarrow> slippage_usd_from_link_entry rows * (share / parent))))"

definition instance_option_stock_slippage_adjustment :: "(string \<Rightarrow> bool) \<Rightarrow> link_row list \<Rightarrow> exec_fill list \<Rightarrow> int \<Rightarrow> rat" where
  "instance_option_stock_slippage_adjustment answers links execs sid =
     (let batches = slip_batches sid execs
      in if batches = [] then 0
         else sum_list (map (slip_share (get_option_stock_links_bulk answers links batches) sid) execs))"

text \<open>The net result; \<open>read\<close> gives the executions of the trade in the book and window asked for.\<close>

definition exec_net :: "(string \<Rightarrow> bool) \<Rightarrow> link_row list \<Rightarrow> exec_fill list \<Rightarrow> int \<Rightarrow> rat" where
  "exec_net answers links execs sid =
     (let sliced = List.map_filter (\<lambda>e. slice_execution_for_instance_opt_view e sid) execs
      in if sliced = [] then 0
         else sum_opt_groups_realized_pnl sliced + sum_non_opt_realized_pnl sliced +
              instance_option_stock_slippage_adjustment answers links execs sid)"

definition compute_instance_exec_derived_net_pnl ::
  "(string \<Rightarrow> bool) \<Rightarrow> link_row list \<Rightarrow> (int \<Rightarrow> exec_fill list) \<Rightarrow> pyval \<Rightarrow> rat" where
  "compute_instance_exec_derived_net_pnl answers links read trade_id =
     (case py_int trade_id of Inl _ \<Rightarrow> 0 | Inr sid \<Rightarrow> round2 (exec_net answers links (read sid) sid))"

end
