(* ===== verification/Win_Rate.thy ===== *)
theory Win_Rate
  imports Trade_Result
begin

text \<open>
  The win rate page (\<open>monitor/reader/strategy_win_rate.py\<close>): every trade's net result, the cost of the
  shares its sold options stand for, its largest loss from the payoff engine, and the totals by
  structure. The trades with their structure and the executions of a trade are arguments; numbers
  of executions are finite; \<open>to_double\<close> is the database's cast of a text, None where it raises.
\<close>

section \<open>Strikes\<close>

text \<open>\<open>str(v or "")\<close>\<close>

definition or_blank :: "pyval \<Rightarrow> string" where
  "or_blank v = (if truthy v then py_str v else [])"

definition key_part :: "nat \<Rightarrow> string \<Rightarrow> string option" where
  "key_part n key = (let ps = split_on CHR ''|'' key in if n < length ps then Some (ps ! n) else None)"

definition parse_opt_right :: "exec_fill \<Rightarrow> string option" where
  "parse_opt_right e =
     (let right = upper (strip (or_blank (col e ''option_right''))); ck = strip (or_blank (col e ''contract_key''))
      in if right \<in> {''C'', ''P''} then Some right
         else if ck = [] then None
         else case key_part 4 ck of None \<Rightarrow> None
           | Some p \<Rightarrow> (let r = take 1 (upper (strip p)) in if r \<in> {''C'', ''P''} then Some r else None))"

text \<open>\<open>float(v)\<close> where a TypeError or a ValueError means no value; None, too, when it is not finite and positive.\<close>

definition positive_float :: "pyval \<Rightarrow> conv_err + rat option" where
  "positive_float v = (case py_float v of
       Inl e \<Rightarrow> if e = OverflowErr then Inl e else Inr None
     | Inr (Fin q) \<Rightarrow> Inr (if q > 0 then Some q else None)
     | Inr _ \<Rightarrow> Inr None)"

definition parse_opt_strike :: "exec_fill \<Rightarrow> conv_err + rat option" where
  "parse_opt_strike e = ebind (positive_float (col e ''strike'')) (\<lambda>k.
     let ck = strip (or_blank (col e ''contract_key''))
     in if k \<noteq> None then Inr k
        else if ck = [] then Inr None
        else case key_part 3 ck of None \<Rightarrow> Inr None | Some p \<Rightarrow> positive_float (PStr (strip p)))"

section \<open>The largest loss of a trade\<close>

text \<open>The net of a strike and right.\<close>

record risk_leg =
  rl_strike :: rat
  rl_right :: string
  rl_qty :: rat
  rl_cost :: rat

definition risk_number :: "pyval \<Rightarrow> conv_err + rat" where
  "risk_number v = (if truthy v then (case py_float v of Inl e \<Rightarrow> Inl e | Inr (Fin q) \<Rightarrow> Inr q | Inr _ \<Rightarrow> Inl ValueErr) else Inr 0)"

definition risk_fill :: "exec_fill \<Rightarrow> conv_err + risk_leg option" where
  "risk_fill e =
     (if upper (or_blank (col e ''sec_type'')) \<noteq> ''OPT'' then Inr None
      else ebind (parse_opt_strike e) (\<lambda>strike.
        case (parse_opt_right e, strike) of
          (Some r, Some k) \<Rightarrow>
            ebind (risk_number (col e ''quantity'')) (\<lambda>q.
              if \<bar>q\<bar> \<le> 0 then Inr None
              else ebind (risk_number (col e ''price'')) (\<lambda>price.
                let signed = (if upper (or_blank (col e ''side'')) \<in> {''BUY'', ''BOT'', ''B''} then \<bar>q\<bar> else - \<bar>q\<bar>)
                in Inr (Some \<lparr>rl_strike = k, rl_right = r, rl_qty = signed,
                     rl_cost = price * \<bar>q\<bar> * (if signed > 0 then 1 else - 1)\<rparr>)))
        | _ \<Rightarrow> Inr None))"

definition risk_key :: "risk_leg \<Rightarrow> string" where
  "risk_key l = float_repr (Fin (rl_strike l)) @ ''|'' @ rl_right l"

definition net_risk_leg :: "risk_leg list \<Rightarrow> risk_leg" where
  "net_risk_leg ls = (hd ls)\<lparr>rl_qty := sum_list (map rl_qty ls), rl_cost := sum_list (map rl_cost ls)\<rparr>"

definition risk_legs :: "exec_fill list \<Rightarrow> conv_err + risk_leg list" where
  "risk_legs sliced = ebind (emap risk_fill sliced) (\<lambda>ls.
     Inr (map (net_risk_leg \<circ> snd) (tally_by [] (\<lambda>l ls'. ls' @ [l]) risk_key (List.map_filter id ls))))"

text \<open>A net that rounds to no contract is no position; the average cost loses its sign.\<close>

definition risk_position_of :: "risk_leg \<Rightarrow> risk_position option" where
  "risk_position_of l =
     (let n = round_half_even (rl_qty l)
      in if n = 0 then None
         else Some \<lparr>rp_strike = rl_strike l, rp_right = rl_right l, rp_qty = n,
                rp_avg_cost = (if \<bar>rl_qty l\<bar> > NET_QTY_EPS then \<bar>rl_cost l / rl_qty l\<bar> else 0), rp_expiry = None\<rparr>)"

definition instance_max_risk_from_executions :: "exec_fill list \<Rightarrow> rat \<Rightarrow> conv_err + rat" where
  "instance_max_risk_from_executions sliced underlying_fallback = ebind (risk_legs sliced) (\<lambda>ls.
     let positions = List.map_filter risk_position_of ls
     in if positions = [] then Inr (max 0 underlying_fallback)
        else case pr_max_loss (compute_risk_profile positions 0 None) of
            Some m \<Rightarrow> Inr (if m < 0 then \<bar>m\<bar> else max 0 underlying_fallback)
          | None \<Rightarrow> Inr (max 0 underlying_fallback))"

definition slices_of :: "(int \<Rightarrow> exec_fill list) \<Rightarrow> int \<Rightarrow> exec_fill list" where
  "slices_of read t = List.map_filter (\<lambda>e. slice_execution_for_instance_opt_view e t) (read t)"

definition cost_for :: "(int \<times> rat) list \<Rightarrow> int \<Rightarrow> rat" where
  "cost_for costs t = (case map_of costs t of None \<Rightarrow> 0 | Some c \<Rightarrow> c)"

definition max_risk_for :: "(int \<Rightarrow> exec_fill list) \<Rightarrow> (int \<times> rat) list \<Rightarrow> int \<Rightarrow> rat" where
  "max_risk_for read costs t = (case instance_max_risk_from_executions (slices_of read t) (cost_for costs t) of
       Inl _ \<Rightarrow> round2 (max 0 (cost_for costs t))
     | Inr r \<Rightarrow> round2 r)"

definition batch_max_risk :: "(int \<Rightarrow> exec_fill list) \<Rightarrow> int list \<Rightarrow> (int \<times> rat) list \<Rightarrow> (int \<times> rat) list" where
  "batch_max_risk read ids costs = map (\<lambda>t. (t, max_risk_for read costs t)) ids"

section \<open>The shares the sold options stand for\<close>

definition sql_text :: "pyval \<Rightarrow> string" where
  "sql_text v = strip_by (\<lambda>c. c = CHR '' '') (case v of PStr s \<Rightarrow> s | _ \<Rightarrow> [])"

definition sold_option :: "exec_fill \<Rightarrow> bool" where
  "sold_option e \<longleftrightarrow> upper (sql_text (col e ''side'')) \<in> {''SELL'', ''SLD'', ''S''} \<and> upper (sql_text (col e ''sec_type'')) = ''OPT''"

definition quantity_of :: "exec_fill \<Rightarrow> rat" where
  "quantity_of e = \<bar>f_or 0 (col e ''quantity'')\<bar>"

text \<open>None: the text of the fourth part is not a number, and the query raises. The inner None: no strike.\<close>

definition eff_strike :: "(string \<Rightarrow> rat option) \<Rightarrow> exec_fill \<Rightarrow> rat option option" where
  "eff_strike to_double e =
     (let k = f_or 0 (col e ''strike'');
          part = sql_text (PStr (case key_part 3 (case col e ''contract_key'' of PStr s \<Rightarrow> s | _ \<Rightarrow> []) of None \<Rightarrow> [] | Some p \<Rightarrow> p))
      in if k > 0 then Some (Some k)
         else if part = [] then Some None
         else map_option Some (to_double part))"

definition asked_fill :: "int list \<Rightarrow> exec_fill \<Rightarrow> bool" where
  "asked_fill ids e \<longleftrightarrow> (case int_or_none (col e ''trade_id'') of None \<Rightarrow> False | Some t \<Rightarrow> t \<in> set ids) \<or>
     list_ex (\<lambda>a. sp_trade a \<in> set ids) (ef_splits e)"

text \<open>The (trade, cost) rows of one fill.\<close>

definition fill_costs :: "int list \<Rightarrow> rat \<Rightarrow> exec_fill \<Rightarrow> (int \<times> rat) list" where
  "fill_costs ids strike e =
     (if ef_splits e \<noteq> [] then map (\<lambda>a. (sp_trade a, \<bar>sp_qty a\<bar> * 100 * strike)) (filter (\<lambda>a. sp_trade a \<in> set ids) (ef_splits e))
      else case int_or_none (col e ''trade_id'') of
          Some t \<Rightarrow> if t \<in> set ids then [(t, quantity_of e * 100 * strike)] else []
        | None \<Rightarrow> [])"

definition batch_underlying_cost :: "(string \<Rightarrow> rat option) \<Rightarrow> exec_fill list \<Rightarrow> int list \<Rightarrow> (int \<times> rat) list" where
  "batch_underlying_cost to_double book ids =
     (let fills = filter (\<lambda>e. sold_option e \<and> asked_fill ids e) book
      in if list_ex (\<lambda>e. eff_strike to_double e = None) fills then []
         else tally_by 0 (\<lambda>tc c. c + snd tc) fst
           (concat (map (\<lambda>e. case eff_strike to_double e of Some (Some k) \<Rightarrow> if k > 0 then fill_costs ids k e else [] | _ \<Rightarrow> []) fills)))"

section \<open>Totals\<close>

record instance_result =
  ir_net :: rat
  ir_cost :: rat
  ir_max_risk :: rat

record win_rate_row =
  wr_structure :: string
  wr_trades :: nat
  wr_profit_trades :: nat
  wr_loss_trades :: nat
  wr_profit :: rat
  wr_loss :: "rat option"
  wr_profit_investment :: rat
  wr_loss_investment :: rat
  wr_investment :: rat
  wr_max_risk :: rat
  wr_return_pct :: "rat option"
  wr_profit_avg_pct :: "rat option"
  wr_loss_avg_pct :: "rat option"
  wr_max_loss_pct :: "rat option"
  wr_profit_avg :: "rat option"
  wr_loss_avg :: "rat option"

definition pct_of :: "instance_result \<Rightarrow> rat option" where
  "pct_of r = (if ir_cost r > 0 then Some (ir_net r / ir_cost r * 100) else None)"

definition aggregate_win_rate_metrics :: "string \<Rightarrow> instance_result list \<Rightarrow> win_rate_row" where
  "aggregate_win_rate_metrics name rows =
     (let profit = filter (\<lambda>r. ir_net r > 0) rows; loss = filter (\<lambda>r. ir_net r \<le> 0) rows;
          profit_inv = round2 (sum_list (map ir_cost profit)); loss_inv = round2 (sum_list (map ir_cost loss));
          risk = round2 (sum_list (map (\<lambda>r. max 0 (ir_max_risk r)) rows));
          neg = filter (\<lambda>x. x < 0) (map ir_net loss);
          net = round2 (sum_list (map ir_net rows))
      in \<lparr>wr_structure = name, wr_trades = length rows, wr_profit_trades = length profit, wr_loss_trades = length loss,
          wr_profit = round2 (sum_list (map ir_net profit)),
          wr_loss = (if neg = [] then None else Some (round2 (sum_list neg))),
          wr_profit_investment = profit_inv, wr_loss_investment = loss_inv, wr_investment = round2 (profit_inv + loss_inv),
          wr_max_risk = risk,
          wr_return_pct = (if risk > 0 then Some (round2 (net / risk * 100)) else None),
          wr_profit_avg_pct = map_option round2 (average (List.map_filter pct_of profit)),
          wr_loss_avg_pct = map_option round2 (average (List.map_filter pct_of loss)),
          wr_max_loss_pct = map_option round2 (least (List.map_filter pct_of rows)),
          wr_profit_avg = map_option round2 (average (map ir_net profit)),
          wr_loss_avg = map_option round2 (average (map ir_net loss))\<rparr>)"

text \<open>A row of \<open>list_instances\<close>.\<close>

record listed_trade =
  lt_trade :: int
  lt_executions :: int
  lt_structure :: "string option"

definition structure_name :: "listed_trade \<Rightarrow> string" where
  "structure_name t = (let s = strip (case lt_structure t of None \<Rightarrow> ''Unknown'' | Some n \<Rightarrow> if n = [] then ''Unknown'' else n)
     in if s = [] then ''Unknown'' else s)"

text \<open>The database as the page reads it.\<close>

record win_book =
  wb_trades :: "listed_trade list"
  wb_answers :: "string \<Rightarrow> bool"
  wb_links :: "link_row list"
  wb_read :: "int \<Rightarrow> exec_fill list"
  wb_book :: "exec_fill list"
  wb_to_double :: "string \<Rightarrow> rat option"

definition active_trades :: "win_book \<Rightarrow> listed_trade list" where
  "active_trades w = filter (\<lambda>t. lt_executions t > 0) (wb_trades w)"

definition instance_result_of :: "win_book \<Rightarrow> (int \<times> rat) list \<Rightarrow> (int \<times> rat) list \<Rightarrow> listed_trade \<Rightarrow> instance_result" where
  "instance_result_of w costs risks t =
     \<lparr>ir_net = compute_instance_exec_derived_net_pnl (wb_answers w) (wb_links w) (wb_read w) (PInt (lt_trade t)),
      ir_cost = cost_for costs (lt_trade t),
      ir_max_risk = (case map_of risks (lt_trade t) of None \<Rightarrow> cost_for costs (lt_trade t) | Some r \<Rightarrow> r)\<rparr>"

definition compute_win_rate_by_structure :: "win_book \<Rightarrow> win_rate_row list \<times> win_rate_row option" where
  "compute_win_rate_by_structure w =
     (let active = active_trades w; ids = map lt_trade active
      in if active = [] then ([], None)
         else (let costs = batch_underlying_cost (wb_to_double w) (wb_book w) ids;
                   risks = batch_max_risk (wb_read w) ids costs;
                   rows = map (\<lambda>t. (structure_name t, instance_result_of w costs risks t)) active;
                   by_structure = tally_by [] (\<lambda>r rs. rs @ [snd r]) fst rows
               in (map (\<lambda>(name, rs). aggregate_win_rate_metrics name rs) (sort_key fst by_structure),
                   Some (aggregate_win_rate_metrics ''All structures'' (map snd rows)))))"

end
