(* ===== verification/Trade_Result_Claims.thy ===== *)
theory Trade_Result_Claims
  imports Trade_Result Performance_Claims Fills
begin

text \<open>
  The results of the trades of a book add up to the results of its fills: splitting a fill over trades
  neither loses nor invents money, when the splits have the sign of the fill.
\<close>

section \<open>Option legs\<close>

definition fill_leg :: "exec_fill \<Rightarrow> rat" where
  "fill_leg e = leg_cash_sell e - leg_cash_buy e"

interpretation opt_groups: counted "[]" "\<lambda>e g. g @ [e]" group_result fill_leg
  by unfold_locales (simp_all add: group_result_def fill_leg_def)

lemma opt_groups_sum: "sum_opt_groups_realized_pnl sliced = sum_list (map fill_leg (filter is_opt sliced))"
  unfolding sum_opt_groups_realized_pnl_def by (rule opt_groups.all_entries)

definition fill_value :: "exec_fill \<Rightarrow> rat" where
  "fill_value e = (if is_opt e then fill_leg e else f_or 0 (col e ''realized_pnl''))"

lemma realized_parts_sum:
  "sum_opt_groups_realized_pnl sliced + sum_non_opt_realized_pnl sliced = sum_list (map fill_value sliced)"
  unfolding opt_groups_sum sum_non_opt_realized_pnl_def
  by (induction sliced) (simp_all add: fill_value_def)

section \<open>Shares of a split fill\<close>

lemma f_or_float [simp]: "f_or d (PFloat (Fin q)) = q" and f_or_none [simp]: "f_or d PNone = d"
  by (simp_all add: f_or_def finite_float_def)

lemma prorate_get:
  "dget (prorate w ex c out) k = (if k = c \<and> dget ex c \<noteq> PNone then PFloat (Fin (f_or 0 (dget ex c) * w)) else dget out k)"
  by (simp add: prorate_def)

lemma slice_name_get: "k \<noteq> ''strategy_opportunity_name'' \<Longrightarrow> dget (slice_opp_name mine ex out) k = dget out k"
  by (simp add: slice_opp_name_def split: option.splits)

lemma sliced_lookup:
  assumes "k \<noteq> ''strategy_opportunity_name''" "k \<noteq> ''strategy_opportunity_id''" "k \<noteq> ''trade_id''" "k \<noteq> ''trade_label''"
  shows "dget (sliced_cols mine w sid ex) k =
    (if k \<in> {''realized_pnl'', ''commission'', ''taxes'', ''net_cash''} \<and> dget ex k \<noteq> PNone then PFloat (Fin (f_or 0 (dget ex k) * w))
     else if k = ''quantity'' then PFloat (Fin (sp_qty mine)) else dget ex k)"
proof -
  let ?q = "dset ''quantity'' (PFloat (Fin (sp_qty mine))) ex"
  let ?p = "foldl (\<lambda>o' col. prorate w ex col o') ?q [''realized_pnl'', ''commission'', ''taxes'', ''net_cash'']"
  have "dget (sliced_cols mine w sid ex) k = dget ?p k"
    using assms by (cases "sp_label mine") (simp_all add: sliced_cols_def Let_def slice_name_get del: foldl.simps)
  also have "\<dots> = (if k \<in> {''realized_pnl'', ''commission'', ''taxes'', ''net_cash''} \<and> dget ex k \<noteq> PNone
      then PFloat (Fin (f_or 0 (dget ex k) * w)) else dget ?q k)"
    by (auto simp: prorate_get)
  finally show ?thesis by auto
qed

lemma sliced_get:
  "dget (sliced_cols mine w sid ex) ''sec_type'' = dget ex ''sec_type''" "dget (sliced_cols mine w sid ex) ''side'' = dget ex ''side''"
  "dget (sliced_cols mine w sid ex) ''price'' = dget ex ''price''" "dget (sliced_cols mine w sid ex) ''quantity'' = PFloat (Fin (sp_qty mine))"
  "f_or 0 (dget (sliced_cols mine w sid ex) ''realized_pnl'') = f_or 0 (dget ex ''realized_pnl'') * w"
  "f_or 0 (dget (sliced_cols mine w sid ex) ''commission'') = f_or 0 (dget ex ''commission'') * w"
  by (simp_all add: sliced_lookup)

text \<open>A split fill whose splits have its sign and its quantity, none of them negligible.\<close>

definition shares_ok :: "exec_fill \<Rightarrow> bool" where
  "shares_ok e \<longleftrightarrow> ef_splits e \<noteq> [] \<longrightarrow>
     distinct (map sp_trade (ef_splits e)) \<and> (\<forall>a\<in>set (ef_splits e). NET_QTY_EPS < \<bar>sp_qty a\<bar>) \<and>
     ((\<forall>a\<in>set (ef_splits e). 0 < sp_qty a) \<or> (\<forall>a\<in>set (ef_splits e). sp_qty a < 0)) \<and>
     \<bar>sum_list (map sp_qty (ef_splits e))\<bar> = \<bar>f_or 0 (col e ''quantity'')\<bar>"

lemma eps_pos: "0 < NET_QTY_EPS"
  by (simp add: NET_QTY_EPS_def)

lemma same_sign_total:
  assumes "(\<forall>x\<in>set xs. 0 < x) \<or> (\<forall>x\<in>set xs. x < (0::rat))"
  shows "sum_list (map abs xs) = \<bar>sum_list xs\<bar>"
proof -
  have "(\<forall>x\<in>set xs. 0 < x) \<Longrightarrow> sum_list (map abs xs) = sum_list xs \<and> 0 \<le> sum_list xs" by (induction xs) auto
  moreover have "(\<forall>x\<in>set xs. x < 0) \<Longrightarrow> sum_list (map abs xs) = - sum_list xs \<and> sum_list xs \<le> 0" by (induction xs) auto
  ultimately show ?thesis using assms by auto
qed

lemma shares_total:
  assumes "shares_ok e" and "ef_splits e \<noteq> []"
  shows "split_total e = \<bar>f_or 0 (col e ''quantity'')\<bar>" and "NET_QTY_EPS < split_total e"
proof -
  have "split_total e = sum_list (map abs (map sp_qty (ef_splits e)))" by (simp add: split_total_def o_def)
  also have "\<dots> = \<bar>sum_list (map sp_qty (ef_splits e))\<bar>"
    using assms by (intro same_sign_total) (simp add: shares_ok_def)
  finally show "split_total e = \<bar>f_or 0 (col e ''quantity'')\<bar>" using assms by (simp add: shares_ok_def)
  obtain a where a: "a \<in> set (ef_splits e)" using assms(2) by (cases "ef_splits e") auto
  then have "\<bar>sp_qty a\<bar> \<le> split_total e" unfolding split_total_def by (intro member_le_sum_list) auto
  moreover have "NET_QTY_EPS < \<bar>sp_qty a\<bar>" using assms a by (simp add: shares_ok_def)
  ultimately show "NET_QTY_EPS < split_total e" by linarith
qed

section \<open>A trade's share\<close>

definition share_of :: "exec_fill \<Rightarrow> int \<Rightarrow> rat" where
  "share_of e t =
     (if ef_splits e \<noteq> [] then (case List.find (\<lambda>a. sp_trade a = t) (ef_splits e) of None \<Rightarrow> 0 | Some a \<Rightarrow> \<bar>sp_qty a\<bar> / split_total e)
      else if col e ''trade_id'' \<noteq> PNone \<and> int_or_none (col e ''trade_id'') = Some t then 1 else 0)"

definition value_of_share :: "int \<Rightarrow> exec_fill \<Rightarrow> rat" where
  "value_of_share t e = (case slice_execution_for_instance_opt_view e t of None \<Rightarrow> 0 | Some sl \<Rightarrow> fill_value sl)"

lemma whole_share: "ef_splits e = [] \<Longrightarrow>
  slice_execution_for_instance_opt_view e t = (if share_of e t = 0 then None else Some e) \<and> share_of e t \<in> {0, 1}"
  by (simp add: slice_execution_for_instance_opt_view_def share_of_def col_def)

lemma split_share:
  assumes "shares_ok e" and "ef_splits e \<noteq> []"
  shows "slice_execution_for_instance_opt_view e t = (case List.find (\<lambda>a. sp_trade a = t) (ef_splits e) of
      None \<Rightarrow> None | Some a \<Rightarrow> Some \<lparr>ef_cols = sliced_cols a (share_of e t) t (ef_cols e), ef_splits = []\<rparr>)"
  using shares_total [OF assms] assms(2) by (auto simp: slice_execution_for_instance_opt_view_def share_of_def split: option.splits)

text \<open>The value of a share is the share of the value.\<close>

lemma sliced_value:
  assumes ok: "shares_ok e" "ef_splits e \<noteq> []" and a: "a \<in> set (ef_splits e)" and w: "w = \<bar>sp_qty a\<bar> / split_total e"
  shows "fill_value \<lparr>ef_cols = sliced_cols a w t (ef_cols e), ef_splits = []\<rparr> = fill_value e * w"
proof -
  let ?sl = "\<lparr>ef_cols = sliced_cols a w t (ef_cols e), ef_splits = []\<rparr>"
  note total = shares_total [OF ok]
  have small: "\<not> \<bar>f_or 0 (col e ''quantity'')\<bar> < NET_QTY_EPS" "\<not> \<bar>sp_qty a\<bar> < NET_QTY_EPS"
    using total ok a by (auto simp: shares_ok_def)
  have cols: "col ?sl ''sec_type'' = col e ''sec_type''" "col ?sl ''side'' = col e ''side''" "col ?sl ''price'' = col e ''price''"
    "f_or 0 (col ?sl ''quantity'') = sp_qty a" "f_or 0 (col ?sl ''realized_pnl'') = f_or 0 (col e ''realized_pnl'') * w"
    "f_or 0 (col ?sl ''commission'') = f_or 0 (col e ''commission'') * w"
    by (simp_all add: col_def sliced_get)
  have pos: "split_total e \<noteq> 0" using total(2) eps_pos by auto
  have q: "\<bar>sp_qty a\<bar> = \<bar>f_or 0 (col e ''quantity'')\<bar> * w" using pos by (simp add: w total(1) [symmetric])
  have "leg_cash_buy ?sl = leg_cash_buy e * w" "leg_cash_sell ?sl = leg_cash_sell e * w"
    unfolding leg_cash_buy_def leg_cash_sell_def cols Let_def using small q by (simp_all add: algebra_simps)
  then show ?thesis
    by (simp add: fill_value_def is_opt_def cols fill_leg_def algebra_simps)
qed

lemma value_share:
  assumes "shares_ok e"
  shows "value_of_share t e = fill_value e * share_of e t"
proof (cases "ef_splits e = []")
  case True
  then show ?thesis using whole_share [OF True, of t] by (auto simp: value_of_share_def)
next
  case False
  show ?thesis
  proof (cases "List.find (\<lambda>a. sp_trade a = t) (ef_splits e)")
    case None
    then show ?thesis using False split_share [OF assms False, of t] by (simp add: value_of_share_def share_of_def)
  next
    case (Some a)
    then have "a \<in> set (ef_splits e)" by (auto simp: find_Some_iff)
    from sliced_value [OF assms False this refl, of t] show ?thesis
      using False Some split_share [OF assms False, of t] by (simp add: value_of_share_def share_of_def)
  qed
qed

text \<open>The shares of distinct trades: all of the fill when they include every trade it is attributed to.\<close>

definition shared_by :: "exec_fill \<Rightarrow> int set" where
  "shared_by e = (if ef_splits e \<noteq> [] then sp_trade ` set (ef_splits e)
     else if col e ''trade_id'' = PNone then {} else set_option (int_or_none (col e ''trade_id'')))"

lemma find_other: "k a \<notin> k ` set as \<Longrightarrow> List.find (\<lambda>b. k b = k a) as = None"
  unfolding find_None_iff by (metis imageI)

lemma sum_list_divide: "sum_list (map (\<lambda>x. f x / c) xs) = sum_list (map f xs) / c" for c :: rat
  by (induction xs) (simp_all add: add_divide_distrib)

lemma sum_find:
  fixes f :: "'a \<Rightarrow> rat"
  assumes "distinct ts" and "distinct (map k as)" and "k ` set as \<subseteq> set ts"
  shows "sum_list (map (\<lambda>t. case List.find (\<lambda>a. k a = t) as of None \<Rightarrow> 0 | Some a \<Rightarrow> f a) ts) = sum_list (map f as)"
  using assms(2,3)
proof (induction as)
  case Nil
  then show ?case by (induction ts) simp_all
next
  case (Cons a as)
  have none: "List.find (\<lambda>b. k b = k a) as = None" using Cons.prems(1) by (intro find_other) simp
  have "(case List.find (\<lambda>a. k a = t) (a # as) of None \<Rightarrow> 0 | Some a \<Rightarrow> f a) =
      (if t = k a then f a else 0) + (case List.find (\<lambda>a. k a = t) as of None \<Rightarrow> 0 | Some a \<Rightarrow> f a)" for t
    using none by auto
  then have "sum_list (map (\<lambda>t. case List.find (\<lambda>a. k a = t) (a # as) of None \<Rightarrow> 0 | Some a \<Rightarrow> f a) ts) =
      sum_list (map (\<lambda>t. if t = k a then f a else 0) ts) + sum_list (map f as)"
    using Cons by (simp add: sum_list_addf)
  moreover have "sum_list (map (\<lambda>t. if t = k a then f a else 0) ts) = f a"
    using assms(1) Cons.prems(2) by (simp add: sum_list_distinct_conv_sum_set sum.delta')
  ultimately show ?case by simp
qed

lemma shares_sum:
  assumes ok: "shares_ok e" and ts: "distinct ts" "shared_by e \<subseteq> set ts"
  shows "sum_list (map (share_of e) ts) = (if shared_by e = {} then 0 else 1)"
proof (cases "ef_splits e = []")
  case False
  have pos: "split_total e \<noteq> 0" using shares_total(2) [OF ok False] eps_pos by auto
  have "sum_list (map (share_of e) ts) = sum_list (map (\<lambda>a. \<bar>sp_qty a\<bar> / split_total e) (ef_splits e))"
    unfolding share_of_def [abs_def] using False ok ts by (simp add: sum_find shares_ok_def shared_by_def)
  also have "\<dots> = split_total e / split_total e"
    by (simp add: split_total_def sum_list_divide)
  finally show ?thesis using False pos by (simp add: shared_by_def)
next
  case True
  show ?thesis
  proof (cases "shared_by e = {}")
    case True
    with \<open>ef_splits e = []\<close> have "share_of e t = 0" for t by (auto simp: share_of_def shared_by_def split: if_splits)
    then have "share_of e = (\<lambda>_. 0)" by auto
    then show ?thesis using True by (simp add: sum_list_triv)
  next
    case False
    then obtain k where k: "shared_by e = {k}" "col e ''trade_id'' \<noteq> PNone" "int_or_none (col e ''trade_id'') = Some k"
      using \<open>ef_splits e = []\<close> by (auto simp: shared_by_def split: if_splits)
    have "share_of e t = (if t = k then 1 else 0)" for t using k \<open>ef_splits e = []\<close> by (simp add: share_of_def)
    then have "share_of e = (\<lambda>t. if t = k then 1 else 0)" by auto
    then have "sum_list (map (share_of e) ts) = sum_list (map (\<lambda>t. if t = k then 1 else 0) ts)" by simp
    also have "\<dots> = 1" using ts k(1) by (simp add: sum_list_distinct_conv_sum_set sum.delta')
    finally show ?thesis using k(1) by simp
  qed
qed

section \<open>Slippage of linked stock fills\<close>

text \<open>The link rows of an option fill, and their slippage.\<close>

definition fill_links :: "link_row list \<Rightarrow> string \<Rightarrow> int \<Rightarrow> link_row list" where
  "fill_links links acc i = filter (\<lambda>r. lk_account r = acc \<and> lk_option r = i) links"

lemma usd_is_sum: "slippage_usd_from_link_entry rows = sum_list (List.map_filter link_slippage rows)"
  by (simp add: slippage_usd_from_link_entry_def slippage_total_def Let_def)

lemma set_first_uniques: "length ids \<le> n \<Longrightarrow> set (first_uniques n ids) = set ids"
proof -
  assume "length ids \<le> n"
  moreover have "length (remdups (rev ids)) \<le> length ids" using length_remdups_leq [of "rev ids"] by simp
  ultimately show ?thesis by (simp add: first_uniques_def)
qed

lemma link_entries_of:
  assumes "answers acc" and "i \<in> set ids" and "length ids \<le> 4000"
  shows "map_of (link_entries answers links (acc, ids)) i =
    (if fill_links links acc i = [] then None else Some (fill_links links acc i))"
proof -
  have "filter (\<lambda>r. lk_option r = i) (filter (\<lambda>r. lk_account r = acc \<and> lk_option r \<in> set (first_uniques 4000 ids)) links) =
      fill_links links acc i"
    using assms(2) by (auto simp: fill_links_def set_first_uniques [OF assms(3)] intro!: filter_cong)
  then show ?thesis
    using tally_lists [of "\<lambda>r. r" lk_option "filter (\<lambda>r. lk_account r = acc \<and> lk_option r \<in> set (first_uniques 4000 ids)) links" i] assms(1)
    by (simp add: link_entries_def Let_def)
qed

lemma link_entries_keys: "fst ` set (link_entries answers links b) \<subseteq> set (snd b)"
proof -
  have "set (first_uniques 4000 (snd b)) \<subseteq> set (snd b)" by (auto simp: first_uniques_def dest: in_set_takeD)
  then show ?thesis by (cases "answers (fst b)"; simp only: link_entries_def if_True if_False tally_keys; auto)
qed

lemma update_all_lookup:
  "distinct (map fst kvs) \<Longrightarrow> map_of (foldl (\<lambda>o' kv. AList.update (fst kv) (snd kv) o') out kvs) i =
     (case map_of kvs i of None \<Rightarrow> map_of out i | Some v \<Rightarrow> Some v)"
proof (induction kvs arbitrary: out)
  case (Cons kv kvs)
  then have "map_of kvs (fst kv) = None" by (simp add: map_of_eq_None_iff)
  with Cons show ?case by (cases kv) (auto simp: update_conv' split: option.splits)
qed simp

lemma link_entries_distinct: "distinct (map fst (link_entries answers links b))"
  by (simp add: link_entries_def tally_distinct)

text \<open>An id that only one account's batch holds is looked up in that account's links.\<close>

lemma bulk_lookup:
  assumes "distinct (map fst bs)" and "(acc, ids) \<in> set bs" and "i \<in> set ids"
    and alone: "\<And>b. b \<in> set bs \<Longrightarrow> i \<in> set (snd b) \<Longrightarrow> fst b = acc"
    and "answers acc" and "length ids \<le> 4000"
  shows "map_of (foldl (\<lambda>out b. foldl (\<lambda>o' kv. AList.update (fst kv) (snd kv) o') out (link_entries answers links b)) out bs) i =
    (if fill_links links acc i = [] then map_of out i else Some (fill_links links acc i))"
  using assms(1,2) alone
proof (induction bs arbitrary: out)
  case (Cons b bs)
  let ?out = "foldl (\<lambda>o' kv. AList.update (fst kv) (snd kv) o') out (link_entries answers links b)"
  have skip: "map_of (foldl (\<lambda>out b. foldl (\<lambda>o' kv. AList.update (fst kv) (snd kv) o') out (link_entries answers links b)) out' cs) i = map_of out' i"
    if "\<forall>c\<in>set cs. i \<notin> set (snd c)" for out' cs
    using that
  proof (induction cs arbitrary: out')
    case (Cons c cs)
    then have "map_of (link_entries answers links c) i = None"
      using link_entries_keys [of answers links c] by (auto simp: map_of_eq_None_iff)
    with Cons show ?case by (simp add: update_all_lookup link_entries_distinct)
  qed simp
  show ?case
  proof (cases "b = (acc, ids)")
    case True
    then have "\<forall>c\<in>set bs. i \<notin> set (snd c)" using Cons.prems(1,3) by (force simp: image_iff)
    then show ?thesis
      using True link_entries_of [of answers acc i ids links] assms(3,5,6)
      by (simp add: skip update_all_lookup link_entries_distinct)
  next
    case False
    then have mem: "(acc, ids) \<in> set bs" using Cons.prems(2) by auto
    have "i \<notin> set (snd b)"
    proof
      assume "i \<in> set (snd b)"
      then have "fst b = acc" using Cons.prems(3) by simp
      moreover have "acc \<in> fst ` set bs" using mem by force
      ultimately show False using Cons.prems(1) by simp
    qed
    then have "map_of (link_entries answers links b) i = None"
      using link_entries_keys [of answers links b] by (auto simp: map_of_eq_None_iff)
    then have "map_of ?out i = map_of out i" by (simp add: update_all_lookup link_entries_distinct)
    then show ?thesis using Cons.IH [of ?out] Cons.prems mem by simp
  qed
qed simp

lemma update_append_new: "k \<notin> fst ` set kvs \<Longrightarrow> AList.update k v kvs = kvs @ [(k, v)]"
  by (induction kvs) auto

lemma tally_of_distinct:
  assumes "distinct (map key bs)"
  shows "tally_by [] (\<lambda>b ids. ids @ f b) key bs = map (\<lambda>b. (key b, f b)) bs"
  using assms
proof (induction bs rule: rev_induct)
  case (snoc b bs)
  then have new: "key b \<notin> fst ` set (map (\<lambda>b. (key b, f b)) bs)" by (auto simp: image_image)
  then have "map_of (map (\<lambda>b. (key b, f b)) bs) (key b) = None" by (simp add: map_of_eq_None_iff)
  with snoc new show ?case by (simp add: tally_snoc add_to_def update_append_new)
qed simp

text \<open>The batches of a trade: every account once, with the distinct ids of its option fills.\<close>

lemma unique_tally:
  "case map_of (tally_by [] (\<lambda>p ids. if snd p \<in> set ids then ids else ids @ [snd p]) fst ps) acc of
     None \<Rightarrow> acc \<notin> fst ` set ps
   | Some ids \<Rightarrow> ids \<noteq> [] \<and> distinct ids \<and> set ids = {i. (acc, i) \<in> set ps}"
proof (induction ps rule: rev_induct)
  case (snoc p ps)
  obtain a i where p: "p = (a, i)" by (metis prod.exhaust)
  let ?m = "map_of (tally_by [] (\<lambda>p ids. if snd p \<in> set ids then ids else ids @ [snd p]) fst ps)"
  show ?case
  proof (cases "a = acc")
    case False
    with snoc show ?thesis by (simp add: p tally_snoc add_to_map split: option.splits)
  next
    case True
    show ?thesis
    proof (cases "?m acc")
      case None
      with snoc have "\<forall>j. (acc, j) \<notin> set ps" by force
      then show ?thesis using None True by (simp add: p tally_snoc add_to_map)
    next
      case (Some ids)
      with snoc have "ids \<noteq> [] \<and> distinct ids \<and> set ids = {i. (acc, i) \<in> set ps}" by simp
      then show ?thesis using Some True by (auto simp: p tally_snoc add_to_map)
    qed
  qed
qed simp

definition slip_pairs :: "int \<Rightarrow> exec_fill list \<Rightarrow> (string \<times> int) list" where
  "slip_pairs t execs = List.map_filter (slip_id t) execs"

lemma slip_id_account: "slip_id t e = Some (acc, i) \<Longrightarrow> strip acc = acc \<and> acc \<noteq> []"
  by (auto simp: slip_id_def stripped_def split: if_splits option.splits pyval.splits)

lemma slip_pairs_in: "p \<in> set (slip_pairs t execs) \<longleftrightarrow> (\<exists>e\<in>set execs. slip_id t e = Some p)"
  by (induction execs) (auto simp: slip_pairs_def map_filter_simps split: option.splits)

lemma slip_batch:
  assumes "(acc, ids) \<in> set (slip_batches t execs)"
  shows "ids \<noteq> []" "distinct ids" "set ids = {i. (acc, i) \<in> set (slip_pairs t execs)}" "strip acc = acc" "acc \<noteq> []"
proof -
  have "map_of (slip_batches t execs) acc = Some ids"
    using assms by (simp add: slip_batches_def tally_distinct map_of_eq_Some_iff)
  with unique_tally [where ps = "slip_pairs t execs" and acc = acc]
  show ids: "ids \<noteq> []" "distinct ids" "set ids = {i. (acc, i) \<in> set (slip_pairs t execs)}"
    by (simp_all add: slip_batches_def slip_pairs_def)
  then obtain i where "(acc, i) \<in> set (slip_pairs t execs)" by (cases ids) auto
  then show "strip acc = acc" "acc \<noteq> []" using slip_id_account by (auto simp: slip_pairs_in)
qed

lemma bulk_ids_batches: "bulk_ids (slip_batches t execs) = slip_batches t execs"
proof -
  have all: "filter (\<lambda>b. strip (fst b) \<noteq> [] \<and> snd b \<noteq> []) (slip_batches t execs) = slip_batches t execs"
    by (rule filter_True) (use slip_batch [of _ _ t execs] in force)
  have key: "map (strip \<circ> fst) (slip_batches t execs) = map fst (slip_batches t execs)"
    by (rule map_cong [OF refl]) (use slip_batch(4) [of _ _ t execs] in force)
  have "distinct (map (strip \<circ> fst) (slip_batches t execs))"
    unfolding key by (simp add: slip_batches_def tally_distinct)
  from tally_of_distinct [OF this, of snd]
  have "bulk_ids (slip_batches t execs) = map (\<lambda>b. ((strip \<circ> fst) b, snd b)) (slip_batches t execs)"
    unfolding bulk_ids_def all .
  also have "\<dots> = slip_batches t execs"
    by (rule map_idI) (use slip_batch(4) [of _ _ t execs] in force)
  finally show ?thesis .
qed

text \<open>Executions as the views give them: an id of their own, and an account.\<close>

definition fill_id :: "exec_fill \<Rightarrow> int option" where
  "fill_id e = (if col e ''account_executions_id'' = PNone then None else int_or_none (col e ''account_executions_id''))"

definition account_of :: "exec_fill \<Rightarrow> string" where
  "account_of e = stripped (col e ''account_id'')"

definition book_ok :: "exec_fill list \<Rightarrow> bool" where
  "book_ok book \<longleftrightarrow> (\<forall>e\<in>set book. shares_ok e \<and> fill_id e \<noteq> None \<and> account_of e \<noteq> []) \<and>
     distinct (map fill_id book) \<and> length book \<le> 4000"

definition fill_slip :: "link_row list \<Rightarrow> exec_fill \<Rightarrow> rat" where
  "fill_slip links e = (if is_opt e \<and> NET_QTY_EPS \<le> \<bar>f_or 0 (col e ''quantity'')\<bar>
     then sum_list (List.map_filter link_slippage (fill_links links (account_of e) (the (fill_id e)))) else 0)"

lemma slip_id_of: "slip_id t e = (if is_opt e \<and> slice_execution_for_instance_opt_view e t \<noteq> None \<and> fill_id e \<noteq> None \<and> account_of e \<noteq> []
    then Some (account_of e, the (fill_id e)) else None)"
  by (auto simp: slip_id_def fill_id_def account_of_def split: option.splits)

lemma batch_of_fill:
  assumes "slip_id t e = Some (acc, i)" and "e \<in> set execs"
  obtains ids where "(acc, ids) \<in> set (slip_batches t execs)" and "i \<in> set ids"
proof -
  have mem: "(acc, i) \<in> set (slip_pairs t execs)" using assms by (auto simp: slip_pairs_in)
  then have "acc \<in> fst ` set (slip_pairs t execs)" by force
  then obtain ids where "map_of (slip_batches t execs) acc = Some ids"
    using unique_tally [where ps = "slip_pairs t execs" and acc = acc] by (cases "map_of (slip_batches t execs) acc") (auto simp: slip_batches_def slip_pairs_def)
  then have "(acc, ids) \<in> set (slip_batches t execs)" by (rule map_of_SomeD)
  then show thesis using that slip_batch(3) mem by blast
qed

lemma batch_short:
  assumes "(acc, ids) \<in> set (slip_batches t execs)"
  shows "length ids \<le> length execs"
proof -
  have "set ids \<subseteq> snd ` set (slip_pairs t execs)" using slip_batch(3) [OF assms] by force
  then have "card (set ids) \<le> card (snd ` set (slip_pairs t execs))" by (intro card_mono) simp_all
  also have "\<dots> \<le> card (set (slip_pairs t execs))" by (rule card_image_le) simp
  also have "\<dots> \<le> length (slip_pairs t execs)" by (rule card_length)
  also have "\<dots> \<le> length execs" unfolding slip_pairs_def by (induction execs) (auto simp: map_filter_simps split: option.splits)
  finally show ?thesis using slip_batch(2) [OF assms] by (simp add: distinct_card)
qed

lemma bulk_of_fill:
  assumes ok: "book_ok execs" and e: "e \<in> set execs" "slip_id t e = Some (acc, i)" and up: "\<And>a. answers a"
  shows "map_of (get_option_stock_links_bulk answers links (slip_batches t execs)) i =
    (if fill_links links acc i = [] then None else Some (fill_links links acc i))"
proof -
  obtain ids where ids: "(acc, ids) \<in> set (slip_batches t execs)" "i \<in> set ids" by (rule batch_of_fill [OF e(2,1)])
  have "fst b = acc" if b: "b \<in> set (slip_batches t execs)" "i \<in> set (snd b)" for b
  proof -
    from slip_batch(3) [of "fst b" "snd b"] b have "(fst b, i) \<in> set (slip_pairs t execs)" by auto
    then obtain e' where e': "e' \<in> set execs" "slip_id t e' = Some (fst b, i)" by (auto simp: slip_pairs_in)
    with e have "fill_id e' = fill_id e" by (auto simp: slip_id_of split: if_splits)
    with ok e(1) e'(1) have "e' = e" by (auto simp: book_ok_def distinct_map inj_on_def)
    then show ?thesis using e e' by simp
  qed
  moreover have "length ids \<le> 4000" using batch_short [OF ids(1)] ok by (simp add: book_ok_def)
  moreover have "distinct (map fst (slip_batches t execs))" by (simp add: slip_batches_def tally_distinct)
  ultimately show ?thesis
    using bulk_lookup [of "slip_batches t execs" acc ids i answers links "[]"] ids up
    by (simp add: get_option_stock_links_bulk_def bulk_ids_batches)
qed

section \<open>The net result of a trade\<close>

lemma usd_of_links: "(case if xs = [] then None else Some xs of None \<Rightarrow> 0 | Some rows \<Rightarrow> slippage_usd_from_link_entry rows * w) =
    sum_list (List.map_filter link_slippage xs) * w"
  by (simp add: usd_is_sum map_filter_simps)

lemma share_quantity:
  assumes "shares_ok e" and "slice_execution_for_instance_opt_view e t = Some sl" and "NET_QTY_EPS \<le> \<bar>f_or 0 (col e ''quantity'')\<bar>"
  shows "\<bar>f_or 0 (col sl ''quantity'')\<bar> / \<bar>f_or 0 (col e ''quantity'')\<bar> = share_of e t"
proof (cases "ef_splits e = []")
  case True
  have "f_or 0 (col e ''quantity'') \<noteq> 0" using assms(3) eps_pos by auto
  then show ?thesis using whole_share [OF True, of t] assms(2) by (auto split: if_splits)
next
  case False
  then obtain a where "List.find (\<lambda>a. sp_trade a = t) (ef_splits e) = Some a"
    and "sl = \<lparr>ef_cols = sliced_cols a (share_of e t) t (ef_cols e), ef_splits = []\<rparr>"
    using assms(2) split_share [OF assms(1) False, of t] by (auto split: option.splits)
  then show ?thesis using False shares_total(1) [OF assms(1) False] by (simp add: col_def sliced_get share_of_def)
qed

lemma no_slice_no_share: "shares_ok e \<Longrightarrow> slice_execution_for_instance_opt_view e t = None \<Longrightarrow> share_of e t = 0"
  by (cases "ef_splits e = []") (auto simp: whole_share split_share share_of_def split: option.splits if_splits)

lemma slip_share_is:
  assumes ok: "book_ok execs" and e: "e \<in> set execs" and up: "\<And>a. answers a"
  shows "slip_share (get_option_stock_links_bulk answers links (slip_batches t execs)) t e = fill_slip links e * share_of e t"
proof (cases "slice_execution_for_instance_opt_view e t")
  case None
  then show ?thesis using no_slice_no_share [of e t] ok e by (simp add: slip_share_def book_ok_def)
next
  case (Some sl)
  have fine: "shares_ok e" "fill_id e \<noteq> None" "account_of e \<noteq> []" using ok e by (auto simp: book_ok_def)
  then obtain i where i: "fill_id e = Some i" by auto
  show ?thesis
  proof (cases "is_opt e \<and> NET_QTY_EPS \<le> \<bar>f_or 0 (col e ''quantity'')\<bar>")
    case False
    then show ?thesis using Some by (auto simp: slip_share_def fill_slip_def Let_def split: option.splits)
  next
    case True
    then have "slip_id t e = Some (account_of e, i)" using fine i Some by (simp add: slip_id_of)
    note bulk = bulk_of_fill [OF ok e this up, where links = links]
    note ratio = share_quantity [OF fine(1) Some]
    have id: "col e ''account_executions_id'' \<noteq> PNone" "int_or_none (col e ''account_executions_id'') = Some i"
      using i by (auto simp: fill_id_def split: if_splits)
    show ?thesis
      using True by (simp add: slip_share_def fill_slip_def Some id i bulk ratio usd_of_links Let_def not_less)
  qed
qed

definition net_of_fill :: "link_row list \<Rightarrow> exec_fill \<Rightarrow> rat" where
  "net_of_fill links e = fill_value e + fill_slip links e"

lemma sum_map_filter: "sum_list (map f (List.map_filter g xs)) = sum_list (map (\<lambda>x. case g x of None \<Rightarrow> 0 | Some y \<Rightarrow> f y) xs)"
  for f :: "'b \<Rightarrow> rat"
  by (induction xs) (auto simp: map_filter_simps split: option.splits)

lemma exec_net_shares:
  assumes ok: "book_ok execs" and up: "\<And>a. answers a"
  shows "exec_net answers links execs t = sum_list (map (\<lambda>e. net_of_fill links e * share_of e t) execs)"
proof -
  let ?sliced = "List.map_filter (\<lambda>e. slice_execution_for_instance_opt_view e t) execs"
  have good: "\<And>e. e \<in> set execs \<Longrightarrow> shares_ok e" using ok by (simp add: book_ok_def)
  have "sum_list (map fill_value ?sliced) = sum_list (map (value_of_share t) execs)"
    unfolding sum_map_filter value_of_share_def [abs_def] ..
  also have "\<dots> = sum_list (map (\<lambda>e. fill_value e * share_of e t) execs)"
    by (rule arg_cong [where f = sum_list], rule map_cong [OF refl]) (simp add: value_share good)
  finally have vals: "sum_list (map fill_value ?sliced) = sum_list (map (\<lambda>e. fill_value e * share_of e t) execs)" .
  have slips: "instance_option_stock_slippage_adjustment answers links execs t = sum_list (map (\<lambda>e. fill_slip links e * share_of e t) execs)"
  proof (cases "slip_batches t execs = []")
    case False
    then show ?thesis
      by (auto simp: instance_option_stock_slippage_adjustment_def slip_share_is [OF ok _ up] intro!: arg_cong [where f = sum_list] map_cong)
  next
    case True
    have none: "fill_slip links e * share_of e t = 0" if e: "e \<in> set execs" for e
    proof (rule ccontr)
      assume "\<not> ?thesis"
      then have "is_opt e" and "share_of e t \<noteq> 0" by (auto simp: fill_slip_def split: if_splits)
      then have "slip_id t e = Some (account_of e, the (fill_id e))"
        using ok e no_slice_no_share [of e t] by (auto simp: slip_id_of book_ok_def)
      then show False using batch_of_fill [OF _ e] True by force
    qed
    have "map (\<lambda>e. fill_slip links e * share_of e t) execs = map (\<lambda>_. 0) execs" using none by simp
    then show ?thesis using True by (simp add: instance_option_stock_slippage_adjustment_def sum_list_triv del: map_eq_conv)
  qed
  have split: "sum_list (map (\<lambda>e. net_of_fill links e * share_of e t) execs) =
      sum_list (map fill_value ?sliced) + instance_option_stock_slippage_adjustment answers links execs t"
    unfolding vals slips net_of_fill_def by (simp add: distrib_right sum_list_addf)
  show ?thesis
  proof (cases "?sliced = []")
    case False
    then show ?thesis unfolding split by (simp add: exec_net_def realized_parts_sum Let_def)
  next
    case True
    then have "\<And>e. e \<in> set execs \<Longrightarrow> share_of e t = 0"
      using good no_slice_no_share by (auto simp: map_filter_def filter_empty_conv)
    then have "map (\<lambda>e. net_of_fill links e * share_of e t) execs = map (\<lambda>_. 0) execs" by simp
    then show ?thesis using True by (simp add: exec_net_def sum_list_triv del: map_eq_conv)
  qed
qed

text \<open>The executions the query of a trade reads: attributed to it whole or by a split.\<close>

definition trade_fills :: "exec_fill list \<Rightarrow> int \<Rightarrow> exec_fill list" where
  "trade_fills book t = filter (\<lambda>e. int_or_none (col e ''trade_id'') = Some t \<or> t \<in> sp_trade ` set (ef_splits e)) book"

lemma unread_no_share:
  assumes "int_or_none (col e ''trade_id'') \<noteq> Some t" and "t \<notin> sp_trade ` set (ef_splits e)"
  shows "share_of e t = 0"
  using assms by (force simp: share_of_def find_Some_iff split: option.splits)

lemma sum_filter_zero: "(\<And>x. x \<in> set xs \<Longrightarrow> \<not> P x \<Longrightarrow> f x = (0::rat)) \<Longrightarrow> sum_list (map f (filter P xs)) = sum_list (map f xs)"
  by (induction xs) auto

lemma book_ok_trade: "book_ok book \<Longrightarrow> book_ok (trade_fills book t)"
  by (auto simp: book_ok_def trade_fills_def distinct_map inj_on_def intro: order_trans [OF length_filter_le])

lemma exec_net_book:
  assumes ok: "book_ok book" and up: "\<And>a. answers a"
  shows "exec_net answers links (trade_fills book t) t = sum_list (map (\<lambda>e. net_of_fill links e * share_of e t) book)"
proof -
  have "sum_list (map (\<lambda>e. net_of_fill links e * share_of e t) (trade_fills book t)) = sum_list (map (\<lambda>e. net_of_fill links e * share_of e t) book)"
    unfolding trade_fills_def by (rule sum_filter_zero) (simp add: unread_no_share)
  then show ?thesis by (simp add: exec_net_shares [OF book_ok_trade [OF ok] up])
qed

lemma trades_net:
  assumes ok: "book_ok book" and up: "\<And>a. answers a" and ts: "distinct ts" "\<And>e. e \<in> set book \<Longrightarrow> shared_by e \<subseteq> set ts"
  shows "sum_list (map (\<lambda>t. exec_net answers links (trade_fills book t) t) ts) =
    sum_list (map (net_of_fill links) (filter (\<lambda>e. shared_by e \<noteq> {}) book))"
proof -
  have "sum_list (map (\<lambda>t. sum_list (map (\<lambda>e. net_of_fill links e * share_of e t) book)) ts) =
      sum_list (map (\<lambda>e. net_of_fill links e * sum_list (map (share_of e) ts)) book)"
    by (induction ts) (simp_all add: sum_list_addf sum_list_triv distrib_left)
  also have "\<dots> = sum_list (map (\<lambda>e. if shared_by e \<noteq> {} then net_of_fill links e else 0) book)"
    by (rule arg_cong [where f = sum_list], rule map_cong [OF refl]) (use shares_sum ts ok in \<open>auto simp: book_ok_def\<close>)
  also have "\<dots> = sum_list (map (net_of_fill links) (filter (\<lambda>e. shared_by e \<noteq> {}) book))"
    by (induction book) auto
  finally show ?thesis unfolding exec_net_book [OF ok up] .
qed

lemma trade_results_sum:
  assumes "book_ok book" and "\<And>a. answers a" and "distinct ts" and "\<And>e. e \<in> set book \<Longrightarrow> shared_by e \<subseteq> set ts"
  shows "\<bar>sum_list (map (\<lambda>t. compute_instance_exec_derived_net_pnl answers links (trade_fills book) (PInt t)) ts) -
      sum_list (map (net_of_fill links) (filter (\<lambda>e. shared_by e \<noteq> {}) book))\<bar> \<le> of_nat (length ts) / 200"
proof -
  have "(\<lambda>t. compute_instance_exec_derived_net_pnl answers links (trade_fills book) (PInt t)) =
      (\<lambda>t. round2 (exec_net answers links (trade_fills book t) t))"
    by (simp add: compute_instance_exec_derived_net_pnl_def)
  then show ?thesis
    using rounded_sum [of "\<lambda>t. exec_net answers links (trade_fills book t) t" ts] trades_net [OF assms] by simp
qed

text \<open>
  C3. The net results of the trades of a book add up to the results of its attributed fills, half a cent a trade
  apart: option premium less commission, the realized result of other fills, and the slippage of
  linked stock fills. Splitting a fill over trades neither loses nor invents money when its splits have one sign and its
  quantity (\<open>shares_ok\<close>), ids are unique and the book has at most 4000 fills (the limit of the link query).
\<close>

theorem trade_results_add_up:
  assumes "book_ok book" and "\<And>a. answers a" and "distinct ts" and "\<And>e. e \<in> set book \<Longrightarrow> shared_by e \<subseteq> set ts"
  shows "\<bar>sum_list (map (\<lambda>t. compute_instance_exec_derived_net_pnl answers links (trade_fills book) (PInt t)) ts) -
      sum_list (map (net_of_fill links) (filter (\<lambda>e. shared_by e \<noteq> {}) book))\<bar> \<le> of_nat (length ts) / 200"
  by (rule trade_results_sum [OF assms])

text \<open>Three fills: an option split over two trades, an option of one of them, a stock fill of none; one link.\<close>

definition opt_fill :: "int \<Rightarrow> string \<Rightarrow> rat \<Rightarrow> rat \<Rightarrow> pyval \<Rightarrow> fill_split list \<Rightarrow> exec_fill" where
  "opt_fill i side q price trade splits = \<lparr>ef_cols = [(''account_executions_id'', PInt i), (''account_id'', PStr ''U1''),
     (''sec_type'', PStr ''OPT''), (''contract_key'', PStr ''NVDA|OPT''), (''strike'', PInt 100), (''side'', PStr side),
     (''quantity'', PFloat (Fin q)), (''price'', PFloat (Fin price)), (''commission'', PFloat (Fin 1)), (''trade_id'', trade)],
     ef_splits = splits\<rparr>"

definition share_book :: "exec_fill list" where
  "share_book = [opt_fill 1 ''SLD'' 3 5 PNone [sample_split 7 1, sample_split 8 2], opt_fill 2 ''BOT'' 1 2 (PInt 7) [], opt_fill 3 ''BOT'' 1 2 PNone []]"

definition share_links :: "link_row list" where
  "share_links = [\<lparr>lk_account = ''U1'', lk_option = 1, lk_qty = Some 300, lk_price = Some 10, lk_close = Some 9\<rparr>]"

lemma share_book_ok: "book_ok share_book" "\<forall>e\<in>set share_book. shared_by e \<subseteq> set [7, 8]"
  by code_simp+

lemma share_book_net: "sum_list (map (net_of_fill share_links) (filter (\<lambda>e. shared_by e \<noteq> {}) share_book)) = 1598"
  by code_simp

theorem trade_results_add_up_witness:
  "\<bar>sum_list (map (\<lambda>t. compute_instance_exec_derived_net_pnl (\<lambda>_. True) share_links (trade_fills share_book) (PInt t)) [7, 8]) - 1598\<bar> \<le> 2 / 200"
  using trade_results_add_up [of share_book "\<lambda>_. True" "[7, 8]" share_links] share_book_ok share_book_net by simp

section \<open>Splits of opposite sign\<close>

lemma no_links_no_slip: "instance_option_stock_slippage_adjustment answers [] execs t = 0"
proof -
  have none: "foldl (\<lambda>out b. foldl (\<lambda>o' kv. AList.update (fst kv) (snd kv) o') out (link_entries answers [] b)) [] bs = []" for bs
    by (induction bs) (simp_all add: link_entries_def tally_by_def)
  have "slip_share [] t e = 0" for e
    by (auto simp: slip_share_def Let_def split: option.splits)
  then have "slip_share [] t = (\<lambda>_. 0)" by auto
  then show ?thesis
    by (simp add: instance_option_stock_slippage_adjustment_def get_option_stock_links_bulk_def none Let_def sum_list_triv)
qed

lemma one_slice_net:
  assumes "slice_execution_for_instance_opt_view e t = Some sl"
  shows "exec_net answers [] [e] t = fill_value sl"
  using assms realized_parts_sum [of "[sl]"] by (simp add: exec_net_def no_links_no_slip map_filter_simps)

lemma sold_leg:
  assumes "upper_text (col e ''side'') \<in> {''SELL'', ''SLD'', ''S''}" and "NET_QTY_EPS \<le> \<bar>f_or 0 (col e ''quantity'')\<bar>"
  shows "fill_leg e = f_or 0 (col e ''price'') * \<bar>f_or 0 (col e ''quantity'')\<bar> * 100 - f_or 0 (col e ''commission'')"
  using assms by (auto simp: fill_leg_def leg_cash_sell_def leg_cash_buy_def Let_def)

lemma sold_slice:
  assumes e: "is_opt e" "upper_text (col e ''side'') \<in> {''SELL'', ''SLD'', ''S''}"
    and a: "List.find (\<lambda>a. sp_trade a = t) (ef_splits e) = Some a" "NET_QTY_EPS < \<bar>sp_qty a\<bar>"
  shows "exec_net answers [] [e] t =
    f_or 0 (col e ''price'') * \<bar>sp_qty a\<bar> * 100 - f_or 0 (col e ''commission'') * (\<bar>sp_qty a\<bar> / split_total e)"
proof -
  let ?sl = "\<lparr>ef_cols = sliced_cols a (\<bar>sp_qty a\<bar> / split_total e) t (ef_cols e), ef_splits = []\<rparr>"
  have mem: "a \<in> set (ef_splits e)" and ne: "ef_splits e \<noteq> []" using a(1) by (auto simp: find_Some_iff)
  have "\<bar>sp_qty a\<bar> \<le> split_total e" using mem unfolding split_total_def by (intro member_le_sum_list) auto
  then have "slice_execution_for_instance_opt_view e t = Some ?sl"
    using a ne by (simp add: slice_execution_for_instance_opt_view_def)
  moreover have "fill_value ?sl = fill_leg ?sl" using e(1) by (simp add: fill_value_def is_opt_def col_def sliced_get)
  moreover have "fill_leg ?sl = f_or 0 (col e ''price'') * \<bar>sp_qty a\<bar> * 100 - f_or 0 (col e ''commission'') * (\<bar>sp_qty a\<bar> / split_total e)"
    using sold_leg [of ?sl] e(2) a(2) by (simp add: col_def sliced_get)
  ultimately show ?thesis by (simp add: one_slice_net)
qed

text \<open>
  Splits of opposite sign pass the writers' test (they add up to the fill), but the results of the two trades
  then exceed the result of the fill: a sale of \<open>q\<close> options split into \<open>q + b\<close> and \<open>- b\<close> is counted as
  \<open>q + 2 b\<close> sold, since a trade's share counts its quantity without its sign.
\<close>

theorem mixed_splits_inflate:
  assumes "is_opt e" and "upper_text (col e ''side'') \<in> {''SELL'', ''SLD'', ''S''}" and "f_or 0 (col e ''quantity'') = q" and "NET_QTY_EPS < q"
    and "ef_splits e = [\<lparr>sp_trade = t, sp_qty = q + b, sp_opp = o1, sp_label = l1\<rparr>, \<lparr>sp_trade = u, sp_qty = - b, sp_opp = o2, sp_label = l2\<rparr>]"
    and "NET_QTY_EPS < b" and "t \<noteq> u"
  shows "adds_up (sum_list (map sp_qty (ef_splits e))) (Fin q) \<and>
    exec_net answers [] [e] t + exec_net answers [] [e] u = fill_value e + 200 * b * f_or 0 (col e ''price'')"
proof -
  note pos = less_trans [OF eps_pos assms(6)] less_trans [OF eps_pos assms(4)]
  have total: "split_total e = q + 2 * b" using pos assms(5) by (simp add: split_total_def)
  have "exec_net answers [] [e] t = f_or 0 (col e ''price'') * (q + b) * 100 - f_or 0 (col e ''commission'') * ((q + b) / split_total e)"
    using sold_slice [OF assms(1,2), of t] assms pos by simp
  moreover have "exec_net answers [] [e] u = f_or 0 (col e ''price'') * b * 100 - f_or 0 (col e ''commission'') * (b / split_total e)"
    using sold_slice [OF assms(1,2), of u] assms pos by simp
  moreover have "x * ((q + b) / split_total e) + x * (b / split_total e) = x" for x
  proof -
    have "(q + b) / split_total e + b / split_total e = 1"
      using pos by (simp add: total add_divide_distrib [symmetric])
    then show ?thesis by (metis distrib_left mult.right_neutral)
  qed
  note this [of "f_or 0 (col e ''commission'')"]
  moreover have "fill_value e = f_or 0 (col e ''price'') * q * 100 - f_or 0 (col e ''commission'')"
    using sold_leg [of e] assms(1-4) pos by (simp add: fill_value_def)
  moreover have "adds_up (sum_list (map sp_qty (ef_splits e))) (Fin q)" using assms(5) by (simp add: adds_up_def)
  ultimately show ?thesis by (simp add: algebra_simps)
qed

theorem mixed_splits_inflate_witness:
  "let e = opt_fill 1 ''SLD'' 10 5 PNone [sample_split 7 30, sample_split 8 (- 20)]
   in exec_net (\<lambda>_. True) [] [e] 7 + exec_net (\<lambda>_. True) [] [e] 8 = 24999 \<and> fill_value e = 4999"
proof -
  let ?e = "opt_fill 1 ''SLD'' 10 5 PNone [sample_split 7 30, sample_split 8 (- 20)]"
  have "fill_value ?e = 4999" and cols: "is_opt ?e" "upper_text (col ?e ''side'') = ''SLD''" "f_or 0 (col ?e ''quantity'') = 10" "f_or 0 (col ?e ''price'') = 5"
    by code_simp+
  moreover have "ef_splits ?e = [\<lparr>sp_trade = 7, sp_qty = 10 + 20, sp_opp = Some 7, sp_label = None\<rparr>, \<lparr>sp_trade = 8, sp_qty = - 20, sp_opp = Some 7, sp_label = None\<rparr>]"
    by (simp add: opt_fill_def sample_split_def)
  ultimately show ?thesis
    using mixed_splits_inflate [of ?e 10 7 20 "Some 7" None 8 "Some 7" None "\<lambda>_. True"] by (simp add: NET_QTY_EPS_def)
qed

end
