(* ===== verification/Win_Rate_Claims.thy ===== *)
theory Win_Rate_Claims
  imports Win_Rate Trade_Result_Claims Payoff_Claims "HOL-Library.Multiset"
begin

text \<open>
  The totals of the win rate page are the totals of its structures and account for every attributed
  fill; the largest loss of a trade is the worst result its option fills can have at expiry.
\<close>

section \<open>Amounts in cents\<close>

definition in_cents :: "rat \<Rightarrow> bool" where
  "in_cents q \<longleftrightarrow> round2 q = q"

lemma round_half_even_int [simp]: "round_half_even (of_int n) = n"
  by (simp add: round_half_even_def)

lemma cents_int: "in_cents (of_int n / 100)"
  by (simp add: in_cents_def round2_def)

lemma cents_iff: "in_cents q \<longleftrightarrow> (\<exists>n. q = of_int n / 100)"
  using cents_int by (metis in_cents_def round2_def)

lemma cents_add: "in_cents p \<Longrightarrow> in_cents q \<Longrightarrow> in_cents (p + q)"
  unfolding cents_iff by (metis add_divide_distrib of_int_add)

lemma cents_sum: "(\<And>q. q \<in> set qs \<Longrightarrow> in_cents q) \<Longrightarrow> in_cents (sum_list qs)"
  by (induction qs) (use cents_int [of 0] in \<open>simp_all add: cents_add\<close>)

lemma net_in_cents: "in_cents (compute_instance_exec_derived_net_pnl answers links read v)"
  using cents_int [of 0] by (simp add: compute_instance_exec_derived_net_pnl_def in_cents_def split: sum.splits)

lemma round2_neg_cents: "round2 (- round2 m) = - round2 m"
  using cents_int [of "- round_half_even (m * 100)"] by (simp add: in_cents_def round2_def)

section \<open>Sums over structures\<close>

definition lost :: "win_rate_row \<Rightarrow> rat" where
  "lost r = (case wr_loss r of None \<Rightarrow> 0 | Some l \<Rightarrow> l)"

definition gain_of :: "instance_result \<Rightarrow> rat" where
  "gain_of r = max 0 (ir_net r)"

definition loss_of :: "instance_result \<Rightarrow> rat" where
  "loss_of r = min 0 (ir_net r)"

lemma sum_gains: "sum_list (map ir_net (filter (\<lambda>r. ir_net r > 0) rs)) = sum_list (map gain_of rs)"
  by (induction rs) (simp_all add: gain_of_def)

lemma sum_losses: "sum_list (filter (\<lambda>x. x < 0) (map ir_net (filter (\<lambda>r. ir_net r \<le> 0) rs))) = sum_list (map loss_of rs)"
  by (induction rs) (auto simp: loss_of_def)

lemma gain_loss: "gain_of r + loss_of r = ir_net r"
  by (simp add: gain_of_def loss_of_def)

lemma aggregate_sums:
  assumes "\<And>r. r \<in> set rs \<Longrightarrow> in_cents (ir_net r)"
  shows "wr_profit (aggregate_win_rate_metrics name rs) = sum_list (map gain_of rs)"
    and "lost (aggregate_win_rate_metrics name rs) = sum_list (map loss_of rs)"
    and "wr_trades (aggregate_win_rate_metrics name rs) = length rs"
proof -
  let ?neg = "filter (\<lambda>x. x < 0) (map ir_net (filter (\<lambda>r. ir_net r \<le> 0) rs))"
  have "in_cents (sum_list (map ir_net (filter (\<lambda>r. ir_net r > 0) rs)))" using assms by (intro cents_sum) auto
  then show "wr_profit (aggregate_win_rate_metrics name rs) = sum_list (map gain_of rs)"
    by (simp add: aggregate_win_rate_metrics_def Let_def in_cents_def sum_gains)
  have "in_cents (sum_list ?neg)" using assms by (intro cents_sum) auto
  moreover have "lost (aggregate_win_rate_metrics name rs) = (if ?neg = [] then 0 else round2 (sum_list ?neg))"
    by (simp add: lost_def aggregate_win_rate_metrics_def Let_def del: filter_empty_conv)
  ultimately show "lost (aggregate_win_rate_metrics name rs) = sum_list (map loss_of rs)"
    unfolding sum_losses [symmetric] by (cases "?neg = []") (simp_all only: in_cents_def if_True if_False sum_list.Nil simp_thms)
  show "wr_trades (aggregate_win_rate_metrics name rs) = length rs"
    by (simp add: aggregate_win_rate_metrics_def Let_def)
qed

lemma grouped_sum:
  fixes q :: "'b \<Rightarrow> 'n::ab_group_add"
  shows "sum_list (map (\<lambda>kv. sum_list (map q (snd kv))) (tally_by [] (\<lambda>r rs. rs @ [g r]) key as)) = sum_list (map (\<lambda>a. q (g a)) as)"
proof -
  have "counted [] (\<lambda>r rs. rs @ [g r]) (\<lambda>rs. sum_list (map q rs)) (\<lambda>a. q (g a))"
    by unfold_locales simp_all
  from counted.all_entries [OF this, of key as] show ?thesis by (simp add: comp_def)
qed

lemma grouped_in: "x \<in> set (snd kv) \<Longrightarrow> kv \<in> set (tally_by [] (\<lambda>r rs. rs @ [g r]) key as) \<Longrightarrow> \<exists>a\<in>set as. x = g a"
proof -
  assume kv: "kv \<in> set (tally_by [] (\<lambda>r rs. rs @ [g r]) key as)" and x: "x \<in> set (snd kv)"
  then have "map_of (tally_by [] (\<lambda>r rs. rs @ [g r]) key as) (fst kv) = Some (snd kv)"
    by (simp add: tally_distinct map_of_eq_Some_iff)
  then have "snd kv = map g (filter (\<lambda>a. key a = fst kv) as)" by (auto simp: tally_lists Let_def split: if_splits)
  with x show ?thesis by auto
qed

lemma sum_sort_key: "sum_list (map f (sort_key k xs)) = sum_list (map f xs)" for f :: "'b \<Rightarrow> 'n::comm_monoid_add"
  by (metis mset_map mset_sort sum_mset_sum_list)

text \<open>Any total of the trades over the rows by structure.\<close>

lemma structures_sum:
  fixes q :: "instance_result \<Rightarrow> 'n::ab_group_add"
  assumes "compute_win_rate_by_structure w = (rows, Some all)"
    and one: "\<And>name rs. (\<And>r. r \<in> set rs \<Longrightarrow> in_cents (ir_net r)) \<Longrightarrow> tot (aggregate_win_rate_metrics name rs) = sum_list (map q rs)"
  shows "sum_list (map tot rows) = tot all"
proof -
  let ?active = "active_trades w"
  let ?costs = "batch_underlying_cost (wb_to_double w) (wb_book w) (map lt_trade ?active)"
  let ?res = "instance_result_of w ?costs (batch_max_risk (wb_read w) (map lt_trade ?active) ?costs)"
  let ?rows = "map (\<lambda>t. (structure_name t, ?res t)) ?active"
  let ?groups = "tally_by [] (\<lambda>r rs. rs @ [snd r]) fst ?rows"
  have rows: "rows = map (\<lambda>(name, rs). aggregate_win_rate_metrics name rs) (sort_key fst ?groups)"
    and all: "all = aggregate_win_rate_metrics ''All structures'' (map ?res ?active)"
    using assms(1) by (auto simp: compute_win_rate_by_structure_def Let_def comp_def split: if_splits)
  have cents: "in_cents (ir_net (?res t))" for t by (simp add: instance_result_of_def net_in_cents)
  have group: "tot (aggregate_win_rate_metrics (fst kv) (snd kv)) = sum_list (map q (snd kv))" if "kv \<in> set ?groups" for kv
  proof (rule one)
    fix r assume "r \<in> set (snd kv)"
    from grouped_in [OF this that] show "in_cents (ir_net r)" using cents by auto
  qed
  have "sum_list (map tot rows) = sum_list (map (\<lambda>kv. tot (aggregate_win_rate_metrics (fst kv) (snd kv))) ?groups)"
    unfolding rows by (simp add: comp_def case_prod_unfold sum_sort_key)
  also have "\<dots> = sum_list (map (\<lambda>kv. sum_list (map q (snd kv))) ?groups)"
    by (rule arg_cong [where f = sum_list], rule map_cong [OF refl]) (rule group)
  also have "\<dots> = sum_list (map (\<lambda>r. q (snd r)) ?rows)" by (rule grouped_sum)
  also have "\<dots> = sum_list (map q (map ?res ?active))" by (simp add: comp_def)
  also have "\<dots> = tot all" unfolding all by (rule one [symmetric]) (use cents in auto)
  finally show ?thesis .
qed

text \<open>
  C5. The win rate page accounts for every attributed fill: profits and losses of the row of all structures
  are the sums of the rows by structure, to the cent, as are the numbers of trades, and together they are the results of
  the attributed fills, half a cent a trade apart. The trades that have executions include every trade a fill is attributed to.
\<close>

theorem win_rate_accounts_for_the_fills:
  assumes "book_ok book" and "\<And>a. wb_answers w a" and "wb_read w = trade_fills book"
    and "distinct (map lt_trade (active_trades w))" and "\<And>e. e \<in> set book \<Longrightarrow> shared_by e \<subseteq> lt_trade ` set (active_trades w)"
    and "compute_win_rate_by_structure w = (rows, Some all)"
  shows "sum_list (map wr_profit rows) = wr_profit all \<and> sum_list (map lost rows) = lost all \<and>
    sum_list (map (\<lambda>r. int (wr_trades r)) rows) = int (wr_trades all) \<and>
    \<bar>wr_profit all + lost all - sum_list (map (net_of_fill (wb_links w)) (filter (\<lambda>e. shared_by e \<noteq> {}) book))\<bar> \<le> of_nat (wr_trades all) / 200"
proof -
  let ?ts = "map lt_trade (active_trades w)"
  let ?net = "\<lambda>t. compute_instance_exec_derived_net_pnl (wb_answers w) (wb_links w) (trade_fills book) (PInt t)"
  have parts: "sum_list (map wr_profit rows) = wr_profit all" "sum_list (map lost rows) = lost all"
    "sum_list (map (\<lambda>r. int (wr_trades r)) rows) = int (wr_trades all)"
    by (rule structures_sum [OF assms(6), of _ gain_of] structures_sum [OF assms(6), of _ loss_of]
        structures_sum [OF assms(6), of _ "\<lambda>_. 1"]; simp add: aggregate_sums sum_list_triv)+
  obtain res where all: "all = aggregate_win_rate_metrics ''All structures'' (map res (active_trades w))"
    and res: "\<And>t. ir_net (res t) = ?net (lt_trade t)"
    using assms(3,6) by (auto simp: compute_win_rate_by_structure_def instance_result_of_def Let_def comp_def split: if_splits)
  have cents: "in_cents (ir_net r)" if "r \<in> set (map res (active_trades w))" for r
    using that by (auto simp: res net_in_cents)
  have sums: "wr_profit all = sum_list (map gain_of (map res (active_trades w)))" "lost all = sum_list (map loss_of (map res (active_trades w)))"
    "wr_trades all = length (map res (active_trades w))"
    unfolding all by (rule aggregate_sums, erule cents)+
  have "wr_profit all + lost all = sum_list (map (\<lambda>t. gain_of t + loss_of t) (map res (active_trades w)))"
    unfolding sum_list_addf sums ..
  also have "\<dots> = sum_list (map ?net ?ts)" by (simp add: gain_loss res comp_def)
  finally show ?thesis
    using trade_results_sum [OF assms(1,2,4), where links = "wb_links w"] assms(5) parts by (simp add: sums(3))
qed

definition share_win :: win_book where
  "share_win = \<lparr>wb_trades = [\<lparr>lt_trade = 7, lt_executions = 2, lt_structure = Some ''Iron Condor''\<rparr>, \<lparr>lt_trade = 8, lt_executions = 1, lt_structure = None\<rparr>],
     wb_answers = (\<lambda>_. True), wb_links = share_links, wb_read = trade_fills share_book, wb_book = share_book, wb_to_double = (\<lambda>_. None)\<rparr>"

theorem win_rate_accounts_for_the_fills_witness:
  "\<exists>rows all. compute_win_rate_by_structure share_win = (rows, Some all) \<and> sum_list (map wr_profit rows) = wr_profit all \<and>
     \<bar>wr_profit all + lost all - 1598\<bar> \<le> of_nat (wr_trades all) / 200"
proof -
  have active: "map lt_trade (active_trades share_win) = [7, 8]" by code_simp
  then have "active_trades share_win \<noteq> []" by auto
  then obtain rows all where run: "compute_win_rate_by_structure share_win = (rows, Some all)"
    by (auto simp: compute_win_rate_by_structure_def Let_def)
  have "lt_trade ` set (active_trades share_win) = set [7, 8]" using active by (metis list.set_map)
  with win_rate_accounts_for_the_fills [OF share_book_ok(1) _ _ _ _ run] share_book_ok(2) share_book_net active run
  show ?thesis by (auto simp: share_win_def)
qed

section \<open>The largest loss\<close>

text \<open>What an option fill gives when it is held to expiry: its intrinsic value at the price, less what it cost.\<close>

definition at_expiry :: "rat \<Rightarrow> risk_leg \<Rightarrow> rat" where
  "at_expiry price l = ((if rl_right l = ''C'' then max (price - rl_strike l) 0 else max (rl_strike l - price) 0) * rl_qty l - rl_cost l) * 100"

definition held_to_expiry :: "risk_leg list \<Rightarrow> rat \<Rightarrow> rat" where
  "held_to_expiry ls price = sum_list (map (at_expiry price) ls)"

lemma risk_fill_leg:
  assumes "risk_fill e = Inr (Some l)"
  shows "0 < rl_strike l" and "rl_right l = ''C'' \<or> rl_right l = ''P''"
proof -
  have opt: "upper (or_blank (col e ''sec_type'')) = ''OPT''" using assms by (auto simp: risk_fill_def split: if_splits)
  then obtain s where s: "parse_opt_strike e = Inr s" using assms by (cases "parse_opt_strike e") (simp_all add: risk_fill_def)
  obtain k r where "s = Some k" and "parse_opt_right e = Some r" and "rl_strike l = k" "rl_right l = r"
    using assms by (cases s; cases "parse_opt_right e") (auto simp: risk_fill_def opt s Let_def split: if_splits)
  with s have "parse_opt_strike e = Inr (Some k)" and "parse_opt_right e = Some r" and "rl_strike l = k" "rl_right l = r" by simp_all
  then show "0 < rl_strike l" "rl_right l = ''C'' \<or> rl_right l = ''P''"
    by (auto simp: parse_opt_strike_def positive_float_def parse_opt_right_def Let_def split: if_splits option.splits sum.splits pyfloat.splits)
qed

text \<open>The option fills of a list of executions.\<close>

definition option_fills :: "exec_fill list \<Rightarrow> conv_err + risk_leg list" where
  "option_fills es = ebind (emap risk_fill es) (\<lambda>ls. Inr (List.map_filter id ls))"

lemma option_fills_legs: "option_fills es = Inr ls \<Longrightarrow> l \<in> set ls \<Longrightarrow> 0 < rl_strike l \<and> (rl_right l = ''C'' \<or> rl_right l = ''P'')"
proof -
  assume "option_fills es = Inr ls" and l: "l \<in> set ls"
  then obtain os where "list_all2 (\<lambda>e o'. risk_fill e = Inr o') es os" and ls: "ls = List.map_filter id os"
    by (auto simp: option_fills_def emap_Inr_iff)
  then have "\<exists>e. risk_fill e = Inr (Some l)"
    using l by (induction es os arbitrary: ls rule: list_all2_induct) (auto simp: map_filter_simps split: option.splits)
  then show ?thesis using risk_fill_leg by blast
qed

lemma risk_legs_eq: "risk_legs es = ebind (option_fills es) (\<lambda>ls. Inr (map (net_risk_leg \<circ> snd) (tally_by [] (\<lambda>l ls'. ls' @ [l]) risk_key ls)))"
  by (cases "emap risk_fill es") (simp_all add: risk_legs_def option_fills_def)

lemma key_parts:
  assumes "rl_right l = ''C'' \<or> rl_right l = ''P''" and "rl_right l' = ''C'' \<or> rl_right l' = ''P''" and "risk_key l = risk_key l'"
  shows "rl_right l = rl_right l'" and "float_repr (Fin (rl_strike l)) = float_repr (Fin (rl_strike l'))"
  using assms by (auto simp: risk_key_def)

text \<open>The fills of a strike and right give together what their net gives.\<close>

lemma at_expiry_group:
  assumes "ls \<noteq> []" and "\<And>l. l \<in> set ls \<Longrightarrow> rl_strike l = rl_strike (hd ls) \<and> rl_right l = rl_right (hd ls)"
  shows "at_expiry price (net_risk_leg ls) = sum_list (map (at_expiry price) ls)"
proof -
  let ?v = "if rl_right (hd ls) = ''C'' then max (price - rl_strike (hd ls)) 0 else max (rl_strike (hd ls) - price) 0"
  have eq: "map (at_expiry price) ls = map (\<lambda>l. (?v * rl_qty l - rl_cost l) * 100) ls"
    by (rule map_cong [OF refl]) (use assms(2) in \<open>simp add: at_expiry_def\<close>)
  have sums: "sum_list (map (\<lambda>l. (v * rl_qty l - rl_cost l) * 100) xs) = (v * sum_list (map rl_qty xs) - sum_list (map rl_cost xs)) * 100" for v xs
    by (induction xs) (simp_all add: algebra_simps)
  show ?thesis unfolding eq sums by (simp add: at_expiry_def net_risk_leg_def)
qed

lemma held_net:
  assumes "option_fills es = Inr ls" and "risk_legs es = Inr nets" and "inj_on (\<lambda>k. float_repr (Fin k)) (rl_strike ` set ls)"
  shows "held_to_expiry nets price = held_to_expiry ls price"
    and "n \<in> set nets \<Longrightarrow> 0 < rl_strike n"
proof -
  let ?groups = "tally_by [] (\<lambda>l ls'. ls' @ [l]) risk_key ls"
  have nets: "nets = map (net_risk_leg \<circ> snd) ?groups" using assms(1,2) by (simp add: risk_legs_eq)
  have group: "snd kv \<noteq> [] \<and> set (snd kv) \<subseteq> set ls \<and> (\<forall>l\<in>set (snd kv). rl_strike l = rl_strike (hd (snd kv)) \<and> rl_right l = rl_right (hd (snd kv)))"
    if "kv \<in> set ?groups" for kv
  proof -
    have "map_of ?groups (fst kv) = Some (snd kv)" using that by (simp add: tally_distinct map_of_eq_Some_iff)
    then have kv: "snd kv = filter (\<lambda>l. risk_key l = fst kv) ls" "snd kv \<noteq> []"
      using tally_lists [of "\<lambda>l. l" risk_key ls "fst kv"] by (auto simp: Let_def split: if_splits)
    have hd: "hd (snd kv) \<in> set (snd kv)" using kv(2) by simp
    have all: "x \<in> set ls \<and> risk_key x = fst kv" if "x \<in> set (snd kv)" for x using that by (subst (asm) kv(1)) simp
    have "rl_strike l = rl_strike (hd (snd kv)) \<and> rl_right l = rl_right (hd (snd kv))" if "l \<in> set (snd kv)" for l
    proof -
      have mem: "l \<in> set ls" "hd (snd kv) \<in> set ls" and key: "risk_key l = risk_key (hd (snd kv))" using all [OF that] all [OF hd] by simp_all
      note parts = key_parts [OF conjunct2 [OF option_fills_legs [OF assms(1) mem(1)]] conjunct2 [OF option_fills_legs [OF assms(1) mem(2)]] key]
      have "rl_strike l = rl_strike (hd (snd kv))" by (rule inj_onD [OF assms(3) parts(2)]) (use mem in simp_all)
      with parts(1) show ?thesis by simp
    qed
    moreover have "set (snd kv) \<subseteq> set ls" using kv(1) by (metis filter_is_subset)
    ultimately show ?thesis using kv(2) by blast
  qed
  have one: "at_expiry price (net_risk_leg (snd kv)) = sum_list (map (at_expiry price) (snd kv))" if "kv \<in> set ?groups" for kv
    by (rule at_expiry_group) (use group [OF that] in blast)+
  have "sum_list (map (at_expiry price) nets) = sum_list (map (\<lambda>kv. sum_list (map (at_expiry price) (snd kv))) ?groups)"
    unfolding nets map_map comp_def
    by (rule arg_cong [where f = sum_list], rule map_cong [OF refl], rule one)
  then show "held_to_expiry nets price = held_to_expiry ls price"
    using grouped_sum [of "at_expiry price" "\<lambda>l. l" risk_key ls] by (simp add: held_to_expiry_def)
  assume "n \<in> set nets"
  then obtain kv where "kv \<in> set ?groups" and n: "n = net_risk_leg (snd kv)" by (auto simp: nets)
  with group have "hd (snd kv) \<in> set ls" by (metis hd_in_set subsetD)
  with option_fills_legs [OF assms(1)] show "0 < rl_strike n" by (simp add: n net_risk_leg_def)
qed

text \<open>The net of a strike as the page takes it: whole contracts, at the size of the average cost.\<close>

definition priced_net :: "risk_leg \<Rightarrow> risk_leg option" where
  "priced_net l = (let n = round_half_even (rl_qty l)
     in if n = 0 then None else Some (l\<lparr>rl_qty := of_int n, rl_cost := \<bar>rl_cost l / rl_qty l\<bar> * of_int n\<rparr>))"

lemma priced_position:
  "case priced_net l of None \<Rightarrow> risk_position_of l = None
   | Some q \<Rightarrow> \<exists>p. risk_position_of l = Some p \<and> rp_strike p = rl_strike l \<and> (\<forall>x. leg_payoff x p = at_expiry x q)"
proof (cases "round_half_even (rl_qty l) = 0")
  case True
  then show ?thesis by (simp add: priced_net_def risk_position_of_def)
next
  case False
  let ?n = "round_half_even (rl_qty l)"
  have "1 \<le> \<bar>of_int ?n :: rat\<bar>" using False by simp
  then have "1/2 \<le> \<bar>rl_qty l\<bar>" using round_half_even_close [of "rl_qty l"] by linarith
  then have "NET_QTY_EPS < \<bar>rl_qty l\<bar>" by (simp add: NET_QTY_EPS_def)
  then have pos: "risk_position_of l = Some \<lparr>rp_strike = rl_strike l, rp_right = rl_right l, rp_qty = ?n, rp_avg_cost = \<bar>rl_cost l / rl_qty l\<bar>, rp_expiry = None\<rparr>"
    using False by (simp add: risk_position_of_def Let_def del: abs_divide)
  show ?thesis
    using False unfolding priced_net_def Let_def pos
    by (simp add: leg_payoff_eq at_expiry_def intrinsic_def is_call_def left_diff_distrib del: abs_divide)
qed

lemma priced_payoff:
  shows "payoff (List.map_filter risk_position_of nets) 0 None x = held_to_expiry (List.map_filter priced_net nets) x"
    and "List.map_filter risk_position_of nets = [] \<longleftrightarrow> List.map_filter priced_net nets = []"
    and "p \<in> set (List.map_filter risk_position_of nets) \<Longrightarrow> \<exists>l\<in>set nets. rp_strike p = rl_strike l"
proof -
  have "payoff_options_at_price (List.map_filter risk_position_of nets) x = sum_list (map (at_expiry x) (List.map_filter priced_net nets))"
  proof (induction nets)
    case (Cons l nets)
    then show ?case using priced_position [of l]
      by (auto simp: payoff_options_at_price_def map_filter_simps split: option.splits)
  qed (simp add: payoff_options_at_price_def map_filter_simps)
  then show "payoff (List.map_filter risk_position_of nets) 0 None x = held_to_expiry (List.map_filter priced_net nets) x"
    by (simp add: payoff_def payoff_stock_at_price_def held_to_expiry_def)
  show "List.map_filter risk_position_of nets = [] \<longleftrightarrow> List.map_filter priced_net nets = []"
  proof (induction nets)
    case (Cons l nets)
    then show ?case using priced_position [of l] by (auto simp: map_filter_simps split: option.splits)
  qed (simp add: map_filter_simps)
  show "p \<in> set (List.map_filter risk_position_of nets) \<Longrightarrow> \<exists>l\<in>set nets. rp_strike p = rl_strike l"
  proof (induction nets)
    case (Cons l nets)
    then show ?case using priced_position [of l] by (auto simp: map_filter_simps split: option.splits)
  qed (simp add: map_filter_simps)
qed

text \<open>A whole net whose cost has its sign, and a strike closed flat, whose cash stays whatever the price.\<close>

definition plain_net :: "risk_leg \<Rightarrow> bool" where
  "plain_net l \<longleftrightarrow> rl_qty l \<noteq> 0 \<and> rl_qty l = of_int (round_half_even (rl_qty l)) \<and> 0 \<le> rl_cost l / rl_qty l"

definition closed_cash :: "risk_leg list \<Rightarrow> rat" where
  "closed_cash nets = sum_list (map (\<lambda>l. - rl_cost l * 100) (filter (\<lambda>l. rl_qty l = 0) nets))"

lemma plain_is_priced: "plain_net l \<Longrightarrow> priced_net l = Some l"
  by (cases l) (auto simp: plain_net_def priced_net_def Let_def abs_of_nonneg simp del: abs_divide)

lemma flat_is_dropped: "rl_qty l = 0 \<Longrightarrow> priced_net l = None"
  by (simp add: priced_net_def round_half_even_def)

lemma flat_cash: "rl_qty l = 0 \<Longrightarrow> at_expiry x l = - rl_cost l * 100"
  by (simp add: at_expiry_def)

lemma priced_nets_hold:
  assumes "\<forall>l\<in>set nets. rl_qty l = 0 \<or> plain_net l"
  shows "held_to_expiry (List.map_filter priced_net nets) x = held_to_expiry nets x - closed_cash nets"
  using assms
proof (induction nets)
  case (Cons l nets)
  then have IH: "held_to_expiry (List.map_filter priced_net nets) x = held_to_expiry nets x - closed_cash nets" by simp
  from Cons.prems consider "rl_qty l = 0" | "plain_net l" by auto
  then show ?case
  proof cases
    case 1
    with IH show ?thesis by (simp add: flat_is_dropped map_filter_simps held_to_expiry_def closed_cash_def flat_cash)
  next
    case 2
    moreover from this have "rl_qty l \<noteq> 0" by (simp add: plain_net_def)
    ultimately show ?thesis using IH by (simp add: plain_is_priced map_filter_simps held_to_expiry_def closed_cash_def)
  qed
qed (simp add: map_filter_simps held_to_expiry_def closed_cash_def)

text \<open>
  C8. The largest loss shown for a trade is the worst that its strikes can give when held to expiry, over every
  price from zero up, rounded to cents, each strike taken as the page takes it: its net rounded to whole contracts,
  at the absolute average cost (\<open>priced_net\<close>). Where that loss has no bound, or there is none, the cost of
  the shares is shown. When every strike is closed flat or nets to a whole number of contracts whose cost has its
  sign, this is what the trade's own option fills give, less the cash of the strikes closed flat. Strikes have
  different texts.
\<close>

theorem max_risk_is_the_worst_expiry:
  assumes "option_fills (slices_of read t) = Inr ls" and "inj_on (\<lambda>k. float_repr (Fin k)) (rl_strike ` set ls)"
    and "risk_legs (slices_of read t) = Inr nets"
  shows "let held = held_to_expiry (List.map_filter priced_net nets) in
    (falls_without_end held \<and> max_risk_for read costs t = round2 (max 0 (cost_for costs t)) \<or>
     (\<exists>m. floor_of held m \<and>
       max_risk_for read costs t = (if round2 m < 0 then - round2 m else round2 (max 0 (cost_for costs t))))) \<and>
    ((\<forall>l\<in>set nets. rl_qty l = 0 \<or> plain_net l) \<longrightarrow> (\<forall>x. held x = held_to_expiry ls x - closed_cash nets))"
proof -
  let ?ps = "List.map_filter risk_position_of nets"
  define held where "held = held_to_expiry (List.map_filter priced_net nets)"
  have same: "held x = held_to_expiry ls x - closed_cash nets" if "\<forall>l\<in>set nets. rl_qty l = 0 \<or> plain_net l" for x
    using priced_nets_hold [OF that] held_net(1) [OF assms(1,3,2)] by (simp add: held_def)
  have "falls_without_end held \<and> max_risk_for read costs t = round2 (max 0 (cost_for costs t)) \<or>
    (\<exists>m. floor_of held m \<and>
       max_risk_for read costs t = (if round2 m < 0 then - round2 m else round2 (max 0 (cost_for costs t))))"
  proof (cases "?ps = []")
    case True
    have risk: "max_risk_for read costs t = round2 (max 0 (cost_for costs t))"
      by (simp add: max_risk_for_def instance_max_risk_from_executions_def assms(3) True Let_def)
    have "List.map_filter priced_net nets = []" using True priced_payoff(2) by blast
    then have "floor_of held 0" by (auto simp: held_def held_to_expiry_def floor_of_def)
    with risk show ?thesis by (intro disjI2 exI [of _ 0]) (simp add: round2_def round_half_even_def)
  next
    case ps: False
    have strikes: "\<forall>p\<in>set ?ps. 0 \<le> rp_strike p"
      using priced_payoff(3) held_net(2) [OF assms(1,3,2)] by (metis less_imp_le)
    have pay: "payoff ?ps 0 None = held" by (rule ext) (simp add: priced_payoff(1) held_def)
    have modelled: "modelled ?ps 0 None" using ps strikes by (simp add: modelled_def)
    have risk: "max_risk_for read costs t = (case pr_max_loss (compute_risk_profile ?ps 0 None) of
        Some m \<Rightarrow> round2 (if m < 0 then \<bar>m\<bar> else max 0 (cost_for costs t)) | None \<Rightarrow> round2 (max 0 (cost_for costs t)))"
      by (simp add: max_risk_for_def instance_max_risk_from_executions_def assms(3) ps Let_def split: option.splits)
    show ?thesis
      using envelope_loss [OF modelled] profile_fields(1) [OF ps, of 0 None] round2_neg_cents
      by (cases "ev_max_loss (compute_envelope ?ps 0 None)") (auto simp: pay risk)
  qed
  with same show ?thesis unfolding Let_def held_def [symmetric] by blast
qed

definition put_fill :: "int \<Rightarrow> string \<Rightarrow> rat \<Rightarrow> rat \<Rightarrow> exec_fill" where
  "put_fill i side q price = \<lparr>ef_cols = [(''account_executions_id'', PInt i), (''account_id'', PStr ''U1''), (''sec_type'', PStr ''OPT''),
     (''contract_key'', PStr ''NVDA|OPT|20261016|10|P''), (''strike'', PInt 10), (''option_right'', PStr ''P''), (''side'', PStr side),
     (''quantity'', PFloat (Fin q)), (''price'', PFloat (Fin price)), (''commission'', PFloat (Fin 1)), (''trade_id'', PInt 7)], ef_splits = []\<rparr>"

definition put_leg :: "rat \<Rightarrow> rat \<Rightarrow> risk_leg" where
  "put_leg q cost = \<lparr>rl_strike = 10, rl_right = ''P'', rl_qty = q, rl_cost = cost\<rparr>"

lemma put_reads:
  "option_fills (slices_of (\<lambda>_. [put_fill 1 ''SLD'' 3 2, put_fill 2 ''BOT'' 1 (1/2)]) 7) = Inr [put_leg (- 3) (- 6), put_leg 1 (1/2)]"
  "risk_legs (slices_of (\<lambda>_. [put_fill 1 ''SLD'' 3 2, put_fill 2 ''BOT'' 1 (1/2)]) 7) = Inr [put_leg (- 2) (- 11/2)]"
  "max_risk_for (\<lambda>_. [put_fill 1 ''SLD'' 3 2, put_fill 2 ''BOT'' 1 (1/2)]) [] 7 = 1450"
  by code_simp+

theorem max_risk_is_the_worst_expiry_witness:
  "\<exists>m. floor_of (held_to_expiry [put_leg (- 3) (- 6), put_leg 1 (1/2)]) m \<and> - round2 m = 1450"
proof -
  let ?held = "held_to_expiry (List.map_filter priced_net [put_leg (- 2) (- 11/2)])"
  have plain: "\<forall>l\<in>set [put_leg (- 2) (- 11/2)]. rl_qty l = 0 \<or> plain_net l" and cash: "closed_cash [put_leg (- 2) (- 11/2)] = 0"
    and cost: "round2 (max 0 (cost_for [] 7)) = 0" by code_simp+
  have strikes: "inj_on (\<lambda>k. float_repr (Fin k)) (rl_strike ` set [put_leg (- 3) (- 6), put_leg 1 (1/2)])"
    by (simp add: put_leg_def)
  note c = max_risk_is_the_worst_expiry [OF put_reads(1) strikes put_reads(2), of "[]", unfolded Let_def put_reads(3) cost]
  have "?held = held_to_expiry [put_leg (- 3) (- 6), put_leg 1 (1/2)]"
    by (rule ext) (use mp [OF conjunct2 [OF c] plain] cash in simp)
  moreover obtain m where "floor_of ?held m" "1450 = (if round2 m < 0 then - round2 m else 0)"
    using conjunct1 [OF c] by auto
  ultimately show ?thesis by (metis zero_neq_numeral)
qed

text \<open>A short put whose net is a debit: bought back dearer than the rest was sold.\<close>

lemma floor_unique: "floor_of f l \<Longrightarrow> floor_of f m \<Longrightarrow> l = m"
  by (auto simp: floor_of_def intro: antisym)

lemma put_floor:
  assumes "0 \<le> strike" and "\<And>x. f x = (max (strike - x) 0 * q - cost) * 100" and "q \<le> 0"
  shows "floor_of f ((strike * q - cost) * 100)"
proof -
  have "strike * q \<le> max (strike - x) 0 * q" if "0 \<le> x" for x
    using assms(1,3) that by (intro mult_right_mono_neg) auto
  moreover have "f 0 = (strike * q - cost) * 100" using assms(1) by (simp add: assms(2) max_def)
  ultimately show ?thesis unfolding floor_of_def assms(2) by (intro conjI exI [of _ 0]) (simp_all add: assms(2) max_def)
qed

text \<open>
  A net short put bought back dearer than it was sold shows too small a largest loss: the cost of its net is a
  debit, \<open>abs\<close> makes it a credit, and the loss shown is twice the debit short of the worst result.
\<close>

theorem debit_understates_max_risk:
  assumes "risk_legs (slices_of read t) = Inr [n]" and "rl_right n = ''P''" and "0 < rl_strike n"
    and "rl_qty n = - of_int k" and "0 < k" and "0 < rl_cost n" and "rl_cost n + 1 \<le> of_int k * rl_strike n"
  shows "floor_of (held_to_expiry [n]) (- ((of_int k * rl_strike n + rl_cost n) * 100)) \<and>
    max_risk_for read costs t = - round2 (- ((of_int k * rl_strike n - rl_cost n) * 100))"
proof -
  let ?p = "\<lparr>rp_strike = rl_strike n, rp_right = ''P'', rp_qty = - k, rp_avg_cost = rl_cost n / of_int k, rp_expiry = None\<rparr>"
  let ?loss = "(rl_strike n * - of_int k - - rl_cost n) * 100"
  have "round_half_even (- of_int k) = - k" using round_half_even_int [of "- k"] by simp
  moreover have "NET_QTY_EPS < of_int k" using assms(5) by (simp add: NET_QTY_EPS_def less_le_trans [of _ 1])
  ultimately have pos: "risk_position_of n = Some ?p"
    using assms(2,4-6) by (simp add: risk_position_of_def Let_def)
  have worst: "floor_of (held_to_expiry [n]) ((rl_strike n * - of_int k - rl_cost n) * 100)"
    by (rule put_floor) (use assms in \<open>simp_all add: held_to_expiry_def at_expiry_def\<close>)
  have "floor_of (payoff [?p] 0 None) ?loss"
    by (rule put_floor) (use assms in \<open>simp_all add: payoff_def payoff_options_at_price_def payoff_stock_at_price_def leg_payoff_eq intrinsic_def is_call_def field_simps\<close>)
  moreover have "modelled [?p] 0 None" using assms(3) by (simp add: modelled_def)
  moreover have "ev_max_loss (compute_envelope [?p] 0 None) \<noteq> None"
    by (simp add: compute_envelope_def unlimited_downside_def net_short_call_def net_long_call_def is_call_def Let_def)
  ultimately have "ev_max_loss (compute_envelope [?p] 0 None) = Some ?loss"
    using envelope_loss [of "[?p]" 0 None] floor_unique by (auto split: option.splits)
  then have risk: "pr_max_loss (compute_risk_profile [?p] 0 None) = Some (round2 ?loss)"
    by (simp add: profile_fields(1))
  have "?loss \<le> - 100" using assms(7) by (simp add: algebra_simps)
  then have "round2 ?loss \<le> round2 (- 100)" by (rule round2_mono)
  also have "round2 (- 100) = - 100" by code_simp
  finally have neg: "round2 ?loss < 0" by simp
  have "max_risk_for read costs t = - round2 ?loss"
    using neg by (simp add: max_risk_for_def instance_max_risk_from_executions_def assms(1) map_filter_simps pos risk round2_neg_cents Let_def)
  moreover have "(rl_strike n * - of_int k - rl_cost n) * 100 = - ((of_int k * rl_strike n + rl_cost n) * 100)"
    and "?loss = - ((of_int k * rl_strike n - rl_cost n) * 100)" by (simp_all add: algebra_simps)
  ultimately show ?thesis using worst by (simp add: mult.commute [of "rl_strike n"])
qed

theorem debit_understates_max_risk_witness:
  "max_risk_for (\<lambda>_. [put_fill 1 ''SLD'' 2 1, put_fill 2 ''BOT'' 1 5]) [] 7 = 700 \<and> floor_of (held_to_expiry [put_leg (- 1) 3]) (- 1300)"
proof -
  have "risk_legs (slices_of (\<lambda>_. [put_fill 1 ''SLD'' 2 1, put_fill 2 ''BOT'' 1 5]) 7) = Inr [put_leg (- 1) 3]"
    and "- round2 (- ((of_int 1 * rl_strike (put_leg (- 1) 3) - rl_cost (put_leg (- 1) 3)) * 100)) = 700" by code_simp+
  then show ?thesis using debit_understates_max_risk [of _ 7 "put_leg (- 1) 3" 1 "[]"] by (simp add: put_leg_def)
qed

end
