(* ===== verification/Trades.thy ===== *)
theory Trades
  imports Fills
begin

text \<open>
  The writers of trades (\<open>monitor/reader/strategy_instance.py\<close>) and of their reviews
  (\<open>monitor/reader/trade_review.py\<close>) on the tables of one environment, with the foreign keys of
  \<open>persistence/postgres/trade_ddl.py\<close>. Plans and attributions are here for what they refer to: a plan
  is its trade, an attribution its row.
\<close>

section \<open>Tables\<close>

record opp_info =
  oi_name :: string
  oi_structure :: "(int \<times> string) option"

record trade_rec =
  td_opp :: int
  td_account :: string
  td_opened :: datetime
  td_label :: "string option"
  td_created :: datetime
  td_updated :: datetime

text \<open>The tags are JSON values; the writers store lists of texts.\<close>

record review_rec =
  rv_id :: int
  rv_added :: pyval
  rv_dropped :: pyval
  rv_reviewed :: "datetime option"
  rv_created :: datetime
  rv_updated :: datetime

record trade_db =
  td_opps :: "(int \<times> opp_info) list"
  td_rows :: "(int \<times> trade_rec) list"
  next_td :: int
  td_plans :: "(int \<times> int option) list"
  td_fills :: "attribution list"
  td_reviews :: "(int \<times> review_rec) list"
  next_review :: int

section \<open>Statements\<close>

definition trade_violation :: "trade_db \<Rightarrow> trade_rec \<Rightarrow> exc option" where
  "trade_violation db r = (if map_of (td_opps db) (td_opp r) = None
     then Some (ForeignKeyViolation (None, Some ''trade_strategy_opportunity_id_fkey'')) else None)"

definition insert_trade :: "trade_rec \<Rightarrow> (trade_db, int) tx" where
  "insert_trade r = stmt (\<lambda>db. checked (trade_violation db r)
     (next_td db, db\<lparr>td_rows := td_rows db @ [(next_td db, r)], next_td := next_td db + 1\<rparr>))"

definition update_trade :: "int \<Rightarrow> (trade_rec \<Rightarrow> trade_rec) \<Rightarrow> (trade_db, int) tx" where
  "update_trade t f = stmt (\<lambda>db. case map_of (td_rows db) t of
       None \<Rightarrow> Inr (0, db)
     | Some r \<Rightarrow> Inr (1, db\<lparr>td_rows := put_assoc t (f r) (td_rows db)\<rparr>))"

text \<open>What still refers to a trade: every reference is \<open>ON DELETE RESTRICT\<close>.\<close>

definition referrer :: "trade_db \<Rightarrow> int \<Rightarrow> string option" where
  "referrer db t =
     (if list_ex (\<lambda>a. te_trade a = t) (td_fills db) then Some ''trade_execution_trade_fk''
      else if list_ex (\<lambda>p. snd p = Some t) (td_plans db) then Some ''strategy_plan_trade_id_fkey''
      else if map_of (td_reviews db) t \<noteq> None then Some ''trade_review_trade_id_fkey''
      else None)"

definition delete_trade_row :: "int \<Rightarrow> (trade_db, int) tx" where
  "delete_trade_row t = stmt (\<lambda>db.
     if map_of (td_rows db) t = None then Inr (0, db)
     else checked (map_option (\<lambda>c. ForeignKeyViolation (None, Some c)) (referrer db t))
            (1, db\<lparr>td_rows := filter (\<lambda>r. fst r \<noteq> t) (td_rows db)\<rparr>))"

definition trade_exists :: "int \<Rightarrow> (trade_db, bool) tx" where
  "trade_exists t = query (\<lambda>db. map_of (td_rows db) t \<noteq> None)"

section \<open>Reading a trade\<close>

definition epoch_of :: "datetime \<Rightarrow> pyval" where
  "epoch_of t = PFloat (Fin (of_int (instant t) / 1000000))"

definition trade_out :: "trade_db \<Rightarrow> int \<Rightarrow> trade_rec \<Rightarrow> pydict" where
  "trade_out db t r =
     (let o' = map_of (td_opps db) (td_opp r); st = (case o' of None \<Rightarrow> None | Some i \<Rightarrow> oi_structure i)
      in [(''trade_id'', PInt t), (''strategy_opportunity_id'', PInt (td_opp r)), (''account_id'', PStr (td_account r)),
          (''opened_at'', PDatetime (td_opened r)), (''label'', (case td_label r of None \<Rightarrow> PNone | Some l \<Rightarrow> PStr l)),
          (''created_at'', PDatetime (td_created r)), (''updated_at'', PDatetime (td_updated r)),
          (''strategy_opportunity_name'', (case o' of None \<Rightarrow> PNone | Some i \<Rightarrow> PStr (oi_name i))),
          (''strategy_structure_id'', (case st of None \<Rightarrow> PNone | Some s \<Rightarrow> PInt (fst s))),
          (''strategy_structure_name'', (case st of None \<Rightarrow> PNone | Some s \<Rightarrow> PStr (snd s))),
          (''opened_at_epoch'', epoch_of (td_opened r)), (''created_at_epoch'', epoch_of (td_created r))])"

definition get_instance_by_id :: "int \<Rightarrow> (trade_db, pydict option) tx" where
  "get_instance_by_id t = try_query (\<lambda>db. map_option (trade_out db t) (map_of (td_rows db) t))"

definition read_back :: "string \<Rightarrow> int \<Rightarrow> (trade_db, pydict) tx" where
  "read_back msg t = tx_bind (get_instance_by_id t) (\<lambda>r. case r of
       None \<Rightarrow> tx_raise (Write (Failed msg False))
     | Some row \<Rightarrow> tx_return row)"

section \<open>Opening and changing a trade\<close>

text \<open>The validated arguments: opportunity, account, time and label.\<close>

definition create_instance_args :: "pyval \<Rightarrow> pyval \<Rightarrow> pyval \<Rightarrow> pyval \<Rightarrow> exc + (int \<times> string \<times> datetime \<times> string option)" where
  "create_instance_args opp account opened label =
     ebind (row_id opp ''strategy_opportunity_id'' False) (\<lambda>o'.
     ebind (text_value account ''account_id'' False None) (\<lambda>acc.
     ebind (timestamp opened ''opened_at'' False) (\<lambda>t.
     ebind (text_value label ''label'' True None) (\<lambda>l. Inr (the o', the acc, the t, l)))))"

definition create_instance_body :: "env \<Rightarrow> int \<times> string \<times> datetime \<times> string option \<Rightarrow> (trade_db, pydict) tx" where
  "create_instance_body env args = (case args of (o', acc, t, l) \<Rightarrow>
     tx_bind (query (\<lambda>db. map_of (td_opps db) o' \<noteq> None)) (\<lambda>found.
     if \<not> found then tx_raise (Write (Invalid (''No strategy opportunity '' @ int_str o' @ ''; a trade opens under an existing one.'')))
     else tx_bind (insert_trade \<lparr>td_opp = o', td_account = acc, td_opened = t, td_label = l,
            td_created = Aware (now env), td_updated = Aware (now env)\<rparr>)
          (read_back ''the trade was written but could not be read back; nothing was saved.'')))"

definition create_instance_strict :: "env \<Rightarrow> conn_arg \<Rightarrow> pyval \<Rightarrow> pyval \<Rightarrow> pyval \<Rightarrow> pyval \<Rightarrow> trade_db \<Rightarrow> (exc + pydict) \<times> trade_db" where
  "create_instance_strict env arg opp account opened label db =
     (case create_instance_args opp account opened label of
        Inl e \<Rightarrow> (Inl e, db)
      | Inr args \<Rightarrow> raising (strict_write ''the trade'' FkInvalid (create_instance_body env args) env arg db))"

definition INSTANCE_PATCHABLE :: "string list" where
  "INSTANCE_PATCHABLE = [''label'', ''opened_at'', ''created_at'']"

definition NOTES_RETIRED :: string where
  "NOTES_RETIRED = ''notes was removed in core 0.43.0 (TD-73): a trade's notes live in the Research journal (POST /research/journal/notes with a ref of type 'trade').''"

definition has_key :: "string \<Rightarrow> pyval \<Rightarrow> bool" where
  "has_key k v = (case v of PDict d \<Rightarrow> dhas d k | _ \<Rightarrow> False)"

text \<open>The columns to set: label, opened, created.\<close>

definition patch_instance_columns :: "pyval \<Rightarrow> exc + (string option option \<times> datetime option option \<times> datetime option option)" where
  "patch_instance_columns body =
     (if has_key ''notes'' body then invalid NOTES_RETIRED
      else ebind (check_fields body INSTANCE_PATCHABLE ''trade'') (\<lambda>fs.
           ebind (sent_field fs ''label'' (\<lambda>v. text_value v ''label'' True None)) (\<lambda>l.
           ebind (sent_field fs ''opened_at'' (\<lambda>v. timestamp v ''opened_at'' False)) (\<lambda>op.
           ebind (sent_field fs ''created_at'' (\<lambda>v. timestamp v ''created_at'' False)) (\<lambda>cr. Inr (l, op, cr))))))"

definition patched_trade :: "env \<Rightarrow> string option option \<times> datetime option option \<times> datetime option option \<Rightarrow> trade_rec \<Rightarrow> trade_rec" where
  "patched_trade env cols r = (case cols of (l, op, cr) \<Rightarrow>
     r\<lparr>td_label := (case l of None \<Rightarrow> td_label r | Some x \<Rightarrow> x),
       td_opened := (case op of Some (Some x) \<Rightarrow> x | _ \<Rightarrow> td_opened r),
       td_created := (case cr of Some (Some x) \<Rightarrow> x | _ \<Rightarrow> td_created r),
       td_updated := Aware (now env)\<rparr>)"

definition no_trade :: "int \<Rightarrow> (trade_db, 'a) tx" where
  "no_trade t = tx_raise (Write (NotFound (''No trade '' @ int_str t @ ''.'')))"

definition patch_instance_body :: "env \<Rightarrow> int \<Rightarrow> string option option \<times> datetime option option \<times> datetime option option \<Rightarrow> (trade_db, pydict) tx" where
  "patch_instance_body env t cols = tx_bind (update_trade t (patched_trade env cols)) (\<lambda>n.
     if n = 0 then no_trade t
     else read_back (''trade '' @ int_str t @ '' was changed but could not be read back; nothing was saved.'') t)"

definition patch_instance :: "env \<Rightarrow> conn_arg \<Rightarrow> int \<Rightarrow> pyval \<Rightarrow> trade_db \<Rightarrow> (exc + pydict) \<times> trade_db" where
  "patch_instance env arg t body db = (case patch_instance_columns body of
       Inl e \<Rightarrow> (Inl e, db)
     | Inr cols \<Rightarrow> raising (strict_write (''trade '' @ int_str t) FkInvalid (patch_instance_body env t cols) env arg db))"

section \<open>Deleting a trade\<close>

definition attributed_counts :: "int \<Rightarrow> (trade_db, int \<times> int) tx" where
  "attributed_counts t = query (\<lambda>db. let mine = filter (\<lambda>a. te_trade a = t) (td_fills db)
     in (int (length (filter (\<lambda>a. te_split a = None) mine)), int (length (filter (\<lambda>a. te_split a \<noteq> None) mine))))"

definition plan_and_review_counts :: "int \<Rightarrow> (trade_db, int \<times> int) tx" where
  "plan_and_review_counts t = query (\<lambda>db.
     (int (length (filter (\<lambda>p. snd p = Some t) (td_plans db))), int (length (filter (\<lambda>r. fst r = t) (td_reviews db)))))"

definition count_attributed_executions :: "env \<Rightarrow> conn_arg \<Rightarrow> int \<Rightarrow> trade_db \<Rightarrow> write_error + int" where
  "count_attributed_executions env arg t db =
     fst (write_connection env arg False (''the fills attributed to trade '' @ int_str t)
       (\<lambda>s. case attributed_counts t env (s, 0) of
            (Inl e, _) \<Rightarrow> (Inl (Failed (''Could not read the fills attributed to trade '' @ int_str t @ ''; nothing was deleted.'') False), s)
          | (Inr n, _) \<Rightarrow> (Inr (fst n), s)) db)"

definition held_by :: "int \<Rightarrow> int \<Rightarrow> string" where
  "held_by plans reviews = join '' and ''
     ((if plans \<noteq> 0 then [plural plans ''plan was'' ''plans were'' @ '' filled by it''] else []) @
      (if reviews \<noteq> 0 then [''it has a review''] else []))"

definition delete_instance_body :: "int \<Rightarrow> (trade_db, unit) tx" where
  "delete_instance_body t = tx_bind (trade_exists t) (\<lambda>found.
     if \<not> found then no_trade t
     else tx_bind (attributed_counts t) (\<lambda>(direct, split).
       if split \<noteq> 0 then tx_raise (Write (Conflict (plural split ''fill is'' ''fills are'' @ '' split to this trade; move or clear those splits first.'')))
       else if direct \<noteq> 0 then tx_raise (Write (Conflict (plural direct ''fill is'' ''fills are'' @ '' attributed to this trade.'')))
       else tx_bind (plan_and_review_counts t) (\<lambda>(np, nr).
         if np \<noteq> 0 \<or> nr \<noteq> 0 then tx_raise (Write (Conflict (''Cannot delete instance '' @ int_str t @ '': '' @ held_by np nr @ ''.'')))
         else tx_bind (delete_trade_row t) (\<lambda>n. if n = 0 then no_trade t else tx_return ()))))"

definition delete_instance_strict :: "env \<Rightarrow> pydict option \<Rightarrow> int \<Rightarrow> trade_db \<Rightarrow> (exc + pydict) \<times> trade_db" where
  "delete_instance_strict env cfg t db = (case cfg of
       None \<Rightarrow> (Inl (Write (Failed (''Cannot delete trade '' @ int_str t @ '': the status config is needed to open its database.'') False)), db)
     | Some c \<Rightarrow> (case strict_write (''trade '' @ int_str t) FkConflict (delete_instance_body t) env (ConnConfig c) db of
           (Inl e, s) \<Rightarrow> (Inl (Write e), s)
         | (Inr _, s) \<Rightarrow> (Inr [(''deleted'', PStr ''hard''), (''trade_id'', PInt t)], s)))"

section \<open>Reviews\<close>

definition TAG_MAX :: nat where "TAG_MAX = 40"

definition TAG_LEN_MAX :: nat where "TAG_LEN_MAX = 60"

text \<open>The elements of an iterable: of a text its characters, of an object its keys.\<close>

definition elements :: "pyval \<Rightarrow> exc + pyval list" where
  "elements v = (case v of
       PList xs \<Rightarrow> Inr xs
     | PStr s \<Rightarrow> Inr (map (\<lambda>c. PStr [c]) s)
     | PDict d \<Rightarrow> Inr (map (\<lambda>kv. PStr (fst kv)) d)
     | _ \<Rightarrow> Inl (PyErr TypeErr))"

definition tag_text :: "pyval \<Rightarrow> string" where
  "tag_text v = take TAG_LEN_MAX (strip (if truthy v then py_str v else []))"

fun add_tags :: "pyval list \<Rightarrow> string list \<Rightarrow> string list" where
  "add_tags [] out = out"
| "add_tags (x # xs) out =
     (let t = tag_text x; out' = (if t \<noteq> [] \<and> t \<notin> set out then out @ [t] else out)
      in if length out' \<ge> TAG_MAX then out' else add_tags xs out')"

definition clean_tags :: "pyval \<Rightarrow> exc + string list option" where
  "clean_tags v = (if v = PNone then Inr None else ebind (elements v) (\<lambda>xs. Inr (Some (add_tags xs []))))"

definition tags_out :: "env \<Rightarrow> pyval \<Rightarrow> pyval" where
  "tags_out env v = (let r = (case v of PStr s \<Rightarrow> (case json_loads env s of None \<Rightarrow> PList [] | Some j \<Rightarrow> j) | _ \<Rightarrow> v)
     in case r of PList ts \<Rightarrow> PList (map (\<lambda>t. PStr (py_str t)) ts) | _ \<Rightarrow> PList [])"

definition review_out :: "env \<Rightarrow> int \<Rightarrow> review_rec \<Rightarrow> pydict" where
  "review_out env t r = [(''trade_review_id'', PInt (rv_id r)), (''trade_id'', PInt t),
     (''tags_added_json'', tags_out env (rv_added r)), (''tags_dropped_json'', tags_out env (rv_dropped r)),
     (''reviewed_at'', (case rv_reviewed r of None \<Rightarrow> PNone | Some d \<Rightarrow> PDatetime d)),
     (''created_at'', PDatetime (rv_created r)), (''updated_at'', PDatetime (rv_updated r)),
     (''reviewed'', PBool (rv_reviewed r \<noteq> None))]"

text \<open>Newest change first.\<close>

definition list_reviews :: "env \<Rightarrow> pydict option \<Rightarrow> trade_db \<Rightarrow> exc + pydict list" where
  "list_reviews env cfg db =
     (if \<not> conn_from_config env cfg then Inr []
      else ebind (fst (query td_reviews env (db, 0))) (\<lambda>rs.
        Inr (map (\<lambda>(t, r). review_out env t r) (rev (sort_key (\<lambda>(t, r). (instant (rv_updated r), rv_id r)) rs)))))"

definition tag_list :: "string list \<Rightarrow> pyval" where
  "tag_list ts = PList (map PStr ts)"

definition review_change :: "env \<Rightarrow> string list option \<Rightarrow> string list option \<Rightarrow> bool option \<Rightarrow> review_rec \<Rightarrow> review_rec" where
  "review_change env added dropped reviewed r =
     r\<lparr>rv_added := (case added of None \<Rightarrow> rv_added r | Some ts \<Rightarrow> tag_list ts),
       rv_dropped := (case dropped of None \<Rightarrow> rv_dropped r | Some ts \<Rightarrow> tag_list ts),
       rv_reviewed := (case reviewed of None \<Rightarrow> rv_reviewed r | Some False \<Rightarrow> None
         | Some True \<Rightarrow> (case rv_reviewed r of None \<Rightarrow> Some (Aware (now env)) | Some d \<Rightarrow> Some d)),
       rv_updated := Aware (now env)\<rparr>"

text \<open>\<open>INSERT \<dots> ON CONFLICT (trade_id) DO UPDATE \<dots> RETURNING\<close>: a new row, or the change of the stored one.\<close>

definition new_review :: "env \<Rightarrow> int \<Rightarrow> review_rec" where
  "new_review env i = \<lparr>rv_id = i, rv_added = PList [], rv_dropped = PList [], rv_reviewed = None,
     rv_created = Aware (now env), rv_updated = Aware (now env)\<rparr>"

definition upsert_review :: "int \<Rightarrow> (int \<Rightarrow> review_rec) \<Rightarrow> (review_rec \<Rightarrow> review_rec) \<Rightarrow> (trade_db, review_rec) tx" where
  "upsert_review t new f = stmt (\<lambda>db.
     if map_of (td_rows db) t = None then Inl (ForeignKeyViolation (None, Some ''trade_review_trade_id_fkey''))
     else case map_of (td_reviews db) t of
         Some r \<Rightarrow> Inr (f r, db\<lparr>td_reviews := put_assoc t (f r) (td_reviews db)\<rparr>)
       | None \<Rightarrow> Inr (f (new (next_review db)),
           db\<lparr>td_reviews := td_reviews db @ [(t, f (new (next_review db)))], next_review := next_review db + 1\<rparr>))"

definition NOTE_RETIRED :: string where
  "NOTE_RETIRED = ''note was removed in core 0.43.0 (TD-73): a trade's notes live in the Research journal (POST /research/journal/notes with a ref of type 'trade').''"

text \<open>The database's reading of \<open>reviewed\<close>: a boolean, NULL, or a type error.\<close>

definition sql_bool :: "env \<Rightarrow> pyval \<Rightarrow> exc + bool option" where
  "sql_bool env v = ebind (coerce env ''reviewed'' v) (\<lambda>w. case w of
       PNone \<Rightarrow> Inr None | PBool b \<Rightarrow> Inr (Some b) | _ \<Rightarrow> Inl (DataError (None, None)))"

definition save_review_body :: "env \<Rightarrow> int \<Rightarrow> string list option \<Rightarrow> string list option \<Rightarrow> pyval \<Rightarrow> (trade_db, bool \<times> pydict option) tx" where
  "save_review_body env t added dropped reviewed = (case sql_bool env reviewed of
       Inl e \<Rightarrow> tx_raise e
     | Inr b \<Rightarrow> tx_bind (upsert_review t (new_review env) (review_change env added dropped b))
                  (\<lambda>r. tx_return (True, Some (review_out env t r))))"

definition save_review :: "env \<Rightarrow> pydict option \<Rightarrow> int \<Rightarrow> pydict \<Rightarrow> trade_db \<Rightarrow> (exc + pydict option) \<times> trade_db" where
  "save_review env cfg t payload db =
     (if dhas payload ''note'' then (invalid NOTE_RETIRED, db)
      else if \<not> conn_from_config env cfg then (Inr None, db)
      else case ebind (clean_tags (dget payload ''tags_added_json'')) (\<lambda>a.
             ebind (clean_tags (dget payload ''tags_dropped_json'')) (\<lambda>d. Inr (a, d))) of
          Inl e \<Rightarrow> (Inl e, db)
        | Inr (a, d) \<Rightarrow> legacy_transaction (save_review_body env t a d (dget payload ''reviewed'')) env db)"

definition REVIEW_PATCHABLE :: "string list" where
  "REVIEW_PATCHABLE = [''tags_added_json'', ''tags_dropped_json'', ''reviewed'']"

fun patch_tags_from :: "string \<Rightarrow> nat \<Rightarrow> pyval list \<Rightarrow> string list \<Rightarrow> exc + string list" where
  "patch_tags_from name i [] out = Inr out"
| "patch_tags_from name i (x # xs) out =
     ebind (text_value x (name @ ''['' @ nat_str i @ '']'') False (Some TAG_LEN_MAX)) (\<lambda>t.
       patch_tags_from name (i + 1) xs (if the t \<in> set out then out else out @ [the t]))"

definition patch_tags :: "string \<Rightarrow> pyval \<Rightarrow> exc + string list" where
  "patch_tags name v = ebind (list_value v name) (\<lambda>items. ebind (patch_tags_from name 0 items []) (\<lambda>out.
     if length out > TAG_MAX
     then invalid (name @ '' has '' @ nat_str (length out) @ '' tags; at most '' @ nat_str TAG_MAX @ ''.'')
     else Inr out))"

definition patch_review_args :: "pyval \<Rightarrow> exc + (string list option \<times> string list option \<times> bool option)" where
  "patch_review_args body =
     (if has_key ''note'' body then invalid NOTE_RETIRED
      else ebind (check_fields body REVIEW_PATCHABLE ''review'') (\<lambda>fs.
           ebind (sent_field fs ''tags_added_json'' (patch_tags ''tags_added_json'')) (\<lambda>a.
           ebind (sent_field fs ''tags_dropped_json'' (patch_tags ''tags_dropped_json'')) (\<lambda>d.
           ebind (sent_field fs ''reviewed'' (\<lambda>v. boolean v ''reviewed'')) (\<lambda>r. Inr (a, d, r))))))"

definition patch_review_body :: "env \<Rightarrow> int \<Rightarrow> string list option \<times> string list option \<times> bool option \<Rightarrow> (trade_db, pydict) tx" where
  "patch_review_body env t args = (case args of (a, d, r) \<Rightarrow>
     tx_bind (trade_exists t) (\<lambda>found.
       if \<not> found then no_trade t
       else tx_bind (upsert_review t (new_review env) (review_change env a d r)) (\<lambda>row. tx_return (review_out env t row))))"

definition patch_review :: "env \<Rightarrow> conn_arg \<Rightarrow> int \<Rightarrow> pyval \<Rightarrow> trade_db \<Rightarrow> (exc + pydict) \<times> trade_db" where
  "patch_review env arg t body db = (case patch_review_args body of
       Inl e \<Rightarrow> (Inl e, db)
     | Inr args \<Rightarrow> raising (strict_write (''the review of trade '' @ int_str t) FkNotFound (patch_review_body env t args) env arg db))"

end
