(* ===== verification/Trade_State.thy ===== *)
theory Trade_State
  imports Fills Tally Trade_Result
begin

text \<open>
  Where a trade stands, read from its own option fills (\<open>monitor/reader/instance_state.py\<close>): the legs
  of its fills by contract, and the state the legs and the day give. \<open>strike_text\<close> is how the
  database writes a strike in a contract key it makes up; texts are ASCII.
\<close>

section \<open>Legs and states\<close>

definition INSTANCE_STATES :: "string list" where
  "INSTANCE_STATES = [''no_fills'', ''open'', ''expired'', ''closed'']"

definition CLOSED_STATES :: "string list" where
  "CLOSED_STATES = [''expired'', ''closed'']"

record instance_leg =
  lg_key :: string
  lg_expiry :: "date option"
  lg_net :: rat
  lg_last :: "date option"

definition is_open :: "instance_leg \<Rightarrow> bool" where
  "is_open l \<longleftrightarrow> \<bar>lg_net l\<bar> \<ge> NET_QTY_EPS"

definition is_closed :: "string option \<Rightarrow> bool" where
  "is_closed state \<longleftrightarrow> state \<in> Some ` set CLOSED_STATES"

text \<open>\<open>parse_expiry\<close> of the text the query reads: its first eight digits, whatever is between them.\<close>

definition expiry_of_text :: "string option \<Rightarrow> date option" where
  "expiry_of_text t =
     (let digits = filter is_digit (case t of None \<Rightarrow> [] | Some s \<Rightarrow> s)
      in if length digits < 8 then None
         else mk_date (digits_val (take 4 digits)) (digits_val (take 2 (drop 4 digits))) (digits_val (take 2 (drop 6 digits))))"

definition latest :: "'d::linorder list \<Rightarrow> 'd option" where
  "latest ds = (if ds = [] then None else Some (foldl max (hd ds) (tl ds)))"

definition expired_leg :: "date \<Rightarrow> instance_leg \<Rightarrow> bool" where
  "expired_leg today l \<longleftrightarrow> (case lg_expiry l of None \<Rightarrow> False | Some e \<Rightarrow> e < today)"

definition derive_state :: "instance_leg list \<Rightarrow> date \<Rightarrow> string \<times> date option" where
  "derive_state legs today =
     (let open_legs = filter is_open legs
      in if legs = [] then (''no_fills'', None)
         else if open_legs = [] then (''closed'', latest (List.map_filter lg_last legs))
         else if list_all (expired_leg today) open_legs then (''expired'', latest (List.map_filter lg_expiry open_legs))
         else (''open'', None))"

section \<open>Legs of the fills\<close>

text \<open>A row of \<open>brokerage.executions\<close>, with the columns the query reads. SQL \<open>trim\<close> takes blanks only.\<close>

record state_fill =
  sf_account :: string
  sf_exec :: string
  sf_sec_type :: "string option"
  sf_key :: "string option"
  sf_symbol :: "string option"
  sf_expiry :: "string option"
  sf_strike :: "rat option"
  sf_right :: "string option"
  sf_side :: "string option"
  sf_qty :: "rat option"
  sf_trade_date :: "date option"
  sf_exec_day :: "date option"

definition sql_trim :: "string option \<Rightarrow> string" where
  "sql_trim s = strip_by (\<lambda>c. c = CHR '' '') (case s of None \<Rightarrow> [] | Some t \<Rightarrow> t)"

definition sql_upper_trim :: "string option \<Rightarrow> string" where
  "sql_upper_trim s = upper (sql_trim s)"

definition made_up_key :: "(rat \<Rightarrow> string) \<Rightarrow> state_fill \<Rightarrow> string" where
  "made_up_key strike_text e =
     hd (split_on CHR '' '' (case sf_symbol e of None \<Rightarrow> [] | Some s \<Rightarrow> s)) @ ''|OPT|'' @
     filter (\<lambda>c. c \<noteq> CHR ''-'') (case sf_expiry e of None \<Rightarrow> [] | Some s \<Rightarrow> s) @ ''|'' @
     strike_text (case sf_strike e of None \<Rightarrow> 0 | Some k \<Rightarrow> k) @ ''|'' @
     upper (take 1 (case sf_right e of None \<Rightarrow> ''C'' | Some r \<Rightarrow> if r = [] then ''C'' else r))"

definition leg_key :: "(rat \<Rightarrow> string) \<Rightarrow> state_fill \<Rightarrow> string" where
  "leg_key strike_text e = (if sql_trim (sf_key e) = [] then made_up_key strike_text e else sql_trim (sf_key e))"

definition side_sign :: "state_fill \<Rightarrow> rat" where
  "side_sign e = (if sql_upper_trim (sf_side e) \<in> {''BUY'', ''BOT'', ''B''} then 1
     else if sql_upper_trim (sf_side e) \<in> {''SELL'', ''SLD'', ''S''} then - 1 else 0)"

text \<open>The whole quantity, or the trade's share where the fill is split.\<close>

definition signed_share :: "attribution \<Rightarrow> state_fill \<Rightarrow> rat" where
  "signed_share a e = side_sign e * \<bar>case te_split a of Some q \<Rightarrow> q | None \<Rightarrow> (case sf_qty e of Some q \<Rightarrow> q | None \<Rightarrow> 0)\<bar>"

definition fill_day :: "state_fill \<Rightarrow> date option" where
  "fill_day e = (case sf_trade_date e of Some d \<Rightarrow> Some d | None \<Rightarrow> sf_exec_day e)"

definition is_option_fill :: "state_fill \<Rightarrow> bool" where
  "is_option_fill e \<longleftrightarrow> sql_upper_trim (sf_sec_type e) = ''OPT''"

definition joined_fills :: "attribution list \<Rightarrow> state_fill list \<Rightarrow> (attribution \<times> state_fill) list" where
  "joined_fills attrs fills = filter (\<lambda>(a, e). sf_account e = te_account a \<and> sf_exec e = te_exec a \<and> is_option_fill e)
     (List.product attrs fills)"

definition leg_of_rows :: "string \<times> (attribution \<times> state_fill) list \<Rightarrow> instance_leg" where
  "leg_of_rows kr = \<lparr>lg_key = fst kr,
     lg_expiry = expiry_of_text (let xs = List.map_filter (\<lambda>(a, e). sf_expiry e) (snd kr) in if xs = [] then None else Some (foldl min (hd xs) (tl xs))),
     lg_net = sum_list (map (\<lambda>(a, e). signed_share a e) (snd kr)),
     lg_last = latest (List.map_filter (\<lambda>(a, e). fill_day e) (snd kr))\<rparr>"

text \<open>One leg per trade and contract; the groups in the order they appear.\<close>

definition fill_groups :: "(rat \<Rightarrow> string) \<Rightarrow> (attribution \<times> state_fill) list \<Rightarrow> ((int \<times> string) \<times> (attribution \<times> state_fill) list) list" where
  "fill_groups strike_text rows = tally_by [] (\<lambda>r rs. rs @ [r]) (\<lambda>(a, e). (te_trade a, leg_key strike_text e)) rows"

definition wanted_trade :: "int list option \<Rightarrow> attribution \<Rightarrow> bool" where
  "wanted_trade ids a \<longleftrightarrow> (case ids of None \<Rightarrow> True | Some is \<Rightarrow> is = [] \<or> te_trade a \<in> set is)"

definition read_instance_legs ::
  "(rat \<Rightarrow> string) \<Rightarrow> attribution list \<Rightarrow> state_fill list \<Rightarrow> int list option \<Rightarrow> (int \<times> instance_leg list) list" where
  "read_instance_legs strike_text attrs fills ids =
     tally_by [] (\<lambda>g legs. legs @ [leg_of_rows (snd (fst g), snd g)]) (fst \<circ> fst)
       (fill_groups strike_text (filter (\<lambda>(a, e). wanted_trade ids a) (joined_fills attrs fills)))"

definition instance_states ::
  "(rat \<Rightarrow> string) \<Rightarrow> attribution list \<Rightarrow> state_fill list \<Rightarrow> int list \<Rightarrow> date \<Rightarrow> (int \<times> (string \<times> date option)) list" where
  "instance_states strike_text attrs fills ids today =
     (if ids = [] then []
      else let legs = read_instance_legs strike_text attrs fills (Some ids)
           in map (\<lambda>t. (t, derive_state (case map_of legs t of None \<Rightarrow> [] | Some ls \<Rightarrow> ls) today)) (remdups ids))"

section \<open>Facts\<close>

lemma foldl_max: "foldl max x xs = Max (set (x # xs))" for x :: "'d::linorder"
proof -
  have "(\<lambda>y s. max s y) = (max :: 'd \<Rightarrow> 'd \<Rightarrow> 'd)" by (simp add: fun_eq_iff max.commute)
  then show ?thesis by (simp only: Max.set_eq_fold foldl_conv_fold)
qed

lemma latest_Some: "latest ds = Some d \<longleftrightarrow> d \<in> set ds \<and> (\<forall>e\<in>set ds. e \<le> d)"
proof (cases ds)
  case (Cons x xs)
  then have "latest ds = Some (Max (set ds))" by (simp add: latest_def foldl_max)
  moreover have "Max (set ds) = d \<longleftrightarrow> d \<in> set ds \<and> (\<forall>e\<in>set ds. e \<le> d)" using Cons by (intro Max_eq_iff) simp_all
  ultimately show ?thesis by simp
qed (simp add: latest_def)

lemma latest_None [simp]: "latest ds = None \<longleftrightarrow> ds = []"
  by (simp add: latest_def)

lemma set_map_filter: "set (List.map_filter f xs) = {y. \<exists>x\<in>set xs. f x = Some y}"
  by (induction xs) (auto simp: map_filter_simps split: option.splits)

text \<open>The cases of a state.\<close>

lemma derive_state_cases:
  "derive_state legs today = (s, c) \<longleftrightarrow>
     (legs = [] \<and> s = ''no_fills'' \<and> c = None) \<or>
     (legs \<noteq> [] \<and> (\<forall>l\<in>set legs. \<not> is_open l) \<and> s = ''closed'' \<and> c = latest (List.map_filter lg_last legs)) \<or>
     ((\<exists>l\<in>set legs. is_open l) \<and> (\<forall>l\<in>set legs. is_open l \<longrightarrow> expired_leg today l) \<and> s = ''expired'' \<and>
        c = latest (List.map_filter lg_expiry (filter is_open legs))) \<or>
     ((\<exists>l\<in>set legs. is_open l \<and> \<not> expired_leg today l) \<and> s = ''open'' \<and> c = None)"
  by (auto simp: derive_state_def Let_def filter_empty_conv list_all_iff)

lemma expired_mono: "d \<le> d' \<Longrightarrow> expired_leg d l \<Longrightarrow> expired_leg d' l"
  by (auto simp: expired_leg_def split: option.splits)

end
