(* ===== verification/Trade_List.thy ===== *)
theory Trade_List
  imports Trades Trade_State
begin

text \<open>
  The list of trades with their state (\<open>list_instances\<close> of \<open>monitor/reader/strategy_instance.py\<close>). The
  executions and splits the count is made of are the rows the views return; times are in
  microseconds, the bounds in seconds.
\<close>

text \<open>An execution that can be read: its id and whole trade; a split: execution and trade.\<close>

record book_counts =
  bc_executions :: "(int \<times> int option) list"
  bc_splits :: "(int \<times> int) list"

text \<open>\<open>linked\<close> is a UNION, so an execution counts once for a trade; a split of an unreadable execution does not.\<close>

definition linked_executions :: "book_counts \<Rightarrow> int \<Rightarrow> int list" where
  "linked_executions b t = remdups
     (map fst (filter (\<lambda>e. snd e = Some t) (bc_executions b)) @
      map fst (filter (\<lambda>s. snd s = t \<and> fst s \<in> fst ` set (bc_executions b)) (bc_splits b)))"

record list_query =
  lq_account :: "string option"
  lq_opp :: "int option"
  lq_trades :: "int list option"
  lq_from :: "rat option"
  lq_until :: "rat option"

definition lq_wants :: "list_query \<Rightarrow> int \<times> trade_rec \<Rightarrow> bool" where
  "lq_wants q tr = (case tr of (t, r) \<Rightarrow>
     (case lq_account q of None \<Rightarrow> True | Some a \<Rightarrow> strip a = [] \<or> td_account r = strip a) \<and>
     (case lq_opp q of None \<Rightarrow> True | Some o' \<Rightarrow> td_opp r = o') \<and>
     (case lq_trades q of None \<Rightarrow> True | Some ts \<Rightarrow> ts = [] \<or> t \<in> set ts) \<and>
     (case lq_from q of None \<Rightarrow> True | Some s \<Rightarrow> s \<le> 0 \<or> of_int (instant (td_opened r)) \<ge> s * 1000000) \<and>
     (case lq_until q of None \<Rightarrow> True | Some s \<Rightarrow> s \<le> 0 \<or> of_int (instant (td_opened r)) \<le> s * 1000000))"

definition state_cols :: "(int \<times> (string \<times> date option)) list \<Rightarrow> int \<Rightarrow> pydict" where
  "state_cols states t = (let st = (case map_of states t of None \<Rightarrow> (''no_fills'', None) | Some x \<Rightarrow> x)
     in [(''state'', PStr (fst st)), (''closed_on'', (case snd st of None \<Rightarrow> PNone | Some d \<Rightarrow> PStr (iso_date d)))])"

definition list_instances ::
  "(rat \<Rightarrow> string) \<Rightarrow> book_counts \<Rightarrow> state_fill list \<Rightarrow> list_query \<Rightarrow> date \<Rightarrow> trade_db \<Rightarrow> pydict list" where
  "list_instances strike_text b fills q today db =
     (let rows = rev (sort_key (\<lambda>tr. instant (td_opened (snd tr))) (filter (lq_wants q) (td_rows db)));
          states = instance_states strike_text (td_fills db) fills (map fst rows) today
      in map (\<lambda>(t, r). trade_out db t r @ [(''executions_count'', PInt (int (length (linked_executions b t))))] @ state_cols states t) rows)"

end
