(* ===== verification/Trade_State_Claims.thy ===== *)
theory Trade_State_Claims
  imports Trade_State Trade_Result_Claims
begin

text \<open>
  The state of a trade is the state of its positions by contract, whoever else is read with it, and
  it only moves forward with the days.
\<close>

section \<open>Days\<close>

lemma last_expiry:
  assumes "\<exists>l\<in>set legs. is_open l" and "\<forall>l\<in>set legs. is_open l \<longrightarrow> expired_leg d l"
  obtains x where "latest (List.map_filter lg_expiry (filter is_open legs)) = Some x" and "x < d"
proof -
  let ?xs = "List.map_filter lg_expiry (filter is_open legs)"
  have past: "\<forall>x\<in>set ?xs. x < d" using assms(2) by (auto simp: set_map_filter expired_leg_def)
  have "?xs \<noteq> []" using assms by (auto simp: map_filter_def filter_empty_conv expired_leg_def split: option.splits)
  then obtain x where "latest ?xs = Some x" by (cases "latest ?xs") auto
  with past show thesis by (intro that [of x]) (auto simp: latest_Some)
qed

lemma state_is:
  assumes "derive_state legs d = (s, c)"
  shows "s = ''no_fills'' \<longleftrightarrow> legs = []" and "s = ''closed'' \<longleftrightarrow> legs \<noteq> [] \<and> \<not> (\<exists>l\<in>set legs. is_open l)"
    and "s = ''open'' \<longleftrightarrow> (\<exists>l\<in>set legs. is_open l \<and> \<not> expired_leg d l)" and "s \<in> set INSTANCE_STATES"
  using assms by (auto simp: derive_state_cases INSTANCE_STATES_def)

lemma expired_is:
  assumes "derive_state legs d = (''expired'', c)"
  shows "\<exists>l\<in>set legs. is_open l" and "\<forall>l\<in>set legs. is_open l \<longrightarrow> expired_leg d l"
    and "c = latest (List.map_filter lg_expiry (filter is_open legs))"
  using assms by (auto simp: derive_state_cases)

lemma expiredI:
  assumes "\<exists>l\<in>set legs. is_open l" and "\<forall>l\<in>set legs. is_open l \<longrightarrow> expired_leg d l"
  shows "derive_state legs d = (''expired'', latest (List.map_filter lg_expiry (filter is_open legs)))"
  using assms by (simp add: derive_state_cases)

text \<open>
  A trade's state moves forward with the calendar. Without a new fill a trade that has no fills or is
  closed stays so; an expired one stays expired with the same day, which is in the past; an open one
  stays open or has expired since: not before the day it was open, and before today.
\<close>

theorem trade_state_moves_forward:
  assumes "derive_state legs d = (s, c)" and "derive_state legs d' = (s', c')" and "d \<le> d'"
  shows "(s \<in> {''no_fills'', ''closed''} \<longrightarrow> s' = s \<and> c' = c) \<and>
    (s = ''expired'' \<longrightarrow> s' = s \<and> c' = c \<and> (\<exists>x. c = Some x \<and> x < d)) \<and>
    (s = ''open'' \<longrightarrow> s' = ''open'' \<or> s' = ''expired'' \<and> (\<exists>x. c' = Some x \<and> d \<le> x \<and> x < d'))"
proof -
  have stay: "s' = s \<and> c' = c" if "s \<in> {''no_fills'', ''closed''}"
    using assms that by (auto simp: derive_state_cases)
  have over: "s' = s \<and> c' = c \<and> (\<exists>x. c = Some x \<and> x < d)" if "s = ''expired''"
  proof -
    note d = assms(1) [unfolded that]
    note legs = expired_is(1,2) [OF d] and c = expired_is(3) [OF d]
    have "\<forall>l\<in>set legs. is_open l \<longrightarrow> expired_leg d' l" using legs(2) expired_mono [OF assms(3)] by blast
    from expiredI [OF legs(1) this] assms(2) have "s' = s \<and> c' = c" by (simp add: that c)
    moreover obtain x where "latest (List.map_filter lg_expiry (filter is_open legs)) = Some x" and "x < d" by (rule last_expiry [OF legs])
    ultimately show ?thesis using c by blast
  qed
  have move: "s' = ''open'' \<or> s' = ''expired'' \<and> (\<exists>x. c' = Some x \<and> d \<le> x \<and> x < d')" if "s = ''open''"
  proof (cases "s' = ''open''")
    case False
    from state_is(3) [OF assms(1)] that obtain l where l: "l \<in> set legs" "is_open l" "\<not> expired_leg d l" by blast
    from state_is(3) [OF assms(2)] False have all: "\<forall>l\<in>set legs. is_open l \<longrightarrow> expired_leg d' l" by blast
    from expiredI [OF _ all] l assms(2) have s': "s' = ''expired''"
      and c': "c' = latest (List.map_filter lg_expiry (filter is_open legs))" by auto
    have ex: "\<exists>l\<in>set legs. is_open l" using l by blast
    obtain x where "latest (List.map_filter lg_expiry (filter is_open legs)) = Some x" "x < d'" by (rule last_expiry [OF ex all])
    with c' have x: "c' = Some x" "x < d'" by simp_all
    from l all obtain y where y: "lg_expiry l = Some y" "\<not> y < d" by (auto simp: expired_leg_def split: option.splits)
    with l have "y \<in> set (List.map_filter lg_expiry (filter is_open legs))" by (auto simp: set_map_filter)
    moreover have "latest (List.map_filter lg_expiry (filter is_open legs)) = Some x" using c' x(1) by simp
    ultimately have "y \<le> x" unfolding latest_Some by blast
    with y(2) have "d \<le> x" by simp
    with x s' show ?thesis by simp
  qed simp
  show ?thesis using stay over move by blast
qed

definition short_leg :: instance_leg where
  "short_leg = \<lparr>lg_key = ''NVDA'', lg_expiry = Some (2026, 10, 16), lg_net = - 2, lg_last = Some (2026, 9, 1)\<rparr>"

theorem trade_state_moves_forward_witness:
  "\<exists>x. snd (derive_state [short_leg] (2026, 10, 17)) = Some x \<and> (2026, 10, 1) \<le> x \<and> x < (2026, 10, 17)"
proof -
  have "derive_state [short_leg] (2026, 10, 1) = (''open'', None)"
    and later: "derive_state [short_leg] (2026, 10, 17) = (''expired'', Some (2026, 10, 16))" by code_simp+
  from trade_state_moves_forward [OF this] show ?thesis by (simp add: later)
qed

section \<open>Positions\<close>

text \<open>The rows of a trade in one contract, and its position there.\<close>

definition trade_rows :: "attribution list \<Rightarrow> state_fill list \<Rightarrow> int \<Rightarrow> (attribution \<times> state_fill) list" where
  "trade_rows attrs fills t = filter (\<lambda>(a, e). te_trade a = t) (joined_fills attrs fills)"

definition contract_rows :: "(rat \<Rightarrow> string) \<Rightarrow> attribution list \<Rightarrow> state_fill list \<Rightarrow> int \<Rightarrow> string \<Rightarrow> (attribution \<times> state_fill) list" where
  "contract_rows st attrs fills t k = filter (\<lambda>(a, e). leg_key st e = k) (trade_rows attrs fills t)"

definition position :: "(rat \<Rightarrow> string) \<Rightarrow> attribution list \<Rightarrow> state_fill list \<Rightarrow> int \<Rightarrow> string \<Rightarrow> rat" where
  "position st attrs fills t k = sum_list (map (\<lambda>(a, e). signed_share a e) (contract_rows st attrs fills t k))"

lemma tally_lists_set:
  "set (case map_of (tally_by [] (\<lambda>r rs. rs @ [g r]) key as) k of None \<Rightarrow> [] | Some xs \<Rightarrow> xs) = g ` {a \<in> set as. key a = k}"
  unfolding tally_lists by (auto simp: Let_def filter_empty_conv)

lemma map_of_each: "map_of (map (\<lambda>u. (u, f u)) xs) t = (if t \<in> set xs then Some (f t) else None)"
  by (induction xs) auto

lemma groups_lookup:
  "map_of (fill_groups st rows) (t, k) = (let xs = filter (\<lambda>(a, e). te_trade a = t \<and> leg_key st e = k) rows in if xs = [] then None else Some xs)"
proof -
  have "filter (\<lambda>r. (case r of (a, e) \<Rightarrow> (te_trade a, leg_key st e)) = (t, k)) rows = filter (\<lambda>(a, e). te_trade a = t \<and> leg_key st e = k) rows"
    by (rule filter_cong) auto
  then show ?thesis using tally_lists [of "\<lambda>r. r" "\<lambda>(a, e). (te_trade a, leg_key st e)" rows "(t, k)"]
    by (simp add: fill_groups_def Let_def)
qed

lemma wanted_rows:
  assumes "t \<in> set ids"
  shows "filter (\<lambda>(a, e). te_trade a = t \<and> leg_key st e = k) (filter (\<lambda>(a, e). wanted_trade (Some ids) a) (joined_fills attrs fills))
    = contract_rows st attrs fills t k"
  unfolding contract_rows_def trade_rows_def filter_filter
  by (rule filter_cong) (use assms in \<open>auto simp: wanted_trade_def\<close>)

text \<open>The legs of a trade, one for each contract it has rows in.\<close>

lemma legs_of_trade:
  assumes "t \<in> set ids"
  shows "set (case map_of (read_instance_legs st attrs fills (Some ids)) t of None \<Rightarrow> [] | Some ls \<Rightarrow> ls) =
    {leg_of_rows (k, contract_rows st attrs fills t k) | k. contract_rows st attrs fills t k \<noteq> []}"
proof -
  let ?groups = "fill_groups st (filter (\<lambda>(a, e). wanted_trade (Some ids) a) (joined_fills attrs fills))"
  let ?leg = "\<lambda>g. leg_of_rows (snd (fst g), snd g)"
  have "set (case map_of (read_instance_legs st attrs fills (Some ids)) t of None \<Rightarrow> [] | Some ls \<Rightarrow> ls)
      = ?leg ` {g \<in> set ?groups. (fst \<circ> fst) g = t}"
    unfolding read_instance_legs_def by (rule tally_lists_set)
  also have "\<dots> = {leg_of_rows (k, rs) | k rs. ((t, k), rs) \<in> set ?groups}" by force
  also have "\<dots> = {leg_of_rows (k, rs) | k rs. map_of ?groups (t, k) = Some rs}"
    by (simp add: fill_groups_def tally_distinct map_of_eq_Some_iff)
  also have "\<dots> = {leg_of_rows (k, contract_rows st attrs fills t k) | k. contract_rows st attrs fills t k \<noteq> []}"
    unfolding groups_lookup wanted_rows [OF assms] Let_def by (auto split: if_splits)
  finally show ?thesis .
qed

lemma rows_contract: "trade_rows attrs fills t = [] \<longleftrightarrow> (\<forall>k. contract_rows st attrs fills t k = [])"
proof
  assume "\<forall>k. contract_rows st attrs fills t k = []"
  then have "(a, e) \<notin> set (trade_rows attrs fills t)" for a e by (auto simp: contract_rows_def filter_empty_conv dest: spec [where x = "leg_key st e"])
  then show "trade_rows attrs fills t = []" by (cases "trade_rows attrs fills t") auto
qed (simp add: contract_rows_def)

lemma leg_open_iff: "is_open (leg_of_rows (k, contract_rows st attrs fills t k)) \<longleftrightarrow> NET_QTY_EPS \<le> \<bar>position st attrs fills t k\<bar>"
  by (simp add: is_open_def leg_of_rows_def position_def)

lemma open_has_rows: "NET_QTY_EPS \<le> \<bar>position st attrs fills t k\<bar> \<Longrightarrow> contract_rows st attrs fills t k \<noteq> []"
  using eps_pos by (auto simp: position_def)

definition contract_expiry :: "(rat \<Rightarrow> string) \<Rightarrow> attribution list \<Rightarrow> state_fill list \<Rightarrow> int \<Rightarrow> string \<Rightarrow> date option" where
  "contract_expiry st attrs fills t k = lg_expiry (leg_of_rows (k, contract_rows st attrs fills t k))"

text \<open>
  C20. What the state of a trade says, however many are read in one call: no fills, no option fill of its
  own; closed, fills and no position in any contract; open, a position in a contract that is not past its
  expiry; expired otherwise.
\<close>

theorem state_reads_positions:
  assumes "t \<in> set ids"
  shows "\<exists>s c. map_of (instance_states st attrs fills ids today) t = Some (s, c) \<and>
    (s = ''no_fills'' \<longleftrightarrow> trade_rows attrs fills t = []) \<and>
    (s = ''closed'' \<longleftrightarrow> trade_rows attrs fills t \<noteq> [] \<and> (\<forall>k. \<bar>position st attrs fills t k\<bar> < NET_QTY_EPS)) \<and>
    (s = ''open'' \<longleftrightarrow> (\<exists>k. NET_QTY_EPS \<le> \<bar>position st attrs fills t k\<bar> \<and>
       (case contract_expiry st attrs fills t k of None \<Rightarrow> True | Some x \<Rightarrow> today \<le> x))) \<and>
    s \<in> set INSTANCE_STATES"
proof -
  let ?legs = "case map_of (read_instance_legs st attrs fills (Some ids)) t of None \<Rightarrow> [] | Some ls \<Rightarrow> ls"
  have look: "map_of (instance_states st attrs fills ids today) t = Some (derive_state ?legs today)"
    using assms map_of_each [of _ "remdups ids" t] by (auto simp: instance_states_def Let_def)
  obtain s c where d: "derive_state ?legs today = (s, c)" by fastforce
  note legs = legs_of_trade [OF assms, of st attrs fills]
  have none: "?legs = [] \<longleftrightarrow> trade_rows attrs fills t = []"
  proof -
    have "?legs = [] \<longleftrightarrow> set ?legs = {}" by (simp only: set_empty)
    also have "\<dots> \<longleftrightarrow> (\<forall>k. contract_rows st attrs fills t k = [])" unfolding legs by blast
    finally show ?thesis unfolding rows_contract [where st = st] .
  qed
  have some_open: "(\<exists>l\<in>set ?legs. is_open l \<and> P (lg_expiry l)) \<longleftrightarrow>
      (\<exists>k. NET_QTY_EPS \<le> \<bar>position st attrs fills t k\<bar> \<and> P (contract_expiry st attrs fills t k))" for P
    unfolding legs contract_expiry_def using leg_open_iff open_has_rows by blast
  have not_past: "\<not> expired_leg today l \<longleftrightarrow> (case lg_expiry l of None \<Rightarrow> True | Some x \<Rightarrow> today \<le> x)" for l
    by (auto simp: expired_leg_def split: option.splits)
  have "(\<exists>l\<in>set ?legs. is_open l) \<longleftrightarrow> (\<exists>k. NET_QTY_EPS \<le> \<bar>position st attrs fills t k\<bar>)"
    using some_open [of "\<lambda>_. True"] by simp
  moreover have "(\<exists>l\<in>set ?legs. is_open l \<and> \<not> expired_leg today l) \<longleftrightarrow> (\<exists>k. NET_QTY_EPS \<le> \<bar>position st attrs fills t k\<bar> \<and>
       (case contract_expiry st attrs fills t k of None \<Rightarrow> True | Some x \<Rightarrow> today \<le> x))"
    unfolding not_past by (rule some_open)
  ultimately show ?thesis
    using state_is [OF d] look d none by (simp add: not_less [symmetric])
qed

text \<open>Trade 7 sold three calls, bought one back and shares a fourth sale with trade 8.\<close>

definition state_fill_of :: "string \<Rightarrow> string \<Rightarrow> rat \<Rightarrow> state_fill" where
  "state_fill_of ex side q = \<lparr>sf_account = ''U1'', sf_exec = ex, sf_sec_type = Some ''OPT'', sf_key = None, sf_symbol = Some ''NVDA'',
     sf_expiry = Some ''2026-10-16'', sf_strike = Some 100, sf_right = Some ''C'', sf_side = Some side, sf_qty = Some q,
     sf_trade_date = Some (2026, 9, 1), sf_exec_day = None\<rparr>"

definition state_attr :: "string \<Rightarrow> int \<Rightarrow> rat option \<Rightarrow> attribution" where
  "state_attr ex t s = \<lparr>te_account = ''U1'', te_exec = ex, te_trade = t, te_split = s\<rparr>"

definition state_attrs :: "attribution list" where
  "state_attrs = [state_attr ''E1'' 7 None, state_attr ''E2'' 7 None, state_attr ''E3'' 7 (Some (- 1)), state_attr ''E3'' 8 (Some (- 2))]"

definition state_fills :: "state_fill list" where
  "state_fills = [state_fill_of ''E1'' ''SLD'' 3, state_fill_of ''E2'' ''BOT'' 4, state_fill_of ''E3'' ''SLD'' 3]"

theorem state_reads_positions_witness:
  "\<exists>c. map_of (instance_states (\<lambda>_. ''100'') state_attrs state_fills [8, 7] (2026, 10, 17)) 7 = Some (''closed'', c)"
proof -
  have "map_of (instance_states (\<lambda>_. ''100'') state_attrs state_fills [8, 7] (2026, 10, 17)) 7 = Some (''closed'', Some (2026, 9, 1))"
    by code_simp
  moreover have "trade_rows state_attrs state_fills 7 \<noteq> []" by code_simp
  ultimately show ?thesis using state_reads_positions [of 7 "[8, 7]" "\<lambda>_. ''100''" state_attrs state_fills "(2026, 10, 17)"] by simp
qed

end
