(* ===== verification/Trade_Claims.thy ===== *)
theory Trade_Claims
  imports Trades
begin

text \<open>
  The writers of trades and reviews keep every reference between the tables, whatever the order of the
  calls and wherever they fail; a delete goes through exactly when nothing refers to the trade; what is
  stored as tags are tags.
\<close>

section \<open>Operations\<close>

datatype trade_op =
    CreateTrade conn_arg pyval pyval pyval pyval
  | PatchTrade conn_arg int pyval
  | DeleteTrade "pydict option" int
  | SaveReview "pydict option" int pydict
  | PatchReview conn_arg int pyval

text \<open>A call: the environment it runs in and the operation. True: it answered.\<close>

fun run_trade_op :: "env \<times> trade_op \<Rightarrow> trade_db \<Rightarrow> (exc + unit) \<times> trade_db" where
  "run_trade_op (env, CreateTrade arg opp account opened label) db =
     apfst (map_sum id (\<lambda>_. ())) (create_instance_strict env arg opp account opened label db)"
| "run_trade_op (env, PatchTrade arg t body) db = apfst (map_sum id (\<lambda>_. ())) (patch_instance env arg t body db)"
| "run_trade_op (env, DeleteTrade cfg t) db = apfst (map_sum id (\<lambda>_. ())) (delete_instance_strict env cfg t db)"
| "run_trade_op (env, SaveReview cfg t payload) db = apfst (map_sum id (\<lambda>_. ())) (save_review env cfg t payload db)"
| "run_trade_op (env, PatchReview arg t body) db = apfst (map_sum id (\<lambda>_. ())) (patch_review env arg t body db)"

section \<open>References\<close>

definition referred :: "trade_db \<Rightarrow> int set" where
  "referred db = {t. (\<exists>a\<in>set (td_fills db). te_trade a = t) \<or> (\<exists>p\<in>set (td_plans db). snd p = Some t)} \<union> fst ` set (td_reviews db)"

text \<open>Ids are unique, every trade has its opportunity, and what refers to a trade refers to one that exists, in its account.\<close>

definition trades_sound :: "trade_db \<Rightarrow> bool" where
  "trades_sound db \<longleftrightarrow>
     distinct (map fst (td_rows db)) \<and> distinct (map fst (td_reviews db)) \<and> (\<forall>(t, r)\<in>set (td_rows db). t < next_td db) \<and>
     (\<forall>(t, r)\<in>set (td_rows db). map_of (td_opps db) (td_opp r) \<noteq> None) \<and>
     (\<forall>t\<in>referred db. map_of (td_rows db) t \<noteq> None) \<and>
     (\<forall>a\<in>set (td_fills db). \<forall>r. map_of (td_rows db) (te_trade a) = Some r \<longrightarrow> td_account r = te_account a)"

lemma insert_trade_inv [tx_keeps]: "tx_inv trades_sound (insert_trade r)"
  unfolding insert_trade_def
proof (rule tx_inv_stmt)
  fix s a s'
  assume run: "checked (trade_violation s r) (next_td s, s\<lparr>td_rows := td_rows s @ [(next_td s, r)], next_td := next_td s + 1\<rparr>) = Inr (a, s')"
    and sound: "trades_sound s"
  have new: "next_td s \<notin> fst ` set (td_rows s)" using sound by (fastforce simp: trades_sound_def)
  then have none: "map_of (td_rows s) (next_td s) = None" by (simp add: map_of_eq_None_iff)
  have fills: "te_trade b \<noteq> next_td s" if "b \<in> set (td_fills s)" for b
  proof -
    have "te_trade b \<in> referred s" using that by (auto simp: referred_def)
    with sound have "map_of (td_rows s) (te_trade b) \<noteq> None" unfolding trades_sound_def by blast
    with none show ?thesis by metis
  qed
  have "map_of (td_opps s) (td_opp r) \<noteq> None" and s': "s' = s\<lparr>td_rows := td_rows s @ [(next_td s, r)], next_td := next_td s + 1\<rparr>"
    using run by (auto simp: trade_violation_def split: if_splits)
  moreover have "\<forall>(t, q)\<in>set (td_rows s). t < next_td s + 1" using sound by (fastforce simp: trades_sound_def)
  moreover have "referred s' = referred s" by (simp add: s' referred_def)
  ultimately show "trades_sound s'"
    using sound new fills by (auto simp: trades_sound_def map_of_snoc split: option.splits)
qed

lemma update_trade_inv:
  assumes "\<And>r. td_opp (f r) = td_opp r \<and> td_account (f r) = td_account r"
  shows "tx_inv trades_sound (update_trade t f)"
  unfolding update_trade_def
proof (rule tx_inv_stmt)
  fix s a s'
  assume run: "(case map_of (td_rows s) t of None \<Rightarrow> Inr (0, s) | Some r \<Rightarrow> Inr (1, s\<lparr>td_rows := put_assoc t (f r) (td_rows s)\<rparr>)) = Inr (a, s')"
    and sound: "trades_sound s"
  show "trades_sound s'"
  proof (cases "map_of (td_rows s) t")
    case None
    with run sound show ?thesis by simp
  next
    case (Some r)
    with run have s': "s' = s\<lparr>td_rows := put_assoc t (f r) (td_rows s)\<rparr>" by auto
    have r: "(t, r) \<in> set (td_rows s)" using Some by (rule map_of_SomeD)
    have rows: "u < next_td s \<and> map_of (td_opps s) (td_opp q) \<noteq> None" if "(u, q) \<in> set (td_rows s)" for u q
      using sound that unfolding trades_sound_def by blast
    have "u < next_td s' \<and> map_of (td_opps s') (td_opp q) \<noteq> None" if "(u, q) \<in> set (td_rows s')" for u q
    proof -
      from that have "(u, q) = (t, f r) \<or> (u, q) \<in> set (td_rows s)" unfolding s' by (auto dest: in_put_assoc)
      with rows [OF r] rows [of u q] assms show ?thesis by (auto simp: s')
    qed
    then have "\<forall>(u, q)\<in>set (td_rows s'). u < next_td s'" and "\<forall>(u, q)\<in>set (td_rows s'). map_of (td_opps s') (td_opp q) \<noteq> None" by blast+
    moreover have "referred s' = referred s" by (simp add: s' referred_def)
    ultimately show ?thesis
      using sound Some assms by (auto simp: trades_sound_def s' map_of_put_assoc)
  qed
qed

lemma delete_trade_inv [tx_keeps]: "tx_inv trades_sound (delete_trade_row t)"
  unfolding delete_trade_row_def
proof (rule tx_inv_stmt)
  fix s a s'
  assume run: "(if map_of (td_rows s) t = None then Inr (0, s)
     else checked (map_option (\<lambda>c. ForeignKeyViolation (None, Some c)) (referrer s t))
            (1, s\<lparr>td_rows := filter (\<lambda>r. fst r \<noteq> t) (td_rows s)\<rparr>)) = Inr (a, s')"
    and sound: "trades_sound s"
  show "trades_sound s'"
  proof (cases "map_of (td_rows s) t = None")
    case True
    with run sound show ?thesis by simp
  next
    case False
    with run have free: "referrer s t = None" and s': "s' = s\<lparr>td_rows := filter (\<lambda>r. fst r \<noteq> t) (td_rows s)\<rparr>" by auto
    from free have "t \<notin> referred s"
      by (auto simp: referrer_def referred_def list_ex_iff map_of_eq_None_iff split: if_splits)
    moreover have "referred s' = referred s" by (simp add: s' referred_def)
    ultimately show ?thesis
      using sound by (auto simp: trades_sound_def s' map_of_without distinct_map_filter)
  qed
qed

lemma upsert_review_inv [tx_keeps]: "tx_inv trades_sound (upsert_review t new f)"
  unfolding upsert_review_def
proof (rule tx_inv_stmt)
  fix s a s'
  assume run: "(if map_of (td_rows s) t = None then Inl (ForeignKeyViolation (None, Some ''trade_review_trade_id_fkey''))
     else case map_of (td_reviews s) t of
         Some r \<Rightarrow> Inr (f r, s\<lparr>td_reviews := put_assoc t (f r) (td_reviews s)\<rparr>)
       | None \<Rightarrow> Inr (f (new (next_review s)),
           s\<lparr>td_reviews := td_reviews s @ [(t, f (new (next_review s)))], next_review := next_review s + 1\<rparr>)) = Inr (a, s')"
    and sound: "trades_sound s"
  from run have t: "map_of (td_rows s) t \<noteq> None" by (auto split: if_splits)
  show "trades_sound s'"
  proof (cases "map_of (td_reviews s) t")
    case None
    with run t have s': "s' = s\<lparr>td_reviews := td_reviews s @ [(t, f (new (next_review s)))], next_review := next_review s + 1\<rparr>" by auto
    have "t \<notin> fst ` set (td_reviews s)" using None by (simp add: map_of_eq_None_iff)
    moreover have "referred s' = insert t (referred s)" by (auto simp: s' referred_def)
    ultimately show ?thesis using sound t by (auto simp: trades_sound_def s')
  next
    case (Some r)
    with run t have s': "s' = s\<lparr>td_reviews := put_assoc t (f r) (td_reviews s)\<rparr>" by auto
    have "fst ` set (put_assoc t (f r) (td_reviews s)) = fst ` set (td_reviews s)" by (metis list.set_map put_assoc_keys)
    then have "referred s' = referred s" by (simp add: s' referred_def)
    then show ?thesis using sound by (auto simp: trades_sound_def s')
  qed
qed

section \<open>Sequences of calls\<close>

lemma read_back_inv [tx_keeps]: "tx_inv P (read_back msg t)"
  unfolding read_back_def get_instance_by_id_def by (intro tx_keeps)

lemma no_trade_inv [tx_keeps]: "tx_inv P (no_trade t)"
  unfolding no_trade_def by (intro tx_keeps)

lemma bodies_inv:
  "tx_inv trades_sound (create_instance_body env args)" "tx_inv trades_sound (patch_instance_body env t cols)"
  "tx_inv trades_sound (delete_instance_body t)" "tx_inv trades_sound (save_review_body env t added dropped v)"
  "tx_inv trades_sound (patch_review_body env t rargs)"
proof -
  have "tx_inv trades_sound (update_trade t (patched_trade env cols))"
    by (rule update_trade_inv) (simp add: patched_trade_def split: prod.split)
  then show "tx_inv trades_sound (patch_instance_body env t cols)"
    unfolding patch_instance_body_def by (intro tx_keeps)
  show "tx_inv trades_sound (create_instance_body env args)" "tx_inv trades_sound (delete_instance_body t)"
    "tx_inv trades_sound (save_review_body env t added dropped v)" "tx_inv trades_sound (patch_review_body env t rargs)"
    unfolding create_instance_body_def delete_instance_body_def save_review_body_def patch_review_body_def
      trade_exists_def attributed_counts_def plan_and_review_counts_def
    by (intro tx_keeps)+
qed

lemma writer_errors:
  "create_instance_strict env arg opp account opened label db = (Inl e, db') \<Longrightarrow> db' = db"
  "patch_instance env arg t body db = (Inl e, db') \<Longrightarrow> db' = db"
  "delete_instance_strict env cfg t db = (Inl e, db') \<Longrightarrow> db' = db"
  "save_review env cfg t payload db = (Inl e, db') \<Longrightarrow> db' = db"
  "patch_review env arg t body db = (Inl e, db') \<Longrightarrow> db' = db"
  by (auto simp: create_instance_strict_def patch_instance_def delete_instance_strict_def save_review_def patch_review_def
      split: sum.splits option.splits prod.splits if_splits dest: strict_write_error legacy_transaction_error)

lemma trade_op_error:
  assumes "run_trade_op c db = (Inl e, db')"
  shows "db' = db"
proof -
  have Inl: "map_sum id (\<lambda>_. ()) r = Inl e \<longleftrightarrow> r = Inl e" for r :: "exc + 'x" by (cases r) auto
  obtain env op where c: "c = (env, op)" by fastforce
  show ?thesis
    using assms by (cases op; simp add: c apfst_eq Inl) (metis writer_errors prod.collapse)+
qed

declare raising_snd [simp]

lemma trade_op_keeps: "trades_sound db \<Longrightarrow> trades_sound (snd (run_trade_op c db))"
proof (cases "(c, db)" rule: run_trade_op.cases)
  case (3 env cfg t db')
  assume "trades_sound db"
  with 3 strict_write_snd [OF bodies_inv(3)] show ?thesis
    by (auto simp: delete_instance_strict_def split: option.splits sum.splits prod.splits) (metis snd_conv)+
next
  case (4 env cfg t payload db')
  assume "trades_sound db"
  with 4 show ?thesis
    by (auto simp: save_review_def split: sum.splits) (metis bodies_inv(4) legacy_transaction_inv prod.collapse)
qed (auto simp: create_instance_strict_def patch_instance_def patch_review_def strict_write_snd bodies_inv split: sum.splits)

interpretation trade_desk: invariant_writer run_trade_op trades_sound
  by unfold_locales (use trade_op_error trade_op_keeps in \<open>force simp: prod_eq_iff\<close>)+

text \<open>What other clients write in between: any plans and attributions the foreign keys admit.\<close>

definition fk_admits :: "trade_db \<Rightarrow> (int \<times> int option) list \<Rightarrow> attribution list \<Rightarrow> bool" where
  "fk_admits db ps fs \<longleftrightarrow> list_all (\<lambda>p. case snd p of None \<Rightarrow> True | Some t \<Rightarrow> map_of (td_rows db) t \<noteq> None) ps \<and>
     list_all (\<lambda>a. case map_of (td_rows db) (te_trade a) of None \<Rightarrow> False | Some r \<Rightarrow> td_account r = te_account a) fs"

datatype desk_step = Call env trade_op | Elsewhere "(int \<times> int option) list" "attribution list"

fun desk_do :: "desk_step \<Rightarrow> trade_db \<Rightarrow> trade_db" where
  "desk_do (Call env op) db = snd (run_trade_op (env, op) db)"
| "desk_do (Elsewhere ps fs) db = (if fk_admits db ps fs then db\<lparr>td_plans := ps, td_fills := fs\<rparr> else db)"

lemma elsewhere_keeps:
  assumes sound: "trades_sound db" and ok: "fk_admits db ps fs"
  shows "trades_sound (db\<lparr>td_plans := ps, td_fills := fs\<rparr>)"
proof -
  have "map_of (td_rows db) t \<noteq> None" if "t \<in> referred (db\<lparr>td_plans := ps, td_fills := fs\<rparr>)" for t
  proof -
    from that consider "\<exists>a\<in>set fs. te_trade a = t" | "\<exists>p\<in>set ps. snd p = Some t" | "t \<in> referred db"
      by (fastforce simp: referred_def)
    then show ?thesis
    proof cases
      case 3
      with sound show ?thesis unfolding trades_sound_def by blast
    qed (use ok in \<open>auto simp: fk_admits_def list_all_iff split: option.splits\<close>)
  qed
  moreover have "td_account r = te_account a" if "a \<in> set fs" "map_of (td_rows db) (te_trade a) = Some r" for a r
    using ok that by (auto simp: fk_admits_def list_all_iff split: option.splits)
  ultimately show ?thesis using sound by (simp add: trades_sound_def)
qed

lemma desk_step_keeps: "trades_sound db \<Longrightarrow> trades_sound (desk_do st db)"
  by (cases st) (simp_all add: trade_op_keeps elsewhere_keeps)

interpretation shared_desk: kept_invariant desk_do trades_sound
  by unfold_locales (rule desk_step_keeps)

lemma referrer_None: "referrer db t = None \<longleftrightarrow> t \<notin> referred db"
  by (auto simp: referrer_def referred_def list_ex_iff map_of_eq_None_iff)

lemma delete_ok:
  assumes "tx_ok env (delete_instance_body t) db u db'"
  shows "map_of (td_rows db) t \<noteq> None \<and> t \<notin> referred db \<and> db' = db\<lparr>td_rows := filter (\<lambda>r. fst r \<noteq> t) (td_rows db)\<rparr>"
  using assms
  by (auto simp: delete_instance_body_def trade_exists_def attributed_counts_def plan_and_review_counts_def delete_trade_row_def
      no_trade_def referrer_None [symmetric] dest!: tx_okD split: if_splits)

lemma delete_free:
  assumes "map_of (td_rows db) t \<noteq> None" and "t \<notin> referred db"
  shows "write_transaction what fk (delete_instance_body t) (calm_env n) db = (Inr (), db\<lparr>td_rows := filter (\<lambda>r. fst r \<noteq> t) (td_rows db)\<rparr>)"
proof -
  have "filter (\<lambda>a. te_trade a = t) (td_fills db) = []" "filter (\<lambda>p. snd p = Some t) (td_plans db) = []" "filter (\<lambda>r. fst r = t) (td_reviews db) = []"
    using assms(2) by (force simp: referred_def filter_empty_conv)+
  then show ?thesis
    using assms referrer_None [of db t]
    by (auto simp del: filter_filter filter_empty_conv simp: write_transaction_def delete_instance_body_def trade_exists_def attributed_counts_def plan_and_review_counts_def
        delete_trade_row_def tx_simps checked_def)
qed

text \<open>
  C32. \<open>delete_instance_strict\<close> deletes a trade exactly when it exists and no fill, plan or review refers to it, and then
  removes its row and nothing else; in every environment, a delete that answers has done so.
\<close>

theorem delete_exactly_when_free:
  assumes "is_postgres_config cfg"
  shows "(isl (fst (delete_instance_strict (calm_env n) (Some cfg) t db)) \<longleftrightarrow> map_of (td_rows db) t = None \<or> t \<in> referred db) \<and>
    (\<forall>env c out db'. delete_instance_strict env c t db = (Inr out, db') \<longrightarrow>
      map_of (td_rows db) t \<noteq> None \<and> t \<notin> referred db \<and> db' = db\<lparr>td_rows := filter (\<lambda>r. fst r \<noteq> t) (td_rows db)\<rparr>)"
proof -
  have sound: "map_of (td_rows db) t \<noteq> None \<and> t \<notin> referred db \<and> db' = db\<lparr>td_rows := filter (\<lambda>r. fst r \<noteq> t) (td_rows db)\<rparr>"
    if "delete_instance_strict env c t db = (Inr out, db')" for env c out db'
    using that by (auto simp: delete_instance_strict_def split: option.splits sum.splits prod.splits dest!: strict_write_ok delete_ok)
  have "\<not> isl (fst (delete_instance_strict (calm_env n) (Some cfg) t db))" if "map_of (td_rows db) t \<noteq> None" "t \<notin> referred db"
    using assms delete_free [OF that] by (simp add: delete_instance_strict_def strict_write_def write_connection_def)
  with sound show ?thesis by (metis isl_def prod.collapse sum.collapse(2))
qed

text \<open>
  No sequence of calls, in environments that may fail anywhere, and with other clients writing any plans and
  attributions the foreign keys admit in between, leaves a fill, a plan or a review without its trade, a fill with a
  trade of another account, or a trade without its opportunity.
\<close>

theorem references_survive:
  assumes "trades_sound db"
  shows "trades_sound (fold desk_do steps db)"
  by (rule shared_desk.fold_keeps [OF assms])

section \<open>Tags\<close>

definition tag_texts :: "string list \<Rightarrow> bool" where
  "tag_texts ts \<longleftrightarrow> distinct ts \<and> length ts \<le> TAG_MAX \<and> (\<forall>t\<in>set ts. t \<noteq> [] \<and> length t \<le> TAG_LEN_MAX)"

definition tags_typed :: "pyval \<Rightarrow> bool" where
  "tags_typed v \<longleftrightarrow> (\<exists>ts. v = tag_list ts \<and> tag_texts ts)"

definition reviews_typed :: "trade_db \<Rightarrow> bool" where
  "reviews_typed db \<longleftrightarrow> (\<forall>(t, r)\<in>set (td_reviews db). tags_typed (rv_added r) \<and> tags_typed (rv_dropped r))"

lemma add_tags_typed: "tag_texts out \<Longrightarrow> length out < TAG_MAX \<Longrightarrow> tag_texts (add_tags xs out)"
proof (induction xs out rule: add_tags.induct)
  case (2 x xs out)
  let ?out = "if tag_text x \<noteq> [] \<and> tag_text x \<notin> set out then out @ [tag_text x] else out"
  have "length (tag_text x) \<le> TAG_LEN_MAX" by (simp add: tag_text_def)
  with "2.prems" have "tag_texts ?out" by (auto simp: tag_texts_def)
  then show ?case using "2.IH" [of "tag_text x" ?out] by (simp add: Let_def not_le)
qed simp

lemma clean_tags_typed: "clean_tags v = Inr (Some ts) \<Longrightarrow> tag_texts ts"
  using add_tags_typed [of "[]"] by (auto simp: clean_tags_def tag_texts_def TAG_MAX_def split: if_splits)

lemma text_value_max: "text_value v name False (Some n) = Inr r \<Longrightarrow> \<exists>t. r = Some t \<and> t \<noteq> [] \<and> length t \<le> n"
  by (auto simp: text_value_def Let_def split: pyval.splits if_splits)

lemma patch_tags_from_typed:
  "patch_tags_from name i xs out = Inr ts \<Longrightarrow> distinct out \<Longrightarrow> (\<forall>t\<in>set out. t \<noteq> [] \<and> length t \<le> TAG_LEN_MAX) \<Longrightarrow>
     distinct ts \<and> (\<forall>t\<in>set ts. t \<noteq> [] \<and> length t \<le> TAG_LEN_MAX)"
proof (induction xs arbitrary: i out)
  case (Cons x xs)
  from Cons.prems(1) obtain r where "text_value x (name @ ''['' @ nat_str i @ '']'') False (Some TAG_LEN_MAX) = Inr r"
    and rest: "patch_tags_from name (i + 1) xs (if the r \<in> set out then out else out @ [the r]) = Inr ts" by auto
  from text_value_max [OF this(1)] obtain t where t: "r = Some t" "t \<noteq> []" "length t \<le> TAG_LEN_MAX" by auto
  show ?case by (rule Cons.IH [OF rest]) (use Cons.prems t in auto)
qed simp

lemma patch_tags_typed: "patch_tags name v = Inr ts \<Longrightarrow> tag_texts ts"
  by (auto simp: patch_tags_def tag_texts_def split: if_splits dest!: patch_tags_from_typed)

lemma upsert_review_typed:
  assumes "\<And>ts. a = Some ts \<Longrightarrow> tag_texts ts" and "\<And>ts. d = Some ts \<Longrightarrow> tag_texts ts"
  shows "tx_inv reviews_typed (upsert_review t (new_review env) (review_change env a d b))"
  unfolding upsert_review_def
proof (rule tx_inv_stmt)
  fix s x s'
  assume run: "(if map_of (td_rows s) t = None then Inl (ForeignKeyViolation (None, Some ''trade_review_trade_id_fkey''))
     else case map_of (td_reviews s) t of
         Some r \<Rightarrow> Inr (review_change env a d b r, s\<lparr>td_reviews := put_assoc t (review_change env a d b r) (td_reviews s)\<rparr>)
       | None \<Rightarrow> Inr (review_change env a d b (new_review env (next_review s)),
           s\<lparr>td_reviews := td_reviews s @ [(t, review_change env a d b (new_review env (next_review s)))], next_review := next_review s + 1\<rparr>)) = Inr (x, s')"
    and typed: "reviews_typed s"
  have none: "tags_typed (PList [])" by (auto simp: tags_typed_def tag_list_def tag_texts_def)
  have change: "tags_typed (rv_added (review_change env a d b r)) \<and> tags_typed (rv_dropped (review_change env a d b r))"
    if "tags_typed (rv_added r)" "tags_typed (rv_dropped r)" for r
    using that assms by (auto simp: review_change_def tags_typed_def split: option.splits)
  show "reviews_typed s'"
  proof (cases "map_of (td_reviews s) t")
    case None
    with run have "s' = s\<lparr>td_reviews := td_reviews s @ [(t, review_change env a d b (new_review env (next_review s)))], next_review := next_review s + 1\<rparr>"
      by (auto split: if_splits)
    then show ?thesis using typed change [of "new_review env (next_review s)"] none by (auto simp: reviews_typed_def new_review_def)
  next
    case (Some r)
    with run have s': "s' = s\<lparr>td_reviews := put_assoc t (review_change env a d b r) (td_reviews s)\<rparr>" by (auto split: if_splits)
    have "(t, r) \<in> set (td_reviews s)" using Some by (rule map_of_SomeD)
    then show ?thesis using typed change [of r] by (fastforce simp: s' reviews_typed_def dest: in_put_assoc)
  qed
qed

lemma rows_keep_reviews:
  "tx_inv reviews_typed (insert_trade r)" "tx_inv reviews_typed (update_trade t f)" "tx_inv reviews_typed (delete_trade_row t)"
  unfolding insert_trade_def update_trade_def delete_trade_row_def
  by (rule tx_inv_stmt; auto simp: reviews_typed_def split: option.splits if_splits)+

lemma trade_bodies_typed:
  "tx_inv reviews_typed (create_instance_body env args)" "tx_inv reviews_typed (patch_instance_body env t cols)"
  "tx_inv reviews_typed (delete_instance_body t)"
  unfolding create_instance_body_def patch_instance_body_def delete_instance_body_def trade_exists_def attributed_counts_def plan_and_review_counts_def
  by (intro tx_keeps rows_keep_reviews)+

lemma review_args_typed:
  assumes "patch_review_args body = Inr (a, d, b)"
  shows "a = Some ts \<Longrightarrow> tag_texts ts" and "d = Some ts \<Longrightarrow> tag_texts ts"
  using assms by (auto simp: patch_review_args_def split: if_splits dest!: sent_field_Some patch_tags_typed)

lemma typed_op: "reviews_typed db \<Longrightarrow> reviews_typed (snd (run_trade_op (env, op) db))"
proof (cases op)
  case (DeleteTrade cfg t)
  assume "reviews_typed db"
  with DeleteTrade strict_write_snd [OF trade_bodies_typed(3)] show ?thesis
    by (auto simp: delete_instance_strict_def split: option.splits sum.splits prod.splits) (metis snd_conv)+
next
  case (SaveReview cfg t payload)
  assume typed: "reviews_typed db"
  have "tx_inv reviews_typed (save_review_body env t a d v)"
    if "clean_tags (dget payload ''tags_added_json'') = Inr a" "clean_tags (dget payload ''tags_dropped_json'') = Inr d" for a d v
    using that clean_tags_typed unfolding save_review_body_def by (intro tx_keeps upsert_review_typed) auto
  with typed SaveReview show ?thesis
    by (auto simp: save_review_def split: sum.splits) (metis legacy_transaction_inv prod.collapse)
next
  case (PatchReview arg t body)
  assume typed: "reviews_typed db"
  have "tx_inv reviews_typed (patch_review_body env t args)" if "patch_review_args body = Inr args" for args
  proof -
    obtain a d b where args: "args = (a, d, b)" by (metis prod.exhaust)
    show ?thesis
      using review_args_typed that unfolding args patch_review_body_def trade_exists_def by (auto intro!: tx_keeps upsert_review_typed)
  qed
  with typed PatchReview show ?thesis by (auto simp: patch_review_def strict_write_snd split: sum.splits)
qed (auto simp: create_instance_strict_def patch_instance_def strict_write_snd trade_bodies_typed split: sum.splits)

interpretation typed_desk: kept_invariant desk_do reviews_typed
proof unfold_locales
  fix db st assume typed: "reviews_typed db"
  show "reviews_typed (desk_do st db)"
  proof (cases st)
    case (Elsewhere ps fs)
    then show ?thesis using typed by (simp add: reviews_typed_def)
  qed (simp add: typed typed_op)
qed

text \<open>
  C40. What is stored as tags are tags, whichever writer stored them: a list of at most 40 different texts, none of them
  empty or longer than 60 characters.
\<close>

theorem reviews_hold_tags:
  assumes "reviews_typed db" and "map_of (td_reviews (fold desk_do steps db)) t = Some r"
  shows "\<exists>added dropped. rv_added r = tag_list added \<and> rv_dropped r = tag_list dropped \<and> tag_texts added \<and> tag_texts dropped"
proof -
  have "reviews_typed (fold desk_do steps db)" by (rule typed_desk.fold_keeps [OF assms(1)])
  with map_of_SomeD [OF assms(2)] have "tags_typed (rv_added r) \<and> tags_typed (rv_dropped r)" by (auto simp: reviews_typed_def)
  then show ?thesis unfolding tags_typed_def by blast
qed

section \<open>Examples\<close>

definition desk_cfg :: pydict where
  "desk_cfg = [(''sink'', PStr ''postgres'')]"

definition sample_desk :: trade_db where
  "sample_desk = \<lparr>td_opps = [(3, \<lparr>oi_name = ''NVDA'', oi_structure = None\<rparr>)],
     td_rows = [(7, \<lparr>td_opp = 3, td_account = ''U1'', td_opened = Aware 0, td_label = None, td_created = Aware 0, td_updated = Aware 0\<rparr>)],
     next_td = 8, td_plans = [(1, Some 7)], td_fills = [], td_reviews = [], next_review = 1\<rparr>"

definition sample_steps :: "desk_step list" where
  "sample_steps = [Call (calm_env 5) (PatchReview (ConnConfig desk_cfg) 7 (PDict [(''tags_added_json'', PList [PStr '' late exit '', PStr ''late exit''])])),
     Elsewhere [(1, None)] [], Call (calm_env 6) (DeleteTrade (Some desk_cfg) 7),
     Call (calm_env 6) (CreateTrade (ConnConfig desk_cfg) (PInt 3) (PStr ''U1'') (PInt 10) PNone)]"

lemma sample_desk_sound: "trades_sound sample_desk" "reviews_typed sample_desk"
  by (simp_all add: sample_desk_def trades_sound_def reviews_typed_def referred_def)

theorem references_survive_witness: "trades_sound (fold desk_do sample_steps sample_desk)"
  by (rule references_survive [OF sample_desk_sound(1)])

theorem reviews_hold_tags_witness:
  "\<exists>added dropped. tag_list added = tag_list [''late exit''] \<and> tag_list dropped = tag_list [] \<and> tag_texts added"
proof -
  have "map_of (td_reviews (fold desk_do sample_steps sample_desk)) 7 = Some \<lparr>rv_id = 1, rv_added = tag_list [''late exit''],
      rv_dropped = tag_list [], rv_reviewed = None, rv_created = Aware 5, rv_updated = Aware 5\<rparr>"
    by code_simp
  from reviews_hold_tags [OF sample_desk_sound(2) this] show ?thesis by auto
qed

theorem delete_exactly_when_free_witness:
  "isl (fst (delete_instance_strict (calm_env 6) (Some desk_cfg) 7 sample_desk))"
proof -
  have "is_postgres_config desk_cfg" and "7 \<in> referred sample_desk"
    by (simp_all add: is_postgres_config_def desk_cfg_def referred_def sample_desk_def)
  then show ?thesis using delete_exactly_when_free [of desk_cfg 6 7 sample_desk] by simp
qed

end
