(* ===== verification/Trade_List_Claims.thy ===== *)
theory Trade_List_Claims
  imports Trade_List Trade_State_Claims Trade_Claims "HOL-Library.Multiset"
begin

text \<open>
  The list shows every trade it is asked for once, as reading it alone would: the trade's columns, and
  the state of its own positions.
\<close>

section \<open>A state read with others\<close>

lemma latest_cong: "set xs = set ys \<Longrightarrow> latest xs = latest ys"
proof (cases "latest ys")
  case (Some d)
  assume "set xs = set ys"
  with Some have "latest xs = Some d" by (simp add: latest_Some)
  with Some show ?thesis by simp
qed simp

lemma derive_state_cong:
  assumes "set ls = set ls'"
  shows "derive_state ls d = derive_state ls' d"
proof -
  have "ls = [] \<longleftrightarrow> ls' = []" using assms by (metis set_empty)
  moreover have "filter is_open ls = [] \<longleftrightarrow> filter is_open ls' = []" using assms by (simp add: filter_empty_conv)
  moreover have "list_all (expired_leg d) (filter is_open ls) \<longleftrightarrow> list_all (expired_leg d) (filter is_open ls')"
    using assms by (simp add: list_all_iff)
  moreover have "latest (List.map_filter lg_last ls) = latest (List.map_filter lg_last ls')"
    "latest (List.map_filter lg_expiry (filter is_open ls)) = latest (List.map_filter lg_expiry (filter is_open ls'))"
    using assms by (auto intro!: latest_cong simp: set_map_filter)
  ultimately show ?thesis by (simp add: derive_state_def Let_def)
qed

lemma state_alone:
  assumes "t \<in> set ids"
  shows "map_of (instance_states st attrs fills ids d) t = map_of (instance_states st attrs fills [t] d) t"
proof -
  have look: "map_of (instance_states st attrs fills is d) t =
      Some (derive_state (case map_of (read_instance_legs st attrs fills (Some is)) t of None \<Rightarrow> [] | Some ls \<Rightarrow> ls) d)" if "t \<in> set is" for "is"
    using that map_of_each [of _ "remdups is" t] by (auto simp: instance_states_def Let_def)
  have "t \<in> set [t]" by simp
  from look [OF this] look [OF assms] show ?thesis
    using derive_state_cong [OF trans [OF legs_of_trade [OF assms] legs_of_trade [OF \<open>t \<in> set [t]\<close>, symmetric]]] by simp
qed

section \<open>The listed rows\<close>

definition shown :: "(rat \<Rightarrow> string) \<Rightarrow> book_counts \<Rightarrow> state_fill list \<Rightarrow> date \<Rightarrow> trade_db \<Rightarrow> int \<times> trade_rec \<Rightarrow> pydict" where
  "shown st b fills today db tr = trade_out db (fst tr) (snd tr) @
     [(''executions_count'', PInt (int (length (linked_executions b (fst tr)))))] @
     state_cols (instance_states st (td_fills db) fills [fst tr] today) (fst tr)"

lemma listed_each:
  "list_instances st b fills q today db =
     map (shown st b fills today db) (rev (sort_key (\<lambda>tr. instant (td_opened (snd tr))) (filter (lq_wants q) (td_rows db))))"
proof -
  let ?rows = "rev (sort_key (\<lambda>tr. instant (td_opened (snd tr))) (filter (lq_wants q) (td_rows db)))"
  have "state_cols (instance_states st (td_fills db) fills (map fst ?rows) today) (fst tr) =
      state_cols (instance_states st (td_fills db) fills [fst tr] today) (fst tr)" if "tr \<in> set ?rows" for tr
  proof -
    have "fst tr \<in> set (map fst ?rows)" using that by (metis image_eqI list.set_map)
    then show ?thesis unfolding state_cols_def by (subst state_alone) auto
  qed
  then show ?thesis
    unfolding list_instances_def Let_def by (intro map_cong [OF refl]) (auto simp: shown_def)
qed

text \<open>
  The list shows exactly the trades that pass its filters, each once, newest opening first. A row has the
  columns of the trade as \<open>get_instance_by_id\<close> reads it, and the state and closing day that reading the
  trade's fills alone gives.
\<close>

theorem list_shows_each_trade:
  "(\<exists>rows. list_instances st b fills q today db = map (shown st b fills today db) rows \<and>
      mset rows = filter_mset (lq_wants q) (mset (td_rows db)) \<and> sorted (rev (map (\<lambda>tr. instant (td_opened (snd tr))) rows))) \<and>
   (\<forall>env n t r. fault env n = None \<and> map_of (td_rows db) t = Some r \<longrightarrow>
      (\<exists>row. fst (get_instance_by_id t env (db, n)) = Inr (Some row) \<and>
        (\<forall>k\<in>set (map fst row). dget (shown st b fills today db (t, r)) k = dget row k)))"
proof -
  let ?rows = "rev (sort_key (\<lambda>tr. instant (td_opened (snd tr))) (filter (lq_wants q) (td_rows db)))"
  have one: "\<exists>row. fst (get_instance_by_id t env (db, n)) = Inr (Some row) \<and>
      (\<forall>k\<in>set (map fst row). dget (shown st b fills today db (t, r)) k = dget row k)"
    if "fault env n = None" "map_of (td_rows db) t = Some r" for env n t r
    using that by (auto simp: get_instance_by_id_def try_query_run shown_def dget_def map_add_def trade_out_def Let_def)
  have "list_instances st b fills q today db = map (shown st b fills today db) ?rows \<and>
      mset ?rows = filter_mset (lq_wants q) (mset (td_rows db)) \<and> sorted (rev (map (\<lambda>tr. instant (td_opened (snd tr))) ?rows))"
    by (simp add: listed_each rev_map [symmetric] mset_filter)
  then show ?thesis using one by blast
qed

theorem list_shows_each_trade_witness:
  "\<exists>row. fst (get_instance_by_id 7 (calm_env 0) (sample_desk, 0)) = Inr (Some row) \<and> dget row ''account_id'' = PStr ''U1'' \<and>
     dget (shown (\<lambda>_. []) \<lparr>bc_executions = [], bc_splits = []\<rparr> [] (2026, 1, 1) sample_desk (7, the (map_of (td_rows sample_desk) 7))) ''account_id'' = PStr ''U1''"
proof -
  obtain r where some: "map_of (td_rows sample_desk) 7 = Some r" and "td_account r = ''U1''" by (simp add: sample_desk_def)
  then have acc: "dget (trade_out sample_desk 7 r) ''account_id'' = PStr ''U1''" by (simp add: trade_out_def Let_def)
  have read: "fst (get_instance_by_id 7 (calm_env 0) (sample_desk, 0)) = Inr (Some (trade_out sample_desk 7 r))"
    by (simp add: get_instance_by_id_def try_query_run some)
  have col: "''account_id'' \<in> set (map fst (trade_out sample_desk 7 r))" by (simp add: trade_out_def Let_def)
  have "fault (calm_env 0) 0 = None \<and> map_of (td_rows sample_desk) 7 = Some r" using some by simp
  with conjunct2 [OF list_shows_each_trade [of "\<lambda>_. []" "\<lparr>bc_executions = [], bc_splits = []\<rparr>" "[]" _ "(2026, 1, 1)" sample_desk]]
  obtain row where row: "fst (get_instance_by_id 7 (calm_env 0) (sample_desk, 0)) = Inr (Some row)"
    "\<forall>k\<in>set (map fst row). dget (shown (\<lambda>_. []) \<lparr>bc_executions = [], bc_splits = []\<rparr> [] (2026, 1, 1) sample_desk (7, r)) k = dget row k"
    by blast
  from row(1) read have "row = trade_out sample_desk 7 r" by simp
  with row acc col have "dget (shown (\<lambda>_. []) \<lparr>bc_executions = [], bc_splits = []\<rparr> [] (2026, 1, 1) sample_desk (7, r)) ''account_id'' = PStr ''U1''"
    by metis
  with row acc \<open>row = trade_out sample_desk 7 r\<close> show ?thesis by (simp add: some)
qed

end
