(* ===== verification/Preferences.thy ===== *)
theory Preferences
  imports Write_Support Tally Json_Text
begin

text \<open>
  The desk's preferences: position categories, the tags of positions and the order of symbols of a
  category (\<open>portfolio/reader/position_categories.py\<close>), instrument classes
  (\<open>portfolio/reader/instrument_class.py\<close>), the watchlist (\<open>monitor/reader/watchlist.py\<close>) and saved
  searches (\<open>monitor/reader/saved_search.py\<close>), with the constraints of \<open>persistence/postgres/ddl.py\<close>.
\<close>

section \<open>Tables\<close>

record category =
  ct_name :: string
  ct_description :: "string option"
  ct_sort :: "int option"

text \<open>
  Tags are keyed by account and contract, the symbol order by category name and symbol. A watched
  contract is its columns; a saved search its owner, route, label and state.
\<close>

record saved_search =
  ss_owner :: string
  ss_route :: string
  ss_label :: string
  ss_state :: pyval
  ss_created :: int

record prefs_db =
  pf_categories :: "(int \<times> category) list"
  next_category :: int
  pf_tags :: "((string \<times> string) \<times> int) list"
  pf_orders :: "((string \<times> string) \<times> int) list"
  pf_watch :: "(string \<times> pydict) list"
  pf_classes :: "(string \<times> (string \<times> string option)) list"
  pf_searches :: "(int \<times> saved_search) list"
  next_search :: int

section \<open>Statements on categories\<close>

definition in_int4 :: "int \<Rightarrow> bool" where
  "in_int4 i \<longleftrightarrow> - 2147483648 \<le> i \<and> i \<le> 2147483647"

definition name_taken :: "prefs_db \<Rightarrow> string \<Rightarrow> int option \<Rightarrow> bool" where
  "name_taken db n except \<longleftrightarrow> list_ex (\<lambda>(i, c). ct_name c = n \<and> Some i \<noteq> except) (pf_categories db)"

definition category_violation :: "prefs_db \<Rightarrow> int option \<Rightarrow> category \<Rightarrow> exc option" where
  "category_violation db except c =
     (if \<not> (case ct_sort c of None \<Rightarrow> True | Some i \<Rightarrow> in_int4 i) then Some (DataError (None, None))
      else if name_taken db (ct_name c) except then Some (UniqueViolation (None, Some ''preference_position_categories_name_uq''))
      else None)"

definition insert_category :: "category \<Rightarrow> (prefs_db, int \<times> category) tx" where
  "insert_category c = stmt (\<lambda>db. checked (category_violation db None c) ((next_category db, c),
     db\<lparr>pf_categories := pf_categories db @ [(next_category db, c)], next_category := next_category db + 1\<rparr>))"

definition update_category :: "int \<Rightarrow> (category \<Rightarrow> category) \<Rightarrow> (prefs_db, (int \<times> category) option) tx" where
  "update_category i f = stmt (\<lambda>db. case map_of (pf_categories db) i of
       None \<Rightarrow> Inr (None, db)
     | Some c \<Rightarrow> checked (category_violation db (Some i) (f c))
         (Some (i, f c), db\<lparr>pf_categories := put_assoc i (f c) (pf_categories db)\<rparr>))"

text \<open>The tags go with the row (\<open>ON DELETE CASCADE\<close>), watched contracts lose their category (\<open>SET NULL\<close>).\<close>

definition uncategorized_watch :: "int \<Rightarrow> pydict \<Rightarrow> pydict" where
  "uncategorized_watch i w = (if dget w ''category_id'' = PInt i then dset ''category_id'' PNone w else w)"

definition delete_category :: "int \<Rightarrow> (prefs_db, int) tx" where
  "delete_category i = stmt (\<lambda>db. if map_of (pf_categories db) i = None then Inr (0, db)
     else Inr (1, db\<lparr>pf_categories := filter (\<lambda>r. fst r \<noteq> i) (pf_categories db), pf_tags := filter (\<lambda>t. snd t \<noteq> i) (pf_tags db),
            pf_watch := map (\<lambda>(k, w). (k, uncategorized_watch i w)) (pf_watch db)\<rparr>))"

definition category_name_of :: "int \<Rightarrow> (prefs_db, string option) tx" where
  "category_name_of i = query (\<lambda>db. map_option ct_name (map_of (pf_categories db) i))"

definition delete_order :: "string \<Rightarrow> (prefs_db, int) tx" where
  "delete_order n = stmt (\<lambda>db. Inr (int (length (filter (\<lambda>r. fst (fst r) = n) (pf_orders db))),
     db\<lparr>pf_orders := filter (\<lambda>r. fst (fst r) \<noteq> n) (pf_orders db)\<rparr>))"

definition ORDER_PKEY :: exc where
  "ORDER_PKEY = UniqueViolation (None, Some ''preference_market_streams_symbol_order_pkey'')"

definition rename_order :: "string \<Rightarrow> string \<Rightarrow> (prefs_db, int) tx" where
  "rename_order old new = stmt (\<lambda>db.
     let moved = map (\<lambda>((n, s), k). ((if n = old then new else n, s), k)) (pf_orders db)
     in checked (if distinct (map fst moved) then None else Some ORDER_PKEY)
          (int (length (filter (\<lambda>r. fst (fst r) = old) (pf_orders db))), db\<lparr>pf_orders := moved\<rparr>))"

definition insert_order :: "string \<Rightarrow> nat \<times> string \<Rightarrow> (prefs_db, unit) tx" where
  "insert_order n is = stmt (\<lambda>db. checked (if map_of (pf_orders db) (n, snd is) = None then None else Some ORDER_PKEY)
     ((), db\<lparr>pf_orders := pf_orders db @ [((n, snd is), int (fst is))]\<rparr>))"

section \<open>Categories\<close>

definition quoted :: "string \<Rightarrow> string" where
  "quoted s = CHR 0x27 # s @ [CHR 0x27]"

definition UNCATEGORIZED :: string where "UNCATEGORIZED = ''Uncategorized''"

definition RESERVED_CATEGORY_NAMES :: "string list" where "RESERVED_CATEGORY_NAMES = [UNCATEGORIZED]"

definition check_category_name :: "string \<Rightarrow> exc + unit" where
  "check_category_name n = (if lower (strip n) \<in> set (map lower RESERVED_CATEGORY_NAMES)
     then invalid (quoted (strip n) @ '' is reserved for positions without a category; choose another name.'') else Inr ())"

definition refuse_taken_name :: "string \<Rightarrow> int option \<Rightarrow> (prefs_db, unit) tx" where
  "refuse_taken_name n except = tx_bind (query (\<lambda>db. name_taken db n except)) (\<lambda>taken.
     if taken then tx_raise (Write (Conflict (''A position category named '' @ quoted n @ '' already exists.''))) else tx_return ())"

text \<open>\<open>_carry_symbol_order\<close>: the order moves to the new name, or goes; what was stored under the new name is replaced.\<close>

definition carry_symbol_order :: "string \<Rightarrow> string option \<Rightarrow> (prefs_db, int) tx" where
  "carry_symbol_order old new = (if old = [] \<or> Some old = new then tx_return 0
     else case new of
         None \<Rightarrow> delete_order old
       | Some n \<Rightarrow> tx_bind (delete_order n) (\<lambda>_. rename_order old n))"

definition POSITION_CATEGORY_PATCHABLE :: "string list" where
  "POSITION_CATEGORY_PATCHABLE = [''name'', ''description'', ''sort_order'']"

definition category_name_value :: "pyval \<Rightarrow> exc + string" where
  "category_name_value v = ebind (text_value v ''name'' False None) (\<lambda>n. ebind (check_category_name (the n)) (\<lambda>_. Inr (the n)))"

definition patch_category_columns :: "pyval \<Rightarrow> exc + (string option \<times> string option option \<times> int option option)" where
  "patch_category_columns body = ebind (check_fields body POSITION_CATEGORY_PATCHABLE ''position category'') (\<lambda>fs.
     ebind (sent_field fs ''name'' category_name_value) (\<lambda>n.
     ebind (sent_field fs ''description'' (\<lambda>v. text_value v ''description'' True None)) (\<lambda>d.
     ebind (sent_field fs ''sort_order'' (\<lambda>v. integer v ''sort_order'' True None)) (\<lambda>s. Inr (n, d, s)))))"

definition patched_category :: "string option \<times> string option option \<times> int option option \<Rightarrow> category \<Rightarrow> category" where
  "patched_category cols c = (case cols of (n, d, s) \<Rightarrow>
     c\<lparr>ct_name := (case n of None \<Rightarrow> ct_name c | Some x \<Rightarrow> x), ct_description := (case d of None \<Rightarrow> ct_description c | Some x \<Rightarrow> x),
       ct_sort := (case s of None \<Rightarrow> ct_sort c | Some x \<Rightarrow> x)\<rparr>)"

definition no_category :: "int \<Rightarrow> (prefs_db, 'a) tx" where
  "no_category i = tx_raise (Write (NotFound (''No position category '' @ int_str i @ ''.'')))"

definition patch_category_body :: "int \<Rightarrow> string option \<times> string option option \<times> int option option \<Rightarrow> (prefs_db, int \<times> category) tx" where
  "patch_category_body i cols = tx_bind (category_name_of i) (\<lambda>found. case found of
       None \<Rightarrow> no_category i
     | Some old \<Rightarrow>
         tx_bind (case fst cols of None \<Rightarrow> tx_return () | Some n \<Rightarrow> refuse_taken_name n (Some i)) (\<lambda>_.
         tx_bind (update_category i (patched_category cols)) (\<lambda>row. case row of
             None \<Rightarrow> no_category i
           | Some r \<Rightarrow> tx_bind (case fst cols of None \<Rightarrow> tx_return 0 | Some n \<Rightarrow> carry_symbol_order old (Some n)) (\<lambda>_. tx_return r))))"

definition patch_position_category :: "env \<Rightarrow> conn_arg \<Rightarrow> int \<Rightarrow> pyval \<Rightarrow> prefs_db \<Rightarrow> (exc + int \<times> category) \<times> prefs_db" where
  "patch_position_category env arg i body db = (case patch_category_columns body of
       Inl e \<Rightarrow> (Inl e, db)
     | Inr cols \<Rightarrow> raising (strict_write (''position category '' @ int_str i) FkInvalid (patch_category_body i cols) env arg db))"

text \<open>The counts are of tags, watched contracts and order rows.\<close>

definition delete_category_body :: "int \<Rightarrow> (prefs_db, int \<times> int \<times> int) tx" where
  "delete_category_body i = tx_bind (category_name_of i) (\<lambda>found. case found of
       None \<Rightarrow> no_category i
     | Some name \<Rightarrow>
         tx_bind (query (\<lambda>db. int (length (filter (\<lambda>t. snd t = i) (pf_tags db))))) (\<lambda>tags.
         tx_bind (query (\<lambda>db. int (length (filter (\<lambda>w. dget (snd w) ''category_id'' = PInt i) (pf_watch db))))) (\<lambda>watched.
         tx_bind (delete_category i) (\<lambda>n. if n = 0 then no_category i
         else tx_bind (carry_symbol_order name None) (\<lambda>ordered. tx_return (tags, watched, ordered))))))"

definition delete_position_category_strict :: "env \<Rightarrow> conn_arg \<Rightarrow> int \<Rightarrow> prefs_db \<Rightarrow> (exc + pydict) \<times> prefs_db" where
  "delete_position_category_strict env arg i db =
     (case strict_write (''position category '' @ int_str i) FkConflict (delete_category_body i) env arg db of
        (Inl e, s) \<Rightarrow> (Inl (Write e), s)
      | (Inr (tags, watched, ordered), s) \<Rightarrow> (Inr [(''deleted'', PStr ''hard''), (''id'', PInt i), (''tags_removed'', PInt tags),
          (''watchlist_uncategorized'', PInt watched), (''symbol_order_removed'', PInt ordered)], s))"

definition create_category_args :: "pyval \<Rightarrow> pyval \<Rightarrow> pyval \<Rightarrow> exc + category" where
  "create_category_args name description srt = ebind (category_name_value name) (\<lambda>n.
     ebind (text_value description ''description'' True None) (\<lambda>d.
     ebind (integer srt ''sort_order'' True None) (\<lambda>s. Inr \<lparr>ct_name = n, ct_description = d, ct_sort = s\<rparr>)))"

definition create_category_body :: "category \<Rightarrow> (prefs_db, int \<times> category) tx" where
  "create_category_body c = tx_bind (refuse_taken_name (ct_name c) None) (\<lambda>_. insert_category c)"

definition create_position_category_strict :: "env \<Rightarrow> conn_arg \<Rightarrow> pyval \<Rightarrow> pyval \<Rightarrow> pyval \<Rightarrow> prefs_db \<Rightarrow> (exc + int \<times> category) \<times> prefs_db" where
  "create_position_category_strict env arg name description srt db = (case create_category_args name description srt of
       Inl e \<Rightarrow> (Inl e, db)
     | Inr c \<Rightarrow> raising (strict_write (''position category '' @ quoted (ct_name c)) FkInvalid (create_category_body c) env arg db))"


section \<open>Tags\<close>

definition no_category_named :: "int \<Rightarrow> (prefs_db, 'a) tx" where
  "no_category_named c = tx_raise (Write (Invalid (''No position category '' @ int_str c @ ''.'')))"

definition delete_tag :: "string \<times> string \<Rightarrow> (prefs_db, int) tx" where
  "delete_tag k = stmt (\<lambda>db. Inr (int (length (filter (\<lambda>t. fst t = k) (pf_tags db))), db\<lparr>pf_tags := filter (\<lambda>t. fst t \<noteq> k) (pf_tags db)\<rparr>))"

definition upsert :: "'k \<Rightarrow> 'v \<Rightarrow> ('k \<times> 'v) list \<Rightarrow> ('k \<times> 'v) list" where
  "upsert k v xs = (if map_of xs k = None then xs @ [(k, v)] else put_assoc k v xs)"

definition upsert_tag :: "string \<times> string \<Rightarrow> int \<Rightarrow> (prefs_db, unit) tx" where
  "upsert_tag k c = stmt (\<lambda>db.
     if map_of (pf_categories db) c = None then Inl (ForeignKeyViolation (None, Some ''preference_position_category_tags_category_id_fkey''))
     else Inr ((), db\<lparr>pf_tags := upsert k c (pf_tags db)\<rparr>))"

definition set_tag_args :: "pyval \<Rightarrow> pyval \<Rightarrow> pyval \<Rightarrow> exc + ((string \<times> string) \<times> int option)" where
  "set_tag_args account key category = ebind (text_value account ''account_id'' False None) (\<lambda>a.
     ebind (text_value key ''contract_key'' False None) (\<lambda>k.
     ebind (row_id category ''category_id'' True) (\<lambda>c. Inr ((the a, the k), c))))"

text \<open>The answer is whether a tag was cleared.\<close>

definition set_tag_body :: "string \<times> string \<Rightarrow> int option \<Rightarrow> (prefs_db, bool) tx" where
  "set_tag_body k category = (case category of
       None \<Rightarrow> tx_bind (delete_tag k) (\<lambda>n. tx_return (n > 0))
     | Some c \<Rightarrow> tx_bind (query (\<lambda>db. map_of (pf_categories db) c \<noteq> None)) (\<lambda>found.
         if \<not> found then no_category_named c else tx_bind (upsert_tag k c) (\<lambda>_. tx_return False)))"

definition set_position_category_tag_strict :: "env \<Rightarrow> conn_arg \<Rightarrow> pyval \<Rightarrow> pyval \<Rightarrow> pyval \<Rightarrow> prefs_db \<Rightarrow> (exc + pydict) \<times> prefs_db" where
  "set_position_category_tag_strict env arg account key category db = (case set_tag_args account key category of
       Inl e \<Rightarrow> (Inl e, db)
     | Inr (k, c) \<Rightarrow> (case strict_write (''the category tag of '' @ snd k @ '' in '' @ fst k) FkInvalid (set_tag_body k c) env arg db of
           (Inl e, s) \<Rightarrow> (Inl (Write e), s)
         | (Inr cleared, s) \<Rightarrow> (Inr [(''account_id'', PStr (fst k)), (''contract_key'', PStr (snd k)),
             (''category_id'', (case c of None \<Rightarrow> PNone | Some i \<Rightarrow> PInt i)), (''cleared'', PBool cleared)], s)))"

section \<open>The order of symbols\<close>

fun symbol_values :: "nat \<Rightarrow> pyval list \<Rightarrow> exc + string list" where
  "symbol_values i [] = Inr []"
| "symbol_values i (v # vs) = ebind (text_value v (''symbols['' @ nat_str i @ '']'') False None) (\<lambda>s.
     ebind (symbol_values (i + 1) vs) (\<lambda>ss. Inr (the s # ss)))"

definition set_order_args :: "pyval \<Rightarrow> pyval \<Rightarrow> exc + (string \<times> string list)" where
  "set_order_args category symbols = ebind (text_value category ''category_name'' False None) (\<lambda>n.
     ebind (list_value symbols ''symbols'') (\<lambda>vs. ebind (symbol_values 0 vs) (\<lambda>ordered.
       let repeated = sort (remdups (filter (\<lambda>s. count_list ordered s > 1) ordered))
       in if repeated \<noteq> [] then invalid (''symbols lists '' @ name_list repeated 5 @ '' more than once.'')
          else Inr (the n, ordered))))"

definition set_order_body :: "string \<Rightarrow> string list \<Rightarrow> (prefs_db, unit) tx" where
  "set_order_body n ordered = tx_bind (delete_order n) (\<lambda>_. tx_each (insert_order n) (enumerate 0 ordered))"

definition set_market_streams_symbol_order_strict :: "env \<Rightarrow> conn_arg \<Rightarrow> pyval \<Rightarrow> pyval \<Rightarrow> prefs_db \<Rightarrow> (exc + pydict) \<times> prefs_db" where
  "set_market_streams_symbol_order_strict env arg category symbols db = (case set_order_args category symbols of
       Inl e \<Rightarrow> (Inl e, db)
     | Inr (n, ordered) \<Rightarrow> (case strict_write (''the symbol order of '' @ n) FkInvalid (set_order_body n ordered) env arg db of
           (Inl e, s) \<Rightarrow> (Inl (Write e), s)
         | (Inr _, s) \<Rightarrow> (Inr [(''category_name'', PStr n), (''symbols'', PList (map PStr ordered))], s)))"

text \<open>Readers answer nothing when there is no connection or the SELECT raises.\<close>

definition get_position_categories :: "env \<Rightarrow> prefs_db \<Rightarrow> (int \<times> category) list" where
  "get_position_categories env db = (if \<not> connect_ok env then [] else case query pf_categories env (db, 0) of
       (Inl _, _) \<Rightarrow> []
     | (Inr rows, _) \<Rightarrow> sort_key (\<lambda>(i, c). (case ct_sort c of None \<Rightarrow> 999 | Some k \<Rightarrow> k, ct_name c)) rows)"

definition order_rows :: "((string \<times> string) \<times> int) list \<Rightarrow> (string \<times> string) list" where
  "order_rows rows = filter (\<lambda>(n, s). n \<noteq> [] \<and> s \<noteq> [])
     (map (\<lambda>((n, s), _). (strip n, strip s)) (sort_key (\<lambda>((n, _), k). (n, k)) rows))"

definition get_market_streams_symbol_order :: "env \<Rightarrow> prefs_db \<Rightarrow> (string \<times> string list) list" where
  "get_market_streams_symbol_order env db = (if \<not> connect_ok env then [] else case query pf_orders env (db, 0) of
       (Inl _, _) \<Rightarrow> []
     | (Inr rows, _) \<Rightarrow> tally_by [] (\<lambda>r ss. ss @ [snd r]) fst (order_rows rows))"

section \<open>Instrument classes\<close>

definition INSTRUMENT_CLASSES :: "string list" where
  "INSTRUMENT_CLASSES = [''stock'', ''fixed_income'', ''cash_like'']"

definition normalize_instrument_class :: "pyval \<Rightarrow> string option" where
  "normalize_instrument_class v =
     (let s = map (\<lambda>c. if c = CHR ''-'' \<or> c = CHR '' '' then CHR ''_'' else c) (lower (strip (if truthy v then py_str v else [])))
      in if s \<in> set INSTRUMENT_CLASSES then Some s else None)"

definition class_key :: "pyval \<Rightarrow> exc + string" where
  "class_key v = (let k = strip (if truthy v then py_str v else []) in if k = [] then invalid ''contract_key is required.'' else Inr k)"

definition class_value :: "pyval \<Rightarrow> exc + string" where
  "class_value v = ebind (text_value v ''instrument_class'' False None) (\<lambda>raw.
     case normalize_instrument_class (PStr (the raw)) of
       None \<Rightarrow> invalid (''instrument_class must be one of '' @ join '', '' INSTRUMENT_CLASSES @ ''.'')
     | Some c \<Rightarrow> Inr c)"

definition class_violation :: "string \<Rightarrow> exc option" where
  "class_violation c = (if c \<in> set [''stock'', ''fixed_income'', ''cash_like''] then None
     else Some (CheckViolation (None, Some ''preference_instrument_class_instrument_class_check'')))"

definition class_not_registered :: "string \<Rightarrow> (prefs_db, 'a) tx" where
  "class_not_registered k = tx_raise (Write (NotFound (k @ '' has no instrument class registered.'')))"

definition INSTRUMENT_CLASS_PATCHABLE :: "string list" where
  "INSTRUMENT_CLASS_PATCHABLE = [''instrument_class'', ''note'']"

definition update_class :: "string \<Rightarrow> string option \<times> string option option \<Rightarrow> (prefs_db, (string \<times> string option) option) tx" where
  "update_class k cols = stmt (\<lambda>db. case map_of (pf_classes db) k of
       None \<Rightarrow> Inr (None, db)
     | Some (c, note) \<Rightarrow>
         let c' = (case fst cols of None \<Rightarrow> c | Some x \<Rightarrow> x); note' = (case snd cols of None \<Rightarrow> note | Some x \<Rightarrow> x)
         in checked (class_violation c') (Some (c', note'), db\<lparr>pf_classes := put_assoc k (c', note') (pf_classes db)\<rparr>))"

definition patch_class_columns :: "pyval \<Rightarrow> exc + (string option \<times> string option option)" where
  "patch_class_columns body = ebind (check_fields body INSTRUMENT_CLASS_PATCHABLE ''instrument class'') (\<lambda>fs.
     ebind (sent_field fs ''instrument_class'' class_value) (\<lambda>c.
     ebind (sent_field fs ''note'' (\<lambda>v. text_value v ''note'' True None)) (\<lambda>n. Inr (c, n))))"

definition class_what :: "string \<Rightarrow> string" where
  "class_what k = ''the instrument class of '' @ k"

definition patch_class_body :: "string \<Rightarrow> string option \<times> string option option \<Rightarrow> (prefs_db, string \<times> string option) tx" where
  "patch_class_body k cols = tx_bind (update_class k cols) (\<lambda>row. case row of None \<Rightarrow> class_not_registered k | Some r \<Rightarrow> tx_return r)"

definition patch_instrument_class :: "env \<Rightarrow> conn_arg \<Rightarrow> pyval \<Rightarrow> pyval \<Rightarrow> prefs_db \<Rightarrow> (exc + string \<times> string option) \<times> prefs_db" where
  "patch_instrument_class env arg key body db =
     (case ebind (class_key key) (\<lambda>k. ebind (patch_class_columns body) (\<lambda>cols. Inr (k, cols))) of
        Inl e \<Rightarrow> (Inl e, db)
      | Inr (k, cols) \<Rightarrow> raising (strict_write (class_what k) FkInvalid (patch_class_body k cols) env arg db))"

definition set_class_args :: "pyval \<Rightarrow> pyval \<Rightarrow> pyval \<Rightarrow> exc + (string \<times> string \<times> string option)" where
  "set_class_args key cls note = ebind (class_key key) (\<lambda>k. ebind (class_value cls) (\<lambda>c.
     ebind (text_value note ''note'' True None) (\<lambda>n. Inr (k, c, n))))"

definition set_class_body :: "string \<Rightarrow> string \<times> string option \<Rightarrow> (prefs_db, string \<times> string option) tx" where
  "set_class_body k r = stmt (\<lambda>db. checked (class_violation (fst r)) (r, db\<lparr>pf_classes := upsert k r (pf_classes db)\<rparr>))"

definition set_instrument_class_strict :: "env \<Rightarrow> conn_arg \<Rightarrow> pyval \<Rightarrow> pyval \<Rightarrow> pyval \<Rightarrow> prefs_db \<Rightarrow> (exc + string \<times> string option) \<times> prefs_db" where
  "set_instrument_class_strict env arg key cls note db = (case set_class_args key cls note of
       Inl e \<Rightarrow> (Inl e, db)
     | Inr (k, r) \<Rightarrow> raising (strict_write (class_what k) FkInvalid (set_class_body k r) env arg db))"

definition delete_class_body :: "string \<Rightarrow> (prefs_db, unit) tx" where
  "delete_class_body k = tx_bind (stmt (\<lambda>db. Inr (map_of (pf_classes db) k \<noteq> None, db\<lparr>pf_classes := filter (\<lambda>r. fst r \<noteq> k) (pf_classes db)\<rparr>)))
     (\<lambda>found. if \<not> found then class_not_registered k else tx_return ())"

definition delete_instrument_class_strict :: "env \<Rightarrow> conn_arg \<Rightarrow> pyval \<Rightarrow> prefs_db \<Rightarrow> (exc + pydict) \<times> prefs_db" where
  "delete_instrument_class_strict env arg key db = (case class_key key of
       Inl e \<Rightarrow> (Inl e, db)
     | Inr k \<Rightarrow> (case strict_write (class_what k) FkInvalid (delete_class_body k) env arg db of
           (Inl e, s) \<Rightarrow> (Inl (Write e), s)
         | (Inr _, s) \<Rightarrow> (Inr [(''deleted'', PStr ''hard''), (''contract_key'', PStr k)], s)))"

definition list_instrument_classes :: "env \<Rightarrow> prefs_db \<Rightarrow> (string \<times> (string \<times> string option)) list" where
  "list_instrument_classes env db = (if \<not> connect_ok env then [] else case query pf_classes env (db, 0) of
       (Inl _, _) \<Rightarrow> []
     | (Inr rows, _) \<Rightarrow> sort_key fst rows)"


section \<open>The watchlist\<close>

definition WATCHLIST_VALUE_COLUMNS :: "string list" where
  "WATCHLIST_VALUE_COLUMNS = [''symbol'', ''sec_type'', ''expiry'', ''strike'', ''option_right'', ''display_label'', ''source'', ''category_id'']"

definition WATCHLIST_PATCHABLE :: "string list" where
  "WATCHLIST_PATCHABLE = WATCHLIST_VALUE_COLUMNS @ [''optionable'']"

text \<open>The stored key, and the bare symbol it was given as.\<close>

definition watchlist_key :: "pyval \<Rightarrow> exc + (string \<times> string option)" where
  "watchlist_key v = (let raw = strip (if truthy v then py_str v else []) in
     if raw = [] then invalid ''contract_key is required.''
     else if CHR ''|'' \<notin> set raw then Inr (raw @ ''|STK|||'', Some raw) else Inr (raw, None))"

text \<open>The sent columns with their values, in the order of the source.\<close>

definition sent_column :: "pydict \<Rightarrow> string \<Rightarrow> (pyval \<Rightarrow> exc + pyval) \<Rightarrow> exc + pydict" where
  "sent_column fs k f = (if dhas fs k then ebind (f (dget fs k)) (\<lambda>v. Inr [(k, v)]) else Inr [])"

definition watch_column :: "string \<Rightarrow> pyval \<Rightarrow> exc + pyval" where
  "watch_column k v =
     (if k = ''strike'' then ebind (number v k True (Some 0)) (\<lambda>q. Inr (case q of None \<Rightarrow> PNone | Some x \<Rightarrow> PFloat (Fin x)))
      else if k = ''category_id'' then ebind (row_id v k True) (\<lambda>i. Inr (case i of None \<Rightarrow> PNone | Some x \<Rightarrow> PInt x))
      else if k = ''optionable'' then ebind (boolean v k) (\<lambda>b. Inr (PBool b))
      else ebind (text_value v k True None) (\<lambda>t. Inr (of_opt t)))"

definition watchlist_columns :: "pydict \<Rightarrow> exc + pydict" where
  "watchlist_columns fs = ebind (emap (\<lambda>k. sent_column fs k (watch_column k))
     [''symbol'', ''sec_type'', ''expiry'', ''option_right'', ''display_label'', ''source'', ''strike'', ''category_id'', ''optionable''])
     (\<lambda>cs. Inr (concat cs))"

definition in_int8 :: "int \<Rightarrow> bool" where
  "in_int8 i \<longleftrightarrow> - 9223372036854775808 \<le> i \<and> i \<le> 9223372036854775807"

definition watch_violation :: "prefs_db \<Rightarrow> pydict \<Rightarrow> exc option" where
  "watch_violation db w = (case dget w ''category_id'' of
       PInt i \<Rightarrow> if \<not> in_int8 i then Some (DataError (None, None))
         else if map_of (pf_categories db) i = None then Some (ForeignKeyViolation (None, Some ''watchlist_category_id_fkey'')) else None
     | _ \<Rightarrow> None)"

text \<open>\<open>d.update(e)\<close>, and a row with the defaults of the table.\<close>

definition set_all :: "pydict \<Rightarrow> pydict \<Rightarrow> pydict" where
  "set_all e d = fold (\<lambda>(k, v). dset k v) e d"

definition watch_defaults :: "env \<Rightarrow> pydict" where
  "watch_defaults env = map (\<lambda>k. (k, PNone)) WATCHLIST_VALUE_COLUMNS @ [(''optionable'', PBool False), (''created_at'', PInt (now env))]"

definition setdefault :: "string \<Rightarrow> pyval \<Rightarrow> pydict \<Rightarrow> pydict" where
  "setdefault k v d = (if dhas d k then d else d @ [(k, v)])"

definition insert_columns :: "string option \<Rightarrow> pydict \<Rightarrow> pydict" where
  "insert_columns bare cols = setdefault ''source'' (PStr ''manual'')
     (case bare of None \<Rightarrow> cols | Some s \<Rightarrow> setdefault ''sec_type'' (PStr ''STK'') (setdefault ''symbol'' (PStr s) cols))"

text \<open>\<open>INSERT \<dots> ON CONFLICT (contract_key) DO UPDATE SET\<close> the sent columns.\<close>

definition upsert_watch :: "env \<Rightarrow> string \<Rightarrow> string option \<Rightarrow> pydict \<Rightarrow> (prefs_db, unit) tx" where
  "upsert_watch env k bare cols = stmt (\<lambda>db.
     let w = (case map_of (pf_watch db) k of None \<Rightarrow> set_all (insert_columns bare cols) (watch_defaults env) | Some old \<Rightarrow> set_all cols old)
     in checked (watch_violation db w) ((), db\<lparr>pf_watch := upsert k w (pf_watch db)\<rparr>))"

definition update_watch :: "string \<Rightarrow> pydict \<Rightarrow> (prefs_db, int) tx" where
  "update_watch k cols = stmt (\<lambda>db. case map_of (pf_watch db) k of
       None \<Rightarrow> Inr (0, db)
     | Some old \<Rightarrow> checked (watch_violation db (set_all cols old)) (1, db\<lparr>pf_watch := put_assoc k (set_all cols old) (pf_watch db)\<rparr>))"

definition category_label :: "prefs_db \<Rightarrow> pydict \<Rightarrow> pyval" where
  "category_label db w = (case dget w ''category_id'' of
       PInt i \<Rightarrow> (case map_of (pf_categories db) i of None \<Rightarrow> PNone | Some c \<Rightarrow> PStr (ct_name c))
     | _ \<Rightarrow> PNone)"

definition watch_out :: "prefs_db \<Rightarrow> string \<Rightarrow> pydict \<Rightarrow> pydict" where
  "watch_out db k w = (''contract_key'', PStr k) # map (\<lambda>c. (c, dget w c)) WATCHLIST_PATCHABLE
     @ [(''category'', category_label db w), (''created_at'', (case dget w ''created_at'' of PInt t \<Rightarrow> PFloat (Fin (of_int t / 1000000)) | v \<Rightarrow> v))]"

definition read_watchlist_row :: "string \<Rightarrow> (prefs_db, pydict) tx" where
  "read_watchlist_row k = tx_bind (query (\<lambda>db. map_option (watch_out db k) (map_of (pf_watch db) k))) (\<lambda>r. case r of
       None \<Rightarrow> tx_raise (Write (Failed (''watchlist item '' @ k @ '' was written but could not be read back; nothing was saved.'') False))
     | Some row \<Rightarrow> tx_return row)"

definition upsert_watchlist_args :: "pyval \<Rightarrow> pyval \<Rightarrow> exc + (string \<times> string option \<times> pydict)" where
  "upsert_watchlist_args key body = ebind (watchlist_key key) (\<lambda>(k, bare). case body of
       PDict fs \<Rightarrow> ebind (if fs = [] then Inr [] else check_fields body WATCHLIST_PATCHABLE ''watchlist'') (\<lambda>fs'.
         ebind (watchlist_columns fs') (\<lambda>cols. Inr (k, bare, cols)))
     | _ \<Rightarrow> invalid ''The watchlist fields must be an object.'')"

definition upsert_watchlist :: "env \<Rightarrow> conn_arg \<Rightarrow> pyval \<Rightarrow> pyval \<Rightarrow> prefs_db \<Rightarrow> (exc + pydict) \<times> prefs_db" where
  "upsert_watchlist env arg key body db = (case upsert_watchlist_args key body of
       Inl e \<Rightarrow> (Inl e, db)
     | Inr (k, bare, cols) \<Rightarrow> raising (strict_write (''watchlist item '' @ k) FkInvalid
         (tx_bind (upsert_watch env k bare cols) (\<lambda>_. read_watchlist_row k)) env arg db))"

definition not_watched :: "string \<Rightarrow> (prefs_db, 'a) tx" where
  "not_watched k = tx_raise (Write (NotFound (k @ '' is not on the watchlist.'')))"

definition patch_watchlist_args :: "pyval \<Rightarrow> pyval \<Rightarrow> exc + (string \<times> pydict)" where
  "patch_watchlist_args key body = ebind (watchlist_key key) (\<lambda>(k, _).
     ebind (check_fields body WATCHLIST_PATCHABLE ''watchlist'') (\<lambda>fs. ebind (watchlist_columns fs) (\<lambda>cols. Inr (k, cols))))"

definition patch_watchlist_body :: "string \<Rightarrow> pydict \<Rightarrow> (prefs_db, pydict) tx" where
  "patch_watchlist_body k cols = tx_bind (update_watch k cols) (\<lambda>n. if n = 0 then not_watched k else read_watchlist_row k)"

definition patch_watchlist_item :: "env \<Rightarrow> conn_arg \<Rightarrow> pyval \<Rightarrow> pyval \<Rightarrow> prefs_db \<Rightarrow> (exc + pydict) \<times> prefs_db" where
  "patch_watchlist_item env arg key body db = (case patch_watchlist_args key body of
       Inl e \<Rightarrow> (Inl e, db)
     | Inr (k, cols) \<Rightarrow> raising (strict_write (''watchlist item '' @ k) FkInvalid (patch_watchlist_body k cols) env arg db))"

definition delete_watch_body :: "string \<Rightarrow> (prefs_db, unit) tx" where
  "delete_watch_body k = tx_bind (stmt (\<lambda>db. Inr (map_of (pf_watch db) k \<noteq> None, db\<lparr>pf_watch := filter (\<lambda>r. fst r \<noteq> k) (pf_watch db)\<rparr>)))
     (\<lambda>found. if \<not> found then not_watched k else tx_return ())"

definition delete_watchlist_strict :: "env \<Rightarrow> conn_arg \<Rightarrow> pyval \<Rightarrow> prefs_db \<Rightarrow> (exc + pydict) \<times> prefs_db" where
  "delete_watchlist_strict env arg key db = (case watchlist_key key of
       Inl e \<Rightarrow> (Inl e, db)
     | Inr (k, _) \<Rightarrow> (case strict_write (''watchlist item '' @ k) FkInvalid (delete_watch_body k) env arg db of
           (Inl e, s) \<Rightarrow> (Inl (Write e), s)
         | (Inr _, s) \<Rightarrow> (Inr [(''deleted'', PStr ''hard''), (''contract_key'', PStr k)], s)))"

text \<open>Newest first.\<close>

definition watch_added :: "pydict \<Rightarrow> int" where
  "watch_added w = (case dget w ''created_at'' of PInt t \<Rightarrow> t | _ \<Rightarrow> 0)"

definition get_watchlist :: "env \<Rightarrow> prefs_db \<Rightarrow> pydict list" where
  "get_watchlist env db = (case query pf_watch env (db, 0) of
       (Inl _, _) \<Rightarrow> []
     | (Inr rows, _) \<Rightarrow> map (\<lambda>(k, w). watch_out db k w) (sort_key (\<lambda>(_, w). - watch_added w) rows))"

section \<open>Saved searches\<close>

definition OPERATOR :: string where "OPERATOR = ''operator''"

definition LABEL_MAX :: nat where "LABEL_MAX = 120"

definition ROUTE_MAX :: nat where "ROUTE_MAX = 200"

text \<open>\<open>" ".join(s.split())\<close>.\<close>

definition squeeze :: "string \<Rightarrow> string" where
  "squeeze s = join '' '' (filter (\<lambda>w. w \<noteq> []) (split_on CHR '' '' (map (\<lambda>c. if is_space c then CHR '' '' else c) s)))"

definition saved_search_args :: "pyval \<Rightarrow> pyval \<Rightarrow> pyval \<Rightarrow> exc + (string \<times> string)" where
  "saved_search_args route label state =
     (let r = strip (if truthy route then py_str route else []); l = squeeze (if truthy label then py_str label else [])
      in if \<not> startswith r ''/'' \<or> length r > ROUTE_MAX then invalid ''route must be an app path, like /trade/plans.''
         else if l = [] \<or> length l > LABEL_MAX then invalid (''label is required, at most '' @ nat_str LABEL_MAX @ '' characters.'')
         else case state of PDict _ \<Rightarrow> Inr (r, l) | _ \<Rightarrow> invalid ''state must be an object.'')"

definition same_search :: "string \<Rightarrow> string \<Rightarrow> string \<Rightarrow> int \<times> saved_search \<Rightarrow> bool" where
  "same_search owner r l s \<longleftrightarrow> ss_owner (snd s) = owner \<and> ss_route (snd s) = r \<and> ss_label (snd s) = l"

definition upsert_search :: "env \<Rightarrow> string \<Rightarrow> string \<Rightarrow> string \<Rightarrow> string \<Rightarrow> (prefs_db, int) tx" where
  "upsert_search env owner r l txt = stmt (\<lambda>db. case coerce env ''state_json'' (PStr txt) of
       Inl e \<Rightarrow> Inl e
     | Inr state \<Rightarrow> (case find (same_search owner r l) (pf_searches db) of
           Some (i, s) \<Rightarrow> Inr (i, db\<lparr>pf_searches := put_assoc i (s\<lparr>ss_state := state\<rparr>) (pf_searches db)\<rparr>)
         | None \<Rightarrow> Inr (next_search db, db\<lparr>pf_searches := pf_searches db @ [(next_search db,
             \<lparr>ss_owner = owner, ss_route = r, ss_label = l, ss_state = state, ss_created = now env\<rparr>)], next_search := next_search db + 1\<rparr>)))"

definition create_saved_search :: "env \<Rightarrow> pydict option \<Rightarrow> pyval \<Rightarrow> pyval \<Rightarrow> pyval \<Rightarrow> string \<Rightarrow> prefs_db \<Rightarrow> (exc + int option) \<times> prefs_db" where
  "create_saved_search env cfg route label state owner db = (case saved_search_args route label state of
       Inl e \<Rightarrow> (Inl e, db)
     | Inr (r, l) \<Rightarrow> if \<not> conn_from_config env cfg then (Inr None, db)
         else legacy_transaction (case json_dumps state of
             Inl e \<Rightarrow> tx_raise (PyErr e)
           | Inr txt \<Rightarrow> tx_bind (upsert_search env owner r l txt) (\<lambda>i. tx_return (True, Some i))) env db)"

definition delete_search :: "int \<Rightarrow> string \<Rightarrow> (prefs_db, bool) tx" where
  "delete_search i owner = stmt (\<lambda>db. Inr (list_ex (\<lambda>s. fst s = i \<and> ss_owner (snd s) = owner) (pf_searches db),
     db\<lparr>pf_searches := filter (\<lambda>s. \<not> (fst s = i \<and> ss_owner (snd s) = owner)) (pf_searches db)\<rparr>))"

definition delete_saved_search :: "env \<Rightarrow> pydict option \<Rightarrow> int \<Rightarrow> string \<Rightarrow> prefs_db \<Rightarrow> (exc + bool) \<times> prefs_db" where
  "delete_saved_search env cfg i owner db = (if \<not> conn_from_config env cfg then (Inr False, db)
     else legacy_transaction (tx_bind (delete_search i owner) (\<lambda>gone. tx_return (True, gone))) env db)"

definition delete_saved_search_strict :: "env \<Rightarrow> conn_arg \<Rightarrow> int \<Rightarrow> string \<Rightarrow> prefs_db \<Rightarrow> (exc + pydict) \<times> prefs_db" where
  "delete_saved_search_strict env arg i owner db =
     (case strict_write (''saved search '' @ int_str i) FkInvalid (tx_bind (delete_search i owner) (\<lambda>gone.
         if \<not> gone then tx_raise (Write (NotFound (''No saved search '' @ int_str i @ ''.''))) else tx_return ())) env arg db of
        (Inl e, s) \<Rightarrow> (Inl (Write e), s)
      | (Inr _, s) \<Rightarrow> (Inr [(''deleted'', PStr ''hard''), (''preference_saved_search_id'', PInt i)], s))"

definition search_out :: "env \<Rightarrow> int \<times> saved_search \<Rightarrow> pydict" where
  "search_out env s = [(''preference_saved_search_id'', PInt (fst s)), (''route'', PStr (ss_route (snd s))),
     (''label'', PStr (ss_label (snd s))),
     (''state_json'', (case ss_state (snd s) of
         PStr t \<Rightarrow> (case json_loads env t of None \<Rightarrow> PDict [] | Some j \<Rightarrow> j) | PNone \<Rightarrow> PDict [] | v \<Rightarrow> v)),
     (''created_at'', PDatetime (Aware (ss_created (snd s))))]"

text \<open>The test that the table exists is a statement of its own; the table is there.\<close>

definition list_saved_searches :: "env \<Rightarrow> pydict option \<Rightarrow> string \<Rightarrow> prefs_db \<Rightarrow> exc + pydict list" where
  "list_saved_searches env cfg owner db = (if \<not> conn_from_config env cfg then Inr []
     else ebind (fst (tx_bind (query (\<lambda>_. True)) (\<lambda>_. query pf_searches) env (db, 0))) (\<lambda>rows.
       Inr (map (search_out env) (sort_key (\<lambda>s. (ss_created (snd s), fst s)) (filter (\<lambda>s. ss_owner (snd s) = owner) rows)))))"

end
