(* ===== verification/Preference_Claims.thy ===== *)
theory Preference_Claims
  imports Preferences
begin

text \<open>
  The writers of preferences keep the tables consistent whatever fails; the order of a category's symbols,
  stored under its name, stays with the category through renames and deletes; a write to the watchlist
  changes the fields it was sent.
\<close>

section \<open>Operations\<close>

datatype prefs_op =
    PatchCategory conn_arg int pyval
  | CreateCategory conn_arg pyval pyval pyval
  | DeleteCategory conn_arg int
  | SetTag conn_arg pyval pyval pyval
  | SetOrder conn_arg pyval pyval
  | PatchClass conn_arg pyval pyval
  | SetClass conn_arg pyval pyval pyval
  | DeleteClass conn_arg pyval
  | UpsertWatch conn_arg pyval pyval
  | PatchWatch conn_arg pyval pyval
  | DeleteWatch conn_arg pyval
  | SaveSearch "pydict option" pyval pyval pyval string
  | ForgetSearch "pydict option" int string
  | ForgetSearchStrict conn_arg int string

abbreviation answered :: "(exc + 'a) \<times> prefs_db \<Rightarrow> (exc + unit) \<times> prefs_db" where
  "answered \<equiv> apfst (map_sum id (\<lambda>_. ()))"

fun run_prefs_op :: "env \<times> prefs_op \<Rightarrow> prefs_db \<Rightarrow> (exc + unit) \<times> prefs_db" where
  "run_prefs_op (env, PatchCategory arg i body) db = answered (patch_position_category env arg i body db)"
| "run_prefs_op (env, CreateCategory arg n d s) db = answered (create_position_category_strict env arg n d s db)"
| "run_prefs_op (env, DeleteCategory arg i) db = answered (delete_position_category_strict env arg i db)"
| "run_prefs_op (env, SetTag arg a k c) db = answered (set_position_category_tag_strict env arg a k c db)"
| "run_prefs_op (env, SetOrder arg c ss) db = answered (set_market_streams_symbol_order_strict env arg c ss db)"
| "run_prefs_op (env, PatchClass arg k body) db = answered (patch_instrument_class env arg k body db)"
| "run_prefs_op (env, SetClass arg k c n) db = answered (set_instrument_class_strict env arg k c n db)"
| "run_prefs_op (env, DeleteClass arg k) db = answered (delete_instrument_class_strict env arg k db)"
| "run_prefs_op (env, UpsertWatch arg k body) db = answered (upsert_watchlist env arg k body db)"
| "run_prefs_op (env, PatchWatch arg k body) db = answered (patch_watchlist_item env arg k body db)"
| "run_prefs_op (env, DeleteWatch arg k) db = answered (delete_watchlist_strict env arg k db)"
| "run_prefs_op (env, SaveSearch cfg r l st owner) db = answered (create_saved_search env cfg r l st owner db)"
| "run_prefs_op (env, ForgetSearch cfg i owner) db = answered (delete_saved_search env cfg i owner db)"
| "run_prefs_op (env, ForgetSearchStrict arg i owner) db = answered (delete_saved_search_strict env arg i owner db)"

text \<open>The body a call runs, its validation done; what the body answers is forgotten.\<close>

definition forget :: "('s, 'a) tx \<Rightarrow> ('s, unit) tx" where
  "forget m = tx_bind m (\<lambda>_. tx_return ())"

lemma tx_ok_forget: "tx_ok env (forget m) s u s' \<longleftrightarrow> (\<exists>a. tx_ok env m s a s')"
proof
  assume "tx_ok env (forget m) s u s'"
  then show "\<exists>a. tx_ok env m s a s'" unfolding forget_def by (auto dest!: tx_ok_bindD)
next
  assume "\<exists>a. tx_ok env m s a s'"
  then obtain a n n' where "m env (s, n) = (Inr a, (s', n'))" by (auto simp: tx_ok_def)
  then have "forget m env (s, n) = (Inr (), (s', n'))" by (simp add: forget_def tx_bind_run tx_return_run)
  then show "tx_ok env (forget m) s u s'" unfolding tx_ok_def by auto
qed

fun body_of :: "env \<times> prefs_op \<Rightarrow> exc + (prefs_db, unit) tx" where
  "body_of (env, PatchCategory arg i body) = ebind (patch_category_columns body) (\<lambda>cols. Inr (forget (patch_category_body i cols)))"
| "body_of (env, CreateCategory arg n d s) = ebind (create_category_args n d s) (\<lambda>c. Inr (forget (create_category_body c)))"
| "body_of (env, DeleteCategory arg i) = Inr (forget (delete_category_body i))"
| "body_of (env, SetTag arg a k c) = ebind (set_tag_args a k c) (\<lambda>(t, i). Inr (forget (set_tag_body t i)))"
| "body_of (env, SetOrder arg c ss) = ebind (set_order_args c ss) (\<lambda>(n, ordered). Inr (set_order_body n ordered))"
| "body_of (env, PatchClass arg k body) = ebind (class_key k) (\<lambda>k. ebind (patch_class_columns body) (\<lambda>cols. Inr (forget (patch_class_body k cols))))"
| "body_of (env, SetClass arg k c n) = ebind (set_class_args k c n) (\<lambda>(k, r). Inr (forget (set_class_body k r)))"
| "body_of (env, DeleteClass arg k) = ebind (class_key k) (\<lambda>k. Inr (delete_class_body k))"
| "body_of (env, UpsertWatch arg k body) = ebind (upsert_watchlist_args k body) (\<lambda>(k, bare, cols). Inr (forget (tx_bind (upsert_watch env k bare cols) (\<lambda>_. read_watchlist_row k))))"
| "body_of (env, PatchWatch arg k body) = ebind (patch_watchlist_args k body) (\<lambda>(k, cols). Inr (forget (patch_watchlist_body k cols)))"
| "body_of (env, DeleteWatch arg k) = ebind (watchlist_key k) (\<lambda>(k, _). Inr (delete_watch_body k))"
| "body_of (env, SaveSearch cfg r l st owner) = ebind (saved_search_args r l st) (\<lambda>(r, l). case json_dumps st of
     Inl e \<Rightarrow> Inl (PyErr e) | Inr txt \<Rightarrow> Inr (forget (tx_bind (upsert_search env owner r l txt) (\<lambda>i. tx_return (True, Some i)))))"
| "body_of (env, ForgetSearch cfg i owner) = Inr (forget (tx_bind (delete_search i owner) (\<lambda>gone. tx_return (True, gone))))"
| "body_of (env, ForgetSearchStrict arg i owner) = Inr (tx_bind (delete_search i owner) (\<lambda>gone.
     if \<not> gone then tx_raise (Write (NotFound (''No saved search '' @ int_str i @ ''.''))) else tx_return ()))"

lemma answered_eq [simp]: "answered r = (Inr u, s') \<longleftrightarrow> (\<exists>a. r = (Inr a, s'))" "answered r = (Inl e, s') \<longleftrightarrow> r = (Inl e, s')"
proof -
  obtain x t where r: "r = (x, t)" by fastforce
  show "answered r = (Inr u, s') \<longleftrightarrow> (\<exists>a. r = (Inr a, s'))" "answered r = (Inl e, s') \<longleftrightarrow> r = (Inl e, s')"
    by (cases x; simp add: r)+
qed

lemma failed_op: "run_prefs_op c db = (Inl e, db') \<Longrightarrow> db' = db"
  by (cases "(c, db)" rule: run_prefs_op.cases)
    (auto simp: patch_position_category_def create_position_category_strict_def delete_position_category_strict_def
      set_position_category_tag_strict_def set_market_streams_symbol_order_strict_def patch_instrument_class_def
      set_instrument_class_strict_def delete_instrument_class_strict_def upsert_watchlist_def patch_watchlist_item_def
      delete_watchlist_strict_def create_saved_search_def delete_saved_search_def delete_saved_search_strict_def
      dest: strict_write_error legacy_transaction_error split: sum.splits prod.splits if_splits)


text \<open>What a call does to the board: nothing, or one of these moves.\<close>

datatype move = Stay | Rename int string | Drop int | Create int string | Arrange string "string list"

fun move_of :: "prefs_op \<Rightarrow> prefs_db \<Rightarrow> move" where
  "move_of (PatchCategory arg i body) db = (case patch_category_columns body of Inr (Some n, _) \<Rightarrow> Rename i n | _ \<Rightarrow> Stay)"
| "move_of (CreateCategory arg n d s) db = (case create_category_args n d s of Inr c \<Rightarrow> Create (next_category db) (ct_name c) | _ \<Rightarrow> Stay)"
| "move_of (DeleteCategory arg i) db = Drop i"
| "move_of (SetOrder arg c ss) db = (case set_order_args c ss of Inr (n, ordered) \<Rightarrow> Arrange n ordered | _ \<Rightarrow> Stay)"
| "move_of _ db = Stay"

lemma answered_op:
  assumes "run_prefs_op (env, op) db = (Inr u, db')"
  shows "(\<exists>m. body_of (env, op) = Inr m \<and> tx_ok env m db () db') \<or> db' = db \<and> move_of op db = Stay"
  using assms
  by (cases op)
    (auto simp: patch_position_category_def create_position_category_strict_def delete_position_category_strict_def
      set_position_category_tag_strict_def set_market_streams_symbol_order_strict_def patch_instrument_class_def
      set_instrument_class_strict_def delete_instrument_class_strict_def upsert_watchlist_def patch_watchlist_item_def
      delete_watchlist_strict_def create_saved_search_def delete_saved_search_def delete_saved_search_strict_def tx_ok_forget
      dest!: strict_write_ok legacy_transaction_ok split: sum.splits prod.splits if_splits, blast)


section \<open>Consistency\<close>

definition valid_name :: "string \<Rightarrow> bool" where
  "valid_name n \<longleftrightarrow> n \<noteq> [] \<and> strip n = n \<and> lower n \<notin> set (map lower RESERVED_CATEGORY_NAMES)"

definition key_text :: "string \<Rightarrow> bool" where
  "key_text s \<longleftrightarrow> s \<noteq> [] \<and> strip s = s"

abbreviation category_names :: "prefs_db \<Rightarrow> string list" where
  "category_names db \<equiv> map (ct_name \<circ> snd) (pf_categories db)"

definition refers_to_categories :: "prefs_db \<Rightarrow> bool" where
  "refers_to_categories db \<longleftrightarrow> (\<forall>(k, c)\<in>set (pf_tags db). map_of (pf_categories db) c \<noteq> None) \<and>
     (\<forall>(k, w)\<in>set (pf_watch db). case dget w ''category_id'' of PInt i \<Rightarrow> map_of (pf_categories db) i \<noteq> None | _ \<Rightarrow> True)"

lemma refers_iff:
  "refers_to_categories db \<longleftrightarrow> (\<forall>k c. (k, c) \<in> set (pf_tags db) \<longrightarrow> c \<in> fst ` set (pf_categories db)) \<and>
     (\<forall>k w i. (k, w) \<in> set (pf_watch db) \<longrightarrow> dget w ''category_id'' = PInt i \<longrightarrow> i \<in> fst ` set (pf_categories db))"
proof -
  have "(case v of PInt i \<Rightarrow> P i | _ \<Rightarrow> True) \<longleftrightarrow> (\<forall>i. v = PInt i \<longrightarrow> P i)" for v P by (cases v) auto
  then show ?thesis unfolding refers_to_categories_def map_of_eq_None_iff by fastforce
qed

text \<open>
  Category names are unique texts, none reserved; tags and watched contracts name categories there are; no
  position has two tags, no name an order with a symbol twice; classes are classes; searches are unique.
\<close>

definition categories_ok :: "prefs_db \<Rightarrow> bool" where
  "categories_ok db \<longleftrightarrow> distinct (map fst (pf_categories db)) \<and> distinct (category_names db) \<and>
     (\<forall>r\<in>set (pf_categories db). fst r < next_category db \<and> valid_name (ct_name (snd r)))"

definition orders_ok :: "((string \<times> string) \<times> int) list \<Rightarrow> bool" where
  "orders_ok rows \<longleftrightarrow> distinct (map fst rows) \<and> (\<forall>r\<in>set rows. key_text (fst (fst r)) \<and> key_text (snd (fst r)))"

definition classes_ok :: "(string \<times> (string \<times> string option)) list \<Rightarrow> bool" where
  "classes_ok rows \<longleftrightarrow> distinct (map fst rows) \<and> (\<forall>r\<in>set rows. fst (snd r) \<in> set INSTRUMENT_CLASSES)"

abbreviation search_key :: "saved_search \<Rightarrow> string \<times> string \<times> string" where
  "search_key s \<equiv> (ss_owner s, ss_route s, ss_label s)"

definition searches_ok :: "prefs_db \<Rightarrow> bool" where
  "searches_ok db \<longleftrightarrow> distinct (map fst (pf_searches db)) \<and> (\<forall>s\<in>set (pf_searches db). fst s < next_search db) \<and>
     distinct (map (search_key \<circ> snd) (pf_searches db))"

definition prefs_ok :: "prefs_db \<Rightarrow> bool" where
  "prefs_ok db \<longleftrightarrow> categories_ok db \<and> refers_to_categories db \<and> distinct (map fst (pf_tags db)) \<and> distinct (map fst (pf_watch db)) \<and>
     orders_ok (pf_orders db) \<and> classes_ok (pf_classes db) \<and> searches_ok db"

lemma other_tables [simp]:
  "categories_ok (db\<lparr>pf_tags := a\<rparr>) = categories_ok db" "categories_ok (db\<lparr>pf_orders := b\<rparr>) = categories_ok db"
  "categories_ok (db\<lparr>pf_watch := w\<rparr>) = categories_ok db" "categories_ok (db\<lparr>pf_classes := c\<rparr>) = categories_ok db"
  "categories_ok (db\<lparr>pf_searches := ss, next_search := n\<rparr>) = categories_ok db" "categories_ok (db\<lparr>pf_searches := ss\<rparr>) = categories_ok db"
  "searches_ok (db\<lparr>pf_tags := a\<rparr>) = searches_ok db" "searches_ok (db\<lparr>pf_orders := b\<rparr>) = searches_ok db"
  "searches_ok (db\<lparr>pf_watch := w\<rparr>) = searches_ok db" "searches_ok (db\<lparr>pf_classes := c\<rparr>) = searches_ok db"
  "searches_ok (db\<lparr>pf_categories := cs\<rparr>) = searches_ok db"
  by (simp_all add: categories_ok_def searches_ok_def)

subsection \<open>Tables with a key\<close>

lemma upsert_keys: "distinct (map fst xs) \<Longrightarrow> distinct (map fst (upsert k v xs))"
  by (auto simp: upsert_def map_of_eq_None_iff)

lemma in_upsert: "x \<in> set (upsert k v xs) \<Longrightarrow> x = (k, v) \<or> x \<in> set xs"
  by (auto simp: upsert_def dest: in_put_assoc split: if_splits)

lemma upsert_ball: "(\<forall>x\<in>set xs. P x) \<Longrightarrow> P (k, v) \<Longrightarrow> \<forall>x\<in>set (upsert k v xs). P x"
  by (blast dest: in_upsert)

lemma put_assoc_ball: "(\<forall>x\<in>set xs. P x) \<Longrightarrow> P (k, v) \<Longrightarrow> \<forall>x\<in>set (put_assoc k v xs). P x"
  by (blast dest: in_put_assoc)

lemma put_assoc_same_keys [simp]: "fst ` set (put_assoc k v xs) = fst ` set xs"
  by (metis list.set_map put_assoc_keys)

lemma map_of_upsert: "map_of (upsert k v xs) j = (if j = k then Some v else map_of xs j)"
  by (auto simp: upsert_def map_of_snoc map_of_put_assoc simp del: map_of_append split: option.splits)

lemma distinct_keys_filter: "distinct (map f xs) \<Longrightarrow> distinct (map f (filter P xs))"
  by (rule distinct_map_filter)

text \<open>Replacing the row of a key keeps a column unique when no other row has the new value.\<close>

lemma put_assoc_unique:
  assumes "distinct (map (f \<circ> snd) xs)" and "\<And>j c. (j, c) \<in> set xs \<Longrightarrow> f c = f v \<Longrightarrow> j = k" and "distinct (map fst xs)"
  shows "distinct (map (f \<circ> snd) (put_assoc k v xs))"
  using assms
proof (induction xs)
  case (Cons x xs)
  obtain j c where x: "x = (j, c)" by fastforce
  have IH: "distinct (map (f \<circ> snd) (put_assoc k v xs))" by (rule Cons.IH) (use Cons.prems in auto)
  have same: "map (f \<circ> snd) (put_assoc k v xs) = map (f \<circ> snd) xs" if "k \<notin> fst ` set xs"
    using that by (induction xs) (auto simp: put_assoc_def)
  have "f (if j = k then v else c) \<notin> (f \<circ> snd) ` set (put_assoc k v xs)"
  proof (cases "j = k")
    case True
    then have k: "k \<notin> fst ` set xs" using Cons.prems(3) x by auto
    have "f v \<notin> f ` snd ` set xs" using Cons.prems(2) k x by force
    moreover have "set (put_assoc k v xs) = set xs" using k by (force simp: put_assoc_def image_iff)
    ultimately show ?thesis using True by (auto simp: image_image)
  next
    case False
    show ?thesis
    proof
      assume "f (if j = k then v else c) \<in> (f \<circ> snd) ` set (put_assoc k v xs)"
      then obtain y where y: "y \<in> set (put_assoc k v xs)" "f (snd y) = f c" using False by auto
      from in_put_assoc [OF y(1)] consider "y = (k, v)" | "y \<in> set xs" by blast
      then show False
      proof cases
        case 1
        with y(2) Cons.prems(2) [of j c] x False show False by auto
      next
        case 2
        with y(2) Cons.prems(1) x show False by force
      qed
    qed
  qed
  moreover have "put_assoc k v (x # xs) = (j, if j = k then v else c) # put_assoc k v xs" by (simp add: x put_assoc_def)
  ultimately show ?case using IH by (simp add: comp_def)
qed (simp add: put_assoc_def)


subsection \<open>Every statement\<close>

lemmas stmt_keeps = tx_inv_stmt [where P = prefs_ok]

lemma refers_put: "refers_to_categories db \<Longrightarrow> refers_to_categories (db\<lparr>pf_categories := put_assoc i c (pf_categories db)\<rparr>)"
  by (simp add: refers_iff)

lemma not_taken: "\<not> name_taken db n except \<longleftrightarrow> (\<forall>(i, c)\<in>set (pf_categories db). ct_name c = n \<longrightarrow> Some i = except)"
  by (auto simp: name_taken_def list_ex_iff)

lemma category_violation_None: "category_violation db except c = None \<Longrightarrow> \<not> name_taken db (ct_name c) except"
  by (auto simp: category_violation_def split: if_splits)

lemma insert_category_inv: "valid_name (ct_name c) \<Longrightarrow> tx_inv prefs_ok (insert_category c)"
  unfolding insert_category_def
proof (rule stmt_keeps)
  fix s a s' assume c: "valid_name (ct_name c)" and ok: "prefs_ok s"
    and run: "checked (category_violation s None c) ((next_category s, c),
      s\<lparr>pf_categories := pf_categories s @ [(next_category s, c)], next_category := next_category s + 1\<rparr>) = Inr (a, s')"
  from run have s': "s' = s\<lparr>pf_categories := pf_categories s @ [(next_category s, c)], next_category := next_category s + 1\<rparr>"
    and free: "\<not> name_taken s (ct_name c) None" by (auto dest: category_violation_None)
  from free have "ct_name c \<notin> set (category_names s)" by (auto simp: not_taken)
  moreover have "next_category s \<notin> fst ` set (pf_categories s)" using ok by (fastforce simp: prefs_ok_def categories_ok_def)
  moreover have "refers_to_categories s'" using ok by (auto simp: prefs_ok_def refers_iff s')
  ultimately show "prefs_ok s'" using ok c by (fastforce simp: prefs_ok_def categories_ok_def searches_ok_def s')
qed

lemma update_category_inv:
  assumes "\<And>c. valid_name (ct_name c) \<Longrightarrow> valid_name (ct_name (f c))"
  shows "tx_inv prefs_ok (update_category i f)"
  unfolding update_category_def
proof (rule stmt_keeps)
  fix s a s' assume ok: "prefs_ok s"
    and run: "(case map_of (pf_categories s) i of None \<Rightarrow> Inr (None, s)
      | Some c \<Rightarrow> checked (category_violation s (Some i) (f c)) (Some (i, f c), s\<lparr>pf_categories := put_assoc i (f c) (pf_categories s)\<rparr>)) = Inr (a, s')"
  show "prefs_ok s'"
  proof (cases "map_of (pf_categories s) i")
    case None
    with run ok show ?thesis by simp
  next
    case (Some c)
    with run have s': "s' = s\<lparr>pf_categories := put_assoc i (f c) (pf_categories s)\<rparr>"
      and free: "\<not> name_taken s (ct_name (f c)) (Some i)" by (auto dest: category_violation_None)
    have c: "(i, c) \<in> set (pf_categories s)" using Some by (rule map_of_SomeD)
    have "distinct (map (ct_name \<circ> snd) (put_assoc i (f c) (pf_categories s)))"
      by (rule put_assoc_unique) (use ok free in \<open>auto simp: prefs_ok_def categories_ok_def not_taken\<close>)
    moreover have "\<forall>r\<in>set (put_assoc i (f c) (pf_categories s)). fst r < next_category s \<and> valid_name (ct_name (snd r))"
      by (rule put_assoc_ball) (use ok c assms in \<open>auto simp: prefs_ok_def categories_ok_def\<close>)
    ultimately show ?thesis using ok refers_put [of s] by (simp add: prefs_ok_def categories_ok_def s')
  qed
qed

lemma delete_category_inv [tx_keeps]: "tx_inv prefs_ok (delete_category i)"
  unfolding delete_category_def
proof (rule stmt_keeps)
  fix s a s' assume ok: "prefs_ok s"
    and run: "(if map_of (pf_categories s) i = None then Inr (0, s) else Inr (1, s\<lparr>pf_categories := filter (\<lambda>r. fst r \<noteq> i) (pf_categories s),
      pf_tags := filter (\<lambda>t. snd t \<noteq> i) (pf_tags s), pf_watch := map (\<lambda>(k, w). (k, uncategorized_watch i w)) (pf_watch s)\<rparr>)) = Inr (a, s')"
  show "prefs_ok s'"
  proof (cases "map_of (pf_categories s) i = None")
    case True
    with run ok show ?thesis by simp
  next
    case False
    with run have s': "s' = s\<lparr>pf_categories := filter (\<lambda>r. fst r \<noteq> i) (pf_categories s), pf_tags := filter (\<lambda>t. snd t \<noteq> i) (pf_tags s),
      pf_watch := map (\<lambda>(k, w). (k, uncategorized_watch i w)) (pf_watch s)\<rparr>" by auto
    have "map fst (map (\<lambda>(k, w). (k, uncategorized_watch i w)) (pf_watch s)) = map fst (pf_watch s)" by auto
    moreover have "refers_to_categories s'"
      using ok by (fastforce simp: prefs_ok_def refers_iff s' uncategorized_watch_def split: if_splits)
    ultimately show ?thesis
      using ok by (simp add: prefs_ok_def categories_ok_def searches_ok_def s' distinct_keys_filter del: map_map)
  qed
qed

lemma tag_statements_inv [tx_keeps]: "tx_inv prefs_ok (delete_tag k)" "tx_inv prefs_ok (upsert_tag k c)"
proof -
  show "tx_inv prefs_ok (delete_tag k)"
    unfolding delete_tag_def by (rule stmt_keeps) (auto simp: prefs_ok_def refers_iff distinct_keys_filter)
  show "tx_inv prefs_ok (upsert_tag k c)"
    unfolding upsert_tag_def
    by (rule stmt_keeps) (auto simp: prefs_ok_def refers_iff upsert_keys map_of_eq_None_iff simp del: imageE dest!: in_upsert split: if_splits, force)
qed

lemma order_statements_inv [tx_keeps]:
  "tx_inv prefs_ok (delete_order n)" "key_text new \<Longrightarrow> tx_inv prefs_ok (rename_order old new)"
  "key_text n \<Longrightarrow> key_text (snd is) \<Longrightarrow> tx_inv prefs_ok (insert_order n is)"
  unfolding delete_order_def rename_order_def insert_order_def
  by (rule stmt_keeps; auto simp: prefs_ok_def refers_iff orders_ok_def distinct_keys_filter Let_def map_of_eq_None_iff split: if_splits)+

lemma class_violation_None [simp]: "class_violation c = None \<longleftrightarrow> c \<in> set INSTRUMENT_CLASSES"
  by (simp add: class_violation_def INSTRUMENT_CLASSES_def)

lemma class_statements_inv [tx_keeps]:
  "tx_inv prefs_ok (update_class k cols)" "tx_inv prefs_ok (set_class_body k r)"
  "tx_inv prefs_ok (stmt (\<lambda>db. Inr (map_of (pf_classes db) k \<noteq> None, db\<lparr>pf_classes := filter (\<lambda>r. fst r \<noteq> k) (pf_classes db)\<rparr>)))"
  unfolding update_class_def set_class_body_def
  by (rule stmt_keeps; auto simp: prefs_ok_def refers_iff classes_ok_def distinct_keys_filter Let_def upsert_keys
      simp del: map_of_eq_Some_iff dest!: in_upsert in_put_assoc split: if_splits option.splits)+

lemma watch_violation_None:
  "watch_violation db w = None \<Longrightarrow> dget w ''category_id'' = PInt i \<Longrightarrow> i \<in> fst ` set (pf_categories db)"
  by (auto simp: watch_violation_def map_of_eq_None_iff split: if_splits)

lemma watch_statements_inv [tx_keeps]:
  "tx_inv prefs_ok (upsert_watch env k bare cols)" "tx_inv prefs_ok (update_watch k cols)"
  "tx_inv prefs_ok (stmt (\<lambda>db. Inr (map_of (pf_watch db) k \<noteq> None, db\<lparr>pf_watch := filter (\<lambda>r. fst r \<noteq> k) (pf_watch db)\<rparr>)))"
  unfolding upsert_watch_def update_watch_def
  by (rule stmt_keeps; auto simp: prefs_ok_def refers_iff distinct_keys_filter Let_def upsert_keys
      simp del: map_of_eq_Some_iff dest!: in_upsert in_put_assoc dest: watch_violation_None split: if_splits option.splits)+


lemma search_statements_inv [tx_keeps]:
  "tx_inv prefs_ok (upsert_search env owner r l txt)" "tx_inv prefs_ok (delete_search i owner)"
proof -
  show "tx_inv prefs_ok (upsert_search env owner r l txt)"
    unfolding upsert_search_def
  proof (rule stmt_keeps)
    fix s a s' assume ok: "prefs_ok s"
      and run: "(case coerce env ''state_json'' (PStr txt) of Inl e \<Rightarrow> Inl e | Inr state \<Rightarrow>
        (case find (same_search owner r l) (pf_searches s) of
           Some (i, t) \<Rightarrow> Inr (i, s\<lparr>pf_searches := put_assoc i (t\<lparr>ss_state := state\<rparr>) (pf_searches s)\<rparr>)
         | None \<Rightarrow> Inr (next_search s, s\<lparr>pf_searches := pf_searches s @ [(next_search s,
             \<lparr>ss_owner = owner, ss_route = r, ss_label = l, ss_state = state, ss_created = now env\<rparr>)], next_search := next_search s + 1\<rparr>))) = Inr (a, s')"
    from run obtain state where st: "coerce env ''state_json'' (PStr txt) = Inr state" by (auto split: sum.splits)
    from ok have so: "searches_ok s" by (simp add: prefs_ok_def)
    show "prefs_ok s'"
    proof (cases "find (same_search owner r l) (pf_searches s)")
      case None
      let ?new = "\<lparr>ss_owner = owner, ss_route = r, ss_label = l, ss_state = state, ss_created = now env\<rparr>"
      from None run st have s': "s' = s\<lparr>pf_searches := pf_searches s @ [(next_search s, ?new)], next_search := next_search s + 1\<rparr>" by auto
      have "(owner, r, l) \<notin> set (map (search_key \<circ> snd) (pf_searches s))" using None by (fastforce simp: find_None_iff same_search_def)
      then have "searches_ok s'" using so by (fastforce simp: searches_ok_def s')
      with ok show ?thesis by (simp add: prefs_ok_def refers_iff s')
    next
      case (Some q)
      then obtain i t where q: "q = (i, t)" and t: "(i, t) \<in> set (pf_searches s)" by (metis find_Some_iff nth_mem prod.exhaust)
      let ?t = "t\<lparr>ss_state := state\<rparr>"
      from Some run st q have s': "s' = s\<lparr>pf_searches := put_assoc i ?t (pf_searches s)\<rparr>" by auto
      have "distinct (map (search_key \<circ> snd) (put_assoc i ?t (pf_searches s)))"
      proof (rule put_assoc_unique)
        fix j c assume "(j, c) \<in> set (pf_searches s)" and "search_key c = search_key ?t"
        with t have "(search_key \<circ> snd) (j, c) = (search_key \<circ> snd) (i, t)" by simp
        moreover have "inj_on (search_key \<circ> snd) (set (pf_searches s))" using so by (simp add: searches_ok_def distinct_map)
        ultimately have "(j, c) = (i, t)" using \<open>(j, c) \<in> set (pf_searches s)\<close> t by (blast dest: inj_onD)
        then show "j = i" by simp
      qed (use so in \<open>simp_all add: searches_ok_def\<close>)
      moreover have "\<forall>x\<in>set (put_assoc i ?t (pf_searches s)). fst x < next_search s"
        by (rule put_assoc_ball) (use so t in \<open>auto simp: searches_ok_def\<close>)
      ultimately have "searches_ok s'" using so by (simp add: searches_ok_def s')
      with ok show ?thesis by (simp add: prefs_ok_def refers_iff s')
    qed
  qed
  show "tx_inv prefs_ok (delete_search i owner)"
    unfolding delete_search_def
    by (rule stmt_keeps) (auto simp: prefs_ok_def refers_iff searches_ok_def distinct_keys_filter)
qed

subsection \<open>Every call\<close>

lemma category_name_value_ok:
  assumes "category_name_value v = Inr n"
  shows "valid_name n"
proof -
  from assms obtain r where r: "text_value v ''name'' False None = Inr r" "check_category_name (the r) = Inr ()" "n = the r"
    by (auto simp: category_name_value_def)
  from text_value_required [OF r(1)] obtain t where t: "r = Some t" by auto
  from text_value_ok [OF r(1) [unfolded t]] r(2, 3) show ?thesis
    by (auto simp: t valid_name_def check_category_name_def split: if_splits)
qed

lemma key_text_value: "text_value v name False ml = Inr t \<Longrightarrow> key_text (the t)"
  using text_value_required [of v name ml t] by (auto simp: key_text_def dest: text_value_ok)

lemma valid_is_key: "valid_name n \<Longrightarrow> key_text n"
  by (simp add: valid_name_def key_text_def)

lemma symbol_values_ok: "symbol_values i vs = Inr ss \<Longrightarrow> s \<in> set ss \<Longrightarrow> key_text s"
  by (induction i vs arbitrary: ss rule: symbol_values.induct) (auto dest: key_text_value)

lemma forget_inv [tx_keeps]: "tx_inv P m \<Longrightarrow> tx_inv P (forget m)"
  unfolding forget_def by (intro tx_keeps)

lemma small_bodies_inv [tx_keeps]:
  "tx_inv P (category_name_of i)" "tx_inv P (refuse_taken_name n e)" "tx_inv P (no_category i)" "tx_inv P (no_category_named i)"
  "tx_inv P (class_not_registered k)" "tx_inv P (not_watched k)" "tx_inv P (read_watchlist_row k)"
  unfolding category_name_of_def refuse_taken_name_def no_category_def no_category_named_def class_not_registered_def not_watched_def
    read_watchlist_row_def
  by (intro tx_keeps)+

lemma carry_inv: "(\<And>n. new = Some n \<Longrightarrow> key_text n) \<Longrightarrow> tx_inv prefs_ok (carry_symbol_order old new)"
  unfolding carry_symbol_order_def by (intro tx_keeps) auto

lemma category_bodies_inv:
  "(\<And>n. fst cols = Some n \<Longrightarrow> valid_name n) \<Longrightarrow> tx_inv prefs_ok (patch_category_body i cols)"
  "valid_name (ct_name c) \<Longrightarrow> tx_inv prefs_ok (create_category_body c)" "tx_inv prefs_ok (delete_category_body i)"
proof -
  assume n: "\<And>n. fst cols = Some n \<Longrightarrow> valid_name n"
  then have "valid_name (ct_name (patched_category cols c))" if "valid_name (ct_name c)" for c
    using that by (auto simp: patched_category_def split: prod.split option.split)
  then show "tx_inv prefs_ok (patch_category_body i cols)"
    unfolding patch_category_body_def by (intro tx_keeps update_category_inv carry_inv) (use n valid_is_key in auto)
next
  show "valid_name (ct_name c) \<Longrightarrow> tx_inv prefs_ok (create_category_body c)"
    unfolding create_category_body_def by (intro tx_keeps insert_category_inv)
  show "tx_inv prefs_ok (delete_category_body i)"
    unfolding delete_category_body_def by (intro tx_keeps carry_inv) auto
qed

lemma order_body_inv:
  assumes "key_text n" and "\<And>s. s \<in> set ordered \<Longrightarrow> key_text s"
  shows "tx_inv prefs_ok (set_order_body n ordered)"
proof -
  have "tx_inv prefs_ok (tx_each (insert_order n) xs)" if "\<And>x. x \<in> set xs \<Longrightarrow> key_text (snd x)" for xs
    using that by (induction xs) (simp_all add: tx_inv_return tx_inv_bind order_statements_inv assms(1))
  moreover have "key_text (snd x)" if "x \<in> set (enumerate 0 ordered)" for x
    using that assms(2) using nth_mem [of "fst x" ordered] by (auto simp: in_set_enumerate_eq)
  ultimately have "tx_inv prefs_ok (tx_each (insert_order n) (enumerate 0 ordered))" by blast
  then show ?thesis unfolding set_order_body_def by (intro tx_inv_bind order_statements_inv(1))
qed

lemma deletes_inv: "tx_inv prefs_ok (delete_class_body k)" "tx_inv prefs_ok (delete_watch_body k)"
  unfolding delete_class_body_def delete_watch_body_def by (intro tx_keeps)+

lemma body_keeps: "body_of c = Inr m \<Longrightarrow> tx_inv prefs_ok m"
proof (cases c rule: body_of.cases)
  case (1 env arg i body)
  assume "body_of c = Inr m"
  with 1 obtain n d t where cols: "patch_category_columns body = Inr (n, d, t)" "m = forget (patch_category_body i (n, d, t))" by auto
  have "valid_name x" if "n = Some x" for x
    using cols(1) that by (auto simp: patch_category_columns_def dest!: sent_field_Some category_name_value_ok)
  then have "tx_inv prefs_ok (patch_category_body i (n, d, t))" by (intro category_bodies_inv) simp
  with cols(2) show ?thesis by (auto intro: forget_inv)
next
  case (2 env arg n d s)
  assume "body_of c = Inr m"
  with 2 show ?thesis
    by (auto simp: create_category_args_def dest!: category_name_value_ok intro!: forget_inv category_bodies_inv)
next
  case (5 env arg n ss)
  assume "body_of c = Inr m"
  with 5 obtain k ordered where "set_order_args n ss = Inr (k, ordered)" "m = set_order_body k ordered" by auto
  then show ?thesis
    by (auto simp: set_order_args_def Let_def dest: key_text_value symbol_values_ok split: if_splits intro!: order_body_inv)
next
  case (12 env cfg r l st owner)
  assume "body_of c = Inr m"
  with 12 obtain a b js where "m = forget (tx_bind (upsert_search env owner a b js) (\<lambda>i. tx_return (True, Some i)))"
    by (cases "json_dumps st") auto
  then show ?thesis by (auto intro!: tx_keeps)
qed (auto simp: set_tag_body_def patch_class_body_def deletes_inv patch_watchlist_body_def
    intro!: tx_keeps category_bodies_inv split: prod.splits option.splits)

lemma prefs_step_keeps: "prefs_ok db \<Longrightarrow> prefs_ok (snd (run_prefs_op c db))"
proof -
  assume ok: "prefs_ok db"
  obtain env op where c: "c = (env, op)" by fastforce
  obtain r db' where run: "run_prefs_op (env, op) db = (r, db')" by fastforce
  show ?thesis
  proof (cases r)
    case (Inl e)
    with run ok c failed_op show ?thesis by fastforce
  next
    case (Inr u)
    from answered_op [OF run [unfolded Inr]] ok have "prefs_ok db'" by (auto dest: body_keeps tx_invD)
    with run c show ?thesis by simp
  qed
qed

interpretation preferences: invariant_writer run_prefs_op prefs_ok
  by unfold_locales (use failed_op prefs_step_keeps in \<open>force simp: prod_eq_iff\<close>)+


section \<open>The board\<close>

text \<open>
  What the Live page shows: every category with its symbols in order, and the orders stored under names no
  category has.
\<close>

definition symbols_of :: "((string \<times> string) \<times> int) list \<Rightarrow> string \<Rightarrow> string list" where
  "symbols_of rows n = map (snd \<circ> fst) (sort_key snd (filter (\<lambda>r. fst (fst r) = n) rows))"

record board =
  bd_name :: "int \<Rightarrow> string option"
  bd_order :: "int \<Rightarrow> string list"
  bd_free :: "string \<Rightarrow> string list"

definition shown_order :: "prefs_db \<Rightarrow> string \<Rightarrow> string list" where
  "shown_order db n = (case map_of (get_market_streams_symbol_order (calm_env 0) db) n of None \<Rightarrow> [] | Some ss \<Rightarrow> ss)"

definition board :: "prefs_db \<Rightarrow> board" where
  "board db = \<lparr>bd_name = (\<lambda>i. map_option ct_name (map_of (pf_categories db) i)),
     bd_order = (\<lambda>i. case map_of (pf_categories db) i of None \<Rightarrow> [] | Some c \<Rightarrow> shown_order db (ct_name c)),
     bd_free = (\<lambda>n. if n \<in> set (category_names db) then [] else shown_order db n)\<rparr>"

fun board_do :: "move \<Rightarrow> board \<Rightarrow> board" where
  "board_do Stay b = b"
| "board_do (Rename i n) b = b\<lparr>bd_name := (bd_name b)(i \<mapsto> n), bd_free := (bd_free b)(n := [])\<rparr>"
| "board_do (Drop i) b = b\<lparr>bd_name := (bd_name b)(i := None), bd_order := (bd_order b)(i := [])\<rparr>"
| "board_do (Create i n) b = b\<lparr>bd_name := (bd_name b)(i \<mapsto> n), bd_order := (bd_order b)(i := bd_free b n), bd_free := (bd_free b)(n := [])\<rparr>"
| "board_do (Arrange n ss) b = b\<lparr>bd_order := (\<lambda>i. if bd_name b i = Some n then ss else bd_order b i),
     bd_free := (\<lambda>m. if m = n \<and> (\<forall>i. bd_name b i \<noteq> Some n) then ss else bd_free b m)\<rparr>"

text \<open>The page groups the sorted rows by name; for stored names this is each name's rows, sorted.\<close>

lemma insort_key_same: "(\<And>y. y \<in> set xs \<Longrightarrow> f x \<le> f y \<longleftrightarrow> g x \<le> g y) \<Longrightarrow> insort_key f x xs = insort_key g x xs"
  by (induction xs) auto

lemma sort_key_same: "(\<And>x y. x \<in> set xs \<Longrightarrow> y \<in> set xs \<Longrightarrow> f x \<le> f y \<longleftrightarrow> g x \<le> g y) \<Longrightarrow> sort_key f xs = sort_key g xs"
proof (induction xs)
  case (Cons x xs)
  then have "sort_key f xs = sort_key g xs" by simp
  moreover have "insort_key f x (sort_key g xs) = insort_key g x (sort_key g xs)"
    by (rule insort_key_same) (use Cons.prems in auto)
  ultimately show ?case by simp
qed simp

lemma sort_key_map: "sort_key f (map g xs) = map g (sort_key (f \<circ> g) xs)"
proof -
  have "insort_key f (g x) (map g ys) = map g (insort_key (f \<circ> g) x ys)" for x ys by (induction ys) auto
  then show ?thesis by (induction xs) simp_all
qed

lemma shown_symbols:
  assumes "orders_ok (pf_orders db)"
  shows "shown_order db n = symbols_of (pf_orders db) n"
proof -
  let ?rows = "pf_orders db" and ?key = "\<lambda>((n, _), k). (n, k) :: string \<times> int"
  have stored: "key_text (fst (fst r)) \<and> key_text (snd (fst r))" if "r \<in> set (sort_key ?key ?rows)" for r
    using assms that by (auto simp: orders_ok_def)
  have "map (\<lambda>((n, s), _). (strip n, strip s)) (sort_key ?key ?rows) = map fst (sort_key ?key ?rows)"
    by (rule map_cong [OF refl]) (use stored in \<open>fastforce simp: key_text_def\<close>)
  moreover have "filter (\<lambda>(n, s). n \<noteq> [] \<and> s \<noteq> []) (map fst (sort_key ?key ?rows)) = map fst (sort_key ?key ?rows)"
    by (rule filter_True) (use stored in \<open>fastforce simp: key_text_def\<close>)
  ultimately have rows: "order_rows ?rows = map fst (sort_key ?key ?rows)" by (simp only: order_rows_def)
  have "map snd (filter (\<lambda>r. fst r = n) (order_rows ?rows)) = map (snd \<circ> fst) (filter (\<lambda>r. fst (fst r) = n) (sort_key ?key ?rows))"
    by (simp add: rows filter_map comp_def)
  also have "filter (\<lambda>r. fst (fst r) = n) (sort_key ?key ?rows) = sort_key ?key (filter (\<lambda>r. fst (fst r) = n) ?rows)"
    by (rule filter_sort)
  also have "\<dots> = sort_key snd (filter (\<lambda>r. fst (fst r) = n) ?rows)"
    by (rule sort_key_same) (auto simp: less_eq_prod_def)
  finally have "map snd (filter (\<lambda>r. fst r = n) (order_rows ?rows)) = symbols_of ?rows n" by (simp add: symbols_of_def)
  then show ?thesis
    by (simp add: shown_order_def get_market_streams_symbol_order_def query_run tally_lists Let_def)
qed


lemma symbols_of_other [simp]: "symbols_of (filter (\<lambda>r. fst (fst r) \<noteq> n) rows) m = (if m = n then [] else symbols_of rows m)"
proof -
  have "filter (\<lambda>r. fst (fst r) = m) (filter (\<lambda>r. fst (fst r) \<noteq> n) rows) = (if m = n then [] else filter (\<lambda>r. fst (fst r) = m) rows)"
    by (induction rows) auto
  then show ?thesis by (simp add: symbols_of_def)
qed

abbreviation renamed :: "string \<Rightarrow> string \<Rightarrow> ((string \<times> string) \<times> int) list \<Rightarrow> ((string \<times> string) \<times> int) list" where
  "renamed old new \<equiv> map (\<lambda>((n, s), k). ((if n = old then new else n, s), k))"

lemma symbols_of_renamed:
  assumes "symbols_of rows new = []" and "old \<noteq> new"
  shows "symbols_of (renamed old new rows) m = (if m = new then symbols_of rows old else if m = old then [] else symbols_of rows m)"
proof -
  let ?f = "\<lambda>((n, s), k). ((if n = old then new else n, s), k) :: (string \<times> string) \<times> int"
  have move: "symbols_of (map ?f rs) m = map (snd \<circ> fst) (sort_key snd (filter (\<lambda>r. fst (fst (?f r)) = m) rs))" for rs m
  proof -
    have "snd \<circ> ?f = snd" and "(snd \<circ> fst) \<circ> ?f = snd \<circ> fst" by auto
    then show ?thesis by (simp add: symbols_of_def filter_map sort_key_map comp_assoc) (simp add: comp_def)
  qed
  have none: "filter (\<lambda>r. fst (fst r) = new) rows = []"
    using assms(1) by (simp add: symbols_of_def) (metis length_0_conv length_sort)
  have "filter (\<lambda>r. fst (fst (?f r)) = m) rows =
    (if m = new then filter (\<lambda>r. fst (fst r) = old) rows else if m = old then [] else filter (\<lambda>r. fst (fst r) = m) rows)"
    using none assms(2) by (induction rows) (auto split: if_splits)
  then show ?thesis unfolding move by (simp add: symbols_of_def)
qed

lemma symbols_of_arranged:
  assumes "symbols_of rows n = []"
  shows "symbols_of (rows @ map (\<lambda>(i, s). ((n, s), int i)) (enumerate 0 ss)) m = (if m = n then ss else symbols_of rows m)"
proof -
  have none: "filter (\<lambda>r. fst (fst r) = n) rows = []"
    using assms by (simp add: symbols_of_def) (metis length_0_conv length_sort)
  have "sorted (map snd (map (\<lambda>(i, s). ((n, s), int i)) (enumerate 0 ss)))"
    by (simp add: sorted_iff_nth_mono nth_enumerate_eq)
  then have "sort_key snd (map (\<lambda>(i, s). ((n, s), int i)) (enumerate 0 ss)) = map (\<lambda>(i, s). ((n, s), int i)) (enumerate 0 ss)"
    by (rule sort_key_id_if_sorted)
  moreover have "map (snd \<circ> fst) (map (\<lambda>(i, s). ((n, s), int i)) (enumerate 0 ss)) = ss"
    by (simp add: comp_def case_prod_unfold)
  moreover have "filter (\<lambda>r. fst (fst r) = m) (map (\<lambda>(i, s). ((n, s), int i)) (enumerate 0 ss)) =
      (if m = n then map (\<lambda>(i, s). ((n, s), int i)) (enumerate 0 ss) else [])"
    by (auto simp: filter_map comp_def case_prod_unfold)
  ultimately show ?thesis using none by (simp add: symbols_of_def)
qed


subsection \<open>What the bodies leave\<close>

lemma patch_category_ok:
  assumes "tx_ok env (patch_category_body i cols) db r db'"
  obtains c where "map_of (pf_categories db) i = Some c"
    and "\<And>n. fst cols = Some n \<Longrightarrow> \<not> name_taken db n (Some i)"
    and "db' = db\<lparr>pf_categories := put_assoc i (patched_category cols c) (pf_categories db),
      pf_orders := (case fst cols of None \<Rightarrow> pf_orders db | Some n \<Rightarrow> if ct_name c = [] \<or> ct_name c = n then pf_orders db
         else renamed (ct_name c) n (filter (\<lambda>r. fst (fst r) \<noteq> n) (pf_orders db)))\<rparr>"
proof -
  from assms obtain c where "map_of (pf_categories db) i = Some c \<and> (\<forall>n. fst cols = Some n \<longrightarrow> \<not> name_taken db n (Some i)) \<and>
    db' = db\<lparr>pf_categories := put_assoc i (patched_category cols c) (pf_categories db),
      pf_orders := (case fst cols of None \<Rightarrow> pf_orders db | Some n \<Rightarrow> if ct_name c = [] \<or> ct_name c = n then pf_orders db
         else renamed (ct_name c) n (filter (\<lambda>r. fst (fst r) \<noteq> n) (pf_orders db)))\<rparr>"
    by (auto simp: patch_category_body_def category_name_of_def no_category_def refuse_taken_name_def update_category_def
        carry_symbol_order_def delete_order_def rename_order_def Let_def dest!: tx_okD split: option.splits if_splits)
  then show thesis using that by blast
qed

lemma create_category_ok:
  "tx_ok env (create_category_body c) db r db' \<Longrightarrow> \<not> name_taken db (ct_name c) None \<and>
     db' = db\<lparr>pf_categories := pf_categories db @ [(next_category db, c)], next_category := next_category db + 1\<rparr>"
  by (auto simp: create_category_body_def refuse_taken_name_def insert_category_def dest!: tx_okD split: if_splits)

lemma delete_category_ok:
  assumes "tx_ok env (delete_category_body i) db r db'"
  obtains c where "map_of (pf_categories db) i = Some c"
    and "pf_categories db' = filter (\<lambda>r. fst r \<noteq> i) (pf_categories db)"
    and "pf_orders db' = (if ct_name c = [] then pf_orders db else filter (\<lambda>r. fst (fst r) \<noteq> ct_name c) (pf_orders db))"
proof -
  from assms obtain c where "map_of (pf_categories db) i = Some c \<and> pf_categories db' = filter (\<lambda>r. fst r \<noteq> i) (pf_categories db) \<and>
    pf_orders db' = (if ct_name c = [] then pf_orders db else filter (\<lambda>r. fst (fst r) \<noteq> ct_name c) (pf_orders db))"
    by (auto simp: delete_category_body_def category_name_of_def no_category_def delete_category_def
        carry_symbol_order_def delete_order_def dest!: tx_okD split: option.splits if_splits)
  then show thesis using that by blast
qed

lemma insert_all_ok:
  "tx_ok env (tx_each (insert_order n) xs) db u db' \<Longrightarrow> db' = db\<lparr>pf_orders := pf_orders db @ map (\<lambda>(i, s). ((n, s), int i)) xs\<rparr>"
proof (induction xs arbitrary: db)
  case (Cons x xs)
  then obtain db1 where "tx_ok env (insert_order n x) db () db1" "tx_ok env (tx_each (insert_order n) xs) db1 u db'"
    by (auto dest!: tx_ok_bindD)
  moreover from this(1) have "db1 = db\<lparr>pf_orders := pf_orders db @ [((n, snd x), int (fst x))]\<rparr>"
    by (auto simp: insert_order_def dest!: tx_ok_stmtD)
  ultimately show ?case using Cons.IH [of db1] by (simp add: case_prod_unfold)
qed simp

lemma set_order_ok:
  "tx_ok env (set_order_body n ordered) db u db' \<Longrightarrow>
     db' = db\<lparr>pf_orders := filter (\<lambda>r. fst (fst r) \<noteq> n) (pf_orders db) @ map (\<lambda>(i, s). ((n, s), int i)) (enumerate 0 ordered)\<rparr>"
  by (auto simp: set_order_body_def delete_order_def dest!: tx_ok_bindD tx_ok_stmtD insert_all_ok)

text \<open>The other writers touch neither categories nor orders.\<close>

definition same_board :: "prefs_db \<Rightarrow> prefs_db \<Rightarrow> bool" where
  "same_board db db' \<longleftrightarrow> pf_categories db' = pf_categories db \<and> pf_orders db' = pf_orders db"

lemma other_bodies:
  assumes "body_of (env, op) = Inr m" and "tx_ok env m db () db'"
    and "case op of PatchCategory _ _ _ \<Rightarrow> False | CreateCategory _ _ _ _ \<Rightarrow> False | DeleteCategory _ _ \<Rightarrow> False | SetOrder _ _ _ \<Rightarrow> False | _ \<Rightarrow> True"
  shows "same_board db db'"
proof (cases "(env, op)" rule: body_of.cases)
  case (12 env cfg r l st owner)
  with assms obtain a b js where "m = forget (tx_bind (upsert_search env owner a b js) (\<lambda>i. tx_return (True, Some i)))"
    by (cases "json_dumps st") auto
  with assms(2) show ?thesis
    by (auto simp: same_board_def tx_ok_forget upsert_search_def dest!: tx_okD split: sum.splits option.splits)
qed (use assms in \<open>auto simp: same_board_def tx_ok_forget set_tag_body_def delete_tag_def upsert_tag_def no_category_named_def
    patch_class_body_def update_class_def class_not_registered_def set_class_body_def delete_class_body_def upsert_watch_def
    read_watchlist_row_def patch_watchlist_body_def update_watch_def not_watched_def delete_watch_body_def delete_search_def Let_def
    dest!: tx_okD split: option.splits if_splits\<close>)


subsection \<open>Each move\<close>

definition board_of :: "(int \<times> category) list \<Rightarrow> ((string \<times> string) \<times> int) list \<Rightarrow> board" where
  "board_of cats rows = \<lparr>bd_name = (\<lambda>i. map_option ct_name (map_of cats i)),
     bd_order = (\<lambda>i. case map_of cats i of None \<Rightarrow> [] | Some c \<Rightarrow> symbols_of rows (ct_name c)),
     bd_free = (\<lambda>n. if n \<in> set (map (ct_name \<circ> snd) cats) then [] else symbols_of rows n)\<rparr>"

lemma board_eq: "prefs_ok db \<Longrightarrow> board db = board_of (pf_categories db) (pf_orders db)"
  by (simp add: prefs_ok_def board_def board_of_def shown_symbols cong: if_cong option.case_cong)

lemma has_name: "distinct (map fst cats) \<Longrightarrow> n \<in> set (map (ct_name \<circ> snd) cats) \<longleftrightarrow> (\<exists>j c. map_of cats j = Some c \<and> ct_name c = n)"
  by force

lemma same_name:
  assumes "prefs_ok db" and "map_of (pf_categories db) i = Some c" and "map_of (pf_categories db) j = Some d" and "ct_name c = ct_name d"
  shows "i = j"
proof -
  have "inj_on (ct_name \<circ> snd) (set (pf_categories db))"
    using assms(1) by (simp add: prefs_ok_def categories_ok_def distinct_map)
  moreover have "(i, c) \<in> set (pf_categories db)" "(j, d) \<in> set (pf_categories db)" using assms(2, 3) by (auto dest: map_of_SomeD)
  ultimately have "(i, c) = (j, d)" using assms(4) by (metis comp_apply inj_onD snd_conv)
  then show ?thesis by simp
qed

lemma taken_iff:
  assumes "prefs_ok db"
  shows "name_taken db n except \<longleftrightarrow> (\<exists>j c. map_of (pf_categories db) j = Some c \<and> ct_name c = n \<and> Some j \<noteq> except)"
  using assms by (force simp: name_taken_def list_ex_iff prefs_ok_def categories_ok_def)

lemma name_not_blank: "prefs_ok db \<Longrightarrow> map_of (pf_categories db) i = Some c \<Longrightarrow> ct_name c \<noteq> []"
  by (auto simp: prefs_ok_def categories_ok_def valid_name_def dest!: map_of_SomeD)

lemma rename_board:
  assumes ok: "prefs_ok db" and c: "map_of (pf_categories db) i = Some c" and free: "\<not> name_taken db n (Some i)" and new: "ct_name c' = n"
    and rows: "\<And>m. symbols_of rows m = (if ct_name c = n then symbols_of (pf_orders db) m
      else if m = n then symbols_of (pf_orders db) (ct_name c) else if m = ct_name c then [] else symbols_of (pf_orders db) m)"
  shows "board_of (put_assoc i c' (pf_categories db)) rows = board_do (Rename i n) (board_of (pf_categories db) (pf_orders db))"
proof -
  let ?cats = "pf_categories db" and ?S = "symbols_of (pf_orders db)"
  have keys: "distinct (map fst ?cats)" "distinct (map fst (put_assoc i c' ?cats))" using ok by (simp_all add: prefs_ok_def categories_ok_def)
  have at: "map_of (put_assoc i c' ?cats) j = (if j = i then Some c' else map_of ?cats j)" for j
    using c by (simp add: map_of_put_assoc)
  have other: "ct_name d \<noteq> n \<and> ct_name d \<noteq> ct_name c" if "map_of ?cats j = Some d" "j \<noteq> i" for j d
    using free that taken_iff [OF ok] same_name [OF ok c that(1)] by auto
  have order: "(\<lambda>j. case map_of (put_assoc i c' ?cats) j of None \<Rightarrow> [] | Some d \<Rightarrow> symbols_of rows (ct_name d))
      = (\<lambda>j. case map_of ?cats j of None \<Rightarrow> [] | Some d \<Rightarrow> ?S (ct_name d))"
    using c new other by (auto simp: fun_eq_iff at rows split: option.split)
  have name: "(\<lambda>j. map_option ct_name (map_of (put_assoc i c' ?cats) j)) = (\<lambda>j. map_option ct_name (map_of ?cats j))(i \<mapsto> n)"
    using new by (auto simp: fun_eq_iff at)
  have names: "m \<in> set (map (ct_name \<circ> snd) (put_assoc i c' ?cats)) \<longleftrightarrow> m = n \<or> m \<noteq> ct_name c \<and> m \<in> set (map (ct_name \<circ> snd) ?cats)" for m
    unfolding has_name [OF keys(1)] has_name [OF keys(2)] at using c new other by (metis option.inject)
  have old: "ct_name c \<in> set (map (ct_name \<circ> snd) ?cats)" unfolding has_name [OF keys(1)] using c by blast
  have free: "(\<lambda>m. if m \<in> set (map (ct_name \<circ> snd) (put_assoc i c' ?cats)) then [] else symbols_of rows m)
      = (\<lambda>m. if m \<in> set (map (ct_name \<circ> snd) ?cats) then [] else ?S m)(n := [])"
    unfolding names using old by (auto simp: fun_eq_iff rows)
  show ?thesis unfolding board_of_def order name free by simp
qed


lemma create_board:
  assumes ok: "prefs_ok db" and free: "\<not> name_taken db (ct_name c) None"
  shows "board_of (pf_categories db @ [(next_category db, c)]) (pf_orders db) =
    board_do (Create (next_category db) (ct_name c)) (board_of (pf_categories db) (pf_orders db))"
proof -
  let ?cats = "pf_categories db" and ?S = "symbols_of (pf_orders db)"
  have none: "map_of ?cats (next_category db) = None" using ok by (fastforce simp: prefs_ok_def categories_ok_def map_of_eq_None_iff)
  have at: "map_of (?cats @ [(next_category db, c)]) j = (if j = next_category db then Some c else map_of ?cats j)" for j
    using none by (simp add: map_of_snoc split: option.split del: map_of_append)
  have n: "ct_name c \<notin> set (map (ct_name \<circ> snd) ?cats)" using free by (auto simp: not_taken)
  show ?thesis using n by (auto simp: board_of_def at fun_eq_iff simp del: map_of_append)
qed

lemma drop_board:
  assumes ok: "prefs_ok db" and c: "map_of (pf_categories db) i = Some c"
    and rows: "\<And>m. symbols_of rows m = (if m = ct_name c then [] else symbols_of (pf_orders db) m)"
  shows "board_of (filter (\<lambda>r. fst r \<noteq> i) (pf_categories db)) rows = board_do (Drop i) (board_of (pf_categories db) (pf_orders db))"
proof -
  let ?cats = "pf_categories db" and ?S = "symbols_of (pf_orders db)"
  have keys: "distinct (map fst ?cats)" "distinct (map fst (filter (\<lambda>r. fst r \<noteq> i) ?cats))"
    using ok by (simp_all add: prefs_ok_def categories_ok_def distinct_map_filter)
  have other: "ct_name d \<noteq> ct_name c" if "map_of ?cats j = Some d" "j \<noteq> i" for j d
    using that same_name [OF ok c that(1)] by auto
  have names: "m \<in> set (map (ct_name \<circ> snd) (filter (\<lambda>r. fst r \<noteq> i) ?cats)) \<longleftrightarrow> m \<noteq> ct_name c \<and> m \<in> set (map (ct_name \<circ> snd) ?cats)" for m
    unfolding has_name [OF keys(1)] has_name [OF keys(2)] map_of_without using c other by (metis option.distinct(1) option.inject)
  have old: "ct_name c \<in> set (map (ct_name \<circ> snd) ?cats)" unfolding has_name [OF keys(1)] using c by blast
  have order: "(\<lambda>j. case map_of (filter (\<lambda>r. fst r \<noteq> i) ?cats) j of None \<Rightarrow> [] | Some d \<Rightarrow> symbols_of rows (ct_name d))
      = (\<lambda>j. case map_of ?cats j of None \<Rightarrow> [] | Some d \<Rightarrow> ?S (ct_name d))(i := [])"
    using other by (auto simp: fun_eq_iff map_of_without rows split: option.split)
  have name: "(\<lambda>j. map_option ct_name (map_of (filter (\<lambda>r. fst r \<noteq> i) ?cats) j)) = (\<lambda>j. map_option ct_name (map_of ?cats j))(i := None)"
    by (auto simp: fun_eq_iff map_of_without)
  have free: "(\<lambda>m. if m \<in> set (map (ct_name \<circ> snd) (filter (\<lambda>r. fst r \<noteq> i) ?cats)) then [] else symbols_of rows m)
      = (\<lambda>m. if m \<in> set (map (ct_name \<circ> snd) ?cats) then [] else ?S m)"
    unfolding names using old by (auto simp: fun_eq_iff rows)
  show ?thesis unfolding board_of_def order name free by simp
qed

lemma arrange_board:
  assumes ok: "prefs_ok db" and rows: "\<And>m. symbols_of rows m = (if m = n then ss else symbols_of (pf_orders db) m)"
  shows "board_of (pf_categories db) rows = board_do (Arrange n ss) (board_of (pf_categories db) (pf_orders db))"
proof -
  let ?cats = "pf_categories db"
  have keys: "distinct (map fst ?cats)" using ok by (simp add: prefs_ok_def categories_ok_def)
  have "n \<in> set (map (ct_name \<circ> snd) ?cats) \<longleftrightarrow> (\<exists>i. map_option ct_name (map_of ?cats i) = Some n)"
    unfolding has_name [OF keys] by auto
  then show ?thesis by (auto simp: board_of_def fun_eq_iff rows split: option.split)
qed

subsection \<open>Each call\<close>

lemma patch_move:
  assumes ok: "prefs_ok db" and run: "tx_ok env (patch_category_body i (n, d, t)) db x db'"
  shows "board_of (pf_categories db') (pf_orders db') =
    board_do (case n of None \<Rightarrow> Stay | Some k \<Rightarrow> Rename i k) (board_of (pf_categories db) (pf_orders db))"
proof -
  from patch_category_ok [OF run] obtain c where c: "map_of (pf_categories db) i = Some c"
    and free: "\<And>k. n = Some k \<Longrightarrow> \<not> name_taken db k (Some i)"
    and db': "db' = db\<lparr>pf_categories := put_assoc i (patched_category (n, d, t) c) (pf_categories db),
      pf_orders := (case n of None \<Rightarrow> pf_orders db | Some k \<Rightarrow> if ct_name c = [] \<or> ct_name c = k then pf_orders db
         else renamed (ct_name c) k (filter (\<lambda>r. fst (fst r) \<noteq> k) (pf_orders db)))\<rparr>" by auto
  show ?thesis
  proof (cases n)
    case None
    have mine: "\<not> name_taken db (ct_name c) (Some i)" unfolding taken_iff [OF ok] using same_name [OF ok c] by auto
    have "board_of (put_assoc i (patched_category (n, d, t) c) (pf_categories db)) (pf_orders db) =
      board_do (Rename i (ct_name c)) (board_of (pf_categories db) (pf_orders db))"
      by (rule rename_board [OF ok c mine]) (simp_all add: None patched_category_def)
    also have "\<dots> = board_of (pf_categories db) (pf_orders db)"
      using c map_of_SomeD [OF c] by (force simp: board_of_def fun_eq_iff)
    finally show ?thesis by (simp add: db' None)
  next
    case (Some k)
    have "board_of (put_assoc i (patched_category (n, d, t) c) (pf_categories db)) (pf_orders db') =
      board_do (Rename i k) (board_of (pf_categories db) (pf_orders db))"
      by (rule rename_board [OF ok c free [OF Some]])
        (use name_not_blank [OF ok c] in \<open>auto simp: Some patched_category_def db' symbols_of_renamed\<close>)
    then show ?thesis by (simp add: db' Some)
  qed
qed

lemma other_moves:
  assumes ok: "prefs_ok db"
  shows "tx_ok env (create_category_body c) db x db' \<Longrightarrow> board_of (pf_categories db') (pf_orders db') =
      board_do (Create (next_category db) (ct_name c)) (board_of (pf_categories db) (pf_orders db))"
    and "tx_ok env (delete_category_body i) db y db' \<Longrightarrow> board_of (pf_categories db') (pf_orders db') =
      board_do (Drop i) (board_of (pf_categories db) (pf_orders db))"
    and "tx_ok env (set_order_body n ss) db u db' \<Longrightarrow> board_of (pf_categories db') (pf_orders db') =
      board_do (Arrange n ss) (board_of (pf_categories db) (pf_orders db))"
proof -
  assume "tx_ok env (create_category_body c) db x db'"
  from create_category_ok [OF this] create_board [OF ok, of c]
  show "board_of (pf_categories db') (pf_orders db') = board_do (Create (next_category db) (ct_name c)) (board_of (pf_categories db) (pf_orders db))"
    by simp
next
  assume "tx_ok env (delete_category_body i) db y db'"
  from delete_category_ok [OF this] obtain d where d: "map_of (pf_categories db) i = Some d"
    and cats: "pf_categories db' = filter (\<lambda>r. fst r \<noteq> i) (pf_categories db)"
    and rows: "pf_orders db' = (if ct_name d = [] then pf_orders db else filter (\<lambda>r. fst (fst r) \<noteq> ct_name d) (pf_orders db))" by auto
  show "board_of (pf_categories db') (pf_orders db') = board_do (Drop i) (board_of (pf_categories db) (pf_orders db))"
    unfolding cats by (rule drop_board [OF ok d]) (use name_not_blank [OF ok d] in \<open>simp add: rows\<close>)
next
  assume "tx_ok env (set_order_body n ss) db u db'"
  from set_order_ok [OF this]
  show "board_of (pf_categories db') (pf_orders db') = board_do (Arrange n ss) (board_of (pf_categories db) (pf_orders db))"
    by (simp del: board_do.simps) (rule arrange_board [OF ok], simp add: symbols_of_arranged)
qed

lemma answered_move:
  assumes ok: "prefs_ok db" and m: "body_of (env, op) = Inr m" "tx_ok env m db () db'"
  shows "board_of (pf_categories db') (pf_orders db') = board_do (move_of op db) (board_of (pf_categories db) (pf_orders db))"
proof (cases op)
  case (PatchCategory arg i body)
  with m obtain n d t x where cols: "patch_category_columns body = Inr (n, d, t)"
    and run: "tx_ok env (patch_category_body i (n, d, t)) db x db'"
    by (auto simp: tx_ok_forget)
  from patch_move [OF ok run] cols show ?thesis by (cases n) (simp_all add: PatchCategory)
next
  case (CreateCategory arg n d t)
  with m obtain c x where "create_category_args n d t = Inr c" "tx_ok env (create_category_body c) db x db'"
    by (auto simp: tx_ok_forget)
  with other_moves(1) [OF ok] show ?thesis by (simp add: CreateCategory)
next
  case (DeleteCategory arg i)
  with m obtain y where "tx_ok env (delete_category_body i) db y db'" by (auto simp: tx_ok_forget)
  with other_moves(2) [OF ok] show ?thesis by (simp add: DeleteCategory)
next
  case (SetOrder arg c vs)
  with m obtain n ss where "set_order_args c vs = Inr (n, ss)" "tx_ok env (set_order_body n ss) db () db'" by auto
  with other_moves(3) [OF ok] show ?thesis by (simp add: SetOrder)
qed (use other_bodies [OF m] in \<open>simp_all add: same_board_def\<close>)

text \<open>
  C13. Over every call in every environment: a call that fails leaves the board; one that answers makes the move it
  stands for. A rename keeps the category's symbols in order and clears what was stored under the new name, a
  delete removes them, a new category takes what was stored under its name, and setting the order of a name
  changes the category that has it and no other.
\<close>

theorem categories_keep_their_orders:
  assumes "prefs_ok db"
  shows "board (snd (run_prefs_op (env, op) db)) =
    (if isl (fst (run_prefs_op (env, op) db)) then board db else board_do (move_of op db) (board db))"
proof -
  obtain r db' where run: "run_prefs_op (env, op) db = (r, db')" by fastforce
  have ok': "prefs_ok db'" using prefs_step_keeps [OF assms, of "(env, op)"] run by simp
  show ?thesis
  proof (cases r)
    case (Inl e)
    with run failed_op show ?thesis by fastforce
  next
    case (Inr u)
    from answered_op [OF run [unfolded Inr]] answered_move [OF assms]
    have "board db' = board_do (move_of op db) (board db)"
      unfolding board_eq [OF assms] board_eq [OF ok'] by auto
    with run Inr show ?thesis by simp
  qed
qed


definition sample_prefs :: prefs_db where
  "sample_prefs = \<lparr>pf_categories = [(1, \<lparr>ct_name = ''Growth'', ct_description = None, ct_sort = Some 1\<rparr>),
     (2, \<lparr>ct_name = ''Income'', ct_description = None, ct_sort = None\<rparr>)], next_category = 3,
     pf_tags = [((''U1'', ''AAPL|STK|||''), 2)],
     pf_orders = [((''Growth'', ''NVDA''), 0), ((''Growth'', ''AAPL''), 1), ((''Core'', ''SPY''), 0)],
     pf_watch = [], pf_classes = [(''BIL|STK|||'', (''cash_like'', None))], pf_searches = [], next_search = 1\<rparr>"

theorem categories_keep_their_orders_witness:
  "let call = (calm_env 0, PatchCategory ConnLive 1 (PDict [(''name'', PStr ''Core'')]))
   in fst (run_prefs_op call sample_prefs) = Inr () \<and> shown_order sample_prefs ''Growth'' = [''NVDA'', ''AAPL''] \<and>
      bd_order (board (snd (run_prefs_op call sample_prefs))) 1 = [''NVDA'', ''AAPL''] \<and>
      bd_free (board (snd (run_prefs_op call sample_prefs))) ''Core'' = []"
proof -
  let ?op = "PatchCategory ConnLive 1 (PDict [(''name'', PStr ''Core'')])"
  have ok: "prefs_ok sample_prefs" by code_simp
  have "\<not> isl (fst (run_prefs_op (calm_env 0, ?op) sample_prefs))" "move_of ?op sample_prefs = Rename 1 ''Core''" by code_simp+
  with categories_keep_their_orders [OF ok, of "calm_env 0" ?op]
  have moved: "board (snd (run_prefs_op (calm_env 0, ?op) sample_prefs)) = board_do (Rename 1 ''Core'') (board sample_prefs)" by simp
  have "fst (run_prefs_op (calm_env 0, ?op) sample_prefs) = Inr ()" "shown_order sample_prefs ''Growth'' = [''NVDA'', ''AAPL'']"
    "bd_order (board sample_prefs) 1 = [''NVDA'', ''AAPL'']" by code_simp+
  with moved show ?thesis by (simp add: Let_def)
qed

text \<open>
  Whatever sequence of calls runs, in environments that may fail anywhere: category names stay unique texts, none of
  them reserved; a tag or a watched contract never names a category that is gone; no position has two tags, no name
  an order with a symbol twice, no page two searches of one label; what is registered as a class is one of the three.
\<close>

theorem preferences_stay_consistent:
  assumes "prefs_ok db"
  shows "prefs_ok (fold (\<lambda>call db. snd (run_prefs_op call db)) calls db)"
  by (rule preferences.writer_steps.fold_keeps [OF assms])

theorem preferences_stay_consistent_witness:
  "prefs_ok (fold (\<lambda>call db. snd (run_prefs_op call db))
     [(calm_env 0, DeleteCategory ConnLive 2), (calm_env 0, SetOrder ConnLive (PStr ''Core'') (PList [PStr ''QQQ'', PStr ''SPY'']))] sample_prefs)"
proof -
  have "prefs_ok sample_prefs" by code_simp
  from preferences_stay_consistent [OF this] show ?thesis .
qed

end
