(* ===== verification/Stock_Links.thy ===== *)
theory Stock_Links
  imports Trade_Result
begin

text \<open>
  The links between option executions and the stock fills they became
  (\<open>portfolio/reader/option_stock_link.py\<close>): the writers, the links of one option, the fills that can
  still be linked. The rows of the final execution book are part of the state; their quantities are
  finite. Numbers in a warning are kept as numbers; \<open>today\<close> is the clock.
\<close>

section \<open>State\<close>

record link_rec =
  ln_account :: string
  ln_option :: int
  ln_stock :: int
  ln_role :: "string option"
  ln_note :: "string option"

record link_db =
  lb_execs :: "pydict list"
  lb_links :: "(int \<times> link_rec) list"
  next_link :: int

definition LINK_ROLES :: "string list" where
  "LINK_ROLES = [''exercise'', ''assignment'']"

definition link_violation :: "link_rec \<Rightarrow> exc option" where
  "link_violation l = (case ln_role l of None \<Rightarrow> None
     | Some r \<Rightarrow> if lower (strip_by (\<lambda>c. c = CHR '' '') r) \<in> set LINK_ROLES then None
         else Some (CheckViolation (None, Some ''account_execution_option_stock_link_role_chk'')))"

text \<open>\<open>INSERT \<dots> ON CONFLICT (option, stock) DO NOTHING RETURNING\<close> the new id.\<close>

definition linked_pair :: "link_db \<Rightarrow> int \<Rightarrow> int \<Rightarrow> bool" where
  "linked_pair db oid sid \<longleftrightarrow> list_ex (\<lambda>(_, l). ln_option l = oid \<and> ln_stock l = sid) (lb_links db)"

definition insert_link :: "link_rec \<Rightarrow> (link_db, int option) tx" where
  "insert_link l = stmt (\<lambda>db. case link_violation l of
       Some e \<Rightarrow> Inl e
     | None \<Rightarrow> if linked_pair db (ln_option l) (ln_stock l) then Inr (None, db)
         else Inr (Some (next_link db), db\<lparr>lb_links := lb_links db @ [(next_link db, l)], next_link := next_link db + 1\<rparr>))"

section \<open>Rows of the execution book\<close>

definition nfin :: "pyfloat option \<Rightarrow> rat" where
  "nfin f = (case f of Some (Fin q) \<Rightarrow> q | _ \<Rightarrow> 0)"

definition normalized_signed_qty :: "pyval \<Rightarrow> pyval \<Rightarrow> pyval \<Rightarrow> rat" where
  "normalized_signed_qty source side quantity = nfin (signed_qty source side quantity)"

definition first_word :: "string \<Rightarrow> string" where
  "first_word s = takeWhile (\<lambda>c. \<not> is_space c) s"

definition underlying_symbol_from_row :: "pydict \<Rightarrow> string" where
  "underlying_symbol_from_row r =
     (let u = stripped (dget r ''underlying_symbol''); s = stripped (dget r ''symbol'')
      in if u \<noteq> [] then upper u else if s \<noteq> [] then upper (first_word s) else [])"

definition row_of :: "string \<Rightarrow> int \<Rightarrow> pydict \<Rightarrow> bool" where
  "row_of acc i r \<longleftrightarrow> dget r ''account_id'' = PStr acc \<and> dget r ''account_executions_id'' = PInt i"

definition fetch_execution_final_row :: "string \<Rightarrow> int \<Rightarrow> (link_db, pydict option) tx" where
  "fetch_execution_final_row account i = (let acc = strip account in
     if acc = [] then tx_return None else try_query (\<lambda>db. find (row_of acc i) (lb_execs db)))"

definition expected_stock_shares :: "pydict \<Rightarrow> rat option" where
  "expected_stock_shares r =
     (let m = (case py_float (py_or (dget r ''multiplier'') (PInt 0)) of Inr (Fin q) \<Rightarrow> q | _ \<Rightarrow> 0);
          mult = (if m \<le> 0 then 100 else m);
          contracts = \<bar>normalized_signed_qty (dget r ''source'') (dget r ''side'') (dget r ''quantity'')\<bar>
      in if contracts \<le> 0 then None else Some (contracts * mult))"

text \<open>\<open>(str(row.get("sec_type") or "")).strip().upper()\<close>.\<close>

definition sec_type_of :: "pydict \<Rightarrow> string" where
  "sec_type_of r = upper (strip (let v = dget r ''sec_type'' in if truthy v then py_str v else []))"

section \<open>Linking\<close>

text \<open>
  The answer: an id, a message, or the exception whose text is the message; the warning names the
  shares linked and the shares expected.
\<close>

datatype link_error = LinkMessage string | LinkRaised exc

type_synonym link_answer = "(link_error + int) \<times> (rat \<times> rat) option"

definition text_or_none :: "pyval \<Rightarrow> string option" where
  "text_or_none v = (if v = PNone then None else let t = strip (py_str v) in if t = [] then None else Some t)"

definition link_args :: "pydict \<Rightarrow> exc + (string + link_rec)" where
  "link_args body =
     (let acc = stripped (dget body ''account_id'');
          bad = Inr (Inl ''option_account_executions_id and stock_account_executions_id are required.'');
          oid = py_int (dget body ''option_account_executions_id''); sid = py_int (dget body ''stock_account_executions_id'');
          role = map_option lower (text_or_none (dget body ''role''))
      in if acc = [] then Inr (Inl ''account_id is required.'')
         else case oid of
             Inl OverflowErr \<Rightarrow> Inl (PyErr OverflowErr)
           | Inl _ \<Rightarrow> bad
           | Inr o' \<Rightarrow> (case sid of
                 Inl OverflowErr \<Rightarrow> Inl (PyErr OverflowErr)
               | Inl _ \<Rightarrow> bad
               | Inr s \<Rightarrow> if (case role of None \<Rightarrow> False | Some r \<Rightarrow> r \<notin> set LINK_ROLES)
                   then Inr (Inl ''role must be exercise, assignment, or omitted.'')
                   else Inr (Inr \<lparr>ln_account = acc, ln_option = o', ln_stock = s, ln_role = role,
                          ln_note = text_or_none (dget body ''note'')\<rparr>)))"

text \<open>What the two rows must satisfy, as the checks come.\<close>

definition mismatch :: "string \<Rightarrow> pydict option \<Rightarrow> pydict option \<Rightarrow> string option" where
  "mismatch acc opt stk = (case opt of
       None \<Rightarrow> Some ''Option execution not found in performance book (Flex/journal).''
     | Some ro \<Rightarrow> if ro = [] then Some ''Option execution not found in performance book (Flex/journal).''
       else case stk of
         None \<Rightarrow> Some ''Stock execution not found in performance book (Flex/journal).''
       | Some rs \<Rightarrow>
           (let und = underlying_symbol_from_row ro; sym = upper (stripped (dget rs ''symbol''))
            in if rs = [] then Some ''Stock execution not found in performance book (Flex/journal).''
               else if stripped (dget ro ''account_id'') \<noteq> acc \<or> stripped (dget rs ''account_id'') \<noteq> acc then Some ''account_id mismatch.''
               else if sec_type_of ro \<noteq> ''OPT'' then Some ''option_account_executions_id must refer to an OPT row.''
               else if sec_type_of rs \<noteq> ''STK'' then Some ''stock_account_executions_id must refer to an STK row.''
               else if und \<noteq> [] \<and> sym \<noteq> [] \<and> und \<noteq> sym
               then Some (''Underlying symbol ('' @ und @ '') does not match stock symbol ('' @ sym @ '').'')
               else None))"

text \<open>Up to the commit: a message and no commit, or the id and the option's row.\<close>

definition insert_link_body :: "link_rec \<Rightarrow> (link_db, string + int \<times> pydict) tx" where
  "insert_link_body l =
     tx_bind (fetch_execution_final_row (ln_account l) (ln_option l)) (\<lambda>opt.
     tx_bind (fetch_execution_final_row (ln_account l) (ln_stock l)) (\<lambda>stk.
       case mismatch (ln_account l) opt stk of
         Some m \<Rightarrow> tx_return (Inl m)
       | None \<Rightarrow> tx_bind (insert_link l) (\<lambda>i. case i of
             None \<Rightarrow> tx_return (Inl ''Link already exists or insert failed.'')
           | Some i' \<Rightarrow> tx_return (Inr (i', the opt)))))"

definition linked_shares :: "string \<Rightarrow> int \<Rightarrow> link_db \<Rightarrow> rat" where
  "linked_shares acc oid db = sum_list (map (\<lambda>r. \<bar>normalized_signed_qty (dget r ''source'') (dget r ''side'') (dget r ''quantity'')\<bar>)
     (concat (map (\<lambda>(_, l). if ln_account l = acc \<and> ln_option l = oid then filter (row_of acc (ln_stock l)) (lb_execs db) else []) (lb_links db))))"

definition share_warning :: "rat \<Rightarrow> rat \<Rightarrow> (rat \<times> rat) option" where
  "share_warning t x = (if \<bar>t - x\<bar> > 1 / 1000000 then Some (t, x) else None)"

text \<open>The count for the warning is a SELECT after the commit, inside the same \<open>try\<close>.\<close>

definition after_commit :: "env \<Rightarrow> link_rec \<Rightarrow> int \<Rightarrow> pydict \<Rightarrow> link_db \<times> nat \<Rightarrow> link_answer" where
  "after_commit env l i opt s = (case expected_stock_shares opt of
       None \<Rightarrow> (Inr i, None)
     | Some x \<Rightarrow> (case query (linked_shares (ln_account l) (ln_option l)) env s of
           (Inl e, _) \<Rightarrow> (Inl (LinkRaised e), None)
         | (Inr t, _) \<Rightarrow> (Inr i, share_warning t x)))"

definition insert_option_stock_link :: "env \<Rightarrow> pydict option \<Rightarrow> pydict \<Rightarrow> link_db \<Rightarrow> (exc + link_answer) \<times> link_db" where
  "insert_option_stock_link env cfg body db =
     (if (case cfg of None \<Rightarrow> True | Some c \<Rightarrow> \<not> is_postgres_config c) then (Inr (Inl (LinkMessage ''PostgreSQL is required.''), None), db)
      else case link_args body of
          Inl e \<Rightarrow> (Inl e, db)
        | Inr (Inl m) \<Rightarrow> (Inr (Inl (LinkMessage m), None), db)
        | Inr (Inr l) \<Rightarrow>
            if \<not> connect_ok env then (Inl (OtherExc ''connect''), db)
            else case insert_link_body l env (db, 0) of
                (Inl e, _) \<Rightarrow> (Inr (Inl (LinkRaised e), None), db)
              | (Inr (Inl m), _) \<Rightarrow> (Inr (Inl (LinkMessage m), None), db)
              | (Inr (Inr (i, opt)), (db', n)) \<Rightarrow> (case fault env n of
                    Some e \<Rightarrow> (Inr (Inl (LinkRaised e), None), db)
                  | None \<Rightarrow> (Inr (after_commit env l i opt (db', n + 1)), db')))"

section \<open>Unlinking\<close>

definition delete_link :: "int \<Rightarrow> string \<Rightarrow> (link_db, int) tx" where
  "delete_link i acc = stmt (\<lambda>db. Inr (int (length (filter (\<lambda>(j, l). j = i \<and> ln_account l = acc) (lb_links db))),
     db\<lparr>lb_links := filter (\<lambda>(j, l). \<not> (j = i \<and> ln_account l = acc)) (lb_links db)\<rparr>))"

definition delete_option_stock_link :: "env \<Rightarrow> pydict option \<Rightarrow> pyval \<Rightarrow> pyval \<Rightarrow> link_db \<Rightarrow> (exc + (link_error + unit)) \<times> link_db" where
  "delete_option_stock_link env cfg link_id account db =
     (let acc = stripped account
      in if (case cfg of None \<Rightarrow> True | Some c \<Rightarrow> \<not> is_postgres_config c) then (Inr (Inl (LinkMessage ''PostgreSQL is required.'')), db)
         else if acc = [] then (Inr (Inl (LinkMessage ''account_id is required.'')), db)
         else case py_int link_id of
             Inl OverflowErr \<Rightarrow> (Inl (PyErr OverflowErr), db)
           | Inl _ \<Rightarrow> (Inr (Inl (LinkMessage ''Invalid link id.'')), db)
           | Inr i \<Rightarrow>
               if \<not> connect_ok env then (Inl (OtherExc ''connect''), db)
               else case legacy_transaction (tx_bind (delete_link i acc) (\<lambda>n. tx_return (True, n))) env db of
                   (Inl e, s) \<Rightarrow> (Inr (Inl (LinkRaised e)), s)
                 | (Inr n, s) \<Rightarrow> (Inr (if n = 0 then Inl (LinkMessage ''Link not found or wrong account.'') else Inr ()), s))"

definition delete_option_stock_link_strict :: "env \<Rightarrow> conn_arg \<Rightarrow> pyval \<Rightarrow> pyval \<Rightarrow> link_db \<Rightarrow> (exc + pydict) \<times> link_db" where
  "delete_option_stock_link_strict env arg link_id account db =
     (let acc = stripped account
      in if acc = [] then (invalid ''account_id is required.'', db)
         else case row_id link_id ''link id'' False of
             Inl e \<Rightarrow> (Inl e, db)
           | Inr lid \<Rightarrow> (let i = the lid; what = ''option/stock link '' @ int_str i in
               case strict_write what FkInvalid (tx_bind (delete_link i acc) (\<lambda>n.
                 if n = 0 then tx_raise (Write (NotFound (''No option/stock link '' @ int_str i @ '' on account '' @ acc @ ''.''))) else tx_return ())) env arg db of
                 (Inl e, s) \<Rightarrow> (Inl (Write e), s)
               | (Inr _, s) \<Rightarrow> (Inr [(''deleted'', PStr ''hard''), (''account_execution_option_stock_link_id'', PInt i)], s)))"


section \<open>Reading\<close>

text \<open>NULLs last; a tie keeps the order of the rows.\<close>

definition date_key :: "pyval \<Rightarrow> int \<times> int" where
  "date_key v = (case v of PDate d \<Rightarrow> (0, to_ordinal d) | PDatetime t \<Rightarrow> (0, instant t) | _ \<Rightarrow> (1, 0))"

definition newest_key :: "pyval \<Rightarrow> int \<times> int" where
  "newest_key v = (case date_key v of (null, k) \<Rightarrow> (null, - k))"

definition sql_signed_qty :: "pydict \<Rightarrow> pyval" where
  "sql_signed_qty e = (case signed_qty_sql (case dget e ''side'' of PStr s \<Rightarrow> Some s | _ \<Rightarrow> None)
       (case dget e ''quantity'' of PNone \<Rightarrow> None | v \<Rightarrow> (case py_float v of Inr f \<Rightarrow> Some f | Inl _ \<Rightarrow> None)) of
     None \<Rightarrow> PNone | Some f \<Rightarrow> PFloat f)"

definition num_of :: "pyval \<Rightarrow> rat option" where
  "num_of v = (if v = PNone then None else finite_float v)"

definition with_slippage :: "string \<Rightarrow> pydict \<Rightarrow> pydict" where
  "with_slippage pre d = d @ [(''slippage_vs_close'',
     (case slippage_amount_vs_close (slippage_qty (num_of (dget d (pre @ ''quantity'')))) (num_of (dget d (pre @ ''price''))) (num_of (dget d (pre @ ''close_price''))) of
        None \<Rightarrow> PNone | Some x \<Rightarrow> PFloat (Fin x)))]"

definition link_out :: "int \<times> link_rec \<Rightarrow> pydict \<Rightarrow> pydict" where
  "link_out l e = [(''link_id'', PInt (fst l)), (''option_account_executions_id'', PInt (ln_option (snd l))),
     (''stock_account_executions_id'', PInt (ln_stock (snd l))), (''role'', of_opt (ln_role (snd l))), (''note'', of_opt (ln_note (snd l))),
     (''stock_symbol'', dget e ''symbol''), (''stock_side'', dget e ''side''), (''stock_quantity'', sql_signed_qty e),
     (''stock_price'', dget e ''price''), (''stock_close_price'', dget e ''close_price''), (''stock_trade_date'', dget e ''trade_date''),
     (''stock_exec_id'', dget e ''exec_id'')]"

definition joined_links :: "string \<Rightarrow> int \<Rightarrow> link_db \<Rightarrow> pydict list" where
  "joined_links acc oid db = map (\<lambda>(l, e). link_out l e) (sort_key (\<lambda>(_, e). (date_key (dget e ''trade_date''), date_key (dget e ''exec_time'')))
     (concat (map (\<lambda>l. if ln_account (snd l) = acc \<and> ln_option (snd l) = oid
        then map (\<lambda>e. (l, e)) (filter (row_of acc (ln_stock (snd l))) (lb_execs db)) else []) (lb_links db))))"

text \<open>The links and the total, and the exception reported when the query fails.\<close>

definition get_option_stock_links :: "env \<Rightarrow> pyval \<Rightarrow> pyval \<Rightarrow> link_db \<Rightarrow> exc + (pydict list \<times> rat option \<times> exc option)" where
  "get_option_stock_links env account oid db = (let acc = stripped account in
     if \<not> connect_ok env \<or> acc = [] then Inr ([], None, None)
     else case py_int oid of
         Inl OverflowErr \<Rightarrow> Inl (PyErr OverflowErr)
       | Inl _ \<Rightarrow> Inr ([], None, None)
       | Inr i \<Rightarrow> (case query (joined_links acc i) env (db, 0) of
             (Inl e, _) \<Rightarrow> Inr ([], None, Some e)
           | (Inr rows, _) \<Rightarrow>
               (let out = map (with_slippage ''stock_'') rows;
                    slips = List.map_filter (\<lambda>d. num_of (dget d ''slippage_vs_close'')) out
                in Inr (out, (if slips = [] then None else Some (sum_list slips)), None))))"

section \<open>Candidates\<close>

text \<open>A date text \<open>YYYY-MM-DD\<close>: its shape, then \<open>date.fromisoformat\<close>, which may raise.\<close>

definition date_shaped :: "string \<Rightarrow> bool" where
  "date_shaped s \<longleftrightarrow> length s = 10 \<and> s ! 4 = CHR ''-'' \<and> s ! 7 = CHR ''-'' \<and>
     list_all is_digit (take 4 s @ take 2 (drop 5 s) @ drop 8 s)"

definition read_date :: "string \<Rightarrow> exc + date" where
  "read_date s = (case mk_date (digits_val (take 4 s)) (digits_val (take 2 (drop 5 s))) (digits_val (drop 8 s)) of
     None \<Rightarrow> Inl (PyErr ValueErr) | Some d \<Rightarrow> Inr d)"

definition window_center :: "date \<Rightarrow> pyval \<Rightarrow> exc + date" where
  "window_center today td = (case td of PDate d \<Rightarrow> Inr d | PDatetime t \<Rightarrow> Inr (date_of_instant (instant t))
     | PStr s \<Rightarrow> if date_shaped (strip s) then read_date (strip s) else Inr today | _ \<Rightarrow> Inr today)"

definition window_end :: "string option \<Rightarrow> int \<Rightarrow> exc + int" where
  "window_end given dflt = (case given of None \<Rightarrow> Inr dflt
     | Some s \<Rightarrow> if date_shaped (strip s) then map_sum id to_ordinal (read_date (strip s)) else Inr dflt)"

definition candidate_row :: "link_db \<Rightarrow> string \<Rightarrow> int \<Rightarrow> string \<Rightarrow> int \<Rightarrow> int \<Rightarrow> pydict \<Rightarrow> bool" where
  "candidate_row db acc oid und lo hi e \<longleftrightarrow> dget e ''account_id'' = PStr acc \<and>
     upper (strip_by (\<lambda>c. c = CHR '' '') (case dget e ''sec_type'' of PStr s \<Rightarrow> s | _ \<Rightarrow> [])) = ''STK'' \<and>
     strip_by (\<lambda>c. c = CHR '' '') (upper (case dget e ''symbol'' of PStr s \<Rightarrow> s | _ \<Rightarrow> [])) = und \<and>
     (case dget e ''trade_date'' of PDate d \<Rightarrow> lo \<le> to_ordinal d \<and> to_ordinal d \<le> hi | _ \<Rightarrow> True) \<and>
     \<not> list_ex (\<lambda>(_, l). ln_account l = acc \<and> ln_option l = oid \<and> dget e ''account_executions_id'' = PInt (ln_stock l)) (lb_links db)"

definition candidate_out :: "pydict \<Rightarrow> pydict" where
  "candidate_out e = with_slippage [] [(''account_executions_id'', dget e ''account_executions_id''), (''account_id'', dget e ''account_id''),
     (''exec_id'', dget e ''exec_id''), (''time'', dget e ''exec_time''), (''symbol'', dget e ''symbol''), (''sec_type'', dget e ''sec_type''),
     (''side'', dget e ''side''), (''quantity'', sql_signed_qty e), (''price'', dget e ''price''), (''source'', dget e ''source''),
     (''contract_key'', dget e ''contract_key''), (''trade_date'', dget e ''trade_date''), (''close_price'', dget e ''close_price''),
     (''report_date'', dget e ''report_date''), (''transaction_type'', dget e ''transaction_type'')]"

definition found_candidates :: "string \<Rightarrow> int \<Rightarrow> string \<Rightarrow> int \<Rightarrow> int \<Rightarrow> nat \<Rightarrow> link_db \<Rightarrow> pydict list" where
  "found_candidates acc oid und lo hi n db = take n (sort_key (\<lambda>e. (newest_key (dget e ''trade_date''), newest_key (dget e ''exec_time'')))
     (filter (candidate_row db acc oid und lo hi) (lb_execs db)))"

text \<open>The rows found, or the message of the error; the days of the window.\<close>

definition get_stock_link_candidates ::
  "env \<Rightarrow> date \<Rightarrow> pyval \<Rightarrow> pyval \<Rightarrow> string option \<Rightarrow> string option \<Rightarrow> int \<Rightarrow> link_db \<Rightarrow> exc + (link_error + (pydict list \<times> string \<times> int \<times> int))" where
  "get_stock_link_candidates env today account oid from to limit db = (let acc = stripped account in
     if \<not> connect_ok env \<or> acc = [] then Inr (Inl (LinkMessage ''account_id required''))
     else case py_int oid of
         Inl OverflowErr \<Rightarrow> Inl (PyErr OverflowErr)
       | Inl _ \<Rightarrow> Inr (Inl (LinkMessage ''invalid option_account_executions_id''))
       | Inr i \<Rightarrow> (case fetch_execution_final_row acc i env (db, 0) of
             (Inr (Some opt), s) \<Rightarrow>
               (let und = underlying_symbol_from_row opt in
                if opt = [] then Inr (Inl (LinkMessage ''Option execution not found in performance book.''))
                else if sec_type_of opt \<noteq> ''OPT'' then Inr (Inl (LinkMessage ''Not an OPT row.''))
                else if und = [] then Inr (Inl (LinkMessage ''Could not resolve underlying symbol.''))
                else ebind (window_center today (dget opt ''trade_date'')) (\<lambda>mid.
                     ebind (window_end from (to_ordinal mid - 7)) (\<lambda>lo.
                     ebind (window_end to (to_ordinal mid + 7)) (\<lambda>hi.
                       case query (found_candidates acc i und lo hi (nat (max 1 (min (if limit = 0 then 200 else limit) 500)))) env s of
                         (Inl e, _) \<Rightarrow> Inr (Inl (LinkRaised e))
                       | (Inr rows, _) \<Rightarrow> Inr (Inr (map candidate_out rows, und, lo, hi))))))
           | _ \<Rightarrow> Inr (Inl (LinkMessage ''Option execution not found in performance book.''))))"

end
