(* ===== verification/Link_Claims.thy ===== *)
theory Link_Claims
  imports Stock_Links
begin

text \<open>
  A link always joins an option fill and a stock fill of its account with the same underlying, once; a
  fill offered as a candidate can be linked and is then no longer offered; an answer without an error is
  a stored link.
\<close>

section \<open>Links join what they should\<close>

definition well_linked :: "pydict list \<Rightarrow> link_rec \<Rightarrow> bool" where
  "well_linked execs l \<longleftrightarrow> (case (find (row_of (ln_account l) (ln_option l)) execs, find (row_of (ln_account l) (ln_stock l)) execs) of
     (Some ro, Some rs) \<Rightarrow> sec_type_of ro = ''OPT'' \<and> sec_type_of rs = ''STK'' \<and>
       (underlying_symbol_from_row ro \<noteq> [] \<longrightarrow> upper (stripped (dget rs ''symbol'')) \<noteq> [] \<longrightarrow>
        underlying_symbol_from_row ro = upper (stripped (dget rs ''symbol'')))
   | _ \<Rightarrow> False)"

definition links_sound :: "link_db \<Rightarrow> bool" where
  "links_sound db \<longleftrightarrow> (\<forall>(i, l)\<in>set (lb_links db). i < next_link db \<and> well_linked (lb_execs db) l \<and> ln_role l \<in> insert None (Some ` set LINK_ROLES)) \<and>
     distinct (map fst (lb_links db)) \<and> distinct (map (\<lambda>(_, l). (ln_option l, ln_stock l)) (lb_links db))"

datatype link_op =
    InsertLink "pydict option" pydict
  | DeleteLink "pydict option" pyval pyval
  | DeleteLinkStrict conn_arg pyval pyval

fun link_do :: "env \<times> link_op \<Rightarrow> link_db \<Rightarrow> link_db" where
  "link_do (env, InsertLink cfg body) db = snd (insert_option_stock_link env cfg body db)"
| "link_do (env, DeleteLink cfg i acc) db = snd (delete_option_stock_link env cfg i acc db)"
| "link_do (env, DeleteLinkStrict arg i acc) db = snd (delete_option_stock_link_strict env arg i acc db)"

abbreviation with_link :: "link_rec \<Rightarrow> link_db \<Rightarrow> link_db" where
  "with_link l db \<equiv> db\<lparr>lb_links := lb_links db @ [(next_link db, l)], next_link := next_link db + 1\<rparr>"

lemma fetch_ok: "tx_ok env (fetch_execution_final_row acc i) db r db' \<Longrightarrow> db' = db \<and> (r = None \<or> r = find (row_of (strip acc) i) (lb_execs db))"
  by (auto simp: fetch_execution_final_row_def Let_def dest!: tx_okD split: if_splits)

lemma mismatch_None:
  "mismatch acc opt stk = None \<Longrightarrow> \<exists>ro rs. opt = Some ro \<and> stk = Some rs \<and> sec_type_of ro = ''OPT'' \<and> sec_type_of rs = ''STK'' \<and>
     (underlying_symbol_from_row ro \<noteq> [] \<longrightarrow> upper (stripped (dget rs ''symbol'')) \<noteq> [] \<longrightarrow>
      underlying_symbol_from_row ro = upper (stripped (dget rs ''symbol'')))"
  by (auto simp: mismatch_def Let_def split: option.splits if_splits)

lemma link_args_ok:
  "link_args body = Inr (Inr l) \<Longrightarrow> strip (ln_account l) = ln_account l \<and> ln_role l \<in> insert None (Some ` set LINK_ROLES)"
  by (auto simp: link_args_def Let_def stripped_def split: conv_err.splits sum.splits if_splits option.splits pyval.splits)

text \<open>A body that reaches the commit has one more link, and it joins what it should.\<close>

lemma insert_body_ok:
  assumes "tx_ok env (insert_link_body l) db (Inr (i, opt)) db'" and "strip (ln_account l) = ln_account l"
  shows "i = next_link db \<and> db' = with_link l db \<and> well_linked (lb_execs db) l \<and> \<not> linked_pair db (ln_option l) (ln_stock l)"
proof -
  from assms(1) obtain ro rs s1 s2 where 1: "tx_ok env (fetch_execution_final_row (ln_account l) (ln_option l)) db ro s1"
      "tx_ok env (fetch_execution_final_row (ln_account l) (ln_stock l)) s1 rs s2"
    and 2: "tx_ok env (case mismatch (ln_account l) ro rs of Some m \<Rightarrow> tx_return (Inl m)
       | None \<Rightarrow> tx_bind (insert_link l) (\<lambda>i. case i of
             None \<Rightarrow> tx_return (Inl ''Link already exists or insert failed.'')
           | Some i' \<Rightarrow> tx_return (Inr (i', the ro)))) s2 (Inr (i, opt)) db'"
    unfolding insert_link_body_def by (elim tx_ok_bindE) blast
  from fetch_ok [OF 1(1)] fetch_ok [OF 1(2)] assms(2) have s: "s1 = db" "s2 = db"
    and ro: "ro = None \<or> ro = find (row_of (ln_account l) (ln_option l)) (lb_execs db)"
    and rs: "rs = None \<or> rs = find (row_of (ln_account l) (ln_stock l)) (lb_execs db)" by auto
  from 2 have m: "mismatch (ln_account l) ro rs = None"
    and ins: "i = next_link db" "db' = with_link l db" "\<not> linked_pair db (ln_option l) (ln_stock l)"
    by (auto simp: s insert_link_def dest!: tx_ok_bindD tx_ok_stmtD split: option.splits if_splits)
  from mismatch_None [OF m] obtain o' s' where some: "ro = Some o'" "rs = Some s'" and fit: "sec_type_of o' = ''OPT''" "sec_type_of s' = ''STK''"
    "underlying_symbol_from_row o' \<noteq> [] \<longrightarrow> upper (stripped (dget s' ''symbol'')) \<noteq> [] \<longrightarrow>
      underlying_symbol_from_row o' = upper (stripped (dget s' ''symbol''))" by blast
  from ro rs some have "find (row_of (ln_account l) (ln_option l)) (lb_execs db) = Some o'"
    "find (row_of (ln_account l) (ln_stock l)) (lb_execs db) = Some s'" by simp_all
  with fit have "well_linked (lb_execs db) l" by (simp add: well_linked_def)
  with ins show ?thesis by simp
qed

lemma insert_body_message: "tx_ok env (insert_link_body l) db (Inl m) db' \<Longrightarrow> db' = db"
  unfolding insert_link_body_def
  by (auto simp: insert_link_def dest!: tx_ok_bindD fetch_ok tx_ok_stmtD split: option.splits if_splits)

text \<open>Every outcome of an insert.\<close>

lemma insert_outcomes:
  assumes "insert_option_stock_link env cfg body db = (r, db')"
  obtains (left) "db' = db" "\<And>i w. r \<noteq> Inr (Inr i, w)"
  | (stored) l where "link_args body = Inr (Inr l)" "db' = with_link l db" "well_linked (lb_execs db) l" "\<not> linked_pair db (ln_option l) (ln_stock l)"
      "(\<exists>w. r = Inr (Inr (next_link db), w)) \<or> (\<exists>n e. fault env n = Some e \<and> r = Inr (Inl (LinkRaised e), None))"
proof -
  have "(db' = db \<and> (\<forall>i w. r \<noteq> Inr (Inr i, w))) \<or>
    (\<exists>l. link_args body = Inr (Inr l) \<and> db' = with_link l db \<and> well_linked (lb_execs db) l \<and> \<not> linked_pair db (ln_option l) (ln_stock l) \<and>
      ((\<exists>w. r = Inr (Inr (next_link db), w)) \<or> (\<exists>n e. fault env n = Some e \<and> r = Inr (Inl (LinkRaised e), None))))"
  proof (cases "link_args body")
    case a: (Inr a)
    show ?thesis
    proof (cases a)
      case (Inr l)
      note args = a [unfolded Inr]
      obtain o' s where run: "insert_link_body l env (db, 0) = (o', s)" by (metis surj_pair)
      show ?thesis
      proof (cases "\<exists>i opt. o' = Inr (Inr (i, opt))")
        case True
        then obtain i opt db1 n where o': "o' = Inr (Inr (i, opt))" "s = (db1, n)" by (cases s) auto
        with run have "tx_ok env (insert_link_body l) db (Inr (i, opt)) db1" by (auto simp: tx_ok_def)
        from insert_body_ok [OF this] link_args_ok [OF args]
        have body: "i = next_link db" "db1 = with_link l db" "well_linked (lb_execs db) l" "\<not> linked_pair db (ln_option l) (ln_stock l)" by auto
        show ?thesis using assms args run o' body
          by (auto simp: insert_option_stock_link_def after_commit_def query_run split: if_splits option.splits)
      next
        case False
        with assms args run show ?thesis
          by (auto simp: insert_option_stock_link_def split: if_splits option.splits sum.splits prod.splits)
      qed
    qed (use assms a in \<open>auto simp: insert_option_stock_link_def split: if_splits\<close>)
  qed (use assms in \<open>auto simp: insert_option_stock_link_def split: if_splits\<close>)
  with left stored show thesis by blast
qed


subsection \<open>Any sequence of calls\<close>

lemma with_link_sound:
  assumes "links_sound db" and "well_linked (lb_execs db) l" and "\<not> linked_pair db (ln_option l) (ln_stock l)"
    and "ln_role l \<in> insert None (Some ` set LINK_ROLES)"
  shows "links_sound (with_link l db)"
proof -
  have "next_link db \<notin> fst ` set (lb_links db)" using assms(1) by (fastforce simp: links_sound_def)
  moreover have "(ln_option l, ln_stock l) \<notin> (\<lambda>(_, l). (ln_option l, ln_stock l)) ` set (lb_links db)"
    using assms(3) by (auto simp: linked_pair_def list_ex_iff)
  ultimately show ?thesis using assms by (fastforce simp: links_sound_def)
qed

lemma without_links_sound: "links_sound db \<Longrightarrow> links_sound (db\<lparr>lb_links := filter P (lb_links db)\<rparr>)"
  by (auto simp: links_sound_def distinct_map_filter)

lemma delete_link_ok: "tx_ok env (delete_link i acc) db n db' \<Longrightarrow> \<exists>P. db' = db\<lparr>lb_links := filter P (lb_links db)\<rparr>"
  by (auto simp: delete_link_def dest!: tx_ok_stmtD)

lemma deleted_links:
  "tx_ok env (tx_bind (delete_link i acc) (\<lambda>n. tx_return (f n))) db a db' \<Longrightarrow> \<exists>P. db' = db\<lparr>lb_links := filter P (lb_links db)\<rparr>"
  "tx_ok env (tx_bind (delete_link i acc) (\<lambda>n. if n = 0 then tx_raise e else tx_return u)) db b db' \<Longrightarrow>
    \<exists>P. db' = db\<lparr>lb_links := filter P (lb_links db)\<rparr>"
  by (auto dest!: tx_ok_bindD delete_link_ok split: if_splits)

lemma delete_outcomes:
  "delete_option_stock_link env cfg v acc db = (r, db') \<Longrightarrow> db' = db \<or> (\<exists>P. db' = db\<lparr>lb_links := filter P (lb_links db)\<rparr>)"
  "delete_option_stock_link_strict env arg v acc db = (r', db') \<Longrightarrow> db' = db \<or> (\<exists>P. db' = db\<lparr>lb_links := filter P (lb_links db)\<rparr>)"
proof -
  have run: "db' = db \<or> (\<exists>P. db' = db\<lparr>lb_links := filter P (lb_links db)\<rparr>)"
    if "legacy_transaction (tx_bind (delete_link i a) (\<lambda>n. tx_return (True, n))) env db = (x, db')" for i a x
    using that by (cases x) (blast dest: legacy_transaction_error legacy_transaction_ok deleted_links(1))+
  assume "delete_option_stock_link env cfg v acc db = (r, db')"
  then show "db' = db \<or> (\<exists>P. db' = db\<lparr>lb_links := filter P (lb_links db)\<rparr>)"
    by (auto simp: delete_option_stock_link_def Let_def split: sum.splits prod.splits if_splits conv_err.splits option.splits dest: run)
next
  have run: "db' = db \<or> (\<exists>P. db' = db\<lparr>lb_links := filter P (lb_links db)\<rparr>)"
    if "strict_write what fk (tx_bind (delete_link i a) (\<lambda>n. if n = 0 then tx_raise e else tx_return ())) env arg db = (x, db')" for what fk i a e x
    using that by (cases x) (blast dest: strict_write_error strict_write_ok deleted_links(2))+
  assume "delete_option_stock_link_strict env arg v acc db = (r', db')"
  then show "db' = db \<or> (\<exists>P. db' = db\<lparr>lb_links := filter P (lb_links db)\<rparr>)"
    by (auto simp: delete_option_stock_link_strict_def Let_def split: sum.splits prod.splits if_splits dest: run)
qed

lemma link_step:
  assumes "links_sound db"
  shows "links_sound (link_do c db) \<and> lb_execs (link_do c db) = lb_execs db"
proof -
  obtain env op where c: "c = (env, op)" by fastforce
  have "links_sound db' \<and> lb_execs db' = lb_execs db" if "db' = db \<or> (\<exists>P. db' = db\<lparr>lb_links := filter P (lb_links db)\<rparr>)" for db'
    using that assms without_links_sound by auto
  note kept = this
  show ?thesis
  proof (cases op)
    case (InsertLink cfg body)
    obtain r db' where run: "insert_option_stock_link env cfg body db = (r, db')" by fastforce
    from run show ?thesis
    proof (cases rule: insert_outcomes)
      case left
      with run assms show ?thesis by (simp add: c InsertLink)
    next
      case (stored l)
      with assms run link_args_ok [OF stored(1)] show ?thesis by (simp add: c InsertLink with_link_sound)
    qed
  next
    case (DeleteLink cfg i acc)
    from delete_outcomes(1) [OF prod.collapse [symmetric]]
    have "snd (delete_option_stock_link env cfg i acc db) = db \<or>
      (\<exists>P. snd (delete_option_stock_link env cfg i acc db) = db\<lparr>lb_links := filter P (lb_links db)\<rparr>)" .
    from kept [OF this] show ?thesis by (simp add: c DeleteLink)
  next
    case (DeleteLinkStrict arg i acc)
    from delete_outcomes(2) [OF prod.collapse [symmetric]]
    have "snd (delete_option_stock_link_strict env arg i acc db) = db \<or>
      (\<exists>P. snd (delete_option_stock_link_strict env arg i acc db) = db\<lparr>lb_links := filter P (lb_links db)\<rparr>)" .
    from kept [OF this] show ?thesis by (simp add: c DeleteLinkStrict)
  qed
qed

interpretation linked_book: kept_invariant link_do links_sound
  by unfold_locales (simp add: link_step)

text \<open>
  C37. Whatever sequence of calls runs and wherever they fail, every stored link joins an option fill and a stock fill
  of its own account in the execution book, with the same underlying where both rows name one; no pair is linked
  twice and a role is one of the two.
\<close>

theorem links_stay_matched:
  assumes "links_sound db"
  shows "links_sound (fold link_do calls db)"
  by (rule linked_book.fold_keeps [OF assms])

text \<open>
  An insert that answers an id has stored the link under it. One that answers without an id has stored nothing,
  unless a statement raised: the count for the warning runs after the commit, and when it fails the caller is
  told that the insert failed although the link is there.
\<close>

theorem an_id_is_a_stored_link:
  assumes "insert_option_stock_link env cfg body db = (r, db')"
  shows "(\<forall>i w. r = Inr (Inr i, w) \<longrightarrow> (\<exists>l. link_args body = Inr (Inr l) \<and> i = next_link db \<and> db' = with_link l db)) \<and>
    (db' \<noteq> db \<longrightarrow> (\<forall>i w. r \<noteq> Inr (Inr i, w)) \<longrightarrow> (\<exists>n e. fault env n = Some e \<and> r = Inr (Inl (LinkRaised e), None)))"
  using assms by (cases rule: insert_outcomes) auto

definition sample_book :: link_db where
  "sample_book = \<lparr>lb_execs = [
     [(''account_executions_id'', PInt 7), (''account_id'', PStr ''U1''), (''sec_type'', PStr ''OPT''), (''symbol'', PStr ''AAPL  260320C00150000''),
      (''side'', PStr ''BUY''), (''quantity'', PInt 1), (''multiplier'', PInt 100), (''trade_date'', PDate (2026, 3, 20))],
     [(''account_executions_id'', PInt 8), (''account_id'', PStr ''U1''), (''sec_type'', PStr ''STK''), (''symbol'', PStr ''AAPL''),
      (''side'', PStr ''BUY''), (''quantity'', PInt 100), (''trade_date'', PDate (2026, 3, 21))]], lb_links = [], next_link = 1\<rparr>"

definition link_request :: pydict where
  "link_request = [(''account_id'', PStr ''U1''), (''option_account_executions_id'', PInt 7), (''stock_account_executions_id'', PInt 8)]"

theorem an_id_is_a_stored_link_witness:
  "let late = (calm_env 0)\<lparr>fault := (\<lambda>n. if n = 4 then Some (OtherExc ''connection lost'') else None)\<rparr>;
       lost = insert_option_stock_link late (Some [(''sink'', PStr ''postgres'')]) link_request sample_book
   in fst lost = Inr (Inl (LinkRaised (OtherExc ''connection lost'')), None) \<and> map fst (lb_links (snd lost)) = [1] \<and>
      (\<exists>n e. fault late n = Some e)"
proof -
  let ?late = "(calm_env 0)\<lparr>fault := (\<lambda>n. if n = 4 then Some (OtherExc ''connection lost'') else None)\<rparr>"
  let ?lost = "insert_option_stock_link ?late (Some [(''sink'', PStr ''postgres'')]) link_request sample_book"
  have lost: "fst ?lost = Inr (Inl (LinkRaised (OtherExc ''connection lost'')), None)" "map fst (lb_links (snd ?lost)) = [1]" by code_simp+
  moreover have "snd ?lost \<noteq> sample_book" using lost(2) by (auto simp: sample_book_def)
  ultimately have "\<exists>n e. fault ?late n = Some e"
    using an_id_is_a_stored_link [of ?late "Some [(''sink'', PStr ''postgres'')]" link_request sample_book "fst ?lost" "snd ?lost"] by auto
  with lost show ?thesis by (simp add: Let_def)
qed

theorem links_stay_matched_witness:
  "links_sound (fold link_do [(calm_env 0, InsertLink (Some [(''sink'', PStr ''postgres'')]) link_request),
     (calm_env 0, DeleteLinkStrict ConnLive (PInt 1) (PStr ''U1''))] sample_book)"
proof -
  have "links_sound sample_book" by code_simp
  from links_stay_matched [OF this] show ?thesis .
qed


section \<open>What is offered can be linked\<close>

lemma strip_by_padded:
  assumes "\<forall>c\<in>set a. p c" and "\<forall>c\<in>set b. p c"
  shows "strip_by p (a @ t @ b) = strip_by p t"
proof (cases "\<forall>c\<in>set t. p c")
  case True
  have nil: "strip_by p x = []" if "\<forall>c\<in>set x. p c" for x
    using that by (metis strip_by_def dropWhile_eq_Nil_conv rev.simps(1) dropWhile.simps(1))
  have "\<forall>c\<in>set (a @ t @ b). p c" using assms True by auto
  from nil [OF this] nil [OF True] show ?thesis by simp
next
  case False
  then have "dropWhile p (t @ b) = dropWhile p t @ b" by (metis dropWhile_append1)
  moreover have "dropWhile p (a @ x) = dropWhile p x" "dropWhile p (rev b @ x) = dropWhile p x" for x
    using assms by (auto intro: dropWhile_append2)
  ultimately show ?thesis by (simp add: strip_by_def)
qed

lemma strip_by_parts:
  obtains a b where "s = a @ strip_by p s @ b" and "\<forall>c\<in>set a. p c" and "\<forall>c\<in>set b. p c"
proof -
  have "s = takeWhile p s @ strip_by p s @ rev (takeWhile p (rev (dropWhile p s)))"
    by (simp add: strip_by_def flip: rev_append)
  then show thesis by (rule that) (auto dest: set_takeWhileD)
qed

lemma strip_blanks: "strip (strip_by (\<lambda>c. c = CHR '' '') s) = strip s"
proof -
  let ?t = "strip_by (\<lambda>c. c = CHR '' '') s"
  obtain a b where s: "s = a @ ?t @ b" and blank: "\<forall>c\<in>set a. c = CHR '' ''" "\<forall>c\<in>set b. c = CHR '' ''"
    by (rule strip_by_parts [of s "\<lambda>c. c = CHR '' ''"])
  have blank_space: "is_space (CHR '' '')" by code_simp
  have "\<forall>c\<in>set a. is_space c" "\<forall>c\<in>set b. is_space c" using blank blank_space by metis+
  then have "strip_by is_space (a @ ?t @ b) = strip_by is_space ?t" by (rule strip_by_padded)
  moreover have "strip_by is_space s = strip_by is_space (a @ ?t @ b)" by (rule arg_cong [OF s])
  ultimately show ?thesis by (simp add: strip_def)
qed

lemma strip_word: "strip (first_word s) = first_word s"
proof -
  have "\<not> is_space c" if "c \<in> set (first_word s)" for c using that by (auto simp: first_word_def dest: set_takeWhileD)
  then show ?thesis unfolding strip_def by (intro strip_by_id) (metis hd_in_set last_in_set)
qed

lemma strip_underlying: "strip (underlying_symbol_from_row r) = underlying_symbol_from_row r"
proof -
  have "strip (stripped v) = stripped v" for v by (simp add: stripped_def split: pyval.split)
  then show ?thesis by (simp add: underlying_symbol_from_row_def Let_def strip_word)
qed

definition book_keyed :: "link_db \<Rightarrow> bool" where
  "book_keyed db \<longleftrightarrow> distinct (map (\<lambda>e. dget e ''account_executions_id'') (lb_execs db))"

lemma keyed_same:
  assumes "book_keyed db" and "r \<in> set (lb_execs db)" and "e \<in> set (lb_execs db)"
    and "dget r ''account_executions_id'' = dget e ''account_executions_id''"
  shows "r = e"
  using assms(1) unfolding book_keyed_def distinct_map by (rule conjE) (erule inj_onD, use assms in simp_all)

lemma keyed_row:
  assumes "book_keyed db" and "e \<in> set (lb_execs db)" and "dget e ''account_executions_id'' = PInt i" and "dget e ''account_id'' = PStr acc"
  shows "find (row_of acc i) (lb_execs db) = Some e"
proof -
  have "find (row_of acc i) (lb_execs db) \<noteq> None" using assms(2-4) by (auto simp: find_None_iff row_of_def)
  then obtain r where r: "find (row_of acc i) (lb_execs db) = Some r" by auto
  then have "r \<in> set (lb_execs db)" "dget r ''account_executions_id'' = PInt i" by (auto simp: find_Some_iff row_of_def)
  with assms(1-3) have "r = e" by (intro keyed_same) auto
  with r show ?thesis by simp
qed

lemma found_row: "find (row_of acc i) execs = Some r \<Longrightarrow> r \<in> set execs \<and> row_of acc i r"
  by (metis find_Some_iff nth_mem)

lemma well_linked_found: "well_linked execs l \<Longrightarrow> \<exists>rs. find (row_of (ln_account l) (ln_stock l)) execs = Some rs"
  by (auto simp: well_linked_def split: option.splits)

text \<open>Why a row is offered.\<close>

lemma candidate_origin:
  assumes "get_stock_link_candidates (calm_env t) today (PStr account) (PInt oid) f g n db = Inr (Inr (rows, und, lo, hi))" and "row \<in> set rows"
  obtains opt e where "find (row_of (strip account) oid) (lb_execs db) = Some opt" "opt \<noteq> []" "sec_type_of opt = ''OPT''" "strip account \<noteq> []"
    "und = underlying_symbol_from_row opt" "und \<noteq> []" "e \<in> set (lb_execs db)" "candidate_row db (strip account) oid und lo hi e"
    "dget row ''account_executions_id'' = dget e ''account_executions_id''"
proof -
  from assms(1) obtain opt where opt: "find (row_of (strip account) oid) (lb_execs db) = Some opt" "opt \<noteq> []" "sec_type_of opt = ''OPT''"
      "strip account \<noteq> []" "und = underlying_symbol_from_row opt" "und \<noteq> []"
    and rows: "\<exists>k. rows = map candidate_out (found_candidates (strip account) oid und lo hi k db)"
    by (auto simp: get_stock_link_candidates_def Let_def stripped_def fetch_execution_final_row_def try_query_run query_run ebind_Inr_iff
        split: if_splits option.splits)
  from rows assms(2) obtain e where "e \<in> set (lb_execs db)" "candidate_row db (strip account) oid und lo hi e" "row = candidate_out e"
    by (auto simp: found_candidates_def dest!: in_set_takeD)
  with opt that show thesis by (simp add: candidate_out_def with_slippage_def)
qed

lemma candidate_fits:
  assumes cand: "candidate_row db acc oid und lo hi e" and und: "strip und = und"
  shows "sec_type_of e = ''STK''" and "upper (stripped (dget e ''symbol'')) = und"
proof -
  have st: "upper (strip_by (\<lambda>c. c = CHR '' '') (case dget e ''sec_type'' of PStr s \<Rightarrow> s | _ \<Rightarrow> [])) = ''STK''"
    using cand by (simp add: candidate_row_def)
  have "strip (case dget e ''sec_type'' of PStr s \<Rightarrow> s | _ \<Rightarrow> []) = strip (strip_by (\<lambda>c. c = CHR '' '') (case dget e ''sec_type'' of PStr s \<Rightarrow> s | _ \<Rightarrow> []))"
    by (rule strip_blanks [symmetric])
  moreover have "strip ''STK'' = ''STK''" by code_simp
  ultimately have "upper (strip (case dget e ''sec_type'' of PStr s \<Rightarrow> s | _ \<Rightarrow> [])) = ''STK''"
    using st by (metis strip_upper)
  then show "sec_type_of e = ''STK''"
    by (cases "dget e ''sec_type''") (auto simp: sec_type_of_def Let_def)
  have "strip (upper (case dget e ''symbol'' of PStr s \<Rightarrow> s | _ \<Rightarrow> [])) = und"
    using cand und strip_blanks [of "upper (case dget e ''symbol'' of PStr s \<Rightarrow> s | _ \<Rightarrow> [])"] by (simp add: candidate_row_def)
  then show "upper (stripped (dget e ''symbol'')) = und"
    by (cases "dget e ''symbol''") (auto simp: stripped_def)
qed


definition pair_request :: "string \<Rightarrow> int \<Rightarrow> int \<Rightarrow> pydict" where
  "pair_request account oid sid = [(''account_id'', PStr account), (''option_account_executions_id'', PInt oid), (''stock_account_executions_id'', PInt sid)]"

lemma pair_args: "strip account \<noteq> [] \<Longrightarrow> link_args (pair_request account oid sid) =
    Inr (Inr \<lparr>ln_account = strip account, ln_option = oid, ln_stock = sid, ln_role = None, ln_note = None\<rparr>)"
  by (simp add: link_args_def pair_request_def stripped_def text_or_none_def Let_def)

lemma calm_insert:
  assumes acc: "strip (ln_account l) = ln_account l" "ln_account l \<noteq> []" and role: "ln_role l = None"
    and rows: "find (row_of (ln_account l) (ln_option l)) (lb_execs db) = Some ro" "find (row_of (ln_account l) (ln_stock l)) (lb_execs db) = Some rs"
    and fit: "mismatch (ln_account l) (Some ro) (Some rs) = None" and free: "\<not> linked_pair db (ln_option l) (ln_stock l)"
    and args: "link_args body = Inr (Inr l)" and cfg: "is_postgres_config cfg"
  shows "\<exists>w. insert_option_stock_link (calm_env t) (Some cfg) body db = (Inr (Inr (next_link db), w), with_link l db)"
  using assms
  by (auto simp: insert_option_stock_link_def insert_link_body_def fetch_execution_final_row_def Let_def tx_simps insert_link_def
      link_violation_def after_commit_def split: option.split)

text \<open>
  A fill offered for an option can be linked to it when nothing fails in between, and from then on it is not
  offered for that option any more.
\<close>

theorem candidates_can_be_linked:
  assumes sound: "links_sound db" and keyed: "book_keyed db" and cfg: "is_postgres_config cfg"
    and offer: "get_stock_link_candidates (calm_env t) today (PStr account) (PInt oid) f g n db = Inr (Inr (rows, und, lo, hi))"
    and row: "row \<in> set rows" "dget row ''account_executions_id'' = PInt sid"
  shows "\<exists>w db'. insert_option_stock_link (calm_env u) (Some cfg) (pair_request account oid sid) db = (Inr (Inr (next_link db), w), db') \<and>
    linked_pair db' oid sid \<and>
    (\<forall>t' today' f' g' n' rows' und' lo' hi' row'.
      get_stock_link_candidates (calm_env t') today' (PStr account) (PInt oid) f' g' n' db' = Inr (Inr (rows', und', lo', hi')) \<longrightarrow>
      row' \<in> set rows' \<longrightarrow> dget row' ''account_executions_id'' \<noteq> PInt sid)"
proof -
  let ?acc = "strip account" and ?l = "\<lparr>ln_account = strip account, ln_option = oid, ln_stock = sid, ln_role = None, ln_note = None\<rparr>"
  from offer row(1) obtain opt e where opt: "find (row_of ?acc oid) (lb_execs db) = Some opt" "opt \<noteq> []" "sec_type_of opt = ''OPT''" "?acc \<noteq> []"
    and und: "und = underlying_symbol_from_row opt" and e: "e \<in> set (lb_execs db)" "candidate_row db ?acc oid und lo hi e"
      "dget row ''account_executions_id'' = dget e ''account_executions_id''"
    by (rule candidate_origin)
  have id: "dget e ''account_executions_id'' = PInt sid" "dget e ''account_id'' = PStr ?acc" using e row(2) by (simp_all add: candidate_row_def)
  have found: "find (row_of ?acc sid) (lb_execs db) = Some e" by (rule keyed_row [OF keyed e(1) id])
  have fit: "sec_type_of e = ''STK''" "upper (stripped (dget e ''symbol'')) = und"
    using candidate_fits [OF e(2)] und strip_underlying by auto
  have "\<not> linked_pair db oid sid"
  proof
    assume "linked_pair db oid sid"
    then obtain i l where l: "(i, l) \<in> set (lb_links db)" "ln_option l = oid" "ln_stock l = sid" by (auto simp: linked_pair_def list_ex_iff)
    with sound have "well_linked (lb_execs db) l" by (auto simp: links_sound_def)
    then obtain rs where "find (row_of (ln_account l) sid) (lb_execs db) = Some rs" using well_linked_found l(3) by metis
    then have rs: "rs \<in> set (lb_execs db)" "row_of (ln_account l) sid rs" by (auto dest: found_row)
    with keyed e(1) id have "rs = e" by (intro keyed_same) (auto simp: row_of_def)
    with rs id have "ln_account l = ?acc" by (simp add: row_of_def)
    with l e(2) id show False by (auto simp: candidate_row_def list_ex_iff)
  qed
  moreover have "mismatch ?acc (Some opt) (Some e) = None"
    using opt fit und id found_row [OF opt(1)] by (auto simp: mismatch_def Let_def stripped_def row_of_def)
  ultimately obtain w where ins: "insert_option_stock_link (calm_env u) (Some cfg) (pair_request account oid sid) db =
      (Inr (Inr (next_link db), w), with_link ?l db)"
    using calm_insert [of ?l db opt e "pair_request account oid sid" cfg u] opt found cfg by (auto simp: pair_args)
  have gone: "dget row' ''account_executions_id'' \<noteq> PInt sid"
    if "get_stock_link_candidates (calm_env t') today' (PStr account) (PInt oid) f' g' n' (with_link ?l db) = Inr (Inr (rows', und', lo', hi'))"
      "row' \<in> set rows'" for t' today' f' g' n' rows' und' lo' hi' row'
  proof -
    from that obtain opt' e' where "candidate_row (with_link ?l db) ?acc oid und' lo' hi' e'"
      "dget row' ''account_executions_id'' = dget e' ''account_executions_id''"
      by (rule candidate_origin)
    then show ?thesis by (auto simp: candidate_row_def)
  qed
  have "linked_pair (with_link ?l db) oid sid" by (auto simp: linked_pair_def)
  with ins gone show ?thesis by blast
qed

theorem candidates_can_be_linked_witness:
  "\<exists>w db'. insert_option_stock_link (calm_env 0) (Some [(''sink'', PStr ''postgres'')]) (pair_request ''U1'' 7 8) sample_book = (Inr (Inr 1, w), db') \<and>
    linked_pair db' 7 8"
proof -
  have hyp: "links_sound sample_book" "book_keyed sample_book" "is_postgres_config [(''sink'', PStr ''postgres'')]" by code_simp+
  have offer: "get_stock_link_candidates (calm_env 0) (2026, 3, 22) (PStr ''U1'') (PInt 7) None None 0 sample_book =
      Inr (Inr (map candidate_out [lb_execs sample_book ! 1], ''AAPL'', to_ordinal (2026, 3, 20) - 7, to_ordinal (2026, 3, 20) + 7))" by code_simp
  have row: "candidate_out (lb_execs sample_book ! 1) \<in> set (map candidate_out [lb_execs sample_book ! 1])" by simp
  have sid: "dget (candidate_out (lb_execs sample_book ! 1)) ''account_executions_id'' = PInt 8" "next_link sample_book = 1" by code_simp+
  from candidates_can_be_linked [OF hyp offer row sid(1), of 0] sid(2) show ?thesis by auto
qed

end
