(* ===== verification/Message_Center.thy ===== *)
theory Message_Center
  imports Write_Support Json_Text
begin

text \<open>
  The message centre (\<open>core/message_center.py\<close>): events of the broker connections, the Redis stream
  they travel on, the de-duplicated messages a consumer keeps from it, and the list the desk shows.

  Redis is not part of the program: its client is a record of operations on a state of any type, each
  of which answers or raises. Text is the sequence of its UTF-8 bytes, so that a client that decodes
  (\<open>RText\<close>) and one that does not (\<open>RBytes\<close>) return the same characters in different wrappings. \<open>json.dumps\<close>
  escapes a character beyond ASCII as one code point, where the model escapes its bytes; either reads back. The clock
  (\<open>time.time()\<close>) and the fresh identifiers (\<open>uuid.uuid4().hex\<close>) are arguments.
\<close>

section \<open>Redis values\<close>

datatype rtext = RText string | RBytes string

fun content :: "rtext \<Rightarrow> string" where
  "content (RText s) = s"
| "content (RBytes s) = s"

text \<open>\<open>str(b)\<close> of a bytes object is its literal: the quote, and what cannot be printed, escaped.\<close>

definition bytes_char :: "char \<Rightarrow> char \<Rightarrow> string" where
  "bytes_char q c =
     (if c = q \<or> c = CHR 0x5C then [CHR 0x5C, c]
      else if c = CHR 0x09 then [CHR 0x5C, CHR ''t'']
      else if c = CHR 0x0A then [CHR 0x5C, CHR ''n'']
      else if c = CHR 0x0D then [CHR 0x5C, CHR ''r'']
      else if 32 \<le> (of_char c :: nat) \<and> (of_char c :: nat) < 127 then [c]
      else CHR 0x5C # ''x'' @ [hex_digit (of_char c div 16), hex_digit (of_char c mod 16)])"

definition bytes_literal :: "string \<Rightarrow> string" where
  "bytes_literal s =
     (let q = (if CHR 0x27 \<in> set s \<and> CHR 0x22 \<notin> set s then CHR 0x22 else CHR 0x27)
      in CHR ''b'' # q # concat (map (bytes_char q) s) @ [q])"

fun rtext_str :: "rtext \<Rightarrow> string" where
  "rtext_str (RText s) = s"
| "rtext_str (RBytes s) = bytes_literal s"

type_synonym rfields = "(rtext \<times> rtext) list"

text \<open>\<open>fields.get(k) or fields.get(k as bytes)\<close>.\<close>

definition field_value :: "rfields \<Rightarrow> string \<Rightarrow> rtext option" where
  "field_value fs k = (case map_of fs (RText k) of
       Some v \<Rightarrow> if content v \<noteq> [] then Some v else map_of fs (RBytes k)
     | None \<Rightarrow> map_of fs (RBytes k))"

fun decode_value :: "rtext option \<Rightarrow> string" where
  "decode_value None = []"
| "decode_value (Some v) = content v"

section \<open>Labels\<close>

text \<open>\<open>s.title()\<close>: the first letter of every run of letters in upper case, the others in lower.\<close>

definition is_letter :: "char \<Rightarrow> bool" where
  "is_letter c \<longleftrightarrow> c \<in> set lower_letters \<or> c \<in> set upper_letters"

fun title_from :: "bool \<Rightarrow> string \<Rightarrow> string" where
  "title_from inside [] = []"
| "title_from inside (c # s) = (if inside then lower_char c else upper_char c) # title_from (is_letter c) s"

definition title_case :: "string \<Rightarrow> string" where
  "title_case s = title_from False s"

definition words_of :: "string \<Rightarrow> string" where
  "words_of s = title_case (map (\<lambda>c. if c = CHR ''_'' then CHR '' '' else c) s)"

definition IB_CONNECTION_LEVELS :: "(string \<times> string) list" where
  "IB_CONNECTION_LEVELS = [(''connected'', ''success''), (''reconnecting'', ''warning''), (''disconnected'', ''error'')]"

definition IB_CONNECTION_LABELS :: "(string \<times> string) list" where
  "IB_CONNECTION_LABELS = [(''connected'', ''Connected''), (''reconnecting'', ''Reconnecting''),
     (''disconnected'', ''Disconnected''), (''unknown'', ''Unknown'')]"

definition IB_SERVICE_LABELS :: "(string \<times> string) list" where
  "IB_SERVICE_LABELS = [(''ib_operator'', ''IB Operator''), (''ib_ingestor'', ''IB Ingestor''),
     (''ib_account_agent'', ''IB Account Agent''), (''portfolio_flex'', ''Portfolio (Flex)'')]"

definition IB_SLOT_DISPLAY_LABELS :: "(string \<times> string) list" where
  "IB_SLOT_DISPLAY_LABELS = [(''host'', ''HOST''), (''secondary'', ''SECONDARY'')]"

definition get_or :: "('k \<times> 'v) list \<Rightarrow> 'k \<Rightarrow> 'v \<Rightarrow> 'v" where
  "get_or m k d = (case map_of m k of None \<Rightarrow> d | Some v \<Rightarrow> v)"

definition service_label :: "string \<Rightarrow> string" where
  "service_label service = get_or IB_SERVICE_LABELS service (words_of service)"

definition status_label :: "string \<Rightarrow> string" where
  "status_label status = get_or IB_CONNECTION_LABELS status (words_of status)"

text \<open>\<open>str(slot or "host").strip().lower() or "host"\<close>: \<open>str\<close>, not a decoding.\<close>

definition sanitize_slot :: "rtext option \<Rightarrow> string" where
  "sanitize_slot v =
     (let s = lower (strip (case v of Some t \<Rightarrow> if content t \<noteq> [] then rtext_str t else ''host'' | None \<Rightarrow> ''host''))
      in if s = [] then ''host'' else s)"

definition slot_display_label :: "rtext option \<Rightarrow> string" where
  "slot_display_label slot = (let key = sanitize_slot slot in get_or IB_SLOT_DISPLAY_LABELS key (upper key))"

definition coerce_int :: "rtext option \<Rightarrow> int option" where
  "coerce_int v = (case v of None \<Rightarrow> None
     | Some t \<Rightarrow> if strip (rtext_str t) = [] then None else parse_int (content t))"

definition coerce_float :: "rtext option \<Rightarrow> pyfloat \<Rightarrow> pyfloat" where
  "coerce_float v dflt = (case v of None \<Rightarrow> dflt
     | Some t \<Rightarrow> if strip (rtext_str t) = [] then dflt
                 else (case parse_float (content t) of None \<Rightarrow> dflt | Some x \<Rightarrow> x))"

section \<open>Events\<close>

record system_message =
  sm_id :: string
  sm_topic :: string
  sm_level :: string
  sm_service :: string
  sm_slot :: string
  sm_client :: "int option"
  sm_account :: "string option"
  sm_from :: string
  sm_to :: string
  sm_title :: string
  sm_message :: string
  sm_reason :: "string option"
  sm_at :: pyfloat
  sm_dedupe :: string

definition text_or :: "string \<Rightarrow> string \<Rightarrow> string" where
  "text_or s d = (if s = [] then d else s)"

definition some_text :: "string \<Rightarrow> string option" where
  "some_text s = (if s = [] then None else Some s)"

fun opt_text :: "string option \<Rightarrow> string" where
  "opt_text None = []"
| "opt_text (Some s) = s"

definition system_message_event_to_fields :: "system_message \<Rightarrow> (string \<times> string) list" where
  "system_message_event_to_fields e =
     [(''message_id'', sm_id e), (''topic'', sm_topic e), (''level'', sm_level e), (''service'', sm_service e),
      (''slot'', sm_slot e),
      (''client_id'', case sm_client e of None \<Rightarrow> [] | Some n \<Rightarrow> int_str n),
      (''account'', opt_text (sm_account e)), (''status_from'', sm_from e), (''status_to'', sm_to e),
      (''title'', sm_title e), (''message'', sm_message e), (''reason'', opt_text (sm_reason e)),
      (''occurred_at'', float_repr (sm_at e)), (''dedupe_key'', sm_dedupe e)]"

definition parse_system_message_event :: "pyfloat \<Rightarrow> rfields \<Rightarrow> system_message option" where
  "parse_system_message_event tm fs =
     (let txt = (\<lambda>k. strip (decode_value (field_value fs k)))
      in if txt ''topic'' = [] then None
         else if txt ''message_id'' = [] then None
         else Some \<lparr>sm_id = txt ''message_id'', sm_topic = txt ''topic'', sm_level = text_or (txt ''level'') ''info'',
           sm_service = txt ''service'', sm_slot = sanitize_slot (field_value fs ''slot''),
           sm_client = coerce_int (field_value fs ''client_id''), sm_account = some_text (txt ''account''),
           sm_from = text_or (txt ''status_from'') ''unknown'', sm_to = text_or (txt ''status_to'') ''unknown'',
           sm_title = txt ''title'', sm_message = txt ''message'', sm_reason = some_text (txt ''reason''),
           sm_at = coerce_float (field_value fs ''occurred_at'') tm, sm_dedupe = txt ''dedupe_key''\<rparr>)"

text \<open>\<open>float(occurred_at or time.time())\<close>: the epoch itself counts as missing.\<close>

definition at_or_now :: "pyfloat option \<Rightarrow> pyfloat \<Rightarrow> pyfloat" where
  "at_or_now t tm = (case t of None \<Rightarrow> tm | Some x \<Rightarrow> if x = Fin 0 then tm else x)"

definition em_dash :: string where
  "em_dash = [CHR 0xE2, CHR 0x80, CHR 0x94]"

definition right_arrow :: string where
  "right_arrow = [CHR 0xE2, CHR 0x86, CHR 0x92]"

definition IB_TOPIC :: string where
  "IB_TOPIC = ''ib.connection''"

text \<open>A part of a message that is left out when its value is missing or empty.\<close>

definition part :: "string \<Rightarrow> string option \<Rightarrow> string \<Rightarrow> string" where
  "part before v after = (case v of None \<Rightarrow> [] | Some s \<Rightarrow> if s = [] then [] else before @ s @ after)"

definition build_ib_connection_event ::
  "string \<Rightarrow> pyfloat \<Rightarrow> string \<Rightarrow> rtext option \<Rightarrow> int option \<Rightarrow> string option \<Rightarrow> string \<Rightarrow> string \<Rightarrow> string option
   \<Rightarrow> pyfloat option \<Rightarrow> system_message" where
  "build_ib_connection_event uid tm service slot client account from_status to_status why occurred =
     (let name = sanitize_slot slot; where_label = slot_display_label (Some (RText name)); what = service_label service
      in \<lparr>sm_id = uid, sm_topic = IB_TOPIC, sm_level = get_or IB_CONNECTION_LEVELS to_status ''info'',
          sm_service = service, sm_slot = name, sm_client = client, sm_account = account,
          sm_from = from_status, sm_to = to_status,
          sm_title = what @ '' '' @ em_dash @ '' '' @ where_label @
            (if to_status = ''disconnected'' then '' disconnected''
             else if to_status = ''connected'' then '' connected'' else '' connection changed''),
          sm_message = what @ '' '' @ where_label
            @ (case client of None \<Rightarrow> [] | Some n \<Rightarrow> '', client '' @ int_str n)
            @ part '', account='' account [] @ '': '' @ status_label from_status @ '' '' @ right_arrow @ '' ''
            @ status_label to_status @ part '' ('' why '')'',
          sm_reason = why, sm_at = at_or_now occurred tm,
          sm_dedupe = IB_TOPIC @ '':'' @ service @ '':'' @ name @ '':''
            @ int_str (case client of None \<Rightarrow> 0 | Some n \<Rightarrow> n) @ '':'' @ to_status\<rparr>)"

text \<open>The event of a fetch of executions; both identifiers are fresh.\<close>

definition TWS_TOPIC :: string where
  "TWS_TOPIC = ''portfolio.tws_executions''"

definition build_portfolio_tws_executions_fetch_event ::
  "string \<Rightarrow> string \<Rightarrow> pyfloat \<Rightarrow> bool \<Rightarrow> string \<Rightarrow> string \<Rightarrow> string option \<Rightarrow> string option \<Rightarrow> pyfloat option \<Rightarrow> system_message" where
  "build_portfolio_tws_executions_fetch_event uid uid2 tm ok title msg why level occurred =
     \<lparr>sm_id = uid, sm_topic = TWS_TOPIC,
      sm_level = (case level of Some l \<Rightarrow> if l \<noteq> [] then l else if ok then ''success'' else ''error''
                  | None \<Rightarrow> if ok then ''success'' else ''error''),
      sm_service = ''ib_operator'', sm_slot = ''host'', sm_client = None, sm_account = None, sm_from = ''unknown'',
      sm_to = (if ok then ''complete'' else ''failed''), sm_title = title, sm_message = msg, sm_reason = why,
      sm_at = at_or_now occurred tm, sm_dedupe = TWS_TOPIC @ '':'' @ uid2\<rparr>"

section \<open>The Redis client\<close>

text \<open>The commands a pipeline collects; it is sent as one transaction.\<close>

datatype rcmd =
    ZRem string string
  | Del string
  | SetEx string string int
  | ZAdd string string pyfloat

text \<open>
  The operations the module calls, on a state \<open>'r\<close>. A read of a stream answers None or a list of streams
  with their entries; \<open>r_gets\<close> is a pipeline of \<open>get\<close>s.
\<close>

record 'r redis =
  r_xadd :: "string \<Rightarrow> (string \<times> string) list \<Rightarrow> int \<Rightarrow> 'r \<Rightarrow> (exc + rtext) \<times> 'r"
  r_xread :: "string \<Rightarrow> string \<Rightarrow> int \<Rightarrow> int \<Rightarrow> 'r \<Rightarrow> (exc + (rtext \<times> (rtext \<times> rfields) list) list option) \<times> 'r"
  r_get :: "string \<Rightarrow> 'r \<Rightarrow> (exc + rtext option) \<times> 'r"
  r_set :: "string \<Rightarrow> string \<Rightarrow> 'r \<Rightarrow> (exc + unit) \<times> 'r"
  r_exec :: "rcmd list \<Rightarrow> 'r \<Rightarrow> (exc + unit) \<times> 'r"
  r_gets :: "string list \<Rightarrow> 'r \<Rightarrow> (exc + rtext option list) \<times> 'r"
  r_zrevrange :: "string \<Rightarrow> int \<Rightarrow> int \<Rightarrow> 'r \<Rightarrow> (exc + rtext list) \<times> 'r"
  r_zrem :: "string \<Rightarrow> string list \<Rightarrow> 'r \<Rightarrow> (exc + unit) \<times> 'r"

definition EVENTS_STREAM :: string where
  "EVENTS_STREAM = ''bifrost:msg:center:events''"

definition INDEX_KEY :: string where
  "INDEX_KEY = ''bifrost:msg:center:index''"

definition item_key :: "string \<Rightarrow> string" where
  "item_key i = ''bifrost:msg:center:item:'' @ i"

definition consumer_key :: "string \<Rightarrow> string" where
  "consumer_key c = ''bifrost:msg:center:consumer:'' @ c @ '':last_id''"

definition dedupe_key :: "string \<Rightarrow> string" where
  "dedupe_key k = ''bifrost:msg:center:dedupe:'' @ k"

definition STREAM_MAXLEN :: int where
  "STREAM_MAXLEN = 4000"

definition MESSAGE_TTL :: int where
  "MESSAGE_TTL = 3600"

definition DEDUPE_WINDOW :: int where
  "DEDUPE_WINDOW = 30"

section \<open>Publishing\<close>

definition publish_system_message_event :: "'r redis \<Rightarrow> system_message \<Rightarrow> 'r \<Rightarrow> rtext option \<times> 'r" where
  "publish_system_message_event R e s =
     (case r_xadd R EVENTS_STREAM (system_message_event_to_fields e) STREAM_MAXLEN s of
        (Inl _, s') \<Rightarrow> (None, s') | (Inr i, s') \<Rightarrow> (Some i, s'))"

definition publish_ib_connection_transition ::
  "'r redis \<Rightarrow> string \<Rightarrow> pyfloat \<Rightarrow> string \<Rightarrow> rtext option \<Rightarrow> int option \<Rightarrow> string \<Rightarrow> string \<Rightarrow> string option
   \<Rightarrow> pyfloat option \<Rightarrow> 'r \<Rightarrow> rtext option \<times> 'r" where
  "publish_ib_connection_transition R uid tm service slot client from_status to_status why occurred =
     publish_system_message_event R
       (build_ib_connection_event uid tm service slot client None from_status to_status why occurred)"

subsection \<open>The tracker of one service\<close>

text \<open>A report of a connection, with the identifier and the clock an event built from it would get.\<close>

record report =
  rp_slot :: "string option"
  rp_status :: "string option"
  rp_client :: "int option"
  rp_account :: "string option"
  rp_reason :: "string option"
  rp_at :: "pyfloat option"
  rp_uid :: string
  rp_now :: pyfloat

type_synonym statuses = "(string \<times> string) list"

definition report_slot :: "report \<Rightarrow> string" where
  "report_slot p = sanitize_slot (map_option RText (rp_slot p))"

definition report_status :: "report \<Rightarrow> string" where
  "report_status p =
     (let s = lower (strip (case rp_status p of Some t \<Rightarrow> text_or t ''unknown'' | None \<Rightarrow> ''unknown'')) in text_or s ''unknown'')"

text \<open>
  \<open>update\<close>: the status is recorded first; the event is the one to publish, if any. The dictionary of the
  last statuses is the tracker's state.
\<close>

definition tracker_event :: "string \<Rightarrow> report \<Rightarrow> statuses \<Rightarrow> system_message option \<times> statuses" where
  "tracker_event service p seen =
     (let slot = report_slot p; nxt = report_status p; prev = map_of seen slot; seen' = AList.update slot nxt seen
      in if prev = Some nxt then (None, seen')
         else if prev = None \<and> nxt \<noteq> ''connected'' then (None, seen')
         else (Some (build_ib_connection_event (rp_uid p) (rp_now p) service (Some (RText slot)) (rp_client p) (rp_account p)
                 (case prev of None \<Rightarrow> ''unknown'' | Some t \<Rightarrow> text_or t ''unknown'') nxt (rp_reason p) (rp_at p)), seen'))"

definition tracker_update :: "'r redis \<Rightarrow> string \<Rightarrow> report \<Rightarrow> statuses \<times> 'r \<Rightarrow> rtext option \<times> (statuses \<times> 'r)" where
  "tracker_update R service p ts =
     (case tracker_event service p (fst ts) of
        (None, seen') \<Rightarrow> (None, (seen', snd ts))
      | (Some e, seen') \<Rightarrow>
          (case publish_system_message_event R e (snd ts) of (i, s') \<Rightarrow> (i, (seen', s'))))"

subsection \<open>A service that is stopped\<close>

text \<open>\<open>redis_hash_field_truthy\<close> of \<open>core/redis_health_keys.py\<close>.\<close>

definition redis_hash_field_truthy :: "pydict \<Rightarrow> string \<Rightarrow> bool" where
  "redis_hash_field_truthy h k =
     (if h = [] then False
      else case dget h k of
        PNone \<Rightarrow> False
      | PBool b \<Rightarrow> b
      | PInt i \<Rightarrow> i \<noteq> 0
      | PFloat x \<Rightarrow> x \<noteq> Fin 0
      | v \<Rightarrow> lower (strip (py_str v)) \<in> {''1'', ''true'', ''yes'', ''on''})"

text \<open>
  \<open>_cid\<close>: the first of the keys whose value is a number; None when that number is not positive. An
  infinity raises OverflowError, which is not caught.
\<close>

fun client_id_of :: "pydict \<Rightarrow> string list \<Rightarrow> exc + int option" where
  "client_id_of m [] = Inr None"
| "client_id_of m (k # ks) =
     (let v = dget m k
      in if v = PNone \<or> strip (py_str v) = [] then client_id_of m ks
         else case py_int v of
           Inr n \<Rightarrow> Inr (if n > 0 then Some n else None)
         | Inl OverflowErr \<Rightarrow> Inl (PyErr OverflowErr)
         | Inl _ \<Rightarrow> client_id_of m ks)"

definition slot_when :: "exc + bool \<Rightarrow> string \<Rightarrow> exc + int option \<Rightarrow> exc + (string \<times> int) list" where
  "slot_when live slot cid =
     ebind live (\<lambda>b. if b then ebind cid (\<lambda>c. Inr (case c of None \<Rightarrow> [] | Some n \<Rightarrow> [(slot, n)])) else Inr [])"

definition secondary_live :: "pydict \<Rightarrow> exc + bool" where
  "secondary_live m =
     (if redis_hash_field_truthy m ''secondary_connected'' then Inr True
      else if redis_hash_field_truthy m ''secondary_present''
      then ebind (client_id_of m [''secondary_client_id'']) (\<lambda>c. Inr (c \<noteq> None)) else Inr False)"

definition connected_slots :: "string \<Rightarrow> pydict \<Rightarrow> exc + (string \<times> int) list" where
  "connected_slots service_id m =
     (let sid = strip service_id; up = (\<lambda>ks. Inr (list_ex (redis_hash_field_truthy m) ks));
          sec = slot_when (secondary_live m) ''secondary'' (client_id_of m [''secondary_client_id''])
      in if sid = ''ib_ingestor'' \<or> sid = ''ib_market''
         then slot_when (up [''connected'']) ''host'' (client_id_of m [''client_id''])
         else if sid = ''ib_account_agent''
         then ebind (slot_when (up [''host_connected'', ''connected'', ''host_alive'']) ''host''
                (client_id_of m [''host_client_id'', ''client_id''])) (\<lambda>h. ebind sec (\<lambda>t. Inr (h @ t)))
         else if sid = ''ib_operator''
         then ebind (slot_when (up [''host_connected'', ''connected'', ''host_alive'', ''operator_connected'']) ''host''
                (client_id_of m [''host_client_id'', ''client_id'', ''operator_client_id''])) (\<lambda>h. ebind sec (\<lambda>t. Inr (h @ t)))
         else Inr [])"

definition INGEST_SERVICES :: "(string \<times> string) list" where
  "INGEST_SERVICES = [(''ib_ingestor'', ''ib_ingestor''), (''ib_market'', ''ib_ingestor''),
     (''ib_account_agent'', ''ib_account_agent''), (''ib_operator'', ''ib_operator'')]"

text \<open>One fresh identifier per message; the time is read once, before the loop.\<close>

fun publish_stopped :: "'r redis \<Rightarrow> (nat \<Rightarrow> string) \<Rightarrow> nat \<Rightarrow> string \<Rightarrow> pyfloat \<Rightarrow> pyfloat \<Rightarrow> (string \<times> int) list \<Rightarrow> 'r \<Rightarrow> 'r" where
  "publish_stopped R uid n service ts tm [] s = s"
| "publish_stopped R uid n service ts tm ((slot, cid) # rest) s =
     publish_stopped R uid (Suc n) service ts tm rest
       (snd (publish_ib_connection_transition R (uid n) tm service (Some (RText slot)) (Some cid) ''connected'' ''disconnected''
          (Some ''Service stopped'') (Some ts) s))"

definition publish_ib_service_stopped_messages ::
  "'r redis \<Rightarrow> (nat \<Rightarrow> string) \<Rightarrow> pyfloat \<Rightarrow> string \<Rightarrow> pydict \<Rightarrow> pyfloat option \<Rightarrow> 'r \<Rightarrow> (exc + unit) \<times> 'r" where
  "publish_ib_service_stopped_messages R uid tm service_id health occurred s =
     (case map_of INGEST_SERVICES (strip service_id) of
        None \<Rightarrow> (Inr (), s)
      | Some service \<Rightarrow>
          (case connected_slots service_id health of
             Inl e \<Rightarrow> (Inl e, s)
           | Inr slots \<Rightarrow> (Inr (), publish_stopped R uid 0 service (at_or_now occurred tm) tm slots s)))"

section \<open>Consuming the stream\<close>

definition consumer_last_id :: "'r redis \<Rightarrow> string \<Rightarrow> 'r \<Rightarrow> string \<times> 'r" where
  "consumer_last_id R c s = (case r_get R (consumer_key c) s of
       (Inl _, s') \<Rightarrow> (''0-0'', s')
     | (Inr v, s') \<Rightarrow> (text_or (strip (decode_value v)) ''0-0'', s'))"

definition set_consumer_last_id :: "'r redis \<Rightarrow> string \<Rightarrow> string \<Rightarrow> 'r \<Rightarrow> 'r" where
  "set_consumer_last_id R c i s = snd (r_set R (consumer_key c) i s)"

definition read_stream_events :: "'r redis \<Rightarrow> string \<Rightarrow> int \<Rightarrow> int \<Rightarrow> 'r \<Rightarrow> (string \<times> rfields) list \<times> 'r" where
  "read_stream_events R last_id block_ms n s =
     (case r_xread R EVENTS_STREAM last_id n block_ms s of
        (Inl _, s') \<Rightarrow> ([], s')
      | (Inr None, s') \<Rightarrow> ([], s')
      | (Inr (Some reply), s') \<Rightarrow> (map (\<lambda>(i, fs). (content i, fs)) (concat (map snd reply)), s'))"

fun fsub :: "pyfloat \<Rightarrow> pyfloat \<Rightarrow> pyfloat" where
  "fsub (Fin a) (Fin b) = Fin (a - b)"
| "fsub NaN _ = NaN"
| "fsub _ NaN = NaN"
| "fsub PosInf PosInf = NaN"
| "fsub NegInf NegInf = NaN"
| "fsub PosInf _ = PosInf"
| "fsub NegInf _ = NegInf"
| "fsub (Fin _) PosInf = NegInf"
| "fsub (Fin _) NegInf = PosInf"

text \<open>\<open>max(0.0, x)\<close>: the first argument unless the second is greater, so 0.0 for NaN.\<close>

definition age_of :: "pyfloat \<Rightarrow> pyfloat \<Rightarrow> pyfloat" where
  "age_of tm w = (case fsub tm w of
       Fin d \<Rightarrow> if d > 0 then Fin d else Fin 0 | PosInf \<Rightarrow> PosInf | _ \<Rightarrow> Fin 0)"

text \<open>The seconds a message has left to live; None when its time is over.\<close>

definition ttl_remaining :: "int \<Rightarrow> pyfloat \<Rightarrow> pyfloat \<Rightarrow> int option" where
  "ttl_remaining ttl tm w = (case age_of tm w of
       Fin age \<Rightarrow> if age \<ge> of_int ttl then None else Some (max 1 \<lceil>of_int ttl - age\<rceil>) | _ \<Rightarrow> None)"

definition message_body :: "system_message \<Rightarrow> pydict" where
  "message_body e =
     [(''message_id'', PStr (sm_id e)), (''topic'', PStr (sm_topic e)), (''level'', PStr (sm_level e)),
      (''service'', PStr (sm_service e)), (''slot'', PStr (sm_slot e)),
      (''client_id'', case sm_client e of None \<Rightarrow> PNone | Some n \<Rightarrow> PInt n), (''account'', of_opt (sm_account e)),
      (''status_from'', PStr (sm_from e)), (''status_to'', PStr (sm_to e)), (''title'', PStr (sm_title e)),
      (''message'', PStr (sm_message e)), (''reason'', of_opt (sm_reason e)), (''occurred_at'', PFloat (sm_at e))]"

text \<open>The commands that store a message, given the one its de-duplication key points at.\<close>

definition dedupe_commands :: "int \<Rightarrow> int \<Rightarrow> system_message \<Rightarrow> string \<Rightarrow> rcmd list" where
  "dedupe_commands window left e prev =
     (if prev \<noteq> [] \<and> prev \<noteq> sm_id e then [ZRem INDEX_KEY prev, Del (item_key prev)] else [])
     @ [SetEx (dedupe_key (sm_dedupe e)) (sm_id e) (max 1 (min window left))]"

definition store_commands :: "int \<Rightarrow> system_message \<Rightarrow> rcmd list" where
  "store_commands left e =
     [SetEx (item_key (sm_id e)) (json_value '','' '':'' (PDict (message_body e))) left, ZAdd INDEX_KEY (sm_id e) (sm_at e)]"

definition materialize_stream_event ::
  "'r redis \<Rightarrow> pyfloat \<Rightarrow> int \<Rightarrow> int \<Rightarrow> system_message \<Rightarrow> 'r \<Rightarrow> pydict option \<times> 'r" where
  "materialize_stream_event R tm ttl window e s =
     (case ttl_remaining ttl tm (sm_at e) of
        None \<Rightarrow> (None, s)
      | Some left \<Rightarrow>
          (let finish = (\<lambda>cmds s. case r_exec R (cmds @ store_commands left e) s of
                 (Inl _, s') \<Rightarrow> (None, s') | (Inr _, s') \<Rightarrow> (Some (message_body e), s'))
           in if sm_dedupe e = [] then finish [] s
              else (case r_get R (dedupe_key (sm_dedupe e)) s of
                  (Inl _, s') \<Rightarrow> (None, s')
                | (Inr v, s') \<Rightarrow> finish (dedupe_commands window left e (strip (decode_value v))) s')))"

text \<open>The clock is read again for every entry.\<close>

fun consume_entries ::
  "'r redis \<Rightarrow> (nat \<Rightarrow> pyfloat) \<Rightarrow> nat \<Rightarrow> (string \<times> rfields) list \<Rightarrow> 'r \<Rightarrow> pydict list \<times> 'r" where
  "consume_entries R clock n [] s = ([], s)"
| "consume_entries R clock n ((i, fs) # es) s =
     (case parse_system_message_event (clock n) fs of
        None \<Rightarrow> consume_entries R clock (Suc n) es s
      | Some e \<Rightarrow>
          (case materialize_stream_event R (clock n) MESSAGE_TTL DEDUPE_WINDOW e s of
             (m, s1) \<Rightarrow> (case consume_entries R clock (Suc n) es s1 of
                (ms, s2) \<Rightarrow> ((case m of None \<Rightarrow> ms | Some d \<Rightarrow> d # ms), s2))))"

definition sync_events_for_consumer ::
  "'r redis \<Rightarrow> (nat \<Rightarrow> pyfloat) \<Rightarrow> string \<Rightarrow> int \<Rightarrow> int \<Rightarrow> 'r \<Rightarrow> pydict list \<times> 'r" where
  "sync_events_for_consumer R clock c block_ms n s =
     (case consumer_last_id R c s of (last_id, s1) \<Rightarrow>
        (case read_stream_events R last_id block_ms n s1 of (es, s2) \<Rightarrow>
           if es = [] then ([], s2)
           else (case consume_entries R clock 0 es s2 of (ms, s3) \<Rightarrow>
              (ms, if fst (last es) \<noteq> last_id then set_consumer_last_id R c (fst (last es)) s3 else s3))))"

section \<open>The list the desk shows\<close>

text \<open>
  One batch: the payloads in the order of the index. A missing or unreadable payload makes its
  identifier stale; a payload that is not an object is passed over. The scan stops at the limit.
\<close>

fun scan_batch :: "int \<Rightarrow> (string \<times> rtext option) list \<Rightarrow> pydict list \<Rightarrow> string list \<Rightarrow> pydict list \<times> string list" where
  "scan_batch limit [] out stale = (out, stale)"
| "scan_batch limit ((i, p) # rest) out stale =
     (case p of
        None \<Rightarrow> scan_batch limit rest out (stale @ [i])
      | Some t \<Rightarrow>
          (case json_loads_text (content t) of
             None \<Rightarrow> scan_batch limit rest out (stale @ [i])
           | Some (PDict d) \<Rightarrow>
               if int (length (out @ [d])) \<ge> limit then (out @ [d], stale) else scan_batch limit rest (out @ [d]) stale
           | Some _ \<Rightarrow> scan_batch limit rest out stale))"

text \<open>The loop; every round reads at least one entry, so \<open>start\<close> reaches its bound.\<close>

function fetch_loop ::
  "'r redis \<Rightarrow> int \<Rightarrow> int \<Rightarrow> int \<Rightarrow> pydict list \<Rightarrow> string list \<Rightarrow> 'r \<Rightarrow> (exc + pydict list \<times> string list) \<times> 'r" where
  "fetch_loop R limit start remaining out stale s =
     (if int (length out) < limit \<and> start < limit * 4
      then (case r_zrevrange R INDEX_KEY start (start + remaining - 1) s of
              (Inl e, s1) \<Rightarrow> (Inl e, s1)
            | (Inr ids, s1) \<Rightarrow>
                if ids = [] then (Inr (out, stale), s1)
                else (case r_gets R (map (\<lambda>i. item_key (content i)) ids) s1 of
                        (Inl e, s2) \<Rightarrow> (Inl e, s2)
                      | (Inr ps, s2) \<Rightarrow>
                          (case scan_batch limit (zip (map content ids) ps) out stale of
                             (out', stale') \<Rightarrow>
                               fetch_loop R limit (start + int (length ids)) (max 1 (limit - int (length out'))) out' stale' s2)))
      else (Inr (out, stale), s))"
  by pat_completeness auto

termination
  by (relation "measure (\<lambda>(R, limit, start, remaining, out, stale, s). nat (limit * 4 - start))") auto

declare fetch_loop.simps [simp del]

definition fetch_materialized_messages :: "'r redis \<Rightarrow> int \<Rightarrow> 'r \<Rightarrow> (exc + pydict list) \<times> 'r" where
  "fetch_materialized_messages R limit s =
     (case fetch_loop R limit 0 (max 1 limit) [] [] s of
        (Inl e, s') \<Rightarrow> (Inl e, s')
      | (Inr (out, stale), s') \<Rightarrow> (Inr out, if stale = [] then s' else snd (r_zrem R INDEX_KEY stale s')))"

end
