(* ===== verification/Text_Roundtrip.thy ===== *)
theory Text_Roundtrip
  imports Json_Text
begin

text \<open>
  What is written as text is read back: the \<open>repr\<close> of a float with at most 17 decimals by
  \<open>float\<close>, any text by the string parser of \<open>json\<close>, and any object of scalars by \<open>json.loads\<close>.
\<close>

section \<open>The digits of a fraction\<close>

lemma digits_val_Cons: "digits_val (c # s) = digit_val c * 10 ^ length s + digits_val s"
proof (induction s rule: rev_induct)
  case Nil
  show ?case by (simp add: digits_val_def)
next
  case (snoc x xs)
  have "digits_val ((c # xs) @ [x]) = 10 * digits_val (c # xs) + digit_val x" by (rule digits_val_snoc)
  with snoc show ?case by (simp add: digits_val_snoc algebra_simps)
qed

lemma frac_digits_spec:
  assumes "0 \<le> r" "r < 1" "r * 10 ^ n \<in> \<int>"
  shows "list_all is_digit (frac_digits n r) \<and> of_int (digits_val (frac_digits n r)) / 10 ^ length (frac_digits n r) = r"
  using assms
proof (induction n arbitrary: r)
  case 0
  then obtain k where "r = of_int k" by (auto elim: Ints_cases)
  with 0 have "r = 0" by simp
  then show ?case by (simp add: digits_val_def)
next
  case (Suc n)
  show ?case
  proof (cases "r = 0")
    case True
    then show ?thesis by (simp add: digits_val_def)
  next
    case False
    let ?d = "\<lfloor>r * 10\<rfloor>" and ?r = "r * 10 - of_int \<lfloor>r * 10\<rfloor>"
    have d: "0 \<le> ?d" "?d < 10" using Suc.prems by (simp_all add: floor_less_iff)
    have r: "0 \<le> ?r" "?r < 1" by linarith+
    have "?r * 10 ^ n = r * 10 ^ Suc n - of_int (?d * 10 ^ n)" by (simp add: algebra_simps)
    then have "?r * 10 ^ n \<in> \<int>" using Suc.prems(3) by (metis Ints_diff Ints_of_int)
    from Suc.IH [OF r this] have ih: "list_all is_digit (frac_digits n ?r)"
      "of_int (digits_val (frac_digits n ?r)) = ?r * 10 ^ length (frac_digits n ?r)" by (simp_all add: divide_eq_eq)
    have "(of_int (digits_val (digit_char ?d # frac_digits n ?r)) :: rat) = r * 10 ^ Suc (length (frac_digits n ?r))"
      using ih(2) d by (simp add: digits_val_Cons digit_val_char algebra_simps)
    with False ih(1) show ?thesis by (simp add: Let_def divide_eq_eq)
  qed
qed

definition decimal17 :: "rat \<Rightarrow> bool" where
  "decimal17 q \<longleftrightarrow> q * 10 ^ 17 \<in> \<int>"

lemma decimal17_of_int [simp]: "decimal17 (of_int i)"
  by (simp add: decimal17_def)

lemma decimal17_micros: "decimal17 (of_int i / 1000000)"
proof -
  have "(of_int i / 1000000 :: rat) * 10 ^ 17 = of_int (i * 100000000000)" by simp
  then show ?thesis unfolding decimal17_def by (metis Ints_of_int)
qed

lemma split_at_append: "list_all (Not \<circ> p) s \<Longrightarrow> p c \<Longrightarrow> split_at p (s @ c # t) = (s, Some t)"
proof -
  assume a: "list_all (Not \<circ> p) s" "p c"
  then have "dropWhile (Not \<circ> p) (s @ c # t) = c # t" "takeWhile (Not \<circ> p) (s @ c # t) = s"
    by (induction s) auto
  then show ?thesis by (simp add: split_at_def)
qed

lemma digit_not: "is_digit c \<Longrightarrow> c \<noteq> CHR ''.''" "is_digit c \<Longrightarrow> c \<noteq> CHR ''e''" "is_digit c \<Longrightarrow> c \<noteq> CHR ''i''"
  "is_digit c \<Longrightarrow> c \<noteq> CHR ''n''" "is_digit c \<Longrightarrow> c \<noteq> CHR ''-''" "is_digit c \<Longrightarrow> c \<noteq> CHR ''+''"
  by (auto simp: is_digit_def digit_chars_def)

lemma digits_have_no: "list_all is_digit s \<Longrightarrow> \<not> is_digit c \<Longrightarrow> list_all (Not \<circ> (\<lambda>x. x = c)) s"
  by (auto simp: list_all_iff)

lemma parse_mantissa_decimal:
  assumes i: "isdigit i" and f: "isdigit f"
  shows "parse_mantissa (i @ ''.'' @ f) = Some (of_int (digits_val i) + of_int (digits_val f) / 10 ^ length f)"
proof -
  have "list_all (Not \<circ> (\<lambda>c. c = CHR ''.'')) i"
    using i by (intro digits_have_no) (auto simp: isdigit_def is_digit_def digit_chars_def)
  from split_at_append [OF this refl] have sp: "split_at (\<lambda>c. c = CHR ''.'') (i @ ''.'' @ f) = (i, Some f)" by simp
  have "filter is_digit f = f" using f by (simp add: isdigit_def list_all_iff filter_id_conv)
  with sp i f show ?thesis by (simp add: parse_mantissa_def digits_us_isdigit) (auto simp: isdigit_def)
qed

text \<open>The text of a float: sign, digits, point, digits.\<close>

lemma rat_repr_shape:
  assumes "decimal17 q"
  obtains i f where "isdigit i" "isdigit f" "rat_repr q = (if q < 0 then ''-'' else []) @ i @ ''.'' @ f"
    "of_int (digits_val i) + of_int (digits_val f) / 10 ^ length f = \<bar>q\<bar>" "i = pos_str \<lfloor>\<bar>q\<bar>\<rfloor>"
proof -
  let ?r = "\<bar>q\<bar> - of_int \<lfloor>\<bar>q\<bar>\<rfloor>"
  let ?g = "frac_digits 17 ?r"
  let ?f = "if ?g = [] then ''0'' else ?g"
  have r: "0 \<le> ?r" "?r < 1" by linarith+
  have "\<bar>q\<bar> * 10 ^ 17 \<in> \<int>" using assms by (simp add: decimal17_def abs_if)
  moreover have "?r * 10 ^ 17 = \<bar>q\<bar> * 10 ^ 17 - of_int (\<lfloor>\<bar>q\<bar>\<rfloor> * 10 ^ 17)" by (simp add: algebra_simps)
  ultimately have "?r * 10 ^ 17 \<in> \<int>" by (metis Ints_diff Ints_of_int)
  from frac_digits_spec [OF r this] have g: "list_all is_digit ?g" "of_int (digits_val ?g) / 10 ^ length ?g = ?r" by blast+
  have z: "digits_val ''0'' = 0" "isdigit ''0''" by code_simp+
  have f: "isdigit ?f" using g(1) z(2) by (auto simp: isdigit_def)
  have v: "of_int (digits_val ?f) / 10 ^ length ?f = ?r" using g(2) z(1) by (auto simp: digits_val_def)
  have i: "isdigit (pos_str \<lfloor>\<bar>q\<bar>\<rfloor>)" by simp
  have "(of_int (digits_val (pos_str \<lfloor>\<bar>q\<bar>\<rfloor>)) :: rat) = of_int \<lfloor>\<bar>q\<bar>\<rfloor>" by simp
  with v have sum: "of_int (digits_val (pos_str \<lfloor>\<bar>q\<bar>\<rfloor>)) + of_int (digits_val ?f) / 10 ^ length ?f = \<bar>q\<bar>" by simp
  show thesis by (rule that [OF i f _ sum refl]) (simp add: rat_repr_def Let_def)
qed

lemma lower_id: "list_all (\<lambda>c. c \<notin> set upper_letters) s \<Longrightarrow> lower s = s"
proof (induction s)
  case (Cons c s)
  then have "map_of (zip upper_letters lower_letters) c = None"
    by (simp add: map_of_eq_None_iff upper_letters_def lower_letters_def)
  with Cons show ?case by (simp add: lower_def lower_char_def)
qed simp

lemma digit_not_upper: "is_digit c \<Longrightarrow> c \<notin> set upper_letters"
  by (auto simp: is_digit_def digit_chars_def upper_letters_def)

lemma parse_unsigned_decimal:
  assumes i: "isdigit i" and f: "isdigit f"
  shows "parse_unsigned (i @ ''.'' @ f) = Some (Fin (of_int (digits_val i) + of_int (digits_val f) / 10 ^ length f))"
proof -
  from i obtain c i' where ci: "i = c # i'" "is_digit c" by (cases i) (auto simp: isdigit_def)
  have "\<forall>c \<in> set (i @ ''.'' @ f). \<not> c = CHR ''e''"
    using i f by (auto simp: isdigit_def list_all_iff dest: digit_not)
  then have "split_at (\<lambda>c. c = CHR ''e'') (i @ ''.'' @ f) = (i @ ''.'' @ f, None)" by (rule split_at_none)
  moreover have "i @ ''.'' @ f \<noteq> ''inf''" "i @ ''.'' @ f \<noteq> ''infinity''" "i @ ''.'' @ f \<noteq> ''nan''"
    using ci digit_not(3,4) [of c] by auto
  ultimately show ?thesis using parse_mantissa_decimal [OF i f] by (simp add: parse_unsigned_def)
qed

lemma decimal_strip:
  assumes i: "isdigit i" and f: "isdigit f" and sg: "sg = [] \<or> sg = ''-''"
  shows "strip (sg @ i @ ''.'' @ f) = sg @ i @ ''.'' @ f"
proof -
  have "\<not> is_space (last (sg @ i @ ''.'' @ f))"
    using f isdigit_ends [of f] by (auto simp: isdigit_def)
  moreover have "\<not> is_space (hd (sg @ i @ ''.'' @ f))"
    using sg i isdigit_ends [of i] by (auto simp: isdigit_def is_space_def py_spaces_def hd_append)
  ultimately show ?thesis unfolding strip_def by (intro strip_by_id) simp
qed

lemma decimal_lower: "isdigit i \<Longrightarrow> isdigit f \<Longrightarrow> lower (i @ ''.'' @ f) = i @ ''.'' @ f"
  by (intro lower_id) (auto simp: isdigit_def list_all_iff digit_not_upper, simp add: upper_letters_def)

lemma parse_float_repr:
  assumes "decimal17 q"
  shows "parse_float (rat_repr q) = Some (Fin q)"
proof -
  from assms obtain i f where i: "isdigit i" and f: "isdigit f"
    and t: "rat_repr q = (if q < 0 then ''-'' else []) @ i @ ''.'' @ f"
    and v: "of_int (digits_val i) + of_int (digits_val f) / 10 ^ length f = \<bar>q\<bar>" by (rule rat_repr_shape)
  have st: "strip (rat_repr q) = rat_repr q" unfolding t by (rule decimal_strip [OF i f]) simp
  have lo: "lower (rat_repr q) = rat_repr q"
    using decimal_lower [OF i f] unfolding t by (simp add: lower_def lower_char_def upper_letters_def lower_letters_def)
  have pu: "parse_unsigned (i @ ''.'' @ f) = Some (Fin \<bar>q\<bar>)" using parse_unsigned_decimal [OF i f] v by simp
  show ?thesis
  proof (cases "q < 0")
    case True
    then show ?thesis using pu unfolding parse_float_def st lo by (simp add: t split_sign_def)
  next
    case False
    from i obtain c i' where ci: "i = c # i'" "is_digit c" by (cases i) (auto simp: isdigit_def)
    with False have "split_sign (rat_repr q) = (1, i @ ''.'' @ f)"
      using digit_not(5,6) [of c] by (simp add: t split_sign_def)
    with pu False show ?thesis unfolding parse_float_def st lo by simp
  qed
qed

section \<open>Any text as a JSON string\<close>

lemma hex_val_digit: "n < 16 \<Longrightarrow> hex_val (hex_digit n) = Some n"
proof -
  assume "n < 16"
  then have "n \<in> set [0..<16]" by simp
  moreover have "list_all (\<lambda>n. hex_val (hex_digit n) = Some n) [0..<16]" by code_simp
  ultimately show ?thesis by (simp only: list_all_iff)
qed

lemma char_of_hex: "char_of (16 * (of_char c div 16) + of_char c mod 16 :: nat) = c"
  by simp

text \<open>Every character of a text is read back from its escape.\<close>

lemma json_str_escape: "simple_escapes = es \<Longrightarrow> map_of es e = Some x \<Longrightarrow> e \<noteq> CHR ''u'' \<Longrightarrow>
    json_str (CHR 0x5C # e # r) = map_option (\<lambda>(t, q). (x # t, q)) (json_str r)"
  by (subst json_str.simps(2)) simp

lemma json_str_hex:
  "json_str (CHR 0x5C # CHR ''u'' # CHR ''0'' # CHR ''0'' # hex_digit (of_char c div 16) # hex_digit (of_char c mod 16) # r)
   = map_option (\<lambda>(t, q). (c # t, q)) (json_str r)"
proof -
  have "(of_char c div 16 :: nat) < 16" using of_char_256 [of c] by (intro less_mult_imp_div_less) simp
  moreover have "(of_char c mod 16 :: nat) < 16" by simp
  ultimately show ?thesis
    by (subst json_str.simps(2)) (simp add: hex_val_digit char_of_hex)
qed

lemma json_char_read: "json_str (json_char c @ r) = map_option (\<lambda>(t, q). (c # t, q)) (json_str r)"
proof -
  have esc: "c \<in> {CHR 0x22, CHR 0x5C, CHR 0x0A, CHR 0x0D, CHR 0x09, CHR 0x0C, CHR 0x08} \<Longrightarrow> ?thesis"
    by (simp only: insert_iff empty_iff, elim disjE) (simp_all add: json_char_def simple_escapes_def)
  have lit: "32 \<le> (of_char c :: nat) \<and> (of_char c :: nat) < 127 \<and> c \<noteq> CHR 0x22 \<and> c \<noteq> CHR 0x5C \<Longrightarrow> ?thesis"
    unfolding json_char_def by (simp only: if_True if_False simp_thms append_Cons append_Nil) (subst json_str.simps(2), simp)
  have hex: "\<not> (32 \<le> (of_char c :: nat) \<and> (of_char c :: nat) < 127) \<and>
      c \<notin> {CHR 0x22, CHR 0x5C, CHR 0x0A, CHR 0x0D, CHR 0x09, CHR 0x0C, CHR 0x08} \<Longrightarrow> ?thesis"
    using json_str_hex [of c r] by (subst json_char_def) simp
  from esc lit hex show ?thesis by blast
qed

lemma json_str_read: "json_str (concat (map json_char s) @ CHR 0x22 # r) = Some (s, r)"
proof (induction s)
  case (Cons c s)
  then show ?case by (simp add: json_char_read)
qed simp

section \<open>Objects of scalars\<close>

declare json_parse.simps(2) [simp del] json_members.simps(2) [simp del]

fun flat_value :: "pyval \<Rightarrow> bool" where
  "flat_value PNone = True"
| "flat_value (PBool _) = True"
| "flat_value (PInt _) = True"
| "flat_value (PStr _) = True"
| "flat_value (PFloat (Fin q)) = decimal17 q"
| "flat_value _ = False"

abbreviation member_end :: "char \<Rightarrow> bool" where
  "member_end c \<equiv> c = CHR '','' \<or> c = CHR 0x7D"

lemma word_start:
  assumes "is_digit x"
  shows "find (\<lambda>w. startswith (x # xs) (fst w)) json_words = None"
    and "find (\<lambda>w. startswith (CHR ''-'' # x # xs) (fst w)) json_words = None"
proof -
  from assms have "x \<noteq> CHR ''n''" "x \<noteq> CHR ''t''" "x \<noteq> CHR ''f''" "x \<noteq> CHR ''N''" "x \<noteq> CHR ''I''" "x \<noteq> CHR ''-''"
    by (auto simp: is_digit_def digit_chars_def)
  then show "find (\<lambda>w. startswith (x # xs) (fst w)) json_words = None"
    "find (\<lambda>w. startswith (CHR ''-'' # x # xs) (fst w)) json_words = None"
    by (simp_all add: json_words_def startswith_def take_Cons')
qed

lemma json_word_float:
  assumes q: "decimal17 q" and c: "member_end c"
  shows "json_word (rat_repr q @ c # r) = Some (PFloat (Fin q), c # r)"
proof -
  from q obtain i f where i: "isdigit i" and f: "isdigit f"
    and t: "rat_repr q = (if q < 0 then ''-'' else []) @ i @ ''.'' @ f"
    and v: "of_int (digits_val i) + of_int (digits_val f) / 10 ^ length f = \<bar>q\<bar>" and ip: "i = pos_str \<lfloor>\<bar>q\<bar>\<rfloor>" by (rule rat_repr_shape)
  obtain x xs where x: "i = x # xs" "is_digit x" using i by (cases i) (auto simp: isdigit_def)
  have nd: "\<not> is_digit (CHR ''.'')" "\<not> is_digit c" using c by (auto simp: is_digit_def digit_chars_def)
  have "json_int_part (i @ CHR ''.'' # f @ c # r) = (i, CHR ''.'' # f @ c # r)"
    unfolding ip by (rule json_int_part_pos [OF _ nd(1)]) simp
  moreover have "json_frac_part (CHR ''.'' # f @ c # r) = (CHR ''.'' # f, c # r)"
    using f takeWhile_digits [of f c r] nd(2) by (simp add: json_frac_part_def isdigit_def)
  moreover have "json_exp_part (c # r) = ([], c # r)" using c by (auto simp: json_exp_part_def Let_def)
  moreover have "parse_unsigned (lower (i @ CHR ''.'' # f)) = Some (Fin \<bar>q\<bar>)"
    using parse_unsigned_decimal [OF i f] decimal_lower [OF i f] v by simp
  ultimately have num: "json_number (i @ CHR ''.'' # f @ c # r) = Some (PFloat (Fin \<bar>q\<bar>), c # r)"
    "json_number (CHR ''-'' # i @ CHR ''.'' # f @ c # r) = Some (PFloat (Fin (- \<bar>q\<bar>)), c # r)"
    using x digit_not(5) [of x] by (auto simp: json_number_def)
  show ?thesis
  proof (cases "q < 0")
    case True
    have "find (\<lambda>w. startswith (CHR ''-'' # i @ CHR ''.'' # f @ c # r) (fst w)) json_words = None"
      using word_start(2) [OF x(2)] x(1) by simp
    with True num(2) show ?thesis by (simp add: t json_word_def)
  next
    case False
    have "find (\<lambda>w. startswith (i @ CHR ''.'' # f @ c # r) (fst w)) json_words = None"
      using word_start(1) [OF x(2)] x(1) by simp
    with False num(1) show ?thesis by (simp add: t json_word_def)
  qed
qed

text \<open>The parser passes from a value to the word or number parser unless it opens a string, a list or an object.\<close>

lemma json_parse_word: "s = c # s' \<Longrightarrow> c \<noteq> CHR 0x22 \<Longrightarrow> c \<noteq> CHR 0x7B \<Longrightarrow> c \<noteq> CHR ''['' \<Longrightarrow> json_parse (Suc n) s = json_word s"
  by (simp add: json_parse.simps(2))

lemma number_first:
  assumes "s = (if b then ''-'' else []) @ i @ t" "isdigit i"
  obtains c s' where "s @ u = c # s'" "c \<noteq> CHR 0x22" "c \<noteq> CHR 0x7B" "c \<noteq> CHR ''[''" "json_ws (s @ u) = s @ u"
proof -
  obtain x xs where x: "i = x # xs" "is_digit x" using assms(2) by (cases i) (auto simp: isdigit_def)
  have "\<exists>c s'. s @ u = c # s' \<and> (c = CHR ''-'' \<or> is_digit c)" using assms(1) x by (cases b) auto
  then obtain c s' where c: "s @ u = c # s'" "c = CHR ''-'' \<or> is_digit c" by blast
  show thesis by (rule that [OF c(1)]) (use c in \<open>auto simp: is_digit_def digit_chars_def json_ws_def\<close>)
qed

lemma json_parse_flat:
  assumes v: "flat_value v" and c: "member_end c"
  shows "json_parse (Suc n) (json_value '','' '':'' v @ c # r) = Some (v, c # r)
       \<and> json_ws (json_value '','' '':'' v @ c # r) = json_value '','' '':'' v @ c # r"
proof (cases v)
  case (PInt i)
  have "int_str i = (if i < 0 then ''-'' else []) @ pos_str (if i < 0 then - i else i) @ []" by (simp add: int_str_def)
  from number_first [OF this, of "c # r"] obtain x s' where "int_str i @ c # r = x # s'" "x \<noteq> CHR 0x22" "x \<noteq> CHR 0x7B"
    "x \<noteq> CHR ''[''" "json_ws (int_str i @ c # r) = int_str i @ c # r" by (metis isdigit_pos_str)
  with PInt json_word_int [OF c, of i r] json_parse_word show ?thesis by (metis json_value.simps(3))
next
  case (PFloat x)
  with v obtain q where q: "x = Fin q" "decimal17 q" by (cases x) auto
  from q(2) obtain i f where i: "isdigit i" and t: "rat_repr q = (if q < 0 then ''-'' else []) @ i @ ''.'' @ f"
    by (rule rat_repr_shape)
  from number_first [OF t i, of "c # r"] obtain y s' where "rat_repr q @ c # r = y # s'" "y \<noteq> CHR 0x22" "y \<noteq> CHR 0x7B"
    "y \<noteq> CHR ''[''" "json_ws (rat_repr q @ c # r) = rat_repr q @ c # r" by blast
  with PFloat q json_word_float [OF q(2) c, of r] json_parse_word show ?thesis by (metis json_value.simps(4) json_float.simps(1))
next
  case (PStr s)
  then show ?thesis using json_str_read [of s "c # r"] by (simp add: json_text_def json_ws_def json_parse.simps(2))
qed (use v in \<open>auto simp: json_parse.simps(2) json_word_def json_words_def startswith_def json_ws_def\<close>)

definition member_text :: "string \<times> pyval \<Rightarrow> string" where
  "member_text e = json_text (fst e) @ '':'' @ json_value '','' '':'' (snd e)"

lemma dset_new: "k \<notin> fst ` set ms \<Longrightarrow> dset k v ms = ms @ [(k, v)]"
  by (induction ms) (auto simp: dset_def)

lemma json_ws_char: "c \<noteq> CHR '' '' \<Longrightarrow> c \<noteq> CHR 0x09 \<Longrightarrow> c \<noteq> CHR 0x0A \<Longrightarrow> c \<noteq> CHR 0x0D \<Longrightarrow> json_ws (c # s) = c # s"
  by (simp add: json_ws_def)

lemma json_members_step:
  assumes "flat_value v" "member_end c" "k \<notin> fst ` set ms"
  shows "json_members (Suc (Suc n)) (member_text (k, v) @ c # r) ms =
     (if c = CHR 0x7D then Some (PDict (ms @ [(k, v)]), r) else json_members (Suc n) (json_ws r) (ms @ [(k, v)]))"
proof -
  have "json_members (Suc (Suc n)) (member_text (k, v) @ c # r) ms =
      json_members (Suc (Suc n)) (CHR 0x22 # concat (map json_char k) @ CHR 0x22 # CHR '':'' # json_value '','' '':'' v @ c # r) ms"
    by (simp add: member_text_def json_text_def)
  also have "\<dots> = (if c = CHR 0x7D then Some (PDict (ms @ [(k, v)]), r) else json_members (Suc n) (json_ws r) (ms @ [(k, v)]))"
    using assms json_parse_flat [OF assms(1,2), of n r] dset_new [OF assms(3), of v]
    by (subst json_members.simps(2)) (auto simp: json_str_read json_ws_char)
  finally show ?thesis .
qed

lemma json_members_flat:
  assumes "kvs \<noteq> []" "distinct (map fst ms @ map fst kvs)" "\<And>e. e \<in> set kvs \<Longrightarrow> flat_value (snd e)"
  shows "json_members (Suc (length kvs + n)) (join '','' (map member_text kvs) @ CHR 0x7D # r) ms = Some (PDict (ms @ kvs), r)"
  using assms
proof (induction kvs arbitrary: ms)
  case (Cons e kvs)
  obtain k v where e: "e = (k, v)" by (cases e)
  have k: "k \<notin> fst ` set ms" and v: "flat_value v" using Cons.prems(2) Cons.prems(3) [of e] e by auto
  show ?case
  proof (cases kvs)
    case Nil
    then show ?thesis using json_members_step [OF v _ k, of "CHR 0x7D"] e by simp
  next
    case (Cons e2 rest)
    have "json_ws (join '','' (map member_text kvs) @ CHR 0x7D # r) = join '','' (map member_text kvs) @ CHR 0x7D # r"
      using Cons by (cases rest) (simp_all add: member_text_def json_text_def json_ws_char)
    then have "json_members (Suc (length (e # kvs) + n)) (join '','' (map member_text (e # kvs)) @ CHR 0x7D # r) ms
        = json_members (Suc (length kvs + n)) (join '','' (map member_text kvs) @ CHR 0x7D # r) (ms @ [e])"
      using json_members_step [OF v _ k, of "CHR '',''" "length kvs + n"] Cons e by simp
    then show ?thesis using Cons.IH [of "ms @ [e]"] Cons Cons.prems(2,3) by simp
  qed
qed simp

lemma join_members_length: "length kvs \<le> length (join '','' (map member_text kvs))"
proof (induction kvs)
  case (Cons e kvs)
  then show ?case by (cases kvs) (simp_all add: member_text_def json_text_def)
qed simp

theorem json_object_roundtrip:
  assumes "distinct (map fst d)" "\<And>e. e \<in> set d \<Longrightarrow> flat_value (snd e)"
  shows "json_loads_text (json_value '','' '':'' (PDict d)) = Some (PDict d)"
proof (cases d)
  case Nil
  then show ?thesis by (simp add: json_loads_text_def json_ws_def json_parse.simps(2))
next
  case (Cons e rest)
  let ?m = "join '','' (map member_text d) @ [CHR 0x7D]"
  have t: "json_value '','' '':'' (PDict d) = CHR 0x7B # ?m" by (simp add: member_text_def [abs_def])
  obtain m where m: "length ?m = length d + m" using join_members_length [of d] by (metis le_iff_add length_append le_add1 order_trans)
  have hd: "\<exists>w. ?m = CHR 0x22 # w" using Cons by (cases rest) (simp_all add: member_text_def json_text_def)
  have "json_members (Suc (length d + m)) ?m [] = Some (PDict d, [])"
    using json_members_flat [of d "[]" m "[]"] Cons assms by simp
  with hd m show ?thesis unfolding t json_loads_text_def by (auto simp: json_ws_char json_ws_def json_parse.simps(2))
qed

end
