(* ===== verification/Message_Claims.thy ===== *)
theory Message_Claims
  imports Message_Center Text_Roundtrip
begin

text \<open>
  The message centre as a whole: what the tracker publishes, that an event survives the stream and
  the store, and what the list of the desk shows.
\<close>

section \<open>The tracker\<close>

text \<open>The events of a run, and the run itself over any Redis.\<close>

fun tracked :: "string \<Rightarrow> report list \<Rightarrow> statuses \<Rightarrow> system_message option list \<times> statuses" where
  "tracked service [] seen = ([], seen)"
| "tracked service (p # ps) seen =
     (case tracker_event service p seen of (e, seen1) \<Rightarrow>
        (case tracked service ps seen1 of (es, seen2) \<Rightarrow> (e # es, seen2)))"

fun run_tracker :: "'r redis \<Rightarrow> string \<Rightarrow> report list \<Rightarrow> statuses \<times> 'r \<Rightarrow> statuses \<times> 'r" where
  "run_tracker R service [] ts = ts"
| "run_tracker R service (p # ps) ts = run_tracker R service ps (snd (tracker_update R service p ts))"

definition publish_all :: "'r redis \<Rightarrow> system_message list \<Rightarrow> 'r \<Rightarrow> 'r" where
  "publish_all R es s = fold (\<lambda>e s. snd (publish_system_message_event R e s)) es s"

text \<open>The reference: the last status reported for a slot, and the event a report is worth.\<close>

definition last_status :: "report list \<Rightarrow> string \<Rightarrow> string option" where
  "last_status ps slot =
     (case filter (\<lambda>p. report_slot p = slot) (rev ps) of [] \<Rightarrow> None | p # _ \<Rightarrow> Some (report_status p))"

definition change_event :: "string \<Rightarrow> report list \<Rightarrow> report \<Rightarrow> system_message option" where
  "change_event service before p =
     (let event = (\<lambda>from_status. build_ib_connection_event (rp_uid p) (rp_now p) service (Some (RText (report_slot p)))
          (rp_client p) (rp_account p) from_status (report_status p) (rp_reason p) (rp_at p))
      in case last_status before (report_slot p) of
           None \<Rightarrow> if report_status p = ''connected'' then Some (event ''unknown'') else None
         | Some q \<Rightarrow> if q = report_status p then None else Some (event q))"

definition changes :: "string \<Rightarrow> report list \<Rightarrow> system_message list" where
  "changes service ps =
     concat (map (\<lambda>i. case change_event service (take i ps) (ps ! i) of None \<Rightarrow> [] | Some e \<Rightarrow> [e]) [0..<length ps])"

lemma each_prefix_snoc:
  "concat (map (\<lambda>i. f (take i (xs @ [x])) ((xs @ [x]) ! i)) [0..<length (xs @ [x])])
   = concat (map (\<lambda>i. f (take i xs) (xs ! i)) [0..<length xs]) @ f xs x"
proof -
  have "map (\<lambda>i. f (take i (xs @ [x])) ((xs @ [x]) ! i)) [0..<length xs] = map (\<lambda>i. f (take i xs) (xs ! i)) [0..<length xs]"
    by (intro map_cong refl) (simp add: nth_append)
  moreover have "take (length xs) (xs @ [x]) = xs" by simp
  ultimately show ?thesis by (simp del: map_eq_conv take_append)
qed

lemma changes_snoc:
  "changes service (ps @ [p]) = changes service ps @ (case change_event service ps p of None \<Rightarrow> [] | Some e \<Rightarrow> [e])"
  unfolding changes_def by (rule each_prefix_snoc)

lemma report_status_nonempty [simp]: "report_status p \<noteq> []"
  by (simp add: report_status_def text_or_def Let_def)

lemma last_status_snoc: "last_status (ps @ [p]) slot = (if report_slot p = slot then Some (report_status p) else last_status ps slot)"
  by (simp add: last_status_def)

lemma last_status_nonempty: "last_status ps slot \<noteq> Some []"
  by (auto simp: last_status_def split: list.splits)

lemma tracker_event_ref:
  assumes "\<And>k. map_of seen k = last_status before k"
  shows "fst (tracker_event service p seen) = change_event service before p
       \<and> (\<forall>k. map_of (snd (tracker_event service p seen)) k = last_status (before @ [p]) k)"
proof -
  have "q \<noteq> []" if "last_status before (report_slot p) = Some q" for q using last_status_nonempty that by metis
  then show ?thesis
    using assms
    by (auto simp: tracker_event_def change_event_def last_status_snoc update_conv' text_or_def Let_def split: option.splits)
qed

lemma run_tracker_state:
  assumes "\<And>k. map_of seen k = last_status before k"
  shows "snd (run_tracker R service ps (seen, s))
    = publish_all R (concat (map (\<lambda>i. case change_event service (before @ take i ps) (ps ! i) of None \<Rightarrow> [] | Some e \<Rightarrow> [e])
        [0..<length ps])) s"
  using assms
proof (induction ps arbitrary: seen before s)
  case Nil
  then show ?case by (simp add: publish_all_def)
next
  case (Cons p ps)
  let ?ev = "\<lambda>b i qs. case change_event service (b @ take i qs) (qs ! i) of None \<Rightarrow> [] | Some e \<Rightarrow> [e]"
  obtain e seen1 where te: "tracker_event service p seen = (e, seen1)" by (metis prod.exhaust)
  with tracker_event_ref [of seen before service p, OF Cons.prems]
  have e: "e = change_event service before p" and seen1: "\<And>k. map_of seen1 k = last_status (before @ [p]) k" by simp_all
  let ?s = "case e of None \<Rightarrow> s | Some x \<Rightarrow> snd (publish_system_message_event R x s)"
  have upd: "snd (tracker_update R service p (seen, s)) = (seen1, ?s)"
    by (simp add: tracker_update_def te split: option.splits prod.splits)
  have cut: "[0..<length (p # ps)] = 0 # map Suc [0..<length ps]" by (simp add: upt_conv_Cons map_Suc_upt del: upt_Suc)
  have "concat (map (\<lambda>i. ?ev before i (p # ps)) [0..<length (p # ps)])
      = ?ev before 0 (p # ps) @ concat (map (\<lambda>i. ?ev (before @ [p]) i ps) [0..<length ps])"
    unfolding cut by (simp add: comp_def)
  then show ?case using Cons.IH [of seen1 "before @ [p]" ?s, OF seen1] upd
    by (simp add: publish_all_def e split: option.splits)
qed

definition slot_events :: "string \<Rightarrow> string \<Rightarrow> report list \<Rightarrow> system_message list" where
  "slot_events service k ps = filter (\<lambda>e. sm_slot e = k) (changes service ps)"

text \<open>A sanitized slot is left as it is.\<close>

lemma sanitize_text: "lower (strip t) = t \<Longrightarrow> t \<noteq> [] \<Longrightarrow> sanitize_slot (Some (RText t)) = t"
  by (simp add: sanitize_slot_def)

lemma strip_lower_strip: "lower (strip (lower (strip s))) = lower (strip s)"
  by simp

lemma sanitize_slot_clean: "lower (strip (sanitize_slot v)) = sanitize_slot v" "sanitize_slot v \<noteq> []"
proof -
  have "lower (strip ''host'') = ''host''" by code_simp
  then show "lower (strip (sanitize_slot v)) = sanitize_slot v" by (simp add: sanitize_slot_def Let_def)
  show "sanitize_slot v \<noteq> []" by (simp add: sanitize_slot_def Let_def)
qed

lemma built_event [simp]:
  "sm_slot (build_ib_connection_event u w service slot cl ac a b why t) = sanitize_slot slot"
  "sm_from (build_ib_connection_event u w service slot cl ac a b why t) = a"
  "sm_to (build_ib_connection_event u w service slot cl ac a b why t) = b"
  by (simp_all add: build_ib_connection_event_def Let_def)

lemma sanitize_report_slot [simp]: "sanitize_slot (Some (RText (report_slot p))) = report_slot p"
  unfolding report_slot_def by (rule sanitize_text) (rule sanitize_slot_clean)+

lemma change_event_slot: "change_event service ps p = Some e \<Longrightarrow> sm_slot e = report_slot p \<and> sm_to e = report_status p
    \<and> sm_from e \<noteq> sm_to e \<and> (\<forall>q. last_status ps (report_slot p) = Some q \<longrightarrow> sm_from e = q)"
  by (auto simp: change_event_def Let_def split: option.splits if_splits)

lemma slot_events_chain:
  "successively (\<lambda>a b. sm_to a = sm_from b) (slot_events service k ps)
   \<and> (slot_events service k ps \<noteq> [] \<longrightarrow> last_status ps k = Some (sm_to (last (slot_events service k ps))))
   \<and> (\<forall>e \<in> set (slot_events service k ps). sm_from e \<noteq> sm_to e)"
proof (induction ps rule: rev_induct)
  case Nil
  show ?case by (simp add: slot_events_def changes_def)
next
  case (snoc p ps)
  show ?case
  proof (cases "change_event service ps p")
    case None
    then have same: "slot_events service k (ps @ [p]) = slot_events service k ps" by (simp add: slot_events_def changes_snoc)
    have "last_status ps k \<noteq> None \<Longrightarrow> last_status (ps @ [p]) k = last_status ps k"
      using None by (auto simp: last_status_snoc change_event_def Let_def split: option.splits if_splits)
    with snoc show ?thesis unfolding same by fastforce
  next
    case (Some e)
    note e = change_event_slot [OF Some]
    have new: "slot_events service k (ps @ [p]) = slot_events service k ps @ (if report_slot p = k then [e] else [])"
      using Some e by (simp add: slot_events_def changes_snoc)
    show ?thesis unfolding new using snoc e by (auto simp: last_status_snoc successively_append_iff)
  qed
qed

text \<open>
  C19. The tracker publishes exactly the changes: whatever Redis does with each command, the commands it gets
  are those of the reports whose status differs from the last one reported for their slot (for a slot's
  first report: only a connection), in order, each event from the last status to the new one; and the
  events of a slot form a chain, each beginning with the status the one before it ended with.
\<close>

theorem tracker_publishes_changes:
  "snd (run_tracker R service ps ([], s)) = publish_all R (changes service ps) s
   \<and> successively (\<lambda>a b. sm_to a = sm_from b) (slot_events service k ps)
   \<and> list_all (\<lambda>e. sm_from e \<noteq> sm_to e) (slot_events service k ps)"
proof -
  have "\<And>k. map_of [] k = last_status [] k" by (simp add: last_status_def)
  from run_tracker_state [of "[]" "[]" R service ps s, OF this] slot_events_chain [of service k ps]
  show ?thesis by (simp add: changes_def list_all_iff)
qed

section \<open>From the tracker to the list of the desk\<close>

definition clean :: "string \<Rightarrow> bool" where
  "clean t \<longleftrightarrow> strip t = t"

definition clean_opt :: "string option \<Rightarrow> bool" where
  "clean_opt t = (case t of None \<Rightarrow> True | Some x \<Rightarrow> x \<noteq> [] \<and> clean x)"

definition at_decimal :: "pyfloat \<Rightarrow> bool" where
  "at_decimal x = (case x of Fin q \<Rightarrow> decimal17 q | _ \<Rightarrow> False)"

definition well_formed :: "system_message \<Rightarrow> bool" where
  "well_formed e \<longleftrightarrow> sm_id e \<noteq> [] \<and> sm_topic e \<noteq> [] \<and> sm_level e \<noteq> [] \<and> sm_from e \<noteq> [] \<and> sm_to e \<noteq> [] \<and> sm_slot e \<noteq> []
     \<and> list_all clean [sm_id e, sm_topic e, sm_level e, sm_service e, sm_from e, sm_to e, sm_title e, sm_message e, sm_dedupe e]
     \<and> lower (strip (sm_slot e)) = sm_slot e \<and> clean_opt (sm_account e) \<and> clean_opt (sm_reason e) \<and> at_decimal (sm_at e)"

text \<open>What a client that decodes reads of an entry.\<close>

definition decoded :: "(string \<times> string) list \<Rightarrow> rfields" where
  "decoded fs = map (\<lambda>(k, v). (RText k, RText v)) fs"

lemma field_decoded: "map_of fs k = Some v \<Longrightarrow> field_value (decoded fs) k = (if v = [] then None else Some (RText v))"
proof -
  have t: "map_of (decoded fs) (RText k) = map_option RText (map_of fs k)" and b: "map_of (decoded fs) (RBytes k) = None"
    by (induction fs) (auto simp: decoded_def)
  show "map_of fs k = Some v \<Longrightarrow> ?thesis" by (simp add: field_value_def t b)
qed

lemma decode_decoded: "map_of fs k = Some v \<Longrightarrow> decode_value (field_value (decoded fs) k) = v"
  by (simp add: field_decoded)

lemma coerce_client: "coerce_int (if t = [] then None else Some (RText t)) = c"
  if "t = (case c of None \<Rightarrow> [] | Some n \<Rightarrow> int_str n)"
proof -
  have "int_str n \<noteq> []" for n using int_str_not_blank [of n] by auto
  with that int_str_not_blank show ?thesis by (auto simp: coerce_int_def split: option.splits)
qed

lemma coerce_stamp: "decimal17 q \<Longrightarrow> coerce_float (if rat_repr q = [] then None else Some (RText (rat_repr q))) w = Fin q"
proof -
  assume q: "decimal17 q"
  obtain i f where i: "isdigit i" "isdigit f" "rat_repr q = (if q < 0 then ''-'' else []) @ i @ ''.'' @ f"
    using q by (rule rat_repr_shape)
  have "strip (rat_repr q) = rat_repr q" unfolding i(3) by (rule decimal_strip [OF i(1,2)]) simp
  moreover have "rat_repr q \<noteq> []" by (simp add: i(3))
  ultimately show ?thesis using parse_float_repr [OF q] by (simp add: coerce_float_def)
qed

text \<open>The fields of an event, by name.\<close>

lemma message_fields:
  "map_of (system_message_event_to_fields e) ''message_id'' = Some (sm_id e)"
  "map_of (system_message_event_to_fields e) ''topic'' = Some (sm_topic e)"
  "map_of (system_message_event_to_fields e) ''level'' = Some (sm_level e)"
  "map_of (system_message_event_to_fields e) ''service'' = Some (sm_service e)"
  "map_of (system_message_event_to_fields e) ''slot'' = Some (sm_slot e)"
  "map_of (system_message_event_to_fields e) ''client_id'' = Some (case sm_client e of None \<Rightarrow> [] | Some n \<Rightarrow> int_str n)"
  "map_of (system_message_event_to_fields e) ''account'' = Some (opt_text (sm_account e))"
  "map_of (system_message_event_to_fields e) ''status_from'' = Some (sm_from e)"
  "map_of (system_message_event_to_fields e) ''status_to'' = Some (sm_to e)"
  "map_of (system_message_event_to_fields e) ''title'' = Some (sm_title e)"
  "map_of (system_message_event_to_fields e) ''message'' = Some (sm_message e)"
  "map_of (system_message_event_to_fields e) ''reason'' = Some (opt_text (sm_reason e))"
  "map_of (system_message_event_to_fields e) ''occurred_at'' = Some (float_repr (sm_at e))"
  "map_of (system_message_event_to_fields e) ''dedupe_key'' = Some (sm_dedupe e)"
  by (simp_all add: system_message_event_to_fields_def)

lemma some_text_opt: "clean_opt t \<Longrightarrow> some_text (strip (opt_text t)) = t"
  by (cases t) (auto simp: clean_opt_def clean_def some_text_def)

lemma parse_fields:
  assumes "well_formed e"
  shows "parse_system_message_event w (decoded (system_message_event_to_fields e)) = Some e"
proof -
  let ?fs = "decoded (system_message_event_to_fields e)"
  note [simp] = message_fields [THEN decode_decoded]
  from assms have c: "strip (sm_id e) = sm_id e" "strip (sm_topic e) = sm_topic e" "strip (sm_level e) = sm_level e"
    "strip (sm_service e) = sm_service e" "strip (sm_from e) = sm_from e" "strip (sm_to e) = sm_to e"
    "strip (sm_title e) = sm_title e" "strip (sm_message e) = sm_message e" "strip (sm_dedupe e) = sm_dedupe e"
    and o: "clean_opt (sm_account e)" "clean_opt (sm_reason e)" and a: "at_decimal (sm_at e)"
    and sl: "lower (strip (sm_slot e)) = sm_slot e"
    and n: "sm_id e \<noteq> []" "sm_topic e \<noteq> []" "sm_level e \<noteq> []" "sm_from e \<noteq> []" "sm_to e \<noteq> []" "sm_slot e \<noteq> []"
    by (simp_all add: well_formed_def clean_def)
  have slot: "sanitize_slot (field_value ?fs ''slot'') = sm_slot e"
    using sanitize_text [OF sl n(6)] n(6) by (simp add: field_decoded [OF message_fields(5)])
  have client: "coerce_int (field_value ?fs ''client_id'') = sm_client e"
    unfolding field_decoded [OF message_fields(6)] by (rule coerce_client [OF refl])
  have stamp: "coerce_float (field_value ?fs ''occurred_at'') w = sm_at e"
  proof (cases "sm_at e")
    case (Fin q)
    with a have "decimal17 q" by (simp add: at_decimal_def)
    then show ?thesis unfolding field_decoded [OF message_fields(13)] Fin float_repr.simps by (rule coerce_stamp)
  qed (use a in \<open>auto simp: at_decimal_def\<close>)
  show ?thesis
    unfolding parse_system_message_event_def Let_def using n
    by (simp add: slot client stamp c some_text_opt [OF o(1)] some_text_opt [OF o(2)] text_or_def)
qed

lemma body_roundtrip:
  assumes "at_decimal (sm_at e)"
  shows "json_loads_text (json_value '','' '':'' (PDict (message_body e))) = Some (PDict (message_body e))"
proof (rule json_object_roundtrip)
  show "distinct (map fst (message_body e))" by (simp add: message_body_def)
  fix x assume "x \<in> set (message_body e)"
  moreover have "flat_value (of_opt t)" for t by (cases t) simp_all
  moreover have "flat_value (PFloat (sm_at e))" using assms by (cases "sm_at e") (simp_all add: at_decimal_def)
  ultimately show "flat_value (snd x)" by (auto simp: message_body_def split: option.splits)
qed

text \<open>A service and statuses the module has labels for, and a report with clean texts.\<close>

definition known_status :: "string \<Rightarrow> bool" where
  "known_status t \<longleftrightarrow> t \<in> fst ` set IB_CONNECTION_LABELS"

definition sane_report :: "report \<Rightarrow> bool" where
  "sane_report p \<longleftrightarrow> known_status (report_status p) \<and> rp_uid p \<noteq> [] \<and> clean (rp_uid p) \<and> clean_opt (rp_account p)
     \<and> clean_opt (rp_reason p) \<and> at_decimal (at_or_now (rp_at p) (rp_now p))"

text \<open>A text between two characters that are not blanks is clean.\<close>

lemma clean_ends: "s \<noteq> [] \<Longrightarrow> \<not> is_space (hd s) \<Longrightarrow> \<not> is_space (last s) \<Longrightarrow> clean s"
  unfolding clean_def strip_def by (rule strip_by_id) simp

lemma clean_last: "clean s \<Longrightarrow> s \<noteq> [] \<Longrightarrow> \<not> is_space (last s)"
  unfolding clean_def strip_def using strip_by_ends by metis

lemma known_status_facts:
  assumes "known_status t"
  shows "t \<noteq> []" "clean t" "status_label t \<noteq> []" "\<not> is_space (last (status_label t))" "get_or IB_CONNECTION_LEVELS t ''info'' \<noteq> []"
    "clean (get_or IB_CONNECTION_LEVELS t ''info'')"
proof -
  have "list_all (\<lambda>t. t \<noteq> [] \<and> strip t = t \<and> status_label t \<noteq> [] \<and> \<not> is_space (last (status_label t))
      \<and> get_or IB_CONNECTION_LEVELS t ''info'' \<noteq> [] \<and> strip (get_or IB_CONNECTION_LEVELS t ''info'') = get_or IB_CONNECTION_LEVELS t ''info'')
      (map fst IB_CONNECTION_LABELS)" by code_simp
  with assms show "t \<noteq> []" "clean t" "status_label t \<noteq> []" "\<not> is_space (last (status_label t))"
    "get_or IB_CONNECTION_LEVELS t ''info'' \<noteq> []" "clean (get_or IB_CONNECTION_LEVELS t ''info'')"
    unfolding known_status_def clean_def by (auto simp: list_all_iff)
qed

lemma known_service_facts:
  assumes "service \<in> fst ` set IB_SERVICE_LABELS"
  shows "clean service" "service_label service \<noteq> []" "\<not> is_space (hd (service_label service))"
proof -
  have "list_all (\<lambda>t. strip t = t \<and> service_label t \<noteq> [] \<and> \<not> is_space (hd (service_label t))) (map fst IB_SERVICE_LABELS)"
    by code_simp
  with assms show "clean service" "service_label service \<noteq> []" "\<not> is_space (hd (service_label service))"
    unfolding clean_def by (auto simp: list_all_iff)
qed

lemma last_part: "part a (Some r) b = [] \<longleftrightarrow> r = [] \<or> (a = [] \<and> r = [] \<and> b = [])"
  by (simp add: part_def)

lemma built_well_formed:
  assumes sv: "service \<in> fst ` set IB_SERVICE_LABELS" and st: "known_status a" "known_status b"
    and u: "u \<noteq> []" "clean u" and opt: "clean_opt ac" "clean_opt why" and tm: "at_decimal (at_or_now t w)"
  shows "well_formed (build_ib_connection_event u w service slot cl ac a b why t)" (is "well_formed ?e")
proof -
  note sf = known_service_facts [OF sv] and af = known_status_facts [OF st(1)] and bf = known_status_facts [OF st(2)]
  have title: "clean (sm_title ?e)"
    by (rule clean_ends) (use sf in \<open>simp_all add: build_ib_connection_event_def Let_def hd_append is_space_def py_spaces_def\<close>)
  have "last (status_label b @ part '' ('' why '')'') = CHR '')'' \<or> last (status_label b @ part '' ('' why '')'') = last (status_label b)"
    by (auto simp: part_def split: option.splits)
  then have end_ok: "\<not> is_space (last (status_label b @ part '' ('' why '')''))"
    using bf(4) by (auto simp: is_space_def py_spaces_def)
  have msg: "clean (sm_message ?e)"
    by (rule clean_ends) (use sf bf(3) end_ok in \<open>auto simp: build_ib_connection_event_def Let_def hd_append last_append split: if_splits\<close>)
  have dd: "clean (sm_dedupe ?e)"
    by (rule clean_ends) (use bf(1) clean_last [OF bf(2) bf(1)] in
        \<open>auto simp: build_ib_connection_event_def Let_def IB_TOPIC_def is_space_def py_spaces_def\<close>)
  have topic: "clean IB_TOPIC" unfolding clean_def by code_simp
  show ?thesis
    unfolding well_formed_def
    using title msg dd topic sf(1) af(1,2) bf(1,2,5,6) u opt tm sanitize_slot_clean [of slot]
    by (auto simp: build_ib_connection_event_def Let_def IB_TOPIC_def)
qed

lemma last_status_known: "(\<And>p. p \<in> set ps \<Longrightarrow> known_status (report_status p)) \<Longrightarrow> last_status ps k = Some q \<Longrightarrow> known_status q"
proof -
  assume ok: "\<And>p. p \<in> set ps \<Longrightarrow> known_status (report_status p)" and "last_status ps k = Some q"
  then obtain p qs where f: "filter (\<lambda>p. report_slot p = k) (rev ps) = p # qs" and q: "q = report_status p"
    by (auto simp: last_status_def split: list.splits)
  from f have "p \<in> set (filter (\<lambda>p. report_slot p = k) (rev ps))" by simp
  then show "known_status q" using ok q by simp
qed

lemma changes_well_formed:
  assumes sv: "service \<in> fst ` set IB_SERVICE_LABELS" and ok: "\<And>p. p \<in> set ps \<Longrightarrow> sane_report p"
    and e: "e \<in> set (changes service ps)"
  shows "well_formed e"
proof -
  from e obtain i where i: "i < length ps" "change_event service (take i ps) (ps ! i) = Some e"
    by (auto simp: changes_def split: option.splits)
  have p: "sane_report (ps ! i)" using i(1) ok by simp
  have un: "known_status ''unknown''" by (simp add: known_status_def IB_CONNECTION_LABELS_def)
  have before: "known_status q" if "last_status (take i ps) k = Some q" for k q
    by (rule last_status_known [OF _ that]) (use ok in \<open>auto simp: sane_report_def dest: in_set_takeD\<close>)
  have built: "known_status a \<Longrightarrow> well_formed (build_ib_connection_event (rp_uid (ps ! i)) (rp_now (ps ! i)) service
      (Some (RText (report_slot (ps ! i)))) (rp_client (ps ! i)) (rp_account (ps ! i)) a (report_status (ps ! i))
      (rp_reason (ps ! i)) (rp_at (ps ! i)))" for a
    using p by (intro built_well_formed [OF sv]) (simp_all add: sane_report_def)
  from i(2) built [OF un] built before show ?thesis
    by (auto simp: change_event_def Let_def split: option.splits if_splits)
qed

text \<open>
  C30. A published message reaches the desk as it is: an event of a labelled service and status, written to
  the stream's fields and read back by a client that decodes, is the same event, and the text stored for
  it is read back as its body.
\<close>

theorem published_messages_read_back:
  assumes "service \<in> fst ` set IB_SERVICE_LABELS" and "\<And>p. p \<in> set ps \<Longrightarrow> sane_report p" and "e \<in> set (changes service ps)"
  shows "parse_system_message_event w (decoded (system_message_event_to_fields e)) = Some e
     \<and> (\<exists>txt. store_commands left e = [SetEx (item_key (sm_id e)) txt left, ZAdd INDEX_KEY (sm_id e) (sm_at e)]
         \<and> json_loads_text txt = Some (PDict (message_body e)))"
proof -
  have wf: "well_formed e" using assms by (rule changes_well_formed)
  then have "at_decimal (sm_at e)" by (simp add: well_formed_def)
  with body_roundtrip parse_fields [OF wf] show ?thesis by (auto simp: store_commands_def)
qed

definition sample_report :: report where
  "sample_report = \<lparr>rp_slot = Some ''Host '', rp_status = Some ''Connected'', rp_client = Some 7, rp_account = None,
     rp_reason = Some ''restart'', rp_at = None, rp_uid = ''a1'', rp_now = Fin (1700000000250000 / 1000000)\<rparr>"

lemma sample_sane: "sane_report sample_report"
proof -
  have "at_decimal (at_or_now (rp_at sample_report) (rp_now sample_report))"
    using decimal17_micros [of 1700000000250000] by (simp add: sample_report_def at_or_now_def at_decimal_def)
  moreover have "report_status sample_report = ''connected''" by code_simp
  moreover have "clean_opt (rp_account sample_report)" "clean_opt (rp_reason sample_report)" "rp_uid sample_report \<noteq> []" "clean (rp_uid sample_report)"
    unfolding clean_opt_def clean_def by code_simp+
  ultimately show ?thesis by (simp add: sane_report_def known_status_def IB_CONNECTION_LABELS_def)
qed

theorem published_messages_read_back_witness:
  "\<exists>e. changes ''ib_operator'' [sample_report] = [e] \<and> parse_system_message_event (Fin 0) (decoded (system_message_event_to_fields e)) = Some e"
proof -
  have "length (changes ''ib_operator'' [sample_report]) = 1" by code_simp
  then obtain e where e: "changes ''ib_operator'' [sample_report] = [e]" by (auto simp: length_Suc_conv)
  have "''ib_operator'' \<in> fst ` set IB_SERVICE_LABELS" by (simp add: IB_SERVICE_LABELS_def)
  from published_messages_read_back [OF this, of "[sample_report]" e "Fin 0"] sample_sane e show ?thesis by simp
qed

text \<open>A client that does not decode gets another slot: the text of the bytes literal.\<close>

lemma undecoded_slot: "sanitize_slot (Some (RBytes ''host'')) = CHR ''b'' # CHR 0x27 # ''host'' @ [CHR 0x27]"
  by code_simp

section \<open>How long a message lives\<close>

lemma ttl_remaining_bounds:
  assumes "0 < ttl" "ttl_remaining ttl (Fin w) (Fin q) = Some n"
  shows "1 \<le> n \<and> n \<le> ttl \<and> w < q + of_int ttl \<and> (q \<le> w \<longrightarrow> q + of_int ttl \<le> w + of_int n \<and> w + of_int n < q + of_int ttl + 1)"
proof (cases "q < w")
  case True
  with assms have n: "n = max 1 \<lceil>of_int ttl - (w - q)\<rceil>" and l: "w - q < of_int ttl"
    by (auto simp: ttl_remaining_def age_of_def split: if_splits)
  have "1 \<le> \<lceil>of_int ttl - (w - q)\<rceil>" using l by simp
  then have c: "n = \<lceil>of_int ttl - (w - q)\<rceil>" using n by simp
  have "n \<le> ttl" unfolding c using True by (simp add: ceiling_le_iff)
  moreover have "q + of_int ttl \<le> w + of_int n" "w + of_int n < q + of_int ttl + 1" unfolding c by linarith+
  moreover have "w < q + of_int ttl" using l by linarith
  ultimately show ?thesis using \<open>1 \<le> \<lceil>_\<rceil>\<close> c by blast
next
  case False
  with assms show ?thesis by (auto simp: ttl_remaining_def age_of_def split: if_splits)
qed

section \<open>The list of the desk\<close>

definition dead :: "rtext option \<Rightarrow> bool" where
  "dead p = (case p of None \<Rightarrow> True | Some t \<Rightarrow> json_loads_text (content t) = None)"

definition shown :: "rtext option \<Rightarrow> pydict list" where
  "shown p = (case p of None \<Rightarrow> [] | Some t \<Rightarrow> (case json_loads_text (content t) of Some (PDict d) \<Rightarrow> [d] | _ \<Rightarrow> []))"

lemma scan_batch_spec:
  "int (length out) + int (length batch) \<le> limit \<Longrightarrow>
   scan_batch limit batch out stale = (out @ concat (map (shown \<circ> snd) batch), stale @ map fst (filter (dead \<circ> snd) batch))"
proof (induction batch arbitrary: out stale)
  case (Cons e rest)
  obtain i p where e: "e = (i, p)" by (cases e)
  note IH = Cons.IH
  have tail: "int (length out) + int (length rest) \<le> limit" using Cons.prems by simp
  show ?case
  proof (cases "shown p = []")
    case True
    have "scan_batch limit (e # rest) out stale = scan_batch limit rest out (if dead p then stale @ [i] else stale)"
      using True by (auto simp: e shown_def dead_def split: option.splits pyval.splits)
    then show ?thesis using IH [OF tail] True by (simp add: e)
  next
    case False
    then obtain t d where t: "p = Some t" "json_loads_text (content t) = Some (PDict d)"
      by (auto simp: shown_def split: option.splits pyval.splits)
    then have d: "shown p = [d]" "\<not> dead p" by (simp_all add: shown_def dead_def)
    show ?thesis
    proof (cases "int (length (out @ [d])) \<ge> limit")
      case True
      then have "rest = []" using Cons.prems by (cases rest) auto
      with True t d show ?thesis by (simp add: e)
    next
      case False
      then have "int (length (out @ [d])) + int (length rest) \<le> limit" using Cons.prems by simp
      from IH [OF this, of stale] False t d show ?thesis by (simp add: e)
    qed
  qed
qed simp

text \<open>
  What the list relies on: the index answers the slice of its members from the newest, the pipeline the
  payload of each key, and reading changes nothing.
\<close>

definition index_reads :: "'r redis \<Rightarrow> 'r \<Rightarrow> string list \<Rightarrow> (string \<Rightarrow> rtext option) \<Rightarrow> (string \<Rightarrow> rtext) \<Rightarrow> bool" where
  "index_reads R s idx item wrap \<longleftrightarrow>
     (\<forall>t. content (wrap t) = t) \<and>
     (\<forall>a b. 0 \<le> a \<longrightarrow> r_zrevrange R INDEX_KEY a b s = (Inr (map wrap (take (nat (b - a + 1)) (drop (nat a) idx))), s)) \<and>
     (\<forall>ks. r_gets R (map item_key ks) s = (Inr (map item ks), s))"

definition live_messages :: "(string \<Rightarrow> rtext option) \<Rightarrow> string list \<Rightarrow> pydict list" where
  "live_messages item ids = concat (map (\<lambda>i. shown (item i)) ids)"

definition stale_ids :: "(string \<Rightarrow> rtext option) \<Rightarrow> string list \<Rightarrow> string list" where
  "stale_ids item ids = filter (\<lambda>i. dead (item i)) ids"

lemma live_append: "live_messages item (xs @ ys) = live_messages item xs @ live_messages item ys"
  and stale_append: "stale_ids item (xs @ ys) = stale_ids item xs @ stale_ids item ys"
  by (simp_all add: live_messages_def stale_ids_def)

lemma shown_length: "length (shown p) \<le> 1"
  by (simp add: shown_def split: option.splits pyval.splits)

lemma live_length: "length (live_messages item ids) \<le> length ids"
proof (induction ids)
  case (Cons i ids)
  then show ?case using shown_length [of "item i"] by (simp add: live_messages_def)
qed (simp add: live_messages_def)

lemma scan_ids:
  assumes "int (length out) + int (length ids) \<le> limit"
  shows "scan_batch limit (zip ids (map item ids)) out stale = (out @ live_messages item ids, stale @ stale_ids item ids)"
proof -
  have z: "zip ids (map item ids) = map (\<lambda>i. (i, item i)) ids" by (simp add: zip_map2 zip_same_conv_map)
  show ?thesis using assms unfolding z
    by (subst scan_batch_spec) (simp_all add: live_messages_def stale_ids_def comp_def filter_map)
qed

lemma fetch_loop_spec:
  assumes R: "index_reads R s idx item wrap"
    and len: "int (length (live_messages item (take n idx))) \<le> limit" and n: "n \<le> length idx"
    and rem: "remaining = max 1 (limit - int (length (live_messages item (take n idx))))"
  shows "\<exists>m. fetch_loop R limit (int n) remaining (live_messages item (take n idx)) (stale_ids item (take n idx)) s
       = (Inr (live_messages item (take m idx), stale_ids item (take m idx)), s)
     \<and> int (length (live_messages item (take m idx))) \<le> limit
     \<and> (length idx \<le> m \<or> 4 * limit \<le> int m \<or> int (length (live_messages item (take m idx))) = limit)"
  using len n rem
proof (induction "nat (limit * 4 - int n)" arbitrary: n remaining rule: less_induct)
  case less
  let ?out = "live_messages item (take n idx)" and ?stale = "stale_ids item (take n idx)"
  from R have w: "\<And>t. content (wrap t) = t"
    and zr: "\<And>a b. 0 \<le> a \<Longrightarrow> r_zrevrange R INDEX_KEY a b s = (Inr (map wrap (take (nat (b - a + 1)) (drop (nat a) idx))), s)"
    and gt: "\<And>ks. r_gets R (map item_key ks) s = (Inr (map item ks), s)" unfolding index_reads_def by blast+
  show ?case
  proof (cases "int (length ?out) < limit \<and> int n < limit * 4")
    case False
    then show ?thesis using less.prems by (intro exI [of _ n], subst fetch_loop.simps) auto
  next
    case True
    let ?ids = "take (nat remaining) (drop n idx)"
    have page: "r_zrevrange R INDEX_KEY (int n) (int n + remaining - 1) s = (Inr (map wrap ?ids), s)" by (simp add: zr)
    show ?thesis
    proof (cases "?ids = []")
      case True2: True
      then have "length idx \<le> n" using less.prems(3) by auto
      with True True2 less.prems page show ?thesis by (intro exI [of _ n], subst fetch_loop.simps) auto
    next
      case ne: False
      let ?m = "n + length ?ids"
      have r: "remaining = limit - int (length ?out)" using less.prems(3) True by simp
      have "length ?ids \<le> nat remaining" by simp
      then have fit: "int (length ?out) + int (length ?ids) \<le> limit" using r True by linarith
      have tk: "take n idx @ ?ids = take ?m idx"
        by (cases "nat remaining \<le> length (drop n idx)") (simp_all add: take_add)
      then have out': "?out @ live_messages item ?ids = live_messages item (take ?m idx)"
        "?stale @ stale_ids item ?ids = stale_ids item (take ?m idx)" by (metis live_append, metis stale_append)
      have keys: "map (\<lambda>i. item_key (content i)) (map wrap ?ids) = map item_key ?ids" "map content (map wrap ?ids) = ?ids"
        by (simp_all add: w comp_def)
      have gets: "r_gets R (map (\<lambda>i. item_key (content i)) (map wrap ?ids)) s = (Inr (map item ?ids), s)" unfolding keys(1) by (rule gt)
      have step: "fetch_loop R limit (int n) remaining ?out ?stale s
          = fetch_loop R limit (int ?m) (max 1 (limit - int (length (live_messages item (take ?m idx)))))
              (live_messages item (take ?m idx)) (stale_ids item (take ?m idx)) s"
        using True ne page gets scan_ids [OF fit, of item ?stale]
        by (subst fetch_loop.simps) (simp add: keys(2) out' del: map_map)
      have "int (length (live_messages item (take ?m idx))) \<le> limit"
        using fit live_length [of item ?ids] unfolding out' [symmetric] by (simp only: length_append of_nat_add)
      moreover have "nat (limit * 4 - int ?m) < nat (limit * 4 - int n)" using True ne by (cases ?ids) auto
      moreover have "?m \<le> length idx" using less.prems(2) by simp
      ultimately show ?thesis unfolding step by (intro less.hyps) simp_all
    qed
  qed
qed

text \<open>
  C31. The list shows the newest messages: it is the live messages of a prefix of the index, newest first,
  never more than the limit, and the prefix ends only where the limit is reached, the index ends, or four
  times the limit was read; only identifiers of that prefix without a readable payload are dropped.
\<close>

theorem the_list_shows_the_newest:
  assumes "index_reads R s idx item wrap" and "0 < limit"
  shows "\<exists>m. fetch_materialized_messages R limit s =
        (Inr (live_messages item (take m idx)),
         if stale_ids item (take m idx) = [] then s else snd (r_zrem R INDEX_KEY (stale_ids item (take m idx)) s))
     \<and> int (length (live_messages item (take m idx))) \<le> limit
     \<and> (length idx \<le> m \<or> 4 * limit \<le> int m \<or> int (length (live_messages item (take m idx))) = limit)"
proof -
  have z: "live_messages item (take 0 idx) = []" "stale_ids item (take 0 idx) = []" by (simp_all add: live_messages_def stale_ids_def)
  from fetch_loop_spec [OF assms(1), of 0 limit "max 1 limit"] assms(2) obtain m where
    "fetch_loop R limit 0 (max 1 limit) [] [] s = (Inr (live_messages item (take m idx), stale_ids item (take m idx)), s)"
    "int (length (live_messages item (take m idx))) \<le> limit"
    "length idx \<le> m \<or> 4 * limit \<le> int m \<or> int (length (live_messages item (take m idx))) = limit" unfolding z by auto
  then show ?thesis by (intro exI [of _ m]) (simp add: fetch_materialized_messages_def)
qed

text \<open>A Redis whose state is the index and the payloads of its members, enough to show the list.\<close>

definition list_redis :: "(string list \<times> (string \<times> rtext) list) redis" where
  "list_redis = \<lparr>r_xadd = (\<lambda>_ _ _ s. (Inr (RText []), s)), r_xread = (\<lambda>_ _ _ _ s. (Inr None, s)), r_get = (\<lambda>_ s. (Inr None, s)),
     r_set = (\<lambda>_ _ s. (Inr (), s)), r_exec = (\<lambda>_ s. (Inr (), s)),
     r_gets = (\<lambda>ks s. (Inr (map (map_of (snd s)) ks), s)),
     r_zrevrange = (\<lambda>_ a b s. (Inr (map RText (take (nat (b - a + 1)) (drop (nat a) (fst s)))), s)),
     r_zrem = (\<lambda>_ xs s. (Inr (), (filter (\<lambda>i. i \<notin> set xs) (fst s), snd s)))\<rparr>"

lemma list_redis_reads: "index_reads list_redis s (fst s) (\<lambda>i. map_of (snd s) (item_key i)) RText"
  by (simp add: index_reads_def list_redis_def comp_def)

theorem the_list_shows_the_newest_witness:
  "fetch_materialized_messages list_redis 1 ([''new'', ''old''], [(item_key ''old'', RText ''{}'')])
     = (Inr [[]], ([''old''], [(item_key ''old'', RText ''{}'')]))
   \<and> (\<exists>m. fst (fetch_materialized_messages list_redis 1 ([''new'', ''old''], [(item_key ''old'', RText ''{}'')]))
       = Inr (live_messages (\<lambda>i. map_of [(item_key ''old'', RText ''{}'')] (item_key i)) (take m [''new'', ''old''])))"
proof -
  have pos: "0 < (1 :: int)" by simp
  have run: "fetch_materialized_messages list_redis 1 ([''new'', ''old''], [(item_key ''old'', RText ''{}'')])
     = (Inr [[]], ([''old''], [(item_key ''old'', RText ''{}'')]))" by code_simp
  let ?X = "([''new'', ''old''], [(item_key ''old'', RText ''{}'')])"
  obtain m where "fst (fetch_materialized_messages list_redis 1 ?X)
      = Inr (live_messages (\<lambda>i. map_of (snd ?X) (item_key i)) (take m (fst ?X)))"
    using the_list_shows_the_newest [OF list_redis_reads pos, of ?X] by (metis fst_conv)
  from this [unfolded fst_conv snd_conv] show ?thesis by (intro conjI run exI [of _ m])
qed

end
