(* ===== verification/Gate_Params.thy ===== *)
theory Gate_Params
  imports Contract_Key
begin

text \<open>
  Gate sets: the shape of their parameters and its defaults (\<open>monitor/schemas/gate_params.py\<close>), the two
  recursive merges (\<open>core/dict_merge.py\<close>, \<open>monitor/reader/gate_safety_write.py\<close>), the catalog of
  dimension codes (\<open>monitor/reader/strategy_dim_catalog.py\<close>), the readers and writers of
  \<open>gate_safety_strategy\<close> (\<open>gate_safety.py\<close>, \<open>gate_safety_write.py\<close>), and the sections the daemon reads
  from its configuration (\<open>config/settings.py\<close>).

  The validation of a parameter object is pydantic's, not part of the program: it is a parameter \<open>V\<close>, which
  answers the dump of the validated model or the place and message of the first error.
\<close>

section \<open>Nested dictionaries\<close>

text \<open>\<open>(v or {}).get(k)\<close>\<close>

definition get_in :: "pyval \<Rightarrow> string \<Rightarrow> exc + pyval" where
  "get_in v k = (if \<not> truthy v then Inr PNone
     else (case v of PDict d \<Rightarrow> Inr (dget d k) | _ \<Rightarrow> Inl attribute_error))"

text \<open>\<open>{**a, **b}\<close> and \<open>d.pop(k, None)\<close>.\<close>

definition dmerge :: "pydict \<Rightarrow> pydict \<Rightarrow> pydict" where
  "dmerge a b = fold (\<lambda>(k, v). dset k v) b a"

definition dpop :: "string \<Rightarrow> pydict \<Rightarrow> pydict" where
  "dpop k d = filter (\<lambda>e. fst e \<noteq> k) d"

text \<open>What a \<open>for\<close> loop over a value visits: a text its characters, a dictionary its keys.\<close>

definition iter_items :: "pyval \<Rightarrow> exc + pyval list" where
  "iter_items v = (case v of
       PList xs \<Rightarrow> Inr xs
     | PStr s \<Rightarrow> Inr (map (\<lambda>c. PStr [c]) s)
     | PDict d \<Rightarrow> Inr (map (\<lambda>e. PStr (fst e)) d)
     | _ \<Rightarrow> Inl (PyErr TypeErr))"

text \<open>
  \<open>dict(v)\<close>: a copy, or the dictionary of a sequence of pairs. A pair whose first part is not text
  is counted as a TypeError.
\<close>

definition pair_of :: "pyval \<Rightarrow> exc + string \<times> pyval" where
  "pair_of v = ebind (iter_items v) (\<lambda>xs. case xs of
       [PStr k, x] \<Rightarrow> Inr (k, x)
     | [_, _] \<Rightarrow> Inl (PyErr TypeErr)
     | _ \<Rightarrow> Inl (PyErr ValueErr))"

definition as_dict :: "pyval \<Rightarrow> exc + pydict" where
  "as_dict v = (case v of
       PDict d \<Rightarrow> Inr d
     | _ \<Rightarrow> ebind (iter_items v) (\<lambda>xs. ebind (emap pair_of xs) (\<lambda>ps. Inr (dmerge [] ps))))"

definition dict_or_empty :: "pyval \<Rightarrow> exc + pydict" where
  "dict_or_empty v = (if truthy v then as_dict v else Inr [])"

text \<open>\<open>deep_merge\<close> of \<open>core/dict_merge.py\<close>; the loop visits the overlay's entries in order.\<close>

fun deep_merge :: "pydict \<Rightarrow> pydict \<Rightarrow> pydict" where
  "deep_merge out [] = out"
| "deep_merge out ((k, v) # rest) =
     deep_merge (dset k (if dhas out k
                         then (case dget out k of PDict b \<Rightarrow> (case v of PDict p \<Rightarrow> PDict (deep_merge b p) | _ \<Rightarrow> v) | _ \<Rightarrow> v)
                         else v) out) rest"

text \<open>\<open>_deep_merge\<close> of the writer tests the patch first and has no test for the key.\<close>

fun gates_merge :: "pydict \<Rightarrow> pydict \<Rightarrow> pydict" where
  "gates_merge out [] = out"
| "gates_merge out ((k, v) # rest) =
     gates_merge (dset k (case v of PDict p \<Rightarrow> (case dget out k of PDict b \<Rightarrow> PDict (gates_merge b p) | _ \<Rightarrow> v) | _ \<Rightarrow> v) out) rest"

section \<open>The shape of the parameters\<close>

definition GateStructureParams :: pydict where
  "GateStructureParams = [(''min_dte'', PInt 21), (''max_dte'', PInt 35), (''atm_band_pct'', PFloat (Fin (3/100)))]"

definition GateEarningsParams :: pydict where
  "GateEarningsParams = [(''blackout_days_before'', PInt 3), (''blackout_days_after'', PInt 1), (''dates'', PList [])]"

definition GateStrategyParams :: pydict where
  "GateStrategyParams = [(''structure'', PDict GateStructureParams), (''earnings'', PDict GateEarningsParams),
     (''trading_hours_only'', PBool True)]"

definition GateDeltaParams :: pydict where
  "GateDeltaParams = [(''epsilon_band'', PInt 10), (''threshold_hedge_shares'', PInt 25), (''max_delta_limit'', PInt 500)]"

definition GateMarketParams :: pydict where
  "GateMarketParams = [(''vol_window_min'', PInt 5), (''stale_ts_threshold_ms'', PInt 5000)]"

definition GateLiquidityParams :: pydict where
  "GateLiquidityParams = [(''wide_spread_pct'', PFloat (Fin (1/10))), (''extreme_spread_pct'', PFloat (Fin (1/2)))]"

definition GateSystemParams :: pydict where
  "GateSystemParams = [(''data_lag_threshold_ms'', PInt 1000)]"

definition GateStateParams :: pydict where
  "GateStateParams = [(''delta'', PDict GateDeltaParams), (''market'', PDict GateMarketParams),
     (''liquidity'', PDict GateLiquidityParams), (''system'', PDict GateSystemParams)]"

definition GateHedgeParams :: pydict where
  "GateHedgeParams = [(''min_hedge_shares'', PInt 10), (''cooldown_seconds'', PInt 60),
     (''max_hedge_shares_per_order'', PInt 500), (''min_price_move_pct'', PFloat (Fin (2/10)))]"

definition GateIntentParams :: pydict where
  "GateIntentParams = [(''hedge'', PDict GateHedgeParams)]"

definition GateRiskParams :: pydict where
  "GateRiskParams = [(''max_daily_hedge_count'', PInt 50), (''max_position_shares'', PInt 2000),
     (''max_daily_loss_usd'', PFloat (Fin 5000)), (''max_net_delta_shares'', PInt 100),
     (''max_spread_pct'', PFloat (Fin (5/100))), (''paper_trade'', PBool True)]"

definition GateGuardParams :: pydict where
  "GateGuardParams = [(''risk'', PDict GateRiskParams)]"

text \<open>\<open>GateParams().model_dump()\<close>\<close>

definition gate_defaults :: pydict where
  "gate_defaults = [(''strategy'', PDict GateStrategyParams), (''state'', PDict GateStateParams),
     (''intent'', PDict GateIntentParams), (''guard'', PDict GateGuardParams)]"

text \<open>
  \<open>split_earnings_dates\<close>: the gates without \<open>strategy.earnings.dates\<close>, and those dates as text.
\<close>

definition split_earnings_dates :: "pydict \<Rightarrow> exc + pydict \<times> string list" where
  "split_earnings_dates gs =
     ebind (get_in (dget gs ''strategy'') ''earnings'') (\<lambda>e.
       (case e of
          PDict earnings \<Rightarrow>
            (let raw = dget earnings ''dates'';
                 out = (case dget gs ''strategy'' of
                          PDict st \<Rightarrow> dset ''strategy'' (PDict (dset ''earnings'' (PDict (dpop ''dates'' earnings)) st)) gs
                        | _ \<Rightarrow> gs)
             in ebind (if truthy raw then iter_items raw else Inr []) (\<lambda>ds. Inr (out, map py_str (filter truthy ds))))
        | _ \<Rightarrow> Inr (gs, [])))"

definition default_gates :: "exc + pydict" where
  "default_gates = ebind (split_earnings_dates gate_defaults) (\<lambda>(g, _). Inr g)"

section \<open>The catalog of dimensions\<close>

definition DIM_ENTRIES :: "(string \<times> (string \<times> string \<times> int) list) list" where
  "DIM_ENTRIES =
     [(''direction'', [(''bullish'', ''Bullish'', 0), (''bearish'', ''Bearish'', 1), (''neutral'', ''Neutral'', 2)]),
      (''structure'', [(''single_leg'', ''Single leg'', 0), (''vertical'', ''Vertical spread'', 1),
         (''calendar'', ''Calendar spread'', 2), (''diagonal'', ''Diagonal spread'', 3),
         (''straddle'', ''Straddle / strangle'', 4), (''condor'', ''Condor'', 5), (''butterfly'', ''Butterfly'', 6),
         (''ratio'', ''Ratio spread'', 7), (''custom'', ''Custom'', 8)]),
      (''coverage'', [(''covered'', ''Covered'', 0), (''naked'', ''Naked'', 1), (''cash_secured'', ''Cash secured'', 2),
         (''synthetic'', ''Synthetic'', 3)]),
      (''risk'', [(''defined'', ''Defined risk'', 0), (''undefined'', ''Undefined risk'', 1)]),
      (''volatility'', [(''long_vol'', ''Long volatility'', 0), (''short_vol'', ''Short volatility'', 1),
         (''vol_neutral'', ''Volatility neutral'', 2)]),
      (''time'', [(''weekly'', ''Weekly'', 0), (''monthly'', ''Monthly'', 1), (''leaps'', ''LEAPS'', 2),
         (''flex'', ''Flex DTE'', 3)])]"

definition DIM_TYPES :: "string list" where
  "DIM_TYPES = [''direction'', ''structure'', ''coverage'', ''risk'', ''volatility'', ''time'']"

definition dim_codes :: "string \<Rightarrow> string list" where
  "dim_codes t = (case map_of DIM_ENTRIES t of None \<Rightarrow> [] | Some es \<Rightarrow> map fst es)"

definition dim_literals_by_type :: "(string \<times> string list) list" where
  "dim_literals_by_type = map (\<lambda>(t, es). (t, map fst es)) DIM_ENTRIES"

text \<open>The catalog rows, numbered over all types in the order of the entries.\<close>

fun dim_items :: "int \<Rightarrow> string \<Rightarrow> (string \<times> string \<times> int) list \<Rightarrow> pydict list" where
  "dim_items n t [] = []"
| "dim_items n t ((code, label, i) # es) =
     [(''strategy_dim_id'', PInt n), (''dim_type'', PStr t), (''code'', PStr code), (''display_label'', PStr label),
      (''sort_order'', PInt i)] # dim_items (n + 1) t es"

fun dims_from :: "int \<Rightarrow> (string \<times> (string \<times> string \<times> int) list) list \<Rightarrow> (string \<times> pydict list) list" where
  "dims_from n [] = []"
| "dims_from n ((t, es) # rest) = (t, dim_items n t es) # dims_from (n + int (length es)) rest"

definition list_dims_grouped :: "(string \<times> pydict list) list" where
  "list_dims_grouped = dims_from 1 DIM_ENTRIES"

definition is_valid_dim_code :: "string \<Rightarrow> string \<Rightarrow> bool" where
  "is_valid_dim_code t c =
     (if strip t = [] \<or> strip c = [] then False
      else if strip t \<notin> set DIM_TYPES then False else strip c \<in> set (dim_codes (strip t)))"

text \<open>Blank and missing fields are allowed; the first code the catalog lacks is a ValueError.\<close>

definition dim_field_ok :: "pydict \<Rightarrow> string \<Rightarrow> bool" where
  "dim_field_ok p t =
     (let code = dget p (''dim_'' @ t)
      in code = PNone \<or> strip (py_str code) = [] \<or> is_valid_dim_code t (strip (py_str code)))"

definition validate_dim_fields :: "pydict \<Rightarrow> exc + unit" where
  "validate_dim_fields p = (if list_all (dim_field_ok p) DIM_TYPES then Inr () else Inl (PyErr ValueErr))"

section \<open>Sections of the configuration\<close>

text \<open>\<open>config/settings.py\<close>: the runtime configuration over the defaults.\<close>

definition config_defaults :: pydict where
  "config_defaults = [(''gates'', PDict gate_defaults)]"

definition merged_config :: "pydict \<Rightarrow> pydict" where
  "merged_config cfg = deep_merge config_defaults cfg"

definition gates_section :: "pydict \<Rightarrow> string \<Rightarrow> string \<Rightarrow> exc + pydict" where
  "gates_section cfg gate sec =
     ebind (get_in (dget cfg ''gates'') gate) (\<lambda>gc.
     ebind (get_in gc sec) (\<lambda>v. Inr (case v of PDict d \<Rightarrow> d | _ \<Rightarrow> [])))"

definition section_gate :: "(string \<times> string) list" where
  "section_gate = [(''delta'', ''state''), (''market'', ''state''), (''liquidity'', ''state''), (''system'', ''state''),
     (''hedge'', ''intent''), (''risk'', ''guard''), (''earnings'', ''strategy''), (''structure'', ''strategy'')]"

text \<open>
  \<open>_section\<close>: the gate's section overlaid with the top-level section, or, when that is missing or empty,
  with the one of \<open>state_space\<close>.
\<close>

definition config_section :: "pydict \<Rightarrow> string \<Rightarrow> exc + pydict" where
  "config_section cfg sec =
     ebind (case map_of section_gate sec of None \<Rightarrow> Inr [] | Some gate \<Rightarrow> gates_section cfg gate sec) (\<lambda>result.
     ebind (if truthy (dget cfg sec) then Inr (dget cfg sec) else get_in (dget cfg ''state_space'') sec) (\<lambda>top.
     if \<not> truthy top then Inr result
     else (case top of PDict d \<Rightarrow> Inr (dmerge result d) | _ \<Rightarrow> Inl (PyErr TypeErr))))"

definition get_structure_config :: "pydict \<Rightarrow> exc + pydict" where
  "get_structure_config cfg = ebind (config_section (merged_config cfg) ''structure'') (\<lambda>s.
     Inr (map (\<lambda>k. (k, dget s k)) [''min_dte'', ''max_dte'', ''atm_band_pct'']))"

definition get_risk_config :: "pydict \<Rightarrow> exc + pydict" where
  "get_risk_config cfg = config_section (merged_config cfg) ''risk''"

definition cooldown_value :: "pyval \<Rightarrow> exc + pyval" where
  "cooldown_value v = (if v = PNone then Inr PNone
     else (case py_int v of Inl e \<Rightarrow> Inl (PyErr e) | Inr n \<Rightarrow> Inr (PInt n)))"

definition get_hedge_config :: "pydict \<Rightarrow> exc + pydict" where
  "get_hedge_config cfg =
     (let m = merged_config cfg in
      ebind (config_section m ''delta'') (\<lambda>delta. ebind (config_section m ''hedge'') (\<lambda>hedge.
      ebind (config_section m ''risk'') (\<lambda>risk. ebind (config_section m ''earnings'') (\<lambda>earnings.
      ebind (get_in (dget m ''gates'') ''strategy'') (\<lambda>st. ebind (get_in st ''trading_hours_only'') (\<lambda>th.
      ebind (cooldown_value (dget hedge ''cooldown_seconds'')) (\<lambda>cooldown.
      ebind (if truthy (dget earnings ''dates'') then iter_items (dget earnings ''dates'') else Inr []) (\<lambda>dates.
      Inr [(''threshold_hedge_shares'', py_or (dget delta ''hedge_threshold'') (dget delta ''threshold_hedge_shares'')),
           (''min_hedge_shares'', dget hedge ''min_hedge_shares''), (''cooldown_sec'', cooldown),
           (''max_hedge_shares_per_order'', dget hedge ''max_hedge_shares_per_order''),
           (''min_price_move_pct'', dget hedge ''min_price_move_pct''),
           (''max_daily_hedge_count'', dget risk ''max_daily_hedge_count''),
           (''max_position_shares'', dget risk ''max_position_shares''),
           (''max_daily_loss_usd'', dget risk ''max_daily_loss_usd''),
           (''max_net_delta_shares'', dget risk ''max_net_delta_shares''),
           (''max_spread_pct'', dget risk ''max_spread_pct''),
           (''trading_hours_only'', if th = PNone then dget risk ''trading_hours_only'' else th),
           (''earnings_dates'', PList (filter truthy dates)),
           (''blackout_days_before'', dget earnings ''blackout_days_before''),
           (''blackout_days_after'', dget earnings ''blackout_days_after'')])))))))))"

definition STATE_SECTIONS :: "string list" where
  "STATE_SECTIONS = [''delta'', ''market'', ''liquidity'', ''system'', ''hedge'']"

definition get_state_space_config :: "pydict \<Rightarrow> exc + pydict" where
  "get_state_space_config cfg =
     emap (\<lambda>sec. ebind (config_section (merged_config cfg) sec) (\<lambda>d. Inr (sec, PDict d))) STATE_SECTIONS"

definition get_config_for_guards :: "pydict \<Rightarrow> exc + pydict" where
  "get_config_for_guards cfg = ebind (get_state_space_config cfg) (\<lambda>st.
     ebind (config_section (merged_config cfg) ''risk'') (\<lambda>risk. Inr (dset ''risk'' (PDict risk) st)))"

section \<open>The table\<close>

text \<open>A row of \<open>gate_safety_strategy\<close>; \<open>gr_dims\<close> has the six columns by name.\<close>

record gate_row =
  gr_name :: string
  gr_version :: int
  gr_dims :: pydict
  gr_active :: bool
  gr_params :: pyval

record gate_db =
  gb_rows :: "(int \<times> gate_row) list"
  gb_next :: int
  gb_settings :: "pydict option"

definition DIM_FIELDS :: "string list" where
  "DIM_FIELDS = map (\<lambda>t. ''dim_'' @ t) DIM_TYPES"

text \<open>The columns are enum types over the same codes: another text is a data error.\<close>

definition dim_value_ok :: "string \<Rightarrow> pyval \<Rightarrow> bool" where
  "dim_value_ok t v = (case v of PNone \<Rightarrow> True | PStr c \<Rightarrow> c \<in> set (dim_codes t) | _ \<Rightarrow> False)"

definition gate_violation :: "gate_row \<Rightarrow> exc option" where
  "gate_violation r =
     (if list_all (\<lambda>t. dim_value_ok t (dget (gr_dims r) (''dim_'' @ t))) DIM_TYPES then None
      else Some (DataError (None, None)))"

type_synonym validator = "pydict \<Rightarrow> string \<times> string + pydict"

subsection \<open>Readers\<close>

text \<open>\<open>_parse_params_json\<close>: a ValidationError is a ValueError.\<close>

definition parse_params_json :: "env \<Rightarrow> validator \<Rightarrow> pyval \<Rightarrow> exc + pydict" where
  "parse_params_json env V raw =
     (let validate = (\<lambda>v. case v of
            PDict d \<Rightarrow> (case V d of Inl _ \<Rightarrow> Inl (PyErr ValueErr) | Inr g \<Rightarrow> Inr g) | _ \<Rightarrow> Inr gate_defaults)
      in case raw of
           PNone \<Rightarrow> Inr gate_defaults
         | PStr s \<Rightarrow> (case json_loads env s of None \<Rightarrow> Inl (PyErr ValueErr) | Some v \<Rightarrow> validate v)
         | v \<Rightarrow> validate v)"

text \<open>\<open>gates.setdefault("strategy", {}).setdefault("earnings", {})["dates"] = dates\<close>\<close>

definition set_dates :: "pyval \<Rightarrow> pydict \<Rightarrow> exc + pydict" where
  "set_dates dates g =
     (case (if dhas g ''strategy'' then dget g ''strategy'' else PDict []) of
        PDict st \<Rightarrow>
          (case (if dhas st ''earnings'' then dget st ''earnings'' else PDict []) of
             PDict e \<Rightarrow> Inr (dset ''strategy'' (PDict (dset ''earnings'' (PDict (dset ''dates'' dates e)) st)) g)
           | _ \<Rightarrow> Inl (PyErr TypeErr))
      | _ \<Rightarrow> Inl attribute_error)"

definition row_to_gates :: "env \<Rightarrow> validator \<Rightarrow> gate_row \<Rightarrow> pyval option \<Rightarrow> exc + pydict" where
  "row_to_gates env V r dates = ebind (parse_params_json env V (gr_params r)) (\<lambda>g.
     case dates of None \<Rightarrow> Inr g | Some ds \<Rightarrow> set_dates ds g)"

text \<open>The readers answer None when anything raises: the statement or the reading of the row.\<close>

definition or_none :: "exc + 'a \<Rightarrow> 'a option" where
  "or_none x = (case x of Inl _ \<Rightarrow> None | Inr a \<Rightarrow> Some a)"

definition get_gates_by_id :: "env \<Rightarrow> validator \<Rightarrow> int \<Rightarrow> (gate_db, pydict option) tx" where
  "get_gates_by_id env V g = try_query (\<lambda>db. Option.bind (map_of (gb_rows db) g) (\<lambda>r. or_none (row_to_gates env V r None)))"

definition full_of_row :: "env \<Rightarrow> validator \<Rightarrow> int \<Rightarrow> gate_row \<Rightarrow> exc + pydict" where
  "full_of_row env V g r =
     ebind (row_to_gates env V r None) (\<lambda>gs. ebind (split_earnings_dates gs) (\<lambda>(gates, dates).
       Inr ([(''gate_safety_strategy_id'', PInt g), (''name'', PStr (gr_name r)), (''version'', PInt (gr_version r)),
             (''structure_type'', PNone)]
          @ map (\<lambda>k. (k, dget (gr_dims r) k)) DIM_FIELDS
          @ [(''is_active'', PBool (gr_active r)), (''gates'', PDict gates), (''earnings_dates'', PList (map PStr dates))])))"

definition get_gate_safety_full_by_id :: "env \<Rightarrow> validator \<Rightarrow> int \<Rightarrow> (gate_db, pydict option) tx" where
  "get_gate_safety_full_by_id env V g = try_query (\<lambda>db. Option.bind (map_of (gb_rows db) g) (\<lambda>r. or_none (full_of_row env V g r)))"

definition settings_ref :: "string \<Rightarrow> (gate_db, int option) tx" where
  "settings_ref col = try_query (\<lambda>db. Option.bind (gb_settings db) (\<lambda>row.
     if dget row col = PNone then None else (case py_int (dget row col) of Inl _ \<Rightarrow> None | Inr i \<Rightarrow> Some i)))"

definition get_active_gate_safety_strategy_id :: "(gate_db, int option) tx" where
  "get_active_gate_safety_strategy_id = settings_ref ''active_gate_safety_strategy_id''"

definition get_active_strategy_structure_id :: "(gate_db, int option) tx" where
  "get_active_strategy_structure_id = settings_ref ''active_strategy_structure_id''"

definition get_active_strategy_allocation_id :: "(gate_db, int option) tx" where
  "get_active_strategy_allocation_id = settings_ref ''active_strategy_allocation_id''"

definition get_gate_safety_name :: "int \<Rightarrow> (gate_db, string option) tx" where
  "get_gate_safety_name g = try_query (\<lambda>db. map_option gr_name (map_of (gb_rows db) g))"

text \<open>The list raises \<open>ReadFailed\<close> instead.\<close>

definition list_gate_safety_sets :: "(gate_db, pydict list) tx" where
  "list_gate_safety_sets = query (\<lambda>db. map (\<lambda>(g, r).
       [(''gate_safety_strategy_id'', PInt g), (''name'', PStr (gr_name r)), (''version'', PInt (gr_version r))]
       @ map (\<lambda>k. (k, dget (gr_dims r) k)) DIM_FIELDS
       @ [(''is_active'', PBool (gr_active r)), (''structure_type'', PNone)])
     (sort_key (\<lambda>e. gr_name (snd e)) (gb_rows db)))"

subsection \<open>Writers\<close>

definition date_text :: "pyval \<Rightarrow> string" where
  "date_text d = take 10 (strip (py_str d))"

definition payload_gates :: "pydict \<Rightarrow> exc + pydict" where
  "payload_gates p =
     ebind (dict_or_empty (dget p ''gates'')) (\<lambda>gates.
     ebind (dict_or_empty (dget gates ''strategy'')) (\<lambda>st.
     ebind (dict_or_empty (dget st ''earnings'')) (\<lambda>earnings.
     if truthy (dget earnings ''dates'') then Inl (PyErr ValueErr)
     else (case (if dget p ''earnings_dates'' = PNone then PList [] else dget p ''earnings_dates'') of
         PList ds \<Rightarrow>
           Inr (dset ''strategy'' (PDict (dset ''earnings''
                  (PDict (dset ''dates'' (PList (map (\<lambda>d. PStr (date_text d)) (filter truthy ds))) (dpop ''dates'' earnings))) st)) gates)
       | _ \<Rightarrow> Inl (PyErr ValueErr)))))"

definition dim_arg :: "pydict \<Rightarrow> string \<Rightarrow> pyval" where
  "dim_arg p k = (let v = dget p k in if v = PNone \<or> strip (py_str v) = [] then PNone else PStr (strip (py_str v)))"

definition int_or :: "int \<Rightarrow> pyval \<Rightarrow> exc + int" where
  "int_or n v = (if v = PNone then Inr n else (case py_int v of Inl e \<Rightarrow> Inl (PyErr e) | Inr i \<Rightarrow> Inr i))"

definition payload_row :: "validator \<Rightarrow> pydict \<Rightarrow> exc + gate_row" where
  "payload_row V p =
     ebind (payload_gates p) (\<lambda>gates.
     ebind (case V gates of Inl _ \<Rightarrow> Inl (PyErr ValueErr) | Inr g \<Rightarrow> Inr g) (\<lambda>params.
     ebind (strip_or [] (dget p ''name'')) (\<lambda>name.
     ebind (int_or 1 (dget p ''version'')) (\<lambda>version.
       (let dims = map (\<lambda>k. (k, dim_arg p k)) DIM_FIELDS
        in ebind (validate_dim_fields dims) (\<lambda>_.
           Inr \<lparr>gr_name = (if name = [] then ''Unnamed'' else name), gr_version = version, gr_dims = dims,
                 gr_active = (if dget p ''is_active'' = PNone then True else truthy (dget p ''is_active'')),
                 gr_params = PDict params\<rparr>))))))"

definition insert_gate :: "gate_row \<Rightarrow> (gate_db, int) tx" where
  "insert_gate r = stmt (\<lambda>db. checked (gate_violation r)
     (gb_next db, db\<lparr>gb_rows := gb_rows db @ [(gb_next db, r)], gb_next := gb_next db + 1\<rparr>))"

definition create_gate_safety :: "env \<Rightarrow> validator \<Rightarrow> pydict option \<Rightarrow> pydict \<Rightarrow> gate_db \<Rightarrow> (exc + int option) \<times> gate_db" where
  "create_gate_safety env V cfg p db =
     (case payload_row V p of
        Inl e \<Rightarrow> (Inl e, db)
      | Inr r \<Rightarrow>
          if \<not> conn_from_config env cfg then (Inr None, db)
          else swallowing (\<lambda>_. False) None
                 (legacy_transaction (tx_bind (insert_gate r) (\<lambda>g. tx_return (True, Some g))) env db))"

text \<open>An UPDATE of one row answers how many rows it changed.\<close>

definition update_gate :: "int \<Rightarrow> (gate_row \<Rightarrow> gate_row) \<Rightarrow> (gate_db, nat) tx" where
  "update_gate g f = stmt (\<lambda>db. case map_of (gb_rows db) g of
       None \<Rightarrow> Inr (0, db)
     | Some r \<Rightarrow> checked (gate_violation (f r)) (1, db\<lparr>gb_rows := put_assoc g (f r) (gb_rows db)\<rparr>))"

definition update_gate_safety :: "env \<Rightarrow> validator \<Rightarrow> pydict option \<Rightarrow> int \<Rightarrow> pydict \<Rightarrow> gate_db \<Rightarrow> (exc + bool) \<times> gate_db" where
  "update_gate_safety env V cfg g p db =
     (case payload_row V p of
        Inl e \<Rightarrow> (Inl e, db)
      | Inr r \<Rightarrow>
          if \<not> conn_from_config env cfg then (Inr False, db)
          else swallowing (\<lambda>_. False) False
                 (legacy_transaction (tx_bind (update_gate g (\<lambda>_. r)) (\<lambda>n. tx_return (n \<noteq> 0, n \<noteq> 0))) env db))"

definition GATE_SAFETY_PATCHABLE :: "string list" where
  "GATE_SAFETY_PATCHABLE = [''name'', ''version''] @ DIM_FIELDS @ [''is_active'', ''gates'', ''earnings_dates'']"

text \<open>The keys of a patch that the shape lacks, as dotted paths.\<close>

fun unknown_gate_paths :: "pyval \<Rightarrow> pydict \<Rightarrow> string \<Rightarrow> string list" where
  "unknown_gate_paths (PDict given) ref prefix =
     concat (map (\<lambda>e.
       if \<not> dhas ref (fst e) then [prefix @ fst e]
       else (case dget ref (fst e) of
               PDict r \<Rightarrow> (case snd e of
                   PDict _ \<Rightarrow> unknown_gate_paths (snd e) r (prefix @ fst e @ ''.'')
                 | _ \<Rightarrow> [prefix @ fst e @ '' (must be an object)''])
             | _ \<Rightarrow> [])) given)"
| "unknown_gate_paths _ ref prefix = []"

fun patch_dates_from :: "nat \<Rightarrow> pyval list \<Rightarrow> exc + string list" where
  "patch_dates_from i [] = Inr []"
| "patch_dates_from i (x # xs) =
     (let name = ''earnings_dates['' @ nat_str i @ '']''
      in ebind (text_value x name False None) (\<lambda>t.
         case strptime_ymd ''-'' (the t) of
           None \<Rightarrow> invalid (name @ '' must be a date (YYYY-MM-DD).'')
         | Some _ \<Rightarrow> ebind (patch_dates_from (i + 1) xs) (\<lambda>ts. Inr (the t # ts))))"

definition patch_earnings_dates :: "pyval \<Rightarrow> exc + string list" where
  "patch_earnings_dates v = ebind (list_value v ''earnings_dates'') (patch_dates_from 0)"

definition patch_dim :: "pydict \<Rightarrow> string \<Rightarrow> exc + pyval option" where
  "patch_dim fs t = sent_field fs (''dim_'' @ t) (\<lambda>v. ebind (text_value v (''dim_'' @ t) True None) (\<lambda>code.
     case code of None \<Rightarrow> Inr PNone
     | Some c \<Rightarrow> if is_valid_dim_code t c then Inr (PStr c)
                 else invalid (''dim_'' @ t @ '': '' @ c @ '' is not a code in the dim catalog.'')))"

fun patch_dims :: "pydict \<Rightarrow> string list \<Rightarrow> exc + pydict" where
  "patch_dims fs [] = Inr []"
| "patch_dims fs (t # ts) = ebind (patch_dim fs t) (\<lambda>v. ebind (patch_dims fs ts) (\<lambda>ds.
     Inr ((case v of None \<Rightarrow> [] | Some x \<Rightarrow> [(''dim_'' @ t, x)]) @ ds)))"

definition patch_gates :: "pyval \<Rightarrow> exc + pydict" where
  "patch_gates v = (case v of
       PDict g \<Rightarrow>
         (let unknown = unknown_gate_paths v gate_defaults []
          in if unknown \<noteq> [] then invalid (''Unknown gates field: '' @ join '', '' unknown @ ''.'')
             else ebind (get_in (dget g ''strategy'') ''earnings'') (\<lambda>e. ebind (dict_or_empty e) (\<lambda>earnings.
               if dhas earnings ''dates''
               then invalid (''earnings dates belong in the top-level earnings_dates field, not in ''
                      @ ''gates.strategy.earnings.dates.'')
               else Inr g)))
     | _ \<Rightarrow> invalid ''gates must be an object.'')"

record gate_patch =
  gp_name :: "string option"
  gp_version :: "int option"
  gp_dims :: pydict
  gp_active :: "bool option"
  gp_gates :: "pydict option"
  gp_dates :: "string list option"

definition patch_gate_args :: "pydict \<Rightarrow> exc + gate_patch" where
  "patch_gate_args fs =
     ebind (sent_field fs ''name'' (\<lambda>v. ebind (text_value v ''name'' False None) (\<lambda>t. Inr (the t)))) (\<lambda>name.
     ebind (sent_field fs ''version'' (\<lambda>v. ebind (integer v ''version'' False (Some 1)) (\<lambda>t. Inr (the t)))) (\<lambda>version.
     ebind (patch_dims fs DIM_TYPES) (\<lambda>dims.
     ebind (sent_field fs ''is_active'' (\<lambda>v. boolean v ''is_active'')) (\<lambda>active.
     ebind (sent_field fs ''gates'' patch_gates) (\<lambda>gates.
     ebind (sent_field fs ''earnings_dates'' patch_earnings_dates) (\<lambda>dates.
       Inr \<lparr>gp_name = name, gp_version = version, gp_dims = dims, gp_active = active, gp_gates = gates, gp_dates = dates\<rparr>))))))"

definition or_keep :: "'a option \<Rightarrow> 'a \<Rightarrow> 'a" where
  "or_keep v old = (case v of None \<Rightarrow> old | Some x \<Rightarrow> x)"

text \<open>The columns of the UPDATE; \<open>params\<close> only when gates or dates were sent.\<close>

definition apply_patch :: "gate_patch \<Rightarrow> pydict option \<Rightarrow> gate_row \<Rightarrow> gate_row" where
  "apply_patch a params r =
     \<lparr>gr_name = or_keep (gp_name a) (gr_name r), gr_version = or_keep (gp_version a) (gr_version r),
      gr_dims = dmerge (gr_dims r) (gp_dims a), gr_active = or_keep (gp_active a) (gr_active r),
      gr_params = (case params of None \<Rightarrow> gr_params r | Some g \<Rightarrow> PDict g)\<rparr>"

definition merged_params :: "env \<Rightarrow> validator \<Rightarrow> gate_patch \<Rightarrow> gate_row \<Rightarrow> exc + pydict" where
  "merged_params env V a r =
     ebind (parse_params_json env V (gr_params r)) (\<lambda>params.
     ebind (let merged = (case gp_gates a of None \<Rightarrow> params | Some g \<Rightarrow> gates_merge params g)
            in case gp_dates a of None \<Rightarrow> Inr merged | Some ds \<Rightarrow> set_dates (PList (map PStr ds)) merged) (\<lambda>m.
     case V m of Inl (place, msg) \<Rightarrow> invalid (''gates.'' @ place @ '': '' @ msg @ ''.'') | Inr g \<Rightarrow> Inr g))"

definition no_gate_set :: "int \<Rightarrow> exc" where
  "no_gate_set g = Write (NotFound (''No gate set '' @ int_str g @ ''.''))"

definition finish_patch :: "env \<Rightarrow> validator \<Rightarrow> int \<Rightarrow> gate_patch \<Rightarrow> pydict option \<Rightarrow> (gate_db, pydict) tx" where
  "finish_patch env V g a params =
     tx_bind (update_gate g (apply_patch a params)) (\<lambda>n.
     if n = 0 then tx_raise (no_gate_set g)
     else tx_bind (get_gate_safety_full_by_id env V g) (\<lambda>row. case row of
         None \<Rightarrow> tx_raise (Write (Failed (''gate set '' @ int_str g
                    @ '' was changed but could not be read back; nothing was saved.'') False))
       | Some r \<Rightarrow> tx_return r))"

definition patch_gate_body :: "env \<Rightarrow> validator \<Rightarrow> int \<Rightarrow> gate_patch \<Rightarrow> (gate_db, pydict) tx" where
  "patch_gate_body env V g a =
     (if gp_gates a = None \<and> gp_dates a = None then finish_patch env V g a None
      else tx_bind (query (\<lambda>db. map_of (gb_rows db) g)) (\<lambda>cur. case cur of
          None \<Rightarrow> tx_raise (no_gate_set g)
        | Some r \<Rightarrow> (case merged_params env V a r of
              Inl e \<Rightarrow> tx_raise e
            | Inr params \<Rightarrow> finish_patch env V g a (Some params))))"

definition patch_gate_safety :: "env \<Rightarrow> validator \<Rightarrow> conn_arg \<Rightarrow> int \<Rightarrow> pyval \<Rightarrow> gate_db \<Rightarrow> (exc + pydict) \<times> gate_db" where
  "patch_gate_safety env V arg g body db =
     (case ebind (check_fields body GATE_SAFETY_PATCHABLE ''gate set'') patch_gate_args of
        Inl e \<Rightarrow> (Inl e, db)
      | Inr a \<Rightarrow> raising (strict_write (''gate set '' @ int_str g) FkInvalid (patch_gate_body env V g a) env arg db))"

subsection \<open>The flat columns of older rows\<close>

text \<open>\<open>build_gate_params_from_flat_row\<close>: every column of the row converted and put in its place.\<close>

definition flat_column :: "pydict \<Rightarrow> string \<Rightarrow> (pyval \<Rightarrow> exc + pyval) \<Rightarrow> exc + string \<times> pyval" where
  "flat_column row k conv = (if dhas row k then ebind (conv (dget row k)) (\<lambda>v. Inr (k, v)) else Inl (OtherExc ''KeyError''))"

definition as_int :: "pyval \<Rightarrow> exc + pyval" where
  "as_int v = (case py_int v of Inl e \<Rightarrow> Inl (PyErr e) | Inr i \<Rightarrow> Inr (PInt i))"

definition as_float :: "pyval \<Rightarrow> exc + pyval" where
  "as_float v = (case py_float v of Inl e \<Rightarrow> Inl (PyErr e) | Inr x \<Rightarrow> Inr (PFloat x))"

definition as_bool :: "pyval \<Rightarrow> exc + pyval" where
  "as_bool v = Inr (PBool (truthy v))"

definition flat_group :: "pydict \<Rightarrow> (string \<times> (pyval \<Rightarrow> exc + pyval)) list \<Rightarrow> exc + pydict" where
  "flat_group row cols = emap (\<lambda>(k, conv). flat_column row k conv) cols"

definition build_gate_params_from_flat_row :: "pydict \<Rightarrow> string list \<Rightarrow> exc + pydict" where
  "build_gate_params_from_flat_row row dates =
     ebind (flat_group row [(''min_dte'', as_int), (''max_dte'', as_int), (''atm_band_pct'', as_float)]) (\<lambda>structure.
     ebind (flat_group row [(''blackout_days_before'', as_int), (''blackout_days_after'', as_int)]) (\<lambda>earnings.
     ebind (flat_group row [(''trading_hours_only'', as_bool)]) (\<lambda>hours.
     ebind (flat_group row [(''epsilon_band'', as_int), (''threshold_hedge_shares'', as_int), (''max_delta_limit'', as_int)]) (\<lambda>delta.
     ebind (flat_group row [(''vol_window_min'', as_int), (''stale_ts_threshold_ms'', as_int)]) (\<lambda>market.
     ebind (flat_group row [(''wide_spread_pct'', as_float), (''extreme_spread_pct'', as_float)]) (\<lambda>liquidity.
     ebind (flat_group row [(''data_lag_threshold_ms'', as_int)]) (\<lambda>system.
     ebind (flat_group row [(''min_hedge_shares'', as_int), (''cooldown_seconds'', as_int),
              (''max_hedge_shares_per_order'', as_int), (''min_price_move_pct'', as_float)]) (\<lambda>hedge.
     ebind (flat_group row [(''max_daily_hedge_count'', as_int), (''max_position_shares'', as_int), (''max_daily_loss_usd'', as_float),
              (''max_net_delta_shares'', as_int), (''max_spread_pct'', as_float), (''paper_trade'', as_bool)]) (\<lambda>risk.
     Inr [(''strategy'', PDict ([(''structure'', PDict structure),
              (''earnings'', PDict (earnings @ [(''dates'', PList (map PStr dates))]))] @ hours)),
          (''state'', PDict [(''delta'', PDict delta), (''market'', PDict market), (''liquidity'', PDict liquidity), (''system'', PDict system)]),
          (''intent'', PDict [(''hedge'', PDict hedge)]), (''guard'', PDict [(''risk'', PDict risk)])])))))))))"

section \<open>From a slot to a leg of a plan\<close>

text \<open>
  A validated slot (\<open>AbstractLeg\<close>): direction, right, quantity. \<open>abstract_leg_to_plan_leg\<close> makes it a
  concrete leg; a value the code raises ValueError for is a ValueError.
\<close>

record leg_slot =
  ls_direction :: "string option"
  ls_right :: "string option"
  ls_quantity :: int

definition DIRECTION_TO_SIDE :: "(string \<times> string) list" where
  "DIRECTION_TO_SIDE = [(''long'', ''buy''), (''short'', ''sell'')]"

definition plan_leg_dict :: "string \<Rightarrow> string \<Rightarrow> pyval \<Rightarrow> pyval \<Rightarrow> pyval \<Rightarrow> int \<Rightarrow> pyval \<Rightarrow> pydict" where
  "plan_leg_dict side st right strike expiry ratio key =
     [(''side'', PStr side), (''sec_type'', PStr st), (''right'', right), (''strike'', strike), (''expiry'', expiry),
      (''ratio'', PInt ratio), (''contract_key'', key), (''mid_at_plan'', PNone), (''quote_asof'', PNone)]"

definition abstract_leg_to_plan_leg :: "leg_slot \<Rightarrow> pyval \<Rightarrow> pyval \<Rightarrow> pyval \<Rightarrow> exc + pydict" where
  "abstract_leg_to_plan_leg slot symbol expiry strike =
     (case ls_direction slot of
        None \<Rightarrow> Inl (PyErr ValueErr)
      | Some dir \<Rightarrow>
          ebind (strip_or [] symbol) (\<lambda>s. let sym = upper s; side = the (map_of DIRECTION_TO_SIDE dir) in
          if sym = [] then Inl (PyErr ValueErr)
          else (case ls_right slot of
              None \<Rightarrow> Inr (plan_leg_dict side ''STK'' PNone PNone PNone (ls_quantity slot) PNone)
            | Some right \<Rightarrow>
                if right = [] then Inr (plan_leg_dict side ''STK'' PNone PNone PNone (ls_quantity slot) PNone)
                else if \<not> truthy expiry \<or> strike = PNone then Inl (PyErr ValueErr)
                else (let ex = strip (py_str expiry) in case strptime_ymd ''-'' ex of
                    None \<Rightarrow> Inl (PyErr ValueErr)
                  | Some _ \<Rightarrow> (case py_float strike of
                        Inl e \<Rightarrow> Inl (PyErr e)
                      | Inr k \<Rightarrow> Inr (plan_leg_dict side ''OPT'' (PStr right) (PFloat k) (PStr ex) (ls_quantity slot)
                            (PStr (opt_key (PStr sym) (PStr (filter (\<lambda>c. c \<noteq> CHR ''-'') ex)) (PFloat k) (PStr right) []))))))))"

end
