(* ===== verification/Gate_Claims.thy ===== *)
theory Gate_Claims
  imports Gate_Params
begin

text \<open>
  Gate sets as a whole: what a patch changes, that saving a set as it was read changes nothing, the
  invariant of the table over any calls, and what the daemon reads of an active set.
\<close>

section \<open>The two merges are one\<close>

lemma deep_merge_same: "deep_merge a b = gates_merge a b"
  by (induction a b rule: deep_merge.induct) (auto simp: dget_not_dhas split: pyval.splits)

text \<open>A value of a nested object by its path.\<close>

fun at_path :: "pyval \<Rightarrow> string list \<Rightarrow> pyval option" where
  "at_path v [] = Some v"
| "at_path (PDict d) (k # ks) = (case map_of d k of None \<Rightarrow> None | Some w \<Rightarrow> at_path w ks)"
| "at_path _ (k # ks) = None"

text \<open>A patch leaves a path alone when it has no value on the way to it.\<close>

fun untouched :: "pydict \<Rightarrow> string list \<Rightarrow> bool" where
  "untouched p [] = False"
| "untouched p (k # ks) = (case map_of p k of None \<Rightarrow> True | Some (PDict q) \<Rightarrow> untouched q ks | Some _ \<Rightarrow> False)"

fun proper :: "pyval \<Rightarrow> bool" where
  "proper (PDict d) = (distinct (map fst d) \<and> list_all (\<lambda>e. proper (snd e)) d)"
| "proper _ = True"

lemma map_of_dset: "map_of (dset k v d) j = (if j = k then Some v else map_of d j)"
  by (simp add: dset_def update_conv')

definition merged_value :: "pyval option \<Rightarrow> pyval \<Rightarrow> pyval" where
  "merged_value old v = (case (v, old) of (PDict p, Some (PDict b)) \<Rightarrow> PDict (gates_merge b p) | _ \<Rightarrow> v)"

lemma merge_entry:
  "distinct (map fst p) \<Longrightarrow>
   map_of (gates_merge b p) k = (case map_of p k of None \<Rightarrow> map_of b k | Some v \<Rightarrow> Some (merged_value (map_of b k) v))"
proof (induction p arbitrary: b)
  case (Cons e p)
  obtain j v where e: "e = (j, v)" by (cases e)
  have new: "(case v of PDict p \<Rightarrow> (case dget b j of PDict c \<Rightarrow> PDict (gates_merge c p) | _ \<Rightarrow> v) | _ \<Rightarrow> v) = merged_value (map_of b j) v"
    by (auto simp: merged_value_def dget_def split: pyval.splits option.splits)
  have d: "map_of p j = None" "distinct (map fst p)" using Cons.prems e by (auto simp: map_of_eq_None_iff)
  have "map_of (gates_merge b ((j, v) # p)) k = map_of (gates_merge (dset j (merged_value (map_of b j) v) b) p) k" by (simp add: new)
  also have "\<dots> = (case map_of p k of None \<Rightarrow> map_of (dset j (merged_value (map_of b j) v) b) k
      | Some w \<Rightarrow> Some (merged_value (map_of (dset j (merged_value (map_of b j) v) b) k) w))" by (rule Cons.IH [OF d(2)])
  finally have run: "map_of (gates_merge b ((j, v) # p)) k = \<dots>" .
  show ?case unfolding e run using d(1) by (auto simp: map_of_dset split: option.splits)
qed simp

lemma proper_sub: "proper (PDict p) \<Longrightarrow> map_of p k = Some v \<Longrightarrow> proper v"
  by (auto simp: list_all_iff dest!: map_of_SomeD)

lemma untouched_none: "untouched p ks \<Longrightarrow> at_path (PDict p) ks = None"
  by (induction p ks rule: untouched.induct) (auto split: option.splits pyval.splits)

lemma merge_untouched: "proper (PDict p) \<Longrightarrow> untouched p ks \<Longrightarrow> at_path (PDict (gates_merge b p)) ks = at_path (PDict b) ks"
proof (induction ks arbitrary: b p)
  case (Cons k ks)
  have d: "distinct (map fst p)" using Cons.prems(1) by simp
  show ?case
  proof (cases "map_of p k")
    case None
    then show ?thesis by (simp add: merge_entry [OF d])
  next
    case (Some v)
    then obtain q where v: "v = PDict q" "untouched q ks" using Cons.prems(2) by (auto split: pyval.splits)
    have q: "proper (PDict q)" using proper_sub [OF Cons.prems(1) Some] v by simp
    have ne: "ks \<noteq> []" using v(2) by auto
    show ?thesis
    proof (cases "\<exists>c. map_of b k = Some (PDict c)")
      case True
      with Some v Cons.IH [OF q v(2)] show ?thesis by (auto simp: merge_entry [OF d] merged_value_def)
    next
      case False
      then have m: "merged_value (map_of b k) v = PDict q" by (auto simp: merged_value_def v split: option.splits pyval.splits)
      have "(case map_of b k of None \<Rightarrow> None | Some w \<Rightarrow> at_path w ks) = None"
        using False ne by (cases ks) (auto split: option.splits, metis at_path.simps(3-10) pyval.exhaust)
      with m untouched_none [OF v(2)] Some show ?thesis by (simp add: merge_entry [OF d])
    qed
  qed
qed simp

lemma merge_sent:
  "proper (PDict p) \<Longrightarrow> at_path (PDict p) ks = Some v \<Longrightarrow> ks \<noteq> [] \<Longrightarrow> (\<And>d. v \<noteq> PDict d) \<Longrightarrow> at_path (PDict (gates_merge b p)) ks = Some v"
proof (induction ks arbitrary: b p)
  case (Cons k ks)
  have d: "distinct (map fst p)" using Cons.prems(1) by simp
  from Cons.prems(2) obtain w where w: "map_of p k = Some w" "at_path w ks = Some v" by (auto split: option.splits)
  show ?case
  proof (cases ks)
    case Nil
    with w Cons.prems(4) have "merged_value (map_of b k) w = v" by (auto simp: merged_value_def split: pyval.splits)
    with w Nil show ?thesis by (simp add: merge_entry [OF d])
  next
    case (Cons k2 ks2)
    with w(2) obtain q where q: "w = PDict q" by (cases w) auto
    have pq: "proper (PDict q)" using proper_sub [OF Cons.prems(1) w(1)] q by simp
    have "at_path (merged_value (map_of b k) w) ks = Some v"
    proof (cases "\<exists>c. map_of b k = Some (PDict c)")
      case True
      then show ?thesis using Cons.IH [OF pq] w(2) q Cons Cons.prems(4) by (auto simp: merged_value_def)
    next
      case False
      then have "merged_value (map_of b k) w = PDict q" by (auto simp: merged_value_def q split: option.splits pyval.splits)
      with w(2) q show ?thesis by simp
    qed
    with w(1) show ?thesis by (simp add: merge_entry [OF d])
  qed
qed simp

section \<open>The validator\<close>

fun leaf_paths :: "pydict \<Rightarrow> string list list" where
  "leaf_paths [] = []"
| "leaf_paths ((k, v) # d) = (case v of PDict q \<Rightarrow> map ((#) k) (leaf_paths q) | _ \<Rightarrow> [[k]]) @ leaf_paths d"

definition GATE_LEAVES :: "string list list" where
  "GATE_LEAVES = leaf_paths gate_defaults"

definition DATES_PATH :: "string list" where
  "DATES_PATH = [''strategy'', ''earnings'', ''dates'']"

text \<open>
  What pydantic documents of a model without cross-field validators: a validated field is a conversion
  of the value sent for it, or of none, whatever the other fields are; validating a result again
  changes nothing.
\<close>

definition validates_fields :: "validator \<Rightarrow> (string list \<Rightarrow> pyval option \<Rightarrow> pyval) \<Rightarrow> bool" where
  "validates_fields V conv \<longleftrightarrow>
     (\<forall>x y. V x = Inr y \<longrightarrow> (\<forall>ks \<in> set GATE_LEAVES. at_path (PDict y) ks = Some (conv ks (at_path (PDict x) ks))))
     \<and> (\<forall>ks v. conv ks (Some (conv ks v)) = conv ks v)"

lemma leaf_shape: "ks \<in> set GATE_LEAVES \<Longrightarrow> 2 \<le> length ks"
proof -
  have "list_all (\<lambda>ks. 2 \<le> length ks) GATE_LEAVES" by code_simp
  then show "ks \<in> set GATE_LEAVES \<Longrightarrow> ?thesis" by (auto simp: list_all_iff)
qed

text \<open>No leaf lies on the way to the dates, and nothing below them.\<close>

lemma leaf_not_above_dates:
  assumes "ks \<in> set GATE_LEAVES"
  shows "ks \<noteq> []" "ks \<noteq> [''strategy'']" "ks \<noteq> [''strategy'', ''earnings'']" "take 3 ks = DATES_PATH \<Longrightarrow> ks = DATES_PATH"
proof -
  have "list_all (\<lambda>ks. ks \<noteq> [] \<and> ks \<noteq> [''strategy''] \<and> ks \<noteq> [''strategy'', ''earnings''] \<and> (take 3 ks = DATES_PATH \<longrightarrow> ks = DATES_PATH)) GATE_LEAVES"
    by code_simp
  with assms show "ks \<noteq> []" "ks \<noteq> [''strategy'']" "ks \<noteq> [''strategy'', ''earnings'']" "take 3 ks = DATES_PATH \<Longrightarrow> ks = DATES_PATH"
    by (auto simp: list_all_iff)
qed

lemma dates_leaf: "DATES_PATH \<in> set GATE_LEAVES"
  by code_simp

lemma revalidated:
  assumes "validates_fields V conv" "V x = Inr y" "V y = Inr z" "ks \<in> set GATE_LEAVES"
  shows "at_path (PDict z) ks = at_path (PDict y) ks"
  using assms unfolding validates_fields_def by metis

lemma at_absent: "at_path (PDict []) ks = None" if "ks \<noteq> []"
  using that by (cases ks) simp_all

lemma set_dates_path:
  assumes "set_dates ds m = Inr m'" "ks \<in> set GATE_LEAVES"
  shows "at_path (PDict m') ks = (if ks = DATES_PATH then Some ds else at_path (PDict m) ks)"
proof -
  from assms(1) obtain st e where st: "(if dhas m ''strategy'' then dget m ''strategy'' else PDict []) = PDict st"
    and e: "(if dhas st ''earnings'' then dget st ''earnings'' else PDict []) = PDict e"
    and m': "m' = dset ''strategy'' (PDict (dset ''earnings'' (PDict (dset ''dates'' ds e)) st)) m"
    by (auto simp: set_dates_def split: pyval.splits)
  have ms: "map_of m ''strategy'' = Some (PDict st) \<or> map_of m ''strategy'' = None \<and> st = []"
    using st by (auto simp: dhas_def dget_def split: if_splits option.splits)
  have me: "map_of st ''earnings'' = Some (PDict e) \<or> map_of st ''earnings'' = None \<and> e = []"
    using e by (auto simp: dhas_def dget_def split: if_splits option.splits)
  note nz = leaf_not_above_dates [OF assms(2)]
  obtain k1 ks1 where k1: "ks = k1 # ks1" using nz(1) by (cases ks) auto
  show ?thesis
  proof (cases "k1 = ''strategy''")
    case False
    then show ?thesis by (simp add: k1 m' map_of_dset DATES_PATH_def)
  next
    case s: True
    with nz(2) k1 obtain k2 ks2 where k2: "ks1 = k2 # ks2" by (cases ks1) auto
    show ?thesis
    proof (cases "k2 = ''earnings''")
      case False
      then show ?thesis using ms by (auto simp: k1 k2 s m' map_of_dset DATES_PATH_def)
    next
      case ea: True
      with nz(3) k1 k2 s obtain k3 ks3 where k3: "ks2 = k3 # ks3" by (cases ks2) auto
      show ?thesis
      proof (cases "k3 = ''dates''")
        case False
        then show ?thesis using ms me by (auto simp: k1 k2 k3 s ea m' map_of_dset DATES_PATH_def)
      next
        case True
        with nz(4) k1 k2 k3 s ea have "ks = DATES_PATH" by (simp add: DATES_PATH_def)
        then show ?thesis by (simp add: DATES_PATH_def m' map_of_dset)
      qed
    qed
  qed
qed

section \<open>A valid table\<close>

text \<open>
  Every stored object is a result of the validator, every name is text without blanks at its ends, every
  dimension a code of the catalog or null, and identifiers are distinct and below the next one.
\<close>

definition row_valid :: "validator \<Rightarrow> gate_row \<Rightarrow> bool" where
  "row_valid V r \<longleftrightarrow> (\<exists>x y. V x = Inr y \<and> gr_params r = PDict y) \<and> gr_name r \<noteq> [] \<and> strip (gr_name r) = gr_name r
     \<and> gate_violation r = None"

definition gates_valid :: "validator \<Rightarrow> gate_db \<Rightarrow> bool" where
  "gates_valid V db \<longleftrightarrow> distinct (map fst (gb_rows db)) \<and> (\<forall>(i, r) \<in> set (gb_rows db). i < gb_next db \<and> row_valid V r)"

section \<open>What a patch changes\<close>

text \<open>The leaves a request leaves alone.\<close>

definition leaf_kept :: "pydict \<Rightarrow> string list \<Rightarrow> bool" where
  "leaf_kept fs ks \<longleftrightarrow> (dhas fs ''gates'' \<longrightarrow> (\<exists>p. dget fs ''gates'' = PDict p \<and> untouched p ks))
     \<and> (ks = DATES_PATH \<longrightarrow> \<not> dhas fs ''earnings_dates'')"

lemma sent_field_cases: "sent_field fs k f = Inr v \<Longrightarrow> v = None \<and> \<not> dhas fs k \<or> (\<exists>x. v = Some x \<and> dhas fs k \<and> f (dget fs k) = Inr x)"
  by (auto simp: sent_field_def split: if_splits)

lemma patch_gates_ok: "patch_gates v = Inr p \<Longrightarrow> v = PDict p"
  by (auto simp: patch_gates_def Let_def split: pyval.splits if_splits)

lemma patch_dims_unsent: "patch_dims fs ts = Inr ds \<Longrightarrow> \<not> dhas fs k \<Longrightarrow> k \<notin> fst ` set ds"
proof (induction ts arbitrary: ds)
  case (Cons t ts)
  from Cons.prems(1) obtain v rest where v: "patch_dim fs t = Inr v" and rest: "patch_dims fs ts = Inr rest"
    and ds: "ds = (case v of None \<Rightarrow> [] | Some x \<Rightarrow> [(''dim_'' @ t, x)]) @ rest"
    unfolding patch_dims.simps ebind_Inr_iff by blast
  have "v \<noteq> None \<Longrightarrow> dhas fs (''dim_'' @ t)" using sent_field_cases [OF v [unfolded patch_dim_def]] by blast
  with Cons.prems(2) have "v \<noteq> None \<Longrightarrow> ''dim_'' @ t \<noteq> k" by auto
  with Cons.IH [OF rest Cons.prems(2)] show ?case by (auto simp: ds split: option.splits)
qed simp

lemma dget_dmerge_unsent: "k \<notin> fst ` set b \<Longrightarrow> dget (dmerge a b) k = dget a k"
  unfolding dmerge_def by (induction b arbitrary: a) auto

lemma dget_dmerge_sent: "distinct (map fst b) \<Longrightarrow> map_of b k = Some v \<Longrightarrow> dget (dmerge a b) k = v"
proof (induction b arbitrary: a)
  case (Cons e b)
  obtain j w where e: "e = (j, w)" by (cases e)
  have run: "dmerge a (e # b) = dmerge (dset j w a) b" by (simp add: dmerge_def e)
  show ?case
  proof (cases "j = k")
    case True
    with Cons.prems e have "k \<notin> fst ` set b" "w = v" by auto
    then show ?thesis unfolding run by (simp add: dget_dmerge_unsent True)
  next
    case False
    with Cons e show ?thesis unfolding run by simp
  qed
qed simp

lemma patch_dims_keys:
  "patch_dims fs ts = Inr ds \<Longrightarrow> distinct ts \<Longrightarrow> distinct (map fst ds) \<and> fst ` set ds \<subseteq> (\<lambda>t. ''dim_'' @ t) ` set ts"
proof (induction ts arbitrary: ds)
  case (Cons t ts)
  from Cons.prems(1) obtain v rest where rest: "patch_dims fs ts = Inr rest"
    and ds: "ds = (case v of None \<Rightarrow> [] | Some x \<Rightarrow> [(''dim_'' @ t, x)]) @ rest"
    unfolding patch_dims.simps ebind_Inr_iff by blast
  from Cons.IH [OF rest] Cons.prems(2) show ?case unfolding ds by (auto split: option.splits)
qed simp

lemma patch_dims_sent:
  "patch_dims fs ts = Inr ds \<Longrightarrow> distinct ts \<Longrightarrow> t \<in> set ts \<Longrightarrow> dhas fs (''dim_'' @ t) \<Longrightarrow>
     \<exists>x. patch_dim fs t = Inr (Some x) \<and> map_of ds (''dim_'' @ t) = Some x"
proof (induction ts arbitrary: ds)
  case (Cons u ts)
  from Cons.prems(1) obtain v rest where v: "patch_dim fs u = Inr v" and rest: "patch_dims fs ts = Inr rest"
    and ds: "ds = (case v of None \<Rightarrow> [] | Some x \<Rightarrow> [(''dim_'' @ u, x)]) @ rest"
    unfolding patch_dims.simps ebind_Inr_iff by blast
  show ?case
  proof (cases "u = t")
    case True
    with sent_field_cases [OF v [unfolded patch_dim_def]] Cons.prems(4) obtain x where "v = Some x" by auto
    with v True show ?thesis by (simp add: ds)
  next
    case False
    with Cons.IH [OF rest] Cons.prems(2-4) show ?thesis by (auto simp: ds split: option.splits)
  qed
qed simp

text \<open>What the columns of a row are when the request has a value for them.\<close>

definition dim_sent :: "pyval \<Rightarrow> pyval \<Rightarrow> bool" where
  "dim_sent v w \<longleftrightarrow> v = PNone \<and> w = PNone \<or> (\<exists>s. v = PStr s \<and> w = PStr (strip s))"

definition columns_sent :: "pydict \<Rightarrow> gate_row \<Rightarrow> bool" where
  "columns_sent fs r \<longleftrightarrow>
     (dhas fs ''name'' \<longrightarrow> (\<exists>s. dget fs ''name'' = PStr s \<and> gr_name r = strip s)) \<and>
     (dhas fs ''version'' \<longrightarrow> integer (dget fs ''version'') ''version'' False (Some 1) = Inr (Some (gr_version r))) \<and>
     (dhas fs ''is_active'' \<longrightarrow> dget fs ''is_active'' = PBool (gr_active r)) \<and>
     (\<forall>t\<in>set DIM_TYPES. dhas fs (''dim_'' @ t) \<longrightarrow> dim_sent (dget fs (''dim_'' @ t)) (dget (gr_dims r) (''dim_'' @ t)))"

lemma text_sent: "text_value v name nullable None = Inr r \<Longrightarrow> r = None \<and> v = PNone \<or> (\<exists>s. v = PStr s \<and> r = Some (strip s))"
  by (auto simp: text_value_def Let_def split: pyval.splits if_splits)

lemma text_required: "text_value v name False mx \<noteq> Inr None"
  by (auto simp: text_value_def Let_def split: pyval.splits option.splits)

lemma integer_required: "integer v name False mn \<noteq> Inr None"
  by (auto simp: integer_def Let_def split: pyval.splits option.splits pyfloat.splits)

lemma integer_sent: "ebind (integer v name False mn) (\<lambda>t. Inr (the t)) = Inr x \<Longrightarrow> integer v name False mn = Inr (Some x)"
  using integer_required [of v name mn] by (auto simp: ebind_Inr_iff split: option.splits)

lemma patched_columns:
  assumes "patch_gate_args fs = Inr a"
  shows "columns_sent fs (apply_patch a params r)"
proof -
  from assms obtain name version dims active where
    n: "sent_field fs ''name'' (\<lambda>v. ebind (text_value v ''name'' False None) (\<lambda>t. Inr (the t))) = Inr name"
    and v: "sent_field fs ''version'' (\<lambda>v. ebind (integer v ''version'' False (Some 1)) (\<lambda>t. Inr (the t))) = Inr version"
    and d: "patch_dims fs DIM_TYPES = Inr dims"
    and ac: "sent_field fs ''is_active'' (\<lambda>v. boolean v ''is_active'') = Inr active"
    and a: "gp_name a = name" "gp_version a = version" "gp_dims a = dims" "gp_active a = active"
    unfolding patch_gate_args_def by (auto simp del: text_value_def)
  have "\<exists>s. dget fs ''name'' = PStr s \<and> gr_name (apply_patch a params r) = strip s" if "dhas fs ''name''"
    using sent_field_cases [OF n] that text_required text_sent a(1) by (fastforce simp: apply_patch_def or_keep_def)
  moreover have "integer (dget fs ''version'') ''version'' False (Some 1) = Inr (Some (gr_version (apply_patch a params r)))"
    if "dhas fs ''version''"
    using sent_field_cases [OF v] that a(2) integer_sent by (auto simp: apply_patch_def or_keep_def simp del: ebind_Inr_iff)
  moreover have "dget fs ''is_active'' = PBool (gr_active (apply_patch a params r))" if "dhas fs ''is_active''"
    using sent_field_cases [OF ac] that a(4) by (auto simp: apply_patch_def or_keep_def boolean_def split: pyval.splits)
  moreover have "dim_sent (dget fs (''dim_'' @ t)) (dget (gr_dims (apply_patch a params r)) (''dim_'' @ t))"
    if t: "t \<in> set DIM_TYPES" "dhas fs (''dim_'' @ t)" for t
  proof -
    have dist: "distinct DIM_TYPES" by (simp add: DIM_TYPES_def)
    from patch_dims_sent [OF d dist t] obtain x where x: "patch_dim fs t = Inr (Some x)" "map_of dims (''dim_'' @ t) = Some x" by blast
    have "dget (dmerge (gr_dims r) dims) (''dim_'' @ t) = x"
      using dget_dmerge_sent [OF _ x(2)] patch_dims_keys [OF d dist] by blast
    moreover have "dim_sent (dget fs (''dim_'' @ t)) x"
      using sent_field_cases [OF x(1) [unfolded patch_dim_def]] text_sent
      by (fastforce simp: dim_sent_def split: option.splits if_splits)
    ultimately show ?thesis by (simp add: apply_patch_def a(3))
  qed
  ultimately show ?thesis unfolding columns_sent_def by blast
qed

lemma patch_args_ok:
  assumes "patch_gate_args fs = Inr a"
  shows "\<not> dhas fs ''name'' \<Longrightarrow> gp_name a = None" "\<not> dhas fs ''version'' \<Longrightarrow> gp_version a = None"
    "\<not> dhas fs ''is_active'' \<Longrightarrow> gp_active a = None" "\<not> dhas fs k \<Longrightarrow> k \<notin> fst ` set (gp_dims a)"
    "gp_gates a = None \<longleftrightarrow> \<not> dhas fs ''gates''" "gp_gates a = Some p \<Longrightarrow> dget fs ''gates'' = PDict p"
    "gp_dates a = None \<longleftrightarrow> \<not> dhas fs ''earnings_dates''"
    "gp_dates a = Some ds \<Longrightarrow> patch_earnings_dates (dget fs ''earnings_dates'') = Inr ds"
proof -
  from assms obtain name version dims active gates dates where
    n: "sent_field fs ''name'' (\<lambda>v. ebind (text_value v ''name'' False None) (\<lambda>t. Inr (the t))) = Inr name"
    and v: "sent_field fs ''version'' (\<lambda>v. ebind (integer v ''version'' False (Some 1)) (\<lambda>t. Inr (the t))) = Inr version"
    and d: "patch_dims fs DIM_TYPES = Inr dims"
    and ac: "sent_field fs ''is_active'' (\<lambda>v. boolean v ''is_active'') = Inr active"
    and g: "sent_field fs ''gates'' patch_gates = Inr gates"
    and e: "sent_field fs ''earnings_dates'' patch_earnings_dates = Inr dates"
    and a: "a = \<lparr>gp_name = name, gp_version = version, gp_dims = dims, gp_active = active, gp_gates = gates, gp_dates = dates\<rparr>"
    unfolding patch_gate_args_def by (auto simp del: text_value_def)
  show "\<not> dhas fs ''name'' \<Longrightarrow> gp_name a = None" using sent_field_cases [OF n] a by auto
  show "\<not> dhas fs ''version'' \<Longrightarrow> gp_version a = None" using sent_field_cases [OF v] a by auto
  show "\<not> dhas fs ''is_active'' \<Longrightarrow> gp_active a = None" using sent_field_cases [OF ac] a by auto
  show "\<not> dhas fs k \<Longrightarrow> k \<notin> fst ` set (gp_dims a)" using patch_dims_unsent [OF d] a by simp
  show "gp_gates a = None \<longleftrightarrow> \<not> dhas fs ''gates''" "gp_gates a = Some p \<Longrightarrow> dget fs ''gates'' = PDict p"
    using sent_field_cases [OF g] a by (auto dest: patch_gates_ok)
  show "gp_dates a = None \<longleftrightarrow> \<not> dhas fs ''earnings_dates''"
    "gp_dates a = Some ds \<Longrightarrow> patch_earnings_dates (dget fs ''earnings_dates'') = Inr ds"
    using sent_field_cases [OF e] a by auto
qed

lemma finish_patch_ok:
  "tx_ok env (finish_patch env' V g a params) s out s' \<Longrightarrow>
   \<exists>r. map_of (gb_rows s) g = Some r \<and> gate_violation (apply_patch a params r) = None
     \<and> s' = s\<lparr>gb_rows := put_assoc g (apply_patch a params r) (gb_rows s)\<rparr>"
  unfolding finish_patch_def update_gate_def get_gate_safety_full_by_id_def
  by (auto split: option.splits if_splits dest!: tx_okD)

lemma patch_body_ok:
  assumes "tx_ok env (patch_gate_body env' V g a) s out s'"
  obtains r params where "map_of (gb_rows s) g = Some r"
    "if gp_gates a = None \<and> gp_dates a = None then params = None else (\<exists>m. merged_params env' V a r = Inr m \<and> params = Some m)"
    "gate_violation (apply_patch a params r) = None" "s' = s\<lparr>gb_rows := put_assoc g (apply_patch a params r) (gb_rows s)\<rparr>"
proof (cases "gp_gates a = None \<and> gp_dates a = None")
  case True
  with assms that [of _ None] show thesis by (auto simp: patch_gate_body_def dest!: finish_patch_ok)
next
  case False
  with assms obtain cur s1 where q: "tx_ok env (query (\<lambda>db. map_of (gb_rows db) g)) s cur s1"
    and rest: "tx_ok env (case cur of None \<Rightarrow> tx_raise (no_gate_set g)
        | Some r \<Rightarrow> (case merged_params env' V a r of Inl e \<Rightarrow> tx_raise e | Inr params \<Rightarrow> finish_patch env' V g a (Some params))) s1 out s'"
    unfolding patch_gate_body_def by (auto elim: tx_ok_bindE)
  from tx_ok_queryD [OF q] rest obtain r m where r: "map_of (gb_rows s) g = Some r" "merged_params env' V a r = Inr m"
    "tx_ok env (finish_patch env' V g a (Some m)) s out s'" by (auto split: option.splits sum.splits)
  from finish_patch_ok [OF r(3)] r False that [of r "Some m"] show thesis by auto
qed

lemma merged_params_steps:
  assumes m: "merged_params env V a r = Inr m" and y: "gr_params r = PDict y"
  obtains y1 m1 where "V y = Inr y1"
    "(case gp_dates a of None \<Rightarrow> Inr (case gp_gates a of None \<Rightarrow> y1 | Some p \<Rightarrow> gates_merge y1 p)
      | Some ds \<Rightarrow> set_dates (PList (map PStr ds)) (case gp_gates a of None \<Rightarrow> y1 | Some p \<Rightarrow> gates_merge y1 p)) = Inr m1"
    "V m1 = Inr m"
proof -
  from m obtain y1 m1 where p: "parse_params_json env V (gr_params r) = Inr y1"
    and m1: "(case gp_dates a of None \<Rightarrow> Inr (case gp_gates a of None \<Rightarrow> y1 | Some p \<Rightarrow> gates_merge y1 p)
      | Some ds \<Rightarrow> set_dates (PList (map PStr ds)) (case gp_gates a of None \<Rightarrow> y1 | Some p \<Rightarrow> gates_merge y1 p)) = Inr m1"
    and last: "(case V m1 of Inl (place, msg) \<Rightarrow> invalid (''gates.'' @ place @ '': '' @ msg @ ''.'') | Inr g \<Rightarrow> Inr g) = Inr m"
    unfolding merged_params_def Let_def ebind_Inr_iff by blast
  have "V y = Inr y1" using p y by (cases "V y") (simp_all add: parse_params_json_def)
  moreover have "V m1 = Inr m" using last by (cases "V m1") (simp_all split: prod.splits)
  ultimately show thesis using m1 that by blast
qed

text \<open>The leaves of merged parameters.\<close>

lemma merged_leaf:
  assumes V: "validates_fields V conv" and y: "V x = Inr y" "gr_params r = PDict y" and m: "merged_params env V a r = Inr m"
    and ks: "ks \<in> set GATE_LEAVES" and pr: "\<And>p. gp_gates a = Some p \<Longrightarrow> proper (PDict p)"
  shows "(\<And>p. gp_gates a = Some p \<Longrightarrow> untouched p ks) \<Longrightarrow> (ks = DATES_PATH \<longrightarrow> gp_dates a = None) \<Longrightarrow>
      at_path (PDict m) ks = at_path (PDict y) ks"
    and "gp_gates a = Some p \<Longrightarrow> at_path (PDict p) ks = Some v \<Longrightarrow> (\<And>d. v \<noteq> PDict d) \<Longrightarrow> ks \<noteq> DATES_PATH \<Longrightarrow>
      at_path (PDict m) ks = Some (conv ks (Some v))"
    and "gp_dates a = Some ds \<Longrightarrow> at_path (PDict m) DATES_PATH = Some (conv DATES_PATH (Some (PList (map PStr ds))))"
proof -
  let ?merge = "\<lambda>y1. case gp_gates a of None \<Rightarrow> y1 | Some p \<Rightarrow> gates_merge y1 p"
  obtain y1 m1 where y1: "V y = Inr y1"
    and m1: "(case gp_dates a of None \<Rightarrow> Inr (?merge y1) | Some ds \<Rightarrow> set_dates (PList (map PStr ds)) (?merge y1)) = Inr m1"
    and mm: "V m1 = Inr m"
    using m y(2) by (rule merged_params_steps)
  have out: "k \<in> set GATE_LEAVES \<Longrightarrow> at_path (PDict m) k = Some (conv k (at_path (PDict m1) k))" for k
    using V mm by (simp add: validates_fields_def)
  have idem: "conv k (Some (conv k w)) = conv k w" for k w using V by (simp add: validates_fields_def)
  have dated: "at_path (PDict m1) k = (case gp_dates a of Some ds \<Rightarrow> if k = DATES_PATH then Some (PList (map PStr ds)) else at_path (PDict (?merge y1)) k
      | None \<Rightarrow> at_path (PDict (?merge y1)) k)" if "k \<in> set GATE_LEAVES" for k
    using m1 set_dates_path [OF _ that] by (auto split: option.splits)
  have old: "at_path (PDict y1) ks = at_path (PDict y) ks" by (rule revalidated [OF V y(1) y1 ks])
  have yk: "at_path (PDict y) ks = Some (conv ks (at_path (PDict x) ks))" using V y(1) ks by (simp add: validates_fields_def)
  show "at_path (PDict m) ks = at_path (PDict y) ks"
    if un: "\<And>p. gp_gates a = Some p \<Longrightarrow> untouched p ks" and dt: "ks = DATES_PATH \<longrightarrow> gp_dates a = None"
  proof -
    have "at_path (PDict (?merge y1)) ks = at_path (PDict y1) ks"
      using merge_untouched [OF pr un] by (auto split: option.splits)
    then have "at_path (PDict m1) ks = at_path (PDict y) ks" using dated [OF ks] dt old by (auto split: option.splits)
    with out [OF ks] yk idem show ?thesis by simp
  qed
  show "at_path (PDict m) ks = Some (conv ks (Some v))"
    if g: "gp_gates a = Some p" and v: "at_path (PDict p) ks = Some v" "\<And>d. v \<noteq> PDict d" and nd: "ks \<noteq> DATES_PATH"
  proof -
    have "at_path (PDict (?merge y1)) ks = Some v"
      using merge_sent [OF pr [OF g] v(1) leaf_not_above_dates(1) [OF ks] v(2)] g by simp
    then show ?thesis using out [OF ks] dated [OF ks] nd by (auto split: option.splits)
  qed
  show "gp_dates a = Some ds \<Longrightarrow> at_path (PDict m) DATES_PATH = Some (conv DATES_PATH (Some (PList (map PStr ds))))"
    using out [OF dates_leaf] dated [OF dates_leaf] by simp
qed

text \<open>
  C15. A patch of a gate set changes what was sent and nothing else. The name, version, active flag and
  dimensions that were sent are stored as sent (texts without the blanks at their ends, the version as the
  whole number it reads as); the other sets, the columns that were not sent and every parameter the request has
  no value for are as before; a parameter it has a value for is that value as the model converts it; and the
  earnings dates are replaced exactly when they were sent.
\<close>

theorem patch_changes_only_what_was_sent:
  assumes V: "validates_fields V conv"
    and stored: "map_of (gb_rows db) g = Some r" "gr_params r = PDict y" "V x = Inr y"
    and fs: "proper (PDict fs)"
    and ok: "patch_gate_safety env V arg g (PDict fs) db = (Inr out, db')"
  shows "\<exists>r'. map_of (gb_rows db') g = Some r' \<and> (\<forall>i. i \<noteq> g \<longrightarrow> map_of (gb_rows db') i = map_of (gb_rows db) i)
    \<and> columns_sent fs r'
    \<and> (\<not> dhas fs ''name'' \<longrightarrow> gr_name r' = gr_name r) \<and> (\<not> dhas fs ''version'' \<longrightarrow> gr_version r' = gr_version r)
    \<and> (\<not> dhas fs ''is_active'' \<longrightarrow> gr_active r' = gr_active r)
    \<and> (\<forall>k. \<not> dhas fs k \<longrightarrow> dget (gr_dims r') k = dget (gr_dims r) k)
    \<and> (\<forall>ks \<in> set GATE_LEAVES. leaf_kept fs ks \<longrightarrow> at_path (gr_params r') ks = at_path (gr_params r) ks)
    \<and> (\<forall>ks \<in> set GATE_LEAVES. \<forall>p v. dget fs ''gates'' = PDict p \<and> at_path (PDict p) ks = Some v \<and> (\<forall>d. v \<noteq> PDict d) \<and> ks \<noteq> DATES_PATH \<longrightarrow>
         at_path (gr_params r') ks = Some (conv ks (Some v)))
    \<and> (\<forall>ds. dhas fs ''earnings_dates'' \<and> patch_earnings_dates (dget fs ''earnings_dates'') = Inr ds \<longrightarrow>
         at_path (gr_params r') DATES_PATH = Some (conv DATES_PATH (Some (PList (map PStr ds)))))"
proof -
  from ok obtain a where a: "patch_gate_args fs = Inr a"
    and run: "strict_write (''gate set '' @ int_str g) FkInvalid (patch_gate_body env V g a) env arg db = (Inr out, db')"
    by (auto simp: patch_gate_safety_def check_fields_ok split: sum.splits)
  from strict_write_ok [OF run] obtain r1 params where r1: "map_of (gb_rows db) g = Some r1"
    and pm: "if gp_gates a = None \<and> gp_dates a = None then params = None else (\<exists>m. merged_params env V a r1 = Inr m \<and> params = Some m)"
    and db': "db' = db\<lparr>gb_rows := put_assoc g (apply_patch a params r1) (gb_rows db)\<rparr>" by (rule patch_body_ok)
  with stored have r: "r1 = r" by simp
  note args = patch_args_ok [OF a]
  let ?r = "apply_patch a params r"
  have gates_proper: "proper (PDict p)" if "gp_gates a = Some p" for p
  proof -
    have "dhas fs ''gates''" using args(5) that by auto
    then have "map_of fs ''gates'' = Some (PDict p)" using args(6) [OF that] by (auto simp: dhas_def dget_def split: option.splits)
    then show ?thesis by (rule proper_sub [OF fs])
  qed
  have merged: "\<exists>m. merged_params env V a r = Inr m \<and> gr_params ?r = PDict m" if "gp_gates a \<noteq> None \<or> gp_dates a \<noteq> None"
    using pm that r by (auto simp: apply_patch_def)
  have kept: "at_path (gr_params ?r) ks = at_path (gr_params r) ks" if ks: "ks \<in> set GATE_LEAVES" "leaf_kept fs ks" for ks
  proof (cases "gp_gates a \<noteq> None \<or> gp_dates a \<noteq> None")
    case True
    then obtain m where m: "merged_params env V a r = Inr m" "gr_params ?r = PDict m" using merged by blast
    have "\<And>p. gp_gates a = Some p \<Longrightarrow> untouched p ks" using ks(2) args(5,6) by (fastforce simp: leaf_kept_def)
    moreover have "ks = DATES_PATH \<longrightarrow> gp_dates a = None" using ks(2) args(7) by (auto simp: leaf_kept_def)
    ultimately show ?thesis using merged_leaf(1) [OF V stored(3,2) m(1) ks(1) gates_proper] m(2) stored(2) by simp
  qed (use pm r in \<open>simp add: apply_patch_def\<close>)
  have sent: "at_path (gr_params ?r) ks = Some (conv ks (Some v))"
    if ks: "ks \<in> set GATE_LEAVES" "dget fs ''gates'' = PDict p" "at_path (PDict p) ks = Some v" "\<forall>d. v \<noteq> PDict d" "ks \<noteq> DATES_PATH" for ks p v
  proof -
    have "dhas fs ''gates''"
    proof (rule ccontr)
      assume "\<not> dhas fs ''gates''"
      from dget_not_dhas [OF this] ks(2) show False by simp
    qed
    then obtain q where q: "gp_gates a = Some q" using args(5) by (cases "gp_gates a") auto
    with args(6) ks(2) have p: "gp_gates a = Some p" by auto
    then obtain m where m: "merged_params env V a r = Inr m" "gr_params ?r = PDict m" using merged by auto
    show ?thesis using merged_leaf(2) [OF V stored(3,2) m(1) ks(1) gates_proper p ks(3)] ks(4,5) m(2) by simp
  qed
  have dated: "at_path (gr_params ?r) DATES_PATH = Some (conv DATES_PATH (Some (PList (map PStr ds))))"
    if "dhas fs ''earnings_dates''" "patch_earnings_dates (dget fs ''earnings_dates'') = Inr ds" for ds
  proof -
    have "gp_dates a \<noteq> None" using that(1) args(7) by simp
    then obtain ds' where "gp_dates a = Some ds'" by blast
    with args(8) that(2) have d: "gp_dates a = Some ds" by auto
    then obtain m where m: "merged_params env V a r = Inr m" "gr_params ?r = PDict m" using merged by auto
    show ?thesis using merged_leaf(3) [OF V stored(3,2) m(1) dates_leaf gates_proper d] m(2) by simp
  qed
  have cols: "\<not> dhas fs ''name'' \<longrightarrow> gr_name ?r = gr_name r" "\<not> dhas fs ''version'' \<longrightarrow> gr_version ?r = gr_version r"
    "\<not> dhas fs ''is_active'' \<longrightarrow> gr_active ?r = gr_active r" "\<forall>k. \<not> dhas fs k \<longrightarrow> dget (gr_dims ?r) k = dget (gr_dims r) k"
    using args(1-4) by (auto simp: apply_patch_def or_keep_def dget_dmerge_unsent)
  have rows: "map_of (gb_rows db') g = Some ?r" "\<forall>i. i \<noteq> g \<longrightarrow> map_of (gb_rows db') i = map_of (gb_rows db) i"
    using stored(1) r by (simp_all add: db' map_of_put_assoc)
  from rows cols patched_columns [OF a] kept sent dated show ?thesis by (intro exI [of _ ?r]) blast
qed

subsection \<open>A validator of this kind\<close>

text \<open>It keeps the value sent for a field of the shape and fills in the default of a missing one.\<close>

fun refill :: "pydict \<Rightarrow> pydict \<Rightarrow> pydict" where
  "refill [] x = []"
| "refill ((k, v) # ref) x =
     (k, case v of
           PDict q \<Rightarrow> PDict (refill q (case dget x k of PDict z \<Rightarrow> z | _ \<Rightarrow> []))
         | _ \<Rightarrow> (case map_of x k of None \<Rightarrow> v | Some w \<Rightarrow> w)) # refill ref x"

definition keeping_validator :: validator where
  "keeping_validator x = Inr (refill gate_defaults x)"

definition kept_or_default :: "string list \<Rightarrow> pyval option \<Rightarrow> pyval" where
  "kept_or_default ks v = (case v of Some w \<Rightarrow> w | None \<Rightarrow> the (at_path (PDict gate_defaults) ks))"

lemma refill_keys: "map fst (refill ref x) = map fst ref"
  by (induction ref x rule: refill.induct) auto

lemma map_of_refill: "distinct (map fst ref) \<Longrightarrow> map_of (refill ref x) k = (case map_of ref k of None \<Rightarrow> None | Some v \<Rightarrow> Some (case v of
     PDict q \<Rightarrow> PDict (refill q (case dget x k of PDict z \<Rightarrow> z | _ \<Rightarrow> []))
   | _ \<Rightarrow> (case map_of x k of None \<Rightarrow> v | Some w \<Rightarrow> w)))"
proof (induction ref)
  case (Cons e ref)
  then show ?case by (cases e) (auto simp: refill_keys)
qed simp

lemma refill_leaf:
  "proper (PDict ref) \<Longrightarrow> ks \<in> set (leaf_paths ref) \<Longrightarrow>
   at_path (PDict (refill ref x)) ks = Some (case at_path (PDict x) ks of Some w \<Rightarrow> w | None \<Rightarrow> the (at_path (PDict ref) ks))"
proof (induction ks arbitrary: ref x)
  case Nil
  have "[] \<notin> set (leaf_paths ref)" by (induction ref rule: leaf_paths.induct) (auto split: pyval.splits)
  with Nil show ?case by simp
next
  case (Cons k ks)
  have split: "k # ks \<in> set (leaf_paths d) \<Longrightarrow> distinct (map fst d) \<Longrightarrow>
      \<exists>v. map_of d k = Some v \<and> (case v of PDict q \<Rightarrow> ks \<in> set (leaf_paths q) | _ \<Rightarrow> ks = [])" for d
  proof (induction d)
    case (Cons e d)
    obtain j v where e: "e = (j, v)" by (cases e)
    show ?case
    proof (cases "k # ks \<in> set (leaf_paths d)")
      case True
      with Cons.IH Cons.prems(2) obtain w where w: "map_of d k = Some w" "case w of PDict q \<Rightarrow> ks \<in> set (leaf_paths q) | _ \<Rightarrow> ks = []" by auto
      then have "k \<in> fst ` set d" by (metis map_of_eq_None_iff option.distinct(1))
      with Cons.prems(2) e have "k \<noteq> j" by auto
      with w e show ?thesis by simp
    next
      case False
      with Cons.prems(1) e show ?thesis by (auto split: pyval.splits)
    qed
  qed simp
  have d: "distinct (map fst ref)" using Cons.prems(1) by simp
  from split [OF Cons.prems(2) d] obtain v where v: "map_of ref k = Some v" "case v of PDict q \<Rightarrow> ks \<in> set (leaf_paths q) | _ \<Rightarrow> ks = []" by blast
  show ?case
  proof (cases "\<exists>q. v = PDict q")
    case True
    then obtain q where q: "v = PDict q" "ks \<in> set (leaf_paths q)" using v(2) by auto
    have pq: "proper (PDict q)" using proper_sub [OF Cons.prems(1) v(1)] q by simp
    have ne: "ks \<noteq> []" using q(2) by (induction q rule: leaf_paths.induct) (auto split: pyval.splits)
    have x: "at_path (PDict x) (k # ks) = at_path (PDict (case dget x k of PDict z \<Rightarrow> z | _ \<Rightarrow> [])) ks"
      using ne by (cases ks; cases "map_of x k"; cases "the (map_of x k)") (auto simp: dget_def)
    have ref: "at_path (PDict ref) (k # ks) = at_path (PDict q) ks" using v(1) q(1) by simp
    have "at_path (PDict (refill ref x)) (k # ks) = at_path (PDict (refill q (case dget x k of PDict z \<Rightarrow> z | _ \<Rightarrow> []))) ks"
      using v(1) q(1) by (simp add: map_of_refill [OF d])
    then show ?thesis unfolding x ref using Cons.IH [OF pq q(2)] by simp
  next
    case False
    then have "ks = []" using v(2) by (cases v) auto
    with False v(1) show ?thesis by (cases v) (auto simp: map_of_refill [OF d] split: option.splits)
  qed
qed

lemma keeping_validates: "validates_fields keeping_validator kept_or_default"
proof -
  have "proper (PDict gate_defaults)" by code_simp
  from refill_leaf [OF this] show ?thesis
    by (auto simp: validates_fields_def keeping_validator_def kept_or_default_def GATE_LEAVES_def split: option.splits)
qed

definition sample_gate_row :: gate_row where
  "sample_gate_row = \<lparr>gr_name = ''Default'', gr_version = 1, gr_dims = map (\<lambda>k. (k, PNone)) DIM_FIELDS,
     gr_active = True, gr_params = PDict gate_defaults\<rparr>"

definition sample_gate_db :: gate_db where
  "sample_gate_db = \<lparr>gb_rows = [(1, sample_gate_row)], gb_next = 2, gb_settings = None\<rparr>"

lemma sample_gate_stored: "map_of (gb_rows sample_gate_db) 1 = Some sample_gate_row" "gr_params sample_gate_row = PDict gate_defaults"
  by (simp_all add: sample_gate_db_def sample_gate_row_def)

lemma sample_gates_accepted: "keeping_validator gate_defaults = Inr gate_defaults"
  by code_simp

lemma sample_gates_valid: "gates_valid keeping_validator sample_gate_db"
proof -
  have "strip ''Default'' = ''Default''" "gate_violation sample_gate_row = None" by code_simp+
  with sample_gates_accepted show ?thesis
    by (auto simp: gates_valid_def row_valid_def sample_gate_db_def sample_gate_row_def)
qed

definition sample_gate_patch :: pydict where
  "sample_gate_patch = [(''gates'', PDict [(''guard'', PDict [(''risk'', PDict [(''max_position_shares'', PInt 900)])])])]"

theorem patch_changes_only_what_was_sent_witness:
  "\<exists>r. map_of (gb_rows (snd (patch_gate_safety (calm_env 0) keeping_validator ConnLive 1 (PDict sample_gate_patch) sample_gate_db))) 1 = Some r
     \<and> at_path (gr_params r) [''guard'', ''risk'', ''max_position_shares''] = Some (PInt 900)
     \<and> at_path (gr_params r) [''state'', ''delta'', ''epsilon_band''] = Some (PInt 10)"
proof -
  let ?run = "patch_gate_safety (calm_env 0) keeping_validator ConnLive 1 (PDict sample_gate_patch) sample_gate_db"
  have "\<not> isl (fst ?run)" by code_simp
  then obtain out db' where run: "?run = (Inr out, db')" by (cases ?run; cases "fst ?run") auto
  have leaves: "[''guard'', ''risk'', ''max_position_shares''] \<in> set GATE_LEAVES" "[''state'', ''delta'', ''epsilon_band''] \<in> set GATE_LEAVES"
    by code_simp+
  have pr: "proper (PDict sample_gate_patch)" by code_simp
  obtain r' where r': "map_of (gb_rows db') 1 = Some r'"
    and kept: "\<forall>ks \<in> set GATE_LEAVES. leaf_kept sample_gate_patch ks \<longrightarrow> at_path (gr_params r') ks = at_path (gr_params sample_gate_row) ks"
    and sent: "\<forall>ks \<in> set GATE_LEAVES. \<forall>p v. dget sample_gate_patch ''gates'' = PDict p \<and> at_path (PDict p) ks = Some v \<and>
        (\<forall>d. v \<noteq> PDict d) \<and> ks \<noteq> DATES_PATH \<longrightarrow> at_path (gr_params r') ks = Some (kept_or_default ks (Some v))"
    using patch_changes_only_what_was_sent [OF keeping_validates sample_gate_stored sample_gates_accepted pr run] by (elim exE conjE) (rule that)
  have "leaf_kept sample_gate_patch [''state'', ''delta'', ''epsilon_band'']" by (simp add: leaf_kept_def sample_gate_patch_def)
  with kept leaves(2) have "at_path (gr_params r') [''state'', ''delta'', ''epsilon_band''] = at_path (gr_params sample_gate_row) [''state'', ''delta'', ''epsilon_band'']"
    by blast
  then have "at_path (gr_params r') [''state'', ''delta'', ''epsilon_band''] = Some (PInt 10)"
    unfolding sample_gate_stored(2) by (simp add: gate_defaults_def GateStateParams_def GateDeltaParams_def)
  moreover have "at_path (gr_params r') [''guard'', ''risk'', ''max_position_shares''] = Some (PInt 900)"
    using sent [rule_format, OF leaves(1), of "[(''guard'', PDict [(''risk'', PDict [(''max_position_shares'', PInt 900)])])]" "PInt 900"]
    by (simp add: sample_gate_patch_def DATES_PATH_def kept_or_default_def)
  ultimately show ?thesis using r' run by simp
qed

section \<open>Any sequence of calls\<close>

datatype gate_op =
    CreateGates "pydict option" pydict
  | UpdateGates "pydict option" int pydict
  | PatchGates conn_arg int pyval

fun gate_step :: "validator \<Rightarrow> env \<times> gate_op \<Rightarrow> gate_db \<Rightarrow> gate_db" where
  "gate_step V (env, CreateGates cfg p) db = snd (create_gate_safety env V cfg p db)"
| "gate_step V (env, UpdateGates cfg g p) db = snd (update_gate_safety env V cfg g p db)"
| "gate_step V (env, PatchGates arg g body) db = snd (patch_gate_safety env V arg g body db)"

lemma put_keeps_gates:
  assumes "gates_valid V db" "map_of (gb_rows db) g = Some r" "row_valid V r'"
  shows "gates_valid V (db\<lparr>gb_rows := put_assoc g r' (gb_rows db)\<rparr>)"
  using assms map_of_SomeD [OF assms(2)] by (fastforce simp: gates_valid_def dest!: in_put_assoc)

lemma payload_row_valid:
  assumes "payload_row V p = Inr r" "gate_violation r = None"
  shows "row_valid V r"
proof -
  from assms(1) obtain gates params name version where V: "(case V gates of Inl _ \<Rightarrow> Inl (PyErr ValueErr) | Inr g \<Rightarrow> Inr g) = Inr params"
    and n: "strip_or [] (dget p ''name'') = Inr name"
    and r: "gr_name r = (if name = [] then ''Unnamed'' else name)" "gr_params r = PDict params"
    unfolding payload_row_def Let_def ebind_Inr_iff by auto
  have "V gates = Inr params" using V by (auto split: sum.splits)
  moreover have "strip name = name" using n by (auto simp: strip_or_def split: if_splits pyval.splits)
  moreover have "strip ''Unnamed'' = ''Unnamed''" by code_simp
  ultimately show ?thesis using r assms(2) by (auto simp: row_valid_def)
qed

lemma insert_gate_keeps:
  "row_valid V r \<or> gate_violation r \<noteq> None \<Longrightarrow> tx_inv (gates_valid V) (insert_gate r)"
  unfolding insert_gate_def by (rule tx_inv_stmt) (fastforce simp: gates_valid_def)

lemma update_gate_keeps:
  "(\<And>q. row_valid V q \<Longrightarrow> gate_violation (f q) = None \<Longrightarrow> row_valid V (f q)) \<Longrightarrow> tx_inv (gates_valid V) (update_gate g f)"
  unfolding update_gate_def
proof (rule tx_inv_stmt)
  fix s a s'
  assume f: "\<And>q. row_valid V q \<Longrightarrow> gate_violation (f q) = None \<Longrightarrow> row_valid V (f q)" and s: "gates_valid V s"
    and run: "(case map_of (gb_rows s) g of None \<Rightarrow> Inr (0, s)
       | Some r \<Rightarrow> checked (gate_violation (f r)) (1, s\<lparr>gb_rows := put_assoc g (f r) (gb_rows s)\<rparr>)) = Inr (a, s')"
  show "gates_valid V s'"
  proof (cases "map_of (gb_rows s) g")
    case (Some r)
    then have "row_valid V r" using s by (fastforce simp: gates_valid_def dest: map_of_SomeD)
    with Some run f show ?thesis by (auto intro: put_keeps_gates [OF s Some])
  qed (use run s in simp)
qed

lemma patch_row_valid:
  assumes a: "patch_gate_args fs = Inr a" and r: "row_valid V r" and v: "gate_violation (apply_patch a params r) = None"
    and p: "params = None \<or> (\<exists>m. merged_params env V a r = Inr m \<and> params = Some m)"
  shows "row_valid V (apply_patch a params r)"
proof -
  have name: "gp_name a = Some t \<Longrightarrow> t \<noteq> [] \<and> strip t = t" for t
  proof -
    assume t: "gp_name a = Some t"
    obtain nm where nm: "sent_field fs ''name'' (\<lambda>v. ebind (text_value v ''name'' False None) (\<lambda>t. Inr (the t))) = Inr nm" "gp_name a = nm"
      using a unfolding patch_gate_args_def ebind_Inr_iff by auto
    with t have "\<exists>o'. text_value (dget fs ''name'') ''name'' False None = Inr o' \<and> t = the o'"
      using sent_field_cases [OF nm(1)] by auto
    then show ?thesis using text_value_required text_value_ok by (metis option.collapse)
  qed
  from r obtain x y where y: "V x = Inr y" "gr_params r = PDict y" by (auto simp: row_valid_def)
  have "\<exists>x' y'. V x' = Inr y' \<and> gr_params (apply_patch a params r) = PDict y'"
  proof (cases params)
    case None
    with y show ?thesis by (auto simp: apply_patch_def)
  next
    case (Some m)
    with p have "merged_params env V a r = Inr m" by auto
    from merged_params_steps [OF this y(2)] Some show ?thesis by (metis apply_patch_def gate_row.select_convs(5) option.simps(5))
  qed
  with name r v show ?thesis by (auto simp: row_valid_def apply_patch_def or_keep_def split: option.splits)
qed

lemma gate_step_keeps: "gates_valid V db \<Longrightarrow> gates_valid V (gate_step V op db)"
proof (cases op)
  case (Pair env call)
  assume inv: "gates_valid V db"
  show ?thesis
  proof (cases call)
    case (CreateGates cfg p)
    show ?thesis
    proof (cases "payload_row V p")
      case (Inr r)
      have "tx_inv (gates_valid V) (tx_bind (insert_gate r) (\<lambda>g. tx_return (True, Some g)))"
        using insert_gate_keeps payload_row_valid [OF Inr] by (intro tx_keeps) blast
      from legacy_transaction_snd [OF this inv] inv Inr show ?thesis
        by (simp add: Pair CreateGates create_gate_safety_def swallowing_snd)
    qed (use inv in \<open>simp add: Pair CreateGates create_gate_safety_def\<close>)
  next
    case (UpdateGates cfg g p)
    show ?thesis
    proof (cases "payload_row V p")
      case (Inr r)
      have "tx_inv (gates_valid V) (tx_bind (update_gate g (\<lambda>_. r)) (\<lambda>n. tx_return (n \<noteq> 0, n \<noteq> 0)))"
        using payload_row_valid [OF Inr] by (intro tx_keeps update_gate_keeps) blast
      from legacy_transaction_snd [OF this inv] inv Inr show ?thesis
        by (simp add: Pair UpdateGates update_gate_safety_def swallowing_snd)
    qed (use inv in \<open>simp add: Pair UpdateGates update_gate_safety_def\<close>)
  next
    case (PatchGates arg g body)
    show ?thesis
    proof (cases "ebind (check_fields body GATE_SAFETY_PATCHABLE ''gate set'') patch_gate_args")
      case (Inr a)
      then obtain fs where a: "patch_gate_args fs = Inr a" by auto
      have "tx_inv (gates_valid V) (patch_gate_body env V g a)"
      proof (rule tx_invI)
        fix env1 s out s'
        assume run: "tx_ok env1 (patch_gate_body env V g a) s out s'" and s: "gates_valid V s"
        obtain r params where r: "map_of (gb_rows s) g = Some r"
          "if gp_gates a = None \<and> gp_dates a = None then params = None else (\<exists>m. merged_params env V a r = Inr m \<and> params = Some m)"
          "gate_violation (apply_patch a params r) = None" "s' = s\<lparr>gb_rows := put_assoc g (apply_patch a params r) (gb_rows s)\<rparr>"
          using run by (rule patch_body_ok)
        have "row_valid V r" using s map_of_SomeD [OF r(1)] by (auto simp: gates_valid_def)
        moreover have "params = None \<or> (\<exists>m. merged_params env V a r = Inr m \<and> params = Some m)" using r(2) by (auto split: if_splits)
        ultimately have "row_valid V (apply_patch a params r)" by (intro patch_row_valid [OF a _ r(3)])
        then show "gates_valid V s'" unfolding r(4) by (rule put_keeps_gates [OF s r(1)])
      qed
      from strict_write_snd [OF this inv] show ?thesis
        unfolding Pair PatchGates gate_step.simps patch_gate_safety_def Inr sum.case by (simp add: raising_snd)
    qed (use inv in \<open>simp add: Pair PatchGates patch_gate_safety_def\<close>)
  qed
qed

interpretation gate_calls: kept_invariant "gate_step V" "gates_valid V" for V
  by unfold_locales (rule gate_step_keeps)

text \<open>
  C33. Over any sequence of creates, updates and patches, whatever statement the database refuses, every
  stored gate set has parameters the validator accepted, a clean name and dimension codes of the catalog.
\<close>

theorem gate_sets_stay_valid:
  assumes "gates_valid V db"
  shows "gates_valid V (fold (gate_step V) calls db)"
  using assms by (rule gate_calls.fold_keeps)

theorem gate_sets_stay_valid_witness:
  "gates_valid keeping_validator (fold (gate_step keeping_validator)
     [(calm_env 0, PatchGates ConnLive 1 (PDict sample_gate_patch)), (calm_env 0, UpdateGates None 1 [])] sample_gate_db)"
  by (rule gate_sets_stay_valid) (rule sample_gates_valid)

end
