(* ===== verification/Gate_Daemon.thy ===== *)
theory Gate_Daemon
  imports Gate_Claims
begin

text \<open>
  A gate set between its editor and the daemon: an object of the model's shape, that saving a set as it
  was read changes nothing, and that the daemon's sections are the set's values.
\<close>

section \<open>The shape of a dumped model\<close>

text \<open>The keys of the model in its order, and at every leaf a value of the field's type.\<close>

fun same_kind :: "pyval \<Rightarrow> pyval \<Rightarrow> bool" where
  "same_kind (PInt _) (PInt _) = True"
| "same_kind (PFloat _) (PFloat _) = True"
| "same_kind (PBool _) (PBool _) = True"
| "same_kind (PList xs) (PList _) = list_all (\<lambda>v. case v of PStr _ \<Rightarrow> True | _ \<Rightarrow> False) xs"
| "same_kind (PDict d) (PDict e) = (map fst d = map fst e \<and> list_all2 (\<lambda>x y. same_kind (snd x) (snd y)) d e)"
| "same_kind _ _ = False"

definition shaped :: "pydict \<Rightarrow> bool" where
  "shaped d \<longleftrightarrow> same_kind (PDict d) (PDict gate_defaults)"

lemma texts_only: "list_all (\<lambda>v. case v of PStr _ \<Rightarrow> True | _ \<Rightarrow> False) xs \<longleftrightarrow> (\<exists>ys. xs = map PStr ys)"
proof
  assume "list_all (\<lambda>v. case v of PStr _ \<Rightarrow> True | _ \<Rightarrow> False) xs"
  then show "\<exists>ys. xs = map PStr ys"
  proof (induction xs)
    case (Cons v xs)
    then obtain ys where "xs = map PStr ys" by auto
    with Cons.prems show ?case by (cases v) (auto intro: exI [of _ "_ # ys"])
  qed simp
qed (auto simp: list_all_iff)

text \<open>The same, as a list of the leaves.\<close>

definition gates_of ::
  "int \<Rightarrow> int \<Rightarrow> pyfloat \<Rightarrow> int \<Rightarrow> int \<Rightarrow> string list \<Rightarrow> bool \<Rightarrow> int list \<Rightarrow> pyfloat list \<Rightarrow> bool \<Rightarrow> pydict" where
  "gates_of dte1 dte2 band before after dates hours is xs paper =
     [(''strategy'', PDict [(''structure'', PDict [(''min_dte'', PInt dte1), (''max_dte'', PInt dte2), (''atm_band_pct'', PFloat band)]),
         (''earnings'', PDict [(''blackout_days_before'', PInt before), (''blackout_days_after'', PInt after), (''dates'', PList (map PStr dates))]),
         (''trading_hours_only'', PBool hours)]),
      (''state'', PDict [(''delta'', PDict [(''epsilon_band'', PInt (is ! 0)), (''threshold_hedge_shares'', PInt (is ! 1)), (''max_delta_limit'', PInt (is ! 2))]),
         (''market'', PDict [(''vol_window_min'', PInt (is ! 3)), (''stale_ts_threshold_ms'', PInt (is ! 4))]),
         (''liquidity'', PDict [(''wide_spread_pct'', PFloat (xs ! 0)), (''extreme_spread_pct'', PFloat (xs ! 1))]),
         (''system'', PDict [(''data_lag_threshold_ms'', PInt (is ! 5))])]),
      (''intent'', PDict [(''hedge'', PDict [(''min_hedge_shares'', PInt (is ! 6)), (''cooldown_seconds'', PInt (is ! 7)),
         (''max_hedge_shares_per_order'', PInt (is ! 8)), (''min_price_move_pct'', PFloat (xs ! 2))])]),
      (''guard'', PDict [(''risk'', PDict [(''max_daily_hedge_count'', PInt (is ! 9)), (''max_position_shares'', PInt (is ! 10)),
         (''max_daily_loss_usd'', PFloat (xs ! 3)), (''max_net_delta_shares'', PInt (is ! 11)), (''max_spread_pct'', PFloat (xs ! 4)),
         (''paper_trade'', PBool paper)])])]"

definition dict_kind :: "pydict \<Rightarrow> pydict \<Rightarrow> bool" where
  "dict_kind d e \<longleftrightarrow> same_kind (PDict d) (PDict e)"

lemma dict_kind_Cons: "dict_kind d ((k, w) # ds) \<longleftrightarrow> (\<exists>x r. d = (k, x) # r \<and> same_kind x w \<and> dict_kind r ds)"
  by (cases d) (auto simp: dict_kind_def)

lemma dict_kind_Nil: "dict_kind d [] \<longleftrightarrow> d = []"
  by (cases d) (auto simp: dict_kind_def)

lemma same_kind_iff:
  "same_kind v (PInt i) \<longleftrightarrow> (\<exists>j. v = PInt j)" "same_kind v (PFloat x) \<longleftrightarrow> (\<exists>y. v = PFloat y)"
  "same_kind v (PBool b) \<longleftrightarrow> (\<exists>c. v = PBool c)" "same_kind v (PList []) \<longleftrightarrow> (\<exists>ys. v = PList (map PStr ys))"
  "same_kind v (PDict d) \<longleftrightarrow> (\<exists>e. v = PDict e \<and> dict_kind e d)"
  by (cases v; simp add: texts_only dict_kind_def)+

lemmas kind_simps = dict_kind_Cons dict_kind_Nil same_kind_iff

lemma shaped_gates:
  assumes "shaped d"
  obtains dte1 dte2 band before after dates hours "is" xs paper
  where "d = gates_of dte1 dte2 band before after dates hours is xs paper"
proof -
  have "dict_kind d gate_defaults" using assms by (simp add: shaped_def dict_kind_def)
  then obtain st state intent g where d: "d = [(''strategy'', PDict st), (''state'', PDict state), (''intent'', PDict intent), (''guard'', PDict g)]"
    and st: "dict_kind st GateStrategyParams" and state: "dict_kind state GateStateParams"
    and i: "dict_kind intent GateIntentParams" and g: "dict_kind g GateGuardParams"
    unfolding gate_defaults_def dict_kind_Cons dict_kind_Nil same_kind_iff(5) by blast
  from st obtain a1 a2 a3 b1 b2 ds h where st': "st = [(''structure'', PDict [(''min_dte'', PInt a1), (''max_dte'', PInt a2), (''atm_band_pct'', PFloat a3)]),
      (''earnings'', PDict [(''blackout_days_before'', PInt b1), (''blackout_days_after'', PInt b2), (''dates'', PList (map PStr ds))]),
      (''trading_hours_only'', PBool h)]"
    unfolding GateStrategyParams_def GateStructureParams_def GateEarningsParams_def
    by (auto simp only: kind_simps)
  from state obtain i0 i1 i2 i3 i4 x0 x1 i5 where state': "state = [(''delta'', PDict [(''epsilon_band'', PInt i0), (''threshold_hedge_shares'', PInt i1), (''max_delta_limit'', PInt i2)]),
      (''market'', PDict [(''vol_window_min'', PInt i3), (''stale_ts_threshold_ms'', PInt i4)]),
      (''liquidity'', PDict [(''wide_spread_pct'', PFloat x0), (''extreme_spread_pct'', PFloat x1)]),
      (''system'', PDict [(''data_lag_threshold_ms'', PInt i5)])]"
    unfolding GateStateParams_def GateDeltaParams_def GateMarketParams_def GateLiquidityParams_def GateSystemParams_def
    by (auto simp only: kind_simps)
  from i obtain i6 i7 i8 x2 where i': "intent = [(''hedge'', PDict [(''min_hedge_shares'', PInt i6), (''cooldown_seconds'', PInt i7),
      (''max_hedge_shares_per_order'', PInt i8), (''min_price_move_pct'', PFloat x2)])]"
    unfolding GateIntentParams_def GateHedgeParams_def by (auto simp only: kind_simps)
  from g obtain i9 i10 x3 i11 x4 p where g': "g = [(''risk'', PDict [(''max_daily_hedge_count'', PInt i9), (''max_position_shares'', PInt i10),
      (''max_daily_loss_usd'', PFloat x3), (''max_net_delta_shares'', PInt i11), (''max_spread_pct'', PFloat x4), (''paper_trade'', PBool p)])]"
    unfolding GateGuardParams_def GateRiskParams_def by (auto simp only: kind_simps)
  show thesis
    by (rule that [of a1 a2 a3 b1 b2 ds h "[i0, i1, i2, i3, i4, i5, i6, i7, i8, i9, i10, i11]" "[x0, x1, x2, x3, x4]" p])
      (simp add: d st' state' i' g' gates_of_def numeral_eq_Suc)
qed

section \<open>Saving what was read\<close>

lemma dset_Nil [simp]: "dset k v [] = [(k, v)]"
  by (simp add: dset_def)

lemma dset_entry: "dset k v ((j, w) # d) = (if k = j then (j, v) # d else (j, w) # dset k v d)"
  by (auto simp: dset_def)

definition clean_date :: "string \<Rightarrow> bool" where
  "clean_date d \<longleftrightarrow> d \<noteq> [] \<and> take 10 (strip d) = d"

definition without_dates :: "pydict \<Rightarrow> pydict" where
  "without_dates y = (case split_earnings_dates y of Inl _ \<Rightarrow> [] | Inr (g, _) \<Rightarrow> g)"

definition dates_of :: "pydict \<Rightarrow> string list" where
  "dates_of y = (case at_path (PDict y) DATES_PATH of Some (PList ds) \<Rightarrow> map py_str ds | _ \<Rightarrow> [])"

lemma dates_of_gates [simp]: "dates_of (gates_of a b c d e ds h is xs p) = ds"
  by (simp add: dates_of_def gates_of_def DATES_PATH_def comp_def)

lemma filter_texts: "(\<And>d. d \<in> set ds \<Longrightarrow> d \<noteq> []) \<Longrightarrow> filter truthy (map PStr ds) = map PStr ds"
  by (induction ds) auto

lemma split_gates:
  assumes "\<And>d. d \<in> set ds \<Longrightarrow> d \<noteq> []"
  shows "split_earnings_dates (gates_of a b c d e ds h is xs p) = Inr (without_dates (gates_of a b c d e ds h is xs p), ds)"
proof (cases ds)
  case Nil
  then show ?thesis
    by (simp add: without_dates_def split_earnings_dates_def gates_of_def get_in_def dpop_def dset_entry)
next
  case (Cons d0 ds0)
  then show ?thesis using filter_texts [OF assms, of ds]
    by (simp add: without_dates_def split_earnings_dates_def gates_of_def get_in_def dpop_def dset_entry iter_items_def comp_def)
qed

lemma payload_of_gates:
  assumes ds: "\<And>d. d \<in> set ds \<Longrightarrow> clean_date d"
    and g: "dget out ''gates'' = PDict (without_dates (gates_of a b c d e ds h is xs p))"
    and e: "dget out ''earnings_dates'' = PList (map PStr ds)"
  shows "payload_gates out = Inr (gates_of a b c d e ds h is xs p)"
proof -
  have ne: "\<And>d. d \<in> set ds \<Longrightarrow> d \<noteq> []" using ds by (auto simp: clean_date_def)
  have "map (\<lambda>d. PStr (date_text d)) (filter truthy (map PStr ds)) = map PStr ds"
    unfolding filter_texts [OF ne] using ds by (auto simp: date_text_def clean_date_def)
  moreover have w: "without_dates (gates_of a b c d e ds h is xs p) =
      dset ''strategy'' (PDict [(''structure'', PDict [(''min_dte'', PInt a), (''max_dte'', PInt b), (''atm_band_pct'', PFloat c)]),
         (''earnings'', PDict [(''blackout_days_before'', PInt d), (''blackout_days_after'', PInt e)]),
         (''trading_hours_only'', PBool h)]) (gates_of a b c d e ds h is xs p)"
    using split_gates [OF ne, of ds a b c d e h "is" xs p]
    by (auto simp: split_earnings_dates_def gates_of_def get_in_def dpop_def dset_entry split: if_splits)
  ultimately show ?thesis using g [unfolded w] e
    by (simp add: payload_gates_def dict_or_empty_def as_dict_def gates_of_def dset_entry dpop_def)
qed

lemma catalog_codes: "t \<in> set DIM_TYPES \<Longrightarrow> c \<in> set (dim_codes t) \<Longrightarrow> strip c = c \<and> c \<noteq> [] \<and> is_valid_dim_code t c"
proof -
  have "list_all (\<lambda>t. list_all (\<lambda>c. strip c = c \<and> c \<noteq> [] \<and> is_valid_dim_code t c) (dim_codes t)) DIM_TYPES" by code_simp
  then show "t \<in> set DIM_TYPES \<Longrightarrow> c \<in> set (dim_codes t) \<Longrightarrow> ?thesis" by (auto simp: list_all_iff)
qed

lemma dim_kept:
  assumes "dim_value_ok t (dget p (''dim_'' @ t))" "t \<in> set DIM_TYPES"
  shows "dim_arg p (''dim_'' @ t) = dget p (''dim_'' @ t)"
    and "dget q (''dim_'' @ t) = dget p (''dim_'' @ t) \<Longrightarrow> dim_field_ok q t"
  using assms catalog_codes [OF assms(2)]
  by (auto simp: dim_value_ok_def dim_arg_def dim_field_ok_def Let_def split: pyval.splits)

definition stored_dims :: "gate_row \<Rightarrow> bool" where
  "stored_dims r \<longleftrightarrow> gr_dims r = map (\<lambda>k. (k, dget (gr_dims r) k)) DIM_FIELDS"

definition read_back :: "int \<Rightarrow> gate_row \<Rightarrow> pydict \<Rightarrow> string list \<Rightarrow> pydict" where
  "read_back g r gates dates =
     [(''gate_safety_strategy_id'', PInt g), (''name'', PStr (gr_name r)), (''version'', PInt (gr_version r)), (''structure_type'', PNone)]
     @ map (\<lambda>k. (k, dget (gr_dims r) k)) DIM_FIELDS
     @ [(''is_active'', PBool (gr_active r)), (''gates'', PDict gates), (''earnings_dates'', PList (map PStr dates))]"

lemma dim_fields: "DIM_FIELDS = [''dim_direction'', ''dim_structure'', ''dim_coverage'', ''dim_risk'', ''dim_volatility'', ''dim_time'']"
  by (simp add: DIM_FIELDS_def DIM_TYPES_def)

lemma read_back_fields:
  "dget (read_back g r gs ds) ''gates'' = PDict gs" "dget (read_back g r gs ds) ''earnings_dates'' = PList (map PStr ds)"
  "dget (read_back g r gs ds) ''name'' = PStr (gr_name r)" "dget (read_back g r gs ds) ''version'' = PInt (gr_version r)"
  "dget (read_back g r gs ds) ''is_active'' = PBool (gr_active r)"
  by (simp_all add: read_back_def dim_fields)

lemma read_back_dim: "k \<in> set DIM_FIELDS \<Longrightarrow> dget (read_back g r gs ds) k = dget (gr_dims r) k"
  unfolding dim_fields set_simps insert_iff empty_iff
  by (elim disjE) (simp_all add: read_back_def dim_fields)

lemma payload_row_read_back:
  assumes y: "gr_params r = PDict y" "shaped y" "V y = Inr y" and dates: "\<And>d. d \<in> set (dates_of y) \<Longrightarrow> clean_date d"
    and r: "row_valid V r" "stored_dims r"
  shows "full_of_row env V g r = Inr (read_back g r (without_dates y) (dates_of y))"
    and "payload_row V (read_back g r (without_dates y) (dates_of y)) = Inr r"
proof -
  from y(2) obtain a b c d e ds h "is" xs p where Y: "y = gates_of a b c d e ds h is xs p" by (rule shaped_gates)
  have ds: "\<And>x. x \<in> set ds \<Longrightarrow> clean_date x" using dates Y by simp
  then have ne: "\<And>x. x \<in> set ds \<Longrightarrow> x \<noteq> []" by (auto simp: clean_date_def)
  let ?out = "read_back g r (without_dates y) (dates_of y)"
  show "full_of_row env V g r = Inr ?out"
    using y split_gates [OF ne] by (simp add: full_of_row_def row_to_gates_def parse_params_json_def Y read_back_def)
  have gates: "payload_gates ?out = Inr y"
    using payload_of_gates [OF ds, of ds ?out] by (simp add: Y read_back_fields)
  have viol: "t \<in> set DIM_TYPES \<Longrightarrow> dim_value_ok t (dget (gr_dims r) (''dim_'' @ t))" for t
    using r(1) by (auto simp: row_valid_def gate_violation_def list_all_iff split: if_splits)
  have dims: "map (\<lambda>k. (k, dim_arg ?out k)) DIM_FIELDS = gr_dims r"
  proof -
    have "dim_arg ?out k = dget (gr_dims r) k" if k: "k \<in> set DIM_FIELDS" for k
    proof -
      from k obtain t where t: "t \<in> set DIM_TYPES" "k = ''dim_'' @ t" by (auto simp: DIM_FIELDS_def)
      with dim_kept(1) [of t ?out] viol [OF t(1)] read_back_dim [OF k] show ?thesis by simp
    qed
    then have "map (\<lambda>k. (k, dim_arg ?out k)) DIM_FIELDS = map (\<lambda>k. (k, dget (gr_dims r) k)) DIM_FIELDS" by (intro map_cong) auto
    with r(2) show ?thesis by (simp add: stored_dims_def)
  qed
  have valid: "validate_dim_fields (gr_dims r) = Inr ()"
    using viol dim_kept(2) [of _ "gr_dims r" "gr_dims r"] by (auto simp: validate_dim_fields_def list_all_iff)
  have name: "gr_name r \<noteq> []" "strip (gr_name r) = gr_name r" using r(1) by (auto simp: row_valid_def)
  show "payload_row V ?out = Inr r"
    unfolding payload_row_def Let_def dims gates read_back_fields
    using y(3) name y(1) by (simp add: valid int_or_def)
qed

lemma put_same: "map_of xs k = Some v \<Longrightarrow> distinct (map fst xs) \<Longrightarrow> put_assoc k v xs = xs"
proof (induction xs)
  case (Cons x xs)
  obtain j w where x: "x = (j, w)" by (cases x)
  show ?case
  proof (cases "j = k")
    case True
    with Cons.prems x have "w = v" "put_assoc k v xs = xs"
      by (force simp: put_assoc_def intro!: map_idI)+
    with True x show ?thesis by (simp add: put_assoc_def)
  next
    case False
    with Cons x show ?thesis by (simp add: put_assoc_def)
  qed
qed (simp add: put_assoc_def)

text \<open>
  C25. Saving a gate set as it was read changes nothing: the object the editor gets for a valid set is
  accepted by the writer as the very row it was read from, so the update leaves the table as it is,
  whichever statement the database refuses.
\<close>

theorem saving_what_was_read_changes_nothing:
  assumes "gates_valid V db" and "map_of (gb_rows db) g = Some r" and "stored_dims r"
    and "gr_params r = PDict y" and "shaped y" and "V y = Inr y" and "\<And>d. d \<in> set (dates_of y) \<Longrightarrow> clean_date d"
  shows "\<exists>out. full_of_row env V g r = Inr out \<and> payload_row V out = Inr r
     \<and> snd (update_gate_safety env V cfg g out db) = db"
proof -
  have r: "row_valid V r" and dist: "distinct (map fst (gb_rows db))"
    using assms(1) map_of_SomeD [OF assms(2)] by (auto simp: gates_valid_def)
  let ?out = "read_back g r (without_dates y) (dates_of y)"
  note rb = payload_row_read_back [OF assms(4-7) r assms(3)]
  have "update_gate g (\<lambda>_. r) = stmt (\<lambda>db. case map_of (gb_rows db) g of
       None \<Rightarrow> Inr (0, db) | Some q \<Rightarrow> checked (gate_violation r) (1, db\<lparr>gb_rows := put_assoc g r (gb_rows db)\<rparr>))"
    by (simp add: update_gate_def)
  then have keeps: "tx_inv (\<lambda>s. s = db) (update_gate g (\<lambda>_. r))"
    using put_same [OF assms(2) dist] assms(2) by (auto intro!: tx_inv_stmt)
  have "tx_inv (\<lambda>s. s = db) (tx_bind (update_gate g (\<lambda>_. r)) (\<lambda>n. tx_return (n \<noteq> 0, n \<noteq> 0)))"
    by (intro tx_keeps keeps)
  from legacy_transaction_snd [OF this refl] have "snd (update_gate_safety env V cfg g ?out db) = db"
    by (simp add: update_gate_safety_def rb(2) swallowing_snd)
  with rb show ?thesis by blast
qed

lemma sample_shape: "shaped gate_defaults" "stored_dims sample_gate_row" "dates_of gate_defaults = []"
  by code_simp+

theorem saving_what_was_read_changes_nothing_witness:
  "\<exists>out. full_of_row (calm_env 0) keeping_validator 1 sample_gate_row = Inr out \<and> payload_row keeping_validator out = Inr sample_gate_row
     \<and> snd (update_gate_safety (calm_env 0) keeping_validator (Some [(''sink'', PStr ''postgres'')]) 1 out sample_gate_db) = sample_gate_db"
  by (rule saving_what_was_read_changes_nothing [OF sample_gates_valid sample_gate_stored(1) sample_shape(2) sample_gate_stored(2)
        sample_shape(1) sample_gates_accepted]) (simp add: sample_shape(3))

section \<open>What the daemon reads\<close>

text \<open>The keys of the flat configuration and the leaves they come from.\<close>

definition HEDGE_SOURCES :: "(string \<times> string list) list" where
  "HEDGE_SOURCES =
     [(''threshold_hedge_shares'', [''state'', ''delta'', ''threshold_hedge_shares'']),
      (''min_hedge_shares'', [''intent'', ''hedge'', ''min_hedge_shares'']),
      (''cooldown_sec'', [''intent'', ''hedge'', ''cooldown_seconds'']),
      (''max_hedge_shares_per_order'', [''intent'', ''hedge'', ''max_hedge_shares_per_order'']),
      (''min_price_move_pct'', [''intent'', ''hedge'', ''min_price_move_pct'']),
      (''max_daily_hedge_count'', [''guard'', ''risk'', ''max_daily_hedge_count'']),
      (''max_position_shares'', [''guard'', ''risk'', ''max_position_shares'']),
      (''max_daily_loss_usd'', [''guard'', ''risk'', ''max_daily_loss_usd'']),
      (''max_net_delta_shares'', [''guard'', ''risk'', ''max_net_delta_shares'']),
      (''max_spread_pct'', [''guard'', ''risk'', ''max_spread_pct'']),
      (''trading_hours_only'', [''strategy'', ''trading_hours_only'']),
      (''blackout_days_before'', [''strategy'', ''earnings'', ''blackout_days_before'']),
      (''blackout_days_after'', [''strategy'', ''earnings'', ''blackout_days_after''])]"

lemmas default_defs = gate_defaults_def GateStrategyParams_def GateStructureParams_def GateEarningsParams_def GateStateParams_def
  GateDeltaParams_def GateMarketParams_def GateLiquidityParams_def GateSystemParams_def GateIntentParams_def GateHedgeParams_def
  GateGuardParams_def GateRiskParams_def

lemma merge_shaped: "deep_merge gate_defaults (gates_of a b c d e ds h is xs p) = gates_of a b c d e ds h is xs p"
  by (simp add: gates_of_def default_defs dset_entry)

lemma merged_gates:
  assumes "shaped y"
  shows "merged_config [(''gates'', PDict y)] = [(''gates'', PDict y)]"
proof -
  from assms obtain a b c d e ds h "is" xs p where Y: "y = gates_of a b c d e ds h is xs p" by (rule shaped_gates)
  show ?thesis using merge_shaped by (simp add: merged_config_def config_defaults_def dset_entry Y)
qed

text \<open>
  C27. A gate set reaches the daemon as it is stored: the gates read for it, put under \<open>gates\<close> of an
  otherwise empty configuration, give a flat configuration whose every limit is the stored leaf, and whose
  earnings dates are the stored ones.
\<close>

theorem the_daemon_reads_the_gate_set:
  assumes "map_of (gb_rows db) g = Some r" and "gr_params r = PDict y" and "shaped y" and "V y = Inr y" and "fault env n = None"
  shows "\<exists>cfg. get_gates_by_id env V g env (db, n) = (Inr (Some y), (db, Suc n))
     \<and> get_hedge_config [(''gates'', PDict y)] = Inr cfg
     \<and> (\<forall>(k, path) \<in> set HEDGE_SOURCES. at_path (PDict y) path = Some (dget cfg k))
     \<and> dget cfg ''earnings_dates'' = PList (filter truthy (map PStr (dates_of y)))"
proof -
  from assms(3) obtain a b c d e ds h "is" xs p where Y: "y = gates_of a b c d e ds h is xs p" by (rule shaped_gates)
  have read: "get_gates_by_id env V g env (db, n) = (Inr (Some y), (db, Suc n))"
    using assms by (simp add: get_gates_by_id_def try_query_run row_to_gates_def parse_params_json_def or_none_def)
  have delta: "\<exists>v. config_section [(''gates'', PDict y)] ''delta'' = Inr v \<and> dget v ''hedge_threshold'' = PNone
      \<and> dget v ''threshold_hedge_shares'' = PInt (is ! 1)"
    by (simp add: config_section_def gates_section_def get_in_def section_gate_def Y gates_of_def)
  have hedge: "\<exists>v. config_section [(''gates'', PDict y)] ''hedge'' = Inr v \<and> dget v ''min_hedge_shares'' = PInt (is ! 6)
      \<and> dget v ''cooldown_seconds'' = PInt (is ! 7) \<and> dget v ''max_hedge_shares_per_order'' = PInt (is ! 8)
      \<and> dget v ''min_price_move_pct'' = PFloat (xs ! 2)"
    by (simp add: config_section_def gates_section_def get_in_def section_gate_def Y gates_of_def)
  have risk: "\<exists>v. config_section [(''gates'', PDict y)] ''risk'' = Inr v \<and> dget v ''max_daily_hedge_count'' = PInt (is ! 9)
      \<and> dget v ''max_position_shares'' = PInt (is ! 10) \<and> dget v ''max_daily_loss_usd'' = PFloat (xs ! 3)
      \<and> dget v ''max_net_delta_shares'' = PInt (is ! 11) \<and> dget v ''max_spread_pct'' = PFloat (xs ! 4)"
    by (simp add: config_section_def gates_section_def get_in_def section_gate_def Y gates_of_def)
  have earnings: "\<exists>v. config_section [(''gates'', PDict y)] ''earnings'' = Inr v \<and> dget v ''dates'' = PList (map PStr ds)
      \<and> dget v ''blackout_days_before'' = PInt d \<and> dget v ''blackout_days_after'' = PInt e"
    by (simp add: config_section_def gates_section_def get_in_def section_gate_def Y gates_of_def)
  have hours: "get_in (dget [(''gates'', PDict y)] ''gates'') ''strategy'' = Inr (dget y ''strategy'')"
    "get_in (dget y ''strategy'') ''trading_hours_only'' = Inr (PBool h)"
    by (simp_all add: get_in_def Y gates_of_def)
  have dates: "(if truthy (PList (map PStr ds)) then iter_items (PList (map PStr ds)) else Inr []) = Inr (map PStr ds)"
    by (simp add: iter_items_def)
  from delta hedge risk earnings obtain vd vh vr ve where
    v: "config_section [(''gates'', PDict y)] ''delta'' = Inr vd" "config_section [(''gates'', PDict y)] ''hedge'' = Inr vh"
      "config_section [(''gates'', PDict y)] ''risk'' = Inr vr" "config_section [(''gates'', PDict y)] ''earnings'' = Inr ve"
    and w: "dget vd ''hedge_threshold'' = PNone" "dget vd ''threshold_hedge_shares'' = PInt (is ! 1)"
      "dget vh ''min_hedge_shares'' = PInt (is ! 6)" "dget vh ''cooldown_seconds'' = PInt (is ! 7)"
      "dget vh ''max_hedge_shares_per_order'' = PInt (is ! 8)" "dget vh ''min_price_move_pct'' = PFloat (xs ! 2)"
      "dget vr ''max_daily_hedge_count'' = PInt (is ! 9)" "dget vr ''max_position_shares'' = PInt (is ! 10)"
      "dget vr ''max_daily_loss_usd'' = PFloat (xs ! 3)" "dget vr ''max_net_delta_shares'' = PInt (is ! 11)"
      "dget vr ''max_spread_pct'' = PFloat (xs ! 4)" "dget ve ''dates'' = PList (map PStr ds)"
      "dget ve ''blackout_days_before'' = PInt d" "dget ve ''blackout_days_after'' = PInt e" by blast
  have cfg: "\<exists>cfg. get_hedge_config [(''gates'', PDict y)] = Inr cfg \<and> dget cfg ''threshold_hedge_shares'' = PInt (is ! 1)
      \<and> dget cfg ''min_hedge_shares'' = PInt (is ! 6) \<and> dget cfg ''cooldown_sec'' = PInt (is ! 7)
      \<and> dget cfg ''max_hedge_shares_per_order'' = PInt (is ! 8) \<and> dget cfg ''min_price_move_pct'' = PFloat (xs ! 2)
      \<and> dget cfg ''max_daily_hedge_count'' = PInt (is ! 9) \<and> dget cfg ''max_position_shares'' = PInt (is ! 10)
      \<and> dget cfg ''max_daily_loss_usd'' = PFloat (xs ! 3) \<and> dget cfg ''max_net_delta_shares'' = PInt (is ! 11)
      \<and> dget cfg ''max_spread_pct'' = PFloat (xs ! 4) \<and> dget cfg ''trading_hours_only'' = PBool h
      \<and> dget cfg ''blackout_days_before'' = PInt d \<and> dget cfg ''blackout_days_after'' = PInt e
      \<and> dget cfg ''earnings_dates'' = PList (filter truthy (map PStr ds))"
    unfolding get_hedge_config_def Let_def merged_gates [OF assms(3)] v ebind.simps hours w dates
    by (simp add: cooldown_value_def py_or_def)
  then obtain cfg where cfg: "get_hedge_config [(''gates'', PDict y)] = Inr cfg"
    and keys: "dget cfg ''threshold_hedge_shares'' = PInt (is ! 1)"
      "dget cfg ''min_hedge_shares'' = PInt (is ! 6)" "dget cfg ''cooldown_sec'' = PInt (is ! 7)"
      "dget cfg ''max_hedge_shares_per_order'' = PInt (is ! 8)" "dget cfg ''min_price_move_pct'' = PFloat (xs ! 2)"
      "dget cfg ''max_daily_hedge_count'' = PInt (is ! 9)" "dget cfg ''max_position_shares'' = PInt (is ! 10)"
      "dget cfg ''max_daily_loss_usd'' = PFloat (xs ! 3)" "dget cfg ''max_net_delta_shares'' = PInt (is ! 11)"
      "dget cfg ''max_spread_pct'' = PFloat (xs ! 4)" "dget cfg ''trading_hours_only'' = PBool h"
      "dget cfg ''blackout_days_before'' = PInt d" "dget cfg ''blackout_days_after'' = PInt e"
      "dget cfg ''earnings_dates'' = PList (filter truthy (map PStr ds))" by blast
  have "\<forall>(k, path) \<in> set HEDGE_SOURCES. at_path (PDict y) path = Some (dget cfg k)"
    by (simp add: HEDGE_SOURCES_def keys) (simp add: Y gates_of_def)
  with read cfg keys(14) show ?thesis by (simp add: Y)
qed

theorem the_daemon_reads_the_gate_set_witness:
  "\<exists>cfg. get_hedge_config [(''gates'', PDict gate_defaults)] = Inr cfg \<and> dget cfg ''max_position_shares'' = PInt 2000"
proof -
  from the_daemon_reads_the_gate_set [where env = "calm_env 0" and n = 0 and V = keeping_validator,
      OF sample_gate_stored sample_shape(1) sample_gates_accepted]
  obtain cfg where cfg: "get_hedge_config [(''gates'', PDict gate_defaults)] = Inr cfg"
    "\<forall>(k, path) \<in> set HEDGE_SOURCES. at_path (PDict gate_defaults) path = Some (dget cfg k)" by auto
  have "(''max_position_shares'', [''guard'', ''risk'', ''max_position_shares'']) \<in> set HEDGE_SOURCES" by code_simp
  with cfg(2) have "at_path (PDict gate_defaults) [''guard'', ''risk'', ''max_position_shares''] = Some (dget cfg ''max_position_shares'')" by fast
  moreover have "at_path (PDict gate_defaults) [''guard'', ''risk'', ''max_position_shares''] = Some (PInt 2000)" by code_simp
  ultimately show ?thesis using cfg(1) by simp
qed

text \<open>
  A section of \<open>state_space\<close> is read only where the configuration has no top-level section of that name.
\<close>

lemma state_space_is_a_fallback:
  "config_section [(''risk'', PDict [(''max_position_shares'', PInt 1)]),
      (''state_space'', PDict [(''risk'', PDict [(''max_position_shares'', PInt 2), (''max_net_delta_shares'', PInt 3)])])] ''risk''
   = Inr [(''max_position_shares'', PInt 1)]"
  by code_simp

end
