(* ===== verification/Templates.thy ===== *)
theory Templates
  imports Gate_Params
begin

text \<open>
  Strategy templates and the structures made from them: the allowlists
  (\<open>structure_type_config_constants.py\<close>), the readers (\<open>template_config.py\<close>, the structure part of
  \<open>strategy.py\<close>), the leg schema (\<open>structure_type_schema.py\<close>) and the writers
  (\<open>template_config_write.py\<close>, \<open>strategy_structure_write.py\<close>).

  The validation of a leg is pydantic's: a parameter \<open>L\<close>, the dump of the validated model or None. A
  reader that swallows a database error leaves the transaction aborted: the next statement of the
  transaction raises, and a commit rolls back without raising.
\<close>

section \<open>Allowlists\<close>

definition PARAM_KIND_ALLOWED :: "string list" where
  "PARAM_KIND_ALLOWED = [''fixed'', ''percent'']"

definition PARAM_KIND_LABELS :: "(string \<times> string) list" where
  "PARAM_KIND_LABELS = [(''fixed'', ''Fixed (no input)''), (''percent'', ''Percent (%)'')]"

definition ALLOWED_META_KEYS_BY_TYPE :: "(string \<times> string list) list" where
  "ALLOWED_META_KEYS_BY_TYPE = [(''covered_call'', [''call_strike_rule'', ''otm_pct'', ''itm_pct''])]"

definition META_KEY_LABELS :: "(string \<times> string) list" where
  "META_KEY_LABELS = [(''call_strike_rule'', ''Call strike rule''), (''otm_pct'', ''OTM %''), (''itm_pct'', ''ITM %'')]"

definition ALLOWED_META_VALUES :: "((string \<times> string) \<times> string list) list" where
  "ALLOWED_META_VALUES = [((''covered_call'', ''call_strike_rule''), [''normal_otm'', ''atm'', ''itm'', ''deep_otm''])]"

definition META_VALUE_LABELS :: "((string \<times> string) \<times> (string \<times> string) list) list" where
  "META_VALUE_LABELS = [((''covered_call'', ''call_strike_rule''),
     [(''normal_otm'', ''Normal OTM''), (''atm'', ''ATM''), (''itm'', ''ITM''), (''deep_otm'', ''Deep OTM'')])]"

definition LEG_ROLE_ALLOWED :: "string list" where
  "LEG_ROLE_ALLOWED = [''underlying'', ''call'', ''put'']"

definition LEG_DIRECTION_ALLOWED :: "string list" where
  "LEG_DIRECTION_ALLOWED = [''long'', ''short'']"

definition LEG_OPTION_RIGHT_ALLOWED :: "string list" where
  "LEG_OPTION_RIGHT_ALLOWED = [[], ''C'', ''P'']"

definition labelled :: "(string \<times> string) list \<Rightarrow> string list \<Rightarrow> pydict list" where
  "labelled labels vs = map (\<lambda>v. [(''value'', PStr v),
     (''label'', PStr (case map_of labels v of None \<Rightarrow> v | Some l \<Rightarrow> l))]) vs"

definition found_or :: "'v \<Rightarrow> ('k \<times> 'v) list \<Rightarrow> 'k \<Rightarrow> 'v" where
  "found_or d m k = (case map_of m k of None \<Rightarrow> d | Some v \<Rightarrow> v)"

definition get_meta_key_options :: "string \<Rightarrow> string list" where
  "get_meta_key_options t = found_or [] ALLOWED_META_KEYS_BY_TYPE (strip t)"

definition get_meta_value_options :: "string \<Rightarrow> string \<Rightarrow> string list" where
  "get_meta_value_options t k = found_or [] ALLOWED_META_VALUES (strip t, strip k)"

definition get_param_kind_options_with_labels :: "pydict list" where
  "get_param_kind_options_with_labels = labelled PARAM_KIND_LABELS PARAM_KIND_ALLOWED"

definition get_meta_key_options_with_labels :: "string \<Rightarrow> pydict list" where
  "get_meta_key_options_with_labels t = labelled META_KEY_LABELS (get_meta_key_options t)"

definition get_meta_value_options_with_labels :: "string \<Rightarrow> string \<Rightarrow> pydict list" where
  "get_meta_value_options_with_labels t k =
     labelled (found_or [] META_VALUE_LABELS (strip t, strip k)) (get_meta_value_options t k)"

text \<open>The labels of the legs; the dash is its UTF-8 bytes.\<close>

definition LEG_ROLE_LABELS :: "(string \<times> string) list" where
  "LEG_ROLE_LABELS = [(''underlying'', ''Underlying (stock)''), (''call'', ''Call''), (''put'', ''Put'')]"

definition LEG_DIRECTION_LABELS :: "(string \<times> string) list" where
  "LEG_DIRECTION_LABELS = [(''long'', ''Long''), (''short'', ''Short'')]"

definition LEG_OPTION_RIGHT_LABELS :: "(string \<times> string) list" where
  "LEG_OPTION_RIGHT_LABELS = [([], [CHR 0xE2, CHR 0x80, CHR 0x94] @ '' (stock)''), (''C'', ''Call''), (''P'', ''Put'')]"

definition get_leg_role_options_with_labels :: "pydict list" where
  "get_leg_role_options_with_labels = labelled LEG_ROLE_LABELS LEG_ROLE_ALLOWED"

definition get_leg_direction_options_with_labels :: "pydict list" where
  "get_leg_direction_options_with_labels = labelled LEG_DIRECTION_LABELS LEG_DIRECTION_ALLOWED"

definition get_leg_option_right_options_with_labels :: "pydict list" where
  "get_leg_option_right_options_with_labels = labelled LEG_OPTION_RIGHT_LABELS LEG_OPTION_RIGHT_ALLOWED"

text \<open>The option payloads of \<open>option_strategy_templates.py\<close>.\<close>

definition options_payload :: "pydict list \<Rightarrow> pydict" where
  "options_payload os = [(''options'', PList (map PDict os))]"

definition param_kind_options_payload :: pydict where
  "param_kind_options_payload = options_payload get_param_kind_options_with_labels"

definition leg_role_options_payload :: pydict where
  "leg_role_options_payload = options_payload get_leg_role_options_with_labels"

definition leg_direction_options_payload :: pydict where
  "leg_direction_options_payload = options_payload get_leg_direction_options_with_labels"

definition leg_option_right_options_payload :: pydict where
  "leg_option_right_options_payload = options_payload get_leg_option_right_options_with_labels"

definition meta_key_options_payload :: "string \<Rightarrow> pydict" where
  "meta_key_options_payload t = options_payload (get_meta_key_options_with_labels t)"

definition meta_value_options_payload :: "string \<Rightarrow> string \<Rightarrow> pydict" where
  "meta_value_options_payload t k = options_payload (get_meta_value_options_with_labels t k)"

section \<open>Tables\<close>

text \<open>
  \<open>tm_cols\<close> has the columns of a template other than its code and its jsonb columns; \<open>tb_active\<close> is the
  structure the settings row points at (None: there is no settings row).
\<close>

record tmpl_row =
  tm_code :: string
  tm_cols :: pydict
  tm_legs :: pyval
  tm_params :: pyval
  tm_chars :: pyval

record struct_row =
  su_name :: string
  su_template :: "int option"
  su_version :: int
  su_active :: bool
  su_notes :: "string option"
  su_legs :: pyval
  su_meta :: pyval

record tmpl_db =
  tb_templates :: "(int \<times> tmpl_row) list"
  tb_next_template :: int
  tb_structures :: "(int \<times> struct_row) list"
  tb_next_structure :: int
  tb_active :: "int option option"

definition TEMPLATE_TEXT_FIELDS :: "string list" where
  "TEMPLATE_TEXT_FIELDS = [''explanation'', ''typical_use'', ''example'', ''nature'']"

definition TEMPLATE_COLUMNS :: "string list" where
  "TEMPLATE_COLUMNS = [''display_name''] @ DIM_FIELDS @ TEMPLATE_TEXT_FIELDS @ [''sort_order'', ''is_active'']"

text \<open>What the table refuses of a row with identifier \<open>i\<close>.\<close>

definition template_violation :: "tmpl_db \<Rightarrow> int \<Rightarrow> tmpl_row \<Rightarrow> exc option" where
  "template_violation db i r =
     (if list_ex (\<lambda>(j, q). j \<noteq> i \<and> tm_code q = tm_code r) (tb_templates db)
      then Some (UniqueViolation (None, Some ''strategy_template_template_code_key''))
      else if list_ex (\<lambda>k. dget (tm_cols r) k = PNone) [''display_name'', ''sort_order'', ''is_active'']
      then Some (NotNullViolation (None, None))
      else if \<not> list_all (\<lambda>t. dim_value_ok t (dget (tm_cols r) (''dim_'' @ t))) DIM_TYPES
      then Some (DataError (None, None)) else None)"

definition structure_violation :: "tmpl_db \<Rightarrow> struct_row \<Rightarrow> exc option" where
  "structure_violation db r = (case su_template r of
       None \<Rightarrow> None
     | Some t \<Rightarrow> if t \<in> fst ` set (tb_templates db) then None
                else Some (ForeignKeyViolation (None, Some ''strategy_structure_strategy_template_id_fkey'')))"

definition insert_template_row :: "tmpl_row \<Rightarrow> (tmpl_db, int) tx" where
  "insert_template_row r = stmt (\<lambda>db. checked (template_violation db (tb_next_template db) r)
     (tb_next_template db, db\<lparr>tb_templates := tb_templates db @ [(tb_next_template db, r)], tb_next_template := tb_next_template db + 1\<rparr>))"

definition update_template_row :: "int \<Rightarrow> (tmpl_row \<Rightarrow> tmpl_row) \<Rightarrow> (tmpl_db, nat) tx" where
  "update_template_row i f = stmt (\<lambda>db. case map_of (tb_templates db) i of
       None \<Rightarrow> Inr (0, db)
     | Some r \<Rightarrow> checked (template_violation db i (f r)) (1, db\<lparr>tb_templates := put_assoc i (f r) (tb_templates db)\<rparr>))"

definition structures_of :: "int \<Rightarrow> tmpl_db \<Rightarrow> (int \<times> struct_row) list" where
  "structures_of t db = filter (\<lambda>e. su_template (snd e) = Some t) (tb_structures db)"

definition delete_template_row :: "int \<Rightarrow> (tmpl_db, nat) tx" where
  "delete_template_row t = stmt (\<lambda>db.
     if structures_of t db \<noteq> [] \<and> t \<in> fst ` set (tb_templates db)
     then Inl (ForeignKeyViolation (None, Some ''strategy_structure_strategy_template_id_fkey''))
     else Inr (if t \<in> fst ` set (tb_templates db) then 1 else 0, db\<lparr>tb_templates := filter (\<lambda>e. fst e \<noteq> t) (tb_templates db)\<rparr>))"

definition insert_structure_row :: "struct_row \<Rightarrow> (tmpl_db, int) tx" where
  "insert_structure_row r = stmt (\<lambda>db. checked (structure_violation db r)
     (tb_next_structure db, db\<lparr>tb_structures := tb_structures db @ [(tb_next_structure db, r)], tb_next_structure := tb_next_structure db + 1\<rparr>))"

definition update_structure_row :: "int \<Rightarrow> (struct_row \<Rightarrow> struct_row) \<Rightarrow> (tmpl_db, nat) tx" where
  "update_structure_row i f = stmt (\<lambda>db. case map_of (tb_structures db) i of
       None \<Rightarrow> Inr (0, db)
     | Some r \<Rightarrow> checked (structure_violation db (f r)) (1, db\<lparr>tb_structures := put_assoc i (f r) (tb_structures db)\<rparr>))"

definition aborted_error :: exc where
  "aborted_error = OtherExc ''InFailedSqlTransaction''"

section \<open>Readers\<close>

definition parse_json_field :: "env \<Rightarrow> pyval \<Rightarrow> pyval \<Rightarrow> exc + pyval" where
  "parse_json_field env raw dflt = (case raw of
       PNone \<Rightarrow> Inr dflt
     | PStr s \<Rightarrow> (case json_loads env s of None \<Rightarrow> Inl (PyErr ValueErr) | Some v \<Rightarrow> Inr v)
     | v \<Rightarrow> Inr v)"

text \<open>\<open>_legs_from_json\<close>: entries that are not objects are passed over.\<close>

definition template_leg :: "pydict \<Rightarrow> exc + pydict" where
  "template_leg leg =
     (case py_int (py_or (py_or (dget leg ''quantity_default'') (dget leg ''quantity'')) (PInt 1)) of
        Inl e \<Rightarrow> Inl (PyErr e)
      | Inr q \<Rightarrow> Inr [(''role'', dget leg ''role''), (''direction'', dget leg ''direction''), (''option_right'', dget leg ''option_right''),
          (''quantity'', PInt q), (''strike'', dget leg ''strike''), (''expiration'', py_or (dget leg ''expiration'') (PStr []))])"

definition dicts_of :: "pyval list \<Rightarrow> pydict list" where
  "dicts_of xs = concat (map (\<lambda>v. case v of PDict d \<Rightarrow> [d] | _ \<Rightarrow> []) xs)"

definition legs_from_json :: "env \<Rightarrow> pyval \<Rightarrow> exc + pydict list" where
  "legs_from_json env raw = ebind (parse_json_field env raw (PList [])) (\<lambda>legs. case legs of
       PList xs \<Rightarrow> emap template_leg (dicts_of xs) | _ \<Rightarrow> Inr [])"

definition template_row_dict :: "int \<Rightarrow> tmpl_row \<Rightarrow> pydict" where
  "template_row_dict i r = [(''strategy_template_id'', PInt i), (''template_code'', PStr (tm_code r))]
     @ map (\<lambda>k. (k, dget (tm_cols r) k)) TEMPLATE_COLUMNS"

definition get_template_row :: "int \<Rightarrow> (tmpl_db, (int \<times> tmpl_row) option) tx" where
  "get_template_row i = try_query (\<lambda>db. map_option (Pair i) (map_of (tb_templates db) i))"

definition get_template_by_code :: "string \<Rightarrow> (tmpl_db, (int \<times> tmpl_row) option) tx" where
  "get_template_by_code code = (if strip code = [] then tx_return None
     else try_query (\<lambda>db. find (\<lambda>e. tm_code (snd e) = strip code) (tb_templates db)))"

text \<open>None: the statement raised, and the transaction is aborted.\<close>

definition get_template_legs :: "env \<Rightarrow> int \<Rightarrow> (tmpl_db, pydict list option) tx" where
  "get_template_legs env i = try_query (\<lambda>db. Some (case map_of (tb_templates db) i of
       None \<Rightarrow> []
     | Some r \<Rightarrow> (case legs_from_json env (tm_legs r) of Inl _ \<Rightarrow> [] | Inr legs \<Rightarrow> legs)))"

text \<open>\<open>ORDER BY sort_order, display_name\<close>, on whole numbers and text.\<close>

definition template_order :: "int \<times> tmpl_row \<Rightarrow> int \<times> string" where
  "template_order e = (case dget (tm_cols (snd e)) ''sort_order'' of PInt n \<Rightarrow> n | _ \<Rightarrow> 0, py_str (dget (tm_cols (snd e)) ''display_name''))"

definition list_templates :: "bool \<Rightarrow> (tmpl_db, pydict list option) tx" where
  "list_templates active_only = try_query (\<lambda>db. Some (map (\<lambda>(i, r). template_row_dict i r)
     (sort_key template_order (filter (\<lambda>e. active_only \<longrightarrow> dget (tm_cols (snd e)) ''is_active'' = PBool True) (tb_templates db)))))"

definition details_of :: "env \<Rightarrow> tmpl_row \<Rightarrow> exc + pydict list \<times> string list" where
  "details_of env r =
     ebind (parse_json_field env (tm_params r) (PList [])) (\<lambda>ps. ebind (parse_json_field env (tm_chars r) (PList [])) (\<lambda>cs.
       Inr (case ps of PList xs \<Rightarrow> dicts_of xs | _ \<Rightarrow> [],
            case cs of PList xs \<Rightarrow> map py_str (filter (\<lambda>c. c \<noteq> PNone \<and> strip (py_str c) \<noteq> []) xs) | _ \<Rightarrow> [])))"

definition detail_dict :: "int \<Rightarrow> tmpl_row \<Rightarrow> pydict list \<Rightarrow> pydict list \<times> string list \<Rightarrow> pydict" where
  "detail_dict i r legs d = template_row_dict i r @ [(''legs'', PList (map PDict legs)),
     (''meta_params'', PList (map PDict (fst d))), (''characteristics'', PList (map PStr (snd d)))]"

text \<open>
  \<open>get_template_detail\<close>: three statements. When the second or third raises, its fields are empty and
  the transaction is aborted, which the flag says.
\<close>

definition get_template_detail :: "env \<Rightarrow> int \<Rightarrow> (tmpl_db, (pydict \<times> bool) option) tx" where
  "get_template_detail env i =
     tx_bind (get_template_row i) (\<lambda>row. case row of
       None \<Rightarrow> tx_return None
     | Some (_, r) \<Rightarrow> tx_bind (get_template_legs env i) (\<lambda>legs. case legs of
           None \<Rightarrow> tx_return (Some (detail_dict i r [] ([], []), True))
         | Some ls \<Rightarrow> tx_bind (try_query (\<lambda>db. Some (case map_of (tb_templates db) i of
                 None \<Rightarrow> ([], []) | Some q \<Rightarrow> (case details_of env q of Inl _ \<Rightarrow> ([], []) | Inr d \<Rightarrow> d)))) (\<lambda>d. case d of
               None \<Rightarrow> tx_return (Some (detail_dict i r ls ([], []), True))
             | Some x \<Rightarrow> tx_return (Some (detail_dict i r ls x, False)))))"

definition structure_leg_out :: "pydict \<Rightarrow> pydict" where
  "structure_leg_out leg = map (\<lambda>k. (k, dget leg k)) [''role'', ''direction'', ''option_right'', ''quantity'', ''strike'', ''expiration'']"

definition structure_legs_from_row :: "env \<Rightarrow> pyval \<Rightarrow> exc + pydict list" where
  "structure_legs_from_row env raw = ebind (parse_json_field env raw (PList [])) (\<lambda>legs. Inr (case legs of
       PList xs \<Rightarrow> map structure_leg_out (dicts_of xs) | _ \<Rightarrow> []))"

definition structure_dict :: "tmpl_db \<Rightarrow> int \<Rightarrow> struct_row \<Rightarrow> pydict" where
  "structure_dict db i r =
     (let t = Option.bind (su_template r) (map_of (tb_templates db)); code = (case t of None \<Rightarrow> PNone | Some q \<Rightarrow> PStr (tm_code q))
      in [(''strategy_structure_id'', PInt i), (''name'', PStr (su_name r)), (''structure_type'', code),
          (''strategy_template_id'', case su_template r of None \<Rightarrow> PNone | Some j \<Rightarrow> PInt j)]
         @ map (\<lambda>k. (k, case t of None \<Rightarrow> PNone | Some q \<Rightarrow> dget (tm_cols q) k)) DIM_FIELDS
         @ [(''template_code'', code), (''template_display_name'', case t of None \<Rightarrow> PNone | Some q \<Rightarrow> dget (tm_cols q) ''display_name''),
            (''version'', PInt (su_version r)), (''is_active'', PBool (su_active r)), (''notes'', of_opt (su_notes r))])"

definition structure_out :: "env \<Rightarrow> tmpl_db \<Rightarrow> int \<Rightarrow> struct_row \<Rightarrow> exc + pydict" where
  "structure_out env db i r =
     ebind (structure_legs_from_row env (su_legs r)) (\<lambda>legs. ebind (parse_json_field env (su_meta r) (PDict [])) (\<lambda>meta.
       Inr (structure_dict db i r @ [(''legs'', PList (map PDict legs)),
         (''metadata'', PDict (case meta of PDict d \<Rightarrow> filter (\<lambda>e. fst e \<noteq> []) d | _ \<Rightarrow> []))])))"

definition get_structure_by_id :: "env \<Rightarrow> int \<Rightarrow> (tmpl_db, pydict option) tx" where
  "get_structure_by_id env i = try_query (\<lambda>db. Option.bind (map_of (tb_structures db) i) (\<lambda>r. or_none (structure_out env db i r)))"

text \<open>The list raises what the statement or a row raises (as \<open>ReadFailed\<close>).\<close>

definition list_structures :: "env \<Rightarrow> bool \<Rightarrow> (tmpl_db, pydict list) tx" where
  "list_structures env active_only = stmt (\<lambda>db.
     ebind (emap (\<lambda>(i, r). ebind (structure_legs_from_row env (su_legs r)) (\<lambda>legs.
              Inr (structure_dict db i r @ [(''legs'', PList (map PDict legs))])))
            (sort_key (\<lambda>e. su_name (snd e)) (filter (\<lambda>e. active_only \<longrightarrow> su_active (snd e)) (tb_structures db))))
       (\<lambda>xs. Inr (xs, db)))"

end
