(* ===== verification/Template_Writers.thy ===== *)
theory Template_Writers
  imports Templates
begin

text \<open>
  The writers of templates and structures (\<open>template_config_write.py\<close>, \<open>strategy_structure_write.py\<close>) and the
  check of a structure's legs against its template's (\<open>structure_type_schema.py\<close>).
\<close>

section \<open>Templates\<close>

definition snake_case :: "string \<Rightarrow> bool" where
  "snake_case s \<longleftrightarrow> (case s of [] \<Rightarrow> False
     | c # r \<Rightarrow> c \<in> set lower_letters \<and> list_all (\<lambda>x. x \<in> set lower_letters \<or> is_digit x \<or> x = CHR ''_'') r)"

definition value_error :: "exc + 'a" where
  "value_error = Inl (PyErr ValueErr)"

text \<open>\<open>(payload.get(k) or "").strip() or None\<close>\<close>

definition text_or_none_arg :: "pydict \<Rightarrow> string \<Rightarrow> exc + string \<times> pyval" where
  "text_or_none_arg p k = ebind (strip_or [] (dget p k)) (\<lambda>s. Inr (k, if s = [] then PNone else PStr s))"

definition coerced :: "env \<Rightarrow> pydict \<Rightarrow> exc + pydict" where
  "coerced env cols = emap (\<lambda>(k, v). ebind (coerce env k v) (\<lambda>w. Inr (k, w))) cols"

definition create_template_columns :: "pydict \<Rightarrow> string \<Rightarrow> exc + pydict" where
  "create_template_columns p dn =
     ebind (emap (text_or_none_arg p) TEMPLATE_TEXT_FIELDS) (\<lambda>texts. ebind (int_or 0 (dget p ''sort_order'')) (\<lambda>so.
       Inr ([(''display_name'', PStr dn)] @ map (\<lambda>k. (k, dget p k)) DIM_FIELDS @ texts
         @ [(''sort_order'', PInt so), (''is_active'', PBool (if dhas p ''is_active'' then truthy (dget p ''is_active'') else True))])))"

fun is_integrity :: "exc \<Rightarrow> bool" where
  "is_integrity (UniqueViolation _) = True"
| "is_integrity (ForeignKeyViolation _) = True"
| "is_integrity (NotNullViolation _) = True"
| "is_integrity (CheckViolation _) = True"
| "is_integrity _ = False"

text \<open>What an \<open>except\<close> clause that raises a ValueError of its own makes of an exception.\<close>

definition as_value_error :: "(exc \<Rightarrow> bool) \<Rightarrow> (exc + 'a) \<times> 's \<Rightarrow> (exc + 'a) \<times> 's" where
  "as_value_error caught r = (case r of (Inl e, s) \<Rightarrow> (Inl (if caught e then PyErr ValueErr else e), s) | (Inr a, s) \<Rightarrow> (Inr a, s))"

definition fresh_template :: "string \<Rightarrow> pydict \<Rightarrow> tmpl_row" where
  "fresh_template tc cols = \<lparr>tm_code = tc, tm_cols = cols, tm_legs = PList [], tm_params = PList [], tm_chars = PList []\<rparr>"

text \<open>A step that only computes: it raises or gives a value.\<close>

definition lift :: "exc + 'a \<Rightarrow> ('s, 'a) tx" where
  "lift r = (case r of Inl e \<Rightarrow> tx_raise e | Inr a \<Rightarrow> tx_return a)"

definition create_template :: "env \<Rightarrow> pydict option \<Rightarrow> pydict \<Rightarrow> tmpl_db \<Rightarrow> (exc + int) \<times> tmpl_db" where
  "create_template env cfg p db =
     (case ebind (strip_or [] (dget p ''template_code'')) (\<lambda>tc. if \<not> snake_case tc then value_error
           else ebind (strip_or [] (dget p ''display_name'')) (\<lambda>dn. Inr (tc, if dn = [] then tc else dn))) of
        Inl e \<Rightarrow> (Inl e, db)
      | Inr (tc, dn) \<Rightarrow>
          if \<not> conn_from_config env cfg then (value_error, db)
          else (case validate_dim_fields p of
              Inl e \<Rightarrow> (Inl e, db)
            | Inr _ \<Rightarrow> as_value_error is_integrity (legacy_transaction
                (tx_bind (lift (ebind (create_template_columns p dn) (coerced env))) (\<lambda>cols.
                 tx_bind (insert_template_row (fresh_template tc cols)) (\<lambda>t. tx_return (True, t)))) env db)))"

definition normalize_template_code :: "pyval \<Rightarrow> exc + string" where
  "normalize_template_code v = ebind (strip_or [] v) (\<lambda>s. Inr (map (\<lambda>c. if c = CHR '' '' then CHR ''_'' else c) (lower s)))"

definition update_column :: "pydict \<Rightarrow> string \<Rightarrow> pydict" where
  "update_column p k =
     (if \<not> dhas p k then []
      else (let v = dget p k in [(k, if k \<in> set TEMPLATE_TEXT_FIELDS \<and> v \<noteq> PNone
              then (if strip (py_str v) = [] then PNone else PStr (strip (py_str v))) else v)]))"

text \<open>The new code, when it was sent and differs, and the other columns sent.\<close>

definition update_template_args :: "env \<Rightarrow> pydict \<Rightarrow> string \<Rightarrow> exc + string option \<times> pydict" where
  "update_template_args env p current =
     ebind (if dhas p ''template_code''
            then ebind (normalize_template_code (dget p ''template_code'')) (\<lambda>tc.
              if \<not> snake_case tc then value_error else Inr (if tc \<noteq> current then Some tc else None))
            else Inr None) (\<lambda>code.
     ebind (coerced env (concat (map (update_column p) TEMPLATE_COLUMNS))) (\<lambda>cols. Inr (code, cols)))"

definition set_template :: "string option \<Rightarrow> pydict \<Rightarrow> tmpl_row \<Rightarrow> tmpl_row" where
  "set_template code cols r = r\<lparr>tm_code := or_keep code (tm_code r), tm_cols := dmerge (tm_cols r) cols\<rparr>"

definition update_template_body :: "env \<Rightarrow> int \<Rightarrow> pydict \<Rightarrow> (tmpl_db, bool \<times> bool) tx" where
  "update_template_body env i p =
     tx_bind (query (\<lambda>db. map_option tm_code (map_of (tb_templates db) i))) (\<lambda>row. case row of
       None \<Rightarrow> tx_return (False, False)
     | Some current \<Rightarrow> tx_bind (lift (update_template_args env p current)) (\<lambda>(code, cols).
         if code = None \<and> cols = [] then tx_return (False, True)
         else tx_bind (update_template_row i (set_template code cols)) (\<lambda>_. tx_return (True, True))))"

definition update_template :: "env \<Rightarrow> pydict option \<Rightarrow> int \<Rightarrow> pydict \<Rightarrow> tmpl_db \<Rightarrow> (exc + bool) \<times> tmpl_db" where
  "update_template env cfg i p db =
     (if \<not> conn_from_config env cfg then (value_error, db)
      else (case validate_dim_fields p of
          Inl e \<Rightarrow> (Inl e, db)
        | Inr _ \<Rightarrow> as_value_error (\<lambda>_. True) (legacy_transaction (update_template_body env i p) env db)))"

text \<open>\<open>delete_template\<close>: a count that raises answers 0, and leaves the transaction aborted.\<close>

definition delete_template :: "env \<Rightarrow> pydict option \<Rightarrow> int \<Rightarrow> tmpl_db \<Rightarrow> (exc + unit) \<times> tmpl_db" where
  "delete_template env cfg i db =
     (if \<not> conn_from_config env cfg then (value_error, db)
      else legacy_transaction
        (tx_bind (try_query (\<lambda>db. Some (length (structures_of i db)))) (\<lambda>n. case n of
           None \<Rightarrow> tx_raise aborted_error
         | Some k \<Rightarrow> if k > 0 then tx_raise (PyErr ValueErr)
                    else tx_bind (delete_template_row i) (\<lambda>_. tx_return (True, ())))) env db)"

definition leg_word_ok :: "string list \<Rightarrow> pyval \<Rightarrow> bool" where
  "leg_word_ok allowed v \<longleftrightarrow> v = PNone \<or> strip (py_str v) = [] \<or> strip (py_str v) \<in> set allowed"

definition validate_leg :: "pydict \<Rightarrow> exc + unit" where
  "validate_leg leg =
     (if \<not> leg_word_ok LEG_ROLE_ALLOWED (dget leg ''role'') then value_error
      else if \<not> leg_word_ok LEG_DIRECTION_ALLOWED (dget leg ''direction'') then value_error
      else if dget leg ''option_right'' \<noteq> PNone \<and> strip (py_str (dget leg ''option_right'')) \<notin> set LEG_OPTION_RIGHT_ALLOWED then value_error
      else Inr ())"

type_synonym leg_model = "pydict \<Rightarrow> pydict option"

definition new_template_leg :: "nat \<Rightarrow> pydict \<Rightarrow> exc + pydict" where
  "new_template_leg i leg =
     ebind (validate_leg leg) (\<lambda>_.
     case py_int (py_or (py_or (dget leg ''quantity_default'') (dget leg ''quantity'')) (PInt 1)) of
       Inl e \<Rightarrow> Inl (PyErr e)
     | Inr q \<Rightarrow> Inr [(''role'', dget leg ''role''), (''direction'', dget leg ''direction''), (''option_right'', dget leg ''option_right''),
         (''quantity'', PInt q), (''quantity_default'', PInt q), (''sort_order'', PInt (int i))])"

text \<open>Entries that are not objects are passed over; the others keep their position as sort order.\<close>

definition indexed_dicts :: "pyval list \<Rightarrow> (nat \<times> pydict) list" where
  "indexed_dicts xs = concat (map (\<lambda>(i, v). case v of PDict d \<Rightarrow> [(i, d)] | _ \<Rightarrow> []) (enumerate 0 xs))"

definition model_leg :: "leg_model \<Rightarrow> pydict \<Rightarrow> exc + pydict" where
  "model_leg L leg = (case L leg of None \<Rightarrow> value_error | Some d \<Rightarrow> Inr d)"

definition template_legs_arg :: "leg_model \<Rightarrow> pyval \<Rightarrow> exc + pydict list" where
  "template_legs_arg L v = (case v of
       PList xs \<Rightarrow> ebind (emap (\<lambda>(i, d). new_template_leg i d) (indexed_dicts xs)) (emap (model_leg L))
     | _ \<Rightarrow> value_error)"

definition legs_value :: "pydict list \<Rightarrow> pyval" where
  "legs_value legs = PList (map PDict legs)"

definition replace_template_legs :: "env \<Rightarrow> leg_model \<Rightarrow> pydict option \<Rightarrow> int \<Rightarrow> pyval \<Rightarrow> tmpl_db \<Rightarrow> (exc + unit) \<times> tmpl_db" where
  "replace_template_legs env L cfg i v db =
     (case template_legs_arg L v of
        Inl e \<Rightarrow> (Inl e, db)
      | Inr legs \<Rightarrow>
          if \<not> conn_from_config env cfg then (value_error, db)
          else legacy_transaction
            (tx_bind (query (\<lambda>db. i \<in> fst ` set (tb_templates db))) (\<lambda>found.
             if \<not> found then tx_raise (PyErr ValueErr)
             else tx_bind (update_template_row i (\<lambda>r. r\<lparr>tm_legs := legs_value legs\<rparr>)) (\<lambda>_. tx_return (True, ())))) env db)"

definition param_item :: "pydict \<Rightarrow> exc + pydict list" where
  "param_item it =
     ebind (strip_or [] (dget it ''meta_key'')) (\<lambda>mk.
     if mk = [] then Inr []
     else ebind (strip_or ''fixed'' (dget it ''param_kind'')) (\<lambda>pk.
       if pk \<notin> set PARAM_KIND_ALLOWED then value_error
       else ebind (strip_or [] (dget it ''display_label'')) (\<lambda>lb.
         case py_int (py_or (dget it ''sort_order'') (PInt 0)) of
           Inl e \<Rightarrow> Inl (PyErr e)
         | Inr so \<Rightarrow> Inr [[(''meta_key'', PStr mk), (''display_label'', if lb = [] then PNone else PStr lb),
             (''default_value_text'', dget it ''default_value_text''), (''param_kind'', PStr pk), (''sort_order'', PInt so)]])))"

definition param_order :: "pydict \<Rightarrow> int \<times> string" where
  "param_order p = (case dget p ''sort_order'' of PInt n \<Rightarrow> n | _ \<Rightarrow> 0, py_str (dget p ''meta_key''))"

definition params_arg :: "pyval list \<Rightarrow> exc + pydict list" where
  "params_arg xs = ebind (emap param_item (dicts_of xs)) (\<lambda>pss. Inr (sort_key param_order (concat pss)))"

definition replace_template_params :: "env \<Rightarrow> pydict option \<Rightarrow> int \<Rightarrow> pyval \<Rightarrow> tmpl_db \<Rightarrow> (exc + unit) \<times> tmpl_db" where
  "replace_template_params env cfg i v db =
     (case v of
        PList xs \<Rightarrow>
          if \<not> conn_from_config env cfg then (value_error, db)
          else legacy_transaction
            (tx_bind (lift (params_arg xs)) (\<lambda>ps.
             tx_bind (update_template_row i (\<lambda>r. r\<lparr>tm_params := legs_value ps\<rparr>)) (\<lambda>n.
             if n = 0 then tx_raise (PyErr ValueErr) else tx_return (True, ())))) env db
      | _ \<Rightarrow> (value_error, db))"

definition characteristics_arg :: "pyval list \<Rightarrow> exc + string list" where
  "characteristics_arg lines = ebind (emap (strip_or []) lines) (\<lambda>ts. Inr (filter (\<lambda>t. t \<noteq> []) ts))"

definition replace_template_characteristics :: "env \<Rightarrow> pydict option \<Rightarrow> int \<Rightarrow> pyval list \<Rightarrow> tmpl_db \<Rightarrow> (exc + unit) \<times> tmpl_db" where
  "replace_template_characteristics env cfg i lines db =
     (if \<not> conn_from_config env cfg then (value_error, db)
      else legacy_transaction
        (tx_bind (lift (characteristics_arg lines)) (\<lambda>ts.
         tx_bind (update_template_row i (\<lambda>r. r\<lparr>tm_chars := PList (map PStr ts)\<rparr>)) (\<lambda>n.
         if n = 0 then tx_raise (PyErr ValueErr) else tx_return (True, ())))) env db)"

definition TEMPLATE_PATCHABLE :: "string list" where
  "TEMPLATE_PATCHABLE = [''template_code'', ''display_name''] @ DIM_FIELDS @ TEMPLATE_TEXT_FIELDS @ [''sort_order'', ''is_active'']"

fun sent_columns :: "pydict \<Rightarrow> (string \<times> (pyval \<Rightarrow> exc + pyval)) list \<Rightarrow> exc + pydict" where
  "sent_columns fs [] = Inr []"
| "sent_columns fs ((k, f) # ks) =
     ebind (sent_field fs k f) (\<lambda>v. ebind (sent_columns fs ks) (\<lambda>cols.
       Inr ((case v of None \<Rightarrow> [] | Some x \<Rightarrow> [(k, x)]) @ cols)))"

definition patch_code :: "pyval \<Rightarrow> exc + string" where
  "patch_code v = ebind (text_value v ''template_code'' False None) (\<lambda>t.
     if \<not> snake_case (the t) then invalid ''template_code must be lowercase snake_case (a-z, 0-9, _; a letter first).''
     else Inr (the t))"

definition patch_text :: "string \<Rightarrow> bool \<Rightarrow> pyval \<Rightarrow> exc + pyval" where
  "patch_text k nullable v = ebind (text_value v k nullable None) (\<lambda>t. Inr (of_opt t))"

definition patch_template_args :: "pydict \<Rightarrow> exc + string option \<times> pydict" where
  "patch_template_args fs =
     ebind (sent_field fs ''template_code'' patch_code) (\<lambda>code.
     ebind (sent_columns fs [(''display_name'', patch_text ''display_name'' False)]) (\<lambda>name.
     ebind (patch_dims fs DIM_TYPES) (\<lambda>dims.
     ebind (sent_columns fs (map (\<lambda>k. (k, patch_text k True)) TEMPLATE_TEXT_FIELDS
        @ [(''sort_order'', \<lambda>v. ebind (integer v ''sort_order'' False None) (\<lambda>n. Inr (PInt (the n)))),
           (''is_active'', \<lambda>v. ebind (boolean v ''is_active'') (\<lambda>b. Inr (PBool b)))])) (\<lambda>rest.
       Inr (code, name @ dims @ rest)))))"

definition no_template :: "int \<Rightarrow> exc" where
  "no_template i = Write (NotFound (''No template '' @ int_str i @ ''.''))"

definition patch_template_body :: "env \<Rightarrow> int \<Rightarrow> string option \<Rightarrow> pydict \<Rightarrow> (tmpl_db, pydict \<times> bool) tx" where
  "patch_template_body env i code cols =
     tx_bind (update_template_row i (set_template code cols)) (\<lambda>n.
     if n = 0 then tx_raise (no_template i)
     else tx_bind (get_template_detail env i) (\<lambda>row. case row of
         None \<Rightarrow> tx_raise (Write (Failed (''template '' @ int_str i @ '' was changed but could not be read back; nothing was saved.'') False))
       | Some r \<Rightarrow> tx_return r))"

text \<open>The commit of an aborted transaction rolls back, and the caller is not told.\<close>

definition commit_or_rollback :: "'s \<Rightarrow> (exc + 'a \<times> bool) \<times> 's \<Rightarrow> (exc + 'a) \<times> 's" where
  "commit_or_rollback s r = (case r of
       (Inl e, s') \<Rightarrow> (Inl e, s') | (Inr (a, aborted), s') \<Rightarrow> (Inr a, if aborted then s else s'))"

definition code_in_use :: "string option \<Rightarrow> exc \<Rightarrow> exc" where
  "code_in_use code e = (case (e, code) of
       (Write w, Some c) \<Rightarrow> if is_conflict w
          then Write (Conflict (''template_code '' @ c @ '' is already used by another template.'')) else e
     | _ \<Rightarrow> e)"

definition patch_template :: "env \<Rightarrow> conn_arg \<Rightarrow> int \<Rightarrow> pyval \<Rightarrow> tmpl_db \<Rightarrow> (exc + pydict) \<times> tmpl_db" where
  "patch_template env arg i body db =
     (case ebind (check_fields body TEMPLATE_PATCHABLE ''template'') patch_template_args of
        Inl e \<Rightarrow> (Inl e, db)
      | Inr (code, cols) \<Rightarrow>
          (case commit_or_rollback db (raising (strict_write (''template '' @ int_str i) FkInvalid (patch_template_body env i code cols) env arg db)) of
             (Inl e, s) \<Rightarrow> (Inl (code_in_use code e), s) | r \<Rightarrow> r))"

definition template_users :: "int \<Rightarrow> tmpl_db \<Rightarrow> string list" where
  "template_users t db =
     map (\<lambda>e. su_name (snd e) @ (if su_active (snd e) then [] else '' (deactivated)''))
       (sort_key (\<lambda>e. (\<not> su_active (snd e), su_name (snd e))) (structures_of t db))"

definition users_refusal :: "string list \<Rightarrow> string" where
  "users_refusal names = plural (int (length names)) ''structure'' ''structures'' @ '' ''
     @ (if length names = 1 then ''uses'' else ''use'') @ '' this template: '' @ name_list names 5
     @ ''. Point '' @ (if length names = 1 then ''it'' else ''them'') @ '' at another template first.''"

definition delete_template_body :: "int \<Rightarrow> (tmpl_db, unit) tx" where
  "delete_template_body t =
     tx_bind (query (\<lambda>db. t \<in> fst ` set (tb_templates db))) (\<lambda>found.
     if \<not> found then tx_raise (no_template t)
     else tx_bind (query (template_users t)) (\<lambda>names.
       if names \<noteq> [] then tx_raise (Write (Conflict (users_refusal names)))
       else tx_bind (delete_template_row t) (\<lambda>n. if n = 0 then tx_raise (no_template t) else tx_return ())))"

definition delete_template_strict :: "env \<Rightarrow> conn_arg \<Rightarrow> int \<Rightarrow> tmpl_db \<Rightarrow> (write_error + unit) \<times> tmpl_db" where
  "delete_template_strict env arg t db = strict_write (''template '' @ int_str t) FkConflict (delete_template_body t) env arg db"

section \<open>The schema of a structure\<close>

text \<open>\<open>build_schema_from_legs\<close> keeps role, direction and right of every leg.\<close>

definition SCHEMA_FIELDS :: "string list" where
  "SCHEMA_FIELDS = [''role'', ''direction'', ''option_right'']"

definition build_schema_from_legs :: "pydict list \<Rightarrow> pydict list" where
  "build_schema_from_legs legs = map (\<lambda>leg. map (\<lambda>k. (k, dget leg k)) SCHEMA_FIELDS @ [(''locked'', PBool True)]) legs"

definition field_matches :: "pyval \<Rightarrow> pyval \<Rightarrow> bool" where
  "field_matches expected got =
     (if expected = PNone then got = PNone \<or> got = PStr []
      else upper (if got = PNone then [] else strip (py_str got)) = upper (strip (py_str expected)))"

definition leg_matches :: "pydict \<Rightarrow> pydict \<Rightarrow> bool" where
  "leg_matches e g = list_all (\<lambda>k. field_matches (dget e k) (dget g k)) SCHEMA_FIELDS"

definition validate_legs :: "pydict list \<Rightarrow> pydict list \<Rightarrow> exc + unit" where
  "validate_legs legs schema =
     (if length legs \<noteq> length schema then value_error
      else if list_all (\<lambda>(e, g). leg_matches e g) (zip schema legs) then Inr () else value_error)"

text \<open>\<open>_normalize_legs\<close>: an alias of the first leg of covered calls, \<open>option\<close> for the expected right, no right on a stock leg.\<close>

definition leg_role_aliases :: "string \<Rightarrow> nat \<Rightarrow> (string \<times> string) list" where
  "leg_role_aliases code i =
     (if startswith (lower (strip code)) ''covered_call'' \<and> i = 0
      then [(''stock'', ''underlying''), (''equity'', ''underlying'')] else [])"

definition alias_role :: "string \<Rightarrow> nat \<Rightarrow> pydict \<Rightarrow> pydict" where
  "alias_role code i leg =
     (if leg_role_aliases code i = [] \<or> dget leg ''role'' = PNone then leg
      else (case map_of (leg_role_aliases code i) (lower (strip (py_str (dget leg ''role'')))) of
              None \<Rightarrow> leg | Some r \<Rightarrow> dset ''role'' (PStr r) leg))"

definition option_role :: "pydict option \<Rightarrow> pydict \<Rightarrow> exc + pydict" where
  "option_role expected leg = (case expected of
       None \<Rightarrow> Inr leg
     | Some e \<Rightarrow>
         if dget e ''role'' = PStr ''call'' \<or> dget e ''role'' = PStr ''put''
         then ebind (strip_or [] (dget leg ''role'')) (\<lambda>got. Inr (if lower got = ''option'' then dset ''role'' (dget e ''role'') leg else leg))
         else Inr leg)"

definition stock_right :: "pydict option \<Rightarrow> pydict \<Rightarrow> pydict" where
  "stock_right expected leg = (case expected of
       Some e \<Rightarrow> if dget e ''option_right'' = PNone then dset ''option_right'' PNone leg else leg | None \<Rightarrow> leg)"

definition schema_at :: "pydict list \<Rightarrow> nat \<Rightarrow> pydict option" where
  "schema_at schema i = (if i < length schema then Some (schema ! i) else None)"

definition normalize_leg :: "string \<Rightarrow> pydict list \<Rightarrow> nat \<times> pydict \<Rightarrow> exc + pydict" where
  "normalize_leg code schema x = (case x of (i, leg) \<Rightarrow>
     ebind (option_role (schema_at schema i) (alias_role code i leg)) (\<lambda>l. Inr (stock_right (schema_at schema i) l)))"

definition normalize_legs :: "string \<Rightarrow> pydict list \<Rightarrow> pydict list \<Rightarrow> exc + pydict list" where
  "normalize_legs code legs schema = emap (normalize_leg code schema) (enumerate 0 legs)"

section \<open>Structures\<close>

definition stored_leg :: "leg_model \<Rightarrow> nat \<times> pydict \<Rightarrow> exc + pydict" where
  "stored_leg L x = (case x of (i, leg) \<Rightarrow>
     ebind (int_or 1 (dget leg ''quantity'')) (\<lambda>q. ebind (opt_float (dget leg ''strike'')) (\<lambda>k.
       (let out = [(''role'', dget leg ''role''), (''direction'', dget leg ''direction''), (''option_right'', dget leg ''option_right''),
             (''quantity'', PInt q), (''strike'', k),
             (''expiration'', if dget leg ''expiration'' = PNone then PNone else PStr (strip (py_str (dget leg ''expiration'')))),
             (''sort_order'', PInt (int i))]
        in if L out = None then value_error else Inr out))))"

definition stored_legs :: "leg_model \<Rightarrow> pydict list \<Rightarrow> exc + pydict list" where
  "stored_legs L legs = emap (stored_leg L) (enumerate 0 legs)"

fun meta_object :: "pyval list \<Rightarrow> pydict \<Rightarrow> exc + pydict" where
  "meta_object [] out = Inr out"
| "meta_object (m # ms) out = (case m of
       PDict d \<Rightarrow>
         if \<not> truthy (dget d ''meta_key'') then meta_object ms out
         else ebind (strip_or [] (dget d ''meta_key'')) (\<lambda>k.
           if k = [] then meta_object ms out else meta_object ms (dset k (dget d ''meta_value_text'') out))
     | _ \<Rightarrow> meta_object ms out)"

text \<open>\<open>_resolve_template_id\<close>: the template named by its identifier, or by its code.\<close>

definition resolve_template :: "pydict \<Rightarrow> int option \<Rightarrow> (tmpl_db, int \<times> tmpl_row) tx" where
  "resolve_template p existing =
     (let tid = dget p ''strategy_template_id'' in
      if tid \<noteq> PNone \<and> strip (py_str tid) \<noteq> []
      then tx_bind (lift (case py_int tid of Inl e \<Rightarrow> Inl (PyErr e) | Inr i \<Rightarrow> Inr i)) (\<lambda>i.
           tx_bind (get_template_row i) (\<lambda>row. case row of None \<Rightarrow> tx_raise (PyErr ValueErr) | Some r \<Rightarrow> tx_return r))
      else tx_bind (lift (strip_or [] (dget p ''structure_type''))) (\<lambda>st.
        tx_bind (case existing of
            Some sid \<Rightarrow> if st = []
              then tx_bind (try_query (\<lambda>db. Option.bind (map_of (tb_structures db) sid) su_template)) (\<lambda>t. case t of
                  None \<Rightarrow> tx_return None | Some i \<Rightarrow> get_template_row i)
              else tx_return None
          | None \<Rightarrow> tx_return None) (\<lambda>own. case own of
            Some r \<Rightarrow> tx_return r
          | None \<Rightarrow> if st = [] then tx_raise (PyErr ValueErr)
              else tx_bind (get_template_by_code (if st = ''covered_call'' then ''covered_call_otm'' else st)) (\<lambda>row.
                case row of None \<Rightarrow> tx_raise (PyErr ValueErr) | Some r \<Rightarrow> tx_return r))))"

text \<open>The legs of the template, checked against their own schema, normalised and checked again.\<close>

definition legs_for_structure :: "leg_model \<Rightarrow> string \<Rightarrow> pydict list \<Rightarrow> exc + pydict list" where
  "legs_for_structure L code legs =
     (let schema = build_schema_from_legs legs; check = (\<lambda>ls. if schema \<noteq> [] then validate_legs ls schema else Inr ())
      in ebind (check legs) (\<lambda>_. ebind (normalize_legs code legs schema) (\<lambda>ls. ebind (check ls) (\<lambda>_. Inr ls))))"

definition template_legs_or_abort :: "env \<Rightarrow> int \<Rightarrow> (tmpl_db, pydict list) tx" where
  "template_legs_or_abort env t = tx_bind (get_template_legs env t) (\<lambda>legs. case legs of
       None \<Rightarrow> tx_raise aborted_error | Some ls \<Rightarrow> tx_return ls)"

record structure_args =
  sa_name :: string
  sa_version :: int
  sa_active :: bool
  sa_notes :: "string option"
  sa_meta :: "pyval list"

definition structure_payload :: "pydict \<Rightarrow> exc + structure_args" where
  "structure_payload p =
     ebind (strip_or [] (dget p ''name'')) (\<lambda>name.
     if name = [] then value_error
     else (case dget p ''legs'' of
         PList _ \<Rightarrow>
           ebind (int_or 1 (dget p ''version'')) (\<lambda>version.
           ebind (strip_or [] (dget p ''notes'')) (\<lambda>notes.
           case dget p ''meta'' of
             PNone \<Rightarrow> Inr \<lparr>sa_name = name, sa_version = version,
                 sa_active = (if dget p ''is_active'' = PNone then True else truthy (dget p ''is_active'')),
                 sa_notes = (if notes = [] then None else Some notes), sa_meta = []\<rparr>
           | PList ms \<Rightarrow> Inr \<lparr>sa_name = name, sa_version = version,
                 sa_active = (if dget p ''is_active'' = PNone then True else truthy (dget p ''is_active'')),
                 sa_notes = (if notes = [] then None else Some notes), sa_meta = ms\<rparr>
           | _ \<Rightarrow> value_error))
       | _ \<Rightarrow> value_error))"

definition structure_row :: "structure_args \<Rightarrow> int \<Rightarrow> struct_row" where
  "structure_row a t = \<lparr>su_name = sa_name a, su_template = Some t, su_version = sa_version a, su_active = sa_active a,
     su_notes = sa_notes a, su_legs = PList [], su_meta = PDict []\<rparr>"

definition write_children :: "leg_model \<Rightarrow> int \<Rightarrow> pydict list \<Rightarrow> pyval list \<Rightarrow> (tmpl_db, unit) tx" where
  "write_children L sid legs meta =
     tx_bind (lift (stored_legs L legs)) (\<lambda>ls. tx_bind (update_structure_row sid (\<lambda>r. r\<lparr>su_legs := legs_value ls\<rparr>)) (\<lambda>_.
     tx_bind (lift (meta_object meta [])) (\<lambda>m. tx_bind (update_structure_row sid (\<lambda>r. r\<lparr>su_meta := PDict m\<rparr>)) (\<lambda>_. tx_return ()))))"

definition create_structure_body :: "env \<Rightarrow> leg_model \<Rightarrow> pydict \<Rightarrow> structure_args \<Rightarrow> (tmpl_db, bool \<times> int option) tx" where
  "create_structure_body env L p a =
     tx_bind (resolve_template p None) (\<lambda>(t, row). tx_bind (template_legs_or_abort env t) (\<lambda>legs0.
     tx_bind (lift (legs_for_structure L (tm_code row) legs0)) (\<lambda>legs. tx_bind (insert_structure_row (structure_row a t)) (\<lambda>sid.
     tx_bind (write_children L sid legs (sa_meta a)) (\<lambda>_. tx_return (True, Some sid))))))"

definition create_structure :: "env \<Rightarrow> leg_model \<Rightarrow> pydict option \<Rightarrow> pydict \<Rightarrow> tmpl_db \<Rightarrow> (exc + int option) \<times> tmpl_db" where
  "create_structure env L cfg p db =
     (case structure_payload p of
        Inl e \<Rightarrow> (Inl e, db)
      | Inr a \<Rightarrow> if \<not> conn_from_config env cfg then (Inr None, db)
          else swallowing is_value_error None (legacy_transaction (create_structure_body env L p a) env db))"

text \<open>The update does not pass the identifier it works on to the resolution of the template.\<close>

definition update_structure_body :: "env \<Rightarrow> leg_model \<Rightarrow> int \<Rightarrow> pydict \<Rightarrow> structure_args \<Rightarrow> (tmpl_db, bool \<times> bool) tx" where
  "update_structure_body env L sid p a =
     tx_bind (resolve_template p None) (\<lambda>(t, row). tx_bind (template_legs_or_abort env t) (\<lambda>legs0.
     tx_bind (lift (legs_for_structure L (tm_code row) legs0)) (\<lambda>legs.
     tx_bind (update_structure_row sid (\<lambda>r. (structure_row a t)\<lparr>su_legs := su_legs r, su_meta := su_meta r\<rparr>)) (\<lambda>n.
     if n = 0 then tx_return (False, False)
     else tx_bind (write_children L sid legs (sa_meta a)) (\<lambda>_. tx_return (True, True))))))"

definition update_structure :: "env \<Rightarrow> leg_model \<Rightarrow> pydict option \<Rightarrow> int \<Rightarrow> pydict \<Rightarrow> tmpl_db \<Rightarrow> (exc + bool) \<times> tmpl_db" where
  "update_structure env L cfg sid p db =
     (case structure_payload p of
        Inl e \<Rightarrow> (Inl e, db)
      | Inr a \<Rightarrow> if \<not> conn_from_config env cfg then (Inr False, db)
          else swallowing is_value_error False (legacy_transaction (update_structure_body env L sid p a) env db))"

definition clear_active :: "int \<Rightarrow> (tmpl_db, unit) tx" where
  "clear_active sid = update (\<lambda>db. db\<lparr>tb_active := map_option (\<lambda>x. if x = Some sid then None else x) (tb_active db)\<rparr>)"

definition deactivate_structure :: "env \<Rightarrow> pydict option \<Rightarrow> int \<Rightarrow> tmpl_db \<Rightarrow> (exc + bool) \<times> tmpl_db" where
  "deactivate_structure env cfg sid db =
     (if \<not> conn_from_config env cfg then (Inr False, db)
      else legacy_transaction
        (tx_bind (update_structure_row sid (\<lambda>r. r\<lparr>su_active := False\<rparr>)) (\<lambda>n.
         if n = 0 then tx_return (False, False) else tx_bind (clear_active sid) (\<lambda>_. tx_return (True, True)))) env db)"

definition STRUCTURE_PATCHABLE :: "string list" where
  "STRUCTURE_PATCHABLE = [''name'', ''version'', ''is_active'', ''notes'', ''meta'']"

fun patch_meta_from :: "nat \<Rightarrow> pyval list \<Rightarrow> pydict \<Rightarrow> exc + pydict" where
  "patch_meta_from i [] out = Inr out"
| "patch_meta_from i (x # xs) out =
     (let label = ''meta['' @ nat_str i @ '']'' in
      case x of
        PDict d \<Rightarrow>
          (let unknown = sort (filter (\<lambda>k. k \<notin> {''meta_key'', ''meta_value_text''}) (map fst d)); val = dget d ''meta_value_text''
           in if unknown \<noteq> [] then invalid (label @ '': unknown field '' @ join '', '' unknown @ ''.'')
              else ebind (text_value (dget d ''meta_key'') (label @ ''.meta_key'') False None) (\<lambda>k.
                if dhas out (the k) then invalid (''meta lists '' @ the k @ '' twice.'')
                else if \<not> (val = PNone \<or> (case val of PStr _ \<Rightarrow> True | _ \<Rightarrow> False))
                then invalid (label @ ''.meta_value_text must be text or null.'')
                else patch_meta_from (i + 1) xs (dset (the k) val out)))
      | _ \<Rightarrow> invalid (label @ '' must be an object with meta_key and meta_value_text.''))"

definition patch_meta :: "pyval \<Rightarrow> exc + pydict" where
  "patch_meta v = ebind (list_value v ''meta'') (\<lambda>xs. patch_meta_from 0 xs [])"

definition patch_structure_args :: "pydict \<Rightarrow> exc + (struct_row \<Rightarrow> struct_row)" where
  "patch_structure_args fs =
     ebind (sent_field fs ''name'' (\<lambda>v. text_value v ''name'' False None)) (\<lambda>name.
     ebind (sent_field fs ''version'' (\<lambda>v. integer v ''version'' False (Some 1))) (\<lambda>version.
     ebind (sent_field fs ''is_active'' (\<lambda>v. boolean v ''is_active'')) (\<lambda>active.
     ebind (sent_field fs ''notes'' (\<lambda>v. text_value v ''notes'' True None)) (\<lambda>notes.
     ebind (sent_field fs ''meta'' patch_meta) (\<lambda>meta.
       Inr (\<lambda>r. r\<lparr>su_name := (case name of None \<Rightarrow> su_name r | Some t \<Rightarrow> the t),
         su_version := (case version of None \<Rightarrow> su_version r | Some n \<Rightarrow> the n),
         su_active := or_keep active (su_active r), su_notes := or_keep notes (su_notes r),
         su_meta := (case meta of None \<Rightarrow> su_meta r | Some m \<Rightarrow> PDict m)\<rparr>))))))"

definition no_structure :: "int \<Rightarrow> exc" where
  "no_structure i = Write (NotFound (''No structure '' @ int_str i @ ''.''))"

definition patch_structure_body :: "env \<Rightarrow> int \<Rightarrow> (struct_row \<Rightarrow> struct_row) \<Rightarrow> (tmpl_db, pydict) tx" where
  "patch_structure_body env i f =
     tx_bind (update_structure_row i f) (\<lambda>n.
     if n = 0 then tx_raise (no_structure i)
     else tx_bind (get_structure_by_id env i) (\<lambda>row. case row of
         None \<Rightarrow> tx_raise (Write (Failed (''structure '' @ int_str i @ '' was changed but could not be read back; nothing was saved.'') False))
       | Some r \<Rightarrow> tx_return r))"

definition patch_structure :: "env \<Rightarrow> conn_arg \<Rightarrow> int \<Rightarrow> pyval \<Rightarrow> tmpl_db \<Rightarrow> (exc + pydict) \<times> tmpl_db" where
  "patch_structure env arg i body db =
     (case ebind (check_fields body STRUCTURE_PATCHABLE ''structure'') patch_structure_args of
        Inl e \<Rightarrow> (Inl e, db)
      | Inr f \<Rightarrow> raising (strict_write (''structure '' @ int_str i) FkInvalid (patch_structure_body env i f) env arg db))"

end
