(* ===== verification/Template_Claims.thy ===== *)
theory Template_Claims
  imports Template_Writers
begin

text \<open>
  Templates and structures as a whole: the invariant of both tables over any calls, and that a structure
  has the legs of its template.
\<close>

section \<open>The leg model\<close>

text \<open>
  What pydantic documents of \<open>AbstractLeg\<close>, for the objects the writers hand to it (whole numbers where
  the model has whole numbers): a field of literals holds one of them, a quantity is at least 1, and every
  field of the dump is the value sent.
\<close>

definition LEG_FIELDS :: "string list" where
  "LEG_FIELDS = [''role'', ''direction'', ''option_right'', ''quantity'', ''quantity_default'', ''sort_order'', ''strike'', ''expiration'']"

definition plain_leg :: "pydict \<Rightarrow> bool" where
  "plain_leg x \<longleftrightarrow> (\<exists>q. dget x ''quantity'' = PInt q) \<and> (dget x ''quantity_default'' = PNone \<or> (\<exists>q. dget x ''quantity_default'' = PInt q))
     \<and> (\<exists>i. dget x ''sort_order'' = PInt i) \<and> (dget x ''strike'' = PNone \<or> (\<exists>k. dget x ''strike'' = PFloat k))
     \<and> (dget x ''expiration'' = PNone \<or> (\<exists>t. dget x ''expiration'' = PStr t))"

definition literal_of :: "string list \<Rightarrow> pyval \<Rightarrow> bool" where
  "literal_of ws v \<longleftrightarrow> v = PNone \<or> (\<exists>w \<in> set ws. v = PStr w)"

definition abstract_leg :: "pydict \<Rightarrow> bool" where
  "abstract_leg d \<longleftrightarrow> literal_of LEG_ROLE_ALLOWED (dget d ''role'') \<and> literal_of LEG_DIRECTION_ALLOWED (dget d ''direction'')
     \<and> literal_of LEG_OPTION_RIGHT_ALLOWED (dget d ''option_right'') \<and> (\<exists>q. 1 \<le> q \<and> dget d ''quantity'' = PInt q)"

definition leg_model_laws :: "leg_model \<Rightarrow> bool" where
  "leg_model_laws L \<longleftrightarrow> (\<forall>x y. L x = Some y \<longrightarrow> plain_leg x \<longrightarrow>
     abstract_leg y \<and> (\<forall>k \<in> set LEG_FIELDS. dget y k = dget x k))"

text \<open>A leg as a template stores it: valid, its two quantities equal, no contract.\<close>

definition template_leg_ok :: "pydict \<Rightarrow> bool" where
  "template_leg_ok d \<longleftrightarrow> abstract_leg d \<and> dget d ''quantity_default'' = dget d ''quantity''
     \<and> dget d ''strike'' = PNone \<and> dget d ''expiration'' = PNone"

lemma new_leg_ok:
  assumes L: "leg_model_laws L" and n: "new_template_leg i leg = Inr x" and y: "model_leg L x = Inr y"
  shows "template_leg_ok y"
proof -
  from n obtain q where x: "x = [(''role'', dget leg ''role''), (''direction'', dget leg ''direction''), (''option_right'', dget leg ''option_right''),
      (''quantity'', PInt q), (''quantity_default'', PInt q), (''sort_order'', PInt (int i))]"
    by (auto simp: new_template_leg_def split: sum.splits)
  have Ly: "L x = Some y" using y by (auto simp: model_leg_def value_error_def split: option.splits)
  moreover have "plain_leg x" by (simp add: plain_leg_def x)
  ultimately have "abstract_leg y" "\<forall>k \<in> set LEG_FIELDS. dget y k = dget x k" using L by (auto simp: leg_model_laws_def)
  then show ?thesis by (simp add: template_leg_ok_def LEG_FIELDS_def x)
qed

lemma template_legs_ok:
  assumes L: "leg_model_laws L" and legs: "template_legs_arg L v = Inr ls" and d: "d \<in> set ls"
  shows "template_leg_ok d"
proof -
  from legs obtain xs ys where ys: "emap (\<lambda>(i, d). new_template_leg i d) (indexed_dicts xs) = Inr ys" "emap (model_leg L) ys = Inr ls"
    by (auto simp: template_legs_arg_def value_error_def split: pyval.splits)
  from ys(2) d obtain y where y: "y \<in> set ys" "model_leg L y = Inr d"
    unfolding emap_Inr_iff list_all2_conv_all_nth by (metis in_set_conv_nth)
  from ys(1) y(1) obtain e where "(case e of (i, l) \<Rightarrow> new_template_leg i l) = Inr y"
    unfolding emap_Inr_iff list_all2_conv_all_nth by (metis in_set_conv_nth)
  then show ?thesis using new_leg_ok [OF L _ y(2)] by (cases e) auto
qed

section \<open>The invariant\<close>

definition clean_text :: "string \<Rightarrow> bool" where
  "clean_text t \<longleftrightarrow> t \<noteq> [] \<and> strip t = t"

definition param_ok :: "pydict \<Rightarrow> bool" where
  "param_ok p \<longleftrightarrow> (\<exists>k. dget p ''meta_key'' = PStr k \<and> clean_text k) \<and> literal_of PARAM_KIND_ALLOWED (dget p ''param_kind'')"

definition template_ok :: "tmpl_row \<Rightarrow> bool" where
  "template_ok r \<longleftrightarrow> snake_case (tm_code r)
     \<and> list_all (\<lambda>t. dim_value_ok t (dget (tm_cols r) (''dim_'' @ t))) DIM_TYPES
     \<and> (\<exists>ls. tm_legs r = legs_value ls \<and> list_all template_leg_ok ls)
     \<and> (\<exists>ps. tm_params r = legs_value ps \<and> list_all param_ok ps \<and> sorted (map param_order ps))
     \<and> (\<exists>ts. tm_chars r = PList (map PStr ts) \<and> list_all clean_text ts)"

definition templates_ok :: "(int \<times> tmpl_row) list \<Rightarrow> int \<Rightarrow> bool" where
  "templates_ok ts n \<longleftrightarrow> distinct (map fst ts) \<and> inj_on (\<lambda>e. tm_code (snd e)) (set ts) \<and> (\<forall>(i, r) \<in> set ts. i < n \<and> template_ok r)"

definition structures_ok :: "int set \<Rightarrow> (int \<times> struct_row) list \<Rightarrow> int \<Rightarrow> bool" where
  "structures_ok ids ss n \<longleftrightarrow> distinct (map fst ss)
     \<and> (\<forall>(i, r) \<in> set ss. i < n \<and> clean_text (su_name r) \<and> (\<forall>t. su_template r = Some t \<longrightarrow> t \<in> ids))"

definition tmpl_inv :: "tmpl_db \<Rightarrow> bool" where
  "tmpl_inv db \<longleftrightarrow> templates_ok (tb_templates db) (tb_next_template db)
     \<and> structures_ok (fst ` set (tb_templates db)) (tb_structures db) (tb_next_structure db)"

lemma put_ids: "fst ` set (put_assoc k r xs) = fst ` set xs"
  by (metis list.set_map put_assoc_keys)

lemma violation_none:
  assumes "template_violation db i r = None"
  shows "\<And>j q. (j, q) \<in> set (tb_templates db) \<Longrightarrow> j \<noteq> i \<Longrightarrow> tm_code q \<noteq> tm_code r"
    and "list_all (\<lambda>t. dim_value_ok t (dget (tm_cols r) (''dim_'' @ t))) DIM_TYPES"
  using assms by (auto simp: template_violation_def list_ex_iff split: if_splits)

lemma put_template:
  assumes inv: "tmpl_inv db" and old: "map_of (tb_templates db) i = Some q" and v: "template_violation db i r = None" and ok: "template_ok r"
  shows "tmpl_inv (db\<lparr>tb_templates := put_assoc i r (tb_templates db)\<rparr>)"
proof -
  let ?xs = "tb_templates db"
  from inv have t: "templates_ok ?xs (tb_next_template db)" by (simp add: tmpl_inv_def)
  have inj: "inj_on (\<lambda>e. tm_code (snd e)) (set (put_assoc i r ?xs))"
  proof (rule inj_onI)
    fix x y assume x: "x \<in> set (put_assoc i r ?xs)" and y: "y \<in> set (put_assoc i r ?xs)" and c: "tm_code (snd x) = tm_code (snd y)"
    have split: "z \<in> set (put_assoc i r ?xs) \<Longrightarrow> z = (i, r) \<or> z \<in> set ?xs \<and> fst z \<noteq> i" for z
      by (auto simp: put_assoc_def split: if_splits)
    from split [OF x] split [OF y] show "x = y"
    proof (elim disjE conjE)
      assume "x \<in> set ?xs" "y \<in> set ?xs"
      with t c show ?thesis by (auto simp: templates_ok_def inj_on_def)
    next
      assume "x = (i, r)" "y \<in> set ?xs" "fst y \<noteq> i"
      with violation_none(1) [OF v, of "fst y" "snd y"] c show ?thesis by simp
    next
      assume "y = (i, r)" "x \<in> set ?xs" "fst x \<noteq> i"
      with violation_none(1) [OF v, of "fst x" "snd x"] c show ?thesis by simp
    qed simp
  qed
  have "(i, q) \<in> set ?xs" using old by (rule map_of_SomeD)
  then have "\<forall>(j, p) \<in> set (put_assoc i r ?xs). j < tb_next_template db \<and> template_ok p"
    using t ok by (fastforce simp: templates_ok_def dest!: in_put_assoc)
  with t inj inv show ?thesis by (simp add: tmpl_inv_def templates_ok_def put_ids)
qed

lemma update_template_keeps:
  "(\<And>q db. template_ok q \<Longrightarrow> template_violation db i (f q) = None \<Longrightarrow> template_ok (f q)) \<Longrightarrow> tx_inv tmpl_inv (update_template_row i f)"
  unfolding update_template_row_def
proof (rule tx_inv_stmt)
  fix s a s'
  assume f: "\<And>q db. template_ok q \<Longrightarrow> template_violation db i (f q) = None \<Longrightarrow> template_ok (f q)" and s: "tmpl_inv s"
    and run: "(case map_of (tb_templates s) i of None \<Rightarrow> Inr (0, s)
      | Some r \<Rightarrow> checked (template_violation s i (f r)) (1, s\<lparr>tb_templates := put_assoc i (f r) (tb_templates s)\<rparr>)) = Inr (a, s')"
  show "tmpl_inv s'"
  proof (cases "map_of (tb_templates s) i")
    case (Some q)
    then have "template_ok q" using s by (fastforce simp: tmpl_inv_def templates_ok_def dest: map_of_SomeD)
    with Some run f show ?thesis by (auto intro: put_template [OF s Some])
  qed (use run s in simp)
qed

lemma insert_template_keeps:
  "(\<And>db. template_violation db (tb_next_template db) r = None \<Longrightarrow> template_ok r) \<Longrightarrow> tx_inv tmpl_inv (insert_template_row r)"
  unfolding insert_template_row_def
proof (rule tx_inv_stmt)
  fix s a s'
  assume ok: "\<And>db. template_violation db (tb_next_template db) r = None \<Longrightarrow> template_ok r" and s: "tmpl_inv s"
    and "checked (template_violation s (tb_next_template s) r) (tb_next_template s,
      s\<lparr>tb_templates := tb_templates s @ [(tb_next_template s, r)], tb_next_template := tb_next_template s + 1\<rparr>) = Inr (a, s')"
  then have v: "template_violation s (tb_next_template s) r = None"
    and s': "s' = s\<lparr>tb_templates := tb_templates s @ [(tb_next_template s, r)], tb_next_template := tb_next_template s + 1\<rparr>" by auto
  from s have t: "templates_ok (tb_templates s) (tb_next_template s)" by (simp add: tmpl_inv_def)
  have new: "tb_next_template s \<notin> fst ` set (tb_templates s)" using t by (force simp: templates_ok_def)
  have "inj_on (\<lambda>e. tm_code (snd e)) (set (tb_templates s @ [(tb_next_template s, r)]))"
    using t violation_none(1) [OF v] new by (force simp: templates_ok_def inj_on_def)
  with t ok [OF v] new have "templates_ok (tb_templates s @ [(tb_next_template s, r)]) (tb_next_template s + 1)"
    by (force simp: templates_ok_def)
  with s show "tmpl_inv s'" unfolding s' by (fastforce simp: tmpl_inv_def structures_ok_def)
qed

lemma delete_template_keeps: "tx_inv tmpl_inv (delete_template_row t)"
  unfolding delete_template_row_def
proof (rule tx_inv_stmt)
  fix s a s'
  assume s: "tmpl_inv s" and "(if structures_of t s \<noteq> [] \<and> t \<in> fst ` set (tb_templates s)
     then Inl (ForeignKeyViolation (None, Some ''strategy_structure_strategy_template_id_fkey''))
     else Inr (if t \<in> fst ` set (tb_templates s) then 1 else 0, s\<lparr>tb_templates := filter (\<lambda>e. fst e \<noteq> t) (tb_templates s)\<rparr>)) = Inr (a, s')"
  then have free: "structures_of t s = [] \<or> t \<notin> fst ` set (tb_templates s)"
    and s': "s' = s\<lparr>tb_templates := filter (\<lambda>e. fst e \<noteq> t) (tb_templates s)\<rparr>" by (auto split: if_splits)
  have unused: "su_template r \<noteq> Some t" if "(i, r) \<in> set (tb_structures s)" for i r
    using free that s by (fastforce simp: structures_of_def filter_empty_conv tmpl_inv_def structures_ok_def)
  from s have "templates_ok (filter (\<lambda>e. fst e \<noteq> t) (tb_templates s)) (tb_next_template s)"
    by (auto simp: tmpl_inv_def templates_ok_def distinct_map_filter inj_on_def)
  moreover have "structures_ok (fst ` set (filter (\<lambda>e. fst e \<noteq> t) (tb_templates s))) (tb_structures s) (tb_next_structure s)"
    using s unused by (fastforce simp: tmpl_inv_def structures_ok_def)
  ultimately show "tmpl_inv s'" by (simp add: s' tmpl_inv_def)
qed

lemma refers_template: "structure_violation db r = None \<Longrightarrow> su_template r = Some t \<Longrightarrow> t \<in> fst ` set (tb_templates db)"
  by (auto simp: structure_violation_def split: if_splits)

lemma insert_structure_keeps: "clean_text (su_name r) \<Longrightarrow> tx_inv tmpl_inv (insert_structure_row r)"
  unfolding insert_structure_row_def
  by (rule tx_inv_stmt) (fastforce simp: tmpl_inv_def structures_ok_def dest: refers_template)

lemma update_structure_keeps:
  assumes f: "\<And>q. clean_text (su_name q) \<Longrightarrow> clean_text (su_name (f q))"
  shows "tx_inv tmpl_inv (update_structure_row i f)"
  unfolding update_structure_row_def
proof (rule tx_inv_stmt)
  fix s a s'
  assume s: "tmpl_inv s" and run: "(case map_of (tb_structures s) i of None \<Rightarrow> Inr (0, s)
      | Some r \<Rightarrow> checked (structure_violation s (f r)) (1, s\<lparr>tb_structures := put_assoc i (f r) (tb_structures s)\<rparr>)) = Inr (a, s')"
  show "tmpl_inv s'"
  proof (cases "map_of (tb_structures s) i")
    case (Some q)
    with run have v: "structure_violation s (f q) = None" and s': "s' = s\<lparr>tb_structures := put_assoc i (f q) (tb_structures s)\<rparr>" by auto
    have q: "(i, q) \<in> set (tb_structures s)" using Some by (rule map_of_SomeD)
    with s f have "clean_text (su_name (f q))" "i < tb_next_structure s" by (auto simp: tmpl_inv_def structures_ok_def)
    with s refers_template [OF v] show ?thesis unfolding s'
      by (fastforce simp: tmpl_inv_def structures_ok_def dest!: in_put_assoc)
  qed (use run s in simp)
qed

section \<open>Every writer keeps it\<close>

lemma tx_inv_lift [tx_keeps]: "tx_inv P (lift r)"
  by (cases r) (simp_all add: lift_def tx_inv_return tx_inv_raise)

text \<open>A step on the result of a computation may use that the computation gave it.\<close>

lemma tx_inv_lift_bind: "(\<And>x. r = Inr x \<Longrightarrow> tx_inv P (f x)) \<Longrightarrow> tx_inv P (tx_bind (lift r) f)"
  by (cases r) (auto simp: lift_def tx_inv_def dest!: tx_ok_bindD)

lemma as_value_error_snd: "snd (as_value_error c r) = snd r"
  by (auto simp: as_value_error_def split: prod.splits sum.splits)

lemma param_items_ok: "param_item it = Inr ps \<Longrightarrow> p \<in> set ps \<Longrightarrow> param_ok p"
proof -
  assume it: "param_item it = Inr ps" and p: "p \<in> set ps"
  from it p obtain mk pk so lb where mk: "strip_or [] (dget it ''meta_key'') = Inr mk" "mk \<noteq> []" "pk \<in> set PARAM_KIND_ALLOWED"
    and pe: "p = [(''meta_key'', PStr mk), (''display_label'', lb), (''default_value_text'', dget it ''default_value_text''),
        (''param_kind'', PStr pk), (''sort_order'', PInt so)]"
    by (auto simp: param_item_def value_error_def split: if_splits sum.splits)
  have "strip mk = mk" using mk(1) by (auto simp: strip_or_def split: if_splits pyval.splits)
  with mk pe show ?thesis by (auto simp: param_ok_def literal_of_def clean_text_def)
qed

lemma params_arg_ok: "params_arg xs = Inr ps \<Longrightarrow> list_all param_ok ps \<and> sorted (map param_order ps)"
proof -
  assume "params_arg xs = Inr ps"
  then obtain pss where pss: "emap param_item (dicts_of xs) = Inr pss" "ps = sort_key param_order (concat pss)" by (auto simp: params_arg_def)
  have "param_ok p" if "p \<in> set (concat pss)" for p
  proof -
    from that obtain qs where qs: "qs \<in> set pss" "p \<in> set qs" by auto
    with pss(1) obtain it where "param_item it = Inr qs"
      unfolding emap_Inr_iff list_all2_conv_all_nth by (metis in_set_conv_nth)
    then show ?thesis using qs(2) by (rule param_items_ok)
  qed
  then show ?thesis by (simp add: pss(2) list_all_iff)
qed

lemma strip_or_clean: "strip_or d v = Inr t \<Longrightarrow> strip t = t"
  by (auto simp: strip_or_def split: if_splits pyval.splits)

lemma characteristics_ok: "characteristics_arg lines = Inr ts \<Longrightarrow> list_all clean_text ts"
proof -
  assume "characteristics_arg lines = Inr ts"
  then obtain us where us: "emap (strip_or []) lines = Inr us" "ts = filter (\<lambda>t. t \<noteq> []) us" by (auto simp: characteristics_arg_def)
  have "strip u = u" if "u \<in> set us" for u
    using us(1) that unfolding emap_Inr_iff list_all2_conv_all_nth by (metis in_set_conv_nth strip_or_clean)
  then show ?thesis by (auto simp: us(2) list_all_iff clean_text_def)
qed

lemma set_template_ok:
  "template_ok q \<Longrightarrow> (\<And>c. code = Some c \<Longrightarrow> snake_case c) \<Longrightarrow> template_violation db i (set_template code cols q) = None \<Longrightarrow>
   template_ok (set_template code cols q)"
  using violation_none(2) [of db i "set_template code cols q"]
  by (auto simp: template_ok_def set_template_def or_keep_def split: option.splits)

lemma fresh_template_ok: "snake_case tc \<Longrightarrow> template_violation db i (fresh_template tc cols) = None \<Longrightarrow> template_ok (fresh_template tc cols)"
  using violation_none(2) [of db i "fresh_template tc cols"]
  by (auto simp: template_ok_def fresh_template_def legs_value_def)

lemma update_args_code: "update_template_args env p current = Inr (Some c, cols) \<Longrightarrow> snake_case c"
  by (auto simp: update_template_args_def value_error_def split: if_splits)

lemma patch_args_code: "patch_template_args fs = Inr (Some c, cols) \<Longrightarrow> snake_case c"
  by (auto simp: patch_template_args_def patch_code_def sent_field_def split: if_splits)

lemma resolve_keeps: "tx_inv P (resolve_template p e)"
  unfolding resolve_template_def get_template_row_def get_template_by_code_def Let_def
  by (intro tx_keeps)

lemma template_legs_keep: "tx_inv P (template_legs_or_abort env t)"
  unfolding template_legs_or_abort_def get_template_legs_def by (intro tx_keeps)

lemma structure_args_clean: "structure_payload p = Inr a \<Longrightarrow> clean_text (sa_name a)"
proof -
  assume a: "structure_payload p = Inr a"
  from a [unfolded structure_payload_def] obtain n where n: "strip_or [] (dget p ''name'') = Inr n" "n \<noteq> []"
    by (auto simp: ebind_Inr_iff value_error_def split: if_splits)
  with a have "sa_name a = n" by (cases "dget p ''legs''"; cases "dget p ''meta''"; auto simp: structure_payload_def ebind_Inr_iff value_error_def)
  with n show ?thesis by (simp add: clean_text_def strip_or_clean)
qed

lemma write_children_keeps: "tx_inv tmpl_inv (write_children L sid legs meta)"
  unfolding write_children_def by (intro tx_keeps update_structure_keeps) auto

lemma detail_keeps: "tx_inv P (get_template_detail env i)"
  unfolding get_template_detail_def get_template_row_def get_template_legs_def by (intro tx_keeps)

datatype template_op =
    CreateTemplate "pydict option" pydict
  | UpdateTemplate "pydict option" int pydict
  | DeleteTemplate "pydict option" int
  | ReplaceLegs "pydict option" int pyval
  | ReplaceParams "pydict option" int pyval
  | ReplaceCharacteristics "pydict option" int "pyval list"
  | PatchTemplate conn_arg int pyval
  | DeleteTemplateStrict conn_arg int
  | CreateStructure "pydict option" pydict
  | UpdateStructure "pydict option" int pydict
  | DeactivateStructure "pydict option" int
  | PatchStructure conn_arg int pyval

fun template_step :: "leg_model \<Rightarrow> env \<times> template_op \<Rightarrow> tmpl_db \<Rightarrow> tmpl_db" where
  "template_step L (env, CreateTemplate cfg p) db = snd (create_template env cfg p db)"
| "template_step L (env, UpdateTemplate cfg i p) db = snd (update_template env cfg i p db)"
| "template_step L (env, DeleteTemplate cfg i) db = snd (delete_template env cfg i db)"
| "template_step L (env, ReplaceLegs cfg i v) db = snd (replace_template_legs env L cfg i v db)"
| "template_step L (env, ReplaceParams cfg i v) db = snd (replace_template_params env cfg i v db)"
| "template_step L (env, ReplaceCharacteristics cfg i ls) db = snd (replace_template_characteristics env cfg i ls db)"
| "template_step L (env, PatchTemplate arg i b) db = snd (patch_template env arg i b db)"
| "template_step L (env, DeleteTemplateStrict arg i) db = snd (delete_template_strict env arg i db)"
| "template_step L (env, CreateStructure cfg p) db = snd (create_structure env L cfg p db)"
| "template_step L (env, UpdateStructure cfg i p) db = snd (update_structure env L cfg i p db)"
| "template_step L (env, DeactivateStructure cfg i) db = snd (deactivate_structure env cfg i db)"
| "template_step L (env, PatchStructure arg i b) db = snd (patch_structure env arg i b db)"

lemma create_template_keeps: "tmpl_inv db \<Longrightarrow> tmpl_inv (snd (create_template env cfg p db))"
proof -
  assume inv: "tmpl_inv db"
  show ?thesis
  proof (cases "ebind (strip_or [] (dget p ''template_code'')) (\<lambda>tc. if \<not> snake_case tc then value_error
      else ebind (strip_or [] (dget p ''display_name'')) (\<lambda>dn. Inr (tc, if dn = [] then tc else dn)))")
    case (Inr x)
    then obtain tc dn where x: "x = (tc, dn)" "snake_case tc" by (auto simp: value_error_def split: if_splits)
    have "tx_inv tmpl_inv (tx_bind (lift (ebind (create_template_columns p dn) (coerced env))) (\<lambda>cols.
        tx_bind (insert_template_row (fresh_template tc cols)) (\<lambda>t. tx_return (True, t))))"
      by (intro tx_keeps insert_template_keeps fresh_template_ok x(2))
    from legacy_transaction_snd [OF this inv] inv show ?thesis
      unfolding create_template_def Inr x sum.case prod.case by (simp add: as_value_error_snd split: sum.splits)
  qed (use inv in \<open>simp add: create_template_def\<close>)
qed

lemma update_template_call_keeps: "tmpl_inv db \<Longrightarrow> tmpl_inv (snd (update_template env cfg i p db))"
proof -
  assume inv: "tmpl_inv db"
  have step: "tx_inv tmpl_inv (tx_bind (lift (update_template_args env p current)) (\<lambda>(code, cols).
         if code = None \<and> cols = [] then tx_return (False, True)
         else tx_bind (update_template_row i (set_template code cols)) (\<lambda>_. tx_return (True, True))))" for current
  proof (rule tx_inv_lift_bind)
    fix x assume x: "update_template_args env p current = Inr x"
    obtain code cols where c: "x = (code, cols)" by (cases x)
    have "\<And>k. code = Some k \<Longrightarrow> snake_case k" using x c update_args_code by auto
    then show "tx_inv tmpl_inv (case x of (code, cols) \<Rightarrow> if code = None \<and> cols = [] then tx_return (False, True)
         else tx_bind (update_template_row i (set_template code cols)) (\<lambda>_. tx_return (True, True)))"
      unfolding c prod.case by (intro tx_keeps update_template_keeps set_template_ok) auto
  qed
  have "tx_inv tmpl_inv (update_template_body env i p)"
    unfolding update_template_body_def by (intro tx_keeps step)
  from legacy_transaction_snd [OF this inv] inv show ?thesis
    by (simp add: update_template_def as_value_error_snd split: sum.splits)
qed

lemma replace_keeps:
  assumes inv: "tmpl_inv db" and L: "leg_model_laws L"
  shows "tmpl_inv (snd (replace_template_legs env L cfg i v db))"
    and "tmpl_inv (snd (replace_template_params env cfg i v db))"
    and "tmpl_inv (snd (replace_template_characteristics env cfg i lines db))"
proof -
  show "tmpl_inv (snd (replace_template_legs env L cfg i v db))"
  proof (cases "template_legs_arg L v")
    case (Inr legs)
    then have "list_all template_leg_ok legs" using template_legs_ok [OF L Inr] by (simp add: list_all_iff)
    then have "tx_inv tmpl_inv (tx_bind (query (\<lambda>db. i \<in> fst ` set (tb_templates db))) (\<lambda>found.
             if \<not> found then tx_raise (PyErr ValueErr)
             else tx_bind (update_template_row i (\<lambda>r. r\<lparr>tm_legs := legs_value legs\<rparr>)) (\<lambda>_. tx_return (True, ()))))"
      by (intro tx_keeps update_template_keeps) (auto simp: template_ok_def)
    from legacy_transaction_snd [OF this inv] inv Inr show ?thesis by (simp add: replace_template_legs_def)
  qed (use inv in \<open>simp add: replace_template_legs_def\<close>)
  show "tmpl_inv (snd (replace_template_params env cfg i v db))"
  proof (cases v)
    case (PList xs)
    have "tx_inv tmpl_inv (tx_bind (lift (params_arg xs)) (\<lambda>ps.
             tx_bind (update_template_row i (\<lambda>r. r\<lparr>tm_params := legs_value ps\<rparr>)) (\<lambda>n.
             if n = 0 then tx_raise (PyErr ValueErr) else tx_return (True, ()))))"
      by (rule tx_inv_lift_bind) (intro tx_keeps update_template_keeps, auto simp: template_ok_def dest!: params_arg_ok)
    from legacy_transaction_snd [OF this inv] inv show ?thesis by (simp add: replace_template_params_def PList)
  qed (use inv in \<open>simp_all add: replace_template_params_def\<close>)
  have "tx_inv tmpl_inv (tx_bind (lift (characteristics_arg lines)) (\<lambda>ts.
         tx_bind (update_template_row i (\<lambda>r. r\<lparr>tm_chars := PList (map PStr ts)\<rparr>)) (\<lambda>n.
         if n = 0 then tx_raise (PyErr ValueErr) else tx_return (True, ()))))"
    by (rule tx_inv_lift_bind) (intro tx_keeps update_template_keeps, auto simp: template_ok_def dest!: characteristics_ok)
  from legacy_transaction_snd [OF this inv] inv show "tmpl_inv (snd (replace_template_characteristics env cfg i lines db))"
    by (simp add: replace_template_characteristics_def)
qed

lemma commit_or_rollback_keeps: "P s \<Longrightarrow> P (snd r) \<Longrightarrow> P (snd (commit_or_rollback s r))"
  by (auto simp: commit_or_rollback_def split: prod.splits sum.splits)

lemma relabelled_keeps: "P (snd r) \<Longrightarrow> P (snd (case r of (Inl e, s) \<Rightarrow> (Inl (f e), s) | (Inr x, s) \<Rightarrow> (Inr x, s)))"
  by (auto split: prod.splits sum.splits)

lemma patch_template_keeps: "tmpl_inv db \<Longrightarrow> tmpl_inv (snd (patch_template env arg i body db))"
proof -
  assume inv: "tmpl_inv db"
  show ?thesis
  proof (cases "ebind (check_fields body TEMPLATE_PATCHABLE ''template'') patch_template_args")
    case (Inr x)
    obtain code cols where x: "x = (code, cols)" by (cases x)
    have code: "\<And>k. code = Some k \<Longrightarrow> snake_case k" using Inr x by (auto dest: patch_args_code)
    let ?r = "raising (strict_write (''template '' @ int_str i) FkInvalid (patch_template_body env i code cols) env arg db)"
    have "tx_inv tmpl_inv (patch_template_body env i code cols)"
      unfolding patch_template_body_def by (intro tx_keeps update_template_keeps set_template_ok detail_keeps code) auto
    from strict_write_snd [OF this inv] have "tmpl_inv (snd ?r)" by (simp add: raising_snd)
    with inv have "tmpl_inv (snd (commit_or_rollback db ?r))" by (rule commit_or_rollback_keeps)
    then show ?thesis unfolding patch_template_def Inr x sum.case prod.case by (rule relabelled_keeps)
  qed (use inv in \<open>simp add: patch_template_def\<close>)
qed

lemma delete_template_calls_keep:
  "tmpl_inv db \<Longrightarrow> tmpl_inv (snd (delete_template env cfg i db))" "tmpl_inv db \<Longrightarrow> tmpl_inv (snd (delete_template_strict env arg i db))"
proof -
  assume inv: "tmpl_inv db"
  have "tx_inv tmpl_inv (tx_bind (try_query (\<lambda>db. Some (length (structures_of i db)))) (\<lambda>n. case n of
           None \<Rightarrow> tx_raise aborted_error
         | Some k \<Rightarrow> if k > 0 then tx_raise (PyErr ValueErr)
                    else tx_bind (delete_template_row i) (\<lambda>_. tx_return (True, ()))))"
    by (intro tx_keeps delete_template_keeps)
  from legacy_transaction_snd [OF this inv] inv show "tmpl_inv (snd (delete_template env cfg i db))"
    by (simp add: delete_template_def)
  have "tx_inv tmpl_inv (delete_template_body i)" unfolding delete_template_body_def by (intro tx_keeps delete_template_keeps)
  from strict_write_snd [OF this inv] show "tmpl_inv (snd (delete_template_strict env arg i db))"
    by (simp add: delete_template_strict_def)
qed

lemma structure_calls_keep:
  assumes inv: "tmpl_inv db"
  shows "tmpl_inv (snd (create_structure env L cfg p db))" and "tmpl_inv (snd (update_structure env L cfg i p db))"
    and "tmpl_inv (snd (deactivate_structure env cfg i db))"
proof -
  have name: "structure_payload p = Inr a \<Longrightarrow> clean_text (su_name (structure_row a t))" for a t
    using structure_args_clean by (simp add: structure_row_def)
  show "tmpl_inv (snd (create_structure env L cfg p db))"
  proof (cases "structure_payload p")
    case (Inr a)
    have "tx_inv tmpl_inv (create_structure_body env L p a)"
      unfolding create_structure_body_def
      by (intro tx_keeps resolve_keeps template_legs_keep insert_structure_keeps name [OF Inr] write_children_keeps)
    from legacy_transaction_snd [OF this inv] inv Inr show ?thesis by (simp add: create_structure_def swallowing_snd)
  qed (use inv in \<open>simp add: create_structure_def\<close>)
  show "tmpl_inv (snd (update_structure env L cfg i p db))"
  proof (cases "structure_payload p")
    case (Inr a)
    have "tx_inv tmpl_inv (update_structure_body env L i p a)"
      unfolding update_structure_body_def
      by (intro tx_keeps resolve_keeps template_legs_keep update_structure_keeps write_children_keeps) (simp add: name [OF Inr])
    from legacy_transaction_snd [OF this inv] inv Inr show ?thesis by (simp add: update_structure_def swallowing_snd)
  qed (use inv in \<open>simp add: update_structure_def\<close>)
  have "tx_inv tmpl_inv (tx_bind (update_structure_row i (\<lambda>r. r\<lparr>su_active := False\<rparr>)) (\<lambda>n.
         if n = 0 then tx_return (False, False) else tx_bind (clear_active i) (\<lambda>_. tx_return (True, True))))"
    unfolding clear_active_def
    by (intro tx_keeps update_structure_keeps tx_inv_update) (simp_all add: tmpl_inv_def)
  from legacy_transaction_snd [OF this inv] inv show "tmpl_inv (snd (deactivate_structure env cfg i db))"
    by (simp add: deactivate_structure_def)
qed

lemma patch_structure_keeps: "tmpl_inv db \<Longrightarrow> tmpl_inv (snd (patch_structure env arg i body db))"
proof -
  assume inv: "tmpl_inv db"
  show ?thesis
  proof (cases "ebind (check_fields body STRUCTURE_PATCHABLE ''structure'') patch_structure_args")
    case (Inr f)
    then obtain fs where "patch_structure_args fs = Inr f" by auto
    then have f: "clean_text (su_name q) \<Longrightarrow> clean_text (su_name (f q))" for q
      using text_value_ok text_value_required
      by (fastforce simp: patch_structure_args_def clean_text_def sent_field_def split: if_splits option.splits)
    have "tx_inv tmpl_inv (patch_structure_body env i f)"
      unfolding patch_structure_body_def get_structure_by_id_def by (intro tx_keeps update_structure_keeps f)
    from strict_write_snd [OF this inv] Inr show ?thesis
      unfolding patch_structure_def Inr sum.case by (simp add: raising_snd)
  qed (use inv in \<open>simp add: patch_structure_def\<close>)
qed

lemma template_step_keeps:
  assumes L: "leg_model_laws L" and inv: "tmpl_inv db"
  shows "tmpl_inv (template_step L op db)"
proof -
  obtain env o' where "op = (env, o')" by (cases op)
  then show ?thesis
    by (cases o') (simp_all add: inv create_template_keeps update_template_call_keeps replace_keeps [OF inv L] patch_template_keeps
      delete_template_calls_keep structure_calls_keep patch_structure_keeps)
qed

interpretation template_calls: kept_invariant "template_step L" "\<lambda>db. leg_model_laws L \<and> tmpl_inv db" for L
  by unfold_locales (auto intro: template_step_keeps)

text \<open>
  C26. Over any sequence of calls of the twelve writers, whatever statement the database refuses: every code is
  used once and is snake case, every dimension is of the catalog, the legs, parameters and characteristics a
  template stores are valid and in order, and every structure has a name and refers to a template that exists.
\<close>

theorem templates_stay_consistent:
  assumes "leg_model_laws L" and "tmpl_inv db"
  shows "tmpl_inv (fold (template_step L) calls db)"
  using template_calls.fold_keeps [of L db calls] assms by simp

end
