(* ===== verification/Structure_Claims.thy ===== *)
theory Structure_Claims
  imports Template_Claims
begin

text \<open>
  The legs of a structure: whatever the caller sends, they are the legs of its template. What a template
  that changed inside an aborted transaction answers.
\<close>

section \<open>The legs of a template, as they are read, checked and stored\<close>

definition shown_leg :: "pydict \<Rightarrow> pydict" where
  "shown_leg d = [(''role'', dget d ''role''), (''direction'', dget d ''direction''), (''option_right'', dget d ''option_right''),
     (''quantity'', dget d ''quantity''), (''strike'', PNone), (''expiration'', PStr [])]"

lemma dget_shown [simp]:
  "dget (shown_leg d) ''role'' = dget d ''role''" "dget (shown_leg d) ''direction'' = dget d ''direction''"
  "dget (shown_leg d) ''option_right'' = dget d ''option_right''" "dget (shown_leg d) ''quantity'' = dget d ''quantity''"
  "dget (shown_leg d) ''strike'' = PNone" "dget (shown_leg d) ''expiration'' = PStr []"
  by (simp_all add: shown_leg_def)

lemma template_leg_shown: "template_leg_ok d \<Longrightarrow> template_leg d = Inr (shown_leg d)"
  by (auto simp: template_leg_ok_def abstract_leg_def template_leg_def shown_leg_def py_or_def)

lemma dicts_of_dicts [simp]: "dicts_of (map PDict ls) = ls"
  by (induction ls) (simp_all add: dicts_of_def)

lemma emap_known: "(\<And>x. x \<in> set xs \<Longrightarrow> f x = Inr (g x)) \<Longrightarrow> emap f xs = Inr (map g xs)"
  by (induction xs) simp_all

lemma template_legs_read:
  "list_all template_leg_ok ls \<Longrightarrow> legs_from_json env (legs_value ls) = Inr (map shown_leg ls)"
  by (simp add: legs_from_json_def legs_value_def parse_json_field_def list_all_iff template_leg_shown emap_known)

definition schema_of :: "pydict \<Rightarrow> pydict" where
  "schema_of leg = map (\<lambda>k. (k, dget leg k)) SCHEMA_FIELDS @ [(''locked'', PBool True)]"

lemma dget_schema [simp]:
  "dget (schema_of e) ''role'' = dget e ''role''" "dget (schema_of e) ''direction'' = dget e ''direction''"
  "dget (schema_of e) ''option_right'' = dget e ''option_right''"
  by (simp_all add: schema_of_def SCHEMA_FIELDS_def)

lemma matches_itself: "leg_matches (schema_of e) e"
  by (simp add: leg_matches_def SCHEMA_FIELDS_def field_matches_def)

lemma check_itself: "validate_legs ls (build_schema_from_legs ls) = Inr ()"
proof -
  have "build_schema_from_legs ls = map schema_of ls" by (simp add: build_schema_from_legs_def schema_of_def)
  then show ?thesis by (auto simp: validate_legs_def zip_map1 list_all_iff zip_same matches_itself split_beta)
qed

lemma lowered_roles: "lower (strip ''underlying'') = ''underlying''" "lower (strip ''call'') = ''call''" "lower (strip ''put'') = ''put''"
  by code_simp+

lemma normalize_itself:
  assumes d: "template_leg_ok d" and s: "schema_at schema i = Some (schema_of (shown_leg d))"
  shows "normalize_leg code schema (i, shown_leg d) = Inr (shown_leg d)"
proof -
  from d have role: "literal_of LEG_ROLE_ALLOWED (dget d ''role'')" by (simp add: template_leg_ok_def abstract_leg_def)
  have renamed: "alias_role code i (shown_leg d) = shown_leg d"
    using role by (auto simp: alias_role_def leg_role_aliases_def literal_of_def LEG_ROLE_ALLOWED_def lowered_roles)
  have kept: "option_role (Some (schema_of (shown_leg d))) (shown_leg d) = Inr (shown_leg d)"
    by (auto simp: option_role_def lowered_roles)
  have "stock_right (Some (schema_of (shown_leg d))) (shown_leg d) = shown_leg d"
    by (auto simp: stock_right_def shown_leg_def dset_def)
  then show ?thesis by (simp add: normalize_leg_def renamed s kept)
qed

lemma template_legs_pass:
  assumes "list_all template_leg_ok ls"
  shows "legs_for_structure L code (map shown_leg ls) = Inr (map shown_leg ls)"
proof -
  let ?ls = "map shown_leg ls" and ?s = "build_schema_from_legs (map shown_leg ls)"
  have "normalize_leg code ?s x = Inr (snd x)" if x: "x \<in> set (enumerate 0 ?ls)" for x
  proof -
    from x obtain i where i: "i < length ls" "x = (i, shown_leg (ls ! i))"
      by (metis (no_types, lifting) add_0 in_set_conv_nth length_enumerate length_map nth_enumerate_eq nth_map)
    have "schema_at ?s i = Some (schema_of (shown_leg (ls ! i)))"
      using i by (simp add: schema_at_def build_schema_from_legs_def schema_of_def)
    moreover have "template_leg_ok (ls ! i)" using assms i by (simp add: list_all_length)
    ultimately show ?thesis by (simp add: i(2) normalize_itself)
  qed
  then have "normalize_legs code ?ls ?s = Inr (map snd (enumerate 0 ?ls))" by (simp add: normalize_legs_def emap_known)
  then show ?thesis by (simp add: legs_for_structure_def Let_def check_itself)
qed

lemma stored_leg_shown:
  assumes "template_leg_ok d" and "stored_leg L (i, shown_leg d) = Inr s"
  shows "structure_leg_out s = shown_leg d"
proof -
  from assms(1) obtain q where q: "dget d ''quantity'' = PInt q" by (auto simp: template_leg_ok_def abstract_leg_def)
  with assms(2) have "s = shown_leg d @ [(''sort_order'', PInt (int i))]"
    by (auto simp: stored_leg_def Let_def value_error_def int_or_def opt_float_def shown_leg_def split: if_splits)
  then show ?thesis by (simp add: structure_leg_out_def shown_leg_def)
qed

lemma stored_legs_read:
  assumes ok: "list_all template_leg_ok ls" and st: "stored_legs L (map shown_leg ls) = Inr ss"
  shows "structure_legs_from_row env (legs_value ss) = Inr (map shown_leg ls)"
proof -
  have all: "list_all2 (\<lambda>x s. stored_leg L x = Inr s) (enumerate 0 (map shown_leg ls)) ss"
    using st by (simp add: stored_legs_def emap_Inr_iff)
  have "map structure_leg_out ss = map shown_leg ls"
  proof (rule nth_equalityI)
    show "length (map structure_leg_out ss) = length (map shown_leg ls)" using list_all2_lengthD [OF all] by simp
  next
    fix i assume "i < length (map structure_leg_out ss)"
    with all list_all2_lengthD [OF all] have i: "i < length ls" "i < length ss" by simp_all
    with list_all2_nthD [OF all, of i] have "stored_leg L (i, shown_leg (ls ! i)) = Inr (ss ! i)" by (simp add: nth_enumerate_eq)
    with ok i show "map structure_leg_out ss ! i = map shown_leg ls ! i" by (simp add: stored_leg_shown list_all_length)
  qed
  then show ?thesis by (simp add: structure_legs_from_row_def legs_value_def parse_json_field_def)
qed

section \<open>A new structure\<close>

text \<open>The template a payload asks for: by identifier, or by code (\<open>covered_call\<close> is an old name).\<close>

definition asks_for :: "pydict \<Rightarrow> int \<Rightarrow> tmpl_row \<Rightarrow> bool" where
  "asks_for p t r \<longleftrightarrow>
     (if dget p ''strategy_template_id'' \<noteq> PNone \<and> strip (py_str (dget p ''strategy_template_id'')) \<noteq> []
      then py_int (dget p ''strategy_template_id'') = Inr t
      else \<exists>c. strip_or [] (dget p ''structure_type'') = Inr c \<and> tm_code r = (if c = ''covered_call'' then ''covered_call_otm'' else c))"

lemma tx_ok_lift: "tx_ok env (lift x) s a s' \<longleftrightarrow> x = Inr a \<and> s' = s"
  by (cases x) (auto simp: lift_def)

lemma template_row_ok: "tx_ok env (get_template_row i) s (Some (j, r)) s' \<Longrightarrow> j = i \<and> map_of (tb_templates s) i = Some r \<and> s' = s"
  unfolding get_template_row_def by (cases "map_of (tb_templates s) i") (auto dest!: tx_ok_try_queryD)

lemma template_code_ok:
  assumes "tx_ok env (get_template_by_code c) s (Some (j, r)) s'" and "tmpl_inv s"
  shows "tm_code r = strip c \<and> map_of (tb_templates s) j = Some r \<and> s' = s"
proof -
  from assms(1) have "find (\<lambda>e. tm_code (snd e) = strip c) (tb_templates s) = Some (j, r)" and s: "s' = s"
    unfolding get_template_by_code_def by (auto dest!: tx_ok_try_queryD split: if_splits)
  then have "(j, r) \<in> set (tb_templates s)" "tm_code r = strip c" by (auto simp: find_Some_iff) (metis nth_mem snd_conv)+
  with s assms(2) show ?thesis by (simp add: tmpl_inv_def templates_ok_def)
qed

lemma resolved_template:
  assumes run: "tx_ok env (resolve_template p None) s (t, r) s'" and inv: "tmpl_inv s"
  shows "map_of (tb_templates s) t = Some r \<and> s' = s \<and> asks_for p t r"
proof (cases "dget p ''strategy_template_id'' \<noteq> PNone \<and> strip (py_str (dget p ''strategy_template_id'')) \<noteq> []")
  case True
  with run obtain i row where i: "py_int (dget p ''strategy_template_id'') = Inr i" "tx_ok env (get_template_row i) s (Some (t, r)) s'"
    by (auto simp: resolve_template_def tx_ok_lift dest!: tx_ok_bindD split: option.splits sum.splits)
  with template_row_ok [OF i(2)] True show ?thesis by (simp add: asks_for_def)
next
  case False
  with run obtain c where c: "strip_or [] (dget p ''structure_type'') = Inr c" "c \<noteq> []"
      "tx_ok env (get_template_by_code (if c = ''covered_call'' then ''covered_call_otm'' else c)) s (Some (t, r)) s'"
    unfolding resolve_template_def Let_def
    by (auto simp: tx_ok_lift simp del: de_Morgan_conj dest!: tx_ok_bindD split: option.splits if_splits)
  have "strip (if c = ''covered_call'' then ''covered_call_otm'' else c) = (if c = ''covered_call'' then ''covered_call_otm'' else c)"
    using strip_or_clean [OF c(1)] by (simp, code_simp)
  with template_code_ok [OF c(3) inv] c(1) False show ?thesis by (auto simp: asks_for_def)
qed

lemma legacy_transaction_run:
  "legacy_transaction m env s = (Inr a, s') \<Longrightarrow> \<exists>c t. tx_ok env m s (c, a) t \<and> s' = (if c then t else s)"
  by (auto simp: legacy_transaction_def tx_ok_def split: prod.splits sum.splits option.splits if_splits)

lemma template_legs_ok_read:
  assumes "tx_ok env (template_legs_or_abort env t) s legs s'" and "map_of (tb_templates s) t = Some r" and "tmpl_inv s"
  shows "s' = s \<and> (\<exists>ls. list_all template_leg_ok ls \<and> tm_legs r = legs_value ls \<and> legs = map shown_leg ls)"
proof -
  from assms(2,3) obtain ls where ls: "list_all template_leg_ok ls" "tm_legs r = legs_value ls"
    by (fastforce simp: tmpl_inv_def templates_ok_def template_ok_def dest: map_of_SomeD)
  from assms(1) show ?thesis
    unfolding template_legs_or_abort_def get_template_legs_def
    using ls assms(2) by (auto simp: template_legs_read dest!: tx_ok_bindD tx_ok_try_queryD split: option.splits)
qed

lemma structure_inserted:
  assumes "tx_ok env (insert_structure_row r) s i s'" and "tmpl_inv s"
  shows "map_of (tb_structures s) i = None \<and> map_of (tb_structures s') i = Some r \<and> tb_templates s' = tb_templates s"
proof -
  from tx_ok_stmtD [OF assms(1) [unfolded insert_structure_row_def]]
  have i: "i = tb_next_structure s" and s': "s' = s\<lparr>tb_structures := tb_structures s @ [(i, r)], tb_next_structure := tb_next_structure s + 1\<rparr>"
    by auto
  have "map_of (tb_structures s) i = None"
    using assms(2) by (fastforce simp: i tmpl_inv_def structures_ok_def map_of_eq_None_iff)
  then show ?thesis by (simp add: s' map_of_snoc del: map_of_append)
qed

lemma children_written:
  assumes "tx_ok env (write_children L sid legs meta) s u s'" and "map_of (tb_structures s) sid = Some row"
  shows "\<exists>ss m. stored_legs L legs = Inr ss
    \<and> map_of (tb_structures s') sid = Some (row\<lparr>su_legs := legs_value ss, su_meta := PDict m\<rparr>) \<and> tb_templates s' = tb_templates s"
  using assms unfolding write_children_def update_structure_row_def
  by (auto simp: tx_ok_lift map_of_put_assoc dest!: tx_ok_bindD tx_ok_stmtD)

text \<open>
  C16. A structure that was created has the legs of the template its payload asks for: reading it back gives
  what reading the template gives, whatever legs the payload lists. Its identifier is new, and no template
  changed.
\<close>

theorem structure_takes_its_templates_legs:
  assumes inv: "tmpl_inv db" and run: "create_structure env L cfg p db = (Inr (Some sid), db')"
  shows "\<exists>t r row legs. asks_for p t r \<and> map_of (tb_templates db) t = Some r
    \<and> map_of (tb_structures db) sid = None \<and> map_of (tb_structures db') sid = Some row \<and> su_template row = Some t
    \<and> legs_from_json env (tm_legs r) = Inr legs \<and> structure_legs_from_row env (su_legs row) = Inr legs
    \<and> tb_templates db' = tb_templates db"
proof -
  from run obtain a where a: "structure_payload p = Inr a"
      "swallowing is_value_error None (legacy_transaction (create_structure_body env L p a) env db) = (Inr (Some sid), db')"
    by (auto simp: create_structure_def split: sum.splits if_splits)
  then have "legacy_transaction (create_structure_body env L p a) env db = (Inr (Some sid), db')" by auto
  from legacy_transaction_run [OF this] obtain c s where c: "tx_ok env (create_structure_body env L p a) db (c, Some sid) s" "db' = (if c then s else db)"
    by blast
  from c(1) obtain t r legs0 legs s1 s2 s3 where res: "tx_ok env (resolve_template p None) db (t, r) s1"
    and legs0: "tx_ok env (template_legs_or_abort env t) s1 legs0 s2"
    and legs: "legs_for_structure L (tm_code r) legs0 = Inr legs"
    and ins: "tx_ok env (insert_structure_row (structure_row a t)) s2 sid s3"
    and kids: "tx_ok env (write_children L sid legs (sa_meta a)) s3 () s" and "c"
    unfolding create_structure_body_def by (auto simp: tx_ok_lift dest!: tx_ok_bindD)
  from resolved_template [OF res inv] have t: "map_of (tb_templates db) t = Some r" "s1 = db" "asks_for p t r" by auto
  from template_legs_ok_read [OF legs0 [unfolded t(2)] t(1) inv] obtain ls where
    ls: "list_all template_leg_ok ls" "tm_legs r = legs_value ls" "legs0 = map shown_leg ls" and s2: "s2 = db" by blast
  from legs have l: "legs = map shown_leg ls" by (simp add: ls(3) template_legs_pass [OF ls(1)])
  from structure_inserted [OF ins [unfolded s2] inv] have new: "map_of (tb_structures db) sid = None"
    "map_of (tb_structures s3) sid = Some (structure_row a t)" "tb_templates s3 = tb_templates db" by auto
  from children_written [OF kids new(2)] obtain ss m where ss: "stored_legs L (map shown_leg ls) = Inr ss"
    "map_of (tb_structures s) sid = Some ((structure_row a t)\<lparr>su_legs := legs_value ss, su_meta := PDict m\<rparr>)"
    "tb_templates s = tb_templates s3" by (auto simp: l)
  have "db' = s" using c(2) \<open>c\<close> by simp
  with t new ss stored_legs_read [OF ls(1) ss(1)] template_legs_read [OF ls(1)] ls(2)
  show ?thesis by (intro exI [of _ t] exI [of _ r] exI [of _ "(structure_row a t)\<lparr>su_legs := legs_value ss, su_meta := PDict m\<rparr>"]
      exI [of _ "map shown_leg ls"]) (simp add: structure_row_def)
qed

definition sample_leg :: pydict where
  "sample_leg = [(''role'', PStr ''call''), (''direction'', PStr ''long''), (''option_right'', PStr ''C''), (''quantity'', PInt 2),
     (''quantity_default'', PInt 2), (''sort_order'', PInt 0)]"

definition sample_template :: tmpl_row where
  "sample_template = \<lparr>tm_code = ''two_calls'',
     tm_cols = [(''display_name'', PStr ''Two calls''), (''sort_order'', PInt 1), (''is_active'', PBool True)],
     tm_legs = legs_value [sample_leg], tm_params = legs_value [], tm_chars = PList []\<rparr>"

definition sample_tmpl_db :: tmpl_db where
  "sample_tmpl_db = \<lparr>tb_templates = [(1, sample_template)], tb_next_template = 2, tb_structures = [], tb_next_structure = 5, tb_active = None\<rparr>"

lemma abstract_leg_exec [code]:
  "abstract_leg d \<longleftrightarrow> literal_of LEG_ROLE_ALLOWED (dget d ''role'') \<and> literal_of LEG_DIRECTION_ALLOWED (dget d ''direction'')
     \<and> literal_of LEG_OPTION_RIGHT_ALLOWED (dget d ''option_right'') \<and> (case dget d ''quantity'' of PInt q \<Rightarrow> 1 \<le> q | _ \<Rightarrow> False)"
  by (auto simp: abstract_leg_def split: pyval.splits)

definition accepting_legs :: leg_model where
  "accepting_legs x = (if abstract_leg x then Some x else None)"

lemma accepting_laws: "leg_model_laws accepting_legs"
  by (simp add: leg_model_laws_def accepting_legs_def)

lemma sample_template_ok: "template_ok sample_template"
proof -
  have leg: "template_leg_ok sample_leg"
    by (simp add: template_leg_ok_def abstract_leg_def literal_of_def sample_leg_def LEG_ROLE_ALLOWED_def LEG_DIRECTION_ALLOWED_def LEG_OPTION_RIGHT_ALLOWED_def)
  have "list_all (\<lambda>t. dim_value_ok t (dget (tm_cols sample_template) (''dim_'' @ t))) DIM_TYPES" by code_simp
  moreover have "snake_case (tm_code sample_template)" by code_simp
  ultimately show ?thesis using leg unfolding template_ok_def
    by (auto simp: sample_template_def legs_value_def intro: exI [of _ "[sample_leg]"])
qed

lemma sample_tmpl_inv: "tmpl_inv sample_tmpl_db"
  using sample_template_ok by (simp add: tmpl_inv_def templates_ok_def structures_ok_def sample_tmpl_db_def)

theorem templates_stay_consistent_witness:
  "tmpl_inv (fold (template_step accepting_legs)
     [(calm_env 0, DeleteTemplateStrict ConnLive 1), (calm_env 0, DeactivateStructure None 5)] sample_tmpl_db)"
  by (rule templates_stay_consistent [OF accepting_laws sample_tmpl_inv])

definition sample_structure_payload :: pydict where
  "sample_structure_payload = [(''name'', PStr ''Mine''), (''structure_type'', PStr ''two_calls''),
     (''legs'', PList [PDict [(''role'', PStr ''put''), (''quantity'', PInt 9)]])]"

lemma sample_structure_created:
  "fst (create_structure (calm_env 0) accepting_legs (Some [(''sink'', PStr ''postgres'')]) sample_structure_payload sample_tmpl_db) = Inr (Some 5)"
  by code_simp

theorem structure_takes_its_templates_legs_witness:
  "\<exists>row. map_of (tb_structures (snd (create_structure (calm_env 0) accepting_legs (Some [(''sink'', PStr ''postgres'')])
      sample_structure_payload sample_tmpl_db))) 5 = Some row
    \<and> structure_legs_from_row (calm_env 0) (su_legs row) = Inr [shown_leg sample_leg]"
proof -
  let ?r = "create_structure (calm_env 0) accepting_legs (Some [(''sink'', PStr ''postgres'')]) sample_structure_payload sample_tmpl_db"
  have "?r = (Inr (Some 5), snd ?r)" using sample_structure_created by (metis prod.collapse)
  from structure_takes_its_templates_legs [OF sample_tmpl_inv this] obtain t r row legs where
    r: "map_of (tb_templates sample_tmpl_db) t = Some r" "map_of (tb_structures (snd ?r)) 5 = Some row"
      "legs_from_json (calm_env 0) (tm_legs r) = Inr legs" "structure_legs_from_row (calm_env 0) (su_legs row) = Inr legs" by blast
  have "r = sample_template" using r(1) by (simp add: sample_tmpl_db_def split: if_splits)
  moreover have "legs_from_json (calm_env 0) (tm_legs sample_template) = Inr [shown_leg sample_leg]" by code_simp
  ultimately show ?thesis using r by auto
qed

section \<open>A change that is answered and lost\<close>

text \<open>
  The third statement of the transaction (the legs, for the answer) fails: the reader gives no legs, the
  commit rolls back, and the caller gets the changed name of a template that did not change.
\<close>

lemma lost_patch:
  "\<exists>d. patch_template ((calm_env 0)\<lparr>fault := (\<lambda>n. if n = 2 then Some (OtherExc ''timeout'') else None)\<rparr>) ConnLive 1
      (PDict [(''display_name'', PStr ''Pair'')]) sample_tmpl_db = (Inr d, sample_tmpl_db) \<and> dget d ''display_name'' = PStr ''Pair''"
proof -
  let ?r = "patch_template ((calm_env 0)\<lparr>fault := (\<lambda>n. if n = 2 then Some (OtherExc ''timeout'') else None)\<rparr>) ConnLive 1
      (PDict [(''display_name'', PStr ''Pair'')]) sample_tmpl_db"
  have "case ?r of (Inr d, db) \<Rightarrow> dget d ''display_name'' = PStr ''Pair'' \<and> db = sample_tmpl_db | _ \<Rightarrow> False" by code_simp
  then show ?thesis by (auto split: prod.splits sum.splits)
qed

end
