(* ===== verification/On_Demand.thy ===== *)
theory On_Demand
  imports Message_Center
begin

text \<open>
  The on-demand lists of the market page (\<open>core/realtime/on_demand_stk.py\<close>, \<open>on_demand_opt.py\<close>): a Redis
  set of keys, a hash with the time each was last asked for, and the cached quotes.

  Redis is three maps: sets, hashes and plain keys. A command is a statement the environment may refuse;
  a pipeline is its commands one after another, so a connection that breaks leaves a prefix of them (after a command that Redis
  itself refuses, redis-py would still send the rest). The
  client is None or the wrapping it gives to replies (\<open>RText\<close> when it decodes, \<open>RBytes\<close> when not). The two
  modules are one text with different constants: a record of them is the argument of the operations.
\<close>

section \<open>Redis\<close>

record rstore =
  rs_sets :: "string \<Rightarrow> string list"
  rs_hashes :: "string \<Rightarrow> (string \<times> string) list"
  rs_keys :: "string \<Rightarrow> string option"

definition sadd :: "string \<Rightarrow> string list \<Rightarrow> rstore \<Rightarrow> rstore" where
  "sadd k xs s = s\<lparr>rs_sets := (rs_sets s)(k := fold List.insert xs (rs_sets s k))\<rparr>"

definition srem :: "string \<Rightarrow> string list \<Rightarrow> rstore \<Rightarrow> rstore" where
  "srem k xs s = s\<lparr>rs_sets := (rs_sets s)(k := filter (\<lambda>x. x \<notin> set xs) (rs_sets s k))\<rparr>"

definition hset :: "string \<Rightarrow> (string \<times> string) list \<Rightarrow> rstore \<Rightarrow> rstore" where
  "hset k fs s = s\<lparr>rs_hashes := (rs_hashes s)(k := fold (\<lambda>(f, v). AList.update f v) fs (rs_hashes s k))\<rparr>"

definition hdel :: "string \<Rightarrow> string list \<Rightarrow> rstore \<Rightarrow> rstore" where
  "hdel k fs s = s\<lparr>rs_hashes := (rs_hashes s)(k := filter (\<lambda>e. fst e \<notin> set fs) (rs_hashes s k))\<rparr>"

definition del_key :: "string \<Rightarrow> rstore \<Rightarrow> rstore" where
  "del_key k s = s\<lparr>rs_keys := (rs_keys s)(k := None)\<rparr>"

type_synonym wrap = "string \<Rightarrow> rtext"

text \<open>\<open>try: ... except Exception: log\<close>: what was done before the exception stays.\<close>

definition attempt :: "('s, 'a) tx \<Rightarrow> ('s, unit) tx" where
  "attempt m = (\<lambda>env s. (Inr (), snd (m env s)))"

section \<open>Keys\<close>

text \<open>\<open>str(raw or "")\<close>\<close>

definition str_or_empty :: "rtext \<Rightarrow> string" where
  "str_or_empty r = (if content r = [] then [] else rtext_str r)"

fun normalize_stk_from :: "string list \<Rightarrow> string list \<Rightarrow> string list" where
  "normalize_stk_from seen [] = []"
| "normalize_stk_from seen (raw # rest) =
     (let sym = upper (strip raw)
      in if sym = [] \<or> sym \<in> set seen then normalize_stk_from seen rest
         else if CHR ''|'' \<in> set sym then normalize_stk_from seen rest
         else sym # normalize_stk_from (sym # seen) rest)"

definition normalize_stk_symbols :: "string list \<Rightarrow> string list" where
  "normalize_stk_symbols xs = normalize_stk_from [] xs"

text \<open>One contract key, when it is one: \<open>SYMBOL|OPT|YYYYMMDD|STRIKE|RIGHT\<close>.\<close>

definition normal_opt_key :: "string \<Rightarrow> string option" where
  "normal_opt_key raw =
     (let ck = strip raw
      in if ck = [] then None
         else (case split_on (CHR ''|'') ck of
             [sym0, sec0, expiry0, strike0, right0] \<Rightarrow>
               (let sym = upper (strip sym0); sec = upper (strip sec0); expiry = strip expiry0;
                    strike = strip strike0; right = upper (strip right0)
                in if sym = [] \<or> sec \<noteq> ''OPT'' \<or> expiry = [] \<or> right \<notin> {''C'', ''P''} then None
                   else if \<not> isdigit expiry \<or> length expiry < 6 then None
                   else if parse_float strike = None then None
                   else Some (sym @ ''|OPT|'' @ expiry @ ''|'' @ strike @ ''|'' @ right))
           | _ \<Rightarrow> None))"

fun normalize_opt_from :: "string list \<Rightarrow> string list \<Rightarrow> string list" where
  "normalize_opt_from seen [] = []"
| "normalize_opt_from seen (raw # rest) =
     (case normal_opt_key raw of
        None \<Rightarrow> normalize_opt_from seen rest
      | Some k \<Rightarrow> if k \<in> set seen then normalize_opt_from seen rest
                  else k # normalize_opt_from (k # seen) rest)"

definition normalize_opt_contract_keys :: "string list \<Rightarrow> string list" where
  "normalize_opt_contract_keys xs = normalize_opt_from [] xs"

section \<open>The two modules\<close>

record on_demand =
  od_set :: string
  od_beats :: string
  od_cache :: "string \<Rightarrow> string"
  od_norm :: "string list \<Rightarrow> string list"
  od_member :: "string \<Rightarrow> string"

definition stk_list :: on_demand where
  "stk_list = \<lparr>od_set = ''ib:ingester:control:on_demand_stk'', od_beats = ''ib:ingester:control:on_demand_stk_ts'',
     od_cache = (\<lambda>sym. ''ib:ingester:tick:'' @ sym @ ''|STK|||''), od_norm = normalize_stk_symbols,
     od_member = (\<lambda>t. upper (strip t))\<rparr>"

definition opt_list :: on_demand where
  "opt_list = \<lparr>od_set = ''ib:option:control:on_demand_opt'', od_beats = ''ib:option:control:on_demand_opt_ts'',
     od_cache = (\<lambda>ck. ''ib:option:cache:'' @ ck), od_norm = normalize_opt_contract_keys, od_member = strip\<rparr>"

definition STK_MAX_AGE :: pyfloat where
  "STK_MAX_AGE = Fin 120"

definition OPT_MAX_AGE :: pyfloat where
  "OPT_MAX_AGE = Fin 180"

section \<open>Operations\<close>

definition ensure_on_demand :: "on_demand \<Rightarrow> wrap option \<Rightarrow> string list \<Rightarrow> pyfloat \<Rightarrow> (rstore, string list) tx" where
  "ensure_on_demand M client xs tm =
     (let keys = od_norm M xs
      in if Option.is_none client \<or> keys = [] then tx_return []
         else tx_bind (update (sadd (od_set M) keys)) (\<lambda>_.
              tx_bind (update (hset (od_beats M) (map (\<lambda>k. (k, float_repr tm)) keys))) (\<lambda>_. tx_return keys)))"

definition remove_on_demand :: "on_demand \<Rightarrow> wrap option \<Rightarrow> string list \<Rightarrow> (rstore, nat) tx" where
  "remove_on_demand M client xs =
     (let keys = od_norm M xs
      in if Option.is_none client \<or> keys = [] then tx_return 0
         else tx_bind (update (srem (od_set M) keys)) (\<lambda>_. tx_bind (update (hdel (od_beats M) keys)) (\<lambda>_.
              tx_bind (tx_each (\<lambda>k. update (del_key (od_cache M k))) keys) (\<lambda>_. tx_return (length keys)))))"

text \<open>\<open>last > 0 and (now - last) <= max_age\<close>, on Python's floats.\<close>

fun fle :: "pyfloat \<Rightarrow> pyfloat \<Rightarrow> bool" where
  "fle (Fin a) (Fin b) \<longleftrightarrow> a \<le> b"
| "fle NaN _ \<longleftrightarrow> False"
| "fle _ NaN \<longleftrightarrow> False"
| "fle NegInf _ \<longleftrightarrow> True"
| "fle _ PosInf \<longleftrightarrow> True"
| "fle _ _ \<longleftrightarrow> False"

definition positive :: "pyfloat \<Rightarrow> bool" where
  "positive x = (case x of Fin q \<Rightarrow> q > 0 | PosInf \<Rightarrow> True | _ \<Rightarrow> False)"

definition last_beat :: "rfields \<Rightarrow> string \<Rightarrow> pyfloat" where
  "last_beat beats k =
     (case (case map_of beats (RText k) of None \<Rightarrow> map_of beats (RBytes k) | Some v \<Rightarrow> Some v) of
        None \<Rightarrow> Fin 0
      | Some v \<Rightarrow> (case parse_float (content v) of None \<Rightarrow> Fin 0 | Some x \<Rightarrow> x))"

definition is_fresh :: "pyfloat \<Rightarrow> pyfloat \<Rightarrow> rfields \<Rightarrow> string \<Rightarrow> bool" where
  "is_fresh max_age tm beats k \<longleftrightarrow> positive (last_beat beats k) \<and> fle (fsub tm (last_beat beats k)) max_age"

definition member_keys :: "on_demand \<Rightarrow> rtext list \<Rightarrow> string list" where
  "member_keys M ms = filter (\<lambda>k. k \<noteq> []) (map (\<lambda>r. od_member M (str_or_empty r)) ms)"

text \<open>
  The listing in its two parts: what it reads and decides (the members with a fresh time, and the others),
  and the removal of the others.
\<close>

definition look_on_demand :: "on_demand \<Rightarrow> wrap \<Rightarrow> pyfloat \<Rightarrow> pyfloat \<Rightarrow> (rstore, string list \<times> string list) tx" where
  "look_on_demand M w max_age tm =
     tx_bind (try_query (\<lambda>s. Some (map w (rs_sets s (od_set M))))) (\<lambda>members. case members of
       None \<Rightarrow> tx_return ([], [])
     | Some ms \<Rightarrow> if ms = [] then tx_return ([], [])
         else tx_bind (try_query (\<lambda>s. Some (map (\<lambda>(f, v). (w f, w v)) (rs_hashes s (od_beats M))))) (\<lambda>beats.
           let b = (case beats of None \<Rightarrow> [] | Some fs \<Rightarrow> fs); ks = member_keys M ms
           in tx_return (filter (is_fresh max_age tm b) ks, filter (\<lambda>k. \<not> is_fresh max_age tm b k) ks)))"

definition prune_on_demand :: "on_demand \<Rightarrow> string list \<Rightarrow> (rstore, unit) tx" where
  "prune_on_demand M stale =
     (if stale = [] then tx_return ()
      else attempt (tx_bind (update (srem (od_set M) stale)) (\<lambda>_. update (hdel (od_beats M) stale))))"

definition list_fresh_on_demand :: "on_demand \<Rightarrow> wrap option \<Rightarrow> pyfloat \<Rightarrow> pyfloat \<Rightarrow> (rstore, string list) tx" where
  "list_fresh_on_demand M client max_age tm = (case client of
       None \<Rightarrow> tx_return []
     | Some w \<Rightarrow> tx_bind (look_on_demand M w max_age tm) (\<lambda>(fresh, stale).
         tx_bind (prune_on_demand M stale) (\<lambda>_. tx_return (sort fresh))))"

definition ensure_on_demand_stk :: "wrap option \<Rightarrow> string list \<Rightarrow> pyfloat \<Rightarrow> (rstore, string list) tx" where
  "ensure_on_demand_stk = ensure_on_demand stk_list"

definition remove_on_demand_stk :: "wrap option \<Rightarrow> string list \<Rightarrow> (rstore, nat) tx" where
  "remove_on_demand_stk = remove_on_demand stk_list"

definition list_fresh_on_demand_stk :: "wrap option \<Rightarrow> pyfloat \<Rightarrow> pyfloat \<Rightarrow> (rstore, string list) tx" where
  "list_fresh_on_demand_stk = list_fresh_on_demand stk_list"

definition ensure_on_demand_opt :: "wrap option \<Rightarrow> string list \<Rightarrow> pyfloat \<Rightarrow> (rstore, string list) tx" where
  "ensure_on_demand_opt = ensure_on_demand opt_list"

definition remove_on_demand_opt :: "wrap option \<Rightarrow> string list \<Rightarrow> (rstore, nat) tx" where
  "remove_on_demand_opt = remove_on_demand opt_list"

definition list_fresh_on_demand_opt :: "wrap option \<Rightarrow> pyfloat \<Rightarrow> pyfloat \<Rightarrow> (rstore, string list) tx" where
  "list_fresh_on_demand_opt = list_fresh_on_demand opt_list"

end
