(* ===== verification/On_Demand_Claims.thy ===== *)
theory On_Demand_Claims
  imports On_Demand Text_Roundtrip
begin

text \<open>
  The on-demand lists against their specification: a map from keys to the time each was last asked for.
  Both modules satisfy the contract of \<open>on_demand_keys\<close>, under which the refinement is proved once.
\<close>

section \<open>The specification\<close>

datatype od_call = Ensure "string list" rat | Remove "string list" | ListFresh rat rat

fun spec_call :: "on_demand \<Rightarrow> od_call \<Rightarrow> (string \<Rightarrow> rat option) \<Rightarrow> (string \<Rightarrow> rat option)" where
  "spec_call M (Ensure xs t) m = (\<lambda>k. if k \<in> set (od_norm M xs) then Some t else m k)"
| "spec_call M (Remove xs) m = (\<lambda>k. if k \<in> set (od_norm M xs) then None else m k)"
| "spec_call M (ListFresh a t) m = (\<lambda>k. case m k of None \<Rightarrow> None | Some u \<Rightarrow> if t - u \<le> a then Some u else None)"

text \<open>The program on a client that decodes; what a call answers is not looked at here.\<close>

fun od_step :: "on_demand \<Rightarrow> env \<times> od_call \<Rightarrow> rstore \<Rightarrow> rstore" where
  "od_step M (env, Ensure xs t) s = fst (snd (ensure_on_demand M (Some RText) xs (Fin t) env (s, 0)))"
| "od_step M (env, Remove xs) s = fst (snd (remove_on_demand M (Some RText) xs env (s, 0)))"
| "od_step M (env, ListFresh a t) s = fst (snd (list_fresh_on_demand M (Some RText) (Fin a) (Fin t) env (s, 0)))"

definition empty_store :: rstore where
  "empty_store = \<lparr>rs_sets = (\<lambda>_. []), rs_hashes = (\<lambda>_. []), rs_keys = (\<lambda>_. None)\<rparr>"

text \<open>Times a float text gives back, after the epoch.\<close>

fun call_ok :: "od_call \<Rightarrow> bool" where
  "call_ok (Ensure xs t) \<longleftrightarrow> decimal17 t \<and> t > 0"
| "call_ok _ \<longleftrightarrow> True"

section \<open>The state a store stands for\<close>

definition beat_of :: "on_demand \<Rightarrow> rstore \<Rightarrow> string \<Rightarrow> rat option" where
  "beat_of M s k = (case map_of (rs_hashes s (od_beats M)) k of None \<Rightarrow> None
     | Some v \<Rightarrow> (case parse_float v of Some (Fin q) \<Rightarrow> if q > 0 then Some q else None | _ \<Rightarrow> None))"

definition registered :: "on_demand \<Rightarrow> rstore \<Rightarrow> string \<Rightarrow> rat option" where
  "registered M s k = (if k \<in> set (rs_sets s (od_set M)) then beat_of M s k else None)"

text \<open>
  Members are keys as the module writes them, and every time in the hash is one that was asked for: \<open>E\<close> has
  the keys that were asked for, with the times.
\<close>

definition od_inv :: "on_demand \<Rightarrow> (string \<times> rat) set \<Rightarrow> rstore \<Rightarrow> bool" where
  "od_inv M E s \<longleftrightarrow> distinct (rs_sets s (od_set M)) \<and> (\<forall>k \<in> set (rs_sets s (od_set M)). k \<noteq> [] \<and> od_member M k = k)
     \<and> (\<forall>k v. map_of (rs_hashes s (od_beats M)) k = Some v \<longrightarrow> (\<exists>t. v = float_repr (Fin t) \<and> (k, t) \<in> E))"

text \<open>A body that keeps a property of the store whatever the environment refuses.\<close>

definition always :: "('s \<Rightarrow> bool) \<Rightarrow> ('s, 'a) tx \<Rightarrow> bool" where
  "always P m \<longleftrightarrow> (\<forall>env s n. P s \<longrightarrow> P (fst (snd (m env (s, n)))))"

named_theorems always_rules

lemma always_return [always_rules]: "always P (tx_return a)"
  by (simp add: always_def tx_simps)

lemma always_update [always_rules]: "(\<And>s. P s \<Longrightarrow> P (f s)) \<Longrightarrow> always P (update f)"
  by (auto simp: always_def tx_simps split: option.splits)

lemma always_query [always_rules]: "always P (try_query f)"
  by (auto simp: always_def tx_simps split: option.splits)

lemma always_bind [always_rules]: "always P m \<Longrightarrow> (\<And>a. always P (f a)) \<Longrightarrow> always P (tx_bind m f)"
  unfolding always_def tx_bind_def
  by (auto split: prod.splits sum.splits) (metis fst_conv snd_conv, metis fst_conv snd_conv)

lemma always_each [always_rules]: "(\<And>x. always P (f x)) \<Longrightarrow> always P (tx_each f xs)"
  by (induction xs) (auto intro: always_rules)

lemma always_attempt [always_rules]: "always P m \<Longrightarrow> always P (attempt m)"
  by (simp add: always_def attempt_def)

lemma always_if [always_rules]: "(b \<Longrightarrow> always P m) \<Longrightarrow> (\<not> b \<Longrightarrow> always P n) \<Longrightarrow> always P (if b then m else n)"
  by simp

lemma always_option [always_rules]: "(v = None \<Longrightarrow> always P m) \<Longrightarrow> (\<And>x. always P (f x)) \<Longrightarrow> always P (case v of None \<Rightarrow> m | Some x \<Rightarrow> f x)"
  by (cases v) simp_all

lemma always_prod [always_rules]: "(\<And>x y. always P (f x y)) \<Longrightarrow> always P (case v of (x, y) \<Rightarrow> f x y)"
  by (cases v) simp

lemma always_Let [always_rules]: "(\<And>x. always P (f x)) \<Longrightarrow> always P (Let v f)"
  by simp

lemma set_fold_insert: "set (fold List.insert xs ys) = set xs \<union> set ys"
  by (induction xs arbitrary: ys) auto

lemma distinct_fold_insert: "distinct ys \<Longrightarrow> distinct (fold List.insert xs ys)"
  by (induction xs arbitrary: ys) (simp_all add: distinct_insert)

lemma map_of_fold_update:
  "map_of (fold (\<lambda>(f, v). AList.update f v) (map (\<lambda>k. (k, v)) ks) h) k = (if k \<in> set ks then Some v else map_of h k)"
  by (induction ks arbitrary: h) (auto simp: update_conv')

lemma map_of_filter_keys: "map_of (filter (\<lambda>e. fst e \<notin> set fs) h) k = (if k \<in> set fs then None else map_of h k)"
  by (induction h) auto

lemma store_simps [simp]:
  "rs_sets (sadd k xs s) = (rs_sets s)(k := fold List.insert xs (rs_sets s k))" "rs_hashes (sadd k xs s) = rs_hashes s"
  "rs_sets (srem k xs s) = (rs_sets s)(k := filter (\<lambda>x. x \<notin> set xs) (rs_sets s k))" "rs_hashes (srem k xs s) = rs_hashes s"
  "rs_sets (hset k fs s) = rs_sets s" "rs_hashes (hset k fs s) = (rs_hashes s)(k := fold (\<lambda>(f, v). AList.update f v) fs (rs_hashes s k))"
  "rs_sets (hdel k xs s) = rs_sets s" "rs_hashes (hdel k xs s) = (rs_hashes s)(k := filter (\<lambda>e. fst e \<notin> set xs) (rs_hashes s k))"
  "rs_sets (del_key k s) = rs_sets s" "rs_hashes (del_key k s) = rs_hashes s"
  by (simp_all add: sadd_def srem_def hset_def hdel_def del_key_def)

lemma float_text: "decimal17 t \<Longrightarrow> parse_float (float_repr (Fin t)) = Some (Fin t)"
  by (simp add: parse_float_repr)

section \<open>What every module of this kind has\<close>

locale on_demand_keys =
  fixes M :: on_demand
  assumes norm_key: "k \<in> set (od_norm M xs) \<Longrightarrow> k \<noteq> [] \<and> od_member M k = k"
begin

lemma ensure_inv: "od_inv M E s \<Longrightarrow> od_inv M E (sadd (od_set M) (od_norm M xs) s)"
  using norm_key by (auto simp: od_inv_def set_fold_insert distinct_fold_insert)

lemma beats_inv: "od_inv M E s \<Longrightarrow> (\<And>k. k \<in> set ks \<Longrightarrow> (k, t) \<in> E) \<Longrightarrow>
   od_inv M E (hset (od_beats M) (map (\<lambda>k. (k, float_repr (Fin t))) ks) s)"
  by (auto simp: od_inv_def map_of_fold_update simp del: float_repr.simps split: if_splits)

lemma less_inv:
  "od_inv M E s \<Longrightarrow> od_inv M E (srem (od_set M) ks s)" "od_inv M E s \<Longrightarrow> od_inv M E (hdel (od_beats M) ks s)"
  "od_inv M E s \<Longrightarrow> od_inv M E (del_key k s)"
  by (auto simp: od_inv_def map_of_filter_keys split: if_splits)

lemma ensure_keeps: "(\<And>k. k \<in> set (od_norm M xs) \<Longrightarrow> (k, t) \<in> E) \<Longrightarrow> always (od_inv M E) (ensure_on_demand M c xs (Fin t))"
  unfolding ensure_on_demand_def Let_def by (intro always_rules ensure_inv beats_inv) auto

lemma remove_keeps: "always (od_inv M E) (remove_on_demand M c xs)"
  unfolding remove_on_demand_def Let_def by (intro always_rules less_inv)

lemma list_keeps: "always (od_inv M E) (list_fresh_on_demand M c a t)"
  unfolding list_fresh_on_demand_def look_on_demand_def prune_on_demand_def Let_def by (intro always_rules less_inv)

end

text \<open>What a list of calls asks for.\<close>

fun asked :: "on_demand \<Rightarrow> od_call \<Rightarrow> (string \<times> rat) set" where
  "asked M (Ensure xs t) = set (od_norm M xs) \<times> {t}"
| "asked M _ = {}"

context on_demand_keys begin

lemma step_keeps: "asked M c \<subseteq> E \<Longrightarrow> od_inv M E s \<Longrightarrow> od_inv M E (od_step M (env, c) s)"
proof (cases c)
  case (Ensure xs t)
  assume a: "asked M c \<subseteq> E" "od_inv M E s"
  have "always (od_inv M E) (ensure_on_demand M (Some RText) xs (Fin t))" using a(1) Ensure by (intro ensure_keeps) auto
  with a(2) show ?thesis by (simp add: Ensure always_def)
next
  case (Remove xs)
  assume "od_inv M E s"
  then show ?thesis using remove_keeps [of E "Some RText" xs] by (simp add: Remove always_def)
next
  case (ListFresh a t)
  assume "od_inv M E s"
  then show ?thesis using list_keeps [of E "Some RText" "Fin a" "Fin t"] by (simp add: ListFresh always_def)
qed

lemma steps_keep: "(\<Union>x \<in> set calls. asked M (snd x)) \<subseteq> E \<Longrightarrow> od_inv M E s \<Longrightarrow> od_inv M E (fold (od_step M) calls s)"
  by (induction calls arbitrary: s) (auto simp: step_keeps)

lemma members_keys:
  assumes "od_inv M E s"
  shows "member_keys M (map RText (rs_sets s (od_set M))) = rs_sets s (od_set M)"
proof -
  have "k \<in> set (rs_sets s (od_set M)) \<Longrightarrow> od_member M (str_or_empty (RText k)) = k \<and> k \<noteq> []" for k
    using assms by (auto simp: od_inv_def str_or_empty_def)
  then show ?thesis unfolding member_keys_def map_map o_def
    by (simp add: filter_id_conv map_idI)
qed

end

lemma wrapped_beat: "map_of (map (\<lambda>(f, v). (RText f, RText v)) h) (RText k) = map_option RText (map_of h k)"
  "map_of (map (\<lambda>(f, v). (RText f, RText v)) h) (RBytes k) = None"
  by (induction h) auto

lemma fresh_beat:
  assumes "\<forall>k v. map_of h k = Some v \<longrightarrow> (\<exists>t. v = float_repr (Fin t) \<and> (k, t) \<in> E)" and "\<forall>(k, t) \<in> E. decimal17 t \<and> t > 0"
  shows "is_fresh (Fin a) (Fin t) (map (\<lambda>(f, v). (RText f, RText v)) h) k
     \<longleftrightarrow> (\<exists>u. map_of h k = Some (float_repr (Fin u)) \<and> (k, u) \<in> E \<and> t - u \<le> a)"
proof (cases "map_of h k")
  case None
  then show ?thesis by (simp add: is_fresh_def last_beat_def wrapped_beat positive_def)
next
  case (Some v)
  with assms(1) obtain u where u: "v = float_repr (Fin u)" "(k, u) \<in> E" by blast
  with assms(2) have d: "decimal17 u" "u > 0" by auto
  have "w = u" if "float_repr (Fin u) = float_repr (Fin w)" "(k, w) \<in> E" for w
  proof -
    have "decimal17 w" using that(2) assms(2) by auto
    from float_text [OF d(1)] float_text [OF this] show ?thesis unfolding that(1) by simp
  qed
  then show ?thesis using Some u d float_text [OF d(1)]
    by (auto simp: is_fresh_def last_beat_def wrapped_beat positive_def simp del: float_repr.simps)
qed

definition good_times :: "(string \<times> rat) set \<Rightarrow> bool" where
  "good_times E \<longleftrightarrow> (\<forall>(k, t) \<in> E. decimal17 t \<and> t > 0)"

text \<open>What the reading part decides.\<close>

definition fresh_keys :: "on_demand \<Rightarrow> rstore \<Rightarrow> rat \<Rightarrow> rat \<Rightarrow> string list" where
  "fresh_keys M s a t = filter (\<lambda>k. \<exists>u. registered M s k = Some u \<and> t - u \<le> a) (rs_sets s (od_set M))"

lemma registered_pruned:
  "registered M (hdel (od_beats M) ks (srem (od_set M) ks s)) k = (if k \<in> set ks then None else registered M s k)"
  by (simp add: registered_def beat_of_def map_of_filter_keys)

definition calm :: "env \<Rightarrow> bool" where
  "calm env \<longleftrightarrow> (\<forall>n. fault env n = None)"

lemma registered_iff:
  assumes "od_inv M E s" and "good_times E"
  shows "registered M s k = Some u \<longleftrightarrow> k \<in> set (rs_sets s (od_set M)) \<and> map_of (rs_hashes s (od_beats M)) k = Some (float_repr (Fin u)) \<and> (k, u) \<in> E"
proof (cases "map_of (rs_hashes s (od_beats M)) k")
  case None
  then show ?thesis by (simp add: registered_def beat_of_def)
next
  case (Some v)
  have "\<forall>k v. map_of (rs_hashes s (od_beats M)) k = Some v \<longrightarrow> (\<exists>t. v = float_repr (Fin t) \<and> (k, t) \<in> E)"
    using assms(1) by (simp add: od_inv_def)
  with Some obtain t where t: "v = float_repr (Fin t)" "(k, t) \<in> E" by blast
  with assms(2) have d: "decimal17 t" "t > 0" by (auto simp: good_times_def)
  have "beat_of M s k = Some t" using Some t(1) d float_text [OF d(1)] by (simp add: beat_of_def del: float_repr.simps)
  moreover have "w = t" if "float_repr (Fin t) = float_repr (Fin w)" "(k, w) \<in> E" for w
  proof -
    have "decimal17 w" using that(2) assms(2) by (auto simp: good_times_def)
    from float_text [OF d(1)] float_text [OF this] show ?thesis unfolding that(1) by simp
  qed
  ultimately show ?thesis using Some t by (auto simp: registered_def simp del: float_repr.simps)
qed

context on_demand_keys begin

lemma fresh_registered:
  assumes "od_inv M E s" "good_times E" "k \<in> set (rs_sets s (od_set M))"
  shows "is_fresh (Fin a) (Fin t) (map (\<lambda>(f, v). (RText f, RText v)) (rs_hashes s (od_beats M))) k
     \<longleftrightarrow> (\<exists>u. registered M s k = Some u \<and> t - u \<le> a)"
proof -
  have "\<forall>k v. map_of (rs_hashes s (od_beats M)) k = Some v \<longrightarrow> (\<exists>t. v = float_repr (Fin t) \<and> (k, t) \<in> E)"
    using assms(1) by (simp add: od_inv_def)
  from fresh_beat [OF this] assms show ?thesis by (simp add: registered_iff [OF assms(1,2)] good_times_def)
qed

lemma look_calm:
  assumes inv: "od_inv M E s" "good_times E" and env: "calm env"
  shows "\<exists>n'. look_on_demand M RText (Fin a) (Fin t) env (s, n) =
    (Inr (fresh_keys M s a t, filter (\<lambda>k. k \<notin> set (fresh_keys M s a t)) (rs_sets s (od_set M))), (s, n'))"
proof (cases "rs_sets s (od_set M) = []")
  case True
  with env show ?thesis by (simp add: look_on_demand_def tx_simps calm_def fresh_keys_def)
next
  case False
  let ?b = "map (\<lambda>(f, v). (RText f, RText v)) (rs_hashes s (od_beats M))"
  have f: "filter (is_fresh (Fin a) (Fin t) ?b) (rs_sets s (od_set M)) = fresh_keys M s a t"
    unfolding fresh_keys_def by (rule filter_cong) (auto simp: fresh_registered [OF inv])
  moreover have "filter (\<lambda>k. \<not> is_fresh (Fin a) (Fin t) ?b k) (rs_sets s (od_set M)) = filter (\<lambda>k. k \<notin> set (fresh_keys M s a t)) (rs_sets s (od_set M))"
    unfolding f [symmetric] by (rule filter_cong) auto
  ultimately show ?thesis using False env by (simp add: look_on_demand_def tx_simps calm_def members_keys [OF inv(1)])
qed

lemma list_calm:
  assumes inv: "od_inv M E s" "good_times E" and env: "calm env"
  shows "fst (list_fresh_on_demand M (Some RText) (Fin a) (Fin t) env (s, n)) = Inr (sort (fresh_keys M s a t))"
    and "registered M (fst (snd (list_fresh_on_demand M (Some RText) (Fin a) (Fin t) env (s, n)))) =
      spec_call M (ListFresh a t) (registered M s)"
proof -
  let ?stale = "filter (\<lambda>k. k \<notin> set (fresh_keys M s a t)) (rs_sets s (od_set M))"
  let ?s' = "if ?stale = [] then s else hdel (od_beats M) ?stale (srem (od_set M) ?stale s)"
  obtain n' where "look_on_demand M RText (Fin a) (Fin t) env (s, n) = (Inr (fresh_keys M s a t, ?stale), (s, n'))"
    using look_calm [OF inv env, of a t n] by blast
  then have run: "fst (list_fresh_on_demand M (Some RText) (Fin a) (Fin t) env (s, n)) = Inr (sort (fresh_keys M s a t))
     \<and> fst (snd (list_fresh_on_demand M (Some RText) (Fin a) (Fin t) env (s, n))) = ?s'"
    using env by (simp add: list_fresh_on_demand_def prune_on_demand_def attempt_def tx_simps calm_def)
  then show "fst (list_fresh_on_demand M (Some RText) (Fin a) (Fin t) env (s, n)) = Inr (sort (fresh_keys M s a t))" by blast
  have "registered M ?s' k = spec_call M (ListFresh a t) (registered M s) k" for k
  proof -
    have "k \<in> set (fresh_keys M s a t) \<longleftrightarrow> k \<in> set (rs_sets s (od_set M)) \<and> (\<exists>u. registered M s k = Some u \<and> t - u \<le> a)"
      by (auto simp: fresh_keys_def)
    moreover have "registered M s k \<noteq> None \<Longrightarrow> k \<in> set (rs_sets s (od_set M))" by (simp add: registered_def split: if_splits)
    moreover have "registered M ?s' k = (if k \<in> set ?stale then None else registered M s k)"
      using registered_pruned [of M ?stale s k] by (simp del: set_filter)
    ultimately show ?thesis by (cases "registered M s k") auto
  qed
  then show "registered M (fst (snd (list_fresh_on_demand M (Some RText) (Fin a) (Fin t) env (s, n)))) =
      spec_call M (ListFresh a t) (registered M s)" using run by (simp add: fun_eq_iff)
qed

end

lemma registered_other: "registered M (del_key x s) = registered M s"
  by (simp add: fun_eq_iff registered_def beat_of_def)

lemma removed_keys: "calm env \<Longrightarrow> \<exists>n' s'. tx_each (\<lambda>k. update (del_key (f k))) ks env (s, n) = (Inr (), (s', n')) \<and> registered M s' = registered M s"
proof (induction ks arbitrary: s n)
  case (Cons k ks)
  from Cons.IH [OF Cons.prems, of "del_key (f k) s" "Suc n"] Cons.prems show ?case
    by (simp add: tx_simps calm_def registered_other)
qed (simp add: tx_simps)

context on_demand_keys begin

lemma ensure_calm:
  assumes "calm env" and "decimal17 t" and "t > 0"
  shows "registered M (od_step M (env, Ensure xs t) s) = spec_call M (Ensure xs t) (registered M s)"
  using assms float_text [OF assms(2)]
  by (auto simp: fun_eq_iff ensure_on_demand_def Let_def tx_simps calm_def registered_def beat_of_def
      set_fold_insert map_of_fold_update simp del: float_repr.simps)

lemma remove_calm:
  assumes "calm env"
  shows "registered M (od_step M (env, Remove xs) s) = spec_call M (Remove xs) (registered M s)"
proof (cases "od_norm M xs = []")
  case False
  let ?s = "hdel (od_beats M) (od_norm M xs) (srem (od_set M) (od_norm M xs) s)"
  obtain n' s' where run: "tx_each (\<lambda>k. update (del_key (od_cache M k))) (od_norm M xs) env (?s, 2) = (Inr (), (s', n'))"
    and r: "registered M s' = registered M ?s" using removed_keys [OF assms] by blast
  have "od_step M (env, Remove xs) s = s'"
    using False assms run by (simp add: remove_on_demand_def Let_def tx_simps calm_def numeral_2_eq_2)
  with r show ?thesis by (simp add: fun_eq_iff registered_pruned)
qed (simp add: remove_on_demand_def tx_simps fun_eq_iff)

lemma step_refines:
  assumes "od_inv M E s" "good_times E" "calm env" "call_ok c"
  shows "registered M (od_step M (env, c) s) = spec_call M c (registered M s)"
  using assms ensure_calm remove_calm list_calm(2) by (cases c) simp_all

lemma run_refines:
  assumes "\<forall>(env, c) \<in> set calls. calm env \<and> call_ok c" and "(\<Union>x \<in> set calls. asked M (snd x)) \<subseteq> E" and "good_times E" and "od_inv M E s"
  shows "registered M (fold (od_step M) calls s) = fold (spec_call M) (map snd calls) (registered M s)"
  using assms
proof (induction calls arbitrary: s)
  case (Cons x calls)
  obtain env c where x: "x = (env, c)" by (cases x)
  have "od_inv M E (od_step M x s)" using Cons.prems step_keeps unfolding x by (intro step_keeps) auto
  with Cons x show ?case by (simp add: step_refines)
qed simp

lemma empty_ok: "od_inv M E empty_store" "registered M empty_store = Map.empty"
  by (simp_all add: od_inv_def empty_store_def registered_def fun_eq_iff)

lemma good_asked: "\<forall>(env, c) \<in> set calls. call_ok c \<Longrightarrow> good_times (\<Union>x \<in> set calls. asked M (snd x))"
proof -
  assume a: "\<forall>(env, c) \<in> set calls. call_ok c"
  have "decimal17 t \<and> t > 0" if "(k, t) \<in> asked M c" "call_ok c" for k t c using that by (cases c) auto
  with a show ?thesis by (fastforce simp: good_times_def)
qed

lemma listed_exactly:
  assumes calls: "\<forall>(env, c) \<in> set calls. calm env \<and> call_ok c" and env: "calm env"
  shows "fst (list_fresh_on_demand M (Some RText) (Fin a) (Fin t) env (fold (od_step M) calls empty_store, n)) =
     Inr (sorted_list_of_set {k. \<exists>u. fold (spec_call M) (map snd calls) Map.empty k = Some u \<and> t - u \<le> a})"
proof -
  let ?E = "\<Union>x \<in> set calls. asked M (snd x)" and ?s = "fold (od_step M) calls empty_store"
  have E: "good_times ?E" using calls by (intro good_asked) auto
  have inv: "od_inv M ?E ?s" by (rule steps_keep [OF subset_refl empty_ok(1)])
  have reg: "registered M ?s = fold (spec_call M) (map snd calls) Map.empty"
    using run_refines [OF calls subset_refl E empty_ok(1)] by (simp add: empty_ok(2))
  have "set (fresh_keys M ?s a t) = {k. \<exists>u. registered M ?s k = Some u \<and> t - u \<le> a}"
    by (auto simp: fresh_keys_def registered_def split: if_splits)
  moreover have "distinct (fresh_keys M ?s a t)" using inv by (simp add: fresh_keys_def od_inv_def)
  ultimately have "sort (fresh_keys M ?s a t) = sorted_list_of_set {k. \<exists>u. registered M ?s k = Some u \<and> t - u \<le> a}"
    by (metis sorted_list_of_set_sort_remdups distinct_remdups_id)
  with list_calm(1) [OF inv E env, of a t n] show ?thesis by (simp add: reg)
qed

lemma listed_alive:
  assumes ok: "\<forall>(env, c) \<in> set calls. call_ok c"
    and run: "list_fresh_on_demand M (Some RText) (Fin a) (Fin t) env (fold (od_step M) calls empty_store, n) = (Inr ks, s')" and k: "k \<in> set ks"
  shows "\<exists>u. (k, u) \<in> (\<Union>x \<in> set calls. asked M (snd x)) \<and> t - u \<le> a"
proof -
  let ?E = "\<Union>x \<in> set calls. asked M (snd x)" and ?s = "fold (od_step M) calls empty_store"
  let ?b = "map (\<lambda>(f, v). (RText f, RText v)) (rs_hashes ?s (od_beats M))"
  have E: "good_times ?E" using ok by (rule good_asked)
  have inv: "od_inv M ?E ?s" by (rule steps_keep [OF subset_refl empty_ok(1)])
  have none: "\<not> is_fresh (Fin a) (Fin t) [] k" by (simp add: is_fresh_def last_beat_def positive_def)
  from run k have "is_fresh (Fin a) (Fin t) ?b k"
    using none by (auto simp: list_fresh_on_demand_def look_on_demand_def prune_on_demand_def attempt_def tx_simps Let_def
        split: option.splits if_splits prod.splits)
  moreover have "\<forall>k v. map_of (rs_hashes ?s (od_beats M)) k = Some v \<longrightarrow> (\<exists>t. v = float_repr (Fin t) \<and> (k, t) \<in> ?E)"
    using inv unfolding od_inv_def by blast
  ultimately show ?thesis using fresh_beat [of "rs_hashes ?s (od_beats M)" ?E a t k] E unfolding good_times_def by blast
qed

end

section \<open>The keys of the two modules\<close>

lemma stk_keys: "k \<in> set (normalize_stk_from seen xs) \<Longrightarrow> \<exists>raw. k = upper (strip raw) \<and> k \<noteq> []"
  by (induction seen xs rule: normalize_stk_from.induct) (auto simp: Let_def split: if_splits)

lemma opt_key_shape:
  assumes "normal_opt_key raw = Some k"
  shows "k \<noteq> [] \<and> strip k = k"
proof -
  from assms obtain sym0 expiry strike right where k: "k = upper (strip sym0) @ ''|OPT|'' @ expiry @ ''|'' @ strike @ ''|'' @ right"
    and sym: "upper (strip sym0) \<noteq> []" and r: "right \<in> {''C'', ''P''}"
    by (auto simp: normal_opt_key_def Let_def split: if_splits list.splits)
  have s: "strip_by is_space (upper sym0) = upper (strip sym0)" unfolding strip_def [symmetric] by simp
  with sym have "\<not> is_space (hd (upper (strip sym0)))" using strip_by_ends [of is_space "upper sym0"] by simp
  then have "\<not> is_space (hd k)" using sym by (simp add: k)
  moreover have "\<not> is_space (last k)" using r by (auto simp: k is_space_def py_spaces_def)
  ultimately show ?thesis unfolding strip_def by (simp add: strip_by_id) (simp add: k)
qed

lemma opt_keys: "k \<in> set (normalize_opt_from seen xs) \<Longrightarrow> k \<noteq> [] \<and> strip k = k"
  by (induction seen xs rule: normalize_opt_from.induct) (auto dest: opt_key_shape split: option.splits if_splits)

interpretation stk: on_demand_keys stk_list
proof
  fix k xs
  assume "k \<in> set (od_norm stk_list xs)"
  then obtain raw where "k = upper (strip raw)" "k \<noteq> []"
    using stk_keys by (fastforce simp: stk_list_def normalize_stk_symbols_def)
  then show "k \<noteq> [] \<and> od_member stk_list k = k" by (simp add: stk_list_def)
qed

interpretation opt: on_demand_keys opt_list
  by unfold_locales (use opt_keys in \<open>auto simp: opt_list_def normalize_opt_contract_keys_def\<close>)


section \<open>The lists\<close>

text \<open>
  C17. The list is the specification's: after any calls of \<open>ensure\<close>, \<open>remove\<close> and the list itself that Redis
  answered, the list of either module at a time is exactly the keys that were asked for, not removed since,
  and not found too old by an earlier list, whose last time is at most the given age ago, in order.
\<close>

theorem on_demand_list_is_exact:
  assumes "M \<in> {stk_list, opt_list}" and "\<forall>(env, c) \<in> set calls. calm env \<and> call_ok c" and "calm env"
  shows "fst (list_fresh_on_demand M (Some RText) (Fin a) (Fin t) env (fold (od_step M) calls empty_store, n)) =
     Inr (sorted_list_of_set {k. \<exists>u. fold (spec_call M) (map snd calls) Map.empty k = Some u \<and> t - u \<le> a})"
  using assms(1) stk.listed_exactly [OF _ assms(3)] opt.listed_exactly [OF _ assms(3)] assms(2) by blast

theorem on_demand_list_is_exact_witness:
  "fst (list_fresh_on_demand stk_list (Some RText) (Fin 120) (Fin 1100) (calm_env 0)
     (fold (od_step stk_list) [(calm_env 0, Ensure ['' aapl'', ''MSFT''] 1000), (calm_env 0, Remove [''msft''])] empty_store, 0)) = Inr [''AAPL'']"
proof -
  have "(1000 :: rat) = of_int 1000" by simp
  then have "decimal17 1000" by (metis decimal17_of_int)
  then have ok: "\<forall>(env, c) \<in> set [(calm_env 0, Ensure ['' aapl'', ''MSFT''] 1000), (calm_env 0, Remove [''msft''])]. calm env \<and> call_ok c" by (simp add: calm_def)
  have norm: "od_norm stk_list ['' aapl'', ''MSFT''] = [''AAPL'', ''MSFT'']" "od_norm stk_list [''msft''] = [''MSFT'']" by code_simp+
  have "{k. \<exists>u. fold (spec_call stk_list) [Ensure ['' aapl'', ''MSFT''] 1000, Remove [''msft'']] Map.empty k = Some u \<and> 1100 - u \<le> 120} = {''AAPL''}"
    by (auto simp: norm split: if_splits)
  with on_demand_list_is_exact [of stk_list, OF _ ok, of "calm_env 0" 120 1100 0] show ?thesis by (simp add: calm_def)
qed

text \<open>
  C28. Whatever Redis refuses, in any call, nothing is listed that was not asked for: a listed key was asked
  for at most the given age ago.
\<close>

theorem listed_keys_were_asked_for:
  assumes "M \<in> {stk_list, opt_list}" and "\<forall>(env, c) \<in> set calls. call_ok c"
    and "list_fresh_on_demand M (Some RText) (Fin a) (Fin t) env (fold (od_step M) calls empty_store, n) = (Inr ks, s')" and "k \<in> set ks"
  shows "\<exists>env' xs u. (env', Ensure xs u) \<in> set calls \<and> k \<in> set (od_norm M xs) \<and> t - u \<le> a"
proof -
  have "\<exists>u. (k, u) \<in> (\<Union>x \<in> set calls. asked M (snd x)) \<and> t - u \<le> a"
    using assms(1)
  proof (elim insertE emptyE)
    assume M: "M = stk_list"
    show ?thesis unfolding M by (rule stk.listed_alive [OF assms(2) assms(3) [unfolded M] assms(4)])
  next
    assume M: "M = opt_list"
    show ?thesis unfolding M by (rule opt.listed_alive [OF assms(2) assms(3) [unfolded M] assms(4)])
  qed
  then obtain u where u: "(k, u) \<in> (\<Union>x \<in> set calls. asked M (snd x))" "t - u \<le> a" by blast
  then obtain env' c where c: "(env', c) \<in> set calls" "(k, u) \<in> asked M c" by auto
  then obtain xs where "c = Ensure xs u" "k \<in> set (od_norm M xs)" by (cases c) auto
  with c u(2) show ?thesis by blast
qed

theorem listed_keys_were_asked_for_witness:
  "\<exists>env' xs u. (env', Ensure xs u) \<in> set [(calm_env 0, Ensure [''AAPL''] 1000)] \<and> ''AAPL'' \<in> set (od_norm stk_list xs) \<and> 1100 - u \<le> 120"
proof -
  let ?calls = "[(calm_env 0, Ensure [''AAPL''] 1000)]"
  let ?r = "list_fresh_on_demand stk_list (Some RText) (Fin 120) (Fin 1100) (calm_env 0) (fold (od_step stk_list) ?calls empty_store, 0)"
  have "(1000 :: rat) = of_int 1000" by simp
  then have ok: "\<forall>(env, c) \<in> set ?calls. call_ok c" by (simp del: of_int_numeral) (metis decimal17_of_int of_int_numeral)
  have "fst ?r = Inr [''AAPL'']" by code_simp
  then have r: "?r = (Inr [''AAPL''], snd ?r)" by (metis prod.collapse)
  show ?thesis by (rule listed_keys_were_asked_for [OF _ ok r]) simp_all
qed

section \<open>Where the lists lose keys\<close>

text \<open>
  The statement that reads the times fails once: every member counts as too old and is removed, so that
  the next list, which Redis answers in full, is empty one second after the key was asked for.
\<close>

definition second_fails :: env where
  "second_fails = (calm_env 0)\<lparr>fault := (\<lambda>n. if n = 1 then Some (OtherExc ''timeout'') else None)\<rparr>"

lemma failed_read_forgets_everyone:
  "(let s = od_step stk_list (calm_env 0, Ensure [''AAPL''] 1000) empty_store; s' = od_step stk_list (second_fails, ListFresh 120 1001) s
    in fst (list_fresh_on_demand_stk (Some RText) STK_MAX_AGE (Fin 1002) (calm_env 0) (s, 0)) = Inr [''AAPL''] \<and>
       fst (list_fresh_on_demand_stk (Some RText) STK_MAX_AGE (Fin 1002) (calm_env 0) (s', 0)) = Inr [])"
  by code_simp

text \<open>
  The page asks for a key again between the two parts of a listing that found it too old: the listing
  removes it all the same.
\<close>

lemma asked_again_and_lost:
  "(let s = od_step stk_list (calm_env 0, Ensure [''AAPL''] 1000) empty_store;
        (r, s1) = look_on_demand stk_list RText STK_MAX_AGE (Fin 2000) (calm_env 0) (s, 0);
        stale = (case r of Inr (_, x) \<Rightarrow> x | Inl _ \<Rightarrow> []);
        s2 = od_step stk_list (calm_env 0, Ensure [''AAPL''] 2000) (fst s1);
        s3 = fst (snd (prune_on_demand stk_list stale (calm_env 0) (s2, 0)))
    in fst (list_fresh_on_demand_stk (Some RText) STK_MAX_AGE (Fin 2001) (calm_env 0) (s3, 0)) = Inr [])"
  by code_simp

text \<open>A client that does not decode lists nothing: the member's text is that of a bytes object.\<close>

lemma undecoded_members:
  "fst (list_fresh_on_demand_stk (Some RBytes) STK_MAX_AGE (Fin 1001) (calm_env 0)
     (od_step stk_list (calm_env 0, Ensure [''AAPL''] 1000) empty_store, 0)) = Inr []"
  by code_simp

end
