(* ===== verification/Health.thy ===== *)
theory Health
  imports On_Demand
begin

text \<open>
  The health of the broker services: the fields of a probe (\<open>monitor/integrations/ib_probe_derived.py\<close>), the
  operator's record as a Redis hash and back (\<open>ib_operator/health_redis.py\<close>), the block of the status page
  and its lamp (\<open>monitor/integrations/ib_socket_status.py\<close>), the hashes and the host field a service
  restores in its own (\<open>core/redis_health_keys.py\<close>, \<open>core/ops_lease.py\<close>).

  A hash read from Redis is a dictionary of texts; the clock is an argument; float arithmetic is exact.
\<close>

section \<open>Floats\<close>

definition fadd :: "pyfloat \<Rightarrow> pyfloat \<Rightarrow> pyfloat" where
  "fadd a b = fsub a (fneg b)"

fun fmul :: "pyfloat \<Rightarrow> pyfloat \<Rightarrow> pyfloat" where
  "fmul (Fin a) (Fin b) = Fin (a * b)"
| "fmul NaN _ = NaN"
| "fmul _ NaN = NaN"
| "fmul (Fin a) y = (if a = 0 then NaN else if a > 0 then y else fneg y)"
| "fmul x (Fin b) = (if b = 0 then NaN else if b > 0 then x else fneg x)"
| "fmul PosInf y = y"
| "fmul NegInf y = fneg y"

definition flt :: "pyfloat \<Rightarrow> pyfloat \<Rightarrow> bool" where
  "flt a b \<longleftrightarrow> fle a b \<and> \<not> fle b a"

text \<open>\<open>x or d\<close> of a float, and \<open>max(0.0, x)\<close>.\<close>

definition float_or :: "pyfloat \<Rightarrow> pyfloat \<Rightarrow> pyfloat" where
  "float_or x d = (if x = Fin 0 then d else x)"

definition max0 :: "pyfloat \<Rightarrow> pyfloat" where
  "max0 x = (if flt (Fin 0) x then x else Fin 0)"

text \<open>\<open>try: float(v) except (TypeError, ValueError): d\<close>.\<close>

definition float_else :: "pyfloat \<Rightarrow> pyval \<Rightarrow> pyfloat" where
  "float_else d v = (case py_float v of Inl _ \<Rightarrow> d | Inr x \<Rightarrow> x)"

definition yes_text :: "string list \<Rightarrow> pyval \<Rightarrow> bool" where
  "yes_text ws v \<longleftrightarrow> lower (strip (py_str v)) \<in> set ws"

section \<open>Probe fields\<close>

definition attach_ib_probe_derived :: "pyfloat \<Rightarrow> pyfloat \<Rightarrow> bool \<Rightarrow> pyfloat \<Rightarrow> pyfloat \<Rightarrow> pydict \<Rightarrow> pydict" where
  "attach_ib_probe_derived probe_at probe_interval probe_ok stale_mult tm target =
     (if fle probe_at (Fin 0) then target
      else let iv = (if fle probe_interval (Fin 0) then Fin 5 else probe_interval);
               sm0 = float_or stale_mult (Fin (5/2)); sm = (if flt sm0 (Fin 1) then Fin 1 else sm0)
           in dset ''ib_probe_stale'' (PBool (flt (fmul sm iv) (fsub tm probe_at)))
             (dset ''next_ib_probe_in_s'' (PFloat (max0 (fsub (fadd probe_at iv) tm)))
             (dset ''ib_probe_ok'' (PBool probe_ok) (dset ''ib_probe_interval_sec'' (PFloat iv)
             (dset ''last_ib_probe_at'' (PFloat probe_at) target)))))"

definition parse_redis_probe_triple :: "pydict \<Rightarrow> string \<times> string \<times> string \<Rightarrow> pyfloat \<times> bool \<times> pyfloat" where
  "parse_redis_probe_triple h ks = (case ks of (at_key, ok_key, iv_key) \<Rightarrow>
     (float_else (Fin 0) (py_or (dget h at_key) (PInt 0)),
      (case dget h ok_key of PBool b \<Rightarrow> b | PInt i \<Rightarrow> i \<noteq> 0 | PFloat x \<Rightarrow> x \<noteq> Fin 0
       | v \<Rightarrow> yes_text [''1'', ''true'', ''yes'', ''on''] (py_or v (PStr []))),
      float_else (Fin 0) (py_or (dget h iv_key) (PInt 0))))"

definition attach_service_heartbeat_derived :: "pyfloat \<Rightarrow> pyfloat \<Rightarrow> pyfloat \<Rightarrow> pydict \<Rightarrow> pydict" where
  "attach_service_heartbeat_derived iv lh tm target =
     (if fle iv (Fin 0) then target
      else dset ''next_service_heartbeat_in_s'' (PFloat (if fle lh (Fin 0) then iv else max0 (fsub (fadd lh iv) tm)))
        (dset ''last_service_heartbeat_at'' (if flt (Fin 0) lh then PFloat lh else PNone)
        (dset ''service_heartbeat_interval_sec'' (PFloat iv) target)))"

section \<open>The operator's record in Redis\<close>

definition LEGACY_OPERATOR_HEALTH_HASH_FIELDS :: "string list" where
  "LEGACY_OPERATOR_HEALTH_HASH_FIELDS = [''operator_connected'', ''operator_client_id'', ''operator_last_error'', ''operator_alive'',
     ''account2_present'', ''account2_connected'', ''account2_client_id'', ''account2_last_error'', ''account2_reconnects'', ''reconnects'']"

definition prune_legacy_operator_health_hash_fields :: "string \<Rightarrow> (rstore, unit) tx" where
  "prune_legacy_operator_health_hash_fields key = attempt (update (hdel key LEGACY_OPERATOR_HEALTH_HASH_FIELDS))"

definition text_flag :: "pyval \<Rightarrow> bool" where
  "text_flag v = (case v of PStr s \<Rightarrow> strip s \<in> {''1'', ''true'', ''True'', ''yes'', ''Yes''} | _ \<Rightarrow> False)"

definition jsonish_connected :: "pyval \<Rightarrow> bool" where
  "jsonish_connected v = (case v of PBool b \<Rightarrow> b | PInt i \<Rightarrow> i \<noteq> 0 | PFloat x \<Rightarrow> x \<noteq> Fin 0
     | PStr s \<Rightarrow> lower (strip s) \<in> {''1'', ''true'', ''yes''} | _ \<Rightarrow> False)"

definition err_from_field :: "pyval \<Rightarrow> pyval" where
  "err_from_field v = (if v = PStr [] then PNone else v)"

text \<open>\<open>_safe_int\<close>: only an infinity is not caught, and no text is one.\<close>

definition blank :: "pyval \<Rightarrow> bool" where
  "blank v \<longleftrightarrow> v = PNone \<or> strip (py_str v) = []"

definition safe_int :: "int \<Rightarrow> pyval \<Rightarrow> exc + int" where
  "safe_int d v = (if blank v then Inr d
     else (case py_int v of Inr i \<Rightarrow> Inr i | Inl OverflowErr \<Rightarrow> Inl (PyErr OverflowErr) | Inl _ \<Rightarrow> Inr d))"

definition text_int :: "pyval \<Rightarrow> int" where
  "text_int v = (case safe_int 0 v of Inr i \<Rightarrow> i | Inl _ \<Rightarrow> 0)"

definition field_first :: "pydict \<Rightarrow> string list \<Rightarrow> pyval" where
  "field_first m ks = (case find (\<lambda>k. \<not> blank (dget m k)) ks of None \<Rightarrow> PNone | Some k \<Rightarrow> dget m k)"

definition flag_text :: "bool \<Rightarrow> pyval" where
  "flag_text b = PStr (if b then ''1'' else ''0'')"

definition float_field :: "pyval \<Rightarrow> exc + pyfloat" where
  "float_field v = (case py_float (py_or v (PInt 0)) of Inl e \<Rightarrow> Inl (PyErr e) | Inr x \<Rightarrow> Inr x)"

definition int_field :: "pyval \<Rightarrow> exc + int" where
  "int_field v = (case py_int (py_or v (PInt 0)) of Inl e \<Rightarrow> Inl (PyErr e) | Inr x \<Rightarrow> Inr x)"

definition error_text :: "pyval \<Rightarrow> pyval" where
  "error_text v = PStr (if v = PNone then [] else py_str v)"

text \<open>The fields of one slot, with the prefix of its names.\<close>

definition slot_fields :: "string \<Rightarrow> pydict \<Rightarrow> exc + pydict" where
  "slot_fields p slot =
     ebind (float_field (dget slot ''ib_probe_at'')) (\<lambda>pa. ebind (float_field (dget slot ''ib_probe_interval_sec'')) (\<lambda>iv.
     ebind (int_field (dget slot ''client_id'')) (\<lambda>cid. ebind (int_field (dget slot ''reconnects'')) (\<lambda>rc.
       Inr [(p @ ''connected'', flag_text (jsonish_connected (dget slot ''connected''))), (p @ ''client_id'', PStr (int_str cid)),
         (p @ ''last_error'', error_text (dget slot ''last_error'')), (p @ ''reconnects'', PStr (int_str rc)),
         (p @ ''ib_probe_at'', PStr (float_repr pa)), (p @ ''ib_probe_ok'', flag_text (jsonish_connected (dget slot ''ib_probe_ok''))),
         (p @ ''ib_probe_interval_sec'', PStr (float_repr iv))]))))"

definition no_secondary_fields :: pydict where
  "no_secondary_fields = [(''secondary_present'', PStr ''0''), (''secondary_connected'', PStr ''0''), (''secondary_client_id'', PStr ''0''),
     (''secondary_last_error'', PStr []), (''secondary_reconnects'', PStr ''0''), (''secondary_ib_probe_at'', PStr ''0''),
     (''secondary_ib_probe_ok'', PStr ''0''), (''secondary_ib_probe_interval_sec'', PStr ''0'')]"

definition dict_of :: "pyval \<Rightarrow> pydict" where
  "dict_of v = (case v of PDict d \<Rightarrow> d | _ \<Rightarrow> [])"

definition get_default :: "pydict \<Rightarrow> string \<Rightarrow> pyval \<Rightarrow> pyval" where
  "get_default d k v = (if dhas d k then dget d k else v)"

definition operator_health_dict_to_redis_hash :: "pyfloat \<Rightarrow> pydict \<Rightarrow> exc + pydict" where
  "operator_health_dict_to_redis_hash tm h =
     (let host0 = dict_of (dget h ''host''); host = (if host0 = [] then dict_of (dget h ''operator'') else host0);
          sec = (if dget h ''secondary'' = PNone \<and> dget h ''account2'' \<noteq> PNone then dget h ''account2'' else dget h ''secondary'');
          alive = jsonish_connected (get_default h ''service_alive'' (get_default h ''operator_alive'' (PBool True)));
          busy = dget h ''service_heartbeat_reconnect_in_progress''
      in ebind (case py_float (py_or (get_default h ''updated_at'' (PFloat tm)) (PFloat tm)) of Inl e \<Rightarrow> Inl (PyErr e) | Inr x \<Rightarrow> Inr x) (\<lambda>updated.
         ebind (float_field (dget h ''last_cmd_ts'')) (\<lambda>last_cmd. ebind (int_field (dget h ''cmd_count'')) (\<lambda>count.
         ebind (float_field (dget host ''ib_probe_at'')) (\<lambda>_. ebind (float_field (dget host ''ib_probe_interval_sec'')) (\<lambda>_.
         ebind (float_field (dget h ''service_heartbeat_interval_sec'')) (\<lambda>sh_iv.
         ebind (float_field (dget h ''last_service_heartbeat_at'')) (\<lambda>sh_last.
         ebind (float_field (dget h ''next_service_heartbeat_in_s'')) (\<lambda>sh_next.
         ebind (slot_fields ''host_'' host) (\<lambda>host_fields.
         ebind (case sec of PDict s \<Rightarrow> ebind (slot_fields ''secondary_'' s) (\<lambda>fs. Inr ((''secondary_present'', PStr ''1'') # fs))
                | _ \<Rightarrow> Inr no_secondary_fields) (\<lambda>sec_fields.
           Inr (host_fields @ [(''host_alive'', flag_text alive), (''msg_count'', PStr (int_str count)),
             (''last_msg_ts'', PStr (float_repr (if flt (Fin 0) last_cmd then last_cmd else updated))), (''updated_at'', PStr (float_repr updated)),
             (''service_heartbeat_interval_sec'', PStr (float_repr sh_iv)), (''last_service_heartbeat_at'', PStr (float_repr sh_last)),
             (''next_service_heartbeat_in_s'', PStr (float_repr sh_next)),
             (''service_heartbeat_reconnect_in_progress'', PStr (if busy = PNone then [] else py_str busy))]
             @ sec_fields))))))))))))"

text \<open>\<open>_probe_float\<close>: of a field of the hash.\<close>

definition probe_float :: "pyval \<Rightarrow> pyfloat" where
  "probe_float v = (if blank v then Fin 0 else float_else (Fin 0) v)"

definition slot_read :: "string list \<Rightarrow> string list \<Rightarrow> string list \<Rightarrow> string list \<Rightarrow> string \<Rightarrow> pydict \<Rightarrow> pydict" where
  "slot_read conn cid err rc p m =
     [(''connected'', PBool (text_flag (field_first m conn))), (''client_id'', PInt (text_int (field_first m cid))),
      (''last_error'', err_from_field (field_first m err)), (''reconnects'', PInt (text_int (field_first m rc))),
      (''ib_probe_at'', PFloat (probe_float (dget m (p @ ''ib_probe_at'')))), (''ib_probe_ok'', PBool (text_flag (dget m (p @ ''ib_probe_ok'')))),
      (''ib_probe_interval_sec'', PFloat (probe_float (dget m (p @ ''ib_probe_interval_sec''))))]"

definition secondary_shown :: "pydict \<Rightarrow> bool" where
  "secondary_shown m =
     (let p = field_first m [''secondary_present'', ''account2_present'']
      in if p = PNone then field_first m [''secondary_connected'', ''account2_connected''] \<noteq> PNone
                        \<or> field_first m [''secondary_client_id'', ''account2_client_id''] \<noteq> PNone
         else text_flag p)"

text \<open>The hash is not empty here; its values are texts.\<close>

definition operator_health_dict_from_redis_hash :: "pydict \<Rightarrow> pydict option" where
  "operator_health_dict_from_redis_hash m =
     (if m = [] then None
      else let host = PDict (slot_read [''host_connected'', ''operator_connected''] [''host_client_id'', ''operator_client_id'']
                 [''host_last_error'', ''operator_last_error''] [''host_reconnects'', ''reconnects''] ''host_'' m);
               alive = PBool (text_flag (py_or (field_first m [''host_alive'', ''operator_alive'']) (PStr ''1'')));
               sec = (if secondary_shown m
                      then PDict (slot_read [''secondary_connected'', ''account2_connected''] [''secondary_client_id'', ''account2_client_id'']
                        [''secondary_last_error'', ''account2_last_error''] [''secondary_reconnects'', ''account2_reconnects''] ''secondary_'' m)
                      else PNone)
           in Some [(''host'', host), (''service_alive'', alive), (''msg_count'', PInt (text_int (dget m ''msg_count''))),
             (''service_heartbeat_interval_sec'', PFloat (probe_float (dget m ''service_heartbeat_interval_sec''))),
             (''last_service_heartbeat_at'', PFloat (probe_float (dget m ''last_service_heartbeat_at''))),
             (''next_service_heartbeat_in_s'', PFloat (probe_float (dget m ''next_service_heartbeat_in_s''))),
             (''service_heartbeat_reconnect_in_progress'', PStr (stripped (dget m ''service_heartbeat_reconnect_in_progress''))),
             (''last_msg_ts'', PFloat (float_else (Fin 0) (py_or (dget m ''last_msg_ts'') (PInt 0)))),
             (''secondary'', sec), (''operator'', host), (''operator_alive'', alive), (''account2'', sec)])"

definition normalize_operator_health_payload :: "pydict \<Rightarrow> pydict" where
  "normalize_operator_health_payload d =
     (let d1 = (if \<not> dhas d ''host'' then (case dget d ''operator'' of PDict x \<Rightarrow> dset ''host'' (PDict x) d | _ \<Rightarrow> d) else d);
          d2 = (if \<not> dhas d1 ''secondary'' \<and> dhas d1 ''account2'' then dset ''secondary'' (dget d1 ''account2'') d1 else d1)
      in if \<not> dhas d2 ''service_alive'' \<and> dhas d2 ''operator_alive'' then dset ''service_alive'' (dget d2 ''operator_alive'') d2 else d2)"

section \<open>The block of the status page\<close>

datatype ib_service = Ingestor | AccountAgent | Operator

type_synonym triple = "string \<times> string \<times> string"

definition probe_keys :: "string \<Rightarrow> triple" where
  "probe_keys p = (p @ ''probe_at'', p @ ''probe_ok'', p @ ''probe_interval_sec'')"

definition INGESTOR_PROBE_KEYS :: triple where "INGESTOR_PROBE_KEYS = probe_keys ''ib_''"
definition HOST_PROBE_KEYS :: triple where "HOST_PROBE_KEYS = probe_keys ''host_ib_''"
definition SECONDARY_PROBE_KEYS :: triple where "SECONDARY_PROBE_KEYS = probe_keys ''secondary_ib_''"
definition HOST_PROBE_LEGACY :: triple where "HOST_PROBE_LEGACY = probe_keys ''host_''"
definition SECONDARY_PROBE_LEGACY :: triple where "SECONDARY_PROBE_LEGACY = probe_keys ''secondary_''"

definition truthy_field :: "pyval \<Rightarrow> bool" where
  "truthy_field v = (case v of PNone \<Rightarrow> False | PBool b \<Rightarrow> b | PInt i \<Rightarrow> i \<noteq> 0 | PFloat x \<Rightarrow> x \<noteq> Fin 0
     | _ \<Rightarrow> yes_text [''1'', ''true'', ''yes'', ''on''] v)"

definition present_key :: "pydict \<Rightarrow> string \<Rightarrow> string \<Rightarrow> string" where
  "present_key h k legacy = (if field_first h [k] \<noteq> PNone then k else legacy)"

definition parse_probe_triple_with_legacy :: "pydict \<Rightarrow> triple \<Rightarrow> triple \<Rightarrow> pyfloat \<times> bool \<times> pyfloat" where
  "parse_probe_triple_with_legacy h c l = (case (c, l) of ((a, b, d), (a', b', d')) \<Rightarrow>
     parse_redis_probe_triple h (present_key h a a', present_key h b b', present_key h d d'))"

definition ib_slot_probe_unhealthy :: "pydict \<Rightarrow> bool" where
  "ib_slot_probe_unhealthy slot \<longleftrightarrow> dget slot ''ib_probe_stale'' = PBool True
     \<or> (case dget slot ''last_ib_probe_at'' of PFloat x \<Rightarrow> flt (Fin 0) x | PInt i \<Rightarrow> i > 0 | PBool b \<Rightarrow> b | _ \<Rightarrow> False)
       \<and> dget slot ''ib_probe_ok'' = PBool False"

definition cfg_int :: "pydict \<Rightarrow> string \<Rightarrow> int \<Rightarrow> exc + int" where
  "cfg_int cfg k d = (case py_int (py_or (dget cfg k) (PInt d)) of Inr i \<Rightarrow> Inr i
     | Inl OverflowErr \<Rightarrow> Inl (PyErr OverflowErr) | Inl _ \<Rightarrow> Inr d)"

definition secondary_from_hash :: "pydict \<Rightarrow> bool option" where
  "secondary_from_hash h =
     (let p = field_first h [''secondary_present'', ''account2_present'']
      in if p \<noteq> PNone then Some (truthy_field p)
         else if field_first h [''secondary_connected'', ''account2_connected'', ''secondary_client_id'', ''account2_client_id''] \<noteq> PNone
         then Some True else None)"

text \<open>\<open>h\<close> is None when the hash is not consulted.\<close>

definition secondary_slot_configured :: "ib_service \<Rightarrow> pydict \<Rightarrow> pydict option \<Rightarrow> exc + bool" where
  "secondary_slot_configured svc cfg h =
     (case Option.bind h secondary_from_hash of
        Some b \<Rightarrow> Inr b
      | None \<Rightarrow>
          (let host2 = strip (py_str (py_or (dget cfg ''ib2_host'') (PStr [])))
           in case svc of
                Operator \<Rightarrow> ebind (cfg_int cfg ''ib2_client_id_operator'' 102) (\<lambda>c. Inr (host2 \<noteq> [] \<or> c \<noteq> 102))
              | AccountAgent \<Rightarrow> ebind (cfg_int cfg ''ib2_client_id_account_agent'' 152) (\<lambda>c. Inr (host2 \<noteq> [] \<or> c \<noteq> 152))
              | Ingestor \<Rightarrow> Inr False))"

definition default_client_id :: "ib_service \<Rightarrow> pydict \<Rightarrow> bool \<Rightarrow> exc + int" where
  "default_client_id svc cfg secondary =
     (case svc of
        Ingestor \<Rightarrow> safe_int 150 (py_or (dget cfg ''client_id_market_gateway'') (py_or (dget cfg ''ib_client_id_market_gateway'')
            (py_or (dget cfg ''client_id_ib_ingestor'') (dget cfg ''ib_client_id_ib_ingestor''))))
      | AccountAgent \<Rightarrow> if secondary then safe_int 152 (dget cfg ''ib2_client_id_account_agent'')
          else safe_int 151 (py_or (dget cfg ''client_id_account_agent'') (dget cfg ''ib_client_id_account_agent''))
      | Operator \<Rightarrow> if secondary then safe_int 102 (dget cfg ''ib2_client_id_operator'')
          else safe_int 100 (py_or (dget cfg ''client_id_operator'') (dget cfg ''ib_client_id_operator'')))"

definition build_slot :: "bool \<Rightarrow> int \<Rightarrow> int \<Rightarrow> pyval \<Rightarrow> pyfloat \<times> bool \<times> pyfloat \<Rightarrow> pyfloat \<Rightarrow> pyfloat \<Rightarrow> pydict" where
  "build_slot on cid rc err probe tm mult = (case probe of (pa, ok, iv) \<Rightarrow>
     attach_ib_probe_derived pa iv ok mult tm
       [(''connected'', PBool on), (''client_id'', PInt cid), (''last_error'', err), (''reconnects'', PInt rc)])"

definition last_msg_age_s :: "pydict \<Rightarrow> pyfloat \<Rightarrow> pyval" where
  "last_msg_age_s h tm = (case dget h ''last_msg_ts'' of PNone \<Rightarrow> PNone
     | v \<Rightarrow> (case py_float v of Inl _ \<Rightarrow> PNone | Inr ts \<Rightarrow> if fle ts (Fin 0) then PNone else PFloat (max0 (fsub tm ts))))"

definition attach_service_heartbeat :: "pydict \<Rightarrow> pyfloat \<Rightarrow> pydict \<Rightarrow> pydict" where
  "attach_service_heartbeat h tm out =
     (let iv = probe_float (dget h ''service_heartbeat_interval_sec''); lh = probe_float (dget h ''last_service_heartbeat_at'');
          busy = strip (py_str (py_or (dget h ''service_heartbeat_reconnect_in_progress'') (PStr [])))
      in dset ''service_heartbeat_reconnect_in_progress'' (if busy = [] then PNone else PStr busy)
           (if flt (Fin 0) iv then attach_service_heartbeat_derived iv lh tm out else out))"

definition dark_slot :: "int \<Rightarrow> pyval \<Rightarrow> pydict" where
  "dark_slot cid err = [(''connected'', PBool False), (''client_id'', PInt cid), (''last_error'', err), (''reconnects'', PInt 0)]"

definition unreachable_status :: "ib_service \<Rightarrow> pydict \<Rightarrow> string \<Rightarrow> exc + pydict" where
  "unreachable_status svc cfg msg =
     ebind (default_client_id svc cfg False) (\<lambda>cid. ebind (secondary_slot_configured svc cfg None) (\<lambda>two.
     ebind (if two then ebind (default_client_id svc cfg True) (\<lambda>c. Inr (PDict (dark_slot c (PStr msg)))) else Inr PNone) (\<lambda>sec.
       Inr [(''connected'', PBool False), (''service_alive'', PBool False), (''operator_alive'', PBool False), (''last_msg_age_s'', PNone),
         (''reconnects'', PInt 0), (''msg_count'', PInt 0), (''host'', PDict (dark_slot cid (PStr msg))), (''secondary'', sec),
         (''service_heartbeat_reconnect_in_progress'', PNone), (''client_id'', PInt cid)])))"

definition PROBE_FIELDS :: "string list" where
  "PROBE_FIELDS = [''last_ib_probe_at'', ''ib_probe_interval_sec'', ''ib_probe_ok'', ''next_ib_probe_in_s'', ''ib_probe_stale'']"

definition ingestor_status :: "pydict \<Rightarrow> pydict \<Rightarrow> pyfloat \<Rightarrow> pyfloat \<Rightarrow> exc + pydict" where
  "ingestor_status h cfg tm mult =
     (let on = truthy_field (field_first h [''connected'', ''host_connected'']);
          p0 = parse_probe_triple_with_legacy h INGESTOR_PROBE_KEYS HOST_PROBE_KEYS;
          probe = (if fle (fst p0) (Fin 0) then parse_redis_probe_triple h HOST_PROBE_KEYS else p0)
      in ebind (default_client_id Ingestor cfg False) (\<lambda>d. ebind (safe_int d (field_first h [''client_id'', ''host_client_id''])) (\<lambda>cid.
         ebind (safe_int 0 (py_or (dget h ''reconnects'') (dget h ''host_reconnects''))) (\<lambda>rc. ebind (safe_int 0 (dget h ''msg_count'')) (\<lambda>n.
           (let host = build_slot on cid rc PNone probe tm mult
            in Inr (attach_service_heartbeat h tm (fold (\<lambda>k d. if dhas host k then dset k (dget host k) d else d) PROBE_FIELDS
              [(''connected'', PBool on), (''service_alive'', PBool True), (''last_msg_age_s'', last_msg_age_s h tm), (''reconnects'', PInt rc),
               (''msg_count'', PInt n), (''client_id'', PInt cid), (''host'', PDict host), (''secondary'', PNone)]))))))))"

definition error_field :: "pydict \<Rightarrow> string \<Rightarrow> pyval" where
  "error_field h k = (case field_first h [k] of PNone \<Rightarrow> PNone | v \<Rightarrow> if v = PStr [] then PNone else PStr (py_str v))"

text \<open>The block of a service that has an operator's shape.\<close>

definition broker_block :: "pydict \<Rightarrow> bool \<Rightarrow> bool \<Rightarrow> pyval \<Rightarrow> int \<Rightarrow> int \<Rightarrow> int \<Rightarrow> pyval \<Rightarrow> pydict" where
  "broker_block host on alive age rc n cid sec =
     [(''connected'', PBool on), (''service_alive'', PBool alive), (''operator_alive'', PBool alive), (''last_msg_age_s'', age),
      (''reconnects'', PInt rc), (''msg_count'', PInt n), (''client_id'', PInt cid), (''host'', PDict host), (''secondary'', sec)]"

definition account_agent_status :: "pydict \<Rightarrow> pydict \<Rightarrow> pyfloat \<Rightarrow> pyfloat \<Rightarrow> exc + pydict" where
  "account_agent_status h cfg tm mult =
     (let on = truthy_field (field_first h [''host_connected'', ''connected'']);
          alive = (if dhas h ''host_alive'' then truthy_field (dget h ''host_alive'') else True)
      in ebind (default_client_id AccountAgent cfg False) (\<lambda>d. ebind (safe_int d (field_first h [''host_client_id'', ''client_id''])) (\<lambda>cid.
         ebind (safe_int 0 (field_first h [''host_reconnects'', ''reconnects''])) (\<lambda>rc. ebind (safe_int 0 (dget h ''msg_count'')) (\<lambda>n.
         ebind (secondary_slot_configured AccountAgent cfg (Some h)) (\<lambda>two.
         ebind (if \<not> two then Inr PNone
                else ebind (default_client_id AccountAgent cfg True) (\<lambda>d2. ebind (safe_int d2 (dget h ''secondary_client_id'')) (\<lambda>cid2.
                     ebind (safe_int 0 (field_first h [''secondary_reconnects'', ''reconnects''])) (\<lambda>rc2.
                       Inr (PDict (build_slot (truthy_field (dget h ''secondary_connected'')) cid2 rc2 (error_field h ''secondary_last_error'')
                         (parse_probe_triple_with_legacy h SECONDARY_PROBE_KEYS SECONDARY_PROBE_LEGACY) tm mult)))))) (\<lambda>sec.
           Inr (attach_service_heartbeat h tm (broker_block
             (build_slot on cid rc (error_field h ''host_last_error'') (parse_probe_triple_with_legacy h HOST_PROBE_KEYS HOST_PROBE_LEGACY) tm mult)
             on alive (last_msg_age_s h tm) rc n cid sec)))))))))"

definition nested_slot :: "int \<Rightarrow> pydict \<Rightarrow> pyfloat \<Rightarrow> pyfloat \<Rightarrow> exc + pydict" where
  "nested_slot d s tm mult =
     ebind (safe_int d (dget s ''client_id'')) (\<lambda>cid. ebind (safe_int 0 (dget s ''reconnects'')) (\<lambda>rc.
       Inr (build_slot (jsonish_connected (dget s ''connected'')) cid rc (dget s ''last_error'')
         (probe_float (dget s ''ib_probe_at''), truthy_field (dget s ''ib_probe_ok''), probe_float (dget s ''ib_probe_interval_sec'')) tm mult)))"

definition operator_status :: "pydict \<Rightarrow> pydict \<Rightarrow> pyfloat \<Rightarrow> pyfloat \<Rightarrow> string \<Rightarrow> exc + pydict" where
  "operator_status h cfg tm mult msg =
     (case operator_health_dict_from_redis_hash (map (\<lambda>(k, v). (k, PStr (py_str v))) h) of
        None \<Rightarrow> unreachable_status Operator cfg msg
      | Some nested \<Rightarrow>
          (let alive = jsonish_connected (get_default nested ''service_alive'' (PBool True))
           in ebind (default_client_id Operator cfg False) (\<lambda>d. ebind (nested_slot d (dict_of (dget nested ''host'')) tm mult) (\<lambda>host.
              ebind (safe_int 0 (dget host ''reconnects'')) (\<lambda>rc. ebind (safe_int 0 (dget nested ''msg_count'')) (\<lambda>n.
              ebind (secondary_slot_configured Operator cfg (Some h)) (\<lambda>two.
              ebind (if \<not> two then Inr PNone
                     else ebind (default_client_id Operator cfg True) (\<lambda>d2. case dget nested ''secondary'' of
                         PDict s \<Rightarrow> ebind (nested_slot d2 s tm mult) (\<lambda>x. Inr (PDict x))
                       | _ \<Rightarrow> Inr (PDict (dark_slot d2 (if strip (py_str (py_or (dget cfg ''ib2_host'') (PStr []))) = []
                                then PStr ''Set Second IB host in Settings to enable'' else PNone))))) (\<lambda>sec.
                Inr (attach_service_heartbeat nested tm (broker_block host (jsonish_connected (dget host ''connected'')) alive
                  (last_msg_age_s nested tm) rc n (case dget host ''client_id'' of PInt i \<Rightarrow> i | _ \<Rightarrow> 0) sec))))))))))"

definition build_ib_socket_status :: "ib_service \<Rightarrow> pydict \<Rightarrow> pydict \<Rightarrow> pyfloat \<Rightarrow> pyfloat \<Rightarrow> string \<Rightarrow> exc + pydict" where
  "build_ib_socket_status svc h cfg tm mult msg =
     (if h = [] then unreachable_status svc cfg msg
      else (case svc of
          Ingestor \<Rightarrow> ingestor_status h cfg tm mult
        | AccountAgent \<Rightarrow> account_agent_status h cfg tm mult
        | Operator \<Rightarrow> operator_status h cfg tm mult msg))"

definition lamp :: "string \<Rightarrow> string \<Rightarrow> pydict" where
  "lamp colour title = [(''lamp'', PStr colour), (''title'', PStr title)]"

definition rollup_ib_broker_lamp :: "pydict \<Rightarrow> pydict" where
  "rollup_ib_broker_lamp b =
     (let host = dict_of (dget b ''host''); sec = (case dget b ''secondary'' of PDict d \<Rightarrow> Some d | _ \<Rightarrow> None);
          dead = (dget b ''service_alive'' = PBool False \<or> dget b ''operator_alive'' = PBool False);
          up = ((jsonish_connected (dget b ''connected'') \<or> jsonish_connected (dget host ''connected'')) \<and> \<not> dead);
          recent = (case dget b ''last_msg_age_s'' of PFloat x \<Rightarrow> fle x (Fin 180) | PInt i \<Rightarrow> i \<le> 180 | PBool _ \<Rightarrow> True | _ \<Rightarrow> False)
      in if ib_slot_probe_unhealthy host then lamp ''red'' ''IB Host probe stale or failed (Redis health hash).''
         else if up then
           (case sec of
              None \<Rightarrow> lamp ''green'' ''IB Broker service healthy (Host + Secondary if configured).''
            | Some s \<Rightarrow>
                if ib_slot_probe_unhealthy s then lamp ''yellow'' ''IB Host connected; Secondary probe stale or failed.''
                else if \<not> jsonish_connected (dget s ''connected'') then lamp ''yellow'' ''IB Host connected; Secondary not connected.''
                else lamp ''green'' ''IB Broker service healthy (Host + Secondary if configured).'')
         else if dead then lamp ''red'' ''IB service process reports stopped (Redis service_alive).''
         else if recent then lamp ''yellow'' ''IB service running; Host not connected yet.''
         else lamp ''red'' ''IB Host not connected; Redis health stale or missing timestamp.'')"

section \<open>The hashes of the services\<close>

definition BIFROST_HEALTH_IB_INGESTOR :: string where "BIFROST_HEALTH_IB_INGESTOR = ''bifrost:health:ws_ib_ingestor''"
definition BIFROST_HEALTH_IB_OPERATOR :: string where "BIFROST_HEALTH_IB_OPERATOR = ''bifrost:health:ws_ib_operator''"
definition BIFROST_HEALTH_IB_ACCOUNT_AGENT :: string where "BIFROST_HEALTH_IB_ACCOUNT_AGENT = ''bifrost:health:ws_ib_account_agent''"
definition LEGACY_BIFROST_IB_INGESTOR :: string where "LEGACY_BIFROST_IB_INGESTOR = ''bifrost:health:ib_ingestor''"
definition LEGACY_BIFROST_IB_OPERATOR :: string where "LEGACY_BIFROST_IB_OPERATOR = ''bifrost:health:ib_operator''"
definition LEGACY_BIFROST_IB_ACCOUNT_AGENT :: string where "LEGACY_BIFROST_IB_ACCOUNT_AGENT = ''bifrost:health:ib_account_agent''"

definition hgetall :: "string \<Rightarrow> (rstore, (string \<times> string) list) tx" where
  "hgetall k = query (\<lambda>s. rs_hashes s k)"

definition hgetall_or :: "string \<Rightarrow> string \<Rightarrow> (rstore, (string \<times> string) list) tx" where
  "hgetall_or k legacy = tx_bind (hgetall k) (\<lambda>h. if h = [] then hgetall legacy else tx_return h)"

definition hgetall_ib_ingestor_health :: "(rstore, (string \<times> string) list) tx" where
  "hgetall_ib_ingestor_health = hgetall_or BIFROST_HEALTH_IB_INGESTOR LEGACY_BIFROST_IB_INGESTOR"

definition hgetall_ib_account_agent_health :: "(rstore, (string \<times> string) list) tx" where
  "hgetall_ib_account_agent_health = hgetall_or BIFROST_HEALTH_IB_ACCOUNT_AGENT LEGACY_BIFROST_IB_ACCOUNT_AGENT"

definition hgetall_ib_operator_health :: "(rstore, (string \<times> string) list) tx" where
  "hgetall_ib_operator_health = hgetall_or BIFROST_HEALTH_IB_OPERATOR LEGACY_BIFROST_IB_OPERATOR"

definition ops_lease_key_for_service :: "string \<Rightarrow> string" where
  "ops_lease_key_for_service service = ''bifrost:ops:lease:'' @ strip service"

definition CONTROL_ENV :: string where "CONTROL_ENV = ''bifrost_ops_control_env''"
definition CONTROL_HOST :: string where "CONTROL_HOST = ''bifrost_ops_control_host''"
definition CONTROL_UPDATED :: string where "CONTROL_UPDATED = ''bifrost_ops_control_updated_at''"

definition set_text :: "string option \<Rightarrow> bool" where
  "set_text v \<longleftrightarrow> (case v of None \<Rightarrow> False | Some t \<Rightarrow> t \<noteq> [])"

text \<open>
  \<open>maintain_health_host\<close>, with the name of the host and the clock. The field is read and written in two
  commands; \<open>hget\<close> of a client that decodes.
\<close>

definition hget :: "string \<Rightarrow> string \<Rightarrow> (rstore, string option) tx" where
  "hget k f = query (\<lambda>s. map_of (rs_hashes s k) f)"

definition health_host_write :: "string \<Rightarrow> string option \<Rightarrow> string \<Rightarrow> pyfloat \<Rightarrow> string option \<Rightarrow> (rstore, unit) tx" where
  "health_host_write key profile host tm held =
     (if (case held of None \<Rightarrow> False | Some t \<Rightarrow> t \<noteq> [] \<and> strip t \<noteq> []) then update (hset key [(CONTROL_UPDATED, float_repr tm)])
      else if set_text profile
      then update (hset key [(CONTROL_ENV, the profile), (CONTROL_HOST, host), (CONTROL_UPDATED, float_repr tm)])
      else tx_return ())"

definition maintain_health_host :: "string \<Rightarrow> string option \<Rightarrow> string \<Rightarrow> pyfloat \<Rightarrow> (rstore, unit) tx" where
  "maintain_health_host key profile host tm =
     (if key = [] then tx_return ()
      else attempt (tx_bind (hget key CONTROL_HOST) (health_host_write key profile host tm)))"

definition maintain_service_ops_lease :: "string \<Rightarrow> string option \<Rightarrow> string \<Rightarrow> (rstore, unit) tx" where
  "maintain_service_ops_lease service profile host =
     (if \<not> set_text profile then tx_return ()
      else attempt (tx_bind (hget (ops_lease_key_for_service service) CONTROL_ENV) (\<lambda>held.
        if set_text held then tx_return ()
        else update (hset (ops_lease_key_for_service service) [(CONTROL_ENV, the profile), (CONTROL_HOST, host)]))))"

end
