(* ===== verification/Health_Claims.thy ===== *)
theory Health_Claims
  imports Health On_Demand_Claims
begin

text \<open>
  The health of the operator from its record, over the Redis hash, to the lamp of the status page; the
  host field of a health hash.
\<close>

section \<open>The record of the operator\<close>

record slot_state =
  sl_on :: bool
  sl_client :: int
  sl_error :: "string option"
  sl_reconnects :: int
  sl_at :: rat
  sl_ok :: bool
  sl_interval :: rat

record operator_state =
  os_host :: slot_state
  os_second :: "slot_state option"
  os_alive :: bool
  os_count :: int
  os_cmd :: rat
  os_updated :: rat
  os_interval :: rat
  os_last :: rat
  os_next :: rat
  os_busy :: "string option"

definition opt_str :: "string option \<Rightarrow> pyval" where
  "opt_str v = (case v of None \<Rightarrow> PNone | Some t \<Rightarrow> PStr t)"

definition slot_dict :: "slot_state \<Rightarrow> pydict" where
  "slot_dict s = [(''connected'', PBool (sl_on s)), (''client_id'', PInt (sl_client s)), (''last_error'', opt_str (sl_error s)),
     (''reconnects'', PInt (sl_reconnects s)), (''ib_probe_at'', PFloat (Fin (sl_at s))), (''ib_probe_ok'', PBool (sl_ok s)),
     (''ib_probe_interval_sec'', PFloat (Fin (sl_interval s)))]"

definition slot_value :: "slot_state option \<Rightarrow> pyval" where
  "slot_value v = (case v of None \<Rightarrow> PNone | Some s \<Rightarrow> PDict (slot_dict s))"

definition health_dict :: "operator_state \<Rightarrow> pydict" where
  "health_dict s = [(''host'', PDict (slot_dict (os_host s))), (''secondary'', slot_value (os_second s)),
     (''service_alive'', PBool (os_alive s)), (''cmd_count'', PInt (os_count s)), (''last_cmd_ts'', PFloat (Fin (os_cmd s))),
     (''updated_at'', PFloat (Fin (os_updated s))), (''service_heartbeat_interval_sec'', PFloat (Fin (os_interval s))),
     (''last_service_heartbeat_at'', PFloat (Fin (os_last s))), (''next_service_heartbeat_in_s'', PFloat (Fin (os_next s))),
     (''service_heartbeat_reconnect_in_progress'', opt_str (os_busy s))]"

text \<open>Numbers a float text gives back, and errors that are not blank.\<close>

definition slot_ok :: "slot_state \<Rightarrow> bool" where
  "slot_ok s \<longleftrightarrow> decimal17 (sl_at s) \<and> decimal17 (sl_interval s) \<and> (case sl_error s of None \<Rightarrow> True | Some e \<Rightarrow> strip e \<noteq> [])"

definition state_ok :: "operator_state \<Rightarrow> bool" where
  "state_ok s \<longleftrightarrow> slot_ok (os_host s) \<and> (case os_second s of None \<Rightarrow> True | Some z \<Rightarrow> slot_ok z)
     \<and> list_all decimal17 [os_cmd s, os_updated s, os_interval s, os_last s, os_next s] \<and> os_updated s > 0"

definition shown_at :: "operator_state \<Rightarrow> rat" where
  "shown_at s = (if os_cmd s > 0 then os_cmd s else os_updated s)"

section \<open>The hash\<close>

definition slot_hash :: "string \<Rightarrow> slot_state \<Rightarrow> pydict" where
  "slot_hash p s = [(p @ ''connected'', flag_text (sl_on s)), (p @ ''client_id'', PStr (int_str (sl_client s))),
     (p @ ''last_error'', PStr (case sl_error s of None \<Rightarrow> [] | Some e \<Rightarrow> e)), (p @ ''reconnects'', PStr (int_str (sl_reconnects s))),
     (p @ ''ib_probe_at'', PStr (rat_repr (sl_at s))), (p @ ''ib_probe_ok'', flag_text (sl_ok s)),
     (p @ ''ib_probe_interval_sec'', PStr (rat_repr (sl_interval s)))]"

lemma or_zero: "py_or (PFloat (Fin q)) (PInt 0) = (if q = 0 then PInt 0 else PFloat (Fin q))" "py_or (PInt i) (PInt 0) = PInt i"
  by (simp_all add: py_or_def)

lemma zero_fields [simp]: "float_field (PFloat (Fin q)) = Inr (Fin q)" "int_field (PInt i) = Inr i"
  by (simp_all add: float_field_def int_field_def or_zero)

lemma slot_fields_hash: "slot_fields p (slot_dict s) = Inr (slot_hash p s)"
  by (simp add: slot_fields_def slot_dict_def slot_hash_def jsonish_connected_def error_text_def opt_str_def split: option.split)

definition health_hash :: "operator_state \<Rightarrow> pydict" where
  "health_hash s = slot_hash ''host_'' (os_host s) @ [(''host_alive'', flag_text (os_alive s)), (''msg_count'', PStr (int_str (os_count s))),
     (''last_msg_ts'', PStr (rat_repr (shown_at s))), (''updated_at'', PStr (rat_repr (os_updated s))),
     (''service_heartbeat_interval_sec'', PStr (rat_repr (os_interval s))), (''last_service_heartbeat_at'', PStr (rat_repr (os_last s))),
     (''next_service_heartbeat_in_s'', PStr (rat_repr (os_next s))),
     (''service_heartbeat_reconnect_in_progress'', PStr (case os_busy s of None \<Rightarrow> [] | Some t \<Rightarrow> t))]
     @ (case os_second s of None \<Rightarrow> no_secondary_fields | Some z \<Rightarrow> (''secondary_present'', PStr ''1'') # slot_hash ''secondary_'' z)"

lemma to_hash:
  assumes "state_ok s"
  shows "operator_health_dict_to_redis_hash tm (health_dict s) = Inr (health_hash s)"
proof -
  have up: "py_or (PFloat (Fin (os_updated s))) (PFloat tm) = PFloat (Fin (os_updated s))" using assms by (simp add: state_ok_def py_or_def)
  have d: "dget (health_dict s) ''host'' = PDict (slot_dict (os_host s))" "dget (health_dict s) ''secondary'' = slot_value (os_second s)"
    "dget (health_dict s) ''account2'' = PNone"
    "get_default (health_dict s) ''service_alive'' x = PBool (os_alive s)" "get_default (health_dict s) ''updated_at'' x = PFloat (Fin (os_updated s))"
    "dget (health_dict s) ''last_cmd_ts'' = PFloat (Fin (os_cmd s))" "dget (health_dict s) ''cmd_count'' = PInt (os_count s)"
    "dget (health_dict s) ''service_heartbeat_interval_sec'' = PFloat (Fin (os_interval s))"
    "dget (health_dict s) ''last_service_heartbeat_at'' = PFloat (Fin (os_last s))"
    "dget (health_dict s) ''next_service_heartbeat_in_s'' = PFloat (Fin (os_next s))"
    "dget (health_dict s) ''service_heartbeat_reconnect_in_progress'' = opt_str (os_busy s)" for x
    by (simp_all add: health_dict_def get_default_def)
  have h: "slot_dict (os_host s) \<noteq> []" "dget (slot_dict (os_host s)) ''ib_probe_at'' = PFloat (Fin (sl_at (os_host s)))"
    "dget (slot_dict (os_host s)) ''ib_probe_interval_sec'' = PFloat (Fin (sl_interval (os_host s)))"
    by (simp_all add: slot_dict_def)
  show ?thesis
    by (cases "os_second s"; cases "os_busy s")
       (simp_all add: operator_health_dict_to_redis_hash_def Let_def d up h dict_of_def slot_fields_hash slot_value_def health_hash_def
         jsonish_connected_def opt_str_def shown_at_def flt_def del: float_repr.simps(2-4))
qed

section \<open>Reading it back\<close>

lemma rat_text_shown: "decimal17 q \<Longrightarrow> strip (rat_repr q) \<noteq> []"
proof
  assume q: "decimal17 q" and a: "strip (rat_repr q) = []"
  have "parse_float [] = None" by code_simp
  moreover have "parse_float (rat_repr q) = parse_float []" unfolding parse_float_def a strip_Nil ..
  ultimately show False using parse_float_repr [OF q] by simp
qed

lemma field_first_Cons: "field_first m (k # ks) = (if blank (dget m k) then field_first m ks else dget m k)"
  by (simp add: field_first_def)

lemma field_first_Nil [simp]: "field_first m [] = PNone"
  by (simp add: field_first_def)

lemma shown_values [simp]:
  "text_flag (flag_text b) = b" "text_int (PStr (int_str i)) = i" "\<not> blank (flag_text b)" "\<not> blank (PStr (int_str i))" "blank PNone"
  "blank (PStr []) " "decimal17 q \<Longrightarrow> probe_float (PStr (rat_repr q)) = Fin q"
proof -
  have "strip ''1'' = ''1''" "strip ''0'' = ''0''" by code_simp+
  then show "text_flag (flag_text b) = b" "\<not> blank (flag_text b)" by (simp_all add: text_flag_def flag_text_def blank_def)
  show "text_int (PStr (int_str i)) = i" by (simp add: text_int_def safe_int_def blank_def int_str_not_blank)
  show "\<not> blank (PStr (int_str i))" "blank PNone" "blank (PStr [])" by (simp_all add: blank_def int_str_not_blank)
  show "decimal17 q \<Longrightarrow> probe_float (PStr (rat_repr q)) = Fin q"
    by (simp add: probe_float_def blank_def float_else_def parse_float_repr rat_text_shown)
qed

lemma error_back: "(case e of None \<Rightarrow> True | Some t \<Rightarrow> strip t \<noteq> []) \<Longrightarrow>
   err_from_field (if blank (PStr (case e of None \<Rightarrow> [] | Some t \<Rightarrow> t)) then PNone else PStr (case e of None \<Rightarrow> [] | Some t \<Rightarrow> t)) = opt_str e"
  by (cases e) (auto simp: err_from_field_def opt_str_def blank_def)

text \<open>The fields of a slot, wherever the hash has them.\<close>

definition has_slot :: "string \<Rightarrow> pydict \<Rightarrow> slot_state \<Rightarrow> bool" where
  "has_slot p m s \<longleftrightarrow> (\<forall>(k, v) \<in> set (slot_hash p s). dget m k = v)"

lemma slot_back:
  assumes "has_slot p m s" "slot_ok s" "dget m err = PNone"
  shows "slot_read [p @ ''connected'', c] [p @ ''client_id'', i] [p @ ''last_error'', err] [p @ ''reconnects'', r] p m = slot_dict s"
proof -
  from assms(1) have "dget m (p @ ''connected'') = flag_text (sl_on s)" "dget m (p @ ''client_id'') = PStr (int_str (sl_client s))"
    "dget m (p @ ''last_error'') = PStr (case sl_error s of None \<Rightarrow> [] | Some e \<Rightarrow> e)" "dget m (p @ ''reconnects'') = PStr (int_str (sl_reconnects s))"
    "dget m (p @ ''ib_probe_at'') = PStr (rat_repr (sl_at s))" "dget m (p @ ''ib_probe_ok'') = flag_text (sl_ok s)"
    "dget m (p @ ''ib_probe_interval_sec'') = PStr (rat_repr (sl_interval s))"
    by (simp_all add: has_slot_def slot_hash_def)
  with assms(2,3) error_back [of "sl_error s"] show ?thesis
    by (auto simp: slot_read_def field_first_Cons slot_dict_def slot_ok_def split: if_splits)
qed

definition SLOT_KEYS :: "string list" where
  "SLOT_KEYS = [''connected'', ''client_id'', ''last_error'', ''reconnects'', ''ib_probe_at'', ''ib_probe_ok'', ''ib_probe_interval_sec'']"

definition STATE_KEYS :: "string list" where
  "STATE_KEYS = [''host_alive'', ''msg_count'', ''last_msg_ts'', ''updated_at'', ''service_heartbeat_interval_sec'', ''last_service_heartbeat_at'',
     ''next_service_heartbeat_in_s'', ''service_heartbeat_reconnect_in_progress'']"

definition HASH_KEYS :: "string list" where
  "HASH_KEYS = map (\<lambda>k. ''host_'' @ k) SLOT_KEYS @ STATE_KEYS @ [''secondary_present''] @ map (\<lambda>k. ''secondary_'' @ k) SLOT_KEYS"

lemma hash_keys: "map fst (health_hash s) = HASH_KEYS"
proof -
  have a: "map fst (slot_hash p z) = map (\<lambda>k. p @ k) SLOT_KEYS" for p z by (simp add: slot_hash_def SLOT_KEYS_def)
  have b: "map fst no_secondary_fields = ''secondary_present'' # map (\<lambda>k. ''secondary_'' @ k) SLOT_KEYS" by code_simp
  show ?thesis unfolding health_hash_def HASH_KEYS_def map_append a by (cases "os_second s") (simp_all add: a b STATE_KEYS_def)
qed

lemma hash_distinct: "distinct HASH_KEYS" "\<forall>k \<in> set LEGACY_OPERATOR_HEALTH_HASH_FIELDS. k \<notin> set HASH_KEYS"
  by code_simp+

text \<open>A hash that has the fields of the state, whatever else, and none of the old names.\<close>

definition carries :: "pydict \<Rightarrow> operator_state \<Rightarrow> bool" where
  "carries m s \<longleftrightarrow> (\<forall>(k, v) \<in> set (health_hash s). dget m k = v) \<and> (\<forall>k \<in> set LEGACY_OPERATOR_HEALTH_HASH_FIELDS. \<not> dhas m k)"

lemma in_hash: "carries m s \<Longrightarrow> (k, v) \<in> set (health_hash s) \<Longrightarrow> dget m k = v"
  by (auto simp: carries_def)

lemma hash_has_slots: "carries m s \<Longrightarrow> has_slot ''host_'' m (os_host s)" "carries m s \<Longrightarrow> os_second s = Some z \<Longrightarrow> has_slot ''secondary_'' m z"
proof -
  assume m: "carries m s"
  have "set (slot_hash ''host_'' (os_host s)) \<subseteq> set (health_hash s)" "os_second s = Some z \<Longrightarrow> set (slot_hash ''secondary_'' z) \<subseteq> set (health_hash s)"
    by (auto simp: health_hash_def)
  with m show "has_slot ''host_'' m (os_host s)" "os_second s = Some z \<Longrightarrow> has_slot ''secondary_'' m z"
    by (auto simp: has_slot_def carries_def)
qed

lemma hash_fields:
  assumes "carries m s"
  shows "dget m ''host_alive'' = flag_text (os_alive s)" "dget m ''msg_count'' = PStr (int_str (os_count s))"
    "dget m ''last_msg_ts'' = PStr (rat_repr (shown_at s))"
    "dget m ''service_heartbeat_interval_sec'' = PStr (rat_repr (os_interval s))"
    "dget m ''last_service_heartbeat_at'' = PStr (rat_repr (os_last s))"
    "dget m ''next_service_heartbeat_in_s'' = PStr (rat_repr (os_next s))"
    "dget m ''service_heartbeat_reconnect_in_progress'' = PStr (case os_busy s of None \<Rightarrow> [] | Some t \<Rightarrow> t)"
    "dget m ''secondary_present'' = PStr (if os_second s = None then ''0'' else ''1'')"
  by (rule in_hash [OF assms]; simp add: health_hash_def no_secondary_fields_def split: option.split; fail)+

lemma hash_legacy: "carries m s \<Longrightarrow> k \<in> set LEGACY_OPERATOR_HEALTH_HASH_FIELDS \<Longrightarrow> dget m k = PNone"
  by (simp add: carries_def dget_not_dhas)

definition shown_state :: "operator_state \<Rightarrow> pydict" where
  "shown_state s = (let host = PDict (slot_dict (os_host s)); alive = PBool (os_alive s); sec = slot_value (os_second s) in
     [(''host'', host), (''service_alive'', alive), (''msg_count'', PInt (os_count s)),
      (''service_heartbeat_interval_sec'', PFloat (Fin (os_interval s))), (''last_service_heartbeat_at'', PFloat (Fin (os_last s))),
      (''next_service_heartbeat_in_s'', PFloat (Fin (os_next s))),
      (''service_heartbeat_reconnect_in_progress'', PStr (case os_busy s of None \<Rightarrow> [] | Some t \<Rightarrow> strip t)),
      (''last_msg_ts'', PFloat (Fin (shown_at s))), (''secondary'', sec), (''operator'', host), (''operator_alive'', alive), (''account2'', sec)])"

lemma shown_at_decimal: "state_ok s \<Longrightarrow> decimal17 (shown_at s) \<and> shown_at s > 0"
  by (auto simp: state_ok_def shown_at_def)

lemma shown_flags [simp]:
  "text_flag (py_or (flag_text b) (PStr ''1'')) = b" "text_flag (PStr ''1'')" "\<not> text_flag (PStr ''0'')" "\<not> blank (PStr ''1'')" "\<not> blank (PStr ''0'')"
proof -
  have "strip ''1'' = ''1''" "strip ''0'' = ''0''" by code_simp+
  then show "text_flag (py_or (flag_text b) (PStr ''1'')) = b" "text_flag (PStr ''1'')" "\<not> text_flag (PStr ''0'')"
    "\<not> blank (PStr ''1'')" "\<not> blank (PStr ''0'')" by (simp_all add: py_or_def flag_text_def text_flag_def blank_def)
qed

lemma from_hash:
  assumes m: "carries m s" and ok: "state_ok s"
  shows "operator_health_dict_from_redis_hash m = Some (shown_state s)"
proof -
  have h: "m \<noteq> []" using hash_fields(1) [OF m] by (auto simp: flag_text_def)
  have host: "slot_read [''host_connected'', ''operator_connected''] [''host_client_id'', ''operator_client_id'']
      [''host_last_error'', ''operator_last_error''] [''host_reconnects'', ''reconnects''] ''host_'' m = slot_dict (os_host s)"
    using slot_back [OF hash_has_slots(1) [OF m], of "''operator_last_error''" "''operator_connected''" "''operator_client_id''" "''reconnects''"]
      ok hash_legacy [OF m, of "''operator_last_error''"] by (simp add: state_ok_def LEGACY_OPERATOR_HEALTH_HASH_FIELDS_def)
  have sec: "slot_read [''secondary_connected'', ''account2_connected''] [''secondary_client_id'', ''account2_client_id'']
      [''secondary_last_error'', ''account2_last_error''] [''secondary_reconnects'', ''account2_reconnects''] ''secondary_'' m = slot_dict z"
    if z: "os_second s = Some z" for z
    using slot_back [OF hash_has_slots(2) [OF m z], of "''account2_last_error''" "''account2_connected''" "''account2_client_id''" "''account2_reconnects''"]
      ok z hash_legacy [OF m, of "''account2_last_error''"] by (simp add: state_ok_def LEGACY_OPERATOR_HEALTH_HASH_FIELDS_def)
  have shown: "secondary_shown m = (os_second s \<noteq> None)"
    by (simp add: secondary_shown_def field_first_Cons hash_fields [OF m] Let_def)
  have ts: "float_else (Fin 0) (py_or (PStr (rat_repr (shown_at s))) (PInt 0)) = Fin (shown_at s)"
    using shown_at_decimal [OF ok] rat_text_shown [of "shown_at s"] strip_Nil by (auto simp: py_or_def float_else_def parse_float_repr)
  show ?thesis
    using ok unfolding operator_health_dict_from_redis_hash_def Let_def
    by (cases "os_second s") (simp_all add: h host sec shown field_first_Cons hash_fields [OF m] ts shown_state_def Let_def
        slot_value_def state_ok_def stripped_def split: option.split)
qed

section \<open>The lamp\<close>

text \<open>What the lamp should be, in terms of the state: a probe is unhealthy when it failed or is older than two and a half intervals (of 5 s when none is given).\<close>

definition probe_bad :: "slot_state \<Rightarrow> rat \<Rightarrow> bool" where
  "probe_bad z t \<longleftrightarrow> sl_at z > 0 \<and> (\<not> sl_ok z \<or> t - sl_at z > 5/2 * (if sl_interval z > 0 then sl_interval z else 5))"

definition wanted_lamp :: "operator_state \<Rightarrow> rat \<Rightarrow> string" where
  "wanted_lamp s t =
     (if probe_bad (os_host s) t then ''red''
      else if sl_on (os_host s) \<and> os_alive s
      then (case os_second s of None \<Rightarrow> ''green'' | Some z \<Rightarrow> if probe_bad z t \<or> \<not> sl_on z then ''yellow'' else ''green'')
      else if \<not> os_alive s then ''red''
      else if t - shown_at s \<le> 180 then ''yellow'' else ''red'')"

definition shown_slot :: "slot_state \<Rightarrow> rat \<Rightarrow> pydict" where
  "shown_slot z t = build_slot (sl_on z) (sl_client z) (sl_reconnects z) (opt_str (sl_error z)) (Fin (sl_at z), sl_ok z, Fin (sl_interval z)) (Fin t) (Fin (5/2))"

lemma shown_slot_probe: "ib_slot_probe_unhealthy (shown_slot z t) \<longleftrightarrow> probe_bad z t"
  by (auto simp: shown_slot_def build_slot_def attach_ib_probe_derived_def ib_slot_probe_unhealthy_def probe_bad_def Let_def flt_def float_or_def)

lemma shown_slot_fields [simp]:
  "dget (shown_slot z t) ''connected'' = PBool (sl_on z)" "dget (shown_slot z t) ''client_id'' = PInt (sl_client z)"
  "dget (shown_slot z t) ''reconnects'' = PInt (sl_reconnects z)"
  by (simp_all add: shown_slot_def build_slot_def attach_ib_probe_derived_def Let_def)

lemma int_shown [simp]: "safe_int d (PInt i) = Inr i"
  using int_str_not_blank [of i] by (simp add: safe_int_def blank_def)

lemma slot_float [simp]: "decimal17 q \<Longrightarrow> probe_float (PFloat (Fin q)) = Fin q"
  by (simp add: probe_float_def blank_def float_else_def rat_text_shown)

lemma nested_shown: "slot_ok z \<Longrightarrow> nested_slot d (slot_dict z) (Fin t) (Fin (5/2)) = Inr (shown_slot z t)"
  by (simp add: nested_slot_def slot_dict_def shown_slot_def jsonish_connected_def truthy_field_def slot_ok_def)

text \<open>Every default the configuration can be asked for exists.\<close>

definition config_ok :: "pydict \<Rightarrow> bool" where
  "config_ok cfg \<longleftrightarrow> (\<forall>b. \<exists>d. default_client_id Operator cfg b = Inr d)"

lemma dget_texts: "dget (map (\<lambda>(k, v). (k, PStr (py_str v))) m) k = (if dhas m k then PStr (py_str (dget m k)) else PNone)"
  by (induction m) (auto simp: dget_def dhas_def)

lemma texts_carry: "carries m s \<Longrightarrow> carries (map (\<lambda>(k, v). (k, PStr (py_str v))) m) s"
proof -
  assume m: "carries m s"
  have "\<exists>t. v = PStr t" if "(k, v) \<in> set (health_hash s)" for k v
    using that by (cases "os_second s") (auto simp: health_hash_def slot_hash_def no_secondary_fields_def flag_text_def)
  then have "(if dhas m k then PStr (py_str (dget m k)) else PNone) = v" if "(k, v) \<in> set (health_hash s)" for k v
    using that in_hash [OF m that] dget_not_dhas [of m k] by fastforce
  moreover have "dhas (map (\<lambda>(k, v). (k, PStr (py_str v))) m) k = dhas m k" for k
    by (induction m) auto
  ultimately show ?thesis using m by (auto simp: carries_def dget_texts)
qed

lemma attach_other:
  "k \<notin> {''service_heartbeat_reconnect_in_progress'', ''next_service_heartbeat_in_s'', ''last_service_heartbeat_at'', ''service_heartbeat_interval_sec''} \<Longrightarrow>
   dget (attach_service_heartbeat h tm out) k = dget out k"
  by (auto simp: attach_service_heartbeat_def attach_service_heartbeat_derived_def Let_def)

lemma operator_block:
  assumes m: "carries m s" and ok: "state_ok s" and cfg: "config_ok cfg"
  shows "\<exists>b. build_ib_socket_status Operator m cfg (Fin t) (Fin (5/2)) msg = Inr b
    \<and> dget b ''host'' = PDict (shown_slot (os_host s) t) \<and> dget b ''connected'' = PBool (sl_on (os_host s))
    \<and> dget b ''service_alive'' = PBool (os_alive s) \<and> dget b ''operator_alive'' = PBool (os_alive s)
    \<and> dget b ''secondary'' = (case os_second s of None \<Rightarrow> PNone | Some z \<Rightarrow> PDict (shown_slot z t))
    \<and> dget b ''last_msg_age_s'' = PFloat (max0 (Fin (t - shown_at s)))"
proof -
  have ne: "m \<noteq> []" using hash_fields(1) [OF m] by (auto simp: flag_text_def)
  obtain d1 d2 where d: "default_client_id Operator cfg False = Inr d1" "default_client_id Operator cfg True = Inr d2"
    using cfg by (metis config_ok_def)
  have slots: "slot_ok (os_host s)" "\<And>z. os_second s = Some z \<Longrightarrow> slot_ok z" using ok by (auto simp: state_ok_def)
  have two: "secondary_slot_configured Operator cfg (Some m) = Inr (os_second s \<noteq> None)"
  proof -
    have "truthy_field (PStr ''1'')" "\<not> truthy_field (PStr ''0'')" by code_simp+
    then have "secondary_from_hash m = Some (os_second s \<noteq> None)"
      by (simp add: secondary_from_hash_def field_first_Cons hash_fields [OF m] Let_def)
    then show ?thesis by (simp add: secondary_slot_configured_def)
  qed
  have n: "dict_of (dget (shown_state s) ''host'') = slot_dict (os_host s)" "dget (shown_state s) ''secondary'' = slot_value (os_second s)"
    "get_default (shown_state s) ''service_alive'' (PBool True) = PBool (os_alive s)" "dget (shown_state s) ''msg_count'' = PInt (os_count s)"
    "last_msg_age_s (shown_state s) (Fin t) = PFloat (max0 (Fin (t - shown_at s)))"
    using shown_at_decimal [OF ok]
    by (simp_all add: shown_state_def dict_of_def get_default_def jsonish_connected_def last_msg_age_s_def Let_def)
  have run: "operator_status m cfg (Fin t) (Fin (5/2)) msg = Inr (attach_service_heartbeat (shown_state s) (Fin t)
      (broker_block (shown_slot (os_host s) t) (sl_on (os_host s)) (os_alive s) (PFloat (max0 (Fin (t - shown_at s)))) (sl_reconnects (os_host s))
        (os_count s) (sl_client (os_host s)) (case os_second s of None \<Rightarrow> PNone | Some z \<Rightarrow> PDict (shown_slot z t))))"
    by (cases "os_second s")
       (simp_all add: operator_status_def from_hash [OF texts_carry [OF m] ok] n d two nested_shown slots slot_value_def Let_def jsonish_connected_def)
  show ?thesis
    by (simp add: build_ib_socket_status_def ne run attach_other) (simp add: broker_block_def)
qed

lemma age_recent: "fle (max0 (Fin q)) (Fin 180) \<longleftrightarrow> q \<le> 180"
  by (auto simp: max0_def flt_def)

lemma lamp_of_block:
  assumes "dget b ''host'' = PDict (shown_slot (os_host s) t)" "dget b ''connected'' = PBool (sl_on (os_host s))"
    "dget b ''service_alive'' = PBool (os_alive s)" "dget b ''operator_alive'' = PBool (os_alive s)"
    "dget b ''secondary'' = (case os_second s of None \<Rightarrow> PNone | Some z \<Rightarrow> PDict (shown_slot z t))"
    "dget b ''last_msg_age_s'' = PFloat (max0 (Fin (t - shown_at s)))"
  shows "dget (rollup_ib_broker_lamp b) ''lamp'' = PStr (wanted_lamp s t)"
  by (cases "os_second s")
     (simp_all add: rollup_ib_broker_lamp_def Let_def assms dict_of_def shown_slot_probe jsonish_connected_def lamp_def wanted_lamp_def age_recent)


section \<open>Through Redis\<close>

text \<open>A refresh writes the fields over the hash and removes the old names; a reader gets texts.\<close>

definition publish_health :: "string \<Rightarrow> pydict \<Rightarrow> (rstore, unit) tx" where
  "publish_health key m = tx_bind (update (hset key (map (\<lambda>(k, v). (k, py_str v)) m))) (\<lambda>_. prune_legacy_operator_health_hash_fields key)"

definition hash_dict :: "(string \<times> string) list \<Rightarrow> pydict" where
  "hash_dict fs = map (\<lambda>(k, v). (k, PStr v)) fs"

lemma dget_hash_dict: "dget (hash_dict fs) k = (case map_of fs k of None \<Rightarrow> PNone | Some v \<Rightarrow> PStr v)"
  and dhas_hash_dict: "dhas (hash_dict fs) k \<longleftrightarrow> map_of fs k \<noteq> None"
  by (induction fs) (auto simp: hash_dict_def)

lemma map_of_updates: "distinct (map fst fs) \<Longrightarrow> (k, v) \<in> set fs \<Longrightarrow> map_of (fold (\<lambda>(f, v). AList.update f v) fs h) k = Some v"
proof (induction fs arbitrary: h)
  case (Cons x fs)
  obtain f w where x: "x = (f, w)" by (cases x)
  have other: "j \<notin> fst ` set ys \<Longrightarrow> map_of (fold (\<lambda>(f, v). AList.update f v) ys g) j = map_of g j" for g ys j
    by (induction ys arbitrary: g) (auto simp: update_conv')
  show ?case
  proof (cases "k = f")
    case True
    with Cons.prems have "v = w" "k \<notin> fst ` set fs" by (auto simp: x image_iff)
    then show ?thesis by (simp add: x True other update_conv')
  next
    case False
    with Cons show ?thesis by (auto simp: x)
  qed
qed simp

lemma published_carries:
  assumes "calm env"
  shows "carries (hash_dict (rs_hashes (fst (snd (publish_health key (health_hash s) env (st, n)))) key)) s"
proof -
  let ?fs = "map (\<lambda>(k, v). (k, py_str v)) (health_hash s)"
  have keys: "map fst ?fs = HASH_KEYS" unfolding hash_keys [of s, symmetric] by (simp add: split_beta comp_def)
  have h: "rs_hashes (fst (snd (publish_health key (health_hash s) env (st, n)))) key =
      filter (\<lambda>e. fst e \<notin> set LEGACY_OPERATOR_HEALTH_HASH_FIELDS) (fold (\<lambda>(f, v). AList.update f v) ?fs (rs_hashes st key))"
    using assms by (simp add: publish_health_def prune_legacy_operator_health_hash_fields_def attempt_def tx_simps calm_def)
  have "dget (hash_dict (rs_hashes (fst (snd (publish_health key (health_hash s) env (st, n)))) key)) k = v" if kv: "(k, v) \<in> set (health_hash s)" for k v
  proof -
    have "\<exists>t. v = PStr t"
      using kv by (cases "os_second s") (auto simp: health_hash_def slot_hash_def no_secondary_fields_def flag_text_def)
    moreover have "k \<notin> set LEGACY_OPERATOR_HEALTH_HASH_FIELDS" using hash_distinct(2) kv hash_keys [of s] by (metis fst_conv image_eqI list.set_map)
    moreover have "map_of (fold (\<lambda>(f, v). AList.update f v) ?fs (rs_hashes st key)) k = Some (py_str v)"
      using kv keys hash_distinct(1) by (intro map_of_updates) force+
    ultimately show ?thesis unfolding h dget_hash_dict map_of_filter_keys by auto
  qed
  moreover have "\<not> dhas (hash_dict (rs_hashes (fst (snd (publish_health key (health_hash s) env (st, n)))) key)) k"
    if "k \<in> set LEGACY_OPERATOR_HEALTH_HASH_FIELDS" for k
    unfolding h dhas_hash_dict map_of_filter_keys using that by simp
  ultimately show ?thesis by (auto simp: carries_def)
qed

text \<open>
  C29. The operator's record survives Redis: written over any older hash, whatever it held, with the old names
  removed, it is read back as the same record, a missing second slot included.
\<close>

theorem operator_health_round_trip:
  assumes "state_ok s" and "calm env"
  shows "\<exists>m. operator_health_dict_to_redis_hash tm (health_dict s) = Inr m
     \<and> operator_health_dict_from_redis_hash (hash_dict (rs_hashes (fst (snd (publish_health key m env (st, n)))) key)) = Some (shown_state s)"
  using to_hash [OF assms(1)] from_hash [OF published_carries [OF assms(2)] assms(1)] by blast

text \<open>
  C18. The lamp tells the state: from the operator's record, over Redis and the status block, the lamp is green
  exactly when the process is alive, the host is connected with a healthy probe and so is the second slot
  where there is one; yellow when only the second slot is not well, or the host is not connected but the
  service spoke within three minutes; red otherwise.
\<close>

theorem the_lamp_tells_the_state:
  assumes "state_ok s" and "calm env" and "config_ok cfg"
  shows "\<exists>m b. operator_health_dict_to_redis_hash tm (health_dict s) = Inr m
     \<and> build_ib_socket_status Operator (hash_dict (rs_hashes (fst (snd (publish_health key m env (st, n)))) key)) cfg (Fin t) (Fin (5/2)) msg = Inr b
     \<and> dget (rollup_ib_broker_lamp b) ''lamp'' = PStr (wanted_lamp s t)"
proof -
  from operator_block [OF published_carries [OF assms(2)] assms(1,3)] obtain b where
    "build_ib_socket_status Operator (hash_dict (rs_hashes (fst (snd (publish_health key (health_hash s) env (st, n)))) key)) cfg (Fin t) (Fin (5/2)) msg = Inr b"
    "dget (rollup_ib_broker_lamp b) ''lamp'' = PStr (wanted_lamp s t)" using lamp_of_block by metis
  with to_hash [OF assms(1)] show ?thesis by blast
qed

definition sample_slot :: slot_state where
  "sample_slot = \<lparr>sl_on = True, sl_client = 100, sl_error = None, sl_reconnects = 2, sl_at = 1000, sl_ok = True, sl_interval = 5\<rparr>"

definition sample_operator :: operator_state where
  "sample_operator = \<lparr>os_host = sample_slot, os_second = Some (sample_slot\<lparr>sl_on := False, sl_error := Some ''refused''\<rparr>), os_alive = True, os_count = 3,
     os_cmd = 0, os_updated = 1001, os_interval = 30, os_last = 990, os_next = 19, os_busy = None\<rparr>"

lemma sample_state_ok: "state_ok sample_operator"
proof -
  have d: "decimal17 (numeral n)" "decimal17 0" for n
    using decimal17_of_int [of "numeral n"] decimal17_of_int [of 0] by simp_all
  have "strip ''refused'' \<noteq> []" by code_simp
  then show ?thesis by (simp add: state_ok_def slot_ok_def sample_operator_def sample_slot_def d)
qed

theorem operator_health_round_trip_witness:
  "\<exists>m d. operator_health_dict_to_redis_hash (Fin 0) (health_dict sample_operator) = Inr m
     \<and> operator_health_dict_from_redis_hash (hash_dict (rs_hashes (fst (snd (publish_health ''k'' m (calm_env 0) (empty_store, 0)))) ''k'')) = Some d
     \<and> dget (dict_of (dget d ''secondary'')) ''last_error'' = PStr ''refused''"
proof -
  have "calm (calm_env 0)" by (simp add: calm_def)
  from operator_health_round_trip [OF sample_state_ok this, of "Fin 0" "''k''" empty_store 0] obtain m where
    "operator_health_dict_to_redis_hash (Fin 0) (health_dict sample_operator) = Inr m"
    "operator_health_dict_from_redis_hash (hash_dict (rs_hashes (fst (snd (publish_health ''k'' m (calm_env 0) (empty_store, 0)))) ''k'')) = Some (shown_state sample_operator)"
    by blast
  moreover have "dget (dict_of (dget (shown_state sample_operator) ''secondary'')) ''last_error'' = PStr ''refused''"
    by (simp add: shown_state_def sample_operator_def slot_value_def slot_dict_def opt_str_def dict_of_def Let_def)
  ultimately show ?thesis by blast
qed

theorem the_lamp_tells_the_state_witness:
  "\<exists>m b. operator_health_dict_to_redis_hash (Fin 0) (health_dict sample_operator) = Inr m
     \<and> build_ib_socket_status Operator (hash_dict (rs_hashes (fst (snd (publish_health ''k'' m (calm_env 0) (empty_store, 0)))) ''k'')) [] (Fin 1002) (Fin (5/2)) [] = Inr b
     \<and> dget (rollup_ib_broker_lamp b) ''lamp'' = PStr ''yellow''"
proof -
  have "config_ok []" by (auto simp: config_ok_def default_client_id_def safe_int_def py_or_def)
  moreover have "calm (calm_env 0)" by (simp add: calm_def)
  moreover have "wanted_lamp sample_operator 1002 = ''yellow''"
    by (simp add: wanted_lamp_def sample_operator_def sample_slot_def probe_bad_def)
  ultimately show ?thesis
    using the_lamp_tells_the_state [OF sample_state_ok, of "calm_env 0" "[]" "Fin 0" "''k''" empty_store 0 1002 "[]"] by simp
qed

text \<open>
  The operator's slot falls back on the configured client identifier nowhere: the record read from the hash
  has 0 where the hash has none.
\<close>

lemma configured_client_unused:
  "(case build_ib_socket_status Operator [(''host_connected'', PStr ''1'')] [(''client_id_operator'', PInt 77)] (Fin 1000) (Fin (5/2)) [] of
      Inr b \<Rightarrow> dget b ''client_id'' = PInt 0 | Inl _ \<Rightarrow> False)
   \<and> (case build_ib_socket_status AccountAgent [(''host_connected'', PStr ''1'')] [(''client_id_account_agent'', PInt 77)] (Fin 1000) (Fin (5/2)) [] of
      Inr b \<Rightarrow> dget b ''client_id'' = PInt 77 | Inl _ \<Rightarrow> False)"
  by code_simp

section \<open>The host of a service\<close>

text \<open>A host that is there is never replaced, whatever the environment refuses; one that is missing is restored.\<close>

lemma host_is_kept:
  assumes "strip h \<noteq> []" and "map_of (rs_hashes s key) CONTROL_HOST = Some h"
  shows "map_of (rs_hashes (fst (snd (maintain_health_host key profile host tm env (s, n)))) key) CONTROL_HOST = Some h"
proof -
  have "h \<noteq> []" using assms(1) by auto
  moreover have "CONTROL_UPDATED \<noteq> CONTROL_HOST" by code_simp
  ultimately show ?thesis using assms
    by (simp add: maintain_health_host_def attempt_def hget_def health_host_write_def tx_simps update_conv' split: option.split) (use assms(2) in auto)
qed

lemma host_is_restored:
  assumes "calm env" and "map_of (rs_hashes s key) CONTROL_HOST = None" and "key \<noteq> []" and "profile \<noteq> []"
  shows "map_of (rs_hashes (fst (snd (maintain_health_host key (Some profile) host tm env (s, n)))) key) CONTROL_HOST = Some host"
    and "map_of (rs_hashes (fst (snd (maintain_health_host key (Some profile) host tm env (s, n)))) key) CONTROL_ENV = Some profile"
    and "map_of (rs_hashes (fst (snd (maintain_health_host key (Some profile) host tm env (s, n)))) key) CONTROL_UPDATED = Some (float_repr tm)"
proof -
  have "CONTROL_UPDATED \<noteq> CONTROL_HOST" "CONTROL_ENV \<noteq> CONTROL_HOST" "CONTROL_ENV \<noteq> CONTROL_UPDATED" by code_simp+
  with assms show "map_of (rs_hashes (fst (snd (maintain_health_host key (Some profile) host tm env (s, n)))) key) CONTROL_HOST = Some host"
    "map_of (rs_hashes (fst (snd (maintain_health_host key (Some profile) host tm env (s, n)))) key) CONTROL_ENV = Some profile"
    "map_of (rs_hashes (fst (snd (maintain_health_host key (Some profile) host tm env (s, n)))) key) CONTROL_UPDATED = Some (float_repr tm)"
    by (simp_all add: maintain_health_host_def attempt_def hget_def health_host_write_def set_text_def tx_simps calm_def update_conv')
qed

end
