(* ===== verification/Spec2Isabelle.thy ===== *)
theory Spec2Isabelle
  imports Plan_Properties Desk_Claims Payoff_Claims Car_Claims Account_Claims Fifo_Claims Fill_Claims Paging_Claims Performance_Reads Win_Rate_Claims Trade_List_Claims Preference_Claims Link_Claims Message_Claims Gate_Daemon Structure_Claims On_Demand_Claims Health_Claims
begin

text \<open>
  bifrost-trade-core: the library under \<open>src/src/bifrost_core\<close> that the trading services share. Its
  monitor half (\<open>monitor/\<close>) reads and writes the desk's own tables (trade plans, opportunities,
  allocations, gate sets, settings); its portfolio half (\<open>portfolio/\<close>) records executions and
  attributes them to trades, pairs option legs, and computes payoff and risk from account rows.
  \<open>persistence/\<close>, \<open>core/\<close>, \<open>config/\<close>, \<open>ib_operator/\<close> and \<open>monitor/integrations\<close> connect the two
  to PostgreSQL, Redis and the broker.

  \<^bold>\<open>How the code is modelled.\<close> A function of the source is a HOL function on dynamically typed
  values. An exception is the left value of a sum. A database is a record of tables; a row is a
  dictionary or a record. A writer takes an environment that says whether the connection opens,
  which statements raise and what, and what the database coerces, and returns its answer with the
  database it leaves. Facts hold for every environment, so for every failure. A row lock makes one
  call one step; sequences of calls stand for concurrent clients. Two databases commit one after the
  other, so the second commit can fail alone.

  \<^bold>\<open>The parts.\<close>
  \<^item> \<open>Py_Prelude\<close>, \<open>Py_Value\<close>: text, integers, floats as exact rationals with infinities and NaN,
    dictionaries, \<open>int()\<close>, \<open>float()\<close>, \<open>str()\<close>, dates and moments of the standard library.
    \<open>Calendar\<close>: its date arithmetic is the Gregorian calendar and its ISO texts read back.
    \<open>Json_Text\<close>: \<open>json.dumps\<close> and \<open>json.loads\<close>.
  \<^item> \<open>Write_Support\<close> (\<open>monitor/reader/errors.py\<close>, \<open>write_support.py\<close>): outcomes, transactions,
    the checks of a PATCH body; the locales \<open>kept_invariant\<close>, \<open>atomic_writer\<close>, \<open>invariant_writer\<close>,
    the contract of a writer, interpreted on the writers of the two next parts.
  \<^item> \<open>Trade_Plan\<close> (\<open>monitor/reader/strategy_plan.py\<close>): rules, readers and every writer of plans.
    \<open>Plan_Machine\<close> is the abstract life of a plan and the simulation by the writers;
    \<open>Plan_Properties\<close> has the properties: the lifecycle, the table's invariant, frozen content,
    failures that change nothing.
  \<^item> \<open>Desk_Rules\<close> (\<open>strategy_opportunity_write.py\<close>, \<open>strategy_allocation_write.py\<close>,
    \<open>strategy_rules_delete.py\<close>, \<open>settings.py\<close>); \<open>Desk_Properties\<close>, \<open>Desk_Claims\<close>: referential integrity
    over any sequence of calls, deletes that spare what is in use, the order of memberships.
  \<^item> \<open>Payoff\<close> (\<open>portfolio/model/payoff.py\<close>); \<open>Payoff_Envelope\<close>, \<open>Payoff_Claims\<close>: the grid's extremes
    and break-evens are those of the payoff over all prices.
  \<^item> \<open>Car\<close> (\<open>portfolio/model/core.py\<close>, \<open>units.py\<close>, \<open>quote_freshness.py\<close>); \<open>Car_Claims\<close>,
    \<open>Account_Claims\<close>: capital at risk, groups of account rows, stress tables.
  \<^item> \<open>Fifo\<close> (\<open>portfolio/reader/accounts_helpers.py\<close>); \<open>Fifo_Claims\<close>: the pairing loop ends, is the
    textbook first-in-first-out matching and conserves quantity and fees; the calendar of results.
  \<^item> \<open>Contract_Key\<close> (\<open>portfolio/contract_key.py\<close>, \<open>signed_qty.py\<close>): the keys of contracts and the
    sign of a fill.
  \<^item> \<open>Fills\<close>, \<open>Fill_Writers\<close>, \<open>Fill_Imports\<close> (\<open>portfolio/reader/accounts.py\<close>,
    \<open>persistence/postgres/commissions.py\<close>): raw executions in the Golden Source, their attribution in
    the environment's database, patches, splits, deletes, imports, commissions. \<open>Fill_Properties\<close>,
    \<open>Fill_Claims\<close>: a patch refines the abstract attribution, a fill is attributed one way, splits
    add up, a failure leaves both databases.
  \<^item> \<open>Keyset\<close> (\<open>portfolio/reader/keyset.py\<close>, the paged readers of \<open>executions.py\<close>);
    \<open>Keyset_Codec\<close>: cursors read back; \<open>Paging\<close>: the locale \<open>paged_list\<close>, what a paged reader promises,
    interpreted on both readers; \<open>Paging_Claims\<close>: following the cursors.
  \<^item> \<open>Tally\<close>: tables filled in one pass over a list, keyed by a function of its elements: the shape
    of every breakdown, with the locale \<open>counted\<close> that says when a table's totals are the list's.
    \<open>Performance\<close> (the performance page of \<open>executions.py\<close>); \<open>Performance_Claims\<close>: the breakdowns by
    trade, symbol, strategy and month add up to the summary, the drawdown is the deepest fall.
  \<^item> \<open>Trade_Result\<close> (\<open>portfolio/reader/instance_exec_net_pnl.py\<close>, the costs of
    \<open>option_stock_link.py\<close>); \<open>Trade_Result_Claims\<close>: the results of all trades add up to that of the
    fills they share, and what splits of both signs do to it.
  \<^item> \<open>Trade_State\<close> (\<open>monitor/reader/instance_state.py\<close>); \<open>Trade_State_Claims\<close>: the state read off a
    trade's positions and fills, and that it only moves forward as time passes.
  \<^item> \<open>Win_Rate\<close> (\<open>monitor/reader/strategy_win_rate.py\<close>); \<open>Win_Rate_Claims\<close>: the table by structure
    accounts for every trade and for the fills behind it; the maximum risk.
  \<^item> \<open>Trades\<close> (the writers of \<open>strategy_instance.py\<close>, \<open>trade_review.py\<close>), \<open>Trade_List\<close> (its list);
    \<open>Trade_Claims\<close>, \<open>Trade_List_Claims\<close>: no write leaves a dangling reference, a trade is deleted
    exactly when nothing names it, reviews hold clean tags, the list shows each trade once.
  \<^item> \<open>Performance_Reads\<close>: the reads of the performance page and of one trade's summary, with their filters and
    limits; where both are complete, a trade's row is its summary.
  \<^item> \<open>Preferences\<close> (\<open>portfolio/reader/position_categories.py\<close>, \<open>instrument_class.py\<close>,
    \<open>monitor/reader/watchlist.py\<close>, \<open>saved_search.py\<close>); \<open>Preference_Claims\<close>: categories refine a board of named columns.
  \<^item> \<open>Stock_Links\<close> (the writers of \<open>portfolio/reader/option_stock_link.py\<close>); \<open>Link_Claims\<close>: a link joins an option
    and a stock fill of one underlying, whatever is called.
  \<^item> \<open>Message_Center\<close>, \<open>Text_Roundtrip\<close> (\<open>core/message_center.py\<close>); \<open>Message_Claims\<close>: the tracker publishes the
    changes of a connection, what is published reads back, the desk's list shows the newest.
  \<^item> \<open>Gate_Params\<close> (\<open>monitor/reader/gate_safety.py\<close>, \<open>gate_safety_write.py\<close>, \<open>monitor/schemas/gate_params.py\<close>,
    \<open>core/dict_merge.py\<close>, \<open>config/settings.py\<close>); \<open>Gate_Claims\<close>, \<open>Gate_Daemon\<close>: a patch stores what it sends and
    nothing else, sets stay valid, the daemon's flat limits are the stored leaves.
  \<^item> \<open>Templates\<close>, \<open>Template_Writers\<close> (\<open>template_config.py\<close>, \<open>template_config_write.py\<close>,
    \<open>strategy_structure_write.py\<close>, \<open>structure_type_schema.py\<close>, \<open>strategy.py\<close> under \<open>monitor/reader\<close>); \<open>Template_Claims\<close>, \<open>Structure_Claims\<close>:
    codes, legs and parameters stay consistent, a structure takes its template's legs.
  \<^item> \<open>On_Demand\<close> (\<open>core/realtime/on_demand_stk.py\<close>, \<open>on_demand_opt.py\<close>); \<open>On_Demand_Claims\<close>: the locale
    \<open>on_demand_keys\<close>, interpreted on both modules: a list is the map of what was asked for and when.
  \<^item> \<open>Health\<close> (\<open>ib_operator/health_redis.py\<close>, \<open>core/redis_health_keys.py\<close>, \<open>core/ops_lease.py\<close>,
    \<open>monitor/integrations/ib_socket_status.py\<close>, \<open>ib_probe_derived.py\<close>); \<open>Health_Claims\<close>: the operator's record
    survives Redis and the lamp shows its state.

  \<^bold>\<open>How the parts meet.\<close> The writers of plans, rules and fills run in the transactions of
  \<open>Write_Support\<close> and report its outcomes. A plan is filled with a trade whose row the plan database
  holds; fills are attributed to trades of their own account. The keys and signed quantities of
  \<open>Contract_Key\<close> are what the writers of fills store. The analysis groups account rows and hands each
  group to the payoff engine. The paged readers return the rows the fill writers wrote. The result
  of a trade is computed from the fills attributed to it, the win rate from those results and the
  state of each trade, and the list of trades shows each with its state. The gate sets that the writers keep valid are
  what the daemon's sections read, and the lamp is computed from the hash that the operator's writer left.

  \<^bold>\<open>What is a parameter.\<close> The database's coercions and faults and the clock (\<open>env\<close>); the time zone of Chicago; the
  validator of gate parameters and the leg model, pydantic's, with the laws it documents; Redis as a
  record of operations or as maps of sets, hashes and keys, any command of which may fail; fresh
  identifiers; option prices. Every property with such a parameter has a witness with a concrete one.

  \<^bold>\<open>Bounds and fuel.\<close> The JSON parser's fuel is the length of the text; a value takes at most one
  unit per character, so a text the writer produced is always read. The year of a day number is
  searched in a window of 22 years, which contains it for every day of the years 1 to 9999.
  Python's \<open>float\<close> arithmetic is exact here: rounding is not modelled, and properties of money hold
  up to it. Identifiers in cursors are below ten to the nineteenth, above the range of a bigint.
  Text is ASCII, or the sequence of its UTF-8 bytes where the code handles bytes.

  \<^bold>\<open>Not modelled.\<close> SQL the database computes with beyond the statements of the writers and the filters of the
  paged readers (views, windowed calendars, attribution of positions), database schemas and
  migrations, which only the database runs; the nightly snapshots, quotes and subscriptions over Redis and the
  status sink, which mostly move columns between the broker, Redis and the database; clients of HTTP and of the
  broker's gateway, YAML configuration, metrics and logging, which are input and output; option pricing, whose
  exponentials the model takes as prices; and pydantic schemas, which validate outside the repository.
  Timestamps the database sets itself are not kept in rows.
\<close>

end
